(* ===== verification/Prelude.thy ===== *)
theory Prelude
  imports Main "HOL-Library.AList" "HOL-Library.List_Lexorder" "HOL-Library.Char_ord"
    "HOL-Library.Product_Lexorder"
begin

text \<open>
  What every component of the development shares.

  \<^item> Python exceptions as values: \<open>py_error\<close>, the result type \<open>'a res\<close>, sequencing
    \<open>res_bind\<close> and the first-failing-check combinator \<open>checks\<close> for validators that are a
    sequence of \<open>if bad: raise ValueError(msg)\<close>.
  \<^item> Python dictionaries: association lists with distinct keys. \<open>AList.update\<close> keeps the place
    of an existing key and appends a new one, which is the insertion order a \<open>dict\<close> keeps.
  \<^item> \<open>min(items, key=...)\<close>, \<open>list.index\<close>, \<open>sorted\<close> (\<open>sort_key\<close>, stable as Python's).
    Strings are compared as Python compares them, by code point (\<open>List_Lexorder\<close>, \<open>Char_ord\<close>).
  \<^item> Two interfaces: \<open>inductive_invariant\<close> (a step relation and a predicate its steps keep) and
    \<open>contraction\<close> (an authority order and an intersection that only contracts it).
\<close>

named_theorems checked \<open>inversion of validators and of results\<close>
named_theorems dict_simps \<open>association lists as dictionaries\<close>

section \<open>Errors as values\<close>

datatype py_error =
    ValueError string
  | KeyError
  | RuntimeError string
  | AssertionError
  | JournalUnavailable string
  | InvalidLeaseTransition string
  | AccountBindingConflict string
  | CredentialAttestationRollback string
  | ClientAuthenticationError
  | InvalidClientKeyMaterial
  | AdmissionUnavailable string
  | TypeError string
  | OSError
  | TimeoutError string
  | InjectedCrash string
  | CancelledError
  | StopIteration
  | DatabaseError
  | SignatureVerificationError string
  | UnknownTrustEpoch
  | UnknownSigningKey
  | UnknownChannelEpoch
  | UnknownChannelKey
  | CommandChainGap
  | DuplicateCommand string
  | CommandInstallationMismatch
  | CommandBootMismatch
  | StaleSecurityEpoch
  | StaleFenceEpoch

type_synonym 'a res = "py_error + 'a"

primrec res_bind :: "('e + 'a) \<Rightarrow> ('a \<Rightarrow> 'e + 'b) \<Rightarrow> ('e + 'b)" where
  "res_bind (Inl e) f = Inl e"
| "res_bind (Inr x) f = f x"

primrec res_map :: "('a \<Rightarrow> 'b) \<Rightarrow> ('e + 'a) \<Rightarrow> ('e + 'b)" where
  "res_map f (Inl e) = Inl e"
| "res_map f (Inr x) = Inr (f x)"

primrec res_mapM :: "('a \<Rightarrow> 'e + 'b) \<Rightarrow> 'a list \<Rightarrow> 'e + 'b list" where
  "res_mapM f [] = Inr []"
| "res_mapM f (x # xs) = res_bind (f x) (\<lambda>y. res_map ((#) y) (res_mapM f xs))"

primrec is_ok :: "('e + 'a) \<Rightarrow> bool" where
  "is_ok (Inl e) = False"
| "is_ok (Inr x) = True"

fun checks :: "(bool \<times> string) list \<Rightarrow> 'a \<Rightarrow> 'a res" where
  "checks [] v = Inr v"
| "checks ((bad, msg) # cs) v = (if bad then Inl (ValueError msg) else checks cs v)"

lemma res_bind_Inr [checked]: "res_bind m f = Inr y \<longleftrightarrow> (\<exists>x. m = Inr x \<and> f x = Inr y)"
  by (cases m) auto

lemma res_bind_Inl: "res_bind m f = Inl e \<longleftrightarrow> m = Inl e \<or> (\<exists>x. m = Inr x \<and> f x = Inl e)"
  by (cases m) auto

lemma res_map_Inr [checked]: "res_map f m = Inr y \<longleftrightarrow> (\<exists>x. m = Inr x \<and> f x = y)"
  by (cases m) auto

lemma res_mapM_Inr: "res_mapM f xs = Inr ys \<longleftrightarrow> list_all2 (\<lambda>x y. f x = Inr y) xs ys"
  by (induction xs arbitrary: ys) (auto simp: res_bind_Inr res_map_Inr list_all2_Cons1)

lemma res_mapM_id: "(\<forall>x \<in> set xs. f x = Inr x) \<Longrightarrow> res_mapM f xs = Inr xs"
  by (induction xs) auto

lemma is_ok_iff [checked]: "is_ok m \<longleftrightarrow> (\<exists>x. m = Inr x)"
  by (cases m) auto

text \<open>\<open>none_bad cs\<close>: no check of the list raises.\<close>

primrec none_bad :: "(bool \<times> string) list \<Rightarrow> bool" where
  "none_bad [] = True"
| "none_bad (c # cs) = (\<not> fst c \<and> none_bad cs)"

lemma none_bad_append [simp]: "none_bad (cs @ ds) \<longleftrightarrow> none_bad cs \<and> none_bad ds"
  by (induction cs) auto

lemma none_bad_concat [simp]: "none_bad (concat css) \<longleftrightarrow> (\<forall>cs \<in> set css. none_bad cs)"
  by (induction css) auto

lemma none_bad_map [simp]: "none_bad (map f xs) \<longleftrightarrow> (\<forall>x \<in> set xs. \<not> fst (f x))"
  by (induction xs) auto

lemma checks_Inr [checked]: "checks cs v = Inr w \<longleftrightarrow> w = v \<and> none_bad cs"
  by (induction cs v rule: checks.induct) auto

declare checks.simps(2) [simp del]

lemma checks_append: "checks (cs @ ds) v = res_bind (checks cs v) (checks ds)"
  by (induction cs v rule: checks.induct) (auto simp: checks.simps)

section \<open>Dictionaries, searches and sorting\<close>

type_synonym ('k, 'v) dict = "('k \<times> 'v) list"

abbreviation dict_wf :: "('k, 'v) dict \<Rightarrow> bool" where
  "dict_wf d \<equiv> distinct (map fst d)"

definition dict_get :: "('k, 'v) dict \<Rightarrow> 'k \<Rightarrow> 'v \<Rightarrow> 'v" where
  "dict_get d k v = (case map_of d k of None \<Rightarrow> v | Some x \<Rightarrow> x)"

abbreviation dict_has :: "('k, 'v) dict \<Rightarrow> 'k \<Rightarrow> bool" where
  "dict_has d k \<equiv> k \<in> set (map fst d)"

text \<open>A dict comprehension over pairs: a later pair with the same key overwrites.\<close>

definition dict_of :: "('k \<times> 'v) list \<Rightarrow> ('k, 'v) dict" where
  "dict_of xs = fold (\<lambda>(k, v). AList.update k v) xs []"

definition has_dup :: "'a list \<Rightarrow> bool" where
  "has_dup xs \<longleftrightarrow> card (set xs) \<noteq> length xs"

primrec min_on :: "('a \<Rightarrow> 'k::linorder) \<Rightarrow> 'a list \<Rightarrow> 'a option" where
  "min_on k [] = None"
| "min_on k (x # xs) =
     (case min_on k xs of None \<Rightarrow> Some x | Some y \<Rightarrow> if k x \<le> k y then Some x else Some y)"

primrec index_of :: "'a list \<Rightarrow> 'a \<Rightarrow> nat option" where
  "index_of [] y = None"
| "index_of (x # xs) y = (if x = y then Some 0 else map_option Suc (index_of xs y))"

lemma has_dup_iff [simp]: "has_dup xs \<longleftrightarrow> \<not> distinct xs"
  unfolding has_dup_def by (metis card_distinct distinct_card)

lemma min_on_None [simp]: "min_on k xs = None \<longleftrightarrow> xs = []"
  by (cases xs) (auto split: option.splits)

lemma min_on_in: "min_on k xs = Some y \<Longrightarrow> y \<in> set xs"
  by (induction xs arbitrary: y) (auto split: option.splits if_splits)

lemma min_on_le: "min_on k xs = Some y \<Longrightarrow> z \<in> set xs \<Longrightarrow> k y \<le> k z"
proof (induction xs arbitrary: y)
  case (Cons x xs)
  show ?case
  proof (cases "min_on k xs")
    case None
    with Cons.prems show ?thesis by auto
  next
    case (Some w)
    with Cons.prems Cons.IH [OF Some] show ?thesis
      by (auto split: if_splits)
  qed
qed simp

lemma min_on_exists: "xs \<noteq> [] \<Longrightarrow> \<exists>y. min_on k xs = Some y"
  by (metis min_on_None not_None_eq)

lemma index_of_None [simp]: "index_of xs y = None \<longleftrightarrow> y \<notin> set xs"
  by (induction xs) auto

lemma index_of_Some: "index_of xs y = Some i \<Longrightarrow> i < length xs \<and> xs ! i = y"
  by (induction xs arbitrary: i) (auto split: if_splits)

lemma index_of_exists: "y \<in> set xs \<Longrightarrow> \<exists>i < length xs. index_of xs y = Some i"
  by (induction xs) auto

lemma dict_get_cong: "map_of d = map_of e \<Longrightarrow> dict_get d = dict_get e"
  by (simp add: dict_get_def fun_eq_iff)

lemma dict_get_update [simp]:
  "dict_get (AList.update k v d) k' w = (if k' = k then v else dict_get d k' w)"
  by (simp add: dict_get_def update_conv')

lemma dict_get_Nil [simp]: "dict_get [] k v = v"
  by (simp add: dict_get_def)

lemma dict_get_in: "dict_get d k v = v \<or> (k, dict_get d k v) \<in> set d"
  by (auto simp: dict_get_def split: option.splits dest: map_of_SomeD)

lemma map_of_update [dict_simps]: "map_of (AList.update k v d) = (map_of d)(k \<mapsto> v)"
  by (rule update_conv')

lemma map_of_delete_upd [dict_simps]: "map_of (AList.delete k d) = (map_of d)(k := None)"
  by (rule delete_conv')

lemma dict_wf_update [intro, dict_simps]: "dict_wf d \<Longrightarrow> dict_wf (AList.update k v d)"
  by (rule distinct_update)

lemma dict_wf_delete [intro, dict_simps]: "dict_wf d \<Longrightarrow> dict_wf (AList.delete k d)"
  by (rule distinct_delete)

lemma dict_wf_filter [intro]: "dict_wf d \<Longrightarrow> dict_wf (filter P d)"
  by (induction d) auto

lemma set_update_wf:
  "dict_wf d \<Longrightarrow> set (AList.update k v d) = insert (k, v) {p \<in> set d. fst p \<noteq> k}"
  by (induction d) (auto simp: image_iff)

lemma length_delete_wf: "dict_wf d \<Longrightarrow> map_of d k = Some v \<Longrightarrow> length (AList.delete k d) + 1 = length d"
proof (induction d)
  case (Cons p d)
  show ?case
  proof (cases "fst p = k")
    case True
    with Cons.prems have "AList.delete k d = d" by (auto simp: delete_idem)
    with True show ?thesis by (cases p) simp
  next
    case False
    with Cons show ?thesis by (cases p) auto
  qed
qed simp

lemma set_delete: "set (AList.delete k d) = {p \<in> set d. fst p \<noteq> k}"
  by (auto simp: AList.delete_eq)

lemma dict_has_map_of: "dict_has d k \<longleftrightarrow> map_of d k \<noteq> None"
  by (auto simp: map_of_eq_None_iff)

lemma update_new: "\<not> dict_has d k \<Longrightarrow> AList.update k v d = d @ [(k, v)]"
  by (induction d) auto

lemma update_known:
  "dict_wf d \<Longrightarrow> map_of d k = Some w \<Longrightarrow>
    AList.update k v d = map (\<lambda>p. if fst p = k then (k, v) else p) d"
proof (induction d)
  case (Cons p d)
  show ?case
  proof (cases "fst p = k")
    case True
    with Cons.prems have "\<forall>q \<in> set d. fst q \<noteq> k" by (auto simp: image_iff)
    then have "map (\<lambda>q. if fst q = k then (k, v) else q) d = d"
      by (induction d) auto
    with True show ?thesis by simp
  next
    case False
    with Cons show ?thesis by (cases p) auto
  qed
qed simp

lemma map_of_in_wf: "dict_wf d \<Longrightarrow> (k, v) \<in> set d \<longleftrightarrow> map_of d k = Some v"
  by (metis map_of_eq_Some_iff)

lemma dict_of_snoc: "dict_of (xs @ [(k, v)]) = AList.update k v (dict_of xs)"
  by (simp add: dict_of_def)

lemma dict_of_distinct: "distinct (map fst xs) \<Longrightarrow> dict_of xs = xs"
proof (induction xs rule: rev_induct)
  case (snoc x xs)
  then show ?case
    by (cases x) (auto simp: dict_of_snoc update_new)
qed (simp add: dict_of_def)

lemma dict_wf_dict_of [simp]: "dict_wf (dict_of xs)"
proof (induction xs rule: rev_induct)
  case (snoc x xs)
  then show ?case by (cases x) (simp only: dict_of_snoc distinct_update)
qed (simp add: dict_of_def)

lemma map_of_sort_key:
  "dict_wf d \<Longrightarrow> map_of (sort_key f d) = map_of d"
proof -
  assume wf: "dict_wf d"
  have "distinct d" using wf by (simp add: distinct_map)
  moreover have "inj_on fst (set d)" using wf by (simp add: distinct_map)
  ultimately have "dict_wf (sort_key f d)" by (simp add: distinct_map)
  with wf show ?thesis by (intro map_of_inject_set [THEN iffD2]) auto
qed

lemma dict_wf_sort_key: "dict_wf d \<Longrightarrow> dict_wf (sort_key f d)"
  by (auto simp: distinct_map)

lemma sum_list_map_filter_le:
  "(\<And>x. x \<in> set xs \<Longrightarrow> (0::int) \<le> f x) \<Longrightarrow> sum_list (map f (filter P xs)) \<le> sum_list (map f xs)"
  by (induction xs) force+

section \<open>Step relations and their invariants\<close>

inductive reachable :: "('s \<Rightarrow> bool) \<Rightarrow> ('s \<Rightarrow> 's \<Rightarrow> bool) \<Rightarrow> 's \<Rightarrow> bool"
  for init :: "'s \<Rightarrow> bool" and stp :: "'s \<Rightarrow> 's \<Rightarrow> bool" where
  start: "init s \<Longrightarrow> reachable init stp s"
| step: "reachable init stp s \<Longrightarrow> stp s t \<Longrightarrow> reachable init stp t"

locale inductive_invariant =
  fixes init :: "'s \<Rightarrow> bool"
    and stp :: "'s \<Rightarrow> 's \<Rightarrow> bool"
    and invar :: "'s \<Rightarrow> bool"
  assumes invar_init: "init s \<Longrightarrow> invar s"
    and invar_step: "invar s \<Longrightarrow> stp s t \<Longrightarrow> invar t"
begin

lemma invar_reachable: "reachable init stp s \<Longrightarrow> invar s"
  by (induction rule: reachable.induct) (auto intro: invar_init invar_step)

lemma invar_closure: "stp\<^sup>*\<^sup>* s t \<Longrightarrow> invar s \<Longrightarrow> invar t"
  by (induction rule: rtranclp_induct) (auto intro: invar_step)

end

section \<open>Authority that only contracts\<close>

text \<open>
  \<open>within a b\<close> reads: what \<open>a\<close> permits, \<open>b\<close> permits. A partial meet of two authorities returns
  one that is within both, or nothing. \<open>meet_chain\<close> is the repeated re-intersection a queued
  request goes through at every wake-up.
\<close>

primrec meet_chain :: "('a \<Rightarrow> 'a \<Rightarrow> 'a option) \<Rightarrow> 'a \<Rightarrow> 'a list \<Rightarrow> 'a option" where
  "meet_chain meet a [] = Some a"
| "meet_chain meet a (b # bs) =
     (case meet a b of None \<Rightarrow> None | Some c \<Rightarrow> meet_chain meet c bs)"

locale contraction =
  fixes valid :: "'a \<Rightarrow> bool"
    and within :: "'a \<Rightarrow> 'a \<Rightarrow> bool"
    and meet :: "'a \<Rightarrow> 'a \<Rightarrow> 'a option"
  assumes within_refl: "within a a"
    and within_trans: "within a b \<Longrightarrow> within b c \<Longrightarrow> within a c"
    and meet_valid: "valid a \<Longrightarrow> meet a b = Some c \<Longrightarrow> valid c"
    and meet_within_left: "valid a \<Longrightarrow> valid b \<Longrightarrow> meet a b = Some c \<Longrightarrow> within c a"
    and meet_within_right: "valid a \<Longrightarrow> valid b \<Longrightarrow> meet a b = Some c \<Longrightarrow> within c b"
begin

lemma chain_within:
  "valid a \<Longrightarrow> (\<forall>b \<in> set bs. valid b) \<Longrightarrow> meet_chain meet a bs = Some c \<Longrightarrow>
     within c a \<and> (\<forall>b \<in> set bs. within c b)"
proof (induction bs arbitrary: a)
  case Nil
  then show ?case by (simp add: within_refl)
next
  case (Cons b bs)
  then obtain d where d: "meet a b = Some d" and rest: "meet_chain meet d bs = Some c"
    by (auto split: option.splits)
  have "valid d" using Cons.prems(1) d by (rule meet_valid)
  then have "within c d \<and> (\<forall>x \<in> set bs. within c x)"
    using Cons.prems(2) rest by (intro Cons.IH) auto
  moreover have "within d a" "within d b"
    using Cons.prems d by (auto intro: meet_within_left meet_within_right)
  ultimately show ?case by (auto intro: within_trans)
qed

end

end
