(* ===== verification/Reasons.thy ===== *)
theory Reasons
  imports Prelude
begin

text \<open>
  The closed vocabularies of \<open>core/reasons.py\<close> and the transition tables of
  \<open>core/state_machines.py\<close>: one datatype per \<open>_Closed\<close> enumeration with the constructors of the
  source, the client-key lifecycle table and its lookup \<open>key_transition\<close>, and the linear
  activation pipeline with \<open>next_activation_stage\<close>. Wire spellings (\<open>.value\<close>) are given for the
  enumerations whose spelling is compared or ordered by other components.
\<close>

section \<open>Vocabularies\<close>

datatype TerminalOutcome =
    AUTHZ_DENIED | AUTH_STATE_UNAVAILABLE | UNSUPPORTED_REQUEST | BACKPRESSURE_REJECTED
  | ROUTE_UNAVAILABLE | OUTCOME_DEADLINE_EXCEEDED | UPSTREAM_FAILED | OUTCOME_CLIENT_CANCELLED
  | OUTCOME_RESPONSE_STREAM_FAILED | COMPLETED

datatype RouteTrigger =
    PRIMARY | CAPACITY_SPILL | FAILURE_FALLBACK | QUOTA_FALLBACK | MANUAL_EMERGENCY | SHADOW

datatype RouteStrategy = ORDERED_CAPACITY

datatype EndpointKind =
    EP_CHAT | EP_TEXT | EP_EMBEDDINGS | EP_RERANK | EP_AUDIO_SPEECH | EP_AUDIO_TRANSCRIPTION
  | EP_IMAGE

datatype DispatchCause =
    DC_PRIMARY | DC_CAPACITY | DC_FAILURE | DC_QUOTA | DC_MANUAL_EMERGENCY | DC_SHADOW

datatype FailureCause = FC_CAPACITY | FC_TRANSIENT_FAILURE | FC_QUOTA | FC_UNKNOWN

datatype FailureScope = FS_ACCOUNT | FS_DEPLOYMENT | FS_UNKNOWN

datatype Modality =
    MOD_CHAT | MOD_TEXT | MOD_RESPONSES | MOD_MESSAGES | MOD_EMBEDDING | MOD_RERANK
  | MOD_AUDIO_SPEECH | MOD_AUDIO_TRANSCRIPTION | MOD_AUDIO_TRANSLATION | MOD_IMAGE

datatype QuotaDimensionStatus = KNOWN | UNKNOWN | ATTESTED_ABSENT

datatype RequiredFeature =
    RF_ORDERED_CAPACITY | RF_WEIGHTED_FAIR_QUEUE | RF_EXPIRY_DENY_OVERLAY
  | RF_EMERGENCY_LEG_ACTIVATION | RF_SHADOW_LEGS | RF_CREDENTIAL_GENERATION_FENCE

definition MAX_MIN_READER :: "int \<times> int" where
  "MAX_MIN_READER = (1, 0)"

section \<open>Lifecycle states\<close>

datatype KeyLifecycleState = KS_DRAFT | KS_ENABLED | KS_SUSPENDED | KS_REVOKED

datatype CredentialVerifierStatus = CV_ACTIVE | CV_RETIRING | CV_RETIRED | CV_EXPIRED

datatype AccountState = AS_DRAFT | AS_ACTIVE | AS_DISABLED | AS_TOMBSTONED

definition KEY_TRANSITIONS :: "((KeyLifecycleState \<times> string) \<times> KeyLifecycleState) list" where
  "KEY_TRANSITIONS =
    [((KS_DRAFT, ''activate''), KS_ENABLED),
     ((KS_ENABLED, ''suspend''), KS_SUSPENDED),
     ((KS_SUSPENDED, ''resume''), KS_ENABLED),
     ((KS_DRAFT, ''revoke''), KS_REVOKED),
     ((KS_ENABLED, ''revoke''), KS_REVOKED),
     ((KS_SUSPENDED, ''revoke''), KS_REVOKED),
     ((KS_REVOKED, ''revoke''), KS_REVOKED)]"

definition key_transition :: "KeyLifecycleState \<Rightarrow> string \<Rightarrow> KeyLifecycleState res" where
  "key_transition state event =
     (case map_of KEY_TRANSITIONS (state, event) of
        Some s \<Rightarrow> Inr s
      | None \<Rightarrow> Inl (ValueError ''illegal key lifecycle event''))"

datatype ActivationStage =
    PREPARING_BACKEND | BACKEND_READY | STAGING_GATEWAY | GATEWAY_STAGED | COMMITTING | APPLIED

definition ACTIVATION_ORDER :: "ActivationStage list" where
  "ACTIVATION_ORDER =
    [PREPARING_BACKEND, BACKEND_READY, STAGING_GATEWAY, GATEWAY_STAGED, COMMITTING, APPLIED]"

definition next_activation_stage :: "ActivationStage \<Rightarrow> ActivationStage res" where
  "next_activation_stage stage =
     (case index_of ACTIVATION_ORDER stage of
        None \<Rightarrow> Inl (ValueError ''not in tuple'')
      | Some index \<Rightarrow>
          if index + 1 \<ge> length ACTIVATION_ORDER then Inl (ValueError ''activation stage is terminal'')
          else Inr (ACTIVATION_ORDER ! (index + 1)))"

section \<open>Runs of the two machines\<close>

text \<open>A history of lifecycle events, stopping at the first illegal one.\<close>

fun key_run :: "KeyLifecycleState \<Rightarrow> string list \<Rightarrow> KeyLifecycleState res" where
  "key_run s [] = Inr s"
| "key_run s (e # es) = res_bind (key_transition s e) (\<lambda>t. key_run t es)"

fun stage_run :: "nat \<Rightarrow> ActivationStage \<Rightarrow> ActivationStage res" where
  "stage_run 0 s = Inr s"
| "stage_run (Suc n) s = res_bind (next_activation_stage s) (stage_run n)"

lemma key_transition_revoked: "key_transition KS_REVOKED e = Inr t \<Longrightarrow> t = KS_REVOKED"
  by (auto simp: key_transition_def KEY_TRANSITIONS_def split: if_splits option.splits)

lemma key_transition_revoke: "key_transition s ''revoke'' = Inr KS_REVOKED"
  by (cases s) (simp_all add: key_transition_def KEY_TRANSITIONS_def)

lemma key_run_revoked: "key_run KS_REVOKED es = Inr t \<Longrightarrow> t = KS_REVOKED"
  by (induction es) (auto simp: checked dest: key_transition_revoked)

lemma key_run_append: "key_run s (es @ fs) = res_bind (key_run s es) (\<lambda>t. key_run t fs)"
proof (induction es arbitrary: s)
  case (Cons e es)
  then show ?case by (cases "key_transition s e") simp_all
qed simp

text \<open>revocation is legal in every lifecycle state and final: whatever events came before and
  whatever events follow a revocation, a key history that is accepted at all ends revoked.
\<close>

theorem key_revocation_terminal:
  assumes "key_run s (es @ ''revoke'' # fs) = Inr t"
  shows "t = KS_REVOKED"
proof -
  obtain u where "key_run u (''revoke'' # fs) = Inr t"
    using assms by (auto simp: key_run_append checked)
  then have "key_run KS_REVOKED fs = Inr t"
    by (simp add: key_transition_revoke)
  then show ?thesis by (rule key_run_revoked)
qed

theorem key_revocation_terminal_witness:
  "key_run KS_DRAFT ([''activate'', ''suspend''] @ ''revoke'' # [''revoke'']) = Inr KS_REVOKED"
proof -
  have run: "\<exists>t. key_run KS_DRAFT ([''activate'', ''suspend''] @ ''revoke'' # [''revoke'']) = Inr t"
    by (simp add: key_transition_def KEY_TRANSITIONS_def)
  then obtain t
    where t: "key_run KS_DRAFT ([''activate'', ''suspend''] @ ''revoke'' # [''revoke'']) = Inr t"
    by blast
  from key_revocation_terminal [OF t] t show ?thesis by simp
qed

lemma next_activation_stage_simps:
  "next_activation_stage PREPARING_BACKEND = Inr BACKEND_READY"
  "next_activation_stage BACKEND_READY = Inr STAGING_GATEWAY"
  "next_activation_stage STAGING_GATEWAY = Inr GATEWAY_STAGED"
  "next_activation_stage GATEWAY_STAGED = Inr COMMITTING"
  "next_activation_stage COMMITTING = Inr APPLIED"
  "next_activation_stage APPLIED = Inl (ValueError ''activation stage is terminal'')"
  by (simp_all add: next_activation_stage_def ACTIVATION_ORDER_def)

lemma stage_run_applied: "stage_run n s = Inr APPLIED \<longleftrightarrow> index_of ACTIVATION_ORDER s = Some (5 - n) \<and> n \<le> 5"
proof (induction n arbitrary: s)
  case 0
  then show ?case by (cases s) (simp_all add: ACTIVATION_ORDER_def)
next
  case (Suc n)
  show ?case
    by (cases s) (auto simp: next_activation_stage_simps Suc.IH ACTIVATION_ORDER_def)
qed

text \<open>The pipeline reaches \<open>APPLIED\<close> from its first stage in exactly five advances, and no other count.\<close>

lemma activation_applied_after_five: "stage_run n PREPARING_BACKEND = Inr APPLIED \<longleftrightarrow> n = 5"
  unfolding stage_run_applied by (auto simp: ACTIVATION_ORDER_def)

end
