(* ===== verification/Authorization.thy ===== *)
theory Authorization
  imports Reasons
begin

text \<open>
  The authority a request carries (\<open>core/models.py\<close>): leg capabilities, authorized legs, the
  request profile and the admission ceiling, with their validators and their intersections.
  Every pydantic model is a record; \<open>X_validate\<close> is what constructing the model runs (field
  constraints, field validators, model validator), and a constructor call inside a method runs it
  again. The order \<open>ceiling_within\<close> says what it means for authority not to expand; the locale
  \<open>contraction\<close> is interpreted for the three intersections.
\<close>

type_synonym account_id = string
type_synonym request_id = string
type_synonym attempt_id = string
type_synonym leg_id = string
type_synonym generation_id = string
type_synonym route_group_id = string
type_synonym policy_id = string
type_synonym key_id = string

section \<open>Leg capabilities\<close>

record LegCapabilities =
  cap_endpoints :: "EndpointKind list"
  cap_modalities :: "Modality list"
  cap_context_tokens :: int
  cap_tools :: bool
  cap_forced_tool :: bool
  cap_response_schema :: bool
  cap_streaming :: bool
  cap_reasoning :: bool
  cap_history_continuation :: bool
  cap_shadow :: bool

definition LegCapabilities_validate :: "LegCapabilities \<Rightarrow> LegCapabilities res" where
  "LegCapabilities_validate c = checks
    [(cap_endpoints c = [], ''endpoints: min_length''),
     (has_dup (cap_endpoints c), ''duplicate leg capability value''),
     (cap_modalities c = [], ''modalities: min_length''),
     (has_dup (cap_modalities c), ''duplicate leg capability value''),
     (\<not> cap_context_tokens c > 0, ''context_tokens: gt''),
     (cap_forced_tool c \<and> \<not> cap_tools c, ''forced-tool capability requires tool capability'')] c"

definition LegCapabilities_intersection ::
    "LegCapabilities \<Rightarrow> LegCapabilities \<Rightarrow> LegCapabilities option res" where
  "LegCapabilities_intersection self other =
    (let endpoints = filter (\<lambda>item. item \<in> set (cap_endpoints other)) (cap_endpoints self);
         modalities = filter (\<lambda>item. item \<in> set (cap_modalities other)) (cap_modalities self)
     in if endpoints = [] \<or> modalities = [] then Inr None
        else let tools = (cap_tools self \<and> cap_tools other) in
          res_map Some (LegCapabilities_validate
            \<lparr>cap_endpoints = endpoints,
             cap_modalities = modalities,
             cap_context_tokens = min (cap_context_tokens self) (cap_context_tokens other),
             cap_tools = tools,
             cap_forced_tool = (tools \<and> cap_forced_tool self \<and> cap_forced_tool other),
             cap_response_schema = (cap_response_schema self \<and> cap_response_schema other),
             cap_streaming = (cap_streaming self \<and> cap_streaming other),
             cap_reasoning = (cap_reasoning self \<and> cap_reasoning other),
             cap_history_continuation =
               (cap_history_continuation self \<and> cap_history_continuation other),
             cap_shadow = (cap_shadow self \<or> cap_shadow other)\<rparr>))"

section \<open>Authorized legs\<close>

record AuthorizedLeg =
  al_leg_id :: leg_id
  al_account_id :: account_id
  al_generation_id :: generation_id
  al_order :: int
  al_allowed_triggers :: "RouteTrigger list"
  al_capabilities :: LegCapabilities

type_synonym leg_identity = "leg_id \<times> account_id \<times> generation_id \<times> int"

definition AuthorizedLeg_validate :: "AuthorizedLeg \<Rightarrow> AuthorizedLeg res" where
  "AuthorizedLeg_validate l =
    res_bind (LegCapabilities_validate (al_capabilities l)) (\<lambda>_. checks
      [(\<not> al_order l \<ge> 1, ''order: ge''),
       (al_allowed_triggers l = [], ''allowed_triggers: min_length''),
       (has_dup (al_allowed_triggers l), ''duplicate authorized leg trigger'')] l)"

definition al_identity :: "AuthorizedLeg \<Rightarrow> leg_identity" where
  "al_identity l = (al_leg_id l, al_account_id l, al_generation_id l, al_order l)"

definition AuthorizedLeg_intersection ::
    "AuthorizedLeg \<Rightarrow> AuthorizedLeg \<Rightarrow> AuthorizedLeg option res" where
  "AuthorizedLeg_intersection self other =
    (if al_identity self \<noteq> al_identity other then Inr None
     else let triggers =
            filter (\<lambda>t. t \<in> set (al_allowed_triggers other)) (al_allowed_triggers self) in
       res_bind (LegCapabilities_intersection (al_capabilities self) (al_capabilities other))
         (\<lambda>capabilities.
           case capabilities of
             None \<Rightarrow> Inr None
           | Some caps \<Rightarrow>
               if triggers = [] then Inr None
               else res_map Some (AuthorizedLeg_validate
                 \<lparr>al_leg_id = al_leg_id self,
                  al_account_id = al_account_id self,
                  al_generation_id = al_generation_id self,
                  al_order = al_order self,
                  al_allowed_triggers = triggers,
                  al_capabilities = caps\<rparr>)))"

definition leg_key :: "AuthorizedLeg \<Rightarrow> int \<times> string" where
  "leg_key l = (al_order l, al_leg_id l)"

section \<open>Request profile and admission ceiling\<close>

definition MAX_DEADLINE_MS :: int where
  "MAX_DEADLINE_MS = 9000000"

record RequestProfile =
  pr_route_group_id :: route_group_id
  pr_model_alias :: string
  pr_endpoint :: EndpointKind
  pr_modality :: Modality
  pr_stream :: bool
  pr_input_tokens_max :: int
  pr_output_tokens_max :: int
  pr_reasoning_tokens_max :: int
  pr_tools_count :: int
  pr_forced_tool_required :: bool
  pr_response_schema_present :: bool
  pr_history_turns :: int
  pr_deadline_ms :: int

definition RequestProfile_validate :: "RequestProfile \<Rightarrow> RequestProfile res" where
  "RequestProfile_validate p = checks
    [(pr_model_alias p = [] \<or> length (pr_model_alias p) > 160, ''model_alias: length''),
     (\<not> pr_input_tokens_max p \<ge> 0, ''input_tokens_max: ge''),
     (\<not> pr_output_tokens_max p \<ge> 0, ''output_tokens_max: ge''),
     (\<not> pr_reasoning_tokens_max p \<ge> 0, ''reasoning_tokens_max: ge''),
     (\<not> pr_tools_count p \<ge> 0, ''tools_count: ge''),
     (\<not> pr_history_turns p \<ge> 0, ''history_turns: ge''),
     (\<not> (1 \<le> pr_deadline_ms p \<and> pr_deadline_ms p \<le> MAX_DEADLINE_MS), ''deadline_ms: range'')] p"

record RequestAuthorizationCeiling =
  rc_key_id :: key_id
  rc_credential_generation :: int
  rc_policy_id :: policy_id
  rc_bundle_generation :: int
  rc_bundle_hash :: string
  rc_route_group_id :: route_group_id
  rc_authorized_legs :: "AuthorizedLeg list"
  rc_queue_tier :: int
  rc_queue_weight :: int
  rc_max_concurrency :: int
  rc_max_waiters :: int
  rc_deadline_ms :: int

primrec legs_validate :: "AuthorizedLeg list \<Rightarrow> AuthorizedLeg list res" where
  "legs_validate [] = Inr []"
| "legs_validate (l # ls) =
     res_bind (AuthorizedLeg_validate l) (\<lambda>l'. res_map ((#) l') (legs_validate ls))"

definition RequestAuthorizationCeiling_validate ::
    "RequestAuthorizationCeiling \<Rightarrow> RequestAuthorizationCeiling res" where
  "RequestAuthorizationCeiling_validate c =
    res_bind (legs_validate (rc_authorized_legs c)) (\<lambda>legs. checks
      [(\<not> rc_credential_generation c \<ge> 1, ''credential_generation: ge''),
       (\<not> rc_bundle_generation c \<ge> 1, ''bundle_generation: ge''),
       (has_dup (map al_leg_id legs), ''duplicate authorization ceiling leg''),
       (\<not> rc_queue_tier c \<ge> 0, ''queue_tier: ge''),
       (\<not> (1 \<le> rc_queue_weight c \<and> rc_queue_weight c \<le> 64), ''queue_weight: range''),
       (\<not> rc_max_concurrency c \<ge> 1, ''max_concurrency: ge''),
       (\<not> rc_max_waiters c \<ge> 0, ''max_waiters: ge''),
       (\<not> (1 \<le> rc_deadline_ms c \<and> rc_deadline_ms c \<le> MAX_DEADLINE_MS), ''deadline_ms: range'')]
      (c\<lparr>rc_authorized_legs := sort_key leg_key legs\<rparr>))"

primrec intersect_legs ::
    "(leg_identity, AuthorizedLeg) dict \<Rightarrow> AuthorizedLeg list \<Rightarrow> AuthorizedLeg list res" where
  "intersect_legs current [] = Inr []"
| "intersect_legs current (admitted # rest) =
    (case map_of current (al_identity admitted) of
       None \<Rightarrow> intersect_legs current rest
     | Some candidate \<Rightarrow>
         res_bind (AuthorizedLeg_intersection admitted candidate) (\<lambda>intersection.
           res_bind (intersect_legs current rest) (\<lambda>legs.
             Inr (case intersection of None \<Rightarrow> legs | Some leg \<Rightarrow> leg # legs))))"

definition RequestAuthorizationCeiling_intersection ::
    "RequestAuthorizationCeiling \<Rightarrow> RequestAuthorizationCeiling \<Rightarrow> RequestAuthorizationCeiling res"
  where
  "RequestAuthorizationCeiling_intersection self other =
    (if rc_key_id self \<noteq> rc_key_id other
        \<or> rc_credential_generation self \<noteq> rc_credential_generation other
        \<or> rc_policy_id self \<noteq> rc_policy_id other
        \<or> rc_route_group_id self \<noteq> rc_route_group_id other
     then Inl (ValueError ''cannot intersect ceilings of different admitted identities'')
     else
       let current = dict_of (map (\<lambda>leg. (al_identity leg, leg)) (rc_authorized_legs other)) in
       res_bind (intersect_legs current (rc_authorized_legs self)) (\<lambda>legs.
         RequestAuthorizationCeiling_validate
           \<lparr>rc_key_id = rc_key_id self,
            rc_credential_generation = rc_credential_generation self,
            rc_policy_id = rc_policy_id self,
            rc_bundle_generation = rc_bundle_generation self,
            rc_bundle_hash = rc_bundle_hash self,
            rc_route_group_id = rc_route_group_id self,
            rc_authorized_legs = legs,
            rc_queue_tier = max (rc_queue_tier self) (rc_queue_tier other),
            rc_queue_weight = min (rc_queue_weight self) (rc_queue_weight other),
            rc_max_concurrency = min (rc_max_concurrency self) (rc_max_concurrency other),
            rc_max_waiters = min (rc_max_waiters self) (rc_max_waiters other),
            rc_deadline_ms = min (rc_deadline_ms self) (rc_deadline_ms other)\<rparr>))"

section \<open>The authority order\<close>

definition cap_valid :: "LegCapabilities \<Rightarrow> bool" where
  "cap_valid c \<longleftrightarrow> LegCapabilities_validate c = Inr c"

definition leg_valid :: "AuthorizedLeg \<Rightarrow> bool" where
  "leg_valid l \<longleftrightarrow> AuthorizedLeg_validate l = Inr l"

definition ceiling_valid :: "RequestAuthorizationCeiling \<Rightarrow> bool" where
  "ceiling_valid c \<longleftrightarrow> RequestAuthorizationCeiling_validate c = Inr c"

definition cap_within :: "LegCapabilities \<Rightarrow> LegCapabilities \<Rightarrow> bool" where
  "cap_within a b \<longleftrightarrow>
     set (cap_endpoints a) \<subseteq> set (cap_endpoints b) \<and>
     set (cap_modalities a) \<subseteq> set (cap_modalities b) \<and>
     cap_context_tokens a \<le> cap_context_tokens b \<and>
     (cap_tools a \<longrightarrow> cap_tools b) \<and>
     (cap_forced_tool a \<longrightarrow> cap_forced_tool b) \<and>
     (cap_response_schema a \<longrightarrow> cap_response_schema b) \<and>
     (cap_streaming a \<longrightarrow> cap_streaming b) \<and>
     (cap_reasoning a \<longrightarrow> cap_reasoning b) \<and>
     (cap_history_continuation a \<longrightarrow> cap_history_continuation b) \<and>
     (cap_shadow b \<longrightarrow> cap_shadow a)"

definition leg_within :: "AuthorizedLeg \<Rightarrow> AuthorizedLeg \<Rightarrow> bool" where
  "leg_within a b \<longleftrightarrow>
     al_identity a = al_identity b \<and>
     set (al_allowed_triggers a) \<subseteq> set (al_allowed_triggers b) \<and>
     cap_within (al_capabilities a) (al_capabilities b)"

definition ceiling_within :: "RequestAuthorizationCeiling \<Rightarrow> RequestAuthorizationCeiling \<Rightarrow> bool" where
  "ceiling_within a b \<longleftrightarrow>
     rc_key_id a = rc_key_id b \<and>
     rc_credential_generation a = rc_credential_generation b \<and>
     rc_policy_id a = rc_policy_id b \<and>
     rc_route_group_id a = rc_route_group_id b \<and>
     (\<forall>l \<in> set (rc_authorized_legs a). \<exists>m \<in> set (rc_authorized_legs b). leg_within l m) \<and>
     rc_queue_tier b \<le> rc_queue_tier a \<and>
     rc_queue_weight a \<le> rc_queue_weight b \<and>
     rc_max_concurrency a \<le> rc_max_concurrency b \<and>
     rc_max_waiters a \<le> rc_max_waiters b \<and>
     rc_deadline_ms a \<le> rc_deadline_ms b"

text \<open>The intersections as partial meets: an exception or an empty authority is \<open>None\<close>.\<close>

definition cap_meet :: "LegCapabilities \<Rightarrow> LegCapabilities \<Rightarrow> LegCapabilities option" where
  "cap_meet a b = (case LegCapabilities_intersection a b of Inl _ \<Rightarrow> None | Inr r \<Rightarrow> r)"

definition leg_meet :: "AuthorizedLeg \<Rightarrow> AuthorizedLeg \<Rightarrow> AuthorizedLeg option" where
  "leg_meet a b = (case AuthorizedLeg_intersection a b of Inl _ \<Rightarrow> None | Inr r \<Rightarrow> r)"

definition ceiling_meet ::
    "RequestAuthorizationCeiling \<Rightarrow> RequestAuthorizationCeiling \<Rightarrow> RequestAuthorizationCeiling option"
  where
  "ceiling_meet a b =
     (case RequestAuthorizationCeiling_intersection a b of Inl _ \<Rightarrow> None | Inr c \<Rightarrow> Some c)"

section \<open>Capabilities only contract\<close>

lemma cap_valid_iff:
  "cap_valid c \<longleftrightarrow>
     cap_endpoints c \<noteq> [] \<and> distinct (cap_endpoints c) \<and>
     cap_modalities c \<noteq> [] \<and> distinct (cap_modalities c) \<and>
     cap_context_tokens c > 0 \<and> (cap_forced_tool c \<longrightarrow> cap_tools c)"
  by (auto simp: cap_valid_def LegCapabilities_validate_def checked)

lemma LegCapabilities_validate_Inr: "LegCapabilities_validate c = Inr d \<longleftrightarrow> d = c \<and> cap_valid c"
  by (auto simp: LegCapabilities_validate_def cap_valid_def checked)

lemma cap_intersection_Some:
  assumes "LegCapabilities_intersection a b = Inr (Some c)"
  shows "cap_valid c \<and> cap_within c a \<and> cap_within c b"
  using assms
  by (auto simp: LegCapabilities_intersection_def Let_def checked LegCapabilities_validate_Inr
      cap_within_def split: if_splits)

lemma cap_intersection_total:
  "cap_valid a \<Longrightarrow> cap_valid b \<Longrightarrow> \<exists>r. LegCapabilities_intersection a b = Inr r"
  by (auto simp: LegCapabilities_intersection_def Let_def res_map_Inr LegCapabilities_validate_Inr
      cap_valid_iff min_def)

interpretation cap: contraction cap_valid cap_within cap_meet
proof
  show "cap_within a a" for a by (simp add: cap_within_def)
  show "cap_within a b \<Longrightarrow> cap_within b c \<Longrightarrow> cap_within a c" for a b c
    unfolding cap_within_def by (elim conjE, intro conjI) (blast | linarith)+
qed (auto simp: cap_meet_def dest!: cap_intersection_Some split: sum.splits)

section \<open>Legs only contract\<close>

lemma AuthorizedLeg_validate_Inr: "AuthorizedLeg_validate l = Inr m \<longleftrightarrow> m = l \<and> leg_valid l"
  by (auto simp: AuthorizedLeg_validate_def leg_valid_def checked)

lemma leg_valid_iff:
  "leg_valid l \<longleftrightarrow> cap_valid (al_capabilities l) \<and> al_order l \<ge> 1 \<and>
     al_allowed_triggers l \<noteq> [] \<and> distinct (al_allowed_triggers l)"
  by (auto simp: leg_valid_def AuthorizedLeg_validate_def checked LegCapabilities_validate_Inr)

lemma leg_intersection_Some:
  assumes "AuthorizedLeg_intersection a b = Inr (Some c)"
  shows "leg_valid c \<and> leg_within c a \<and> leg_within c b"
proof -
  have same: "al_identity a = al_identity b"
    using assms by (auto simp: AuthorizedLeg_intersection_def split: if_split_asm)
  then obtain caps where
    caps: "LegCapabilities_intersection (al_capabilities a) (al_capabilities b) = Inr (Some caps)"
    and c: "leg_valid c" "al_capabilities c = caps" "al_identity c = al_identity a"
      "set (al_allowed_triggers c) = set (al_allowed_triggers a) \<inter> set (al_allowed_triggers b)"
    using assms
    by (simp add: AuthorizedLeg_intersection_def Let_def res_bind_Inr res_map_Inr
        AuthorizedLeg_validate_Inr split: option.split_asm if_split_asm)
      (fastforce simp: al_identity_def)
  from cap_intersection_Some [OF caps] c same show ?thesis by (simp add: leg_within_def)
qed

lemma leg_intersection_total:
  assumes "leg_valid a" "leg_valid b"
  shows "\<exists>r. AuthorizedLeg_intersection a b = Inr r"
proof -
  obtain r where r: "LegCapabilities_intersection (al_capabilities a) (al_capabilities b) = Inr r"
    using cap_intersection_total assms by (meson leg_valid_iff)
  show ?thesis
  proof (cases r)
    case None
    with r show ?thesis by (simp add: AuthorizedLeg_intersection_def)
  next
    case (Some caps)
    then have "cap_valid caps" using r cap_intersection_Some by blast
    with r Some assms show ?thesis
      by (auto simp: AuthorizedLeg_intersection_def Let_def res_map_Inr AuthorizedLeg_validate_Inr
          leg_valid_iff)
  qed
qed

interpretation leg: contraction leg_valid leg_within leg_meet
proof
  show "leg_within a a" for a by (simp add: leg_within_def cap.within_refl)
  show "leg_within a b \<Longrightarrow> leg_within b c \<Longrightarrow> leg_within a c" for a b c
    unfolding leg_within_def by (auto intro: cap.within_trans)
qed (auto simp: leg_meet_def dest!: leg_intersection_Some split: sum.splits)

section \<open>Ceilings only contract\<close>

lemma legs_validate_Inr: "legs_validate ls = Inr ms \<longleftrightarrow> ms = ls \<and> (\<forall>l \<in> set ls. leg_valid l)"
  by (induction ls arbitrary: ms) (auto simp: checked AuthorizedLeg_validate_Inr)

definition ceiling_fields_ok :: "RequestAuthorizationCeiling \<Rightarrow> bool" where
  "ceiling_fields_ok c \<longleftrightarrow>
     (\<forall>l \<in> set (rc_authorized_legs c). leg_valid l) \<and>
     distinct (map al_leg_id (rc_authorized_legs c)) \<and>
     rc_credential_generation c \<ge> 1 \<and> rc_bundle_generation c \<ge> 1 \<and>
     rc_queue_tier c \<ge> 0 \<and> 1 \<le> rc_queue_weight c \<and> rc_queue_weight c \<le> 64 \<and>
     rc_max_concurrency c \<ge> 1 \<and> rc_max_waiters c \<ge> 0 \<and>
     1 \<le> rc_deadline_ms c \<and> rc_deadline_ms c \<le> MAX_DEADLINE_MS"

lemma ceiling_validate_Inr:
  "RequestAuthorizationCeiling_validate c = Inr d \<longleftrightarrow>
     d = c\<lparr>rc_authorized_legs := sort_key leg_key (rc_authorized_legs c)\<rparr> \<and> ceiling_fields_ok c"
  unfolding RequestAuthorizationCeiling_validate_def ceiling_fields_ok_def
  by (auto simp: res_bind_Inr legs_validate_Inr checks_Inr)

lemma ceiling_legs_same:
  "c\<lparr>rc_authorized_legs := ls\<rparr> = c \<longleftrightarrow> rc_authorized_legs c = ls"
  by (cases c) auto

lemma ceiling_valid_iff:
  "ceiling_valid c \<longleftrightarrow> sorted (map leg_key (rc_authorized_legs c)) \<and> ceiling_fields_ok c"
proof -
  have "rc_authorized_legs c = sort_key leg_key (rc_authorized_legs c) \<longleftrightarrow>
      sorted (map leg_key (rc_authorized_legs c))"
    by (metis sort_key_id_if_sorted sorted_sort_key)
  then show ?thesis
    unfolding ceiling_valid_def ceiling_validate_Inr eq_commute [of c] ceiling_legs_same by simp
qed

text \<open>The legs an intersection keeps: each is the meet of an admitted leg with a current one.\<close>

lemma intersect_legs_Inr:
  assumes "intersect_legs current ls = Inr ms" and "m \<in> set ms"
  shows "\<exists>l \<in> set ls. \<exists>k \<in> ran (map_of current). AuthorizedLeg_intersection l k = Inr (Some m)"
  using assms
proof (induction ls arbitrary: ms)
  case (Cons l ls)
  show ?case
  proof (cases "map_of current (al_identity l)")
    case None
    with Cons show ?thesis by fastforce
  next
    case (Some k)
    with Cons.prems obtain i rest where
      i: "AuthorizedLeg_intersection l k = Inr i" and rest: "intersect_legs current ls = Inr rest"
      and ms: "ms = (case i of None \<Rightarrow> rest | Some x \<Rightarrow> x # rest)"
      by (auto simp: res_bind_Inr)
    have k: "k \<in> ran (map_of current)" using Some by (rule ranI)
    show ?thesis
    proof (cases "m \<in> set rest")
      case True
      with Cons.IH [OF rest] show ?thesis by auto
    next
      case False
      with ms Cons.prems(2) have "i = Some m" by (auto split: option.splits)
      with i k show ?thesis by auto
    qed
  qed
qed simp

lemma intersect_legs_identity:
  "intersect_legs current ls = Inr ms \<Longrightarrow> m \<in> set ms \<Longrightarrow> \<exists>l \<in> set ls. al_identity m = al_identity l"
  by (metis intersect_legs_Inr leg_intersection_Some leg_within_def)

lemma al_identity_leg_key: "al_identity m = al_identity l \<Longrightarrow> leg_key m = leg_key l"
  by (simp add: al_identity_def leg_key_def)

lemma al_identity_leg_id: "al_identity m = al_identity l \<Longrightarrow> al_leg_id m = al_leg_id l"
  by (simp add: al_identity_def)

text \<open>They keep their identities, hence their order and their distinctness.\<close>

lemma intersect_legs_sorted_distinct:
  assumes "intersect_legs current ls = Inr ms"
    and "sorted (map leg_key ls)" and "distinct (map al_leg_id ls)"
  shows "sorted (map leg_key ms) \<and> distinct (map al_leg_id ms)"
  using assms
proof (induction ls arbitrary: ms)
  case (Cons l ls)
  obtain rest where rest: "intersect_legs current ls = Inr rest"
    and ms: "ms = rest \<or> (\<exists>m. ms = m # rest \<and> al_identity m = al_identity l)"
    using Cons.prems(1)
    by (auto simp: res_bind_Inr leg_within_def split: option.splits dest!: leg_intersection_Some)
  have ih: "sorted (map leg_key rest) \<and> distinct (map al_leg_id rest)"
    using Cons.IH [OF rest] Cons.prems(2,3) by simp
  have above: "leg_key l \<le> leg_key m \<and> al_leg_id m \<noteq> al_leg_id l" if mem: "m \<in> set rest" for m
  proof -
    obtain l' where "l' \<in> set ls" "leg_key m = leg_key l'" "al_leg_id m = al_leg_id l'"
      using intersect_legs_identity [OF rest mem] al_identity_leg_key al_identity_leg_id by meson
    moreover have "leg_key l \<le> leg_key l'" using Cons.prems(2) \<open>l' \<in> set ls\<close> by simp
    moreover have "al_leg_id l' \<noteq> al_leg_id l" using Cons.prems(3) \<open>l' \<in> set ls\<close>
      by (metis distinct.simps(2) image_eqI list.set_map list.simps(9))
    ultimately show ?thesis by simp
  qed
  from ms show ?case
  proof
    assume "ms = rest"
    with ih show ?thesis by simp
  next
    assume "\<exists>m. ms = m # rest \<and> al_identity m = al_identity l"
    then obtain m where m: "ms = m # rest" "leg_key m = leg_key l" "al_leg_id m = al_leg_id l"
      by (auto dest: al_identity_leg_key al_identity_leg_id)
    have "\<forall>x \<in> set rest. leg_key m \<le> leg_key x" "al_leg_id m \<notin> al_leg_id ` set rest"
      using above m by force+
    with ih m(1) show ?thesis by simp
  qed
qed simp

lemma ran_dict_of: "ran (map_of (dict_of xs)) \<subseteq> snd ` set xs"
proof (induction xs rule: rev_induct)
  case (snoc x xs)
  then show ?case
    by (cases x) (auto simp: dict_of_snoc update_conv' ran_def split: if_splits)
qed (simp add: dict_of_def)

lemma ceiling_intersection_Inr:
  assumes valid: "ceiling_valid a" and c: "RequestAuthorizationCeiling_intersection a b = Inr c"
  shows "ceiling_valid c \<and> ceiling_within c a \<and> ceiling_within c b"
proof -
  let ?cur = "dict_of (map (\<lambda>leg. (al_identity leg, leg)) (rc_authorized_legs b))"
  from c obtain legs where legs: "intersect_legs ?cur (rc_authorized_legs a) = Inr legs"
    and ids: "rc_key_id a = rc_key_id b" "rc_credential_generation a = rc_credential_generation b"
      "rc_policy_id a = rc_policy_id b" "rc_route_group_id a = rc_route_group_id b"
    by (auto simp: RequestAuthorizationCeiling_intersection_def Let_def res_bind_Inr
        split: if_split_asm)
  have sorted: "sorted (map leg_key legs)" and "distinct (map al_leg_id legs)"
    using intersect_legs_sorted_distinct [OF legs] valid
    by (auto simp: ceiling_valid_iff ceiling_fields_ok_def)
  have ok: "ceiling_fields_ok c" and legs_c: "rc_authorized_legs c = legs"
    and qos: "rc_key_id c = rc_key_id a" "rc_credential_generation c = rc_credential_generation a"
      "rc_policy_id c = rc_policy_id a" "rc_route_group_id c = rc_route_group_id a"
      "rc_queue_tier c = max (rc_queue_tier a) (rc_queue_tier b)"
      "rc_queue_weight c = min (rc_queue_weight a) (rc_queue_weight b)"
      "rc_max_concurrency c = min (rc_max_concurrency a) (rc_max_concurrency b)"
      "rc_max_waiters c = min (rc_max_waiters a) (rc_max_waiters b)"
      "rc_deadline_ms c = min (rc_deadline_ms a) (rc_deadline_ms b)"
    using c legs sorted
    by (auto simp: RequestAuthorizationCeiling_intersection_def Let_def res_bind_Inr
        ceiling_validate_Inr ceiling_fields_ok_def sort_key_id_if_sorted split: if_split_asm)
  have legs_within: "(\<exists>l \<in> set (rc_authorized_legs a). leg_within m l) \<and>
      (\<exists>k \<in> set (rc_authorized_legs b). leg_within m k)" if mem: "m \<in> set legs" for m
  proof -
    obtain l k where "l \<in> set (rc_authorized_legs a)" "k \<in> ran (map_of ?cur)"
      "AuthorizedLeg_intersection l k = Inr (Some m)"
      using intersect_legs_Inr [OF legs mem] by blast
    moreover have "ran (map_of ?cur) \<subseteq> set (rc_authorized_legs b)"
      using ran_dict_of [of "map (\<lambda>leg. (al_identity leg, leg)) (rc_authorized_legs b)"]
      by (auto simp: image_image)
    ultimately show ?thesis using leg_intersection_Some by blast
  qed
  show ?thesis
    using ok sorted legs_c legs_within qos ids
    by (simp add: ceiling_valid_iff ceiling_within_def)
qed

interpretation ceil: contraction ceiling_valid ceiling_within ceiling_meet
proof
  show "ceiling_within a a" for a
    by (auto simp: ceiling_within_def intro: leg.within_refl)
  show "ceiling_within a b \<Longrightarrow> ceiling_within b c \<Longrightarrow> ceiling_within a c" for a b c
    unfolding ceiling_within_def
    by (elim conjE, intro conjI) (simp | linarith | (meson leg.within_trans))+
qed (auto simp: ceiling_meet_def dest: ceiling_intersection_Inr split: sum.splits)

section \<open>Re-authorization never expands the admitted ceiling\<close>

definition sample_caps :: LegCapabilities where
  "sample_caps = \<lparr>cap_endpoints = [EP_CHAT], cap_modalities = [MOD_CHAT], cap_context_tokens = 4096,
     cap_tools = True, cap_forced_tool = False, cap_response_schema = True, cap_streaming = True,
     cap_reasoning = False, cap_history_continuation = True, cap_shadow = False\<rparr>"

definition sample_leg :: AuthorizedLeg where
  "sample_leg = \<lparr>al_leg_id = ''leg_1'', al_account_id = ''acc_1'', al_generation_id = ''dg1_1'',
     al_order = 10, al_allowed_triggers = [PRIMARY], al_capabilities = sample_caps\<rparr>"

definition sample_ceiling :: RequestAuthorizationCeiling where
  "sample_ceiling = \<lparr>rc_key_id = replicate 32 CHR ''0'', rc_credential_generation = 1, rc_policy_id = ''pol_1'',
     rc_bundle_generation = 1, rc_bundle_hash = replicate 64 CHR ''a'', rc_route_group_id = ''rg_1'', rc_authorized_legs = [sample_leg], rc_queue_tier = 0, rc_queue_weight = 4,
     rc_max_concurrency = 2, rc_max_waiters = 3, rc_deadline_ms = 1000\<rparr>"

text \<open>C12: however often a queued request is re-authorized, the ceiling it ends with is within the ceiling
  it was admitted with and within every ceiling it was intersected with on the way: no leg, trigger,
  capability, queue priority, concurrency or deadline is ever gained.\<close>

theorem reauthorization_never_expands:
  assumes "ceiling_valid admitted" "\<forall>c \<in> set currents. ceiling_valid c"
    and "meet_chain ceiling_meet admitted currents = Some effective"
  shows "ceiling_within effective admitted \<and> (\<forall>c \<in> set currents. ceiling_within effective c)"
  using assms by (rule ceil.chain_within)

theorem reauthorization_never_expands_witness:
  "ceiling_within (sample_ceiling\<lparr>rc_queue_weight := 2, rc_max_waiters := 1\<rparr>) sample_ceiling"
proof -
  have "ceiling_valid sample_ceiling" "ceiling_valid (sample_ceiling\<lparr>rc_queue_weight := 2\<rparr>)"
    "ceiling_valid (sample_ceiling\<lparr>rc_max_waiters := 1\<rparr>)"
    by code_simp+
  moreover have "meet_chain ceiling_meet sample_ceiling [sample_ceiling\<lparr>rc_queue_weight := 2\<rparr>,
      sample_ceiling\<lparr>rc_max_waiters := 1\<rparr>] = Some (sample_ceiling\<lparr>rc_queue_weight := 2, rc_max_waiters := 1\<rparr>)"
    by code_simp
  ultimately show ?thesis
    using reauthorization_never_expands [of sample_ceiling "[sample_ceiling\<lparr>rc_queue_weight := 2\<rparr>,
      sample_ceiling\<lparr>rc_max_waiters := 1\<rparr>]"] by simp
qed

end
