(* ===== verification/Bundle.thy ===== *)
theory Bundle
  imports Authorization
begin

text \<open>
  The immutable policy bundle (\<open>core/models.py\<close>): quota dimensions, provider accounts, route
  legs and groups, key policies, credential verifiers, client-key records and \<open>PolicyBundleV1\<close>.
  \<open>X_validate\<close> is what constructing the pydantic model runs: field constraints, then field
  validators, then the model validator; a validator that rewrites a field (the derived account
  state, the sorted legs) returns the rewritten record. The canonical and the legacy verifier
  classes have the same fields but for the name of the digest; \<open>cv_kind\<close> is their class.
\<close>

section \<open>Patterns\<close>

definition is_hex_char :: "char \<Rightarrow> bool" where
  "is_hex_char c \<longleftrightarrow> c \<in> set ''0123456789abcdef''"

definition is_hex :: "nat \<Rightarrow> string \<Rightarrow> bool" where
  "is_hex n s \<longleftrightarrow> length s = n \<and> list_all is_hex_char s"

definition is_alnum :: "char \<Rightarrow> bool" where
  "is_alnum c \<longleftrightarrow>
     (CHR ''0'' \<le> c \<and> c \<le> CHR ''9'') \<or> (CHR ''A'' \<le> c \<and> c \<le> CHR ''Z'') \<or>
     (CHR ''a'' \<le> c \<and> c \<le> CHR ''z'')"

definition is_pepper_version :: "string \<Rightarrow> bool" where
  "is_pepper_version s \<longleftrightarrow>
     (case s of [] \<Rightarrow> False
      | c # cs \<Rightarrow> is_alnum c \<and> length cs \<le> 63 \<and>
          list_all (\<lambda>x. is_alnum x \<or> x \<in> set ''._-'') cs)"

definition is_credential_fingerprint :: "string \<Rightarrow> bool" where
  "is_credential_fingerprint s \<longleftrightarrow> take 5 s = ''hcf1_'' \<and> is_hex 64 (drop 5 s)"

section \<open>Quota dimensions and provider accounts\<close>

record QuotaDimension =
  qd_status :: QuotaDimensionStatus
  qd_value :: "int option"

definition QuotaDimension_validate :: "QuotaDimension \<Rightarrow> QuotaDimension res" where
  "QuotaDimension_validate d = checks
    [((case qd_value d of None \<Rightarrow> False | Some v \<Rightarrow> \<not> v > 0), ''value: gt''),
     (qd_status d = KNOWN \<and> qd_value d = None, ''a known quota dimension requires a value''),
     (qd_status d \<noteq> KNOWN \<and> qd_value d \<noteq> None, ''only a known quota dimension may carry a value'')] d"

record ProviderAccount =
  pa_account_id :: account_id
  pa_display_name :: string
  pa_connection :: string
  pa_provider_token :: string
  pa_binding_ref :: string
  pa_credential_fingerprint :: "string option"
  pa_credential_epoch :: "int option"
  pa_parallel_limit :: QuotaDimension
  pa_local_parallel_ceiling :: int
  pa_rpm_limit :: QuotaDimension
  pa_rpm_window_seconds :: int
  pa_tpm_limit :: QuotaDimension
  pa_tpm_window_seconds :: int
  pa_monthly_quota_units :: QuotaDimension
  pa_quota_units_per_attempt :: int
  pa_monthly_reset_at_ms :: "int option"
  pa_state :: "AccountState option"

definition fully_attested :: "ProviderAccount \<Rightarrow> bool" where
  "fully_attested a \<longleftrightarrow>
     qd_status (pa_parallel_limit a) = KNOWN \<and>
     list_all (\<lambda>d. qd_status d \<noteq> UNKNOWN)
       [pa_rpm_limit a, pa_tpm_limit a, pa_monthly_quota_units a]"

definition enforced_max_in_flight :: "ProviderAccount \<Rightarrow> int res" where
  "enforced_max_in_flight a =
    (if \<not> fully_attested a then Inr 1
     else case qd_value (pa_parallel_limit a) of
       None \<Rightarrow> Inl AssertionError
     | Some v \<Rightarrow> Inr (min v (pa_local_parallel_ceiling a)))"

definition account_bound :: "ProviderAccount \<Rightarrow> bool" where
  "account_bound a \<longleftrightarrow> pa_connection a \<noteq> [] \<and> pa_provider_token a \<noteq> [] \<and> pa_binding_ref a \<noteq> []"

definition account_attested_credential :: "ProviderAccount \<Rightarrow> bool" where
  "account_attested_credential a \<longleftrightarrow>
     pa_credential_fingerprint a \<noteq> None \<and> pa_credential_epoch a \<noteq> None"

definition ProviderAccount_field_checks :: "ProviderAccount \<Rightarrow> (bool \<times> string) list" where
  "ProviderAccount_field_checks a =
    [(pa_display_name a = [] \<or> length (pa_display_name a) > 120, ''display_name: length''),
     (length (pa_connection a) > 256, ''connection: max_length''),
     (length (pa_provider_token a) > 256, ''provider_token: max_length''),
     (length (pa_binding_ref a) > 256, ''binding_ref: max_length''),
     ((case pa_credential_fingerprint a of None \<Rightarrow> False
       | Some f \<Rightarrow> \<not> is_credential_fingerprint f), ''credential_fingerprint: pattern''),
     ((case pa_credential_epoch a of None \<Rightarrow> False | Some e \<Rightarrow> \<not> e \<ge> 1), ''credential_epoch: ge''),
     (\<not> is_ok (QuotaDimension_validate (pa_parallel_limit a)), ''parallel_limit''),
     (\<not> (1 \<le> pa_local_parallel_ceiling a \<and> pa_local_parallel_ceiling a \<le> 128),
       ''local_parallel_ceiling: range''),
     (\<not> is_ok (QuotaDimension_validate (pa_rpm_limit a)), ''rpm_limit''),
     (\<not> (0 < pa_rpm_window_seconds a \<and> pa_rpm_window_seconds a \<le> 3600), ''rpm_window_seconds: range''),
     (\<not> is_ok (QuotaDimension_validate (pa_tpm_limit a)), ''tpm_limit''),
     (\<not> (0 < pa_tpm_window_seconds a \<and> pa_tpm_window_seconds a \<le> 86400), ''tpm_window_seconds: range''),
     (\<not> is_ok (QuotaDimension_validate (pa_monthly_quota_units a)), ''monthly_quota_units''),
     (\<not> pa_quota_units_per_attempt a \<ge> 0, ''quota_units_per_attempt: ge''),
     ((case pa_monthly_reset_at_ms a of None \<Rightarrow> False | Some r \<Rightarrow> \<not> r \<ge> 1), ''monthly_reset_at_ms: ge'')]"

definition account_shape_checks :: "ProviderAccount \<Rightarrow> (bool \<times> string) list" where
  "account_shape_checks a =
    (let binding = [pa_connection a, pa_provider_token a, pa_binding_ref a] in
      [(qd_status (pa_parallel_limit a) = ATTESTED_ABSENT,
         ''parallel capacity must be known or unknown, never unbounded''),
       (qd_status (pa_monthly_quota_units a) = KNOWN \<and> pa_monthly_reset_at_ms a = None,
         ''a known monthly quota requires an absolute UTC monthly reset''),
       (qd_status (pa_monthly_quota_units a) \<noteq> KNOWN \<and> pa_monthly_reset_at_ms a \<noteq> None,
         ''monthly reset semantics apply only to a known monthly quota''),
       (list_ex (\<lambda>x. x \<noteq> []) binding \<and> \<not> list_all (\<lambda>x. x \<noteq> []) binding,
         ''account binding must be fully populated or fully empty''),
       ((pa_credential_fingerprint a \<noteq> None \<or> pa_credential_epoch a \<noteq> None)
           \<and> \<not> account_attested_credential a,
         ''credential attestation must include fingerprint and epoch'')])"

definition account_state_checks :: "ProviderAccount \<Rightarrow> (bool \<times> string) list" where
  "account_state_checks a =
    (let bound = account_bound a;
         attested = account_attested_credential a;
         durable_state = pa_state a = Some AS_DISABLED \<or> pa_state a = Some AS_TOMBSTONED in
      [(pa_state a = Some AS_ACTIVE \<and> \<not> attested,
         ''an ACTIVE account requires a complete credential attestation''),
       (pa_state a = Some AS_ACTIVE \<and> \<not> bound, ''an ACTIVE account requires a complete binding''),
       (durable_state \<and> \<not> attested,
         ''a durable account state requires a complete credential attestation''),
       (durable_state \<and> \<not> bound, ''a durable account state requires a complete binding'')])"

definition derive_and_guard_state :: "ProviderAccount \<Rightarrow> ProviderAccount res" where
  "derive_and_guard_state a =
    res_bind (checks (account_shape_checks a) a) (\<lambda>_.
      if \<not> fully_attested a then
        (if pa_state a \<noteq> None \<and> pa_state a \<noteq> Some AS_DRAFT
         then Inl (ValueError ''an account with unattested capacity dimensions must stay DRAFT'')
         else Inr (a\<lparr>pa_state := Some AS_DRAFT\<rparr>))
      else res_bind (checks (account_state_checks a) a) (\<lambda>_.
        if pa_state a = None
        then Inr (a\<lparr>pa_state :=
          Some (if account_bound a \<and> account_attested_credential a then AS_ACTIVE else AS_DRAFT)\<rparr>)
        else Inr a))"

definition ProviderAccount_validate :: "ProviderAccount \<Rightarrow> ProviderAccount res" where
  "ProviderAccount_validate a =
     res_bind (checks (ProviderAccount_field_checks a) a) derive_and_guard_state"

section \<open>Route legs and groups\<close>

record RouteLeg =
  rl_leg_id :: leg_id
  rl_order :: int
  rl_triggers :: "RouteTrigger list"
  rl_account_id :: account_id
  rl_generation_id :: generation_id
  rl_capabilities :: LegCapabilities

definition RouteLeg_validate :: "RouteLeg \<Rightarrow> RouteLeg res" where
  "RouteLeg_validate l =
    res_bind (LegCapabilities_validate (rl_capabilities l)) (\<lambda>_.
     let shadow_trigger = SHADOW \<in> set (rl_triggers l) in checks
      [(\<not> rl_order l \<ge> 1, ''order: ge''),
       (rl_triggers l = [], ''triggers: min_length''),
       (has_dup (rl_triggers l), ''duplicate leg trigger''),
       (cap_shadow (rl_capabilities l) \<noteq> shadow_trigger, ''shadow capability and trigger must agree''),
       (shadow_trigger \<and> rl_triggers l \<noteq> [SHADOW], ''a shadow leg cannot carry serving triggers'')] l)"

record RouteGroupRevision =
  rg_route_group_id :: route_group_id
  rg_name :: string
  rg_strategy :: RouteStrategy
  rg_legs :: "RouteLeg list"

definition RouteGroupRevision_validate :: "RouteGroupRevision \<Rightarrow> RouteGroupRevision res" where
  "RouteGroupRevision_validate g = checks
    [(rg_name g = [] \<or> length (rg_name g) > 120, ''name: length''),
     (rg_legs g = [], ''legs: min_length''),
     (\<not> list_all (\<lambda>l. is_ok (RouteLeg_validate l)) (rg_legs g), ''legs''),
     (has_dup (map rl_order (rg_legs g)), ''duplicate RouteLeg.order within route group'')]
    (g\<lparr>rg_legs := sort_key (\<lambda>l. (rl_order l, rl_leg_id l)) (rg_legs g)\<rparr>)"

section \<open>Key policies\<close>

record KeyPolicyRevision =
  kp_policy_id :: policy_id
  kp_name :: string
  kp_route_group_ids :: "route_group_id list"
  kp_authorized_legs :: "AuthorizedLeg list"
  kp_queue_tier :: int
  kp_queue_weight :: int
  kp_max_concurrency :: int
  kp_max_waiters :: int
  kp_deadline_ms :: int

definition KeyPolicyRevision_validate :: "KeyPolicyRevision \<Rightarrow> KeyPolicyRevision res" where
  "KeyPolicyRevision_validate p = checks
    [(kp_name p = [] \<or> length (kp_name p) > 120, ''name: length''),
     (kp_route_group_ids p = [], ''route_group_ids: min_length''),
     (has_dup (kp_route_group_ids p), ''duplicate policy route group''),
     (kp_authorized_legs p = [], ''authorized_legs: min_length''),
     (\<not> list_all (\<lambda>l. is_ok (AuthorizedLeg_validate l)) (kp_authorized_legs p), ''authorized_legs''),
     (has_dup (map al_leg_id (kp_authorized_legs p)), ''duplicate policy authorized leg''),
     (\<not> kp_queue_tier p \<ge> 0, ''queue_tier: ge''),
     (\<not> (1 \<le> kp_queue_weight p \<and> kp_queue_weight p \<le> 64), ''queue_weight: range''),
     (\<not> kp_max_concurrency p \<ge> 1, ''max_concurrency: ge''),
     (\<not> kp_max_waiters p \<ge> 0, ''max_waiters: ge''),
     (\<not> (1 \<le> kp_deadline_ms p \<and> kp_deadline_ms p \<le> MAX_DEADLINE_MS), ''deadline_ms: range'')]
    (p\<lparr>kp_authorized_legs := sort_key leg_key (kp_authorized_legs p)\<rparr>)"

section \<open>Credential verifiers and client keys\<close>

datatype VerifierKind = ClientCredential | LegacyClientCredential

record ClientVerifier =
  cv_kind :: VerifierKind
  cv_generation :: int
  cv_digest_hex :: string
  cv_pepper_version :: string
  cv_not_before_s :: int
  cv_not_after_s :: int
  cv_status :: CredentialVerifierStatus

definition ClientVerifier_validate :: "VerifierKind \<Rightarrow> ClientVerifier \<Rightarrow> ClientVerifier res" where
  "ClientVerifier_validate kind v = checks
    [(cv_kind v \<noteq> kind, ''wrong verifier class''),
     (\<not> cv_generation v \<ge> 1, ''generation: ge''),
     (\<not> is_hex 64 (cv_digest_hex v), ''digest: pattern''),
     (\<not> is_pepper_version (cv_pepper_version v), ''pepper_version: pattern''),
     (\<not> cv_not_before_s v > 0, ''not_before_s: gt''),
     (\<not> cv_not_after_s v > 0, ''not_after_s: gt''),
     (cv_not_after_s v < cv_not_before_s v, ''credential not_after_s precedes not_before_s'')] v"

record ClientKeyRecord =
  ck_key_id :: key_id
  ck_policy_id :: policy_id
  ck_state :: KeyLifecycleState
  ck_issued_at_s :: int
  ck_expires_at_s :: int
  ck_time_high_water_s :: int
  ck_generation_high_water :: int
  ck_credential_verifiers :: "ClientVerifier list"
  ck_legacy_verifiers :: "ClientVerifier list"

definition key_verifiers :: "ClientKeyRecord \<Rightarrow> ClientVerifier list" where
  "key_verifiers r = ck_credential_verifiers r @ ck_legacy_verifiers r"

definition accepted_status :: "CredentialVerifierStatus \<Rightarrow> bool" where
  "accepted_status s \<longleftrightarrow> s = CV_ACTIVE \<or> s = CV_RETIRING"

definition key_terminal :: "ClientKeyRecord \<Rightarrow> bool" where
  "key_terminal r \<longleftrightarrow> ck_state r = KS_REVOKED \<or> ck_time_high_water_s r \<ge> ck_expires_at_s r"

definition ClientKeyRecord_validate :: "ClientKeyRecord \<Rightarrow> ClientKeyRecord res" where
  "ClientKeyRecord_validate r =
    (let verifiers = key_verifiers r;
         generations = map cv_generation verifiers;
         accepted = filter (\<lambda>v. accepted_status (cv_status v)) verifiers;
         active = filter (\<lambda>v. cv_status v = CV_ACTIVE) verifiers
     in checks
      [(\<not> is_hex 32 (ck_key_id r), ''key_id: pattern''),
       (\<not> ck_issued_at_s r > 0, ''issued_at_s: gt''),
       (\<not> ck_expires_at_s r > 0, ''expires_at_s: gt''),
       (\<not> ck_time_high_water_s r > 0, ''time_high_water_s: gt''),
       (\<not> ck_generation_high_water r \<ge> 1, ''generation_high_water: ge''),
       (length (ck_credential_verifiers r) > 2, ''credential_verifiers: max_length''),
       (\<not> list_all (\<lambda>v. is_ok (ClientVerifier_validate ClientCredential v)) (ck_credential_verifiers r),
         ''credential_verifiers''),
       (length (ck_legacy_verifiers r) > 2, ''legacy_verifiers: max_length''),
       (\<not> list_all (\<lambda>v. is_ok (ClientVerifier_validate LegacyClientCredential v)) (ck_legacy_verifiers r),
         ''legacy_verifiers''),
       (ck_expires_at_s r \<le> ck_issued_at_s r, ''client key expiry must follow issuance''),
       (ck_expires_at_s r - ck_issued_at_s r > 365 * 86400, ''client key lifetime exceeds 365 days''),
       (ck_time_high_water_s r < ck_issued_at_s r, ''trusted time high-water precedes issuance''),
       (map cv_generation (ck_credential_verifiers r) \<noteq> sort (map cv_generation (ck_credential_verifiers r)),
         ''canonical credential generations must be increasing''),
       (map cv_generation (ck_legacy_verifiers r) \<noteq> sort (map cv_generation (ck_legacy_verifiers r)),
         ''legacy credential generations must be increasing''),
       (verifiers = [], ''client key requires at least one credential verifier''),
       (length verifiers > 2 \<or> has_dup generations,
         ''credential generations must be unique and bounded to two''),
       (Max (set generations) \<noteq> ck_generation_high_water r,
         ''generation high-water must equal the newest verifier generation''),
       (list_ex (\<lambda>v. cv_not_before_s v < ck_issued_at_s r \<or> cv_not_after_s v > ck_expires_at_s r) verifiers,
         ''credential window must stay within logical key lifetime''),
       (length accepted > 2, ''at most two credential generations may be accepted''),
       (key_terminal r \<and> accepted \<noteq> [],
         ''terminal key cannot retain accepted credential generations''),
       (\<not> key_terminal r \<and>
          (length active \<noteq> 1 \<or> map cv_generation (take 1 active) \<noteq> [ck_generation_high_water r]),
         ''nonterminal key requires one active newest credential generation'')] r)"

section \<open>The bundle\<close>

record PolicyBundleV1 =
  pb_schema_version :: int
  pb_generation :: int
  pb_min_reader :: string
  pb_required_features :: "RequiredFeature list"
  pb_keys :: "ClientKeyRecord list"
  pb_policies :: "KeyPolicyRevision list"
  pb_accounts :: "ProviderAccount list"
  pb_route_groups :: "RouteGroupRevision list"
  pb_backend_manifest_hash :: string

definition is_digit :: "char \<Rightarrow> bool" where
  "is_digit c \<longleftrightarrow> CHR ''0'' \<le> c \<and> c \<le> CHR ''9''"

definition int_of_digits :: "string \<Rightarrow> int" where
  "int_of_digits s = foldl (\<lambda>n c. 10 * n + (of_char c - 48)) 0 s"

definition parse_min_reader :: "string \<Rightarrow> (int \<times> int) option" where
  "parse_min_reader v =
    (let major = takeWhile is_digit v; rest = dropWhile is_digit v
     in case rest of
          [] \<Rightarrow> None
        | c # minor \<Rightarrow>
            if major \<noteq> [] \<and> c = CHR ''.'' \<and> minor \<noteq> [] \<and> list_all is_digit minor
            then Some (int_of_digits major, int_of_digits minor) else None)"

definition min_reader_supported :: "string \<Rightarrow> string res" where
  "min_reader_supported v =
    (case parse_min_reader v of
       None \<Rightarrow> Inl (ValueError ''min_reader must be <major>.<minor>'')
     | Some r \<Rightarrow>
         if r > MAX_MIN_READER
         then Inl (ValueError ''min_reader exceeds this build's supported reader floor'')
         else Inr v)"

definition bundle_legs :: "PolicyBundleV1 \<Rightarrow> (route_group_id \<times> RouteLeg) list" where
  "bundle_legs b = concat (map (\<lambda>g. map (Pair (rg_route_group_id g)) (rg_legs g)) (pb_route_groups b))"

definition legs_by_id :: "PolicyBundleV1 \<Rightarrow> (leg_id, route_group_id \<times> RouteLeg) dict" where
  "legs_by_id b = dict_of (map (\<lambda>p. (rl_leg_id (snd p), p)) (bundle_legs b))"

definition authorized_leg_checks ::
    "PolicyBundleV1 \<Rightarrow> KeyPolicyRevision \<Rightarrow> AuthorizedLeg \<Rightarrow> (bool \<times> string) list" where
  "authorized_leg_checks b pol authorized =
    (let actual = map_of (legs_by_id b) (al_leg_id authorized) in
     [(al_account_id authorized \<notin> set (map pa_account_id (pb_accounts b)),
        ''policy grants unknown account''),
      (actual = None, ''policy authorizes unknown leg'')] @
     (case actual of None \<Rightarrow> []
      | Some (group_id, leg) \<Rightarrow>
         [(group_id \<notin> set (kp_route_group_ids pol), ''policy authorizes a leg outside its route groups''),
          (al_identity authorized \<noteq>
             (rl_leg_id leg, rl_account_id leg, rl_generation_id leg, rl_order leg),
            ''policy authorized leg identity does not match bundle''),
          (\<not> set (al_allowed_triggers authorized) \<subseteq> set (rl_triggers leg),
            ''policy grants a trigger absent from its route leg''),
          (al_capabilities authorized \<noteq> rl_capabilities leg,
            ''policy capabilities do not match its route leg'')]))"

definition policy_checks :: "PolicyBundleV1 \<Rightarrow> KeyPolicyRevision \<Rightarrow> (bool \<times> string) list" where
  "policy_checks b pol =
    (let groups = map rg_route_group_id (pb_route_groups b);
         covered = map fst (List.map_filter (\<lambda>l. map_of (legs_by_id b) (al_leg_id l)) (kp_authorized_legs pol))
     in (list_ex (\<lambda>g. g \<notin> set groups) (kp_route_group_ids pol), ''policy references unknown route_group'')
        # concat (map (authorized_leg_checks b pol) (kp_authorized_legs pol))
        @ [(list_ex (\<lambda>g. g \<notin> set covered) (kp_route_group_ids pol),
             ''policy has no authorized leg for route group'')])"

definition group_checks :: "PolicyBundleV1 \<Rightarrow> RouteGroupRevision \<Rightarrow> (bool \<times> string) list" where
  "group_checks b g =
    [(list_ex (\<lambda>l. rl_account_id l \<notin> set (map pa_account_id (pb_accounts b))) (rg_legs g),
       ''route group leg references unknown account''),
     (length (filter (\<lambda>l. PRIMARY \<in> set (rl_triggers l)) (rg_legs g)) \<noteq> 1,
       ''route group must have exactly one PRIMARY leg'')]"

definition account_bindings :: "PolicyBundleV1 \<Rightarrow> (string \<times> string \<times> string) list" where
  "account_bindings b =
     filter (\<lambda>(c, p, r). c \<noteq> [] \<or> p \<noteq> [] \<or> r \<noteq> [])
       (map (\<lambda>a. (pa_connection a, pa_provider_token a, pa_binding_ref a)) (pb_accounts b))"

definition exact_membership_checks :: "PolicyBundleV1 \<Rightarrow> (bool \<times> string) list" where
  "exact_membership_checks b =
    [(has_dup (map pa_account_id (pb_accounts b)), ''duplicate account_id in bundle''),
     (has_dup (map rg_route_group_id (pb_route_groups b)), ''duplicate route_group_id in bundle''),
     (has_dup (map kp_policy_id (pb_policies b)), ''duplicate policy_id in bundle''),
     (has_dup (map ck_key_id (pb_keys b)), ''duplicate key_id in bundle''),
     (has_dup (map (rl_leg_id \<circ> snd) (bundle_legs b)), ''duplicate leg_id in bundle''),
     (has_dup (map rg_name (pb_route_groups b)), ''duplicate RouteGroupRevision.name in bundle''),
     (has_dup (concat (map (\<lambda>k. map (\<lambda>v. (cv_pepper_version v, cv_digest_hex v)) (ck_legacy_verifiers k))
        (pb_keys b))), ''duplicate legacy credential fingerprint in bundle''),
     (has_dup (account_bindings b),
       ''duplicate account binding triple across live and tombstoned accounts'')]
    @ concat (map (group_checks b) (pb_route_groups b))
    @ concat (map (policy_checks b) (pb_policies b))
    @ map (\<lambda>k. (ck_policy_id k \<notin> set (map kp_policy_id (pb_policies b)), ''key references unknown policy''))
        (pb_keys b)"

definition PolicyBundleV1_validate :: "PolicyBundleV1 \<Rightarrow> PolicyBundleV1 res" where
  "PolicyBundleV1_validate b =
    res_bind (checks
      [(pb_schema_version b \<noteq> 1, ''schema_version: literal''),
       (\<not> pb_generation b \<ge> 1, ''generation: ge''),
       (has_dup (pb_required_features b), ''duplicate required feature''),
       (pb_keys b = [], ''keys: min_length''),
       (pb_policies b = [], ''policies: min_length''),
       (pb_accounts b = [], ''accounts: min_length''),
       (pb_route_groups b = [], ''route_groups: min_length''),
       (\<not> is_hex 64 (pb_backend_manifest_hash b), ''backend_manifest_hash: pattern'')] ()) (\<lambda>_.
    res_bind (min_reader_supported (pb_min_reader b)) (\<lambda>_.
    res_bind (res_mapM ClientKeyRecord_validate (pb_keys b)) (\<lambda>keys.
    res_bind (res_mapM KeyPolicyRevision_validate (pb_policies b)) (\<lambda>policies.
    res_bind (res_mapM ProviderAccount_validate (pb_accounts b)) (\<lambda>accounts.
    res_bind (res_mapM RouteGroupRevision_validate (pb_route_groups b)) (\<lambda>groups.
      let b' = b\<lparr>pb_keys := keys, pb_policies := policies, pb_accounts := accounts,
                 pb_route_groups := groups\<rparr>
      in checks (exact_membership_checks b') b'))))))"

section \<open>Validation is idempotent and derives a safe account\<close>

lemma QuotaDimension_valid_iff:
  "is_ok (QuotaDimension_validate d) \<longleftrightarrow>
     (case qd_value d of None \<Rightarrow> qd_status d \<noteq> KNOWN | Some v \<Rightarrow> qd_status d = KNOWN \<and> v > 0)"
  by (auto simp: QuotaDimension_validate_def checked split: option.splits)

lemma account_state_checks_ok:
  "none_bad (account_state_checks a) \<longleftrightarrow>
     (\<forall>st. pa_state a = Some st \<and> st \<noteq> AS_DRAFT \<longrightarrow> account_bound a \<and> account_attested_credential a)"
proof (cases "pa_state a")
  case (Some st)
  then show ?thesis by (cases st) (auto simp: account_state_checks_def)
qed (simp add: account_state_checks_def)

lemma pa_state_irrelevant [simp]:
  "fully_attested (a\<lparr>pa_state := st\<rparr>) = fully_attested a"
  "account_bound (a\<lparr>pa_state := st\<rparr>) = account_bound a"
  "account_attested_credential (a\<lparr>pa_state := st\<rparr>) = account_attested_credential a"
  "account_shape_checks (a\<lparr>pa_state := st\<rparr>) = account_shape_checks a"
  "ProviderAccount_field_checks (a\<lparr>pa_state := st\<rparr>) = ProviderAccount_field_checks a"
  by (simp_all add: fully_attested_def account_bound_def account_attested_credential_def
      account_shape_checks_def ProviderAccount_field_checks_def)

lemma pa_state_same [simp]: "pa_state a = Some st \<Longrightarrow> a\<lparr>pa_state := Some st\<rparr> = a"
  by (cases a) simp

definition account_state_safe :: "ProviderAccount \<Rightarrow> bool" where
  "account_state_safe a \<longleftrightarrow>
     (\<exists>st. pa_state a = Some st \<and>
        (st \<noteq> AS_DRAFT \<longrightarrow> fully_attested a \<and> account_bound a \<and> account_attested_credential a))"

lemma ProviderAccount_validate_Inr:
  "ProviderAccount_validate a = Inr a' \<longleftrightarrow>
     none_bad (ProviderAccount_field_checks a) \<and>
     none_bad (account_shape_checks a) \<and>
     account_state_safe a' \<and>
     (if pa_state a = None
      then a' = a\<lparr>pa_state := Some (if fully_attested a \<and> account_bound a \<and> account_attested_credential a
                                    then AS_ACTIVE else AS_DRAFT)\<rparr>
      else a' = a)"
proof (cases "pa_state a")
  case None
  then show ?thesis
    by (auto simp: ProviderAccount_validate_def derive_and_guard_state_def res_bind_Inr checks_Inr
        account_state_safe_def account_state_checks_ok)
next
  case (Some st)
  then show ?thesis
    by (auto simp: ProviderAccount_validate_def derive_and_guard_state_def res_bind_Inr checks_Inr
        account_state_safe_def account_state_checks_ok)
qed

lemma ProviderAccount_validate_idem:
  "ProviderAccount_validate a = Inr a' \<Longrightarrow> ProviderAccount_validate a' = Inr a'"
  unfolding ProviderAccount_validate_Inr
  by (auto simp: account_state_safe_def split: if_splits)


section \<open>A validated bundle\<close>

lemma distinct_map_sort_key [simp]: "distinct (map f (sort_key k xs)) = distinct (map f xs)"
  by (simp add: distinct_map)

lemma sort_key_nil [simp]: "sort_key k xs = [] \<longleftrightarrow> xs = []"
  by (metis length_0_conv length_sort)

lemma list_all_sort_key [simp]: "list_all P (sort_key k xs) = list_all P xs"
  by (simp add: list_all_iff)

lemma RouteGroupRevision_validate_idem:
  "RouteGroupRevision_validate g = Inr g' \<Longrightarrow> RouteGroupRevision_validate g' = Inr g'"
  by (auto simp: RouteGroupRevision_validate_def checks_Inr sort_key_id_if_sorted sorted_sort_key)

lemma KeyPolicyRevision_validate_idem:
  "KeyPolicyRevision_validate p = Inr p' \<Longrightarrow> KeyPolicyRevision_validate p' = Inr p'"
  by (auto simp: KeyPolicyRevision_validate_def checks_Inr sort_key_id_if_sorted sorted_sort_key)

lemma ClientKeyRecord_validate_same: "ClientKeyRecord_validate r = Inr r' \<Longrightarrow> r' = r"
  by (simp add: ClientKeyRecord_validate_def Let_def checks_Inr)

lemma res_mapM_idem:
  assumes "\<And>x y. f x = Inr y \<Longrightarrow> f y = Inr y" and "res_mapM f xs = Inr ys"
  shows "res_mapM f ys = Inr ys"
  using assms(2)
  by (induction xs arbitrary: ys) (auto simp: res_bind_Inr res_map_Inr dest: assms(1))

text \<open>What a bundle that passed validation guarantees, field by field.\<close>

definition bundle_ok :: "PolicyBundleV1 \<Rightarrow> bool" where
  "bundle_ok b \<longleftrightarrow> PolicyBundleV1_validate b = Inr b"

lemma PolicyBundleV1_validate_Inr:
  assumes "PolicyBundleV1_validate b = Inr b'"
  shows "\<exists>keys policies accounts groups.
     res_mapM ClientKeyRecord_validate (pb_keys b) = Inr keys \<and>
     res_mapM KeyPolicyRevision_validate (pb_policies b) = Inr policies \<and>
     res_mapM ProviderAccount_validate (pb_accounts b) = Inr accounts \<and>
     res_mapM RouteGroupRevision_validate (pb_route_groups b) = Inr groups \<and>
     b' = b\<lparr>pb_keys := keys, pb_policies := policies, pb_accounts := accounts,
            pb_route_groups := groups\<rparr> \<and>
     none_bad (exact_membership_checks b')"
  using assms
  by (auto simp: PolicyBundleV1_validate_def res_bind_Inr checks_Inr Let_def)

lemma PolicyBundleV1_validate_idem:
  assumes "PolicyBundleV1_validate b = Inr b'"
  shows "bundle_ok b'"
proof -
  obtain keys policies accounts groups where
    parts: "res_mapM ClientKeyRecord_validate (pb_keys b) = Inr keys"
      "res_mapM KeyPolicyRevision_validate (pb_policies b) = Inr policies"
      "res_mapM ProviderAccount_validate (pb_accounts b) = Inr accounts"
      "res_mapM RouteGroupRevision_validate (pb_route_groups b) = Inr groups"
    and b': "b' = b\<lparr>pb_keys := keys, pb_policies := policies, pb_accounts := accounts,
            pb_route_groups := groups\<rparr>"
    using PolicyBundleV1_validate_Inr [OF assms] by blast
  have again: "res_mapM ClientKeyRecord_validate keys = Inr keys"
      "res_mapM KeyPolicyRevision_validate policies = Inr policies"
      "res_mapM ProviderAccount_validate accounts = Inr accounts"
      "res_mapM RouteGroupRevision_validate groups = Inr groups"
    using parts
    by (auto intro!: res_mapM_idem [of ClientKeyRecord_validate] res_mapM_idem [of KeyPolicyRevision_validate]
        res_mapM_idem [of ProviderAccount_validate] res_mapM_idem [of RouteGroupRevision_validate]
        intro: ProviderAccount_validate_idem KeyPolicyRevision_validate_idem
          RouteGroupRevision_validate_idem dest: ClientKeyRecord_validate_same)
  have len: "keys = [] \<longleftrightarrow> pb_keys b = []" "policies = [] \<longleftrightarrow> pb_policies b = []"
      "accounts = [] \<longleftrightarrow> pb_accounts b = []" "groups = [] \<longleftrightarrow> pb_route_groups b = []"
    using parts by (auto simp: res_mapM_Inr)
  show ?thesis
    using assms again len unfolding bundle_ok_def b'
    by (simp add: PolicyBundleV1_validate_def res_bind_Inr checks_Inr Let_def parts)
qed

lemma bundle_ok_membership: "bundle_ok b \<Longrightarrow> none_bad (exact_membership_checks b)"
  unfolding bundle_ok_def using PolicyBundleV1_validate_Inr by blast

lemma bundle_ok_policy_check: "bundle_ok b \<Longrightarrow> pol \<in> set (pb_policies b) \<Longrightarrow> none_bad (policy_checks b pol)"
  by (drule bundle_ok_membership) (simp add: exact_membership_checks_def)

lemma bundle_ok_group_check: "bundle_ok b \<Longrightarrow> g \<in> set (pb_route_groups b) \<Longrightarrow> none_bad (group_checks b g)"
  by (drule bundle_ok_membership) (simp add: exact_membership_checks_def)

lemma bundle_ok_distinct:
  assumes "bundle_ok b"
  shows "distinct (map pa_account_id (pb_accounts b))" "distinct (map kp_policy_id (pb_policies b))"
    "distinct (map ck_key_id (pb_keys b))" "distinct (map rg_route_group_id (pb_route_groups b))"
    "distinct (map rg_name (pb_route_groups b))"
  using bundle_ok_membership [OF assms] by (simp_all add: exact_membership_checks_def)

lemma bundle_ok_key_policy:
  assumes "bundle_ok b" "k \<in> set (pb_keys b)"
  shows "ck_policy_id k \<in> kp_policy_id ` set (pb_policies b)"
  using bundle_ok_membership [OF assms(1)] assms(2) by (simp add: exact_membership_checks_def)

lemma legs_by_id_in_group:
  assumes "map_of (legs_by_id b) i = Some (gid, leg)"
  shows "\<exists>g \<in> set (pb_route_groups b). rg_route_group_id g = gid \<and> leg \<in> set (rg_legs g)"
proof -
  have "(gid, leg) \<in> snd ` set (map (\<lambda>p. (rl_leg_id (snd p), p)) (bundle_legs b))"
    using ranI [where m = "map_of (legs_by_id b)", OF assms] unfolding legs_by_id_def by (rule subsetD [OF ran_dict_of])
  then show ?thesis by (auto simp: bundle_legs_def)
qed

definition leg_granted_exactly :: "PolicyBundleV1 \<Rightarrow> KeyPolicyRevision \<Rightarrow> AuthorizedLeg \<Rightarrow> bool" where
  "leg_granted_exactly b pol l \<longleftrightarrow>
     al_account_id l \<in> pa_account_id ` set (pb_accounts b) \<and>
     (\<exists>g \<in> set (pb_route_groups b). \<exists>leg \<in> set (rg_legs g).
        rg_route_group_id g \<in> set (kp_route_group_ids pol) \<and>
        al_identity l = (rl_leg_id leg, rl_account_id leg, rl_generation_id leg, rl_order leg) \<and>
        set (al_allowed_triggers l) \<subseteq> set (rl_triggers leg) \<and>
        al_capabilities l = rl_capabilities leg)"

lemma bundle_ok_grants:
  assumes ok: "bundle_ok b" and pol: "pol \<in> set (pb_policies b)"
    and l: "l \<in> set (kp_authorized_legs pol)"
  shows "leg_granted_exactly b pol l"
proof -
  have chk: "none_bad (authorized_leg_checks b pol l)"
    using bundle_ok_policy_check [OF ok pol] l by (simp add: policy_checks_def Let_def)
  then obtain gid leg where found: "map_of (legs_by_id b) (al_leg_id l) = Some (gid, leg)"
    by (auto simp: authorized_leg_checks_def Let_def)
  from chk legs_by_id_in_group [OF found] show ?thesis
    by (auto simp: authorized_leg_checks_def leg_granted_exactly_def found)
qed

lemma bundle_ok_primary:
  assumes ok: "bundle_ok b" and g: "g \<in> set (pb_route_groups b)"
  shows "length (filter (\<lambda>l. PRIMARY \<in> set (rl_triggers l)) (rg_legs g)) = 1"
  using bundle_ok_group_check [OF ok g] by (simp add: group_checks_def)


section \<open>A sample bundle\<close>

text \<open>One concrete bundle that passes validation; the witnesses of this and later theories use it.\<close>

definition sample_account :: ProviderAccount where
  "sample_account = \<lparr>pa_account_id = ''acc_1'', pa_display_name = ''main'', pa_connection = ''c'',
     pa_provider_token = ''t'', pa_binding_ref = ''b'',
     pa_credential_fingerprint = Some (''hcf1_'' @ replicate 64 CHR ''a''),
     pa_credential_epoch = Some 1, pa_parallel_limit = \<lparr>qd_status = KNOWN, qd_value = Some 2\<rparr>,
     pa_local_parallel_ceiling = 4, pa_rpm_limit = \<lparr>qd_status = KNOWN, qd_value = Some 2\<rparr>,
     pa_rpm_window_seconds = 60, pa_tpm_limit = \<lparr>qd_status = KNOWN, qd_value = Some 5000\<rparr>,
     pa_tpm_window_seconds = 60, pa_monthly_quota_units = \<lparr>qd_status = KNOWN, qd_value = Some 10\<rparr>,
     pa_quota_units_per_attempt = 5, pa_monthly_reset_at_ms = Some 1000000, pa_state = None\<rparr>"

definition sample_route_leg :: RouteLeg where
  "sample_route_leg = \<lparr>rl_leg_id = ''leg_1'', rl_order = 10, rl_triggers = [PRIMARY],
     rl_account_id = ''acc_1'', rl_generation_id = ''dg1_1'', rl_capabilities = sample_caps\<rparr>"

definition sample_group :: RouteGroupRevision where
  "sample_group = \<lparr>rg_route_group_id = ''rg_1'', rg_name = ''model'', rg_strategy = ORDERED_CAPACITY,
     rg_legs = [sample_route_leg]\<rparr>"

definition sample_policy :: KeyPolicyRevision where
  "sample_policy = \<lparr>kp_policy_id = ''pol_1'', kp_name = ''p'', kp_route_group_ids = [''rg_1''],
     kp_authorized_legs = [sample_leg], kp_queue_tier = 0, kp_queue_weight = 4,
     kp_max_concurrency = 2, kp_max_waiters = 3, kp_deadline_ms = 1000\<rparr>"

definition sample_verifier :: ClientVerifier where
  "sample_verifier = \<lparr>cv_kind = ClientCredential, cv_generation = 1,
     cv_digest_hex = replicate 64 CHR ''a'', cv_pepper_version = ''p1'', cv_not_before_s = 100,
     cv_not_after_s = 1000, cv_status = CV_ACTIVE\<rparr>"

definition sample_key :: ClientKeyRecord where
  "sample_key = \<lparr>ck_key_id = replicate 32 CHR ''0'', ck_policy_id = ''pol_1'', ck_state = KS_ENABLED,
     ck_issued_at_s = 100, ck_expires_at_s = 1000, ck_time_high_water_s = 100,
     ck_generation_high_water = 1, ck_credential_verifiers = [sample_verifier],
     ck_legacy_verifiers = []\<rparr>"

definition sample_bundle :: PolicyBundleV1 where
  "sample_bundle = \<lparr>pb_schema_version = 1, pb_generation = 1, pb_min_reader = ''1.0'',
     pb_required_features = [RF_ORDERED_CAPACITY], pb_keys = [sample_key],
     pb_policies = [sample_policy], pb_accounts = [sample_account],
     pb_route_groups = [sample_group], pb_backend_manifest_hash = replicate 64 CHR ''0''\<rparr>"

lemma sample_account_valid: "is_ok (ProviderAccount_validate sample_account)"
  by code_simp

lemma sample_bundle_valid: "is_ok (PolicyBundleV1_validate sample_bundle)"
  by code_simp



end
