(* ===== verification/Key_Lifecycle.thy ===== *)
theory Key_Lifecycle
  imports Bundle
begin

text \<open>
  The whole-record client-key invariants of \<open>core/key_lifecycle.py\<close>, shared by the Control
  commands and by bundle publication: \<open>validate_key_record_delta\<close> (one record may follow
  another), \<open>validate_key_record_set_delta\<close> (a key set may follow another) and
  \<open>exact_policy_reassignments\<close>. Where the source iterates over a set of generations or key IDs the
  model takes them in record order; the order only chooses which of several violations is reported.
  The theorems are about histories: what any number of accepted record changes cannot do.
\<close>

definition MAX_ROTATION_OVERLAP_S :: int where
  "MAX_ROTATION_OVERLAP_S = 7 * 86400"

record PolicyReassignment =
  expected_policy_id :: policy_id
  target_policy_id :: policy_id

definition terminal_credential_state :: "CredentialVerifierStatus \<Rightarrow> bool" where
  "terminal_credential_state s \<longleftrightarrow> s = CV_RETIRED \<or> s = CV_EXPIRED"

fun allowed_credential_transitions :: "CredentialVerifierStatus \<Rightarrow> CredentialVerifierStatus list" where
  "allowed_credential_transitions CV_ACTIVE = [CV_ACTIVE, CV_RETIRING, CV_RETIRED, CV_EXPIRED]"
| "allowed_credential_transitions CV_RETIRING = [CV_RETIRING, CV_RETIRED, CV_EXPIRED]"
| "allowed_credential_transitions CV_RETIRED = [CV_RETIRED]"
| "allowed_credential_transitions CV_EXPIRED = [CV_EXPIRED]"

definition validate_existing_verifier :: "ClientVerifier \<Rightarrow> ClientVerifier \<Rightarrow> (bool \<times> string) list" where
  "validate_existing_verifier before after =
    [(cv_kind before \<noteq> cv_kind after, ''credential verifier kind is immutable''),
     (cv_digest_hex before \<noteq> cv_digest_hex after
        \<or> cv_pepper_version before \<noteq> cv_pepper_version after
        \<or> cv_not_before_s before \<noteq> cv_not_before_s after,
       ''credential verifier generation is immutable''),
     (cv_not_after_s after > cv_not_after_s before, ''credential verifier window cannot be extended''),
     (cv_status after \<notin> set (allowed_credential_transitions (cv_status before))
        \<and> terminal_credential_state (cv_status before),
       ''terminal credential generation cannot resurrect''),
     (cv_status after \<notin> set (allowed_credential_transitions (cv_status before)),
       ''illegal credential verifier status transition'')]"

definition verifiers_by_generation :: "ClientKeyRecord \<Rightarrow> (int, ClientVerifier) dict" where
  "verifiers_by_generation r = dict_of (map (\<lambda>v. (cv_generation v, v)) (key_verifiers r))"

definition reassignment_checks ::
    "ClientKeyRecord \<Rightarrow> ClientKeyRecord \<Rightarrow> PolicyReassignment option \<Rightarrow> (bool \<times> string) list" where
  "reassignment_checks before after reassignment =
    (if ck_policy_id after \<noteq> ck_policy_id before then
       (case reassignment of
          None \<Rightarrow> [(True, ''policy reassignment requires exact expected and target policy IDs'')]
        | Some p \<Rightarrow>
            [(expected_policy_id p \<noteq> ck_policy_id before, ''policy reassignment expected policy does not match''),
             (target_policy_id p \<noteq> ck_policy_id after, ''policy reassignment target policy does not match'')])
     else
       (case reassignment of
          None \<Rightarrow> []
        | Some p \<Rightarrow>
            [(expected_policy_id p \<noteq> ck_policy_id before \<or> target_policy_id p \<noteq> ck_policy_id after,
               ''policy reassignment does not match the record delta'')]))"

definition existing_verifier_checks :: "ClientKeyRecord \<Rightarrow> ClientKeyRecord \<Rightarrow> (bool \<times> string) list" where
  "existing_verifier_checks before after =
    concat (map (\<lambda>(g, v).
        case map_of (verifiers_by_generation before) g of
          None \<Rightarrow> [] | Some u \<Rightarrow> validate_existing_verifier u v)
      (verifiers_by_generation after))"

definition new_verifier_checks :: "ClientKeyRecord \<Rightarrow> ClientKeyRecord \<Rightarrow> (bool \<times> string) list" where
  "new_verifier_checks before after =
    concat (map (\<lambda>(g, v).
        if dict_has (verifiers_by_generation before) g then []
        else [(g \<le> ck_generation_high_water before, ''retired credential generation reuse is forbidden''),
              (cv_not_before_s v < ck_time_high_water_s before,
                ''backdated credential not-before precedes transition high-water''),
              (cv_not_before_s v > ck_time_high_water_s after,
                ''future credential not-before exceeds transition high-water'')])
      (verifiers_by_generation after))"

definition high_water_checks :: "ClientKeyRecord \<Rightarrow> ClientKeyRecord \<Rightarrow> (bool \<times> string) list" where
  "high_water_checks before after =
    (let old = verifiers_by_generation before; new = verifiers_by_generation after in
     if ck_generation_high_water after > ck_generation_high_water before
     then [(\<not> dict_has new (ck_generation_high_water after), ''generation high-water must name the new verifier'')]
     else [(list_ex (\<lambda>g. \<not> dict_has old g) (map fst new), ''new verifier requires a higher generation'')])"

definition overlap_checks :: "ClientKeyRecord \<Rightarrow> (bool \<times> string) list" where
  "overlap_checks after =
    (case find (\<lambda>v. cv_status v = CV_ACTIVE) (key_verifiers after) of
       None \<Rightarrow> []
     | Some active \<Rightarrow>
         map (\<lambda>retiring.
            (cv_not_after_s retiring - cv_not_before_s active > MAX_ROTATION_OVERLAP_S,
              ''credential rotation overlap exceeds seven days''))
          (filter (\<lambda>v. cv_status v = CV_RETIRING) (key_verifiers after)))"

definition live_delta_checks ::
    "ClientKeyRecord \<Rightarrow> ClientKeyRecord \<Rightarrow> PolicyReassignment option \<Rightarrow> (bool \<times> string) list" where
  "live_delta_checks before after reassignment =
    [(ck_time_high_water_s after < ck_time_high_water_s before,
       ''trusted clock high-water cannot move backward''),
     (ck_expires_at_s after > ck_expires_at_s before, ''client key expiry extension requires reissue''),
     (ck_expires_at_s after < ck_expires_at_s before, ''client key expiry cannot change silently'')]
    @ reassignment_checks before after reassignment
    @ [(ck_generation_high_water after < ck_generation_high_water before,
         ''credential generation high-water cannot roll back'')]
    @ existing_verifier_checks before after
    @ new_verifier_checks before after
    @ high_water_checks before after
    @ overlap_checks after"

definition validate_key_record_delta ::
    "ClientKeyRecord \<Rightarrow> ClientKeyRecord \<Rightarrow> PolicyReassignment option \<Rightarrow> unit res" where
  "validate_key_record_delta before after reassignment =
    res_bind (ClientKeyRecord_validate before) (\<lambda>before.
    res_bind (ClientKeyRecord_validate after) (\<lambda>after.
    res_bind (checks
      [(ck_key_id after \<noteq> ck_key_id before, ''client key identity cannot change''),
       (ck_issued_at_s after \<noteq> ck_issued_at_s before, ''client key issuance time cannot change'')] ()) (\<lambda>_.
    if key_terminal before
    then checks [(after \<noteq> before, ''terminal key identity cannot resurrect or change'')] ()
    else checks (live_delta_checks before after reassignment) ())))"

definition exact_policy_reassignments ::
    "ClientKeyRecord list \<Rightarrow> ClientKeyRecord list \<Rightarrow> (key_id, PolicyReassignment) dict" where
  "exact_policy_reassignments before after =
    (let old = dict_of (map (\<lambda>r. (ck_key_id r, r)) before) in
     dict_of (List.map_filter (\<lambda>record.
        case map_of old (ck_key_id record) of
          None \<Rightarrow> None
        | Some o_rec \<Rightarrow>
            if ck_policy_id record \<noteq> ck_policy_id o_rec
            then Some (ck_key_id record,
                   \<lparr>expected_policy_id = ck_policy_id o_rec, target_policy_id = ck_policy_id record\<rparr>)
            else None) after))"

definition validate_key_record_set_delta ::
    "ClientKeyRecord list \<Rightarrow> ClientKeyRecord list \<Rightarrow> (key_id, PolicyReassignment) dict \<Rightarrow> unit res" where
  "validate_key_record_set_delta before after assignments =
    (let old = dict_of (map (\<lambda>r. (ck_key_id r, r)) before);
         new = dict_of (map (\<lambda>r. (ck_key_id r, r)) after) in
     res_bind (checks [(list_ex (\<lambda>k. \<not> dict_has new k) (map fst old),
         ''client key tombstones cannot be removed'')] ()) (\<lambda>_.
     res_map (\<lambda>_. ()) (res_mapM (\<lambda>(k, o_rec).
        case map_of new k of
          None \<Rightarrow> Inr ()
        | Some n_rec \<Rightarrow>
            if o_rec \<noteq> n_rec then validate_key_record_delta o_rec n_rec (map_of assignments k)
            else Inr ()) old)))"

section \<open>One accepted change\<close>

definition key_step :: "ClientKeyRecord \<Rightarrow> ClientKeyRecord \<Rightarrow> bool" where
  "key_step before after \<longleftrightarrow> (\<exists>p. validate_key_record_delta before after p = Inr ())"

text \<open>\<open>verifier_contracts u v\<close>: the same credential generation, its window and status only reduced.\<close>

definition verifier_contracts :: "ClientVerifier \<Rightarrow> ClientVerifier \<Rightarrow> bool" where
  "verifier_contracts u v \<longleftrightarrow>
     cv_generation u = cv_generation v \<and> cv_kind u = cv_kind v \<and>
     cv_digest_hex u = cv_digest_hex v \<and> cv_pepper_version u = cv_pepper_version v \<and>
     cv_not_before_s u = cv_not_before_s v \<and> cv_not_after_s v \<le> cv_not_after_s u \<and>
     cv_status v \<in> set (allowed_credential_transitions (cv_status u))"

lemma allowed_credential_refl: "s \<in> set (allowed_credential_transitions s)"
  by (cases s) auto

lemma allowed_credential_trans:
  "t \<in> set (allowed_credential_transitions s) \<Longrightarrow> u \<in> set (allowed_credential_transitions t) \<Longrightarrow>
     u \<in> set (allowed_credential_transitions s)"
  by (cases s; cases t) auto

lemma verifier_contracts_refl: "verifier_contracts v v"
  by (simp add: verifier_contracts_def allowed_credential_refl)

lemma verifier_contracts_trans:
  "verifier_contracts u v \<Longrightarrow> verifier_contracts v w \<Longrightarrow> verifier_contracts u w"
  by (auto simp: verifier_contracts_def intro: allowed_credential_trans)

definition key_valid :: "ClientKeyRecord \<Rightarrow> bool" where
  "key_valid r \<longleftrightarrow> ClientKeyRecord_validate r = Inr r"

lemma ClientKeyRecord_validate_Inr: "ClientKeyRecord_validate r = Inr r' \<longleftrightarrow> r' = r \<and> key_valid r"
  by (auto simp: key_valid_def dest: ClientKeyRecord_validate_same)

lemma key_valid_facts:
  assumes "key_valid r"
  shows "distinct (map cv_generation (key_verifiers r))" "key_verifiers r \<noteq> []"
    "Max (set (map cv_generation (key_verifiers r))) = ck_generation_high_water r"
    "v \<in> set (key_verifiers r) \<Longrightarrow> ck_issued_at_s r \<le> cv_not_before_s v \<and> cv_not_after_s v \<le> ck_expires_at_s r"
    "key_terminal r \<Longrightarrow> v \<in> set (key_verifiers r) \<Longrightarrow> terminal_credential_state (cv_status v)"
    "length (key_verifiers r) \<le> 2" "ck_expires_at_s r - ck_issued_at_s r \<le> 365 * 86400"
proof -
  note valid = assms [unfolded key_valid_def ClientKeyRecord_validate_def Let_def checks_Inr]
  show "distinct (map cv_generation (key_verifiers r))" "key_verifiers r \<noteq> []"
    "Max (set (map cv_generation (key_verifiers r))) = ck_generation_high_water r"
    "length (key_verifiers r) \<le> 2" "ck_expires_at_s r - ck_issued_at_s r \<le> 365 * 86400"
    using valid by auto
  show "ck_issued_at_s r \<le> cv_not_before_s v \<and> cv_not_after_s v \<le> ck_expires_at_s r"
    if "v \<in> set (key_verifiers r)"
    using valid that by (auto simp: list_ex_iff not_less)
  show "terminal_credential_state (cv_status v)" if "key_terminal r" "v \<in> set (key_verifiers r)"
  proof -
    have "\<not> accepted_status (cv_status v)" using valid that by (auto simp: filter_empty_conv)
    then show ?thesis by (cases "cv_status v") (auto simp: accepted_status_def terminal_credential_state_def)
  qed
qed

lemma generation_le_high_water:
  "key_valid r \<Longrightarrow> v \<in> set (key_verifiers r) \<Longrightarrow> cv_generation v \<le> ck_generation_high_water r"
  using key_valid_facts(3) [of r] by (metis List.finite_set Max_ge image_eqI list.set_map)

lemma verifiers_by_generation_eq:
  "key_valid r \<Longrightarrow> verifiers_by_generation r = map (\<lambda>v. (cv_generation v, v)) (key_verifiers r)"
  unfolding verifiers_by_generation_def
  by (rule dict_of_distinct) (simp add: key_valid_facts comp_def)

lemma map_of_verifiers:
  assumes "key_valid r"
  shows "map_of (verifiers_by_generation r) g = Some v \<longleftrightarrow> v \<in> set (key_verifiers r) \<and> cv_generation v = g"
proof -
  have "distinct (map fst (map (\<lambda>v. (cv_generation v, v)) (key_verifiers r)))"
    using key_valid_facts(1) [OF assms] by (simp add: comp_def)
  then show ?thesis
    by (auto simp: verifiers_by_generation_eq [OF assms] map_of_eq_Some_iff)
qed

lemma key_step_cases:
  assumes "key_step a b"
  shows "key_valid a" "key_valid b" "ck_key_id b = ck_key_id a" "ck_issued_at_s b = ck_issued_at_s a"
    "b = a \<or> \<not> key_terminal a \<and> (\<exists>p. none_bad (live_delta_checks a b p))"
  using assms
  by (auto simp: key_step_def validate_key_record_delta_def res_bind_Inr checks_Inr
      ClientKeyRecord_validate_Inr split: if_split_asm)

lemma key_step_monotone:
  assumes "key_step a b"
  shows "ck_generation_high_water a \<le> ck_generation_high_water b"
    "ck_time_high_water_s a \<le> ck_time_high_water_s b" "ck_expires_at_s b = ck_expires_at_s a"
  using key_step_cases(5) [OF assms] by (auto simp: live_delta_checks_def)

lemma key_step_terminal: "key_step a b \<Longrightarrow> key_terminal a \<Longrightarrow> b = a"
  using key_step_cases(5) by blast

lemma validate_existing_verifier_ok:
  "none_bad (validate_existing_verifier u v) \<Longrightarrow> cv_generation u = cv_generation v \<Longrightarrow> verifier_contracts u v"
  by (auto simp: validate_existing_verifier_def verifier_contracts_def)

lemma key_step_verifier:
  assumes step: "key_step a b" and v: "v \<in> set (key_verifiers b)"
  shows "(\<exists>u \<in> set (key_verifiers a). verifier_contracts u v) \<or>
     (cv_generation v > ck_generation_high_water a \<and>
      ck_time_high_water_s a \<le> cv_not_before_s v \<and> cv_not_before_s v \<le> ck_time_high_water_s b)"
proof (cases "b = a")
  case True
  with v show ?thesis using verifier_contracts_refl by blast
next
  case False
  note valid = key_step_cases(1,2) [OF step]
  from False obtain p where live: "none_bad (live_delta_checks a b p)"
    using key_step_cases(5) [OF step] by blast
  have entry: "(cv_generation v, v) \<in> set (verifiers_by_generation b)"
    using v by (simp add: verifiers_by_generation_eq [OF valid(2)])
  show ?thesis
  proof (cases "map_of (verifiers_by_generation a) (cv_generation v)")
    case None
    then have "\<not> dict_has (verifiers_by_generation a) (cv_generation v)"
      by (metis dict_has_map_of)
    with live entry show ?thesis
      by (fastforce simp: live_delta_checks_def new_verifier_checks_def)
  next
    case (Some u)
    with live entry have "none_bad (validate_existing_verifier u v)"
      by (fastforce simp: live_delta_checks_def existing_verifier_checks_def)
    moreover have "u \<in> set (key_verifiers a)" "cv_generation u = cv_generation v"
      using Some by (auto simp: map_of_verifiers [OF valid(1)])
    ultimately show ?thesis using validate_existing_verifier_ok by blast
  qed
qed

section \<open>Histories\<close>

lemma key_history_monotone:
  "key_step\<^sup>*\<^sup>* a b \<Longrightarrow> ck_generation_high_water a \<le> ck_generation_high_water b \<and>
     ck_time_high_water_s a \<le> ck_time_high_water_s b \<and> ck_expires_at_s b = ck_expires_at_s a \<and>
     ck_key_id b = ck_key_id a \<and> ck_issued_at_s b = ck_issued_at_s a"
  by (induction rule: rtranclp_induct) (force dest: key_step_monotone key_step_cases(3,4))+


text \<open>a key that is revoked, or whose trusted clock has reached its expiry, never changes again: a
  history of accepted changes from it stands still, and it holds no credential a client could still
  present.
\<close>

theorem terminal_key_is_frozen:
  assumes "key_step\<^sup>*\<^sup>* a b" and "key_terminal a" and "key_valid a"
  shows "b = a \<and> (\<forall>v \<in> set (key_verifiers b). \<not> accepted_status (cv_status v))"
proof -
  have same: "b = a"
    using assms(1,2) by (induction rule: rtranclp_induct) (auto dest: key_step_terminal)
  then show ?thesis
    using key_valid_facts(5) [OF assms(3,2)]
    by (fastforce simp: terminal_credential_state_def accepted_status_def)
qed

section \<open>Key sets\<close>

lemma set_delta_keeps_keys:
  assumes "validate_key_record_set_delta before after assignments = Inr ()"
    and "distinct (map ck_key_id before)" and "distinct (map ck_key_id after)" and "r \<in> set before"
  shows "\<exists>r' \<in> set after. r' = r \<or> key_step r r'"
proof -
  have old: "dict_of (map (\<lambda>r. (ck_key_id r, r)) before) = map (\<lambda>r. (ck_key_id r, r)) before"
    and new: "dict_of (map (\<lambda>r. (ck_key_id r, r)) after) = map (\<lambda>r. (ck_key_id r, r)) after"
    using assms(2,3) by (auto intro!: dict_of_distinct simp: comp_def)
  have "ck_key_id r \<in> ck_key_id ` set after"
    using assms(1,4) unfolding validate_key_record_set_delta_def Let_def old new
    by (auto simp: res_bind_Inr checks_Inr list_ex_iff image_iff)
  then obtain r' where r': "r' \<in> set after" "ck_key_id r' = ck_key_id r" by auto
  have found: "map_of (map (\<lambda>r. (ck_key_id r, r)) after) (ck_key_id r) = Some r'"
    using r' assms(3) by (intro map_of_is_SomeI) (auto simp: comp_def image_iff)
  obtain us where us: "res_mapM (\<lambda>(k, o_rec).
        case map_of (map (\<lambda>r. (ck_key_id r, r)) after) k of None \<Rightarrow> Inr ()
        | Some n_rec \<Rightarrow> if o_rec \<noteq> n_rec then validate_key_record_delta o_rec n_rec (map_of assignments k)
            else Inr ()) (map (\<lambda>r. (ck_key_id r, r)) before) = Inr us"
    using assms(1) unfolding validate_key_record_set_delta_def Let_def old new
    by (auto simp: res_bind_Inr res_map_Inr)
  have "(if r \<noteq> r' then validate_key_record_delta r r' (map_of assignments (ck_key_id r)) else Inr ()) = Inr ()"
    using us assms(4) found by (auto simp: res_mapM_Inr list_all2_conv_all_nth in_set_conv_nth)
  then show ?thesis using r'(1) by (auto simp: key_step_def split: if_split_asm)
qed

text \<open>publishing a new key set over an old one never drops or rewrites a tombstone: every key of
  the old set is still there, unchanged or changed by an accepted step, and a terminal key is there
  exactly as it was.
\<close>

theorem key_set_tombstones_survive:
  assumes "validate_key_record_set_delta before after assignments = Inr ()"
    and "distinct (map ck_key_id before)" and "distinct (map ck_key_id after)"
  shows "\<forall>r \<in> set before. (\<exists>r' \<in> set after. r' = r \<or> key_step r r') \<and> (key_terminal r \<longrightarrow> r \<in> set after)"
  using set_delta_keeps_keys [OF assms] key_step_terminal by blast

section \<open>Witnesses\<close>

definition sample_key_revoked :: ClientKeyRecord where
  "sample_key_revoked = sample_key\<lparr>ck_state := KS_REVOKED, ck_time_high_water_s := 200,
     ck_credential_verifiers := [sample_verifier\<lparr>cv_status := CV_RETIRED, cv_not_after_s := 200\<rparr>]\<rparr>"

lemma sample_key_revoked_delta: "validate_key_record_delta sample_key sample_key_revoked None = Inr ()"
  by code_simp

lemma sample_key_revoked_step: "key_step sample_key sample_key_revoked"
  unfolding key_step_def using sample_key_revoked_delta by blast


theorem terminal_key_is_frozen_witness:
  "list_all (\<lambda>v. \<not> accepted_status (cv_status v)) (key_verifiers sample_key_revoked)"
proof -
  have "key_terminal sample_key_revoked" by code_simp
  moreover have "key_valid sample_key_revoked" unfolding key_valid_def by code_simp
  ultimately show ?thesis
    using terminal_key_is_frozen [of sample_key_revoked sample_key_revoked] by (simp add: list_all_iff)
qed

theorem key_set_tombstones_survive_witness:
  "\<exists>r' \<in> set [sample_key_revoked]. r' = sample_key \<or> key_step sample_key r'"
proof -
  have "validate_key_record_set_delta [sample_key] [sample_key_revoked] [] = Inr ()" by code_simp
  from key_set_tombstones_survive [OF this] show ?thesis by simp
qed

end
