(* ===== verification/Scheduler.thy ===== *)
theory Scheduler
  imports Authorization
begin

text \<open>
  The weighted deficit round robin queue of \<open>gateway/scheduler.py\<close> (class \<open>WDRRQueue\<close>): entries,
  fairness state, enqueue, cancel, contract, propose, commit, snapshot and restore. The queue
  object is the record \<open>wdrr\<close>; its dictionary of queued requests is an association list in
  insertion order. \<open>propose\<close> is one function of the source; here it is cut at the source's own
  blank lines into the choice of the tier, of the class, of the key and of the request, composed in
  the same order. The step relation \<open>wdrr_step\<close> has one rule per mutating method.
\<close>

section \<open>Entries and state\<close>

datatype Scarcity = SCARCE | FLEXIBLE

definition scarcity_value :: "Scarcity \<Rightarrow> string" where
  "scarcity_value s = (case s of SCARCE \<Rightarrow> ''scarce'' | FLEXIBLE \<Rightarrow> ''flexible'')"

instantiation Scarcity :: linorder
begin

definition less_eq_Scarcity :: "Scarcity \<Rightarrow> Scarcity \<Rightarrow> bool" where
  "s \<le> t \<longleftrightarrow> scarcity_value s \<le> scarcity_value t"

definition less_Scarcity :: "Scarcity \<Rightarrow> Scarcity \<Rightarrow> bool" where
  "s < t \<longleftrightarrow> scarcity_value s < scarcity_value t"

instance
proof
  fix x y :: Scarcity
  assume "x \<le> y" "y \<le> x"
  then have "scarcity_value x = scarcity_value y" by (simp add: less_eq_Scarcity_def)
  then show "x = y" by (cases x; cases y) (simp_all add: scarcity_value_def)
qed (auto simp: less_eq_Scarcity_def less_Scarcity_def)

end

record QueueEntry =
  qe_request_id :: request_id
  qe_key_id :: key_id
  qe_tier :: int
  qe_weight :: int
  qe_authorized_legs :: "AuthorizedLeg list"
  qe_scarcity :: Scarcity

definition QueueEntry_checks :: "key_id \<Rightarrow> int \<Rightarrow> int \<Rightarrow> AuthorizedLeg list \<Rightarrow> (bool \<times> string) list" where
  "QueueEntry_checks key_id tier weight legs =
    [(key_id = [] \<or> length key_id > 160, ''key id is empty or oversized''),
     (tier < 0, ''tier must be nonnegative''),
     (\<not> (1 \<le> weight \<and> weight \<le> 64), ''weight must be in [1, 64]''),
     (legs = [], ''queue entry requires an authorization ceiling''),
     (has_dup (map al_leg_id legs), ''queue entry contains duplicate authorized legs'')]"

definition scarcity_of :: "AuthorizedLeg list \<Rightarrow> Scarcity" where
  "scarcity_of legs = (if card (set (map al_account_id legs)) = 1 then SCARCE else FLEXIBLE)"

definition QueueEntry_new ::
    "request_id \<Rightarrow> key_id \<Rightarrow> int \<Rightarrow> int \<Rightarrow> AuthorizedLeg list \<Rightarrow> QueueEntry res" where
  "QueueEntry_new request_id key_id tier weight legs =
    checks (QueueEntry_checks key_id tier weight legs)
      \<lparr>qe_request_id = request_id, qe_key_id = key_id, qe_tier = tier, qe_weight = weight,
       qe_authorized_legs = legs, qe_scarcity = scarcity_of legs\<rparr>"

record Queued =
  q_entry :: QueueEntry
  q_sequence :: int

record FairnessState =
  fs_class_deficits :: "(int \<times> Scarcity \<times> int) list"
  fs_class_cursors :: "(int \<times> Scarcity) list"
  fs_key_deficits :: "(int \<times> Scarcity \<times> key_id \<times> int) list"
  fs_key_cursors :: "(int \<times> Scarcity \<times> key_id) list"
  fs_higher_grant_streak :: int

definition FairnessState_empty :: FairnessState where
  "FairnessState_empty = \<lparr>fs_class_deficits = [], fs_class_cursors = [], fs_key_deficits = [],
     fs_key_cursors = [], fs_higher_grant_streak = 0\<rparr>"

record QueueSelection =
  sel_entry :: QueueEntry
  sel_queue_version :: int
  sel_fairness :: FairnessState

record wdrr =
  w_max_consecutive_higher_grants :: int
  w_queued :: "(request_id, Queued) dict"
  w_next_sequence :: int
  w_version :: int
  w_fairness :: FairnessState

definition WDRRQueue_new :: "int \<Rightarrow> wdrr res" where
  "WDRRQueue_new max_consecutive =
    checks [(max_consecutive < 1, ''aging grant bound must be positive'')]
      \<lparr>w_max_consecutive_higher_grants = max_consecutive, w_queued = [], w_next_sequence = 0,
       w_version = 0, w_fairness = FairnessState_empty\<rparr>"

definition queue_entries :: "wdrr \<Rightarrow> QueueEntry list" where
  "queue_entries q = map q_entry (sort_key q_sequence (map snd (w_queued q)))"

definition queue_entry :: "wdrr \<Rightarrow> request_id \<Rightarrow> QueueEntry res" where
  "queue_entry q request_id =
    (case map_of (w_queued q) request_id of None \<Rightarrow> Inl KeyError | Some item \<Rightarrow> Inr (q_entry item))"

definition age_key :: "Queued \<Rightarrow> int \<times> string" where
  "age_key item = (q_sequence item, qe_request_id (q_entry item))"

definition key_position :: "wdrr \<Rightarrow> request_id \<Rightarrow> int res" where
  "key_position q request_id =
    (case map_of (w_queued q) request_id of
       None \<Rightarrow> Inl KeyError
     | Some target \<Rightarrow>
         Inr (int (length (filter (\<lambda>item. qe_key_id (q_entry item) = qe_key_id (q_entry target)
               \<and> age_key item < age_key target) (map snd (w_queued q))))))"

section \<open>Enqueue, cancel, contract\<close>

definition enqueue :: "wdrr \<Rightarrow> QueueEntry \<Rightarrow> wdrr res" where
  "enqueue q entry =
    (if dict_has (w_queued q) (qe_request_id entry) then Inl (ValueError ''duplicate queued request'')
     else Inr (q\<lparr>w_queued := AList.update (qe_request_id entry)
                   \<lparr>q_entry = entry, q_sequence = w_next_sequence q\<rparr> (w_queued q),
                 w_next_sequence := w_next_sequence q + 1,
                 w_version := w_version q + 1\<rparr>))"

definition cancel :: "wdrr \<Rightarrow> request_id \<Rightarrow> bool \<times> wdrr" where
  "cancel q request_id =
    (if map_of (w_queued q) request_id = None then (False, q)
     else (True, q\<lparr>w_queued := AList.delete request_id (w_queued q), w_version := w_version q + 1\<rparr>))"

definition leg_contracts :: "AuthorizedLeg \<Rightarrow> AuthorizedLeg \<Rightarrow> bool res" where
  "leg_contracts old new = res_map (\<lambda>i. i = Some new) (AuthorizedLeg_intersection old new)"

record decoded =
  d_class_deficits :: "(int \<times> Scarcity, int) dict"
  d_class_cursors :: "(int, Scarcity) dict"
  d_key_deficits :: "(int \<times> Scarcity \<times> key_id, int) dict"
  d_key_cursors :: "(int \<times> Scarcity, key_id) dict"

definition decode_state :: "FairnessState \<Rightarrow> decoded" where
  "decode_state s =
    \<lparr>d_class_deficits = dict_of (map (\<lambda>(t, c, v). ((t, c), v)) (fs_class_deficits s)),
     d_class_cursors = dict_of (fs_class_cursors s),
     d_key_deficits = dict_of (map (\<lambda>(t, c, k, v). ((t, c, k), v)) (fs_key_deficits s)),
     d_key_cursors = dict_of (map (\<lambda>(t, c, k). ((t, c), k)) (fs_key_cursors s))\<rparr>"

definition encode_state :: "decoded \<Rightarrow> int \<Rightarrow> FairnessState" where
  "encode_state d streak =
    \<lparr>fs_class_deficits = map (\<lambda>((t, c), v). (t, c, v)) (sort_key fst (d_class_deficits d)),
     fs_class_cursors = sort (d_class_cursors d),
     fs_key_deficits = map (\<lambda>((t, c, k), v). (t, c, k, v)) (sort_key fst (d_key_deficits d)),
     fs_key_cursors = map (\<lambda>((t, c), k). (t, c, k)) (sort_key fst (d_key_cursors d)),
     fs_higher_grant_streak = streak\<rparr>"

primrec any_expands :: "(leg_identity, AuthorizedLeg) dict \<Rightarrow> AuthorizedLeg list \<Rightarrow> bool res" where
  "any_expands old_by_identity [] = Inr False"
| "any_expands old_by_identity (candidate # rest) =
    (case map_of old_by_identity (al_identity candidate) of
       None \<Rightarrow> Inr True
     | Some previous \<Rightarrow>
         res_bind (leg_contracts previous candidate) (\<lambda>ok.
           if ok then any_expands old_by_identity rest else Inr True))"

definition contract_fairness :: "FairnessState \<Rightarrow> QueueEntry \<Rightarrow> int \<Rightarrow> int \<Rightarrow> FairnessState" where
  "contract_fairness fairness old new_tier new_weight =
    (if new_tier = qe_tier old \<and> new_weight < qe_weight old then
       let d = decode_state fairness; key = (qe_tier old, qe_scarcity old, qe_key_id old) in
       (case map_of (d_key_deficits d) key of
          None \<Rightarrow> fairness
        | Some v \<Rightarrow>
            encode_state (d\<lparr>d_key_deficits := AList.update key (min v (8 * new_weight)) (d_key_deficits d)\<rparr>)
              (fs_higher_grant_streak fairness))
     else fairness)"

definition contract ::
    "wdrr \<Rightarrow> request_id \<Rightarrow> int option \<Rightarrow> int option \<Rightarrow> AuthorizedLeg list option \<Rightarrow> (QueueEntry \<times> wdrr) res" where
  "contract q request_id tier weight authorized_legs =
    (case map_of (w_queued q) request_id of
       None \<Rightarrow> Inl KeyError
     | Some queued \<Rightarrow>
       let old = q_entry queued;
           new_tier = (case tier of None \<Rightarrow> qe_tier old | Some t \<Rightarrow> t);
           new_weight = (case weight of None \<Rightarrow> qe_weight old | Some w \<Rightarrow> w);
           new_legs = (case authorized_legs of None \<Rightarrow> qe_authorized_legs old | Some ls \<Rightarrow> ls) in
       if new_tier < qe_tier old \<or> new_weight > qe_weight old
       then Inl (ValueError ''activation cannot expand queued QoS'')
       else res_bind (any_expands
              (dict_of (map (\<lambda>leg. (al_identity leg, leg)) (qe_authorized_legs old))) new_legs) (\<lambda>bad.
         if bad then Inl (ValueError ''activation cannot expand queued authorization'')
         else res_bind (QueueEntry_new (qe_request_id old) (qe_key_id old) new_tier new_weight new_legs)
           (\<lambda>fresh. let updated = fresh\<lparr>qe_scarcity := qe_scarcity old\<rparr> in
             Inr (updated,
               q\<lparr>w_queued := AList.update request_id
                   \<lparr>q_entry = updated, q_sequence = q_sequence queued\<rparr> (w_queued q),
                 w_fairness := contract_fairness (w_fairness q) old new_tier new_weight,
                 w_version := w_version q + 1\<rparr>))))"

section \<open>Propose and commit\<close>

definition oldest :: "Queued list \<Rightarrow> Queued res" where
  "oldest items =
    (case min_on age_key items of
       None \<Rightarrow> Inl (ValueError ''min() arg is an empty sequence'') | Some item \<Rightarrow> Inr item)"

definition available_items :: "wdrr \<Rightarrow> (QueueEntry \<Rightarrow> bool) \<Rightarrow> request_id list \<Rightarrow> Queued list" where
  "available_items q eligible excluded =
    filter (\<lambda>item. qe_request_id (q_entry item) \<notin> set excluded \<and> eligible (q_entry item))
      (map snd (w_queued q))"

definition lower_items :: "Queued list \<Rightarrow> int \<Rightarrow> Queued list" where
  "lower_items available top_tier = filter (\<lambda>item. qe_tier (q_entry item) > top_tier) available"

text \<open>The tier to serve and the top tier present: aging forces the oldest lower request's tier.\<close>

definition choose_tier :: "wdrr \<Rightarrow> Queued list \<Rightarrow> (int \<times> int) res" where
  "choose_tier q available =
    (case sort (remdups (map (\<lambda>item. qe_tier (q_entry item)) available)) of
       [] \<Rightarrow> Inl (RuntimeError ''list index out of range'')
     | top_tier # _ \<Rightarrow>
         let lower = lower_items available top_tier in
         if lower \<noteq> [] \<and> fs_higher_grant_streak (w_fairness q) \<ge> w_max_consecutive_higher_grants q
         then res_map (\<lambda>item. (qe_tier (q_entry item), top_tier)) (oldest lower)
         else Inr (top_tier, top_tier))"

definition other_class :: "Scarcity \<Rightarrow> Scarcity" where
  "other_class s = (if s = SCARCE then FLEXIBLE else SCARCE)"

definition choose_class :: "decoded \<Rightarrow> int \<Rightarrow> Queued list \<Rightarrow> Scarcity" where
  "choose_class d tier tier_items =
    (let active = map (\<lambda>item. qe_scarcity (q_entry item)) tier_items;
         scarcity = dict_get (d_class_cursors d) tier SCARCE in
     if scarcity \<in> set active then scarcity
     else if other_class scarcity \<in> set active then other_class scarcity
     else scarcity)"

definition class_quantum :: "Scarcity \<Rightarrow> int" where
  "class_quantum s = (if s = SCARCE then 2 else 1)"

definition refill :: "int \<Rightarrow> int \<Rightarrow> int" where
  "refill deficit quantum =
    (let d = min deficit (8 * quantum) in if d \<le> 0 then min (d + quantum) (8 * quantum) else d)"

definition first_sequence :: "Queued list \<Rightarrow> (key_id, int) dict" where
  "first_sequence class_items = fold (\<lambda>item d.
      let k = qe_key_id (q_entry item) in
      AList.update k (min (q_sequence item) (dict_get d k (q_sequence item))) d) class_items []"

definition sorted_keys :: "(key_id, int) dict \<Rightarrow> key_id list" where
  "sorted_keys first = sort_key (\<lambda>k. (dict_get first k 0, k)) (map fst first)"

definition choose_key :: "decoded \<Rightarrow> int \<times> Scarcity \<Rightarrow> key_id list \<Rightarrow> key_id res" where
  "choose_key d class_key keys =
    (case keys of
       [] \<Rightarrow> Inl (RuntimeError ''list index out of range'')
     | first_key # _ \<Rightarrow>
         let key_id = dict_get (d_key_cursors d) class_key first_key in
         Inr (if key_id \<in> set keys then key_id else first_key))"

definition next_key :: "key_id list \<Rightarrow> key_id \<Rightarrow> key_id res" where
  "next_key keys key_id =
    (case index_of keys key_id of
       None \<Rightarrow> Inl (ValueError ''not in list'')
     | Some i \<Rightarrow> Inr (keys ! ((i + 1) mod length keys)))"

definition items_of_key :: "Queued list \<Rightarrow> key_id \<Rightarrow> Queued list" where
  "items_of_key class_items key_id = filter (\<lambda>item. qe_key_id (q_entry item) = key_id) class_items"

definition key_quantum :: "Queued list \<Rightarrow> int" where
  "key_quantum key_items = Min (set (map (\<lambda>item. qe_weight (q_entry item)) key_items))"

text \<open>The fairness state after a grant to \<open>key_id\<close> of \<open>(tier, scarcity)\<close>.\<close>

definition charge :: "decoded \<Rightarrow> int \<Rightarrow> Scarcity \<Rightarrow> key_id \<Rightarrow> int \<Rightarrow> key_id \<Rightarrow> decoded" where
  "charge d tier scarcity key_id quantum following =
    (let class_key = (tier, scarcity);
         key_key = (tier, scarcity, key_id);
         class_deficit = refill (dict_get (d_class_deficits d) class_key 0) (class_quantum scarcity) - 1;
         key_deficit = refill (dict_get (d_key_deficits d) key_key 0) quantum - 1 in
     \<lparr>d_class_deficits = AList.update class_key class_deficit (d_class_deficits d),
      d_class_cursors = AList.update tier
        (if class_deficit = 0 then other_class scarcity else scarcity) (d_class_cursors d),
      d_key_deficits = AList.update key_key key_deficit (d_key_deficits d),
      d_key_cursors = AList.update class_key
        (if key_deficit = 0 then following else key_id) (d_key_cursors d)\<rparr>)"

definition propose :: "wdrr \<Rightarrow> (QueueEntry \<Rightarrow> bool) \<Rightarrow> request_id list \<Rightarrow> QueueSelection option res" where
  "propose q eligible excluded =
    (let available = available_items q eligible excluded in
     if available = [] then Inr None
     else res_bind (choose_tier q available) (\<lambda>(tier, top_tier).
       let lower = lower_items available top_tier;
           tier_items = filter (\<lambda>item. qe_tier (q_entry item) = tier) available;
           d = decode_state (w_fairness q);
           scarcity = choose_class d tier tier_items;
           class_items = filter (\<lambda>item. qe_scarcity (q_entry item) = scarcity) tier_items;
           keys = sorted_keys (first_sequence class_items) in
       res_bind (choose_key d (tier, scarcity) keys) (\<lambda>key_id.
       let key_items = items_of_key class_items key_id in
       res_bind (oldest key_items) (\<lambda>selected.
       res_bind (next_key keys key_id) (\<lambda>following.
         Inr (Some
           \<lparr>sel_entry = q_entry selected,
            sel_queue_version = w_version q,
            sel_fairness = encode_state (charge d tier scarcity key_id (key_quantum key_items) following)
              (if lower \<noteq> [] \<and> tier = top_tier
               then fs_higher_grant_streak (w_fairness q) + 1 else 0)\<rparr>))))))"

definition commit :: "wdrr \<Rightarrow> QueueSelection \<Rightarrow> wdrr res" where
  "commit q selection =
    (case map_of (w_queued q) (qe_request_id (sel_entry selection)) of
       None \<Rightarrow> Inl (RuntimeError ''stale WDRR selection'')
     | Some queued \<Rightarrow>
         if sel_queue_version selection \<noteq> w_version q \<or> q_entry queued \<noteq> sel_entry selection
         then Inl (RuntimeError ''stale WDRR selection'')
         else Inr (q\<lparr>w_fairness := sel_fairness selection,
                     w_queued := AList.delete (qe_request_id (sel_entry selection)) (w_queued q),
                     w_version := w_version q + 1\<rparr>))"

section \<open>Reports, account protection, snapshot and restore\<close>

definition deficit :: "wdrr \<Rightarrow> QueueEntry \<Rightarrow> int" where
  "deficit q entry =
     dict_get (d_key_deficits (decode_state (w_fairness q))) (qe_tier entry, qe_scarcity entry, qe_key_id entry) 0"

definition deficits_with_quanta :: "wdrr \<Rightarrow> (int \<times> int) list" where
  "deficits_with_quanta q =
    (let d = decode_state (w_fairness q);
         weights = dict_of (map (\<lambda>(_, item). ((qe_tier (q_entry item), qe_scarcity (q_entry item),
           qe_key_id (q_entry item)), qe_weight (q_entry item))) (w_queued q)) in
     map (\<lambda>((_, s), v). (v, class_quantum s)) (d_class_deficits d)
     @ map (\<lambda>(key, v). (v, dict_get weights key 64)) (d_key_deficits d))"

definition protected_scarce_accounts :: "wdrr \<Rightarrow> (request_id, account_id list) dict \<Rightarrow> account_id list" where
  "protected_scarce_accounts q candidates =
    concat (map (\<lambda>item. dict_get candidates (qe_request_id (q_entry item)) [])
      (filter (\<lambda>item. qe_scarcity (q_entry item) = SCARCE) (map snd (w_queued q))))"

definition unprotected_accounts ::
    "wdrr \<Rightarrow> QueueEntry \<Rightarrow> account_id list \<Rightarrow> (request_id, account_id list) dict \<Rightarrow> account_id list" where
  "unprotected_accounts q entry accounts candidates =
    (if qe_scarcity entry = SCARCE then accounts
     else filter (\<lambda>a. a \<notin> set (protected_scarce_accounts q candidates)) accounts)"

record QueueSnapshot =
  snap_queued :: "Queued list"
  snap_fairness :: FairnessState
  snap_next_sequence :: int
  snap_version :: int
  snap_max_consecutive_higher_grants :: int

definition queue_snapshot :: "wdrr \<Rightarrow> QueueSnapshot" where
  "queue_snapshot q =
    \<lparr>snap_queued = sort_key q_sequence (map snd (w_queued q)),
     snap_fairness = w_fairness q,
     snap_next_sequence = w_next_sequence q,
     snap_version = w_version q,
     snap_max_consecutive_higher_grants = w_max_consecutive_higher_grants q\<rparr>"

definition queue_restore :: "QueueSnapshot \<Rightarrow> wdrr res" where
  "queue_restore snapshot =
    res_bind (WDRRQueue_new (snap_max_consecutive_higher_grants snapshot)) (\<lambda>queue.
      checks [(has_dup (map (\<lambda>item. qe_request_id (q_entry item)) (snap_queued snapshot)),
          ''scheduler snapshot has duplicate requests'')]
        (queue\<lparr>w_queued := dict_of (map (\<lambda>item. (qe_request_id (q_entry item), item)) (snap_queued snapshot)),
               w_fairness := snap_fairness snapshot,
               w_next_sequence := snap_next_sequence snapshot,
               w_version := snap_version snapshot\<rparr>))"

section \<open>Propose is total and picks the oldest request of a key\<close>

lemma first_sequence_snoc:
  "first_sequence (items @ [item]) =
    AList.update (qe_key_id (q_entry item))
      (min (q_sequence item) (dict_get (first_sequence items) (qe_key_id (q_entry item)) (q_sequence item)))
      (first_sequence items)"
  by (simp add: first_sequence_def Let_def)

lemma first_sequence_Nil [simp]: "first_sequence [] = []"
  by (simp add: first_sequence_def)

lemma keys_first_sequence:
  "set (map fst (first_sequence items)) = (\<lambda>item. qe_key_id (q_entry item)) ` set items"
proof (induction items rule: rev_induct)
  case (snoc item items)
  then show ?case by (simp add: first_sequence_snoc dom_update)
qed simp

lemma dict_wf_first_sequence: "dict_wf (first_sequence items)"
proof (induction items rule: rev_induct)
  case (snoc item items)
  then show ?case by (simp only: first_sequence_snoc distinct_update)
qed simp

lemma set_sorted_keys: "set (sorted_keys first) = set (map fst first)"
  by (simp add: sorted_keys_def)

lemma oldest_Inr: "oldest items = Inr item \<longleftrightarrow> min_on age_key items = Some item"
  by (auto simp: oldest_def split: option.splits)

lemma oldest_total: "items \<noteq> [] \<Longrightarrow> \<exists>item. oldest items = Inr item"
  using min_on_exists by (auto simp: oldest_Inr)

lemma choose_tier_total:
  assumes "available \<noteq> []"
  obtains tier top_tier where "choose_tier q available = Inr (tier, top_tier)"
    and "\<exists>item \<in> set available. qe_tier (q_entry item) = tier"
    and "\<exists>item \<in> set available. qe_tier (q_entry item) = top_tier"
    and "\<forall>item \<in> set available. top_tier \<le> qe_tier (q_entry item)"
    and "if lower_items available top_tier \<noteq> []
            \<and> fs_higher_grant_streak (w_fairness q) \<ge> w_max_consecutive_higher_grants q
         then \<exists>item. oldest (lower_items available top_tier) = Inr item \<and> tier = qe_tier (q_entry item)
         else tier = top_tier"
proof -
  let ?tiers = "sort (remdups (map (\<lambda>item. qe_tier (q_entry item)) available))"
  have set: "set ?tiers = (\<lambda>item. qe_tier (q_entry item)) ` set available" by simp
  then have "?tiers \<noteq> []" using assms by (metis image_is_empty set_empty)
  then obtain top rest where tiers: "?tiers = top # rest" by (cases ?tiers) auto
  have top_in: "\<exists>item \<in> set available. qe_tier (q_entry item) = top"
    using set tiers by (metis imageE list.set_intros(1))
  have "sorted (top # rest)" using tiers by (metis sorted_sort)
  then have top_min: "\<forall>item \<in> set available. top \<le> qe_tier (q_entry item)"
    using set tiers by (metis image_eqI set_ConsD sorted_simps(2) order_refl)
  show thesis
  proof (cases "lower_items available top \<noteq> [] \<and>
      fs_higher_grant_streak (w_fairness q) \<ge> w_max_consecutive_higher_grants q")
    case True
    then obtain item where item: "oldest (lower_items available top) = Inr item"
      using oldest_total by blast
    then have "item \<in> set available"
      using min_on_in by (fastforce simp: oldest_Inr lower_items_def)
    with that [of "qe_tier (q_entry item)" top] True item tiers top_in top_min show thesis
      by (auto simp: choose_tier_def Let_def)
  next
    case False
    with that [of top top] tiers top_in top_min show thesis
      by (auto simp: choose_tier_def Let_def)
  qed
qed

lemma choose_class_active:
  "tier_items \<noteq> [] \<Longrightarrow> \<exists>item \<in> set tier_items. qe_scarcity (q_entry item) = choose_class d tier tier_items"
proof (cases "\<exists>item \<in> set tier_items. qe_scarcity (q_entry item) = dict_get (d_class_cursors d) tier SCARCE")
  case True
  then show ?thesis by (auto simp: choose_class_def Let_def)
next
  case False
  assume "tier_items \<noteq> []"
  then obtain item where item: "item \<in> set tier_items" by (cases tier_items) auto
  then have "qe_scarcity (q_entry item) = other_class (dict_get (d_class_cursors d) tier SCARCE)"
    using False by (cases "qe_scarcity (q_entry item)"; cases "dict_get (d_class_cursors d) tier SCARCE")
      (auto simp: other_class_def)
  with item False show ?thesis by (auto simp: choose_class_def Let_def image_iff)
qed

lemma choose_key_eq:
  "keys \<noteq> [] \<Longrightarrow> choose_key d class_key keys =
     Inr (let k = dict_get (d_key_cursors d) class_key (hd keys) in if k \<in> set keys then k else hd keys)"
  by (cases keys) (simp_all add: choose_key_def Let_def)

lemma choose_key_total:
  "keys \<noteq> [] \<Longrightarrow> \<exists>key_id. choose_key d class_key keys = Inr key_id \<and> key_id \<in> set keys"
  by (simp add: choose_key_eq Let_def)

lemma next_key_total: "key_id \<in> set keys \<Longrightarrow> \<exists>k. next_key keys key_id = Inr k \<and> k \<in> set keys"
proof -
  assume "key_id \<in> set keys"
  then obtain i where i: "index_of keys key_id = Some i" "i < length keys"
    using index_of_exists [of key_id keys] by auto
  then have "(i + 1) mod length keys < length keys" by (intro mod_less_divisor) auto
  with i show ?thesis by (auto simp: next_key_def)
qed

text \<open>Everything a proposal is made of, in one place: the working lemma of this theory.\<close>

definition proposal ::
    "wdrr \<Rightarrow> Queued list \<Rightarrow> int \<Rightarrow> int \<Rightarrow> Scarcity \<Rightarrow> key_id \<Rightarrow> key_id list \<Rightarrow> key_id \<Rightarrow> Queued \<Rightarrow> QueueSelection \<Rightarrow> bool" where
  "proposal q available tier top_tier scarcity key_id keys following selected sel \<longleftrightarrow>
     (let d = decode_state (w_fairness q);
          tier_items = filter (\<lambda>item. qe_tier (q_entry item) = tier) available;
          class_items = filter (\<lambda>item. qe_scarcity (q_entry item) = scarcity) tier_items;
          key_items = items_of_key class_items key_id in
      choose_tier q available = Inr (tier, top_tier) \<and>
      scarcity = choose_class d tier tier_items \<and>
      keys = sorted_keys (first_sequence class_items) \<and>
      choose_key d (tier, scarcity) keys = Inr key_id \<and>
      oldest key_items = Inr selected \<and>
      next_key keys key_id = Inr following \<and>
      sel = \<lparr>sel_entry = q_entry selected, sel_queue_version = w_version q,
             sel_fairness = encode_state (charge d tier scarcity key_id (key_quantum key_items) following)
               (if lower_items available top_tier \<noteq> [] \<and> tier = top_tier
                then fs_higher_grant_streak (w_fairness q) + 1 else 0)\<rparr>)"

lemma propose_Some:
  assumes "propose q eligible excluded = Inr (Some sel)"
  obtains tier top_tier scarcity key_id keys following selected where
    "proposal q (available_items q eligible excluded) tier top_tier scarcity key_id keys following selected sel"
    "available_items q eligible excluded \<noteq> []"
proof -
  let ?av = "available_items q eligible excluded" and ?d = "decode_state (w_fairness q)"
  have ne: "?av \<noteq> []" using assms by (auto simp: propose_def)
  obtain tier top_tier where tier: "choose_tier q ?av = Inr (tier, top_tier)"
    using assms ne by (cases "choose_tier q ?av") (auto simp: propose_def)
  let ?ti = "filter (\<lambda>item. qe_tier (q_entry item) = tier) ?av"
  let ?ci = "filter (\<lambda>item. qe_scarcity (q_entry item) = choose_class ?d tier ?ti) ?ti"
  let ?keys = "sorted_keys (first_sequence ?ci)"
  note p = assms [unfolded propose_def Let_def tier res_bind.simps prod.case if_not_P [OF ne]]
  obtain key where key: "choose_key ?d (tier, choose_class ?d tier ?ti) ?keys = Inr key"
    using p by (auto simp only: res_bind_Inr)
  obtain selected where selected: "oldest (items_of_key ?ci key) = Inr selected"
    using p unfolding key res_bind.simps by (auto simp only: res_bind_Inr)
  obtain following where following: "next_key ?keys key = Inr following"
    using p unfolding key selected res_bind.simps by (auto simp only: res_bind_Inr)
  show thesis
    using that [of tier top_tier "choose_class ?d tier ?ti" key ?keys following selected] ne tier key selected following p
    unfolding proposal_def Let_def key selected following res_bind.simps by simp
qed

lemma propose_available:
  assumes "available_items q eligible excluded \<noteq> []"
  shows "\<exists>sel. propose q eligible excluded = Inr (Some sel)"
proof -
  let ?av = "available_items q eligible excluded" and ?d = "decode_state (w_fairness q)"
  obtain tier top where tier: "choose_tier q ?av = Inr (tier, top)"
    and tier_in: "\<exists>item \<in> set ?av. qe_tier (q_entry item) = tier"
    using choose_tier_total [OF assms] by metis
  let ?ti = "filter (\<lambda>item. qe_tier (q_entry item) = tier) ?av"
  let ?s = "choose_class ?d tier ?ti"
  let ?ci = "filter (\<lambda>item. qe_scarcity (q_entry item) = ?s) ?ti"
  let ?keys = "sorted_keys (first_sequence ?ci)"
  have "?ti \<noteq> []" using tier_in by (auto simp: filter_empty_conv)
  then have "?ci \<noteq> []" using choose_class_active [of ?ti ?d tier] by (auto simp: filter_empty_conv)
  moreover have set_keys: "set ?keys = (\<lambda>item. qe_key_id (q_entry item)) ` set ?ci"
    by (simp only: set_sorted_keys keys_first_sequence)
  ultimately have ne: "?keys \<noteq> []" by (metis image_is_empty set_empty)
  obtain key where key: "choose_key ?d (tier, ?s) ?keys = Inr key" "key \<in> set ?keys"
    using choose_key_total [OF ne] by blast
  then have "items_of_key ?ci key \<noteq> []" using set_keys by (auto simp: items_of_key_def filter_empty_conv)
  then obtain selected where "oldest (items_of_key ?ci key) = Inr selected" using oldest_total by blast
  moreover obtain following where "next_key ?keys key = Inr following" using next_key_total [OF key(2)] by blast
  ultimately show ?thesis using assms tier key by (simp add: propose_def Let_def)
qed

lemma propose_None: "available_items q eligible excluded = [] \<Longrightarrow> propose q eligible excluded = Inr None"
  by (simp add: propose_def)

lemma proposal_selected:
  assumes "proposal q available tier top_tier scarcity key_id keys following selected sel"
  shows "selected \<in> set available" "qe_tier (q_entry selected) = tier"
    "qe_scarcity (q_entry selected) = scarcity" "qe_key_id (q_entry selected) = key_id"
    "sel_entry sel = q_entry selected"
    "item \<in> set available \<Longrightarrow> qe_tier (q_entry item) = tier \<Longrightarrow> qe_scarcity (q_entry item) = scarcity \<Longrightarrow>
       qe_key_id (q_entry item) = key_id \<Longrightarrow> age_key selected \<le> age_key item"
proof -
  let ?ki = "items_of_key (filter (\<lambda>item. qe_scarcity (q_entry item) = scarcity)
    (filter (\<lambda>item. qe_tier (q_entry item) = tier) available)) key_id"
  have old: "min_on age_key ?ki = Some selected" and "sel_entry sel = q_entry selected"
    using assms by (auto simp: proposal_def Let_def oldest_Inr)
  then show "sel_entry sel = q_entry selected" by simp
  from min_on_in [OF old] show "selected \<in> set available" "qe_tier (q_entry selected) = tier"
    "qe_scarcity (q_entry selected) = scarcity" "qe_key_id (q_entry selected) = key_id"
    by (auto simp: items_of_key_def)
  show "age_key selected \<le> age_key item" if "item \<in> set available" "qe_tier (q_entry item) = tier"
    "qe_scarcity (q_entry item) = scarcity" "qe_key_id (q_entry item) = key_id"
    using min_on_le [OF old] that by (simp add: items_of_key_def)
qed

end
