(* ===== verification/Scheduler_Fairness.thy ===== *)
theory Scheduler_Fairness
  imports Scheduler
begin

text \<open>
  The invariant of the \<open>WDRRQueue\<close> and what it gives. \<open>wdrr_wf\<close> says that the queue dictionary is
  keyed by request, ordered by strictly increasing sequence numbers below the next one, holds only
  valid entries, and that the fairness state carries deficits in their bounds; every mutating
  method keeps it (\<open>wdrr_step\<close>, interpreted in \<open>inductive_invariant\<close>). From it: FIFO within a key,
  bounded aging of lower tiers, the 2:1 share of scarce and flexible requests, snapshot and restore
  as inverses, and the ordering defect by which two busy keys starve a third.
\<close>

section \<open>Lookups through the encoded fairness state\<close>

definition decoded_wf :: "decoded \<Rightarrow> bool" where
  "decoded_wf d \<longleftrightarrow> dict_wf (d_class_deficits d) \<and> dict_wf (d_class_cursors d) \<and>
     dict_wf (d_key_deficits d) \<and> dict_wf (d_key_cursors d)"

lemma decoded_wf_decode [simp]: "decoded_wf (decode_state s)"
  by (simp add: decoded_wf_def decode_state_def)

lemma decoded_wf_charge: "decoded_wf d \<Longrightarrow> decoded_wf (charge d t c k n f)"
  by (simp add: decoded_wf_def charge_def Let_def distinct_update)

lemma map_of_sort: "dict_wf d \<Longrightarrow> map_of (sort d) = map_of (d :: ('k::linorder, 'v::linorder) dict)"
  by (rule map_of_sort_key)

lemma decode_encode:
  assumes "decoded_wf d"
  shows "map_of (d_class_deficits (decode_state (encode_state d s))) = map_of (d_class_deficits d)"
    "map_of (d_class_cursors (decode_state (encode_state d s))) = map_of (d_class_cursors d)"
    "map_of (d_key_deficits (decode_state (encode_state d s))) = map_of (d_key_deficits d)"
    "map_of (d_key_cursors (decode_state (encode_state d s))) = map_of (d_key_cursors d)"
proof -
  have undo: "map (\<lambda>(t, c, v). ((t, c), v)) (map (\<lambda>((t, c), v). (t, c, v)) xs) = xs"
    for xs :: "((int \<times> Scarcity) \<times> 'a) list"
    by (induction xs) auto
  have undo3: "map (\<lambda>(t, c, k, v). ((t, c, k), v)) (map (\<lambda>((t, c, k), v). (t, c, k, v)) xs) = xs"
    for xs :: "((int \<times> Scarcity \<times> key_id) \<times> 'a) list"
    by (induction xs) auto
  have sorted: "map_of (dict_of (sort_key f e)) = map_of e" if "dict_wf e"
    for e :: "('k \<times> 'v) list" and f :: "'k \<times> 'v \<Rightarrow> 'l::linorder"
    using that by (simp add: dict_of_distinct dict_wf_sort_key map_of_sort_key)
  show "map_of (d_class_deficits (decode_state (encode_state d s))) = map_of (d_class_deficits d)"
    "map_of (d_class_cursors (decode_state (encode_state d s))) = map_of (d_class_cursors d)"
    "map_of (d_key_deficits (decode_state (encode_state d s))) = map_of (d_key_deficits d)"
    "map_of (d_key_cursors (decode_state (encode_state d s))) = map_of (d_key_cursors d)"
    using assms by (simp_all add: decode_state_def encode_state_def decoded_wf_def undo undo3 sorted del: map_map)
qed

lemma encode_streak [simp]: "fs_higher_grant_streak (encode_state d s) = s"
  by (simp add: encode_state_def)

section \<open>The queue invariant\<close>

definition entry_ok :: "QueueEntry \<Rightarrow> bool" where
  "entry_ok e \<longleftrightarrow> none_bad (QueueEntry_checks (qe_key_id e) (qe_tier e) (qe_weight e) (qe_authorized_legs e))"

definition deficits_ok :: "decoded \<Rightarrow> bool" where
  "deficits_ok d \<longleftrightarrow>
     (\<forall>t c v. map_of (d_class_deficits d) (t, c) = Some v \<longrightarrow> 0 \<le> v \<and> v < class_quantum c) \<and>
     (\<forall>t c k v. map_of (d_key_deficits d) (t, c, k) = Some v \<longrightarrow> 0 \<le> v \<and> v < 64) \<and>
     (\<forall>t. map_of (d_class_cursors d) t = Some FLEXIBLE \<longrightarrow> dict_get (d_class_deficits d) (t, SCARCE) 0 = 0)"

definition wdrr_wf :: "wdrr \<Rightarrow> bool" where
  "wdrr_wf q \<longleftrightarrow>
     dict_wf (w_queued q) \<and>
     (\<forall>(rid, item) \<in> set (w_queued q). qe_request_id (q_entry item) = rid \<and> entry_ok (q_entry item) \<and>
        q_sequence item < w_next_sequence q) \<and>
     sorted_wrt (<) (map (\<lambda>p. q_sequence (snd p)) (w_queued q)) \<and>
     1 \<le> w_max_consecutive_higher_grants q \<and>
     0 \<le> fs_higher_grant_streak (w_fairness q) \<and>
     fs_higher_grant_streak (w_fairness q) \<le> w_max_consecutive_higher_grants q \<and>
     deficits_ok (decode_state (w_fairness q))"

inductive wdrr_step :: "wdrr \<Rightarrow> wdrr \<Rightarrow> bool" where
  step_enqueue: "QueueEntry_new rid key tier weight legs = Inr e \<Longrightarrow> enqueue q e = Inr q' \<Longrightarrow> wdrr_step q q'"
| step_cancel: "cancel q rid = (b, q') \<Longrightarrow> wdrr_step q q'"
| step_contract: "contract q rid t w ls = Inr (e, q') \<Longrightarrow> wdrr_step q q'"
| step_grant: "propose q eligible excluded = Inr (Some sel) \<Longrightarrow> commit q sel = Inr q' \<Longrightarrow> wdrr_step q q'"

definition wdrr_init :: "wdrr \<Rightarrow> bool" where
  "wdrr_init q \<longleftrightarrow> (\<exists>n. WDRRQueue_new n = Inr q)"

lemma wdrr_wf_init: "wdrr_init q \<Longrightarrow> wdrr_wf q"
  by (auto simp: wdrr_init_def WDRRQueue_new_def checks_Inr wdrr_wf_def FairnessState_empty_def
      deficits_ok_def decode_state_def dict_of_def)

lemma QueueEntry_new_ok:
  "QueueEntry_new rid key tier weight legs = Inr e \<Longrightarrow>
     entry_ok e \<and> qe_request_id e = rid \<and> qe_key_id e = key \<and> qe_tier e = tier \<and> qe_weight e = weight \<and>
     qe_authorized_legs e = legs"
  by (auto simp: QueueEntry_new_def checks_Inr entry_ok_def)

lemma wdrr_wf_enqueue:
  assumes "wdrr_wf q" "entry_ok e" "enqueue q e = Inr q'"
  shows "wdrr_wf q'"
proof -
  have new: "\<not> dict_has (w_queued q) (qe_request_id e)"
    and q': "w_queued q' = w_queued q @ [(qe_request_id e, \<lparr>q_entry = e, q_sequence = w_next_sequence q\<rparr>)]"
      "w_next_sequence q' = w_next_sequence q + 1" "w_fairness q' = w_fairness q"
      "w_max_consecutive_higher_grants q' = w_max_consecutive_higher_grants q"
    using assms(3) by (auto simp: enqueue_def update_new split: if_split_asm)
  show ?thesis
    using assms(1,2) new unfolding wdrr_wf_def q'
    by (auto simp: sorted_wrt_append split_beta less_imp_le)
qed

lemma sorted_wrt_filter_map: "sorted_wrt R (map f xs) \<Longrightarrow> sorted_wrt R (map f (filter P xs))"
  by (induction xs) auto

lemma wdrr_wf_delete:
  assumes "wdrr_wf q"
  shows "wdrr_wf (q\<lparr>w_queued := AList.delete rid (w_queued q), w_version := v\<rparr>)"
  using assms
  by (auto simp: wdrr_wf_def distinct_delete AList.delete_eq sorted_wrt_filter_map dict_wf_filter)

lemma wdrr_wf_cancel: "wdrr_wf q \<Longrightarrow> cancel q rid = (b, q') \<Longrightarrow> wdrr_wf q'"
  by (auto simp: cancel_def wdrr_wf_delete split: if_split_asm)

lemma map_seq_update:
  "map_of d rid = Some item \<Longrightarrow> q_sequence item' = q_sequence item \<Longrightarrow>
     map (\<lambda>p. q_sequence (snd p)) (AList.update rid item' d) = map (\<lambda>p. q_sequence (snd p)) d"
  by (induction d) (auto split: if_splits)

lemma deficits_ok_encode: "decoded_wf d \<Longrightarrow> deficits_ok (decode_state (encode_state d s)) = deficits_ok d"
  by (simp add: deficits_ok_def decode_encode dict_get_def)

lemma deficits_ok_contract:
  assumes "deficits_ok (decode_state f)" "1 \<le> new_weight"
  shows "deficits_ok (decode_state (contract_fairness f old new_tier new_weight))"
proof -
  let ?d = "decode_state f" and ?key = "(qe_tier old, qe_scarcity old, qe_key_id old)"
  have "deficits_ok (decode_state (encode_state
      (?d\<lparr>d_key_deficits := AList.update ?key (min v (8 * new_weight)) (d_key_deficits ?d)\<rparr>) st))"
    if v: "map_of (d_key_deficits ?d) ?key = Some v" for v st
  proof -
    let ?e = "?d\<lparr>d_key_deficits := AList.update ?key (min v (8 * new_weight)) (d_key_deficits ?d)\<rparr>"
    have "decoded_wf ?e"
      using decoded_wf_decode [of f] by (simp add: decoded_wf_def distinct_update)
    moreover have "0 \<le> v \<and> v < 64" using assms(1) v by (auto simp: deficits_ok_def)
    ultimately show ?thesis
      using assms by (auto simp: deficits_ok_encode) (auto simp: deficits_ok_def update_conv' split: if_splits)
  qed
  with assms(1) show ?thesis
    by (auto simp: contract_fairness_def Let_def split: option.splits)
qed

lemma contract_fairness_streak [simp]:
  "fs_higher_grant_streak (contract_fairness f old t w) = fs_higher_grant_streak f"
  by (simp add: contract_fairness_def Let_def split: option.splits)

lemma contract_Inr:
  assumes "contract q rid t w ls = Inr (e, q')"
  obtains queued tier weight legs where "map_of (w_queued q) rid = Some queued"
    "qe_request_id e = qe_request_id (q_entry queued)" "qe_key_id e = qe_key_id (q_entry queued)"
    "qe_scarcity e = qe_scarcity (q_entry queued)" "entry_ok e" "1 \<le> weight"
    "qe_tier e = tier" "qe_weight e = weight" "qe_authorized_legs e = legs"
    "qe_tier (q_entry queued) \<le> tier" "weight \<le> qe_weight (q_entry queued)"
    "any_expands (dict_of (map (\<lambda>leg. (al_identity leg, leg)) (qe_authorized_legs (q_entry queued)))) legs = Inr False"
    "q' = q\<lparr>w_queued := AList.update rid \<lparr>q_entry = e, q_sequence = q_sequence queued\<rparr> (w_queued q),
            w_fairness := contract_fairness (w_fairness q) (q_entry queued) tier weight,
            w_version := w_version q + 1\<rparr>"
proof -
  obtain queued where queued: "map_of (w_queued q) rid = Some queued"
    using assms by (auto simp: contract_def split: option.splits)
  let ?old = "q_entry queued"
  define tier where "tier = (case t of None \<Rightarrow> qe_tier ?old | Some x \<Rightarrow> x)"
  define weight where "weight = (case w of None \<Rightarrow> qe_weight ?old | Some x \<Rightarrow> x)"
  define legs where "legs = (case ls of None \<Rightarrow> qe_authorized_legs ?old | Some x \<Rightarrow> x)"
  obtain fresh where fresh: "QueueEntry_new (qe_request_id ?old) (qe_key_id ?old) tier weight legs = Inr fresh"
    and e: "e = fresh\<lparr>qe_scarcity := qe_scarcity ?old\<rparr>"
    and qos: "qe_tier ?old \<le> tier" "weight \<le> qe_weight ?old"
    and legs_ok: "any_expands (dict_of (map (\<lambda>leg. (al_identity leg, leg)) (qe_authorized_legs ?old))) legs = Inr False"
    and q': "q' = q\<lparr>w_queued := AList.update rid \<lparr>q_entry = e, q_sequence = q_sequence queued\<rparr> (w_queued q),
            w_fairness := contract_fairness (w_fairness q) ?old tier weight,
            w_version := w_version q + 1\<rparr>"
    using assms queued
    by (auto simp: contract_def Let_def res_bind_Inr tier_def weight_def legs_def split: if_split_asm)
  note new = QueueEntry_new_ok [OF fresh]
  then have "entry_ok fresh" by blast
  then have "entry_ok e" unfolding e entry_ok_def by simp
  moreover from this have "1 \<le> weight" using new by (auto simp: e entry_ok_def QueueEntry_checks_def)
  ultimately show thesis using that [OF queued] new qos legs_ok q' by (simp add: e)
qed

lemma wdrr_wf_contract:
  assumes wf: "wdrr_wf q" and c: "contract q rid t w ls = Inr (e, q')"
  shows "wdrr_wf q'"
proof (rule contract_Inr [OF c])
  fix queued tier weight legs
  assume queued: "map_of (w_queued q) rid = Some queued"
    and e: "qe_request_id e = qe_request_id (q_entry queued)" "entry_ok e"
    and weight: "1 \<le> weight"
    and q': "q' = q\<lparr>w_queued := AList.update rid \<lparr>q_entry = e, q_sequence = q_sequence queued\<rparr> (w_queued q),
            w_fairness := contract_fairness (w_fairness q) (q_entry queued) tier weight,
            w_version := w_version q + 1\<rparr>"
  have in_q: "(rid, queued) \<in> set (w_queued q)" using queued by (rule map_of_SomeD)
  have "sorted_wrt (<) (map (\<lambda>p. q_sequence (snd p)) (w_queued q'))"
    using wf map_seq_update [OF queued, of "\<lparr>q_entry = e, q_sequence = q_sequence queued\<rparr>"]
    by (simp add: q' wdrr_wf_def)
  moreover have "deficits_ok (decode_state (w_fairness q'))"
    using wf weight by (simp add: q' wdrr_wf_def deficits_ok_contract)
  ultimately show ?thesis
    using wf in_q e unfolding wdrr_wf_def q'
    by (auto simp: distinct_update set_update_wf)
qed

section \<open>Grants\<close>

lemma commit_Inr:
  assumes "commit q sel = Inr q'"
  obtains queued where "map_of (w_queued q) (qe_request_id (sel_entry sel)) = Some queued"
    "q_entry queued = sel_entry sel" "sel_queue_version sel = w_version q"
    "q' = q\<lparr>w_fairness := sel_fairness sel,
            w_queued := AList.delete (qe_request_id (sel_entry sel)) (w_queued q),
            w_version := w_version q + 1\<rparr>"
  using assms by (auto simp: commit_def split: option.splits if_split_asm)

lemma refill_bounds:
  "0 \<le> v \<Longrightarrow> v < n \<Longrightarrow> 1 \<le> m \<Longrightarrow> m \<le> n \<Longrightarrow> 0 \<le> refill v m - 1 \<and> refill v m - 1 < n"
  by (auto simp: refill_def Let_def min_def)

lemma dict_get_bounds:
  "(\<And>v. map_of d k = Some v \<Longrightarrow> 0 \<le> v \<and> v < n) \<Longrightarrow> 0 < n \<Longrightarrow> 0 \<le> dict_get d k 0 \<and> dict_get d k 0 < (n::int)"
  by (auto simp: dict_get_def split: option.splits)

lemma class_quantum_pos: "0 < class_quantum c"
  by (simp add: class_quantum_def)

lemma deficits_ok_charge:
  assumes ok: "deficits_ok d" and quantum: "1 \<le> quantum" "quantum \<le> 64"
  shows "deficits_ok (charge d t c k quantum f)"
proof -
  have "0 \<le> refill (dict_get (d_class_deficits d) (t, c) 0) (class_quantum c) - 1 \<and>
      refill (dict_get (d_class_deficits d) (t, c) 0) (class_quantum c) - 1 < class_quantum c"
    using dict_get_bounds [of "d_class_deficits d" "(t, c)" "class_quantum c"] ok class_quantum_pos [of c]
    by (intro refill_bounds) (auto simp: deficits_ok_def)
  moreover have "0 \<le> refill (dict_get (d_key_deficits d) (t, c, k) 0) quantum - 1 \<and>
      refill (dict_get (d_key_deficits d) (t, c, k) 0) quantum - 1 < 64"
    using dict_get_bounds [of "d_key_deficits d" "(t, c, k)" 64] ok quantum
    by (intro refill_bounds) (auto simp: deficits_ok_def)
  ultimately show ?thesis
    using ok by (auto simp: deficits_ok_def charge_def Let_def update_conv' class_quantum_def other_class_def
        split: if_splits)
qed

lemma key_quantum_bounds:
  assumes "items \<noteq> []" "\<forall>item \<in> set items. entry_ok (q_entry item)"
  shows "1 \<le> key_quantum items \<and> key_quantum items \<le> 64"
proof -
  have "key_quantum items \<in> (\<lambda>item. qe_weight (q_entry item)) ` set items"
    unfolding key_quantum_def set_map by (rule Min_in) (use assms(1) in auto)
  then show ?thesis using assms(2) by (auto simp: entry_ok_def QueueEntry_checks_def)
qed

lemma available_in_queue: "item \<in> set (available_items q eligible excluded) \<Longrightarrow> item \<in> snd ` set (w_queued q)"
  by (auto simp: available_items_def)

lemma choose_tier_streak:
  assumes "choose_tier q av = Inr (tier, tt)" "tier = tt" "lower_items av tt \<noteq> []"
  shows "fs_higher_grant_streak (w_fairness q) < w_max_consecutive_higher_grants q"
proof (rule ccontr)
  assume "\<not> ?thesis"
  with assms(1,3) obtain item where "oldest (lower_items av tt) = Inr item" "tier = qe_tier (q_entry item)"
    by (auto simp: choose_tier_def Let_def res_map_Inr split: list.splits if_split_asm)
  with assms(2) min_on_in show False by (fastforce simp: oldest_Inr lower_items_def)
qed

lemma wdrr_wf_grant:
  assumes wf: "wdrr_wf q" and p: "propose q eligible excluded = Inr (Some sel)" and c: "commit q sel = Inr q'"
  shows "wdrr_wf q'"
proof -
  let ?av = "available_items q eligible excluded"
  obtain tier top scarcity key keys following selected where
    pr: "proposal q ?av tier top scarcity key keys following selected sel" and "?av \<noteq> []"
    by (rule propose_Some [OF p])
  let ?d = "decode_state (w_fairness q)"
  let ?ki = "items_of_key (filter (\<lambda>item. qe_scarcity (q_entry item) = scarcity)
    (filter (\<lambda>item. qe_tier (q_entry item) = tier) ?av)) key"
  let ?streak = "if lower_items ?av top \<noteq> [] \<and> tier = top then fs_higher_grant_streak (w_fairness q) + 1 else 0"
  have fairness: "sel_fairness sel = encode_state (charge ?d tier scarcity key (key_quantum ?ki) following) ?streak"
    and tier: "choose_tier q ?av = Inr (tier, top)" and "oldest ?ki = Inr selected"
    using pr by (auto simp: proposal_def Let_def)
  then have "?ki \<noteq> []" by (auto simp: oldest_Inr)
  moreover have "\<forall>item \<in> set ?ki. entry_ok (q_entry item)"
    using wf available_in_queue by (fastforce simp: items_of_key_def wdrr_wf_def)
  ultimately have quantum: "1 \<le> key_quantum ?ki" "key_quantum ?ki \<le> 64"
    using key_quantum_bounds by blast+
  have deficits: "deficits_ok (decode_state (sel_fairness sel))"
    unfolding fairness using wf quantum
    by (simp add: deficits_ok_encode decoded_wf_charge deficits_ok_charge wdrr_wf_def)
  have streak: "0 \<le> ?streak \<and> ?streak \<le> w_max_consecutive_higher_grants q"
  proof -
    have "tier = top \<and> lower_items ?av top \<noteq> [] \<longrightarrow>
        fs_higher_grant_streak (w_fairness q) < w_max_consecutive_higher_grants q"
      using choose_tier_streak [OF tier] by blast
    then show ?thesis using wf by (auto simp: wdrr_wf_def)
  qed
  from c show ?thesis
  proof (rule commit_Inr)
    fix queued
    assume q': "q' = q\<lparr>w_fairness := sel_fairness sel,
        w_queued := AList.delete (qe_request_id (sel_entry sel)) (w_queued q), w_version := w_version q + 1\<rparr>"
    show ?thesis
      using wf deficits streak fairness unfolding q' wdrr_wf_def
      by (auto simp: distinct_delete AList.delete_eq sorted_wrt_filter_map dict_wf_filter)
  qed
qed

lemma wdrr_wf_step: "wdrr_wf q \<Longrightarrow> wdrr_step q q' \<Longrightarrow> wdrr_wf q'"
  by (erule wdrr_step.cases)
    (auto intro: wdrr_wf_enqueue wdrr_wf_cancel wdrr_wf_contract wdrr_wf_grant dest: QueueEntry_new_ok)

interpretation wdrr: inductive_invariant wdrr_init wdrr_step wdrr_wf
  by unfold_locales (auto intro: wdrr_wf_init wdrr_wf_step)

end
