(* ===== verification/Scheduler_Promises.thy ===== *)
theory Scheduler_Promises
  imports Scheduler_Fairness
begin

text \<open>
  The promises of the \<open>WDRRQueue\<close>, over its reachable states: \<open>propose\<close> is total and FIFO within a
  key, a selection goes stale with the queue, aging of lower tiers is bounded, scarce and flexible
  requests share a tier 2:1 (a refinement of a three-phase counter), a contraction never expands
  what was queued, snapshot and restore are inverses, scarce accounts are kept from flexible
  requests. The last section is a defect of the key rotation: two busy keys starve a third.
\<close>

section \<open>Propose, commit and staleness\<close>

inductive wdrr_change :: "wdrr \<Rightarrow> wdrr \<Rightarrow> bool" where
  change_enqueue: "QueueEntry_new rid key tier weight legs = Inr e \<Longrightarrow> enqueue q e = Inr q' \<Longrightarrow> wdrr_change q q'"
| change_cancel: "cancel q rid = (b, q') \<Longrightarrow> wdrr_change q q'"
| change_contract: "contract q rid t w ls = Inr (e, q') \<Longrightarrow> wdrr_change q q'"

text \<open>Concrete operation sequences, to evaluate on.\<close>

datatype wdrr_op =
    OpEnqueue request_id key_id int int "AuthorizedLeg list"
  | OpCancel request_id
  | OpContract request_id "int option" "int option" "AuthorizedLeg list option"
  | OpGrant "request_id list"

fun run_op :: "wdrr \<Rightarrow> wdrr_op \<Rightarrow> wdrr res" where
  "run_op q (OpEnqueue rid key tier weight legs) = res_bind (QueueEntry_new rid key tier weight legs) (enqueue q)"
| "run_op q (OpCancel rid) = Inr (snd (cancel q rid))"
| "run_op q (OpContract rid t w ls) = res_map snd (contract q rid t w ls)"
| "run_op q (OpGrant ex) = res_bind (propose q (\<lambda>_. True) ex) (\<lambda>p.
     case p of None \<Rightarrow> Inl KeyError | Some sel \<Rightarrow> commit q sel)"

primrec run_ops :: "wdrr \<Rightarrow> wdrr_op list \<Rightarrow> wdrr res" where
  "run_ops q [] = Inr q"
| "run_ops q (op # ops) = res_bind (run_op q op) (\<lambda>q'. run_ops q' ops)"

lemma run_op_step: "run_op q op = Inr q' \<Longrightarrow> wdrr_step q q'"
proof (cases op)
  case (OpCancel rid)
  assume "run_op q op = Inr q'"
  then have "cancel q rid = (fst (cancel q rid), q')" by (simp add: OpCancel prod_eq_iff)
  then show ?thesis by (rule step_cancel)
qed (auto simp: res_bind_Inr res_map_Inr split: option.split_asm intro: wdrr_step.intros)

lemma run_ops_steps: "run_ops q ops = Inr q' \<Longrightarrow> reachable wdrr_init wdrr_step q \<Longrightarrow> reachable wdrr_init wdrr_step q'"
proof (induction ops arbitrary: q)
  case (Cons op ops)
  then obtain r where "run_op q op = Inr r" and rest: "run_ops r ops = Inr q'" by (auto simp: res_bind_Inr)
  then have "reachable wdrr_init wdrr_step r" using Cons.prems(2) run_op_step reachable.step by metis
  then show ?case using Cons.IH rest by blast
qed simp

lemma run_ops_reachable:
  assumes "res_bind (WDRRQueue_new m) (\<lambda>q. run_ops q ops) = Inr q'"
  shows "reachable wdrr_init wdrr_step q'"
proof -
  from assms obtain q where "WDRRQueue_new m = Inr q" and ops: "run_ops q ops = Inr q'" by (auto simp: res_bind_Inr)
  then have "wdrr_init q" by (auto simp: wdrr_init_def)
  with ops show ?thesis by (blast intro: run_ops_steps reachable.start)
qed

lemma change_is_step: "wdrr_change q q' \<Longrightarrow> wdrr_step q q'"
  by (erule wdrr_change.cases) (blast intro: wdrr_step.intros)+

lemma contract_shape:
  assumes "contract q rid t w ls = Inr (e, q')"
  shows "w_version q' = w_version q + 1 \<and> w_max_consecutive_higher_grants q' = w_max_consecutive_higher_grants q \<and>
    (\<exists>old nt nw. w_fairness q' = contract_fairness (w_fairness q) old nt nw)"
  by (rule contract_Inr [OF assms]) auto

lemma change_shape:
  assumes "wdrr_change q q'"
  shows "(q' = q \<or> w_version q' = w_version q + 1) \<and> w_max_consecutive_higher_grants q' = w_max_consecutive_higher_grants q \<and>
    (w_fairness q' = w_fairness q \<or> (\<exists>old nt nw. w_fairness q' = contract_fairness (w_fairness q) old nt nw))"
  using assms
proof (cases rule: wdrr_change.cases)
  case (change_enqueue rid key tier weight legs e)
  then show ?thesis by (auto simp: enqueue_def split: if_split_asm)
next
  case (change_cancel rid b)
  then show ?thesis by (auto simp: cancel_def split: if_split_asm)
next
  case (change_contract rid t w ls e)
  from contract_shape [OF this] show ?thesis by blast
qed

lemma change_streak:
  "wdrr_change q q' \<Longrightarrow> fs_higher_grant_streak (w_fairness q') = fs_higher_grant_streak (w_fairness q) \<and>
     w_max_consecutive_higher_grants q' = w_max_consecutive_higher_grants q"
  by (drule change_shape) auto

lemma propose_version: "propose q el ex = Inr (Some sel) \<Longrightarrow> sel_queue_version sel = w_version q"
  by (erule propose_Some) (auto simp: proposal_def Let_def)

lemma age_key_sequence: "age_key a \<le> age_key b \<Longrightarrow> q_sequence a \<le> q_sequence b"
  by (auto simp: age_key_def)

lemma queued_lookup:
  assumes "wdrr_wf q" "item \<in> snd ` set (w_queued q)"
  shows "map_of (w_queued q) (qe_request_id (q_entry item)) = Some item"
  using assms by (auto simp: wdrr_wf_def map_of_in_wf [symmetric])

lemma proposal_commits:
  assumes wf: "wdrr_wf q"
    and pr: "proposal q (available_items q el ex) tier top_tier scarcity key keys following selected sel"
  shows "commit q sel = Inr (q\<lparr>w_fairness := sel_fairness sel,
           w_queued := AList.delete (qe_request_id (sel_entry sel)) (w_queued q),
           w_version := w_version q + 1\<rparr>)"
proof -
  have "map_of (w_queued q) (qe_request_id (q_entry selected)) = Some selected"
    by (rule queued_lookup [OF wf available_in_queue [OF proposal_selected(1) [OF pr]]])
  moreover have "sel_queue_version sel = w_version q" "sel_entry sel = q_entry selected"
    using pr by (auto simp: proposal_def Let_def)
  ultimately show ?thesis by (simp add: commit_def)
qed

lemma choose_tier_range:
  assumes "choose_tier q av = Inr (tier, top_tier)"
  shows "top_tier \<le> tier \<and> (\<exists>item \<in> set av. qe_tier (q_entry item) = top_tier)"
proof -
  have "av \<noteq> []" using assms by (auto simp: choose_tier_def)
  from choose_tier_total [OF this, of q] obtain t u where tu: "choose_tier q av = Inr (t, u)"
    "\<exists>item \<in> set av. qe_tier (q_entry item) = t" "\<exists>item \<in> set av. qe_tier (q_entry item) = u"
    "\<forall>item \<in> set av. u \<le> qe_tier (q_entry item)" by metis
  with assms show ?thesis by auto
qed

definition serves_oldest :: "wdrr \<Rightarrow> (QueueEntry \<Rightarrow> bool) \<Rightarrow> request_id list \<Rightarrow> QueueSelection \<Rightarrow> bool" where
  "serves_oldest q el ex sel \<longleftrightarrow>
     (\<exists>item \<in> set (available_items q el ex). sel_entry sel = q_entry item \<and>
       list_all (\<lambda>other. qe_key_id (q_entry other) = qe_key_id (q_entry item) \<and>
           qe_tier (q_entry other) = qe_tier (q_entry item) \<and>
           qe_scarcity (q_entry other) = qe_scarcity (q_entry item) \<longrightarrow> q_sequence item \<le> q_sequence other)
         (available_items q el ex))"

text \<open>for every queue the gateway can reach and any eligibility test, \<open>propose\<close> never raises. It
  returns nothing exactly when no queued request is available. Otherwise the selection is an
  available request, no available request of the same key, tier and class is older, and \<open>commit\<close>
  of it succeeds at once and removes exactly that request.\<close>

theorem propose_total_fifo:
  assumes "reachable wdrr_init wdrr_step q"
  shows "if available_items q el ex = [] then propose q el ex = Inr None
         else \<exists>sel q'. propose q el ex = Inr (Some sel) \<and> serves_oldest q el ex sel \<and>
           commit q sel = Inr q' \<and> w_queued q' = AList.delete (qe_request_id (sel_entry sel)) (w_queued q) \<and>
           length (w_queued q') + 1 = length (w_queued q)"
proof (cases "available_items q el ex = []")
  case False
  note wf = wdrr.invar_reachable [OF assms]
  obtain sel where p: "propose q el ex = Inr (Some sel)" using propose_available [OF False] by blast
  then obtain tier top_tier scarcity key keys following selected where
    pr: "proposal q (available_items q el ex) tier top_tier scarcity key keys following selected sel" and "available_items q el ex \<noteq> []"
    by (rule propose_Some)
  have "serves_oldest q el ex sel"
    unfolding serves_oldest_def list_all_iff
    using proposal_selected [OF pr] by (intro bexI [of _ selected]) (auto intro: age_key_sequence)
  moreover have "length (AList.delete (qe_request_id (q_entry selected)) (w_queued q)) + 1 = length (w_queued q)"
  proof -
    have "map_of (w_queued q) (qe_request_id (q_entry selected)) = Some selected"
      by (rule queued_lookup [OF wf available_in_queue [OF proposal_selected(1) [OF pr]]])
    then show ?thesis using wf length_delete_wf by (fastforce simp: wdrr_wf_def)
  qed
  ultimately show ?thesis
    using False p proposal_commits [OF wf pr] proposal_selected(5) [OF pr] by auto
qed (simp add: propose_None)

text \<open>a selection is bound to the queue it was proposed on: after any enqueue, cancellation or
  contraction that changed the queue, \<open>commit\<close> of it raises and grants nothing.\<close>

theorem stale_selection_refused:
  assumes "propose q el ex = Inr (Some sel)" "wdrr_change q q'" "q' \<noteq> q"
  shows "commit q' sel = Inl (RuntimeError ''stale WDRR selection'')"
  using propose_version [OF assms(1)] change_shape [OF assms(2)] assms(3)
  by (auto simp: commit_def split: option.splits)


section \<open>Aging of lower tiers\<close>

text \<open>\<open>higher_run q n r\<close>: from \<open>q\<close> to \<open>r\<close> the queue granted \<open>n\<close> times the best tier present although
  a lower tier had an available request, with any other operations in between.\<close>

inductive higher_run :: "wdrr \<Rightarrow> nat \<Rightarrow> wdrr \<Rightarrow> bool" where
  run_start: "higher_run q 0 q"
| run_change: "higher_run q n r \<Longrightarrow> wdrr_change r s \<Longrightarrow> higher_run q n s"
| run_grant: "higher_run q n r \<Longrightarrow> propose r el ex = Inr (Some sel) \<Longrightarrow> commit r sel = Inr s \<Longrightarrow>
    (\<forall>item \<in> set (available_items r el ex). qe_tier (sel_entry sel) \<le> qe_tier (q_entry item)) \<Longrightarrow>
    (\<exists>item \<in> set (available_items r el ex). qe_tier (sel_entry sel) < qe_tier (q_entry item)) \<Longrightarrow>
    higher_run q (Suc n) s"

lemma grant_streak:
  assumes p: "propose r el ex = Inr (Some sel)" and c: "commit r sel = Inr s"
    and best: "\<forall>item \<in> set (available_items r el ex). qe_tier (sel_entry sel) \<le> qe_tier (q_entry item)"
    and passed: "\<exists>item \<in> set (available_items r el ex). qe_tier (sel_entry sel) < qe_tier (q_entry item)"
  shows "fs_higher_grant_streak (w_fairness s) = fs_higher_grant_streak (w_fairness r) + 1"
    and "w_max_consecutive_higher_grants s = w_max_consecutive_higher_grants r"
proof -
  let ?av = "available_items r el ex"
  obtain tier top_tier scarcity key keys following selected where
    pr: "proposal r ?av tier top_tier scarcity key keys following selected sel" and "?av \<noteq> []"
    by (rule propose_Some [OF p])
  have tier: "choose_tier r ?av = Inr (tier, top_tier)"
    and streak: "sel_fairness sel = encode_state d (if lower_items ?av top_tier \<noteq> [] \<and> tier = top_tier
                then fs_higher_grant_streak (w_fairness r) + 1 else 0)" if "d = charge (decode_state (w_fairness r)) tier scarcity key
                  (key_quantum (items_of_key (filter (\<lambda>item. qe_scarcity (q_entry item) = scarcity)
    (filter (\<lambda>item. qe_tier (q_entry item) = tier) ?av)) key)) following" for d
    using pr that by (auto simp: proposal_def Let_def)
  have sel: "qe_tier (sel_entry sel) = tier" using proposal_selected [OF pr] by simp
  have "top_tier \<le> tier" "\<exists>item \<in> set ?av. qe_tier (q_entry item) = top_tier"
    using choose_tier_range [OF tier] by auto
  then have eq: "tier = top_tier" using best sel by force
  then have "lower_items ?av top_tier \<noteq> []"
    using passed sel by (auto simp: lower_items_def filter_empty_conv)
  with eq have grown: "fs_higher_grant_streak (sel_fairness sel) = fs_higher_grant_streak (w_fairness r) + 1"
    using streak by simp
  show "fs_higher_grant_streak (w_fairness s) = fs_higher_grant_streak (w_fairness r) + 1"
    by (rule commit_Inr [OF c]) (simp add: grown)
  show "w_max_consecutive_higher_grants s = w_max_consecutive_higher_grants r"
    by (rule commit_Inr [OF c]) simp
qed

lemma higher_run_streak:
  "higher_run q n r \<Longrightarrow> fs_higher_grant_streak (w_fairness r) = fs_higher_grant_streak (w_fairness q) + int n \<and>
     w_max_consecutive_higher_grants r = w_max_consecutive_higher_grants q \<and> wdrr_step\<^sup>*\<^sup>* q r"
proof (induction rule: higher_run.induct)
  case (run_change q n r s)
  then show ?case
    using change_streak [OF run_change.hyps(2)] change_is_step [OF run_change.hyps(2)]
    by (auto intro: rtranclp.rtrancl_into_rtrancl)
next
  case (run_grant q n r el ex sel s)
  then show ?case
    using grant_streak [OF run_grant.hyps(2-5)] step_grant [OF run_grant.hyps(2,3)]
    by (auto intro: rtranclp.rtrancl_into_rtrancl)
qed simp


section \<open>The 2:1 share of scarce and flexible requests\<close>

text \<open>The abstract view of one tier's class state: a counter modulo three that serves scarce, scarce,
  flexible.\<close>

definition class_phase :: "decoded \<Rightarrow> int \<Rightarrow> nat" where
  "class_phase d t =
    (if dict_get (d_class_cursors d) t SCARCE = FLEXIBLE then 2
     else if dict_get (d_class_deficits d) (t, SCARCE) 0 = 1 then 1 else 0)"

definition phase_class :: "nat \<Rightarrow> Scarcity" where
  "phase_class p = (if p mod 3 = 2 then FLEXIBLE else SCARCE)"

definition both_classes :: "Queued list \<Rightarrow> int \<Rightarrow> bool" where
  "both_classes items t \<longleftrightarrow> (\<forall>c \<in> {SCARCE, FLEXIBLE}. \<exists>item \<in> set items.
     qe_tier (q_entry item) = t \<and> qe_scarcity (q_entry item) = c)"

lemma choose_class_phase:
  "both_classes items t \<Longrightarrow>
     choose_class d t (filter (\<lambda>item. qe_tier (q_entry item) = t) items) = phase_class (class_phase d t)"
  by (cases "dict_get (d_class_cursors d) t SCARCE")
    (auto simp: choose_class_def both_classes_def Let_def phase_class_def class_phase_def image_iff)

lemma scarce_deficit_cases:
  assumes "deficits_ok d"
  shows "dict_get (d_class_deficits d) (t, SCARCE) 0 = 0 \<or> dict_get (d_class_deficits d) (t, SCARCE) 0 = 1"
    and "dict_get (d_class_deficits d) (t, FLEXIBLE) 0 = 0"
proof -
  have "0 \<le> dict_get (d_class_deficits d) (t, c) 0 \<and> dict_get (d_class_deficits d) (t, c) 0 < class_quantum c" for c
    using assms dict_get_bounds [of "d_class_deficits d" "(t, c)" "class_quantum c"] class_quantum_pos [of c]
    by (auto simp: deficits_ok_def)
  from this [of SCARCE] this [of FLEXIBLE]
  show "dict_get (d_class_deficits d) (t, SCARCE) 0 = 0 \<or> dict_get (d_class_deficits d) (t, SCARCE) 0 = 1"
    and "dict_get (d_class_deficits d) (t, FLEXIBLE) 0 = 0"
    by (auto simp: class_quantum_def)
qed

lemma charge_phase_other:
  "t' \<noteq> t \<Longrightarrow> class_phase (charge d t c k n f) t' = class_phase d t'"
  by (simp add: class_phase_def charge_def Let_def)

lemma charge_phase:
  assumes ok: "deficits_ok d" and c: "c = phase_class (class_phase d t)"
  shows "class_phase (charge d t c k n f) t = (class_phase d t + 1) mod 3"
proof (cases "dict_get (d_class_cursors d) t SCARCE")
  case FLEXIBLE
  then have "map_of (d_class_cursors d) t = Some FLEXIBLE" by (auto simp: dict_get_def split: option.splits)
  then have "dict_get (d_class_deficits d) (t, SCARCE) 0 = 0" using ok by (auto simp: deficits_ok_def)
  with FLEXIBLE c scarce_deficit_cases [OF ok] show ?thesis
    by (simp add: class_phase_def phase_class_def charge_def Let_def refill_def class_quantum_def other_class_def)
next
  case SCARCE
  with c scarce_deficit_cases(1) [OF ok, of t] show ?thesis
    by (auto simp: class_phase_def phase_class_def charge_def Let_def refill_def class_quantum_def other_class_def)
qed

abbreviation tier_phase :: "wdrr \<Rightarrow> int \<Rightarrow> nat" where
  "tier_phase q t \<equiv> class_phase (decode_state (w_fairness q)) t"

lemma class_phase_encode: "decoded_wf d \<Longrightarrow> class_phase (decode_state (encode_state d s)) t = class_phase d t"
  by (simp add: class_phase_def dict_get_def decode_encode)

lemma class_phase_contract: "class_phase (decode_state (contract_fairness f old nt nw)) t = class_phase (decode_state f) t"
proof -
  have "class_phase (decode_state (encode_state (decode_state f\<lparr>d_key_deficits := AList.update key v (d_key_deficits (decode_state f))\<rparr>) st)) t
      = class_phase (decode_state f) t" for key v st
  proof -
    have "decoded_wf (decode_state f\<lparr>d_key_deficits := AList.update key v (d_key_deficits (decode_state f))\<rparr>)"
      using decoded_wf_decode [of f] by (simp add: decoded_wf_def distinct_update)
    then show ?thesis by (simp add: class_phase_encode) (simp add: class_phase_def)
  qed
  then show ?thesis by (simp add: contract_fairness_def Let_def split: option.splits)
qed

lemma change_phase: "wdrr_change q q' \<Longrightarrow> tier_phase q' t = tier_phase q t"
  by (drule change_shape) (auto simp: class_phase_contract)

lemma grant_charge:
  assumes p: "propose q el ex = Inr (Some sel)" and c: "commit q sel = Inr q'"
  obtains key n f where
    "tier_phase q' = class_phase (charge (decode_state (w_fairness q)) (qe_tier (sel_entry sel))
       (qe_scarcity (sel_entry sel)) key n f)"
    "qe_scarcity (sel_entry sel) = choose_class (decode_state (w_fairness q)) (qe_tier (sel_entry sel))
       (filter (\<lambda>item. qe_tier (q_entry item) = qe_tier (sel_entry sel)) (available_items q el ex))"
proof -
  let ?av = "available_items q el ex" and ?d = "decode_state (w_fairness q)"
  obtain tier top_tier scarcity key keys following selected where
    pr: "proposal q ?av tier top_tier scarcity key keys following selected sel" and "?av \<noteq> []"
    by (rule propose_Some [OF p])
  note sel = proposal_selected [OF pr]
  obtain n st where f: "sel_fairness sel = encode_state (charge ?d tier scarcity key n following) st"
    and cl: "scarcity = choose_class ?d tier (filter (\<lambda>item. qe_tier (q_entry item) = tier) ?av)"
    using pr by (auto simp: proposal_def Let_def)
  have "w_fairness q' = sel_fairness sel" by (rule commit_Inr [OF c]) simp
  then have "tier_phase q' t = class_phase (charge ?d tier scarcity key n following) t" for t
    by (simp add: f class_phase_encode decoded_wf_charge)
  then show thesis using that [of key n following] cl sel by auto
qed

inductive share_run :: "int \<Rightarrow> wdrr \<Rightarrow> Scarcity list \<Rightarrow> wdrr \<Rightarrow> bool" for t :: int where
  share_start: "share_run t q [] q"
| share_change: "share_run t q cs r \<Longrightarrow> wdrr_change r s \<Longrightarrow> share_run t q cs s"
| share_other: "share_run t q cs r \<Longrightarrow> propose r el ex = Inr (Some sel) \<Longrightarrow> commit r sel = Inr s \<Longrightarrow>
    qe_tier (sel_entry sel) \<noteq> t \<Longrightarrow> share_run t q cs s"
| share_grant: "share_run t q cs r \<Longrightarrow> propose r el ex = Inr (Some sel) \<Longrightarrow> commit r sel = Inr s \<Longrightarrow>
    qe_tier (sel_entry sel) = t \<Longrightarrow> both_classes (available_items r el ex) t \<Longrightarrow>
    share_run t q (cs @ [qe_scarcity (sel_entry sel)]) s"

lemma share_run_phases:
  "share_run t q cs r \<Longrightarrow> wdrr_wf q \<Longrightarrow> wdrr_wf r \<and> tier_phase r t mod 3 = (tier_phase q t + length cs) mod 3 \<and>
     cs = map (\<lambda>i. phase_class (tier_phase q t + i)) [0..<length cs]"
proof (induction rule: share_run.induct)
  case (share_change q cs r s)
  then show ?case using wdrr_wf_step [OF _ change_is_step] change_phase by auto
next
  case (share_other q cs r el ex sel s)
  from share_other.hyps(2,3) obtain key n f where
    "tier_phase s = class_phase (charge (decode_state (w_fairness r)) (qe_tier (sel_entry sel))
       (qe_scarcity (sel_entry sel)) key n f)" by (rule grant_charge)
  with share_other show ?case by (auto simp: charge_phase_other intro: wdrr_wf_grant)
next
  case (share_grant q cs r el ex sel s)
  then have IH: "wdrr_wf r" "tier_phase r t mod 3 = (tier_phase q t + length cs) mod 3"
    "cs = map (\<lambda>i. phase_class (tier_phase q t + i)) [0..<length cs]" by auto
  from share_grant.hyps(2,3) obtain key n f where
    s: "tier_phase s = class_phase (charge (decode_state (w_fairness r)) (qe_tier (sel_entry sel))
       (qe_scarcity (sel_entry sel)) key n f)"
    and c: "qe_scarcity (sel_entry sel) = choose_class (decode_state (w_fairness r)) (qe_tier (sel_entry sel))
       (filter (\<lambda>item. qe_tier (q_entry item) = qe_tier (sel_entry sel)) (available_items r el ex))"
    by (rule grant_charge)
  have cls: "qe_scarcity (sel_entry sel) = phase_class (tier_phase r t)"
    using c share_grant.hyps(4) choose_class_phase [OF share_grant.hyps(5)] by simp
  have "tier_phase s t = (tier_phase r t + 1) mod 3"
    using IH(1) s cls share_grant.hyps(4) by (simp add: charge_phase wdrr_wf_def)
  then have "tier_phase s t mod 3 = (tier_phase q t + length (cs @ [qe_scarcity (sel_entry sel)])) mod 3"
    using IH(2) by (simp add: mod_Suc)
  moreover have "phase_class (tier_phase r t) = phase_class (tier_phase q t + length cs)"
    using IH(2) by (simp add: phase_class_def)
  moreover have "wdrr_wf s" using IH(1) share_grant.hyps(2,3) by (rule wdrr_wf_grant)
  ultimately show ?case by (simp add: cls IH(3) [symmetric])
qed simp

lemma phase_pattern:
  "count_list (map (\<lambda>i. phase_class (p + i)) [0..<3 * k]) SCARCE = 2 * k \<and>
   count_list (map (\<lambda>i. phase_class (p + i)) [0..<3 * k]) FLEXIBLE = k"
proof (induction k)
  case (Suc k)
  have upt: "[0..<3 * Suc k] = [0..<3 * k] @ [3 * k, 3 * k + 1, 3 * k + 2]"
  proof -
    have "3 * Suc k = Suc (Suc (Suc (3 * k)))" by simp
    then show ?thesis by (simp only: upt_Suc) simp
  qed
  have period: "phase_class (p + (3 * k + j)) = phase_class (p + j)" for j by (simp add: phase_class_def) presburger
  consider "p mod 3 = 0" | "p mod 3 = 1" | "p mod 3 = 2" by linarith
  then have "count_list [phase_class (p + 0), phase_class (p + 1), phase_class (p + 2)] SCARCE = 2 \<and>
      count_list [phase_class (p + 0), phase_class (p + 1), phase_class (p + 2)] FLEXIBLE = 1"
    by cases (simp_all add: phase_class_def mod_Suc)
  then have "count_list (map (\<lambda>i. phase_class (p + i)) [3 * k, 3 * k + 1, 3 * k + 2]) SCARCE = 2 \<and>
      count_list (map (\<lambda>i. phase_class (p + i)) [3 * k, 3 * k + 1, 3 * k + 2]) FLEXIBLE = 1"
    using period [of 0] period [of 1] period [of 2] by simp
  with Suc show ?case unfolding upt map_append count_list_append by simp
qed simp

text \<open>C31: within a tier that has both scarce and flexible requests available at each of its grants, any
  \<open>3 * k\<close> consecutive grants of that tier are exactly \<open>2 * k\<close> scarce and \<open>k\<close> flexible ones, whatever the
  other tiers are granted and whatever is enqueued, cancelled or contracted in between.\<close>

theorem scarce_flexible_share:
  assumes "reachable wdrr_init wdrr_step q" "share_run t q cs r" "length cs = 3 * k"
  shows "count_list cs SCARCE = 2 * k \<and> count_list cs FLEXIBLE = k"
  using share_run_phases [OF assms(2) wdrr.invar_reachable [OF assms(1)]] phase_pattern [of "tier_phase q t" k] assms(3)
  by metis

section \<open>Contraction, snapshots, protected accounts\<close>

lemma any_expands_False:
  assumes "any_expands (dict_of (map (\<lambda>leg. (al_identity leg, leg)) olds)) news = Inr False"
  shows "\<forall>l \<in> set news. leg_valid l \<and> (\<exists>m \<in> set olds. leg_within l m)"
  using assms
proof (induction news)
  case (Cons l news)
  let ?d = "dict_of (map (\<lambda>leg. (al_identity leg, leg)) olds)"
  obtain m where m: "map_of ?d (al_identity l) = Some m" and "leg_contracts m l = Inr True"
    and rest: "any_expands ?d news = Inr False"
    using Cons.prems by (auto simp: res_bind_Inr split: option.splits if_split_asm)
  then have "leg_valid l" "leg_within l m"
    using leg_intersection_Some by (auto simp: leg_contracts_def res_map_Inr)
  moreover have "m \<in> set olds"
  proof -
    have "m \<in> ran (map_of ?d)" using m by (rule ranI)
    then show ?thesis using ran_dict_of [of "map (\<lambda>leg. (al_identity leg, leg)) olds"] by auto
  qed
  ultimately show ?case using Cons.IH [OF rest] by auto
qed simp

text \<open>a contraction that succeeds keeps the request's identity, place and class, never raises its tier
  above or its weight beyond the queued ones, leaves it only legs within a queued leg, and does not
  touch any other request.\<close>

theorem contract_never_expands:
  assumes "contract q rid t w ls = Inr (e, q')"
  shows "\<exists>old. map_of (w_queued q) rid = Some old \<and>
    map_of (w_queued q') = (map_of (w_queued q))(rid \<mapsto> \<lparr>q_entry = e, q_sequence = q_sequence old\<rparr>) \<and>
    qe_request_id e = qe_request_id (q_entry old) \<and> qe_key_id e = qe_key_id (q_entry old) \<and>
    qe_scarcity e = qe_scarcity (q_entry old) \<and>
    qe_tier (q_entry old) \<le> qe_tier e \<and> qe_weight e \<le> qe_weight (q_entry old) \<and> entry_ok e \<and>
    list_all (\<lambda>l. leg_valid l \<and> (\<exists>m \<in> set (qe_authorized_legs (q_entry old)). leg_within l m)) (qe_authorized_legs e)"
  by (rule contract_Inr [OF assms]) (auto simp: list_all_iff dict_simps dest!: any_expands_False)

lemma restore_snapshot:
  assumes "wdrr_wf q"
  shows "queue_restore (queue_snapshot q) = Inr q"
proof -
  let ?items = "map snd (w_queued q)"
  have "sorted_wrt (<) (map q_sequence ?items)" using assms by (simp add: wdrr_wf_def comp_def)
  then have "sorted (map q_sequence ?items)" by (simp add: strict_sorted_imp_sorted)
  then have sorted: "sort_key q_sequence ?items = ?items" by (rule sort_key_id_if_sorted)
  have keyed: "map (\<lambda>item. (qe_request_id (q_entry item), item)) ?items = w_queued q"
  proof -
    have "map (\<lambda>p. (qe_request_id (q_entry (snd p)), snd p)) (w_queued q) = map id (w_queued q)"
      using assms by (intro map_cong) (auto simp: wdrr_wf_def)
    then show ?thesis by (simp add: comp_def)
  qed
  then have ids: "map (\<lambda>item. qe_request_id (q_entry item)) ?items = map fst (w_queued q)"
    by (metis (no_types, lifting) comp_def fst_conv list.map_comp map_eq_conv)
  show ?thesis
    using assms unfolding queue_restore_def queue_snapshot_def
    by (simp add: sorted keyed ids dict_of_distinct WDRRQueue_new_def checks_Inr wdrr_wf_def res_bind_Inr del: map_map)
qed

text \<open>a snapshot of any reachable queue restores to exactly that queue: requests, their order, the
  fairness state, the sequence and the version.\<close>

theorem snapshot_restore_roundtrip:
  assumes "reachable wdrr_init wdrr_step q"
  shows "queue_restore (queue_snapshot q) = Inr q"
  using wdrr.invar_reachable [OF assms] by (rule restore_snapshot)

text \<open>a flexible request is only ever offered accounts that no queued scarce request could use now,
  every offered account was a candidate, and a scarce request is offered all its accounts.\<close>

theorem scarce_accounts_protected:
  "set (unprotected_accounts q entry accounts candidates) =
     (if qe_scarcity entry = SCARCE then set accounts
      else {a \<in> set accounts. \<not> list_ex (\<lambda>p. qe_scarcity (q_entry (snd p)) = SCARCE \<and>
              a \<in> set (dict_get candidates (qe_request_id (q_entry (snd p))) [])) (w_queued q)})"
  by (auto simp: unprotected_accounts_def protected_scarce_accounts_def list_ex_iff)

section \<open>Two busy keys starve a third\<close>

text \<open>\<open>busy_run q gs r\<close>: every queued request is eligible at every grant, and each key that was served
  queues another request at once.\<close>

inductive busy_run :: "wdrr \<Rightarrow> QueueEntry list \<Rightarrow> wdrr \<Rightarrow> bool" where
  busy_start: "busy_run q [] q"
| busy_grant: "propose q (\<lambda>_. True) [] = Inr (Some sel) \<Longrightarrow> commit q sel = Inr r \<Longrightarrow>
    enqueue r (sel_entry sel) = Inr s \<Longrightarrow> busy_run s gs t \<Longrightarrow> busy_run q (sel_entry sel # gs) t"

definition demo_entry :: "string \<Rightarrow> QueueEntry" where
  "demo_entry key = \<lparr>qe_request_id = ''req_'' @ key, qe_key_id = key, qe_tier = 0, qe_weight = 1,
     qe_authorized_legs = [sample_leg], qe_scarcity = SCARCE\<rparr>"

definition demo_queued :: "string \<Rightarrow> int \<Rightarrow> request_id \<times> Queued" where
  "demo_queued key n = (''req_'' @ key, \<lparr>q_entry = demo_entry key, q_sequence = n\<rparr>)"

definition demo_fairness :: "string \<Rightarrow> int \<Rightarrow> Scarcity \<Rightarrow> FairnessState" where
  "demo_fairness a cd cc = \<lparr>fs_class_deficits = [(0, SCARCE, cd)], fs_class_cursors = [(0, cc)],
       fs_key_deficits = [(0, SCARCE, ''D'', 0), (0, SCARCE, ''E'', 0)],
       fs_key_cursors = [(0, SCARCE, a)], fs_higher_grant_streak = 0\<rparr>"

definition starving :: "string \<Rightarrow> string \<Rightarrow> int \<Rightarrow> int \<Rightarrow> int \<Rightarrow> Scarcity \<Rightarrow> wdrr" where
  "starving a b n v cd cc = \<lparr>w_max_consecutive_higher_grants = 64,
     w_queued = [demo_queued ''C'' 0, demo_queued a n, demo_queued b (n + 1)],
     w_next_sequence = n + 2, w_version = v, w_fairness = demo_fairness a cd cc\<rparr>"

lemma demo_sel [simp]:
  "qe_tier (demo_entry k) = 0" "qe_weight (demo_entry k) = 1" "qe_key_id (demo_entry k) = k"
  "qe_scarcity (demo_entry k) = SCARCE" "qe_request_id (demo_entry k) = ''req_'' @ k"
  by (simp_all add: demo_entry_def)

definition demo_items :: "string \<Rightarrow> string \<Rightarrow> int \<Rightarrow> Queued list" where
  "demo_items a b n = map snd [demo_queued ''C'' 0, demo_queued a n, demo_queued b (n + 1)]"

lemma demo_available: "available_items (starving a b n v cd cc) (\<lambda>_. True) [] = demo_items a b n"
  by (simp add: available_items_def starving_def demo_items_def)

lemma demo_tier: "choose_tier q (demo_items a b n) = Inr (0, 0)" "lower_items (demo_items a b n) 0 = []"
  by (simp_all add: choose_tier_def lower_items_def demo_items_def demo_queued_def Let_def)

lemma demo_filters: "filter (\<lambda>item. qe_tier (q_entry item) = 0) (demo_items a b n) = demo_items a b n"
  "filter (\<lambda>item. qe_scarcity (q_entry item) = SCARCE) (demo_items a b n) = demo_items a b n"
  by (simp_all add: demo_items_def demo_queued_def)

lemma demo_class: "choose_class d 0 (demo_items a b n) = SCARCE"
  by (cases "dict_get (d_class_cursors d) 0 SCARCE")
    (simp_all add: choose_class_def demo_items_def demo_queued_def Let_def other_class_def)

lemma demo_keys:
  assumes "(a, b) \<in> {(''E'', ''D''), (''D'', ''E'')}" "0 < n"
  shows "sorted_keys (first_sequence (demo_items a b n)) = [''C'', a, b]"
  using assms by (auto simp: sorted_keys_def first_sequence_def demo_items_def demo_queued_def Let_def dict_get_def)

lemma demo_item:
  "(a, b) \<in> {(''E'', ''D''), (''D'', ''E'')} \<Longrightarrow>
     items_of_key (demo_items a b n) a = [\<lparr>q_entry = demo_entry a, q_sequence = n\<rparr>]"
  by (auto simp: items_of_key_def demo_items_def demo_queued_def)

definition demo_turn :: "string \<Rightarrow> string \<Rightarrow> int \<Rightarrow> Scarcity \<Rightarrow> int \<Rightarrow> Scarcity \<Rightarrow> bool" where
  "demo_turn a b cd cc cd' cc' \<longleftrightarrow> (a, b, cd, cc, cd', cc') \<in>
     {(''E'', ''D'', 0, FLEXIBLE, 1, SCARCE), (''D'', ''E'', 1, SCARCE, 0, FLEXIBLE)}"

lemma demo_charge:
  "demo_turn a b cd cc cd' cc' \<Longrightarrow>
     encode_state (charge (decode_state (demo_fairness a cd cc)) 0 SCARCE a 1 b) 0 = demo_fairness b cd' cc'"
  unfolding demo_turn_def by (elim insertE) (simp_all, code_simp+)

lemma demo_key:
  "demo_turn a b cd cc cd' cc' \<Longrightarrow>
     choose_key (decode_state (demo_fairness a cd cc)) (0, SCARCE) [''C'', a, b] = Inr a \<and>
     next_key [''C'', a, b] a = Inr b"
  unfolding demo_turn_def by (elim insertE) (simp_all, code_simp+)

lemma starving_propose:
  assumes turn: "demo_turn a b cd cc cd' cc'" and "0 < n"
  shows "propose (starving a b n v cd cc) (\<lambda>_. True) [] = Inr (Some \<lparr>sel_entry = demo_entry a,
    sel_queue_version = v, sel_fairness = demo_fairness b cd' cc'\<rparr>)"
proof -
  have pair: "(a, b) \<in> {(''E'', ''D''), (''D'', ''E'')}" using turn by (auto simp: demo_turn_def)
  have fields: "w_fairness (starving a b n v cd cc) = demo_fairness a cd cc" "w_version (starving a b n v cd cc) = v"
    by (simp_all add: starving_def)
  have ne: "demo_items a b n \<noteq> []" by (simp add: demo_items_def)
  have "oldest [\<lparr>q_entry = demo_entry a, q_sequence = n\<rparr>] = Inr \<lparr>q_entry = demo_entry a, q_sequence = n\<rparr>"
    "key_quantum [\<lparr>q_entry = demo_entry a, q_sequence = n\<rparr>] = 1"
    by (simp_all add: oldest_def key_quantum_def)
  with ne demo_key [OF turn] demo_charge [OF turn] show ?thesis
    unfolding propose_def Let_def demo_available
    by (simp add: demo_tier demo_filters demo_class fields demo_keys [OF pair assms(2)] demo_item [OF pair]
        del: filter_filter)
qed

lemma starving_grant:
  assumes turn: "demo_turn a b cd cc cd' cc'" and "0 < n"
    and run: "busy_run (starving b a (n + 1) (v + 2) cd' cc') gs t"
  shows "busy_run (starving a b n v cd cc) (demo_entry a # gs) t"
proof -
  let ?sel = "\<lparr>sel_entry = demo_entry a, sel_queue_version = v, sel_fairness = demo_fairness b cd' cc'\<rparr>"
  let ?r = "\<lparr>w_max_consecutive_higher_grants = 64, w_queued = [demo_queued ''C'' 0, demo_queued b (n + 1)],
     w_next_sequence = n + 2, w_version = v + 1, w_fairness = demo_fairness b cd' cc'\<rparr>"
  have "commit (starving a b n v cd cc) ?sel = Inr ?r" "enqueue ?r (demo_entry a) = Inr (starving b a (n + 1) (v + 2) cd' cc')"
    using turn by (auto simp: demo_turn_def commit_def enqueue_def starving_def demo_queued_def)
  with starving_propose [OF turn assms(2)] run show ?thesis
    using busy_grant [of "starving a b n v cd cc" ?sel ?r] by simp
qed

lemma starving_runs:
  "0 < n \<Longrightarrow> demo_turn a b cd cc cd' cc' \<Longrightarrow>
    \<exists>gs t. busy_run (starving a b n v cd cc) gs t \<and> length gs = k \<and>
      list_all (\<lambda>g. qe_key_id g \<noteq> ''C'') gs \<and> map_of (w_queued t) ''req_C'' = Some \<lparr>q_entry = demo_entry ''C'', q_sequence = 0\<rparr>"
proof (induction k arbitrary: a b n v cd cc cd' cc')
  case 0
  then show ?case
    by (intro exI [of _ "[]"] exI [of _ "starving a b n v cd cc"])
      (auto simp: starving_def demo_queued_def intro: busy_start)
next
  case (Suc k)
  from Suc.prems(2) have turn': "demo_turn b a cd' cc' cd cc" and "a \<noteq> ''C''" by (auto simp: demo_turn_def)
  from Suc.IH [OF _ turn', of "n + 1" "v + 2"] Suc.prems(1) obtain gs t where
    run: "busy_run (starving b a (n + 1) (v + 2) cd' cc') gs t" and rest: "length gs = k"
      "list_all (\<lambda>g. qe_key_id g \<noteq> ''C'') gs"
      "map_of (w_queued t) ''req_C'' = Some \<lparr>q_entry = demo_entry ''C'', q_sequence = 0\<rparr>" by auto
  show ?case
    using starving_grant [OF Suc.prems(2,1) run] rest \<open>a \<noteq> ''C''\<close>
    by (intro exI [of _ "demo_entry a # gs"] exI [of _ t]) simp
qed

text \<open>The start is reached when the oldest key's request is passed over for two grants: \<open>C\<close>, \<open>E\<close> and \<open>D\<close>
  queue one request each, \<open>E\<close> and \<open>D\<close> are served while \<open>C\<close>'s request is excluded, and both queue again.\<close>

definition demo_ops :: "wdrr_op list" where
  "demo_ops = [OpEnqueue ''req_C'' ''C'' 0 1 [sample_leg], OpEnqueue ''req_E'' ''E'' 0 1 [sample_leg],
     OpEnqueue ''req_D'' ''D'' 0 1 [sample_leg], OpGrant [''req_C''], OpEnqueue ''req_E'' ''E'' 0 1 [sample_leg],
     OpGrant [''req_C''], OpEnqueue ''req_D'' ''D'' 0 1 [sample_leg]]"

lemma demo_reachable: "reachable wdrr_init wdrr_step (starving ''E'' ''D'' 3 7 0 FLEXIBLE)"
proof (rule run_ops_reachable)
  show "res_bind (WDRRQueue_new 64) (\<lambda>q. run_ops q demo_ops) = Inr (starving ''E'' ''D'' 3 7 0 FLEXIBLE)"
    by code_simp
qed

text \<open>C35: the rotation over keys is not fair. There is a reachable queue in which a key's request is the
  oldest one and stays eligible, and yet for every \<open>k\<close> the queue can grant \<open>k\<close> times to two other keys
  that queue again after each grant, without ever serving it: the rotation is by the age of each key's
  first request, so a key that was just served moves behind the cursor and the oldest key is skipped.\<close>

theorem busy_keys_starve_oldest:
  "\<exists>q. reachable wdrr_init wdrr_step q \<and>
     map_of (w_queued q) ''req_C'' = Some \<lparr>q_entry = demo_entry ''C'', q_sequence = 0\<rparr> \<and>
     (\<forall>k. \<exists>gs r. busy_run q gs r \<and> length gs = k \<and> list_all (\<lambda>g. qe_key_id g \<noteq> ''C'') gs \<and>
        map_of (w_queued r) ''req_C'' = Some \<lparr>q_entry = demo_entry ''C'', q_sequence = 0\<rparr>)"
proof (intro exI [of _ "starving ''E'' ''D'' 3 7 0 FLEXIBLE"] conjI allI demo_reachable)
  show "map_of (w_queued (starving ''E'' ''D'' 3 7 0 FLEXIBLE)) ''req_C'' = Some \<lparr>q_entry = demo_entry ''C'', q_sequence = 0\<rparr>"
    by (simp add: starving_def demo_queued_def)
qed (rule starving_runs, simp_all add: demo_turn_def)

section \<open>Witnesses\<close>

abbreviation demo_queue :: wdrr where
  "demo_queue \<equiv> starving ''E'' ''D'' 3 7 0 FLEXIBLE"

theorem propose_total_fifo_witness:
  "\<exists>sel q'. propose demo_queue (\<lambda>_. True) [] = Inr (Some sel) \<and> serves_oldest demo_queue (\<lambda>_. True) [] sel \<and>
     commit demo_queue sel = Inr q' \<and> length (w_queued q') = 2"
proof -
  have "available_items demo_queue (\<lambda>_. True) [] \<noteq> []" "length (w_queued demo_queue) = 3" by code_simp+
  then show ?thesis using propose_total_fifo [OF demo_reachable, of "\<lambda>_. True" "[]"] by auto
qed

theorem stale_selection_refused_witness:
  "\<exists>sel. propose demo_queue (\<lambda>_. True) [] = Inr (Some sel) \<and>
     commit (snd (cancel demo_queue ''req_C'')) sel = Inl (RuntimeError ''stale WDRR selection'')"
proof -
  have p: "propose demo_queue (\<lambda>_. True) [] = Inr (Some \<lparr>sel_entry = demo_entry ''E'',
      sel_queue_version = 7, sel_fairness = demo_fairness ''D'' 1 SCARCE\<rparr>)"
    by (rule starving_propose) (simp_all add: demo_turn_def)
  moreover have "snd (cancel demo_queue ''req_C'') \<noteq> demo_queue" by code_simp
  moreover have "wdrr_change demo_queue (snd (cancel demo_queue ''req_C''))"
    by (rule change_cancel [of _ "''req_C''" "fst (cancel demo_queue ''req_C'')"]) simp
  ultimately show ?thesis using stale_selection_refused by blast
qed

definition other_leg :: AuthorizedLeg where
  "other_leg = sample_leg\<lparr>al_leg_id := ''leg_2'', al_account_id := ''acc_2''\<rparr>"

definition class_ops :: "wdrr_op list" where
  "class_ops = [OpEnqueue ''r1'' ''A'' 0 2 [sample_leg], OpEnqueue ''r2'' ''A'' 0 2 [sample_leg],
     OpEnqueue ''r3'' ''B'' 0 1 [sample_leg], OpEnqueue ''r4'' ''B'' 0 1 [sample_leg, other_leg],
     OpEnqueue ''r5'' ''B'' 0 1 [sample_leg, other_leg], OpEnqueue ''r6'' ''B'' 1 1 [sample_leg]]"

definition class_queue :: wdrr where
  "class_queue = (case res_bind (WDRRQueue_new 5) (\<lambda>q. run_ops q class_ops) of Inr q \<Rightarrow> q | Inl _ \<Rightarrow> demo_queue)"

lemma class_reachable: "reachable wdrr_init wdrr_step class_queue"
proof (rule run_ops_reachable)
  show "res_bind (WDRRQueue_new 5) (\<lambda>q. run_ops q class_ops) = Inr class_queue" by code_simp
qed

primrec share_exec :: "int \<Rightarrow> nat \<Rightarrow> wdrr \<Rightarrow> (Scarcity list \<times> wdrr) option" where
  "share_exec t 0 q = Some ([], q)"
| "share_exec t (Suc n) q =
    (case share_exec t n q of None \<Rightarrow> None | Some (cs, r) \<Rightarrow>
     (case propose r (\<lambda>_. True) [] of Inl _ \<Rightarrow> None | Inr None \<Rightarrow> None | Inr (Some sel) \<Rightarrow>
      (case commit r sel of Inl _ \<Rightarrow> None | Inr s \<Rightarrow>
       if qe_tier (sel_entry sel) = t \<and> both_classes (available_items r (\<lambda>_. True) []) t
       then Some (cs @ [qe_scarcity (sel_entry sel)], s) else None)))"

lemma share_exec_run: "share_exec t n q = Some (cs, r) \<Longrightarrow> share_run t q cs r"
  by (induction n arbitrary: cs r)
    (auto split: option.split_asm prod.split_asm sum.split_asm if_split_asm intro: share_start share_grant)

theorem scarce_flexible_share_witness:
  "\<exists>cs r. share_run 0 class_queue cs r \<and> length cs = 3 \<and> count_list cs SCARCE = 2 \<and> count_list cs FLEXIBLE = 1"
proof -
  have "map_option (length \<circ> fst) (share_exec 0 3 class_queue) = Some 3" by code_simp
  then obtain cs r where "share_exec 0 3 class_queue = Some (cs, r)" "length cs = 3" by auto
  then show ?thesis
    using scarce_flexible_share [OF class_reachable share_exec_run, of 0 3 cs r 1] share_exec_run by fastforce
qed


theorem contract_never_expands_witness:
  "\<exists>e q'. contract class_queue ''r1'' (Some 3) (Some 1) None = Inr (e, q') \<and> qe_tier e = 3 \<and> qe_weight e = 1 \<and>
     list_all (\<lambda>l. leg_within l sample_leg) (qe_authorized_legs e)"
proof -
  have "(case contract class_queue ''r1'' (Some 3) (Some 1) None of Inr (e, q') \<Rightarrow> qe_tier e = 3 \<and> qe_weight e = 1 | Inl _ \<Rightarrow> False) \<and>
      map_option (qe_authorized_legs \<circ> q_entry) (map_of (w_queued class_queue) ''r1'') = Some [sample_leg]"
    by code_simp
  then obtain e q' where c: "contract class_queue ''r1'' (Some 3) (Some 1) None = Inr (e, q')" and e: "qe_tier e = 3" "qe_weight e = 1"
    and old: "map_option (qe_authorized_legs \<circ> q_entry) (map_of (w_queued class_queue) ''r1'') = Some [sample_leg]"
    by (auto split: sum.split_asm)
  from contract_never_expands [OF c] c e old show ?thesis by (auto simp: list_all_iff)
qed

theorem snapshot_restore_roundtrip_witness: "queue_restore (queue_snapshot class_queue) = Inr class_queue"
  by (rule snapshot_restore_roundtrip [OF class_reachable])

end
