(* ===== verification/Runtime_State.thy ===== *)
theory Runtime_State
  imports Bundle
begin

text \<open>
  The account runtime of \<open>gateway/runtime_state.py\<close> (class \<open>AccountRuntime\<close>): circuit values,
  reservation requests, attempts, resolutions, and every method that reads or changes the counters
  of one provider account. The object is the record \<open>runtime\<close>; a method is a function of the
  runtime that returns its result (a value or the exception raised) with the runtime after it, so
  that what a raising method already changed stays visible. What a method asks of the outside is in
  its arguments: the clock reading \<open>clk\<close>, and in \<open>journal_env\<close> the status the attempt journal shows,
  the outcome of the one record the method appends and the outcome of the checkpoint it may write.
  \<open>sha256\<close> of a canonical form is the argument \<open>digest\<close>.
\<close>

section \<open>What the journal gives\<close>

datatype JournalStatus = JS_HEALTHY | JS_ADMISSION_STOP | JS_RECOVERY_REQUIRED | JS_CLOSED

record JournalReceipt =
  jr_durable_lsn :: int
  jr_record_digest :: string

record journal_env =
  je_status :: JournalStatus
  je_append :: "JournalReceipt res"
  je_checkpoint :: "unit res"

section \<open>Circuit values, requests and resolutions\<close>

datatype ReservationDenialReason =
    ACCOUNT_NOT_ACTIVE | ACCOUNT_NOT_FOUND | ATTEMPT_DUPLICATE | CIRCUIT_CHANGED
  | CIRCUIT_UNAVAILABLE | DEADLINE_EXCEEDED | INVALID_QUOTA_CHARGE | JOURNAL_CAPACITY_STOP
  | JOURNAL_UNAVAILABLE | MONTHLY_QUOTA_EXHAUSTED | MONTHLY_RESET_UNAVAILABLE
  | PARALLEL_EXHAUSTED | RECOVERY_REQUIRED | RPM_EXHAUSTED | TPM_EXHAUSTED

datatype ProbeClassification = PC_AVAILABLE | PC_CAPACITY_EXHAUSTED | PC_INCONCLUSIVE

datatype CircuitState = CS_CLOSED | CS_OPEN | CS_HALF_OPEN

datatype CircuitCause = CC_CAPACITY | CC_TRANSIENT_FAILURE | CC_QUOTA | CC_MANUAL

datatype CircuitScope = SCOPE_ACCOUNT | SCOPE_DEPLOYMENT

definition MAX_INT :: int where
  "MAX_INT = 2 ^ 63 - 1"

definition MAX_ROLLING_WINDOW_SECONDS :: int where
  "MAX_ROLLING_WINDOW_SECONDS = 86400"

record CircuitValue =
  ci_state :: CircuitState
  ci_cause :: "CircuitCause option"
  ci_epoch :: int
  ci_opened_at_ms :: int
  ci_retry_at_ms :: int
  ci_backoff_step :: int
  ci_evidence_digest :: "string option"
  ci_probe_id :: "string option"

definition is_sha256_digest :: "string \<Rightarrow> bool" where
  "is_sha256_digest s \<longleftrightarrow> take 7 s = ''sha256:'' \<and> is_hex 64 (drop 7 s)"

definition is_probe_id :: "string \<Rightarrow> bool" where
  "is_probe_id s \<longleftrightarrow> take 6 s = ''probe_'' \<and> length (drop 6 s) = 36 \<and>
     list_all (\<lambda>c. is_hex_char c \<or> c = CHR ''-'') (drop 6 s)"

definition circuit_evidence :: "CircuitValue \<Rightarrow> bool" where
  "circuit_evidence c \<longleftrightarrow> ci_cause c \<noteq> None \<and> ci_evidence_digest c \<noteq> None"

text \<open>\<open>or self.probe_id\<close> tests a string: the pattern of probe ids admits no empty one.\<close>

definition CircuitValue_validate :: "CircuitValue \<Rightarrow> CircuitValue res" where
  "CircuitValue_validate c = checks
    [(\<not> ci_epoch c \<ge> 0, ''epoch: ge''),
     (\<not> (0 \<le> ci_opened_at_ms c \<and> ci_opened_at_ms c \<le> MAX_INT), ''opened_at_ms: range''),
     (\<not> (0 \<le> ci_retry_at_ms c \<and> ci_retry_at_ms c \<le> MAX_INT), ''retry_at_ms: range''),
     (\<not> (0 \<le> ci_backoff_step c \<and> ci_backoff_step c \<le> 64), ''backoff_step: range''),
     ((case ci_evidence_digest c of None \<Rightarrow> False | Some d \<Rightarrow> \<not> is_sha256_digest d), ''evidence_digest: pattern''),
     ((case ci_probe_id c of None \<Rightarrow> False | Some p \<Rightarrow> \<not> is_probe_id p), ''probe_id: pattern''),
     (ci_state c = CS_CLOSED \<and> (circuit_evidence c \<or> ci_opened_at_ms c \<noteq> 0 \<or> ci_retry_at_ms c \<noteq> 0
        \<or> ci_backoff_step c \<noteq> 0 \<or> ci_probe_id c \<noteq> None),
       ''closed circuit cannot carry open/probe state''),
     (ci_state c = CS_OPEN \<and> (\<not> circuit_evidence c \<or> ci_opened_at_ms c = 0 \<or> ci_retry_at_ms c = 0
        \<or> ci_probe_id c \<noteq> None),
       ''open circuit requires evidence/retry state and no probe''),
     (ci_state c = CS_HALF_OPEN \<and> (\<not> circuit_evidence c \<or> ci_opened_at_ms c = 0 \<or> ci_retry_at_ms c \<noteq> 0
        \<or> ci_probe_id c = None),
       ''half-open circuit requires evidence and one probe'')] c"

definition CircuitValue_closed :: "int \<Rightarrow> CircuitValue" where
  "CircuitValue_closed epoch = \<lparr>ci_state = CS_CLOSED, ci_cause = None, ci_epoch = epoch,
     ci_opened_at_ms = 0, ci_retry_at_ms = 0, ci_backoff_step = 0, ci_evidence_digest = None,
     ci_probe_id = None\<rparr>"

record RuntimeIdentity =
  ri_installation_id :: string
  ri_dispatcher_fence :: int
  ri_boot_id :: string
  ri_bundle_generation :: int
  ri_bundle_hash :: string

record ReservationRequest =
  rr_request_id :: request_id
  rr_attempt_id :: attempt_id
  rr_account_id :: account_id
  rr_leg_id :: leg_id
  rr_deployment_generation_id :: generation_id
  rr_runtime_identity :: RuntimeIdentity
  rr_deadline_at_ms :: int
  rr_profile :: RequestProfile
  rr_input_tokens_upper_bound :: int
  rr_account_circuit :: CircuitValue
  rr_max_output_tokens :: int
  rr_max_reasoning_tokens :: int
  rr_quota_units :: int
  rr_circuit :: CircuitValue

definition total_token_upper_bound :: "ReservationRequest \<Rightarrow> int" where
  "total_token_upper_bound r =
     rr_input_tokens_upper_bound r + rr_max_output_tokens r + rr_max_reasoning_tokens r"

definition ReservationRequest_validate :: "ReservationRequest \<Rightarrow> ReservationRequest res" where
  "ReservationRequest_validate r =
    res_bind (RequestProfile_validate (rr_profile r)) (\<lambda>_.
    res_bind (CircuitValue_validate (rr_account_circuit r)) (\<lambda>_.
    res_bind (CircuitValue_validate (rr_circuit r)) (\<lambda>_. checks
      [(\<not> (1 \<le> ri_dispatcher_fence (rr_runtime_identity r) \<and> ri_dispatcher_fence (rr_runtime_identity r) \<le> MAX_INT),
         ''dispatcher_fence: range''),
       (\<not> ri_bundle_generation (rr_runtime_identity r) \<ge> 1, ''bundle_generation: ge''),
       (\<not> (1 \<le> rr_deadline_at_ms r \<and> rr_deadline_at_ms r \<le> MAX_INT), ''deadline_at_ms: range''),
       (\<not> (0 \<le> rr_input_tokens_upper_bound r \<and> rr_input_tokens_upper_bound r \<le> MAX_INT), ''input_tokens_upper_bound: range''),
       (\<not> (0 \<le> rr_max_output_tokens r \<and> rr_max_output_tokens r \<le> MAX_INT), ''max_output_tokens: range''),
       (\<not> (0 \<le> rr_max_reasoning_tokens r \<and> rr_max_reasoning_tokens r \<le> MAX_INT), ''max_reasoning_tokens: range''),
       (\<not> (0 \<le> rr_quota_units r \<and> rr_quota_units r \<le> MAX_INT), ''quota_units: range''),
       (rr_input_tokens_upper_bound r < pr_input_tokens_max (rr_profile r),
         ''input token upper bound cannot be below the request profile''),
       (rr_max_output_tokens r \<noteq> pr_output_tokens_max (rr_profile r),
         ''max_output_tokens must bind the request profile maximum''),
       (rr_max_reasoning_tokens r \<noteq> pr_reasoning_tokens_max (rr_profile r),
         ''max_reasoning_tokens must bind the request profile maximum''),
       (total_token_upper_bound r > MAX_INT, ''total token upper bound is out of range'')] r)))"

record AttemptResolution =
  rs_outcome :: TerminalOutcome
  rs_release_capacity :: bool
  rs_actual_starts :: "int option"
  rs_actual_token_units :: "int option"
  rs_actual_quota_units :: "int option"

definition opt_bad :: "(int \<Rightarrow> bool) \<Rightarrow> int option \<Rightarrow> bool" where
  "opt_bad ok v = (case v of None \<Rightarrow> False | Some x \<Rightarrow> \<not> ok x)"

definition AttemptResolution_validate :: "AttemptResolution \<Rightarrow> AttemptResolution res" where
  "AttemptResolution_validate r = checks
    [(opt_bad (\<lambda>x. 0 \<le> x \<and> x \<le> 1) (rs_actual_starts r), ''actual_starts: range''),
     (opt_bad (\<lambda>x. 0 \<le> x \<and> x \<le> MAX_INT) (rs_actual_token_units r), ''actual_token_units: range''),
     (opt_bad (\<lambda>x. 0 \<le> x \<and> x \<le> MAX_INT) (rs_actual_quota_units r), ''actual_quota_units: range'')] r"

section \<open>The runtime of one account\<close>

record AttemptStart =
  st_attempt_id :: attempt_id
  st_started_at_ms :: int
  st_tokens :: int
  st_counted_start :: bool

record Attempt =
  at_attempt_id :: attempt_id
  at_request_id :: request_id
  at_leg_id :: leg_id
  at_deployment_generation_id :: generation_id
  at_installation_id :: string
  at_bundle_generation :: int
  at_bundle_hash :: string
  at_fence_token :: int
  at_boot_id :: string
  at_deadline_at_ms :: int
  at_profile_digest :: string
  at_circuit_epoch :: int
  at_account_circuit_epoch :: int
  at_circuit_probe_id :: "string option"
  at_account_circuit_probe_id :: "string option"
  at_monthly_reset_at_ms :: int
  at_started_at_ms :: int
  at_dispatched_at_ms :: "int option"
  at_dispatch_receipt :: "JournalReceipt option"
  at_reserved_tokens :: int
  at_quota_units :: int
  at_state :: string

record Dispatch =
  di_request_id :: request_id
  di_attempt_id :: attempt_id
  di_leg_id :: leg_id
  di_deployment_generation_id :: generation_id
  di_circuit_epoch :: int
  di_account_circuit_epoch :: int
  di_circuit_probe_id :: "string option"
  di_account_circuit_probe_id :: "string option"
  di_dispatched_at_ms :: int

record ResolvedAttempt =
  ra_resolution_digest :: string
  ra_receipt :: JournalReceipt
  ra_resolved_at_ms :: int
  ra_dispatch :: "Dispatch option"

record runtime =
  rt_account :: ProviderAccount
  rt_resolution_ledger_limit :: int
  rt_resolution_retention_ms :: int
  rt_starts :: "(attempt_id, AttemptStart) dict"
  rt_attempts :: "(attempt_id, Attempt) dict"
  rt_resolutions :: "(attempt_id, ResolvedAttempt) dict"
  rt_circuits :: "(generation_id, CircuitValue) dict"
  rt_account_circuit :: CircuitValue
  rt_consumed_circuit_probes :: "(string, attempt_id) dict"
  rt_monthly_used :: int
  rt_time_high_water_ms :: int
  rt_monthly_reset_at_ms :: int
  rt_external_uncertain_holds :: int
  rt_recovery_probe_id :: "string option"

definition next_monthly_reset :: "ProviderAccount \<Rightarrow> int \<Rightarrow> int" where
  "next_monthly_reset account now_ms =
    (if qd_status (pa_monthly_quota_units account) \<noteq> KNOWN then 0
     else let reset_at_ms = (case pa_monthly_reset_at_ms account of None \<Rightarrow> 0 | Some r \<Rightarrow> r) in
       if reset_at_ms > now_ms then reset_at_ms else 0)"

definition AccountRuntime_new :: "ProviderAccount \<Rightarrow> int \<Rightarrow> int \<Rightarrow> int \<Rightarrow> runtime" where
  "AccountRuntime_new account clk ledger_limit retention_ms =
    \<lparr>rt_account = account, rt_resolution_ledger_limit = ledger_limit,
     rt_resolution_retention_ms = retention_ms, rt_starts = [], rt_attempts = [],
     rt_resolutions = [], rt_circuits = [], rt_account_circuit = CircuitValue_closed 0,
     rt_consumed_circuit_probes = [], rt_monthly_used = 0, rt_time_high_water_ms = clk,
     rt_monthly_reset_at_ms = next_monthly_reset account clk, rt_external_uncertain_holds = 0,
     rt_recovery_probe_id = None\<rparr>"

definition dispatch_of :: "Attempt \<Rightarrow> Dispatch option" where
  "dispatch_of attempt =
    (case at_dispatched_at_ms attempt of
       None \<Rightarrow> None
     | Some at \<Rightarrow> Some \<lparr>di_request_id = at_request_id attempt, di_attempt_id = at_attempt_id attempt,
         di_leg_id = at_leg_id attempt, di_deployment_generation_id = at_deployment_generation_id attempt,
         di_circuit_epoch = at_circuit_epoch attempt, di_account_circuit_epoch = at_account_circuit_epoch attempt,
         di_circuit_probe_id = at_circuit_probe_id attempt,
         di_account_circuit_probe_id = at_account_circuit_probe_id attempt, di_dispatched_at_ms = at\<rparr>)"

section \<open>Counters and windows\<close>

definition tick :: "int \<Rightarrow> runtime \<Rightarrow> runtime" where
  "tick clk s = s\<lparr>rt_time_high_water_ms := max (rt_time_high_water_ms s) clk\<rparr>"

definition active_count :: "runtime \<Rightarrow> int" where
  "active_count s = int (length (rt_attempts s)) + rt_external_uncertain_holds s"

definition uncertain_count :: "runtime \<Rightarrow> int" where
  "uncertain_count s =
     int (length (filter (\<lambda>a. at_state a = ''uncertain'') (map snd (rt_attempts s)))) + rt_external_uncertain_holds s"

definition any_active :: "runtime \<Rightarrow> bool" where
  "any_active s = list_ex (\<lambda>a. at_state a = ''active'') (map snd (rt_attempts s))"

definition rpm_starts :: "runtime \<Rightarrow> int \<Rightarrow> AttemptStart list" where
  "rpm_starts s now_ms =
    (let floor = now_ms - pa_rpm_window_seconds (rt_account s) * 1000 in
     filter (\<lambda>st. st_counted_start st \<and> st_started_at_ms st > floor) (map snd (rt_starts s)))"

definition tpm_starts :: "runtime \<Rightarrow> int \<Rightarrow> AttemptStart list" where
  "tpm_starts s now_ms =
    (let floor = now_ms - pa_tpm_window_seconds (rt_account s) * 1000 in
     filter (\<lambda>st. st_started_at_ms st > floor) (map snd (rt_starts s)))"

definition prune_resolutions :: "int \<Rightarrow> runtime \<Rightarrow> runtime" where
  "prune_resolutions now_ms s =
    (let cutoff = now_ms - rt_resolution_retention_ms s in
     s\<lparr>rt_resolutions := filter (\<lambda>(aid, r).
         \<not> (ra_resolved_at_ms r \<le> cutoff \<and> \<not> dict_has (rt_attempts s) aid)) (rt_resolutions s)\<rparr>)"

definition purge_windows :: "int \<Rightarrow> runtime \<Rightarrow> runtime" where
  "purge_windows now_ms s =
    (let keep_ms = MAX_ROLLING_WINDOW_SECONDS * 1000 in
     s\<lparr>rt_starts := filter (\<lambda>(aid, st).
         \<not> (st_started_at_ms st \<le> now_ms - keep_ms \<and> \<not> dict_has (rt_attempts s) aid)) (rt_starts s)\<rparr>)"

definition roll_monthly :: "int \<Rightarrow> runtime \<Rightarrow> runtime" where
  "roll_monthly now_ms s =
    (if rt_monthly_reset_at_ms s \<noteq> 0 \<and> now_ms \<ge> rt_monthly_reset_at_ms s
     then s\<lparr>rt_monthly_used := 0, rt_monthly_reset_at_ms := 0\<rparr> else s)"

fun tpm_retry_scan :: "AttemptStart list \<Rightarrow> int \<Rightarrow> int \<Rightarrow> int \<Rightarrow> int \<Rightarrow> int option" where
  "tpm_retry_scan [] remaining requested limit window = None"
| "tpm_retry_scan (st # sts) remaining requested limit window =
    (let remaining = remaining - st_tokens st in
     if remaining + requested \<le> limit then Some (st_started_at_ms st + window * 1000)
     else tpm_retry_scan sts remaining requested limit window)"

definition tpm_retry_at :: "runtime \<Rightarrow> AttemptStart list \<Rightarrow> int \<Rightarrow> int \<Rightarrow> int res" where
  "tpm_retry_at s starts requested limit =
    (case tpm_retry_scan (sort_key (\<lambda>st. (st_started_at_ms st, st_attempt_id st)) starts)
            (sum_list (map st_tokens starts)) requested limit (pa_tpm_window_seconds (rt_account s)) of
       Some t \<Rightarrow> Inr t
     | None \<Rightarrow>
         if starts = [] then Inl (ValueError ''max() arg is an empty sequence'')
         else Inr (Max (set (map st_started_at_ms starts)) + pa_tpm_window_seconds (rt_account s) * 1000))"

definition circuit_value :: "runtime \<Rightarrow> generation_id \<Rightarrow> CircuitValue" where
  "circuit_value s generation = dict_get (rt_circuits s) generation (CircuitValue_closed 0)"

section \<open>Reserving\<close>

type_synonym denial = "ReservationDenialReason \<times> int option"

datatype reservation = Granted JournalReceipt | Denied denial

text \<open>The early returns before the clock is read.\<close>

definition reserve_gate :: "journal_env \<Rightarrow> ReservationRequest \<Rightarrow> runtime \<Rightarrow> denial option" where
  "reserve_gate je request s =
    (if je_status je = JS_RECOVERY_REQUIRED then Some (RECOVERY_REQUIRED, None)
     else if je_status je = JS_ADMISSION_STOP then Some (JOURNAL_CAPACITY_STOP, None)
     else if rr_account_id request \<noteq> pa_account_id (rt_account s) then Some (ACCOUNT_NOT_FOUND, None)
     else if rt_recovery_probe_id s \<noteq> None then Some (RECOVERY_REQUIRED, None)
     else if pa_state (rt_account s) \<noteq> Some AS_ACTIVE then Some (ACCOUNT_NOT_ACTIVE, None)
     else None)"

definition reserve_probe_ids :: "ReservationRequest \<Rightarrow> runtime \<Rightarrow> string list" where
  "reserve_probe_ids request s =
    (let current = circuit_value s (rr_deployment_generation_id request);
         of_circuit = (\<lambda>c. if ci_state c = CS_HALF_OPEN then ci_probe_id c else None) in
     concat (map (\<lambda>p. case p of None \<Rightarrow> [] | Some i \<Rightarrow> [i])
       [of_circuit (rt_account_circuit s), of_circuit current]))"

text \<open>The checks between pruning the resolution ledger and purging the windows.\<close>

definition reserve_checks :: "ReservationRequest \<Rightarrow> int \<Rightarrow> runtime \<Rightarrow> denial option" where
  "reserve_checks request now_ms s =
    (let unresolved = int (length (filter (\<lambda>aid. \<not> dict_has (rt_resolutions s) aid) (map fst (rt_attempts s))));
         aid = rr_attempt_id request;
         current = circuit_value s (rr_deployment_generation_id request) in
     if int (length (rt_resolutions s)) + unresolved \<ge> rt_resolution_ledger_limit s
     then Some (JOURNAL_CAPACITY_STOP, None)
     else if rr_quota_units request < pa_quota_units_per_attempt (rt_account s)
     then Some (INVALID_QUOTA_CHARGE, None)
     else if rr_deadline_at_ms request \<le> now_ms then Some (DEADLINE_EXCEEDED, None)
     else if dict_has (rt_attempts s) aid \<or> dict_has (rt_starts s) aid \<or> dict_has (rt_resolutions s) aid
     then Some (ATTEMPT_DUPLICATE, None)
     else if rt_account_circuit s \<noteq> rr_account_circuit request then Some (CIRCUIT_CHANGED, None)
     else if ci_state (rt_account_circuit s) = CS_OPEN
     then Some (CIRCUIT_UNAVAILABLE, Some (ci_retry_at_ms (rt_account_circuit s)))
     else if current \<noteq> rr_circuit request then Some (CIRCUIT_CHANGED, None)
     else if ci_state current = CS_OPEN then Some (CIRCUIT_UNAVAILABLE, Some (ci_retry_at_ms current))
     else if list_ex (dict_has (rt_consumed_circuit_probes s)) (reserve_probe_ids request s)
     then Some (CIRCUIT_UNAVAILABLE, None)
     else None)"

definition known_value :: "QuotaDimension \<Rightarrow> int option res" where
  "known_value q =
    (if qd_status q = KNOWN then (case qd_value q of None \<Rightarrow> Inl AssertionError | Some v \<Rightarrow> Inr (Some v))
     else Inr None)"

definition rpm_denial :: "int \<Rightarrow> runtime \<Rightarrow> denial option res" where
  "rpm_denial now_ms s =
    res_bind (known_value (pa_rpm_limit (rt_account s))) (\<lambda>lim. case lim of None \<Rightarrow> Inr None
     | Some v \<Rightarrow>
        let starts = rpm_starts s now_ms in
        if int (length starts) \<ge> v then
          (if starts = [] then Inl (ValueError ''min() arg is an empty sequence'')
           else Inr (Some (RPM_EXHAUSTED, Some (Min (set (map st_started_at_ms starts))
                  + pa_rpm_window_seconds (rt_account s) * 1000))))
        else Inr None)"

definition tpm_denial :: "ReservationRequest \<Rightarrow> int \<Rightarrow> runtime \<Rightarrow> denial option res" where
  "tpm_denial request now_ms s =
    res_bind (known_value (pa_tpm_limit (rt_account s))) (\<lambda>lim. case lim of None \<Rightarrow> Inr None
     | Some v \<Rightarrow>
        let wanted = total_token_upper_bound request; starts = tpm_starts s now_ms in
        if wanted > v then Inr (Some (TPM_EXHAUSTED, None))
        else if sum_list (map st_tokens starts) + wanted > v
        then res_map (\<lambda>t. Some (TPM_EXHAUSTED, Some t)) (tpm_retry_at s starts wanted v)
        else Inr None)"

definition monthly_denial :: "ReservationRequest \<Rightarrow> runtime \<Rightarrow> denial option res" where
  "monthly_denial request s =
    res_map (\<lambda>lim. case lim of None \<Rightarrow> None
     | Some v \<Rightarrow>
        if rt_monthly_used s + rr_quota_units request > v
        then Some (MONTHLY_QUOTA_EXHAUSTED, Some (rt_monthly_reset_at_ms s)) else None)
     (known_value (pa_monthly_quota_units (rt_account s)))"

definition or_denial :: "denial option res \<Rightarrow> denial option res \<Rightarrow> denial option res" where
  "or_denial a b = res_bind a (\<lambda>d. case d of Some x \<Rightarrow> Inr (Some x) | None \<Rightarrow> b)"

text \<open>The limits, after the windows are purged and the month rolled.\<close>

definition reserve_limits :: "ReservationRequest \<Rightarrow> int \<Rightarrow> runtime \<Rightarrow> denial option res" where
  "reserve_limits request now_ms s =
    (if qd_status (pa_monthly_quota_units (rt_account s)) = KNOWN \<and> rr_quota_units request > 0
        \<and> rt_monthly_reset_at_ms s = 0
     then Inr (Some (MONTHLY_RESET_UNAVAILABLE, None))
     else res_bind (enforced_max_in_flight (rt_account s)) (\<lambda>limit.
       if active_count s \<ge> limit then Inr (Some (PARALLEL_EXHAUSTED, None))
       else or_denial (rpm_denial now_ms s)
         (or_denial (tpm_denial request now_ms s) (monthly_denial request s))))"

definition half_open_probe :: "CircuitValue \<Rightarrow> string option" where
  "half_open_probe c = (if ci_state c = CS_HALF_OPEN then ci_probe_id c else None)"

definition new_attempt :: "(RequestProfile \<Rightarrow> string) \<Rightarrow> ReservationRequest \<Rightarrow> int \<Rightarrow> runtime \<Rightarrow> Attempt" where
  "new_attempt profile_digest request now_ms s =
    \<lparr>at_attempt_id = rr_attempt_id request, at_request_id = rr_request_id request,
     at_leg_id = rr_leg_id request, at_deployment_generation_id = rr_deployment_generation_id request,
     at_installation_id = ri_installation_id (rr_runtime_identity request),
     at_bundle_generation = ri_bundle_generation (rr_runtime_identity request),
     at_bundle_hash = ri_bundle_hash (rr_runtime_identity request),
     at_fence_token = ri_dispatcher_fence (rr_runtime_identity request),
     at_boot_id = ri_boot_id (rr_runtime_identity request),
     at_deadline_at_ms = rr_deadline_at_ms request,
     at_profile_digest = profile_digest (rr_profile request),
     at_circuit_epoch = ci_epoch (rr_circuit request),
     at_account_circuit_epoch = ci_epoch (rr_account_circuit request),
     at_circuit_probe_id = ci_probe_id (rr_circuit request),
     at_account_circuit_probe_id = half_open_probe (rt_account_circuit s),
     at_monthly_reset_at_ms = rt_monthly_reset_at_ms s, at_started_at_ms = now_ms,
     at_dispatched_at_ms = None, at_dispatch_receipt = None,
     at_reserved_tokens = total_token_upper_bound request, at_quota_units = rr_quota_units request,
     at_state = ''active''\<rparr>"

definition consume_probes :: "string list \<Rightarrow> attempt_id \<Rightarrow> runtime \<Rightarrow> runtime" where
  "consume_probes probes aid s =
     s\<lparr>rt_consumed_circuit_probes := fold (\<lambda>p. AList.update p aid) probes (rt_consumed_circuit_probes s)\<rparr>"

definition apply_reservation :: "(RequestProfile \<Rightarrow> string) \<Rightarrow> ReservationRequest \<Rightarrow> int \<Rightarrow> runtime \<Rightarrow> runtime" where
  "apply_reservation profile_digest request now_ms s =
    (let aid = rr_attempt_id request; s = consume_probes (reserve_probe_ids request s) aid s in
     s\<lparr>rt_starts := AList.update aid \<lparr>st_attempt_id = aid, st_started_at_ms = now_ms,
          st_tokens = total_token_upper_bound request, st_counted_start = True\<rparr> (rt_starts s),
       rt_attempts := AList.update aid (new_attempt profile_digest request now_ms s) (rt_attempts s),
       rt_monthly_used := rt_monthly_used s + rr_quota_units request\<rparr>)"

definition journal_denial :: "py_error \<Rightarrow> reservation res" where
  "journal_denial e =
    (case e of
       JournalUnavailable msg \<Rightarrow>
         Inr (Denied (if msg = ''admission_stop'' then JOURNAL_CAPACITY_STOP else JOURNAL_UNAVAILABLE, None))
     | _ \<Rightarrow> Inl e)"

definition try_reserve ::
    "(RequestProfile \<Rightarrow> string) \<Rightarrow> journal_env \<Rightarrow> int \<Rightarrow> ReservationRequest \<Rightarrow> runtime \<Rightarrow> reservation res \<times> runtime" where
  "try_reserve profile_digest je clk request s =
    (case reserve_gate je request s of
       Some d \<Rightarrow> (Inr (Denied d), s)
     | None \<Rightarrow>
       let s1 = tick clk s; now_ms = rt_time_high_water_ms s1; s2 = prune_resolutions now_ms s1 in
       (case reserve_checks request now_ms s2 of
          Some d \<Rightarrow> (Inr (Denied d), s2)
        | None \<Rightarrow>
          let s3 = roll_monthly now_ms (purge_windows now_ms s2) in
          (case reserve_limits request now_ms s3 of
             Inl e \<Rightarrow> (Inl e, s3)
           | Inr (Some d) \<Rightarrow> (Inr (Denied d), s3)
           | Inr None \<Rightarrow>
             (case je_append je of
                Inl e \<Rightarrow> (journal_denial e, s3)
              | Inr receipt \<Rightarrow>
                (res_map (\<lambda>_. Granted receipt) (je_checkpoint je),
                 apply_reservation profile_digest request now_ms s3)))))"

section \<open>Dispatching and finishing an attempt\<close>

definition mark_dispatched :: "journal_env \<Rightarrow> int \<Rightarrow> attempt_id \<Rightarrow> runtime \<Rightarrow> JournalReceipt res \<times> runtime" where
  "mark_dispatched je clk attempt_id s =
    (case map_of (rt_attempts s) attempt_id of
       None \<Rightarrow> (Inl (InvalidLeaseTransition ''unknown or terminal attempt cannot dispatch''), s)
     | Some attempt \<Rightarrow>
       if dict_has (rt_resolutions s) attempt_id
       then (Inl (InvalidLeaseTransition ''unknown or terminal attempt cannot dispatch''), s)
       else (case at_dispatch_receipt attempt of
          Some receipt \<Rightarrow> (Inr receipt, s)
        | None \<Rightarrow>
          let s1 = tick clk s; now_ms = rt_time_high_water_ms s1 in
          if now_ms \<ge> at_deadline_at_ms attempt
          then (Inl (InvalidLeaseTransition ''attempt deadline elapsed before dispatch''), s1)
          else (case je_append je of
             Inl e \<Rightarrow> (Inl e, s1)
           | Inr receipt \<Rightarrow>
             (res_map (\<lambda>_. receipt) (je_checkpoint je),
              s1\<lparr>rt_attempts := AList.update attempt_id
                   (attempt\<lparr>at_dispatched_at_ms := Some now_ms, at_dispatch_receipt := Some receipt\<rparr>)
                   (rt_attempts s1)\<rparr>))))"

definition settle_start :: "AttemptResolution \<Rightarrow> AttemptStart \<Rightarrow> AttemptStart" where
  "settle_start r st = st\<lparr>
     st_counted_start := (if rs_actual_starts r = Some 0 then False else st_counted_start st),
     st_tokens := (case rs_actual_token_units r of None \<Rightarrow> st_tokens st | Some t \<Rightarrow> t)\<rparr>"

definition settle_monthly :: "AttemptResolution \<Rightarrow> Attempt \<Rightarrow> runtime \<Rightarrow> int" where
  "settle_monthly r attempt s =
    (case rs_actual_quota_units r of
       Some q \<Rightarrow> if at_monthly_reset_at_ms attempt = rt_monthly_reset_at_ms s
         then max 0 (rt_monthly_used s + (q - at_quota_units attempt)) else rt_monthly_used s
     | None \<Rightarrow> rt_monthly_used s)"

definition exceeds :: "int option \<Rightarrow> int \<Rightarrow> bool" where
  "exceeds actual reserved = (case actual of None \<Rightarrow> False | Some v \<Rightarrow> v > reserved)"

definition finish :: "(AttemptResolution \<Rightarrow> string) \<Rightarrow> journal_env \<Rightarrow> int \<Rightarrow> attempt_id \<Rightarrow> AttemptResolution
    \<Rightarrow> runtime \<Rightarrow> JournalReceipt res \<times> runtime" where
  "finish digest je clk attempt_id resolution s =
    (case map_of (rt_resolutions s) attempt_id of
       Some resolved \<Rightarrow>
         (if ra_resolution_digest resolved \<noteq> digest resolution
          then Inl (InvalidLeaseTransition ''conflicting terminal resolution'')
          else Inr (ra_receipt resolved), s)
     | None \<Rightarrow>
       (case map_of (rt_attempts s) attempt_id of
          None \<Rightarrow> (Inl (InvalidLeaseTransition ''unknown attempt cannot be resolved''), s)
        | Some attempt \<Rightarrow>
          if exceeds (rs_actual_token_units resolution) (at_reserved_tokens attempt)
          then (Inl (InvalidLeaseTransition ''actual token usage exceeds reservation''), s)
          else if exceeds (rs_actual_quota_units resolution) (at_quota_units attempt)
          then (Inl (InvalidLeaseTransition ''actual quota usage exceeds reservation''), s)
          else let s1 = tick clk s; now_ms = rt_time_high_water_ms s1 in
            (case je_append je of
               Inl e \<Rightarrow> (Inl e, s1)
             | Inr receipt \<Rightarrow>
               (case map_of (rt_starts s1) attempt_id of
                  None \<Rightarrow> (Inl KeyError, s1)
                | Some st \<Rightarrow>
                  let settled = (if rs_release_capacity resolution then AList.delete attempt_id (rt_attempts s1)
                        else AList.update attempt_id (attempt\<lparr>at_state := ''uncertain''\<rparr>) (rt_attempts s1)) in
                  (res_map (\<lambda>_. receipt) (je_checkpoint je),
                   s1\<lparr>rt_starts := AList.update attempt_id (settle_start resolution st) (rt_starts s1),
                      rt_monthly_used := settle_monthly resolution attempt s1,
                      rt_attempts := settled,
                      rt_resolutions := AList.update attempt_id
                        \<lparr>ra_resolution_digest = digest resolution, ra_receipt = receipt,
                         ra_resolved_at_ms = now_ms, ra_dispatch = dispatch_of attempt\<rparr>
                        (rt_resolutions s1)\<rparr>)))))"

definition provider_send_completed :: "attempt_id \<Rightarrow> runtime \<Rightarrow> unit res" where
  "provider_send_completed attempt_id s =
    (if \<not> dict_has (rt_attempts s) attempt_id \<or> dict_has (rt_resolutions s) attempt_id
     then Inl (InvalidLeaseTransition ''attempt is already terminal'') else Inr ())"

definition attempt_exists :: "attempt_id \<Rightarrow> runtime \<Rightarrow> bool" where
  "attempt_exists attempt_id s \<longleftrightarrow> dict_has (rt_attempts s) attempt_id \<and> \<not> dict_has (rt_resolutions s) attempt_id"

section \<open>Circuits\<close>

definition release_probe :: "CircuitValue \<Rightarrow> runtime \<Rightarrow> runtime" where
  "release_probe expected s =
    (case ci_probe_id expected of None \<Rightarrow> s
     | Some p \<Rightarrow> s\<lparr>rt_consumed_circuit_probes := AList.delete p (rt_consumed_circuit_probes s)\<rparr>)"

definition compare_and_swap_circuit ::
    "journal_env \<Rightarrow> generation_id \<Rightarrow> CircuitValue \<Rightarrow> CircuitValue \<Rightarrow> runtime \<Rightarrow> bool res \<times> runtime" where
  "compare_and_swap_circuit je generation expected replacement s =
    (if circuit_value s generation \<noteq> expected then (Inr False, s)
     else if ci_epoch replacement < ci_epoch expected
     then (Inl (ValueError ''circuit epoch cannot decrease''), s)
     else if replacement = expected then (Inr True, s)
     else (case je_append je of
        Inl e \<Rightarrow> (Inl e, s)
      | Inr _ \<Rightarrow>
        let s1 = release_probe expected s in
        (res_map (\<lambda>_. True) (je_checkpoint je),
         s1\<lparr>rt_circuits := AList.update generation replacement (rt_circuits s1)\<rparr>)))"

definition compare_and_swap_account_circuit ::
    "journal_env \<Rightarrow> CircuitValue \<Rightarrow> CircuitValue \<Rightarrow> runtime \<Rightarrow> bool res \<times> runtime" where
  "compare_and_swap_account_circuit je expected replacement s =
    (if rt_account_circuit s \<noteq> expected then (Inr False, s)
     else if ci_epoch replacement < ci_epoch expected
     then (Inl (ValueError ''circuit epoch cannot decrease''), s)
     else if replacement = expected then (Inr True, s)
     else (case je_append je of
        Inl e \<Rightarrow> (Inl e, s)
      | Inr _ \<Rightarrow>
        (res_map (\<lambda>_. True) (je_checkpoint je),
         (release_probe expected s)\<lparr>rt_account_circuit := replacement\<rparr>)))"

section \<open>Reports, reconfiguration and recovery\<close>

record AccountCapacity =
  ac_account_id :: account_id
  ac_state :: AccountState
  ac_parallel_limit :: int
  ac_active_attempts :: int
  ac_uncertain_attempts :: int
  ac_rpm_starts :: int
  ac_tpm_tokens :: int
  ac_monthly_quota_units :: int
  ac_account_circuit :: CircuitValue
  ac_monthly_reset_at_ms :: int
  ac_recovery_probe_in_flight :: bool
  ac_consumed_probe_tokens :: int

definition capacity :: "int \<Rightarrow> runtime \<Rightarrow> AccountCapacity res \<times> runtime" where
  "capacity clk s =
    (let s1 = tick clk s; now_ms = rt_time_high_water_ms s1; s2 = roll_monthly now_ms (purge_windows now_ms s1) in
     (res_map (\<lambda>limit.
       \<lparr>ac_account_id = pa_account_id (rt_account s2),
        ac_state = (case pa_state (rt_account s2) of None \<Rightarrow> AS_DRAFT | Some x \<Rightarrow> x),
        ac_parallel_limit = limit, ac_active_attempts = active_count s2,
        ac_uncertain_attempts = uncertain_count s2,
        ac_rpm_starts = int (length (rpm_starts s2 now_ms)),
        ac_tpm_tokens = sum_list (map st_tokens (tpm_starts s2 now_ms)),
        ac_monthly_quota_units = rt_monthly_used s2, ac_account_circuit = rt_account_circuit s2,
        ac_monthly_reset_at_ms = rt_monthly_reset_at_ms s2,
        ac_recovery_probe_in_flight = (rt_recovery_probe_id s2 \<noteq> None),
        ac_consumed_probe_tokens = int (length (rt_consumed_circuit_probes s2))\<rparr>)
       (enforced_max_in_flight (rt_account s2)), s2))"

definition update_account :: "int \<Rightarrow> ProviderAccount \<Rightarrow> runtime \<Rightarrow> unit res \<times> runtime" where
  "update_account clk account s =
    (if pa_account_id account \<noteq> pa_account_id (rt_account s)
     then (Inl (ValueError ''cannot replace an AccountRuntime identity''), s)
     else let s1 = tick clk s; now_ms = rt_time_high_water_ms s1; s2 = roll_monthly now_ms s1;
              previous_reset = rt_monthly_reset_at_ms s2;
              candidate_reset = next_monthly_reset account now_ms in
       (Inr (), s2\<lparr>rt_account := account, rt_monthly_reset_at_ms :=
          (if previous_reset = 0 \<or> candidate_reset > previous_reset then candidate_reset else previous_reset)\<rparr>))"

definition attempts_by_age :: "runtime \<Rightarrow> (attempt_id \<times> Attempt) list" where
  "attempts_by_age s = sort_key (\<lambda>(aid, a). (at_started_at_ms a, aid)) (rt_attempts s)"

definition set_authoritative_count :: "int \<Rightarrow> runtime \<Rightarrow> unit res \<times> runtime" where
  "set_authoritative_count count s =
    (if any_active s then (Inl (ValueError ''authoritative count cannot evict live active attempts''), s)
     else let ordered = map fst (attempts_by_age s); keep = min count (int (length ordered)) in
       (Inr (), s\<lparr>rt_attempts := fold AList.delete (drop (nat keep) ordered) (rt_attempts s),
                  rt_external_uncertain_holds := max 0 (count - keep)\<rparr>))"

definition apply_authoritative_active_count :: "journal_env \<Rightarrow> int \<Rightarrow> runtime \<Rightarrow> unit res \<times> runtime" where
  "apply_authoritative_active_count je count s =
    (if count < 0 then (Inl (ValueError ''authoritative active count cannot be negative''), s)
     else if any_active s then (Inl (ValueError ''authoritative count cannot evict live active attempts''), s)
     else (case je_append je of
        Inl e \<Rightarrow> (Inl e, s)
      | Inr _ \<Rightarrow>
        (case set_authoritative_count count s of
           (Inl e, s1) \<Rightarrow> (Inl e, s1)
         | (Inr _, s1) \<Rightarrow> (je_checkpoint je, s1))))"

definition begin_recovery_probe :: "journal_env \<Rightarrow> string \<Rightarrow> runtime \<Rightarrow> bool res \<times> runtime" where
  "begin_recovery_probe je probe_id s =
    (if take 6 probe_id \<noteq> ''probe_'' then (Inl (ValueError ''recovery probe requires a typed probe ID''), s)
     else if rt_recovery_probe_id s \<noteq> None \<or> uncertain_count s = 0 \<or> any_active s then (Inr False, s)
     else (case je_append je of
        Inl e \<Rightarrow> (Inl e, s)
      | Inr _ \<Rightarrow> (res_map (\<lambda>_. True) (je_checkpoint je), s\<lparr>rt_recovery_probe_id := Some probe_id\<rparr>)))"

definition finish_probe_state :: "ProbeClassification \<Rightarrow> runtime \<Rightarrow> runtime" where
  "finish_probe_state classification s =
    (let s1 = (if classification = PC_AVAILABLE then
         (if rt_external_uncertain_holds s \<noteq> 0
          then s\<lparr>rt_external_uncertain_holds := rt_external_uncertain_holds s - 1\<rparr>
          else (case min_on (\<lambda>a. (at_started_at_ms a, at_attempt_id a))
                  (filter (\<lambda>a. at_state a = ''uncertain'') (map snd (rt_attempts s))) of
             None \<Rightarrow> s
           | Some oldest \<Rightarrow> s\<lparr>rt_attempts := AList.delete (at_attempt_id oldest) (rt_attempts s)\<rparr>))
       else s) in
     s1\<lparr>rt_recovery_probe_id := None\<rparr>)"

definition finish_recovery_probe :: "journal_env \<Rightarrow> string \<Rightarrow> ProbeClassification \<Rightarrow> runtime \<Rightarrow> unit res \<times> runtime" where
  "finish_recovery_probe je probe_id classification s =
    (if rt_recovery_probe_id s \<noteq> Some probe_id
     then (Inl (ValueError ''recovery probe is not the serialized active probe''), s)
     else if any_active s then (Inl (ValueError ''recovery probe cannot evict live active attempts''), s)
     else (case je_append je of
        Inl e \<Rightarrow> (Inl e, s)
      | Inr _ \<Rightarrow> (je_checkpoint je, finish_probe_state classification s)))"

end
