(* ===== verification/Runtime_Registry.thy ===== *)
theory Runtime_Registry
  imports Runtime_State
begin

text \<open>
  The registry of account runtimes of \<open>gateway/runtime_state.py\<close> (class \<open>RuntimeState\<close>): snapshots of
  an account runtime and their restoration, replay of journal records, publication of accounts and
  recovery after a restart. A journal payload, a JSON object with a closed set of fields per record
  kind, is the datatype \<open>journal_payload\<close>; a snapshot, a JSON object of the runtime's fields with
  sorted keys, is the record \<open>runtime_snapshot\<close>. Hashes of account material are the arguments
  \<open>bsha\<close> (binding) and \<open>asha\<close> (attestation).
\<close>

section \<open>Journal records\<close>

record DurableReservation =
  dr_request_id :: request_id
  dr_attempt_id :: attempt_id
  dr_account_id :: account_id
  dr_leg_id :: leg_id
  dr_deployment_generation_id :: generation_id
  dr_installation_id :: string
  dr_bundle_generation :: int
  dr_bundle_hash :: string
  dr_fence_token :: int
  dr_boot_id :: string
  dr_deadline_at_ms :: int
  dr_profile_digest :: string
  dr_started_at_ms :: int
  dr_reserved_tokens :: int
  dr_quota_units :: int
  dr_monthly_reset_at_ms :: int
  dr_circuit_epoch :: int
  dr_account_circuit_epoch :: int
  dr_circuit_probe_id :: "string option"
  dr_account_circuit_probe_id :: "string option"

definition durable_reservation ::
    "(RequestProfile \<Rightarrow> string) \<Rightarrow> ReservationRequest \<Rightarrow> int \<Rightarrow> runtime \<Rightarrow> DurableReservation" where
  "durable_reservation profile_digest request now_ms s =
    \<lparr>dr_request_id = rr_request_id request, dr_attempt_id = rr_attempt_id request,
     dr_account_id = rr_account_id request, dr_leg_id = rr_leg_id request,
     dr_deployment_generation_id = rr_deployment_generation_id request,
     dr_installation_id = ri_installation_id (rr_runtime_identity request),
     dr_bundle_generation = ri_bundle_generation (rr_runtime_identity request),
     dr_bundle_hash = ri_bundle_hash (rr_runtime_identity request),
     dr_fence_token = ri_dispatcher_fence (rr_runtime_identity request),
     dr_boot_id = ri_boot_id (rr_runtime_identity request),
     dr_deadline_at_ms = rr_deadline_at_ms request,
     dr_profile_digest = profile_digest (rr_profile request), dr_started_at_ms = now_ms,
     dr_reserved_tokens = total_token_upper_bound request, dr_quota_units = rr_quota_units request,
     dr_monthly_reset_at_ms = rt_monthly_reset_at_ms s,
     dr_circuit_epoch = ci_epoch (rr_circuit request),
     dr_account_circuit_epoch = ci_epoch (rr_account_circuit request),
     dr_circuit_probe_id = ci_probe_id (rr_circuit request),
     dr_account_circuit_probe_id = half_open_probe (rt_account_circuit s)\<rparr>"

record resolution_record =
  rv_attempt_id :: attempt_id
  rv_release_capacity :: bool
  rv_actual_starts :: "int option"
  rv_actual_token_units :: "int option"
  rv_actual_quota_units :: "int option"
  rv_resolution_digest :: string
  rv_resolved_at_ms :: int

datatype journal_payload =
    AccountRegistered account_id string string int
  | AttemptReserved DurableReservation
  | AttemptDispatched attempt_id int
  | AttemptUncertain attempt_id
  | AttemptResolved resolution_record
  | CircuitUpdated account_id "generation_id option" CircuitScope CircuitValue
  | AuthoritativeActiveCount account_id int
  | RecoveryProbeStarted account_id string
  | RecoveryProbeFinished account_id ProbeClassification

record JournalRecord =
  jl_sequence :: int
  jl_payload :: journal_payload
  jl_digest :: string

section \<open>Replaying a record on one runtime\<close>

definition replay_attempt :: "DurableReservation \<Rightarrow> Attempt" where
  "replay_attempt d =
    \<lparr>at_attempt_id = dr_attempt_id d, at_request_id = dr_request_id d, at_leg_id = dr_leg_id d,
     at_deployment_generation_id = dr_deployment_generation_id d,
     at_installation_id = dr_installation_id d, at_bundle_generation = dr_bundle_generation d,
     at_bundle_hash = dr_bundle_hash d, at_fence_token = dr_fence_token d, at_boot_id = dr_boot_id d,
     at_deadline_at_ms = dr_deadline_at_ms d, at_profile_digest = dr_profile_digest d,
     at_circuit_epoch = dr_circuit_epoch d, at_account_circuit_epoch = dr_account_circuit_epoch d,
     at_circuit_probe_id = dr_circuit_probe_id d,
     at_account_circuit_probe_id = dr_account_circuit_probe_id d,
     at_monthly_reset_at_ms = dr_monthly_reset_at_ms d, at_started_at_ms = dr_started_at_ms d,
     at_dispatched_at_ms = None, at_dispatch_receipt = None,
     at_reserved_tokens = dr_reserved_tokens d, at_quota_units = dr_quota_units d,
     at_state = ''active''\<rparr>"

definition replay_reserved :: "DurableReservation \<Rightarrow> runtime \<Rightarrow> runtime" where
  "replay_reserved d s =
    (let aid = dr_attempt_id d;
         s1 = (if rt_monthly_reset_at_ms s \<noteq> dr_monthly_reset_at_ms d
           then s\<lparr>rt_monthly_reset_at_ms := dr_monthly_reset_at_ms d, rt_monthly_used := 0\<rparr> else s);
         s2 = s1\<lparr>rt_starts := AList.update aid \<lparr>st_attempt_id = aid, st_started_at_ms = dr_started_at_ms d,
               st_tokens = dr_reserved_tokens d, st_counted_start = True\<rparr> (rt_starts s1),
             rt_attempts := AList.update aid (replay_attempt d) (rt_attempts s1)\<rparr>;
         s3 = consume_probes (concat (map (\<lambda>p. case p of None \<Rightarrow> [] | Some i \<Rightarrow> [i])
             [dr_account_circuit_probe_id d, dr_circuit_probe_id d])) aid s2 in
     s3\<lparr>rt_monthly_used := rt_monthly_used s3 + dr_quota_units d\<rparr>)"

definition replay_dispatched :: "attempt_id \<Rightarrow> int \<Rightarrow> JournalReceipt \<Rightarrow> runtime \<Rightarrow> unit res \<times> runtime" where
  "replay_dispatched attempt_id dispatched_at_ms receipt s =
    (case map_of (rt_attempts s) attempt_id of
       None \<Rightarrow> (Inl (InvalidLeaseTransition ''dispatch has no durable reservation''), s)
     | Some attempt \<Rightarrow>
       (case at_dispatch_receipt attempt of
          Some known \<Rightarrow>
            (if at_dispatched_at_ms attempt \<noteq> Some dispatched_at_ms \<or> known \<noteq> receipt
             then Inl (InvalidLeaseTransition ''conflicting durable dispatch'') else Inr (), s)
        | None \<Rightarrow>
            (Inr (), s\<lparr>rt_attempts := AList.update attempt_id
               (attempt\<lparr>at_dispatched_at_ms := Some dispatched_at_ms, at_dispatch_receipt := Some receipt\<rparr>)
               (rt_attempts s)\<rparr>)))"

definition replay_start :: "resolution_record \<Rightarrow> AttemptStart \<Rightarrow> AttemptStart" where
  "replay_start v st = st\<lparr>
     st_counted_start := (if rv_actual_starts v = Some 0 then False else st_counted_start st),
     st_tokens := (case rv_actual_token_units v of None \<Rightarrow> st_tokens st | Some t \<Rightarrow> t)\<rparr>"

definition replay_monthly :: "resolution_record \<Rightarrow> Attempt \<Rightarrow> runtime \<Rightarrow> int" where
  "replay_monthly v attempt s =
    (case rv_actual_quota_units v of
       Some q \<Rightarrow> max 0 (rt_monthly_used s + (q - at_quota_units attempt))
     | None \<Rightarrow> rt_monthly_used s)"

definition replay_resolved :: "resolution_record \<Rightarrow> JournalReceipt \<Rightarrow> runtime \<Rightarrow> unit res \<times> runtime" where
  "replay_resolved v receipt s =
    (let attempt_id = rv_attempt_id v in
     case map_of (rt_resolutions s) attempt_id of
       Some resolved \<Rightarrow>
         (if ra_resolution_digest resolved \<noteq> rv_resolution_digest v
          then Inl (InvalidLeaseTransition ''conflicting durable resolution'') else Inr (), s)
     | None \<Rightarrow>
       (case map_of (rt_attempts s) attempt_id of
          None \<Rightarrow> (Inl (InvalidLeaseTransition ''resolution has no durable reservation''), s)
        | Some attempt \<Rightarrow>
          if exceeds (rv_actual_token_units v) (at_reserved_tokens attempt)
          then (Inl (InvalidLeaseTransition ''durable token usage exceeds reservation''), s)
          else if exceeds (rv_actual_quota_units v) (at_quota_units attempt)
          then (Inl (InvalidLeaseTransition ''durable quota usage exceeds reservation''), s)
          else (case map_of (rt_starts s) attempt_id of
             None \<Rightarrow> (Inl KeyError, s)
           | Some st \<Rightarrow>
             (Inr (), s\<lparr>rt_starts := AList.update attempt_id (replay_start v st) (rt_starts s),
                rt_monthly_used := replay_monthly v attempt s,
                rt_attempts := (if rv_release_capacity v then AList.delete attempt_id (rt_attempts s)
                  else AList.update attempt_id (attempt\<lparr>at_state := ''uncertain''\<rparr>) (rt_attempts s)),
                rt_resolutions := AList.update attempt_id
                  \<lparr>ra_resolution_digest = rv_resolution_digest v, ra_receipt = receipt,
                   ra_resolved_at_ms = rv_resolved_at_ms v, ra_dispatch = dispatch_of attempt\<rparr>
                  (rt_resolutions s)\<rparr>))))"

definition replay_uncertain :: "attempt_id \<Rightarrow> runtime \<Rightarrow> runtime" where
  "replay_uncertain attempt_id s =
    (case map_of (rt_attempts s) attempt_id of
       None \<Rightarrow> s
     | Some attempt \<Rightarrow>
         s\<lparr>rt_attempts := AList.update attempt_id (attempt\<lparr>at_state := ''uncertain''\<rparr>) (rt_attempts s)\<rparr>)"

definition replay_circuit :: "generation_id option \<Rightarrow> CircuitScope \<Rightarrow> CircuitValue \<Rightarrow> runtime \<Rightarrow> unit res \<times> runtime" where
  "replay_circuit generation scope payload s =
    (case CircuitValue_validate payload of
       Inl e \<Rightarrow> (Inl e, s)
     | Inr value \<Rightarrow>
       (case scope of
          SCOPE_ACCOUNT \<Rightarrow> (Inr (), (release_probe (rt_account_circuit s) s)\<lparr>rt_account_circuit := value\<rparr>)
        | SCOPE_DEPLOYMENT \<Rightarrow>
          (case generation of
             None \<Rightarrow> (Inl (ValueError ''invalid deployment generation id''), s)
           | Some g \<Rightarrow>
             let s1 = (case map_of (rt_circuits s) g of None \<Rightarrow> s | Some previous \<Rightarrow> release_probe previous s) in
             (Inr (), s1\<lparr>rt_circuits := AList.update g value (rt_circuits s1)\<rparr>))))"

fun replay :: "JournalRecord \<Rightarrow> journal_payload \<Rightarrow> runtime \<Rightarrow> unit res \<times> runtime" where
  "replay rec (AttemptReserved d) s = (Inr (), replay_reserved d s)"
| "replay rec (AttemptDispatched aid at) s =
     replay_dispatched aid at \<lparr>jr_durable_lsn = jl_sequence rec, jr_record_digest = jl_digest rec\<rparr> s"
| "replay rec (AttemptResolved v) s =
     replay_resolved v \<lparr>jr_durable_lsn = jl_sequence rec, jr_record_digest = jl_digest rec\<rparr> s"
| "replay rec (AttemptUncertain aid) s = (Inr (), replay_uncertain aid s)"
| "replay rec (CircuitUpdated acc g scope v) s = replay_circuit g scope v s"
| "replay rec (AuthoritativeActiveCount acc n) s = set_authoritative_count n s"
| "replay rec (RecoveryProbeStarted acc p) s = (Inr (), s\<lparr>rt_recovery_probe_id := Some p\<rparr>)"
| "replay rec (RecoveryProbeFinished acc c) s = (Inr (), finish_probe_state c s)"
| "replay rec (AccountRegistered acc b a e) s = (Inr (), s)"

section \<open>Snapshots of a runtime\<close>

record runtime_snapshot =
  sn_starts :: "(attempt_id, AttemptStart) dict"
  sn_attempts :: "(attempt_id, Attempt) dict"
  sn_resolutions :: "(attempt_id, ResolvedAttempt) dict"
  sn_consumed_circuit_probes :: "(string, attempt_id) dict"
  sn_time_high_water_ms :: int
  sn_monthly_used :: int
  sn_monthly_reset_at_ms :: int
  sn_external_uncertain_holds :: int
  sn_recovery_probe_id :: "string option"
  sn_account_circuit :: CircuitValue
  sn_circuits :: "(generation_id, CircuitValue) dict"

definition snapshot_state :: "runtime \<Rightarrow> runtime_snapshot" where
  "snapshot_state s =
    \<lparr>sn_starts = sort_key fst (rt_starts s), sn_attempts = sort_key fst (rt_attempts s),
     sn_resolutions = sort_key fst (rt_resolutions s),
     sn_consumed_circuit_probes = sort_key fst (rt_consumed_circuit_probes s),
     sn_time_high_water_ms = rt_time_high_water_ms s, sn_monthly_used = rt_monthly_used s,
     sn_monthly_reset_at_ms = rt_monthly_reset_at_ms s,
     sn_external_uncertain_holds = rt_external_uncertain_holds s,
     sn_recovery_probe_id = rt_recovery_probe_id s, sn_account_circuit = rt_account_circuit s,
     sn_circuits = sort_key fst (rt_circuits s)\<rparr>"

definition require_ints :: "int list \<Rightarrow> bool" where
  "require_ints xs = list_all (\<lambda>x. 0 \<le> x) xs"

definition start_ints :: "AttemptStart \<Rightarrow> int list" where
  "start_ints st = [st_started_at_ms st, st_tokens st]"

definition opt_ints :: "int option \<Rightarrow> int list" where
  "opt_ints v = (case v of None \<Rightarrow> [] | Some x \<Rightarrow> [x])"

definition attempt_ints :: "Attempt \<Rightarrow> int list" where
  "attempt_ints a = [at_bundle_generation a, at_fence_token a, at_deadline_at_ms a, at_circuit_epoch a,
     at_account_circuit_epoch a, at_monthly_reset_at_ms a, at_started_at_ms a]
     @ opt_ints (at_dispatched_at_ms a) @ opt_ints (map_option jr_durable_lsn (at_dispatch_receipt a))
     @ [at_reserved_tokens a, at_quota_units a]"

definition dispatch_ints :: "Dispatch option \<Rightarrow> int list" where
  "dispatch_ints d = (case d of None \<Rightarrow> []
     | Some x \<Rightarrow> [di_circuit_epoch x, di_account_circuit_epoch x, di_dispatched_at_ms x])"

definition resolved_ints :: "ResolvedAttempt \<Rightarrow> int list" where
  "resolved_ints r = [jr_durable_lsn (ra_receipt r), ra_resolved_at_ms r] @ dispatch_ints (ra_dispatch r)"

definition snapshot_ints :: "runtime_snapshot \<Rightarrow> int list" where
  "snapshot_ints v =
     concat (map (start_ints \<circ> snd) (sn_starts v)) @ concat (map (attempt_ints \<circ> snd) (sn_attempts v)) @
     [sn_time_high_water_ms v] @ concat (map (resolved_ints \<circ> snd) (sn_resolutions v)) @
     [sn_monthly_used v, sn_monthly_reset_at_ms v, sn_external_uncertain_holds v]"

definition restore_snapshot_state :: "runtime_snapshot \<Rightarrow> runtime \<Rightarrow> runtime res" where
  "restore_snapshot_state v s =
    (if int (length (sn_resolutions v)) > rt_resolution_ledger_limit s
     then Inl (ValueError ''recovered resolution ledger exceeds configured bound'')
     else if \<not> require_ints (snapshot_ints v) then Inl (ValueError ''recovered runtime integer is invalid'')
     else res_bind (CircuitValue_validate (sn_account_circuit v)) (\<lambda>account_circuit.
       res_bind (res_mapM (\<lambda>(g, c). res_map (Pair g) (CircuitValue_validate c)) (sn_circuits v)) (\<lambda>circuits.
         Inr (s\<lparr>rt_starts := dict_of (map (\<lambda>(aid, st). (aid, st\<lparr>st_attempt_id := aid\<rparr>)) (sn_starts v)),
            rt_attempts := dict_of (map (\<lambda>(aid, a). (aid, a\<lparr>at_attempt_id := aid\<rparr>)) (sn_attempts v)),
            rt_time_high_water_ms := sn_time_high_water_ms v,
            rt_resolutions := dict_of (sn_resolutions v),
            rt_consumed_circuit_probes := dict_of (sn_consumed_circuit_probes v),
            rt_monthly_used := sn_monthly_used v, rt_monthly_reset_at_ms := sn_monthly_reset_at_ms v,
            rt_external_uncertain_holds := sn_external_uncertain_holds v,
            rt_recovery_probe_id := sn_recovery_probe_id v, rt_account_circuit := account_circuit,
            rt_circuits := dict_of circuits\<rparr>))))"

section \<open>The registry\<close>

record histories =
  h_binding_history :: "(string, account_id) dict"
  h_account_binding :: "(account_id, string) dict"
  h_credential_epoch_highwater :: "(account_id, int) dict"
  h_credential_attestation_digest :: "(account_id, string) dict"

record registry =
  sy_resolution_ledger_limit :: int
  sy_resolution_retention_ms :: int
  sy_runtimes :: "(account_id, runtime) dict"
  sy_dormant_account_states :: "(account_id, runtime_snapshot) dict"
  sy_histories :: histories

type_synonym binding_sha = "string \<times> string \<times> string \<Rightarrow> string"
type_synonym attestation_sha = "string \<Rightarrow> string"

definition binding_digest :: "binding_sha \<Rightarrow> ProviderAccount \<Rightarrow> string" where
  "binding_digest bsha account =
    (if pa_connection account = [] \<or> pa_provider_token account = [] \<or> pa_binding_ref account = [] then []
     else ''sha256:'' @ bsha (pa_connection account, pa_provider_token account, pa_binding_ref account))"

definition attestation_digest :: "attestation_sha \<Rightarrow> ProviderAccount \<Rightarrow> string" where
  "attestation_digest asha account =
     ''sha256:'' @ asha (case pa_credential_fingerprint account of None \<Rightarrow> [] | Some f \<Rightarrow> f)"

definition epoch_of :: "ProviderAccount \<Rightarrow> int" where
  "epoch_of account = (case pa_credential_epoch account of None \<Rightarrow> 0 | Some e \<Rightarrow> e)"

definition remember_account_without_journal ::
    "binding_sha \<Rightarrow> attestation_sha \<Rightarrow> ProviderAccount \<Rightarrow> registry \<Rightarrow> registry" where
  "remember_account_without_journal bsha asha account g =
    (let binding = binding_digest bsha account; h = sy_histories g; acc = pa_account_id account;
         h1 = (if binding \<noteq> [] then h\<lparr>h_binding_history := AList.update binding acc (h_binding_history h),
             h_account_binding := AList.update acc binding (h_account_binding h)\<rparr> else h) in
     g\<lparr>sy_histories := h1\<lparr>
         h_credential_epoch_highwater := AList.update acc (epoch_of account) (h_credential_epoch_highwater h1),
         h_credential_attestation_digest :=
           AList.update acc (attestation_digest asha account) (h_credential_attestation_digest h1)\<rparr>\<rparr>)"

definition registry_try_reserve :: "(RequestProfile \<Rightarrow> string) \<Rightarrow> journal_env \<Rightarrow> int \<Rightarrow> ReservationRequest
    \<Rightarrow> registry \<Rightarrow> reservation res \<times> registry" where
  "registry_try_reserve pd je clk request g =
    (if je_status je = JS_RECOVERY_REQUIRED then (Inr (Denied (RECOVERY_REQUIRED, None)), g)
     else (case map_of (sy_runtimes g) (rr_account_id request) of
        None \<Rightarrow> (Inr (Denied (ACCOUNT_NOT_FOUND, None)), g)
      | Some rt \<Rightarrow>
        (case try_reserve pd je clk request rt of (x, rt') \<Rightarrow>
           (x, g\<lparr>sy_runtimes := AList.update (rr_account_id request) rt' (sy_runtimes g)\<rparr>))))"

section \<open>Publication\<close>

text \<open>The loop body that both \<open>validate_publication\<close> and \<open>apply_publication\<close> run on one account.\<close>

definition stage_account ::
    "binding_sha \<Rightarrow> attestation_sha \<Rightarrow> histories \<Rightarrow> ProviderAccount \<Rightarrow> histories res" where
  "stage_account bsha asha h account =
    (let acc = pa_account_id account; binding = binding_digest bsha account;
         attestation = attestation_digest asha account; epoch = epoch_of account;
         highwater = dict_get (h_credential_epoch_highwater h) acc 0 in
     if (case map_of (h_account_binding h) acc of None \<Rightarrow> False | Some b \<Rightarrow> b \<noteq> binding)
     then Inl (AccountBindingConflict ''Account ID cannot change its provider binding'')
     else if binding \<noteq> [] \<and> (case map_of (h_binding_history h) binding of None \<Rightarrow> False | Some owner \<Rightarrow> owner \<noteq> acc)
     then Inl (AccountBindingConflict ''provider binding is globally unique across live and tombstoned accounts'')
     else if epoch < highwater \<or> (epoch = highwater \<and>
         (case map_of (h_credential_attestation_digest h) acc of None \<Rightarrow> False | Some p \<Rightarrow> attestation \<noteq> p))
     then Inl (CredentialAttestationRollback ''credential attestation cannot rewind or change within one epoch'')
     else let h1 = (if binding \<noteq> [] then h\<lparr>h_binding_history := AList.update binding acc (h_binding_history h),
              h_account_binding := AList.update acc binding (h_account_binding h)\<rparr> else h) in
       Inr (h1\<lparr>h_credential_epoch_highwater := AList.update acc epoch (h_credential_epoch_highwater h1),
               h_credential_attestation_digest :=
                 AList.update acc attestation (h_credential_attestation_digest h1)\<rparr>))"

primrec stage_accounts ::
    "binding_sha \<Rightarrow> attestation_sha \<Rightarrow> histories \<Rightarrow> ProviderAccount list \<Rightarrow> histories res" where
  "stage_accounts bsha asha h [] = Inr h"
| "stage_accounts bsha asha h (a # as) = res_bind (stage_account bsha asha h a) (\<lambda>h'. stage_accounts bsha asha h' as)"

definition omitted_accounts :: "account_id list \<Rightarrow> registry \<Rightarrow> ProviderAccount list res" where
  "omitted_accounts selected g =
    res_mapM (\<lambda>(_, rt). ProviderAccount_validate ((rt_account rt)\<lparr>pa_state := Some AS_DISABLED\<rparr>))
      (filter (\<lambda>(acc, rt). acc \<notin> set selected \<and> pa_state (rt_account rt) = Some AS_ACTIVE) (sy_runtimes g))"

definition staged_publication :: "binding_sha \<Rightarrow> attestation_sha \<Rightarrow> ProviderAccount list \<Rightarrow> registry
    \<Rightarrow> (ProviderAccount list \<times> histories \<times> ProviderAccount list) res" where
  "staged_publication bsha asha accounts g =
    res_bind (res_mapM ProviderAccount_validate accounts) (\<lambda>validated.
      if has_dup (map pa_account_id validated)
      then Inl (AccountBindingConflict ''publication contains duplicate Account IDs'')
      else res_bind (stage_accounts bsha asha (sy_histories g) validated) (\<lambda>h.
        res_map (\<lambda>omitted. (validated, h, omitted)) (omitted_accounts (map pa_account_id validated) g)))"

definition validate_publication ::
    "binding_sha \<Rightarrow> attestation_sha \<Rightarrow> ProviderAccount list \<Rightarrow> registry \<Rightarrow> unit res" where
  "validate_publication bsha asha accounts g = res_map (\<lambda>_. ()) (staged_publication bsha asha accounts g)"

definition committed :: "'a res \<times> 's \<Rightarrow> 's res" where
  "committed p = res_map (\<lambda>_. snd p) (fst p)"

text \<open>Installing a staged account: a new runtime, possibly restored from a dormant state, or an update.\<close>

definition install_account :: "int \<Rightarrow> registry \<Rightarrow> ProviderAccount \<Rightarrow> registry res" where
  "install_account clk g account =
    (let acc = pa_account_id account in
     case map_of (sy_runtimes g) acc of
       Some rt \<Rightarrow>
         res_map (\<lambda>rt'. g\<lparr>sy_runtimes := AList.update acc rt' (sy_runtimes g)\<rparr>)
           (committed (update_account clk account rt))
     | None \<Rightarrow>
         let rt = AccountRuntime_new account clk (sy_resolution_ledger_limit g) (sy_resolution_retention_ms g) in
         res_map (\<lambda>rt'. g\<lparr>sy_runtimes := AList.update acc rt' (sy_runtimes g),
                       sy_dormant_account_states := AList.delete acc (sy_dormant_account_states g)\<rparr>)
           (case map_of (sy_dormant_account_states g) acc of
              None \<Rightarrow> Inr rt | Some dormant \<Rightarrow> restore_snapshot_state dormant rt))"

primrec install_accounts :: "int \<Rightarrow> registry \<Rightarrow> ProviderAccount list \<Rightarrow> registry res" where
  "install_accounts clk g [] = Inr g"
| "install_accounts clk g (a # as) = res_bind (install_account clk g a) (\<lambda>g'. install_accounts clk g' as)"

definition account_changed :: "registry \<Rightarrow> ProviderAccount \<Rightarrow> bool" where
  "account_changed g account =
    (let acc = pa_account_id account; h = sy_histories g in
     map_of (h_account_binding h) acc = None
     \<or> epoch_of account > dict_get (h_credential_epoch_highwater h) acc 0
     \<or> (case map_of (sy_runtimes g) acc of None \<Rightarrow> True | Some rt \<Rightarrow> pa_state (rt_account rt) \<noteq> pa_state account))"

definition apply_publication :: "binding_sha \<Rightarrow> attestation_sha \<Rightarrow> journal_env \<Rightarrow> int \<Rightarrow> ProviderAccount list
    \<Rightarrow> registry \<Rightarrow> registry res" where
  "apply_publication bsha asha je clk accounts g =
    res_bind (staged_publication bsha asha accounts g) (\<lambda>(validated, h, omitted).
      let registers = filter (\<lambda>a. account_changed g a \<and> binding_digest bsha a \<noteq> []) validated @ omitted in
      res_bind (if registers = [] then Inr () else res_map (\<lambda>_. ()) (je_append je)) (\<lambda>_.
      if list_ex (\<lambda>a. \<not> dict_has (h_account_binding h) (pa_account_id a)
            \<or> \<not> dict_has (h_credential_attestation_digest h) (pa_account_id a)) omitted then Inl KeyError
      else
      res_bind (install_accounts clk (g\<lparr>sy_histories := h\<rparr>) (validated @ omitted)) (\<lambda>g'.
      res_map (\<lambda>_. g') (je_checkpoint je))))"

section \<open>Replay and recovery\<close>

definition payload_account :: "journal_payload \<Rightarrow> account_id + attempt_id" where
  "payload_account p =
    (case p of
       AccountRegistered acc _ _ _ \<Rightarrow> Inl acc
     | AttemptReserved d \<Rightarrow> Inl (dr_account_id d)
     | CircuitUpdated acc _ _ _ \<Rightarrow> Inl acc
     | AuthoritativeActiveCount acc _ \<Rightarrow> Inl acc
     | RecoveryProbeStarted acc _ \<Rightarrow> Inl acc
     | RecoveryProbeFinished acc _ \<Rightarrow> Inl acc
     | AttemptDispatched aid _ \<Rightarrow> Inr aid
     | AttemptUncertain aid \<Rightarrow> Inr aid
     | AttemptResolved v \<Rightarrow> Inr (rv_attempt_id v))"

definition record_account_id :: "journal_payload \<Rightarrow> registry \<Rightarrow> account_id res" where
  "record_account_id p g =
    (case payload_account p of
       Inl acc \<Rightarrow> Inr acc
     | Inr aid \<Rightarrow>
       (case filter (\<lambda>(_, rt). dict_has (rt_attempts rt) aid \<or> dict_has (rt_resolutions rt) aid) (sy_runtimes g) of
          [] \<Rightarrow> Inl (ValueError ''terminal record has no matching reservation'')
        | (acc, _) # _ \<Rightarrow> Inr acc))"

definition replay_registered :: "account_id \<Rightarrow> string \<Rightarrow> string \<Rightarrow> int \<Rightarrow> histories \<Rightarrow> histories res" where
  "replay_registered acc binding attestation epoch h =
    (if (case map_of (h_binding_history h) binding of None \<Rightarrow> False | Some owner \<Rightarrow> owner \<noteq> acc)
     then Inl (AccountBindingConflict ''durable binding history conflict'')
     else let highwater = dict_get (h_credential_epoch_highwater h) acc 0 in
       if epoch < highwater \<or> (epoch = highwater \<and>
          (case map_of (h_credential_attestation_digest h) acc of None \<Rightarrow> False | Some p \<Rightarrow> p \<noteq> attestation))
       then Inl (CredentialAttestationRollback ''durable credential attestation conflict'')
       else Inr (h\<lparr>h_binding_history := AList.update binding acc (h_binding_history h),
                  h_account_binding := AList.update acc binding (h_account_binding h),
                  h_credential_epoch_highwater := AList.update acc epoch (h_credential_epoch_highwater h),
                  h_credential_attestation_digest := AList.update acc attestation (h_credential_attestation_digest h)\<rparr>))"

definition with_runtime :: "account_id \<Rightarrow> (runtime \<Rightarrow> unit res \<times> runtime) \<Rightarrow> registry \<Rightarrow> registry res" where
  "with_runtime acc f g =
    (case map_of (sy_runtimes g) acc of
       None \<Rightarrow> Inl KeyError
     | Some rt \<Rightarrow> res_map (\<lambda>rt'. g\<lparr>sy_runtimes := AList.update acc rt' (sy_runtimes g)\<rparr>) (committed (f rt)))"

definition apply_record :: "JournalRecord \<Rightarrow> registry \<Rightarrow> registry res" where
  "apply_record rec g =
    (case jl_payload rec of
       AccountRegistered acc binding attestation epoch \<Rightarrow>
         res_map (\<lambda>h. g\<lparr>sy_histories := h\<rparr>) (replay_registered acc binding attestation epoch (sy_histories g))
     | payload \<Rightarrow> res_bind (record_account_id payload g) (\<lambda>acc. with_runtime acc (replay rec payload) g))"

primrec apply_records :: "JournalRecord list \<Rightarrow> registry \<Rightarrow> registry res" where
  "apply_records [] g = Inr g"
| "apply_records (r # rs) g = res_bind (apply_record r g) (apply_records rs)"

text \<open>A half-open circuit found at recovery goes back to open, retry due at once.\<close>

definition reopen :: "int \<Rightarrow> CircuitValue \<Rightarrow> CircuitValue res" where
  "reopen now_ms c = CircuitValue_validate
    \<lparr>ci_state = CS_OPEN, ci_cause = ci_cause c, ci_epoch = ci_epoch c + 1, ci_opened_at_ms = ci_opened_at_ms c,
     ci_retry_at_ms = now_ms, ci_backoff_step = min 64 (ci_backoff_step c + 1),
     ci_evidence_digest = ci_evidence_digest c, ci_probe_id = None\<rparr>"

definition reopen_account_circuit :: "journal_env \<Rightarrow> int \<Rightarrow> runtime \<Rightarrow> runtime res" where
  "reopen_account_circuit je clk s =
    (let c = rt_account_circuit s in
     if ci_state c \<noteq> CS_HALF_OPEN then Inr s
     else let s1 = tick clk s in
       res_bind (reopen (rt_time_high_water_ms s1) c) (\<lambda>c'.
         committed (compare_and_swap_account_circuit je c c' s1)))"

definition reopen_circuit :: "journal_env \<Rightarrow> int \<Rightarrow> generation_id \<times> CircuitValue \<Rightarrow> runtime \<Rightarrow> runtime res" where
  "reopen_circuit je clk p s =
    (if ci_state (snd p) \<noteq> CS_HALF_OPEN then Inr s
     else let s1 = tick clk s in
       res_bind (reopen (rt_time_high_water_ms s1) (snd p)) (\<lambda>c'.
         committed (compare_and_swap_circuit je (fst p) (snd p) c' s1)))"

primrec reopen_circuits :: "journal_env \<Rightarrow> int \<Rightarrow> (generation_id \<times> CircuitValue) list \<Rightarrow> runtime \<Rightarrow> runtime res" where
  "reopen_circuits je clk [] s = Inr s"
| "reopen_circuits je clk (p # ps) s = res_bind (reopen_circuit je clk p s) (reopen_circuits je clk ps)"

definition uncertain_attempts :: "runtime \<Rightarrow> runtime" where
  "uncertain_attempts s =
     s\<lparr>rt_attempts := map (\<lambda>(aid, a). (aid, if at_state a = ''active'' then a\<lparr>at_state := ''uncertain''\<rparr> else a)) (rt_attempts s)\<rparr>"

definition recover_runtime :: "journal_env \<Rightarrow> int \<Rightarrow> runtime \<Rightarrow> runtime res" where
  "recover_runtime je clk s =
    res_bind (if any_active s then res_map (\<lambda>_. uncertain_attempts s) (je_append je) else Inr s) (\<lambda>s1.
    res_bind (if rt_recovery_probe_id s1 = None then Inr s1
              else res_map (\<lambda>_. finish_probe_state PC_INCONCLUSIVE s1) (je_append je)) (\<lambda>s2.
    res_bind (reopen_account_circuit je clk s2) (\<lambda>s3.
    reopen_circuits je clk (rt_circuits s3) s3)))"

definition mark_recovered_attempts_uncertain :: "journal_env \<Rightarrow> int \<Rightarrow> int \<Rightarrow> registry \<Rightarrow> registry res" where
  "mark_recovered_attempts_uncertain je clk last_sequence g =
    (if last_sequence = 0 then Inr g
     else res_bind (res_mapM (\<lambda>(acc, rt). res_map (Pair acc) (recover_runtime je clk rt)) (sy_runtimes g)) (\<lambda>rts.
       res_map (\<lambda>_. g\<lparr>sy_runtimes := rts\<rparr>) (je_checkpoint je)))"

record checkpoint =
  cp_accounts :: "(account_id, runtime_snapshot) dict"
  cp_histories :: histories

definition snapshot_locked :: "registry \<Rightarrow> checkpoint" where
  "snapshot_locked g =
    (let states = fold (\<lambda>(acc, rt). AList.update acc (snapshot_state rt)) (sy_runtimes g) (sy_dormant_account_states g);
         h = sy_histories g in
     \<lparr>cp_accounts = sort_key fst states,
      cp_histories = \<lparr>h_binding_history = sort_key fst (h_binding_history h),
        h_account_binding = sort_key fst (h_account_binding h),
        h_credential_epoch_highwater = sort_key fst (h_credential_epoch_highwater h),
        h_credential_attestation_digest = sort_key fst (h_credential_attestation_digest h)\<rparr>\<rparr>)"

definition restore_account :: "account_id \<times> runtime_snapshot \<Rightarrow> registry \<Rightarrow> registry res" where
  "restore_account p g =
    (case map_of (sy_runtimes g) (fst p) of
       None \<Rightarrow> Inr (g\<lparr>sy_dormant_account_states := AList.update (fst p) (snd p) (sy_dormant_account_states g)\<rparr>)
     | Some rt \<Rightarrow>
         res_map (\<lambda>rt'. g\<lparr>sy_runtimes := AList.update (fst p) rt' (sy_runtimes g)\<rparr>) (restore_snapshot_state (snd p) rt))"

primrec restore_accounts :: "(account_id \<times> runtime_snapshot) list \<Rightarrow> registry \<Rightarrow> registry res" where
  "restore_accounts [] g = Inr g"
| "restore_accounts (p # ps) g = res_bind (restore_account p g) (restore_accounts ps)"

definition restore_checkpoint :: "checkpoint \<Rightarrow> registry \<Rightarrow> registry res" where
  "restore_checkpoint cp g =
    res_bind (restore_accounts (cp_accounts cp) g) (\<lambda>g'.
      if \<not> require_ints (map snd (h_credential_epoch_highwater (cp_histories cp)))
      then Inl (ValueError ''recovered runtime integer is invalid'')
      else Inr (g'\<lparr>sy_histories := cp_histories cp\<rparr>))"

record recovery =
  rec_status :: JournalStatus
  rec_checkpoint :: "checkpoint option"
  rec_records :: "JournalRecord list"
  rec_last_sequence :: int

definition fresh_registry :: "int \<Rightarrow> int \<Rightarrow> int \<Rightarrow> ProviderAccount list \<Rightarrow> registry" where
  "fresh_registry clk limit retention_ms validated =
    \<lparr>sy_resolution_ledger_limit = limit, sy_resolution_retention_ms = retention_ms,
     sy_runtimes = dict_of (map (\<lambda>a. (pa_account_id a, AccountRuntime_new a clk limit retention_ms)) validated),
     sy_dormant_account_states = [],
     sy_histories = \<lparr>h_binding_history = [], h_account_binding = [], h_credential_epoch_highwater = [],
       h_credential_attestation_digest = []\<rparr>\<rparr>"

text \<open>Start-up. The error of the inner result is what makes the journal require recovery.\<close>

definition RuntimeState_new :: "binding_sha \<Rightarrow> attestation_sha \<Rightarrow> journal_env \<Rightarrow> int \<Rightarrow> int \<Rightarrow> int \<Rightarrow> recovery
    \<Rightarrow> ProviderAccount list \<Rightarrow> (registry res) res" where
  "RuntimeState_new bsha asha je clk limit retention_ms recov accounts =
    (if limit < 1 \<or> limit > 100000 then Inl (ValueError ''resolution ledger limit must be in [1, 100000]'')
     else if retention_ms < 1 then Inl (ValueError ''resolution retention must be positive'')
     else res_map (\<lambda>validated.
       let g = fresh_registry clk limit retention_ms validated in
       if rec_status recov = JS_HEALTHY then
         res_bind (case rec_checkpoint recov of None \<Rightarrow> Inr g | Some cp \<Rightarrow> restore_checkpoint cp g) (\<lambda>g1.
         res_bind (apply_records (rec_records recov) g1) (\<lambda>g2.
         res_bind (apply_publication bsha asha je clk validated g2) (\<lambda>g3.
         mark_recovered_attempts_uncertain je clk (rec_last_sequence recov) g3)))
       else Inr (fold (remember_account_without_journal bsha asha) validated g))
       (res_mapM ProviderAccount_validate accounts))"

lemma committed_Inr [checked]: "committed p = Inr s \<longleftrightarrow> (\<exists>x. p = (Inr x, s))"
  by (cases p) (auto simp: committed_def res_map_Inr)

end
