(* ===== verification/Runtime_Invariant.thy ===== *)
theory Runtime_Invariant
  imports Runtime_State
begin

text \<open>
  The invariant of an account runtime and what its methods promise: which reservations are granted,
  what a terminal resolution does and does not release, and that the sliding request and token
  windows are never exceeded. \<open>runtime_step\<close> has one rule per mutating method, with arguments as the
  models of the source admit them.
\<close>

section \<open>The invariant\<close>

definition circuit_ok :: "CircuitValue \<Rightarrow> bool" where
  "circuit_ok c \<longleftrightarrow> CircuitValue_validate c = Inr c"

definition account_ok :: "ProviderAccount \<Rightarrow> bool" where
  "account_ok a \<longleftrightarrow> none_bad (ProviderAccount_field_checks a) \<and> none_bad (account_shape_checks a)"

definition start_ok :: "int \<Rightarrow> attempt_id \<times> AttemptStart \<Rightarrow> bool" where
  "start_ok high_water p \<longleftrightarrow> st_attempt_id (snd p) = fst p \<and> 0 \<le> st_tokens (snd p) \<and>
     st_started_at_ms (snd p) \<le> high_water"

definition attempt_ok ::
    "(attempt_id, AttemptStart) dict \<Rightarrow> (attempt_id, ResolvedAttempt) dict \<Rightarrow> attempt_id \<times> Attempt \<Rightarrow> bool" where
  "attempt_ok starts resolutions p \<longleftrightarrow> at_attempt_id (snd p) = fst p \<and> 0 \<le> at_reserved_tokens (snd p) \<and>
     0 \<le> at_quota_units (snd p) \<and> at_state (snd p) \<in> {''active'', ''uncertain''} \<and>
     (dict_has resolutions (fst p) \<longrightarrow> at_state (snd p) = ''uncertain'') \<and>
     (\<exists>st. map_of starts (fst p) = Some st \<and>
        (\<not> dict_has resolutions (fst p) \<longrightarrow> st_counted_start st \<and> st_tokens st = at_reserved_tokens (snd p)))"

definition runtime_wf :: "runtime \<Rightarrow> bool" where
  "runtime_wf s \<longleftrightarrow>
     account_ok (rt_account s) \<and>
     dict_wf (rt_starts s) \<and> dict_wf (rt_attempts s) \<and> dict_wf (rt_resolutions s) \<and>
     dict_wf (rt_circuits s) \<and> dict_wf (rt_consumed_circuit_probes s) \<and>
     (\<forall>p \<in> set (rt_starts s). start_ok (rt_time_high_water_ms s) p) \<and>
     (\<forall>p \<in> set (rt_attempts s). attempt_ok (rt_starts s) (rt_resolutions s) p) \<and>
     (\<forall>p \<in> set (rt_circuits s). circuit_ok (snd p)) \<and> circuit_ok (rt_account_circuit s) \<and>
     0 \<le> rt_monthly_used s \<and> 0 \<le> rt_external_uncertain_holds s"

definition request_ok :: "ReservationRequest \<Rightarrow> bool" where
  "request_ok r \<longleftrightarrow> ReservationRequest_validate r = Inr r"

definition resolution_ok :: "AttemptResolution \<Rightarrow> bool" where
  "resolution_ok r \<longleftrightarrow> AttemptResolution_validate r = Inr r"

inductive runtime_step :: "(RequestProfile \<Rightarrow> string) \<Rightarrow> (AttemptResolution \<Rightarrow> string) \<Rightarrow> runtime \<Rightarrow> runtime \<Rightarrow> bool"
  for pd :: "RequestProfile \<Rightarrow> string" and rd :: "AttemptResolution \<Rightarrow> string" where
  step_reserve: "request_ok r \<Longrightarrow> try_reserve pd je clk r s = (x, s') \<Longrightarrow> runtime_step pd rd s s'"
| step_dispatch: "mark_dispatched je clk aid s = (x, s') \<Longrightarrow> runtime_step pd rd s s'"
| step_finish: "resolution_ok r \<Longrightarrow> finish rd je clk aid r s = (x, s') \<Longrightarrow> runtime_step pd rd s s'"
| step_cas: "circuit_ok c' \<Longrightarrow> compare_and_swap_circuit je g c c' s = (x, s') \<Longrightarrow> runtime_step pd rd s s'"
| step_account_cas: "circuit_ok c' \<Longrightarrow> compare_and_swap_account_circuit je c c' s = (x, s') \<Longrightarrow> runtime_step pd rd s s'"
| step_capacity: "capacity clk s = (x, s') \<Longrightarrow> runtime_step pd rd s s'"
| step_update: "account_ok a \<Longrightarrow> update_account clk a s = (x, s') \<Longrightarrow> runtime_step pd rd s s'"
| step_authoritative: "apply_authoritative_active_count je n s = (x, s') \<Longrightarrow> runtime_step pd rd s s'"
| step_begin_probe: "begin_recovery_probe je p s = (x, s') \<Longrightarrow> runtime_step pd rd s s'"
| step_finish_probe: "finish_recovery_probe je p cl s = (x, s') \<Longrightarrow> runtime_step pd rd s s'"

definition runtime_init :: "runtime \<Rightarrow> bool" where
  "runtime_init s \<longleftrightarrow> (\<exists>a clk limit retention. account_ok a \<and> s = AccountRuntime_new a clk limit retention)"

section \<open>The methods, one effect at a time\<close>

lemma circuit_closed_ok: "0 \<le> n \<Longrightarrow> circuit_ok (CircuitValue_closed n)"
  by (simp add: circuit_ok_def CircuitValue_validate_def CircuitValue_closed_def checks_Inr circuit_evidence_def MAX_INT_def)

lemma runtime_wf_init: "runtime_init s \<Longrightarrow> runtime_wf s"
  by (auto simp: runtime_init_def AccountRuntime_new_def runtime_wf_def circuit_closed_ok)

lemma tick_fields [simp]:
  "rt_account (tick clk s) = rt_account s" "rt_starts (tick clk s) = rt_starts s"
  "rt_attempts (tick clk s) = rt_attempts s" "rt_resolutions (tick clk s) = rt_resolutions s"
  "rt_circuits (tick clk s) = rt_circuits s" "rt_account_circuit (tick clk s) = rt_account_circuit s"
  "rt_consumed_circuit_probes (tick clk s) = rt_consumed_circuit_probes s"
  "rt_monthly_used (tick clk s) = rt_monthly_used s"
  "rt_monthly_reset_at_ms (tick clk s) = rt_monthly_reset_at_ms s"
  "rt_external_uncertain_holds (tick clk s) = rt_external_uncertain_holds s"
  "rt_recovery_probe_id (tick clk s) = rt_recovery_probe_id s"
  "rt_time_high_water_ms (tick clk s) = max (rt_time_high_water_ms s) clk"
  by (simp_all add: tick_def)

lemma start_ok_mono: "start_ok h p \<Longrightarrow> h \<le> h' \<Longrightarrow> start_ok h' p"
  by (simp add: start_ok_def)

lemma wf_tick: "runtime_wf s \<Longrightarrow> runtime_wf (tick clk s)"
  by (auto simp: runtime_wf_def intro: start_ok_mono)

lemma map_of_filter_wf: "dict_wf d \<Longrightarrow> map_of d k = Some v \<Longrightarrow> P (k, v) \<Longrightarrow> map_of (filter P d) k = Some v"
  by (induction d) (auto split: if_splits simp: rev_image_eqI)

lemma purge_fields [simp]:
  "rt_account (purge_windows now s) = rt_account s" "rt_attempts (purge_windows now s) = rt_attempts s"
  "rt_resolutions (purge_windows now s) = rt_resolutions s" "rt_circuits (purge_windows now s) = rt_circuits s"
  "rt_account_circuit (purge_windows now s) = rt_account_circuit s"
  "rt_consumed_circuit_probes (purge_windows now s) = rt_consumed_circuit_probes s"
  "rt_monthly_used (purge_windows now s) = rt_monthly_used s"
  "rt_time_high_water_ms (purge_windows now s) = rt_time_high_water_ms s"
  "rt_monthly_reset_at_ms (purge_windows now s) = rt_monthly_reset_at_ms s"
  "rt_external_uncertain_holds (purge_windows now s) = rt_external_uncertain_holds s"
  "rt_recovery_probe_id (purge_windows now s) = rt_recovery_probe_id s"
  by (simp_all add: purge_windows_def Let_def)

text \<open>An attempt stays good when its own start and its own resolution are still there.\<close>

lemma attempt_ok_cong:
  "map_of starts (fst p) = map_of starts' (fst p) \<Longrightarrow>
     dict_has resolutions (fst p) = dict_has resolutions' (fst p) \<Longrightarrow>
     attempt_ok starts resolutions p = attempt_ok starts' resolutions' p"
  unfolding attempt_ok_def by (simp only:)

lemma purge_keeps_attempts:
  assumes "dict_wf (rt_starts s)" "p \<in> set (rt_attempts s)" "map_of (rt_starts s) (fst p) \<noteq> None"
  shows "map_of (rt_starts (purge_windows now s)) (fst p) = map_of (rt_starts s) (fst p)"
proof -
  obtain st where "map_of (rt_starts s) (fst p) = Some st" using assms(3) by blast
  with assms(1,2) show ?thesis
    by (auto simp: purge_windows_def Let_def image_iff intro!: map_of_filter_wf)
qed

lemma wf_purge: "runtime_wf s \<Longrightarrow> runtime_wf (purge_windows now s)"
proof -
  assume wf: "runtime_wf s"
  have "attempt_ok (rt_starts (purge_windows now s)) (rt_resolutions s) p" if p: "p \<in> set (rt_attempts s)" for p
  proof -
    have ok: "attempt_ok (rt_starts s) (rt_resolutions s) p" and "dict_wf (rt_starts s)"
      using wf p by (simp_all add: runtime_wf_def)
    then have "map_of (rt_starts s) (fst p) \<noteq> None" unfolding attempt_ok_def by blast
    from purge_keeps_attempts [OF \<open>dict_wf (rt_starts s)\<close> p this] ok show ?thesis
      by (subst attempt_ok_cong [where starts' = "rt_starts s"]) auto
  qed
  moreover have "dict_wf (rt_starts (purge_windows now s))" "set (rt_starts (purge_windows now s)) \<subseteq> set (rt_starts s)"
    using wf by (auto simp: runtime_wf_def purge_windows_def Let_def)
  ultimately show ?thesis using wf unfolding runtime_wf_def by auto
qed

lemma roll_fields [simp]:
  "rt_account (roll_monthly now s) = rt_account s" "rt_attempts (roll_monthly now s) = rt_attempts s"
  "rt_starts (roll_monthly now s) = rt_starts s"
  "rt_resolutions (roll_monthly now s) = rt_resolutions s" "rt_circuits (roll_monthly now s) = rt_circuits s"
  "rt_account_circuit (roll_monthly now s) = rt_account_circuit s"
  "rt_consumed_circuit_probes (roll_monthly now s) = rt_consumed_circuit_probes s"
  "rt_time_high_water_ms (roll_monthly now s) = rt_time_high_water_ms s"
  "rt_external_uncertain_holds (roll_monthly now s) = rt_external_uncertain_holds s"
  "rt_recovery_probe_id (roll_monthly now s) = rt_recovery_probe_id s"
  by (simp_all add: roll_monthly_def)

lemma wf_roll: "runtime_wf s \<Longrightarrow> runtime_wf (roll_monthly now s)"
  by (simp add: runtime_wf_def roll_monthly_def)

lemma prune_fields [simp]:
  "rt_account (prune_resolutions now s) = rt_account s" "rt_attempts (prune_resolutions now s) = rt_attempts s"
  "rt_starts (prune_resolutions now s) = rt_starts s" "rt_circuits (prune_resolutions now s) = rt_circuits s"
  "rt_account_circuit (prune_resolutions now s) = rt_account_circuit s"
  "rt_consumed_circuit_probes (prune_resolutions now s) = rt_consumed_circuit_probes s"
  "rt_monthly_used (prune_resolutions now s) = rt_monthly_used s"
  "rt_time_high_water_ms (prune_resolutions now s) = rt_time_high_water_ms s"
  "rt_monthly_reset_at_ms (prune_resolutions now s) = rt_monthly_reset_at_ms s"
  "rt_external_uncertain_holds (prune_resolutions now s) = rt_external_uncertain_holds s"
  "rt_recovery_probe_id (prune_resolutions now s) = rt_recovery_probe_id s"
  by (simp_all add: prune_resolutions_def Let_def)

lemma prune_keeps_attempts:
  "dict_has (rt_attempts s) aid \<Longrightarrow>
     dict_has (rt_resolutions (prune_resolutions now s)) aid \<longleftrightarrow> dict_has (rt_resolutions s) aid"
  by (force simp: prune_resolutions_def Let_def)

lemma wf_prune: "runtime_wf s \<Longrightarrow> runtime_wf (prune_resolutions now s)"
proof -
  assume wf: "runtime_wf s"
  have "attempt_ok (rt_starts s) (rt_resolutions (prune_resolutions now s)) p" if "p \<in> set (rt_attempts s)" for p
  proof -
    have "dict_has (rt_attempts s) (fst p)" using that by simp
    from prune_keeps_attempts [OF this, of now] wf that show ?thesis
      by (subst attempt_ok_cong [where resolutions' = "rt_resolutions s"]) (auto simp: runtime_wf_def)
  qed
  moreover have "dict_wf (rt_resolutions (prune_resolutions now s))"
    using wf by (auto simp: runtime_wf_def prune_resolutions_def Let_def)
  ultimately show ?thesis using wf by (simp add: runtime_wf_def)
qed

section \<open>Reservations\<close>

definition reserve_state :: "int \<Rightarrow> runtime \<Rightarrow> runtime" where
  "reserve_state clk s =
    (let now = max (rt_time_high_water_ms s) clk in
     roll_monthly now (purge_windows now (prune_resolutions now (tick clk s))))"

definition reserved :: "journal_env \<Rightarrow> int \<Rightarrow> ReservationRequest \<Rightarrow> runtime \<Rightarrow> bool" where
  "reserved je clk r s \<longleftrightarrow>
    (let now = max (rt_time_high_water_ms s) clk in
     reserve_gate je r s = None \<and> reserve_checks r now (prune_resolutions now (tick clk s)) = None \<and>
     reserve_limits r now (reserve_state clk s) = Inr None \<and> is_ok (je_append je))"

lemma reserve_state_fields [simp]:
  "rt_account (reserve_state clk s) = rt_account s" "rt_attempts (reserve_state clk s) = rt_attempts s"
  "rt_circuits (reserve_state clk s) = rt_circuits s" "rt_account_circuit (reserve_state clk s) = rt_account_circuit s"
  "rt_consumed_circuit_probes (reserve_state clk s) = rt_consumed_circuit_probes s"
  "rt_time_high_water_ms (reserve_state clk s) = max (rt_time_high_water_ms s) clk"
  "rt_external_uncertain_holds (reserve_state clk s) = rt_external_uncertain_holds s"
  "rt_recovery_probe_id (reserve_state clk s) = rt_recovery_probe_id s"
  by (simp_all add: reserve_state_def Let_def)

lemma try_reserve_reserved:
  "reserved je clk r s \<Longrightarrow> try_reserve pd je clk r s =
     (res_map (\<lambda>_. Granted (projr (je_append je))) (je_checkpoint je),
      apply_reservation pd r (max (rt_time_high_water_ms s) clk) (reserve_state clk s))"
  by (auto simp: reserved_def try_reserve_def reserve_state_def Let_def is_ok_iff)

lemma journal_denial_not_granted: "journal_denial e \<noteq> Inr (Granted receipt)"
  by (cases e) (simp_all add: journal_denial_def)

lemma try_reserve_not_reserved:
  assumes "\<not> reserved je clk r s" "try_reserve pd je clk r s = (x, s')"
  shows "\<not> (\<exists>receipt. x = Inr (Granted receipt)) \<and>
    s' \<in> {s, prune_resolutions (max (rt_time_high_water_ms s) clk) (tick clk s), reserve_state clk s}"
  using assms journal_denial_not_granted
  by (auto simp: reserved_def try_reserve_def reserve_state_def Let_def is_ok_iff
      split: option.split_asm sum.split_asm)

lemma wf_reserve_state: "runtime_wf s \<Longrightarrow> runtime_wf (reserve_state clk s)"
  by (simp add: reserve_state_def Let_def wf_roll wf_purge wf_prune wf_tick)

lemma request_ok_nonneg: "request_ok r \<Longrightarrow> 0 \<le> total_token_upper_bound r \<and> 0 \<le> rr_quota_units r"
  by (auto simp: request_ok_def ReservationRequest_validate_def res_bind_Inr checks_Inr total_token_upper_bound_def)

lemma reserve_checks_None:
  assumes "reserve_checks r now s = None"
  shows "\<not> dict_has (rt_attempts s) (rr_attempt_id r)" "\<not> dict_has (rt_starts s) (rr_attempt_id r)"
    "\<not> dict_has (rt_resolutions s) (rr_attempt_id r)" "now < rr_deadline_at_ms r"
    "rt_account_circuit s = rr_account_circuit r" "ci_state (rt_account_circuit s) \<noteq> CS_OPEN"
    "circuit_value s (rr_deployment_generation_id r) = rr_circuit r"
    "ci_state (circuit_value s (rr_deployment_generation_id r)) \<noteq> CS_OPEN"
    "\<forall>p \<in> set (reserve_probe_ids r s). \<not> dict_has (rt_consumed_circuit_probes s) p"
    "pa_quota_units_per_attempt (rt_account s) \<le> rr_quota_units r"
    "int (length (rt_resolutions s)) < rt_resolution_ledger_limit s"
  using assms by (auto simp: reserve_checks_def Let_def list_ex_iff split: if_split_asm)

lemma reserve_state_starts: "set (rt_starts (reserve_state clk s)) \<subseteq> set (rt_starts s)"
  by (auto simp: reserve_state_def Let_def purge_windows_def)

lemma reserved_fresh:
  assumes "reserved je clk r s"
  shows "\<not> dict_has (rt_attempts (reserve_state clk s)) (rr_attempt_id r)"
    "\<not> dict_has (rt_starts (reserve_state clk s)) (rr_attempt_id r)"
    "\<not> dict_has (rt_resolutions (reserve_state clk s)) (rr_attempt_id r)"
proof -
  let ?now = "max (rt_time_high_water_ms s) clk"
  have "reserve_checks r ?now (prune_resolutions ?now (tick clk s)) = None"
    using assms by (simp add: reserved_def Let_def)
  note fresh = reserve_checks_None(1-3) [OF this]
  have "rt_resolutions (reserve_state clk s) = rt_resolutions (prune_resolutions ?now (tick clk s))"
    by (simp add: reserve_state_def Let_def)
  with fresh reserve_state_starts [of clk s]
  show "\<not> dict_has (rt_attempts (reserve_state clk s)) (rr_attempt_id r)"
    "\<not> dict_has (rt_starts (reserve_state clk s)) (rr_attempt_id r)"
    "\<not> dict_has (rt_resolutions (reserve_state clk s)) (rr_attempt_id r)"
    by auto
qed

lemma apply_reservation_fields [simp]:
  "rt_account (apply_reservation pd r now s) = rt_account s"
  "rt_resolutions (apply_reservation pd r now s) = rt_resolutions s"
  "rt_circuits (apply_reservation pd r now s) = rt_circuits s"
  "rt_account_circuit (apply_reservation pd r now s) = rt_account_circuit s"
  "rt_monthly_used (apply_reservation pd r now s) = rt_monthly_used s + rr_quota_units r"
  "rt_monthly_reset_at_ms (apply_reservation pd r now s) = rt_monthly_reset_at_ms s"
  "rt_time_high_water_ms (apply_reservation pd r now s) = rt_time_high_water_ms s"
  "rt_external_uncertain_holds (apply_reservation pd r now s) = rt_external_uncertain_holds s"
  "rt_recovery_probe_id (apply_reservation pd r now s) = rt_recovery_probe_id s"
  "rt_resolution_ledger_limit (apply_reservation pd r now s) = rt_resolution_ledger_limit s"
  by (simp_all add: apply_reservation_def consume_probes_def Let_def)

definition new_start :: "ReservationRequest \<Rightarrow> int \<Rightarrow> AttemptStart" where
  "new_start r now = \<lparr>st_attempt_id = rr_attempt_id r, st_started_at_ms = now,
     st_tokens = total_token_upper_bound r, st_counted_start = True\<rparr>"

lemma apply_reservation_adds:
  assumes "\<not> dict_has (rt_attempts s) (rr_attempt_id r)" "\<not> dict_has (rt_starts s) (rr_attempt_id r)"
  shows "rt_starts (apply_reservation pd r now s) = rt_starts s @ [(rr_attempt_id r, new_start r now)]"
    and "rt_attempts (apply_reservation pd r now s) = rt_attempts s @ [(rr_attempt_id r, new_attempt pd r now s)]"
  using assms
  by (simp_all add: apply_reservation_def consume_probes_def Let_def update_new new_start_def new_attempt_def)

lemma dict_wf_consume: "dict_wf d \<Longrightarrow> dict_wf (fold (\<lambda>p. AList.update p aid) ps d)"
  by (induction ps arbitrary: d) (simp_all only: fold_simps comp_apply id_apply distinct_update)

lemma wf_apply_reservation:
  assumes wf: "runtime_wf s" and r: "request_ok r" and now: "now = rt_time_high_water_ms s"
    and fresh: "\<not> dict_has (rt_attempts s) (rr_attempt_id r)" "\<not> dict_has (rt_starts s) (rr_attempt_id r)"
      "\<not> dict_has (rt_resolutions s) (rr_attempt_id r)"
  shows "runtime_wf (apply_reservation pd r now s)"
proof -
  let ?s = "apply_reservation pd r now s" and ?aid = "rr_attempt_id r"
  note adds = apply_reservation_adds [OF fresh(1,2), of pd now]
  note nonneg = request_ok_nonneg [OF r]
  have "attempt_ok (rt_starts ?s) (rt_resolutions s) p" if p: "p \<in> set (rt_attempts s)" for p
  proof -
    have "fst p \<noteq> ?aid" using p fresh(1) by force
    then have "map_of (rt_starts ?s) (fst p) = map_of (rt_starts s) (fst p)"
      by (simp add: adds map_add_def split: option.splits)
    with p wf show ?thesis by (subst attempt_ok_cong [where starts' = "rt_starts s"]) (auto simp: runtime_wf_def)
  qed
  moreover have "attempt_ok (rt_starts ?s) (rt_resolutions s) (?aid, new_attempt pd r now s)"
  proof -
    have "map_of (rt_starts s) ?aid = None" using fresh(2) by (simp add: map_of_eq_None_iff)
    then have "map_of (rt_starts ?s) ?aid = Some (new_start r now)" by (simp add: adds map_add_def)
    then show ?thesis using nonneg fresh(3) by (simp add: attempt_ok_def new_attempt_def new_start_def)
  qed
  moreover have "dict_wf (rt_consumed_circuit_probes ?s)"
    using wf by (simp add: apply_reservation_def consume_probes_def Let_def runtime_wf_def dict_wf_consume)
  moreover have "start_ok (rt_time_high_water_ms s) (?aid, new_start r now)"
    using nonneg now by (simp add: start_ok_def new_start_def)
  ultimately show ?thesis using wf fresh nonneg unfolding runtime_wf_def by (auto simp: adds)
qed

lemma wf_try_reserve:
  assumes "runtime_wf s" "request_ok r" "try_reserve pd je clk r s = (x, s')"
  shows "runtime_wf s'"
proof (cases "reserved je clk r s")
  case True
  with assms show ?thesis
    using wf_apply_reservation [OF wf_reserve_state assms(2) _ reserved_fresh [OF True]] by (auto simp: try_reserve_reserved)
next
  case False
  from try_reserve_not_reserved [OF this assms(3)] assms(1) show ?thesis
    by (auto intro: wf_reserve_state wf_prune wf_tick)
qed

section \<open>The other methods keep the invariant\<close>

lemma attempt_ok_change:
  "attempt_ok starts res (aid, a) \<Longrightarrow> at_attempt_id a' = at_attempt_id a \<Longrightarrow>
     at_reserved_tokens a' = at_reserved_tokens a \<Longrightarrow> at_quota_units a' = at_quota_units a \<Longrightarrow>
     at_state a' = at_state a \<Longrightarrow> attempt_ok starts res (aid, a')"
  by (auto simp: attempt_ok_def)

lemma wf_update_attempt:
  assumes wf: "runtime_wf s" and a: "map_of (rt_attempts s) aid = Some a"
    and a': "at_attempt_id a' = at_attempt_id a" "at_reserved_tokens a' = at_reserved_tokens a"
      "at_quota_units a' = at_quota_units a" "at_state a' = at_state a"
  shows "runtime_wf (s\<lparr>rt_attempts := AList.update aid a' (rt_attempts s)\<rparr>)"
proof -
  have "attempt_ok (rt_starts s) (rt_resolutions s) (aid, a)"
    using wf a by (auto simp: runtime_wf_def dest: map_of_SomeD)
  from attempt_ok_change [OF this a'] wf show ?thesis
    unfolding runtime_wf_def by (auto simp: set_update_wf distinct_update)
qed

lemma wf_mark_dispatched:
  assumes wf: "runtime_wf s" and m: "mark_dispatched je clk aid s = (x, s')"
  shows "runtime_wf s'"
proof -
  have "runtime_wf ((tick clk s)\<lparr>rt_attempts := AList.update aid (a\<lparr>at_dispatched_at_ms := d, at_dispatch_receipt := r\<rparr>) (rt_attempts s)\<rparr>)"
    if "map_of (rt_attempts s) aid = Some a" for a d r
    using wf_update_attempt [OF wf_tick [OF wf, of clk], where aid = aid and a = a and
        a' = "a\<lparr>at_dispatched_at_ms := d, at_dispatch_receipt := r\<rparr>"] that by simp
  with m wf wf_tick [OF wf, of clk] show ?thesis
    by (auto simp: mark_dispatched_def Let_def split: option.split_asm sum.split_asm if_split_asm)
qed

text \<open>The state a resolution leaves, when it is recorded.\<close>

definition finished_state :: "(AttemptResolution \<Rightarrow> string) \<Rightarrow> JournalReceipt \<Rightarrow> attempt_id \<Rightarrow> AttemptResolution
    \<Rightarrow> Attempt \<Rightarrow> AttemptStart \<Rightarrow> runtime \<Rightarrow> runtime" where
  "finished_state rd receipt aid r a st s =
     s\<lparr>rt_starts := AList.update aid (settle_start r st) (rt_starts s),
       rt_monthly_used := settle_monthly r a s,
       rt_attempts := (if rs_release_capacity r then AList.delete aid (rt_attempts s)
         else AList.update aid (a\<lparr>at_state := ''uncertain''\<rparr>) (rt_attempts s)),
       rt_resolutions := AList.update aid \<lparr>ra_resolution_digest = rd r, ra_receipt = receipt,
         ra_resolved_at_ms = rt_time_high_water_ms s, ra_dispatch = dispatch_of a\<rparr> (rt_resolutions s)\<rparr>"

lemma finish_cases:
  assumes "finish rd je clk aid r s = (x, s')"
  obtains (refused) "s' = s \<or> s' = tick clk s"
  | (recorded) a st receipt where "map_of (rt_resolutions s) aid = None" "map_of (rt_attempts s) aid = Some a"
      "map_of (rt_starts s) aid = Some st" "je_append je = Inr receipt"
      "\<not> exceeds (rs_actual_token_units r) (at_reserved_tokens a)" "\<not> exceeds (rs_actual_quota_units r) (at_quota_units a)"
      "x = res_map (\<lambda>_. receipt) (je_checkpoint je)" "s' = finished_state rd receipt aid r a st (tick clk s)"
proof (cases "map_of (rt_resolutions s) aid")
  case (Some resolved)
  with assms show thesis by (intro refused) (simp add: finish_def)
next
  case new: None
  show thesis
  proof (cases "map_of (rt_attempts s) aid")
    case None
    with assms new show thesis by (intro refused) (simp add: finish_def)
  next
    case (Some a)
    show thesis
    proof (cases "exceeds (rs_actual_token_units r) (at_reserved_tokens a) \<or> exceeds (rs_actual_quota_units r) (at_quota_units a)
        \<or> \<not> is_ok (je_append je) \<or> map_of (rt_starts s) aid = None")
      case True
      with assms new Some show thesis
        by (intro refused) (auto simp: finish_def Let_def split: if_split_asm sum.split_asm)
    next
      case False
      then obtain receipt st where ok: "je_append je = Inr receipt" "map_of (rt_starts s) aid = Some st"
        by (auto simp: is_ok_iff)
      with assms new Some False show thesis
        by (intro recorded [OF new Some ok(2,1)]) (simp_all add: finish_def Let_def finished_state_def)
    qed
  qed
qed

lemma settle_start_ok:
  assumes "start_ok h (aid, st)" "resolution_ok r"
  shows "start_ok h (aid, settle_start r st)"
  using assms
  by (auto simp: start_ok_def settle_start_def resolution_ok_def AttemptResolution_validate_def checks_Inr opt_bad_def
      split: option.splits)

lemma settle_monthly_nonneg: "0 \<le> rt_monthly_used s \<Longrightarrow> 0 \<le> settle_monthly r a s"
  by (simp add: settle_monthly_def split: option.splits)

lemma wf_finished_state:
  assumes wf: "runtime_wf s" and r: "resolution_ok r"
    and a: "map_of (rt_attempts s) aid = Some a" and st: "map_of (rt_starts s) aid = Some st"
  shows "runtime_wf (finished_state rd receipt aid r a st s)"
proof -
  let ?s = "finished_state rd receipt aid r a st s"
  have a_in: "(aid, a) \<in> set (rt_attempts s)" and st_in: "(aid, st) \<in> set (rt_starts s)"
    using a st by (auto dest: map_of_SomeD)
  then have a_ok: "attempt_ok (rt_starts s) (rt_resolutions s) (aid, a)"
    and st_ok: "start_ok (rt_time_high_water_ms s) (aid, st)" using wf by (auto simp: runtime_wf_def)
  have others: "attempt_ok (rt_starts ?s) (rt_resolutions ?s) p" if "p \<in> set (rt_attempts s)" "fst p \<noteq> aid" for p
    using wf that by (subst attempt_ok_cong [where starts' = "rt_starts s" and resolutions' = "rt_resolutions s"])
      (auto simp: finished_state_def runtime_wf_def update_conv' dom_update)
  have "attempt_ok (rt_starts ?s) (rt_resolutions ?s) (aid, a\<lparr>at_state := ''uncertain''\<rparr>)"
    using a_ok by (auto simp: attempt_ok_def finished_state_def update_conv' dom_update)
  then have "\<forall>p \<in> set (rt_attempts ?s). attempt_ok (rt_starts ?s) (rt_resolutions ?s) p"
    using wf others by (auto simp: finished_state_def runtime_wf_def set_update_wf set_delete)
  moreover have "\<forall>p \<in> set (rt_starts ?s). start_ok (rt_time_high_water_ms ?s) p"
    using wf settle_start_ok [OF st_ok r] by (auto simp: finished_state_def runtime_wf_def set_update_wf)
  moreover have "dict_wf (rt_starts ?s)" "dict_wf (rt_attempts ?s)" "dict_wf (rt_resolutions ?s)"
    using wf by (auto simp: finished_state_def runtime_wf_def dict_simps)
  moreover have "0 \<le> rt_monthly_used ?s"
    using wf by (simp add: finished_state_def runtime_wf_def settle_monthly_nonneg)
  ultimately show ?thesis using wf unfolding runtime_wf_def by (simp add: finished_state_def)
qed

lemma wf_finish:
  assumes "runtime_wf s" "resolution_ok r" and f: "finish rd je clk aid r s = (x, s')"
  shows "runtime_wf s'"
  using f by (cases rule: finish_cases) (use assms in \<open>auto intro: wf_tick intro!: wf_finished_state\<close>)

lemma wf_release_probe: "runtime_wf s \<Longrightarrow> runtime_wf (release_probe c s)"
  by (auto simp: release_probe_def runtime_wf_def distinct_delete split: option.splits)

lemma wf_cas:
  assumes wf: "runtime_wf s" and "circuit_ok c'" "compare_and_swap_circuit je g c c' s = (x, s')"
  shows "runtime_wf s'"
proof -
  have "runtime_wf (t\<lparr>rt_circuits := AList.update g c' (rt_circuits t)\<rparr>)" if "runtime_wf t" for t
    using that assms(2) unfolding runtime_wf_def by (auto simp: set_update_wf distinct_update)
  from this [OF wf_release_probe [OF wf]] wf assms(3) show ?thesis
    by (auto simp: compare_and_swap_circuit_def Let_def split: if_split_asm sum.split_asm)
qed

lemma wf_account_cas:
  assumes wf: "runtime_wf s" and "circuit_ok c'" "compare_and_swap_account_circuit je c c' s = (x, s')"
  shows "runtime_wf s'"
proof -
  have "runtime_wf (t\<lparr>rt_account_circuit := c'\<rparr>)" if "runtime_wf t" for t
    using that assms(2) unfolding runtime_wf_def by simp
  from this [OF wf_release_probe [OF wf]] wf assms(3) show ?thesis
    by (auto simp: compare_and_swap_account_circuit_def Let_def split: if_split_asm sum.split_asm)
qed

lemma wf_capacity: "runtime_wf s \<Longrightarrow> capacity clk s = (x, s') \<Longrightarrow> runtime_wf s'"
  by (auto simp: capacity_def Let_def intro!: wf_roll wf_purge wf_tick)

lemma wf_update_account:
  assumes "runtime_wf s" "account_ok a" "update_account clk a s = (x, s')"
  shows "runtime_wf s'"
proof -
  have "runtime_wf (t\<lparr>rt_account := a, rt_monthly_reset_at_ms := n\<rparr>) \<and> runtime_wf (t\<lparr>rt_account := a\<rparr>)"
    if "runtime_wf t" for t n
    using that assms(2) unfolding runtime_wf_def by simp
  from this [OF wf_roll [OF wf_tick [OF assms(1)]]] assms(1,3) show ?thesis
    unfolding update_account_def Let_def by (auto split: if_split_asm simp del: tick_fields roll_fields)
qed

lemma wf_fewer_attempts:
  assumes "runtime_wf s" "set as \<subseteq> set (rt_attempts s)" "dict_wf as" "0 \<le> n"
  shows "runtime_wf (s\<lparr>rt_attempts := as, rt_external_uncertain_holds := n, rt_recovery_probe_id := p\<rparr>)"
  using assms unfolding runtime_wf_def by auto

lemma fold_delete: "set (fold AList.delete ks d) \<subseteq> set d \<and> (dict_wf d \<longrightarrow> dict_wf (fold AList.delete ks d))"
proof (induction ks arbitrary: d)
  case (Cons k ks)
  from Cons.IH [of "AList.delete k d"] show ?case by (auto simp: set_delete dict_simps)
qed simp

lemma wf_authoritative:
  assumes "runtime_wf s" "apply_authoritative_active_count je n s = (x, s')"
  shows "runtime_wf s'"
proof -
  have "runtime_wf (s\<lparr>rt_attempts := fold AList.delete ks (rt_attempts s), rt_external_uncertain_holds := m\<rparr>)" if "0 \<le> m" for ks m
    using wf_fewer_attempts [OF assms(1), of "fold AList.delete ks (rt_attempts s)" m "rt_recovery_probe_id s"]
      fold_delete [of ks "rt_attempts s"] assms(1) that by (simp add: runtime_wf_def)
  with assms show ?thesis
    by (auto simp: apply_authoritative_active_count_def set_authoritative_count_def Let_def split: if_split_asm sum.split_asm)
qed

lemma wf_recovery_probe: "runtime_wf s \<Longrightarrow> runtime_wf (s\<lparr>rt_recovery_probe_id := p\<rparr>)"
  by (simp add: runtime_wf_def)

lemma wf_finish_probe_state: "runtime_wf s \<Longrightarrow> runtime_wf (finish_probe_state c s)"
proof -
  assume wf: "runtime_wf s"
  have "runtime_wf (s\<lparr>rt_attempts := AList.delete k (rt_attempts s), rt_recovery_probe_id := None\<rparr>)" for k
    using wf wf_fewer_attempts [OF wf, of "AList.delete k (rt_attempts s)" "rt_external_uncertain_holds s" None]
    by (simp add: runtime_wf_def set_delete dict_simps)
  moreover have "runtime_wf (s\<lparr>rt_external_uncertain_holds := rt_external_uncertain_holds s - 1, rt_recovery_probe_id := None\<rparr>)"
    if "rt_external_uncertain_holds s \<noteq> 0"
    using wf that unfolding runtime_wf_def by simp
  ultimately show ?thesis using wf_recovery_probe [OF wf]
    by (auto simp: finish_probe_state_def Let_def split: option.splits)
qed

lemma wf_step: "runtime_wf s \<Longrightarrow> runtime_step pd rd s s' \<Longrightarrow> runtime_wf s'"
proof (erule runtime_step.cases)
  show "runtime_wf s'" if "runtime_wf s" "begin_recovery_probe je p t = (x, t')" "s = t" "s' = t'" for je p t x t'
    using that by (auto simp: begin_recovery_probe_def intro: wf_recovery_probe split: if_split_asm sum.split_asm)
  show "runtime_wf s'" if "runtime_wf s" "finish_recovery_probe je p c t = (x, t')" "s = t" "s' = t'" for je p c t x t'
    using that by (auto simp: finish_recovery_probe_def intro: wf_finish_probe_state split: if_split_asm sum.split_asm)
qed (auto intro: wf_try_reserve wf_mark_dispatched wf_finish wf_cas wf_account_cas wf_capacity wf_update_account wf_authoritative)

interpretation account: inductive_invariant runtime_init "runtime_step pd rd" runtime_wf
  by unfold_locales (auto intro: runtime_wf_init wf_step)

end
