(* ===== verification/Runtime_Promises.thy ===== *)
theory Runtime_Promises
  imports Runtime_Invariant
begin

text \<open>
  What the account runtime promises: a granted reservation is inside every limit, a slot is freed
  only by an explicit release, a resolution is final, the sliding windows are never exceeded,
  circuit epochs never decrease and a half-open probe admits one attempt.
\<close>

section \<open>Granted reservations\<close>

definition within_limits :: "runtime \<Rightarrow> bool" where
  "within_limits s \<longleftrightarrow>
    (let now = rt_time_high_water_ms s; a = rt_account s in
     list_all (\<lambda>limit. active_count s \<le> limit) (case enforced_max_in_flight a of Inr l \<Rightarrow> [l] | Inl _ \<Rightarrow> []) \<and>
     (case qd_value (pa_rpm_limit a) of Some v \<Rightarrow> qd_status (pa_rpm_limit a) = KNOWN \<longrightarrow> int (length (rpm_starts s now)) \<le> v | None \<Rightarrow> True) \<and>
     (case qd_value (pa_tpm_limit a) of Some v \<Rightarrow> qd_status (pa_tpm_limit a) = KNOWN \<longrightarrow>
        sum_list (map st_tokens (tpm_starts s now)) \<le> v | None \<Rightarrow> True) \<and>
     (case qd_value (pa_monthly_quota_units a) of Some v \<Rightarrow> qd_status (pa_monthly_quota_units a) = KNOWN \<longrightarrow>
        rt_monthly_used s \<le> v | None \<Rightarrow> True))"

definition admitted :: "ReservationRequest \<Rightarrow> runtime \<Rightarrow> bool" where
  "admitted r s \<longleftrightarrow>
    (\<exists>a. map_of (rt_attempts s) (rr_attempt_id r) = Some a \<and> at_state a = ''active'' \<and>
       at_reserved_tokens a = total_token_upper_bound r \<and> at_quota_units a = rr_quota_units r \<and>
       at_deadline_at_ms a = rr_deadline_at_ms r \<and> at_started_at_ms a = rt_time_high_water_ms s \<and>
       at_dispatched_at_ms a = None) \<and>
    pa_state (rt_account s) = Some AS_ACTIVE \<and> rt_time_high_water_ms s < rr_deadline_at_ms r \<and>
    rt_account_circuit s = rr_account_circuit r \<and> circuit_value s (rr_deployment_generation_id r) = rr_circuit r \<and>
    ci_state (rr_account_circuit r) \<noteq> CS_OPEN \<and> ci_state (rr_circuit r) \<noteq> CS_OPEN"

lemma granted_reserved:
  "try_reserve pd je clk r s = (Inr (Granted receipt), s') \<Longrightarrow>
     reserved je clk r s \<and> s' = apply_reservation pd r (max (rt_time_high_water_ms s) clk) (reserve_state clk s) \<and>
     je_append je = Inr receipt"
  using try_reserve_not_reserved [of je clk r s pd] try_reserve_reserved [of je clk r s pd]
  by (cases "reserved je clk r s"; cases "je_checkpoint je") (auto simp: reserved_def is_ok_iff Let_def)

lemma account_ok_windows:
  "account_ok a \<Longrightarrow> 0 < pa_rpm_window_seconds a \<and> 0 < pa_tpm_window_seconds a"
  by (simp add: account_ok_def ProviderAccount_field_checks_def)

lemma circuit_value_cong: "rt_circuits s = rt_circuits t \<Longrightarrow> circuit_value s g = circuit_value t g"
  by (simp add: circuit_value_def)

lemma reserved_admitted:
  assumes "reserved je clk r s"
  shows "admitted r (apply_reservation pd r (max (rt_time_high_water_ms s) clk) (reserve_state clk s))"
proof -
  let ?now = "max (rt_time_high_water_ms s) clk"
  have checks: "reserve_checks r ?now (prune_resolutions ?now (tick clk s)) = None"
    and gate: "reserve_gate je r s = None" using assms by (simp_all add: reserved_def Let_def)
  note c = reserve_checks_None [OF checks]
  have "map_of (rt_attempts (reserve_state clk s)) (rr_attempt_id r) = None"
    using c(1) by (simp add: map_of_eq_None_iff)
  then have "map_of (rt_attempts (apply_reservation pd r ?now (reserve_state clk s))) (rr_attempt_id r)
      = Some (new_attempt pd r ?now (reserve_state clk s))"
    by (simp add: apply_reservation_adds [OF reserved_fresh(1,2) [OF assms]] map_add_def)
  moreover have "pa_state (rt_account s) = Some AS_ACTIVE"
    using gate by (simp add: reserve_gate_def split: if_split_asm)
  ultimately show ?thesis
    using c by (simp add: admitted_def new_attempt_def circuit_value_def)
qed

lemma or_denial_None: "or_denial a b = Inr None \<longleftrightarrow> a = Inr None \<and> b = Inr None"
  by (auto simp: or_denial_def res_bind_Inr split: option.splits)

lemma known_value_Some: "qd_status q = KNOWN \<Longrightarrow> qd_value q = Some v \<Longrightarrow> known_value q = Inr (Some v)"
  by (simp add: known_value_def)

lemma reserved_within_limits:
  assumes acc: "account_ok (rt_account s)" and res: "reserved je clk r s"
  shows "within_limits (apply_reservation pd r (max (rt_time_high_water_ms s) clk) (reserve_state clk s))"
proof -
  let ?now = "max (rt_time_high_water_ms s) clk" and ?t = "reserve_state clk s" and ?a = "rt_account s"
  let ?s = "apply_reservation pd r ?now ?t"
  note adds = apply_reservation_adds [OF reserved_fresh(1,2) [OF res], of pd ?now]
  have lim: "reserve_limits r ?now ?t = Inr None" using res by (simp add: reserved_def Let_def)
  then obtain limit where limit: "enforced_max_in_flight ?a = Inr limit" "active_count ?t < limit"
    and rpm: "rpm_denial ?now ?t = Inr None" and tpm: "tpm_denial r ?now ?t = Inr None"
    and monthly: "monthly_denial r ?t = Inr None"
    by (auto simp: reserve_limits_def res_bind_Inr or_denial_None split: if_split_asm)
  have "active_count ?s = active_count ?t + 1" by (simp add: active_count_def adds)
  moreover have "rpm_starts ?s ?now = rpm_starts ?t ?now @ [new_start r ?now]"
    using account_ok_windows [OF acc] by (simp add: rpm_starts_def adds new_start_def)
  moreover have "int (length (rpm_starts ?t ?now)) < v"
    if "qd_status (pa_rpm_limit ?a) = KNOWN" "qd_value (pa_rpm_limit ?a) = Some v" for v
    using rpm that by (auto simp: rpm_denial_def known_value_Some Let_def split: if_split_asm)
  moreover have "tpm_starts ?s ?now = tpm_starts ?t ?now @ [new_start r ?now]"
    using account_ok_windows [OF acc] by (simp add: tpm_starts_def adds new_start_def)
  moreover have "sum_list (map st_tokens (tpm_starts ?t ?now)) + total_token_upper_bound r \<le> v"
    if "qd_status (pa_tpm_limit ?a) = KNOWN" "qd_value (pa_tpm_limit ?a) = Some v" for v
    using tpm that by (auto simp: tpm_denial_def known_value_Some Let_def res_map_Inr split: if_split_asm)
  moreover have "rt_monthly_used ?t + rr_quota_units r \<le> v"
    if "qd_status (pa_monthly_quota_units ?a) = KNOWN" "qd_value (pa_monthly_quota_units ?a) = Some v" for v
    using monthly that by (auto simp: monthly_denial_def known_value_Some res_map_Inr split: if_split_asm)
  ultimately show ?thesis
    using limit by (fastforce simp: within_limits_def Let_def new_start_def split: option.splits)
qed

text \<open>C1: when \<open>try_reserve\<close> grants, the attempt was not known before, is recorded as active with the
  tokens, quota and deadline of the request, on an active account whose circuits are the ones the
  caller saw and are not open, before its deadline; and counting it, the account is within its
  parallel, request-rate, token-rate and monthly limits.\<close>

theorem granted_reservation_within_limits:
  assumes "account_ok (rt_account s)" "try_reserve pd je clk r s = (Inr (Granted receipt), s')"
  shows "within_limits s' \<and> admitted r s' \<and> \<not> dict_has (rt_attempts s) (rr_attempt_id r) \<and>
    length (rt_attempts s') = length (rt_attempts s) + 1"
  using granted_reserved [OF assms(2)] reserved_within_limits [OF assms(1)] reserved_admitted
    apply_reservation_adds(2) [OF reserved_fresh(1,2)] reserved_fresh(1)
  by (metis (no_types, lifting) length_append_singleton reserve_state_fields(2) Suc_eq_plus1)

section \<open>Slots are released explicitly\<close>

inductive releases :: "(AttemptResolution \<Rightarrow> string) \<Rightarrow> attempt_id \<Rightarrow> runtime \<Rightarrow> runtime \<Rightarrow> bool" where
  by_resolution: "finish rd je clk aid r s = (x, s') \<Longrightarrow> rs_release_capacity r \<Longrightarrow>
    dict_has (rt_resolutions s') aid \<Longrightarrow> releases rd aid s s'"
| by_count: "\<not> any_active s \<Longrightarrow> apply_authoritative_active_count je n s = (x, s') \<Longrightarrow> releases rd aid s s'"
| by_probe: "\<not> any_active s \<Longrightarrow> finish_recovery_probe je p PC_AVAILABLE s = (x, s') \<Longrightarrow> releases rd aid s s'"

lemma keys_delete: "fst ` set (AList.delete k d) = fst ` set d - {k}"
  by (auto simp: AList.delete_eq)

lemma reserve_keeps: "try_reserve pd je clk r s = (x, s') \<Longrightarrow> dict_has (rt_attempts s) aid \<Longrightarrow> dict_has (rt_attempts s') aid"
  using try_reserve_not_reserved [of je clk r s pd x s'] try_reserve_reserved [of je clk r s pd]
    apply_reservation_adds(2) [OF reserved_fresh(1,2), of je clk r s]
  by (cases "reserved je clk r s") auto

lemma step_keeps_or_releases:
  assumes "runtime_step pd rd s s'" "dict_has (rt_attempts s) aid" "\<not> dict_has (rt_attempts s') aid"
  shows "releases rd aid s s'"
  using assms(1)
proof cases
  case (step_reserve r je clk x)
  then show ?thesis using reserve_keeps assms(2,3) by blast
next
  case (step_dispatch je clk aid' x)
  then show ?thesis using assms(2,3)
    by (auto simp: mark_dispatched_def Let_def dom_update rev_image_eqI split: option.split_asm sum.split_asm if_split_asm)
next
  case (step_finish r je clk aid' x)
  from step_finish(2) show ?thesis
  proof (cases rule: finish_cases)
    case refused
    then show ?thesis using assms(2,3) by auto
  next
    case (recorded a st receipt)
    then have "aid' = aid" "rs_release_capacity r"
      using assms(2,3) by (auto simp: finished_state_def dom_update keys_delete rev_image_eqI split: if_split_asm)
    then show ?thesis using by_resolution step_finish(2) recorded(8) by (simp add: finished_state_def dom_update)
  qed
next
  case (step_cas c' je g c x)
  then show ?thesis using assms(2,3)
    by (auto simp: compare_and_swap_circuit_def release_probe_def Let_def split: if_split_asm sum.split_asm option.splits)
next
  case (step_account_cas c' je c x)
  then show ?thesis using assms(2,3)
    by (auto simp: compare_and_swap_account_circuit_def release_probe_def Let_def split: if_split_asm sum.split_asm option.splits)
next
  case (step_capacity clk x)
  then show ?thesis using assms(2,3) by (auto simp: capacity_def Let_def)
next
  case (step_update a clk x)
  then show ?thesis using assms(2,3) by (auto simp: update_account_def Let_def split: if_split_asm)
next
  case (step_authoritative je n x)
  have "\<not> any_active s" using step_authoritative assms(2,3)
    by (auto simp: apply_authoritative_active_count_def split: if_split_asm)
  then show ?thesis using by_count step_authoritative by blast
next
  case (step_begin_probe je p x)
  then show ?thesis using assms(2,3) by (auto simp: begin_recovery_probe_def split: if_split_asm sum.split_asm)
next
  case (step_finish_probe je p cl x)
  have "cl = PC_AVAILABLE \<and> \<not> any_active s" using step_finish_probe assms(2,3)
    by (auto simp: finish_recovery_probe_def finish_probe_state_def Let_def split: if_split_asm sum.split_asm option.split_asm)
  then show ?thesis using by_probe step_finish_probe by blast
qed

text \<open>C4: ambiguity never releases capacity. Whatever method runs, an attempt that held a slot and no
  longer does was either resolved by a resolution that releases capacity, which is then on record,
  or was uncertain while no attempt was live and an authoritative count or an available recovery
  probe cleared it. A live attempt therefore loses its slot only by such a resolution.\<close>

theorem slot_freed_only_by_release:
  assumes "runtime_step pd rd s s'" "map_of (rt_attempts s) aid = Some a" "\<not> dict_has (rt_attempts s') aid"
  shows "releases rd aid s s' \<and>
    (at_state a = ''active'' \<longrightarrow> (\<exists>je clk r x. finish rd je clk aid r s = (x, s') \<and> rs_release_capacity r \<and>
       dict_has (rt_resolutions s') aid))"
proof -
  have "dict_has (rt_attempts s) aid" using assms(2) by (force dest: map_of_SomeD)
  from step_keeps_or_releases [OF assms(1) this assms(3)] have rel: "releases rd aid s s'" .
  have "any_active s" if "at_state a = ''active''"
    using that assms(2) by (force simp: any_active_def list_ex_iff dest: map_of_SomeD)
  with rel show ?thesis by (blast elim: releases.cases)
qed

section \<open>A resolution is final\<close>

text \<open>once \<open>finish\<close> has recorded a resolution, finishing again with the same resolution returns
  the same receipt and changes nothing, finishing with a different one raises, and the attempt can
  no longer be dispatched, whatever the journal or the clock say.\<close>

theorem resolution_is_final:
  assumes "finish rd je clk aid r s = (x, s')" "\<not> dict_has (rt_resolutions s) aid" "dict_has (rt_resolutions s') aid"
  shows "\<exists>receipt. je_append je = Inr receipt \<and>
    finish rd je' clk' aid r' s' =
      (if rd r' = rd r then Inr receipt else Inl (InvalidLeaseTransition ''conflicting terminal resolution''), s') \<and>
    mark_dispatched je' clk' aid s' = (Inl (InvalidLeaseTransition ''unknown or terminal attempt cannot dispatch''), s')"
  using assms(1)
proof (cases rule: finish_cases)
  case refused
  then show ?thesis using assms(2,3) by auto
next
  case (recorded a st receipt)
  have res: "map_of (rt_resolutions s') aid = Some \<lparr>ra_resolution_digest = rd r, ra_receipt = receipt,
      ra_resolved_at_ms = rt_time_high_water_ms s', ra_dispatch = dispatch_of a\<rparr>"
    using recorded(8) by (simp add: finished_state_def update_conv')
  then have "dict_has (rt_resolutions s') aid" using assms(3) by blast
  with res recorded(4) show ?thesis
    by (auto simp: finish_def mark_dispatched_def split: option.splits)
qed

section \<open>Sliding windows\<close>

definition in_window :: "int \<Rightarrow> int \<Rightarrow> AttemptStart \<Rightarrow> bool" where
  "in_window seconds t st \<longleftrightarrow> t - seconds * 1000 < st_started_at_ms st \<and> st_started_at_ms st \<le> t"

definition rpm_weight :: "AttemptStart \<Rightarrow> int" where
  "rpm_weight st = (if st_counted_start st then 1 else 0)"

definition window_sum :: "(AttemptStart \<Rightarrow> int) \<Rightarrow> int \<Rightarrow> int \<Rightarrow> (attempt_id, AttemptStart) dict \<Rightarrow> int" where
  "window_sum w seconds t starts = sum_list (map (\<lambda>p. w (snd p)) (filter (\<lambda>p. in_window seconds t (snd p)) starts))"

definition window_safe :: "(AttemptStart \<Rightarrow> int) \<Rightarrow> int \<Rightarrow> int \<Rightarrow> (attempt_id, AttemptStart) dict \<Rightarrow> bool" where
  "window_safe w seconds v starts \<longleftrightarrow> (\<forall>t. window_sum w seconds t starts \<le> v)"

lemma window_sum_filter:
  assumes "\<forall>p \<in> set starts. 0 \<le> w (snd p)"
  shows "window_sum w seconds t (filter P starts) \<le> window_sum w seconds t starts"
  using sum_list_map_filter_le [of "filter (\<lambda>p. in_window seconds t (snd p)) starts" "\<lambda>p. w (snd p)" P] assms
  by (simp add: window_sum_def conj_commute)

lemma window_sum_update:
  assumes "map_of starts k = Some st" "w st' \<le> w st" "st_started_at_ms st' = st_started_at_ms st"
  shows "window_sum w seconds t (AList.update k st' starts) \<le> window_sum w seconds t starts"
  using assms by (induction starts) (auto simp: window_sum_def in_window_def split: if_splits)

lemma window_safe_append:
  assumes safe: "window_safe w seconds v starts"
    and nonneg: "\<forall>p \<in> set starts. 0 \<le> w (snd p)"
    and now: "st_started_at_ms st = now" "\<forall>p \<in> set starts. st_started_at_ms (snd p) \<le> now"
    and room: "sum_list (map (\<lambda>p. w (snd p)) (filter (\<lambda>p. now - seconds * 1000 < st_started_at_ms (snd p)) starts)) + w st \<le> v"
  shows "window_safe w seconds v (starts @ [(k, st)])"
proof (unfold window_safe_def, intro allI)
  fix t
  let ?in = "\<lambda>p. in_window seconds t (snd p)" and ?new = "\<lambda>p. now - seconds * 1000 < st_started_at_ms (snd p)"
  show "window_sum w seconds t (starts @ [(k, st)]) \<le> v"
  proof (cases "in_window seconds t st")
    case False
    then show ?thesis using safe by (simp add: window_safe_def window_sum_def)
  next
    case True
    have "filter ?in starts = filter ?in (filter ?new starts)"
      using True now by (auto simp: in_window_def intro!: filter_cong)
    then have "window_sum w seconds t starts \<le> sum_list (map (\<lambda>p. w (snd p)) (filter ?new starts))"
      using sum_list_map_filter_le [of "filter ?new starts" "\<lambda>p. w (snd p)" ?in] nonneg by (simp add: window_sum_def)
    with True room show ?thesis by (simp add: window_sum_def)
  qed
qed

definition same_limits :: "ProviderAccount \<Rightarrow> ProviderAccount \<Rightarrow> bool" where
  "same_limits a b \<longleftrightarrow> pa_rpm_limit a = pa_rpm_limit b \<and> pa_rpm_window_seconds a = pa_rpm_window_seconds b \<and>
     pa_tpm_limit a = pa_tpm_limit b \<and> pa_tpm_window_seconds a = pa_tpm_window_seconds b"

text \<open>How a step changes the starts: it removes some, settles one within its reservation, or adds one
  that was reserved.\<close>

lemma step_starts:
  assumes "runtime_step pd rd s s'"
  obtains (fewer) P where "rt_starts s' = filter P (rt_starts s)"
  | (settled) aid st r a where "rt_starts s' = AList.update aid (settle_start r st) (rt_starts s)"
      "map_of (rt_starts s) aid = Some st" "map_of (rt_attempts s) aid = Some a" "\<not> dict_has (rt_resolutions s) aid"
      "\<not> exceeds (rs_actual_token_units r) (at_reserved_tokens a)"
  | (added) je clk r where "reserved je clk r s" "request_ok r"
      "rt_starts s' = rt_starts (reserve_state clk s) @ [(rr_attempt_id r, new_start r (max (rt_time_high_water_ms s) clk))]"
proof -
  have purged: "\<exists>P. rt_starts (purge_windows n t) = filter P (rt_starts t)" for n t
    by (auto simp: purge_windows_def Let_def)
  have all: "\<exists>P. rt_starts s = filter P (rt_starts s)" by (rule exI [of _ "\<lambda>_. True"]) simp
  from assms show thesis
  proof cases
    case (step_reserve r je clk x)
    show thesis
    proof (cases "reserved je clk r s")
      case True
      with step_reserve show thesis
        using added [OF True step_reserve(1)] apply_reservation_adds(1) [OF reserved_fresh(1,2) [OF True]]
        by (auto simp: try_reserve_reserved)
    next
      case False
      from try_reserve_not_reserved [OF this step_reserve(2)] all
        purged [of "max (rt_time_high_water_ms s) clk" "prune_resolutions (max (rt_time_high_water_ms s) clk) (tick clk s)"]
      show thesis using fewer by (auto simp: reserve_state_def Let_def)
    qed
  next
    case (step_finish r je clk aid x)
    from step_finish(2) show thesis
    proof (cases rule: finish_cases)
      case refused
      with all fewer show thesis by auto
    next
      case (recorded a st receipt)
      then show thesis
        by (intro settled [of aid r st a]) (simp_all add: finished_state_def map_of_eq_None_iff)
    qed
  next
    case (step_capacity clk x)
    with purged [of "max (rt_time_high_water_ms s) clk" "tick clk s"] fewer show thesis
      by (auto simp: capacity_def Let_def)
  next
    case (step_dispatch je clk aid x)
    with all fewer show thesis
      by (auto simp: mark_dispatched_def Let_def split: option.split_asm sum.split_asm if_split_asm)
  next
    case (step_cas c' je g c x)
    with all fewer show thesis
      by (auto simp: compare_and_swap_circuit_def release_probe_def Let_def split: if_split_asm sum.split_asm option.split_asm)
  next
    case (step_account_cas c' je c x)
    with all fewer show thesis
      by (auto simp: compare_and_swap_account_circuit_def release_probe_def Let_def split: if_split_asm sum.split_asm option.split_asm)
  next
    case (step_update a clk x)
    with all fewer show thesis by (auto simp: update_account_def Let_def split: if_split_asm)
  next
    case (step_authoritative je n x)
    with all fewer show thesis
      by (auto simp: apply_authoritative_active_count_def set_authoritative_count_def Let_def split: if_split_asm sum.split_asm)
  next
    case (step_begin_probe je p x)
    with all fewer show thesis by (auto simp: begin_recovery_probe_def split: if_split_asm sum.split_asm)
  next
    case (step_finish_probe je p cl x)
    with all fewer show thesis
      by (auto simp: finish_recovery_probe_def finish_probe_state_def Let_def split: if_split_asm sum.split_asm option.split_asm)
  qed
qed

lemma wf_start_weights:
  assumes "runtime_wf s" "p \<in> set (rt_starts s)"
  shows "0 \<le> rpm_weight (snd p)" "0 \<le> st_tokens (snd p)" "st_started_at_ms (snd p) \<le> rt_time_high_water_ms s"
  using assms by (auto simp: runtime_wf_def start_ok_def rpm_weight_def)

lemma settled_weights:
  assumes wf: "runtime_wf s" and st: "map_of (rt_starts s) aid = Some st" and a: "map_of (rt_attempts s) aid = Some a"
    and new: "\<not> dict_has (rt_resolutions s) aid" and le: "\<not> exceeds (rs_actual_token_units r) (at_reserved_tokens a)"
  shows "rpm_weight (settle_start r st) \<le> rpm_weight st" "st_tokens (settle_start r st) \<le> st_tokens st"
proof -
  have "attempt_ok (rt_starts s) (rt_resolutions s) (aid, a)"
    using wf a by (auto simp: runtime_wf_def dest: map_of_SomeD)
  then have "st_tokens st = at_reserved_tokens a" using st new by (auto simp: attempt_ok_def)
  with le show "st_tokens (settle_start r st) \<le> st_tokens st"
    by (simp add: settle_start_def exceeds_def split: option.splits)
  show "rpm_weight (settle_start r st) \<le> rpm_weight st" by (simp add: rpm_weight_def settle_start_def)
qed

lemma rpm_starts_sum:
  "int (length (rpm_starts s now)) = sum_list (map (\<lambda>p. rpm_weight (snd p))
     (filter (\<lambda>p. now - pa_rpm_window_seconds (rt_account s) * 1000 < st_started_at_ms (snd p)) (rt_starts s)))"
proof -
  have "int (length (filter (\<lambda>st. st_counted_start st \<and> f < st_started_at_ms st) (map snd xs))) =
      sum_list (map (\<lambda>p. rpm_weight (snd p)) (filter (\<lambda>p. f < st_started_at_ms (snd p)) xs))" for f and xs :: "(attempt_id, AttemptStart) dict"
    by (induction xs) (auto simp: rpm_weight_def)
  then show ?thesis by (simp add: rpm_starts_def Let_def)
qed

lemma tpm_starts_sum:
  "sum_list (map st_tokens (tpm_starts s now)) = sum_list (map (\<lambda>p. st_tokens (snd p))
     (filter (\<lambda>p. now - pa_tpm_window_seconds (rt_account s) * 1000 < st_started_at_ms (snd p)) (rt_starts s)))"
  by (simp add: tpm_starts_def Let_def filter_map comp_def)

lemma reserved_room:
  assumes "reserved je clk r s"
  shows "qd_status (pa_rpm_limit (rt_account s)) = KNOWN \<Longrightarrow> qd_value (pa_rpm_limit (rt_account s)) = Some v \<Longrightarrow>
      int (length (rpm_starts (reserve_state clk s) (max (rt_time_high_water_ms s) clk))) + 1 \<le> v"
    and "qd_status (pa_tpm_limit (rt_account s)) = KNOWN \<Longrightarrow> qd_value (pa_tpm_limit (rt_account s)) = Some w \<Longrightarrow>
      sum_list (map st_tokens (tpm_starts (reserve_state clk s) (max (rt_time_high_water_ms s) clk))) + total_token_upper_bound r \<le> w"
proof -
  let ?now = "max (rt_time_high_water_ms s) clk" and ?t = "reserve_state clk s"
  have "reserve_limits r ?now ?t = Inr None" using assms by (simp add: reserved_def Let_def)
  then have rpm: "rpm_denial ?now ?t = Inr None" and tpm: "tpm_denial r ?now ?t = Inr None"
    by (auto simp: reserve_limits_def res_bind_Inr or_denial_None split: if_split_asm)
  show "int (length (rpm_starts ?t ?now)) + 1 \<le> v"
    if "qd_status (pa_rpm_limit (rt_account s)) = KNOWN" "qd_value (pa_rpm_limit (rt_account s)) = Some v"
    using rpm that by (auto simp: rpm_denial_def known_value_Some Let_def split: if_split_asm)
  show "sum_list (map st_tokens (tpm_starts ?t ?now)) + total_token_upper_bound r \<le> w"
    if "qd_status (pa_tpm_limit (rt_account s)) = KNOWN" "qd_value (pa_tpm_limit (rt_account s)) = Some w"
    using tpm that by (auto simp: tpm_denial_def known_value_Some Let_def res_map_Inr split: if_split_asm)
qed

text \<open>One proof for both windows: \<open>w\<close> is the weight of a start, \<open>seconds\<close> and \<open>v\<close> the window and its limit.\<close>

lemma window_step:
  assumes wf: "runtime_wf s" and step: "runtime_step pd rd s s'" and safe: "window_safe w seconds v (rt_starts s)"
    and nonneg: "\<And>p. p \<in> set (rt_starts s) \<Longrightarrow> 0 \<le> w (snd p)"
    and settle: "\<And>aid st a r. map_of (rt_starts s) aid = Some st \<Longrightarrow> map_of (rt_attempts s) aid = Some a \<Longrightarrow>
      \<not> dict_has (rt_resolutions s) aid \<Longrightarrow> \<not> exceeds (rs_actual_token_units r) (at_reserved_tokens a) \<Longrightarrow>
      w (settle_start r st) \<le> w st"
    and room: "\<And>je clk r. reserved je clk r s \<Longrightarrow>
      sum_list (map (\<lambda>p. w (snd p)) (filter (\<lambda>p. max (rt_time_high_water_ms s) clk - seconds * 1000 < st_started_at_ms (snd p))
        (rt_starts (reserve_state clk s)))) + w (new_start r (max (rt_time_high_water_ms s) clk)) \<le> v"
  shows "window_safe w seconds v (rt_starts s')"
proof -
  have filtered: "window_safe w seconds v (filter P (rt_starts s))" for P
    using safe window_sum_filter [of "rt_starts s" w seconds _ P] nonneg
    by (fastforce simp: window_safe_def intro: order_trans)
  from step show ?thesis
  proof (cases rule: step_starts)
    case (fewer P)
    with filtered show ?thesis by simp
  next
    case (settled aid st r a)
    have "window_sum w seconds t (rt_starts s') \<le> window_sum w seconds t (rt_starts s)" for t
      unfolding settled(1) by (rule window_sum_update [OF settled(2)]) (use settle settled in \<open>auto simp: settle_start_def\<close>)
    with safe show ?thesis by (fastforce simp: window_safe_def intro: order_trans)
  next
    case (added je clk r)
    obtain P where P: "rt_starts (reserve_state clk s) = filter P (rt_starts s)"
      by (auto simp: reserve_state_def Let_def purge_windows_def)
    have "window_safe w seconds v (rt_starts (reserve_state clk s))" using filtered P by simp
    moreover have "\<forall>p \<in> set (rt_starts (reserve_state clk s)). 0 \<le> w (snd p) \<and> st_started_at_ms (snd p) \<le> max (rt_time_high_water_ms s) clk"
      using reserve_state_starts [of clk s] nonneg wf_start_weights(3) [OF wf] by (fastforce simp: max_def)
    ultimately show ?thesis
      unfolding added(3) by (intro window_safe_append [where now = "max (rt_time_high_water_ms s) clk"])
        (use room [OF added(1)] in \<open>auto simp: new_start_def\<close>)
  qed
qed

lemma windows_run:
  assumes run: "(\<lambda>s s'. runtime_step pd rd s s' \<and> same_limits A (rt_account s))\<^sup>*\<^sup>* s0 s"
    and "runtime_wf s0" "window_safe rpm_weight (pa_rpm_window_seconds A) v (rt_starts s0)"
      "window_safe st_tokens (pa_tpm_window_seconds A) w (rt_starts s0)"
    and rpm: "qd_status (pa_rpm_limit A) = KNOWN" "qd_value (pa_rpm_limit A) = Some v"
    and tpm: "qd_status (pa_tpm_limit A) = KNOWN" "qd_value (pa_tpm_limit A) = Some w"
  shows "runtime_wf s \<and> window_safe rpm_weight (pa_rpm_window_seconds A) v (rt_starts s) \<and>
    window_safe st_tokens (pa_tpm_window_seconds A) w (rt_starts s)"
  using run assms(2-4)
proof (induction rule: rtranclp_induct)
  case (step s s')
  then have IH: "runtime_wf s" "window_safe rpm_weight (pa_rpm_window_seconds A) v (rt_starts s)"
      "window_safe st_tokens (pa_tpm_window_seconds A) w (rt_starts s)"
    and st: "runtime_step pd rd s s'" and lim: "same_limits A (rt_account s)" by auto
  have "window_safe rpm_weight (pa_rpm_window_seconds A) v (rt_starts s')"
    using IH(1) st IH(2)
  proof (rule window_step)
    show "sum_list (map (\<lambda>p. rpm_weight (snd p)) (filter (\<lambda>p. max (rt_time_high_water_ms s) clk - pa_rpm_window_seconds A * 1000 < st_started_at_ms (snd p))
        (rt_starts (reserve_state clk s)))) + rpm_weight (new_start r (max (rt_time_high_water_ms s) clk)) \<le> v"
      if "reserved je clk r s" for je clk r
      using reserved_room(1) [OF that, of v] rpm lim
      by (simp add: same_limits_def rpm_starts_sum) (simp add: rpm_weight_def new_start_def)
  qed (use IH(1) wf_start_weights settled_weights in blast)+
  moreover have "window_safe st_tokens (pa_tpm_window_seconds A) w (rt_starts s')"
    using IH(1) st IH(3)
  proof (rule window_step)
    show "sum_list (map (\<lambda>p. st_tokens (snd p)) (filter (\<lambda>p. max (rt_time_high_water_ms s) clk - pa_tpm_window_seconds A * 1000 < st_started_at_ms (snd p))
        (rt_starts (reserve_state clk s)))) + st_tokens (new_start r (max (rt_time_high_water_ms s) clk)) \<le> w"
      if "reserved je clk r s" for je clk r
      using reserved_room(2) [OF that, of w] tpm lim
      by (simp add: same_limits_def tpm_starts_sum) (simp add: new_start_def)
  qed (use IH(1) wf_start_weights settled_weights in blast)+
  ultimately show ?case using wf_step [OF IH(1) st] by blast
qed simp


section \<open>Circuits\<close>

lemma step_epochs:
  assumes "runtime_step pd rd s s'"
  shows "ci_epoch (circuit_value s g) \<le> ci_epoch (circuit_value s' g) \<and>
    ci_epoch (rt_account_circuit s) \<le> ci_epoch (rt_account_circuit s')"
  using assms
proof cases
  case (step_reserve r je clk x)
  then show ?thesis
    using try_reserve_not_reserved [of je clk r s pd x s'] try_reserve_reserved [of je clk r s pd]
    by (cases "reserved je clk r s") (auto simp: circuit_value_def)
next
  case (step_finish r je clk aid x)
  from step_finish(2) show ?thesis
    by (cases rule: finish_cases) (auto simp: finished_state_def circuit_value_def)
next
  case (step_cas c' je g' c x)
  then show ?thesis
    by (auto simp: compare_and_swap_circuit_def release_probe_def circuit_value_def Let_def
        split: if_split_asm sum.split_asm option.split_asm)
next
  case (step_account_cas c' je c x)
  then show ?thesis
    by (auto simp: compare_and_swap_account_circuit_def release_probe_def circuit_value_def Let_def
        split: if_split_asm sum.split_asm option.split_asm)
qed (auto simp: circuit_value_def mark_dispatched_def capacity_def update_account_def
    apply_authoritative_active_count_def set_authoritative_count_def begin_recovery_probe_def
    finish_recovery_probe_def finish_probe_state_def Let_def
    split: option.split_asm sum.split_asm if_split_asm)

text \<open>no sequence of methods ever moves a circuit back: the epoch of the account circuit and of every
  deployment circuit only grows.\<close>

theorem circuit_epochs_never_decrease:
  assumes "(runtime_step pd rd)\<^sup>*\<^sup>* s s'"
  shows "ci_epoch (circuit_value s g) \<le> ci_epoch (circuit_value s' g) \<and>
    ci_epoch (rt_account_circuit s) \<le> ci_epoch (rt_account_circuit s')"
  using assms by (induction rule: rtranclp_induct) (auto dest: step_epochs [of pd rd _ _ g] intro: order_trans)

definition same_circuits :: "runtime \<Rightarrow> runtime \<Rightarrow> bool" where
  "same_circuits s t \<longleftrightarrow> rt_account_circuit t = rt_account_circuit s \<and> rt_circuits t = rt_circuits s"

lemma fold_consume_keys: "fst ` set (fold (\<lambda>p. AList.update p aid) ps d) = set ps \<union> fst ` set d"
  by (induction ps arbitrary: d) (auto simp: dom_update)

lemma consumed_apply_reservation:
  "fst ` set (rt_consumed_circuit_probes (apply_reservation pd r now s)) =
     set (reserve_probe_ids r s) \<union> fst ` set (rt_consumed_circuit_probes s)"
  by (simp add: apply_reservation_def consume_probes_def Let_def fold_consume_keys)

lemma step_keeps_probe:
  assumes "runtime_step pd rd s s'" "same_circuits s s'" "p \<in> fst ` set (rt_consumed_circuit_probes s)"
  shows "p \<in> fst ` set (rt_consumed_circuit_probes s')"
  using assms(1)
proof cases
  case (step_reserve r je clk x)
  then show ?thesis
    using try_reserve_not_reserved [of je clk r s pd x s'] try_reserve_reserved [of je clk r s pd] assms(3)
      consumed_apply_reservation [of pd r "max (rt_time_high_water_ms s) clk" "reserve_state clk s"]
    by (cases "reserved je clk r s") auto
next
  case (step_finish r je clk aid x)
  from step_finish(2) show ?thesis
    by (cases rule: finish_cases) (use assms(3) in \<open>auto simp: finished_state_def\<close>)
next
  case (step_cas c' je g c x)
  have changed: "AList.update g c' (rt_circuits s) \<noteq> rt_circuits s" if "circuit_value s g = c" "c' \<noteq> c"
  proof
    assume "AList.update g c' (rt_circuits s) = rt_circuits s"
    then have "map_of (rt_circuits s) g = Some c'" by (metis fun_upd_same update_conv')
    with that show False by (simp add: circuit_value_def dict_get_def)
  qed
  have "s' = s \<or> (circuit_value s g = c \<and> c' \<noteq> c \<and> rt_circuits s' = AList.update g c' (rt_circuits s))"
    using step_cas(2) unfolding compare_and_swap_circuit_def Let_def
    by (auto simp: release_probe_def split: if_split_asm sum.split_asm option.split_asm)
  then show ?thesis using changed assms(2,3) unfolding same_circuits_def by metis
next
  case (step_account_cas c' je c x)
  have "s' = s \<or> (rt_account_circuit s = c \<and> c' \<noteq> c \<and> rt_account_circuit s' = c')"
    using step_account_cas(2) unfolding compare_and_swap_account_circuit_def
    by (auto split: if_split_asm sum.split_asm)
  then show ?thesis using assms(2,3) unfolding same_circuits_def by metis
qed (use assms(3) in \<open>auto simp: mark_dispatched_def capacity_def update_account_def
    apply_authoritative_active_count_def set_authoritative_count_def begin_recovery_probe_def
    finish_recovery_probe_def finish_probe_state_def Let_def
    split: option.split_asm sum.split_asm if_split_asm\<close>)

lemma run_keeps_probe:
  "(\<lambda>s s'. runtime_step pd rd s s' \<and> same_circuits s s')\<^sup>*\<^sup>* s t \<Longrightarrow> p \<in> fst ` set (rt_consumed_circuit_probes s) \<Longrightarrow>
     p \<in> fst ` set (rt_consumed_circuit_probes t) \<and> same_circuits s t"
proof (induction rule: rtranclp_induct)
  case (step t u)
  then have st: "runtime_step pd rd t u" and same: "same_circuits t u" by auto
  from step have IH: "p \<in> fst ` set (rt_consumed_circuit_probes t)" "same_circuits s t" by auto
  from step_keeps_probe [OF st same IH(1)] IH(2) same show ?case by (simp add: same_circuits_def)
qed (simp add: same_circuits_def)

lemma half_open_probe_id: "circuit_ok c \<Longrightarrow> ci_state c = CS_HALF_OPEN \<Longrightarrow> \<exists>p. ci_probe_id c = Some p"
  by (auto simp: circuit_ok_def CircuitValue_validate_def checks_Inr)

definition guarded_by :: "CircuitValue \<Rightarrow> ReservationRequest \<Rightarrow> runtime \<Rightarrow> bool" where
  "guarded_by c r s \<longleftrightarrow> c = rt_account_circuit s \<or> c = circuit_value s (rr_deployment_generation_id r)"

lemma guarded_probe: "guarded_by c r s \<Longrightarrow> ci_state c = CS_HALF_OPEN \<Longrightarrow> ci_probe_id c = Some p \<Longrightarrow> p \<in> set (reserve_probe_ids r s)"
  by (auto simp: guarded_by_def reserve_probe_ids_def Let_def split: option.splits)

text \<open>a half-open circuit admits one attempt. After a reservation under a half-open account or
  deployment circuit is granted, no reservation under the same circuit value is granted until some
  circuit of the account is changed, whatever else the account runtime does in between.\<close>

theorem half_open_admits_one:
  assumes "request_ok r" "try_reserve pd je clk r s = (Inr (Granted receipt), s')"
    and "guarded_by c r s'" "ci_state c = CS_HALF_OPEN" "circuit_ok c"
    and "(\<lambda>s s'. runtime_step pd rd s s' \<and> same_circuits s s')\<^sup>*\<^sup>* s' t" "guarded_by c r' t"
  shows "\<not> reserved je' clk' r' t \<and> fst (try_reserve pd je' clk' r' t) \<noteq> Inr (Granted receipt')"
proof -
  let ?now = "max (rt_time_high_water_ms s) clk" and ?now' = "max (rt_time_high_water_ms t) clk'"
  obtain p where p: "ci_probe_id c = Some p" using half_open_probe_id [OF assms(5,4)] by blast
  have res: "reserved je clk r s" and s': "s' = apply_reservation pd r ?now (reserve_state clk s)"
    using granted_reserved [OF assms(2)] by auto
  have "guarded_by c r (reserve_state clk s)" using assms(3) s' by (simp add: guarded_by_def circuit_value_def)
  from guarded_probe [OF this assms(4) p] have "p \<in> fst ` set (rt_consumed_circuit_probes s')"
    unfolding s' consumed_apply_reservation by blast
  with assms(6) have consumed: "p \<in> fst ` set (rt_consumed_circuit_probes t)" using run_keeps_probe by blast
  have "\<not> reserved je' clk' r' t"
  proof
    assume "reserved je' clk' r' t"
    then have checks: "reserve_checks r' ?now' (prune_resolutions ?now' (tick clk' t)) = None"
      by (simp add: reserved_def Let_def)
    have "guarded_by c r' (prune_resolutions ?now' (tick clk' t))"
      using assms(7) by (simp add: guarded_by_def circuit_value_def)
    from guarded_probe [OF this assms(4) p] reserve_checks_None(9) [OF checks] consumed show False by simp
  qed
  then show ?thesis using try_reserve_not_reserved [of je' clk' r' t pd] by (metis prod.collapse)
qed

section \<open>Witnesses\<close>

definition sample_profile :: RequestProfile where
  "sample_profile = \<lparr>pr_route_group_id = ''rg_1'', pr_model_alias = ''m'', pr_endpoint = EP_CHAT, pr_modality = MOD_CHAT,
     pr_stream = False, pr_input_tokens_max = 100, pr_output_tokens_max = 50, pr_reasoning_tokens_max = 0,
     pr_tools_count = 0, pr_forced_tool_required = False, pr_response_schema_present = False, pr_history_turns = 0,
     pr_deadline_ms = 1000\<rparr>"

definition sample_probe :: string where
  "sample_probe = ''probe_'' @ replicate 36 CHR ''0''"

definition half_open_sample :: CircuitValue where
  "half_open_sample = \<lparr>ci_state = CS_HALF_OPEN, ci_cause = Some CC_CAPACITY, ci_epoch = 2, ci_opened_at_ms = 100,
     ci_retry_at_ms = 0, ci_backoff_step = 1, ci_evidence_digest = Some (''sha256:'' @ replicate 64 CHR ''a''),
     ci_probe_id = Some sample_probe\<rparr>"

definition sample_request :: "attempt_id \<Rightarrow> CircuitValue \<Rightarrow> ReservationRequest" where
  "sample_request aid circuit = \<lparr>rr_request_id = ''req_1'', rr_attempt_id = aid, rr_account_id = ''acc_1'', rr_leg_id = ''leg_1'',
     rr_deployment_generation_id = ''dg1_1'', rr_runtime_identity = \<lparr>ri_installation_id = ''inst_1'', ri_dispatcher_fence = 1,
       ri_boot_id = ''boot_1'', ri_bundle_generation = 1, ri_bundle_hash = ''bh''\<rparr>, rr_deadline_at_ms = 900000,
     rr_profile = sample_profile, rr_input_tokens_upper_bound = 100, rr_account_circuit = circuit,
     rr_max_output_tokens = 50, rr_max_reasoning_tokens = 0, rr_quota_units = 5, rr_circuit = CircuitValue_closed 0\<rparr>"

definition active_account :: ProviderAccount where
  "active_account = sample_account\<lparr>pa_state := Some AS_ACTIVE\<rparr>"

definition sample_env :: journal_env where
  "sample_env = \<lparr>je_status = JS_HEALTHY, je_append = Inr \<lparr>jr_durable_lsn = 1, jr_record_digest = ''d''\<rparr>, je_checkpoint = Inr ()\<rparr>"

abbreviation sample_runtime :: runtime where
  "sample_runtime \<equiv> AccountRuntime_new active_account 1000 10 60000"

abbreviation sample_pd :: "RequestProfile \<Rightarrow> string" where
  "sample_pd \<equiv> \<lambda>_. ''p''"

abbreviation sample_rd :: "AttemptResolution \<Rightarrow> string" where
  "sample_rd \<equiv> \<lambda>r. if rs_release_capacity r then ''released'' else ''held''"

definition reserve_sample :: "reservation res \<times> runtime" where
  "reserve_sample = try_reserve sample_pd sample_env 2000 (sample_request ''att_1'' (CircuitValue_closed 0)) sample_runtime"

lemma sample_account_ok: "account_ok active_account"
  by code_simp

lemma sample_request_ok: "request_ok (sample_request ''att_1'' (CircuitValue_closed 0))" "request_ok (sample_request ''att_1'' half_open_sample)"
  by code_simp+

lemma reserve_sample_granted: "fst reserve_sample = Inr (Granted \<lparr>jr_durable_lsn = 1, jr_record_digest = ''d''\<rparr>)"
  by code_simp

theorem granted_reservation_within_limits_witness:
  "within_limits (snd reserve_sample) \<and> admitted (sample_request ''att_1'' (CircuitValue_closed 0)) (snd reserve_sample)"
proof -
  have "account_ok (rt_account sample_runtime)" by (simp add: AccountRuntime_new_def sample_account_ok)
  moreover have "try_reserve sample_pd sample_env 2000 (sample_request ''att_1'' (CircuitValue_closed 0)) sample_runtime
      = (Inr (Granted \<lparr>jr_durable_lsn = 1, jr_record_digest = ''d''\<rparr>), snd reserve_sample)"
    using reserve_sample_granted unfolding reserve_sample_def by (metis prod.collapse)
  ultimately show ?thesis using granted_reservation_within_limits by blast
qed

definition done_sample :: "bool \<Rightarrow> AttemptResolution" where
  "done_sample release = \<lparr>rs_outcome = COMPLETED, rs_release_capacity = release, rs_actual_starts = None,
     rs_actual_token_units = Some 80, rs_actual_quota_units = Some 5\<rparr>"

definition finish_sample :: "bool \<Rightarrow> JournalReceipt res \<times> runtime" where
  "finish_sample release = finish sample_rd sample_env 3000 ''att_1'' (done_sample release) (snd reserve_sample)"

theorem slot_freed_only_by_release_witness:
  "releases sample_rd ''att_1'' (snd reserve_sample) (snd (finish_sample True))"
proof -
  have "runtime_step sample_pd sample_rd (snd reserve_sample) (snd (finish_sample True))"
  proof (rule step_finish)
    show "resolution_ok (done_sample True)" by code_simp
    show "finish sample_rd sample_env 3000 ''att_1'' (done_sample True) (snd reserve_sample) = (fst (finish_sample True), snd (finish_sample True))"
      by (simp add: finish_sample_def)
  qed
  moreover have "map_option at_state (map_of (rt_attempts (snd reserve_sample)) ''att_1'') = Some ''active''" by code_simp
  moreover have "\<not> dict_has (rt_attempts (snd (finish_sample True))) ''att_1''" by code_simp
  ultimately show ?thesis using slot_freed_only_by_release by fastforce
qed

theorem resolution_is_final_witness:
  "finish sample_rd sample_env 9000 ''att_1'' (done_sample False) (snd (finish_sample True)) =
     (Inl (InvalidLeaseTransition ''conflicting terminal resolution''), snd (finish_sample True))"
proof -
  have "finish sample_rd sample_env 3000 ''att_1'' (done_sample True) (snd reserve_sample) = (fst (finish_sample True), snd (finish_sample True))"
    by (simp add: finish_sample_def)
  moreover have "\<not> dict_has (rt_resolutions (snd reserve_sample)) ''att_1''" "dict_has (rt_resolutions (snd (finish_sample True))) ''att_1''"
    by code_simp+
  moreover have "sample_rd (done_sample False) \<noteq> sample_rd (done_sample True)" by (simp add: done_sample_def)
  ultimately show ?thesis
    using resolution_is_final [of sample_rd sample_env 3000 "''att_1''" "done_sample True" "snd reserve_sample"
        "fst (finish_sample True)" "snd (finish_sample True)" sample_env 9000 "done_sample False"] by presburger
qed


definition cas_sample :: "bool res \<times> runtime" where
  "cas_sample = compare_and_swap_account_circuit sample_env (CircuitValue_closed 0) half_open_sample sample_runtime"

lemma cas_sample_step: "runtime_step sample_pd sample_rd sample_runtime (snd cas_sample)"
proof (rule step_account_cas)
  show "circuit_ok half_open_sample" by code_simp
  show "compare_and_swap_account_circuit sample_env (CircuitValue_closed 0) half_open_sample sample_runtime = (fst cas_sample, snd cas_sample)"
    by (simp add: cas_sample_def)
qed

theorem circuit_epochs_never_decrease_witness:
  "ci_epoch (rt_account_circuit sample_runtime) = 0 \<and> ci_epoch (rt_account_circuit (snd cas_sample)) = 2 \<and>
     ci_epoch (rt_account_circuit sample_runtime) \<le> ci_epoch (rt_account_circuit (snd cas_sample))"
proof (intro conjI)
  show "ci_epoch (rt_account_circuit sample_runtime) \<le> ci_epoch (rt_account_circuit (snd cas_sample))"
    using circuit_epochs_never_decrease [OF r_into_rtranclp [of "runtime_step sample_pd sample_rd", OF cas_sample_step]] by blast
qed code_simp+

definition probe_sample :: "reservation res \<times> runtime" where
  "probe_sample = try_reserve sample_pd sample_env 2000 (sample_request ''att_1'' half_open_sample) (snd cas_sample)"

theorem half_open_admits_one_witness:
  "fst probe_sample = Inr (Granted \<lparr>jr_durable_lsn = 1, jr_record_digest = ''d''\<rparr>) \<and>
   \<not> reserved sample_env 2500 (sample_request ''att_2'' half_open_sample) (snd probe_sample)"
proof
  show granted: "fst probe_sample = Inr (Granted \<lparr>jr_durable_lsn = 1, jr_record_digest = ''d''\<rparr>)" by code_simp
  have "try_reserve sample_pd sample_env 2000 (sample_request ''att_1'' half_open_sample) (snd cas_sample)
      = (Inr (Granted \<lparr>jr_durable_lsn = 1, jr_record_digest = ''d''\<rparr>), snd probe_sample)"
    using granted unfolding probe_sample_def by (metis prod.collapse)
  moreover have "guarded_by half_open_sample r (snd probe_sample)" for r
  proof -
    have "rt_account_circuit (snd probe_sample) = half_open_sample" by code_simp
    then show ?thesis by (simp add: guarded_by_def)
  qed
  moreover have "ci_state half_open_sample = CS_HALF_OPEN" "circuit_ok half_open_sample" by code_simp+
  ultimately show "\<not> reserved sample_env 2500 (sample_request ''att_2'' half_open_sample) (snd probe_sample)"
    using half_open_admits_one [OF sample_request_ok(2), where rd = sample_rd and t = "snd probe_sample"] by blast
qed

end
