(* ===== verification/Registry_Promises.thy ===== *)
theory Registry_Promises
  imports Runtime_Registry Runtime_Promises
begin

text \<open>
  What the registry of account runtimes promises: snapshots restore to the same state, replaying a
  record gives the state the live method left (with the one exception that the last section shows),
  bindings of accounts are unique and final, a publication keeps every attempt and disables what it
  omits, and recovery leaves nothing live.
\<close>

section \<open>Snapshots\<close>

definition same_runtime :: "runtime \<Rightarrow> runtime \<Rightarrow> bool" where
  "same_runtime s t \<longleftrightarrow>
     map_of (rt_starts s) = map_of (rt_starts t) \<and> map_of (rt_attempts s) = map_of (rt_attempts t) \<and>
     map_of (rt_resolutions s) = map_of (rt_resolutions t) \<and> map_of (rt_circuits s) = map_of (rt_circuits t) \<and>
     map_of (rt_consumed_circuit_probes s) = map_of (rt_consumed_circuit_probes t) \<and>
     rt_account_circuit s = rt_account_circuit t \<and> rt_monthly_used s = rt_monthly_used t \<and>
     rt_time_high_water_ms s = rt_time_high_water_ms t \<and> rt_monthly_reset_at_ms s = rt_monthly_reset_at_ms t \<and>
     rt_external_uncertain_holds s = rt_external_uncertain_holds t \<and> rt_recovery_probe_id s = rt_recovery_probe_id t"

lemma dict_of_sorted: "dict_wf d \<Longrightarrow> dict_of (sort_key fst d) = sort_key fst (d :: ('k::linorder, 'v) dict)"
  by (simp add: dict_of_distinct dict_wf_sort_key)

lemma same_start_id: "st_attempt_id st = aid \<Longrightarrow> st\<lparr>st_attempt_id := aid\<rparr> = st"
  by (cases st) simp

lemma same_attempt_id: "at_attempt_id a = aid \<Longrightarrow> a\<lparr>at_attempt_id := aid\<rparr> = a"
  by (cases a) simp

lemma restore_keeps_starts:
  assumes "runtime_wf s"
  shows "map (\<lambda>(aid, st). (aid, st\<lparr>st_attempt_id := aid\<rparr>)) (sort_key fst (rt_starts s)) = sort_key fst (rt_starts s)"
    and "map (\<lambda>(aid, a). (aid, a\<lparr>at_attempt_id := aid\<rparr>)) (sort_key fst (rt_attempts s)) = sort_key fst (rt_attempts s)"
proof -
  have "st_attempt_id (snd p) = fst p" if "p \<in> set (rt_starts s)" for p
    using assms that by (auto simp: runtime_wf_def start_ok_def)
  then show "map (\<lambda>(aid, st). (aid, st\<lparr>st_attempt_id := aid\<rparr>)) (sort_key fst (rt_starts s)) = sort_key fst (rt_starts s)"
    by (intro map_idI) (force intro: same_start_id)
  have "at_attempt_id (snd p) = fst p" if "p \<in> set (rt_attempts s)" for p
    using assms that by (auto simp: runtime_wf_def attempt_ok_def)
  then show "map (\<lambda>(aid, a). (aid, a\<lparr>at_attempt_id := aid\<rparr>)) (sort_key fst (rt_attempts s)) = sort_key fst (rt_attempts s)"
    by (intro map_idI) (force intro: same_attempt_id)
qed

lemma restore_circuits:
  "(\<forall>p \<in> set d. circuit_ok (snd p)) \<Longrightarrow> res_mapM (\<lambda>(g, c). res_map (Pair g) (CircuitValue_validate c)) d = Inr d"
  by (intro res_mapM_id) (auto simp: circuit_ok_def)

text \<open>a checkpointed account restores to itself. The snapshot of a runtime that satisfies the
  invariant, with nonnegative times and a ledger within the bound, is accepted on restart and gives
  back every start, attempt, resolution, circuit, consumed probe and counter.\<close>

theorem snapshot_restores_runtime:
  assumes "runtime_wf s" "require_ints (snapshot_ints (snapshot_state s))"
    and "int (length (rt_resolutions s)) \<le> rt_resolution_ledger_limit s0"
  shows "\<exists>s'. restore_snapshot_state (snapshot_state s) s0 = Inr s' \<and> same_runtime s' s \<and> rt_account s' = rt_account s0"
proof -
  have wf: "dict_wf (rt_starts s)" "dict_wf (rt_attempts s)" "dict_wf (rt_resolutions s)" "dict_wf (rt_circuits s)"
    "dict_wf (rt_consumed_circuit_probes s)" and circuits: "\<forall>p \<in> set (rt_circuits s). circuit_ok (snd p)"
    and acc: "CircuitValue_validate (rt_account_circuit s) = Inr (rt_account_circuit s)"
    using assms(1) by (auto simp: runtime_wf_def circuit_ok_def)
  let ?s' = "s0\<lparr>rt_starts := sort_key fst (rt_starts s), rt_attempts := sort_key fst (rt_attempts s),
     rt_time_high_water_ms := rt_time_high_water_ms s, rt_resolutions := sort_key fst (rt_resolutions s),
     rt_consumed_circuit_probes := sort_key fst (rt_consumed_circuit_probes s), rt_monthly_used := rt_monthly_used s,
     rt_monthly_reset_at_ms := rt_monthly_reset_at_ms s, rt_external_uncertain_holds := rt_external_uncertain_holds s,
     rt_recovery_probe_id := rt_recovery_probe_id s, rt_account_circuit := rt_account_circuit s,
     rt_circuits := sort_key fst (rt_circuits s)\<rparr>"
  have "res_mapM (\<lambda>(g, c). res_map (Pair g) (CircuitValue_validate c)) (sort_key fst (rt_circuits s)) = Inr (sort_key fst (rt_circuits s))"
    by (rule restore_circuits) (use circuits in simp)
  then have "restore_snapshot_state (snapshot_state s) s0 = Inr ?s'"
    using assms(2,3) acc restore_keeps_starts [OF assms(1)]
    by (simp add: restore_snapshot_state_def snapshot_state_def dict_of_sorted wf)
  moreover have "same_runtime ?s' s" by (simp add: same_runtime_def map_of_sort_key wf)
  ultimately show ?thesis by simp
qed

section \<open>Replay agrees with the live methods\<close>

lemma circuit_ok_probe: "circuit_ok c \<Longrightarrow> ci_probe_id c \<noteq> None \<longleftrightarrow> ci_state c = CS_HALF_OPEN"
  by (cases "ci_state c") (auto simp: circuit_ok_def CircuitValue_validate_def checks_Inr)

lemma request_ok_circuit: "request_ok r \<Longrightarrow> circuit_ok (rr_circuit r)"
  by (auto simp: request_ok_def ReservationRequest_validate_def res_bind_Inr circuit_ok_def CircuitValue_validate_def checks_Inr)

lemma replay_probe_ids:
  assumes "request_ok r" "circuit_value s (rr_deployment_generation_id r) = rr_circuit r"
  shows "concat (map (\<lambda>p. case p of None \<Rightarrow> [] | Some i \<Rightarrow> [i]) [half_open_probe (rt_account_circuit s), ci_probe_id (rr_circuit r)])
    = reserve_probe_ids r s"
  using circuit_ok_probe [OF request_ok_circuit [OF assms(1)]] assms(2)
  by (auto simp: reserve_probe_ids_def half_open_probe_def Let_def split: option.splits)

lemma reserved_circuit:
  "reserved je clk r s \<Longrightarrow> circuit_value (reserve_state clk s) (rr_deployment_generation_id r) = rr_circuit r"
  using reserve_checks_None(7) [of r "max (rt_time_high_water_ms s) clk"
      "prune_resolutions (max (rt_time_high_water_ms s) clk) (tick clk s)"]
  by (simp add: reserved_def Let_def circuit_value_def)


definition resolution_record_of :: "(AttemptResolution \<Rightarrow> string) \<Rightarrow> attempt_id \<Rightarrow> AttemptResolution \<Rightarrow> int \<Rightarrow> resolution_record" where
  "resolution_record_of rd aid r now = \<lparr>rv_attempt_id = aid, rv_release_capacity = rs_release_capacity r,
     rv_actual_starts = rs_actual_starts r, rv_actual_token_units = rs_actual_token_units r,
     rv_actual_quota_units = rs_actual_quota_units r, rv_resolution_digest = rd r, rv_resolved_at_ms = now\<rparr>"

text \<open>replaying the record a resolution wrote gives exactly the state the resolution left, if the
  resolution carries no quota usage or the attempt was charged to the month the runtime is in.\<close>

theorem replay_matches_resolution:
  assumes "finish rd je clk aid r s = (x, s')" "je_append je = Inr receipt"
    and "\<not> dict_has (rt_resolutions s) aid" "dict_has (rt_resolutions s') aid"
    and "map_of (rt_attempts s) aid = Some a"
    and "rs_actual_quota_units r = None \<or> at_monthly_reset_at_ms a = rt_monthly_reset_at_ms s"
  shows "replay_resolved (resolution_record_of rd aid r (max (rt_time_high_water_ms s) clk)) receipt (tick clk s) = (Inr (), s')"
  using assms(1)
proof (cases rule: finish_cases)
  case refused
  then show ?thesis using assms(3,4) by auto
next
  case (recorded a' st receipt')
  then have eq: "a' = a" "receipt' = receipt" using assms(2,5) by auto
  have "settle_monthly r a (tick clk s) = replay_monthly (resolution_record_of rd aid r (max (rt_time_high_water_ms s) clk)) a (tick clk s)"
    using assms(6) by (auto simp: settle_monthly_def replay_monthly_def resolution_record_of_def split: option.splits)
  with recorded show ?thesis
    by (simp add: replay_resolved_def finished_state_def resolution_record_of_def settle_start_def replay_start_def Let_def eq)
qed

section \<open>Bindings\<close>

definition bindings_ok :: "histories \<Rightarrow> bool" where
  "bindings_ok h \<longleftrightarrow> (\<forall>acc b. map_of (h_account_binding h) acc = Some b \<longrightarrow> map_of (h_binding_history h) b = Some acc)"

definition extends :: "histories \<Rightarrow> histories \<Rightarrow> bool" where
  "extends h h' \<longleftrightarrow>
     (\<forall>acc b. map_of (h_account_binding h) acc = Some b \<longrightarrow> map_of (h_account_binding h') acc = Some b) \<and>
     (\<forall>acc. dict_get (h_credential_epoch_highwater h) acc 0 \<le> dict_get (h_credential_epoch_highwater h') acc 0)"

lemma bindings_ok_update:
  assumes "bindings_ok h" "\<And>owner. map_of (h_binding_history h) b0 = Some owner \<Longrightarrow> owner = a0"
  shows "\<forall>acc b. ((map_of (h_account_binding h))(a0 \<mapsto> b0)) acc = Some b \<longrightarrow>
    ((map_of (h_binding_history h))(b0 \<mapsto> a0)) b = Some acc"
proof (intro allI impI)
  fix acc b
  assume acc: "((map_of (h_account_binding h))(a0 \<mapsto> b0)) acc = Some b"
  show "((map_of (h_binding_history h))(b0 \<mapsto> a0)) b = Some acc"
  proof (cases "acc = a0")
    case True
    with acc show ?thesis by simp
  next
    case False
    with acc assms(1) have "map_of (h_binding_history h) b = Some acc" by (simp add: bindings_ok_def)
    with False assms(2) show ?thesis by auto
  qed
qed

lemma stage_account_Inr:
  assumes "stage_account bsha asha h a = Inr h'"
  shows "extends h h'" "bindings_ok h \<Longrightarrow> bindings_ok h'"
proof -
  let ?acc = "pa_account_id a" and ?b = "binding_digest bsha a"
  let ?c1 = "case map_of (h_account_binding h) ?acc of None \<Rightarrow> False | Some b \<Rightarrow> b \<noteq> ?b"
  let ?c2 = "?b \<noteq> [] \<and> (case map_of (h_binding_history h) ?b of None \<Rightarrow> False | Some owner \<Rightarrow> owner \<noteq> ?acc)"
  let ?h1 = "if ?b \<noteq> [] then h\<lparr>h_binding_history := AList.update ?b ?acc (h_binding_history h),
      h_account_binding := AList.update ?acc ?b (h_account_binding h)\<rparr> else h"
  have c1: "\<not> ?c1" using assms unfolding stage_account_def Let_def by (rule contrapos_pn) simp
  have c2: "\<not> ?c2" using assms c1 unfolding stage_account_def Let_def by (simp split del: option.split if_split split: if_split_asm)
  have epoch: "dict_get (h_credential_epoch_highwater h) ?acc 0 \<le> epoch_of a"
    and h': "h' = ?h1\<lparr>h_credential_epoch_highwater := AList.update ?acc (epoch_of a) (h_credential_epoch_highwater ?h1),
        h_credential_attestation_digest := AList.update ?acc (attestation_digest asha a) (h_credential_attestation_digest ?h1)\<rparr>"
    using assms unfolding stage_account_def Let_def if_not_P [OF c1] if_not_P [OF c2] by (auto split: if_split_asm)
  have ok: "\<And>b. map_of (h_account_binding h) ?acc = Some b \<Longrightarrow> b = ?b"
      "\<And>owner. ?b \<noteq> [] \<Longrightarrow> map_of (h_binding_history h) ?b = Some owner \<Longrightarrow> owner = ?acc"
    using c1 c2 by (auto split: option.splits)
  have ab: "h_account_binding h' = (if ?b \<noteq> [] then AList.update ?acc ?b (h_account_binding h) else h_account_binding h)"
    and bh: "h_binding_history h' = (if ?b \<noteq> [] then AList.update ?b ?acc (h_binding_history h) else h_binding_history h)"
    and ep: "h_credential_epoch_highwater h' = AList.update ?acc (epoch_of a) (h_credential_epoch_highwater h)"
    by (simp_all add: h')
  show "extends h h'" using ok(1) epoch by (auto simp: extends_def ab ep update_conv')
  show "bindings_ok h'" if "bindings_ok h"
    using that bindings_ok_update [OF that ok(2)] unfolding bindings_ok_def ab bh by (simp add: update_conv')
qed

lemma extends_trans: "extends h h' \<Longrightarrow> extends h' h'' \<Longrightarrow> extends h h''"
  unfolding extends_def by (meson order_trans)

lemma stage_accounts_Inr:
  "stage_accounts bsha asha h as = Inr h' \<Longrightarrow> extends h h' \<and> (bindings_ok h \<longrightarrow> bindings_ok h')"
proof (induction as arbitrary: h)
  case Nil
  then show ?case by (simp add: extends_def)
next
  case (Cons a as)
  then obtain h1 where "stage_account bsha asha h a = Inr h1" "stage_accounts bsha asha h1 as = Inr h'"
    by (auto simp: res_bind_Inr)
  with Cons.IH stage_account_Inr extends_trans show ?case by metis
qed

lemma install_histories: "install_account clk g a = Inr g' \<Longrightarrow> sy_histories g' = sy_histories g"
  by (auto simp: install_account_def Let_def res_map_Inr split: option.split_asm)

lemma installs_histories: "install_accounts clk g as = Inr g' \<Longrightarrow> sy_histories g' = sy_histories g"
  by (induction as arbitrary: g) (auto simp: res_bind_Inr dest!: install_histories)

lemma apply_publication_Inr:
  assumes "apply_publication bsha asha je clk accounts g = Inr g'"
  obtains validated h omitted where "res_mapM ProviderAccount_validate accounts = Inr validated"
    "distinct (map pa_account_id validated)" "stage_accounts bsha asha (sy_histories g) validated = Inr h"
    "omitted_accounts (map pa_account_id validated) g = Inr omitted"
    "install_accounts clk (g\<lparr>sy_histories := h\<rparr>) (validated @ omitted) = Inr g'"
  using assms
  by (auto simp: apply_publication_def staged_publication_def Let_def res_bind_Inr res_map_Inr split: if_split_asm)

lemma publication_histories:
  assumes "apply_publication bsha asha je clk accounts g = Inr g'"
  shows "extends (sy_histories g) (sy_histories g') \<and> (bindings_ok (sy_histories g) \<longrightarrow> bindings_ok (sy_histories g'))"
  by (rule apply_publication_Inr [OF assms]) (auto dest!: stage_accounts_Inr installs_histories)

inductive registry_step :: "binding_sha \<Rightarrow> attestation_sha \<Rightarrow> registry \<Rightarrow> registry \<Rightarrow> bool"
  for bsha :: binding_sha and asha :: attestation_sha where
  step_publication: "apply_publication bsha asha je clk accounts g = Inr g' \<Longrightarrow> registry_step bsha asha g g'"
| step_record: "apply_record rec g = Inr g' \<Longrightarrow> registry_step bsha asha g g'"
| step_registry_reserve: "registry_try_reserve pd je clk r g = (x, g') \<Longrightarrow> registry_step bsha asha g g'"
| step_recovery: "mark_recovered_attempts_uncertain je clk n g = Inr g' \<Longrightarrow> registry_step bsha asha g g'"

definition registry_init :: "registry \<Rightarrow> bool" where
  "registry_init g \<longleftrightarrow> (\<exists>clk limit retention accounts. g = fresh_registry clk limit retention accounts)"

lemma with_runtime_histories: "with_runtime acc f g = Inr g' \<Longrightarrow> sy_histories g' = sy_histories g"
  by (auto simp: with_runtime_def res_map_Inr split: option.split_asm)

lemma record_bindings:
  assumes "apply_record rec g = Inr g'" "bindings_ok (sy_histories g)"
  shows "bindings_ok (sy_histories g')"
proof (cases "jl_payload rec")
  case (AccountRegistered acc binding attestation epoch)
  then obtain h where h: "replay_registered acc binding attestation epoch (sy_histories g) = Inr h" and g': "sy_histories g' = h"
    using assms(1) by (auto simp: apply_record_def res_map_Inr)
  have owner: "\<And>owner. map_of (h_binding_history (sy_histories g)) binding = Some owner \<Longrightarrow> owner = acc"
    and ab: "h_account_binding h = AList.update acc binding (h_account_binding (sy_histories g))"
    and bh: "h_binding_history h = AList.update binding acc (h_binding_history (sy_histories g))"
    using h unfolding replay_registered_def Let_def by (auto split: if_split_asm option.split_asm)
  show ?thesis
    using bindings_ok_update [OF assms(2) owner] unfolding g' bindings_ok_def ab bh by (simp add: update_conv')
qed (use assms in \<open>auto simp: apply_record_def res_bind_Inr dest!: with_runtime_histories\<close>)

interpretation bindings: inductive_invariant registry_init "registry_step bsha asha" "\<lambda>g. bindings_ok (sy_histories g)"
proof
  show "bindings_ok (sy_histories g)" if "registry_init g" for g
    using that by (auto simp: registry_init_def fresh_registry_def bindings_ok_def)
  show "bindings_ok (sy_histories g')" if "bindings_ok (sy_histories g)" "registry_step bsha asha g g'" for g g'
    using that(2,1)
  proof cases
    case (step_publication je clk accounts)
    with publication_histories that(1) show ?thesis by blast
  next
    case (step_record rec)
    with record_bindings that(1) show ?thesis by blast
  next
    case (step_registry_reserve pd je clk r x)
    with that(1) show ?thesis
      by (auto simp: registry_try_reserve_def split: if_split_asm option.split_asm prod.split_asm)
  next
    case (step_recovery je clk n)
    with that(1) show ?thesis
      by (auto simp: mark_recovered_attempts_uncertain_def res_bind_Inr res_map_Inr split: if_split_asm)
  qed
qed

text \<open>C34: provider bindings are globally unique: in every registry reached by publications, replayed
  records, reservations and recovery, no two accounts are bound to the same provider credential.\<close>

theorem provider_bindings_unique:
  assumes "reachable registry_init (registry_step bsha asha) g"
    and "map_of (h_account_binding (sy_histories g)) acc = Some b"
      "map_of (h_account_binding (sy_histories g)) acc' = Some b"
  shows "acc = acc'"
  using bindings.invar_reachable [OF assms(1)] assms(2,3) unfolding bindings_ok_def by (metis option.inject)

text \<open>a publication never rebinds an account and never lowers a credential epoch; a rejected one
  changes nothing, because the registry it returns is an error.\<close>

theorem publication_never_rebinds:
  assumes "apply_publication bsha asha je clk accounts g = Inr g'"
  shows "(map_of (h_account_binding (sy_histories g)) acc = Some b \<longrightarrow> map_of (h_account_binding (sy_histories g')) acc = Some b) \<and>
    dict_get (h_credential_epoch_highwater (sy_histories g)) acc 0 \<le> dict_get (h_credential_epoch_highwater (sy_histories g')) acc 0"
  using publication_histories [OF assms] by (auto simp: extends_def)

section \<open>Publication keeps attempts and disables what it omits\<close>

lemma update_account_Inr:
  "update_account clk a rt = (Inr x, rt') \<Longrightarrow>
     rt_attempts rt' = rt_attempts rt \<and> rt_starts rt' = rt_starts rt \<and> rt_resolutions rt' = rt_resolutions rt \<and> rt_account rt' = a"
  by (auto simp: update_account_def Let_def split: if_split_asm)

definition kept :: "runtime \<Rightarrow> runtime \<Rightarrow> bool" where
  "kept rt rt' \<longleftrightarrow> rt_attempts rt' = rt_attempts rt \<and> rt_starts rt' = rt_starts rt \<and> rt_resolutions rt' = rt_resolutions rt"

lemma install_account_keeps:
  assumes "install_account clk g a = Inr g'" "map_of (sy_runtimes g) acc = Some rt"
  shows "\<exists>rt'. map_of (sy_runtimes g') acc = Some rt' \<and> kept rt rt' \<and>
    rt_account rt' = (if pa_account_id a = acc then a else rt_account rt)"
proof (cases "pa_account_id a = acc")
  case True
  obtain x rt' where u: "update_account clk a rt = (x, rt')" by fastforce
  with assms True obtain y where y: "x = Inr y" "sy_runtimes g' = AList.update acc rt' (sy_runtimes g)"
    by (auto simp: install_account_def Let_def res_map_Inr committed_Inr)
  with update_account_Inr [of clk a rt y rt'] u True show ?thesis by (simp add: kept_def update_conv')
next
  case False
  with assms show ?thesis
    by (auto simp: install_account_def Let_def res_map_Inr kept_def update_conv' split: option.split_asm)
qed

lemma install_accounts_keeps:
  "install_accounts clk g as = Inr g' \<Longrightarrow> map_of (sy_runtimes g) acc = Some rt \<Longrightarrow>
    \<exists>rt'. map_of (sy_runtimes g') acc = Some rt' \<and> kept rt rt' \<and>
      (if acc \<in> pa_account_id ` set as then rt_account rt' \<in> {a \<in> set as. pa_account_id a = acc} else rt_account rt' = rt_account rt)"
proof (induction as arbitrary: g rt)
  case Nil
  then show ?case by (simp add: kept_def)
next
  case (Cons a as)
  then obtain g1 where g1: "install_account clk g a = Inr g1" and rest: "install_accounts clk g1 as = Inr g'"
    by (auto simp: res_bind_Inr)
  from install_account_keeps [OF g1 Cons.prems(2)] obtain rt1 where rt1: "map_of (sy_runtimes g1) acc = Some rt1"
    "kept rt rt1" "rt_account rt1 = (if pa_account_id a = acc then a else rt_account rt)" by blast
  from Cons.IH [OF rest rt1(1)] obtain rt' where "map_of (sy_runtimes g') acc = Some rt'" "kept rt1 rt'"
    "if acc \<in> pa_account_id ` set as then rt_account rt' \<in> {a \<in> set as. pa_account_id a = acc} else rt_account rt' = rt_account rt1"
    by blast
  with rt1 show ?case by (intro exI [of _ rt']) (auto simp: kept_def split: if_split_asm)
qed

lemma ProviderAccount_validate_id: "ProviderAccount_validate a = Inr b \<Longrightarrow> pa_account_id b = pa_account_id a"
  by (auto simp: ProviderAccount_validate_def derive_and_guard_state_def res_bind_Inr checks_Inr split: if_split_asm)

lemma ProviderAccount_validate_disabled:
  "ProviderAccount_validate a = Inr b \<Longrightarrow> pa_state a = Some AS_DISABLED \<Longrightarrow> pa_state b = Some AS_DISABLED"
  by (auto simp: ProviderAccount_validate_def derive_and_guard_state_def res_bind_Inr checks_Inr split: if_split_asm)

definition registry_keyed :: "registry \<Rightarrow> bool" where
  "registry_keyed g \<longleftrightarrow> dict_wf (sy_runtimes g) \<and> list_all (\<lambda>(acc, rt). pa_account_id (rt_account rt) = acc) (sy_runtimes g)"

lemma list_all2_member:
  assumes "list_all2 P xs ys"
  shows "\<And>y. y \<in> set ys \<Longrightarrow> \<exists>x \<in> set xs. P x y" "\<And>x. x \<in> set xs \<Longrightarrow> \<exists>y \<in> set ys. P x y"
  using assms by (induction rule: list_all2_induct) auto

lemma omitted_accounts_spec:
  assumes "omitted_accounts selected g = Inr omitted" "registry_keyed g"
  shows "\<forall>a \<in> set omitted. pa_account_id a \<notin> set selected \<and> pa_state a = Some AS_DISABLED"
    and "map_of (sy_runtimes g) acc = Some rt \<Longrightarrow> acc \<notin> set selected \<Longrightarrow> pa_state (rt_account rt) = Some AS_ACTIVE \<Longrightarrow>
      acc \<in> pa_account_id ` set omitted"
proof -
  let ?f = "\<lambda>p. ProviderAccount_validate ((rt_account (snd p))\<lparr>pa_state := Some AS_DISABLED\<rparr>)"
  let ?ps = "filter (\<lambda>(acc, rt). acc \<notin> set selected \<and> pa_state (rt_account rt) = Some AS_ACTIVE) (sy_runtimes g)"
  have all2: "list_all2 (\<lambda>p a. ?f p = Inr a) ?ps omitted"
    using assms(1) by (simp add: omitted_accounts_def res_mapM_Inr split_beta)
  have keyed: "pa_account_id (rt_account (snd p)) = fst p" if "p \<in> set (sy_runtimes g)" for p
    using assms(2) that by (auto simp: registry_keyed_def list_all_iff)
  show "\<forall>a \<in> set omitted. pa_account_id a \<notin> set selected \<and> pa_state a = Some AS_DISABLED"
  proof
    fix a assume "a \<in> set omitted"
    then obtain p where "p \<in> set ?ps" "?f p = Inr a"
      using list_all2_member [OF all2] by blast
    then show "pa_account_id a \<notin> set selected \<and> pa_state a = Some AS_DISABLED"
      using ProviderAccount_validate_id ProviderAccount_validate_disabled keyed by fastforce
  qed
  show "acc \<in> pa_account_id ` set omitted"
    if "map_of (sy_runtimes g) acc = Some rt" "acc \<notin> set selected" "pa_state (rt_account rt) = Some AS_ACTIVE"
  proof -
    have p: "(acc, rt) \<in> set (sy_runtimes g)" using that(1) by (rule map_of_SomeD)
    with that have "(acc, rt) \<in> set ?ps" by simp
    then obtain a where "a \<in> set omitted" "?f (acc, rt) = Inr a"
      using list_all2_member [OF all2] by blast
    then show ?thesis using ProviderAccount_validate_id [of "(rt_account rt)\<lparr>pa_state := Some AS_DISABLED\<rparr>" a] keyed [OF p]
      by (auto intro: rev_image_eqI)
  qed
qed

text \<open>a publication never loses work and never leaves an omitted account serving: every known account
  keeps all its attempts, starts and resolutions, and an account that the publication does not list
  is not active afterwards.\<close>

theorem publication_keeps_attempts:
  assumes "apply_publication bsha asha je clk accounts g = Inr g'" "registry_keyed g"
    and "map_of (sy_runtimes g) acc = Some rt"
  shows "\<exists>rt'. map_of (sy_runtimes g') acc = Some rt' \<and> kept rt rt' \<and>
    (acc \<notin> pa_account_id ` set accounts \<longrightarrow> pa_state (rt_account rt') \<noteq> Some AS_ACTIVE)"
proof (rule apply_publication_Inr [OF assms(1)])
  fix validated h omitted
  assume v: "res_mapM ProviderAccount_validate accounts = Inr validated"
    and om: "omitted_accounts (map pa_account_id validated) g = Inr omitted"
    and inst: "install_accounts clk (g\<lparr>sy_histories := h\<rparr>) (validated @ omitted) = Inr g'"
  have ids: "pa_account_id ` set validated = pa_account_id ` set accounts"
  proof -
    have "list_all2 (\<lambda>a b. pa_account_id a = pa_account_id b) accounts validated"
      using v by (auto simp: res_mapM_Inr dest!: ProviderAccount_validate_id elim!: list_all2_mono)
    then have "map pa_account_id accounts = map pa_account_id validated"
      by (simp add: list_all2_map1 list_all2_map2 list.rel_eq [symmetric] list.rel_map)
    then show ?thesis by (metis list.set_map)
  qed
  from install_accounts_keeps [OF inst, of acc rt] assms(3) obtain rt' where
    rt': "map_of (sy_runtimes g') acc = Some rt'" "kept rt rt'"
      "if acc \<in> pa_account_id ` set (validated @ omitted)
       then rt_account rt' \<in> {a \<in> set (validated @ omitted). pa_account_id a = acc} else rt_account rt' = rt_account rt"
    by auto
  have "pa_state (rt_account rt') \<noteq> Some AS_ACTIVE" if out: "acc \<notin> pa_account_id ` set accounts"
  proof (cases "acc \<in> pa_account_id ` set omitted")
    case True
    then have "rt_account rt' \<in> set validated \<union> set omitted" "pa_account_id (rt_account rt') = acc"
      using rt'(3) by (auto split: if_split_asm)
    then have "rt_account rt' \<in> set omitted" using out ids by blast
    then show ?thesis using omitted_accounts_spec(1) [OF om assms(2)] by auto
  next
    case False
    then have "acc \<notin> pa_account_id ` set (validated @ omitted)" using out ids by (simp add: image_Un)
    then have "rt_account rt' = rt_account rt" using rt'(3) by (simp only: if_False)
    then show ?thesis using omitted_accounts_spec(2) [OF om assms(2,3)] out ids False by auto
  qed
  with rt' show ?thesis by blast
qed

section \<open>Recovery leaves nothing live\<close>

definition settled :: "runtime \<Rightarrow> bool" where
  "settled s \<longleftrightarrow> \<not> any_active s \<and> rt_recovery_probe_id s = None \<and> ci_state (rt_account_circuit s) \<noteq> CS_HALF_OPEN \<and>
     list_all (\<lambda>(_, c). ci_state c \<noteq> CS_HALF_OPEN) (rt_circuits s)"

lemma reopen_state: "reopen now c = Inr c' \<Longrightarrow> ci_state c' = CS_OPEN"
  by (auto simp: reopen_def CircuitValue_validate_def checks_Inr)

lemma reopen_epoch: "reopen now c = Inr c' \<Longrightarrow> ci_epoch c' = ci_epoch c + 1"
  by (auto simp: reopen_def CircuitValue_validate_def checks_Inr)

lemma release_probe_fields [simp]:
  "rt_attempts (release_probe c s) = rt_attempts s" "rt_recovery_probe_id (release_probe c s) = rt_recovery_probe_id s"
  "rt_account_circuit (release_probe c s) = rt_account_circuit s" "rt_circuits (release_probe c s) = rt_circuits s"
  by (simp_all add: release_probe_def split: option.splits)

definition same_but_circuits :: "runtime \<Rightarrow> runtime \<Rightarrow> bool" where
  "same_but_circuits s s' \<longleftrightarrow> rt_attempts s' = rt_attempts s \<and> rt_recovery_probe_id s' = rt_recovery_probe_id s"

lemma reopen_account_circuit_Inr:
  assumes "reopen_account_circuit je clk s = Inr s'"
  shows "same_but_circuits s s' \<and> rt_circuits s' = rt_circuits s \<and> ci_state (rt_account_circuit s') \<noteq> CS_HALF_OPEN"
proof (cases "ci_state (rt_account_circuit s) = CS_HALF_OPEN")
  case True
  with assms obtain c' where c': "reopen (max (rt_time_high_water_ms s) clk) (rt_account_circuit s) = Inr c'"
    and cas: "\<exists>x. compare_and_swap_account_circuit je (rt_account_circuit s) c' (tick clk s) = (Inr x, s')"
    by (auto simp: reopen_account_circuit_def Let_def res_bind_Inr committed_Inr)
  have "ci_epoch c' = ci_epoch (rt_account_circuit s) + 1" "ci_state c' = CS_OPEN"
    using reopen_epoch [OF c'] reopen_state [OF c'] by auto
  then show ?thesis using cas
    by (auto simp: compare_and_swap_account_circuit_def same_but_circuits_def split: if_split_asm sum.split_asm)
qed (use assms in \<open>auto simp: reopen_account_circuit_def Let_def same_but_circuits_def\<close>)

lemma reopen_circuit_Inr:
  assumes "reopen_circuit je clk p s = Inr s'" "map_of (rt_circuits s) (fst p) = Some (snd p)"
  shows "same_but_circuits s s' \<and> rt_account_circuit s' = rt_account_circuit s \<and>
    (\<exists>c'. ci_state c' \<noteq> CS_HALF_OPEN \<and> map_of (rt_circuits s') = (map_of (rt_circuits s))(fst p \<mapsto> c')) \<and>
    (dict_wf (rt_circuits s) \<longrightarrow> dict_wf (rt_circuits s'))"
proof (cases "ci_state (snd p) = CS_HALF_OPEN")
  case True
  with assms(1) obtain c' x where c': "reopen (max (rt_time_high_water_ms s) clk) (snd p) = Inr c'"
    and cas: "compare_and_swap_circuit je (fst p) (snd p) c' (tick clk s) = (Inr x, s')"
    by (auto simp: reopen_circuit_def Let_def res_bind_Inr committed_Inr)
  have new: "ci_epoch c' = ci_epoch (snd p) + 1" "ci_state c' = CS_OPEN" using reopen_epoch [OF c'] reopen_state [OF c'] by auto
  have "circuit_value (tick clk s) (fst p) = snd p" using assms(2) by (simp add: circuit_value_def dict_get_def)
  with cas new have "same_but_circuits s s'" "rt_account_circuit s' = rt_account_circuit s"
    "rt_circuits s' = AList.update (fst p) c' (rt_circuits s)"
    by (auto simp: compare_and_swap_circuit_def same_but_circuits_def Let_def split: if_split_asm sum.split_asm)
  with new show ?thesis by (intro conjI exI [of _ c']) (simp_all add: update_conv' distinct_update)
next
  case False
  with assms have "s' = s" by (simp add: reopen_circuit_def)
  with False assms(2) show ?thesis
    by (intro conjI exI [of _ "snd p"]) (auto simp: same_but_circuits_def fun_upd_idem)
qed

lemma reopen_circuits_Inr:
  "reopen_circuits je clk ps s = Inr s' \<Longrightarrow> distinct (map fst ps) \<Longrightarrow> dict_wf (rt_circuits s) \<Longrightarrow>
    (\<forall>p \<in> set ps. map_of (rt_circuits s) (fst p) = Some (snd p)) \<Longrightarrow>
    same_but_circuits s s' \<and> rt_account_circuit s' = rt_account_circuit s \<and> dict_wf (rt_circuits s') \<and>
    (\<forall>g c. map_of (rt_circuits s') g = Some c \<longrightarrow> ci_state c = CS_HALF_OPEN \<longrightarrow>
       g \<notin> fst ` set ps \<and> map_of (rt_circuits s) g = Some c)"
proof (induction ps arbitrary: s)
  case Nil
  then show ?case by (simp add: same_but_circuits_def)
next
  case (Cons p ps)
  then obtain s1 where s1: "reopen_circuit je clk p s = Inr s1" and rest: "reopen_circuits je clk ps s1 = Inr s'"
    by (auto simp: res_bind_Inr)
  from reopen_circuit_Inr [OF s1] Cons.prems(3,4) obtain c' where one: "same_but_circuits s s1" "rt_account_circuit s1 = rt_account_circuit s"
    "ci_state c' \<noteq> CS_HALF_OPEN" "map_of (rt_circuits s1) = (map_of (rt_circuits s))(fst p \<mapsto> c')" "dict_wf (rt_circuits s1)"
    by auto
  have "\<forall>q \<in> set ps. map_of (rt_circuits s1) (fst q) = Some (snd q)"
    using Cons.prems(2,4) one(4) by (auto simp: image_iff)
  from Cons.IH [OF rest _ one(5) this] Cons.prems(2) one show ?case
    by (auto simp: same_but_circuits_def split: if_split_asm)
qed

lemma recover_runtime_Inr:
  assumes "recover_runtime je clk s = Inr s'" "dict_wf (rt_circuits s)"
  shows "settled s' \<and> map fst (rt_attempts s') = map fst (rt_attempts s)"
proof -
  obtain s1 s2 s3 where
    s1: "(if any_active s then res_map (\<lambda>_. uncertain_attempts s) (je_append je) else Inr s) = Inr s1"
    and s2: "(if rt_recovery_probe_id s1 = None then Inr s1 else res_map (\<lambda>_. finish_probe_state PC_INCONCLUSIVE s1) (je_append je)) = Inr s2"
    and s3: "reopen_account_circuit je clk s2 = Inr s3" and s4: "reopen_circuits je clk (rt_circuits s3) s3 = Inr s'"
    using assms(1) by (auto simp: recover_runtime_def res_bind_Inr)
  have one: "\<not> any_active s1 \<and> map fst (rt_attempts s1) = map fst (rt_attempts s) \<and> rt_circuits s1 = rt_circuits s"
    using s1 by (auto simp: uncertain_attempts_def any_active_def list_ex_iff res_map_Inr split: if_split_asm)
  have two: "rt_recovery_probe_id s2 = None \<and> rt_attempts s2 = rt_attempts s1 \<and> rt_circuits s2 = rt_circuits s1"
    using s2 by (auto simp: finish_probe_state_def res_map_Inr split: if_split_asm)
  note three = reopen_account_circuit_Inr [OF s3]
  have wf: "dict_wf (rt_circuits s3)" using assms(2) one two three by simp
  then have "\<forall>p \<in> set (rt_circuits s3). map_of (rt_circuits s3) (fst p) = Some (snd p)" by simp
  note four = reopen_circuits_Inr [OF s4 wf wf this]
  have att: "rt_attempts s' = rt_attempts s1" "rt_recovery_probe_id s' = None"
    using two three four by (auto simp: same_but_circuits_def)
  moreover have "ci_state c \<noteq> CS_HALF_OPEN" if "(g, c) \<in> set (rt_circuits s')" for g c
  proof
    assume half: "ci_state c = CS_HALF_OPEN"
    have "map_of (rt_circuits s') g = Some c" using that four by (simp add: map_of_in_wf [symmetric])
    with half four have "g \<notin> fst ` set (rt_circuits s3)" "map_of (rt_circuits s3) g = Some c" by blast+
    then show False by (force dest: map_of_SomeD)
  qed
  ultimately show ?thesis using one three four by (auto simp: settled_def any_active_def list_all_iff)
qed

text \<open>C32: after a restart on a journal with history, every attempt recovered is uncertain and still holds
  its slot, no recovery probe is in flight and no circuit is half open: nothing that may have
  reached a provider is treated as finished.\<close>

theorem recovery_leaves_nothing_live:
  assumes "mark_recovered_attempts_uncertain je clk n g = Inr g'" "n \<noteq> 0"
    and "list_all (\<lambda>(_, rt). dict_wf (rt_circuits rt)) (sy_runtimes g)"
  shows "list_all2 (\<lambda>p p'. fst p' = fst p \<and> settled (snd p') \<and>
    map fst (rt_attempts (snd p')) = map fst (rt_attempts (snd p))) (sy_runtimes g) (sy_runtimes g')"
proof -
  have "res_mapM (\<lambda>(acc, rt). res_map (Pair acc) (recover_runtime je clk rt)) (sy_runtimes g) = Inr (sy_runtimes g')"
    using assms(1,2) by (auto simp: mark_recovered_attempts_uncertain_def res_bind_Inr res_map_Inr)
  then have "list_all2 (\<lambda>p p'. fst p' = fst p \<and> recover_runtime je clk (snd p) = Inr (snd p')) (sy_runtimes g) (sy_runtimes g')"
    by (auto simp: res_mapM_Inr res_map_Inr split_beta elim!: list_all2_mono)
  then show ?thesis
    using assms(3) recover_runtime_Inr by (auto simp: list_all2_conv_all_nth list_all_length split_beta)
qed

section \<open>The month is forgotten on replay\<close>

text \<open>
  \<open>_finish\<close> adjusts the monthly counter only when the attempt was charged to the month the runtime is
  in; \<open>_apply_record\<close> adjusts it always. The run below reserves \<open>att_1\<close> in one month and \<open>att_2\<close> in the
  next, then resolves \<open>att_1\<close> as unused. Live, the five units of \<open>att_2\<close> stay charged; replayed from the
  three records, they are gone.
\<close>

definition late_request :: "attempt_id \<Rightarrow> ReservationRequest" where
  "late_request aid = (sample_request aid (CircuitValue_closed 0))\<lparr>rr_deadline_at_ms := 3000000\<rparr>"

definition next_month_account :: ProviderAccount where
  "next_month_account = active_account\<lparr>pa_monthly_reset_at_ms := Some 2000000\<rparr>"

definition unused_resolution :: AttemptResolution where
  "unused_resolution = \<lparr>rs_outcome = OUTCOME_CLIENT_CANCELLED, rs_release_capacity = True, rs_actual_starts = Some 0,
     rs_actual_token_units = Some 0, rs_actual_quota_units = Some 0\<rparr>"

definition live_1 :: runtime where
  "live_1 = snd (try_reserve sample_pd sample_env 2000 (late_request ''att_1'') sample_runtime)"

definition live_2 :: runtime where
  "live_2 = snd (update_account 1000001 next_month_account live_1)"

definition live_3 :: runtime where
  "live_3 = snd (try_reserve sample_pd sample_env 1000002 (late_request ''att_2'') live_2)"

definition live_4 :: runtime where
  "live_4 = snd (finish sample_rd sample_env 1000003 ''att_1'' unused_resolution live_3)"

definition month_records :: "JournalRecord list" where
  "month_records =
    [\<lparr>jl_sequence = 1, jl_payload = AttemptReserved
        (durable_reservation sample_pd (late_request ''att_1'') 2000 (reserve_state 2000 sample_runtime)), jl_digest = ''d''\<rparr>,
     \<lparr>jl_sequence = 2, jl_payload = AttemptReserved
        (durable_reservation sample_pd (late_request ''att_2'') 1000002 (reserve_state 1000002 live_2)), jl_digest = ''d''\<rparr>,
     \<lparr>jl_sequence = 3, jl_payload = AttemptResolved
        (resolution_record_of sample_rd ''att_1'' unused_resolution 1000003), jl_digest = ''d''\<rparr>]"

definition replayed :: "registry res" where
  "replayed = apply_records month_records (fresh_registry 1000004 10 60000 [next_month_account])"


section \<open>Witnesses\<close>

lemma reserve_sample_step: "runtime_step sample_pd sample_rd sample_runtime (snd reserve_sample)"
  unfolding reserve_sample_def by (rule step_reserve [OF sample_request_ok(1)]) (rule prod.collapse [symmetric])

lemma reserve_sample_wf: "runtime_wf (snd reserve_sample)"
proof -
  have "runtime_init sample_runtime" using sample_account_ok by (auto simp: runtime_init_def)
  then show ?thesis using wf_step [OF runtime_wf_init reserve_sample_step] by blast
qed

theorem snapshot_restores_runtime_witness:
  "\<exists>s'. restore_snapshot_state (snapshot_state (snd reserve_sample)) sample_runtime = Inr s' \<and> same_runtime s' (snd reserve_sample)"
proof -
  have "require_ints (snapshot_ints (snapshot_state (snd reserve_sample)))"
    "int (length (rt_resolutions (snd reserve_sample))) \<le> rt_resolution_ledger_limit sample_runtime" by code_simp+
  then show ?thesis using snapshot_restores_runtime [OF reserve_sample_wf] by blast
qed


theorem replay_matches_resolution_witness:
  "replay_resolved (resolution_record_of sample_rd ''att_1'' (done_sample True) 3000) \<lparr>jr_durable_lsn = 1, jr_record_digest = ''d''\<rparr>
     (tick 3000 (snd reserve_sample)) = (Inr (), snd (finish_sample True))"
proof -
  have f: "finish sample_rd sample_env 3000 ''att_1'' (done_sample True) (snd reserve_sample) = (fst (finish_sample True), snd (finish_sample True))"
    by (simp add: finish_sample_def)
  have "je_append sample_env = Inr \<lparr>jr_durable_lsn = 1, jr_record_digest = ''d''\<rparr>"
    "\<not> dict_has (rt_resolutions (snd reserve_sample)) ''att_1''" "dict_has (rt_resolutions (snd (finish_sample True))) ''att_1''"
    "max (rt_time_high_water_ms (snd reserve_sample)) 3000 = 3000"
    by code_simp+
  moreover have "map_option (\<lambda>a. at_monthly_reset_at_ms a = rt_monthly_reset_at_ms (snd reserve_sample))
      (map_of (rt_attempts (snd reserve_sample)) ''att_1'') = Some True" by code_simp
  then obtain a where "map_of (rt_attempts (snd reserve_sample)) ''att_1'' = Some a"
    "at_monthly_reset_at_ms a = rt_monthly_reset_at_ms (snd reserve_sample)" by auto
  ultimately show ?thesis using replay_matches_resolution [OF f] by metis
qed

definition sample_bsha :: binding_sha where
  "sample_bsha p = fst p @ fst (snd p) @ snd (snd p)"

definition sample_asha :: attestation_sha where
  "sample_asha f = f"

definition published_1 :: registry where
  "published_1 = projr (apply_publication sample_bsha sample_asha sample_env 1000 [active_account] (fresh_registry 1000 10 60000 [active_account]))"

definition second_account :: ProviderAccount where
  "second_account = active_account\<lparr>pa_account_id := ''acc_2'', pa_connection := ''other''\<rparr>"

definition published_2 :: registry where
  "published_2 = projr (apply_publication sample_bsha sample_asha sample_env 2000 [second_account] published_1)"

lemma published_1_step: "apply_publication sample_bsha sample_asha sample_env 1000 [active_account] (fresh_registry 1000 10 60000 [active_account]) = Inr published_1"
proof -
  have "is_ok (apply_publication sample_bsha sample_asha sample_env 1000 [active_account] (fresh_registry 1000 10 60000 [active_account]))"
    by code_simp
  then show ?thesis by (auto simp: is_ok_iff published_1_def)
qed

lemma published_2_step: "apply_publication sample_bsha sample_asha sample_env 2000 [second_account] published_1 = Inr published_2"
proof -
  have "is_ok (apply_publication sample_bsha sample_asha sample_env 2000 [second_account] published_1)" by code_simp
  then show ?thesis by (auto simp: is_ok_iff published_2_def)
qed

lemma published_reachable: "reachable registry_init (registry_step sample_bsha sample_asha) published_2"
proof -
  have "reachable registry_init (registry_step sample_bsha sample_asha) (fresh_registry 1000 10 60000 [active_account])"
    by (rule reachable.start) (auto simp: registry_init_def)
  then show ?thesis using published_1_step published_2_step by (blast intro: reachable.step step_publication)
qed

theorem provider_bindings_unique_witness:
  "\<exists>b. map_of (h_account_binding (sy_histories published_2)) ''acc_1'' = Some b \<and>
     (\<forall>acc. map_of (h_account_binding (sy_histories published_2)) acc = Some b \<longrightarrow> acc = ''acc_1'')"
proof -
  have "map_of (h_account_binding (sy_histories published_2)) ''acc_1'' = Some (''sha256:'' @ ''ctb'')" by code_simp
  then show ?thesis using provider_bindings_unique [OF published_reachable] by blast
qed

theorem publication_never_rebinds_witness:
  "map_of (h_account_binding (sy_histories published_1)) ''acc_1'' = Some (''sha256:'' @ ''ctb'') \<and>
   map_of (h_account_binding (sy_histories published_2)) ''acc_1'' = Some (''sha256:'' @ ''ctb'')"
proof -
  have "map_of (h_account_binding (sy_histories published_1)) ''acc_1'' = Some (''sha256:'' @ ''ctb'')" by code_simp
  then show ?thesis using publication_never_rebinds [OF published_2_step] by blast
qed

theorem publication_keeps_attempts_witness:
  "\<exists>rt'. map_of (sy_runtimes published_2) ''acc_1'' = Some rt' \<and> pa_state (rt_account rt') \<noteq> Some AS_ACTIVE"
proof -
  have "registry_keyed published_1" by code_simp
  moreover have "map_option (\<lambda>_. ()) (map_of (sy_runtimes published_1) ''acc_1'') = Some ()" by code_simp
  then obtain rt where "map_of (sy_runtimes published_1) ''acc_1'' = Some rt" by auto
  moreover have "''acc_1'' \<notin> pa_account_id ` set [second_account]" by code_simp
  ultimately show ?thesis using publication_keeps_attempts [OF published_2_step] by blast
qed

definition crashed :: registry where
  "crashed = (fresh_registry 1000 10 60000 [active_account])\<lparr>sy_runtimes := [(''acc_1'', snd probe_sample)]\<rparr>"

definition recovered :: registry where
  "recovered = projr (mark_recovered_attempts_uncertain sample_env 5000 3 crashed)"

theorem recovery_leaves_nothing_live_witness:
  "any_active (snd probe_sample) \<and> (\<exists>rt. sy_runtimes recovered = [(''acc_1'', rt)] \<and> settled rt \<and> map fst (rt_attempts rt) = [''att_1''])"
proof
  show "any_active (snd probe_sample)" by code_simp
  have "is_ok (mark_recovered_attempts_uncertain sample_env 5000 3 crashed)" by code_simp
  then have "mark_recovered_attempts_uncertain sample_env 5000 3 crashed = Inr recovered"
    by (auto simp: is_ok_iff recovered_def)
  moreover have "list_all (\<lambda>(_, rt). dict_wf (rt_circuits rt)) (sy_runtimes crashed)" "(3::int) \<noteq> 0" by code_simp+
  ultimately have "list_all2 (\<lambda>p p'. fst p' = fst p \<and> settled (snd p') \<and> map fst (rt_attempts (snd p')) = map fst (rt_attempts (snd p)))
      [(''acc_1'', snd probe_sample)] (sy_runtimes recovered)"
    using recovery_leaves_nothing_live [of sample_env 5000 3 crashed recovered] by (simp add: crashed_def)
  moreover have "map fst (rt_attempts (snd probe_sample)) = [''att_1'']" by code_simp
  ultimately show "\<exists>rt. sy_runtimes recovered = [(''acc_1'', rt)] \<and> settled rt \<and> map fst (rt_attempts rt) = [''att_1'']"
    by (auto simp: list_all2_Cons1)
qed

end
