(* ===== verification/Key_Material.thy ===== *)
theory Key_Material
  imports Prelude
begin

text \<open>
  The client key grammar and verifier material (\<open>core/key_material.py\<close>). Bytes are strings, one
  character per byte; HMAC-SHA256 is the argument \<open>mac\<close> (key, message). The base64 functions and
  \<open>bytes.hex\<close>/\<open>bytes.fromhex\<close> of the standard library are written out; the regular expressions
  of the module are bool-valued functions.
\<close>

section \<open>Hexadecimal and base64\<close>

definition HEX_DIGITS :: string where
  "HEX_DIGITS = ''0123456789abcdef''"

definition hex_digit :: "nat \<Rightarrow> char" where
  "hex_digit n = HEX_DIGITS ! n"

definition hex_value :: "char \<Rightarrow> nat option" where
  "hex_value c = index_of HEX_DIGITS c"

definition hex_of :: "string \<Rightarrow> string" where
  "hex_of bs = concat (map (\<lambda>b. [hex_digit (of_char b div 16), hex_digit (of_char b mod 16)]) bs)"

text \<open>\<open>bytes.fromhex\<close> on the lower-case digits that the digest fields of the models admit.\<close>

fun fromhex :: "string \<Rightarrow> string option" where
  "fromhex [] = Some []"
| "fromhex [c] = None"
| "fromhex (c # d # cs) =
    (case (hex_value c, hex_value d, fromhex cs) of
       (Some h, Some l, Some rest) \<Rightarrow> Some (char_of (16 * h + l) # rest) | _ \<Rightarrow> None)"

definition B64_ALPHABET :: string where
  "B64_ALPHABET = ''ABCDEFGHIJKLMNOPQRSTUVWXYZabcdefghijklmnopqrstuvwxyz0123456789-_''"

definition b64_digit :: "nat \<Rightarrow> char" where
  "b64_digit n = B64_ALPHABET ! n"

definition b64_value :: "char \<Rightarrow> nat option" where
  "b64_value c = (if c = CHR ''+'' then Some 62 else if c = CHR ''/'' then Some 63 else index_of B64_ALPHABET c)"

fun encode_sextets :: "nat list \<Rightarrow> nat list" where
  "encode_sextets [] = []"
| "encode_sextets [a] = [a div 4, a mod 4 * 16]"
| "encode_sextets [a, b] = [a div 4, a mod 4 * 16 + b div 16, b mod 16 * 4]"
| "encode_sextets (a # b # c # r) =
    [a div 4, a mod 4 * 16 + b div 16, b mod 16 * 4 + c div 64, c mod 64] @ encode_sextets r"

text \<open>The decoder gets the text without its padding; one trailing character is the padding error.
  Surplus low bits of a last group are dropped, as \<open>binascii\<close> does.\<close>

fun decode_sextets :: "nat list \<Rightarrow> nat list option" where
  "decode_sextets [] = Some []"
| "decode_sextets [p] = None"
| "decode_sextets [p, q] = Some [p * 4 + q div 16]"
| "decode_sextets [p, q, s] = Some [p * 4 + q div 16, q mod 16 * 16 + s div 4]"
| "decode_sextets (p # q # s # t # r) =
    map_option (\<lambda>bs. [p * 4 + q div 16, q mod 16 * 16 + s div 4, s mod 4 * 64 + t] @ bs) (decode_sextets r)"

definition encode_b64 :: "string \<Rightarrow> string" where
  "encode_b64 value = map b64_digit (encode_sextets (map of_char value))"

definition b64decode :: "string \<Rightarrow> string option" where
  "b64decode value =
    (if list_all (\<lambda>c. b64_value c \<noteq> None) value
     then map_option (map char_of) (decode_sextets (map (\<lambda>c. the (b64_value c)) value)) else None)"

section \<open>The grammar\<close>

record ParsedClientKey =
  pk_key_id :: string
  pk_key_id_bytes :: string
  pk_secret :: string

datatype parsed_key = ParsedCanonical ParsedClientKey | ParsedLegacy string

definition decode_canonical :: "string \<Rightarrow> nat \<Rightarrow> string res" where
  "decode_canonical value expected_bytes =
    (case b64decode value of
       None \<Rightarrow> Inl InvalidClientKeyMaterial
     | Some decoded \<Rightarrow>
         if length decoded \<noteq> expected_bytes \<or> encode_b64 decoded \<noteq> value then Inl InvalidClientKeyMaterial
         else Inr decoded)"

definition token_matches :: "string \<Rightarrow> bool" where
  "token_matches value \<longleftrightarrow> length value = 72 \<and> take 6 value = ''lmxk1.'' \<and>
     list_all (\<lambda>c. c \<in> set B64_ALPHABET) (take 22 (drop 6 value)) \<and> value ! 28 = CHR ''.'' \<and>
     list_all (\<lambda>c. c \<in> set B64_ALPHABET) (drop 29 value)"

definition parse_client_key_material :: "string \<Rightarrow> ParsedClientKey res" where
  "parse_client_key_material value =
    (if \<not> token_matches value then Inl InvalidClientKeyMaterial
     else res_bind (decode_canonical (take 22 (drop 6 value)) 16) (\<lambda>key_id_bytes.
          res_bind (decode_canonical (drop 29 value) 32) (\<lambda>secret.
            Inr \<lparr>pk_key_id = hex_of key_id_bytes, pk_key_id_bytes = key_id_bytes, pk_secret = secret\<rparr>)))"

definition legacy_token_matches :: "string \<Rightarrow> bool" where
  "legacy_token_matches value \<longleftrightarrow> take 3 value = ''sk-'' \<and> 8 \<le> length value \<and> length value \<le> 512 \<and>
     list_all (\<lambda>c. 0x21 \<le> (of_char c :: nat) \<and> (of_char c :: nat) \<le> 0x7e) (drop 3 value)"

definition parse_legacy_client_key_material :: "string \<Rightarrow> string res" where
  "parse_legacy_client_key_material value =
    (if list_ex (\<lambda>c. 128 \<le> (of_char c :: nat)) value then Inl InvalidClientKeyMaterial
     else if \<not> legacy_token_matches value \<or> length value > 512
        \<or> list_ex (\<lambda>c. (of_char c :: nat) \<le> 0x20 \<or> (of_char c :: nat) = 0x7f) value
     then Inl InvalidClientKeyMaterial else Inr value)"

definition format_client_key :: "string \<Rightarrow> string \<Rightarrow> string res" where
  "format_client_key key_id secret =
    (if length key_id \<noteq> 16 \<or> length secret \<noteq> 32
     then Inl (ValueError ''client key requires 128-bit ID and 256-bit secret'')
     else Inr (''lmxk1.'' @ encode_b64 key_id @ ''.'' @ encode_b64 secret))"

section \<open>Verifier material\<close>

type_synonym mac = "string \<Rightarrow> string \<Rightarrow> string"

definition CLIENT_KEY_DOMAIN :: string where
  "CLIENT_KEY_DOMAIN = ''llmmaxxing-client-key-v1'' @ [CHR 0x00]"

definition LEGACY_CLIENT_KEY_DOMAIN :: string where
  "LEGACY_CLIENT_KEY_DOMAIN = ''llmmaxxing-legacy-client-key-v1'' @ [CHR 0x00]"

definition compute_client_key_verifier :: "mac \<Rightarrow> string \<Rightarrow> string \<Rightarrow> string \<Rightarrow> string res" where
  "compute_client_key_verifier mac pepper key_id secret =
    (if length key_id \<noteq> 16 \<or> length secret \<noteq> 32
     then Inl (ValueError ''client key verifier requires 128-bit ID and 256-bit secret'')
     else Inr (mac pepper (CLIENT_KEY_DOMAIN @ key_id @ secret)))"

definition compute_legacy_key_fingerprint :: "mac \<Rightarrow> string \<Rightarrow> string \<Rightarrow> string res" where
  "compute_legacy_key_fingerprint mac pepper encoded =
    (if length pepper < 32 \<or> length encoded > 512 \<or> take 3 encoded \<noteq> ''sk-''
     then Inl (ValueError ''invalid legacy client key fingerprint input'')
     else Inr (mac pepper (LEGACY_CLIENT_KEY_DOMAIN @ encoded)))"

section \<open>The encoders are injective\<close>

lemma index_of_nth: "distinct xs \<Longrightarrow> n < length xs \<Longrightarrow> index_of xs (xs ! n) = Some n"
  by (induction xs arbitrary: n) (auto simp: nth_Cons' split: nat.split)

lemma b64_alphabet: "distinct B64_ALPHABET" "length B64_ALPHABET = 64" "CHR ''+'' \<notin> set B64_ALPHABET" "CHR ''/'' \<notin> set B64_ALPHABET"
  by (simp_all add: B64_ALPHABET_def)

lemma b64_digit_in: "n < 64 \<Longrightarrow> b64_digit n \<in> set B64_ALPHABET"
  by (simp add: b64_digit_def b64_alphabet)

lemma b64_value_in: "c \<in> set B64_ALPHABET \<Longrightarrow> b64_value c = index_of B64_ALPHABET c"
  using b64_alphabet by (auto simp: b64_value_def)

lemma b64_value_digit: "n < 64 \<Longrightarrow> b64_value (b64_digit n) = Some n"
  by (simp add: b64_value_in b64_digit_in) (simp add: b64_digit_def index_of_nth b64_alphabet)

lemma encode_sextets_bound: "\<forall>a \<in> set as. a < 256 \<Longrightarrow> s \<in> set (encode_sextets as) \<Longrightarrow> s < 64"
  by (induction as rule: encode_sextets.induct) (auto; presburger)+

lemma decode_encode_sextets: "\<forall>a \<in> set as. a < 256 \<Longrightarrow> decode_sextets (encode_sextets as) = Some as"
  by (induction as rule: encode_sextets.induct) (auto; presburger)+

lemma length_encode_sextets: "length (encode_sextets as) = (4 * length as + 2) div 3"
  by (induction as rule: encode_sextets.induct) simp_all

lemma length_encode_b64: "length (encode_b64 bs) = (4 * length bs + 2) div 3"
  by (simp add: encode_b64_def length_encode_sextets)

lemma byte_bound: "\<forall>a \<in> set (map of_char (bs :: string)). a < (256 :: nat)"
  by simp

lemma encode_b64_alphabet: "list_all (\<lambda>c. c \<in> set B64_ALPHABET) (encode_b64 bs)"
  using encode_sextets_bound [OF byte_bound, of _ bs] by (auto simp: encode_b64_def list_all_iff intro: b64_digit_in)

lemma b64decode_encode: "b64decode (encode_b64 bs) = Some bs"
proof -
  let ?ss = "encode_sextets (map of_char bs)"
  have val: "map (\<lambda>c. the (b64_value c)) (encode_b64 bs) = ?ss"
    unfolding encode_b64_def map_map
    by (intro map_idI) (use encode_sextets_bound [OF byte_bound] in \<open>auto simp: b64_value_digit\<close>)
  have "list_all (\<lambda>c. b64_value c \<noteq> None) (encode_b64 bs)"
    using encode_b64_alphabet [of bs] index_of_None [of B64_ALPHABET]
    by (auto simp: list_all_iff b64_value_in simp del: not_None_eq)
  moreover have "decode_sextets ?ss = Some (map of_char bs)" by (rule decode_encode_sextets [OF byte_bound])
  ultimately show ?thesis by (simp add: b64decode_def val comp_def)
qed

lemma decode_canonical_Inr:
  "decode_canonical value n = Inr bs \<longleftrightarrow> length bs = n \<and> value = encode_b64 bs"
  by (auto simp: decode_canonical_def b64decode_encode split: option.split)

lemma hex_value_digit: "n < 16 \<Longrightarrow> hex_value (hex_digit n) = Some n"
proof -
  have "distinct HEX_DIGITS" "length HEX_DIGITS = 16" by (simp_all add: HEX_DIGITS_def)
  then show "n < 16 \<Longrightarrow> hex_value (hex_digit n) = Some n" by (simp add: hex_value_def hex_digit_def index_of_nth)
qed

lemma fromhex_hex_of: "fromhex (hex_of bs) = Some bs"
proof (induction bs)
  case (Cons b bs)
  let ?n = "of_char b :: nat"
  have hi: "hex_value (hex_digit (?n div 16)) = Some (?n div 16)"
    using nat_of_char_less_256 [of b] by (intro hex_value_digit) (simp add: less_mult_imp_div_less)
  have lo: "hex_value (hex_digit (?n mod 16)) = Some (?n mod 16)" by (intro hex_value_digit) simp
  have "fromhex (hex_of (b # bs)) = fromhex (hex_digit (?n div 16) # hex_digit (?n mod 16) # hex_of bs)"
    unfolding hex_of_def list.map concat.simps append.simps ..
  also have "\<dots> = Some (char_of (16 * (?n div 16) + ?n mod 16) # bs)"
    unfolding fromhex.simps(3) hi lo Cons.IH prod.case option.case ..
  also have "16 * (?n div 16) + ?n mod 16 = ?n" by (rule mult_div_mod_eq)
  finally show ?case by simp
qed (simp add: hex_of_def)

lemma hex_of_inj: "hex_of a = hex_of b \<Longrightarrow> a = b"
  by (metis fromhex_hex_of option.inject)

lemma token_matches_format:
  assumes "length a = 22" "length b = 43" "list_all (\<lambda>c. c \<in> set B64_ALPHABET) a" "list_all (\<lambda>c. c \<in> set B64_ALPHABET) b"
  shows "token_matches (''lmxk1.'' @ a @ ''.'' @ b)"
  using assms by (simp add: token_matches_def nth_append)

lemma token_split:
  assumes "token_matches v"
  shows "v = ''lmxk1.'' @ take 22 (drop 6 v) @ ''.'' @ drop 29 v"
proof -
  have v: "length v = 72" "take 6 v = ''lmxk1.''" "v ! 28 = CHR ''.''" using assms by (auto simp: token_matches_def)
  have "drop 28 v = v ! 28 # drop 29 v" using v(1) Cons_nth_drop_Suc [of 28 v] by simp
  then have "drop 6 v = take 22 (drop 6 v) @ ''.'' @ drop 29 v"
    using append_take_drop_id [of 22 "drop 6 v"] v(3) by simp
  then show ?thesis using append_take_drop_id [of 6 v] v(2) by simp
qed

lemma parse_gives_format:
  assumes "parse_client_key_material v = Inr p"
  shows "format_client_key (pk_key_id_bytes p) (pk_secret p) = Inr v \<and> pk_key_id p = hex_of (pk_key_id_bytes p)"
proof -
  from assms have "token_matches v" "take 22 (drop 6 v) = encode_b64 (pk_key_id_bytes p)" "drop 29 v = encode_b64 (pk_secret p)"
    "length (pk_key_id_bytes p) = 16" "length (pk_secret p) = 32" "pk_key_id p = hex_of (pk_key_id_bytes p)"
    by (auto simp: parse_client_key_material_def res_bind_Inr decode_canonical_Inr split: if_split_asm)
  then show ?thesis using token_split [of v] by (simp add: format_client_key_def)
qed

lemma format_gives_parse:
  assumes "format_client_key (pk_key_id_bytes p) (pk_secret p) = Inr v" "pk_key_id p = hex_of (pk_key_id_bytes p)"
  shows "parse_client_key_material v = Inr p"
proof -
  from assms have len: "length (pk_key_id_bytes p) = 16" "length (pk_secret p) = 32"
    and v: "v = ''lmxk1.'' @ encode_b64 (pk_key_id_bytes p) @ ''.'' @ encode_b64 (pk_secret p)"
    by (auto simp: format_client_key_def split: if_split_asm)
  have "token_matches v" unfolding v
    by (rule token_matches_format) (use len in \<open>simp_all add: length_encode_b64 encode_b64_alphabet\<close>)
  moreover have "take 22 (drop 6 v) = encode_b64 (pk_key_id_bytes p)" "drop 29 v = encode_b64 (pk_secret p)"
    using len by (simp_all add: v length_encode_b64)
  ultimately show ?thesis
    using len assms(2) decode_canonical_Inr [of "encode_b64 (pk_key_id_bytes p)" 16 "pk_key_id_bytes p"]
      decode_canonical_Inr [of "encode_b64 (pk_secret p)" 32 "pk_secret p"]
    by (simp add: parse_client_key_material_def)
qed

lemma legacy_never_canonical: "token_matches v \<Longrightarrow> \<not> legacy_token_matches v"
proof -
  have "take 3 v = take 3 (take 6 v)" by simp
  then show "token_matches v \<Longrightarrow> \<not> legacy_token_matches v"
    unfolding token_matches_def legacy_token_matches_def by auto
qed

text \<open>C30: the text of a client key is canonical. A text parses to a key exactly when it is the text
  that formatting the key's id and secret gives, and the key id of the record is the hexadecimal of
  the id bytes: no second spelling of a key is accepted, and every formatted key parses back.\<close>

theorem client_key_text_is_canonical:
  "parse_client_key_material v = Inr p \<longleftrightarrow>
     format_client_key (pk_key_id_bytes p) (pk_secret p) = Inr v \<and> pk_key_id p = hex_of (pk_key_id_bytes p)"
  using parse_gives_format format_gives_parse by blast

end
