(* ===== verification/Auth.thy ===== *)
theory Auth
  imports Bundle Key_Material
begin

text \<open>
  Local client authentication (\<open>gateway/auth.py\<close>): parsing of the presented credential, the
  authentication view, the two verification paths and the recheck of queued work. HMAC-SHA256 is the
  argument \<open>mac\<close> of the verification functions.
\<close>

section \<open>The presented credential\<close>

datatype presented = Header string | Headers "string list" | NoHeader

definition parse_text :: "string \<Rightarrow> parsed_key res" where
  "parse_text candidate =
    (case parse_client_key_material candidate of
       Inr p \<Rightarrow> Inr (ParsedCanonical p)
     | Inl _ \<Rightarrow>
       (case parse_legacy_client_key_material candidate of
          Inr token \<Rightarrow> Inr (ParsedLegacy token)
        | Inl _ \<Rightarrow> Inl ClientAuthenticationError))"

definition parse_client_key :: "presented \<Rightarrow> string list \<Rightarrow> parsed_key res" where
  "parse_client_key value query_credentials =
    (if query_credentials \<noteq> [] then Inl ClientAuthenticationError
     else case value of
       NoHeader \<Rightarrow> Inl ClientAuthenticationError
     | Header candidate \<Rightarrow> parse_text candidate
     | Headers values \<Rightarrow> (case values of [candidate] \<Rightarrow> parse_text candidate | _ \<Rightarrow> Inl ClientAuthenticationError))"

section \<open>The authentication view\<close>

record LegacyKeyIndexEntry =
  li_key_id :: string
  li_credential_generation :: int

record AuthRuntimeView =
  av_key_index :: "(string, ClientKeyRecord) dict"
  av_applied_bundle_generation :: int
  av_applied_bundle_hash :: string
  av_denied_key_ids :: "string list"
  av_accepted_peppers :: "(string, string) dict"
  av_legacy_key_index :: "(string, LegacyKeyIndexEntry) dict"
  av_trusted_now_s :: int

record AuthenticatedClient =
  cl_key_id :: string
  cl_accepted_credential_generation :: int
  cl_policy_id :: policy_id
  cl_key_state :: KeyLifecycleState
  cl_key_expires_at_s :: int
  cl_applied_bundle_generation :: int
  cl_applied_bundle_hash :: string

definition DUMMY_PEPPER :: string where
  "DUMMY_PEPPER = replicate 32 (CHR 0x00)"

definition DUMMY_CREDENTIALS :: "ClientVerifier list" where
  "DUMMY_CREDENTIALS =
    [\<lparr>cv_kind = ClientCredential, cv_generation = 1, cv_digest_hex = replicate 64 CHR ''0'',
      cv_pepper_version = ''dummy-1'', cv_not_before_s = 1, cv_not_after_s = 2, cv_status = CV_RETIRED\<rparr>,
     \<lparr>cv_kind = ClientCredential, cv_generation = 2, cv_digest_hex = replicate 64 CHR ''f'',
      cv_pepper_version = ''dummy-2'', cv_not_before_s = 2, cv_not_after_s = 3, cv_status = CV_RETIRED\<rparr>]"

definition DUMMY_RECORD :: ClientKeyRecord where
  "DUMMY_RECORD = \<lparr>ck_key_id = replicate 32 CHR ''0'', ck_policy_id = ''pol_00000000-0000-4000-8000-000000000000'',
     ck_state = KS_REVOKED, ck_issued_at_s = 1, ck_expires_at_s = 4, ck_time_high_water_s = 2,
     ck_generation_high_water = 2, ck_credential_verifiers = DUMMY_CREDENTIALS, ck_legacy_verifiers = []\<rparr>"

definition credential_is_accepted :: "ClientVerifier \<Rightarrow> ClientKeyRecord \<Rightarrow> AuthRuntimeView \<Rightarrow> bool" where
  "credential_is_accepted verifier record view =
    (let now_s = av_trusted_now_s view in
     accepted_status (cv_status verifier) \<and> dict_has (av_accepted_peppers view) (cv_pepper_version verifier)
     \<and> cv_not_before_s verifier \<le> now_s \<and> now_s < cv_not_after_s verifier
     \<and> now_s < ck_expires_at_s record)"

definition prepare_verifier ::
    "ClientVerifier \<Rightarrow> ClientKeyRecord \<Rightarrow> AuthRuntimeView \<Rightarrow> string \<Rightarrow> (string \<times> string \<times> bool) res" where
  "prepare_verifier verifier record view fallback_pepper =
    (let status_is_accepted = accepted_status (cv_status verifier);
         pepper_is_accepted = dict_has (av_accepted_peppers view) (cv_pepper_version verifier);
         pepper = dict_get (av_accepted_peppers view) (cv_pepper_version verifier) fallback_pepper;
         now_s = av_trusted_now_s view;
         window_is_accepted = (cv_not_before_s verifier \<le> now_s \<and> now_s < cv_not_after_s verifier);
         record_is_live = now_s < ck_expires_at_s record in
     case fromhex (cv_digest_hex verifier) of
       None \<Rightarrow> Inl (ValueError ''non-hexadecimal number found in fromhex() arg'')
     | Some expected \<Rightarrow>
         Inr (pepper, expected,
           status_is_accepted \<and> pepper_is_accepted \<and> window_is_accepted \<and> record_is_live))"

definition legacy_index_key :: "string \<Rightarrow> string \<Rightarrow> string" where
  "legacy_index_key pepper_version fingerprint_hex = pepper_version @ '':'' @ fingerprint_hex"

primrec index_verifiers ::
    "ClientKeyRecord \<Rightarrow> ClientVerifier list \<Rightarrow> (string, LegacyKeyIndexEntry) dict \<Rightarrow> (string, LegacyKeyIndexEntry) dict res" where
  "index_verifiers record [] index = Inr index"
| "index_verifiers record (v # vs) index =
    (let key = legacy_index_key (cv_pepper_version v) (cv_digest_hex v) in
     if dict_has index key then Inl (ValueError ''duplicate legacy credential fingerprint'')
     else index_verifiers record vs (AList.update key
       \<lparr>li_key_id = ck_key_id record, li_credential_generation = cv_generation v\<rparr> index))"

primrec index_records :: "ClientKeyRecord list \<Rightarrow> (string, LegacyKeyIndexEntry) dict \<Rightarrow> (string, LegacyKeyIndexEntry) dict res" where
  "index_records [] index = Inr index"
| "index_records (r # rs) index = res_bind (index_verifiers r (ck_legacy_verifiers r) index) (index_records rs)"

definition build_legacy_key_index :: "ClientKeyRecord list \<Rightarrow> (string, LegacyKeyIndexEntry) dict res" where
  "build_legacy_key_index records = index_records records []"

definition authenticated :: "ClientKeyRecord \<Rightarrow> int \<Rightarrow> AuthRuntimeView \<Rightarrow> AuthenticatedClient" where
  "authenticated record accepted_generation view =
    \<lparr>cl_key_id = ck_key_id record, cl_accepted_credential_generation = accepted_generation,
     cl_policy_id = ck_policy_id record, cl_key_state = ck_state record,
     cl_key_expires_at_s = ck_expires_at_s record,
     cl_applied_bundle_generation = av_applied_bundle_generation view,
     cl_applied_bundle_hash = av_applied_bundle_hash view\<rparr>"

definition pepper_set_is_valid :: "AuthRuntimeView \<Rightarrow> bool" where
  "pepper_set_is_valid view \<longleftrightarrow> 1 \<le> length (av_accepted_peppers view) \<and> length (av_accepted_peppers view) \<le> 2 \<and>
     list_all (\<lambda>(_, p). length p \<ge> 32) (av_accepted_peppers view)"

definition key_is_live :: "ClientKeyRecord \<Rightarrow> AuthRuntimeView \<Rightarrow> bool" where
  "key_is_live record view \<longleftrightarrow> ck_state record = KS_ENABLED \<and> ck_key_id record \<notin> set (av_denied_key_ids view) \<and>
     av_trusted_now_s view < ck_expires_at_s record"

section \<open>Legacy keys\<close>

definition legacy_slots :: "AuthRuntimeView \<Rightarrow> (string \<times> string) list" where
  "legacy_slots view =
    (let slots = take 2 (av_accepted_peppers view) in
     slots @ take (2 - length slots) [(''dummy-0'', DUMMY_PEPPER), (''dummy-1'', DUMMY_PEPPER)])"

definition legacy_slot :: "mac \<Rightarrow> string \<Rightarrow> AuthRuntimeView \<Rightarrow> string \<times> string \<Rightarrow> (ClientKeyRecord \<times> int) option res" where
  "legacy_slot mac token view slot =
    res_bind (compute_legacy_key_fingerprint mac (snd slot) token) (\<lambda>candidate.
      case map_of (av_legacy_key_index view) (legacy_index_key (fst slot) (hex_of candidate)) of
        None \<Rightarrow> Inr None
      | Some entry \<Rightarrow>
        (case map_of (av_key_index view) (li_key_id entry) of
           None \<Rightarrow> Inr None
         | Some record \<Rightarrow>
           (case find (\<lambda>v. cv_generation v = li_credential_generation entry) (ck_legacy_verifiers record) of
              None \<Rightarrow> Inr None
            | Some verifier \<Rightarrow>
              (case fromhex (cv_digest_hex verifier) of
                 None \<Rightarrow> Inl (ValueError ''non-hexadecimal number found in fromhex() arg'')
               | Some expected \<Rightarrow>
                 Inr (if candidate = expected \<and> credential_is_accepted verifier record view
                      then Some (record, cv_generation verifier) else None)))))"

primrec legacy_scan :: "mac \<Rightarrow> string \<Rightarrow> AuthRuntimeView \<Rightarrow> (string \<times> string) list
    \<Rightarrow> (ClientKeyRecord \<times> int) option \<Rightarrow> (ClientKeyRecord \<times> int) option res" where
  "legacy_scan mac token view [] accepted = Inr accepted"
| "legacy_scan mac token view (slot # slots) accepted =
    res_bind (legacy_slot mac token view slot) (\<lambda>hit.
      legacy_scan mac token view slots (case hit of None \<Rightarrow> accepted | Some h \<Rightarrow> Some h))"

definition verify_legacy_client_key :: "mac \<Rightarrow> string \<Rightarrow> AuthRuntimeView \<Rightarrow> AuthenticatedClient res" where
  "verify_legacy_client_key mac token view =
    res_bind (legacy_scan mac token view (legacy_slots view) None) (\<lambda>accepted.
      case accepted of
        None \<Rightarrow> Inl ClientAuthenticationError
      | Some (record, generation) \<Rightarrow>
          if \<not> pepper_set_is_valid view \<or> \<not> key_is_live record view then Inl ClientAuthenticationError
          else Inr (authenticated record generation view))"

section \<open>Canonical keys\<close>

definition slot_verifier :: "ClientVerifier list \<Rightarrow> nat \<Rightarrow> ClientVerifier" where
  "slot_verifier verifiers index = (if index < length verifiers then verifiers ! index else DUMMY_CREDENTIALS ! index)"

definition canonical_slot :: "mac \<Rightarrow> ParsedClientKey \<Rightarrow> AuthRuntimeView \<Rightarrow> ClientKeyRecord option \<Rightarrow> nat \<Rightarrow> int option res" where
  "canonical_slot mac parsed view record index =
    (let prepared_record = (case record of None \<Rightarrow> DUMMY_RECORD | Some r \<Rightarrow> r);
         verifiers = (case record of None \<Rightarrow> DUMMY_CREDENTIALS | Some r \<Rightarrow> ck_credential_verifiers r);
         fallback_pepper = (case av_accepted_peppers view of [] \<Rightarrow> DUMMY_PEPPER | (_, p) # _ \<Rightarrow> p);
         verifier = slot_verifier verifiers index in
     res_bind (prepare_verifier verifier prepared_record view fallback_pepper) (\<lambda>(pepper, expected, ok).
     res_bind (compute_client_key_verifier mac pepper (pk_key_id_bytes parsed) (pk_secret parsed)) (\<lambda>candidate.
       Inr (if candidate = expected \<and> record \<noteq> None \<and> ok then Some (cv_generation verifier) else None))))"

definition verify_canonical :: "mac \<Rightarrow> ParsedClientKey \<Rightarrow> AuthRuntimeView \<Rightarrow> AuthenticatedClient res" where
  "verify_canonical mac parsed view =
    (let record = map_of (av_key_index view) (pk_key_id parsed) in
     res_bind (canonical_slot mac parsed view record 0) (\<lambda>first.
     res_bind (canonical_slot mac parsed view record 1) (\<lambda>second.
       case (record, (case second of None \<Rightarrow> first | Some g \<Rightarrow> Some g)) of
         (Some r, Some generation) \<Rightarrow>
           if \<not> key_is_live r view \<or> \<not> pepper_set_is_valid view then Inl ClientAuthenticationError
           else Inr (authenticated r generation view)
       | _ \<Rightarrow> Inl ClientAuthenticationError)))"

definition verify_client_key :: "mac \<Rightarrow> parsed_key \<Rightarrow> AuthRuntimeView \<Rightarrow> AuthenticatedClient res" where
  "verify_client_key mac parsed view =
    (case parsed of
       ParsedLegacy token \<Rightarrow> verify_legacy_client_key mac token view
     | ParsedCanonical p \<Rightarrow> verify_canonical mac p view)"

definition queued_identity_is_authorized :: "AuthenticatedClient \<Rightarrow> AuthRuntimeView \<Rightarrow> bool" where
  "queued_identity_is_authorized client view =
    (case map_of (av_key_index view) (cl_key_id client) of
       None \<Rightarrow> False
     | Some record \<Rightarrow>
       if \<not> key_is_live record view \<or> ck_policy_id record \<noteq> cl_policy_id client then False
       else list_ex (\<lambda>v. cv_generation v = cl_accepted_credential_generation client \<and>
              credential_is_accepted v record view) (key_verifiers record))"

section \<open>Who is authenticated\<close>

definition proves :: "mac \<Rightarrow> ParsedClientKey \<Rightarrow> AuthRuntimeView \<Rightarrow> ClientKeyRecord \<Rightarrow> ClientVerifier \<Rightarrow> bool" where
  "proves mac parsed view record v \<longleftrightarrow> credential_is_accepted v record view \<and>
     (\<exists>pepper. map_of (av_accepted_peppers view) (cv_pepper_version v) = Some pepper \<and>
        fromhex (cv_digest_hex v) = Some (mac pepper (CLIENT_KEY_DOMAIN @ pk_key_id_bytes parsed @ pk_secret parsed)))"

lemma fst_image_map_of: "k \<in> fst ` set d \<longleftrightarrow> (\<exists>v. map_of d k = Some v)"
  using map_of_eq_None_iff [of d k] by auto

lemma dummy_not_accepted: "i < 2 \<Longrightarrow> \<not> accepted_status (cv_status (DUMMY_CREDENTIALS ! i))"
  by (auto simp: less_2_cases_iff DUMMY_CREDENTIALS_def accepted_status_def)

lemma canonical_slot_Some:
  assumes "canonical_slot mac parsed view (Some record) i = Inr (Some g)" "i < 2"
  shows "i < length (ck_credential_verifiers record) \<and> g = cv_generation (ck_credential_verifiers record ! i) \<and>
    proves mac parsed view record (ck_credential_verifiers record ! i) \<and> length (pk_key_id_bytes parsed) = 16 \<and> length (pk_secret parsed) = 32"
  using assms dummy_not_accepted [OF assms(2)]
  by (auto simp: canonical_slot_def Let_def res_bind_Inr prepare_verifier_def compute_client_key_verifier_def
      slot_verifier_def proves_def credential_is_accepted_def dict_get_def fst_image_map_of
      split: option.split_asm if_split_asm)

lemma canonical_slot_None: "canonical_slot mac parsed view None i \<noteq> Inr (Some g)"
  by (auto simp: canonical_slot_def Let_def res_bind_Inr)

lemma verify_canonical_Inr:
  assumes "verify_canonical mac parsed view = Inr client"
  shows "\<exists>record v. map_of (av_key_index view) (pk_key_id parsed) = Some record \<and> key_is_live record view \<and>
    pepper_set_is_valid view \<and> v \<in> set (ck_credential_verifiers record) \<and> proves mac parsed view record v \<and>
    client = authenticated record (cv_generation v) view"
proof (cases "map_of (av_key_index view) (pk_key_id parsed)")
  case None
  then show ?thesis
    using assms by (auto simp: verify_canonical_def Let_def res_bind_Inr)
next
  case (Some r)
  then obtain x y where slots: "canonical_slot mac parsed view (Some r) 0 = Inr x"
      "canonical_slot mac parsed view (Some r) 1 = Inr y"
    using assms by (auto simp: verify_canonical_def Let_def res_bind_Inr)
  obtain g where g: "(case y of None \<Rightarrow> x | Some z \<Rightarrow> Some z) = Some g"
    using assms Some slots
    by (cases "case y of None \<Rightarrow> x | Some z \<Rightarrow> Some z") (simp_all add: verify_canonical_def Let_def)
  then have ok: "key_is_live r view" "pepper_set_is_valid view" "client = authenticated r g view"
    using assms Some slots by (simp_all add: verify_canonical_def Let_def split: if_split_asm)
  obtain i :: nat where "i < 2" "canonical_slot mac parsed view (Some r) i = Inr (Some g)"
    using slots g by (cases y) (auto intro: that [of 0] that [of 1])
  from canonical_slot_Some [OF this(2,1)] Some ok show ?thesis by (metis nth_mem)
qed

text \<open>C16: authentication is sound. A canonical key is accepted only if the key record of its id is
  enabled, not denied and not expired, the pepper set is valid, and one of the record's own
  verifiers, with an accepted status, inside its window and under an accepted pepper, is the HMAC of
  exactly this id and secret; the client returned carries that record's identity and generation.
  A padding verifier never authenticates anyone.\<close>

theorem authentication_sound:
  assumes "verify_client_key mac (ParsedCanonical parsed) view = Inr client"
  shows "\<exists>record v. map_of (av_key_index view) (pk_key_id parsed) = Some record \<and> key_is_live record view \<and>
    pepper_set_is_valid view \<and> v \<in> set (ck_credential_verifiers record) \<and> proves mac parsed view record v \<and>
    client = authenticated record (cv_generation v) view"
  using assms by (intro verify_canonical_Inr) (simp add: verify_client_key_def)

lemma canonical_slot_complete:
  assumes "i < 2" "i < length (ck_credential_verifiers r)" "v = ck_credential_verifiers r ! i" "proves mac parsed view r v"
    and "length (pk_key_id_bytes parsed) = 16" "length (pk_secret parsed) = 32"
  shows "canonical_slot mac parsed view (Some r) i = Inr (Some (cv_generation v))"
  using assms
  by (auto simp: canonical_slot_def Let_def prepare_verifier_def compute_client_key_verifier_def
      slot_verifier_def proves_def credential_is_accepted_def dict_get_def fst_image_map_of)

lemma fromhex_total:
  "list_all is_hex_char s \<Longrightarrow> even (length s) \<Longrightarrow> \<exists>bs. fromhex s = Some bs"
proof (induction s rule: fromhex.induct)
  case (3 c d cs)
  have digit: "\<exists>n. hex_value x = Some n" if "is_hex_char x" for x
    using that index_of_exists [of x HEX_DIGITS] unfolding hex_value_def is_hex_char_def HEX_DIGITS_def by blast
  obtain h l where "hex_value c = Some h" "hex_value d = Some l" using digit [of c] digit [of d] 3(2) by auto
  moreover obtain bs where "fromhex cs = Some bs" using 3 calculation by auto
  ultimately show ?case by simp
qed simp_all

lemma valid_key_verifiers:
  assumes "is_ok (ClientKeyRecord_validate r)"
  shows "length (ck_credential_verifiers r) \<le> 2"
    and "v \<in> set (ck_credential_verifiers r) \<Longrightarrow> \<exists>bs. fromhex (cv_digest_hex v) = Some bs"
proof -
  from assms show "length (ck_credential_verifiers r) \<le> 2"
    by (auto simp: ClientKeyRecord_validate_def Let_def is_ok_iff checks_Inr)
  assume "v \<in> set (ck_credential_verifiers r)"
  with assms have "is_ok (ClientVerifier_validate ClientCredential v)"
    by (auto simp: ClientKeyRecord_validate_def Let_def is_ok_iff checks_Inr list_all_iff)
  then have "is_hex 64 (cv_digest_hex v)" by (auto simp: ClientVerifier_validate_def is_ok_iff checks_Inr)
  then show "\<exists>bs. fromhex (cv_digest_hex v) = Some bs" by (intro fromhex_total) (auto simp: is_hex_def)
qed

lemma dummy_digest: "i < 2 \<Longrightarrow> \<exists>bs. fromhex (cv_digest_hex (DUMMY_CREDENTIALS ! i)) = Some bs"
  by (rule fromhex_total) (auto simp: less_2_cases_iff DUMMY_CREDENTIALS_def is_hex_char_def list_all_iff)

lemma canonical_slot_total:
  assumes "is_ok (ClientKeyRecord_validate r)" "i < 2" "length (pk_key_id_bytes parsed) = 16" "length (pk_secret parsed) = 32"
  shows "\<exists>x. canonical_slot mac parsed view (Some r) i = Inr x"
proof -
  have "\<exists>bs. fromhex (cv_digest_hex (slot_verifier (ck_credential_verifiers r) i)) = Some bs"
    using valid_key_verifiers(2) [OF assms(1)] dummy_digest [OF assms(2)] by (auto simp: slot_verifier_def)
  then show ?thesis
    using assms(3,4) by (auto simp: canonical_slot_def Let_def prepare_verifier_def compute_client_key_verifier_def)
qed

lemma canonical_key_accepted:
  assumes "map_of (av_key_index view) (pk_key_id parsed) = Some r" "key_is_live r view" "pepper_set_is_valid view"
    and "is_ok (ClientKeyRecord_validate r)"
    and "length (pk_key_id_bytes parsed) = 16" "length (pk_secret parsed) = 32"
    and "v \<in> set (ck_credential_verifiers r)" "proves mac parsed view r v"
  shows "\<exists>g. verify_canonical mac parsed view = Inr (authenticated r g view)"
proof -
  obtain i where i: "i < length (ck_credential_verifiers r)" "v = ck_credential_verifiers r ! i"
    using assms(7) by (auto simp: in_set_conv_nth)
  then have two: "i < 2" using valid_key_verifiers(1) [OF assms(4)] by simp
  note hit = canonical_slot_complete [OF two i assms(8,5,6)]
  obtain x y where xy: "canonical_slot mac parsed view (Some r) 0 = Inr x" "canonical_slot mac parsed view (Some r) 1 = Inr y"
    using canonical_slot_total [OF assms(4) _ assms(5,6), of 0 mac view]
      canonical_slot_total [OF assms(4) _ assms(5,6), of 1 mac view] by auto
  have "\<exists>g. (case y of None \<Rightarrow> x | Some g \<Rightarrow> Some g) = Some g"
    using hit xy two by (auto simp: less_2_cases_iff split: option.splits)
  then show ?thesis using assms(1-3) xy by (auto simp: verify_canonical_def Let_def)
qed

text \<open>authentication is complete, from the text on the wire. The text that was formatted for a key
  id and secret, presented as the only credential of a request, authenticates as the record of that
  id whenever the record is valid and live, the pepper set is valid, and one of the record's
  verifiers commits to the id and secret under an accepted pepper and inside its window.\<close>

theorem issued_key_authenticates:
  assumes "format_client_key key_id_bytes secret = Inr text"
    and "parsed = \<lparr>pk_key_id = hex_of key_id_bytes, pk_key_id_bytes = key_id_bytes, pk_secret = secret\<rparr>"
    and "map_of (av_key_index view) (hex_of key_id_bytes) = Some r" "key_is_live r view" "pepper_set_is_valid view"
    and "is_ok (ClientKeyRecord_validate r)"
    and "v \<in> set (ck_credential_verifiers r)" "proves mac parsed view r v"
  shows "\<exists>g. res_bind (parse_client_key (Header text) []) (\<lambda>k. verify_client_key mac k view) = Inr (authenticated r g view)"
proof -
  have "parse_client_key_material text = Inr parsed" using assms(1,2) by (intro format_gives_parse) simp_all
  moreover have "length key_id_bytes = 16" "length secret = 32"
    using assms(1) by (auto simp: format_client_key_def split: if_split_asm)
  ultimately show ?thesis
    using canonical_key_accepted [of view parsed r v mac] assms
    by (simp add: parse_client_key_def parse_text_def verify_client_key_def)
qed

section \<open>Denial and the recheck of queued work\<close>

lemma legacy_slot_Some:
  assumes "legacy_slot mac token view slot = Inr (Some (r, g))"
  shows "\<exists>k v. map_of (av_key_index view) k = Some r \<and>
    v \<in> set (ck_legacy_verifiers r) \<and> cv_generation v = g \<and> credential_is_accepted v r view"
proof -
  obtain c where "compute_legacy_key_fingerprint mac (snd slot) token = Inr c"
    using assms by (auto simp: legacy_slot_def res_bind_Inr)
  note slot = assms [unfolded legacy_slot_def this res_bind.simps]
  obtain e where e: "map_of (av_legacy_key_index view) (legacy_index_key (fst slot) (hex_of c)) = Some e"
    using slot by (auto split: option.split_asm)
  note slot = slot [unfolded e option.case]
  obtain r' where r': "map_of (av_key_index view) (li_key_id e) = Some r'"
    using slot by (auto split: option.split_asm)
  note slot = slot [unfolded r' option.case]
  obtain v where v: "find (\<lambda>v. cv_generation v = li_credential_generation e) (ck_legacy_verifiers r') = Some v"
    using slot by (auto split: option.split_asm)
  note slot = slot [unfolded v option.case]
  have "r' = r" "cv_generation v = g" "credential_is_accepted v r view"
    using slot by (auto split: option.split_asm if_split_asm)
  moreover have "v \<in> set (ck_legacy_verifiers r')" using v by (auto simp: find_Some_iff)
  ultimately show ?thesis using r' by blast
qed

lemma legacy_scan_Some:
  "legacy_scan mac token view slots acc = Inr (Some (r, g)) \<Longrightarrow>
     acc = Some (r, g) \<or> (\<exists>slot. legacy_slot mac token view slot = Inr (Some (r, g)))"
  by (induction slots arbitrary: acc) (fastforce simp: res_bind_Inr split: option.split_asm)+

lemma verify_legacy_Inr:
  assumes "verify_legacy_client_key mac token view = Inr client"
  shows "\<exists>k r v. map_of (av_key_index view) k = Some r \<and> key_is_live r view \<and>
    client = authenticated r (cv_generation v) view \<and> v \<in> set (key_verifiers r) \<and> credential_is_accepted v r view"
proof -
  obtain r g where scan: "legacy_scan mac token view (legacy_slots view) None = Inr (Some (r, g))"
    and live: "key_is_live r view" "client = authenticated r g view"
    using assms by (auto simp: verify_legacy_client_key_def res_bind_Inr split: option.split_asm if_split_asm)
  obtain slot where "legacy_slot mac token view slot = Inr (Some (r, g))"
    using legacy_scan_Some [OF scan] by auto
  from legacy_slot_Some [OF this] live show ?thesis by (auto simp: key_verifiers_def)
qed

lemma verify_client_key_Inr:
  assumes "verify_client_key mac parsed view = Inr client"
  shows "\<exists>k r v. map_of (av_key_index view) k = Some r \<and> key_is_live r view \<and>
    client = authenticated r (cv_generation v) view \<and> v \<in> set (key_verifiers r) \<and> credential_is_accepted v r view"
proof (cases parsed)
  case (ParsedCanonical p)
  with assms have "verify_canonical mac p view = Inr client" by (simp add: verify_client_key_def)
  from verify_canonical_Inr [OF this] show ?thesis by (auto simp: key_verifiers_def proves_def)
next
  case (ParsedLegacy token)
  with assms show ?thesis by (intro verify_legacy_Inr) (simp add: verify_client_key_def)
qed

definition index_keyed :: "(string, ClientKeyRecord) dict \<Rightarrow> bool" where
  "index_keyed index \<longleftrightarrow> list_all (\<lambda>(k, r). k = ck_key_id r) index"

lemma index_keyedD: "index_keyed index \<Longrightarrow> map_of index k = Some r \<Longrightarrow> ck_key_id r = k"
  by (auto simp: index_keyed_def list_all_iff dest!: map_of_SomeD)

text \<open>denial is immediate and covers both moments of a request. Once a key id is in the deny
  set of the view, no presented key, canonical or legacy, authenticates as that key, and work of that
  key that was authenticated earlier and is waiting in the queue fails its recheck.\<close>

theorem denied_key_never_served:
  assumes "key_id \<in> set (av_denied_key_ids view)" "index_keyed (av_key_index view)"
  shows "(\<forall>parsed. verify_client_key mac parsed view \<noteq> Inr client \<or> cl_key_id client \<noteq> key_id) \<and>
    (cl_key_id client = key_id \<longrightarrow> \<not> queued_identity_is_authorized client view)"
proof (intro conjI allI impI)
  fix parsed
  show "verify_client_key mac parsed view \<noteq> Inr client \<or> cl_key_id client \<noteq> key_id"
  proof (cases "verify_client_key mac parsed view = Inr client")
    case True
    from verify_client_key_Inr [OF this] assms(1) show ?thesis by (auto simp: key_is_live_def authenticated_def)
  qed simp
next
  assume "cl_key_id client = key_id"
  then show "\<not> queued_identity_is_authorized client view"
    using assms index_keyedD [OF assms(2)]
    by (auto simp: queued_identity_is_authorized_def key_is_live_def split: option.split)
qed

text \<open>authentication and the recheck before dispatch agree. A client that the edge has just
  authenticated, by either path, passes the recheck against the same view.\<close>

theorem authenticated_client_passes_recheck:
  assumes "index_keyed (av_key_index view)" "verify_client_key mac parsed view = Inr client"
  shows "queued_identity_is_authorized client view"
proof -
  obtain k r v where "map_of (av_key_index view) k = Some r" "key_is_live r view"
    "client = authenticated r (cv_generation v) view" "v \<in> set (key_verifiers r)" "credential_is_accepted v r view"
    using verify_client_key_Inr [OF assms(2)] by blast
  moreover from this(1) have "ck_key_id r = k" by (rule index_keyedD [OF assms(1)])
  ultimately show ?thesis
    by (auto simp: queued_identity_is_authorized_def authenticated_def list_ex_iff)
qed

section \<open>Witnesses\<close>

definition sample_mac :: mac where
  "sample_mac key message = replicate 32 (CHR 0xaa)"

definition sample_view :: AuthRuntimeView where
  "sample_view = \<lparr>av_key_index = [(ck_key_id sample_key, sample_key)], av_applied_bundle_generation = 1,
     av_applied_bundle_hash = ''h'', av_denied_key_ids = [], av_accepted_peppers = [(''p1'', replicate 32 CHR ''p'')],
     av_legacy_key_index = [], av_trusted_now_s = 500\<rparr>"

definition sample_parsed :: ParsedClientKey where
  "sample_parsed = \<lparr>pk_key_id = hex_of (replicate 16 (CHR 0x00)), pk_key_id_bytes = replicate 16 (CHR 0x00),
     pk_secret = replicate 32 CHR ''s''\<rparr>"

definition sample_client :: AuthenticatedClient where
  "sample_client = authenticated sample_key 1 sample_view"

lemma sample_verified_client: "verify_client_key sample_mac (ParsedCanonical sample_parsed) sample_view = Inr sample_client"
  by code_simp

theorem authentication_sound_witness:
  "\<exists>record v. map_of (av_key_index sample_view) (pk_key_id sample_parsed) = Some record \<and> key_is_live record sample_view \<and>
    pepper_set_is_valid sample_view \<and> v \<in> set (ck_credential_verifiers record) \<and>
    proves sample_mac sample_parsed sample_view record v \<and> sample_client = authenticated record (cv_generation v) sample_view"
  by (rule authentication_sound [OF sample_verified_client])

theorem issued_key_authenticates_witness:
  "\<exists>g. res_bind (parse_client_key (Header (projr (format_client_key (replicate 16 (CHR 0x00)) (replicate 32 CHR ''s'')))) [])
     (\<lambda>k. verify_client_key sample_mac k sample_view) = Inr (authenticated sample_key g sample_view)"
proof (rule issued_key_authenticates [where v = sample_verifier and parsed = sample_parsed])
  show "format_client_key (replicate 16 (CHR 0x00)) (replicate 32 CHR ''s'') =
      Inr (projr (format_client_key (replicate 16 (CHR 0x00)) (replicate 32 CHR ''s'')))"
    by (simp add: format_client_key_def)
  show "key_is_live sample_key sample_view" "pepper_set_is_valid sample_view" by code_simp+
  show "is_ok (ClientKeyRecord_validate sample_key)" by code_simp
  show "proves sample_mac sample_parsed sample_view sample_key sample_verifier"
  proof -
    have "credential_is_accepted sample_verifier sample_key sample_view" by code_simp
    moreover have "map_of (av_accepted_peppers sample_view) (cv_pepper_version sample_verifier) = Some (replicate 32 CHR ''p'')"
      by code_simp
    moreover have "fromhex (cv_digest_hex sample_verifier) = Some (replicate 32 (CHR 0xaa))" by code_simp
    ultimately show ?thesis by (simp add: proves_def sample_mac_def)
  qed
  show "map_of (av_key_index sample_view) (hex_of (replicate 16 (CHR 0x00))) = Some sample_key" by code_simp
qed (simp_all add: sample_parsed_def sample_key_def)

definition denied_view :: AuthRuntimeView where
  "denied_view = sample_view\<lparr>av_denied_key_ids := [ck_key_id sample_key]\<rparr>"

theorem denied_key_never_served_witness:
  "verify_client_key sample_mac (ParsedCanonical sample_parsed) denied_view \<noteq> Inr sample_client \<and>
     \<not> queued_identity_is_authorized sample_client denied_view"
proof -
  have "ck_key_id sample_key \<in> set (av_denied_key_ids denied_view)" "index_keyed (av_key_index denied_view)"
    by code_simp+
  from denied_key_never_served [OF this, of sample_mac sample_client] show ?thesis
    by (auto simp: sample_client_def authenticated_def)
qed

theorem authenticated_client_passes_recheck_witness: "queued_identity_is_authorized sample_client sample_view"
proof (rule authenticated_client_passes_recheck [OF _ sample_verified_client])
  show "index_keyed (av_key_index sample_view)" by code_simp
qed

end
