(* ===== verification/Operational_View.thy ===== *)
theory Operational_View
  imports Runtime_Registry
begin

text \<open>
  The operational view of the runtime (\<open>gateway/runtime_state.py\<close>, \<open>RuntimeState.operational_view\<close>):
  what routing and admission read. Taking the view advances the clock of every account and prunes its
  windows, as \<open>capacity\<close> does. Of \<open>JournalHealth\<close> the fields that the gateway's decisions read are
  kept; the disk figures of the report are not.
\<close>

record AttemptOperationalValue =
  ao_account_id :: account_id
  ao_request_id :: request_id
  ao_attempt_id :: attempt_id
  ao_leg_id :: leg_id
  ao_deployment_generation_id :: generation_id
  ao_installation_id :: string
  ao_bundle_generation :: int
  ao_bundle_hash :: string
  ao_dispatcher_fence :: int
  ao_boot_id :: string
  ao_deadline_at_ms :: int
  ao_profile_digest :: string
  ao_circuit_epoch :: int
  ao_account_circuit_epoch :: int
  ao_circuit_probe_id :: "string option"
  ao_account_circuit_probe_id :: "string option"
  ao_dispatched_at_ms :: "int option"
  ao_state :: string

record DispatchOperationalValue =
  dv_account_id :: account_id
  dv_request_id :: request_id
  dv_attempt_id :: attempt_id
  dv_leg_id :: leg_id
  dv_deployment_generation_id :: generation_id
  dv_circuit_epoch :: int
  dv_account_circuit_epoch :: int
  dv_circuit_probe_id :: "string option"
  dv_account_circuit_probe_id :: "string option"
  dv_dispatched_at_ms :: int

record CircuitOperationalValue =
  cov_account_id :: account_id
  cov_deployment_generation_id :: generation_id
  cov_value :: CircuitValue

record JournalHealth =
  jh_status :: JournalStatus
  jh_last_sequence :: int

record OperationalRuntimeView =
  ov_durable_lsn :: int
  ov_recovery_state :: JournalStatus
  ov_journal_health :: JournalHealth
  ov_time_high_water_ms :: int
  ov_accounts :: "AccountCapacity list"
  ov_attempts :: "AttemptOperationalValue list"
  ov_dispatches :: "DispatchOperationalValue list"
  ov_circuits :: "CircuitOperationalValue list"

primrec view_capacities ::
    "int \<Rightarrow> (account_id \<times> runtime) list \<Rightarrow> registry \<Rightarrow> AccountCapacity list res \<times> registry" where
  "view_capacities clk [] g = (Inr [], g)"
| "view_capacities clk (p # ps) g =
    (case capacity clk (snd p) of (x, rt') \<Rightarrow>
       let g' = g\<lparr>sy_runtimes := AList.update (fst p) rt' (sy_runtimes g)\<rparr> in
       (case x of
          Inl e \<Rightarrow> (Inl e, g')
        | Inr c \<Rightarrow> (case view_capacities clk ps g' of (cs, g'') \<Rightarrow> (res_map ((#) c) cs, g''))))"

definition attempt_value :: "account_id \<Rightarrow> Attempt \<Rightarrow> AttemptOperationalValue" where
  "attempt_value acc a =
    \<lparr>ao_account_id = acc, ao_request_id = at_request_id a, ao_attempt_id = at_attempt_id a,
     ao_leg_id = at_leg_id a, ao_deployment_generation_id = at_deployment_generation_id a,
     ao_installation_id = at_installation_id a, ao_bundle_generation = at_bundle_generation a,
     ao_bundle_hash = at_bundle_hash a, ao_dispatcher_fence = at_fence_token a, ao_boot_id = at_boot_id a,
     ao_deadline_at_ms = at_deadline_at_ms a, ao_profile_digest = at_profile_digest a,
     ao_circuit_epoch = at_circuit_epoch a, ao_account_circuit_epoch = at_account_circuit_epoch a,
     ao_circuit_probe_id = at_circuit_probe_id a, ao_account_circuit_probe_id = at_account_circuit_probe_id a,
     ao_dispatched_at_ms = at_dispatched_at_ms a, ao_state = at_state a\<rparr>"

definition view_attempts :: "registry \<Rightarrow> AttemptOperationalValue list" where
  "view_attempts g =
    concat (map (\<lambda>(acc, rt). map (attempt_value acc)
        (sort_key at_attempt_id (map snd (rt_attempts rt))))
      (sort_key fst (sy_runtimes g)))"

text \<open>The dispatches of one account: those of its open attempts, then those its resolutions remember.\<close>

definition runtime_dispatches :: "runtime \<Rightarrow> Dispatch list" where
  "runtime_dispatches rt =
     List.map_filter (\<lambda>(_, a). dispatch_of a) (rt_attempts rt) @
     List.map_filter (\<lambda>(_, r). ra_dispatch r) (rt_resolutions rt)"

definition dispatch_value :: "account_id \<Rightarrow> Dispatch \<Rightarrow> DispatchOperationalValue" where
  "dispatch_value acc d =
    \<lparr>dv_account_id = acc, dv_request_id = di_request_id d, dv_attempt_id = di_attempt_id d,
     dv_leg_id = di_leg_id d, dv_deployment_generation_id = di_deployment_generation_id d,
     dv_circuit_epoch = di_circuit_epoch d, dv_account_circuit_epoch = di_account_circuit_epoch d,
     dv_circuit_probe_id = di_circuit_probe_id d, dv_account_circuit_probe_id = di_account_circuit_probe_id d,
     dv_dispatched_at_ms = di_dispatched_at_ms d\<rparr>"

definition registry_dispatches :: "registry \<Rightarrow> DispatchOperationalValue list" where
  "registry_dispatches g =
     concat (map (\<lambda>(acc, rt). map (dispatch_value acc) (runtime_dispatches rt)) (sy_runtimes g))"

definition view_dispatches :: "registry \<Rightarrow> DispatchOperationalValue list" where
  "view_dispatches g =
    sort_key (\<lambda>v. (dv_dispatched_at_ms v, dv_attempt_id v))
      (map snd (dict_of (map (\<lambda>v. (dv_attempt_id v, v)) (registry_dispatches g))))"

definition view_circuits :: "registry \<Rightarrow> CircuitOperationalValue list" where
  "view_circuits g =
    concat (map (\<lambda>(acc, rt). map (\<lambda>(gen, v). \<lparr>cov_account_id = acc, cov_deployment_generation_id = gen, cov_value = v\<rparr>)
        (sort_key fst (rt_circuits rt)))
      (sort_key fst (sy_runtimes g)))"

definition view_high_water :: "int \<Rightarrow> registry \<Rightarrow> int" where
  "view_high_water clk g =
    (case sy_runtimes g of [] \<Rightarrow> clk | _ \<Rightarrow> Max (set (map (\<lambda>(_, rt). rt_time_high_water_ms rt) (sy_runtimes g))))"

definition operational_view :: "int \<Rightarrow> JournalHealth \<Rightarrow> registry \<Rightarrow> OperationalRuntimeView res \<times> registry" where
  "operational_view clk health g =
    (case view_capacities clk (sort_key fst (sy_runtimes g)) g of (accounts, g') \<Rightarrow>
       (res_map (\<lambda>cs.
          \<lparr>ov_durable_lsn = jh_last_sequence health, ov_recovery_state = jh_status health,
           ov_journal_health = health, ov_time_high_water_ms = view_high_water clk g', ov_accounts = cs,
           ov_attempts = view_attempts g', ov_dispatches = view_dispatches g',
           ov_circuits = view_circuits g'\<rparr>) accounts, g'))"

definition account_runtime :: "registry \<Rightarrow> account_id \<Rightarrow> runtime res" where
  "account_runtime g acc = (case map_of (sy_runtimes g) acc of None \<Rightarrow> Inl KeyError | Some rt \<Rightarrow> Inr rt)"

definition account_capacity :: "int \<Rightarrow> account_id \<Rightarrow> registry \<Rightarrow> AccountCapacity res \<times> registry" where
  "account_capacity clk acc g =
    (case account_runtime g acc of
       Inl e \<Rightarrow> (Inl e, g)
     | Inr rt \<Rightarrow> (case capacity clk rt of (x, rt') \<Rightarrow>
         (x, g\<lparr>sy_runtimes := AList.update acc rt' (sy_runtimes g)\<rparr>)))"

section \<open>Reading changes only clocks and expired windows\<close>

definition same_sends :: "runtime \<Rightarrow> runtime \<Rightarrow> bool" where
  "same_sends s t \<longleftrightarrow> rt_account t = rt_account s \<and> rt_attempts t = rt_attempts s \<and>
     rt_resolutions t = rt_resolutions s \<and> rt_circuits t = rt_circuits s \<and>
     rt_account_circuit t = rt_account_circuit s"

lemma capacity_same_sends: "capacity clk s = (x, t) \<Longrightarrow> same_sends s t"
  by (auto simp: capacity_def Let_def same_sends_def tick_def roll_monthly_def purge_windows_def split: if_split_asm)

lemma same_sends_trans: "same_sends s t \<Longrightarrow> same_sends t u \<Longrightarrow> same_sends s u"
  by (simp add: same_sends_def)

lemma same_sends_refl [simp]: "same_sends s s"
  by (simp add: same_sends_def)

definition same_registry :: "registry \<Rightarrow> registry \<Rightarrow> bool" where
  "same_registry g h \<longleftrightarrow> list_all2 (\<lambda>p q. fst p = fst q \<and> same_sends (snd p) (snd q)) (sy_runtimes g) (sy_runtimes h)"

lemma same_registry_refl: "same_registry g g"
  by (auto simp: same_registry_def list_all2_conv_all_nth)

lemma same_registry_trans: "same_registry g h \<Longrightarrow> same_registry h k \<Longrightarrow> same_registry g k"
  unfolding same_registry_def by (rule list_all2_trans) (auto intro: same_sends_trans)

lemma update_same_sends:
  "dict_wf d \<Longrightarrow> map_of d k = Some s \<Longrightarrow> same_sends s t \<Longrightarrow>
     list_all2 (\<lambda>p q. fst p = fst q \<and> same_sends (snd p) (snd q)) d (AList.update k t d)"
  by (auto simp: update_known list_all2_conv_all_nth map_of_eq_Some_iff)
    (metis distinct_map eq_key_imp_eq_value nth_mem prod.collapse)

lemma same_registry_keys: "same_registry g h \<Longrightarrow> map fst (sy_runtimes h) = map fst (sy_runtimes g)"
  by (auto simp: same_registry_def list_all2_conv_all_nth intro: nth_equalityI)

lemma view_capacities_same:
  "dict_wf (sy_runtimes g) \<Longrightarrow> distinct (map fst ps) \<Longrightarrow> \<forall>p \<in> set ps. map_of (sy_runtimes g) (fst p) = Some (snd p) \<Longrightarrow>
     view_capacities clk ps g = (x, h) \<Longrightarrow> same_registry g h"
proof (induction ps arbitrary: g x h)
  case (Cons p ps)
  obtain y rt' where cap: "capacity clk (snd p) = (y, rt')" by fastforce
  let ?g = "g\<lparr>sy_runtimes := AList.update (fst p) rt' (sy_runtimes g)\<rparr>"
  have step: "same_registry g ?g"
    unfolding same_registry_def
    using update_same_sends [OF Cons.prems(1) _ capacity_same_sends [OF cap]] Cons.prems(3)
    by (metis (no_types, lifting) list.set_intros(1) registry.select_convs(3) registry.surjective registry.update_convs(3))
  show ?case
  proof (cases y)
    case (Inl e)
    with Cons.prems(4) cap step show ?thesis by (simp add: Let_def)
  next
    case (Inr c)
    then obtain cs where rest: "view_capacities clk ps ?g = (cs, h)"
      using Cons.prems(4) cap by (auto simp: Let_def split: prod.split_asm)
    have "same_registry ?g h"
    proof (rule Cons.IH [OF _ _ _ rest])
      show "dict_wf (sy_runtimes ?g)" using Cons.prems(1) by (simp add: distinct_update)
      show "distinct (map fst ps)" using Cons.prems(2) by simp
      show "\<forall>q \<in> set ps. map_of (sy_runtimes ?g) (fst q) = Some (snd q)"
        using Cons.prems(2,3) by (auto simp: update_conv' image_iff)
    qed
    with step show ?thesis by (rule same_registry_trans)
  qed
qed (simp add: same_registry_refl)

lemma operational_view_same:
  assumes "dict_wf (sy_runtimes g)" "operational_view clk health g = (x, h)"
  shows "same_registry g h"
proof -
  have "distinct (map fst (sort_key fst (sy_runtimes g)))"
    using assms(1) by (simp add: distinct_map inj_on_def)
  moreover have "\<forall>p \<in> set (sort_key fst (sy_runtimes g)). map_of (sy_runtimes g) (fst p) = Some (snd p)"
    using assms(1) by simp
  ultimately show ?thesis
    using assms view_capacities_same [of g "sort_key fst (sy_runtimes g)"]
    by (auto simp: operational_view_def split: prod.split_asm simp del: map_of_eq_Some_iff)
qed

lemma registry_dispatches_same: "same_registry g h \<Longrightarrow> registry_dispatches h = registry_dispatches g"
proof -
  have "list_all2 (\<lambda>p q. fst p = fst q \<and> same_sends (snd p) (snd q)) xs ys \<Longrightarrow>
     map (\<lambda>(acc, rt). map (dispatch_value acc) (runtime_dispatches rt)) ys =
     map (\<lambda>(acc, rt). map (dispatch_value acc) (runtime_dispatches rt)) xs" for xs ys
    by (induction rule: list_all2_induct) (auto simp: same_sends_def runtime_dispatches_def)
  then show "same_registry g h \<Longrightarrow> registry_dispatches h = registry_dispatches g"
    unfolding same_registry_def registry_dispatches_def by simp
qed

section \<open>The dispatches of a view are those of the registry, each once\<close>

lemma dict_of_keys: "set (map fst (dict_of xs)) = set (map fst xs)"
proof (induction xs rule: rev_induct)
  case (snoc p xs)
  obtain k v where p: "p = (k, v)" by fastforce
  show ?case using snoc unfolding p dict_of_snoc update_keys by auto
qed (simp add: dict_of_def)

lemma dict_of_wf: "dict_wf (dict_of xs)"
  by (induction xs rule: rev_induct) (auto simp: dict_of_def distinct_update)

lemma dict_of_sub: "set (dict_of xs) \<subseteq> set xs"
proof (induction xs rule: rev_induct)
  case (snoc p xs)
  obtain k v where p: "p = (k, v)" by fastforce
  show ?case using snoc unfolding p dict_of_snoc set_update_wf [OF dict_of_wf] by auto
qed (simp add: dict_of_def)

lemma distinct_map_sort: "distinct (map f xs) \<Longrightarrow> distinct (map f (sort_key k xs))"
  by (metis distinct_map distinct_sort set_sort)

lemma view_dispatches_set: "set (view_dispatches g) \<subseteq> set (registry_dispatches g)"
  using dict_of_sub [of "map (\<lambda>v. (dv_attempt_id v, v)) (registry_dispatches g)"]
  by (auto simp: view_dispatches_def)

lemma view_dispatches_ids: "dv_attempt_id ` set (view_dispatches g) = dv_attempt_id ` set (registry_dispatches g)"
proof -
  let ?d = "map (\<lambda>v. (dv_attempt_id v, v)) (registry_dispatches g)"
  have "dv_attempt_id ` set (map snd (dict_of ?d)) = set (map fst (dict_of ?d))"
    using dict_of_sub [of ?d] by (force simp: image_iff)
  then show ?thesis by (simp add: view_dispatches_def dict_of_keys image_image del: set_map) (simp add: image_image)
qed

lemma view_dispatches_distinct: "distinct (map dv_attempt_id (view_dispatches g))"
proof -
  let ?d = "dict_of (map (\<lambda>v. (dv_attempt_id v, v)) (registry_dispatches g))"
  have "map dv_attempt_id (map snd ?d) = map fst ?d"
    using dict_of_sub [of "map (\<lambda>v. (dv_attempt_id v, v)) (registry_dispatches g)"] by auto
  then have "distinct (map dv_attempt_id (map snd ?d))" using dict_of_wf by metis
  then show ?thesis unfolding view_dispatches_def by (rule distinct_map_sort)
qed

end
