(* ===== verification/Routing.thy ===== *)
theory Routing
  imports Auth Operational_View
begin

text \<open>
  Routing (\<open>gateway/routing.py\<close>): failure classification, the per-request send budget and the route
  engine. The generation gate is a \<open>Protocol\<close> of the source: the argument \<open>gate\<close> (leg, manifest hash),
  whose \<open>Inl\<close> is an exception. Digests of canonical JSON are arguments: \<open>osha\<close> of an observation,
  \<open>bhash\<close> of a bundle.
\<close>

section \<open>Tables\<close>

fun CAUSE_TRIGGER :: "DispatchCause \<Rightarrow> RouteTrigger" where
  "CAUSE_TRIGGER DC_PRIMARY = PRIMARY"
| "CAUSE_TRIGGER DC_CAPACITY = CAPACITY_SPILL"
| "CAUSE_TRIGGER DC_FAILURE = FAILURE_FALLBACK"
| "CAUSE_TRIGGER DC_QUOTA = QUOTA_FALLBACK"
| "CAUSE_TRIGGER DC_MANUAL_EMERGENCY = MANUAL_EMERGENCY"
| "CAUSE_TRIGGER DC_SHADOW = SHADOW"

fun FAILURE_DISPATCH :: "FailureCause \<Rightarrow> DispatchCause option" where
  "FAILURE_DISPATCH FC_CAPACITY = Some DC_CAPACITY"
| "FAILURE_DISPATCH FC_TRANSIENT_FAILURE = Some DC_FAILURE"
| "FAILURE_DISPATCH FC_QUOTA = Some DC_QUOTA"
| "FAILURE_DISPATCH FC_UNKNOWN = None"

fun CIRCUIT_CAUSE :: "FailureCause \<Rightarrow> CircuitCause option" where
  "CIRCUIT_CAUSE FC_CAPACITY = Some CC_CAPACITY"
| "CIRCUIT_CAUSE FC_TRANSIENT_FAILURE = Some CC_TRANSIENT_FAILURE"
| "CIRCUIT_CAUSE FC_QUOTA = Some CC_QUOTA"
| "CIRCUIT_CAUSE FC_UNKNOWN = None"

section \<open>Emergency windows and the routing context\<close>

record EmergencyActivation =
  em_leg_ids :: "leg_id list"
  em_dispatcher_fence :: int
  em_activated_at_ms :: int
  em_expires_at_ms :: int

definition EmergencyActivation_validate :: "EmergencyActivation \<Rightarrow> EmergencyActivation res" where
  "EmergencyActivation_validate e = checks
    [(em_leg_ids e = [], ''leg_ids: min_length''),
     (\<not> em_dispatcher_fence e \<ge> 1, ''dispatcher_fence: ge''),
     (\<not> em_activated_at_ms e \<ge> 1, ''activated_at_ms: ge''),
     (\<not> em_expires_at_ms e \<ge> 1, ''expires_at_ms: ge''),
     (has_dup (em_leg_ids e), ''duplicate emergency leg''),
     (\<not> em_activated_at_ms e < em_expires_at_ms e, ''emergency activation expiry must follow activation''),
     (em_expires_at_ms e - em_activated_at_ms e > 3600000, ''emergency activation exceeds one hour'')] e"

definition emergency_permits :: "EmergencyActivation \<Rightarrow> leg_id \<Rightarrow> int \<Rightarrow> int \<Rightarrow> int \<Rightarrow> bool" where
  "emergency_permits e leg_id now_ms deadline_at_ms dispatcher_fence \<longleftrightarrow>
     leg_id \<in> set (em_leg_ids e) \<and> dispatcher_fence = em_dispatcher_fence e \<and>
     em_activated_at_ms e \<le> now_ms \<and> now_ms < em_expires_at_ms e \<and> deadline_at_ms \<le> em_expires_at_ms e"

record RoutingContext =
  cx_now_ms :: int
  cx_deadline_at_ms :: int
  cx_dispatcher_fence :: int
  cx_emergency :: "EmergencyActivation option"

definition RoutingContext_new :: "int \<Rightarrow> int \<Rightarrow> int \<Rightarrow> EmergencyActivation option \<Rightarrow> RoutingContext res" where
  "RoutingContext_new now_ms deadline_at_ms dispatcher_fence emergency = checks
    [(now_ms < 1 \<or> deadline_at_ms < 1 \<or> dispatcher_fence < 1, ''routing context values must be positive'')]
    \<lparr>cx_now_ms = now_ms, cx_deadline_at_ms = deadline_at_ms, cx_dispatcher_fence = dispatcher_fence,
     cx_emergency = emergency\<rparr>"

section \<open>Failure classification\<close>

record FailureObservation =
  fo_status_code :: int
  fo_error_code :: "string option"
  fo_message :: string
  fo_pre_response_bytes :: bool

definition FailureObservation_validate :: "FailureObservation \<Rightarrow> FailureObservation res" where
  "FailureObservation_validate ob = checks
    [(\<not> (100 \<le> fo_status_code ob \<and> fo_status_code ob \<le> 599), ''status_code: range''),
     (case fo_error_code ob of None \<Rightarrow> False | Some c \<Rightarrow> length c > 160, ''error_code: max_length''),
     (length (fo_message ob) > 4096, ''message: max_length'')] ob"

definition observation_digest :: "(FailureObservation \<Rightarrow> string) \<Rightarrow> FailureObservation \<Rightarrow> string" where
  "observation_digest osha ob = ''sha256:'' @ osha ob"

record FailureRule =
  fr_cause :: FailureCause
  fr_scope :: FailureScope
  fr_status_codes :: "int list"
  fr_error_codes :: "string list"
  fr_message_contains :: "string list"

definition FailureRule_validate :: "FailureRule \<Rightarrow> FailureRule res" where
  "FailureRule_validate r = checks
    [(fr_cause r = FC_UNKNOWN \<or> fr_scope r = FS_UNKNOWN, ''classifier rules must prove a known cause and scope''),
     (fr_status_codes r = [] \<or> list_ex (\<lambda>s. s < 100 \<or> s > 599) (fr_status_codes r),
       ''classifier rule requires bounded HTTP statuses''),
     (list_ex (\<lambda>v. v = [] \<or> length v > 160) (fr_error_codes r), ''classifier error code is empty or oversized''),
     (list_ex (\<lambda>v. v = [] \<or> length v > 1024) (fr_message_contains r),
       ''classifier message evidence is empty or oversized'')] r"

text \<open>Python's \<open>fragment in message\<close>.\<close>

definition contains :: "string \<Rightarrow> string \<Rightarrow> bool" where
  "contains message fragment \<longleftrightarrow>
     list_ex (\<lambda>i. take (length fragment) (drop i message) = fragment) [0..<Suc (length message)]"

definition rule_matches :: "FailureRule \<Rightarrow> FailureObservation \<Rightarrow> bool" where
  "rule_matches r ob \<longleftrightarrow>
    (if fo_status_code ob \<notin> set (fr_status_codes r) then False
     else if fr_error_codes r \<noteq> [] \<and> (case fo_error_code ob of None \<Rightarrow> True | Some c \<Rightarrow> c \<notin> set (fr_error_codes r))
     then False
     else list_all (contains (fo_message ob)) (fr_message_contains r))"

record FailureClassification =
  fc_cause :: FailureCause
  fc_scope :: FailureScope
  fc_evidence_digest :: string
  fc_pre_response_bytes :: bool

definition FailureClassification_new :: "FailureCause \<Rightarrow> FailureScope \<Rightarrow> string \<Rightarrow> bool \<Rightarrow> FailureClassification res" where
  "FailureClassification_new cause scope evidence_digest pre_response_bytes = checks
    [(take 7 evidence_digest \<noteq> ''sha256:'' \<or> length evidence_digest \<noteq> 71,
       ''failure classification requires a SHA-256 evidence digest''),
     ((cause = FC_UNKNOWN) \<noteq> (scope = FS_UNKNOWN), ''unknown failure cause and scope must agree'')]
    \<lparr>fc_cause = cause, fc_scope = scope, fc_evidence_digest = evidence_digest,
     fc_pre_response_bytes = pre_response_bytes\<rparr>"

definition dispatch_cause :: "FailureClassification \<Rightarrow> DispatchCause option" where
  "dispatch_cause c = (if \<not> fc_pre_response_bytes c then None else FAILURE_DISPATCH (fc_cause c))"

definition FailureClassifier_new :: "FailureRule list \<Rightarrow> FailureRule list res" where
  "FailureClassifier_new rules = checks
    [(rules = [], ''failure classifier requires at least one evidence rule'')] rules"

definition classify :: "(FailureObservation \<Rightarrow> string) \<Rightarrow> FailureRule list \<Rightarrow> FailureObservation
    \<Rightarrow> FailureClassification res" where
  "classify osha rules ob =
    (let (cause, scope) =
       (case filter (\<lambda>r. rule_matches r ob) rules of [r] \<Rightarrow> (fr_cause r, fr_scope r) | _ \<Rightarrow> (FC_UNKNOWN, FS_UNKNOWN)) in
     FailureClassification_new cause scope (observation_digest osha ob) (fo_pre_response_bytes ob))"

section \<open>Candidates and the send budget\<close>

record Candidate =
  cd_authorized_leg :: AuthorizedLeg
  cd_cause :: DispatchCause
  cd_account_circuit :: CircuitValue
  cd_deployment_circuit :: CircuitValue

definition cd_leg_id :: "Candidate \<Rightarrow> leg_id" where
  "cd_leg_id c = al_leg_id (cd_authorized_leg c)"

definition cd_account_id :: "Candidate \<Rightarrow> account_id" where
  "cd_account_id c = al_account_id (cd_authorized_leg c)"

definition cd_generation_id :: "Candidate \<Rightarrow> generation_id" where
  "cd_generation_id c = al_generation_id (cd_authorized_leg c)"

record DispatchedAttempt =
  da_attempt_id :: attempt_id
  da_leg_id :: leg_id
  da_generation_id :: generation_id
  da_circuit_epoch :: int
  da_account_circuit_epoch :: int
  da_probe_ids :: "string list"

record AttemptBudget =
  bu_request_id :: request_id
  bu_attempts :: "DispatchedAttempt list"
  bu_response_started :: bool

definition AttemptBudget_new :: "request_id \<Rightarrow> AttemptBudget" where
  "AttemptBudget_new request_id = \<lparr>bu_request_id = request_id, bu_attempts = [], bu_response_started = False\<rparr>"

definition opt_list :: "'a option \<Rightarrow> 'a list" where
  "opt_list v = (case v of None \<Rightarrow> [] | Some x \<Rightarrow> [x])"

definition dispatched_attempt :: "DispatchOperationalValue \<Rightarrow> DispatchedAttempt" where
  "dispatched_attempt d =
    \<lparr>da_attempt_id = dv_attempt_id d, da_leg_id = dv_leg_id d, da_generation_id = dv_deployment_generation_id d,
     da_circuit_epoch = dv_circuit_epoch d, da_account_circuit_epoch = dv_account_circuit_epoch d,
     da_probe_ids = opt_list (dv_account_circuit_probe_id d) @ opt_list (dv_circuit_probe_id d)\<rparr>"

primrec sync_dispatches :: "request_id \<Rightarrow> attempt_id set \<Rightarrow> DispatchOperationalValue list \<Rightarrow> DispatchedAttempt list" where
  "sync_dispatches request_id known [] = []"
| "sync_dispatches request_id known (d # ds) =
    (if dv_request_id d \<noteq> request_id \<or> dv_attempt_id d \<in> known then sync_dispatches request_id known ds
     else dispatched_attempt d # sync_dispatches request_id (insert (dv_attempt_id d) known) ds)"

definition sync_runtime :: "OperationalRuntimeView \<Rightarrow> AttemptBudget \<Rightarrow> AttemptBudget" where
  "sync_runtime view b =
     b\<lparr>bu_attempts := sort_key da_attempt_id (bu_attempts b @
         sync_dispatches (bu_request_id b) (set (map da_attempt_id (bu_attempts b))) (ov_dispatches view))\<rparr>"

definition from_runtime :: "request_id \<Rightarrow> OperationalRuntimeView \<Rightarrow> AttemptBudget" where
  "from_runtime request_id view = sync_runtime view (AttemptBudget_new request_id)"

definition send_closed :: "AttemptBudget \<Rightarrow> bool" where
  "send_closed b \<longleftrightarrow> bu_response_started b \<or> length (bu_attempts b) \<ge> 3"

definition mark_response_started :: "AttemptBudget \<Rightarrow> AttemptBudget" where
  "mark_response_started b = b\<lparr>bu_response_started := True\<rparr>"

definition probe_ids :: "Candidate \<Rightarrow> string list" where
  "probe_ids c = opt_list (half_open_probe (cd_account_circuit c)) @ opt_list (half_open_probe (cd_deployment_circuit c))"

definition can_send :: "Candidate \<Rightarrow> AttemptBudget \<Rightarrow> bool" where
  "can_send c b \<longleftrightarrow>
    (if send_closed b then False
     else if list_ex (\<lambda>a. da_leg_id a = cd_leg_id c \<and> da_circuit_epoch a = ci_epoch (cd_deployment_circuit c) \<and>
          da_account_circuit_epoch a = ci_epoch (cd_account_circuit c)) (bu_attempts b) then False
     else if \<not> list_ex (\<lambda>a. da_generation_id a = cd_generation_id c) (bu_attempts b) then True
     else cd_cause c = DC_CAPACITY \<and> probe_ids c \<noteq> [] \<and>
       list_all (\<lambda>p. list_all (\<lambda>a. p \<notin> set (da_probe_ids a)) (bu_attempts b)) (probe_ids c))"

definition record_send :: "Candidate \<Rightarrow> attempt_id \<Rightarrow> AttemptBudget \<Rightarrow> DispatchedAttempt res \<times> AttemptBudget" where
  "record_send c attempt_id b =
    (if \<not> can_send c b then (Inl (ValueError ''provider send exceeds the request attempt budget''), b)
     else let a = \<lparr>da_attempt_id = attempt_id, da_leg_id = cd_leg_id c, da_generation_id = cd_generation_id c,
            da_circuit_epoch = ci_epoch (cd_deployment_circuit c),
            da_account_circuit_epoch = ci_epoch (cd_account_circuit c), da_probe_ids = probe_ids c\<rparr> in
       (Inr a, b\<lparr>bu_attempts := bu_attempts b @ [a]\<rparr>))"

section \<open>The route engine\<close>

record RouteEngine =
  en_bundle :: PolicyBundleV1
  en_bundle_hash :: string
  en_keys :: "(key_id, ClientKeyRecord) dict"
  en_policies :: "(policy_id, KeyPolicyRevision) dict"
  en_groups :: "(route_group_id, RouteGroupRevision) dict"
  en_accounts :: "(account_id, ProviderAccount) dict"
  en_groups_by_name :: "(string, RouteGroupRevision) dict"

type_synonym generation_gate = "AuthorizedLeg \<Rightarrow> string \<Rightarrow> bool res"

definition activate :: "(PolicyBundleV1 \<Rightarrow> string) \<Rightarrow> PolicyBundleV1 \<Rightarrow> RouteEngine res" where
  "activate bhash bundle =
    res_map (\<lambda>validated.
      \<lparr>en_bundle = validated, en_bundle_hash = bhash validated,
       en_keys = dict_of (map (\<lambda>k. (ck_key_id k, k)) (pb_keys validated)),
       en_policies = dict_of (map (\<lambda>p. (kp_policy_id p, p)) (pb_policies validated)),
       en_groups = dict_of (map (\<lambda>g. (rg_route_group_id g, g)) (pb_route_groups validated)),
       en_accounts = dict_of (map (\<lambda>a. (pa_account_id a, a)) (pb_accounts validated)),
       en_groups_by_name = dict_of (map (\<lambda>g. (rg_name g, g)) (pb_route_groups validated))\<rparr>)
      (PolicyBundleV1_validate bundle)"

definition resolve_route_group_id :: "RouteEngine \<Rightarrow> string \<Rightarrow> route_group_id res" where
  "resolve_route_group_id en model_alias =
    (case map_of (en_groups_by_name en) model_alias of
       None \<Rightarrow> Inl (ValueError ''unknown client-visible model'')
     | Some g \<Rightarrow> Inr (rg_route_group_id g))"

definition policy_deadline_ms :: "RouteEngine \<Rightarrow> AuthenticatedClient \<Rightarrow> int res" where
  "policy_deadline_ms en client =
    (case map_of (en_policies en) (cl_policy_id client) of
       None \<Rightarrow> Inl (ValueError ''client policy is absent from the current bundle'')
     | Some p \<Rightarrow> Inr (kp_deadline_ms p))"

definition client_authorizes_shadow :: "RouteEngine \<Rightarrow> AuthenticatedClient \<Rightarrow> bool" where
  "client_authorizes_shadow en client =
    (case map_of (en_policies en) (cl_policy_id client) of
       None \<Rightarrow> False
     | Some p \<Rightarrow> list_ex (\<lambda>l. SHADOW \<in> set (al_allowed_triggers l)) (kp_authorized_legs p))"

definition group_authorized_legs :: "RouteEngine \<Rightarrow> KeyPolicyRevision \<Rightarrow> route_group_id \<Rightarrow> AuthorizedLeg list" where
  "group_authorized_legs en policy route_group_id =
    (case map_of (en_groups en) route_group_id of
       None \<Rightarrow> []
     | Some grp \<Rightarrow>
         if route_group_id \<notin> set (kp_route_group_ids policy) then []
         else filter (\<lambda>l. al_leg_id l \<in> set (map rl_leg_id (rg_legs grp))) (kp_authorized_legs policy))"

definition authorize :: "RouteEngine \<Rightarrow> AuthenticatedClient \<Rightarrow> RequestProfile \<Rightarrow> RequestAuthorizationCeiling res" where
  "authorize en client profile =
    (if (case map_of (en_keys en) (cl_key_id client) of
           None \<Rightarrow> True | Some key \<Rightarrow> ck_state key \<noteq> KS_ENABLED \<or> ck_policy_id key \<noteq> cl_policy_id client)
     then Inl (ValueError ''client key has no current complete authorization'')
     else (case map_of (en_policies en) (cl_policy_id client) of
        None \<Rightarrow> Inl (ValueError ''client policy is absent from the current bundle'')
      | Some policy \<Rightarrow>
          RequestAuthorizationCeiling_validate
            \<lparr>rc_key_id = cl_key_id client,
             rc_credential_generation = cl_accepted_credential_generation client,
             rc_policy_id = kp_policy_id policy,
             rc_bundle_generation = pb_generation (en_bundle en),
             rc_bundle_hash = en_bundle_hash en,
             rc_route_group_id = pr_route_group_id profile,
             rc_authorized_legs = group_authorized_legs en policy (pr_route_group_id profile),
             rc_queue_tier = kp_queue_tier policy, rc_queue_weight = kp_queue_weight policy,
             rc_max_concurrency = kp_max_concurrency policy, rc_max_waiters = kp_max_waiters policy,
             rc_deadline_ms = kp_deadline_ms policy\<rparr>))"

definition quota_units :: "RouteEngine \<Rightarrow> account_id \<Rightarrow> int res" where
  "quota_units en account_id =
    (case map_of (en_accounts en) account_id of
       None \<Rightarrow> Inl (ValueError ''candidate account is absent from the current bundle'')
     | Some a \<Rightarrow> Inr (pa_quota_units_per_attempt a))"

definition view_account :: "AuthorizedLeg \<Rightarrow> OperationalRuntimeView \<Rightarrow> AccountCapacity option" where
  "view_account leg view = find (\<lambda>c. ac_account_id c = al_account_id leg) (ov_accounts view)"

definition view_deployment :: "AuthorizedLeg \<Rightarrow> OperationalRuntimeView \<Rightarrow> CircuitValue" where
  "view_deployment leg view =
    (case find (\<lambda>c. cov_account_id c = al_account_id leg \<and> cov_deployment_generation_id c = al_generation_id leg)
        (ov_circuits view) of
       None \<Rightarrow> CircuitValue_closed 0 | Some c \<Rightarrow> cov_value c)"

definition leg_circuits :: "AuthorizedLeg \<Rightarrow> OperationalRuntimeView \<Rightarrow> CircuitValue \<times> CircuitValue" where
  "leg_circuits leg view =
    (case view_account leg view of None \<Rightarrow> CircuitValue_closed 0 | Some a \<Rightarrow> ac_account_circuit a,
     view_deployment leg view)"

definition candidate :: "AuthorizedLeg \<Rightarrow> DispatchCause \<Rightarrow> OperationalRuntimeView option \<Rightarrow> Candidate" where
  "candidate leg cause view =
    (let (account, deployment) =
       (case view of None \<Rightarrow> (CircuitValue_closed 0, CircuitValue_closed 0) | Some v \<Rightarrow> leg_circuits leg v) in
     \<lparr>cd_authorized_leg = leg, cd_cause = cause, cd_account_circuit = account, cd_deployment_circuit = deployment\<rparr>)"

definition capabilities_allow :: "AuthorizedLeg \<Rightarrow> RequestProfile \<Rightarrow> bool" where
  "capabilities_allow leg p \<longleftrightarrow>
    (let c = al_capabilities leg in
     pr_endpoint p \<in> set (cap_endpoints c) \<and> pr_modality p \<in> set (cap_modalities c) \<and>
     pr_input_tokens_max p + pr_output_tokens_max p + pr_reasoning_tokens_max p \<le> cap_context_tokens c \<and>
     (pr_tools_count p = 0 \<or> cap_tools c) \<and> (\<not> pr_forced_tool_required p \<or> cap_forced_tool c) \<and>
     (\<not> pr_response_schema_present p \<or> cap_response_schema c) \<and> (\<not> pr_stream p \<or> cap_streaming c) \<and>
     (pr_reasoning_tokens_max p = 0 \<or> cap_reasoning c) \<and> (pr_history_turns p = 0 \<or> cap_history_continuation c))"

definition operationally_available :: "generation_gate \<Rightarrow> RouteEngine \<Rightarrow> AuthorizedLeg \<Rightarrow> OperationalRuntimeView \<Rightarrow> bool" where
  "operationally_available gate en leg view =
    (case gate leg (pb_backend_manifest_hash (en_bundle en)) of
       Inl _ \<Rightarrow> False
     | Inr generation_allowed \<Rightarrow>
       if \<not> generation_allowed then False
       else if ov_recovery_state view \<noteq> JS_HEALTHY then False
       else (case view_account leg view of
          None \<Rightarrow> False
        | Some a \<Rightarrow>
          if ac_state a \<noteq> AS_ACTIVE \<or> ac_recovery_probe_in_flight a \<or> ac_active_attempts a \<ge> ac_parallel_limit a
             \<or> ci_state (ac_account_circuit a) = CS_OPEN then False
          else ci_state (view_deployment leg view) \<noteq> CS_OPEN))"

definition eligible :: "generation_gate \<Rightarrow> RouteEngine \<Rightarrow> AuthorizedLeg \<Rightarrow> RequestProfile \<Rightarrow> DispatchCause
    \<Rightarrow> OperationalRuntimeView \<Rightarrow> RoutingContext \<Rightarrow> bool" where
  "eligible gate en leg profile cause view cx =
    (if cap_shadow (al_capabilities leg) \<or> SHADOW \<in> set (al_allowed_triggers leg) then False
     else if CAUSE_TRIGGER cause \<notin> set (al_allowed_triggers leg) then False
     else if \<not> capabilities_allow leg profile then False
     else if cause = DC_MANUAL_EMERGENCY \<and>
        (case cx_emergency cx of None \<Rightarrow> True
         | Some e \<Rightarrow> \<not> emergency_permits e (al_leg_id leg) (cx_now_ms cx) (cx_deadline_at_ms cx) (cx_dispatcher_fence cx))
     then False
     else cx_now_ms cx < cx_deadline_at_ms cx \<and> operationally_available gate en leg view)"

fun blocking_circuit_cause :: "CircuitCause \<Rightarrow> DispatchCause option" where
  "blocking_circuit_cause CC_CAPACITY = Some DC_CAPACITY"
| "blocking_circuit_cause CC_TRANSIENT_FAILURE = Some DC_FAILURE"
| "blocking_circuit_cause CC_QUOTA = Some DC_QUOTA"
| "blocking_circuit_cause CC_MANUAL = None"

text \<open>What one circuit adds to the blockers of a leg; the outer \<open>None\<close> is the early return.\<close>

definition circuit_blocker :: "CircuitValue \<Rightarrow> DispatchCause list option" where
  "circuit_blocker c =
    (if ci_state c \<noteq> CS_OPEN then Some []
     else case ci_cause c of None \<Rightarrow> None | Some cause \<Rightarrow> map_option (\<lambda>d. [d]) (blocking_circuit_cause cause))"

definition leg_blocker :: "generation_gate \<Rightarrow> RouteEngine \<Rightarrow> OperationalRuntimeView \<Rightarrow> AuthorizedLeg \<Rightarrow> DispatchCause option" where
  "leg_blocker gate en view leg =
    (case view_account leg view of
       None \<Rightarrow> None
     | Some a \<Rightarrow>
       if ac_state a \<noteq> AS_ACTIVE \<or> ac_recovery_probe_in_flight a then None
       else (case gate leg (pb_backend_manifest_hash (en_bundle en)) of
          Inl _ \<Rightarrow> None
        | Inr generation_allowed \<Rightarrow>
          if \<not> generation_allowed then None
          else let full = (if ac_active_attempts a \<ge> ac_parallel_limit a then [DC_CAPACITY] else []) in
            (case circuit_blocker (ac_account_circuit a) of
               None \<Rightarrow> None
             | Some account \<Rightarrow>
               (case circuit_blocker (view_deployment leg view) of
                  None \<Rightarrow> None
                | Some deployment \<Rightarrow>
                  (case remdups (full @ account @ deployment) of [d] \<Rightarrow> Some d | _ \<Rightarrow> None)))))"

primrec leg_blockers :: "generation_gate \<Rightarrow> RouteEngine \<Rightarrow> OperationalRuntimeView \<Rightarrow> AuthorizedLeg list
    \<Rightarrow> DispatchCause list option" where
  "leg_blockers gate en view [] = Some []"
| "leg_blockers gate en view (l # ls) =
    (case leg_blocker gate en view l of
       None \<Rightarrow> None | Some d \<Rightarrow> map_option ((#) d) (leg_blockers gate en view ls))"

definition primary_blocking_cause :: "generation_gate \<Rightarrow> RouteEngine \<Rightarrow> RequestAuthorizationCeiling \<Rightarrow> RequestProfile
    \<Rightarrow> OperationalRuntimeView \<Rightarrow> DispatchCause option" where
  "primary_blocking_cause gate en authorization profile view =
    (let primaries = filter (\<lambda>l. PRIMARY \<in> set (al_allowed_triggers l) \<and> \<not> cap_shadow (al_capabilities l) \<and>
           capabilities_allow l profile) (rc_authorized_legs authorization) in
     if primaries = [] then None
     else case leg_blockers gate en view primaries of
       None \<Rightarrow> None
     | Some causes \<Rightarrow> (case remdups causes of [d] \<Rightarrow> Some d | _ \<Rightarrow> None))"

definition filter_candidates :: "generation_gate \<Rightarrow> RouteEngine \<Rightarrow> RequestAuthorizationCeiling \<Rightarrow> RequestProfile
    \<Rightarrow> DispatchCause \<Rightarrow> OperationalRuntimeView \<Rightarrow> RoutingContext \<Rightarrow> account_id list \<Rightarrow> Candidate list" where
  "filter_candidates gate en authorization profile cause view cx excluded_accounts =
    (if pr_route_group_id profile \<noteq> rc_route_group_id authorization then []
     else map (\<lambda>l. candidate l cause (Some view))
       (filter (\<lambda>l. al_account_id l \<notin> set excluded_accounts \<and> eligible gate en l profile cause view cx)
         (rc_authorized_legs authorization)))"

definition select_candidate :: "generation_gate \<Rightarrow> RouteEngine \<Rightarrow> RequestAuthorizationCeiling \<Rightarrow> RequestProfile
    \<Rightarrow> DispatchCause \<Rightarrow> OperationalRuntimeView \<Rightarrow> RoutingContext \<Rightarrow> account_id list \<Rightarrow> Candidate option" where
  "select_candidate gate en authorization profile cause view cx excluded_accounts =
    (case filter_candidates gate en authorization profile cause view cx excluded_accounts of
       [] \<Rightarrow> None | c # _ \<Rightarrow> Some c)"

definition shadow_candidate :: "generation_gate \<Rightarrow> RouteEngine \<Rightarrow> RequestAuthorizationCeiling \<Rightarrow> RequestProfile
    \<Rightarrow> OperationalRuntimeView \<Rightarrow> RoutingContext \<Rightarrow> Candidate option" where
  "shadow_candidate gate en authorization profile view cx =
    (if pr_route_group_id profile \<noteq> rc_route_group_id authorization \<or> cx_now_ms cx \<ge> cx_deadline_at_ms cx then None
     else find (\<lambda>c. ci_state (cd_account_circuit c) = CS_CLOSED \<and> ci_state (cd_deployment_circuit c) = CS_CLOSED)
       (map (\<lambda>l. candidate l DC_SHADOW (Some view))
         (filter (\<lambda>l. SHADOW \<in> set (al_allowed_triggers l) \<and> cap_shadow (al_capabilities l) \<and>
            capabilities_allow l profile \<and> operationally_available gate en l view)
           (rc_authorized_legs authorization))))"

end
