(* ===== verification/Routing_Promises.thy ===== *)
theory Routing_Promises
  imports Routing
begin

text \<open>
  What routing promises: a serving candidate is a leg that the current bundle and the admitted ceiling
  both grant, traffic spills only when the primary legs are blocked, evidence is needed to name a
  failure, and the send budget of a request holds over restarts.
\<close>

section \<open>Serving candidates\<close>

lemma eligibleD:
  assumes "eligible gate en leg profile cause view cx"
  shows "\<not> cap_shadow (al_capabilities leg)" "SHADOW \<notin> set (al_allowed_triggers leg)"
    "CAUSE_TRIGGER cause \<in> set (al_allowed_triggers leg)" "capabilities_allow leg profile"
    "cx_now_ms cx < cx_deadline_at_ms cx" "operationally_available gate en leg view"
    "cause = DC_MANUAL_EMERGENCY \<Longrightarrow> \<exists>e. cx_emergency cx = Some e \<and>
       emergency_permits e (al_leg_id leg) (cx_now_ms cx) (cx_deadline_at_ms cx) (cx_dispatcher_fence cx)"
  using assms by (auto simp: eligible_def split: if_split_asm option.split_asm)

lemma activate_Inr:
  assumes "activate bhash bundle = Inr en"
  shows "bundle_ok (en_bundle en)"
    and "map_of (en_policies en) k = Some pol \<Longrightarrow> pol \<in> set (pb_policies (en_bundle en)) \<and> kp_policy_id pol = k"
    and "map_of (en_keys en) k = Some key \<Longrightarrow> key \<in> set (pb_keys (en_bundle en)) \<and> ck_key_id key = k"
    and "map_of (en_groups en) k = Some grp \<Longrightarrow> grp \<in> set (pb_route_groups (en_bundle en)) \<and> rg_route_group_id grp = k"
proof -
  obtain b where b: "PolicyBundleV1_validate bundle = Inr b" "en_bundle en = b"
    "en_policies en = dict_of (map (\<lambda>p. (kp_policy_id p, p)) (pb_policies b))"
    "en_keys en = dict_of (map (\<lambda>k. (ck_key_id k, k)) (pb_keys b))"
    "en_groups en = dict_of (map (\<lambda>g. (rg_route_group_id g, g)) (pb_route_groups b))"
    using assms by (auto simp: activate_def res_map_Inr)
  have in_dict: "x \<in> set xs \<and> f x = k" if "map_of (dict_of (map (\<lambda>x. (f x, x)) xs)) k = Some x"
    for f :: "'c \<Rightarrow> 'd" and xs x k
    using dict_of_sub [of "map (\<lambda>x. (f x, x)) xs"] map_of_SomeD [OF that] by auto
  show "bundle_ok (en_bundle en)" using b PolicyBundleV1_validate_idem by simp
  show "map_of (en_policies en) k = Some pol \<Longrightarrow> pol \<in> set (pb_policies (en_bundle en)) \<and> kp_policy_id pol = k"
    using b in_dict by fastforce
  show "map_of (en_keys en) k = Some key \<Longrightarrow> key \<in> set (pb_keys (en_bundle en)) \<and> ck_key_id key = k"
    using b in_dict by fastforce
  show "map_of (en_groups en) k = Some grp \<Longrightarrow> grp \<in> set (pb_route_groups (en_bundle en)) \<and> rg_route_group_id grp = k"
    using b in_dict by fastforce
qed

lemma authorize_Inr:
  assumes "authorize en client profile = Inr c"
  obtains key pol where "map_of (en_keys en) (cl_key_id client) = Some key" "ck_state key = KS_ENABLED"
    "ck_policy_id key = cl_policy_id client" "map_of (en_policies en) (cl_policy_id client) = Some pol"
    "ceiling_valid c" "rc_route_group_id c = pr_route_group_id profile"
    "set (rc_authorized_legs c) = set (group_authorized_legs en pol (pr_route_group_id profile))"
proof -
  obtain key pol where k: "map_of (en_keys en) (cl_key_id client) = Some key" "ck_state key = KS_ENABLED"
      "ck_policy_id key = cl_policy_id client" "map_of (en_policies en) (cl_policy_id client) = Some pol"
    using assms by (auto simp: authorize_def split: option.split_asm if_split_asm)
  moreover have "ceiling_valid c \<and> rc_route_group_id c = pr_route_group_id profile \<and>
     set (rc_authorized_legs c) = set (group_authorized_legs en pol (pr_route_group_id profile))"
    using assms k by (auto simp: authorize_def ceiling_validate_Inr ceiling_valid_iff ceiling_fields_ok_def
        distinct_map_sort)
  ultimately show thesis using that by blast
qed

lemma bundle_leg_group:
  assumes ok: "bundle_ok b" and g: "g \<in> set (pb_route_groups b)" "rl \<in> set (rg_legs g)"
    and h: "h \<in> set (pb_route_groups b)" "sl \<in> set (rg_legs h)" and same: "rl_leg_id rl = rl_leg_id sl"
  shows "rg_route_group_id g = rg_route_group_id h \<and> rl = sl"
proof -
  have "distinct (map (rl_leg_id \<circ> snd) (bundle_legs b))"
    using bundle_ok_membership [OF ok] by (simp add: exact_membership_checks_def)
  moreover have "(rg_route_group_id g, rl) \<in> set (bundle_legs b)" "(rg_route_group_id h, sl) \<in> set (bundle_legs b)"
    using g h by (auto simp: bundle_legs_def)
  ultimately have "(rg_route_group_id g, rl) = (rg_route_group_id h, sl)"
    using same unfolding distinct_map by (metis comp_apply inj_onD snd_conv)
  then show ?thesis by simp
qed

text \<open>A leg of the bundle that a policy grants for a route group.\<close>

definition granted_leg :: "PolicyBundleV1 \<Rightarrow> policy_id \<Rightarrow> route_group_id \<Rightarrow> RouteLeg \<Rightarrow> bool" where
  "granted_leg b policy_id route_group_id rl \<longleftrightarrow>
     (\<exists>g \<in> set (pb_route_groups b). rg_route_group_id g = route_group_id \<and> rl \<in> set (rg_legs g)) \<and>
     (\<exists>pol \<in> set (pb_policies b). kp_policy_id pol = policy_id \<and> route_group_id \<in> set (kp_route_group_ids pol) \<and>
        rl_leg_id rl \<in> al_leg_id ` set (kp_authorized_legs pol))"

definition leg_of_route :: "AuthorizedLeg \<Rightarrow> RouteLeg \<Rightarrow> bool" where
  "leg_of_route l rl \<longleftrightarrow> al_identity l = (rl_leg_id rl, rl_account_id rl, rl_generation_id rl, rl_order rl) \<and>
     set (al_allowed_triggers l) \<subseteq> set (rl_triggers rl) \<and> cap_within (al_capabilities l) (rl_capabilities rl)"

lemma authorized_leg_granted:
  assumes en: "activate bhash bundle = Inr en" and auth: "authorize en client profile = Inr c"
    and l: "l \<in> set (rc_authorized_legs c)"
  shows "\<exists>rl. granted_leg (en_bundle en) (cl_policy_id client) (pr_route_group_id profile) rl \<and> leg_of_route l rl"
proof -
  let ?b = "en_bundle en"
  obtain pol where pol: "map_of (en_policies en) (cl_policy_id client) = Some pol"
    and legs: "set (rc_authorized_legs c) = set (group_authorized_legs en pol (pr_route_group_id profile))"
    using authorize_Inr [OF auth] by metis
  obtain grp where grp: "map_of (en_groups en) (pr_route_group_id profile) = Some grp"
    and gid: "pr_route_group_id profile \<in> set (kp_route_group_ids pol)"
    and lg: "al_leg_id l \<in> rl_leg_id ` set (rg_legs grp)" "l \<in> set (kp_authorized_legs pol)"
    using l unfolding legs group_authorized_legs_def
    by (cases "map_of (en_groups en) (pr_route_group_id profile)") (auto split: if_split_asm)
  note ok = activate_Inr(1) [OF en] and inpol = activate_Inr(2) [OF en pol] and ingrp = activate_Inr(4) [OF en grp]
  have "leg_granted_exactly ?b pol l" using ok inpol lg(2) by (intro bundle_ok_grants) auto
  then obtain g rl where g: "g \<in> set (pb_route_groups ?b)" "rl \<in> set (rg_legs g)"
    "al_identity l = (rl_leg_id rl, rl_account_id rl, rl_generation_id rl, rl_order rl)"
    "set (al_allowed_triggers l) \<subseteq> set (rl_triggers rl)" "al_capabilities l = rl_capabilities rl"
    unfolding leg_granted_exactly_def by blast
  obtain sl where sl: "sl \<in> set (rg_legs grp)" "rl_leg_id sl = al_leg_id l" using lg(1) by auto
  have "rl_leg_id rl = rl_leg_id sl" using g(3) sl(2) by (simp add: al_identity_def)
  then have "rg_route_group_id g = rg_route_group_id grp"
    using bundle_leg_group [OF ok g(1,2) _ sl(1)] ingrp by blast
  moreover have "rl_leg_id rl \<in> al_leg_id ` set (kp_authorized_legs pol)"
    using g(3) lg(2) unfolding al_identity_def by (metis imageI prod.inject)
  ultimately have "granted_leg ?b (cl_policy_id client) (pr_route_group_id profile) rl"
    unfolding granted_leg_def using g(1,2) ingrp inpol gid
    by (intro conjI bexI [of _ g] bexI [of _ pol]) simp_all
  moreover have "leg_of_route l rl" using g by (simp add: leg_of_route_def cap.within_refl)
  ultimately show ?thesis by blast
qed

lemma leg_of_route_within: "leg_of_route l rl \<Longrightarrow> leg_within k l \<Longrightarrow> leg_of_route k rl"
  unfolding leg_of_route_def leg_within_def by (auto intro: cap.within_trans)

lemma select_candidateD:
  assumes "select_candidate gate en authorization profile cause view cx excluded = Some c"
  shows "cd_authorized_leg c \<in> set (rc_authorized_legs authorization)" "al_account_id (cd_authorized_leg c) \<notin> set excluded"
    "eligible gate en (cd_authorized_leg c) profile cause view cx" "c = candidate (cd_authorized_leg c) cause (Some view)"
    "pr_route_group_id profile = rc_route_group_id authorization"
proof -
  have "c \<in> set (filter_candidates gate en authorization profile cause view cx excluded)"
    using assms by (auto simp: select_candidate_def split: list.split_asm)
  then obtain l where l: "l \<in> set (rc_authorized_legs authorization)" "al_account_id l \<notin> set excluded"
    "eligible gate en l profile cause view cx" "c = candidate l cause (Some view)"
    "pr_route_group_id profile = rc_route_group_id authorization"
    by (auto simp: filter_candidates_def split: if_split_asm)
  moreover have "cd_authorized_leg c = l" using l(4) by (simp add: candidate_def Let_def split: prod.split)
  ultimately show "cd_authorized_leg c \<in> set (rc_authorized_legs authorization)" "al_account_id (cd_authorized_leg c) \<notin> set excluded"
    "eligible gate en (cd_authorized_leg c) profile cause view cx" "c = candidate (cd_authorized_leg c) cause (Some view)"
    "pr_route_group_id profile = rc_route_group_id authorization" by simp_all
qed

definition serves_request :: "OperationalRuntimeView \<Rightarrow> AuthorizedLeg \<Rightarrow> bool" where
  "serves_request view leg \<longleftrightarrow> ov_recovery_state view = JS_HEALTHY \<and>
     (\<exists>a. view_account leg view = Some a \<and> ac_state a = AS_ACTIVE \<and> \<not> ac_recovery_probe_in_flight a \<and>
        ac_active_attempts a < ac_parallel_limit a \<and> ci_state (ac_account_circuit a) \<noteq> CS_OPEN) \<and>
     ci_state (view_deployment leg view) \<noteq> CS_OPEN"

lemma operationally_availableD: "operationally_available gate en leg view \<Longrightarrow> serves_request view leg"
  by (auto simp: operationally_available_def serves_request_def split: sum.split_asm option.split_asm if_split_asm)

text \<open>C15: a request is only ever sent where both its admission and the current bundle allow. When a
  queued request is re-authorized against the active bundle and a candidate is selected, the leg is a
  leg of the bundle's route group for this request that the client's policy grants, the dispatch
  cause is a trigger the bundle gives this leg, the leg's capabilities cover the request, it is not a
  shadow leg, its account is not excluded, and the view shows a healthy journal, an active account
  with a free slot and no open circuit.\<close>

theorem serving_candidate_is_authorized:
  assumes "activate bhash bundle = Inr en" "authorize en client profile = Inr now"
    and "ceiling_valid admitted" "RequestAuthorizationCeiling_intersection admitted now = Inr current"
    and "select_candidate gate en current profile cause view cx excluded = Some c"
  shows "\<exists>rl. granted_leg (en_bundle en) (cl_policy_id client) (pr_route_group_id profile) rl \<and>
    leg_of_route (cd_authorized_leg c) rl \<and> CAUSE_TRIGGER cause \<in> set (rl_triggers rl) \<and>
    capabilities_allow (cd_authorized_leg c) profile \<and> \<not> cap_shadow (rl_capabilities rl) \<and>
    cd_account_id c \<notin> set excluded \<and> serves_request view (cd_authorized_leg c) \<and>
    (\<exists>m \<in> set (rc_authorized_legs admitted). leg_within (cd_authorized_leg c) m)"
proof -
  let ?leg = "cd_authorized_leg c"
  note sel = select_candidateD [OF assms(5)]
  have within: "ceiling_within current admitted" "ceiling_within current now"
    using ceiling_intersection_Inr [OF assms(3,4)] by auto
  obtain l where l: "l \<in> set (rc_authorized_legs now)" "leg_within ?leg l"
    using within(2) sel(1) unfolding ceiling_within_def by blast
  obtain rl where rl: "granted_leg (en_bundle en) (cl_policy_id client) (pr_route_group_id profile) rl" "leg_of_route l rl"
    using authorized_leg_granted [OF assms(1,2) l(1)] by blast
  note route = leg_of_route_within [OF rl(2) l(2)]
  note el = eligibleD [OF sel(3)]
  have "CAUSE_TRIGGER cause \<in> set (rl_triggers rl)" "\<not> cap_shadow (rl_capabilities rl)"
    using route el(1,3) by (auto simp: leg_of_route_def cap_within_def)
  moreover have "\<exists>m \<in> set (rc_authorized_legs admitted). leg_within ?leg m"
    using within(1) sel(1) unfolding ceiling_within_def by blast
  ultimately show ?thesis
    using rl(1) route el(4) sel(2) operationally_availableD [OF el(6)] by (auto simp: cd_account_id_def)
qed

section \<open>Spill\<close>

lemma circuit_blocker_open: "circuit_blocker c = Some (d # ds) \<Longrightarrow> ci_state c = CS_OPEN"
  by (simp add: circuit_blocker_def split: if_split_asm)

lemma leg_blocker_unavailable:
  assumes "leg_blocker gate en view leg = Some d"
  shows "\<not> operationally_available gate en leg view"
proof
  assume "operationally_available gate en leg view"
  then have "serves_request view leg" by (rule operationally_availableD)
  then obtain a where a: "view_account leg view = Some a" "ac_active_attempts a < ac_parallel_limit a"
    "circuit_blocker (ac_account_circuit a) = Some []" "circuit_blocker (view_deployment leg view) = Some []"
    by (auto simp: serves_request_def circuit_blocker_def)
  with assms show False by (simp add: leg_blocker_def split: sum.split_asm if_split_asm)
qed

lemma leg_blockers_all: "leg_blockers gate en view ls = Some ds \<Longrightarrow> l \<in> set ls \<Longrightarrow> \<exists>d. leg_blocker gate en view l = Some d"
  by (induction ls arbitrary: ds) (auto split: option.split_asm)

text \<open>traffic leaves the primary leg only when the primary leg cannot take it. Whenever the engine
  names a blocking cause, no leg of the ceiling is eligible to serve the request as primary.\<close>

theorem spill_only_when_primary_blocked:
  assumes "primary_blocking_cause gate en authorization profile view = Some d"
    and "leg \<in> set (rc_authorized_legs authorization)"
  shows "\<not> eligible gate en leg profile DC_PRIMARY view cx"
proof
  assume "eligible gate en leg profile DC_PRIMARY view cx"
  note el = eligibleD [OF this]
  let ?ps = "filter (\<lambda>l. PRIMARY \<in> set (al_allowed_triggers l) \<and> \<not> cap_shadow (al_capabilities l) \<and>
           capabilities_allow l profile) (rc_authorized_legs authorization)"
  have "leg \<in> set ?ps" using el assms(2) by simp
  moreover obtain ds where "leg_blockers gate en view ?ps = Some ds"
    using assms(1) by (auto simp: primary_blocking_cause_def Let_def split: if_split_asm option.split_asm)
  ultimately obtain d' where "leg_blocker gate en view leg = Some d'" using leg_blockers_all by blast
  with el(6) show False using leg_blocker_unavailable by blast
qed

section \<open>Failure evidence\<close>

text \<open>a failure gets a name only from exactly one piece of evidence. Over validated rules the
  classifier always answers; it names a cause exactly when one rule matches, then it is that rule's
  cause and scope; and it allows another send only for a named cause before any byte of the response.\<close>

theorem classification_needs_unique_evidence:
  assumes "\<forall>r \<in> set rules. FailureRule_validate r = Inr r" "length (osha ob) = 64"
  shows "\<exists>c. classify osha rules ob = Inr c \<and>
    (fc_cause c \<noteq> FC_UNKNOWN \<longleftrightarrow> length (filter (\<lambda>r. rule_matches r ob) rules) = 1) \<and>
    (\<forall>r. filter (\<lambda>r. rule_matches r ob) rules = [r] \<longrightarrow> fc_cause c = fr_cause r \<and> fc_scope c = fr_scope r) \<and>
    (dispatch_cause c \<noteq> None \<longrightarrow> fc_cause c \<noteq> FC_UNKNOWN \<and> fo_pre_response_bytes ob)"
proof -
  let ?ms = "filter (\<lambda>r. rule_matches r ob) rules"
  have known: "fr_cause r \<noteq> FC_UNKNOWN \<and> fr_scope r \<noteq> FS_UNKNOWN" if "?ms = [r]" for r
  proof -
    have "r \<in> set ?ms" unfolding that by simp
    then have "FailureRule_validate r = Inr r" using assms(1) by simp
    then show ?thesis by (simp add: FailureRule_validate_def checks_Inr)
  qed
  define cs where "cs = (case ?ms of [r] \<Rightarrow> (fr_cause r, fr_scope r) | _ \<Rightarrow> (FC_UNKNOWN, FS_UNKNOWN))"
  have agree: "(fst cs = FC_UNKNOWN) = (snd cs = FS_UNKNOWN)" "fst cs \<noteq> FC_UNKNOWN \<longleftrightarrow> length ?ms = 1"
    "\<forall>r. ?ms = [r] \<longrightarrow> fst cs = fr_cause r \<and> snd cs = fr_scope r"
    using known unfolding cs_def by (auto split: list.split simp: length_Suc_conv)
  have "classify osha rules ob = Inr \<lparr>fc_cause = fst cs, fc_scope = snd cs,
      fc_evidence_digest = observation_digest osha ob, fc_pre_response_bytes = fo_pre_response_bytes ob\<rparr>"
    using agree(1) assms(2) unfolding classify_def cs_def [symmetric]
    by (cases cs) (simp add: FailureClassification_new_def observation_digest_def checks_Inr)
  moreover have "dispatch_cause x \<noteq> None \<Longrightarrow> fc_cause x \<noteq> FC_UNKNOWN \<and> fc_pre_response_bytes x" for x
    by (auto simp: dispatch_cause_def split: if_split_asm)
  ultimately show ?thesis using agree(2,3) by fastforce
qed

section \<open>The send budget\<close>

inductive send_step :: "AttemptBudget \<Rightarrow> AttemptBudget \<Rightarrow> bool" where
  step_send: "record_send c aid b = (x, b') \<Longrightarrow> send_step b b'"
| step_started: "send_step b (mark_response_started b)"

definition budget_init :: "AttemptBudget \<Rightarrow> bool" where
  "budget_init b \<longleftrightarrow> (\<exists>rid. b = AttemptBudget_new rid)"

definition send_slot :: "DispatchedAttempt \<Rightarrow> leg_id \<times> int \<times> int" where
  "send_slot a = (da_leg_id a, da_circuit_epoch a, da_account_circuit_epoch a)"

text \<open>Two sends to one deployment generation never share a probe, and the later one carries a probe.\<close>

definition separate_sends :: "DispatchedAttempt \<Rightarrow> DispatchedAttempt \<Rightarrow> bool" where
  "separate_sends a b \<longleftrightarrow> send_slot a \<noteq> send_slot b \<and>
     (da_generation_id a = da_generation_id b \<longrightarrow> da_probe_ids b \<noteq> [] \<and> set (da_probe_ids a) \<inter> set (da_probe_ids b) = {})"

definition budget_wf :: "AttemptBudget \<Rightarrow> bool" where
  "budget_wf b \<longleftrightarrow> length (bu_attempts b) \<le> 3 \<and> sorted_wrt separate_sends (bu_attempts b)"

lemma can_send_separate:
  assumes "can_send c b" "record_send c aid b = (x, b')"
  shows "\<exists>a. b' = b\<lparr>bu_attempts := bu_attempts b @ [a]\<rparr> \<and> (\<forall>e \<in> set (bu_attempts b). separate_sends e a)"
  using assms
  by (auto simp: record_send_def Let_def can_send_def separate_sends_def send_slot_def list_ex_iff list_all_iff
      split: if_split_asm)

lemma send_step_cases:
  assumes "send_step b b'"
  shows "bu_response_started b \<longrightarrow> bu_response_started b' \<and> bu_attempts b' = bu_attempts b"
    and "b' = b \<or> b' = mark_response_started b \<or> (\<not> send_closed b \<and> (\<exists>a. b' = b\<lparr>bu_attempts := bu_attempts b @ [a]\<rparr> \<and>
       (\<forall>e \<in> set (bu_attempts b). separate_sends e a)))"
proof -
  show "b' = b \<or> b' = mark_response_started b \<or> (\<not> send_closed b \<and> (\<exists>a. b' = b\<lparr>bu_attempts := bu_attempts b @ [a]\<rparr> \<and>
       (\<forall>e \<in> set (bu_attempts b). separate_sends e a)))"
    using assms
  proof cases
    case (step_send c aid x)
    show ?thesis
    proof (cases "can_send c b")
      case True
      then have "\<not> send_closed b" by (simp add: can_send_def split: if_split_asm)
      with can_send_separate [OF True step_send] show ?thesis by blast
    next
      case False
      with step_send show ?thesis by (simp add: record_send_def)
    qed
  qed simp
  then show "bu_response_started b \<longrightarrow> bu_response_started b' \<and> bu_attempts b' = bu_attempts b"
    by (auto simp: send_closed_def mark_response_started_def)
qed

interpretation budget: inductive_invariant budget_init send_step budget_wf
proof
  show "budget_init b \<Longrightarrow> budget_wf b" for b
    by (auto simp: budget_init_def AttemptBudget_new_def budget_wf_def)
  show "budget_wf b \<Longrightarrow> send_step b b' \<Longrightarrow> budget_wf b'" for b b'
    using send_step_cases(2) [of b b']
    by (auto simp: budget_wf_def mark_response_started_def send_closed_def sorted_wrt_append)
qed


lemma sync_dispatches_ids:
  "distinct (map da_attempt_id (sync_dispatches rid known ds)) \<and>
   set (map da_attempt_id (sync_dispatches rid known ds)) = dv_attempt_id ` {d \<in> set ds. dv_request_id d = rid} - known"
  by (induction ds arbitrary: known) (auto simp: dispatched_attempt_def)

definition one_request_per_attempt :: "registry \<Rightarrow> bool" where
  "one_request_per_attempt g \<longleftrightarrow> (\<forall>d \<in> set (registry_dispatches g). \<forall>e \<in> set (registry_dispatches g).
     dv_attempt_id d = dv_attempt_id e \<longrightarrow> dv_request_id d = dv_request_id e)"

definition sent_attempts :: "request_id \<Rightarrow> registry \<Rightarrow> attempt_id set" where
  "sent_attempts rid g = dv_attempt_id ` {d \<in> set (registry_dispatches g). dv_request_id d = rid}"

lemma view_sent_attempts:
  assumes "one_request_per_attempt g"
  shows "dv_attempt_id ` {d \<in> set (view_dispatches g). dv_request_id d = rid} = sent_attempts rid g"
proof
  show "dv_attempt_id ` {d \<in> set (view_dispatches g). dv_request_id d = rid} \<subseteq> sent_attempts rid g"
    using view_dispatches_set [of g] by (auto simp: sent_attempts_def)
  show "sent_attempts rid g \<subseteq> dv_attempt_id ` {d \<in> set (view_dispatches g). dv_request_id d = rid}"
  proof
    fix i
    assume "i \<in> sent_attempts rid g"
    then obtain d where d: "d \<in> set (registry_dispatches g)" "dv_request_id d = rid" "dv_attempt_id d = i"
      by (auto simp: sent_attempts_def)
    then obtain e where e: "e \<in> set (view_dispatches g)" "dv_attempt_id e = i"
      using view_dispatches_ids [of g] by (metis (no_types, lifting) image_iff)
    then have "dv_request_id e = rid"
      using assms d view_dispatches_set [of g] unfolding one_request_per_attempt_def by (metis subsetD)
    with e show "i \<in> dv_attempt_id ` {d \<in> set (view_dispatches g). dv_request_id d = rid}" by blast
  qed
qed

text \<open>C24: a restart gives a request no new sends. The budget that is rebuilt from the operational
  view of the recovered runtime holds exactly the attempts of the request that the registry has
  dispatched, open or resolved, each once, so three dispatched attempts close it for every candidate.\<close>

theorem budget_counts_durable_sends:
  assumes "dict_wf (sy_runtimes g)" "one_request_per_attempt g" "operational_view clk health g = (Inr view, g')"
  shows "distinct (map da_attempt_id (bu_attempts (from_runtime rid view))) \<and>
    da_attempt_id ` set (bu_attempts (from_runtime rid view)) = sent_attempts rid g \<and>
    (card (sent_attempts rid g) \<ge> 3 \<longrightarrow> \<not> can_send c (from_runtime rid view))"
proof -
  let ?b = "from_runtime rid view"
  have "same_registry g g'" by (rule operational_view_same [OF assms(1,3)])
  then have "ov_dispatches view = view_dispatches g"
    using assms(3) by (auto simp: operational_view_def view_dispatches_def registry_dispatches_same res_map_Inr split: prod.split_asm)
  then have atts: "bu_attempts ?b = sort_key da_attempt_id (sync_dispatches rid {} (view_dispatches g))"
    by (simp add: from_runtime_def sync_runtime_def AttemptBudget_new_def)
  then have d: "distinct (map da_attempt_id (bu_attempts ?b))" and s: "da_attempt_id ` set (bu_attempts ?b) = sent_attempts rid g"
    using sync_dispatches_ids [of rid "{}" "view_dispatches g"] view_sent_attempts [OF assms(2)]
    by (auto simp: distinct_map_sort)
  have "card (sent_attempts rid g) = length (bu_attempts ?b)" using distinct_card [OF d] s by simp
  with d s show ?thesis by (auto simp: can_send_def send_closed_def)
qed

section \<open>Witnesses\<close>

definition route_profile :: RequestProfile where
  "route_profile = \<lparr>pr_route_group_id = ''rg_1'', pr_model_alias = ''model'', pr_endpoint = EP_CHAT, pr_modality = MOD_CHAT,
     pr_stream = False, pr_input_tokens_max = 100, pr_output_tokens_max = 50, pr_reasoning_tokens_max = 0,
     pr_tools_count = 0, pr_forced_tool_required = False, pr_response_schema_present = False, pr_history_turns = 0,
     pr_deadline_ms = 1000\<rparr>"

definition route_engine :: RouteEngine where
  "route_engine = projr (activate (\<lambda>_. ''h'') sample_bundle)"

lemma route_engine_active: "activate (\<lambda>_. ''h'') sample_bundle = Inr route_engine"
proof -
  have "is_ok (activate (\<lambda>_. ''h'') sample_bundle)" by code_simp
  then show ?thesis unfolding route_engine_def by (cases "activate (\<lambda>_. ''h'') sample_bundle") simp_all
qed

definition route_ceiling :: RequestAuthorizationCeiling where
  "route_ceiling = projr (authorize route_engine sample_client route_profile)"

lemma route_ceiling_authorized: "authorize route_engine sample_client route_profile = Inr route_ceiling"
proof -
  have "is_ok (authorize route_engine sample_client route_profile)" by code_simp
  then show ?thesis unfolding route_ceiling_def by (cases "authorize route_engine sample_client route_profile") simp_all
qed

definition route_view :: "int \<Rightarrow> OperationalRuntimeView" where
  "route_view active = \<lparr>ov_durable_lsn = 1, ov_recovery_state = JS_HEALTHY,
     ov_journal_health = \<lparr>jh_status = JS_HEALTHY, jh_last_sequence = 1\<rparr>, ov_time_high_water_ms = 1,
     ov_accounts = [\<lparr>ac_account_id = ''acc_1'', ac_state = AS_ACTIVE, ac_parallel_limit = 2, ac_active_attempts = active,
       ac_uncertain_attempts = 0, ac_rpm_starts = 0, ac_tpm_tokens = 0, ac_monthly_quota_units = 0,
       ac_account_circuit = CircuitValue_closed 0, ac_monthly_reset_at_ms = 0, ac_recovery_probe_in_flight = False,
       ac_consumed_probe_tokens = 0\<rparr>],
     ov_attempts = [], ov_dispatches = [], ov_circuits = []\<rparr>"

definition route_context :: RoutingContext where
  "route_context = \<lparr>cx_now_ms = 10, cx_deadline_at_ms = 900, cx_dispatcher_fence = 1, cx_emergency = None\<rparr>"

definition open_gate :: generation_gate where
  "open_gate leg manifest_hash = Inr True"

definition route_candidate :: Candidate where
  "route_candidate = candidate sample_leg DC_PRIMARY (Some (route_view 0))"

theorem serving_candidate_is_authorized_witness:
  "\<exists>rl. granted_leg (en_bundle route_engine) (cl_policy_id sample_client) (pr_route_group_id route_profile) rl \<and>
    leg_of_route (cd_authorized_leg route_candidate) rl \<and> CAUSE_TRIGGER DC_PRIMARY \<in> set (rl_triggers rl) \<and>
    capabilities_allow (cd_authorized_leg route_candidate) route_profile \<and> \<not> cap_shadow (rl_capabilities rl) \<and>
    cd_account_id route_candidate \<notin> set [] \<and> serves_request (route_view 0) (cd_authorized_leg route_candidate) \<and>
    (\<exists>m \<in> set (rc_authorized_legs route_ceiling). leg_within (cd_authorized_leg route_candidate) m)"
proof (rule serving_candidate_is_authorized [OF route_engine_active route_ceiling_authorized])
  show valid: "ceiling_valid route_ceiling" using authorize_Inr [OF route_ceiling_authorized] by blast
  show "RequestAuthorizationCeiling_intersection route_ceiling route_ceiling = Inr route_ceiling" by code_simp
  show "select_candidate open_gate route_engine route_ceiling route_profile DC_PRIMARY (route_view 0) route_context [] =
      Some route_candidate" by code_simp
qed

theorem spill_only_when_primary_blocked_witness:
  "\<not> eligible open_gate route_engine sample_leg route_profile DC_PRIMARY (route_view 2) route_context"
proof (rule spill_only_when_primary_blocked)
  show "primary_blocking_cause open_gate route_engine route_ceiling route_profile (route_view 2) = Some DC_CAPACITY"
    by code_simp
  show "sample_leg \<in> set (rc_authorized_legs route_ceiling)" by code_simp
qed

definition rate_rule :: FailureRule where
  "rate_rule = \<lparr>fr_cause = FC_CAPACITY, fr_scope = FS_ACCOUNT, fr_status_codes = [429], fr_error_codes = [],
     fr_message_contains = [''rate'']\<rparr>"

definition rate_observation :: FailureObservation where
  "rate_observation = \<lparr>fo_status_code = 429, fo_error_code = None, fo_message = ''a rate limit'', fo_pre_response_bytes = True\<rparr>"

definition sample_osha :: "FailureObservation \<Rightarrow> string" where
  "sample_osha ob = replicate 64 CHR ''a''"

theorem classification_needs_unique_evidence_witness:
  "\<exists>c. classify sample_osha [rate_rule] rate_observation = Inr c \<and> fc_cause c = FC_CAPACITY \<and> fc_scope c = FS_ACCOUNT"
proof -
  have "FailureRule_validate rate_rule = Inr rate_rule" "filter (\<lambda>r. rule_matches r rate_observation) [rate_rule] = [rate_rule]"
    by code_simp+
  moreover have "fr_cause rate_rule = FC_CAPACITY" "fr_scope rate_rule = FS_ACCOUNT" by (simp_all add: rate_rule_def)
  ultimately show ?thesis
    using classification_needs_unique_evidence [of "[rate_rule]" sample_osha rate_observation]
    by (auto simp: sample_osha_def)
qed


definition resolved_send :: "attempt_id \<Rightarrow> attempt_id \<times> ResolvedAttempt" where
  "resolved_send aid = (aid, \<lparr>ra_resolution_digest = ''d'', ra_receipt = \<lparr>jr_durable_lsn = 1, jr_record_digest = ''d''\<rparr>,
     ra_resolved_at_ms = 5, ra_dispatch = Some \<lparr>di_request_id = ''req_1'', di_attempt_id = aid, di_leg_id = aid,
       di_deployment_generation_id = aid, di_circuit_epoch = 0, di_account_circuit_epoch = 0, di_circuit_probe_id = None,
       di_account_circuit_probe_id = None, di_dispatched_at_ms = 4\<rparr>\<rparr>)"

definition busy_registry :: registry where
  "busy_registry = (fresh_registry 10 100 1000 [sample_account])\<lparr>sy_runtimes :=
     [(''acc_1'', (AccountRuntime_new sample_account 10 100 1000)\<lparr>rt_resolutions :=
        map resolved_send [''att_1'', ''att_2'', ''att_3'']\<rparr>)]\<rparr>"

theorem budget_counts_durable_sends_witness:
  "\<not> can_send route_candidate (from_runtime ''req_1''
      (projr (fst (operational_view 20 \<lparr>jh_status = JS_HEALTHY, jh_last_sequence = 1\<rparr> busy_registry))))"
proof -
  let ?v = "operational_view 20 \<lparr>jh_status = JS_HEALTHY, jh_last_sequence = 1\<rparr> busy_registry"
  have "is_ok (fst ?v)" by code_simp
  then have "fst ?v = Inr (projr (fst ?v))" by (cases "fst ?v") simp_all
  then have view: "?v = (Inr (projr (fst ?v)), snd ?v)" using surjective_pairing [of ?v] by (rule subst)
  have wf: "dict_wf (sy_runtimes busy_registry)" by code_simp
  have sent: "map dv_attempt_id (registry_dispatches busy_registry) = [''att_1'', ''att_2'', ''att_3'']"
    "map dv_request_id (registry_dispatches busy_registry) = [''req_1'', ''req_1'', ''req_1'']" by code_simp+
  have "\<forall>d \<in> set (registry_dispatches busy_registry). dv_request_id d = ''req_1''"
    using arg_cong [OF sent(2), of set] by auto
  then have one: "one_request_per_attempt busy_registry"
    and ids: "sent_attempts ''req_1'' busy_registry = set (map dv_attempt_id (registry_dispatches busy_registry))"
    by (auto simp: one_request_per_attempt_def sent_attempts_def)
  have "card (sent_attempts ''req_1'' busy_registry) = 3" unfolding ids sent by simp
  with budget_counts_durable_sends [OF wf one view] show ?thesis by simp
qed

end
