(* ===== verification/Circuit_Control.thy ===== *)
theory Circuit_Control
  imports Routing
begin

text \<open>
  Circuit control (\<open>gateway/routing.py\<close>, \<open>CircuitProbe\<close> and \<open>CircuitController\<close>): the policy transitions
  of circuits, applied through the durable compare-and-swap of the account runtimes. SHA-256 is the
  argument \<open>sha\<close> from text to digest bytes, the probe factory the argument \<open>token\<close>.
\<close>

section \<open>Operations\<close>

record CircuitProbe =
  cp_scope :: FailureScope
  cp_account_id :: account_id
  cp_generation_id :: generation_id
  cp_value :: CircuitValue

definition CircuitProbe_new :: "FailureScope \<Rightarrow> account_id \<Rightarrow> generation_id \<Rightarrow> CircuitValue \<Rightarrow> CircuitProbe res" where
  "CircuitProbe_new scope account_id generation_id value = checks
    [(scope = FS_UNKNOWN, ''circuit probe scope must be known''),
     (ci_state value \<noteq> CS_HALF_OPEN, ''circuit probe requires a half-open CAS value'')]
    \<lparr>cp_scope = scope, cp_account_id = account_id, cp_generation_id = generation_id, cp_value = value\<rparr>"

fun decimal :: "nat \<Rightarrow> string" where
  "decimal n = (if n < 10 then [char_of (48 + n)] else decimal (n div 10) @ [char_of (48 + n mod 10)])"

declare decimal.simps [simp del]

definition backoff_base :: "int \<Rightarrow> int" where
  "backoff_base step = [15000, 30000, 60000] ! nat (min step 2)"

definition backoff_ms :: "(string \<Rightarrow> string) \<Rightarrow> int \<Rightarrow> string \<Rightarrow> int" where
  "backoff_ms sha step evidence_digest =
    (let base = backoff_base step;
         seed = sha (evidence_digest @ '':'' @ decimal (nat step));
         jitter = foldl (\<lambda>n c. 256 * n + of_char c) 0 (take 2 seed) in
     base + jitter mod (base div 5 + 1))"

definition replacement :: "(string \<Rightarrow> string) \<Rightarrow> CircuitValue \<Rightarrow> FailureClassification \<Rightarrow> int \<Rightarrow> int \<Rightarrow> CircuitValue res" where
  "replacement sha current classification now_ms step =
    (case CIRCUIT_CAUSE (fc_cause classification) of
       None \<Rightarrow> Inl KeyError
     | Some cause \<Rightarrow> CircuitValue_validate
         \<lparr>ci_state = CS_OPEN, ci_cause = Some cause, ci_epoch = ci_epoch current + 1, ci_opened_at_ms = now_ms,
          ci_retry_at_ms = now_ms + backoff_ms sha step (fc_evidence_digest classification), ci_backoff_step = step,
          ci_evidence_digest = Some (fc_evidence_digest classification), ci_probe_id = None\<rparr>)"

text \<open>A compare-and-swap of one circuit of an account of the registry: \<open>None\<close> is the account circuit.\<close>

definition swap_circuit :: "journal_env \<Rightarrow> account_id \<Rightarrow> generation_id option \<Rightarrow> CircuitValue \<Rightarrow> CircuitValue
    \<Rightarrow> registry \<Rightarrow> bool res \<times> registry" where
  "swap_circuit je acc gen expected new g =
    (case account_runtime g acc of
       Inl e \<Rightarrow> (Inl e, g)
     | Inr rt \<Rightarrow>
       (case (case gen of
            None \<Rightarrow> compare_and_swap_account_circuit je expected new rt
          | Some d \<Rightarrow> compare_and_swap_circuit je d expected new rt) of
          (x, rt') \<Rightarrow> (x, g\<lparr>sy_runtimes := AList.update acc rt' (sy_runtimes g)\<rparr>)))"

definition when_swapped :: "'a \<Rightarrow> bool res \<times> registry \<Rightarrow> 'a option res \<times> registry" where
  "when_swapped v p = (res_map (\<lambda>swapped. if swapped then Some v else None) (fst p), snd p)"

definition trip_step :: "CircuitValue \<Rightarrow> int" where
  "trip_step current = min (ci_backoff_step current + (if ci_state current = CS_HALF_OPEN then 1 else 0)) 2"

definition open_one :: "(string \<Rightarrow> string) \<Rightarrow> journal_env \<Rightarrow> account_id \<Rightarrow> generation_id option \<Rightarrow> CircuitValue
    \<Rightarrow> FailureClassification \<Rightarrow> int \<Rightarrow> registry \<Rightarrow> CircuitValue option res \<times> registry" where
  "open_one sha je acc gen current classification now_ms g =
    (if ci_state current = CS_OPEN then (Inr (Some current), g)
     else case replacement sha current classification now_ms (trip_step current) of
       Inl e \<Rightarrow> (Inl e, g)
     | Inr new \<Rightarrow> when_swapped new (swap_circuit je acc gen current new g))"

definition open_circuit :: "(string \<Rightarrow> string) \<Rightarrow> journal_env \<Rightarrow> account_id \<Rightarrow> generation_id \<Rightarrow> FailureClassification
    \<Rightarrow> int \<Rightarrow> registry \<Rightarrow> CircuitValue option res \<times> registry" where
  "open_circuit sha je acc gen classification now_ms g =
    (if fc_cause classification = FC_UNKNOWN then (Inr None, g)
     else case account_runtime g acc of
       Inl e \<Rightarrow> (Inl e, g)
     | Inr rt \<Rightarrow>
       (case fc_scope classification of
          FS_ACCOUNT \<Rightarrow> open_one sha je acc None (rt_account_circuit rt) classification now_ms g
        | FS_DEPLOYMENT \<Rightarrow> open_one sha je acc (Some gen) (circuit_value rt gen) classification now_ms g
        | FS_UNKNOWN \<Rightarrow> (Inr None, g)))"

definition begin_probe :: "journal_env \<Rightarrow> string \<Rightarrow> account_id \<Rightarrow> generation_id \<Rightarrow> int \<Rightarrow> registry
    \<Rightarrow> CircuitProbe option res \<times> registry" where
  "begin_probe je token acc gen now_ms g =
    (case account_runtime g acc of
       Inl e \<Rightarrow> (Inl e, g)
     | Inr rt \<Rightarrow>
       let scope = (if ci_state (rt_account_circuit rt) = CS_OPEN then FS_ACCOUNT else FS_DEPLOYMENT);
           current = (if scope = FS_ACCOUNT then rt_account_circuit rt else circuit_value rt gen) in
       if ci_state current \<noteq> CS_OPEN \<or> now_ms < ci_retry_at_ms current then (Inr None, g)
       else (case CircuitValue_validate
              \<lparr>ci_state = CS_HALF_OPEN, ci_cause = ci_cause current, ci_epoch = ci_epoch current,
               ci_opened_at_ms = ci_opened_at_ms current, ci_retry_at_ms = 0,
               ci_backoff_step = ci_backoff_step current, ci_evidence_digest = ci_evidence_digest current,
               ci_probe_id = Some token\<rparr> of
          Inl e \<Rightarrow> (Inl e, g)
        | Inr new \<Rightarrow>
          (case swap_circuit je acc (if scope = FS_ACCOUNT then None else Some gen) current new g of
             (Inl e, g') \<Rightarrow> (Inl e, g')
           | (Inr swapped, g') \<Rightarrow>
               (if swapped then res_map Some (CircuitProbe_new scope acc gen new) else Inr None, g'))))"

definition probe_circuit :: "CircuitProbe \<Rightarrow> generation_id option" where
  "probe_circuit probe = (if cp_scope probe = FS_ACCOUNT then None else Some (cp_generation_id probe))"

definition probe_succeeded :: "journal_env \<Rightarrow> CircuitProbe \<Rightarrow> registry \<Rightarrow> bool res \<times> registry" where
  "probe_succeeded je probe g =
     swap_circuit je (cp_account_id probe) (probe_circuit probe) (cp_value probe)
       (CircuitValue_closed (ci_epoch (cp_value probe))) g"

definition failed_replacement :: "(string \<Rightarrow> string) \<Rightarrow> CircuitProbe \<Rightarrow> FailureClassification \<Rightarrow> int \<Rightarrow> CircuitValue res" where
  "failed_replacement sha probe classification now_ms =
    (let value = cp_value probe; step = min (ci_backoff_step value + 1) 2 in
     if fc_cause classification \<noteq> FC_UNKNOWN \<and> fc_scope classification = cp_scope probe
     then replacement sha value classification now_ms step
     else (case (ci_cause value, ci_evidence_digest value) of
        (Some cause, Some evidence) \<Rightarrow> CircuitValue_validate
          \<lparr>ci_state = CS_OPEN, ci_cause = Some cause, ci_epoch = ci_epoch value + 1, ci_opened_at_ms = now_ms,
           ci_retry_at_ms = now_ms + backoff_ms sha step evidence, ci_backoff_step = step,
           ci_evidence_digest = Some evidence, ci_probe_id = None\<rparr>
      | _ \<Rightarrow> Inl AssertionError))"

definition probe_failed :: "(string \<Rightarrow> string) \<Rightarrow> journal_env \<Rightarrow> CircuitProbe \<Rightarrow> FailureClassification \<Rightarrow> int
    \<Rightarrow> registry \<Rightarrow> CircuitValue option res \<times> registry" where
  "probe_failed sha je probe classification now_ms g =
    (case account_runtime g (cp_account_id probe) of
       Inl e \<Rightarrow> (Inl e, g)
     | Inr _ \<Rightarrow>
       (case failed_replacement sha probe classification now_ms of
          Inl e \<Rightarrow> (Inl e, g)
        | Inr new \<Rightarrow>
          when_swapped new (swap_circuit je (cp_account_id probe) (probe_circuit probe) (cp_value probe) new g)))"

definition probe_abandoned :: "(string \<Rightarrow> string) \<Rightarrow> journal_env \<Rightarrow> CircuitProbe \<Rightarrow> int \<Rightarrow> registry
    \<Rightarrow> CircuitValue option res \<times> registry" where
  "probe_abandoned sha je probe now_ms g =
    (case FailureClassification_new FC_UNKNOWN FS_UNKNOWN
        (case ci_evidence_digest (cp_value probe) of
           None \<Rightarrow> ''sha256:'' @ replicate 64 CHR ''0''
         | Some d \<Rightarrow> if d = [] then ''sha256:'' @ replicate 64 CHR ''0'' else d) True of
       Inl e \<Rightarrow> (Inl e, g)
     | Inr classification \<Rightarrow> probe_failed sha je probe classification now_ms g)"

definition candidate_probes :: "Candidate \<Rightarrow> (FailureScope \<times> CircuitValue) list" where
  "candidate_probes c =
    (if ci_state (cd_account_circuit c) = CS_HALF_OPEN then [(FS_ACCOUNT, cd_account_circuit c)] else []) @
    (if ci_state (cd_deployment_circuit c) = CS_HALF_OPEN then [(FS_DEPLOYMENT, cd_deployment_circuit c)] else [])"

primrec abandon_probes :: "(string \<Rightarrow> string) \<Rightarrow> journal_env \<Rightarrow> int \<Rightarrow> CircuitProbe list \<Rightarrow> registry
    \<Rightarrow> CircuitValue option list res \<times> registry" where
  "abandon_probes sha je now_ms [] g = (Inr [], g)"
| "abandon_probes sha je now_ms (p # ps) g =
    (case probe_abandoned sha je p now_ms g of
       (Inl e, g') \<Rightarrow> (Inl e, g')
     | (Inr v, g') \<Rightarrow> (case abandon_probes sha je now_ms ps g' of (vs, g'') \<Rightarrow> (res_map ((#) v) vs, g'')))"

definition abandon_candidate :: "(string \<Rightarrow> string) \<Rightarrow> journal_env \<Rightarrow> Candidate \<Rightarrow> int \<Rightarrow> registry
    \<Rightarrow> CircuitValue option list res \<times> registry" where
  "abandon_candidate sha je c now_ms g =
    (case res_mapM (\<lambda>(scope, value). CircuitProbe_new scope (cd_account_id c) (cd_generation_id c) value) (candidate_probes c) of
       Inl e \<Rightarrow> (Inl e, g)
     | Inr probes \<Rightarrow> abandon_probes sha je now_ms probes g)"

section \<open>The abstract circuit breaker\<close>

text \<open>What a circuit may do, whoever drives it: trip from closed or half-open into a bounded back-off
  at the next epoch, let one probe through once the back-off has elapsed, close after a probe.\<close>

inductive breaker_step :: "int \<Rightarrow> CircuitValue \<Rightarrow> CircuitValue \<Rightarrow> bool" for now_ms :: int where
  trip: "ci_state c \<noteq> CS_OPEN \<Longrightarrow> ci_state d = CS_OPEN \<Longrightarrow> ci_epoch d = ci_epoch c + 1 \<Longrightarrow>
     ci_backoff_step d = trip_step c \<Longrightarrow> ci_probe_id d = None \<Longrightarrow> ci_opened_at_ms d = now_ms \<Longrightarrow>
     now_ms + backoff_base (trip_step c) \<le> ci_retry_at_ms d \<Longrightarrow>
     5 * (ci_retry_at_ms d - now_ms) \<le> 6 * backoff_base (trip_step c) \<Longrightarrow> CircuitValue_validate d = Inr d \<Longrightarrow> breaker_step now_ms c d"
| probe: "ci_state c = CS_OPEN \<Longrightarrow> ci_retry_at_ms c \<le> now_ms \<Longrightarrow> ci_state d = CS_HALF_OPEN \<Longrightarrow>
     ci_epoch d = ci_epoch c \<Longrightarrow> ci_backoff_step d = ci_backoff_step c \<Longrightarrow> ci_cause d = ci_cause c \<Longrightarrow>
     ci_probe_id d \<noteq> None \<Longrightarrow> CircuitValue_validate d = Inr d \<Longrightarrow> breaker_step now_ms c d"
| close: "ci_state c = CS_HALF_OPEN \<Longrightarrow> d = CircuitValue_closed (ci_epoch c) \<Longrightarrow> breaker_step now_ms c d"

definition registry_circuit :: "registry \<Rightarrow> account_id \<Rightarrow> generation_id option \<Rightarrow> CircuitValue option" where
  "registry_circuit g acc gen =
     map_option (\<lambda>rt. case gen of None \<Rightarrow> rt_account_circuit rt | Some d \<Rightarrow> circuit_value rt d) (map_of (sy_runtimes g) acc)"

text \<open>One operation: nothing changes, or exactly one circuit takes one step of the breaker.\<close>

definition breaks_one :: "int \<Rightarrow> registry \<Rightarrow> registry \<Rightarrow> bool" where
  "breaks_one now_ms g g' \<longleftrightarrow> registry_circuit g' = registry_circuit g \<or>
     (\<exists>acc gen c d. registry_circuit g acc gen = Some c \<and> breaker_step now_ms c d \<and>
        registry_circuit g' = (registry_circuit g)(acc := (registry_circuit g acc)(gen := Some d)))"

section \<open>The controller refines the breaker\<close>

lemma CircuitValue_validate_same: "CircuitValue_validate c = Inr d \<Longrightarrow> d = c"
  unfolding CircuitValue_validate_def checks_Inr by simp

lemma backoff_base_cases:
  "0 \<le> step \<Longrightarrow> backoff_base step \<in> {15000, 30000, 60000}"
proof -
  assume "0 \<le> step"
  then consider "min step 2 = 0" | "min step 2 = 1" | "min step 2 = 2" by linarith
  then show ?thesis unfolding backoff_base_def by cases simp_all
qed

lemma jitter_range:
  fixes b j :: int
  assumes "0 \<le> b"
  shows "0 \<le> j mod (b div 5 + 1) \<and> j mod (b div 5 + 1) \<le> b div 5"
proof -
  have "0 < b div 5 + 1" using assms by (simp add: add_pos_nonneg pos_imp_zdiv_nonneg_iff add.commute)
  then show ?thesis using pos_mod_bound [of "b div 5 + 1" j] pos_mod_sign [of "b div 5 + 1" j] by linarith
qed

lemma backoff_ms_range:
  assumes "0 \<le> step"
  shows "backoff_base step \<le> backoff_ms sha step digest" "5 * backoff_ms sha step digest \<le> 6 * backoff_base step"
proof -
  let ?b = "backoff_base step"
  obtain j where j: "backoff_ms sha step digest = ?b + j mod (?b div 5 + 1)" unfolding backoff_ms_def Let_def by blast
  have b: "0 \<le> ?b" "5 * (?b div 5) = ?b" using backoff_base_cases [OF assms] by auto
  obtain m q where "backoff_ms sha step digest = ?b + m" "0 \<le> m" "m \<le> q" "5 * q = ?b"
    using that [OF j] jitter_range [OF b(1), of j] b(2) by blast
  then show "?b \<le> backoff_ms sha step digest" "5 * backoff_ms sha step digest \<le> 6 * ?b" by linarith+
qed

lemma registry_circuit_update:
  assumes "map_of (sy_runtimes g) acc = Some rt"
    and "\<And>gen. (case gen of None \<Rightarrow> rt_account_circuit rt' | Some d \<Rightarrow> circuit_value rt' d) =
      ((\<lambda>gen. case gen of None \<Rightarrow> rt_account_circuit rt | Some d \<Rightarrow> circuit_value rt d)(k := v)) gen"
  shows "registry_circuit (g\<lparr>sy_runtimes := AList.update acc rt' (sy_runtimes g)\<rparr>) =
    (registry_circuit g)(acc := (registry_circuit g acc)(k := Some v))"
proof (intro ext)
  fix a gen
  show "registry_circuit (g\<lparr>sy_runtimes := AList.update acc rt' (sy_runtimes g)\<rparr>) a gen =
    ((registry_circuit g)(acc := (registry_circuit g acc)(k := Some v))) a gen"
    using assms(2) [of gen] by (auto simp: registry_circuit_def update_conv' assms(1) split: option.split)
qed

lemma swap_circuit_effect:
  assumes "swap_circuit je acc gen expected new g = (x, g')"
  shows "registry_circuit g' = registry_circuit g \<or> (registry_circuit g acc gen = Some expected \<and>
    registry_circuit g' = (registry_circuit g)(acc := (registry_circuit g acc)(gen := Some new)))"
proof (cases "map_of (sy_runtimes g) acc")
  case None
  with assms show ?thesis by (simp add: swap_circuit_def account_runtime_def)
next
  case (Some rt)
  let ?c = "\<lambda>s gen. case gen of None \<Rightarrow> rt_account_circuit s | Some d \<Rightarrow> circuit_value s d"
  obtain rt' where rt': "g' = g\<lparr>sy_runtimes := AList.update acc rt' (sy_runtimes g)\<rparr>"
    "rt' = rt \<or> (?c rt gen = expected \<and> ?c rt' = (?c rt)(gen := new))"
  proof (cases gen)
    case None
    then show thesis
      using assms Some that
      by (auto simp: swap_circuit_def account_runtime_def compare_and_swap_account_circuit_def fun_eq_iff release_probe_def
          circuit_value_def split: if_split_asm sum.split_asm option.split)
  next
    case (Some d)
    then show thesis
      using assms \<open>map_of (sy_runtimes g) acc = Some rt\<close> that
      by (auto simp: swap_circuit_def account_runtime_def compare_and_swap_circuit_def fun_eq_iff release_probe_def
          circuit_value_def dict_get_def update_conv' Let_def split: if_split_asm sum.split_asm option.split)
  qed
  from rt'(2) show ?thesis
  proof
    assume "rt' = rt"
    then have "registry_circuit g' = registry_circuit g"
      unfolding rt'(1) by (auto simp: registry_circuit_def update_conv' Some fun_eq_iff)
    then show ?thesis ..
  next
    assume c: "?c rt gen = expected \<and> ?c rt' = (?c rt)(gen := new)"
    then have "registry_circuit g' = (registry_circuit g)(acc := (registry_circuit g acc)(gen := Some new))"
      unfolding rt'(1) by (intro registry_circuit_update [OF Some]) (simp add: fun_eq_iff)
    with c show ?thesis by (simp add: registry_circuit_def Some)
  qed
qed

lemma swap_breaks_one:
  assumes "swap_circuit je acc gen expected new g = (x, g')" "breaker_step now_ms expected new"
  shows "breaks_one now_ms g g'"
  using swap_circuit_effect [OF assms(1)] assms(2) unfolding breaks_one_def by blast

lemma replacement_trips:
  assumes "replacement sha c classification now_ms (trip_step c) = Inr d" "ci_state c \<noteq> CS_OPEN" "0 \<le> ci_backoff_step c"
  shows "breaker_step now_ms c d"
proof -
  have pos: "0 \<le> trip_step c" using assms(3) by (simp add: trip_step_def)
  obtain cause where "CIRCUIT_CAUSE (fc_cause classification) = Some cause"
    using assms(1) by (auto simp: replacement_def split: option.split_asm)
  with assms(1) have v: "CircuitValue_validate
      \<lparr>ci_state = CS_OPEN, ci_cause = Some cause, ci_epoch = ci_epoch c + 1, ci_opened_at_ms = now_ms,
       ci_retry_at_ms = now_ms + backoff_ms sha (trip_step c) (fc_evidence_digest classification), ci_backoff_step = trip_step c,
       ci_evidence_digest = Some (fc_evidence_digest classification), ci_probe_id = None\<rparr> = Inr d"
    by (simp add: replacement_def)
  note d = CircuitValue_validate_same [OF v]
  show ?thesis
    by (rule trip) (use assms(2) v backoff_ms_range [OF pos] in \<open>simp_all add: d algebra_simps\<close>)
qed

lemma open_one_breaks:
  assumes "open_one sha je acc gen current classification now_ms g = (x, g')" "0 \<le> ci_backoff_step current"
  shows "breaks_one now_ms g g'"
proof (cases "ci_state current = CS_OPEN")
  case True
  with assms(1) show ?thesis by (simp add: open_one_def breaks_one_def)
next
  case False
  show ?thesis
  proof (cases "replacement sha current classification now_ms (trip_step current)")
    case (Inl e)
    with assms(1) False show ?thesis by (simp add: open_one_def breaks_one_def)
  next
    case (Inr new)
    with assms(1) False have "swap_circuit je acc gen current new g = (fst (swap_circuit je acc gen current new g), g')"
      by (cases "swap_circuit je acc gen current new g") (simp add: open_one_def when_swapped_def)
    then show ?thesis using replacement_trips [OF Inr False assms(2)] by (rule swap_breaks_one)
  qed
qed

definition circuits_wf :: "registry \<Rightarrow> bool" where
  "circuits_wf g \<longleftrightarrow> (\<forall>acc gen c. registry_circuit g acc gen = Some c \<longrightarrow> CircuitValue_validate c = Inr c)"

lemma circuits_wf_step:
  assumes "circuits_wf g" "map_of (sy_runtimes g) acc = Some rt"
  shows "0 \<le> ci_backoff_step (rt_account_circuit rt) \<and> 0 \<le> ci_backoff_step (circuit_value rt d)"
proof -
  have "registry_circuit g acc None = Some (rt_account_circuit rt)" "registry_circuit g acc (Some d) = Some (circuit_value rt d)"
    using assms(2) by (simp_all add: registry_circuit_def)
  then have "CircuitValue_validate (rt_account_circuit rt) = Inr (rt_account_circuit rt)"
    "CircuitValue_validate (circuit_value rt d) = Inr (circuit_value rt d)"
    using assms(1) unfolding circuits_wf_def by blast+
  then show ?thesis by (simp add: CircuitValue_validate_def checks_Inr)
qed

lemma breaks_one_refl [simp]: "breaks_one now_ms g g"
  by (simp add: breaks_one_def)

lemma breaker_step_valid:
  "breaker_step now_ms c d \<Longrightarrow> CircuitValue_validate c = Inr c \<Longrightarrow> CircuitValue_validate d = Inr d"
  by (induction rule: breaker_step.induct)
    (auto simp: CircuitValue_validate_def checks_Inr CircuitValue_closed_def circuit_evidence_def MAX_INT_def)

lemma breaks_one_wf:
  assumes "breaks_one now_ms g g'" "circuits_wf g"
  shows "circuits_wf g'"
  using assms(1) unfolding breaks_one_def
proof (elim disjE exE conjE)
  fix acc gen c d
  assume "registry_circuit g acc gen = Some c" "breaker_step now_ms c d"
    and upd: "registry_circuit g' = (registry_circuit g)(acc := (registry_circuit g acc)(gen := Some d))"
  then have "CircuitValue_validate d = Inr d" using assms(2) breaker_step_valid unfolding circuits_wf_def by blast
  then show "circuits_wf g'" using assms(2) unfolding circuits_wf_def upd by simp
qed (use assms(2) in \<open>simp add: circuits_wf_def\<close>)

lemma open_circuit_breaks:
  assumes "circuits_wf g" "open_circuit sha je acc gen classification now_ms g = (x, g')"
  shows "breaks_one now_ms g g'"
proof (cases "map_of (sy_runtimes g) acc")
  case None
  with assms(2) show ?thesis by (auto simp: open_circuit_def account_runtime_def breaks_one_def split: if_split_asm)
next
  case (Some rt)
  note wf = circuits_wf_step [OF assms(1) Some, of gen]
  show ?thesis
    using assms(2) Some wf open_one_breaks [of sha je acc None "rt_account_circuit rt" classification now_ms g x g']
      open_one_breaks [of sha je acc "Some gen" "circuit_value rt gen" classification now_ms g x g']
    by (auto simp: open_circuit_def account_runtime_def split: if_split_asm FailureScope.split_asm)
qed

lemma begin_probe_breaks:
  assumes "begin_probe je token acc gen now_ms g = (x, g')"
  shows "breaks_one now_ms g g'"
proof (cases "map_of (sy_runtimes g) acc")
  case None
  with assms show ?thesis by (simp add: begin_probe_def account_runtime_def breaks_one_def)
next
  case (Some rt)
  define onacc where "onacc = (ci_state (rt_account_circuit rt) = CS_OPEN)"
  define c where "c = (if onacc then rt_account_circuit rt else circuit_value rt gen)"
  define k where "k = (if onacc then None else Some gen)"
  let ?new = "\<lparr>ci_state = CS_HALF_OPEN, ci_cause = ci_cause c, ci_epoch = ci_epoch c,
       ci_opened_at_ms = ci_opened_at_ms c, ci_retry_at_ms = 0, ci_backoff_step = ci_backoff_step c,
       ci_evidence_digest = ci_evidence_digest c, ci_probe_id = Some token\<rparr>"
  show ?thesis
  proof (cases "(ci_state c \<noteq> CS_OPEN \<or> now_ms < ci_retry_at_ms c) \<or> \<not> is_ok (CircuitValue_validate ?new)")
    case True
    with assms Some show ?thesis
      by (auto simp: begin_probe_def account_runtime_def Let_def breaks_one_def c_def onacc_def k_def
          split: if_split_asm sum.split_asm)
  next
    case False
    then obtain new where v: "CircuitValue_validate ?new = Inr new" and o: "ci_state c = CS_OPEN" "ci_retry_at_ms c \<le> now_ms"
      by (auto simp: is_ok_iff)
    note new = CircuitValue_validate_same [OF v]
    obtain y h where sw: "swap_circuit je acc k c new g = (y, h)" by fastforce
    have "h = g'"
      using assms Some o v sw
      by (auto simp: begin_probe_def account_runtime_def Let_def c_def onacc_def k_def split: if_split_asm sum.split_asm)
    moreover have "breaker_step now_ms c new"
      by (rule probe) (use o v in \<open>simp_all add: new\<close>)
    ultimately show ?thesis using swap_breaks_one [OF sw] by simp
  qed
qed

lemma probe_succeeded_breaks:
  assumes "probe_succeeded je p g = (x, g')" "ci_state (cp_value p) = CS_HALF_OPEN"
  shows "breaks_one now_ms g g'"
  using assms unfolding probe_succeeded_def by (blast intro: swap_breaks_one close)

lemma failed_replacement_trips:
  assumes "failed_replacement sha p classification now_ms = Inr d" "ci_state (cp_value p) = CS_HALF_OPEN" "0 \<le> ci_backoff_step (cp_value p)"
  shows "breaker_step now_ms (cp_value p) d"
proof -
  have step: "min (ci_backoff_step (cp_value p) + 1) 2 = trip_step (cp_value p)" using assms(2) by (simp add: trip_step_def)
  have pos: "0 \<le> trip_step (cp_value p)" using assms(3) by (simp add: trip_step_def)
  show ?thesis
  proof (cases "fc_cause classification \<noteq> FC_UNKNOWN \<and> fc_scope classification = cp_scope p")
    case True
    with assms(1) have "replacement sha (cp_value p) classification now_ms (trip_step (cp_value p)) = Inr d"
      by (simp add: failed_replacement_def Let_def step)
    then show ?thesis using assms(2,3) by (intro replacement_trips) simp_all
  next
    case False
    with assms(1) obtain cause evidence where v: "CircuitValue_validate
        \<lparr>ci_state = CS_OPEN, ci_cause = Some cause, ci_epoch = ci_epoch (cp_value p) + 1, ci_opened_at_ms = now_ms,
         ci_retry_at_ms = now_ms + backoff_ms sha (trip_step (cp_value p)) evidence, ci_backoff_step = trip_step (cp_value p),
         ci_evidence_digest = Some evidence, ci_probe_id = None\<rparr> = Inr d"
      by (auto simp: failed_replacement_def Let_def step split: option.split_asm if_split_asm)
    note d = CircuitValue_validate_same [OF v]
    show ?thesis
      by (rule trip) (use assms(2) v backoff_ms_range [OF pos] in \<open>simp_all add: d algebra_simps\<close>)
  qed
qed

lemma probe_failed_breaks:
  assumes "probe_failed sha je p classification now_ms g = (x, g')" "ci_state (cp_value p) = CS_HALF_OPEN" "0 \<le> ci_backoff_step (cp_value p)"
  shows "breaks_one now_ms g g'"
proof (cases "is_ok (account_runtime g (cp_account_id p)) \<and> is_ok (failed_replacement sha p classification now_ms)")
  case False
  with assms(1) show ?thesis by (auto simp: probe_failed_def breaks_one_def split: sum.split_asm)
next
  case True
  then obtain new where new: "failed_replacement sha p classification now_ms = Inr new" by (auto simp: is_ok_iff)
  let ?sw = "swap_circuit je (cp_account_id p) (probe_circuit p) (cp_value p) new g"
  have "?sw = (fst ?sw, g')"
    using assms(1) True new by (cases ?sw) (auto simp: probe_failed_def when_swapped_def split: sum.split_asm)
  then show ?thesis using failed_replacement_trips [OF new assms(2,3)] by (rule swap_breaks_one)
qed

lemma probe_abandoned_breaks:
  assumes "probe_abandoned sha je p now_ms g = (x, g')" "ci_state (cp_value p) = CS_HALF_OPEN" "0 \<le> ci_backoff_step (cp_value p)"
  shows "breaks_one now_ms g g'"
proof -
  obtain r where "(case r of Inl e \<Rightarrow> (Inl e, g) | Inr cl \<Rightarrow> probe_failed sha je p cl now_ms g) = (x, g')"
    using assms(1) unfolding probe_abandoned_def by blast
  then show ?thesis
    using probe_failed_breaks [OF _ assms(2,3)] by (cases r) (auto simp: breaks_one_def)
qed

text \<open>The operations of the controller, as a client calls them.\<close>

datatype controller_op =
    OpOpen account_id generation_id FailureClassification
  | OpBegin string account_id generation_id
  | OpSucceeded CircuitProbe
  | OpFailed CircuitProbe FailureClassification
  | OpAbandoned CircuitProbe

fun run_controller :: "(string \<Rightarrow> string) \<Rightarrow> journal_env \<Rightarrow> int \<Rightarrow> controller_op \<Rightarrow> registry \<Rightarrow> registry" where
  "run_controller sha je now_ms (OpOpen acc gen cl) g = snd (open_circuit sha je acc gen cl now_ms g)"
| "run_controller sha je now_ms (OpBegin token acc gen) g = snd (begin_probe je token acc gen now_ms g)"
| "run_controller sha je now_ms (OpSucceeded p) g = snd (probe_succeeded je p g)"
| "run_controller sha je now_ms (OpFailed p cl) g = snd (probe_failed sha je p cl now_ms g)"
| "run_controller sha je now_ms (OpAbandoned p) g = snd (probe_abandoned sha je p now_ms g)"

fun op_probe_ok :: "controller_op \<Rightarrow> bool" where
  "op_probe_ok (OpSucceeded p) = (ci_state (cp_value p) = CS_HALF_OPEN \<and> 0 \<le> ci_backoff_step (cp_value p))"
| "op_probe_ok (OpFailed p cl) = (ci_state (cp_value p) = CS_HALF_OPEN \<and> 0 \<le> ci_backoff_step (cp_value p))"
| "op_probe_ok (OpAbandoned p) = (ci_state (cp_value p) = CS_HALF_OPEN \<and> 0 \<le> ci_backoff_step (cp_value p))"
| "op_probe_ok _ = True"


text \<open>A report for a probe whose circuit has moved on is refused and changes no circuit.\<close>

lemma stale_swap_refused:
  assumes "account_runtime g acc = Inr rt" "registry_circuit g acc gen \<noteq> Some expected"
  shows "fst (swap_circuit je acc gen expected new g) = Inr False \<and>
    registry_circuit (snd (swap_circuit je acc gen expected new g)) = registry_circuit g"
proof -
  have rt: "map_of (sy_runtimes g) acc = Some rt" using assms(1) by (simp add: account_runtime_def split: option.split_asm)
  have "fst (swap_circuit je acc gen expected new g) = Inr False"
    using assms rt by (cases gen) (simp_all add: swap_circuit_def registry_circuit_def compare_and_swap_account_circuit_def
        compare_and_swap_circuit_def)
  moreover have "registry_circuit (snd (swap_circuit je acc gen expected new g)) = registry_circuit g"
    using swap_circuit_effect [OF surjective_pairing, of je acc gen expected new g] assms(2) by blast
  ultimately show ?thesis ..
qed

text \<open>only the probe that holds a circuit can settle it. When the circuit no longer carries the
  half-open value of a probe (it was closed, reopened or probed again), a success report returns
  false, a failure report opens nothing, and neither changes a circuit.\<close>

theorem stale_probe_settles_nothing:
  assumes "account_runtime g (cp_account_id p) = Inr rt"
    and "registry_circuit g (cp_account_id p) (probe_circuit p) \<noteq> Some (cp_value p)"
  shows "fst (probe_succeeded je p g) = Inr False \<and> registry_circuit (snd (probe_succeeded je p g)) = registry_circuit g \<and>
    (\<forall>v. fst (probe_failed sha je p cl now_ms g) \<noteq> Inr (Some v)) \<and>
    registry_circuit (snd (probe_failed sha je p cl now_ms g)) = registry_circuit g"
  using stale_swap_refused [OF assms] assms(1)
  by (auto simp: probe_succeeded_def probe_failed_def when_swapped_def res_map_Inr split: sum.split)

section \<open>Witnesses\<close>

definition circuit_env :: journal_env where
  "circuit_env = \<lparr>je_status = JS_HEALTHY, je_append = Inr \<lparr>jr_durable_lsn = 1, jr_record_digest = ''d''\<rparr>, je_checkpoint = Inr ()\<rparr>"

definition circuit_registry :: registry where
  "circuit_registry = fresh_registry 10 100 1000 [sample_account]"

definition rate_failure :: FailureClassification where
  "rate_failure = \<lparr>fc_cause = FC_CAPACITY, fc_scope = FS_ACCOUNT, fc_evidence_digest = ''sha256:'' @ replicate 64 CHR ''a'',
     fc_pre_response_bytes = True\<rparr>"

definition sample_sha :: "string \<Rightarrow> string" where
  "sample_sha text = replicate 32 (CHR 0xff)"

definition tripped :: registry where
  "tripped = run_controller sample_sha circuit_env 1000 (OpOpen ''acc_1'' ''dg1_1'' rate_failure) circuit_registry"

lemma circuit_registry_wf: "circuits_wf circuit_registry"
proof -
  have "CircuitValue_validate (CircuitValue_closed 0) = Inr (CircuitValue_closed 0)"
    by (simp add: CircuitValue_validate_def checks_Inr CircuitValue_closed_def circuit_evidence_def MAX_INT_def)
  then show ?thesis
    by (auto simp: circuits_wf_def registry_circuit_def circuit_registry_def fresh_registry_def dict_of_def
        AccountRuntime_new_def circuit_value_def dict_get_def split: option.split option.split_asm if_split_asm)
qed


definition late_probe :: CircuitProbe where
  "late_probe = \<lparr>cp_scope = FS_ACCOUNT, cp_account_id = ''acc_1'', cp_generation_id = ''dg1_1'',
     cp_value = \<lparr>ci_state = CS_HALF_OPEN, ci_cause = Some CC_CAPACITY, ci_epoch = 1, ci_opened_at_ms = 5, ci_retry_at_ms = 0,
       ci_backoff_step = 0, ci_evidence_digest = Some (''sha256:'' @ replicate 64 CHR ''a''),
       ci_probe_id = Some (''probe_'' @ replicate 36 CHR ''0'')\<rparr>\<rparr>"

theorem stale_probe_settles_nothing_witness:
  "fst (probe_succeeded circuit_env late_probe tripped) = Inr False \<and>
     registry_circuit (snd (probe_failed sample_sha circuit_env late_probe rate_failure 20 tripped)) = registry_circuit tripped"
proof -
  have "map_option (ci_state \<circ> rt_account_circuit) (map_of (sy_runtimes tripped) ''acc_1'') = Some CS_OPEN" by code_simp
  then obtain rt where rt: "map_of (sy_runtimes tripped) ''acc_1'' = Some rt" "ci_state (rt_account_circuit rt) = CS_OPEN" by auto
  then have "account_runtime tripped (cp_account_id late_probe) = Inr rt"
    "registry_circuit tripped (cp_account_id late_probe) (probe_circuit late_probe) \<noteq> Some (cp_value late_probe)"
    by (auto simp: account_runtime_def late_probe_def registry_circuit_def probe_circuit_def)
  from stale_probe_settles_nothing [OF this] show ?thesis by blast
qed

end
