(* ===== verification/Journal_Values.thy ===== *)
theory Journal_Values
  imports Prelude
begin

text \<open>
  The values the attempt journal may hold (first part of \<open>gateway/journal.py\<close>): JSON values,
  canonical text, the vocabulary of keys, identifiers, digests and words, \<open>_validate_safe_value\<close>,
  the closed table of record fields and \<open>_validate_payload\<close>.

  A \<open>JsonValue\<close> is what \<open>json.loads\<close> returns: an object keeps its keys in insertion order, and a
  number with a fraction or an exponent, whose value no code reads, is \<open>JFloat\<close> of its text.
  \<open>sorted_json\<close> is the value that reading back a canonical text gives (\<open>sort_keys=True\<close>), \<open>dumps\<close> the
  text itself. SHA-256 is the argument \<open>sha\<close> of every definition that hashes.
\<close>

section \<open>JSON values and their canonical text\<close>

datatype JsonValue =
    JNull
  | JBool bool
  | JInt int
  | JFloat string
  | JStr string
  | JList "JsonValue list"
  | JObj "(string \<times> JsonValue) list"

type_synonym json_object = "(string, JsonValue) dict"

primrec sorted_json :: "JsonValue \<Rightarrow> JsonValue" where
  "sorted_json JNull = JNull"
| "sorted_json (JBool b) = JBool b"
| "sorted_json (JInt i) = JInt i"
| "sorted_json (JFloat s) = JFloat s"
| "sorted_json (JStr s) = JStr s"
| "sorted_json (JList xs) = JList (map sorted_json xs)"
| "sorted_json (JObj kvs) = JObj (sort_key fst (map (map_prod id sorted_json) kvs))"

definition sorted_object :: "json_object \<Rightarrow> json_object" where
  "sorted_object kvs = sort_key fst (map (map_prod id sorted_json) kvs)"

definition hex_char :: "nat \<Rightarrow> char" where
  "hex_char n = ''0123456789abcdef'' ! n"

definition escape_char :: "char \<Rightarrow> string" where
  "escape_char c =
    (if c = CHR 0x22 then [CHR 0x5C, CHR 0x22]
     else if c = CHR 0x5C then [CHR 0x5C, CHR 0x5C]
     else if c = CHR 0x0A then [CHR 0x5C, CHR ''n'']
     else if c = CHR 0x0D then [CHR 0x5C, CHR ''r'']
     else if c = CHR 0x09 then [CHR 0x5C, CHR ''t'']
     else if c = CHR 0x0C then [CHR 0x5C, CHR ''f'']
     else if c = CHR 0x08 then [CHR 0x5C, CHR ''b'']
     else if 32 \<le> (of_char c :: nat) \<and> (of_char c :: nat) \<le> 126 then [c]
     else [CHR 0x5C, CHR ''u'', CHR ''0'', CHR ''0'', hex_char (of_char c div 16), hex_char (of_char c mod 16)])"

definition json_string :: "string \<Rightarrow> string" where
  "json_string s = [CHR 0x22] @ concat (map escape_char s) @ [CHR 0x22]"

fun decimal :: "nat \<Rightarrow> string" where
  "decimal n = (if n < 10 then [hex_char n] else decimal (n div 10) @ [hex_char (n mod 10)])"

declare decimal.simps [simp del]

definition json_int :: "int \<Rightarrow> string" where
  "json_int i = (if i < 0 then ''-'' @ decimal (nat (- i)) else decimal (nat i))"

fun comma_join :: "string list \<Rightarrow> string" where
  "comma_join [] = ''''"
| "comma_join [s] = s"
| "comma_join (s # t # ss) = s @ '','' @ comma_join (t # ss)"

primrec dumps :: "JsonValue \<Rightarrow> string" where
  "dumps JNull = ''null''"
| "dumps (JBool b) = (if b then ''true'' else ''false'')"
| "dumps (JInt i) = json_int i"
| "dumps (JFloat s) = s"
| "dumps (JStr s) = json_string s"
| "dumps (JList xs) = ''['' @ comma_join (map dumps xs) @ '']''"
| "dumps (JObj kvs) = ''{'' @ comma_join (map (\<lambda>(k, t). json_string k @ '':'' @ t)
     (map (map_prod id dumps) kvs)) @ ''}''"

definition canonical :: "JsonValue \<Rightarrow> string" where
  "canonical v = dumps (sorted_json v)"

definition digest :: "(string \<Rightarrow> string) \<Rightarrow> JsonValue \<Rightarrow> string" where
  "digest sha v = sha (canonical v)"

section \<open>The vocabulary\<close>

definition is_lower_hex :: "char \<Rightarrow> bool" where
  "is_lower_hex c \<longleftrightarrow> CHR ''0'' \<le> c \<and> c \<le> CHR ''9'' \<or> CHR ''a'' \<le> c \<and> c \<le> CHR ''f''"

definition is_key_char :: "char \<Rightarrow> bool" where
  "is_key_char c \<longleftrightarrow> CHR ''a'' \<le> c \<and> c \<le> CHR ''z'' \<or> CHR ''0'' \<le> c \<and> c \<le> CHR ''9'' \<or> c \<in> set ''_.:-''"

definition SAFE_KEY :: "string \<Rightarrow> bool" where
  "SAFE_KEY s \<longleftrightarrow> 1 \<le> length s \<and> length s \<le> 180 \<and> list_all is_key_char s"

definition strip_prefix :: "string \<Rightarrow> string \<Rightarrow> string option" where
  "strip_prefix p s = (if take (length p) s = p then Some (drop (length p) s) else None)"

definition uuid_tail :: "string \<Rightarrow> bool" where
  "uuid_tail t \<longleftrightarrow> 32 \<le> length t \<and> length t \<le> 36 \<and> list_all (\<lambda>c. is_lower_hex c \<or> c = CHR ''-'') t"

definition hex64 :: "string \<Rightarrow> bool" where
  "hex64 t \<longleftrightarrow> length t = 64 \<and> list_all is_lower_hex t"

definition tail_is :: "(string \<Rightarrow> bool) \<Rightarrow> string \<Rightarrow> string \<Rightarrow> bool" where
  "tail_is P s p = (case strip_prefix p s of None \<Rightarrow> False | Some t \<Rightarrow> P t)"

definition SAFE_ID :: "string \<Rightarrow> bool" where
  "SAFE_ID s \<longleftrightarrow>
    list_ex (tail_is uuid_tail s) [''acc_'', ''att_'', ''boot_'', ''inst_'', ''leg_'', ''probe_'', ''req_'']
    \<or> list_ex (tail_is hex64 s) [''dg1_'', ''bh_'']"

definition SAFE_DIGEST :: "string \<Rightarrow> bool" where
  "SAFE_DIGEST s \<longleftrightarrow> hex64 s \<or> tail_is hex64 s ''sha256:''"

definition SAFE_WORDS :: "string list" where
  "SAFE_WORDS =
    [''active'', ''available'', ''capacity_exhausted'', ''capacity'', ''account'', ''deployment'',
     ''client_cancelled'', ''closed'', ''auth_state_unavailable'', ''authz_denied'',
     ''backpressure_rejected'', ''completed'', ''crash_recovery'', ''deadline_exceeded'', ''manual'',
     ''disabled'', ''draft'', ''half_open'', ''inconclusive'', ''open'', ''response_stream_failed'',
     ''tombstoned'', ''quota'', ''transient_failure'', ''route_unavailable'', ''unsupported_request'',
     ''upstream_failed'', ''uncertain'', ''upstream_unknown'']"

definition ZERO_DIGEST :: string where
  "ZERO_DIGEST = replicate 64 (CHR ''0'')"

section \<open>Validation of values and payloads\<close>

text \<open>\<open>first_error\<close>: a loop of calls that stops at the first one that raises.\<close>

primrec first_error :: "unit res list \<Rightarrow> unit res" where
  "first_error [] = Inr ()"
| "first_error (r # rs) = res_bind r (\<lambda>_. first_error rs)"

definition safe_string :: "string \<Rightarrow> bool" where
  "safe_string s \<longleftrightarrow> length s \<le> 180 \<and> (SAFE_ID s \<or> SAFE_DIGEST s \<or> s \<in> set SAFE_WORDS)"

definition too_deep :: "nat \<Rightarrow> unit res \<Rightarrow> unit res" where
  "too_deep depth r = (if depth > 16 then Inl (ValueError ''journal value exceeds maximum nesting'') else r)"

primrec validate_safe_value :: "JsonValue \<Rightarrow> nat \<Rightarrow> unit res" where
  "validate_safe_value JNull = (\<lambda>depth. too_deep depth (Inr ()))"
| "validate_safe_value (JBool b) = (\<lambda>depth. too_deep depth (Inr ()))"
| "validate_safe_value (JInt i) = (\<lambda>depth. too_deep depth
     (if i < 0 \<or> i > 2 ^ 63 - 1 then Inl (ValueError ''journal integer is out of range'') else Inr ()))"
| "validate_safe_value (JFloat s) = (\<lambda>depth. too_deep depth
     (Inl (TypeError ''journal values must be JSON values'')))"
| "validate_safe_value (JStr s) = (\<lambda>depth. too_deep depth
     (if \<not> safe_string s
      then Inl (ValueError ''journal strings must be bounded IDs, digests, or reasons'') else Inr ()))"
| "validate_safe_value (JList xs) = (\<lambda>depth. too_deep depth
     (if length xs > 100000 then Inl (ValueError ''journal list is too large'')
      else first_error (map (\<lambda>check. check (depth + 1)) (map validate_safe_value xs))))"
| "validate_safe_value (JObj kvs) = (\<lambda>depth. too_deep depth
     (if length kvs > 100000 then Inl (ValueError ''journal object is too large'')
      else first_error (map (\<lambda>(key, check).
        if \<not> SAFE_KEY key then Inl (ValueError ''journal object key is not bounded'') else check (depth + 1))
        (map (map_prod id validate_safe_value) kvs))))"

definition RECORD_FIELDS :: "(string, string list) dict" where
  "RECORD_FIELDS =
    [(''account_registered'',
        [''account_id'', ''binding_digest'', ''credential_attestation_digest'', ''credential_epoch'', ''state'']),
     (''attempt_reserved'',
        [''request_id'', ''attempt_id'', ''account_id'', ''leg_id'', ''installation_id'',
         ''deployment_generation_id'', ''bundle_generation'', ''bundle_hash'', ''fence_token'', ''boot_id'',
         ''deadline_at_ms'', ''profile_digest'', ''started_at_ms'', ''reserved_tokens'', ''quota_units'',
         ''monthly_reset_at_ms'', ''circuit_epoch'', ''account_circuit_epoch'', ''circuit_probe_id'',
         ''account_circuit_probe_id'']),
     (''attempt_dispatched'', [''attempt_id'', ''dispatched_at_ms'']),
     (''attempt_uncertain'', [''attempt_id'', ''reason'']),
     (''attempt_resolved'',
        [''attempt_id'', ''outcome'', ''release_capacity'', ''actual_starts'', ''actual_token_units'',
         ''actual_quota_units'', ''resolution_digest'', ''resolved_at_ms'']),
     (''circuit_updated'',
        [''account_id'', ''deployment_generation_id'', ''scope'', ''state'', ''cause'', ''opened_at_ms'',
         ''backoff_step'', ''evidence_digest'', ''epoch'', ''retry_at_ms'', ''probe_id'']),
     (''authoritative_active_count'', [''account_id'', ''active_count'']),
     (''recovery_probe_started'', [''account_id'', ''probe_id'']),
     (''recovery_probe_finished'', [''account_id'', ''probe_id'', ''classification''])]"

definition validate_payload :: "string \<Rightarrow> json_object \<Rightarrow> json_object res" where
  "validate_payload kind payload =
    (let invalid = Inl (ValueError ''invalid closed journal payload'') in
     case map_of RECORD_FIELDS kind of
       None \<Rightarrow> invalid
     | Some expected \<Rightarrow>
       if set (map fst payload) \<noteq> set expected then invalid
       else res_map (\<lambda>_. payload) (validate_safe_value (JObj payload) 0))"

section \<open>Sorting the keys changes nothing that is checked\<close>

lemma sort_key_sorted: "sorted (map f xs) \<Longrightarrow> sort_key f xs = xs"
  by (induction xs) (auto simp: insort_is_Cons)

lemma sort_key_idem [simp]: "sort_key f (sort_key f xs) = sort_key f xs"
  by (simp add: sort_key_sorted)

lemma map_insort_key: "(\<And>y. k (f y) = k y) \<Longrightarrow> map f (insort_key k x xs) = insort_key k (f x) (map f xs)"
  by (induction xs) auto

lemma map_sort_key: "(\<And>y. k (f y) = k y) \<Longrightarrow> map f (sort_key k xs) = sort_key k (map f xs)"
  by (induction xs) (auto simp: map_insort_key)

lemma sorted_json_idem [simp]: "sorted_json (sorted_json v) = sorted_json v"
proof (induction v)
  case (JObj kvs)
  have "map (map_prod id sorted_json) (map (map_prod id sorted_json) kvs) = map (map_prod id sorted_json) kvs"
    using JObj by (auto simp: snds.simps)
  then show ?case by (simp add: map_sort_key del: map_map)
qed auto

lemma canonical_sorted [simp]: "canonical (sorted_json v) = canonical v"
  by (simp add: canonical_def)

lemma digest_cong: "sorted_json v = sorted_json w \<Longrightarrow> digest sha v = digest sha w"
  by (simp add: digest_def canonical_def)

lemma sorted_json_obj: "sorted_json (JObj kvs) = JObj (sorted_object kvs)"
  by (simp add: sorted_object_def)

lemma sorted_object_idem [simp]: "sorted_object (sorted_object kvs) = sorted_object kvs"
  using sorted_json_idem [of "JObj kvs"] by (simp only: sorted_json_obj JsonValue.inject)

lemma filter_sorted_object:
  "filter (\<lambda>p. P (fst p)) (sorted_object kvs) = sorted_object (filter (\<lambda>p. P (fst p)) kvs)"
  by (simp add: sorted_object_def filter_sort filter_map o_def)

lemma keys_sorted_object [simp]: "set (map fst (sorted_object kvs)) = set (map fst kvs)"
  by (simp add: sorted_object_def image_image)

lemma map_of_map_prod: "map_of (map (map_prod id f) d) k = map_option f (map_of d k)"
  by (induction d) auto

lemma map_of_sorted_object:
  "dict_wf kvs \<Longrightarrow> map_of (sorted_object kvs) k = map_option sorted_json (map_of kvs k)"
  by (simp add: sorted_object_def map_of_sort_key map_of_map_prod comp_def)

lemma is_ok_first_error: "is_ok (first_error rs) \<longleftrightarrow> (\<forall>r \<in> set rs. is_ok r)"
  by (induction rs) (auto simp: is_ok_iff res_bind_Inr)

lemma is_ok_too_deep [simp]: "is_ok (too_deep depth r) \<longleftrightarrow> depth \<le> 16 \<and> is_ok r"
  by (simp add: too_deep_def)

lemma validate_sorted: "is_ok (validate_safe_value (sorted_json v) depth) \<longleftrightarrow> is_ok (validate_safe_value v depth)"
proof (induction v arbitrary: depth)
  case (JList xs)
  then show ?case by (auto simp: is_ok_first_error)
next
  case (JObj kvs)
  have step: "is_ok (validate_safe_value (sorted_json (snd p)) d) \<longleftrightarrow> is_ok (validate_safe_value (snd p) d)"
    if "p \<in> set kvs" for p d
    using JObj [OF that, of "snd p" d] by (simp add: snds.simps)
  show ?case using step by (fastforce simp: is_ok_first_error split: prod.splits)
qed auto

lemma validate_payload_Inr [checked]:
  "validate_payload kind payload = Inr p \<longleftrightarrow>
    p = payload \<and> (\<exists>fs. map_of RECORD_FIELDS kind = Some fs \<and> set (map fst payload) = set fs)
    \<and> is_ok (validate_safe_value (JObj payload) 0)"
  by (auto simp: validate_payload_def Let_def res_map_Inr is_ok_iff split: option.splits)

lemma validate_payload_sorted:
  assumes "validate_payload kind payload = Inr p"
  shows "validate_payload kind (sorted_object payload) = Inr (sorted_object payload)"
  using assms validate_sorted [of "JObj payload" 0] unfolding validate_payload_Inr
  by (simp only: sorted_json_obj keys_sorted_object)

lemma ZERO_DIGEST_safe [simp]: "SAFE_DIGEST ZERO_DIGEST"
  by (simp add: SAFE_DIGEST_def hex64_def ZERO_DIGEST_def is_lower_hex_def list_all_iff)

lemma record_kind_bounded: "map_of RECORD_FIELDS kind = Some fs \<Longrightarrow> kind \<in> set (map fst RECORD_FIELDS)"
  by (force dest: map_of_SomeD)

end
