(* ===== verification/Journal.thy ===== *)
theory Journal
  imports Journal_Values Runtime_State
begin

text \<open>
  The attempt journal of \<open>gateway/journal.py\<close> (class \<open>AttemptJournal\<close>): the files on disk, recovery at
  start-up, the writer thread with its batches, segments, checkpoints and compaction, and the
  operations callers queue.

  \<^item> The disk holds the manifest, the checkpoints by name and the segments by the sequence in their
    name. Names are numbers here; the zero-padded names of the files sort the same way as long as the
    numbers fit their width. A file or line holds the value \<open>json.loads\<close> returns, \<open>None\<close> when it raises
    \<open>JSONDecodeError\<close>. A cut-off record line, a proper prefix of the text of an object, is never JSON.
    \<open>sg_synced\<close> counts the lines of a segment that \<open>fdatasync\<close> has reached.
  \<^item> Every call that touches the disk, and every crash boundary of \<open>_inject\<close>, goes through \<open>disk_op\<close>.
    The field \<open>j_fault\<close> makes one of them raise: \<open>ft_after\<close> counts the calls that still succeed,
    \<open>ft_landed\<close> what the failing call left on disk (bytes of an append; not zero: a rename, unlink or
    create that took place). After a failure the writer thread ends, so the states a fault can leave
    are the states a crash of the process can leave.
  \<^item> \<open>writer_io\<close> holds what the writer reads from outside: the clock, the descriptor \<open>os.open\<close> returns
    for a segment, whether a descriptor number is open elsewhere in the process, and how many more
    commands arrive within the group commit delay.
  \<^item> Float arithmetic: \<open>int(max_bytes * 0.8)\<close> is \<open>max_bytes * 4 div 5\<close>, which agrees below \<open>2 ^ 50\<close>; the
    comparison of the disk usage ratio is the argument \<open>disk_full\<close>. Latency samples are not kept.
\<close>

section \<open>Records, files and the journal's state\<close>

record LogRecord =
  lr_sequence :: int
  lr_kind :: string
  lr_payload :: json_object
  lr_previous_digest :: string
  lr_digest :: string

record JournalRecovery =
  jv_status :: JournalStatus
  jv_reason :: "string option"
  jv_checkpoint :: "json_object option"
  jv_records :: "LogRecord list"
  jv_checkpoint_sequence :: int
  jv_last_sequence :: int
  jv_last_digest :: string
  jv_replayed_records :: nat
  jv_verified_checkpoints :: nat

record seg_line =
  sl_json :: "JsonValue option"
  sl_newline :: bool
  sl_bytes :: nat

record segment =
  sg_lines :: "seg_line list"
  sg_synced :: nat

record json_file =
  fl_json :: "JsonValue option"
  fl_bytes :: nat

type_synonym checkpoint_name = "int \<times> int \<times> int"

record disk =
  dk_manifest :: "json_file option"
  dk_checkpoints :: "(checkpoint_name, json_file) dict"
  dk_segments :: "(int, segment) dict"
  dk_foreign :: "(string, nat) dict"

record fault =
  ft_after :: nat
  ft_error :: py_error
  ft_landed :: nat

datatype command =
    AppendCommand nat string json_object "string option"
  | CheckpointCommand nat json_object
  | StopCommand nat

datatype reply = Stored LogRecord | Done | Failed py_error

record journal_config =
  jc_group_commit_delay_ms :: int
  jc_max_group_records :: nat
  jc_checkpoint_every_records :: int
  jc_checkpoint_every_ms :: int
  jc_segment_bytes :: int
  jc_max_bytes :: int
  jc_max_replay_records :: nat

record journal =
  j_journal_id :: string
  j_base_status :: JournalStatus
  j_reason :: "string option"
  j_closed :: bool
  j_alive :: bool
  j_segment_fd :: "int option"
  j_segment_size :: int
  j_segment_start :: int
  j_last_sequence :: int
  j_last_digest :: string
  j_checkpoint_sequence :: int
  j_verified_checkpoints :: nat
  j_records_since_checkpoint :: int
  j_last_checkpoint_ms :: int
  j_checkpoint_nonce :: int
  j_pending :: "command option"
  j_queue :: "command list"
  j_next_ticket :: nat
  j_replies :: "(nat, reply) dict"
  j_recovery :: JournalRecovery
  j_disk :: disk
  j_fault :: "fault option"

record writer_io =
  io_now :: "nat \<Rightarrow> int"
  io_open :: "int \<Rightarrow> int"
  io_busy :: "int \<Rightarrow> bool"
  io_arrivals :: nat
  io_fault :: "fault option"

type_synonym sha = "string \<Rightarrow> string"
type_synonym 'a jop = "journal \<Rightarrow> 'a res \<times> journal"

definition QUEUE_CAPACITY :: nat where
  "QUEUE_CAPACITY = 4096"

definition json_version :: int where
  "json_version = 1"

section \<open>Documents\<close>

definition record_body :: "JsonValue \<Rightarrow> string \<Rightarrow> json_object \<Rightarrow> string \<Rightarrow> JsonValue" where
  "record_body sequence kind payload previous_digest =
    JObj [(''sequence'', sequence), (''kind'', JStr kind), (''payload'', JObj payload),
      (''previous_digest'', JStr previous_digest)]"

definition new_record :: "sha \<Rightarrow> int \<Rightarrow> string \<Rightarrow> json_object \<Rightarrow> string \<Rightarrow> LogRecord" where
  "new_record sha sequence kind payload previous_digest =
    \<lparr>lr_sequence = sequence, lr_kind = kind, lr_payload = payload, lr_previous_digest = previous_digest,
     lr_digest = digest sha (record_body (JInt sequence) kind payload previous_digest)\<rparr>"

definition record_json :: "LogRecord \<Rightarrow> JsonValue" where
  "record_json r =
    JObj [(''sequence'', JInt (lr_sequence r)), (''kind'', JStr (lr_kind r)), (''payload'', JObj (lr_payload r)),
      (''previous_digest'', JStr (lr_previous_digest r)), (''digest'', JStr (lr_digest r))]"

definition manifest_body :: "JsonValue \<Rightarrow> JsonValue \<Rightarrow> JsonValue \<Rightarrow> JsonValue \<Rightarrow> json_object" where
  "manifest_body version journal_id last_sequence last_digest =
    [(''version'', version), (''journal_id'', journal_id), (''last_sequence'', last_sequence),
     (''last_digest'', last_digest)]"

definition manifest_document :: "sha \<Rightarrow> int \<Rightarrow> string \<Rightarrow> string \<Rightarrow> JsonValue" where
  "manifest_document sha last_sequence last_digest journal_id =
    (let body = manifest_body (JInt json_version) (JStr journal_id) (JInt last_sequence) (JStr last_digest) in
     JObj (body @ [(''digest'', JStr (digest sha (JObj body)))]))"

text \<open>A JSON value where the code asks \<open>isinstance(value, int)\<close>: a boolean is an integer in Python.\<close>

fun as_int :: "JsonValue option \<Rightarrow> int option" where
  "as_int (Some (JInt i)) = Some i"
| "as_int (Some (JBool b)) = Some (if b then 1 else 0)"
| "as_int _ = None"

fun as_str :: "JsonValue option \<Rightarrow> string option" where
  "as_str (Some (JStr s)) = Some s"
| "as_str _ = None"

fun as_object :: "JsonValue option \<Rightarrow> json_object option" where
  "as_object (Some (JObj d)) = Some d"
| "as_object _ = None"

definition json_get :: "json_object \<Rightarrow> string \<Rightarrow> JsonValue" where
  "json_get d k = (case map_of d k of None \<Rightarrow> JNull | Some v \<Rightarrow> v)"

definition validate_manifest :: "sha \<Rightarrow> JsonValue \<Rightarrow> (int \<times> string \<times> string) res" where
  "validate_manifest sha value =
    (case value of
       JObj d \<Rightarrow>
         if set (map fst d) \<noteq> set [''version'', ''journal_id'', ''last_sequence'', ''last_digest'', ''digest'']
         then Inl (ValueError ''manifest fields are invalid'')
         else if map_of d ''digest'' \<noteq> Some (JStr (digest sha (JObj (manifest_body (json_get d ''version'')
               (json_get d ''journal_id'') (json_get d ''last_sequence'') (json_get d ''last_digest'')))))
             \<or> as_int (map_of d ''version'') \<noteq> Some json_version
         then Inl (ValueError ''manifest digest or version is invalid'')
         else (case (as_str (map_of d ''journal_id''), as_int (map_of d ''last_sequence''),
                     as_str (map_of d ''last_digest'')) of
             (Some journal_id, Some last_sequence, Some last_digest) \<Rightarrow>
               if \<not> SAFE_ID journal_id \<or> take 5 journal_id \<noteq> ''boot_'' \<or> last_sequence < 0 \<or> \<not> SAFE_DIGEST last_digest
               then Inl (ValueError ''manifest values are invalid'')
               else Inr (last_sequence, last_digest, journal_id)
           | _ \<Rightarrow> Inl (ValueError ''manifest values are invalid''))
     | _ \<Rightarrow> Inl (ValueError ''manifest must be an object''))"

definition checkpoint_body :: "int \<Rightarrow> string \<Rightarrow> int \<Rightarrow> json_object \<Rightarrow> json_object" where
  "checkpoint_body sequence last_digest created_at_ms snapshot =
    [(''version'', JInt json_version), (''sequence'', JInt sequence), (''last_record_digest'', JStr last_digest),
     (''created_at_ms'', JInt created_at_ms), (''snapshot'', JObj snapshot)]"

definition checkpoint_document :: "sha \<Rightarrow> int \<Rightarrow> string \<Rightarrow> int \<Rightarrow> json_object \<Rightarrow> JsonValue" where
  "checkpoint_document sha sequence last_digest created_at_ms snapshot =
    (let body = checkpoint_body sequence last_digest created_at_ms snapshot in
     JObj (body @ [(''digest'', JStr (digest sha (JObj body)))]))"

definition json_loads :: "JsonValue option \<Rightarrow> JsonValue res" where
  "json_loads v = (case v of None \<Rightarrow> Inl (ValueError ''JSONDecodeError'') | Some x \<Rightarrow> Inr x)"

definition parse_checkpoint :: "sha \<Rightarrow> JsonValue \<Rightarrow> (int \<times> string \<times> json_object) res" where
  "parse_checkpoint sha value =
    (case value of
       JObj d \<Rightarrow>
         if set (map fst d) \<noteq> set [''version'', ''sequence'', ''last_record_digest'', ''created_at_ms'', ''snapshot'', ''digest'']
         then Inl (ValueError ''checkpoint fields are invalid'')
         else if as_int (map_of d ''version'') \<noteq> Some json_version
             \<or> map_of d ''digest'' \<noteq> Some (JStr (digest sha (JObj (filter (\<lambda>p. fst p \<noteq> ''digest'') d))))
         then Inl (ValueError ''checkpoint digest or version is invalid'')
         else (case (as_int (map_of d ''sequence''), as_str (map_of d ''last_record_digest''),
                     as_object (map_of d ''snapshot'')) of
             (Some sequence, Some last_digest, Some snapshot) \<Rightarrow>
               if sequence < 0 \<or> \<not> SAFE_DIGEST last_digest then Inl (ValueError ''checkpoint values are invalid'')
               else res_map (\<lambda>_. (sequence, last_digest, snapshot)) (validate_safe_value (JObj snapshot) 0)
           | _ \<Rightarrow> Inl (ValueError ''checkpoint values are invalid''))
     | _ \<Rightarrow> Inl (ValueError ''checkpoint fields are invalid''))"

definition read_checkpoint :: "sha \<Rightarrow> json_file \<Rightarrow> (int \<times> string \<times> json_object) res" where
  "read_checkpoint sha f = res_bind (json_loads (fl_json f)) (parse_checkpoint sha)"

definition decode_record :: "sha \<Rightarrow> JsonValue \<Rightarrow> LogRecord res" where
  "decode_record sha value =
    (case value of
       JObj d \<Rightarrow>
         if set (map fst d) \<noteq> set [''sequence'', ''kind'', ''payload'', ''previous_digest'', ''digest'']
         then Inl (ValueError ''journal record fields are invalid'')
         else (case (as_int (map_of d ''sequence''), as_str (map_of d ''kind''), as_object (map_of d ''payload''),
                     as_str (map_of d ''previous_digest''), as_str (map_of d ''digest'')) of
             (Some sequence, Some kind, Some payload, Some previous_digest, Some dg) \<Rightarrow>
               if sequence < 1 then Inl (ValueError ''journal record values are invalid'')
               else res_bind (validate_payload kind payload) (\<lambda>typed.
                 if dg \<noteq> digest sha (record_body (json_get d ''sequence'') kind typed previous_digest)
                 then Inl (ValueError ''journal record digest is invalid'')
                 else Inr \<lparr>lr_sequence = sequence, lr_kind = kind, lr_payload = typed,
                        lr_previous_digest = previous_digest, lr_digest = dg\<rparr>)
           | _ \<Rightarrow> Inl (ValueError ''journal record values are invalid''))
     | _ \<Rightarrow> Inl (ValueError ''journal record fields are invalid''))"

section \<open>Recovery\<close>

definition failed_recovery :: "string \<Rightarrow> JournalRecovery" where
  "failed_recovery reason =
    \<lparr>jv_status = JS_RECOVERY_REQUIRED, jv_reason = Some reason, jv_checkpoint = None, jv_records = [],
     jv_checkpoint_sequence = 0, jv_last_sequence = 0, jv_last_digest = ZERO_DIGEST,
     jv_replayed_records = 0, jv_verified_checkpoints = 0\<rparr>"

text \<open>\<open>late n\<close>: the \<open>n\<close>-th deadline check of this recovery finds the deadline passed.\<close>

record scan =
  sc_expected :: int
  sc_previous :: string
  sc_records :: "LogRecord list"
  sc_ticks :: nat

definition check_recovery_deadline :: "(nat \<Rightarrow> bool) \<Rightarrow> nat \<Rightarrow> nat res" where
  "check_recovery_deadline late n =
    (if late n then Inl (TimeoutError ''recovery_deadline_exceeded'') else Inr (n + 1))"

type_synonym checkpoint_entry = "int \<times> string \<times> json_object \<times> checkpoint_name"

fun read_checkpoints :: "sha \<Rightarrow> (nat \<Rightarrow> bool) \<Rightarrow> nat \<Rightarrow> (checkpoint_name \<times> json_file) list
    \<Rightarrow> (checkpoint_entry list \<times> nat) res" where
  "read_checkpoints sha late n [] = Inr ([], n)"
| "read_checkpoints sha late n ((name, f) # fs) =
     res_bind (check_recovery_deadline late n) (\<lambda>n1.
       (case read_checkpoint sha f of
          Inl (ValueError _) \<Rightarrow> read_checkpoints sha late n1 fs
        | Inl e \<Rightarrow> Inl e
        | Inr (sequence, last_digest, snapshot) \<Rightarrow>
            res_map (\<lambda>(cs, n2). ((sequence, last_digest, snapshot, name) # cs, n2))
              (read_checkpoints sha late n1 fs)))"

definition checkpoint_order :: "checkpoint_entry \<Rightarrow> int \<times> checkpoint_name" where
  "checkpoint_order c = (fst c, snd (snd (snd c)))"

definition accept_record :: "nat \<Rightarrow> int \<Rightarrow> LogRecord \<Rightarrow> scan \<Rightarrow> scan res" where
  "accept_record max_replay checkpoint_sequence r st =
    (if lr_sequence r \<le> checkpoint_sequence then Inr st
     else if lr_sequence r \<noteq> sc_expected st \<or> lr_previous_digest r \<noteq> sc_previous st
     then Inl (ValueError ''journal sequence or digest chain gap'')
     else if length (sc_records st) + 1 > max_replay then Inl (TimeoutError ''replay_record_bound_exceeded'')
     else Inr (st\<lparr>sc_expected := sc_expected st + 1, sc_previous := lr_digest r,
       sc_records := sc_records st @ [r]\<rparr>))"

text \<open>
  The scan of one segment returns the scan state and, when the newest segment ends in an incomplete
  line, the lines that the truncation keeps.
\<close>

fun scan_lines :: "sha \<Rightarrow> (nat \<Rightarrow> bool) \<Rightarrow> nat \<Rightarrow> int \<Rightarrow> bool \<Rightarrow> seg_line list \<Rightarrow> seg_line list \<Rightarrow> scan
    \<Rightarrow> scan res \<times> seg_line list option" where
  "scan_lines sha late max_replay cseq newest done [] st = (Inr st, None)"
| "scan_lines sha late max_replay cseq newest done (l # ls) st =
     (case check_recovery_deadline late (sc_ticks st) of
        Inl e \<Rightarrow> (Inl e, None)
      | Inr n \<Rightarrow>
        let st = st\<lparr>sc_ticks := n\<rparr> in
        (case sl_json l of
           None \<Rightarrow>
             if newest \<and> \<not> sl_newline l \<and> ls = [] then (Inr st, Some done)
             else (Inl (ValueError ''JSONDecodeError''), None)
         | Some value \<Rightarrow>
           (case res_bind (decode_record sha value) (\<lambda>r. accept_record max_replay cseq r st) of
              Inl e \<Rightarrow> (Inl e, None)
            | Inr st' \<Rightarrow> scan_lines sha late max_replay cseq newest (done @ [l]) ls st')))"

fun scan_segments :: "sha \<Rightarrow> (nat \<Rightarrow> bool) \<Rightarrow> nat \<Rightarrow> int \<Rightarrow> (int \<times> segment) list \<Rightarrow> scan \<Rightarrow> disk
    \<Rightarrow> scan res \<times> disk" where
  "scan_segments sha late max_replay cseq [] st d = (Inr st, d)"
| "scan_segments sha late max_replay cseq ((start, sg) # sgs) st d =
     (case check_recovery_deadline late (sc_ticks st) of
        Inl e \<Rightarrow> (Inl e, d)
      | Inr n \<Rightarrow>
        (case scan_lines sha late max_replay cseq (sgs = []) [] (sg_lines sg) (st\<lparr>sc_ticks := n\<rparr>) of
           (r, kept) \<Rightarrow>
           let d' = (case kept of None \<Rightarrow> d
               | Some ls \<Rightarrow> d\<lparr>dk_segments := AList.update start \<lparr>sg_lines = ls, sg_synced = length ls\<rparr> (dk_segments d)\<rparr>)
           in (case r of Inl e \<Rightarrow> (Inl e, d') | Inr st' \<Rightarrow> scan_segments sha late max_replay cseq sgs st' d')))"

definition manifest_high_water :: "int \<Rightarrow> string \<Rightarrow> scan \<Rightarrow> unit res" where
  "manifest_high_water manifest_sequence manifest_digest st =
    (let last_sequence = sc_expected st - 1 in
     if manifest_sequence > last_sequence then Inl (ValueError ''manifest high-water exceeds durable journal'')
     else if manifest_sequence = last_sequence \<and> manifest_digest \<noteq> sc_previous st
     then Inl (ValueError ''manifest digest disagrees with durable journal'')
     else Inr ())"

definition newest_checkpoint :: "checkpoint_entry list \<Rightarrow> int \<times> string \<times> json_object option" where
  "newest_checkpoint cs = (if cs = [] then (0, ZERO_DIGEST, None)
     else (case last cs of (q, dg, snapshot, name) \<Rightarrow> (q, dg, Some snapshot)))"

definition recover_body :: "sha \<Rightarrow> (nat \<Rightarrow> bool) \<Rightarrow> nat \<Rightarrow> disk \<Rightarrow> int \<Rightarrow> string \<Rightarrow> JournalRecovery res \<times> disk" where
  "recover_body sha late max_replay d manifest_sequence manifest_digest =
    (case read_checkpoints sha late 0 (sort_key fst (dk_checkpoints d)) of
       Inl e \<Rightarrow> (Inl e, d)
     | Inr (cs0, n) \<Rightarrow>
       let cs = sort_key checkpoint_order cs0 in
       if dk_checkpoints d \<noteq> [] \<and> cs = [] then (Inl (ValueError ''all retained checkpoints are invalid''), d)
       else (case newest_checkpoint cs of (cseq, cdigest, checkpoint) \<Rightarrow>
         (case scan_segments sha late max_replay cseq (sort_key fst (dk_segments d))
             \<lparr>sc_expected = cseq + 1, sc_previous = cdigest, sc_records = [], sc_ticks = n\<rparr> d of
            (Inl e, d') \<Rightarrow> (Inl e, d')
          | (Inr st, d') \<Rightarrow>
            (res_bind (manifest_high_water manifest_sequence manifest_digest st) (\<lambda>_.
             res_map (\<lambda>_. \<lparr>jv_status = JS_HEALTHY, jv_reason = None, jv_checkpoint = checkpoint,
               jv_records = sc_records st, jv_checkpoint_sequence = cseq, jv_last_sequence = sc_expected st - 1,
               jv_last_digest = sc_previous st, jv_replayed_records = length (sc_records st),
               jv_verified_checkpoints = min 2 (length cs)\<rparr>)
               (check_recovery_deadline late (sc_ticks st))), d'))))"

fun handle_recovery :: "JournalRecovery res \<Rightarrow> JournalRecovery res" where
  "handle_recovery (Inl (TimeoutError reason)) = Inr (failed_recovery
     (if reason \<noteq> ''replay_record_bound_exceeded'' then ''recovery_deadline_exceeded'' else reason))"
| "handle_recovery (Inl OSError) = Inr (failed_recovery ''corrupt_journal'')"
| "handle_recovery (Inl (ValueError _)) = Inr (failed_recovery ''corrupt_journal'')"
| "handle_recovery r = r"

text \<open>The result, the journal id that recovery adopts, and the disk it leaves.\<close>

definition recover :: "sha \<Rightarrow> (nat \<Rightarrow> bool) \<Rightarrow> nat \<Rightarrow> string \<Rightarrow> disk \<Rightarrow> JournalRecovery res \<times> string \<times> disk" where
  "recover sha late max_replay uid d =
    (case res_bind (case dk_manifest d of None \<Rightarrow> Inl OSError | Some f \<Rightarrow> json_loads (fl_json f)) (validate_manifest sha) of
       Inl e \<Rightarrow> (handle_recovery (Inl e), uid, d)
     | Inr (mseq, mdigest, journal_id) \<Rightarrow>
       (case recover_body sha late max_replay d mseq mdigest of
          (r, d') \<Rightarrow> (handle_recovery r, journal_id, d')))"

section \<open>Calls that may fail\<close>

definition jpure :: "'a \<Rightarrow> 'a jop" where
  "jpure x s = (Inr x, s)"

definition jmod :: "(journal \<Rightarrow> journal) \<Rightarrow> unit jop" where
  "jmod f s = (Inr (), f s)"

definition jbind :: "'a jop \<Rightarrow> ('a \<Rightarrow> 'b jop) \<Rightarrow> 'b jop" where
  "jbind m f s = (case m s of (Inl e, s') \<Rightarrow> (Inl e, s') | (Inr x, s') \<Rightarrow> f x s')"

primrec jforeach :: "('a \<Rightarrow> unit jop) \<Rightarrow> 'a list \<Rightarrow> unit jop" where
  "jforeach f [] = jpure ()"
| "jforeach f (x # xs) = jbind (f x) (\<lambda>_. jforeach f xs)"

definition disk_op :: "(nat \<Rightarrow> disk \<Rightarrow> disk) \<Rightarrow> (disk \<Rightarrow> disk) \<Rightarrow> unit jop" where
  "disk_op part eff s =
    (case j_fault s of
       None \<Rightarrow> (Inr (), s\<lparr>j_disk := eff (j_disk s)\<rparr>)
     | Some f \<Rightarrow>
       if ft_after f = 0
       then (Inl (ft_error f), s\<lparr>j_disk := part (ft_landed f) (j_disk s), j_fault := None\<rparr>)
       else (Inr (), s\<lparr>j_disk := eff (j_disk s), j_fault := Some (f\<lparr>ft_after := ft_after f - 1\<rparr>)\<rparr>))"

definition atomic_op :: "(disk \<Rightarrow> disk) \<Rightarrow> unit jop" where
  "atomic_op eff = disk_op (\<lambda>b d. if b = 0 then d else eff d) eff"

definition inject :: "string \<Rightarrow> unit jop" where
  "inject boundary = atomic_op id"

definition fsync_directory :: "unit jop" where
  "fsync_directory = atomic_op id"

section \<open>Files\<close>

definition file_of :: "JsonValue \<Rightarrow> json_file" where
  "file_of v = \<lparr>fl_json = Some (sorted_json v), fl_bytes = length (canonical v) + 1\<rparr>"

definition segment_bytes :: "segment \<Rightarrow> nat" where
  "segment_bytes sg = sum_list (map sl_bytes (sg_lines sg))"

definition create_segment :: "int \<Rightarrow> disk \<Rightarrow> disk" where
  "create_segment start d =
    (if dict_has (dk_segments d) start then d
     else d\<lparr>dk_segments := dk_segments d @ [(start, \<lparr>sg_lines = [], sg_synced = 0\<rparr>)]\<rparr>)"

definition on_segment :: "int \<Rightarrow> (segment \<Rightarrow> segment) \<Rightarrow> disk \<Rightarrow> disk" where
  "on_segment start f d =
    (case map_of (dk_segments d) start of
       None \<Rightarrow> d
     | Some sg \<Rightarrow> d\<lparr>dk_segments := AList.update start (f sg) (dk_segments d)\<rparr>)"

text \<open>Text written after a line without newline continues that line, and two objects on one line are not JSON.\<close>

definition append_line :: "seg_line \<Rightarrow> segment \<Rightarrow> segment" where
  "append_line l sg =
    (if sg_lines sg = [] \<or> sl_newline (last (sg_lines sg)) then sg\<lparr>sg_lines := sg_lines sg @ [l]\<rparr>
     else sg\<lparr>sg_lines := butlast (sg_lines sg) @
       [\<lparr>sl_json = None, sl_newline = sl_newline l, sl_bytes = sl_bytes (last (sg_lines sg)) + sl_bytes l\<rparr>]\<rparr>)"

definition whole_line :: "JsonValue \<Rightarrow> seg_line" where
  "whole_line v = \<lparr>sl_json = Some (sorted_json v), sl_newline = True, sl_bytes = length (canonical v) + 1\<rparr>"

definition cut_line :: "nat \<Rightarrow> JsonValue \<Rightarrow> seg_line" where
  "cut_line b v =
    (if b > length (canonical v) then whole_line v
     else \<lparr>sl_json = (if b = length (canonical v) then Some (sorted_json v) else None),
       sl_newline = False, sl_bytes = b\<rparr>)"

definition write_all :: "int \<Rightarrow> JsonValue \<Rightarrow> unit jop" where
  "write_all start v =
    disk_op (\<lambda>b. if b = 0 then id else on_segment start (append_line (cut_line b v)))
      (on_segment start (append_line (whole_line v)))"

definition sync_segment :: "segment \<Rightarrow> segment" where
  "sync_segment sg = sg\<lparr>sg_synced := length (sg_lines sg)\<rparr>"

text \<open>\<open>fdatasync\<close> of a descriptor that is closed raises \<open>OSError\<close>, unless the number is in use again.\<close>

definition timed_fdatasync :: "writer_io \<Rightarrow> int \<Rightarrow> unit jop" where
  "timed_fdatasync io fd s =
    (if j_segment_fd s = Some fd then atomic_op (on_segment (j_segment_start s) sync_segment) s
     else if io_busy io fd then atomic_op id s
     else (Inl OSError, s))"

definition write_temporary :: "unit jop" where
  "write_temporary = jbind (atomic_op id) (\<lambda>_. atomic_op id)"

definition write_manifest :: "sha \<Rightarrow> unit jop" where
  "write_manifest sha s =
    (let document = manifest_document sha (j_last_sequence s) (j_last_digest s) (j_journal_id s) in
     jbind write_temporary (\<lambda>_.
     jbind (atomic_op (\<lambda>d. d\<lparr>dk_manifest := Some (file_of document)\<rparr>)) (\<lambda>_.
     fsync_directory)) s)"

definition flush_and_close_segment :: "writer_io \<Rightarrow> bool \<Rightarrow> unit jop" where
  "flush_and_close_segment io sync s =
    (case j_segment_fd s of
       None \<Rightarrow> (Inr (), s)
     | Some fd \<Rightarrow>
       jbind (if sync then timed_fdatasync io fd else jpure ()) (\<lambda>_.
         jmod (\<lambda>s. s\<lparr>j_segment_fd := None, j_segment_size := 0, j_segment_start := 0\<rparr>)) s)"

definition open_segment :: "writer_io \<Rightarrow> int \<Rightarrow> unit jop" where
  "open_segment io sequence =
    jbind (atomic_op (create_segment sequence)) (\<lambda>_.
      jmod (\<lambda>s. s\<lparr>j_segment_fd := Some (io_open io sequence), j_segment_start := sequence,
        j_segment_size := (case map_of (dk_segments (j_disk s)) sequence of
          None \<Rightarrow> 0 | Some sg \<Rightarrow> int (segment_bytes sg))\<rparr>))"

definition ensure_segment :: "journal_config \<Rightarrow> writer_io \<Rightarrow> int \<Rightarrow> nat \<Rightarrow> unit jop" where
  "ensure_segment cfg io sequence content_length s =
    (let in_use = j_segment_fd s \<noteq> None \<and> j_segment_size s > 0 in
     if in_use \<and> j_segment_size s + int content_length \<le> jc_segment_bytes cfg then (Inr (), s)
     else jbind (if in_use then flush_and_close_segment io True else jpure ()) (\<lambda>_ s1.
       if j_segment_fd s1 = None then open_segment io sequence s1 else (Inr (), s1)) s)"

section \<open>Appending a batch\<close>

definition append_one :: "journal_config \<Rightarrow> sha \<Rightarrow> writer_io \<Rightarrow> string \<Rightarrow> json_object \<Rightarrow> (LogRecord \<times> int) jop" where
  "append_one cfg sha io kind payload s =
    (let sequence = j_last_sequence s + 1;
         r = new_record sha sequence kind payload (j_last_digest s);
         content_length = length (canonical (record_json r)) + 1 in
     jbind (ensure_segment cfg io sequence content_length) (\<lambda>_ s1.
       (case j_segment_fd s1 of
          None \<Rightarrow> (Inl AssertionError, s1)
        | Some fd \<Rightarrow>
          jbind (write_all (j_segment_start s1) (record_json r)) (\<lambda>_ s2.
            (Inr (r, fd), s2\<lparr>j_segment_size := j_segment_size s2 + int content_length,
               j_last_sequence := sequence, j_last_digest := lr_digest r\<rparr>)) s1)) s)"

type_synonym append_item = "nat \<times> string \<times> json_object \<times> string option"

fun append_all :: "journal_config \<Rightarrow> sha \<Rightarrow> writer_io \<Rightarrow> append_item list \<Rightarrow> (nat \<times> LogRecord \<times> int) list jop" where
  "append_all cfg sha io [] = jpure []"
| "append_all cfg sha io ((ticket, kind, payload, boundary) # items) =
     jbind (append_one cfg sha io kind payload) (\<lambda>(r, fd).
     jbind (append_all cfg sha io items) (\<lambda>rest. jpure ((ticket, r, fd) # rest)))"

definition batch_boundaries :: "append_item list \<Rightarrow> string list" where
  "batch_boundaries batch =
    map fst (dict_of (map (\<lambda>b. (b, ())) (List.map_filter (\<lambda>(t, k, p, b). b) batch)))"

definition write_append_batch :: "journal_config \<Rightarrow> sha \<Rightarrow> writer_io \<Rightarrow> append_item list
    \<Rightarrow> (nat \<times> LogRecord) list jop" where
  "write_append_batch cfg sha io batch =
    jbind (jforeach (\<lambda>b. inject (''before_'' @ b @ ''_fsync'')) (batch_boundaries batch)) (\<lambda>_.
    jbind (append_all cfg sha io batch) (\<lambda>results.
    jbind (jforeach (timed_fdatasync io) (remdups (map (\<lambda>(t, r, fd). fd) results))) (\<lambda>_.
    jbind (jforeach (\<lambda>b. inject (''after_'' @ b @ ''_fsync'')) (batch_boundaries batch)) (\<lambda>_.
    jbind (write_manifest sha) (\<lambda>_.
    jbind (jmod (\<lambda>s. s\<lparr>j_records_since_checkpoint := j_records_since_checkpoint s + int (length batch)\<rparr>)) (\<lambda>_.
    jpure (map (\<lambda>(t, r, fd). (t, r)) results)))))))"

section \<open>Checkpoints and compaction\<close>

fun readable_checkpoints :: "sha \<Rightarrow> (checkpoint_name \<times> json_file) list \<Rightarrow> (int \<times> checkpoint_name) list res" where
  "readable_checkpoints sha [] = Inr []"
| "readable_checkpoints sha ((name, f) # fs) =
     (case read_checkpoint sha f of
        Inl (ValueError _) \<Rightarrow> readable_checkpoints sha fs
      | Inl e \<Rightarrow> Inl e
      | Inr (sequence, last_digest, snapshot) \<Rightarrow> res_map ((#) (sequence, name)) (readable_checkpoints sha fs))"

definition delete_segment :: "int \<Rightarrow> unit jop" where
  "delete_segment start =
    jbind (inject ''segment_before_delete'') (\<lambda>_.
    jbind (atomic_op (\<lambda>d. d\<lparr>dk_segments := AList.delete start (dk_segments d)\<rparr>)) (\<lambda>_.
    jbind fsync_directory (\<lambda>_. inject ''segment_after_delete'')))"

definition compact_segments :: "writer_io \<Rightarrow> int \<Rightarrow> unit jop" where
  "compact_segments io safe_sequence =
    jbind (flush_and_close_segment io True) (\<lambda>_ s.
      let starts = map fst (sort_key fst (dk_segments (j_disk s))) in
      jforeach (\<lambda>(start, next_start). if next_start - 1 > safe_sequence then jpure () else delete_segment start)
        (zip starts (tl starts)) s)"

definition prune_checkpoints :: "checkpoint_name list \<Rightarrow> unit jop" where
  "prune_checkpoints = jforeach (\<lambda>name.
     atomic_op (\<lambda>d. d\<lparr>dk_checkpoints := AList.delete name (dk_checkpoints d)\<rparr>))"

definition after_checkpoint :: "writer_io \<Rightarrow> (int \<times> checkpoint_name) list \<Rightarrow> unit jop" where
  "after_checkpoint io kept =
    jbind (jmod (\<lambda>s. s\<lparr>j_verified_checkpoints := length kept, j_checkpoint_sequence := j_last_sequence s,
      j_records_since_checkpoint := 0, j_last_checkpoint_ms := io_now io 2\<rparr>)) (\<lambda>_.
    case kept of [(safe, n1), (q, n2)] \<Rightarrow> compact_segments io safe | _ \<Rightarrow> jpure ())"

definition lift_res :: "'a res \<Rightarrow> 'a jop" where
  "lift_res r s = (r, s)"

definition write_checkpoint :: "sha \<Rightarrow> writer_io \<Rightarrow> json_object \<Rightarrow> unit jop" where
  "write_checkpoint sha io snapshot s0 =
    (let s = s0\<lparr>j_checkpoint_nonce := j_checkpoint_nonce s0 + 1\<rparr>;
         document = checkpoint_document sha (j_last_sequence s) (j_last_digest s) (io_now io 0) snapshot;
         name = (j_last_sequence s, io_now io 1, j_checkpoint_nonce s);
         target = file_of document in
     jbind write_temporary (\<lambda>_.
     jbind (inject ''checkpoint_before_rename'') (\<lambda>_.
     jbind (atomic_op (\<lambda>d. d\<lparr>dk_checkpoints := AList.update name target (dk_checkpoints d)\<rparr>)) (\<lambda>_.
     jbind fsync_directory (\<lambda>_.
     jbind (inject ''checkpoint_after_rename'') (\<lambda>_.
     jbind (lift_res (read_checkpoint sha target)) (\<lambda>_.
     jbind (\<lambda>s. (readable_checkpoints sha (dk_checkpoints (j_disk s)), s)) (\<lambda>found.
       let checkpoints = sort found; surplus = length checkpoints - 2 in
       jbind (prune_checkpoints (map snd (take surplus checkpoints))) (\<lambda>_.
       after_checkpoint io (drop surplus checkpoints))))))))) s)"

section \<open>The writer thread\<close>

fun collect_batch :: "nat \<Rightarrow> nat \<Rightarrow> command list \<Rightarrow> append_item list \<times> command option \<times> command list" where
  "collect_batch (Suc room) (Suc arrivals) (AppendCommand t k p b # q) =
     (case collect_batch room arrivals q of (items, pend, rest) \<Rightarrow> ((t, k, p, b) # items, pend, rest))"
| "collect_batch (Suc room) (Suc arrivals) (c # q) = ([], Some c, q)"
| "collect_batch room arrivals q = ([], None, q)"

fun fail_command :: "py_error \<Rightarrow> command \<Rightarrow> nat \<times> reply" where
  "fail_command e (StopCommand t) = (t, Done)"
| "fail_command e (AppendCommand t k p b) = (t, Failed e)"
| "fail_command e (CheckpointCommand t snapshot) = (t, Failed e)"

definition post :: "(nat \<times> reply) list \<Rightarrow> journal \<Rightarrow> journal" where
  "post rs s = s\<lparr>j_replies := j_replies s @ rs\<rparr>"

definition normalized :: "py_error \<Rightarrow> py_error" where
  "normalized e = (if e = OSError then JournalUnavailable ''writer_failed'' else e)"

text \<open>The \<open>except\<close> branch: the commands in hand, the pending one and every queued one get an answer, and the thread ends.\<close>

definition writer_failed :: "writer_io \<Rightarrow> py_error \<Rightarrow> command list \<Rightarrow> journal \<Rightarrow> journal" where
  "writer_failed io error in_hand s =
    (let e = normalized error;
         orphans = in_hand @ (case j_pending s of None \<Rightarrow> [] | Some c \<Rightarrow> [c]) @ j_queue s;
         s1 = post (map (fail_command e) orphans) (s\<lparr>j_base_status := JS_RECOVERY_REQUIRED,
           j_reason := Some ''writer_failed'', j_pending := None, j_queue := []\<rparr>) in
     (snd (flush_and_close_segment io False s1))\<lparr>j_alive := False\<rparr>)"

definition next_command :: "journal \<Rightarrow> (command \<times> journal) option" where
  "next_command s =
    (case j_pending s of
       Some c \<Rightarrow> Some (c, s\<lparr>j_pending := None\<rparr>)
     | None \<Rightarrow> (case j_queue s of [] \<Rightarrow> None | c # q \<Rightarrow> Some (c, s\<lparr>j_queue := q\<rparr>)))"

definition run_stop :: "writer_io \<Rightarrow> nat \<Rightarrow> journal \<Rightarrow> journal" where
  "run_stop io t s =
    (case flush_and_close_segment io True s of
       (Inr _, s1) \<Rightarrow> (post [(t, Done)] s1)\<lparr>j_alive := False\<rparr>
     | (Inl e, s1) \<Rightarrow> s1\<lparr>j_alive := False\<rparr>)"

definition run_checkpoint :: "sha \<Rightarrow> writer_io \<Rightarrow> nat \<Rightarrow> json_object \<Rightarrow> journal \<Rightarrow> journal" where
  "run_checkpoint sha io t snapshot s =
    (case write_checkpoint sha io snapshot s of
       (Inr _, s1) \<Rightarrow> post [(t, Done)] s1
     | (Inl e, s1) \<Rightarrow> writer_failed io e [CheckpointCommand t snapshot] s1)"

definition run_batch :: "journal_config \<Rightarrow> sha \<Rightarrow> writer_io \<Rightarrow> append_item list \<Rightarrow> journal \<Rightarrow> journal" where
  "run_batch cfg sha io batch s =
    (case write_append_batch cfg sha io batch s of
       (Inr results, s1) \<Rightarrow> post (map (\<lambda>(t, r). (t, Stored r)) results) s1
     | (Inl e, s1) \<Rightarrow> writer_failed io e (map (\<lambda>(t, k, p, b). AppendCommand t k p b) batch) s1)"

text \<open>One round of \<open>_writer_loop\<close>; nothing happens when the thread has ended or waits for a command.\<close>

definition writer_step :: "journal_config \<Rightarrow> sha \<Rightarrow> writer_io \<Rightarrow> journal \<Rightarrow> journal" where
  "writer_step cfg sha io s0 =
    (if \<not> j_alive s0 then s0
     else case next_command (s0\<lparr>j_fault := io_fault io\<rparr>) of
       None \<Rightarrow> s0
     | Some (c, s) \<Rightarrow>
       (case c of
          StopCommand t \<Rightarrow> run_stop io t s
        | CheckpointCommand t snapshot \<Rightarrow> run_checkpoint sha io t snapshot s
        | AppendCommand t k p b \<Rightarrow>
          (case collect_batch (jc_max_group_records cfg - 1) (io_arrivals io) (j_queue s) of
             (items, pend, rest) \<Rightarrow>
               run_batch cfg sha io ((t, k, p, b) # items) (s\<lparr>j_pending := pend, j_queue := rest\<rparr>))))"

section \<open>The operations callers use\<close>

definition status_value :: "JournalStatus \<Rightarrow> string" where
  "status_value st = (case st of JS_HEALTHY \<Rightarrow> ''healthy'' | JS_ADMISSION_STOP \<Rightarrow> ''admission_stop''
     | JS_RECOVERY_REQUIRED \<Rightarrow> ''recovery_required'' | JS_CLOSED \<Rightarrow> ''closed'')"

definition accepts_commands :: "journal \<Rightarrow> unit res" where
  "accepts_commands s =
    (if j_closed s \<or> j_base_status s \<noteq> JS_HEALTHY
     then Inl (JournalUnavailable (case j_reason s of Some r \<Rightarrow> if r = '''' then status_value (j_base_status s) else r
       | None \<Rightarrow> status_value (j_base_status s)))
     else Inr ())"

definition put_nowait :: "(nat \<Rightarrow> command) \<Rightarrow> nat jop" where
  "put_nowait mk s =
    (if length (j_queue s) \<ge> QUEUE_CAPACITY then (Inl (JournalUnavailable ''writer_queue_full''), s)
     else (Inr (j_next_ticket s),
       s\<lparr>j_queue := j_queue s @ [mk (j_next_ticket s)], j_next_ticket := j_next_ticket s + 1\<rparr>))"

definition append_command :: "string \<Rightarrow> json_object \<Rightarrow> string option \<Rightarrow> nat jop" where
  "append_command kind payload boundary s =
    (case validate_payload kind payload of
       Inl e \<Rightarrow> (Inl e, s)
     | Inr p \<Rightarrow>
       (case accepts_commands s of
          Inl e \<Rightarrow> (Inl e, s)
        | Inr _ \<Rightarrow> put_nowait (\<lambda>t. AppendCommand t kind p boundary) s))"

definition checkpoint_command :: "json_object \<Rightarrow> nat jop" where
  "checkpoint_command snapshot s =
    (case validate_safe_value (JObj snapshot) 0 of
       Inl e \<Rightarrow> (Inl e, s)
     | Inr _ \<Rightarrow>
       (case accepts_commands s of
          Inl e \<Rightarrow> (Inl e, s)
        | Inr _ \<Rightarrow> put_nowait (\<lambda>t. CheckpointCommand t snapshot) s))"

text \<open>What the caller of \<open>_append\<close> gets once its command is done; \<open>None\<close> while it waits.\<close>

definition append_result :: "nat \<Rightarrow> journal \<Rightarrow> LogRecord res option" where
  "append_result t s =
    (case map_of (j_replies s) t of
       None \<Rightarrow> None
     | Some (Stored r) \<Rightarrow> Some (Inr r)
     | Some (Failed e) \<Rightarrow> Some (Inl (if e = OSError then JournalUnavailable ''writer_failed'' else e))
     | Some Done \<Rightarrow> Some (Inl (JournalUnavailable ''writer_stopped'')))"

definition checkpoint_due :: "journal_config \<Rightarrow> int \<Rightarrow> journal \<Rightarrow> bool" where
  "checkpoint_due cfg now_ms s \<longleftrightarrow> j_records_since_checkpoint s \<ge> jc_checkpoint_every_records cfg
     \<or> now_ms - j_last_checkpoint_ms s \<ge> jc_checkpoint_every_ms cfg"

definition records_until_checkpoint :: "journal_config \<Rightarrow> journal \<Rightarrow> int" where
  "records_until_checkpoint cfg s = max 0 (jc_checkpoint_every_records cfg - j_records_since_checkpoint s)"

definition maybe_checkpoint :: "journal_config \<Rightarrow> int \<Rightarrow> json_object \<Rightarrow> nat option jop" where
  "maybe_checkpoint cfg now_ms snapshot s =
    (if \<not> checkpoint_due cfg now_ms s then (Inr None, s)
     else (case checkpoint_command snapshot s of (r, s1) \<Rightarrow> (res_map Some r, s1)))"

definition force_checkpoint :: "json_object \<Rightarrow> nat jop" where
  "force_checkpoint snapshot = checkpoint_command snapshot"

definition put_stop :: "journal \<Rightarrow> journal" where
  "put_stop s = s\<lparr>j_queue := j_queue s @ [StopCommand (j_next_ticket s)], j_next_ticket := j_next_ticket s + 1\<rparr>"

definition enter_recovery_required :: "string \<Rightarrow> journal \<Rightarrow> journal" where
  "enter_recovery_required reason s =
    (if j_base_status s = JS_HEALTHY then put_stop s else s)
      \<lparr>j_base_status := JS_RECOVERY_REQUIRED, j_reason := Some reason\<rparr>"

definition close :: "journal \<Rightarrow> journal" where
  "close s =
    (if j_closed s then s
     else (if j_alive s \<and> j_base_status s = JS_HEALTHY then put_stop s else s)\<lparr>j_closed := True\<rparr>)"

definition disk_bytes :: "disk \<Rightarrow> int" where
  "disk_bytes d =
    int ((case dk_manifest d of None \<Rightarrow> 0 | Some f \<Rightarrow> fl_bytes f)
      + sum_list (map (\<lambda>(n, f). fl_bytes f) (dk_checkpoints d))
      + sum_list (map (\<lambda>(n, sg). segment_bytes sg) (dk_segments d))
      + sum_list (map snd (dk_foreign d)))"

definition stop_bytes :: "journal_config \<Rightarrow> int" where
  "stop_bytes cfg = jc_max_bytes cfg * 4 div 5"

definition admission_capacity_exhausted :: "journal_config \<Rightarrow> bool \<Rightarrow> disk \<Rightarrow> bool" where
  "admission_capacity_exhausted cfg disk_full d \<longleftrightarrow> disk_bytes d \<ge> stop_bytes cfg \<or> disk_full"

definition journal_status :: "journal_config \<Rightarrow> bool \<Rightarrow> journal \<Rightarrow> JournalStatus" where
  "journal_status cfg disk_full s =
    (if j_closed s then JS_CLOSED
     else if j_base_status s = JS_RECOVERY_REQUIRED then JS_RECOVERY_REQUIRED
     else if admission_capacity_exhausted cfg disk_full (j_disk s) then JS_ADMISSION_STOP
     else JS_HEALTHY)"

definition reserve_before_send :: "journal_config \<Rightarrow> bool \<Rightarrow> json_object \<Rightarrow> nat jop" where
  "reserve_before_send cfg disk_full payload s =
    (let st = journal_status cfg disk_full s in
     if st \<noteq> JS_HEALTHY then (Inl (JournalUnavailable (status_value st)), s)
     else if disk_bytes (j_disk s) + int (length (canonical (JObj payload))) + 512 > stop_bytes cfg
     then (Inl (JournalUnavailable (status_value JS_ADMISSION_STOP)), s)
     else append_command ''attempt_reserved'' payload (Some ''reservation'') s)"

section \<open>Construction\<close>

definition journal_of :: "string \<Rightarrow> int \<Rightarrow> JournalRecovery \<Rightarrow> disk \<Rightarrow> journal" where
  "journal_of journal_id now_ms rc d =
    \<lparr>j_journal_id = journal_id, j_base_status = jv_status rc, j_reason = jv_reason rc, j_closed = False,
     j_alive = (jv_status rc = JS_HEALTHY), j_segment_fd = None, j_segment_size = 0, j_segment_start = 0,
     j_last_sequence = jv_last_sequence rc, j_last_digest = jv_last_digest rc,
     j_checkpoint_sequence = jv_checkpoint_sequence rc, j_verified_checkpoints = jv_verified_checkpoints rc,
     j_records_since_checkpoint = jv_last_sequence rc - jv_checkpoint_sequence rc,
     j_last_checkpoint_ms = now_ms, j_checkpoint_nonce = 0, j_pending = None, j_queue = [],
     j_next_ticket = 0, j_replies = [], j_recovery = rc, j_disk = d, j_fault = None\<rparr>"

definition healthy_start :: JournalRecovery where
  "healthy_start = (failed_recovery '''')\<lparr>jv_status := JS_HEALTHY, jv_reason := None\<rparr>"

definition config_checks :: "journal_config \<Rightarrow> (bool \<times> string) list" where
  "config_checks cfg =
    [(\<not> (0 \<le> jc_group_commit_delay_ms cfg \<and> jc_group_commit_delay_ms cfg \<le> 2), ''group commit delay must be at most 2ms''),
     (\<not> (1 \<le> jc_max_group_records cfg \<and> jc_max_group_records cfg \<le> 256), ''group commit must contain at most 256 records''),
     (jc_checkpoint_every_records cfg < 1 \<or> jc_checkpoint_every_ms cfg < 1, ''checkpoint intervals must be positive''),
     (jc_segment_bytes cfg < 1 \<or> jc_max_bytes cfg < 1, ''journal byte limits must be positive'')]"

definition open_journal :: "journal_config \<Rightarrow> sha \<Rightarrow> (nat \<Rightarrow> bool) \<Rightarrow> string \<Rightarrow> int \<Rightarrow> disk \<Rightarrow> journal res" where
  "open_journal cfg sha late uid now_ms d =
    (case recover sha late (jc_max_replay_records cfg) uid d of
       (r, journal_id, d') \<Rightarrow> res_map (\<lambda>rc. journal_of journal_id now_ms rc d') r)"

definition AttemptJournal_new :: "journal_config \<Rightarrow> sha \<Rightarrow> (nat \<Rightarrow> bool) \<Rightarrow> string \<Rightarrow> int \<Rightarrow> bool \<Rightarrow> disk \<Rightarrow> journal res" where
  "AttemptJournal_new cfg sha late uid now_ms create d =
    res_bind (checks (config_checks cfg) ()) (\<lambda>_.
      if dk_manifest d \<noteq> None then open_journal cfg sha late uid now_ms d
      else if \<not> create then Inr (journal_of uid now_ms (failed_recovery ''missing_journal'') d)
      else if dk_checkpoints d \<noteq> [] \<or> dk_segments d \<noteq> [] \<or> dk_foreign d \<noteq> []
      then Inr (journal_of uid now_ms (failed_recovery ''missing_manifest'') d)
      else Inr (journal_of uid now_ms healthy_start
        (d\<lparr>dk_manifest := Some (file_of (manifest_document sha 0 ZERO_DIGEST uid))\<rparr>)))"

end
