(* ===== verification/Journal_Recovery.thy ===== *)
theory Journal_Recovery
  imports Journal
begin

text \<open>
  Recovery of the attempt journal reads back what the writer wrote. The documents the writer produces
  pass the validators of recovery; \<open>dlog\<close> says that a disk holds a history of records (a digest chain
  from the zero digest), and \<open>recover_dlog\<close> that recovery of such a disk returns exactly the records
  after its newest readable checkpoint, or reports that they exceed the replay bound.
\<close>

section \<open>Documents read back\<close>

definition canon :: "LogRecord \<Rightarrow> LogRecord" where
  "canon r = r\<lparr>lr_payload := sorted_object (lr_payload r)\<rparr>"

lemma record_body_sorted:
  "sorted_json (record_body (JInt q) kind (sorted_object p) prev) = sorted_json (record_body (JInt q) kind p prev)"
proof -
  have "sorted_json (JObj (sorted_object p)) = sorted_json (JObj p)"
    by (simp only: sorted_json_obj sorted_object_idem)
  then show ?thesis by (simp add: record_body_def del: sorted_json.simps(7)) (simp only: sorted_json.simps(7) list.map map_prod_simp)
qed

lemma digest_record_body [simp]:
  "digest sha (record_body (JInt q) kind (sorted_object p) prev) = digest sha (record_body (JInt q) kind p prev)"
  by (rule digest_cong) (rule record_body_sorted)

lemma decode_written:
  assumes p: "validate_payload kind p = Inr p" and q: "1 \<le> q"
  shows "decode_record sha (sorted_json (record_json (new_record sha q kind p prev)))
    = Inr (canon (new_record sha q kind p prev))"
proof -
  let ?r = "new_record sha q kind p prev"
  let ?kvs = "[(''sequence'', JInt (lr_sequence ?r)), (''kind'', JStr (lr_kind ?r)), (''payload'', JObj (lr_payload ?r)),
      (''previous_digest'', JStr (lr_previous_digest ?r)), (''digest'', JStr (lr_digest ?r))]"
  have wf: "dict_wf ?kvs" by simp
  have get: "map_of (sorted_object ?kvs) k = map_option sorted_json (map_of ?kvs k)" for k
    by (rule map_of_sorted_object [OF wf])
  have doc: "sorted_json (record_json ?r) = JObj (sorted_object ?kvs)"
    by (simp only: record_json_def sorted_json_obj)
  have keys: "set (map fst (sorted_object ?kvs)) = set [''sequence'', ''kind'', ''payload'', ''previous_digest'', ''digest'']"
    by (simp only: keys_sorted_object) simp
  show ?thesis
    unfolding decode_record_def doc JsonValue.case keys get json_get_def
    using q validate_payload_sorted [OF p]
    by (simp add: new_record_def canon_def sorted_json_obj del: sorted_json.simps(7))
qed

lemma validate_written_manifest:
  assumes "0 \<le> q" "SAFE_DIGEST dg" "SAFE_ID jid" "take 5 jid = ''boot_''"
  shows "validate_manifest sha (sorted_json (manifest_document sha q dg jid)) = Inr (q, dg, jid)"
proof -
  let ?b = "manifest_body (JInt json_version) (JStr jid) (JInt q) (JStr dg)"
  let ?kvs = "?b @ [(''digest'', JStr (digest sha (JObj ?b)))]"
  have wf: "dict_wf ?kvs" by (simp add: manifest_body_def)
  have get: "map_of (sorted_object ?kvs) k = map_option sorted_json (map_of ?kvs k)" for k
    by (rule map_of_sorted_object [OF wf])
  have doc: "sorted_json (manifest_document sha q dg jid) = JObj (sorted_object ?kvs)"
    by (simp only: manifest_document_def Let_def sorted_json_obj)
  have keys: "set (map fst (sorted_object ?kvs)) = set [''version'', ''journal_id'', ''last_sequence'', ''last_digest'', ''digest'']"
    by (simp only: keys_sorted_object) (simp add: manifest_body_def)
  show ?thesis
    unfolding validate_manifest_def doc JsonValue.case keys get json_get_def
    using assms by (simp add: manifest_body_def json_version_def)
qed

lemma parse_written_checkpoint:
  assumes "0 \<le> q" "SAFE_DIGEST dg" "validate_safe_value (JObj snapshot) 0 = Inr ()"
  shows "parse_checkpoint sha (sorted_json (checkpoint_document sha q dg at snapshot)) = Inr (q, dg, sorted_object snapshot)"
proof -
  let ?b = "checkpoint_body q dg at snapshot"
  let ?kvs = "?b @ [(''digest'', JStr (digest sha (JObj ?b)))]"
  have wf: "dict_wf ?kvs" by (simp add: checkpoint_body_def)
  have get: "map_of (sorted_object ?kvs) k = map_option sorted_json (map_of ?kvs k)" for k
    by (rule map_of_sorted_object [OF wf])
  have doc: "sorted_json (checkpoint_document sha q dg at snapshot) = JObj (sorted_object ?kvs)"
    by (simp only: checkpoint_document_def Let_def sorted_json_obj)
  have keys: "set (map fst (sorted_object ?kvs))
      = set [''version'', ''sequence'', ''last_record_digest'', ''created_at_ms'', ''snapshot'', ''digest'']"
    by (simp only: keys_sorted_object) (simp add: checkpoint_body_def)
  have "filter (\<lambda>p. fst p \<noteq> ''digest'') ?kvs = ?b" by (simp add: checkpoint_body_def)
  then have body: "filter (\<lambda>p. fst p \<noteq> ''digest'') (sorted_object ?kvs) = sorted_object ?b"
    using filter_sorted_object [of "\<lambda>k. k \<noteq> ''digest''" ?kvs] by (simp only:)
  have dg: "digest sha (JObj (sorted_object ?b)) = digest sha (JObj ?b)"
    by (rule digest_cong) (simp only: sorted_json_obj sorted_object_idem)
  have "is_ok (validate_safe_value (JObj (sorted_object snapshot)) 0)"
    using validate_sorted [of "JObj snapshot" 0] assms(3) by (simp only: sorted_json_obj is_ok.simps)
  then have snap: "validate_safe_value (JObj (sorted_object snapshot)) 0 = Inr ()"
    by (simp only: is_ok_iff) auto
  show ?thesis
    unfolding parse_checkpoint_def doc JsonValue.case keys get json_get_def body dg
    using assms snap by (simp add: checkpoint_body_def json_version_def sorted_json_obj del: sorted_json.simps(7) validate_safe_value.simps)
qed


lemma read_written_checkpoint:
  assumes "0 \<le> q" "SAFE_DIGEST dg" "validate_safe_value (JObj snapshot) 0 = Inr ()"
  shows "read_checkpoint sha (file_of (checkpoint_document sha q dg at snapshot)) = Inr (q, dg, sorted_object snapshot)"
  by (simp add: read_checkpoint_def json_loads_def file_of_def parse_written_checkpoint [OF assms])

section \<open>The chain of records\<close>

primrec chain :: "sha \<Rightarrow> int \<Rightarrow> string \<Rightarrow> LogRecord list \<Rightarrow> bool" where
  "chain sha q prev [] = True"
| "chain sha q prev (r # rs) \<longleftrightarrow> lr_sequence r = q \<and> lr_previous_digest r = prev
     \<and> decode_record sha (sorted_json (record_json r)) = Inr r \<and> chain sha (q + 1) (lr_digest r) rs"

definition tip :: "string \<Rightarrow> LogRecord list \<Rightarrow> string" where
  "tip prev rs = (if rs = [] then prev else lr_digest (last rs))"

definition tip_at :: "LogRecord list \<Rightarrow> nat \<Rightarrow> string" where
  "tip_at hist n = tip ZERO_DIGEST (take n hist)"

lemma tip_Nil [simp]: "tip prev [] = prev"
  by (simp add: tip_def)

lemma tip_Cons [simp]: "tip prev (r # rs) = tip (lr_digest r) rs"
  by (simp add: tip_def)

lemma tip_append: "tip prev (xs @ ys) = tip (tip prev xs) ys"
  by (simp add: tip_def)

lemma chain_append: "chain sha q prev (xs @ ys) \<longleftrightarrow> chain sha q prev xs \<and> chain sha (q + int (length xs)) (tip prev xs) ys"
proof (induction xs arbitrary: q prev)
  case (Cons x xs)
  show ?case by (simp add: Cons.IH algebra_simps)
qed simp

lemma chain_nth:
  assumes "chain sha 1 ZERO_DIGEST hist" "i < length hist"
  shows "lr_sequence (hist ! i) = int i + 1 \<and> lr_previous_digest (hist ! i) = tip_at hist i
    \<and> decode_record sha (sorted_json (record_json (hist ! i))) = Inr (hist ! i)"
proof -
  have split: "take i hist @ hist ! i # drop (Suc i) hist = hist" using assms(2) by (rule id_take_nth_drop [symmetric])
  have "chain sha 1 ZERO_DIGEST (take i hist @ hist ! i # drop (Suc i) hist)" using assms(1) split by simp
  then show ?thesis using assms(2) by (simp add: chain_append tip_at_def min_def)
qed

lemma tip_at_Suc: "i < length hist \<Longrightarrow> tip_at hist (Suc i) = lr_digest (hist ! i)"
  by (simp add: tip_at_def take_Suc_conv_app_nth tip_append)

lemma tip_at_append [simp]: "n \<le> length hist \<Longrightarrow> tip_at (hist @ ext) n = tip_at hist n"
  by (simp add: tip_at_def)

lemma tip_at_0 [simp]: "tip_at hist 0 = ZERO_DIGEST"
  by (simp add: tip_at_def)

section \<open>What the files say\<close>

definition holds :: "LogRecord \<Rightarrow> seg_line \<Rightarrow> bool" where
  "holds r l \<longleftrightarrow> sl_json l = Some (sorted_json (record_json r))"

definition torn :: "seg_line \<Rightarrow> bool" where
  "torn l \<longleftrightarrow> sl_json l = None \<and> \<not> sl_newline l"

abbreviation lines_hold :: "LogRecord list \<Rightarrow> seg_line list \<Rightarrow> bool" where
  "lines_hold \<equiv> list_all2 holds"

definition tail_holds :: "LogRecord list \<Rightarrow> seg_line list \<Rightarrow> bool" where
  "tail_holds rs ls \<longleftrightarrow> lines_hold rs ls \<or> (\<exists>ls0 l. ls = ls0 @ [l] \<and> torn l \<and> lines_hold rs ls0)"

inductive fulls :: "int \<Rightarrow> LogRecord list \<Rightarrow> (int \<times> segment) list \<Rightarrow> bool" where
  none: "fulls q [] []"
| more: "sg_lines sg \<noteq> [] \<Longrightarrow> lines_hold rs1 (sg_lines sg) \<Longrightarrow> fulls (q + int (length rs1)) rs2 sgs
    \<Longrightarrow> fulls q (rs1 @ rs2) ((q, sg) # sgs)"

inductive_cases fulls_ConsE: "fulls q rs (s # sgs)"
inductive_cases fulls_NilE: "fulls q rs []"

definition log_on :: "int \<Rightarrow> LogRecord list \<Rightarrow> (int \<times> segment) list \<Rightarrow> bool" where
  "log_on q rs sgs \<longleftrightarrow> sgs = [] \<and> rs = [] \<or>
    (\<exists>pre sg rs1 rs2. sgs = pre @ [(q + int (length rs1), sg)] \<and> rs = rs1 @ rs2 \<and> fulls q rs1 pre
      \<and> tail_holds rs2 (sg_lines sg))"

definition cp_fits :: "sha \<Rightarrow> LogRecord list \<Rightarrow> (int \<times> json_object) set \<Rightarrow> nat \<Rightarrow> json_file \<Rightarrow> bool" where
  "cp_fits sha hist snaps m f =
    (case read_checkpoint sha f of
       Inr (q, dg, snapshot) \<Rightarrow> int m \<le> q \<and> q \<le> int (length hist) \<and> dg = tip_at hist (nat q) \<and> (q, snapshot) \<in> snaps
     | Inl e \<Rightarrow> (\<exists>msg. e = ValueError msg))"

definition manifest_fits :: "sha \<Rightarrow> LogRecord list \<Rightarrow> int \<Rightarrow> json_file option \<Rightarrow> bool" where
  "manifest_fits sha hist a mf \<longleftrightarrow> (\<exists>f v q dg jid. mf = Some f \<and> fl_json f = Some v
     \<and> validate_manifest sha v = Inr (q, dg, jid) \<and> a \<le> q \<and> q \<le> int (length hist) \<and> dg = tip_at hist (nat q))"

text \<open>
  \<open>dlog sha d hist snaps a m\<close>: the disk holds the records of \<open>hist\<close> after the first \<open>m\<close>; every readable
  checkpoint covers those first \<open>m\<close>, agrees with the chain and holds a snapshot of \<open>snaps\<close>; the manifest
  is at least at sequence \<open>a\<close>.
\<close>

definition dlog :: "sha \<Rightarrow> disk \<Rightarrow> LogRecord list \<Rightarrow> (int \<times> json_object) set \<Rightarrow> int \<Rightarrow> nat \<Rightarrow> bool" where
  "dlog sha d hist snaps a m \<longleftrightarrow> m \<le> length hist \<and> chain sha 1 ZERO_DIGEST hist
     \<and> log_on (int m + 1) (drop m hist) (dk_segments d)
     \<and> (\<forall>f \<in> snd ` set (dk_checkpoints d). cp_fits sha hist snaps m f)
     \<and> dict_wf (dk_checkpoints d)
     \<and> (dk_checkpoints d = [] \<and> m = 0 \<or> (\<exists>f \<in> snd ` set (dk_checkpoints d). is_ok (read_checkpoint sha f)))
     \<and> manifest_fits sha hist a (dk_manifest d)"

section \<open>Scanning the segments\<close>

definition scan_at :: "LogRecord list \<Rightarrow> nat \<Rightarrow> nat \<Rightarrow> nat \<Rightarrow> scan" where
  "scan_at hist c p n = \<lparr>sc_expected = int (max c p) + 1, sc_previous = tip_at hist (max c p),
     sc_records = drop c (take p hist), sc_ticks = n\<rparr>"

definition never :: "nat \<Rightarrow> bool" where
  "never n = False"

lemma deadline_never [simp]: "check_recovery_deadline never n = Inr (n + 1)"
  by (simp add: check_recovery_deadline_def never_def)

lemma accept_record_at:
  assumes "chain sha 1 ZERO_DIGEST hist" "p < length hist" "c \<le> length hist"
  shows "accept_record mx (int c) (hist ! p) (scan_at hist c p n) =
    (if p + 1 - c \<le> mx then Inr (scan_at hist c (Suc p) n) else Inl (TimeoutError ''replay_record_bound_exceeded''))"
proof (cases "p < c")
  case True
  then have "max c (Suc p) = c" "max c p = c" by simp_all
  then show ?thesis using True chain_nth [OF assms(1,2)] by (simp add: accept_record_def scan_at_def)
next
  case False
  have "drop c (take (Suc p) hist) = drop c (take p hist) @ [hist ! p]"
    using False assms(2) by (simp add: take_Suc_conv_app_nth)
  then show ?thesis using False assms chain_nth [OF assms(1,2)]
    by (auto simp: accept_record_def scan_at_def max_def tip_at_Suc)
qed

lemma scan_lines_hold:
  assumes "chain sha 1 ZERO_DIGEST hist" "c \<le> length hist"
    and "lines_hold rs ls" "rs = take (length rs) (drop p hist)" "p - c \<le> mx"
  shows "scan_lines sha never mx (int c) newest acc (ls @ ms) (scan_at hist c p n) =
    (if p + length rs - c \<le> mx
     then scan_lines sha never mx (int c) newest (acc @ ls) ms (scan_at hist c (p + length rs) (n + length rs))
     else (Inl (TimeoutError ''replay_record_bound_exceeded''), None))"
  using assms(3-5)
proof (induction arbitrary: p acc n rule: list_all2_induct)
  case (Cons r rs l ls)
  from Cons.prems(1) have p: "p < length hist" by (cases "p < length hist") auto
  with Cons.prems(1) have r: "r = hist ! p" and rs: "rs = take (length rs) (drop (Suc p) hist)"
    by (simp_all add: Cons_nth_drop_Suc [symmetric] del: Cons_nth_drop_Suc)
  have "decode_record sha (sorted_json (record_json r)) = Inr r" using chain_nth [OF assms(1) p] r by simp
  moreover have "(scan_at hist c p n)\<lparr>sc_ticks := n + 1\<rparr> = scan_at hist c p (n + 1)" by (simp add: scan_at_def)
  moreover have "sc_ticks (scan_at hist c p n) = n" by (simp add: scan_at_def)
  ultimately show ?case using Cons.hyps(1) Cons.IH [OF rs, of "acc @ [l]" "n + 1"] r
    by (cases "Suc p - c \<le> mx") (auto simp: holds_def accept_record_at [OF assms(1) p assms(2)])
qed (simp add: scan_at_def)


definition trim_tail :: "(int \<times> segment) list \<Rightarrow> (int \<times> segment) list" where
  "trim_tail sgs =
    (if sgs \<noteq> [] \<and> sg_lines (snd (last sgs)) \<noteq> [] \<and> torn (last (sg_lines (snd (last sgs))))
     then butlast sgs @ [(fst (last sgs), \<lparr>sg_lines = butlast (sg_lines (snd (last sgs))),
       sg_synced = length (sg_lines (snd (last sgs))) - 1\<rparr>)]
     else sgs)"

lemma holds_not_torn: "holds r l \<Longrightarrow> \<not> torn l"
  by (simp add: holds_def torn_def)

lemma lines_hold_not_torn: "lines_hold rs ls \<Longrightarrow> ls \<noteq> [] \<Longrightarrow> \<not> torn (last ls)"
  by (cases ls rule: rev_cases) (auto simp: list_all2_append2 list_all2_Cons2 holds_not_torn)

lemma fulls_starts:
  "fulls q rs pre \<Longrightarrow> sorted_wrt (<) (map fst pre) \<and> (\<forall>x \<in> set pre. q \<le> fst x \<and> fst x < q + int (length rs))"
proof (induction rule: fulls.induct)
  case (more sg rs1 q rs2 sgs)
  have "0 < length rs1" using more.hyps(1,2) by (auto dest: list_all2_lengthD)
  then have pos: "0 < int (length rs1)" by simp
  have "q < fst x \<and> q \<le> fst x \<and> fst x < q + int (length rs1 + length rs2)" if "x \<in> set sgs" for x
  proof -
    have "q + int (length rs1) \<le> fst x" "fst x < q + int (length rs1) + int (length rs2)" using more.IH that by auto
    with pos show ?thesis by linarith
  qed
  moreover have "q < q + int (length (rs1 @ rs2))" using pos unfolding length_append of_nat_add by linarith
  ultimately show ?case using more.IH by simp
qed simp

lemma log_on_sorted: "log_on q rs sgs \<Longrightarrow> sorted_wrt (<) (map fst sgs)"
  by (auto simp: log_on_def sorted_wrt_append dest!: fulls_starts)

lemma log_on_distinct: "log_on q rs sgs \<Longrightarrow> dict_wf sgs"
  by (auto dest!: log_on_sorted simp: strict_sorted_iff)

lemma log_on_sort [simp]: "log_on q rs sgs \<Longrightarrow> sort_key fst sgs = sgs"
  by (auto dest!: log_on_sorted simp: strict_sorted_iff intro: sort_key_sorted)

lemma update_last: "start \<notin> set (map fst pre) \<Longrightarrow> AList.update start v (pre @ [(start, w)]) = pre @ [(start, v)]"
  by (induction pre) auto

lemma scan_fulls:
  assumes "chain sha 1 ZERO_DIGEST hist" "c \<le> length hist"
    and "fulls q rs pre" "rs = take (length rs) (drop p hist)" "p - c \<le> mx" "sgs \<noteq> []"
  shows "\<exists>n'. scan_segments sha never mx (int c) (pre @ sgs) (scan_at hist c p n) d =
    (if p + length rs - c \<le> mx then scan_segments sha never mx (int c) sgs (scan_at hist c (p + length rs) n') d
     else (Inl (TimeoutError ''replay_record_bound_exceeded''), d))"
  using assms(3-5)
proof (induction arbitrary: p n rule: fulls.induct)
  case (none q)
  then show ?case by (auto simp: exI [of _ n])
next
  case (more sg rs1 q rs2 pre)
  have rs1: "rs1 = take (length rs1) (drop p hist)" and rs2: "rs2 = take (length rs2) (drop (p + length rs1) hist)"
    using more.prems(1) by (metis append_eq_conv_conj length_append take_add drop_drop add.commute append_take_drop_id
      take_drop append_same_eq same_append_eq)+
  have tick: "(scan_at hist c p n)\<lparr>sc_ticks := n + 1\<rparr> = scan_at hist c p (n + 1)" "sc_ticks (scan_at hist c p n) = n"
    by (simp_all add: scan_at_def)
  have lines: "scan_lines sha never mx (int c) False [] (sg_lines sg) (scan_at hist c p (n + 1)) =
    (if p + length rs1 - c \<le> mx then (Inr (scan_at hist c (p + length rs1) (n + 1 + length rs1)), None)
     else (Inl (TimeoutError ''replay_record_bound_exceeded''), None))"
    using scan_lines_hold [OF assms(1,2) more.hyps(2) rs1 more.prems(2), of False "[]" "[]" "n + 1"] by simp
  show ?case
  proof (cases "p + length rs1 - c \<le> mx")
    case True
    show ?thesis using more.IH [OF rs2 True, of "n + 1 + length rs1"] tick lines True assms(6) by (auto simp: add.assoc)
  next
    case False
    then show ?thesis using tick lines assms(6) by auto
  qed
qed

lemma scan_log:
  assumes ch: "chain sha 1 ZERO_DIGEST hist" and c: "c \<le> length hist" and p: "p \<le> c"
    and log: "log_on (int p + 1) (drop p hist) (dk_segments d)"
  shows "\<exists>n'. scan_segments sha never mx (int c) (dk_segments d) (scan_at hist c p n) d =
    (if length hist - c \<le> mx then (Inr (scan_at hist c (length hist) n'), d\<lparr>dk_segments := trim_tail (dk_segments d)\<rparr>)
     else (Inl (TimeoutError ''replay_record_bound_exceeded''), d))"
  using log unfolding log_on_def
proof (elim disjE conjE exE)
  assume "dk_segments d = []" "drop p hist = []"
  moreover from this have "p = length hist" "c = length hist" using p c by auto
  ultimately show ?thesis using p c by (intro exI [of _ n]) (auto simp: trim_tail_def)
next
  fix pre :: "(int \<times> segment) list" and sg :: segment and rs1 rs2 :: "LogRecord list"
  let ?st = "int p + 1 + int (length rs1)"
  assume sgs: "dk_segments d = pre @ [(?st, sg)]" and rs: "drop p hist = rs1 @ rs2"
    and pre: "fulls (int p + 1) rs1 pre" and tail: "tail_holds rs2 (sg_lines sg)"
  have rs1: "rs1 = take (length rs1) (drop p hist)" using rs by simp
  have "drop (length rs1) (drop p hist) = rs2" using rs by simp
  then have rs2: "rs2 = take (length rs2) (drop (p + length rs1) hist)" by (simp add: add.commute)
  have len: "p + length rs1 + length rs2 = length hist" using arg_cong [OF rs, of length] p c by simp
  have fresh: "?st \<notin> set (map fst pre)" using fulls_starts [OF pre] by auto
  obtain n1 where n1: "scan_segments sha never mx (int c) (dk_segments d) (scan_at hist c p n) d =
    (if p + length rs1 - c \<le> mx then scan_segments sha never mx (int c) [(?st, sg)] (scan_at hist c (p + length rs1) n1) d
     else (Inl (TimeoutError ''replay_record_bound_exceeded''), d))"
    using scan_fulls [OF ch c pre rs1, of mx "[(?st, sg)]" n d] sgs p by auto
  have tick: "(scan_at hist c (p + length rs1) n1)\<lparr>sc_ticks := n1 + 1\<rparr> = scan_at hist c (p + length rs1) (n1 + 1)"
      "sc_ticks (scan_at hist c (p + length rs1) n1) = n1"
    by (simp_all add: scan_at_def)
  let ?over = "(Inl (TimeoutError ''replay_record_bound_exceeded'') :: scan res)"
  show ?thesis
  proof (cases "p + length rs1 - c \<le> mx")
    case over: False
    then show ?thesis using n1 len by auto
  next
    case room: True
    show ?thesis
    proof (cases "lines_hold rs2 (sg_lines sg)")
      case True
      have "trim_tail (dk_segments d) = dk_segments d" using lines_hold_not_torn [OF True] by (auto simp: trim_tail_def sgs)
      then show ?thesis
        using n1 room scan_lines_hold [OF ch c True rs2 room, of True "[]" "[]" "n1 + 1"] tick len
        by (intro exI [of _ "n1 + 1 + length rs2"]) auto
    next
      case False
      then obtain ls0 l where l: "sg_lines sg = ls0 @ [l]" "torn l" "lines_hold rs2 ls0" using tail by (auto simp: tail_holds_def)
      have trim: "trim_tail (dk_segments d) = pre @ [(?st, \<lparr>sg_lines = ls0, sg_synced = length ls0\<rparr>)]"
        by (simp add: trim_tail_def sgs l)
      have upd: "AList.update ?st v (dk_segments d) = pre @ [(?st, v)]" for v
        using update_last [OF fresh] by (simp add: sgs)
      have tick': "sc_ticks (scan_at hist c q k) = k" "(scan_at hist c q k)\<lparr>sc_ticks := j\<rparr> = scan_at hist c q j" for q k j
        by (simp_all add: scan_at_def)
      have one: "scan_lines sha never mx (int c) True ls0 [l] (scan_at hist c (p + length rs1 + length rs2) (n1 + 1 + length rs2))
        = (Inr (scan_at hist c (length hist) (n1 + 2 + length rs2)), Some ls0)"
        using l(2) len by (simp add: torn_def tick')
      show ?thesis
        using n1 room scan_lines_hold [OF ch c l(3) rs2 room, of True "[]" "[l]" "n1 + 1"] tick len one trim upd l(1)
        by (intro exI [of _ "n1 + 2 + length rs2"]) auto
    qed
  qed
qed


section \<open>Recovery of a well-formed disk\<close>

definition valid_entry :: "sha \<Rightarrow> checkpoint_name \<times> json_file \<Rightarrow> checkpoint_entry option" where
  "valid_entry sha p = (case read_checkpoint sha (snd p) of
     Inl e \<Rightarrow> None | Inr (q, dg, snapshot) \<Rightarrow> Some (q, dg, snapshot, fst p))"

lemma valid_entry_Some: "valid_entry sha p = Some c \<longleftrightarrow>
  (\<exists>q dg snapshot. read_checkpoint sha (snd p) = Inr (q, dg, snapshot) \<and> c = (q, dg, snapshot, fst p))"
  by (auto simp: valid_entry_def split: sum.splits)

lemma read_checkpoints_fit:
  "(\<forall>f \<in> snd ` set fs. cp_fits sha hist snaps m f) \<Longrightarrow>
    read_checkpoints sha never n fs = Inr (List.map_filter (valid_entry sha) fs, n + length fs)"
proof (induction fs arbitrary: n)
  case (Cons p fs)
  obtain name f where p: "p = (name, f)" by (cases p)
  show ?case using Cons p
    by (cases "read_checkpoint sha f") (auto simp: cp_fits_def valid_entry_def map_filter_simps split: prod.splits)
qed (simp add: map_filter_simps)

lemma last_sort_key_max: "x \<in> set xs \<Longrightarrow> k x \<le> k (last (sort_key k xs))"
proof -
  assume x: "x \<in> set xs"
  let ?s = "sort_key k xs"
  have s: "sorted (map k ?s)" and m: "x \<in> set ?s" using x by simp_all
  obtain i where i: "i < length ?s" "?s ! i = x" using m unfolding in_set_conv_nth by blast
  have "k (?s ! i) \<le> k (?s ! (length ?s - 1))"
    using sorted_nth_mono [OF s, of i "length ?s - 1"] i(1) by simp
  then show ?thesis using i m by (metis last_conv_nth list.size(3) not_less_zero)
qed

definition recovered :: "LogRecord list \<Rightarrow> nat \<Rightarrow> json_object option \<Rightarrow> nat \<Rightarrow> JournalRecovery" where
  "recovered hist c cp k =
    \<lparr>jv_status = JS_HEALTHY, jv_reason = None, jv_checkpoint = cp, jv_records = drop c hist,
     jv_checkpoint_sequence = int c, jv_last_sequence = int (length hist), jv_last_digest = tip ZERO_DIGEST hist,
     jv_replayed_records = length hist - c, jv_verified_checkpoints = k\<rparr>"

definition covered_by :: "sha \<Rightarrow> disk \<Rightarrow> (int \<times> json_object) set \<Rightarrow> nat \<Rightarrow> json_object option \<Rightarrow> bool" where
  "covered_by sha d snaps c cp \<longleftrightarrow>
    (cp = None \<and> c = 0 \<and> dk_checkpoints d = [] \<or> (\<exists>snapshot. cp = Some snapshot \<and> (int c, snapshot) \<in> snaps))
    \<and> (\<forall>f \<in> snd ` set (dk_checkpoints d). \<forall>q dg sn. read_checkpoint sha f = Inr (q, dg, sn) \<longrightarrow> q \<le> int c)"

lemma newest_checkpoint_fits:
  assumes log: "dlog sha d hist snaps a m"
    and cs: "cs = sort_key checkpoint_order (List.map_filter (valid_entry sha) (sort_key fst (dk_checkpoints d)))"
  shows "\<exists>c cp. newest_checkpoint cs = (int c, tip_at hist c, cp) \<and> m \<le> c \<and> c \<le> length hist
    \<and> covered_by sha d snaps c cp \<and> \<not> (dk_checkpoints d \<noteq> [] \<and> cs = [])"
proof (cases "dk_checkpoints d = []")
  case True
  then show ?thesis using log by (auto simp: cs newest_checkpoint_def dlog_def covered_by_def map_filter_simps)
next
  case False
  have mem: "set cs = {e. \<exists>p \<in> set (dk_checkpoints d). valid_entry sha p = Some e}"
    by (force simp: cs List.map_filter_def)
  obtain f0 where f0: "f0 \<in> snd ` set (dk_checkpoints d)" "is_ok (read_checkpoint sha f0)"
    using log False by (auto simp: dlog_def)
  then have ne: "cs \<noteq> []" using mem by (fastforce simp: valid_entry_Some is_ok_iff)
  then have "last cs \<in> set cs" by simp
  then obtain p where p: "p \<in> set (dk_checkpoints d)" "valid_entry sha p = Some (last cs)" using mem by auto
  then obtain q dg sn where e: "read_checkpoint sha (snd p) = Inr (q, dg, sn)" "last cs = (q, dg, sn, fst p)"
    by (auto simp: valid_entry_Some)
  have fits: "int m \<le> q" "q \<le> int (length hist)" "dg = tip_at hist (nat q)" "(q, sn) \<in> snaps"
    using log p(1) e(1) by (auto simp: dlog_def cp_fits_def dest!: bspec)
  have "q' \<le> q" if f: "f \<in> snd ` set (dk_checkpoints d)" and "read_checkpoint sha f = Inr (q', dg', sn')" for f q' dg' sn'
  proof -
    obtain p' where p': "p' \<in> set (dk_checkpoints d)" "f = snd p'" using f by (rule imageE)
    then have "valid_entry sha p' = Some (q', dg', sn', fst p')" using that(2) by (simp add: valid_entry_def)
    with p'(1) have "(q', dg', sn', fst p') \<in> set cs" unfolding mem by blast
    then have "checkpoint_order (q', dg', sn', fst p') \<le> checkpoint_order (last cs)"
      by (simp add: cs last_sort_key_max)
    then show ?thesis using e(2) by (auto simp: checkpoint_order_def)
  qed
  then show ?thesis using fits ne e(2)
    by (intro exI [of _ "nat q"] exI [of _ "Some sn"]) (auto simp: newest_checkpoint_def covered_by_def)
qed

lemma recover_dlog:
  assumes log: "dlog sha d hist snaps a m"
  shows "\<exists>c cp k jid. m \<le> c \<and> c \<le> length hist \<and> covered_by sha d snaps c cp
    \<and> (\<exists>f q dg. dk_manifest d = Some f \<and> res_bind (json_loads (fl_json f)) (validate_manifest sha) = Inr (q, dg, jid))
    \<and> recover sha never mx uid d =
      (if length hist - c \<le> mx then (Inr (recovered hist c cp k), jid, d\<lparr>dk_segments := trim_tail (dk_segments d)\<rparr>)
       else (Inr (failed_recovery ''replay_record_bound_exceeded''), jid, d))"
proof -
  let ?cs = "sort_key checkpoint_order (List.map_filter (valid_entry sha) (sort_key fst (dk_checkpoints d)))"
  obtain c cp where c: "newest_checkpoint ?cs = (int c, tip_at hist c, cp)" "m \<le> c" "c \<le> length hist"
    "covered_by sha d snaps c cp" and some: "\<not> (dk_checkpoints d \<noteq> [] \<and> ?cs = [])"
    using newest_checkpoint_fits [OF log refl] by metis
  obtain f v q dg jid where mf: "dk_manifest d = Some f" "fl_json f = Some v" "validate_manifest sha v = Inr (q, dg, jid)"
    "q \<le> int (length hist)" "dg = tip_at hist (nat q)"
    using log by (auto simp: dlog_def manifest_fits_def)
  have cps: "read_checkpoints sha never 0 (sort_key fst (dk_checkpoints d))
      = Inr (List.map_filter (valid_entry sha) (sort_key fst (dk_checkpoints d)), length (dk_checkpoints d))"
    using read_checkpoints_fit [of "sort_key fst (dk_checkpoints d)" sha hist snaps m 0] log by (simp add: dlog_def)
  have on: "log_on (int m + 1) (drop m hist) (dk_segments d)" and ch: "chain sha 1 ZERO_DIGEST hist"
    using log by (simp_all add: dlog_def)
  obtain n' where scan: "scan_segments sha never mx (int c) (dk_segments d) (scan_at hist c m (length (dk_checkpoints d))) d =
    (if length hist - c \<le> mx then (Inr (scan_at hist c (length hist) n'), d\<lparr>dk_segments := trim_tail (dk_segments d)\<rparr>)
     else (Inl (TimeoutError ''replay_record_bound_exceeded''), d))"
    using scan_log [OF ch c(3,2) on] by blast
  have start: "\<lparr>sc_expected = int c + 1, sc_previous = tip_at hist c, sc_records = [], sc_ticks = length (dk_checkpoints d)\<rparr>
      = scan_at hist c m (length (dk_checkpoints d))"
    using c(2) by (simp add: scan_at_def max_def)
  have high: "manifest_high_water q dg (scan_at hist c (length hist) n') = Inr ()"
    using mf(4,5) c(3) by (auto simp: manifest_high_water_def scan_at_def Let_def max_def)
  have fin: "sc_records (scan_at hist c (length hist) n') = drop c hist"
      "sc_expected (scan_at hist c (length hist) n') - 1 = int (length hist)"
      "sc_previous (scan_at hist c (length hist) n') = tip ZERO_DIGEST hist"
    using c(3) by (simp_all add: scan_at_def max_def tip_at_def)
  have body: "recover_body sha never mx d q dg = (if length hist - c \<le> mx
      then (Inr (recovered hist c cp (min 2 (length ?cs))), d\<lparr>dk_segments := trim_tail (dk_segments d)\<rparr>)
      else (Inl (TimeoutError ''replay_record_bound_exceeded''), d))"
    using some by (simp add: recover_body_def cps c(1) Let_def log_on_sort [OF on] start scan high fin recovered_def
      del: length_sort)
  have "recover sha never mx uid d =
      (if length hist - c \<le> mx then (Inr (recovered hist c cp (min 2 (length ?cs))), jid, d\<lparr>dk_segments := trim_tail (dk_segments d)\<rparr>)
       else (Inr (failed_recovery ''replay_record_bound_exceeded''), jid, d))"
    by (simp add: recover_def mf(1-3) json_loads_def body)
  then show ?thesis using c mf(1-3) by (auto simp: json_loads_def)
qed

end
