(* ===== verification/Journal_Writer.thy ===== *)
theory Journal_Writer
  imports Journal_Recovery
begin

text \<open>
  The writer of the attempt journal keeps the history on disk. A triple \<open>jhoare P m Q E\<close> says what a
  call that may fail guarantees when it returns and when it raises. Each step of the writer starts in a
  state that is \<open>ready\<close> (the disk holds the history \<open>hist\<close> and the writer's fields agree with it) and
  ends ready for the longer history, or, when any call fails at any point, in a state whose disk still
  holds an extension of the history.
\<close>

section \<open>Triples for calls that may fail\<close>

definition jhoare :: "(journal \<Rightarrow> bool) \<Rightarrow> 'a jop \<Rightarrow> ('a \<Rightarrow> journal \<Rightarrow> bool) \<Rightarrow> (journal \<Rightarrow> bool) \<Rightarrow> bool" where
  "jhoare P m Q E \<longleftrightarrow> (\<forall>s. P s \<longrightarrow> (case m s of (Inl e, s') \<Rightarrow> E s' | (Inr x, s') \<Rightarrow> Q x s'))"

lemma jhoareI: "(\<And>s. P s \<Longrightarrow> case m s of (Inl e, s') \<Rightarrow> E s' | (Inr x, s') \<Rightarrow> Q x s') \<Longrightarrow> jhoare P m Q E"
  by (simp add: jhoare_def)

lemma jhoareD: "jhoare P m Q E \<Longrightarrow> P s \<Longrightarrow> case m s of (Inl e, s') \<Rightarrow> E s' | (Inr x, s') \<Rightarrow> Q x s'"
  by (simp add: jhoare_def)

lemma jhoare_okD: "jhoare P m Q E \<Longrightarrow> P s \<Longrightarrow> m s = (Inr x, s') \<Longrightarrow> Q x s'"
  by (fastforce simp: jhoare_def)

lemma jhoare_errD: "jhoare P m Q E \<Longrightarrow> P s \<Longrightarrow> m s = (Inl e, s') \<Longrightarrow> E s'"
  by (fastforce simp: jhoare_def)

lemma jhoare_bind:
  "jhoare P m R E \<Longrightarrow> (\<And>x. jhoare (R x) (f x) Q E) \<Longrightarrow> jhoare P (jbind m f) Q E"
proof (rule jhoareI)
  fix s assume m: "jhoare P m R E" and f: "\<And>x. jhoare (R x) (f x) Q E" and P: "P s"
  obtain r s' where ms: "m s = (r, s')" by (cases "m s")
  show "case jbind m f s of (Inl e, s') \<Rightarrow> E s' | (Inr x, s') \<Rightarrow> Q x s'"
  proof (cases r)
    case (Inl e)
    then show ?thesis using jhoare_errD [OF m P] ms by (simp add: jbind_def)
  next
    case (Inr x)
    then have "R x s'" using jhoare_okD [OF m P] ms by simp
    then show ?thesis using f [of x] ms Inr by (simp add: jbind_def jhoare_def)
  qed
qed

lemma jhoare_pure: "(\<And>s. P s \<Longrightarrow> Q x s) \<Longrightarrow> jhoare P (jpure x) Q E"
  by (simp add: jhoare_def jpure_def)

lemma jhoare_mod: "(\<And>s. P s \<Longrightarrow> Q () (f s)) \<Longrightarrow> jhoare P (jmod f) Q E"
  by (simp add: jhoare_def jmod_def)

lemma jhoare_conseq:
  "jhoare P' m Q' E' \<Longrightarrow> (\<And>s. P s \<Longrightarrow> P' s) \<Longrightarrow> (\<And>x s. Q' x s \<Longrightarrow> Q x s) \<Longrightarrow> (\<And>s. E' s \<Longrightarrow> E s)
    \<Longrightarrow> jhoare P m Q E"
  unfolding jhoare_def by (fastforce split: prod.splits sum.splits)

lemma jhoare_foreach:
  "(\<And>x. x \<in> set xs \<Longrightarrow> jhoare P (f x) (\<lambda>_. P) E) \<Longrightarrow> jhoare P (jforeach f xs) (\<lambda>_. P) E"
  by (induction xs) (auto intro: jhoare_pure jhoare_bind)

lemma jhoare_disk:
  assumes "\<And>s F. P s \<Longrightarrow> Q () (s\<lparr>j_disk := eff (j_disk s), j_fault := F\<rparr>)"
    and "\<And>s F b. P s \<Longrightarrow> E (s\<lparr>j_disk := part b (j_disk s), j_fault := F\<rparr>)"
  shows "jhoare P (disk_op part eff) Q E"
proof (rule jhoareI)
  fix s assume P: "P s"
  show "case disk_op part eff s of (Inl e, s') \<Rightarrow> E s' | (Inr x, s') \<Rightarrow> Q x s'"
  proof (cases "j_fault s")
    case None
    then have eq: "s\<lparr>j_disk := eff (j_disk s), j_fault := None\<rparr> = s\<lparr>j_disk := eff (j_disk s)\<rparr>" by (cases s) simp
    show ?thesis using assms(1) [OF P, of None, unfolded eq] None by (simp add: disk_op_def)
  next
    case (Some f)
    show ?thesis using assms(1) [OF P, of "Some (f\<lparr>ft_after := ft_after f - 1\<rparr>)"] assms(2) [OF P, of None "ft_landed f"] Some
      by (simp add: disk_op_def)
  qed
qed

lemma jhoare_atomic:
  assumes "\<And>s F. P s \<Longrightarrow> Q () (s\<lparr>j_disk := eff (j_disk s), j_fault := F\<rparr>)"
    and "\<And>s F. P s \<Longrightarrow> E (s\<lparr>j_fault := F\<rparr>)" "\<And>s. Q () s \<Longrightarrow> E s"
  shows "jhoare P (atomic_op eff) Q E"
  unfolding atomic_op_def
proof (rule jhoare_disk)
  fix s F b assume P: "P s"
  show "E (s\<lparr>j_disk := (\<lambda>b d. if b = 0 then d else eff d) b (j_disk s), j_fault := F\<rparr>)"
    using assms(2) [OF P, of F] assms(3) [OF assms(1) [OF P, of F]] by simp
qed (rule assms(1))

lemma jhoare_noop:
  assumes "\<And>s F. P s \<Longrightarrow> P (s\<lparr>j_fault := F\<rparr>)" "\<And>s. P s \<Longrightarrow> E s"
  shows "jhoare P (atomic_op id) (\<lambda>_. P) E"
  by (rule jhoare_atomic) (auto intro: assms)

lemma jhoare_inject:
  assumes "\<And>s F. P s \<Longrightarrow> P (s\<lparr>j_fault := F\<rparr>)" "\<And>s. P s \<Longrightarrow> E s"
  shows "jhoare P (inject b) (\<lambda>_. P) E"
  unfolding inject_def by (rule jhoare_noop) (auto intro: assms)

lemma jhoare_fsync:
  assumes "\<And>s F. P s \<Longrightarrow> P (s\<lparr>j_fault := F\<rparr>)" "\<And>s. P s \<Longrightarrow> E s"
  shows "jhoare P fsync_directory (\<lambda>_. P) E"
  unfolding fsync_directory_def by (rule jhoare_noop) (auto intro: assms)

lemma jhoare_temporary:
  assumes "\<And>s F. P s \<Longrightarrow> P (s\<lparr>j_fault := F\<rparr>)" "\<And>s. P s \<Longrightarrow> E s"
  shows "jhoare P write_temporary (\<lambda>_. P) E"
  unfolding write_temporary_def by (rule jhoare_bind; rule jhoare_noop) (auto intro: assms)

section \<open>Growing and shrinking a history on disk\<close>

lemma fulls_snoc:
  "fulls q rs pre \<Longrightarrow> sg_lines sg \<noteq> [] \<Longrightarrow> lines_hold rs2 (sg_lines sg) \<Longrightarrow>
    fulls q (rs @ rs2) (pre @ [(q + int (length rs), sg)])"
proof (induction rule: fulls.induct)
  case (none q)
  then show ?case using fulls.more [of sg rs2 q "[]" "[]"] fulls.none by simp
next
  case (more sg' rs1 q rs' pre)
  then show ?case using fulls.more [of sg' rs1 q "rs' @ rs2" "pre @ [(q + int (length rs1) + int (length rs'), sg)]"]
    by (simp add: algebra_simps)
qed

definition clean :: "(int \<times> segment) list \<Rightarrow> bool" where
  "clean sgs \<longleftrightarrow> (sgs \<noteq> [] \<longrightarrow> sg_lines (snd (last sgs)) \<noteq> [] \<longrightarrow> \<not> torn (last (sg_lines (snd (last sgs)))))"

lemma clean_tail: "tail_holds rs ls \<Longrightarrow> (ls \<noteq> [] \<Longrightarrow> \<not> torn (last ls)) \<Longrightarrow> lines_hold rs ls"
  by (auto simp: tail_holds_def)

lemma log_on_cases:
  assumes "log_on q rs sgs" "clean sgs"
  obtains (empty) "sgs = []" "rs = []"
  | (last) pre sg rs1 rs2 where "sgs = pre @ [(q + int (length rs1), sg)]" "rs = rs1 @ rs2" "fulls q rs1 pre"
      "lines_hold rs2 (sg_lines sg)"
  using assms unfolding log_on_def by (auto simp: clean_def dest!: clean_tail)

lemma log_onI: "fulls q rs1 pre \<Longrightarrow> tail_holds rs2 (sg_lines sg) \<Longrightarrow> start = q + int (length rs1) \<Longrightarrow> rs = rs1 @ rs2
    \<Longrightarrow> log_on q rs (pre @ [(start, sg)])"
  by (auto simp: log_on_def)

lemma log_on_snoc_line:
  assumes "log_on q rs (pre @ [(start, sg)])" "clean (pre @ [(start, sg)])"
  shows "holds r l \<Longrightarrow> log_on q (rs @ [r]) (pre @ [(start, sg\<lparr>sg_lines := sg_lines sg @ [l]\<rparr>)])"
    and "torn l \<Longrightarrow> log_on q rs (pre @ [(start, sg\<lparr>sg_lines := sg_lines sg @ [l]\<rparr>)])"
proof -
  obtain rs1 rs2 where *: "start = q + int (length rs1)" "rs = rs1 @ rs2" "fulls q rs1 pre" "lines_hold rs2 (sg_lines sg)"
    using assms by (auto elim!: log_on_cases)
  show "holds r l \<Longrightarrow> log_on q (rs @ [r]) (pre @ [(start, sg\<lparr>sg_lines := sg_lines sg @ [l]\<rparr>)])"
    by (rule log_onI [OF *(3), of "rs2 @ [r]"]) (use * in \<open>auto simp: tail_holds_def list_all2_appendI\<close>)
  show "torn l \<Longrightarrow> log_on q rs (pre @ [(start, sg\<lparr>sg_lines := sg_lines sg @ [l]\<rparr>)])"
    by (rule log_onI [OF *(3), of rs2]) (use * in \<open>auto simp: tail_holds_def\<close>)
qed

lemma log_on_sync: "log_on q rs (pre @ [(start, sg)]) \<Longrightarrow> log_on q rs (pre @ [(start, sg\<lparr>sg_synced := n\<rparr>)])"
  by (auto simp: log_on_def)

lemma log_on_create:
  assumes "log_on q rs sgs" "clean sgs" "start = q + int (length rs)"
  shows "dict_has sgs start \<Longrightarrow> \<exists>pre sg. sgs = pre @ [(start, sg)] \<and> sg_lines sg = []"
    and "\<not> dict_has sgs start \<Longrightarrow> log_on q rs (sgs @ [(start, \<lparr>sg_lines = [], sg_synced = n\<rparr>)])"
  using assms(1,2)
proof (atomize (full), cases rule: log_on_cases)
  case empty
  then show "(dict_has sgs start \<longrightarrow> (\<exists>pre sg. sgs = pre @ [(start, sg)] \<and> sg_lines sg = [])) \<and>
    (\<not> dict_has sgs start \<longrightarrow> log_on q rs (sgs @ [(start, \<lparr>sg_lines = [], sg_synced = n\<rparr>)]))"
    using log_onI [OF fulls.none, of "[]" "\<lparr>sg_lines = [], sg_synced = n\<rparr>" start q "[]"] assms(3)
    by (simp add: tail_holds_def)
next
  case (last pre sg rs1 rs2)
  have len: "length rs2 = length (sg_lines sg)" using last(4) by (rule list_all2_lengthD)
  have old: "start \<notin> set (map fst pre)" using fulls_starts [OF last(3)] assms(3) last(2) by fastforce
  have new: "log_on q rs (sgs @ [(start, \<lparr>sg_lines = [], sg_synced = n\<rparr>)])" if "sg_lines sg \<noteq> []"
    using log_onI [OF fulls_snoc [OF last(3) that last(4)], of "[]" "\<lparr>sg_lines = [], sg_synced = n\<rparr>"] last(1,2) assms(3)
    by (simp add: tail_holds_def)
  show "(dict_has sgs start \<longrightarrow> (\<exists>pre sg. sgs = pre @ [(start, sg)] \<and> sg_lines sg = [])) \<and>
    (\<not> dict_has sgs start \<longrightarrow> log_on q rs (sgs @ [(start, \<lparr>sg_lines = [], sg_synced = n\<rparr>)]))"
  proof (cases "sg_lines sg = []")
    case True
    then show ?thesis using last(1,2) len assms(3) by auto
  next
    case False
    then have "dict_has sgs start = False" using old last(1,2) len assms(3) by auto
    then show ?thesis using new [OF False] by simp
  qed
qed

lemma log_on_drop:
  assumes "log_on q rs ((start, sg) # (nxt, sg2) # sgs)"
  shows "q \<le> nxt \<and> nxt \<le> q + int (length rs) \<and> log_on nxt (drop (nat (nxt - q)) rs) ((nxt, sg2) # sgs)"
proof -
  obtain pre sgl rs1 rs2 where *: "(start, sg) # (nxt, sg2) # sgs = pre @ [(q + int (length rs1), sgl)]" "rs = rs1 @ rs2"
      "fulls q rs1 pre" "tail_holds rs2 (sg_lines sgl)"
    using assms by (auto simp: log_on_def)
  then obtain pre' where pre: "pre = (start, sg) # pre'" and rest: "(nxt, sg2) # sgs = pre' @ [(q + int (length rs1), sgl)]"
    by (cases pre) auto
  from *(3) pre obtain ra rb where r: "rs1 = ra @ rb" "fulls (q + int (length ra)) rb pre'" "start = q"
    by (auto elim: fulls_ConsE)
  have nxt: "nxt = q + int (length ra)"
  proof (cases pre')
    case Nil
    then show ?thesis using rest r by (auto elim: fulls_NilE)
  next
    case (Cons x xs)
    then show ?thesis using rest r(2) by (auto elim: fulls_ConsE)
  qed
  have "log_on nxt (rb @ rs2) ((nxt, sg2) # sgs)"
    using log_onI [OF r(2) *(4)] rest nxt r(1) by (simp add: add.assoc)
  then show ?thesis using nxt *(2) r(1) by simp
qed


lemma cp_fits_mono:
  "cp_fits sha hist snaps m f \<Longrightarrow> snaps \<subseteq> snaps' \<Longrightarrow> cp_fits sha (hist @ ext) snaps' m f"
  by (auto simp: cp_fits_def split: sum.splits)

lemma manifest_fits_mono:
  "manifest_fits sha hist a mf \<Longrightarrow> a' \<le> a \<Longrightarrow> manifest_fits sha (hist @ ext) a' mf"
  unfolding manifest_fits_def by force

lemma dlog_mono: "dlog sha d hist snaps a m \<Longrightarrow> snaps \<subseteq> snaps' \<Longrightarrow> a' \<le> a \<Longrightarrow> dlog sha d hist snaps' a' m"
  using cp_fits_mono [of sha hist snaps m _ snaps' "[]"] manifest_fits_mono [of sha hist a _ a' "[]"]
  by (auto simp: dlog_def)

lemma dlog_segments:
  assumes "dlog sha d hist snaps a m" "log_on (int m + 1) (drop m hist @ ext) sgs"
    "chain sha 1 ZERO_DIGEST (hist @ ext)"
  shows "dlog sha (d\<lparr>dk_segments := sgs\<rparr>) (hist @ ext) snaps a m"
  using assms cp_fits_mono [of sha hist snaps m _ snaps ext] manifest_fits_mono [of sha hist a _ a ext]
  by (auto simp: dlog_def)

lemma on_segment_last:
  assumes "dk_segments d = pre @ [(start, sg)]" "dict_wf (dk_segments d)"
  shows "on_segment start f d = d\<lparr>dk_segments := pre @ [(start, f sg)]\<rparr>"
proof -
  have "start \<notin> set (map fst pre)" using assms by auto
  then have "map_of (dk_segments d) start = Some sg" "AList.update start (f sg) (dk_segments d) = pre @ [(start, f sg)]"
    using assms by (auto simp: map_of_append map_add_Some_iff update_last map_of_eq_None_iff)
  then show ?thesis by (simp add: on_segment_def)
qed

lemma append_line_at_end:
  "(\<forall>l \<in> set (sg_lines sg). sl_newline l) \<Longrightarrow> append_line l sg = sg\<lparr>sg_lines := sg_lines sg @ [l]\<rparr>"
  by (auto simp: append_line_def)

lemma dlog_append:
  assumes log: "dlog sha d hist snaps a m" and cl: "clean (dk_segments d)"
    and sgs: "dk_segments d = pre @ [(start, sg)]" and nl: "\<forall>l \<in> set (sg_lines sg). sl_newline l"
  shows "chain sha 1 ZERO_DIGEST (hist @ [r]) \<Longrightarrow> holds r l \<Longrightarrow>
      dlog sha (on_segment start (append_line l) d) (hist @ [r]) snaps a m"
    and "torn l \<Longrightarrow> dlog sha (on_segment start (append_line l) d) hist snaps a m"
proof -
  have on: "log_on (int m + 1) (drop m hist) (pre @ [(start, sg)])" using log sgs by (simp add: dlog_def)
  have cl': "clean (pre @ [(start, sg)])" using cl sgs by simp
  have wf: "dict_wf (dk_segments d)" using log_on_distinct [OF on] sgs by simp
  have eq: "on_segment start (append_line l) d = d\<lparr>dk_segments := pre @ [(start, sg\<lparr>sg_lines := sg_lines sg @ [l]\<rparr>)]\<rparr>"
    using on_segment_last [OF sgs wf] append_line_at_end [OF nl] by simp
  show "dlog sha (on_segment start (append_line l) d) (hist @ [r]) snaps a m"
    if "chain sha 1 ZERO_DIGEST (hist @ [r])" "holds r l"
    using dlog_segments [OF log log_on_snoc_line(1) [OF on cl' that(2)] that(1)] eq by simp
  show "dlog sha (on_segment start (append_line l) d) hist snaps a m" if "torn l"
    using dlog_segments [OF log, of "[]"] log_on_snoc_line(2) [OF on cl' that] log eq by (simp add: dlog_def)
qed

lemma dlog_create:
  assumes log: "dlog sha d hist snaps a m" and cl: "clean (dk_segments d)" and st: "start = int (length hist) + 1"
  shows "dlog sha (create_segment start d) hist snaps a m \<and> clean (dk_segments (create_segment start d))
    \<and> (\<exists>pre sg. dk_segments (create_segment start d) = pre @ [(start, sg)] \<and> sg_lines sg = [])"
proof -
  have on: "log_on (int m + 1) (drop m hist) (dk_segments d)" and m: "m \<le> length hist" using log by (simp_all add: dlog_def)
  have st': "start = int m + 1 + int (length (drop m hist))" using st m by simp
  show ?thesis
  proof (cases "dict_has (dk_segments d) start")
    case True
    then show ?thesis using log cl log_on_create(1) [OF on cl st'] by (simp add: create_segment_def)
  next
    case False
    then show ?thesis
      using dlog_segments [OF log, of "[]"] log_on_create(2) [OF on cl st' False, of 0] log
      by (auto simp: create_segment_def dlog_def clean_def)
  qed
qed

lemma dlog_sync:
  assumes log: "dlog sha d hist snaps a m" and sgs: "dk_segments d = pre @ [(start, sg)]"
  shows "on_segment start sync_segment d = d\<lparr>dk_segments := pre @ [(start, sync_segment sg)]\<rparr>
    \<and> dlog sha (on_segment start sync_segment d) hist snaps a m"
proof -
  have on: "log_on (int m + 1) (drop m hist) (pre @ [(start, sg)])" using log sgs by (simp add: dlog_def)
  have wf: "dict_wf (dk_segments d)" using log_on_distinct [OF on] sgs by simp
  show ?thesis
    using on_segment_last [OF sgs wf] dlog_segments [OF log, of "[]"] log_on_sync [OF on] log
    by (simp add: sync_segment_def dlog_def)
qed

lemma dlog_manifest:
  assumes "dlog sha d hist snaps a m" "validate_manifest sha v = Inr (int (length hist), tip_at hist (length hist), jid)"
    "fl_json f = Some v"
  shows "dlog sha (d\<lparr>dk_manifest := Some f\<rparr>) hist snaps (int (length hist)) m"
  using assms by (auto simp: dlog_def manifest_fits_def)

lemma dlog_put_checkpoint:
  assumes log: "dlog sha d hist snaps a m"
    and f: "read_checkpoint sha f = Inr (int (length hist), tip_at hist (length hist), snapshot)"
    and s: "(int (length hist), snapshot) \<in> snaps"
  shows "dlog sha (d\<lparr>dk_checkpoints := AList.update name f (dk_checkpoints d)\<rparr>) hist snaps a m"
proof -
  have m: "m \<le> length hist" and wf: "dict_wf (dk_checkpoints d)" using log by (simp_all add: dlog_def)
  have set: "set (AList.update name f (dk_checkpoints d)) = insert (name, f) {p \<in> set (dk_checkpoints d). fst p \<noteq> name}"
    by (rule set_update_wf [OF wf])
  have "cp_fits sha hist snaps m f" using f m s by (simp add: cp_fits_def)
  then have "\<forall>g \<in> snd ` set (AList.update name f (dk_checkpoints d)). cp_fits sha hist snaps m g"
    using log by (auto simp: set dlog_def)
  moreover have "\<exists>g \<in> snd ` set (AList.update name f (dk_checkpoints d)). is_ok (read_checkpoint sha g)"
    using f by (auto simp: set)
  ultimately show ?thesis using log wf by (simp add: dlog_def distinct_update)
qed

lemma dlog_filter_checkpoints:
  assumes log: "dlog sha d hist snaps a m"
    and keep: "(name, f) \<in> set (dk_checkpoints d)" "P (name, f)" "is_ok (read_checkpoint sha f)"
  shows "dlog sha (d\<lparr>dk_checkpoints := filter P (dk_checkpoints d)\<rparr>) hist snaps a m"
proof -
  have "\<exists>g \<in> snd ` set (filter P (dk_checkpoints d)). is_ok (read_checkpoint sha g)"
    using keep by (intro bexI [of _ f]) (auto intro: rev_image_eqI)
  then show ?thesis using log by (auto simp: dlog_def dict_wf_filter)
qed

lemma dlog_drop_segment:
  assumes log: "dlog sha d hist snaps a m" and sgs: "dk_segments d = (start, sg) # (nxt, sg2) # sgs"
    and safe: "\<forall>f \<in> snd ` set (dk_checkpoints d). \<forall>q dg sn. read_checkpoint sha f = Inr (q, dg, sn) \<longrightarrow> nxt - 1 \<le> q"
    and some: "\<exists>f \<in> snd ` set (dk_checkpoints d). is_ok (read_checkpoint sha f)"
  shows "\<exists>m'. dlog sha (d\<lparr>dk_segments := (nxt, sg2) # sgs\<rparr>) hist snaps a m'"
proof -
  have on: "log_on (int m + 1) (drop m hist) ((start, sg) # (nxt, sg2) # sgs)" and m: "m \<le> length hist"
    using log sgs by (simp_all add: dlog_def)
  from log_on_drop [OF on] m have d: "int m + 1 \<le> nxt" "nxt \<le> int (length hist) + 1"
    "log_on nxt (drop (nat (nxt - (int m + 1))) (drop m hist)) ((nxt, sg2) # sgs)" by auto
  let ?m = "nat (nxt - 1)"
  have k: "nxt = int ?m + 1" "m \<le> ?m" using d(1) by simp_all
  then have "nat (nxt - (int m + 1)) = ?m - m" by linarith
  then have "drop (nat (nxt - (int m + 1))) (drop m hist) = drop ?m hist" using k(2) by simp
  then have "log_on (int ?m + 1) (drop ?m hist) ((nxt, sg2) # sgs)" using d(3) k(1) by simp
  moreover have "\<forall>f \<in> snd ` set (dk_checkpoints d). cp_fits sha hist snaps ?m f"
  proof
    fix f assume f: "f \<in> snd ` set (dk_checkpoints d)"
    then have "cp_fits sha hist snaps m f" using log unfolding dlog_def by blast
    then show "cp_fits sha hist snaps ?m f" using safe f d(1) by (auto simp: cp_fits_def split: sum.splits)
  qed
  ultimately have "dlog sha (d\<lparr>dk_segments := (nxt, sg2) # sgs\<rparr>) hist snaps a ?m"
    using log some d by (auto simp: dlog_def)
  then show ?thesis ..
qed


section \<open>The writer keeps the history\<close>

definition hexdigest :: "sha \<Rightarrow> bool" where
  "hexdigest sha \<longleftrightarrow> (\<forall>x. hex64 (sha x))"

definition id_ok :: "string \<Rightarrow> bool" where
  "id_ok jid \<longleftrightarrow> SAFE_ID jid \<and> take 5 jid = ''boot_''"

definition frame :: "journal \<Rightarrow> (nat, reply) dict \<times> command list \<times> command option \<times> nat \<times> bool \<times> bool \<times> JournalStatus" where
  "frame s = (j_replies s, j_queue s, j_pending s, j_next_ticket s, j_closed s, j_alive s, j_base_status s)"

definition open_ok :: "journal \<Rightarrow> bool" where
  "open_ok s \<longleftrightarrow> (j_segment_fd s \<noteq> None \<longrightarrow>
    (\<exists>pre sg. dk_segments (j_disk s) = pre @ [(j_segment_start s, sg)] \<and> (\<forall>l \<in> set (sg_lines sg). sl_newline l)))"

text \<open>
  \<open>ready\<close>: the writer is in step with the disk, which holds the history \<open>hist\<close>. \<open>survives\<close>: whatever a
  failed call left, the disk holds an extension of \<open>hist\<close>.
\<close>

definition ready :: "sha \<Rightarrow> (int \<times> json_object) set \<Rightarrow> LogRecord list \<Rightarrow> int \<Rightarrow> _ \<Rightarrow> journal \<Rightarrow> bool" where
  "ready sha snaps hist a R s \<longleftrightarrow> (\<exists>m. dlog sha (j_disk s) hist snaps a m) \<and> clean (dk_segments (j_disk s)) \<and> open_ok s
     \<and> j_last_sequence s = int (length hist) \<and> j_last_digest s = tip ZERO_DIGEST hist \<and> id_ok (j_journal_id s)
     \<and> frame s = R"

definition survives :: "sha \<Rightarrow> (int \<times> json_object) set \<Rightarrow> LogRecord list \<Rightarrow> int \<Rightarrow> _ \<Rightarrow> journal \<Rightarrow> bool" where
  "survives sha snaps hist a R s \<longleftrightarrow> (\<exists>ext m. dlog sha (j_disk s) (hist @ ext) snaps a m) \<and> frame s = R"

lemma ready_survives: "ready sha snaps hist a R s \<Longrightarrow> survives sha snaps hist a R s"
  unfolding ready_def survives_def by (metis append_Nil2)

lemma survives_ext: "survives sha snaps (hist @ ext) a R s \<Longrightarrow> survives sha snaps hist a R s"
  unfolding survives_def by auto

lemma survives_mono: "survives sha snaps hist a R s \<Longrightarrow> a' \<le> a \<Longrightarrow> survives sha snaps hist a' R s"
  unfolding survives_def by (meson dlog_mono order_refl)

lemma frame_simps [simp]:
  "frame (s\<lparr>j_fault := F\<rparr>) = frame s" "frame (s\<lparr>j_disk := d\<rparr>) = frame s"
  "frame (s\<lparr>j_segment_fd := fd\<rparr>) = frame s" "frame (s\<lparr>j_segment_size := n\<rparr>) = frame s"
  "frame (s\<lparr>j_segment_start := n\<rparr>) = frame s" "frame (s\<lparr>j_last_sequence := n\<rparr>) = frame s"
  "frame (s\<lparr>j_last_digest := dg\<rparr>) = frame s" "frame (s\<lparr>j_records_since_checkpoint := n\<rparr>) = frame s"
  "frame (s\<lparr>j_checkpoint_sequence := n\<rparr>) = frame s" "frame (s\<lparr>j_verified_checkpoints := k\<rparr>) = frame s"
  "frame (s\<lparr>j_last_checkpoint_ms := n\<rparr>) = frame s" "frame (s\<lparr>j_checkpoint_nonce := n\<rparr>) = frame s"
  by (simp_all add: frame_def)

lemma ready_fault [simp]: "ready sha snaps hist a R (s\<lparr>j_fault := F\<rparr>) = ready sha snaps hist a R s"
  by (simp add: ready_def open_ok_def)

lemma survives_fault [simp]: "survives sha snaps hist a R (s\<lparr>j_fault := F\<rparr>) = survives sha snaps hist a R s"
  by (simp add: survives_def)

lemma ready_counters [simp]:
  "ready sha snaps hist a R (s\<lparr>j_records_since_checkpoint := n\<rparr>) = ready sha snaps hist a R s"
  "ready sha snaps hist a R (s\<lparr>j_checkpoint_nonce := n\<rparr>) = ready sha snaps hist a R s"
  by (simp_all add: ready_def open_ok_def)

lemma sync_ready: "jhoare (ready sha snaps h a R) (timed_fdatasync io fd) (\<lambda>_. ready sha snaps h a R) (survives sha snaps h a R)"
proof (rule jhoareI)
  fix s assume W: "ready sha snaps h a R s"
  have noop: "jhoare (ready sha snaps h a R) (atomic_op id) (\<lambda>_. ready sha snaps h a R) (survives sha snaps h a R)"
    by (rule jhoare_noop) (auto intro: ready_survives)
  show "case timed_fdatasync io fd s of (Inl e, s') \<Rightarrow> survives sha snaps h a R s' | (Inr x, s') \<Rightarrow> ready sha snaps h a R s'"
  proof (cases "j_segment_fd s = Some fd")
    case True
    obtain pre sg where sg: "dk_segments (j_disk s) = pre @ [(j_segment_start s, sg)]" "\<forall>l \<in> set (sg_lines sg). sl_newline l"
      using W True by (auto simp: ready_def open_ok_def)
    let ?d = "on_segment (j_segment_start s) sync_segment (j_disk s)"
    obtain m where m: "dlog sha (j_disk s) h snaps a m" using W by (auto simp: ready_def)
    have "ready sha snaps h a R (s\<lparr>j_disk := ?d, j_fault := F\<rparr>)" for F
      using W dlog_sync [OF m sg(1)] sg by (auto simp: ready_def open_ok_def clean_def sync_segment_def)
    then have "jhoare (\<lambda>t. t = s) (atomic_op (on_segment (j_segment_start s) sync_segment))
        (\<lambda>_. ready sha snaps h a R) (survives sha snaps h a R)"
      by (intro jhoare_atomic) (auto intro: ready_survives W)
    then show ?thesis using True by (simp add: jhoare_def timed_fdatasync_def)
  next
    case False
    then show ?thesis using W noop by (auto simp: jhoare_def timed_fdatasync_def ready_survives)
  qed
qed

lemma flush_ready:
  "jhoare (ready sha snaps h a R) (flush_and_close_segment io sync)
    (\<lambda>_ s. ready sha snaps h a R s \<and> j_segment_fd s = None) (survives sha snaps h a R)"
proof (rule jhoareI)
  fix s assume W: "ready sha snaps h a R s"
  show "case flush_and_close_segment io sync s of (Inl e, s') \<Rightarrow> survives sha snaps h a R s'
    | (Inr x, s') \<Rightarrow> ready sha snaps h a R s' \<and> j_segment_fd s' = None"
  proof (cases "j_segment_fd s")
    case None
    then show ?thesis using W by (simp add: flush_and_close_segment_def)
  next
    case (Some fd)
    have "jhoare (ready sha snaps h a R) (if sync then timed_fdatasync io fd else jpure ())
        (\<lambda>_. ready sha snaps h a R) (survives sha snaps h a R)"
      by (auto intro: sync_ready jhoare_pure)
    then have "jhoare (ready sha snaps h a R) (jbind (if sync then timed_fdatasync io fd else jpure ()) (\<lambda>_.
        jmod (\<lambda>s. s\<lparr>j_segment_fd := None, j_segment_size := 0, j_segment_start := 0\<rparr>)))
        (\<lambda>_ s. ready sha snaps h a R s \<and> j_segment_fd s = None) (survives sha snaps h a R)"
      by (rule jhoare_bind) (auto intro!: jhoare_mod simp: ready_def open_ok_def)
    then show ?thesis using W Some by (simp add: jhoare_def flush_and_close_segment_def)
  qed
qed

lemma open_segment_ready:
  "jhoare (\<lambda>s. ready sha snaps h a R s \<and> j_segment_fd s = None) (open_segment io (int (length h) + 1))
    (\<lambda>_ s. ready sha snaps h a R s \<and> j_segment_fd s \<noteq> None) (survives sha snaps h a R)"
proof -
  let ?st = "int (length h) + 1"
  let ?mid = "\<lambda>s. ready sha snaps h a R s \<and> j_segment_fd s = None
    \<and> (\<exists>pre sg. dk_segments (j_disk s) = pre @ [(?st, sg)] \<and> sg_lines sg = [])"
  have "?mid (s\<lparr>j_disk := create_segment ?st (j_disk s), j_fault := F\<rparr>)"
    if "ready sha snaps h a R s" "j_segment_fd s = None" for s F
    using that dlog_create [of sha "j_disk s" h snaps a _ ?st] by (auto simp: ready_def open_ok_def)
  then have create: "jhoare (\<lambda>s. ready sha snaps h a R s \<and> j_segment_fd s = None) (atomic_op (create_segment ?st))
      (\<lambda>_. ?mid) (survives sha snaps h a R)"
    by (intro jhoare_atomic) (auto intro: ready_survives)
  show ?thesis unfolding open_segment_def
    by (rule jhoare_bind [OF create]) (rule jhoare_mod, auto simp: ready_def open_ok_def)
qed

lemma ensure_segment_ready:
  "jhoare (ready sha snaps h a R) (ensure_segment cfg io (int (length h) + 1) n)
    (\<lambda>_ s. ready sha snaps h a R s \<and> j_segment_fd s \<noteq> None) (survives sha snaps h a R)"
proof (rule jhoareI)
  fix s assume W: "ready sha snaps h a R s"
  let ?in_use = "j_segment_fd s \<noteq> None \<and> j_segment_size s > 0"
  let ?rest = "jbind (if ?in_use then flush_and_close_segment io True else jpure ()) (\<lambda>_ s1.
       if j_segment_fd s1 = None then open_segment io (int (length h) + 1) s1 else (Inr (), s1))"
  have "jhoare (ready sha snaps h a R) (if ?in_use then flush_and_close_segment io True else jpure ())
      (\<lambda>_. ready sha snaps h a R) (survives sha snaps h a R)"
    using flush_ready [of sha snaps h a R io True] by (auto intro: jhoare_pure jhoare_conseq)
  then have "jhoare (ready sha snaps h a R) ?rest
      (\<lambda>_ s. ready sha snaps h a R s \<and> j_segment_fd s \<noteq> None) (survives sha snaps h a R)"
    by (rule jhoare_bind) (use open_segment_ready [of sha snaps h a R io] in \<open>auto simp: jhoare_def\<close>)
  from jhoareD [OF this W] show "case ensure_segment cfg io (int (length h) + 1) n s of (Inl e, s') \<Rightarrow> survives sha snaps h a R s'
    | (Inr x, s') \<Rightarrow> ready sha snaps h a R s' \<and> j_segment_fd s' \<noteq> None"
    using W unfolding ensure_segment_def Let_def by (cases "?in_use \<and> j_segment_size s + int n \<le> jc_segment_bytes cfg") auto
qed


lemma sorted_record_canon: "sorted_json (record_json (canon r)) = sorted_json (record_json r)"
proof -
  have "sorted_json (JObj (sorted_object p)) = sorted_json (JObj p)" for p
    by (simp only: sorted_json_obj sorted_object_idem)
  then show ?thesis by (simp add: record_json_def canon_def del: sorted_json.simps(7)) (simp only: sorted_json.simps(7) list.map map_prod_simp)
qed

lemma chain_new:
  assumes "chain sha 1 ZERO_DIGEST hist" "validate_payload kind p = Inr p"
  shows "chain sha 1 ZERO_DIGEST (hist @ [canon (new_record sha (int (length hist) + 1) kind p (tip ZERO_DIGEST hist))])"
proof -
  let ?r = "new_record sha (int (length hist) + 1) kind p (tip ZERO_DIGEST hist)"
  have "decode_record sha (sorted_json (record_json (canon ?r))) = Inr (canon ?r)"
    using decode_written [OF assms(2), of "int (length hist) + 1" sha] by (simp add: sorted_record_canon)
  moreover have "lr_sequence (canon ?r) = 1 + int (length hist)" "lr_previous_digest (canon ?r) = tip ZERO_DIGEST hist"
    by (simp_all add: canon_def new_record_def)
  ultimately show ?thesis using assms(1) by (simp add: chain_append)
qed

lemma cut_line_cases: "holds (canon r) (cut_line b (record_json r)) \<or> torn (cut_line b (record_json r))"
  by (auto simp: cut_line_def holds_def torn_def whole_line_def sorted_record_canon)

lemma whole_line_holds: "holds (canon r) (whole_line (record_json r)) \<and> sl_newline (whole_line (record_json r))"
  by (simp add: holds_def whole_line_def sorted_record_canon)

lemma write_record_ready:
  assumes p: "validate_payload kind p = Inr p"
    and r: "r = new_record sha (int (length h) + 1) kind p (tip ZERO_DIGEST h)"
    and W: "ready sha snaps h a R s" and fd: "j_segment_fd s \<noteq> None"
  shows "ready sha snaps (h @ [canon r]) a R
      (s\<lparr>j_disk := on_segment (j_segment_start s) (append_line (whole_line (record_json r))) (j_disk s), j_fault := F,
        j_segment_size := n, j_last_sequence := int (length h) + 1, j_last_digest := lr_digest r\<rparr>)"
    and "survives sha snaps h a R
      (s\<lparr>j_disk := (if b = 0 then id else on_segment (j_segment_start s) (append_line (cut_line b (record_json r)))) (j_disk s),
        j_fault := F\<rparr>)"
proof -
  obtain m where m: "dlog sha (j_disk s) h snaps a m" and cl: "clean (dk_segments (j_disk s))" using W by (auto simp: ready_def)
  obtain pre sg where sg: "dk_segments (j_disk s) = pre @ [(j_segment_start s, sg)]" "\<forall>l \<in> set (sg_lines sg). sl_newline l"
    using W fd by (auto simp: ready_def open_ok_def)
  have ch: "chain sha 1 ZERO_DIGEST (h @ [canon r])" using chain_new [OF _ p, of sha h] m r by (simp add: dlog_def)
  have wf: "dict_wf (dk_segments (j_disk s))" using m by (auto simp: dlog_def dest: log_on_distinct)
  let ?l = "whole_line (record_json r)"
  have eq: "on_segment (j_segment_start s) (append_line ?l) (j_disk s)
      = (j_disk s)\<lparr>dk_segments := pre @ [(j_segment_start s, sg\<lparr>sg_lines := sg_lines sg @ [?l]\<rparr>)]\<rparr>"
    using on_segment_last [OF sg(1) wf] append_line_at_end [OF sg(2)] by simp
  have tip: "lr_digest r = tip ZERO_DIGEST (h @ [canon r])" by (simp add: tip_append canon_def)
  have "dlog sha (on_segment (j_segment_start s) (append_line ?l) (j_disk s)) (h @ [canon r]) snaps a m"
    using dlog_append(1) [OF m cl sg ch] whole_line_holds by blast
  then show "ready sha snaps (h @ [canon r]) a R
      (s\<lparr>j_disk := on_segment (j_segment_start s) (append_line ?l) (j_disk s), j_fault := F,
        j_segment_size := n, j_last_sequence := int (length h) + 1, j_last_digest := lr_digest r\<rparr>)"
    using W sg(2) whole_line_holds [of r] tip
    by (auto simp: ready_def eq open_ok_def clean_def torn_def)
  have "\<exists>ext. dlog sha (on_segment (j_segment_start s) (append_line (cut_line b (record_json r))) (j_disk s)) (h @ ext) snaps a m"
    using cut_line_cases [of r b] dlog_append(1) [OF m cl sg ch] dlog_append(2) [OF m cl sg] by (metis append_Nil2)
  then show "survives sha snaps h a R
      (s\<lparr>j_disk := (if b = 0 then id else on_segment (j_segment_start s) (append_line (cut_line b (record_json r)))) (j_disk s),
        j_fault := F\<rparr>)"
    using W ready_survives [OF W] by (auto simp: ready_def survives_def)
qed

lemma append_one_ready:
  assumes p: "validate_payload kind p = Inr p"
  shows "jhoare (ready sha snaps h a R) (append_one cfg sha io kind p)
    (\<lambda>(r, fd). ready sha snaps (h @ [canon r]) a R) (survives sha snaps h a R)"
proof (rule jhoareI)
  fix s assume W: "ready sha snaps h a R s"
  let ?r = "new_record sha (int (length h) + 1) kind p (tip ZERO_DIGEST h)"
  let ?n = "length (canonical (record_json ?r)) + 1"
  let ?tail = "\<lambda>s1. (case j_segment_fd s1 of
          None \<Rightarrow> (Inl AssertionError, s1)
        | Some fd \<Rightarrow>
          jbind (write_all (j_segment_start s1) (record_json ?r)) (\<lambda>_ s2.
            (Inr (?r, fd), s2\<lparr>j_segment_size := j_segment_size s2 + int ?n,
               j_last_sequence := int (length h) + 1, j_last_digest := lr_digest ?r\<rparr>)) s1)"
  have step: "append_one cfg sha io kind p s = jbind (ensure_segment cfg io (int (length h) + 1) ?n) (\<lambda>_. ?tail) s"
  proof -
    have "j_last_sequence s = int (length h)" "j_last_digest s = tip ZERO_DIGEST h" using W by (simp_all add: ready_def)
    then show ?thesis unfolding append_one_def Let_def by (simp only:)
  qed
  have tail: "jhoare (\<lambda>s. ready sha snaps h a R s \<and> j_segment_fd s \<noteq> None) ?tail
      (\<lambda>(r, fd). ready sha snaps (h @ [canon r]) a R) (survives sha snaps h a R)"
  proof (rule jhoareI)
    fix t assume t: "ready sha snaps h a R t \<and> j_segment_fd t \<noteq> None"
    then obtain fd where fd: "j_segment_fd t = Some fd" by auto
    let ?Q = "\<lambda>_ t2. \<forall>n. ready sha snaps (h @ [canon ?r]) a R
      (t2\<lparr>j_segment_size := n, j_last_sequence := int (length h) + 1, j_last_digest := lr_digest ?r\<rparr>)"
    have "jhoare (\<lambda>u. u = t) (write_all (j_segment_start t) (record_json ?r)) ?Q (survives sha snaps h a R)"
      unfolding write_all_def
      by (rule jhoare_disk) (use write_record_ready [OF p refl] t in \<open>auto simp: fun_upd_def\<close>)
    from jhoareD [OF this refl] show "case ?tail t of (Inl e, s') \<Rightarrow> survives sha snaps h a R s'
        | (Inr x, s') \<Rightarrow> (case x of (r, fd) \<Rightarrow> ready sha snaps (h @ [canon r]) a R) s'"
      by (auto simp: fd jbind_def split: prod.splits sum.splits)
  qed
  from jhoareD [OF jhoare_bind [OF ensure_segment_ready tail] W]
  show "case append_one cfg sha io kind p s of (Inl e, s') \<Rightarrow> survives sha snaps h a R s'
    | (Inr x, s') \<Rightarrow> (case x of (r, fd) \<Rightarrow> ready sha snaps (h @ [canon r]) a R) s'"
    unfolding step .
qed

lemma append_all_ready:
  "(\<forall>(t, kind, p, b) \<in> set items. validate_payload kind p = Inr p) \<Longrightarrow>
    jhoare (ready sha snaps h a R) (append_all cfg sha io items)
      (\<lambda>res. ready sha snaps (h @ map (\<lambda>(t, r, fd). canon r) res) a R) (survives sha snaps h a R)"
proof (induction items arbitrary: h)
  case Nil
  then show ?case by (auto intro: jhoare_pure)
next
  case (Cons i items)
  obtain t kind p b where i: "i = (t, kind, p, b)" by (cases i)
  have one: "jhoare (ready sha snaps h a R) (append_one cfg sha io kind p)
      (\<lambda>(r, fd). ready sha snaps (h @ [canon r]) a R) (survives sha snaps h a R)"
    using Cons.prems i by (intro append_one_ready) auto
  have rest: "jhoare (ready sha snaps (h @ [canon r]) a R) (append_all cfg sha io items)
      (\<lambda>res. ready sha snaps ((h @ [canon r]) @ map (\<lambda>(t, r, fd). canon r) res) a R) (survives sha snaps h a R)" for r
    using Cons.IH [of "h @ [canon r]"] Cons.prems by (auto intro: jhoare_conseq survives_ext)
  show ?case unfolding i append_all.simps
    by (rule jhoare_bind [OF one]) (auto split: prod.splits intro!: jhoare_bind [OF rest] jhoare_pure)
qed


lemma decode_digest:
  assumes "decode_record sha v = Inr r"
  shows "\<exists>w. lr_digest r = digest sha w"
proof (cases v)
  case (JObj d)
  define K where "K = set [''sequence'', ''kind'', ''payload'', ''previous_digest'', ''digest'']"
  show ?thesis using assms unfolding decode_record_def JObj JsonValue.case K_def [symmetric]
    by (auto simp: res_bind_Inr split: if_split_asm option.split_asm)
qed (use assms in \<open>simp_all add: decode_record_def\<close>)

lemma tip_safe:
  assumes "hexdigest sha" "chain sha 1 ZERO_DIGEST hist"
  shows "SAFE_DIGEST (tip ZERO_DIGEST hist)"
proof (cases hist rule: rev_cases)
  case (snoc rs r)
  then have "decode_record sha (sorted_json (record_json r)) = Inr r" using assms(2) by (simp add: chain_append)
  then obtain w where "lr_digest r = digest sha w" using decode_digest by blast
  then show ?thesis using assms(1) snoc by (simp add: tip_append hexdigest_def SAFE_DIGEST_def digest_def)
qed simp

lemma manifest_ready:
  assumes hex: "hexdigest sha" and a: "a \<le> int (length h)"
  shows "jhoare (ready sha snaps h a R) (write_manifest sha) (\<lambda>_. ready sha snaps h (int (length h)) R) (survives sha snaps h a R)"
proof (rule jhoareI)
  fix s assume W: "ready sha snaps h a R s"
  let ?v = "manifest_document sha (int (length h)) (tip ZERO_DIGEST h) (j_journal_id s)"
  let ?P = "\<lambda>t. ready sha snaps h a R t \<and> j_journal_id t = j_journal_id s"
  obtain m where "dlog sha (j_disk s) h snaps a m" using W by (auto simp: ready_def)
  then have safe: "SAFE_DIGEST (tip ZERO_DIGEST h)" using tip_safe [OF hex] by (simp add: dlog_def)
  have valid: "validate_manifest sha (sorted_json ?v) = Inr (int (length h), tip_at h (length h), j_journal_id s)"
    using validate_written_manifest [OF _ safe, of "int (length h)" "j_journal_id s" sha] W
    by (simp add: ready_def id_ok_def tip_at_def)
  have put: "ready sha snaps h (int (length h)) R (t\<lparr>j_disk := (j_disk t)\<lparr>dk_manifest := Some (file_of ?v)\<rparr>, j_fault := F\<rparr>)"
    if "?P t" for t F
    using that dlog_manifest [OF _ valid, of "j_disk t" snaps a _ "file_of ?v"]
    by (auto simp: ready_def open_ok_def file_of_def)
  have weaken: "survives sha snaps h a R t" if "ready sha snaps h (int (length h)) R t" for t
    using survives_mono [OF ready_survives [OF that] a] .
  have "jhoare ?P (jbind write_temporary (\<lambda>_.
     jbind (atomic_op (\<lambda>d. d\<lparr>dk_manifest := Some (file_of ?v)\<rparr>)) (\<lambda>_. fsync_directory)))
     (\<lambda>_. ready sha snaps h (int (length h)) R) (survives sha snaps h a R)"
  proof (rule jhoare_bind [where R = "\<lambda>_. ?P"])
    show "jhoare ?P write_temporary (\<lambda>_. ?P) (survives sha snaps h a R)"
      by (rule jhoare_temporary) (auto intro: ready_survives)
    have "jhoare ?P (atomic_op (\<lambda>d. d\<lparr>dk_manifest := Some (file_of ?v)\<rparr>))
        (\<lambda>_. ready sha snaps h (int (length h)) R) (survives sha snaps h a R)"
      by (rule jhoare_atomic) (use put weaken in \<open>auto intro: ready_survives\<close>)
    then show "jhoare ?P (jbind (atomic_op (\<lambda>d. d\<lparr>dk_manifest := Some (file_of ?v)\<rparr>)) (\<lambda>_. fsync_directory))
       (\<lambda>_. ready sha snaps h (int (length h)) R) (survives sha snaps h a R)"
      by (rule jhoare_bind) (rule jhoare_fsync, auto intro: weaken)
  qed
  from jhoareD [OF this, of s] W
  show "case write_manifest sha s of (Inl e, s') \<Rightarrow> survives sha snaps h a R s'
    | (Inr x, s') \<Rightarrow> ready sha snaps h (int (length h)) R s'"
    by (simp add: write_manifest_def Let_def ready_def)
qed

lemma injects_ready:
  "jhoare (ready sha snaps h a R) (jforeach (\<lambda>b. inject (f b)) bs) (\<lambda>_. ready sha snaps h a R) (survives sha snaps h a R)"
  by (rule jhoare_foreach) (rule jhoare_inject, auto intro: ready_survives)

lemma batch_ready:
  assumes hex: "hexdigest sha" and a: "a \<le> int (length h)"
    and ok: "\<forall>(t, kind, p, b) \<in> set batch. validate_payload kind p = Inr p"
  shows "jhoare (ready sha snaps h a R) (write_append_batch cfg sha io batch)
    (\<lambda>res. ready sha snaps (h @ map (canon \<circ> snd) res) (int (length h + length res)) R) (survives sha snaps h a R)"
proof -
  let ?rec = "\<lambda>results. h @ map (\<lambda>(t, r, fd). canon r) results"
  have keep: "jhoare (ready sha snaps (?rec results) a R) m (\<lambda>_. ready sha snaps (?rec results) a R) (survives sha snaps h a R)"
    if "jhoare (ready sha snaps (?rec results) a R) m (\<lambda>_. ready sha snaps (?rec results) a R)
        (survives sha snaps (?rec results) a R)" for m :: "unit jop" and results
    using that by (auto intro: jhoare_conseq survives_ext)
  have mf: "jhoare (ready sha snaps (?rec results) a R) (write_manifest sha)
      (\<lambda>_. ready sha snaps (?rec results) (int (length (?rec results))) R) (survives sha snaps h a R)" for results
    using manifest_ready [OF hex, of a "?rec results" snaps R] a by (auto intro: jhoare_conseq survives_ext)
  show ?thesis unfolding write_append_batch_def
    apply (rule jhoare_bind [OF injects_ready])
    apply (rule jhoare_bind [OF append_all_ready [OF ok]])
    apply (rule jhoare_bind [OF keep [OF jhoare_foreach]])
     apply (rule sync_ready)
    apply (rule jhoare_bind [OF keep [OF injects_ready]])
    apply (rule jhoare_bind [OF mf])
    apply (rule jhoare_bind [where R = "\<lambda>_. ready sha snaps (?rec results) (int (length (?rec results))) R" for results])
     apply (rule jhoare_mod, simp)
    apply (rule jhoare_pure, simp add: comp_def case_prod_unfold)
    done
qed


section \<open>Checkpoints and compaction keep it too\<close>

definition readable_above :: "sha \<Rightarrow> int \<Rightarrow> journal \<Rightarrow> bool" where
  "readable_above sha safe s \<longleftrightarrow>
    (\<forall>f \<in> snd ` set (dk_checkpoints (j_disk s)). \<forall>q dg sn. read_checkpoint sha f = Inr (q, dg, sn) \<longrightarrow> safe \<le> q)
    \<and> (\<exists>f \<in> snd ` set (dk_checkpoints (j_disk s)). is_ok (read_checkpoint sha f))"

definition compactable :: "sha \<Rightarrow> (int \<times> json_object) set \<Rightarrow> LogRecord list \<Rightarrow> int \<Rightarrow> _ \<Rightarrow> int \<Rightarrow> int list \<Rightarrow> journal \<Rightarrow> bool" where
  "compactable sha snaps h a R safe starts s \<longleftrightarrow> ready sha snaps h a R s \<and> j_segment_fd s = None
     \<and> readable_above sha safe s \<and> map fst (dk_segments (j_disk s)) = starts"

lemma compactable_fault [simp]:
  "compactable sha snaps h a R safe starts (s\<lparr>j_fault := F\<rparr>) = compactable sha snaps h a R safe starts s"
  by (simp add: compactable_def readable_above_def)

lemma compactable_survives: "compactable sha snaps h a R safe starts s \<Longrightarrow> survives sha snaps h a R s"
  by (simp add: compactable_def ready_survives)

lemma ready_sorted: "ready sha snaps h a R s \<Longrightarrow> sorted_wrt (<) (map fst (dk_segments (j_disk s)))"
  by (auto simp: ready_def dlog_def dest: log_on_sorted)

lemma delete_first_compactable:
  assumes P: "compactable sha snaps h a R safe (x # y # ss) s" and y: "y - 1 \<le> safe"
  shows "compactable sha snaps h a R safe (y # ss)
    (s\<lparr>j_disk := (j_disk s)\<lparr>dk_segments := AList.delete x (dk_segments (j_disk s))\<rparr>, j_fault := F\<rparr>)"
proof -
  have W: "ready sha snaps h a R s" "readable_above sha safe s" and sorted: "sorted_wrt (<) (x # y # ss)"
    using P ready_sorted [of sha snaps h a R s] by (auto simp: compactable_def)
  obtain sg sg2 sgs where sgs: "dk_segments (j_disk s) = (x, sg) # (y, sg2) # sgs" and ss: "ss = map fst sgs"
    using P by (auto simp: compactable_def map_eq_Cons_conv)
  have "x \<notin> fst ` set sgs" "x \<noteq> y" using sorted ss by auto
  then have del: "AList.delete x (dk_segments (j_disk s)) = (y, sg2) # sgs"
    by (force simp: sgs AList.delete_eq intro!: filter_True)
  obtain m where m: "dlog sha (j_disk s) h snaps a m" using W by (auto simp: ready_def)
  have "\<exists>m'. dlog sha ((j_disk s)\<lparr>dk_segments := (y, sg2) # sgs\<rparr>) h snaps a m'"
    by (rule dlog_drop_segment [OF m sgs]) (use W(2) y in \<open>fastforce simp: readable_above_def\<close>)+
  moreover have "clean ((y, sg2) # sgs)" using W(1) sgs by (simp add: ready_def clean_def)
  ultimately show ?thesis
    using P by (simp add: compactable_def ready_def open_ok_def readable_above_def del ss)
qed

lemma delete_segment_compactable:
  assumes "y - 1 \<le> safe"
  shows "jhoare (compactable sha snaps h a R safe (x # y # ss)) (delete_segment x)
    (\<lambda>_. compactable sha snaps h a R safe (y # ss)) (survives sha snaps h a R)"
  unfolding delete_segment_def
proof (intro jhoare_bind)
  show "jhoare (compactable sha snaps h a R safe (x # y # ss)) (inject ''segment_before_delete'')
      (\<lambda>_. compactable sha snaps h a R safe (x # y # ss)) (survives sha snaps h a R)"
    by (rule jhoare_inject) (auto intro: compactable_survives)
  show "jhoare (compactable sha snaps h a R safe (x # y # ss)) (atomic_op (\<lambda>d. d\<lparr>dk_segments := AList.delete x (dk_segments d)\<rparr>))
      (\<lambda>_. compactable sha snaps h a R safe (y # ss)) (survives sha snaps h a R)"
    by (rule jhoare_atomic) (use delete_first_compactable [OF _ assms] in \<open>auto intro: compactable_survives\<close>)
  show "jhoare (compactable sha snaps h a R safe (y # ss)) fsync_directory
      (\<lambda>_. compactable sha snaps h a R safe (y # ss)) (survives sha snaps h a R)"
    by (rule jhoare_fsync) (auto intro: compactable_survives)
  show "jhoare (compactable sha snaps h a R safe (y # ss)) (inject ''segment_after_delete'')
      (\<lambda>_. compactable sha snaps h a R safe (y # ss)) (survives sha snaps h a R)"
    by (rule jhoare_inject) (auto intro: compactable_survives)
qed

lemma jforeach_skip: "(\<forall>x \<in> set xs. f x = jpure ()) \<Longrightarrow> jforeach f xs = jpure ()"
  by (induction xs) (auto simp: jbind_def jpure_def fun_eq_iff)

lemma compact_loop_ready:
  "jhoare (compactable sha snaps h a R safe starts)
    (jforeach (\<lambda>(start, nxt). if nxt - 1 > safe then jpure () else delete_segment start) (zip starts (tl starts)))
    (\<lambda>_. ready sha snaps h a R) (survives sha snaps h a R)"
proof (induction starts)
  case Nil
  then show ?case by (auto intro: jhoare_pure simp: compactable_def)
next
  case (Cons x ss)
  let ?f = "\<lambda>(start, nxt). if nxt - 1 > safe then jpure () else delete_segment start"
  show ?case
  proof (cases ss)
    case Nil
    then show ?thesis by (auto intro: jhoare_pure simp: compactable_def)
  next
    case ss: (Cons y zs)
    show ?thesis
    proof (cases "y - 1 > safe")
      case True
      show ?thesis
      proof (rule jhoareI)
        fix s assume P: "compactable sha snaps h a R safe (x # ss) s"
        then have "sorted_wrt (<) (x # ss)" using ready_sorted [of sha snaps h a R s] by (auto simp: compactable_def)
        then have "\<forall>z \<in> set ss. z - 1 > safe" using True ss by auto
        then have "\<forall>p \<in> set (zip (x # ss) ss). ?f p = jpure ()" by (auto dest: set_zip_rightD)
        then have "jforeach ?f (zip (x # ss) (tl (x # ss))) = jpure ()" by (intro jforeach_skip) simp
        then show "case jforeach ?f (zip (x # ss) (tl (x # ss))) s of (Inl e, s') \<Rightarrow> survives sha snaps h a R s'
          | (Inr u, s') \<Rightarrow> ready sha snaps h a R s'"
          using P by (simp add: jpure_def compactable_def)
      qed
    next
      case False
      then have "jhoare (compactable sha snaps h a R safe (x # ss)) (?f (x, y)) (\<lambda>_. compactable sha snaps h a R safe ss)
          (survives sha snaps h a R)"
        using delete_segment_compactable [of y safe sha snaps h a R x zs] ss by simp
      then show ?thesis using Cons.IH ss by (auto intro: jhoare_bind)
    qed
  qed
qed

lemma compact_ready:
  "jhoare (\<lambda>s. ready sha snaps h a R s \<and> readable_above sha safe s) (compact_segments io safe)
    (\<lambda>_. ready sha snaps h a R) (survives sha snaps h a R)"
proof -
  have flush: "jhoare (\<lambda>s. ready sha snaps h a R s \<and> readable_above sha safe s) (flush_and_close_segment io True)
      (\<lambda>_ s. \<exists>starts. compactable sha snaps h a R safe starts s) (survives sha snaps h a R)"
  proof (rule jhoareI)
    fix s assume s: "ready sha snaps h a R s \<and> readable_above sha safe s"
    have "dk_checkpoints (j_disk (snd (flush_and_close_segment io True s))) = dk_checkpoints (j_disk s)"
      by (auto simp: flush_and_close_segment_def jbind_def jmod_def timed_fdatasync_def atomic_op_def disk_op_def on_segment_def
        split: option.splits)
    then show "case flush_and_close_segment io True s of (Inl e, s') \<Rightarrow> survives sha snaps h a R s'
      | (Inr x, s') \<Rightarrow> \<exists>starts. compactable sha snaps h a R safe starts s'"
      using jhoareD [OF flush_ready, of sha snaps h a R s io True] s
      by (auto simp: compactable_def readable_above_def split: prod.splits sum.splits)
  qed
  show ?thesis unfolding compact_segments_def
  proof (rule jhoare_bind [OF flush], rule jhoareI)
    fix u s assume "\<exists>starts. compactable sha snaps h a R safe starts s"
    then obtain starts where P: "compactable sha snaps h a R safe starts s" ..
    then have "map fst (sort_key fst (dk_segments (j_disk s))) = starts"
      by (auto simp: compactable_def ready_def dlog_def)
    then show "case let starts = map fst (sort_key fst (dk_segments (j_disk s))) in
        jforeach (\<lambda>(start, next_start). if next_start - 1 > safe then jpure () else delete_segment start) (zip starts (tl starts)) s
      of (Inl e, s') \<Rightarrow> survives sha snaps h a R s' | (Inr x, s') \<Rightarrow> ready sha snaps h a R s'"
      using jhoareD [OF compact_loop_ready P] by (simp add: Let_def)
  qed
qed


definition readable_entry :: "sha \<Rightarrow> checkpoint_name \<times> json_file \<Rightarrow> (int \<times> checkpoint_name) option" where
  "readable_entry sha p = (case read_checkpoint sha (snd p) of
     Inl e \<Rightarrow> None | Inr (q, dg, snapshot) \<Rightarrow> Some (q, fst p))"

lemma readable_checkpoints_fit:
  "(\<forall>f \<in> snd ` set fs. cp_fits sha hist snaps m f) \<Longrightarrow>
    readable_checkpoints sha fs = Inr (List.map_filter (readable_entry sha) fs)"
proof (induction fs)
  case (Cons p fs)
  obtain name f where p: "p = (name, f)" by (cases p)
  show ?case using Cons p
    by (cases "read_checkpoint sha f") (auto simp: cp_fits_def readable_entry_def map_filter_simps split: prod.splits)
qed (simp add: map_filter_simps)

lemma readable_entry_Some: "readable_entry sha p = Some e \<longleftrightarrow>
  (\<exists>q dg snapshot. read_checkpoint sha (snd p) = Inr (q, dg, snapshot) \<and> e = (q, fst p))"
  by (auto simp: readable_entry_def split: sum.splits)

lemma set_map_filter: "set (List.map_filter f xs) = {y. \<exists>x \<in> set xs. f x = Some y}"
  by (force simp: List.map_filter_def)

lemma distinct_readable: "dict_wf fs \<Longrightarrow> distinct (map snd (List.map_filter (readable_entry sha) fs))"
proof (induction fs)
  case (Cons p fs)
  have "fst p \<notin> snd ` set (List.map_filter (readable_entry sha) fs)"
  proof
    assume "fst p \<in> snd ` set (List.map_filter (readable_entry sha) fs)"
    then obtain e p' where "fst p = snd e" "p' \<in> set fs" "readable_entry sha p' = Some e" unfolding set_map_filter by auto
    then have "fst p \<in> fst ` set fs" by (auto simp: readable_entry_Some)
    then show False using Cons.prems by simp
  qed
  moreover have "snd e = fst p" if "readable_entry sha p = Some e" for e using that by (auto simp: readable_entry_Some)
  ultimately show ?case using Cons by (cases "readable_entry sha p") (simp_all add: map_filter_simps)
qed (simp add: map_filter_simps)

definition holding :: "sha \<Rightarrow> (int \<times> json_object) set \<Rightarrow> LogRecord list \<Rightarrow> int \<Rightarrow> _ \<Rightarrow> (checkpoint_name \<times> json_file) list
    \<Rightarrow> journal \<Rightarrow> bool" where
  "holding sha snaps h a R fs s \<longleftrightarrow> ready sha snaps h a R s \<and> dk_checkpoints (j_disk s) = fs"

lemma prune_ready:
  assumes "\<exists>p \<in> set fs. fst p \<notin> set names \<and> is_ok (read_checkpoint sha (snd p))"
  shows "jhoare (holding sha snaps h a R fs) (prune_checkpoints names)
    (\<lambda>_. holding sha snaps h a R (filter (\<lambda>p. fst p \<notin> set names) fs)) (survives sha snaps h a R)"
  using assms
proof (induction names arbitrary: fs)
  case Nil
  then show ?case by (auto simp: prune_checkpoints_def intro: jhoare_pure)
next
  case (Cons name names)
  obtain nm f where p: "(nm, f) \<in> set fs" "nm \<noteq> name" "nm \<notin> set names" "is_ok (read_checkpoint sha f)" using Cons.prems by auto
  let ?fs = "filter (\<lambda>p. fst p \<noteq> name) fs"
  have del: "AList.delete name fs = ?fs" by (auto simp: AList.delete_eq intro: filter_cong)
  have eff: "holding sha snaps h a R ?fs
      (s\<lparr>j_disk := (j_disk s)\<lparr>dk_checkpoints := AList.delete name (dk_checkpoints (j_disk s))\<rparr>, j_fault := F\<rparr>)"
    if "holding sha snaps h a R fs s" for s F
    using that dlog_filter_checkpoints [of sha "j_disk s" h snaps a _ nm f "\<lambda>p. fst p \<noteq> name"] p
    by (auto simp: holding_def ready_def open_ok_def del)
  have weaken: "survives sha snaps h a R s" if "holding sha snaps h a R fs' s" for fs' s
    using that by (auto simp: holding_def intro: ready_survives)
  have one: "jhoare (holding sha snaps h a R fs) (atomic_op (\<lambda>d. d\<lparr>dk_checkpoints := AList.delete name (dk_checkpoints d)\<rparr>))
      (\<lambda>_. holding sha snaps h a R ?fs) (survives sha snaps h a R)"
    by (rule jhoare_atomic) (erule eff, auto intro: weaken)
  have "\<exists>p \<in> set ?fs. fst p \<notin> set names \<and> is_ok (read_checkpoint sha (snd p))"
    using p by (intro bexI [of _ "(nm, f)"]) auto
  then have "jhoare (holding sha snaps h a R ?fs) (prune_checkpoints names)
      (\<lambda>_. holding sha snaps h a R (filter (\<lambda>p. fst p \<notin> set names) ?fs)) (survives sha snaps h a R)"
    by (rule Cons.IH)
  moreover have "filter (\<lambda>p. fst p \<notin> set names) ?fs = filter (\<lambda>p. fst p \<notin> set (name # names)) fs"
    by (auto intro: filter_cong)
  ultimately show ?case unfolding prune_checkpoints_def jforeach.simps
    by (intro jhoare_bind [OF one]) simp
qed


lemma ready_checkpointed [simp]:
  "ready sha snaps h a R (s\<lparr>j_verified_checkpoints := k, j_checkpoint_sequence := q, j_records_since_checkpoint := n,
    j_last_checkpoint_ms := t\<rparr>) = ready sha snaps h a R s"
  by (simp add: ready_def open_ok_def)

lemma after_checkpoint_ready:
  assumes above: "\<And>safe n1 e. kept = [(safe, n1), e] \<Longrightarrow>
      (\<forall>f \<in> snd ` set fs. \<forall>q dg sn. read_checkpoint sha f = Inr (q, dg, sn) \<longrightarrow> safe \<le> q)
      \<and> (\<exists>f \<in> snd ` set fs. is_ok (read_checkpoint sha f))"
  shows "jhoare (holding sha snaps h a R fs) (after_checkpoint io kept) (\<lambda>_. ready sha snaps h a R) (survives sha snaps h a R)"
  unfolding after_checkpoint_def
proof (rule jhoare_bind [where R = "\<lambda>_. holding sha snaps h a R fs"])
  show "jhoare (holding sha snaps h a R fs) (jmod (\<lambda>s. s\<lparr>j_verified_checkpoints := length kept,
      j_checkpoint_sequence := j_last_sequence s, j_records_since_checkpoint := 0, j_last_checkpoint_ms := io_now io 2\<rparr>))
      (\<lambda>_. holding sha snaps h a R fs) (survives sha snaps h a R)"
    by (rule jhoare_mod) (simp add: holding_def)
  have short: "jhoare (holding sha snaps h a R fs) (jpure ()) (\<lambda>_. ready sha snaps h a R) (survives sha snaps h a R)"
    by (rule jhoare_pure) (simp add: holding_def)
  have two: "jhoare (holding sha snaps h a R fs) (compact_segments io safe) (\<lambda>_. ready sha snaps h a R) (survives sha snaps h a R)"
    if "kept = [(safe, n1), e]" for safe n1 e
    by (rule jhoare_conseq [OF compact_ready]) (use above [OF that] in \<open>auto simp: holding_def readable_above_def\<close>)
  show "jhoare (holding sha snaps h a R fs) (case kept of [(safe, n1), (q, n2)] \<Rightarrow> compact_segments io safe | _ \<Rightarrow> jpure ())
      (\<lambda>_. ready sha snaps h a R) (survives sha snaps h a R)"
    using short two by (auto split: list.splits prod.splits)
qed

lemma kept_checkpoints:
  assumes fs: "dict_wf fs" and ex: "\<exists>f \<in> snd ` set fs. is_ok (read_checkpoint sha f)"
    and cs: "cs = sort (List.map_filter (readable_entry sha) fs)" and k: "k = length cs - 2"
  defines "fs' \<equiv> filter (\<lambda>p. fst p \<notin> set (map snd (take k cs))) fs"
  shows "\<exists>p \<in> set fs. fst p \<notin> set (map snd (take k cs)) \<and> is_ok (read_checkpoint sha (snd p))"
    and "drop k cs = [(safe, n1), e] \<Longrightarrow> f \<in> snd ` set fs' \<Longrightarrow> read_checkpoint sha f = Inr (q, dg, sn) \<Longrightarrow> safe \<le> q"
proof -
  have mem: "set cs = {e. \<exists>p \<in> set fs. readable_entry sha p = Some e}" by (simp add: cs set_map_filter)
  have dist: "distinct (map snd (take k cs @ drop k cs))"
    using distinct_readable [OF fs, of sha] by (simp add: cs distinct_map)
  have "cs \<noteq> []"
  proof -
    obtain p where p: "p \<in> set fs" "is_ok (read_checkpoint sha (snd p))" using ex by auto
    then obtain t where "read_checkpoint sha (snd p) = Inr t" by (auto simp: is_ok_iff)
    then have "readable_entry sha p = Some (fst t, fst p)" by (cases t) (simp add: readable_entry_def)
    then have "(fst t, fst p) \<in> set cs" using mem p(1) by auto
    then show ?thesis by auto
  qed
  then have "drop k cs \<noteq> []" using k by (cases cs) auto
  then obtain e0 where e: "e0 \<in> set (drop k cs)" by (cases "drop k cs") auto
  then have "e0 \<in> set cs" by (rule in_set_dropD)
  then obtain p where p: "p \<in> set fs" "readable_entry sha p = Some e0" using mem by auto
  then have "snd e0 = fst p" "is_ok (read_checkpoint sha (snd p))" by (auto simp: readable_entry_Some)
  moreover have "snd e0 \<notin> set (map snd (take k cs))"
  proof -
    have "snd e0 \<in> set (map snd (drop k cs))" using e by simp
    moreover have "set (map snd (take k cs)) \<inter> set (map snd (drop k cs)) = {}"
      using dist unfolding map_append distinct_append by blast
    ultimately show ?thesis by blast
  qed
  ultimately show "\<exists>p \<in> set fs. fst p \<notin> set (map snd (take k cs)) \<and> is_ok (read_checkpoint sha (snd p))" using p(1) by auto
  show "safe \<le> q" if two: "drop k cs = [(safe, n1), e]" and f: "f \<in> snd ` set fs'" and q: "read_checkpoint sha f = Inr (q, dg, sn)"
  proof -
    obtain p where p: "p \<in> set fs" "fst p \<notin> set (map snd (take k cs))" "f = snd p" using f by (auto simp: fs'_def)
    then have "readable_entry sha p = Some (q, fst p)" using q by (simp add: readable_entry_def)
    then have "(q, fst p) \<in> set (take k cs @ drop k cs)" using mem p(1) by auto
    then have in_two: "(q, fst p) = (safe, n1) \<or> (q, fst p) = e" using p(2) two by (auto simp: image_iff)
    have "sorted (drop k cs)" by (simp add: cs sorted_wrt_drop)
    then have "(safe, n1) \<le> e" by (simp add: two)
    then show ?thesis using in_two by auto
  qed
qed

lemma checkpoint_ready:
  assumes hex: "hexdigest sha" and snap: "validate_safe_value (JObj snapshot) 0 = Inr ()"
    and new: "(int (length h), sorted_object snapshot) \<in> snaps"
  shows "jhoare (ready sha snaps h a R) (write_checkpoint sha io snapshot) (\<lambda>_. ready sha snaps h a R) (survives sha snaps h a R)"
proof (rule jhoareI)
  fix s0 assume W0: "ready sha snaps h a R s0"
  let ?W = "ready sha snaps h a R" and ?S = "survives sha snaps h a R"
  let ?f = "file_of (checkpoint_document sha (int (length h)) (tip ZERO_DIGEST h) (io_now io 0) snapshot)"
  let ?name = "(int (length h), io_now io 1, j_checkpoint_nonce s0 + 1)"
  obtain m0 where "dlog sha (j_disk s0) h snaps a m0" using W0 by (auto simp: ready_def)
  then have safe: "SAFE_DIGEST (tip ZERO_DIGEST h)" using tip_safe [OF hex] by (simp add: dlog_def)
  have rd: "read_checkpoint sha ?f = Inr (int (length h), tip_at h (length h), sorted_object snapshot)"
    using read_written_checkpoint [OF _ safe snap, of "int (length h)" sha "io_now io 0"] by (simp add: tip_at_def)
  have eff: "?W (s\<lparr>j_disk := (j_disk s)\<lparr>dk_checkpoints := AList.update ?name ?f (dk_checkpoints (j_disk s))\<rparr>, j_fault := F\<rparr>)"
    if W: "?W s" for s F
  proof -
    obtain m where m: "dlog sha (j_disk s) h snaps a m" using W by (auto simp: ready_def)
    have "\<exists>m. dlog sha ((j_disk s)\<lparr>dk_checkpoints := AList.update ?name ?f (dk_checkpoints (j_disk s))\<rparr>) h snaps a m"
      using dlog_put_checkpoint [OF m rd new] by blast
    then show ?thesis using W by (simp add: ready_def open_ok_def)
  qed
  have put: "jhoare ?W (atomic_op (\<lambda>d. d\<lparr>dk_checkpoints := AList.update ?name ?f (dk_checkpoints d)\<rparr>))
      (\<lambda>_ s. ?W s \<and> dk_checkpoints (j_disk s) \<noteq> []) ?S"
    by (rule jhoare_atomic) (use eff in \<open>auto simp: update_nonempty intro: ready_survives\<close>)
  let ?P = "\<lambda>s. ?W s \<and> dk_checkpoints (j_disk s) \<noteq> []"
  have found: "jhoare ?P (\<lambda>s. (readable_checkpoints sha (dk_checkpoints (j_disk s)), s))
      (\<lambda>found s. \<exists>fs. holding sha snaps h a R fs s \<and> dict_wf fs \<and> (\<exists>f \<in> snd ` set fs. is_ok (read_checkpoint sha f))
        \<and> found = List.map_filter (readable_entry sha) fs) ?S"
  proof (rule jhoareI)
    fix s assume P: "?P s"
    then obtain m where m: "dlog sha (j_disk s) h snaps a m" by (auto simp: ready_def)
    have "\<forall>f \<in> snd ` set (dk_checkpoints (j_disk s)). cp_fits sha h snaps m f" using m unfolding dlog_def by blast
    moreover have "dict_wf (dk_checkpoints (j_disk s))" "\<exists>f \<in> snd ` set (dk_checkpoints (j_disk s)). is_ok (read_checkpoint sha f)"
      using m P unfolding dlog_def by blast+
    ultimately show "case (readable_checkpoints sha (dk_checkpoints (j_disk s)), s) of (Inl e, s') \<Rightarrow> ?S s'
      | (Inr found, s') \<Rightarrow> \<exists>fs. holding sha snaps h a R fs s' \<and> dict_wf fs \<and> (\<exists>f \<in> snd ` set fs. is_ok (read_checkpoint sha f))
        \<and> found = List.map_filter (readable_entry sha) fs"
      using P by (simp add: readable_checkpoints_fit holding_def)
  qed
  have finish: "jhoare (\<lambda>s. \<exists>fs. holding sha snaps h a R fs s \<and> dict_wf fs \<and> (\<exists>f \<in> snd ` set fs. is_ok (read_checkpoint sha f))
        \<and> found = List.map_filter (readable_entry sha) fs)
      (let checkpoints = sort found; surplus = length checkpoints - 2 in
       jbind (prune_checkpoints (map snd (take surplus checkpoints))) (\<lambda>_. after_checkpoint io (drop surplus checkpoints)))
      (\<lambda>_. ?W) ?S" for found
  proof (rule jhoareI, elim exE conjE)
    fix s fs assume H: "holding sha snaps h a R fs s" and fs: "dict_wf fs" "\<exists>f \<in> snd ` set fs. is_ok (read_checkpoint sha f)"
      and fd: "found = List.map_filter (readable_entry sha) fs"
    define cs where "cs = sort found"
    define k where "k = length cs - 2"
    note kept = kept_checkpoints [OF fs cs_def [unfolded fd] k_def]
    let ?fs = "filter (\<lambda>p. fst p \<notin> set (map snd (take k cs))) fs"
    have some: "\<exists>f \<in> snd ` set ?fs. is_ok (read_checkpoint sha f)"
    proof -
      obtain p where p: "p \<in> set fs" "fst p \<notin> set (map snd (take k cs))" "is_ok (read_checkpoint sha (snd p))"
        using kept(1) by blast
      then show ?thesis by (intro bexI [of _ "snd p"] imageI) simp_all
    qed
    have "jhoare (holding sha snaps h a R fs) (jbind (prune_checkpoints (map snd (take k cs))) (\<lambda>_. after_checkpoint io (drop k cs)))
        (\<lambda>_. ?W) ?S"
      by (rule jhoare_bind [OF prune_ready [OF kept(1)] after_checkpoint_ready]) (use kept(2) some in blast)
    from jhoareD [OF this H]
    show "case (let checkpoints = sort found; surplus = length checkpoints - 2 in
       jbind (prune_checkpoints (map snd (take surplus checkpoints))) (\<lambda>_. after_checkpoint io (drop surplus checkpoints))) s
      of (Inl e, s') \<Rightarrow> ?S s' | (Inr x, s') \<Rightarrow> ?W s'"
      by (simp add: Let_def cs_def k_def)
  qed
  have all: "jhoare ?W (jbind write_temporary (\<lambda>_. jbind (inject ''checkpoint_before_rename'') (\<lambda>_.
     jbind (atomic_op (\<lambda>d. d\<lparr>dk_checkpoints := AList.update ?name ?f (dk_checkpoints d)\<rparr>)) (\<lambda>_.
     jbind fsync_directory (\<lambda>_. jbind (inject ''checkpoint_after_rename'') (\<lambda>_.
     jbind (lift_res (read_checkpoint sha ?f)) (\<lambda>_.
     jbind (\<lambda>s. (readable_checkpoints sha (dk_checkpoints (j_disk s)), s)) (\<lambda>found.
       let checkpoints = sort found; surplus = length checkpoints - 2 in
       jbind (prune_checkpoints (map snd (take surplus checkpoints))) (\<lambda>_.
       after_checkpoint io (drop surplus checkpoints)))))))))) (\<lambda>_. ?W) ?S"
    apply (rule jhoare_bind [OF jhoare_temporary], simp, erule ready_survives)
    apply (rule jhoare_bind [OF jhoare_inject], simp, erule ready_survives)
    apply (rule jhoare_bind [OF put])
    apply (rule jhoare_bind [OF jhoare_fsync], simp, blast intro: ready_survives)
    apply (rule jhoare_bind [OF jhoare_inject], simp, blast intro: ready_survives)
    apply (rule jhoare_bind [where R = "\<lambda>_. ?P"], simp add: jhoare_def lift_res_def rd)
    apply (rule jhoare_bind [OF found finish])
    done
  have "?W (s0\<lparr>j_checkpoint_nonce := j_checkpoint_nonce s0 + 1\<rparr>)" using W0 by simp
  from jhoareD [OF all this]
  show "case write_checkpoint sha io snapshot s0 of (Inl e, s') \<Rightarrow> ?S s' | (Inr x, s') \<Rightarrow> ?W s'"
    using W0 by (simp add: write_checkpoint_def Let_def ready_def)
qed

end
