(* ===== verification/Journal_Durability.thy ===== *)
theory Journal_Durability
  imports Journal_Writer
begin

text \<open>
  Runs of the attempt journal. \<open>journal_step\<close> lets callers queue commands and lets the writer work
  through them with any call failing, restarts the process on the disk it left, damages a checkpoint
  file while another stays readable, and cuts the power while lines beyond the manifest and the
  checkpoints are unsynced. The system carries two ghost fields: the records that were acknowledged to
  callers and the snapshots given to checkpoints. \<open>journal_ok\<close> is an invariant of these runs: the disk
  holds one digest chain with every acknowledged record on it.
\<close>

section \<open>Runs of the journal with crashes\<close>

record journal_system =
  js_journal :: journal
  js_acked :: "LogRecord list"
  js_snaps :: "(int \<times> json_object) list"

fun stored :: "(nat \<times> reply) list \<Rightarrow> LogRecord list" where
  "stored [] = []"
| "stored ((t, Stored r) # rs) = r # stored rs"
| "stored ((t, _) # rs) = stored rs"

definition checkpoint_in_hand :: "journal \<Rightarrow> (int \<times> json_object) list" where
  "checkpoint_in_hand j = (case next_command j of
     Some (CheckpointCommand t snapshot, _) \<Rightarrow> [(j_last_sequence j, sorted_object snapshot)] | _ \<Rightarrow> [])"

definition system_write :: "journal_config \<Rightarrow> sha \<Rightarrow> writer_io \<Rightarrow> journal_system \<Rightarrow> journal_system" where
  "system_write cfg sha io y =
    (let j = js_journal y; j' = writer_step cfg sha io j in
     y\<lparr>js_journal := j', js_acked := js_acked y @ stored (drop (length (j_replies j)) (j_replies j')),
       js_snaps := js_snaps y @ checkpoint_in_hand j\<rparr>)"

text \<open>
  A power failure takes the end of the newest segment, possibly leaving a cut-off line: \<open>n\<close> lines and
  \<open>rest\<close> stay. \<open>spares sha n start d\<close>: what it takes lies beyond the manifest and every checkpoint.
\<close>

definition spares :: "sha \<Rightarrow> int \<Rightarrow> disk \<Rightarrow> bool" where
  "spares sha L d \<longleftrightarrow> (\<forall>f v q dg jid. dk_manifest d = Some f \<longrightarrow> fl_json f = Some v
       \<longrightarrow> validate_manifest sha v = Inr (q, dg, jid) \<longrightarrow> q \<le> L)
     \<and> (\<forall>f \<in> snd ` set (dk_checkpoints d). \<forall>q dg sn. read_checkpoint sha f = Inr (q, dg, sn) \<longrightarrow> q \<le> L)"

inductive journal_step :: "journal_config \<Rightarrow> sha \<Rightarrow> journal_system \<Rightarrow> journal_system \<Rightarrow> bool"
  for cfg :: journal_config and sha :: sha where
  appending: "append_command kind payload boundary (js_journal y) = (r, j)
    \<Longrightarrow> journal_step cfg sha y (y\<lparr>js_journal := j\<rparr>)"
| checkpointing: "checkpoint_command snapshot (js_journal y) = (r, j) \<Longrightarrow> journal_step cfg sha y (y\<lparr>js_journal := j\<rparr>)"
| closing: "journal_step cfg sha y (y\<lparr>js_journal := close (js_journal y)\<rparr>)"
| failing: "journal_step cfg sha y (y\<lparr>js_journal := enter_recovery_required reason (js_journal y)\<rparr>)"
| writing: "journal_step cfg sha y (system_write cfg sha io y)"
| restarting: "AttemptJournal_new cfg sha late uid now create (j_disk (js_journal y)) = Inr j
    \<Longrightarrow> journal_step cfg sha y (y\<lparr>js_journal := j\<rparr>)"
| rotting: "read_checkpoint sha f' = Inl (ValueError msg) \<Longrightarrow> (name, f) \<in> set (dk_checkpoints (j_disk (js_journal y)))
    \<Longrightarrow> name \<noteq> damaged \<Longrightarrow> is_ok (read_checkpoint sha f)
    \<Longrightarrow> journal_step cfg sha y (y\<lparr>js_journal := (js_journal y)\<lparr>j_disk := (j_disk (js_journal y))
      \<lparr>dk_checkpoints := map (\<lambda>p. if fst p = damaged then (damaged, f') else p) (dk_checkpoints (j_disk (js_journal y)))\<rparr>\<rparr>\<rparr>)"
| power_loss: "d = j_disk (js_journal y) \<Longrightarrow> dk_segments d = pre @ [(start, sg)] \<Longrightarrow> n < length (sg_lines sg)
    \<Longrightarrow> spares sha (start + int n - 1) d \<Longrightarrow> rest = [] \<or> (\<exists>l. rest = [l] \<and> torn l)
    \<Longrightarrow> journal_step cfg sha y (y\<lparr>js_journal := (js_journal y)\<lparr>j_alive := False, j_disk := d\<lparr>dk_segments :=
      pre @ [(start, sg\<lparr>sg_lines := take n (sg_lines sg) @ rest\<rparr>)]\<rparr>\<rparr>\<rparr>)"

definition empty_disk :: disk where
  "empty_disk = \<lparr>dk_manifest = None, dk_checkpoints = [], dk_segments = [], dk_foreign = []\<rparr>"

definition journal_start :: "journal_config \<Rightarrow> sha \<Rightarrow> journal_system \<Rightarrow> bool" where
  "journal_start cfg sha y \<longleftrightarrow> (\<exists>late uid now. id_ok uid
     \<and> AttemptJournal_new cfg sha late uid now True empty_disk = Inr (js_journal y)) \<and> js_acked y = [] \<and> js_snaps y = []"

section \<open>The invariant of a run\<close>

fun command_ok :: "command \<Rightarrow> bool" where
  "command_ok (AppendCommand t kind payload b) \<longleftrightarrow> validate_payload kind payload = Inr payload"
| "command_ok (CheckpointCommand t snapshot) \<longleftrightarrow> validate_safe_value (JObj snapshot) 0 = Inr ()"
| "command_ok (StopCommand t) \<longleftrightarrow> True"

definition waiting :: "journal \<Rightarrow> command list" where
  "waiting j = (case j_pending j of None \<Rightarrow> [] | Some c \<Rightarrow> [c]) @ j_queue j"

definition acked_ok :: "LogRecord list \<Rightarrow> LogRecord list \<Rightarrow> int \<Rightarrow> bool" where
  "acked_ok acked hist a \<longleftrightarrow> (\<forall>r \<in> set acked. canon r \<in> set hist \<and> lr_sequence r \<le> a)"

definition journal_ok :: "sha \<Rightarrow> journal_system \<Rightarrow> bool" where
  "journal_ok sha y \<longleftrightarrow> (\<exists>hist a m. dlog sha (j_disk (js_journal y)) hist (set (js_snaps y)) a m
     \<and> acked_ok (js_acked y) hist a
     \<and> (j_alive (js_journal y) \<longrightarrow> ready sha (set (js_snaps y)) hist a (frame (js_journal y)) (js_journal y)))
     \<and> (\<forall>c \<in> set (waiting (js_journal y)). command_ok c)"

lemma stored_append [simp]: "stored (xs @ ys) = stored xs @ stored ys"
  by (induction xs rule: stored.induct) auto

lemma stored_map [simp]: "stored (map (\<lambda>(t, r). (t, Stored r)) xs) = map snd xs"
  by (induction xs) auto

lemma stored_failed [simp]: "stored (map (fail_command e) cs) = []"
proof (induction cs)
  case (Cons c cs)
  then show ?case by (cases c) auto
qed simp

lemma acked_ext: "acked_ok acked hist a \<Longrightarrow> a \<le> a' \<Longrightarrow> acked_ok acked (hist @ ext) a'"
  by (force simp: acked_ok_def)

lemma chain_sequence_le: "chain sha 1 ZERO_DIGEST hist \<Longrightarrow> r \<in> set hist \<Longrightarrow> lr_sequence r \<le> int (length hist)"
  by (auto simp: in_set_conv_nth dest!: chain_nth)

lemma canon_sequence [simp]: "lr_sequence (canon r) = lr_sequence r"
  by (simp add: canon_def)

lemma ready_frame:
  "ready sha snaps h a R s \<Longrightarrow> j_disk s' = j_disk s \<Longrightarrow> j_segment_fd s' = j_segment_fd s \<Longrightarrow> j_segment_start s' = j_segment_start s
    \<Longrightarrow> j_last_sequence s' = j_last_sequence s \<Longrightarrow> j_last_digest s' = j_last_digest s
    \<Longrightarrow> j_journal_id s' = j_journal_id s \<Longrightarrow> ready sha snaps h a (frame s') s'"
  by (simp add: ready_def open_ok_def)

lemma ready_snaps: "ready sha snaps h a R s \<Longrightarrow> snaps \<subseteq> snaps' \<Longrightarrow> ready sha snaps' h a R s"
  unfolding ready_def by (meson dlog_mono order_refl)

text \<open>\<open>advances\<close>: what one round of the writer may do to the history, the replies and the waiting commands.\<close>

definition advances :: "sha \<Rightarrow> (int \<times> json_object) set \<Rightarrow> LogRecord list \<Rightarrow> int \<Rightarrow> journal \<Rightarrow> journal \<Rightarrow> bool" where
  "advances sha snaps h a s s' \<longleftrightarrow> (\<exists>ext a' m rs. dlog sha (j_disk s') (h @ ext) snaps a' m \<and> a \<le> a'
     \<and> (j_alive s' \<longrightarrow> ready sha snaps (h @ ext) a' (frame s') s')
     \<and> j_replies s' = j_replies s @ rs \<and> acked_ok (stored rs) (h @ ext) a')
     \<and> set (waiting s') \<subseteq> set (waiting s)"

lemma writer_failed_advances:
  assumes S: "survives sha snaps h a (frame s) s'"
  shows "advances sha snaps h a s (writer_failed io e cs s')"
proof -
  let ?t = "writer_failed io e cs s'"
  obtain ext m where m: "dlog sha (j_disk s') (h @ ext) snaps a m" using S by (auto simp: survives_def)
  have rep: "j_replies s' = j_replies s" using S by (simp add: survives_def frame_def)
  have t: "j_disk ?t = j_disk s'" "\<not> j_alive ?t" "waiting ?t = []"
      "j_replies ?t = j_replies s' @ map (fail_command (normalized e)) (cs @ waiting s')"
    by (auto simp: writer_failed_def Let_def post_def flush_and_close_segment_def jbind_def jpure_def jmod_def waiting_def
      split: option.splits)
  have "acked_ok (stored (map (fail_command (normalized e)) (cs @ waiting s'))) (h @ ext) a"
    unfolding stored_failed by (simp add: acked_ok_def)
  then show ?thesis using m t rep unfolding advances_def
    by (intro conjI exI [of _ ext] exI [of _ a] exI [of _ m] exI [of _ "map (fail_command (normalized e)) (cs @ waiting s')"]) simp_all
qed

lemma posted_advances:
  assumes W: "ready sha snaps (h @ ext) a' (frame s) s'" and a: "a \<le> a'" and rs: "acked_ok (stored rs) (h @ ext) a'"
  shows "advances sha snaps h a s (post rs s')"
proof -
  have f: "frame s' = frame s" and "\<exists>m. dlog sha (j_disk s') (h @ ext) snaps a' m" using W by (auto simp: ready_def)
  then obtain m where m: "dlog sha (j_disk (post rs s')) (h @ ext) snaps a' m" by (auto simp: post_def)
  have "ready sha snaps (h @ ext) a' (frame (post rs s')) (post rs s')" by (rule ready_frame [OF W]) (simp_all add: post_def)
  moreover have "j_replies (post rs s') = j_replies s @ rs" "waiting (post rs s') = waiting s"
    using f by (simp_all add: post_def frame_def waiting_def)
  ultimately show ?thesis using m a rs unfolding advances_def
    by (intro conjI exI [of _ ext] exI [of _ a'] exI [of _ m] exI [of _ rs]) simp_all
qed

lemma run_batch_advances:
  assumes "hexdigest sha" "a \<le> int (length h)" "ready sha snaps h a (frame s) s"
    and "\<forall>(t, kind, p, b) \<in> set batch. validate_payload kind p = Inr p"
  shows "advances sha snaps h a s (run_batch cfg sha io batch s)"
proof (cases "write_append_batch cfg sha io batch s")
  case (Pair r s')
  note T = batch_ready [OF assms(1,2,4), of snaps "frame s" cfg io]
  show ?thesis
  proof (cases r)
    case (Inl e)
    then show ?thesis using writer_failed_advances jhoare_errD [OF T assms(3)] Pair by (simp add: run_batch_def)
  next
    case (Inr res)
    let ?ext = "map (canon \<circ> snd) res"
    have W: "ready sha snaps (h @ ?ext) (int (length h + length res)) (frame s) s'"
      using jhoare_okD [OF T assms(3)] Pair Inr by simp
    then have ch: "chain sha 1 ZERO_DIGEST (h @ ?ext)" by (auto simp: ready_def dlog_def)
    have "acked_ok (map snd res) (h @ ?ext) (int (length h + length res))"
      unfolding acked_ok_def
    proof
      fix x assume x: "x \<in> set (map snd res)"
      then have c: "canon x \<in> set (h @ ?ext)" by auto
      show "canon x \<in> set (h @ ?ext) \<and> lr_sequence x \<le> int (length h + length res)"
        using c chain_sequence_le [OF ch c] by simp
    qed
    then have "advances sha snaps h a s (post (map (\<lambda>(t, r). (t, Stored r)) res) s')"
      using assms(2) by (intro posted_advances [OF W]) simp_all
    then show ?thesis using Pair Inr by (simp add: run_batch_def)
  qed
qed

lemma run_checkpoint_advances:
  assumes "hexdigest sha" "ready sha snaps h a (frame s) s" "validate_safe_value (JObj snapshot) 0 = Inr ()"
    and "(int (length h), sorted_object snapshot) \<in> snaps"
  shows "advances sha snaps h a s (run_checkpoint sha io t snapshot s)"
proof (cases "write_checkpoint sha io snapshot s")
  case (Pair r s')
  note T = checkpoint_ready [OF assms(1,3,4), of a "frame s" io]
  show ?thesis
  proof (cases r)
    case (Inl e)
    then show ?thesis using writer_failed_advances jhoare_errD [OF T assms(2)] Pair by (simp add: run_checkpoint_def)
  next
    case (Inr u)
    then have "ready sha snaps (h @ []) a (frame s) s'" using jhoare_okD [OF T assms(2)] Pair by simp
    then have "advances sha snaps h a s (post [(t, Done)] s')" by (rule posted_advances) (simp_all add: acked_ok_def)
    then show ?thesis using Pair Inr by (simp add: run_checkpoint_def)
  qed
qed

lemma run_stop_advances:
  assumes "ready sha snaps h a (frame s) s"
  shows "advances sha snaps h a s (run_stop io t s)"
proof (cases "flush_and_close_segment io True s")
  case (Pair r s')
  note T = flush_ready [of sha snaps h a "frame s" io True]
  have S: "survives sha snaps h a (frame s) s'"
    using jhoareD [OF T assms] Pair by (auto intro: ready_survives split: sum.splits)
  then obtain ext m where m: "dlog sha (j_disk s') (h @ ext) snaps a m" by (auto simp: survives_def)
  have f: "frame s' = frame s" using S by (simp add: survives_def)
  let ?t = "run_stop io t s"
  have t: "j_disk ?t = j_disk s'" "\<not> j_alive ?t" "waiting ?t = waiting s"
      "\<exists>rs. j_replies ?t = j_replies s @ rs \<and> stored rs = []"
    using Pair f by (auto simp: run_stop_def post_def waiting_def frame_def split: sum.splits)
  then obtain rs where "j_replies ?t = j_replies s @ rs" "stored rs = []" by auto
  then show ?thesis using m t unfolding advances_def
    by (intro conjI exI [of _ ext] exI [of _ a] exI [of _ m] exI [of _ rs]) (simp_all add: acked_ok_def)
qed


definition append_of :: "append_item \<Rightarrow> command" where
  "append_of i = (case i of (t, kind, p, b) \<Rightarrow> AppendCommand t kind p b)"

lemma collect_batch_split:
  "collect_batch room arrivals q = (items, pend, rest) \<Longrightarrow>
    q = map append_of items @ (case pend of None \<Rightarrow> [] | Some c \<Rightarrow> [c]) @ rest"
  by (induction room arrivals q arbitrary: items pend rest rule: collect_batch.induct)
    (auto simp: append_of_def split: prod.splits)

lemma next_command_Some:
  assumes "next_command s = Some (c, s')"
  shows "waiting s = c # waiting s' \<and> j_replies s' = j_replies s \<and> j_pending s' = None
    \<and> (\<forall>sha snaps h a R. ready sha snaps h a R s \<longrightarrow> ready sha snaps h a (frame s') s')
    \<and> j_last_sequence s' = j_last_sequence s"
proof -
  have eq: "s' = s\<lparr>j_pending := None\<rparr> \<or> (\<exists>q. s' = s\<lparr>j_queue := q\<rparr> \<and> j_pending s = None)"
    using assms by (auto simp: next_command_def split: option.splits list.splits)
  then have "ready sha snaps h a (frame s') s'" if "ready sha snaps h a R s" for sha snaps h a R
    by (rule disjE) (use ready_frame [OF that, of s'] in auto)
  then show ?thesis using assms by (auto simp: next_command_def waiting_def split: option.splits list.splits)
qed

lemma advances_shift:
  "advances sha snaps h a s s' \<Longrightarrow> j_replies s = j_replies s0 \<Longrightarrow> set (waiting s) \<subseteq> set (waiting s0)
    \<Longrightarrow> advances sha snaps h a s0 s'"
  by (auto simp: advances_def)

lemma advances_refl:
  assumes "ready sha snaps h a (frame s) s"
  shows "advances sha snaps h a s s"
proof -
  obtain m where "dlog sha (j_disk s) h snaps a m" using assms by (auto simp: ready_def)
  then show ?thesis using assms unfolding advances_def
    by (intro conjI exI [of _ "[]"] exI [of _ a] exI [of _ m]) (simp_all add: acked_ok_def)
qed

lemma writer_step_advances:
  assumes hex: "hexdigest sha" and a: "a \<le> int (length h)" and W: "ready sha snaps h a (frame s0) s0"
    and ok: "\<forall>c \<in> set (waiting s0). command_ok c"
    and snaps: "set (checkpoint_in_hand s0) \<subseteq> snaps"
  shows "advances sha snaps h a s0 (writer_step cfg sha io s0)"
proof (cases "next_command (s0\<lparr>j_fault := io_fault io\<rparr>)")
  case None
  then show ?thesis using advances_refl [OF W] by (simp add: writer_step_def)
next
  case (Some cs)
  obtain c s where cs: "cs = (c, s)" by (cases cs)
  let ?s1 = "s0\<lparr>j_fault := io_fault io\<rparr>"
  have n: "waiting ?s1 = c # waiting s" "j_replies s = j_replies ?s1" "j_pending s = None" "j_last_sequence s = j_last_sequence ?s1"
    using next_command_Some Some cs by blast+
  have "ready sha snaps h a (frame s0) ?s1" using W by simp
  then have R: "ready sha snaps h a (frame s) s" using next_command_Some Some cs by blast
  have w0: "waiting ?s1 = waiting s0" by (simp add: waiting_def)
  have same: "j_replies s = j_replies s0" "set (waiting s) \<subseteq> set (waiting s0)" using n w0 by auto
  have c_ok: "command_ok c" using ok n(1) w0 by simp
  show ?thesis
  proof (cases "j_alive s0")
    case False
    then show ?thesis using advances_refl [OF W] by (simp add: writer_step_def)
  next
    case True
    show ?thesis
    proof (cases c)
      case (AppendCommand t kind p b)
      obtain items pend rest where col: "collect_batch (jc_max_group_records cfg - 1) (io_arrivals io) (j_queue s) = (items, pend, rest)"
        by (cases "collect_batch (jc_max_group_records cfg - 1) (io_arrivals io) (j_queue s)")
      let ?t = "s\<lparr>j_pending := pend, j_queue := rest\<rparr>" and ?batch = "(t, kind, p, b) # items"
      have q: "j_queue s = map append_of items @ waiting ?t"
        using collect_batch_split [OF col] by (simp add: waiting_def)
      then have qs: "set (map append_of items @ waiting ?t) \<subseteq> set (waiting s)" using n(3) by (simp add: waiting_def)
      have "ready sha snaps h a (frame ?t) ?t" by (rule ready_frame [OF R]) simp_all
      moreover have "\<forall>(t, kind, p, b) \<in> set ?batch. validate_payload kind p = Inr p"
      proof
        fix i assume i: "i \<in> set ?batch"
        have "command_ok (append_of i)"
        proof (cases "i = (t, kind, p, b)")
          case True
          then show ?thesis using c_ok AppendCommand by (simp add: append_of_def)
        next
          case False
          then have "append_of i \<in> set (waiting s0)" using i qs same(2) by auto
          then show ?thesis using ok by blast
        qed
        then show "case i of (t, kind, p, b) \<Rightarrow> validate_payload kind p = Inr p" by (cases i) (simp add: append_of_def)
      qed
      ultimately have "advances sha snaps h a ?t (run_batch cfg sha io ?batch ?t)"
        by (rule run_batch_advances [OF hex a])
      then have "advances sha snaps h a s0 (run_batch cfg sha io ?batch ?t)"
        by (rule advances_shift) (use same qs in auto)
      then show ?thesis using True Some cs AppendCommand col by (simp add: writer_step_def)
    next
      case (CheckpointCommand t snapshot)
      have "next_command s0 = Some (CheckpointCommand t snapshot, s\<lparr>j_fault := j_fault s0\<rparr>)"
        using Some cs CheckpointCommand by (auto simp: next_command_def split: option.splits list.splits)
      then have "checkpoint_in_hand s0 = [(int (length h), sorted_object snapshot)]"
        using W by (simp add: checkpoint_in_hand_def ready_def)
      then have "advances sha snaps h a s (run_checkpoint sha io t snapshot s)"
        using snaps c_ok CheckpointCommand by (intro run_checkpoint_advances [OF hex R]) auto
      then show ?thesis using True Some cs CheckpointCommand advances_shift [OF _ same] by (simp add: writer_step_def)
    next
      case (StopCommand t)
      then show ?thesis using True Some cs advances_shift [OF run_stop_advances [OF R] same] by (simp add: writer_step_def)
    qed
  qed
qed


section \<open>A restart\<close>

abbreviation deadline_error :: py_error where
  "deadline_error \<equiv> TimeoutError ''recovery_deadline_exceeded''"

lemma deadline_cases: "check_recovery_deadline late n = Inr (n + 1) \<or> check_recovery_deadline late n = Inl deadline_error"
  by (simp add: check_recovery_deadline_def)

lemma read_checkpoints_late:
  "read_checkpoints sha late n fs = read_checkpoints sha never n fs \<or> read_checkpoints sha late n fs = Inl deadline_error"
proof (induction fs arbitrary: n)
  case (Cons p fs)
  obtain name f where p: "p = (name, f)" by (cases p)
  show ?case
  proof (cases "read_checkpoint sha f")
    case (Inl e)
    then show ?thesis using deadline_cases [of late n] Cons.IH [of "Suc n"] p by (cases e) auto
  next
    case (Inr t)
    then show ?thesis using deadline_cases [of late n] Cons.IH [of "Suc n"] p by (cases t) auto
  qed
qed simp

lemma scan_lines_kept: "snd (scan_lines sha late mx c False acc ls st) = None"
  by (induction ls arbitrary: acc st) (auto simp: Let_def split: sum.splits option.splits)

lemma scan_lines_late:
  "scan_lines sha late mx c newest acc ls st = scan_lines sha never mx c newest acc ls st
    \<or> scan_lines sha late mx c newest acc ls st = (Inl deadline_error, None)"
proof (induction ls arbitrary: acc st)
  case (Cons l ls)
  show ?case
  proof (cases "sl_json l")
    case None
    then show ?thesis using deadline_cases [of late "sc_ticks st"] by (auto simp: Let_def)
  next
    case (Some v)
    let ?r = "res_bind (decode_record sha v) (\<lambda>r. accept_record mx c r (st\<lparr>sc_ticks := Suc (sc_ticks st)\<rparr>))"
    show ?thesis
    proof (cases ?r)
      case (Inl e)
      then show ?thesis using Some deadline_cases [of late "sc_ticks st"] by (auto simp: Let_def)
    next
      case (Inr st')
      then show ?thesis using Some deadline_cases [of late "sc_ticks st"] Cons.IH [of "acc @ [l]" st'] by (auto simp: Let_def)
    qed
  qed
qed simp

lemma scan_segments_late:
  "scan_segments sha late mx c sgs st d = scan_segments sha never mx c sgs st d
    \<or> scan_segments sha late mx c sgs st d = (Inl deadline_error, d)"
proof (induction sgs arbitrary: st d)
  case (Cons p sgs)
  obtain start sg where p: "p = (start, sg)" by (cases p)
  let ?st = "st\<lparr>sc_ticks := Suc (sc_ticks st)\<rparr>"
  show ?case
  proof (cases "check_recovery_deadline late (sc_ticks st) = Inl deadline_error")
    case True
    then show ?thesis using p by simp
  next
    case False
    then have tick: "check_recovery_deadline late (sc_ticks st) = Inr (sc_ticks st + 1)" using deadline_cases by blast
    show ?thesis
    proof (cases "scan_lines sha late mx c (sgs = []) [] (sg_lines sg) ?st = (Inl deadline_error, None)")
      case True
      then show ?thesis using p tick by simp
    next
      case False
      then have same: "scan_lines sha late mx c (sgs = []) [] (sg_lines sg) ?st = scan_lines sha never mx c (sgs = []) [] (sg_lines sg) ?st"
        using scan_lines_late by blast
      show ?thesis
      proof (cases "sgs = []")
        case True
        then show ?thesis using p tick same by (auto simp: Let_def split: prod.splits sum.splits)
      next
        case sgs: False
        obtain r kept where rk: "scan_lines sha never mx c (sgs = []) [] (sg_lines sg) ?st = (r, kept)" by fastforce
        then have "kept = None" using scan_lines_kept [of sha never mx c "[]" "sg_lines sg" ?st] sgs by simp
        with rk have r: "scan_lines sha never mx c (sgs = []) [] (sg_lines sg) ?st = (r, None)" by simp
        show ?thesis using p tick same r Cons.IH by (cases r) (auto simp: Let_def)
      qed
    qed
  qed
qed simp

lemma recover_body_late:
  "recover_body sha late mx d q dg = recover_body sha never mx d q dg
    \<or> (\<exists>d'. recover_body sha late mx d q dg = (Inl deadline_error, d') \<and> (d' = d \<or> d' = snd (recover_body sha never mx d q dg)))"
proof (cases "read_checkpoints sha late 0 (sort_key fst (dk_checkpoints d)) = Inl deadline_error")
  case True
  then show ?thesis by (simp add: recover_body_def)
next
  case False
  then have cs: "read_checkpoints sha late 0 (sort_key fst (dk_checkpoints d)) = read_checkpoints sha never 0 (sort_key fst (dk_checkpoints d))"
    using read_checkpoints_late by blast
  show ?thesis
  proof (cases "read_checkpoints sha never 0 (sort_key fst (dk_checkpoints d))")
    case (Inl e)
    then show ?thesis using cs by (simp add: recover_body_def)
  next
    case (Inr t)
    obtain cs0 n where t: "t = (cs0, n)" by (cases t)
    obtain cseq cdg cp where nc: "newest_checkpoint (sort_key checkpoint_order cs0) = (cseq, cdg, cp)"
      by (cases "newest_checkpoint (sort_key checkpoint_order cs0)")
    let ?st = "\<lparr>sc_expected = cseq + 1, sc_previous = cdg, sc_records = [], sc_ticks = n\<rparr>"
    let ?scan = "\<lambda>late. scan_segments sha late mx cseq (sort_key fst (dk_segments d)) ?st d"
    show ?thesis
    proof (cases "?scan late = ?scan never")
      case False
      then have "?scan late = (Inl deadline_error, d)" using scan_segments_late by blast
      then show ?thesis using cs Inr t nc by (simp add: recover_body_def Let_def)
    next
      case True
      obtain r d' where r: "?scan never = (r, d')" by (cases "?scan never")
      show ?thesis
      proof (cases r)
        case (Inl e)
        then show ?thesis using cs Inr t nc True r by (simp add: recover_body_def Let_def)
      next
        case (Inr st)
        show ?thesis using cs \<open>read_checkpoints sha never 0 _ = Inr t\<close> t nc True r Inr deadline_cases [of late "sc_ticks st"]
          by (cases "manifest_high_water q dg st") (auto simp: recover_body_def Let_def)
      qed
    qed
  qed
qed

lemma recover_late:
  "recover sha late mx uid d = recover sha never mx uid d
    \<or> (\<exists>jid d'. recover sha late mx uid d = (Inr (failed_recovery ''recovery_deadline_exceeded''), jid, d')
      \<and> (d' = d \<or> d' = snd (snd (recover sha never mx uid d))))"
proof (cases "res_bind (case dk_manifest d of None \<Rightarrow> Inl OSError | Some f \<Rightarrow> json_loads (fl_json f)) (validate_manifest sha)")
  case (Inl e)
  then show ?thesis by (simp add: recover_def)
next
  case (Inr t)
  obtain q dg jid where t: "t = (q, dg, jid)" by (cases t)
  show ?thesis using recover_body_late [of sha late mx d q dg] Inr t
    by (auto simp: recover_def split: prod.splits)
qed


lemma dlog_trim:
  assumes log: "dlog sha d hist snaps a m"
  shows "dlog sha (d\<lparr>dk_segments := trim_tail (dk_segments d)\<rparr>) hist snaps a m \<and> clean (trim_tail (dk_segments d))"
proof -
  have on: "log_on (int m + 1) (drop m hist) (dk_segments d)" using log by (simp add: dlog_def)
  have "log_on (int m + 1) (drop m hist) (trim_tail (dk_segments d)) \<and> clean (trim_tail (dk_segments d))"
  proof (cases "trim_tail (dk_segments d) = dk_segments d")
    case True
    have "clean (dk_segments d)"
    proof (rule ccontr)
      assume "\<not> clean (dk_segments d)"
      then have ne: "dk_segments d \<noteq> []" "sg_lines (snd (last (dk_segments d))) \<noteq> []" "torn (last (sg_lines (snd (last (dk_segments d)))))"
        by (auto simp: clean_def)
      then have "trim_tail (dk_segments d) = butlast (dk_segments d) @ [(fst (last (dk_segments d)),
          \<lparr>sg_lines = butlast (sg_lines (snd (last (dk_segments d)))), sg_synced = length (sg_lines (snd (last (dk_segments d)))) - 1\<rparr>)]"
        by (simp add: trim_tail_def)
      then have "sg_lines (snd (last (dk_segments d))) = butlast (sg_lines (snd (last (dk_segments d))))"
        using True by (metis last_snoc segment.select_convs(1) snd_conv)
      then show False using ne(2) by (metis length_butlast length_greater_0_conv diff_less less_irrefl zero_less_one)
    qed
    then show ?thesis using True on by simp
  next
    case False
    then have ne: "dk_segments d \<noteq> []" "torn (last (sg_lines (snd (last (dk_segments d)))))"
      by (auto simp: trim_tail_def split: if_splits)
    obtain pre sg rs1 rs2 where *: "dk_segments d = pre @ [(int m + 1 + int (length rs1), sg)]" "drop m hist = rs1 @ rs2"
      "fulls (int m + 1) rs1 pre" "tail_holds rs2 (sg_lines sg)"
      using on ne(1) by (auto simp: log_on_def)
    have tl: "torn (last (sg_lines sg))" using ne(2) *(1) by simp
    have "trim_tail (dk_segments d) \<noteq> dk_segments d" by (rule False)
    then have nl: "sg_lines sg \<noteq> []" using *(1) by (auto simp: trim_tail_def)
    then obtain ls0 l where l: "sg_lines sg = ls0 @ [l]" "lines_hold rs2 ls0"
      using *(4) tl lines_hold_not_torn by (fastforce simp: tail_holds_def)
    have tr: "trim_tail (dk_segments d) = pre @ [(int m + 1 + int (length rs1), \<lparr>sg_lines = ls0, sg_synced = length ls0\<rparr>)]"
      using *(1) l tl by (simp add: trim_tail_def)
    show ?thesis unfolding tr
      using log_onI [OF *(3), of rs2 "\<lparr>sg_lines = ls0, sg_synced = length ls0\<rparr>"] *(2) l(2) lines_hold_not_torn [OF l(2)]
      by (auto simp: tail_holds_def clean_def)
  qed
  then show ?thesis using dlog_segments [OF log, of "[]"] log by (simp add: dlog_def)
qed

lemma manifest_id_ok:
  assumes "validate_manifest sha v = Inr (q, dg, jid)"
  shows "id_ok jid"
proof (cases v)
  case (JObj d)
  define K where "K = set [''version'', ''journal_id'', ''last_sequence'', ''last_digest'', ''digest'']"
  show ?thesis using assms unfolding validate_manifest_def JObj JsonValue.case K_def [symmetric]
    by (auto simp: id_ok_def split: if_split_asm option.split_asm)
qed (use assms in \<open>simp_all add: validate_manifest_def\<close>)

lemma restart_ok:
  assumes log: "dlog sha d hist snaps a m" and new: "AttemptJournal_new cfg sha late uid now create d = Inr j"
  shows "dlog sha (j_disk j) hist snaps a m \<and> (j_alive j \<longrightarrow> ready sha snaps hist a (frame j) j) \<and> waiting j = []"
proof -
  have "dk_manifest d \<noteq> None" using log by (auto simp: dlog_def manifest_fits_def)
  then have op: "open_journal cfg sha late uid now d = Inr j" using new by (auto simp: AttemptJournal_new_def res_bind_Inr)
  obtain c cp k jid where c: "c \<le> length hist"
    and mf: "\<exists>f q dg. dk_manifest d = Some f \<and> res_bind (json_loads (fl_json f)) (validate_manifest sha) = Inr (q, dg, jid)"
    and rc: "recover sha never (jc_max_replay_records cfg) uid d =
      (if length hist - c \<le> jc_max_replay_records cfg
       then (Inr (recovered hist c cp k), jid, d\<lparr>dk_segments := trim_tail (dk_segments d)\<rparr>)
       else (Inr (failed_recovery ''replay_record_bound_exceeded''), jid, d))"
    using recover_dlog [OF log] by metis
  have id: "id_ok jid" using mf by (auto simp: res_bind_Inr dest: manifest_id_ok)
  let ?d = "d\<lparr>dk_segments := trim_tail (dk_segments d)\<rparr>"
  note trim = dlog_trim [OF log]
  obtain r jid' d' where r: "recover sha late (jc_max_replay_records cfg) uid d = (Inr r, jid', d')"
    and d': "d' = d \<or> d' = ?d" and alive: "jv_status r = JS_HEALTHY \<Longrightarrow> r = recovered hist c cp k \<and> jid' = jid \<and> d' = ?d"
    using recover_late [of sha late "jc_max_replay_records cfg" uid d] rc
    by (auto simp: failed_recovery_def split: if_splits)
  have j: "j = journal_of jid' now r d'" using op r by (simp add: open_journal_def)
  have "dlog sha d' hist snaps a m" using d' log trim by auto
  moreover have "ready sha snaps hist a (frame j) j" if "j_alive j"
  proof -
    have "jv_status r = JS_HEALTHY" using that by (simp add: j journal_of_def)
    then show ?thesis using alive trim id unfolding ready_def by (auto simp: j journal_of_def recovered_def open_ok_def)
  qed
  ultimately show ?thesis by (simp add: j journal_of_def waiting_def)
qed

lemma list_take_hold: "lines_hold rs ls \<Longrightarrow> lines_hold (take n rs) (take n ls)"
  by (simp add: list_all2_takeI)

lemma power_loss_ok:
  assumes log: "dlog sha d hist snaps a m" and sgs: "dk_segments d = pre @ [(start, sg)]" and n: "n < length (sg_lines sg)"
    and sp: "spares sha (start + int n - 1) d" and rest: "rest = [] \<or> (\<exists>l. rest = [l] \<and> torn l)"
    and acked: "acked_ok acked hist a"
  shows "\<exists>hist'. dlog sha (d\<lparr>dk_segments := pre @ [(start, sg\<lparr>sg_lines := take n (sg_lines sg) @ rest\<rparr>)]\<rparr>) hist' snaps a m
    \<and> acked_ok acked hist' a"
proof -
  have on: "log_on (int m + 1) (drop m hist) (pre @ [(start, sg)])" and m: "m \<le> length hist"
    and ch: "chain sha 1 ZERO_DIGEST hist" using log sgs by (simp_all add: dlog_def)
  then obtain rs1 rs2 where *: "start = int m + 1 + int (length rs1)" "drop m hist = rs1 @ rs2"
    "fulls (int m + 1) rs1 pre" "tail_holds rs2 (sg_lines sg)" by (auto simp: log_on_def)
  have hold: "lines_hold (take n rs2) (take n (sg_lines sg))"
    using *(4) n by (auto simp: tail_holds_def intro: list_take_hold)
  have len: "n \<le> length rs2" using *(4) n by (auto simp: tail_holds_def dest!: list_all2_lengthD)
  define L where "L = m + length rs1 + n"
  have Lh: "L \<le> length hist" using arg_cong [OF *(2), of length] m len by (simp add: L_def)
  have drop: "drop m (take L hist) = rs1 @ take n rs2" using *(2) by (simp add: L_def drop_take)
  have start: "start + int n - 1 = int L" using *(1) by (simp add: L_def)
  have on': "log_on (int m + 1) (drop m (take L hist)) (pre @ [(start, sg\<lparr>sg_lines := take n (sg_lines sg) @ rest\<rparr>)])"
    by (rule log_onI [OF *(3), of "take n rs2"]) (use hold rest *(1) drop in \<open>auto simp: tail_holds_def\<close>)
  have ch': "chain sha 1 ZERO_DIGEST (take L hist)" using ch chain_append [of sha 1 ZERO_DIGEST "take L hist" "drop L hist"] by simp
  have tip: "tip_at (take L hist) q = tip_at hist q" if "q \<le> L" for q using that by (simp add: tip_at_def min_def)
  have cps: "\<forall>f \<in> snd ` set (dk_checkpoints d). cp_fits sha (take L hist) snaps m f"
  proof
    fix f assume f: "f \<in> snd ` set (dk_checkpoints d)"
    have "cp_fits sha hist snaps m f" using log f unfolding dlog_def by blast
    moreover have "q \<le> int L" if "read_checkpoint sha f = Inr (q, dg, sn)" for q dg sn
      using sp f that unfolding spares_def start by blast
    ultimately show "cp_fits sha (take L hist) snaps m f" using Lh tip by (auto simp: cp_fits_def nat_le_iff split: sum.splits)
  qed
  have mf: "manifest_fits sha (take L hist) a (dk_manifest d) \<and> a \<le> int L"
  proof -
    obtain f v q dg jid where q: "dk_manifest d = Some f" "fl_json f = Some v" "validate_manifest sha v = Inr (q, dg, jid)"
      "a \<le> q" "q \<le> int (length hist)" "dg = tip_at hist (nat q)"
      using log by (auto simp: dlog_def manifest_fits_def)
    have "q \<le> int L" using sp q(1-3) unfolding spares_def start by blast
    then show ?thesis using q Lh tip [of "nat q"] unfolding manifest_fits_def by (auto simp: nat_le_iff)
  qed
  have "dlog sha (d\<lparr>dk_segments := pre @ [(start, sg\<lparr>sg_lines := take n (sg_lines sg) @ rest\<rparr>)]\<rparr>) (take L hist) snaps a m"
    using log on' ch' cps mf Lh by (auto simp: dlog_def L_def)
  moreover have "acked_ok acked (take L hist) a"
    unfolding acked_ok_def
  proof
    fix r assume r: "r \<in> set acked"
    then have c: "canon r \<in> set hist" "lr_sequence r \<le> a" using acked by (auto simp: acked_ok_def)
    then obtain i where i: "i < length hist" "hist ! i = canon r" by (auto simp: in_set_conv_nth)
    have "lr_sequence (canon r) = int i + 1" using chain_nth [OF ch i(1)] i(2) by simp
    then have "i < L" using c(2) mf by simp
    then have "canon r \<in> set (take L hist)" using i by (auto simp: in_set_conv_nth intro!: exI [of _ i])
    then show "canon r \<in> set (take L hist) \<and> lr_sequence r \<le> a" using c(2) by simp
  qed
  ultimately show ?thesis by blast
qed


section \<open>The invariant of every run\<close>

lemma journal_okI:
  "dlog sha (j_disk (js_journal y)) hist (set (js_snaps y)) a m \<Longrightarrow> acked_ok (js_acked y) hist a \<Longrightarrow>
    (j_alive (js_journal y) \<Longrightarrow> ready sha (set (js_snaps y)) hist a (frame (js_journal y)) (js_journal y)) \<Longrightarrow>
    \<forall>c \<in> set (waiting (js_journal y)). command_ok c \<Longrightarrow> journal_ok sha y"
  by (auto simp: journal_ok_def)

lemma journal_okE:
  assumes "journal_ok sha y"
  obtains hist a m where "dlog sha (j_disk (js_journal y)) hist (set (js_snaps y)) a m" "acked_ok (js_acked y) hist a"
    "j_alive (js_journal y) \<Longrightarrow> ready sha (set (js_snaps y)) hist a (frame (js_journal y)) (js_journal y)"
    "\<forall>c \<in> set (waiting (js_journal y)). command_ok c"
  using assms by (auto simp: journal_ok_def)

text \<open>\<open>queues j j'\<close>: the caller's side of an operation only adds commands that are well formed.\<close>

definition queues :: "journal \<Rightarrow> journal \<Rightarrow> bool" where
  "queues j j' \<longleftrightarrow> j_disk j' = j_disk j \<and> j_segment_fd j' = j_segment_fd j \<and> j_segment_start j' = j_segment_start j
     \<and> j_last_sequence j' = j_last_sequence j \<and> j_last_digest j' = j_last_digest j \<and> j_journal_id j' = j_journal_id j
     \<and> j_alive j' = j_alive j \<and> (\<exists>cs. waiting j' = waiting j @ cs \<and> (\<forall>c \<in> set cs. command_ok c))"

lemma queues_ok:
  assumes "journal_ok sha y" "queues (js_journal y) j"
  shows "journal_ok sha (y\<lparr>js_journal := j\<rparr>)"
  using assms(1)
proof (rule journal_okE)
  fix hist a m
  assume "dlog sha (j_disk (js_journal y)) hist (set (js_snaps y)) a m" "acked_ok (js_acked y) hist a"
    "j_alive (js_journal y) \<Longrightarrow> ready sha (set (js_snaps y)) hist a (frame (js_journal y)) (js_journal y)"
    "\<forall>c \<in> set (waiting (js_journal y)). command_ok c"
  with assms(2) show ?thesis
    by (intro journal_okI) (auto simp: queues_def intro: ready_frame)
qed

lemma waiting_snoc: "waiting (j\<lparr>j_queue := j_queue j @ [c], j_next_ticket := n\<rparr>) = waiting j @ [c]"
  by (simp add: waiting_def split: option.split)

lemma append_queues: "append_command kind payload boundary j = (r, j') \<Longrightarrow> queues j j'"
  by (auto simp: append_command_def put_nowait_def queues_def waiting_snoc validate_payload_Inr split: sum.splits if_splits)

lemma checkpoint_queues: "checkpoint_command snapshot j = (r, j') \<Longrightarrow> queues j j'"
  by (auto simp: checkpoint_command_def put_nowait_def queues_def waiting_snoc split: sum.splits if_splits)

lemma stop_queues: "queues j (close j)" "queues j (enter_recovery_required reason j)"
  by (auto simp: close_def enter_recovery_required_def put_stop_def queues_def waiting_def split: option.split)

lemma start_ok:
  assumes hex: "hexdigest sha" and st: "journal_start cfg sha y"
  shows "journal_ok sha y"
proof -
  obtain late uid now where uid: "id_ok uid" and new: "AttemptJournal_new cfg sha late uid now True empty_disk = Inr (js_journal y)"
    and none: "js_acked y = []" "js_snaps y = []" using st by (auto simp: journal_start_def)
  let ?f = "file_of (manifest_document sha 0 ZERO_DIGEST uid)"
  have j: "js_journal y = journal_of uid now healthy_start (empty_disk\<lparr>dk_manifest := Some ?f\<rparr>)"
    using new by (auto simp: AttemptJournal_new_def res_bind_Inr empty_disk_def)
  have v: "validate_manifest sha (sorted_json (manifest_document sha 0 ZERO_DIGEST uid)) = Inr (0, ZERO_DIGEST, uid)"
    by (rule validate_written_manifest) (use uid in \<open>simp_all add: id_ok_def\<close>)
  have log: "dlog sha (j_disk (js_journal y)) [] {} 0 0"
    using v by (auto simp: j journal_of_def dlog_def empty_disk_def log_on_def manifest_fits_def file_of_def)
  then have "\<exists>m. dlog sha (j_disk (js_journal y)) [] {} 0 m" ..
  then have "ready sha {} [] 0 (frame (js_journal y)) (js_journal y)"
    using uid by (auto simp: ready_def clean_def open_ok_def j journal_of_def empty_disk_def healthy_start_def failed_recovery_def)
  then show ?thesis using log none
    by (intro journal_okI [of sha y "[]" 0 0]) (auto simp: acked_ok_def j journal_of_def waiting_def)
qed

lemma write_ok:
  assumes hex: "hexdigest sha" and ok: "journal_ok sha y"
  shows "journal_ok sha (system_write cfg sha io y)"
  using ok
proof (rule journal_okE)
  let ?j = "js_journal y"
  let ?j' = "writer_step cfg sha io ?j" and ?snaps = "set (js_snaps y) \<union> set (checkpoint_in_hand ?j)"
  fix hist a m
  assume log: "dlog sha (j_disk ?j) hist (set (js_snaps y)) a m" and acked: "acked_ok (js_acked y) hist a"
    and rdy: "j_alive ?j \<Longrightarrow> ready sha (set (js_snaps y)) hist a (frame ?j) ?j" and cmds: "\<forall>c \<in> set (waiting ?j). command_ok c"
  show ?thesis
  proof (cases "j_alive ?j")
    case False
    have "?j' = ?j" using False by (simp add: writer_step_def)
    then show ?thesis using log acked cmds False dlog_mono [OF log, of ?snaps a]
      by (intro journal_okI [of sha _ hist a m]) (auto simp: system_write_def Let_def)
  next
    case True
    have a: "a \<le> int (length hist)" using log by (auto simp: dlog_def manifest_fits_def)
    have W: "ready sha ?snaps hist a (frame ?j) ?j" by (rule ready_snaps [OF rdy [OF True]]) simp
    have "advances sha ?snaps hist a ?j ?j'" by (rule writer_step_advances [OF hex a W cmds]) simp
    then obtain ext a' m' rs where adv: "dlog sha (j_disk ?j') (hist @ ext) ?snaps a' m'" "a \<le> a'"
      "j_alive ?j' \<longrightarrow> ready sha ?snaps (hist @ ext) a' (frame ?j') ?j'" "j_replies ?j' = j_replies ?j @ rs"
      "acked_ok (stored rs) (hist @ ext) a'" and sub: "set (waiting ?j') \<subseteq> set (waiting ?j)"
      unfolding advances_def by blast
    have "acked_ok (js_acked y @ stored rs) (hist @ ext) a'"
      using acked_ext [OF acked adv(2), of ext] adv(5) by (auto simp: acked_ok_def)
    then show ?thesis using adv sub cmds
      by (intro journal_okI [of sha _ "hist @ ext" a' m']) (auto simp: system_write_def Let_def)
  qed
qed

lemma dlog_checkpoints:
  assumes "dlog sha d hist snaps a m" "\<forall>f \<in> snd ` set cs. cp_fits sha hist snaps m f" "dict_wf cs"
    "\<exists>f \<in> snd ` set cs. is_ok (read_checkpoint sha f)"
  shows "dlog sha (d\<lparr>dk_checkpoints := cs\<rparr>) hist snaps a m"
  using assms by (simp add: dlog_def)

lemma rot_ok:
  assumes log: "dlog sha d hist snaps a m" and f': "read_checkpoint sha f' = Inl (ValueError msg)"
    and f: "(name, f) \<in> set (dk_checkpoints d)" "name \<noteq> damaged" "is_ok (read_checkpoint sha f)"
  shows "dlog sha (d\<lparr>dk_checkpoints := map (\<lambda>p. if fst p = damaged then (damaged, f') else p) (dk_checkpoints d)\<rparr>) hist snaps a m"
proof -
  let ?g = "\<lambda>p. if fst p = damaged then (damaged, f') else p"
  have keys: "map fst (map ?g (dk_checkpoints d)) = map fst (dk_checkpoints d)" by (auto simp: comp_def intro!: map_cong)
  have "cp_fits sha hist snaps m f'" using f' by (simp add: cp_fits_def)
  then have fit: "\<forall>x \<in> snd ` set (map ?g (dk_checkpoints d)). cp_fits sha hist snaps m x" using log by (auto simp: dlog_def)
  have "?g (name, f) \<in> ?g ` set (dk_checkpoints d)" using f(1) by (rule imageI)
  then have "(name, f) \<in> set (map ?g (dk_checkpoints d))" using f(2) by simp
  then have some: "\<exists>x \<in> snd ` set (map ?g (dk_checkpoints d)). is_ok (read_checkpoint sha x)"
    using f(3) by (intro bexI [of _ f]) (auto intro: rev_image_eqI)
  have wf: "dict_wf (map ?g (dk_checkpoints d))" using log unfolding dlog_def keys by blast
  show ?thesis by (rule dlog_checkpoints [OF log fit wf some])
qed

lemma step_ok:
  assumes hex: "hexdigest sha" and ok: "journal_ok sha y" and st: "journal_step cfg sha y z"
  shows "journal_ok sha z"
  using st
proof cases
  case (appending kind payload boundary r j)
  then show ?thesis using queues_ok [OF ok append_queues] by simp
next
  case (checkpointing snapshot r j)
  then show ?thesis using queues_ok [OF ok checkpoint_queues] by simp
next
  case closing
  then show ?thesis using queues_ok [OF ok stop_queues(1)] by simp
next
  case (failing reason)
  then show ?thesis using queues_ok [OF ok stop_queues(2)] by simp
next
  case (writing io)
  then show ?thesis using write_ok [OF hex ok] by simp
next
  case (restarting late uid now create j)
  from ok show ?thesis
  proof (rule journal_okE)
    fix hist a m
    assume "dlog sha (j_disk (js_journal y)) hist (set (js_snaps y)) a m" and acked: "acked_ok (js_acked y) hist a"
    from restart_ok [OF this(1) restarting(2)] acked show ?thesis unfolding restarting(1)
      by (intro journal_okI [of sha _ hist a m]) simp_all
  qed
next
  case (rotting f' msg name f damaged)
  from ok show ?thesis
  proof (rule journal_okE)
    fix hist a m
    assume H: "dlog sha (j_disk (js_journal y)) hist (set (js_snaps y)) a m" "acked_ok (js_acked y) hist a"
      "j_alive (js_journal y) \<Longrightarrow> ready sha (set (js_snaps y)) hist a (frame (js_journal y)) (js_journal y)"
      "\<forall>c \<in> set (waiting (js_journal y)). command_ok c"
    note rot = rot_ok [OF H(1) rotting(2-5)]
    show ?thesis unfolding rotting(1)
      by (rule journal_okI [of sha _ hist a m]) (use rot H in \<open>auto simp: ready_def open_ok_def waiting_def frame_def intro: exI\<close>)
  qed
next
  case (power_loss d pre start sg n rest)
  from ok show ?thesis
  proof (rule journal_okE)
    fix hist a m
    assume H: "dlog sha (j_disk (js_journal y)) hist (set (js_snaps y)) a m" "acked_ok (js_acked y) hist a"
      "\<forall>c \<in> set (waiting (js_journal y)). command_ok c"
    obtain hist' where "dlog sha (d\<lparr>dk_segments := pre @ [(start, sg\<lparr>sg_lines := take n (sg_lines sg) @ rest\<rparr>)]\<rparr>) hist'
        (set (js_snaps y)) a m" "acked_ok (js_acked y) hist' a"
      using power_loss_ok [OF _ power_loss(3-6) H(2)] H(1) power_loss(2) by blast
    then show ?thesis unfolding power_loss(1)
      by (intro journal_okI [of sha _ hist' a m]) (use H(3) in \<open>auto simp: waiting_def\<close>)
  qed
qed

interpretation attempt_log: inductive_invariant "journal_start cfg sha" "journal_step cfg sha"
    "\<lambda>y. hexdigest sha \<longrightarrow> journal_ok sha y" for cfg sha
  by unfold_locales (auto intro: start_ok step_ok)

end
