(* ===== verification/Journal_Promises.thy ===== *)
theory Journal_Promises
  imports Journal_Durability
begin

text \<open>
  What the attempt journal promises: acknowledged records survive crashes; a healthy recovery is an
  unbroken digest chain under the manifest's high-water mark; every queued command gets an answer. And
  two places where the code promises less than it means to: records that recovery accepts are not
  synced before later records are acknowledged on top of them, and a float where an integer belongs
  escapes the conservative handling of a corrupt journal.
\<close>

section \<open>Durability\<close>



section \<open>A run to look at\<close>

definition demo_sha :: sha where
  "demo_sha t = ZERO_DIGEST"

definition demo_cfg :: journal_config where
  "demo_cfg = \<lparr>jc_group_commit_delay_ms = 2, jc_max_group_records = 256, jc_checkpoint_every_records = 10000,
     jc_checkpoint_every_ms = 60000, jc_segment_bytes = 1000, jc_max_bytes = 100000, jc_max_replay_records = 100\<rparr>"

definition demo_io :: writer_io where
  "demo_io = \<lparr>io_now = (\<lambda>n. 1000), io_open = (\<lambda>q. 7), io_busy = (\<lambda>fd. False), io_arrivals = 3, io_fault = None\<rparr>"

definition demo_uid :: string where
  "demo_uid = ''boot_'' @ replicate 36 (CHR ''a'')"

definition demo_payload :: json_object where
  "demo_payload = [(''attempt_id'', JStr (''att_'' @ replicate 32 (CHR ''b''))), (''dispatched_at_ms'', JInt 5)]"

definition demo_start :: journal_system where
  "demo_start = \<lparr>js_journal = projr (AttemptJournal_new demo_cfg demo_sha never demo_uid 1 True empty_disk),
     js_acked = [], js_snaps = []\<rparr>"

definition demo_append :: "journal_system \<Rightarrow> journal_system" where
  "demo_append y = y\<lparr>js_journal := snd (append_command ''attempt_dispatched'' demo_payload None (js_journal y))\<rparr>"

definition demo_end :: journal_system where
  "demo_end = system_write demo_cfg demo_sha demo_io (demo_append demo_start)"

lemma demo_uid_ok: "id_ok demo_uid"
  by (simp add: id_ok_def demo_uid_def SAFE_ID_def tail_is_def strip_prefix_def uuid_tail_def is_lower_hex_def list_all_iff)

lemma demo_att: "SAFE_ID (''att_'' @ replicate 32 (CHR ''b''))"
  by (simp add: SAFE_ID_def tail_is_def strip_prefix_def uuid_tail_def is_lower_hex_def list_all_iff)

lemma demo_payload_keys: "SAFE_KEY ''attempt_id''" "SAFE_KEY ''dispatched_at_ms''"
  by (simp_all add: SAFE_KEY_def is_key_char_def)

lemma demo_valid: "validate_payload ''attempt_dispatched'' demo_payload = Inr demo_payload"
  using demo_att by (auto simp add: validate_payload_def demo_payload_def RECORD_FIELDS_def demo_payload_keys safe_string_def too_deep_def)

lemma demo_start_journal: "js_journal demo_start = journal_of demo_uid 1 healthy_start
   (empty_disk\<lparr>dk_manifest := Some (file_of (manifest_document demo_sha 0 ZERO_DIGEST demo_uid))\<rparr>)"
  by (simp add: demo_start_def AttemptJournal_new_def empty_disk_def demo_cfg_def config_checks_def checks.simps)

lemma demo_start_acked: "js_acked demo_start = []" by (simp add: demo_start_def)


definition demo_record :: "int \<Rightarrow> LogRecord" where
  "demo_record q = new_record demo_sha q ''attempt_dispatched'' demo_payload ZERO_DIGEST"

lemma demo_record_digest: "lr_digest (demo_record q) = ZERO_DIGEST"
  by (simp add: demo_record_def new_record_def digest_def demo_sha_def)

lemma demo_record_fold: "new_record demo_sha q ''attempt_dispatched'' demo_payload ZERO_DIGEST = demo_record q"
  by (simp add: demo_record_def)

lemmas step_simps = system_write_def writer_step_def next_command_def run_batch_def write_append_batch_def jbind_def jpure_def jmod_def
  append_one_def ensure_segment_def open_segment_def atomic_op_def disk_op_def write_all_def timed_fdatasync_def inject_def
  fsync_directory_def write_temporary_def write_manifest_def batch_boundaries_def map_filter_simps dict_of_def
  create_segment_def on_segment_def append_line_def sync_segment_def post_def Let_def demo_record_fold demo_record_digest

lemmas demo_simps = journal_of_def healthy_start_def failed_recovery_def accepts_commands_def put_nowait_def QUEUE_CAPACITY_def
  demo_cfg_def demo_io_def empty_disk_def

lemma demo_end_acked: "length (js_acked demo_end) = 1"
  unfolding demo_end_def demo_append_def append_command_def demo_valid
  by (simp add: demo_start_journal demo_start_acked demo_simps step_simps)

lemma demo_start_reachable: "reachable (journal_start demo_cfg demo_sha) (journal_step demo_cfg demo_sha) demo_start"
proof -
  have "AttemptJournal_new demo_cfg demo_sha never demo_uid 1 True empty_disk = Inr (js_journal demo_start)"
    unfolding demo_start_journal
    by (simp add: AttemptJournal_new_def empty_disk_def demo_cfg_def config_checks_def checks.simps)
  then have "journal_start demo_cfg demo_sha demo_start"
    using demo_uid_ok by (auto simp: journal_start_def demo_start_def)
  then show ?thesis by (rule reachable.start)
qed

lemma demo_step_append:
  assumes "reachable (journal_start demo_cfg demo_sha) (journal_step demo_cfg demo_sha) y"
  shows "reachable (journal_start demo_cfg demo_sha) (journal_step demo_cfg demo_sha) (demo_append y)"
proof -
  obtain r where "append_command ''attempt_dispatched'' demo_payload None (js_journal y) = (r, js_journal (demo_append y))"
    by (cases "append_command ''attempt_dispatched'' demo_payload None (js_journal y)") (simp add: demo_append_def)
  then have "journal_step demo_cfg demo_sha y (demo_append y)"
    using journal_step.appending [of "''attempt_dispatched''" demo_payload None y] by (simp add: demo_append_def)
  with assms show ?thesis by (rule reachable.step)
qed

lemma demo_end_reachable: "reachable (journal_start demo_cfg demo_sha) (journal_step demo_cfg demo_sha) demo_end"
  unfolding demo_end_def by (rule reachable.step [OF demo_step_append [OF demo_start_reachable] journal_step.writing])

lemma demo_hex: "hexdigest demo_sha"
  by (simp add: hexdigest_def demo_sha_def hex64_def ZERO_DIGEST_def is_lower_hex_def list_all_iff)


section \<open>Recovered records are not durable\<close>

definition crash_io :: writer_io where
  "crash_io = demo_io\<lparr>io_fault := Some \<lparr>ft_after = 2, ft_error = InjectedCrash ''before_fsync'', ft_landed = 0\<rparr>\<rparr>"

definition crashed :: journal_system where
  "crashed = system_write demo_cfg demo_sha crash_io (demo_append demo_start)"

definition restarted :: journal_system where
  "restarted = crashed\<lparr>js_journal := projr (AttemptJournal_new demo_cfg demo_sha never demo_uid 2 False (j_disk (js_journal crashed)))\<rparr>"

definition second_end :: journal_system where
  "second_end = system_write demo_cfg demo_sha demo_io (demo_append restarted)"

definition power_cut :: "disk \<Rightarrow> disk" where
  "power_cut d = d\<lparr>dk_segments := map (\<lambda>(start, sg). (start, sg\<lparr>sg_lines := take (sg_synced sg) (sg_lines sg)\<rparr>)) (dk_segments d)\<rparr>"

definition demo_disk :: "int \<Rightarrow> (int \<times> segment) list \<Rightarrow> disk" where
  "demo_disk q sgs = \<lparr>dk_manifest = Some (file_of (manifest_document demo_sha q ZERO_DIGEST demo_uid)), dk_checkpoints = [],
     dk_segments = sgs, dk_foreign = []\<rparr>"

definition demo_line :: "int \<Rightarrow> seg_line" where
  "demo_line q = whole_line (record_json (demo_record q))"

lemma demo_manifest: "0 \<le> q \<Longrightarrow> validate_manifest demo_sha (sorted_json (manifest_document demo_sha q ZERO_DIGEST demo_uid)) = Inr (q, ZERO_DIGEST, demo_uid)"
  using demo_uid_ok by (intro validate_written_manifest) (simp_all add: id_ok_def)

lemma demo_decode: "1 \<le> q \<Longrightarrow> sl_json (demo_line q) = Some (sorted_json (record_json (demo_record q)))
    \<and> decode_record demo_sha (sorted_json (record_json (demo_record q))) = Inr (canon (demo_record q))"
  using decode_written [OF demo_valid, of q demo_sha ZERO_DIGEST] by (simp add: demo_line_def demo_record_def whole_line_def)

lemma demo_sequence: "lr_sequence (demo_record q) = q" "lr_digest (canon (demo_record q)) = ZERO_DIGEST"
    "lr_previous_digest (canon (demo_record q)) = ZERO_DIGEST"
  by (simp_all add: demo_record_def canon_def new_record_def digest_def demo_sha_def)

lemma crashed_disk: "j_disk (js_journal crashed) = demo_disk 0 [(1, \<lparr>sg_lines = [demo_line 1], sg_synced = 0\<rparr>)] \<and> js_acked crashed = []"
  unfolding crashed_def demo_append_def append_command_def demo_valid
  by (simp add: demo_start_journal demo_start_acked demo_simps crash_io_def step_simps demo_disk_def demo_line_def
    writer_failed_def flush_and_close_segment_def)

lemmas recover_simps = recover_def recover_body_def newest_checkpoint_def manifest_high_water_def accept_record_def Let_def json_loads_def
  map_filter_simps demo_manifest demo_decode demo_sequence file_of_def demo_disk_def

lemma restarted_journal: "js_journal restarted = journal_of demo_uid 2 (recovered [canon (demo_record 1)] 0 None 0)
    (demo_disk 0 [(1, \<lparr>sg_lines = [demo_line 1], sg_synced = 0\<rparr>)]) \<and> js_acked restarted = []"
  using crashed_disk
  by (simp add: restarted_def AttemptJournal_new_def open_journal_def config_checks_def checks.simps demo_cfg_def recover_simps
    recovered_def)

lemma second_end_disk: "js_acked second_end = [demo_record 2] \<and> j_disk (js_journal second_end) =
   demo_disk 2 [(1, \<lparr>sg_lines = [demo_line 1], sg_synced = 0\<rparr>), (2, \<lparr>sg_lines = [demo_line 2], sg_synced = 1\<rparr>)]"
  unfolding second_end_def demo_append_def append_command_def demo_valid
  by (simp add: restarted_journal demo_simps step_simps demo_disk_def demo_line_def recovered_def demo_sequence)

lemma second_end_reachable: "reachable (journal_start demo_cfg demo_sha) (journal_step demo_cfg demo_sha) second_end"
proof -
  have "reachable (journal_start demo_cfg demo_sha) (journal_step demo_cfg demo_sha) crashed"
    unfolding crashed_def by (rule reachable.step [OF demo_step_append [OF demo_start_reachable] journal_step.writing])
  moreover have "AttemptJournal_new demo_cfg demo_sha never demo_uid 2 False (j_disk (js_journal crashed)) = Inr (js_journal restarted)"
    using crashed_disk by (simp add: restarted_def AttemptJournal_new_def open_journal_def config_checks_def checks.simps demo_cfg_def
      recover_simps recovered_def)
  then have "journal_step demo_cfg demo_sha crashed restarted"
    using journal_step.restarting [of demo_cfg demo_sha never demo_uid 2 False crashed "js_journal restarted"] by (simp add: restarted_def)
  ultimately have "reachable (journal_start demo_cfg demo_sha) (journal_step demo_cfg demo_sha) restarted" by (rule reachable.step)
  then show ?thesis unfolding second_end_def by (rule reachable.step [OF demo_step_append journal_step.writing])
qed

text \<open>C38: Recovered records are not durable. Recovery accepts lines of the previous process that were written
  but never synced, and the next batch syncs only its own new segment. In this run the process dies
  before the \<open>fdatasync\<close> of record 1, the next process recovers it, and record 2 is acknowledged on top;
  a power failure that takes exactly the unsynced lines then leaves a chain gap, and the acknowledged
  record 2 cannot be recovered.
\<close>

theorem unsynced_recovery_loses_acknowledged:
  "reachable (journal_start demo_cfg demo_sha) (journal_step demo_cfg demo_sha) second_end
    \<and> js_acked second_end = [demo_record 2]
    \<and> fst (recover demo_sha never 100 demo_uid (power_cut (j_disk (js_journal second_end)))) = Inr (failed_recovery ''corrupt_journal'')"
  using second_end_reachable by (simp add: second_end_disk power_cut_def recover_simps)

section \<open>A float in a record escapes recovery\<close>

definition float_record :: JsonValue where
  "float_record = record_json ((demo_record 1)\<lparr>lr_payload := AList.update ''dispatched_at_ms'' (JFloat ''5.0'') demo_payload\<rparr>)"

text \<open>
  Recovery is meant to answer a corrupt record with \<open>RECOVERY_REQUIRED\<close>. A record in which an integer
  has become a float makes \<open>_validate_safe_value\<close> raise \<open>TypeError\<close>, which \<open>_recover\<close> does not catch: the
  constructor raises instead.
\<close>

theorem float_escapes_recovery:
  "fst (recover demo_sha never 100 demo_uid
      (demo_disk 1 [(1, \<lparr>sg_lines = [\<lparr>sl_json = Some float_record, sl_newline = True, sl_bytes = 1\<rparr>], sg_synced = 1\<rparr>)]))
    = Inl (TypeError ''journal values must be JSON values'')"
proof -
  have "validate_payload ''attempt_dispatched'' (AList.update ''dispatched_at_ms'' (JFloat ''5.0'') demo_payload)
      = Inl (TypeError ''journal values must be JSON values'')"
    using demo_att by (auto simp: validate_payload_def demo_payload_def RECORD_FIELDS_def demo_payload_keys safe_string_def too_deep_def)
  then have "decode_record demo_sha float_record = Inl (TypeError ''journal values must be JSON values'')"
    by (simp add: float_record_def record_json_def decode_record_def demo_record_def new_record_def)
  then show ?thesis by (simp add: recover_simps)
qed


section \<open>What a healthy recovery has checked\<close>

primrec linked :: "int \<Rightarrow> string \<Rightarrow> LogRecord list \<Rightarrow> bool" where
  "linked q prev [] = True"
| "linked q prev (r # rs) \<longleftrightarrow> lr_sequence r = q \<and> lr_previous_digest r = prev \<and> linked (q + 1) (lr_digest r) rs"

definition authentic :: "sha \<Rightarrow> LogRecord \<Rightarrow> bool" where
  "authentic sha r \<longleftrightarrow> validate_payload (lr_kind r) (lr_payload r) = Inr (lr_payload r)
     \<and> (\<exists>q. as_int (Some q) = Some (lr_sequence r)
       \<and> lr_digest r = digest sha (record_body q (lr_kind r) (lr_payload r) (lr_previous_digest r)))"

lemma as_int_json_get: "as_int (map_of d k) = Some i \<Longrightarrow> as_int (Some (json_get d k)) = Some i"
  by (cases "map_of d k") (simp_all add: json_get_def)

lemma decode_authentic:
  assumes "decode_record sha v = Inr r"
  shows "authentic sha r"
proof (cases v)
  case (JObj d)
  define K where "K = set [''sequence'', ''kind'', ''payload'', ''previous_digest'', ''digest'']"
  show ?thesis using assms unfolding decode_record_def JObj JsonValue.case K_def [symmetric] authentic_def
    by (auto simp: res_bind_Inr validate_payload_Inr dest!: as_int_json_get split: if_split_asm option.split_asm)
qed (use assms in \<open>simp_all add: decode_record_def\<close>)

lemma linked_snoc: "linked q prev (rs @ [r]) \<longleftrightarrow> linked q prev rs \<and> lr_sequence r = q + int (length rs) \<and> lr_previous_digest r = tip prev rs"
  by (induction rs arbitrary: q prev) auto

text \<open>\<open>scanned\<close>: the invariant of the scan that starts after checkpoint sequence \<open>c\<close> with digest \<open>dg\<close>.\<close>

definition scanned :: "sha \<Rightarrow> nat \<Rightarrow> int \<Rightarrow> string \<Rightarrow> scan \<Rightarrow> bool" where
  "scanned sha mx c dg st \<longleftrightarrow> linked (c + 1) dg (sc_records st) \<and> (\<forall>r \<in> set (sc_records st). authentic sha r)
     \<and> sc_expected st = c + 1 + int (length (sc_records st)) \<and> sc_previous st = tip dg (sc_records st)
     \<and> length (sc_records st) \<le> mx"

lemma accept_scanned:
  assumes "scanned sha mx c dg st" "authentic sha r" "accept_record mx cseq r st = Inr st'"
  shows "scanned sha mx c dg st'"
  using assms by (auto simp: accept_record_def scanned_def linked_snoc tip_append split: if_splits)

lemma scan_lines_scanned:
  "scanned sha mx c dg st \<Longrightarrow> scan_lines sha late mx cseq newest acc ls st = (Inr st', k) \<Longrightarrow> scanned sha mx c dg st'"
proof (induction ls arbitrary: acc st)
  case (Cons l ls)
  obtain n where n: "check_recovery_deadline late (sc_ticks st) = Inr n"
    using Cons.prems(2) by (cases "check_recovery_deadline late (sc_ticks st)") auto
  have st: "scanned sha mx c dg (st\<lparr>sc_ticks := n\<rparr>)" using Cons.prems(1) by (simp add: scanned_def)
  show ?case
  proof (cases "sl_json l")
    case None
    then show ?thesis using Cons.prems(2) n st by (auto simp: Let_def split: if_splits)
  next
    case (Some v)
    obtain st2 where st2: "res_bind (decode_record sha v) (\<lambda>r. accept_record mx cseq r (st\<lparr>sc_ticks := n\<rparr>)) = Inr st2"
      using Cons.prems(2) n Some
      by (cases "res_bind (decode_record sha v) (\<lambda>r. accept_record mx cseq r (st\<lparr>sc_ticks := n\<rparr>))") (auto simp: Let_def)
    then obtain r where r: "decode_record sha v = Inr r" "accept_record mx cseq r (st\<lparr>sc_ticks := n\<rparr>) = Inr st2"
      by (auto simp: res_bind_Inr)
    have "scanned sha mx c dg st2" by (rule accept_scanned [OF st decode_authentic [OF r(1)] r(2)])
    then show ?thesis using Cons.IH [of st2 "acc @ [l]"] Cons.prems(2) n Some st2 by (simp add: Let_def)
  qed
qed simp

lemma scan_segments_scanned:
  "scanned sha mx c dg st \<Longrightarrow> scan_segments sha late mx cseq sgs st d = (Inr st', d') \<Longrightarrow> scanned sha mx c dg st'"
proof (induction sgs arbitrary: st d)
  case (Cons p sgs)
  obtain start sg where p: "p = (start, sg)" by (cases p)
  obtain n where n: "check_recovery_deadline late (sc_ticks st) = Inr n"
    using Cons.prems(2) p by (cases "check_recovery_deadline late (sc_ticks st)") auto
  have st: "scanned sha mx c dg (st\<lparr>sc_ticks := n\<rparr>)" using Cons.prems(1) by (simp add: scanned_def)
  obtain r k where rk: "scan_lines sha late mx cseq (sgs = []) [] (sg_lines sg) (st\<lparr>sc_ticks := n\<rparr>) = (r, k)" by fastforce
  show ?case
  proof (cases r)
    case (Inl e)
    then show ?thesis using Cons.prems(2) p n rk by (simp add: Let_def)
  next
    case (Inr st2)
    have "scanned sha mx c dg st2" using scan_lines_scanned [OF st] rk Inr by blast
    then show ?thesis using Cons.IH [of st2] Cons.prems(2) p n rk Inr by (auto simp: Let_def)
  qed
qed simp

lemma read_checkpoints_files:
  "read_checkpoints sha late n fs = Inr (cs, n') \<Longrightarrow> (q, dg, sn, name) \<in> set cs \<Longrightarrow>
    \<exists>f. (name, f) \<in> set fs \<and> read_checkpoint sha f = Inr (q, dg, sn)"
proof (induction fs arbitrary: n cs n')
  case (Cons p fs)
  obtain nm f where p: "p = (nm, f)" by (cases p)
  obtain n1 where n1: "check_recovery_deadline late n = Inr n1"
    using Cons.prems(1) p by (cases "check_recovery_deadline late n") auto
  show ?case
  proof (cases "read_checkpoint sha f")
    case (Inl e)
    then have "read_checkpoints sha late n1 fs = Inr (cs, n')" using Cons.prems(1) p n1 by (cases e) auto
    then show ?thesis using Cons.IH Cons.prems(2) by fastforce
  next
    case (Inr t)
    obtain q1 dg1 sn1 where t: "t = (q1, dg1, sn1)" by (cases t)
    then obtain cs1 where cs1: "read_checkpoints sha late n1 fs = Inr (cs1, n')" "cs = (q1, dg1, sn1, nm) # cs1"
      using Cons.prems(1) p n1 Inr by (auto simp: res_map_Inr)
    then show ?thesis using Cons.IH [OF cs1(1)] Cons.prems(2) p Inr t by auto
  qed
qed simp

text \<open>
  What recovery has checked: the records carry consecutive sequences from the checkpoint on, each names
  the digest of the one before, each digest is the hash of its own content and each payload has the
  closed set of fields of its kind; the checkpoint is a readable checkpoint file; the manifest's
  high-water mark is not beyond the last record and agrees with its digest when it is the last; the
  replay bound is respected.
\<close>

definition recovery_checked :: "sha \<Rightarrow> nat \<Rightarrow> disk \<Rightarrow> string \<Rightarrow> JournalRecovery \<Rightarrow> bool" where
  "recovery_checked sha mx d jid rc \<longleftrightarrow> (\<exists>cdg q mdg. linked (jv_checkpoint_sequence rc + 1) cdg (jv_records rc)
    \<and> list_all (authentic sha) (jv_records rc) \<and> length (jv_records rc) \<le> mx
    \<and> jv_last_sequence rc = jv_checkpoint_sequence rc + int (length (jv_records rc))
    \<and> jv_last_digest rc = tip cdg (jv_records rc)
    \<and> (jv_checkpoint rc = None \<and> dk_checkpoints d = [] \<and> jv_checkpoint_sequence rc = 0 \<and> cdg = ZERO_DIGEST
       \<or> (\<exists>snapshot f. jv_checkpoint rc = Some snapshot \<and> f \<in> snd ` set (dk_checkpoints d)
            \<and> read_checkpoint sha f = Inr (jv_checkpoint_sequence rc, cdg, snapshot)))
    \<and> res_bind (json_loads (Option.bind (dk_manifest d) fl_json)) (validate_manifest sha) = Inr (q, mdg, jid)
    \<and> q \<le> jv_last_sequence rc \<and> (q \<noteq> jv_last_sequence rc \<or> mdg = jv_last_digest rc))"

text \<open>C18: A healthy recovery has checked all of this, whatever is on the disk and however slow the scan was.
\<close>

theorem healthy_recovery_is_chain:
  assumes "recover sha late mx uid d = (Inr rc, jid, d')" "jv_status rc = JS_HEALTHY"
  shows "recovery_checked sha mx d jid rc"
proof -
  obtain q mdg where mf: "res_bind (case dk_manifest d of None \<Rightarrow> Inl OSError | Some f \<Rightarrow> json_loads (fl_json f)) (validate_manifest sha) = Inr (q, mdg, jid)"
    and hb: "handle_recovery (fst (recover_body sha late mx d q mdg)) = Inr rc"
  proof (cases "res_bind (case dk_manifest d of None \<Rightarrow> Inl OSError | Some f \<Rightarrow> json_loads (fl_json f)) (validate_manifest sha)")
    case (Inl e)
    then have "handle_recovery (Inl e) = Inr rc" using assms(1) by (simp add: recover_def)
    then show ?thesis using assms(2) by (cases e) (auto simp: failed_recovery_def)
  next
    case (Inr t)
    obtain q mdg j where t: "t = (q, mdg, j)" by (cases t)
    show ?thesis using assms(1) Inr t that by (auto simp: recover_def split: prod.splits)
  qed
  have body: "fst (recover_body sha late mx d q mdg) = Inr rc"
  proof (cases "fst (recover_body sha late mx d q mdg)")
    case (Inl e)
    then show ?thesis using hb assms(2) by (cases e) (auto simp: failed_recovery_def)
  qed (use hb in simp)
  obtain cs0 n where cs: "read_checkpoints sha late 0 (sort_key fst (dk_checkpoints d)) = Inr (cs0, n)"
    using body by (cases "read_checkpoints sha late 0 (sort_key fst (dk_checkpoints d))") (auto simp: recover_body_def)
  let ?cs = "sort_key checkpoint_order cs0"
  obtain cseq cdg cp where nc: "newest_checkpoint ?cs = (cseq, cdg, cp)" by (cases "newest_checkpoint ?cs")
  have some: "\<not> (dk_checkpoints d \<noteq> [] \<and> ?cs = [])" using body cs by (auto simp: recover_body_def Let_def)
  let ?st = "\<lparr>sc_expected = cseq + 1, sc_previous = cdg, sc_records = [], sc_ticks = n\<rparr>"
  obtain r ds where sc: "scan_segments sha late mx cseq (sort_key fst (dk_segments d)) ?st d = (r, ds)" by fastforce
  then obtain st where st: "r = Inr st" using body cs nc some by (cases r) (auto simp: recover_body_def Let_def)
  have high: "manifest_high_water q mdg st = Inr ()"
    using body cs nc some sc st by (auto simp: recover_body_def Let_def res_bind_Inr)
  have rc: "jv_checkpoint rc = cp" "jv_records rc = sc_records st" "jv_checkpoint_sequence rc = cseq"
      "jv_last_sequence rc = sc_expected st - 1" "jv_last_digest rc = sc_previous st"
    using body cs nc some sc st by (auto simp: recover_body_def Let_def res_bind_Inr res_map_Inr)
  have "scanned sha mx cseq cdg ?st" by (simp add: scanned_def)
  then have scanned: "scanned sha mx cseq cdg st" using scan_segments_scanned sc st by blast
  have cp: "cp = None \<and> dk_checkpoints d = [] \<and> cseq = 0 \<and> cdg = ZERO_DIGEST
       \<or> (\<exists>snapshot f. cp = Some snapshot \<and> f \<in> snd ` set (dk_checkpoints d) \<and> read_checkpoint sha f = Inr (cseq, cdg, snapshot))"
  proof (cases "?cs = []")
    case True
    then show ?thesis using nc some by (simp add: newest_checkpoint_def)
  next
    case False
    obtain q' dg' sn' name where l: "last ?cs = (q', dg', sn', name)" by (cases "last ?cs")
    have "last ?cs \<in> set ?cs" using False by (rule last_in_set)
    then have "(q', dg', sn', name) \<in> set cs0" by (simp add: l)
    from read_checkpoints_files [OF cs this] obtain f where "(name, f) \<in> set (dk_checkpoints d)" "read_checkpoint sha f = Inr (q', dg', sn')"
      by auto
    moreover from this(1) have "f \<in> snd ` set (dk_checkpoints d)" by (rule rev_image_eqI) simp
    moreover have "q' = cseq" "dg' = cdg" "cp = Some sn'" using nc False l by (simp_all add: newest_checkpoint_def)
    ultimately show ?thesis by blast
  qed
  have man: "res_bind (json_loads (Option.bind (dk_manifest d) fl_json)) (validate_manifest sha) = Inr (q, mdg, jid)"
    using mf by (cases "dk_manifest d") (simp_all add: json_loads_def)
  have "q \<le> sc_expected st - 1 \<and> (q \<noteq> sc_expected st - 1 \<or> mdg = sc_previous st)"
    using high by (auto simp: manifest_high_water_def Let_def split: if_splits)
  then show ?thesis using scanned cp man
    unfolding recovery_checked_def rc scanned_def by (intro exI [of _ cdg] exI [of _ q] exI [of _ mdg]) (simp add: list_all_iff)
qed


lemma demo_recover: "recover demo_sha never 100 demo_uid (demo_disk 1 [(1, \<lparr>sg_lines = [demo_line 1], sg_synced = 1\<rparr>)])
    = (Inr (recovered [canon (demo_record 1)] 0 None 0), demo_uid, demo_disk 1 [(1, \<lparr>sg_lines = [demo_line 1], sg_synced = 1\<rparr>)])"
  by (simp add: recover_simps recovered_def)

theorem healthy_recovery_is_chain_witness:
  "recovery_checked demo_sha 100 (demo_disk 1 [(1, \<lparr>sg_lines = [demo_line 1], sg_synced = 1\<rparr>)]) demo_uid
     (recovered [canon (demo_record 1)] 0 None 0)"
  by (rule healthy_recovery_is_chain [OF demo_recover]) (simp add: recovered_def)

section \<open>Every command is answered\<close>

fun ticket_of :: "command \<Rightarrow> nat" where
  "ticket_of (AppendCommand t kind payload boundary) = t"
| "ticket_of (CheckpointCommand t snapshot) = t"
| "ticket_of (StopCommand t) = t"

definition is_stop :: "command \<Rightarrow> bool" where
  "is_stop c = (case c of StopCommand t \<Rightarrow> True | _ \<Rightarrow> False)"

definition answered :: "journal \<Rightarrow> nat set" where
  "answered j = fst ` set (j_replies j)"

lemma ticket_fail: "fst (fail_command e c) = ticket_of c"
  by (cases c) auto

lemma append_all_tickets: "append_all cfg sha io items s = (Inr res, s') \<Longrightarrow> map fst res = map fst items"
proof (induction items arbitrary: s s' res)
  case (Cons i items)
  obtain t kind p b where i: "i = (t, kind, p, b)" by (cases i)
  show ?case using Cons.prems i
    by (auto simp: jbind_def jpure_def split: prod.splits sum.splits dest!: Cons.IH)
qed (simp add: jpure_def)

lemma batch_tickets:
  assumes "write_append_batch cfg sha io batch s = (Inr res, s')"
  shows "map fst res = map fst batch"
proof -
  obtain results s1 s2 where "append_all cfg sha io batch s1 = (Inr results, s2)" "res = map (\<lambda>(t, r, fd). (t, r)) results"
    using assms by (auto simp: write_append_batch_def jbind_def jpure_def split: prod.splits sum.splits)
  then show ?thesis using append_all_tickets [of cfg sha io batch s1 results s2] by (auto simp: comp_def case_prod_unfold)
qed

lemma writer_failed_answers:
  "answered (writer_failed io e cs s) = answered s \<union> ticket_of ` set (cs @ waiting s)"
  "waiting (writer_failed io e cs s) = []"
  by (auto simp: answered_def writer_failed_def Let_def post_def flush_and_close_segment_def jbind_def jpure_def jmod_def waiting_def
      ticket_fail image_Un image_image split: option.splits)

definition settles :: "journal \<Rightarrow> command list \<Rightarrow> journal \<Rightarrow> bool" where
  "settles s cs s' \<longleftrightarrow> ticket_of ` set (cs @ waiting s) \<subseteq> answered s' \<union> ticket_of ` set (waiting s')
     \<and> length (waiting s') \<le> length (waiting s) \<and> (j_alive s' \<or> waiting s' = [])"

lemma append_of_fold: "(\<lambda>(t, k, p, b). AppendCommand t k p b) = append_of"
  by (simp add: fun_eq_iff append_of_def)

lemma run_batch_settles:
  assumes "hexdigest sha" "a \<le> int (length h)" "ready sha snaps h a (frame s) s" "j_alive s"
    and "\<forall>(t, kind, p, b) \<in> set batch. validate_payload kind p = Inr p"
  shows "settles s (map append_of batch) (run_batch cfg sha io batch s)"
proof (cases "write_append_batch cfg sha io batch s")
  case (Pair r s')
  note T = batch_ready [OF assms(1,2,5), of snaps "frame s" cfg io]
  show ?thesis
  proof (cases r)
    case (Inl e)
    have "frame s' = frame s" using jhoare_errD [OF T assms(3)] Pair Inl by (simp add: survives_def)
    then have "waiting s' = waiting s" by (simp add: frame_def waiting_def)
    then show ?thesis using Pair Inl writer_failed_answers [of io e "map append_of batch" s']
      by (auto simp: run_batch_def settles_def append_of_fold)
  next
    case (Inr res)
    have "frame s' = frame s" using jhoare_okD [OF T assms(3)] Pair Inr by (simp add: ready_def)
    then have f: "waiting (post rs s') = waiting s" "j_alive (post rs s')" for rs using assms(4) by (auto simp: frame_def waiting_def post_def)
    have "ticket_of ` set (map append_of batch) = set (map fst batch)" by (force simp: append_of_def image_image)
    also have "\<dots> = set (map fst res)" using batch_tickets [of cfg sha io batch s res s'] Pair Inr by simp
    also have "\<dots> \<subseteq> answered (post (map (\<lambda>(t, r). (t, Stored r)) res) s')" by (force simp: answered_def post_def)
    finally show ?thesis using Pair Inr f by (auto simp: run_batch_def settles_def)
  qed
qed


lemma run_checkpoint_settles:
  assumes "hexdigest sha" "ready sha snaps h a (frame s) s" "j_alive s" "validate_safe_value (JObj snapshot) 0 = Inr ()"
    and "(int (length h), sorted_object snapshot) \<in> snaps"
  shows "settles s [CheckpointCommand t snapshot] (run_checkpoint sha io t snapshot s)"
proof (cases "write_checkpoint sha io snapshot s")
  case (Pair r s')
  note T = checkpoint_ready [OF assms(1,4,5), of a "frame s" io]
  have "frame s' = frame s" using jhoareD [OF T assms(2)] Pair by (auto simp: survives_def ready_def split: sum.splits)
  then have f: "waiting s' = waiting s" "j_alive s'" using assms(3) by (simp_all add: frame_def waiting_def)
  show ?thesis using Pair f writer_failed_answers [of io _ "[CheckpointCommand t snapshot]" s']
    by (cases r) (auto simp: run_checkpoint_def settles_def answered_def post_def waiting_def)
qed

lemma run_stop_settles:
  assumes "ready sha snaps h a (frame s) s" "waiting s = []" "j_fault s = None"
  shows "settles s [StopCommand t] (run_stop io t s)"
proof -
  obtain s' where fl: "flush_and_close_segment io True s = (Inr (), s')"
    using assms(3) by (cases "j_segment_fd s")
      (auto simp: flush_and_close_segment_def jbind_def jmod_def timed_fdatasync_def atomic_op_def disk_op_def)
  then have "frame s' = frame s" using jhoareD [OF flush_ready assms(1), of io True] by (simp add: ready_def)
  then show ?thesis using fl assms(2) by (auto simp: run_stop_def settles_def answered_def post_def waiting_def frame_def)
qed


lemma demo_waiting: "waiting (js_journal (demo_append demo_start)) = [AppendCommand 0 ''attempt_dispatched'' demo_payload None]
    \<and> j_alive (js_journal (demo_append demo_start))"
  unfolding demo_append_def append_command_def demo_valid
  by (simp add: demo_start_journal demo_simps waiting_def)



text \<open>
  The writer thread marks the journal as failed and drains the queue without the lifecycle lock. A
  caller that has passed the check under the lock before that and puts its command after the drain is
  never answered: the thread is gone and no later round changes anything.
\<close>

definition late_put :: journal where
  "late_put = snd (put_nowait (\<lambda>t. AppendCommand t ''attempt_dispatched'' demo_payload None) (js_journal crashed))"

lemma crashed_journal: "\<not> j_alive (js_journal crashed) \<and> j_replies (js_journal crashed) = [(0, Failed (InjectedCrash ''before_fsync''))]
    \<and> j_next_ticket (js_journal crashed) = 1 \<and> waiting (js_journal crashed) = []"
  unfolding crashed_def demo_append_def append_command_def demo_valid
  by (simp add: demo_start_journal demo_start_acked demo_simps crash_io_def step_simps waiting_def
    writer_failed_def flush_and_close_segment_def normalized_def)

theorem put_after_drain_never_answered:
  "accepts_commands (js_journal (demo_append demo_start)) = Inr () \<and> ticket_of ` set (waiting late_put) = {1}
    \<and> append_result 1 late_put = None \<and> (\<forall>cfg sha io. writer_step cfg sha io late_put = late_put)"
proof -
  have "accepts_commands (js_journal (demo_append demo_start)) = Inr ()"
    unfolding demo_append_def append_command_def demo_valid by (simp add: demo_start_journal demo_simps)
  moreover have "j_queue (js_journal crashed) = []" "j_pending (js_journal crashed) = None"
    using crashed_journal by (auto simp: waiting_def split: option.splits)
  ultimately show ?thesis using crashed_journal
    by (simp add: late_put_def put_nowait_def QUEUE_CAPACITY_def waiting_def append_result_def writer_step_def)
qed


section \<open>Rotation inside a batch\<close>

text \<open>
  \<open>_write_append_batch\<close> collects the descriptors it wrote to and syncs them at the end. When the segment
  rotates inside the batch the old descriptor is synced and closed at once but stays in the collection;
  unless \<open>os.open\<close> returns the same number again, or the number is open elsewhere by then, the final sync
  raises and the writer fails although every line is on disk.
\<close>

definition rotating_cfg :: journal_config where
  "rotating_cfg = demo_cfg\<lparr>jc_segment_bytes := 1\<rparr>"

definition two_items :: "append_item list" where
  "two_items = [(0, ''attempt_dispatched'', demo_payload, None), (1, ''attempt_dispatched'', demo_payload, None)]"

theorem rotation_in_batch_syncs_closed_descriptor:
  "fst (write_append_batch rotating_cfg demo_sha (demo_io\<lparr>io_open := id\<rparr>) two_items (js_journal demo_start)) = Inl OSError
    \<and> map fst (projr (fst (write_append_batch rotating_cfg demo_sha demo_io two_items (js_journal demo_start)))) = [0, 1]"
  unfolding two_items_def rotating_cfg_def demo_start_journal
  by (simp add: demo_simps step_simps flush_and_close_segment_def)

end
