(* ===== verification/Journal_Payloads.thy ===== *)
theory Journal_Payloads
  imports Journal Runtime_Registry
begin

text \<open>
  The records the runtime writes and replays. Each \<open>record_*\<close> method of the journal turns its arguments
  into a JSON payload; \<open>_apply_record\<close> of the runtime reads it back at start-up. A \<open>journal_event\<close> is
  one call of such a method; \<open>read_payload\<close> gives the \<open>journal_payload\<close> that the replay of
  \<open>RuntimeState\<close> works on. The values of the enumerations are their strings.
\<close>

section \<open>Strings of the enumerations\<close>

definition circuit_state_value :: "CircuitState \<Rightarrow> string" where
  "circuit_state_value st = (case st of CS_CLOSED \<Rightarrow> ''closed'' | CS_OPEN \<Rightarrow> ''open'' | CS_HALF_OPEN \<Rightarrow> ''half_open'')"

definition circuit_cause_value :: "CircuitCause \<Rightarrow> string" where
  "circuit_cause_value c = (case c of CC_CAPACITY \<Rightarrow> ''capacity'' | CC_TRANSIENT_FAILURE \<Rightarrow> ''transient_failure''
     | CC_QUOTA \<Rightarrow> ''quota'' | CC_MANUAL \<Rightarrow> ''manual'')"

definition circuit_scope_value :: "CircuitScope \<Rightarrow> string" where
  "circuit_scope_value sc = (case sc of SCOPE_ACCOUNT \<Rightarrow> ''account'' | SCOPE_DEPLOYMENT \<Rightarrow> ''deployment'')"

definition probe_value :: "ProbeClassification \<Rightarrow> string" where
  "probe_value c = (case c of PC_AVAILABLE \<Rightarrow> ''available'' | PC_CAPACITY_EXHAUSTED \<Rightarrow> ''capacity_exhausted''
     | PC_INCONCLUSIVE \<Rightarrow> ''inconclusive'')"

definition of_value :: "('a \<Rightarrow> string) \<Rightarrow> 'a list \<Rightarrow> string \<Rightarrow> 'a option" where
  "of_value f xs s = List.find (\<lambda>x. f x = s) xs"

section \<open>Writing\<close>

datatype journal_event =
    RegisterAccount account_id string string int string
  | ReserveBeforeSend DurableReservation
  | RecordDispatch attempt_id int
  | MarkUncertain attempt_id string
  | RecordResolution string resolution_record
  | UpdateCircuit account_id CircuitScope "generation_id option" CircuitValue
  | ActiveCount account_id int
  | ProbeStarted account_id string
  | ProbeFinished account_id string ProbeClassification

definition json_opt_str :: "string option \<Rightarrow> JsonValue" where
  "json_opt_str x = (case x of None \<Rightarrow> JNull | Some s \<Rightarrow> JStr s)"

definition json_opt_int :: "int option \<Rightarrow> JsonValue" where
  "json_opt_int x = (case x of None \<Rightarrow> JNull | Some i \<Rightarrow> JInt i)"

definition reservation_json :: "DurableReservation \<Rightarrow> json_object" where
  "reservation_json d =
    [(''request_id'', JStr (dr_request_id d)), (''attempt_id'', JStr (dr_attempt_id d)),
     (''account_id'', JStr (dr_account_id d)), (''leg_id'', JStr (dr_leg_id d)),
     (''deployment_generation_id'', JStr (dr_deployment_generation_id d)),
     (''installation_id'', JStr (dr_installation_id d)), (''bundle_generation'', JInt (dr_bundle_generation d)),
     (''bundle_hash'', JStr (dr_bundle_hash d)), (''fence_token'', JInt (dr_fence_token d)),
     (''boot_id'', JStr (dr_boot_id d)), (''deadline_at_ms'', JInt (dr_deadline_at_ms d)),
     (''profile_digest'', JStr (dr_profile_digest d)), (''started_at_ms'', JInt (dr_started_at_ms d)),
     (''reserved_tokens'', JInt (dr_reserved_tokens d)), (''quota_units'', JInt (dr_quota_units d)),
     (''monthly_reset_at_ms'', JInt (dr_monthly_reset_at_ms d)), (''circuit_epoch'', JInt (dr_circuit_epoch d)),
     (''account_circuit_epoch'', JInt (dr_account_circuit_epoch d)),
     (''circuit_probe_id'', json_opt_str (dr_circuit_probe_id d)),
     (''account_circuit_probe_id'', json_opt_str (dr_account_circuit_probe_id d))]"

definition resolution_json :: "string \<Rightarrow> resolution_record \<Rightarrow> json_object" where
  "resolution_json outcome v =
    [(''attempt_id'', JStr (rv_attempt_id v)), (''outcome'', JStr outcome),
     (''release_capacity'', JBool (rv_release_capacity v)), (''actual_starts'', json_opt_int (rv_actual_starts v)),
     (''actual_token_units'', json_opt_int (rv_actual_token_units v)),
     (''actual_quota_units'', json_opt_int (rv_actual_quota_units v)),
     (''resolution_digest'', JStr (rv_resolution_digest v)), (''resolved_at_ms'', JInt (rv_resolved_at_ms v))]"

definition circuit_json :: "account_id \<Rightarrow> CircuitScope \<Rightarrow> generation_id option \<Rightarrow> CircuitValue \<Rightarrow> json_object" where
  "circuit_json acc sc g v =
    [(''account_id'', JStr acc), (''scope'', JStr (circuit_scope_value sc)),
     (''deployment_generation_id'', json_opt_str g), (''state'', JStr (circuit_state_value (ci_state v))),
     (''epoch'', JInt (ci_epoch v)), (''retry_at_ms'', JInt (ci_retry_at_ms v)),
     (''probe_id'', json_opt_str (ci_probe_id v)),
     (''cause'', json_opt_str (map_option circuit_cause_value (ci_cause v))),
     (''opened_at_ms'', JInt (ci_opened_at_ms v)), (''backoff_step'', JInt (ci_backoff_step v)),
     (''evidence_digest'', json_opt_str (ci_evidence_digest v))]"

definition register_json :: "account_id \<Rightarrow> string \<Rightarrow> string \<Rightarrow> int \<Rightarrow> string \<Rightarrow> json_object" where
  "register_json acc binding attestation epoch st =
    [(''account_id'', JStr acc), (''binding_digest'', JStr binding),
     (''credential_attestation_digest'', JStr attestation), (''credential_epoch'', JInt epoch), (''state'', JStr st)]"

definition dispatch_json :: "attempt_id \<Rightarrow> int \<Rightarrow> json_object" where
  "dispatch_json aid at = [(''attempt_id'', JStr aid), (''dispatched_at_ms'', JInt at)]"

definition uncertain_json :: "attempt_id \<Rightarrow> string \<Rightarrow> json_object" where
  "uncertain_json aid reason = [(''attempt_id'', JStr aid), (''reason'', JStr reason)]"

definition active_count_json :: "account_id \<Rightarrow> int \<Rightarrow> json_object" where
  "active_count_json acc n = [(''account_id'', JStr acc), (''active_count'', JInt n)]"

definition probe_started_json :: "account_id \<Rightarrow> string \<Rightarrow> json_object" where
  "probe_started_json acc p = [(''account_id'', JStr acc), (''probe_id'', JStr p)]"

definition probe_finished_json :: "account_id \<Rightarrow> string \<Rightarrow> string \<Rightarrow> json_object" where
  "probe_finished_json acc p classification =
    [(''account_id'', JStr acc), (''probe_id'', JStr p), (''classification'', JStr classification)]"

text \<open>The kind, the payload and the crash boundary that each method passes to \<open>_append\<close>.\<close>

fun event_append :: "journal_event \<Rightarrow> string \<times> json_object \<times> string option" where
  "event_append (RegisterAccount acc binding attestation epoch st) =
     (''account_registered'', register_json acc binding attestation epoch st, None)"
| "event_append (ReserveBeforeSend d) = (''attempt_reserved'', reservation_json d, Some ''reservation'')"
| "event_append (RecordDispatch aid at) = (''attempt_dispatched'', dispatch_json aid at, Some ''reservation'')"
| "event_append (RecordResolution outcome v) = (''attempt_resolved'', resolution_json outcome v, Some ''terminal_update'')"
| "event_append (MarkUncertain aid reason) = (''attempt_uncertain'', uncertain_json aid reason, Some ''terminal_update'')"
| "event_append (UpdateCircuit acc sc g v) = (''circuit_updated'', circuit_json acc sc g v, None)"
| "event_append (ActiveCount acc n) = (''authoritative_active_count'', active_count_json acc n, None)"
| "event_append (ProbeStarted acc p) = (''recovery_probe_started'', probe_started_json acc p, None)"
| "event_append (ProbeFinished acc p c) = (''recovery_probe_finished'', probe_finished_json acc p (probe_value c), None)"

lemmas event_json_defs = register_json_def reservation_json_def dispatch_json_def resolution_json_def uncertain_json_def
  circuit_json_def active_count_json_def probe_started_json_def probe_finished_json_def

definition record_event :: "journal_config \<Rightarrow> bool \<Rightarrow> journal_event \<Rightarrow> nat jop" where
  "record_event cfg disk_full e =
    (case e of
       ReserveBeforeSend d \<Rightarrow> reserve_before_send cfg disk_full (reservation_json d)
     | _ \<Rightarrow> (case event_append e of (kind, payload, boundary) \<Rightarrow> append_command kind payload boundary))"

fun event_payload :: "journal_event \<Rightarrow> journal_payload" where
  "event_payload (RegisterAccount acc binding attestation epoch st) = AccountRegistered acc binding attestation epoch"
| "event_payload (ReserveBeforeSend d) = AttemptReserved d"
| "event_payload (RecordDispatch aid at) = AttemptDispatched aid at"
| "event_payload (RecordResolution outcome v) = AttemptResolved v"
| "event_payload (MarkUncertain aid reason) = AttemptUncertain aid"
| "event_payload (UpdateCircuit acc sc g v) = CircuitUpdated acc g sc v"
| "event_payload (ActiveCount acc n) = AuthoritativeActiveCount acc n"
| "event_payload (ProbeStarted acc p) = RecoveryProbeStarted acc p"
| "event_payload (ProbeFinished acc p c) = RecoveryProbeFinished acc c"

section \<open>Reading\<close>

text \<open>A field read with \<open>cast\<close>; a value of another type is outside the payloads the methods write.\<close>

definition get_str :: "json_object \<Rightarrow> string \<Rightarrow> string option" where
  "get_str d k = as_str (map_of d k)"

definition get_int :: "json_object \<Rightarrow> string \<Rightarrow> int option" where
  "get_int d k = as_int (map_of d k)"

fun opt_str :: "JsonValue option \<Rightarrow> string option option" where
  "opt_str (Some JNull) = Some None"
| "opt_str (Some (JStr s)) = Some (Some s)"
| "opt_str _ = None"

fun opt_int :: "JsonValue option \<Rightarrow> int option option" where
  "opt_int (Some JNull) = Some None"
| "opt_int (Some (JInt i)) = Some (Some i)"
| "opt_int _ = None"

fun as_bool :: "JsonValue option \<Rightarrow> bool option" where
  "as_bool (Some (JBool b)) = Some b"
| "as_bool _ = None"

definition read_reservation :: "json_object \<Rightarrow> DurableReservation option" where
  "read_reservation d =
    Option.bind (get_str d ''request_id'') (\<lambda>request_id.
    Option.bind (get_str d ''attempt_id'') (\<lambda>attempt_id.
    Option.bind (get_str d ''account_id'') (\<lambda>account_id.
    Option.bind (get_str d ''leg_id'') (\<lambda>leg_id.
    Option.bind (get_str d ''deployment_generation_id'') (\<lambda>generation.
    Option.bind (get_str d ''installation_id'') (\<lambda>installation.
    Option.bind (get_int d ''bundle_generation'') (\<lambda>bundle_generation.
    Option.bind (get_str d ''bundle_hash'') (\<lambda>bundle_hash.
    Option.bind (get_int d ''fence_token'') (\<lambda>fence.
    Option.bind (get_str d ''boot_id'') (\<lambda>boot_id.
    Option.bind (get_int d ''deadline_at_ms'') (\<lambda>deadline.
    Option.bind (get_str d ''profile_digest'') (\<lambda>profile.
    Option.bind (get_int d ''started_at_ms'') (\<lambda>started.
    Option.bind (get_int d ''reserved_tokens'') (\<lambda>tokens.
    Option.bind (get_int d ''quota_units'') (\<lambda>quota.
    Option.bind (get_int d ''monthly_reset_at_ms'') (\<lambda>reset.
    Option.bind (get_int d ''circuit_epoch'') (\<lambda>epoch.
    Option.bind (get_int d ''account_circuit_epoch'') (\<lambda>account_epoch.
    Option.bind (opt_str (map_of d ''circuit_probe_id'')) (\<lambda>probe.
    Option.bind (opt_str (map_of d ''account_circuit_probe_id'')) (\<lambda>account_probe.
    Some \<lparr>dr_request_id = request_id, dr_attempt_id = attempt_id, dr_account_id = account_id, dr_leg_id = leg_id,
      dr_deployment_generation_id = generation, dr_installation_id = installation,
      dr_bundle_generation = bundle_generation, dr_bundle_hash = bundle_hash, dr_fence_token = fence,
      dr_boot_id = boot_id, dr_deadline_at_ms = deadline, dr_profile_digest = profile, dr_started_at_ms = started,
      dr_reserved_tokens = tokens, dr_quota_units = quota, dr_monthly_reset_at_ms = reset, dr_circuit_epoch = epoch,
      dr_account_circuit_epoch = account_epoch, dr_circuit_probe_id = probe,
      dr_account_circuit_probe_id = account_probe\<rparr>))))))))))))))))))))"

definition read_resolution :: "json_object \<Rightarrow> resolution_record option" where
  "read_resolution d =
    Option.bind (get_str d ''attempt_id'') (\<lambda>attempt_id.
    Option.bind (as_bool (map_of d ''release_capacity'')) (\<lambda>release.
    Option.bind (opt_int (map_of d ''actual_starts'')) (\<lambda>starts.
    Option.bind (opt_int (map_of d ''actual_token_units'')) (\<lambda>tokens.
    Option.bind (opt_int (map_of d ''actual_quota_units'')) (\<lambda>quota.
    Option.bind (get_str d ''resolution_digest'') (\<lambda>dg.
    Option.bind (get_int d ''resolved_at_ms'') (\<lambda>resolved_at.
    Some \<lparr>rv_attempt_id = attempt_id, rv_release_capacity = release, rv_actual_starts = starts,
      rv_actual_token_units = tokens, rv_actual_quota_units = quota, rv_resolution_digest = dg,
      rv_resolved_at_ms = resolved_at\<rparr>)))))))"

definition read_cause :: "string option \<Rightarrow> CircuitCause option option" where
  "read_cause x = (case x of None \<Rightarrow> Some None
     | Some s \<Rightarrow> map_option Some (of_value circuit_cause_value [CC_CAPACITY, CC_TRANSIENT_FAILURE, CC_QUOTA, CC_MANUAL] s))"

definition read_circuit :: "json_object \<Rightarrow> CircuitValue option" where
  "read_circuit d =
    Option.bind (Option.bind (get_str d ''state'') (of_value circuit_state_value [CS_CLOSED, CS_OPEN, CS_HALF_OPEN])) (\<lambda>st.
    Option.bind (Option.bind (opt_str (map_of d ''cause'')) read_cause) (\<lambda>cause.
    Option.bind (get_int d ''epoch'') (\<lambda>epoch.
    Option.bind (get_int d ''opened_at_ms'') (\<lambda>opened.
    Option.bind (get_int d ''retry_at_ms'') (\<lambda>retry.
    Option.bind (get_int d ''backoff_step'') (\<lambda>backoff.
    Option.bind (opt_str (map_of d ''evidence_digest'')) (\<lambda>evidence.
    Option.bind (opt_str (map_of d ''probe_id'')) (\<lambda>probe.
    Some \<lparr>ci_state = st, ci_cause = cause, ci_epoch = epoch, ci_opened_at_ms = opened, ci_retry_at_ms = retry,
      ci_backoff_step = backoff, ci_evidence_digest = evidence, ci_probe_id = probe\<rparr>))))))))"

definition read_payload :: "string \<Rightarrow> json_object \<Rightarrow> journal_payload option" where
  "read_payload kind d =
    (if kind = ''account_registered'' then
       Option.bind (get_str d ''account_id'') (\<lambda>acc. Option.bind (get_str d ''binding_digest'') (\<lambda>binding.
       Option.bind (get_str d ''credential_attestation_digest'') (\<lambda>attestation.
       map_option (AccountRegistered acc binding attestation) (get_int d ''credential_epoch''))))
     else if kind = ''attempt_reserved'' then map_option AttemptReserved (read_reservation d)
     else if kind = ''attempt_dispatched'' then
       Option.bind (get_str d ''attempt_id'') (\<lambda>aid. map_option (AttemptDispatched aid) (get_int d ''dispatched_at_ms''))
     else if kind = ''attempt_resolved'' then map_option AttemptResolved (read_resolution d)
     else if kind = ''attempt_uncertain'' then map_option AttemptUncertain (get_str d ''attempt_id'')
     else if kind = ''circuit_updated'' then
       Option.bind (get_str d ''account_id'') (\<lambda>acc. Option.bind (opt_str (map_of d ''deployment_generation_id'')) (\<lambda>g.
       Option.bind (get_str d ''scope'') (\<lambda>sc. map_option
         (CircuitUpdated acc g (if sc = circuit_scope_value SCOPE_ACCOUNT then SCOPE_ACCOUNT else SCOPE_DEPLOYMENT)) (read_circuit d))))
     else if kind = ''authoritative_active_count'' then
       Option.bind (get_str d ''account_id'') (\<lambda>acc. map_option (AuthoritativeActiveCount acc) (get_int d ''active_count''))
     else if kind = ''recovery_probe_started'' then
       Option.bind (get_str d ''account_id'') (\<lambda>acc. map_option (RecoveryProbeStarted acc) (get_str d ''probe_id''))
     else if kind = ''recovery_probe_finished'' then
       Option.bind (get_str d ''account_id'') (\<lambda>acc. map_option (RecoveryProbeFinished acc)
         (Option.bind (get_str d ''classification'') (of_value probe_value [PC_AVAILABLE, PC_CAPACITY_EXHAUSTED, PC_INCONCLUSIVE])))
     else None)"

section \<open>The round trip\<close>

lemma of_value_state [simp]: "of_value circuit_state_value [CS_CLOSED, CS_OPEN, CS_HALF_OPEN] (circuit_state_value s) = Some s"
  by (cases s) (simp_all add: of_value_def circuit_state_value_def)

lemma of_value_cause [simp]:
  "of_value circuit_cause_value [CC_CAPACITY, CC_TRANSIENT_FAILURE, CC_QUOTA, CC_MANUAL] (circuit_cause_value c) = Some c"
  by (cases c) (simp_all add: of_value_def circuit_cause_value_def)

lemma of_value_probe [simp]:
  "of_value probe_value [PC_AVAILABLE, PC_CAPACITY_EXHAUSTED, PC_INCONCLUSIVE] (probe_value c) = Some c"
  by (cases c) (simp_all add: of_value_def probe_value_def)

lemma scope_value_eq [simp]: "circuit_scope_value sc = circuit_scope_value SCOPE_ACCOUNT \<longleftrightarrow> sc = SCOPE_ACCOUNT"
  by (cases sc) (simp_all add: circuit_scope_value_def)

lemma scope_of_value [simp]: "(if sc = SCOPE_ACCOUNT then SCOPE_ACCOUNT else SCOPE_DEPLOYMENT) = sc"
  by (cases sc) simp_all

lemma opt_str_json [simp]: "opt_str (Some (json_opt_str x)) = Some x" "opt_str (Some (sorted_json (json_opt_str x))) = Some x"
  by (cases x; simp add: json_opt_str_def)+

lemma opt_int_json [simp]: "opt_int (Some (json_opt_int x)) = Some x" "opt_int (Some (sorted_json (json_opt_int x))) = Some x"
  by (cases x; simp add: json_opt_int_def)+

lemma read_cause_json [simp]: "read_cause (map_option circuit_cause_value c) = Some c"
  by (cases c) (simp_all add: read_cause_def)

lemma event_wf: "dict_wf (fst (snd (event_append e)))"
  by (cases e) (simp_all add: event_json_defs)



section \<open>The closed vocabulary\<close>

definition leaf_safe :: "JsonValue \<Rightarrow> bool" where
  "leaf_safe v = (case v of JStr s \<Rightarrow> safe_string s | JInt i \<Rightarrow> 0 \<le> i \<and> i \<le> 2 ^ 63 - 1 | JNull \<Rightarrow> True | JBool b \<Rightarrow> True | _ \<Rightarrow> False)"

lemma leaf_safe_simps [simp]:
  "leaf_safe JNull" "leaf_safe (JBool b)" "leaf_safe (JInt i) \<longleftrightarrow> 0 \<le> i \<and> i \<le> 2 ^ 63 - 1" "leaf_safe (JStr s) \<longleftrightarrow> safe_string s"
  by (simp_all add: leaf_safe_def)

definition is_leaf :: "JsonValue \<Rightarrow> bool" where
  "is_leaf v = (case v of JList xs \<Rightarrow> False | JObj d \<Rightarrow> False | _ \<Rightarrow> True)"

lemma validate_leaf: "is_leaf v \<Longrightarrow> is_ok (validate_safe_value v 1) \<longleftrightarrow> leaf_safe v"
  by (cases v) (auto simp: is_leaf_def leaf_safe_def)

lemma event_leaves: "list_all (is_leaf \<circ> snd) (fst (snd (event_append e)))"
  by (cases e) (auto simp: event_json_defs is_leaf_def json_opt_str_def json_opt_int_def
    split: option.splits)

lemma record_field_keys: "list_all (\<lambda>p. list_all SAFE_KEY (snd p)) RECORD_FIELDS"
  by (simp add: RECORD_FIELDS_def SAFE_KEY_def is_key_char_def)

lemma event_fields: "\<exists>fs. map_of RECORD_FIELDS (fst (event_append e)) = Some fs \<and> set (map fst (fst (snd (event_append e)))) = set fs"
  by (cases e) (simp_all add: RECORD_FIELDS_def event_json_defs insert_commute)

lemma event_short: "length (fst (snd (event_append e))) \<le> 100000"
  by (cases e) (simp_all add: event_json_defs)

text \<open>
  The journal accepts a record exactly when every string in it is a bounded id, a digest or a word of the
  vocabulary and every integer is a 63-bit natural number: the fields of each method are the closed set
  of its kind, so nothing else can be refused.
\<close>

theorem journal_vocabulary_closed:
  "is_ok (validate_payload (fst (event_append e)) (fst (snd (event_append e)))) \<longleftrightarrow> list_all (leaf_safe \<circ> snd) (fst (snd (event_append e)))"
proof -
  let ?d = "fst (snd (event_append e))"
  obtain fs where fs: "map_of RECORD_FIELDS (fst (event_append e)) = Some fs" "set (map fst ?d) = set fs" using event_fields by blast
  have "list_all SAFE_KEY fs" using record_field_keys map_of_SomeD [OF fs(1)] by (auto simp: list_all_iff)
  then have keys: "\<forall>p \<in> set ?d. SAFE_KEY (fst p)" using fs(2) by (auto simp: list_all_iff)
  have "is_ok (validate_payload (fst (event_append e)) ?d) \<longleftrightarrow> is_ok (validate_safe_value (JObj ?d) 0)"
    using fs by (auto simp: is_ok_iff validate_payload_Inr)
  also have "\<dots> \<longleftrightarrow> (\<forall>p \<in> set ?d. is_ok (validate_safe_value (snd p) 1))"
    using keys event_short [of e] by (simp add: is_ok_first_error case_prod_unfold cong: ball_cong)
  also have "\<dots> \<longleftrightarrow> (\<forall>p \<in> set ?d. leaf_safe (snd p))"
    using event_leaves [of e] by (intro ball_cong refl validate_leaf) (simp add: list_all_iff)
  finally show ?thesis by (simp add: list_all_iff)
qed

definition outcome_value :: "TerminalOutcome \<Rightarrow> string" where
  "outcome_value x = (case x of AUTHZ_DENIED \<Rightarrow> ''authz_denied'' | AUTH_STATE_UNAVAILABLE \<Rightarrow> ''auth_state_unavailable''
     | UNSUPPORTED_REQUEST \<Rightarrow> ''unsupported_request'' | BACKPRESSURE_REJECTED \<Rightarrow> ''backpressure_rejected''
     | ROUTE_UNAVAILABLE \<Rightarrow> ''route_unavailable'' | OUTCOME_DEADLINE_EXCEEDED \<Rightarrow> ''deadline_exceeded''
     | UPSTREAM_FAILED \<Rightarrow> ''upstream_failed'' | OUTCOME_CLIENT_CANCELLED \<Rightarrow> ''client_cancelled''
     | OUTCOME_RESPONSE_STREAM_FAILED \<Rightarrow> ''response_stream_failed'' | COMPLETED \<Rightarrow> ''completed'')"

lemma enumerations_are_words:
  "outcome_value x \<in> set SAFE_WORDS" "circuit_state_value st \<in> set SAFE_WORDS" "circuit_cause_value c \<in> set SAFE_WORDS"
  "circuit_scope_value sc \<in> set SAFE_WORDS" "probe_value p \<in> set SAFE_WORDS"
proof -
  show "outcome_value x \<in> set SAFE_WORDS" by (cases x) (simp_all add: outcome_value_def SAFE_WORDS_def)
  show "circuit_state_value st \<in> set SAFE_WORDS" by (cases st) (simp_all add: circuit_state_value_def SAFE_WORDS_def)
  show "circuit_cause_value c \<in> set SAFE_WORDS" by (cases c) (simp_all add: circuit_cause_value_def SAFE_WORDS_def)
  show "circuit_scope_value sc \<in> set SAFE_WORDS" by (cases sc) (simp_all add: circuit_scope_value_def SAFE_WORDS_def)
  show "probe_value p \<in> set SAFE_WORDS" by (cases p) (simp_all add: probe_value_def SAFE_WORDS_def)
qed

end
