(* ===== verification/Admission.thy ===== *)
theory Admission
  imports Scheduler_Promises Routing_Promises Circuit_Control
begin

text \<open>
  Admission (\<open>gateway/scheduler.py\<close>, \<open>AdmissionRequest\<close>, \<open>DispatchLease\<close> and \<open>AdmissionController\<close>):
  waiting requests, the pump that grants leases, and the leases. The controller with what it shares is
  the record \<open>admission\<close>; a coroutine is a function of that record that returns its value or the
  exception it raises with the record after it. Every question put to the rest of the process (a clock,
  the authentication view, the route engine, the generation gate, the journal under the runtime, the
  attempt id factory, whether the awaiting task was cancelled) is answered by the next of a sequence of
  worlds (\<open>ask\<close>), so that nothing is assumed to stay the same between two questions. The pump holds its lock
  from end to end: what other tasks do to leases happens between two operations. A future is answered
  by an entry of \<open>ad_answers\<close>.
\<close>

section \<open>Requests, waiters and leases\<close>

record AdmissionRequest =
  ar_request_id :: request_id
  ar_client :: AuthenticatedClient
  ar_profile :: RequestProfile
  ar_authorization_ceiling :: RequestAuthorizationCeiling
  ar_runtime_identity :: RuntimeIdentity
  ar_deadline_at_ms :: int
  ar_cause :: DispatchCause
  ar_attempt_budget :: AttemptBudget
  ar_emergency :: "EmergencyActivation option"

definition AdmissionRequest_validate :: "AdmissionRequest \<Rightarrow> AdmissionRequest res" where
  "AdmissionRequest_validate r = checks
    [(ar_request_id r \<noteq> bu_request_id (ar_attempt_budget r), ''attempt budget belongs to a different request''),
     (pr_route_group_id (ar_profile r) \<noteq> rc_route_group_id (ar_authorization_ceiling r),
       ''profile and authorization ceiling route groups differ''),
     (cl_key_id (ar_client r) \<noteq> rc_key_id (ar_authorization_ceiling r),
       ''client and authorization ceiling keys differ''),
     (ar_deadline_at_ms r < 1, ''absolute request deadline must be positive'')] r"

datatype py_future = FUT_PENDING | FUT_DONE | FUT_CANCELLED

record waiter =
  wt_request :: AdmissionRequest
  wt_future :: py_future
  wt_effective_ceiling :: RequestAuthorizationCeiling
  wt_admitted_at_ms :: int
  wt_effective_deadline_at_ms :: int
  wt_fallback_once :: "DispatchCause option"

text \<open>A lease keeps the key whose permit its release returns; a shadow lease holds none.\<close>

record DispatchLease =
  dl_request_id :: request_id
  dl_account_id :: account_id
  dl_attempt_id :: attempt_id
  dl_candidate :: Candidate
  dl_attempt_budget :: AttemptBudget
  dl_permit :: "key_id option"
  dl_released :: bool

datatype answer = LeaseAnswer nat | ErrorAnswer py_error

record admission =
  ad_max_waiters_global :: int
  ad_queue :: wdrr
  ad_waiters :: "(request_id, waiter) dict"
  ad_active_by_key :: "(key_id, int) dict"
  ad_registry :: registry
  ad_leases :: "DispatchLease list"
  ad_answers :: "(request_id \<times> answer) list"
  ad_calls :: nat

definition AdmissionController_new :: "registry \<Rightarrow> int \<Rightarrow> admission res" where
  "AdmissionController_new g max_waiters_global =
    res_bind (checks [(max_waiters_global < 1, ''global waiter bound must be positive'')] ()) (\<lambda>_.
    res_map (\<lambda>queue.
      \<lparr>ad_max_waiters_global = max_waiters_global, ad_queue = queue, ad_waiters = [], ad_active_by_key = [],
       ad_registry = g, ad_leases = [], ad_answers = [], ad_calls = 0\<rparr>) (WDRRQueue_new 64))"

section \<open>The process around the controller\<close>

record world =
  wd_now_ms :: int
  wd_runtime_clock :: int
  wd_auth_view :: "AuthRuntimeView res"
  wd_engine :: RouteEngine
  wd_gate :: generation_gate
  wd_health :: JournalHealth
  wd_journal :: journal_env
  wd_attempt_id :: attempt_id
  wd_cancelled :: bool

record environment =
  ev_profile_digest :: "RequestProfile \<Rightarrow> string"
  ev_resolution_digest :: "AttemptResolution \<Rightarrow> string"
  ev_sha :: "string \<Rightarrow> string"
  ev_world :: "nat \<Rightarrow> world"

type_synonym 'a aop = "admission \<Rightarrow> 'a res \<times> admission"

definition apure :: "'a \<Rightarrow> 'a aop" where
  "apure x s = (Inr x, s)"

definition araise :: "py_error \<Rightarrow> 'a aop" where
  "araise e s = (Inl e, s)"

definition alift :: "'a res \<Rightarrow> 'a aop" where
  "alift r s = (r, s)"

definition amod :: "(admission \<Rightarrow> admission) \<Rightarrow> unit aop" where
  "amod f s = (Inr (), f s)"

definition abind :: "'a aop \<Rightarrow> ('a \<Rightarrow> 'b aop) \<Rightarrow> 'b aop" where
  "abind m f s = (case m s of (Inl e, s') \<Rightarrow> (Inl e, s') | (Inr x, s') \<Rightarrow> f x s')"

text \<open>\<open>try\<close> with a handler, and what follows when nothing was raised.\<close>

definition atry :: "'a aop \<Rightarrow> (py_error \<Rightarrow> 'b aop) \<Rightarrow> ('a \<Rightarrow> 'b aop) \<Rightarrow> 'b aop" where
  "atry m h f s = (case m s of (Inl e, s') \<Rightarrow> h e s' | (Inr x, s') \<Rightarrow> f x s')"

definition ask :: "environment \<Rightarrow> world aop" where
  "ask E s = (Inr (ev_world E (ad_calls s)), s\<lparr>ad_calls := Suc (ad_calls s)\<rparr>)"

definition clock_now_ms :: "environment \<Rightarrow> int aop" where
  "clock_now_ms E = abind (ask E) (\<lambda>w. apure (wd_now_ms w))"

text \<open>A call on the account runtime of a lease: the runtime objects outlive publications.\<close>

definition on_account :: "environment \<Rightarrow> account_id \<Rightarrow> (world \<Rightarrow> runtime \<Rightarrow> 'a res \<times> runtime) \<Rightarrow> 'a aop" where
  "on_account E acc f = abind (ask E) (\<lambda>w s.
    case account_runtime (ad_registry s) acc of
      Inl e \<Rightarrow> (Inl e, s)
    | Inr rt \<Rightarrow> (case f w rt of (x, rt') \<Rightarrow>
        (x, s\<lparr>ad_registry := (ad_registry s)\<lparr>sy_runtimes := AList.update acc rt' (sy_runtimes (ad_registry s))\<rparr>\<rparr>)))"

definition runtime_view :: "environment \<Rightarrow> OperationalRuntimeView aop" where
  "runtime_view E = abind (ask E) (\<lambda>w s.
    case operational_view (wd_runtime_clock w) (wd_health w) (ad_registry s) of (x, g) \<Rightarrow> (x, s\<lparr>ad_registry := g\<rparr>))"

definition account_finish :: "environment \<Rightarrow> account_id \<Rightarrow> attempt_id \<Rightarrow> AttemptResolution \<Rightarrow> JournalReceipt aop" where
  "account_finish E acc aid resolution = on_account E acc (\<lambda>w.
     finish (ev_resolution_digest E) (wd_journal w) (wd_runtime_clock w) aid resolution)"

definition unsent :: "TerminalOutcome \<Rightarrow> AttemptResolution" where
  "unsent outcome = \<lparr>rs_outcome = outcome, rs_release_capacity = True, rs_actual_starts = Some 0,
     rs_actual_token_units = Some 0, rs_actual_quota_units = Some 0\<rparr>"

text \<open>The durable reservation off the event loop: a cancelled caller waits for the worker and gives back what
it reserved.\<close>

definition try_reserve_async :: "environment \<Rightarrow> ReservationRequest \<Rightarrow> reservation aop" where
  "try_reserve_async E request s =
    (case map_of (sy_runtimes (ad_registry s)) (rr_account_id request) of
       None \<Rightarrow> (Inr (Denied (ACCOUNT_NOT_FOUND, None)), s)
     | Some _ \<Rightarrow>
       abind (on_account E (rr_account_id request) (\<lambda>w rt.
           case try_reserve (ev_profile_digest E) (wd_journal w) (wd_runtime_clock w) request rt of
             (x, rt') \<Rightarrow> (res_map (\<lambda>y. (wd_cancelled w, y)) x, rt'))) (\<lambda>(cancelled, result).
         if \<not> cancelled then apure result
         else (case result of
            Granted _ \<Rightarrow> abind (account_finish E (rr_account_id request) (rr_attempt_id request)
                (unsent OUTCOME_CLIENT_CANCELLED)) (\<lambda>_. araise CancelledError)
          | Denied _ \<Rightarrow> araise CancelledError)) s)"

section \<open>Permits, waiters and authorization\<close>

definition active_count_of :: "key_id \<Rightarrow> int aop" where
  "active_count_of key_id s = (Inr (dict_get (ad_active_by_key s) key_id 0), s)"

definition acquire_active :: "key_id \<Rightarrow> int \<Rightarrow> bool aop" where
  "acquire_active key_id maximum s =
    (let current = dict_get (ad_active_by_key s) key_id 0 in
     if current \<ge> maximum then (Inr False, s)
     else (Inr True, s\<lparr>ad_active_by_key := AList.update key_id (current + 1) (ad_active_by_key s)\<rparr>))"

definition release_active :: "key_id \<Rightarrow> unit aop" where
  "release_active key_id = amod (\<lambda>s.
    let current = dict_get (ad_active_by_key s) key_id 0 in
    s\<lparr>ad_active_by_key := (if current \<le> 1 then AList.delete key_id (ad_active_by_key s)
       else AList.update key_id (current - 1) (ad_active_by_key s))\<rparr>)"

definition get_waiter :: "request_id \<Rightarrow> waiter aop" where
  "get_waiter rid s = (case map_of (ad_waiters s) rid of None \<Rightarrow> (Inl KeyError, s) | Some wt \<Rightarrow> (Inr wt, s))"

definition set_waiter :: "request_id \<Rightarrow> (waiter \<Rightarrow> waiter) \<Rightarrow> unit aop" where
  "set_waiter rid f = abind (get_waiter rid) (\<lambda>wt.
    amod (\<lambda>s. s\<lparr>ad_waiters := AList.update rid (f wt) (ad_waiters s)\<rparr>))"

definition sync_budget :: "request_id \<Rightarrow> OperationalRuntimeView \<Rightarrow> unit aop" where
  "sync_budget rid view = set_waiter rid (\<lambda>wt. wt\<lparr>wt_request := (wt_request wt)
    \<lparr>ar_attempt_budget := sync_runtime view (ar_attempt_budget (wt_request wt))\<rparr>\<rparr>)"

definition routing_context :: "environment \<Rightarrow> waiter \<Rightarrow> RoutingContext aop" where
  "routing_context E wt = abind (clock_now_ms E) (\<lambda>now.
    alift (RoutingContext_new now (wt_effective_deadline_at_ms wt)
      (ri_dispatcher_fence (ar_runtime_identity (wt_request wt))) (ar_emergency (wt_request wt))))"

definition abandon :: "environment \<Rightarrow> Candidate \<Rightarrow> unit aop" where
  "abandon E chosen = abind (clock_now_ms E) (\<lambda>now. abind (ask E) (\<lambda>w s.
    case abandon_candidate (ev_sha E) (wd_journal w) chosen now (ad_registry s) of
      (x, g) \<Rightarrow> (res_map (\<lambda>_. ()) x, s\<lparr>ad_registry := g\<rparr>)))"

text \<open>The credential and the policy are looked up again; the waiter keeps the contracted ceiling and deadline.\<close>

definition current_route :: "environment \<Rightarrow> waiter \<Rightarrow> RequestAuthorizationCeiling aop" where
  "current_route E wt =
    (let rid = ar_request_id (wt_request wt) in
     abind (ask E) (\<lambda>w. case authorize (wd_engine w) (ar_client (wt_request wt)) (ar_profile (wt_request wt)) of
       Inr current \<Rightarrow> apure current
     | Inl (ValueError _) \<Rightarrow>
         abind (set_waiter rid (\<lambda>wt. wt\<lparr>wt_effective_ceiling := (wt_effective_ceiling wt)\<lparr>rc_authorized_legs := []\<rparr>\<rparr>))
           (\<lambda>_. araise (AdmissionUnavailable ''queued route authorization contracted to empty''))
     | Inl e \<Rightarrow> araise e))"

definition contract_waiter :: "request_id \<Rightarrow> RequestAuthorizationCeiling \<Rightarrow> RequestAuthorizationCeiling aop" where
  "contract_waiter rid contracted =
    abind (set_waiter rid (\<lambda>wt. wt\<lparr>wt_effective_ceiling := contracted,
      wt_effective_deadline_at_ms := min (wt_effective_deadline_at_ms wt)
        (wt_admitted_at_ms wt + rc_deadline_ms contracted)\<rparr>)) (\<lambda>_.
    if rc_authorized_legs contracted = []
    then araise (AdmissionUnavailable ''queued route authorization contracted to empty'')
    else abind (\<lambda>s. (key_position (ad_queue s) rid, s)) (\<lambda>position.
      if position \<ge> rc_max_waiters contracted
      then araise (AdmissionUnavailable ''queued key waiter ceiling contracted'')
      else apure contracted))"

definition current_authorization :: "environment \<Rightarrow> request_id \<Rightarrow> RequestAuthorizationCeiling aop" where
  "current_authorization E rid =
    abind (get_waiter rid) (\<lambda>wt.
    abind (ask E) (\<lambda>w.
    case wd_auth_view w of
      Inl _ \<Rightarrow> araise (AdmissionUnavailable ''queued authorization state unavailable'')
    | Inr view \<Rightarrow>
      if \<not> queued_identity_is_authorized (ar_client (wt_request wt)) view
      then araise (AdmissionUnavailable ''queued client authorization is no longer valid'')
      else abind (current_route E wt) (\<lambda>current.
        abind (alift (RequestAuthorizationCeiling_intersection (wt_effective_ceiling wt) current))
          (contract_waiter rid))))"

definition fail_waiter :: "request_id \<Rightarrow> py_error \<Rightarrow> unit aop" where
  "fail_waiter rid e = abind (get_waiter rid) (\<lambda>wt. amod (\<lambda>s.
    s\<lparr>ad_waiters := AList.delete rid (ad_waiters s), ad_queue := snd (cancel (ad_queue s) rid),
      ad_answers := (if wt_future wt = FUT_PENDING then ad_answers s @ [(rid, ErrorAnswer e)] else ad_answers s)\<rparr>))"

fun is_unavailable :: "py_error \<Rightarrow> bool" where
  "is_unavailable (AdmissionUnavailable _) = True"
| "is_unavailable _ = False"

section \<open>Previews\<close>

definition contract_queued :: "request_id \<Rightarrow> RequestAuthorizationCeiling \<Rightarrow> unit aop" where
  "contract_queued rid authorization s =
    (case queue_entry (ad_queue s) rid of
       Inl e \<Rightarrow> (Inl e, s)
     | Inr queued \<Rightarrow>
       if qe_tier queued \<noteq> rc_queue_tier authorization \<or> qe_weight queued \<noteq> rc_queue_weight authorization
          \<or> qe_authorized_legs queued \<noteq> rc_authorized_legs authorization
       then (case contract (ad_queue s) rid (Some (rc_queue_tier authorization)) (Some (rc_queue_weight authorization))
               (Some (rc_authorized_legs authorization)) of
           Inl e \<Rightarrow> (Inl e, s) | Inr (_, q) \<Rightarrow> (Inr (), s\<lparr>ad_queue := q\<rparr>))
       else (Inr (), s))"

definition route_filter :: "environment \<Rightarrow> waiter \<Rightarrow> RequestAuthorizationCeiling \<Rightarrow> DispatchCause
    \<Rightarrow> OperationalRuntimeView \<Rightarrow> Candidate list aop" where
  "route_filter E wt authorization cause view =
    abind (routing_context E wt) (\<lambda>cx. abind (ask E) (\<lambda>w.
      apure (filter_candidates (wd_gate w) (wd_engine w) authorization (ar_profile (wt_request wt)) cause view cx [])))"

definition preview_candidates :: "environment \<Rightarrow> waiter \<Rightarrow> RequestAuthorizationCeiling \<Rightarrow> OperationalRuntimeView
    \<Rightarrow> Candidate list aop" where
  "preview_candidates E wt authorization view =
    (let cause = (case wt_fallback_once wt of Some c \<Rightarrow> c | None \<Rightarrow> ar_cause (wt_request wt)) in
     abind (route_filter E wt authorization cause view) (\<lambda>candidates.
     abind (if candidates = [] \<and> cause = DC_PRIMARY
       then abind (ask E) (\<lambda>w. case primary_blocking_cause (wd_gate w) (wd_engine w) authorization
              (ar_profile (wt_request wt)) view of
            None \<Rightarrow> apure candidates
          | Some fallback \<Rightarrow> route_filter E wt authorization fallback view)
       else apure candidates) (\<lambda>candidates.
     apure (filter (\<lambda>c. can_send c (ar_attempt_budget (wt_request wt))) candidates))))"

definition preview_authorized :: "environment \<Rightarrow> request_id \<Rightarrow> RequestAuthorizationCeiling \<Rightarrow> Candidate list aop" where
  "preview_authorized E rid authorization =
    abind (contract_queued rid authorization) (\<lambda>_.
    abind (clock_now_ms E) (\<lambda>now.
    abind (get_waiter rid) (\<lambda>wt.
    if now \<ge> wt_effective_deadline_at_ms wt
    then abind (fail_waiter rid (AdmissionUnavailable ''queued request deadline elapsed'')) (\<lambda>_. apure [])
    else abind (active_count_of (cl_key_id (ar_client (wt_request wt)))) (\<lambda>active.
      if active \<ge> rc_max_concurrency authorization then apure []
      else abind (runtime_view E) (\<lambda>view.
        abind (sync_budget rid view) (\<lambda>_.
        abind (get_waiter rid) (\<lambda>wt. preview_candidates E wt authorization view)))))))"

definition preview :: "environment \<Rightarrow> request_id \<Rightarrow> Candidate list aop" where
  "preview E rid =
    atry (current_authorization E rid)
      (\<lambda>e. if is_unavailable e then abind (fail_waiter rid e) (\<lambda>_. apure []) else araise e)
      (preview_authorized E rid)"

type_synonym previews = "(request_id, Candidate list) dict"

primrec preview_entries :: "environment \<Rightarrow> QueueEntry list \<Rightarrow> previews \<Rightarrow> previews aop" where
  "preview_entries E [] found = apure found"
| "preview_entries E (entry # entries) found = (\<lambda>s.
    if \<not> dict_has (ad_waiters s) (qe_request_id entry) then preview_entries E entries found s
    else abind (preview E (qe_request_id entry)) (\<lambda>candidates.
      preview_entries E entries
        (if candidates = [] then found else AList.update (qe_request_id entry) candidates found)) s)"

definition previews_of :: "environment \<Rightarrow> previews aop" where
  "previews_of E s = preview_entries E (queue_entries (ad_queue s)) [] s"

section \<open>Leases\<close>

definition get_lease :: "nat \<Rightarrow> DispatchLease aop" where
  "get_lease i s = (if i < length (ad_leases s) then (Inr (ad_leases s ! i), s) else (Inl KeyError, s))"

definition lease_release :: "nat \<Rightarrow> unit aop" where
  "lease_release i = abind (get_lease i) (\<lambda>l.
    if dl_released l then apure ()
    else abind (amod (\<lambda>s. s\<lparr>ad_leases := (ad_leases s)[i := l\<lparr>dl_released := True\<rparr>]\<rparr>)) (\<lambda>_.
      case dl_permit l of None \<Rightarrow> apure () | Some key_id \<Rightarrow> release_active key_id))"

text \<open>\<open>finish\<close> and \<open>finish_async\<close>: a cancelled caller still waits for the durable finish and then releases.\<close>

definition lease_finish :: "environment \<Rightarrow> nat \<Rightarrow> AttemptResolution \<Rightarrow> JournalReceipt aop" where
  "lease_finish E i resolution = abind (get_lease i) (\<lambda>l.
    abind (account_finish E (dl_account_id l) (dl_attempt_id l) resolution) (\<lambda>receipt.
    abind (lease_release i) (\<lambda>_. apure receipt)))"

definition finish_before_send :: "environment \<Rightarrow> TerminalOutcome \<Rightarrow> nat \<Rightarrow> JournalReceipt aop" where
  "finish_before_send E outcome i = abind (get_lease i) (\<lambda>l.
    abind (abandon E (dl_candidate l)) (\<lambda>_. lease_finish E i (unsent outcome)))"

definition cancel_before_send :: "environment \<Rightarrow> nat \<Rightarrow> JournalReceipt aop" where
  "cancel_before_send E = finish_before_send E OUTCOME_CLIENT_CANCELLED"

definition fail_before_send :: "environment \<Rightarrow> nat \<Rightarrow> JournalReceipt aop" where
  "fail_before_send E = finish_before_send E UPSTREAM_FAILED"

definition lease_response_started :: "nat \<Rightarrow> unit aop" where
  "lease_response_started i = abind (get_lease i) (\<lambda>l.
    amod (\<lambda>s. s\<lparr>ad_leases := (ad_leases s)[i := l\<lparr>dl_attempt_budget := mark_response_started (dl_attempt_budget l)\<rparr>]\<rparr>))"

definition lease_terminal :: "DispatchLease \<Rightarrow> admission \<Rightarrow> bool" where
  "lease_terminal l s =
    (case map_of (sy_runtimes (ad_registry s)) (dl_account_id l) of
       None \<Rightarrow> False | Some rt \<Rightarrow> dict_has (rt_resolutions rt) (dl_attempt_id l))"

section \<open>The pump\<close>

definition denial_cause :: "denial \<Rightarrow> DispatchCause option" where
  "denial_cause d =
    (if fst d \<in> {PARALLEL_EXHAUSTED, RPM_EXHAUSTED} then Some DC_CAPACITY
     else if fst d \<in> {TPM_EXHAUSTED, MONTHLY_QUOTA_EXHAUSTED} then Some DC_QUOTA
     else None)"

text \<open>\<open>dict.fromkeys\<close>: the first occurrence of each element is kept.\<close>

definition unique_first :: "'a list \<Rightarrow> 'a list" where
  "unique_first xs = rev (remdups (rev xs))"

definition candidate_accounts :: "previews \<Rightarrow> (request_id, account_id list) dict" where
  "candidate_accounts ps = map (\<lambda>(rid, cs). (rid, unique_first (map cd_account_id cs))) ps"

definition reservation_request :: "AdmissionRequest \<Rightarrow> Candidate \<Rightarrow> request_id \<Rightarrow> attempt_id \<Rightarrow> int \<Rightarrow> int \<Rightarrow> ReservationRequest res" where
  "reservation_request r c request_id attempt_id deadline quota = ReservationRequest_validate
    \<lparr>rr_request_id = request_id, rr_attempt_id = attempt_id, rr_account_id = cd_account_id c,
     rr_leg_id = cd_leg_id c, rr_deployment_generation_id = cd_generation_id c,
     rr_runtime_identity = ar_runtime_identity r, rr_deadline_at_ms = deadline, rr_profile = ar_profile r,
     rr_input_tokens_upper_bound = pr_input_tokens_max (ar_profile r),
     rr_account_circuit = cd_account_circuit c,
     rr_max_output_tokens = pr_output_tokens_max (ar_profile r),
     rr_max_reasoning_tokens = pr_reasoning_tokens_max (ar_profile r),
     rr_quota_units = quota, rr_circuit = cd_deployment_circuit c\<rparr>"

text \<open>How one turn of the pump's loop ends: \<open>return\<close>, the end of the body or a \<open>continue\<close> with the excluded requests, or
the \<open>continue\<close> after a denial that names a fallback cause.\<close>

datatype pump_turn = PumpReturn | PumpAgain "request_id list" | PumpRetry "request_id list"

definition send_mark :: "environment \<Rightarrow> request_id \<Rightarrow> QueueSelection \<Rightarrow> Candidate \<Rightarrow> attempt_id \<Rightarrow> unit aop" where
  "send_mark E rid selection chosen attempt_id =
    abind (on_account E (cd_account_id chosen) (\<lambda>w rt.
      case mark_dispatched (wd_journal w) (wd_runtime_clock w) attempt_id rt of
        (x, rt') \<Rightarrow> (if wd_cancelled w then Inl CancelledError else x, rt'))) (\<lambda>_.
    abind (\<lambda>s. case map_of (ad_waiters s) rid of
        None \<Rightarrow> (Inl KeyError, s)
      | Some wt \<Rightarrow> (case record_send chosen attempt_id (ar_attempt_budget (wt_request wt)) of (x, b) \<Rightarrow>
          (x, s\<lparr>ad_waiters := AList.update rid
             (wt\<lparr>wt_request := (wt_request wt)\<lparr>ar_attempt_budget := b\<rparr>\<rparr>) (ad_waiters s)\<rparr>))) (\<lambda>_.
    (\<lambda>s. case commit (ad_queue s) selection of Inl e \<Rightarrow> (Inl e, s) | Inr q \<Rightarrow> (Inr (), s\<lparr>ad_queue := q\<rparr>))))"

definition roll_back :: "environment \<Rightarrow> key_id \<Rightarrow> Candidate \<Rightarrow> attempt_id \<Rightarrow> py_error \<Rightarrow> 'a aop" where
  "roll_back E key_id chosen attempt_id e =
    abind (account_finish E (cd_account_id chosen) attempt_id
      (unsent (if e = CancelledError then OUTCOME_CLIENT_CANCELLED else UPSTREAM_FAILED))) (\<lambda>_.
    abind (abandon E chosen) (\<lambda>_.
    abind (release_active key_id) (\<lambda>_. araise e)))"

definition grant :: "environment \<Rightarrow> request_id \<Rightarrow> key_id \<Rightarrow> Candidate \<Rightarrow> attempt_id \<Rightarrow> pump_turn aop" where
  "grant E rid key_id chosen attempt_id = abind (get_waiter rid) (\<lambda>wt s.
    let i = length (ad_leases s);
        s1 = s\<lparr>ad_waiters := AList.delete rid (ad_waiters s),
               ad_leases := ad_leases s @ [\<lparr>dl_request_id = rid, dl_account_id = cd_account_id chosen,
                 dl_attempt_id = attempt_id, dl_candidate = chosen,
                 dl_attempt_budget = ar_attempt_budget (wt_request wt), dl_permit = Some key_id,
                 dl_released = False\<rparr>]\<rparr> in
    case wt_future wt of
      FUT_CANCELLED \<Rightarrow> abind (cancel_before_send E i) (\<lambda>_. apure (PumpAgain [])) s1
    | FUT_DONE \<Rightarrow> (Inr (PumpAgain []), s1)
    | FUT_PENDING \<Rightarrow> (Inr (PumpAgain []), s1\<lparr>ad_answers := ad_answers s1 @ [(rid, LeaseAnswer i)]\<rparr>))"

text \<open>What follows the answer of the runtime, the reservation itself, and the way from the permit to the lease.\<close>

definition after_denial :: "request_id list \<Rightarrow> request_id \<Rightarrow> key_id \<Rightarrow> denial \<Rightarrow> pump_turn aop" where
  "after_denial excluded rid key_id denial =
    abind (release_active key_id) (\<lambda>_.
    case denial_cause denial of
      Some next_cause \<Rightarrow> abind (set_waiter rid (\<lambda>wt. wt\<lparr>wt_fallback_once := Some next_cause\<rparr>))
        (\<lambda>_. apure (PumpRetry excluded))
    | None \<Rightarrow> apure (PumpAgain (rid # excluded)))"

definition after_grant :: "environment \<Rightarrow> QueueSelection \<Rightarrow> key_id \<Rightarrow> Candidate \<Rightarrow> attempt_id \<Rightarrow> pump_turn aop" where
  "after_grant E selection key_id chosen attempt_id =
    (let rid = qe_request_id (sel_entry selection) in
     atry (send_mark E rid selection chosen attempt_id)
       (roll_back E key_id chosen attempt_id)
       (\<lambda>_. grant E rid key_id chosen attempt_id))"

definition pump_attempt :: "environment \<Rightarrow> request_id list \<Rightarrow> QueueSelection \<Rightarrow> key_id \<Rightarrow> Candidate \<Rightarrow> ReservationRequest
    \<Rightarrow> pump_turn aop" where
  "pump_attempt E excluded selection key_id chosen reservation =
    atry (try_reserve_async E reservation)
      (\<lambda>e. abind (abandon E chosen) (\<lambda>_. abind (release_active key_id) (\<lambda>_. araise e)))
      (\<lambda>granted. case granted of
         Denied denial \<Rightarrow> after_denial excluded (qe_request_id (sel_entry selection)) key_id denial
       | Granted _ \<Rightarrow> after_grant E selection key_id chosen (rr_attempt_id reservation))"

definition pump_reserve :: "environment \<Rightarrow> request_id list \<Rightarrow> QueueSelection \<Rightarrow> RequestAuthorizationCeiling
    \<Rightarrow> Candidate \<Rightarrow> pump_turn aop" where
  "pump_reserve E excluded selection authorization chosen =
    (let rid = qe_request_id (sel_entry selection) in
     abind (get_waiter rid) (\<lambda>wt.
     let key_id = cl_key_id (ar_client (wt_request wt)) in
     abind (acquire_active key_id (rc_max_concurrency authorization)) (\<lambda>acquired.
     if \<not> acquired then apure (PumpAgain (rid # excluded))
     else abind (ask E) (\<lambda>w.
       abind (alift (quota_units (wd_engine w) (cd_account_id chosen))) (\<lambda>quota.
       abind (alift (reservation_request (wt_request wt) chosen rid (wd_attempt_id w)
         (wt_effective_deadline_at_ms wt) quota)) (pump_attempt E excluded selection key_id chosen))))))"

text \<open>What the pump does with a selection while it holds the activation gate.\<close>

definition pump_select :: "environment \<Rightarrow> request_id list \<Rightarrow> Candidate list \<Rightarrow> account_id list \<Rightarrow> QueueSelection
    \<Rightarrow> RequestAuthorizationCeiling \<Rightarrow> pump_turn aop" where
  "pump_select E excluded previewed denied_accounts selection authorization =
    (let rid = qe_request_id (sel_entry selection); desired_cause = cd_cause (hd previewed) in
     abind (set_waiter rid (\<lambda>wt. if wt_fallback_once wt = Some desired_cause then wt\<lparr>wt_fallback_once := None\<rparr> else wt)) (\<lambda>_.
     abind (runtime_view E) (\<lambda>view.
     abind (sync_budget rid view) (\<lambda>_.
     abind (get_waiter rid) (\<lambda>wt.
     abind (routing_context E wt) (\<lambda>cx.
     abind (ask E) (\<lambda>w.
     case select_candidate (wd_gate w) (wd_engine w) authorization (ar_profile (wt_request wt)) desired_cause view cx
         denied_accounts of
       None \<Rightarrow> apure (PumpAgain (rid # excluded))
     | Some chosen \<Rightarrow>
       if list_all (\<lambda>p. cd_authorized_leg chosen \<noteq> cd_authorized_leg p) previewed
          \<or> \<not> can_send chosen (ar_attempt_budget (wt_request wt))
       then apure (PumpAgain (rid # excluded))
       else pump_reserve E excluded selection authorization chosen)))))))"

definition pump_gated :: "environment \<Rightarrow> request_id list \<Rightarrow> Candidate list \<Rightarrow> account_id list \<Rightarrow> QueueSelection
    \<Rightarrow> pump_turn aop" where
  "pump_gated E excluded previewed denied_accounts selection =
    (let rid = qe_request_id (sel_entry selection) in
     abind (ask E) (\<lambda>w. if wd_cancelled w then araise CancelledError else
     atry (current_authorization E rid)
       (\<lambda>e. if is_unavailable e then abind (fail_waiter rid e) (\<lambda>_. apure (PumpAgain excluded)) else araise e)
       (\<lambda>authorization.
          abind (clock_now_ms E) (\<lambda>now. abind (get_waiter rid) (\<lambda>wt.
          if now \<ge> wt_effective_deadline_at_ms wt
          then abind (fail_waiter rid (AdmissionUnavailable ''queued request deadline elapsed''))
            (\<lambda>_. apure (PumpAgain excluded))
          else pump_select E excluded previewed denied_accounts selection authorization)))))"

definition pump_selected :: "environment \<Rightarrow> request_id list \<Rightarrow> previews \<Rightarrow> QueueSelection \<Rightarrow> pump_turn aop" where
  "pump_selected E excluded ps selection s =
    (let rid = qe_request_id (sel_entry selection) in
     case (map_of (ad_waiters s) rid, map_of ps rid) of
       (Some _, Some previewed) \<Rightarrow>
         let accounts = dict_get (candidate_accounts ps) rid [];
             allowed = unprotected_accounts (ad_queue s) (sel_entry selection) accounts (candidate_accounts ps) in
         if allowed = [] then (Inr (PumpAgain (rid # excluded)), s)
         else pump_gated E excluded previewed (filter (\<lambda>a. a \<notin> set allowed) accounts) selection s
     | _ \<Rightarrow> (Inl KeyError, s))"

definition pump_round :: "environment \<Rightarrow> request_id list \<Rightarrow> pump_turn aop" where
  "pump_round E excluded =
    abind (previews_of E) (\<lambda>ps.
    abind (\<lambda>s. (propose (ad_queue s) (\<lambda>e. dict_has ps (qe_request_id e)) excluded, s)) (\<lambda>selection.
    case selection of None \<Rightarrow> apure PumpReturn | Some sel \<Rightarrow> pump_selected E excluded ps sel))"

text \<open>The loop, with a bound on its turns: \<open>None\<close> is a pump that has not returned after that many.\<close>

fun pump_loop :: "environment \<Rightarrow> nat \<Rightarrow> request_id list \<Rightarrow> admission \<Rightarrow> (unit res \<times> admission) option" where
  "pump_loop E 0 excluded s = (if ad_waiters s = [] then Some (Inr (), s) else None)"
| "pump_loop E (Suc n) excluded s =
    (if ad_waiters s = [] then Some (Inr (), s)
     else case pump_round E excluded s of
       (Inl e, s') \<Rightarrow> Some (Inl e, s')
     | (Inr PumpReturn, s') \<Rightarrow> Some (Inr (), s')
     | (Inr (PumpAgain excluded'), s') \<Rightarrow> pump_loop E n excluded' s'
     | (Inr (PumpRetry excluded'), s') \<Rightarrow> pump_loop E n excluded' s')"

definition forget_fallbacks :: "admission \<Rightarrow> admission" where
  "forget_fallbacks s = s\<lparr>ad_waiters := map (\<lambda>(rid, wt). (rid, wt\<lparr>wt_fallback_once := None\<rparr>)) (ad_waiters s)\<rparr>"

definition pump :: "environment \<Rightarrow> nat \<Rightarrow> admission \<Rightarrow> (unit res \<times> admission) option" where
  "pump E n s = pump_loop E n [] (forget_fallbacks s)"

definition wake :: "environment \<Rightarrow> nat \<Rightarrow> admission \<Rightarrow> (unit res \<times> admission) option" where
  "wake = pump"

section \<open>Acquire\<close>

definition key_waiters :: "key_id \<Rightarrow> admission \<Rightarrow> int" where
  "key_waiters key_id s =
     int (length (filter (\<lambda>(_, wt). cl_key_id (ar_client (wt_request wt)) = key_id) (ad_waiters s)))"

definition admission_checks :: "environment \<Rightarrow> AdmissionRequest \<Rightarrow> int \<Rightarrow> unit aop" where
  "admission_checks E r now s =
    (if send_closed (ar_attempt_budget r)
     then (Inl (AdmissionUnavailable ''provider send budget is closed''), s)
     else if ar_deadline_at_ms r \<le> now
     then (Inl (AdmissionUnavailable ''request deadline elapsed before queue admission''), s)
     else if dict_has (ad_waiters s) (ar_request_id r) then (Inl (ValueError ''duplicate admission request''), s)
     else if int (length (ad_waiters s)) \<ge> ad_max_waiters_global s
     then (Inl (AdmissionUnavailable ''global waiter bound reached''), s)
     else if key_waiters (cl_key_id (ar_client r)) s \<ge> rc_max_waiters (ar_authorization_ceiling r)
     then (Inl (AdmissionUnavailable ''key waiter bound reached''), s)
     else abind (ask E) (\<lambda>w. case wd_auth_view w of
         Inl _ \<Rightarrow> araise (AdmissionUnavailable ''client authorization state unavailable'')
       | Inr view \<Rightarrow> if queued_identity_is_authorized (ar_client r) view then apure ()
           else araise (AdmissionUnavailable ''client authorization expired before queue admission'')) s)"

definition enqueue_request :: "AdmissionRequest \<Rightarrow> unit aop" where
  "enqueue_request r s =
    (let c = ar_authorization_ceiling r in
     case res_bind (QueueEntry_new (ar_request_id r) (cl_key_id (ar_client r)) (rc_queue_tier c) (rc_queue_weight c)
        (rc_authorized_legs c)) (enqueue (ad_queue s)) of
       Inl e \<Rightarrow> (Inl e, s) | Inr q \<Rightarrow> (Inr (), s\<lparr>ad_queue := q\<rparr>))"

definition admit :: "environment \<Rightarrow> AdmissionRequest \<Rightarrow> unit aop" where
  "admit E r =
    abind (clock_now_ms E) (\<lambda>now.
    abind (runtime_view E) (\<lambda>view.
    let r = r\<lparr>ar_attempt_budget := sync_runtime view (ar_attempt_budget r)\<rparr> in
    abind (admission_checks E r now) (\<lambda>_.
    abind (amod (\<lambda>s. s\<lparr>ad_waiters := AList.update (ar_request_id r)
      \<lparr>wt_request = r, wt_future = FUT_PENDING, wt_effective_ceiling = ar_authorization_ceiling r,
       wt_admitted_at_ms = now,
       wt_effective_deadline_at_ms = min (ar_deadline_at_ms r) (now + rc_deadline_ms (ar_authorization_ceiling r)),
       wt_fallback_once = None\<rparr> (ad_waiters s)\<rparr>)) (\<lambda>_.
    enqueue_request r))))"

text \<open>The handler of a cancelled \<open>acquire\<close>: the waiter leaves the queue, a lease that was already granted is given back.\<close>

definition answer_of :: "admission \<Rightarrow> request_id \<Rightarrow> answer option" where
  "answer_of s rid = map_of (rev (ad_answers s)) rid"

definition cancel_acquire :: "environment \<Rightarrow> request_id \<Rightarrow> unit aop" where
  "cancel_acquire E rid s =
    (if dict_has (ad_waiters s) rid
     then (Inl CancelledError, s\<lparr>ad_waiters := AList.delete rid (ad_waiters s), ad_queue := snd (cancel (ad_queue s) rid)\<rparr>)
     else case answer_of s rid of
       None \<Rightarrow> (Inl CancelledError, s)
     | Some (ErrorAnswer e) \<Rightarrow> (Inl e, s)
     | Some (LeaseAnswer i) \<Rightarrow>
         abind (get_lease i) (\<lambda>l s. if lease_terminal l s then (Inl CancelledError, s)
           else abind (cancel_before_send E i) (\<lambda>_. araise CancelledError) s) s)"

text \<open>\<open>acquire\<close> up to the wait for its answer. Only a cancellation takes the waiter back out.\<close>

definition acquire :: "environment \<Rightarrow> nat \<Rightarrow> AdmissionRequest \<Rightarrow> admission \<Rightarrow> (unit res \<times> admission) option" where
  "acquire E n r s =
    (case admit E r s of
       (Inl e, s1) \<Rightarrow> Some (Inl e, s1)
     | (Inr _, s1) \<Rightarrow>
       (case pump E n s1 of
          Some (Inl CancelledError, s2) \<Rightarrow> Some (cancel_acquire E (ar_request_id r) s2)
        | outcome \<Rightarrow> outcome))"

section \<open>Shadow leases\<close>

definition shadow_authorization :: "environment \<Rightarrow> AdmissionRequest \<Rightarrow> RequestAuthorizationCeiling option aop" where
  "shadow_authorization E r = abind (ask E) (\<lambda>w. case wd_auth_view w of
      Inl _ \<Rightarrow> apure None
    | Inr view \<Rightarrow>
      if \<not> queued_identity_is_authorized (ar_client r) view then apure None
      else abind (ask E) (\<lambda>w.
        case res_bind (authorize (wd_engine w) (ar_client r) (ar_profile r))
               (RequestAuthorizationCeiling_intersection (ar_authorization_ceiling r)) of
          Inl _ \<Rightarrow> apure None | Inr authorization \<Rightarrow> apure (Some authorization)))"

definition shadow_send :: "environment \<Rightarrow> AdmissionRequest \<Rightarrow> request_id \<Rightarrow> Candidate \<Rightarrow> attempt_id \<Rightarrow> nat option aop" where
  "shadow_send E r rid chosen attempt_id =
    atry (on_account E (cd_account_id chosen) (\<lambda>w rt.
        case mark_dispatched (wd_journal w) (wd_runtime_clock w) attempt_id rt of
          (x, rt') \<Rightarrow> (if wd_cancelled w then Inl CancelledError else
             res_bind x (\<lambda>_. case record_send chosen attempt_id (AttemptBudget_new rid) of (y, b) \<Rightarrow> res_map (\<lambda>_. b) y), rt')))
      (\<lambda>e. abind (account_finish E (cd_account_id chosen) attempt_id (unsent UPSTREAM_FAILED)) (\<lambda>_. araise e))
      (\<lambda>budget s. (Inr (Some (length (ad_leases s))),
         s\<lparr>ad_leases := ad_leases s @ [\<lparr>dl_request_id = rid, dl_account_id = cd_account_id chosen,
             dl_attempt_id = attempt_id, dl_candidate = chosen, dl_attempt_budget = budget, dl_permit = None,
             dl_released = False\<rparr>]\<rparr>))"

definition try_acquire_shadow :: "environment \<Rightarrow> request_id \<Rightarrow> AdmissionRequest \<Rightarrow> nat option aop" where
  "try_acquire_shadow E rid r =
    abind (shadow_authorization E r) (\<lambda>authorized. case authorized of
      None \<Rightarrow> apure None
    | Some authorization \<Rightarrow>
      abind (clock_now_ms E) (\<lambda>now.
      if now \<ge> ar_deadline_at_ms r then apure None
      else abind (runtime_view E) (\<lambda>view.
        abind (alift (RoutingContext_new now (ar_deadline_at_ms r) (ri_dispatcher_fence (ar_runtime_identity r)) None)) (\<lambda>cx.
        abind (ask E) (\<lambda>w.
        case shadow_candidate (wd_gate w) (wd_engine w) authorization (ar_profile r) view cx of
          None \<Rightarrow> apure None
        | Some chosen \<Rightarrow>
          abind (alift (quota_units (wd_engine w) (cd_account_id chosen))) (\<lambda>quota.
          abind (alift (reservation_request r chosen rid (wd_attempt_id w) (ar_deadline_at_ms r) quota)) (\<lambda>reservation.
          abind (try_reserve_async E reservation) (\<lambda>granted. case granted of
            Denied _ \<Rightarrow> apure None
          | Granted _ \<Rightarrow> shadow_send E r rid chosen (wd_attempt_id w)))))))))"

end
