(* ===== verification/Admission_Invariant.thy ===== *)
theory Admission_Invariant
  imports Admission
begin

text \<open>
  The invariant of the admission controller. Queue and waiters name the same requests; a waiter's ceiling
  is within the one its request was admitted with; no key has more unreleased leases than its count of
  active permits. The parameters say where an operation stands inside the pump: \<open>p\<close> is the key whose
  permit is taken but not yet part of a lease, \<open>G\<close> the requests already out of the queue. Operations that only
  read the rest of the process are \<open>quiet\<close>; those that renew a waiter \<open>refresh\<close> it; a predicate
  that neither disturbs is \<open>steady\<close>.
\<close>

section \<open>Triples\<close>

definition ahoare :: "(admission \<Rightarrow> bool) \<Rightarrow> 'a aop \<Rightarrow> ('a \<Rightarrow> admission \<Rightarrow> bool) \<Rightarrow> (admission \<Rightarrow> bool) \<Rightarrow> bool" where
  "ahoare P m Q R \<longleftrightarrow> (\<forall>s. P s \<longrightarrow> (case m s of (Inl e, s') \<Rightarrow> R s' | (Inr x, s') \<Rightarrow> Q x s'))"

lemma ahoareI:
  "(\<And>s x s'. P s \<Longrightarrow> m s = (Inr x, s') \<Longrightarrow> Q x s') \<Longrightarrow> (\<And>s e s'. P s \<Longrightarrow> m s = (Inl e, s') \<Longrightarrow> R s') \<Longrightarrow> ahoare P m Q R"
  unfolding ahoare_def by (fastforce split: prod.split sum.split)

lemma ahoare_okD: "ahoare P m Q R \<Longrightarrow> P s \<Longrightarrow> m s = (Inr x, s') \<Longrightarrow> Q x s'"
  by (fastforce simp: ahoare_def)

lemma ahoare_errD: "ahoare P m Q R \<Longrightarrow> P s \<Longrightarrow> m s = (Inl e, s') \<Longrightarrow> R s'"
  by (fastforce simp: ahoare_def)

lemma ahoare_try:
  assumes "ahoare P m M H" "\<And>e. ahoare H (h e) Q R" "\<And>x. ahoare (M x) (f x) Q R"
  shows "ahoare P (atry m h f) Q R"
proof -
  have "case atry m h f s of (Inl e, s') \<Rightarrow> R s' | (Inr x, s') \<Rightarrow> Q x s'" if P: "P s" for s
  proof (cases "m s")
    case (Pair r s')
    show ?thesis
    proof (cases r)
      case (Inl e)
      then show ?thesis using ahoare_errD [OF assms(1) P] assms(2) [of e] Pair by (simp add: atry_def ahoare_def)
    next
      case (Inr x)
      then show ?thesis using ahoare_okD [OF assms(1) P] assms(3) [of x] Pair by (simp add: atry_def ahoare_def)
    qed
  qed
  then show ?thesis by (simp add: ahoare_def)
qed

lemma abind_try: "abind m f = atry m araise f"
  by (rule ext) (simp add: abind_def atry_def araise_def split: prod.split sum.split)

lemma ahoare_raise: "(\<And>s. P s \<Longrightarrow> R s) \<Longrightarrow> ahoare P (araise e) Q R"
  by (simp add: ahoare_def araise_def)

lemma ahoare_bind: "ahoare P m M R \<Longrightarrow> (\<And>x. ahoare (M x) (f x) Q R) \<Longrightarrow> ahoare P (abind m f) Q R"
  unfolding abind_try by (erule ahoare_try) (auto intro: ahoare_raise)

lemma ahoare_pure: "(\<And>s. P s \<Longrightarrow> Q x s) \<Longrightarrow> ahoare P (apure x) Q R"
  by (simp add: ahoare_def apure_def)

lemma ahoare_lift: "(\<And>s x. P s \<Longrightarrow> r = Inr x \<Longrightarrow> Q x s) \<Longrightarrow> (\<And>s. P s \<Longrightarrow> R s) \<Longrightarrow> ahoare P (alift r) Q R"
  by (cases r) (auto simp: ahoare_def alift_def)

lemma ahoare_mod: "(\<And>s. P s \<Longrightarrow> Q () (f s)) \<Longrightarrow> ahoare P (amod f) Q R"
  by (simp add: ahoare_def amod_def)

lemma ahoare_ask:
  "(\<And>s. P s \<Longrightarrow> Q (ev_world E (ad_calls s)) (s\<lparr>ad_calls := Suc (ad_calls s)\<rparr>)) \<Longrightarrow> ahoare P (ask E) Q R"
  by (simp add: ahoare_def ask_def)

lemma ahoare_conseq:
  "ahoare P' m Q' R' \<Longrightarrow> (\<And>s. P s \<Longrightarrow> P' s) \<Longrightarrow> (\<And>x s. Q' x s \<Longrightarrow> Q x s) \<Longrightarrow> (\<And>s. R' s \<Longrightarrow> R s)
    \<Longrightarrow> ahoare P m Q R"
  unfolding ahoare_def by (fastforce split: prod.splits sum.splits)

lemma ahoare_get:
  "(\<And>s wt. P s \<Longrightarrow> map_of (ad_waiters s) rid = Some wt \<Longrightarrow> Q wt s) \<Longrightarrow> (\<And>s. P s \<Longrightarrow> R s) \<Longrightarrow> ahoare P (get_waiter rid) Q R"
  by (auto simp: ahoare_def get_waiter_def split: option.split)

lemma ahoare_set:
  assumes "\<And>s wt. P s \<Longrightarrow> map_of (ad_waiters s) rid = Some wt \<Longrightarrow>
      Q () (s\<lparr>ad_waiters := AList.update rid (f wt) (ad_waiters s)\<rparr>)" "\<And>s. P s \<Longrightarrow> R s"
  shows "ahoare P (set_waiter rid f) Q R"
  unfolding set_waiter_def
  by (rule ahoare_bind, rule ahoare_get [where Q = "\<lambda>wt s. P s \<and> map_of (ad_waiters s) rid = Some wt"])
    (auto intro: assms ahoare_mod)

section \<open>Quiet operations\<close>

named_theorems quiet_intros \<open>operations that change only the runtime registry and the count of questions\<close>

definition quiet :: "'a aop \<Rightarrow> bool" where
  "quiet m \<longleftrightarrow> (\<forall>s x s'. m s = (x, s') \<longrightarrow>
     (\<exists>g n. s' = s\<lparr>ad_registry := g, ad_calls := n\<rparr> \<and> ad_calls s \<le> n))"

lemma quietD: "quiet m \<Longrightarrow> m s = (x, s') \<Longrightarrow> \<exists>g n. s' = s\<lparr>ad_registry := g, ad_calls := n\<rparr> \<and> ad_calls s \<le> n"
  unfolding quiet_def by blast

lemma quietI:
  assumes "\<And>s x s'. m s = (x, s') \<Longrightarrow> \<exists>g n. s' = s\<lparr>ad_registry := g, ad_calls := n\<rparr> \<and> ad_calls s \<le> n"
  shows "quiet m"
  using assms unfolding quiet_def by blast

lemma quiet_same: "(\<And>s. snd (m s) = s) \<Longrightarrow> quiet m"
proof (rule quietI)
  fix s x s' assume "\<And>s. snd (m s) = s" "m s = (x, s')"
  then have "s' = s\<lparr>ad_registry := ad_registry s, ad_calls := ad_calls s\<rparr>" by (metis admission.surjective admission.update_convs(5,8) snd_conv)
  then show "\<exists>g n. s' = s\<lparr>ad_registry := g, ad_calls := n\<rparr> \<and> ad_calls s \<le> n" by blast
qed

lemma quiet_pure [quiet_intros]: "quiet (apure x)"
  by (rule quiet_same) (simp add: apure_def)

lemma quiet_raise [quiet_intros]: "quiet (araise e)"
  by (rule quiet_same) (simp add: araise_def)

lemma quiet_lift [quiet_intros]: "quiet (alift r)"
  by (rule quiet_same) (simp add: alift_def)

lemma quiet_ask [quiet_intros]: "quiet (ask E)"
proof (rule quietI)
  fix s x s' assume "ask E s = (x, s')"
  then have "s' = s\<lparr>ad_registry := ad_registry s, ad_calls := Suc (ad_calls s)\<rparr>" by (auto simp: ask_def)
  then show "\<exists>g n. s' = s\<lparr>ad_registry := g, ad_calls := n\<rparr> \<and> ad_calls s \<le> n" by fastforce
qed

lemma quiet_bind [quiet_intros]:
  assumes "quiet m" "\<And>x. quiet (f x)"
  shows "quiet (abind m f)"
proof (rule quietI)
  fix s x s' assume run: "abind m f s = (x, s')"
  obtain r s1 where m: "m s = (r, s1)" by (cases "m s")
  obtain g n where s1: "s1 = s\<lparr>ad_registry := g, ad_calls := n\<rparr>" "ad_calls s \<le> n" using quietD [OF assms(1) m] by blast
  show "\<exists>g n. s' = s\<lparr>ad_registry := g, ad_calls := n\<rparr> \<and> ad_calls s \<le> n"
  proof (cases r)
    case (Inl e)
    then show ?thesis using run m s1 by (auto simp: abind_def)
  next
    case (Inr y)
    then have "f y s1 = (x, s')" using run m by (simp add: abind_def)
    then obtain g' n' where s': "s' = s1\<lparr>ad_registry := g', ad_calls := n'\<rparr>" "ad_calls s1 \<le> n'"
      using quietD [OF assms(2)] by blast
    then have "s' = s\<lparr>ad_registry := g', ad_calls := n'\<rparr>" "ad_calls s \<le> n'" using s1 by simp_all
    then show ?thesis by blast
  qed
qed

lemma quiet_registry [quiet_intros]:
  "quiet (\<lambda>s. case F (ad_registry s) of (x, g) \<Rightarrow> (h x, s\<lparr>ad_registry := g\<rparr>))"
proof (rule quietI)
  fix s x s' assume run: "(case F (ad_registry s) of (x, g) \<Rightarrow> (h x, s\<lparr>ad_registry := g\<rparr>)) = (x, s')"
  obtain y g where "F (ad_registry s) = (y, g)" by (cases "F (ad_registry s)")
  then have "s' = s\<lparr>ad_registry := g, ad_calls := ad_calls s\<rparr>" using run by auto
  then show "\<exists>g n. s' = s\<lparr>ad_registry := g, ad_calls := n\<rparr> \<and> ad_calls s \<le> n" by blast
qed

lemma quiet_on_account [quiet_intros]: "quiet (on_account E acc f)"
  unfolding on_account_def
proof (rule quiet_bind [OF quiet_ask])
  fix w
  let ?F = "\<lambda>g. case account_runtime g acc of Inl e \<Rightarrow> (Inl e, g)
    | Inr rt \<Rightarrow> (case f w rt of (x, rt') \<Rightarrow> (x, g\<lparr>sy_runtimes := AList.update acc rt' (sy_runtimes g)\<rparr>))"
  have "(\<lambda>s. case account_runtime (ad_registry s) acc of Inl e \<Rightarrow> (Inl e, s)
      | Inr rt \<Rightarrow> (case f w rt of (x, rt') \<Rightarrow> (x, s\<lparr>ad_registry := (ad_registry s)
          \<lparr>sy_runtimes := AList.update acc rt' (sy_runtimes (ad_registry s))\<rparr>\<rparr>)))
    = (\<lambda>s. case ?F (ad_registry s) of (x, g) \<Rightarrow> (x, s\<lparr>ad_registry := g\<rparr>))"
    by (rule ext) (simp split: sum.split prod.split)
  then show "quiet (\<lambda>s. case account_runtime (ad_registry s) acc of Inl e \<Rightarrow> (Inl e, s)
      | Inr rt \<Rightarrow> (case f w rt of (x, rt') \<Rightarrow> (x, s\<lparr>ad_registry := (ad_registry s)
          \<lparr>sy_runtimes := AList.update acc rt' (sy_runtimes (ad_registry s))\<rparr>\<rparr>)))"
    by (rule ssubst) (rule quiet_registry [where F = ?F and h = "\<lambda>x. x"])
qed

lemma quiet_view [quiet_intros]: "quiet (runtime_view E)"
  unfolding runtime_view_def by (intro quiet_intros quiet_registry [where h = "\<lambda>x. x"])

lemma quiet_now [quiet_intros]: "quiet (clock_now_ms E)"
  unfolding clock_now_ms_def by (intro quiet_intros)

lemma quiet_finish [quiet_intros]: "quiet (account_finish E acc aid r)"
  unfolding account_finish_def by (intro quiet_intros)

lemma quiet_abandon [quiet_intros]: "quiet (abandon E c)"
  unfolding abandon_def by (intro quiet_intros)

lemma quiet_context [quiet_intros]: "quiet (routing_context E wt)"
  unfolding routing_context_def by (intro quiet_intros)

lemma quiet_split:
  "(\<And>s. \<exists>m. quiet m \<and> f s = m s) \<Longrightarrow> quiet f"
  unfolding quiet_def by metis

lemma quiet_reserve [quiet_intros]: "quiet (try_reserve_async E r)"
proof (rule quiet_split)
  fix s
  show "\<exists>m. quiet m \<and> try_reserve_async E r s = m s"
  proof (cases "map_of (sy_runtimes (ad_registry s)) (rr_account_id r)")
    case None
    then show ?thesis by (intro exI [of _ "apure (Denied (ACCOUNT_NOT_FOUND, None))"])
      (simp add: quiet_pure try_reserve_async_def apure_def)
  next
    case (Some rt)
    then show ?thesis unfolding try_reserve_async_def
      by (simp, intro exI conjI, rule_tac [2] refl) (auto intro!: quiet_intros split: reservation.split)
  qed
qed

lemma quiet_filter [quiet_intros]: "quiet (route_filter E wt a c v)"
  unfolding route_filter_def by (intro quiet_intros)

lemma quiet_candidates [quiet_intros]: "quiet (preview_candidates E wt a v)"
  unfolding preview_candidates_def Let_def by (auto intro!: quiet_intros split: option.split)

section \<open>The invariant\<close>

definition held :: "key_id \<Rightarrow> DispatchLease \<Rightarrow> bool" where
  "held k l \<longleftrightarrow> dl_permit l = Some k \<and> \<not> dl_released l"

definition live :: "DispatchLease list \<Rightarrow> key_id \<Rightarrow> int" where
  "live ls k = int (length (filter (held k) ls))"

definition permits_ok :: "key_id option \<Rightarrow> admission \<Rightarrow> bool" where
  "permits_ok p s \<longleftrightarrow> (\<forall>k. live (ad_leases s) k + (if p = Some k then 1 else 0) \<le> dict_get (ad_active_by_key s) k 0)"

definition waiter_ok :: "request_id \<Rightarrow> waiter \<Rightarrow> bool" where
  "waiter_ok rid wt \<longleftrightarrow> ar_request_id (wt_request wt) = rid \<and> wt_future wt = FUT_PENDING \<and>
     ceiling_valid (wt_effective_ceiling wt) \<and>
     ceiling_within (wt_effective_ceiling wt) (ar_authorization_ceiling (wt_request wt)) \<and>
     wt_effective_deadline_at_ms wt \<le> ar_deadline_at_ms (wt_request wt)"

definition queue_agrees :: "request_id set \<Rightarrow> admission \<Rightarrow> bool" where
  "queue_agrees G s \<longleftrightarrow> fst ` set (w_queued (ad_queue s)) = fst ` set (ad_waiters s) - G"

definition waiters_ok :: "request_id set \<Rightarrow> admission \<Rightarrow> bool" where
  "waiters_ok G s \<longleftrightarrow> dict_wf (ad_waiters s) \<and> (\<forall>(rid, wt) \<in> set (ad_waiters s). waiter_ok rid wt) \<and>
     queue_agrees G s \<and> int (length (ad_waiters s)) \<le> ad_max_waiters_global s"

definition adm_inv :: "key_id option \<Rightarrow> request_id set \<Rightarrow> admission \<Rightarrow> bool" where
  "adm_inv p G s \<longleftrightarrow> wdrr_wf (ad_queue s) \<and> waiters_ok G s \<and> permits_ok p s"

text \<open>A waiter renewed: the same request, no more authority and no later deadline.\<close>

definition same_request :: "AdmissionRequest \<Rightarrow> AdmissionRequest \<Rightarrow> bool" where
  "same_request a b \<longleftrightarrow> b\<lparr>ar_attempt_budget := ar_attempt_budget a\<rparr> = a"

definition refresh :: "waiter \<Rightarrow> waiter \<Rightarrow> bool" where
  "refresh a b \<longleftrightarrow> same_request (wt_request a) (wt_request b) \<and> wt_future b = wt_future a \<and>
     (ceiling_valid (wt_effective_ceiling a) \<longrightarrow> ceiling_valid (wt_effective_ceiling b)) \<and>
     ceiling_within (wt_effective_ceiling b) (wt_effective_ceiling a) \<and>
     wt_effective_deadline_at_ms b \<le> wt_effective_deadline_at_ms a"

lemma same_requestD:
  assumes "same_request a b"
  shows "ar_request_id b = ar_request_id a" "ar_client b = ar_client a" "ar_profile b = ar_profile a"
    "ar_authorization_ceiling b = ar_authorization_ceiling a" "ar_deadline_at_ms b = ar_deadline_at_ms a"
  using assms by (cases a; cases b; simp add: same_request_def)+

lemma same_request_refl [simp]: "same_request a a"
  by (simp add: same_request_def)

lemma same_request_trans: "same_request a b \<Longrightarrow> same_request b c \<Longrightarrow> same_request a c"
  by (cases a; cases b; cases c) (auto simp: same_request_def)

lemma same_request_budget [simp]: "same_request a (a\<lparr>ar_attempt_budget := b\<rparr>)"
  by (simp add: same_request_def)

lemma refresh_refl [simp]: "refresh a a"
  by (simp add: refresh_def ceil.within_refl)

lemma refresh_trans: "refresh a b \<Longrightarrow> refresh b c \<Longrightarrow> refresh a c"
  unfolding refresh_def by (auto intro: same_request_trans ceil.within_trans)

lemma refresh_budget: "refresh wt (wt\<lparr>wt_request := (wt_request wt)\<lparr>ar_attempt_budget := b\<rparr>\<rparr>)"
  by (simp add: refresh_def ceil.within_refl)

lemma refresh_fallback: "refresh wt (wt\<lparr>wt_fallback_once := c\<rparr>)"
  by (simp add: refresh_def ceil.within_refl)

lemma refresh_emptied: "refresh wt (wt\<lparr>wt_effective_ceiling := (wt_effective_ceiling wt)\<lparr>rc_authorized_legs := []\<rparr>\<rparr>)"
  by (simp add: refresh_def ceiling_within_def ceiling_valid_iff ceiling_fields_ok_def)

lemma refresh_contracted:
  "ceiling_valid c \<Longrightarrow> ceiling_within c (wt_effective_ceiling wt) \<Longrightarrow>
     refresh wt (wt\<lparr>wt_effective_ceiling := c, wt_effective_deadline_at_ms := min (wt_effective_deadline_at_ms wt) d\<rparr>)"
  by (simp add: refresh_def)

lemmas refreshes = refresh_budget refresh_fallback refresh_emptied refresh_refl

lemma refresh_ok: "waiter_ok rid a \<Longrightarrow> refresh a b \<Longrightarrow> waiter_ok rid b"
  unfolding waiter_ok_def refresh_def by (auto simp: same_requestD intro: ceil.within_trans)

section \<open>Steady predicates\<close>

definition calm :: "(admission \<Rightarrow> bool) \<Rightarrow> bool" where
  "calm P \<longleftrightarrow> (\<forall>s g n. P s \<longrightarrow> ad_calls s \<le> n \<longrightarrow> P (s\<lparr>ad_registry := g, ad_calls := n\<rparr>))"

definition steady :: "(admission \<Rightarrow> bool) \<Rightarrow> bool" where
  "steady P \<longleftrightarrow> calm P \<and>
     (\<forall>s rid wt wt'. P s \<longrightarrow> map_of (ad_waiters s) rid = Some wt \<longrightarrow> refresh wt wt' \<longrightarrow>
        P (s\<lparr>ad_waiters := AList.update rid wt' (ad_waiters s)\<rparr>))"

lemma calmD: "calm P \<Longrightarrow> P s \<Longrightarrow> ad_calls s \<le> n \<Longrightarrow> P (s\<lparr>ad_registry := g, ad_calls := n\<rparr>)"
  by (simp add: calm_def)

lemma steady_calm: "steady P \<Longrightarrow> calm P"
  by (simp add: steady_def)

lemma calm_waiter: "calm P \<Longrightarrow> calm (\<lambda>s. P s \<and> map_of (ad_waiters s) rid = x)"
  by (simp add: calm_def)

lemma calm_conj: "calm P \<Longrightarrow> calm Q \<Longrightarrow> calm (\<lambda>s. P s \<and> Q s)"
  by (simp add: calm_def)

lemma steady_refresh:
  "steady P \<Longrightarrow> P s \<Longrightarrow> map_of (ad_waiters s) rid = Some wt \<Longrightarrow> refresh wt wt' \<Longrightarrow>
     P (s\<lparr>ad_waiters := AList.update rid wt' (ad_waiters s)\<rparr>)"
  by (simp add: steady_def)

lemma steady_conj: "steady P \<Longrightarrow> steady Q \<Longrightarrow> steady (\<lambda>s. P s \<and> Q s)"
  unfolding steady_def calm_def by blast

lemma steadyI:
  assumes "\<And>s g n. P s \<Longrightarrow> ad_calls s \<le> n \<Longrightarrow> P (s\<lparr>ad_registry := g, ad_calls := n\<rparr>)"
    and "\<And>s rid wt wt'. P s \<Longrightarrow> map_of (ad_waiters s) rid = Some wt \<Longrightarrow> refresh wt wt' \<Longrightarrow>
      P (s\<lparr>ad_waiters := AList.update rid wt' (ad_waiters s)\<rparr>)"
  shows "steady P"
  using assms unfolding steady_def calm_def by blast

lemma ahoare_quiet: "quiet m \<Longrightarrow> calm P \<Longrightarrow> ahoare P m (\<lambda>_. P) P"
  by (rule ahoareI) (auto dest!: quietD intro: calmD)

lemma ahoare_refresh:
  "steady P \<Longrightarrow> (\<And>wt. refresh wt (f wt)) \<Longrightarrow> ahoare P (set_waiter rid f) (\<lambda>_. P) P"
  by (rule ahoare_set) (auto intro: steady_refresh)

subsection \<open>Sequencing\<close>

lemma ahoare_pre: "ahoare P' m Q R \<Longrightarrow> (\<And>s. P s \<Longrightarrow> P' s) \<Longrightarrow> ahoare P m Q R"
  by (erule ahoare_conseq)

lemma ahoare_post: "ahoare P m Q' R \<Longrightarrow> (\<And>x s. Q' x s \<Longrightarrow> Q x s) \<Longrightarrow> ahoare P m Q R"
  by (erule ahoare_conseq)

lemma ahoare_fact: "(F \<Longrightarrow> ahoare P m Q R) \<Longrightarrow> ahoare (\<lambda>s. P s \<and> F) m Q R"
  by (simp add: ahoare_def)

lemma bind_quiet:
  "quiet m \<Longrightarrow> calm P \<Longrightarrow> (\<And>x. ahoare P (f x) Q R) \<Longrightarrow> (\<And>s. P s \<Longrightarrow> R s) \<Longrightarrow> ahoare P (abind m f) Q R"
  by (rule ahoare_bind [OF ahoare_conseq [OF ahoare_quiet]])

lemma bind_refresh:
  "steady P \<Longrightarrow> (\<And>wt. refresh wt (g wt)) \<Longrightarrow> (\<And>x. ahoare P (f x) Q R) \<Longrightarrow> (\<And>s. P s \<Longrightarrow> R s) \<Longrightarrow>
     ahoare P (abind (set_waiter rid g) f) Q R"
  by (rule ahoare_bind [OF ahoare_conseq [OF ahoare_refresh]])

lemma bind_ask:
  assumes "calm P" "\<And>s. P s \<Longrightarrow> n \<le> ad_calls s" "\<And>m. n \<le> m \<Longrightarrow> ahoare P (f (ev_world E m)) Q R"
  shows "ahoare P (abind (ask E) f) Q R"
proof -
  have "P (s\<lparr>ad_calls := Suc (ad_calls s)\<rparr>)" if "P s" for s
    using calmD [OF assms(1) that, of "Suc (ad_calls s)" "ad_registry s"] by simp
  then show ?thesis using assms(2,3) by (simp add: ahoare_def abind_def ask_def)
qed

lemma bind_get:
  "(\<And>wt. ahoare (\<lambda>s. P s \<and> map_of (ad_waiters s) rid = Some wt) (f wt) Q R) \<Longrightarrow> (\<And>s. P s \<Longrightarrow> R s) \<Longrightarrow>
     ahoare P (abind (get_waiter rid) f) Q R"
  by (rule ahoare_bind [where M = "\<lambda>wt s. P s \<and> map_of (ad_waiters s) rid = Some wt"], rule ahoare_get) auto

lemma bind_lift:
  "(\<And>x. r = Inr x \<Longrightarrow> ahoare P (f x) Q R) \<Longrightarrow> (\<And>s. P s \<Longrightarrow> R s) \<Longrightarrow> ahoare P (abind (alift r) f) Q R"
  by (cases r) (auto simp: ahoare_def abind_def alift_def)

lemma bind_read:
  "(\<And>x. ahoare (\<lambda>s. P s \<and> h s = Inr x) (f x) Q R) \<Longrightarrow> (\<And>s. P s \<Longrightarrow> R s) \<Longrightarrow> ahoare P (abind (\<lambda>s. (h s, s)) f) Q R"
  by (fastforce simp: ahoare_def abind_def split: sum.split)

lemma keys_update_known: "map_of d k = Some v \<Longrightarrow> map fst (AList.update k v' d) = map fst d"
  by (induction d) auto

lemma set_update_subset: "set (AList.update k v d) \<subseteq> insert (k, v) (set d)"
  by (induction d) auto

lemma steady_inv: "steady (adm_inv p G)"
proof -
  have "adm_inv p G (s\<lparr>ad_waiters := AList.update rid wt' (ad_waiters s)\<rparr>)"
    if inv: "adm_inv p G s" and wt: "map_of (ad_waiters s) rid = Some wt" and r: "refresh wt wt'" for s rid wt wt'
  proof -
    define ws where "ws = AList.update rid wt' (ad_waiters s)"
    have keys: "map fst ws = map fst (ad_waiters s)" unfolding ws_def by (rule keys_update_known [OF wt])
    have sub: "set ws \<subseteq> insert (rid, wt') (set (ad_waiters s))" unfolding ws_def by (rule set_update_subset)
    have w: "waiters_ok G s" using inv by (simp add: adm_inv_def)
    have "waiter_ok rid wt'" using refresh_ok [OF _ r] w map_of_SomeD [OF wt] by (auto simp: waiters_ok_def)
    with w sub have "\<forall>(rid, wt) \<in> set ws. waiter_ok rid wt" unfolding waiters_ok_def by blast
    moreover have "fst ` set ws = fst ` set (ad_waiters s)" "length ws = length (ad_waiters s)"
      using arg_cong [OF keys, of set] arg_cong [OF keys, of length] by simp_all
    moreover have "dict_wf ws" using w by (simp only: waiters_ok_def keys)
    ultimately have "waiters_ok G (s\<lparr>ad_waiters := ws\<rparr>)" using w by (simp add: waiters_ok_def queue_agrees_def)
    then show ?thesis using inv by (simp add: adm_inv_def permits_ok_def ws_def)
  qed
  moreover have "adm_inv p G (s\<lparr>ad_registry := g, ad_calls := n\<rparr>) = adm_inv p G s" for s g n
    by (simp add: adm_inv_def waiters_ok_def permits_ok_def queue_agrees_def)
  ultimately show ?thesis by (auto intro!: steadyI)
qed

text \<open>Where a turn of the pump stands: the leases \<open>L\<close> are those it began with, its waiters come from \<open>W\<close>, and
every question from number \<open>n\<close> on was asked in this turn.\<close>

definition derived :: "(request_id, waiter) dict \<Rightarrow> admission \<Rightarrow> bool" where
  "derived W s \<longleftrightarrow> (\<forall>rid wt. map_of (ad_waiters s) rid = Some wt \<longrightarrow>
     (\<exists>wt0. map_of W rid = Some wt0 \<and> refresh wt0 wt))"

definition turn :: "key_id option \<Rightarrow> DispatchLease list \<Rightarrow> (request_id, waiter) dict \<Rightarrow> nat \<Rightarrow> admission \<Rightarrow> bool" where
  "turn p L W n s \<longleftrightarrow> adm_inv p {} s \<and> ad_leases s = L \<and> derived W s \<and> n \<le> ad_calls s"

lemma steady_derived: "steady (derived W)"
  unfolding steady_def calm_def derived_def by (auto simp: map_of_update split: if_splits) (meson refresh_trans)

lemma steady_leases: "steady (\<lambda>s. ad_leases s = L)"
  by (simp add: steady_def calm_def)

lemma steady_queue: "steady (\<lambda>s. ad_queue s = Q)"
  by (simp add: steady_def calm_def)

lemma steady_active: "steady (\<lambda>s. dict_get (ad_active_by_key s) k 0 \<le> m)"
  by (simp add: steady_def calm_def)

lemma steady_calls: "steady (\<lambda>s. n \<le> ad_calls s)"
  by (simp add: steady_def calm_def)

lemma steady_turn: "steady (turn p L W n)"
  unfolding turn_def by (intro steady_conj steady_inv steady_derived steady_leases steady_calls)

lemma turn_waiter: "turn p L W n s \<Longrightarrow> map_of (ad_waiters s) rid = Some wt \<Longrightarrow> waiter_ok rid wt"
  unfolding turn_def adm_inv_def waiters_ok_def by (blast dest: map_of_SomeD)

section \<open>Authorization of a waiter\<close>

text \<open>What \<open>current_authorization\<close> established in this turn about the request.\<close>

definition authorized :: "environment \<Rightarrow> nat \<Rightarrow> AdmissionRequest \<Rightarrow> RequestAuthorizationCeiling \<Rightarrow> bool" where
  "authorized E n r a \<longleftrightarrow>
     (\<exists>m v. n \<le> m \<and> wd_auth_view (ev_world E m) = Inr v \<and> queued_identity_is_authorized (ar_client r) v) \<and>
     (\<exists>m now. n \<le> m \<and> authorize (wd_engine (ev_world E m)) (ar_client r) (ar_profile r) = Inr now \<and> ceiling_within a now) \<and>
     ceiling_within a (ar_authorization_ceiling r)"

text \<open>A fact about a waiting request that depends on nothing a refresh changes.\<close>

definition about :: "request_id \<Rightarrow> (AdmissionRequest \<Rightarrow> bool) \<Rightarrow> admission \<Rightarrow> bool" where
  "about rid F s \<longleftrightarrow> (\<exists>wt. map_of (ad_waiters s) rid = Some wt \<and> F (wt_request wt))"

definition request_fact :: "(AdmissionRequest \<Rightarrow> bool) \<Rightarrow> bool" where
  "request_fact F \<longleftrightarrow> (\<forall>a b. same_request a b \<longrightarrow> F a = F b)"

lemma steady_about: "request_fact F \<Longrightarrow> steady (about rid F)"
  unfolding steady_def calm_def about_def request_fact_def refresh_def by (fastforce simp: map_of_update split: if_splits)

lemma request_fact_authorized: "request_fact (\<lambda>r. authorized E n r a)"
  by (simp add: request_fact_def authorized_def same_requestD)

lemma route_spec:
  assumes P: "steady P" "\<And>s. P s \<Longrightarrow> n \<le> ad_calls s" and rid: "ar_request_id (wt_request wt) = rid"
    and rest: "\<And>now m. n \<le> m \<Longrightarrow>
      authorize (wd_engine (ev_world E m)) (ar_client (wt_request wt)) (ar_profile (wt_request wt)) = Inr now \<Longrightarrow>
      ahoare (\<lambda>s. P s \<and> map_of (ad_waiters s) rid = Some wt) (f now) Q P"
  shows "ahoare (\<lambda>s. P s \<and> map_of (ad_waiters s) rid = Some wt) (abind (current_route E wt) f) Q P"
proof (rule ahoare_bind [where M = "\<lambda>now s. (P s \<and> map_of (ad_waiters s) rid = Some wt) \<and> (\<exists>m \<ge> n.
      authorize (wd_engine (ev_world E m)) (ar_client (wt_request wt)) (ar_profile (wt_request wt)) = Inr now)"])
  have set: "ahoare (\<lambda>s. P s \<and> map_of (ad_waiters s) rid = Some wt)
      (abind (set_waiter rid (\<lambda>wt. wt\<lparr>wt_effective_ceiling := (wt_effective_ceiling wt)\<lparr>rc_authorized_legs := []\<rparr>\<rparr>)) (\<lambda>_. araise e)) Q P" for e Q
    by (rule ahoare_pre [OF bind_refresh [OF P(1)]]) (auto intro: refreshes ahoare_raise)
  show "ahoare (\<lambda>s. P s \<and> map_of (ad_waiters s) rid = Some wt) (current_route E wt)
     (\<lambda>now s. (P s \<and> map_of (ad_waiters s) rid = Some wt) \<and> (\<exists>m \<ge> n.
      authorize (wd_engine (ev_world E m)) (ar_client (wt_request wt)) (ar_profile (wt_request wt)) = Inr now)) P"
    unfolding current_route_def Let_def rid
    by (rule bind_ask [OF calm_waiter [OF steady_calm [OF P(1)]], where n = n])
      (use set P(2) in \<open>auto split: sum.split py_error.split intro!: ahoare_pure ahoare_raise\<close>)
next
  fix now
  show "ahoare (\<lambda>s. (P s \<and> map_of (ad_waiters s) rid = Some wt) \<and> (\<exists>m \<ge> n.
      authorize (wd_engine (ev_world E m)) (ar_client (wt_request wt)) (ar_profile (wt_request wt)) = Inr now)) (f now) Q P"
    by (rule ahoare_fact) (auto intro: rest)
qed

lemma contract_waiter_spec:
  assumes P: "steady P" and c: "ceiling_valid c" "ceiling_within c (wt_effective_ceiling wt)"
    and F: "request_fact F" "F (wt_request wt)"
  shows "ahoare (\<lambda>s. P s \<and> map_of (ad_waiters s) rid = Some wt) (contract_waiter rid c)
    (\<lambda>a s. P s \<and> about rid F s \<and> a = c) P"
  unfolding contract_waiter_def
proof (rule ahoare_bind, rule ahoare_set [where Q = "\<lambda>_ s. P s \<and> about rid F s"])
  fix s wt' assume "P s \<and> map_of (ad_waiters s) rid = Some wt" "map_of (ad_waiters s) rid = Some wt'"
  then show "P (s\<lparr>ad_waiters := AList.update rid (wt'\<lparr>wt_effective_ceiling := c, wt_effective_deadline_at_ms :=
              min (wt_effective_deadline_at_ms wt') (wt_admitted_at_ms wt' + rc_deadline_ms c)\<rparr>) (ad_waiters s)\<rparr>)
     \<and> about rid F (s\<lparr>ad_waiters := AList.update rid (wt'\<lparr>wt_effective_ceiling := c, wt_effective_deadline_at_ms :=
              min (wt_effective_deadline_at_ms wt') (wt_admitted_at_ms wt' + rc_deadline_ms c)\<rparr>) (ad_waiters s)\<rparr>)"
    using F(2) by (auto simp: about_def map_of_update intro!: steady_refresh [OF P] refresh_contracted c)
qed (auto intro!: ahoare_raise ahoare_pure bind_read)

lemma authorization_spec:
  assumes P: "steady P" "\<And>s. P s \<Longrightarrow> n \<le> ad_calls s"
    and ok: "\<And>s wt. P s \<Longrightarrow> map_of (ad_waiters s) rid = Some wt \<Longrightarrow> waiter_ok rid wt"
  shows "ahoare P (current_authorization E rid) (\<lambda>a s. P s \<and> about rid (\<lambda>r. authorized E n r a) s) P"
  unfolding current_authorization_def
proof (rule bind_get, rule bind_ask [OF calm_waiter [OF steady_calm [OF P(1)]], where n = n])
  fix wt m assume m: "n \<le> m"
  let ?at = "\<lambda>s. P s \<and> map_of (ad_waiters s) rid = Some wt"
  let ?Q = "\<lambda>a s. P s \<and> about rid (\<lambda>r. authorized E n r a) s"
  have rest: "ahoare ?at (abind (current_route E wt) (\<lambda>current.
      abind (alift (RequestAuthorizationCeiling_intersection (wt_effective_ceiling wt) current)) (contract_waiter rid))) ?Q P"
    if wok: "waiter_ok rid wt" and view: "wd_auth_view (ev_world E m) = Inr v"
      "queued_identity_is_authorized (ar_client (wt_request wt)) v" for v
  proof -
    have rid: "ar_request_id (wt_request wt) = rid" and valid: "ceiling_valid (wt_effective_ceiling wt)"
      and within: "ceiling_within (wt_effective_ceiling wt) (ar_authorization_ceiling (wt_request wt))"
      using wok by (simp_all add: waiter_ok_def)
    show ?thesis
    proof (rule route_spec [OF P(1) _ rid, where n = n])
      fix now m'
      assume now: "n \<le> m'" "authorize (wd_engine (ev_world E m')) (ar_client (wt_request wt)) (ar_profile (wt_request wt)) = Inr now"
      show "ahoare ?at (abind (alift (RequestAuthorizationCeiling_intersection (wt_effective_ceiling wt) now)) (contract_waiter rid)) ?Q P"
      proof (rule bind_lift)
      fix c
      assume c: "RequestAuthorizationCeiling_intersection (wt_effective_ceiling wt) now = Inr c"
      have cs: "ceiling_valid c" "ceiling_within c (wt_effective_ceiling wt)" "ceiling_within c now"
        using ceiling_intersection_Inr [OF valid c] by auto
      have "authorized E n (wt_request wt) c"
        unfolding authorized_def using view m now cs within by (blast intro: ceil.within_trans)
      then show "ahoare ?at (contract_waiter rid c) ?Q P"
        by (rule ahoare_post [OF contract_waiter_spec [OF P(1) cs(1,2) request_fact_authorized]]) auto
      qed auto
    qed (rule P(2))
  qed
  show "ahoare ?at (case wd_auth_view (ev_world E m) of
      Inl _ \<Rightarrow> araise (AdmissionUnavailable ''queued authorization state unavailable'')
    | Inr view \<Rightarrow>
      if \<not> queued_identity_is_authorized (ar_client (wt_request wt)) view
      then araise (AdmissionUnavailable ''queued client authorization is no longer valid'')
      else abind (current_route E wt) (\<lambda>current.
        abind (alift (RequestAuthorizationCeiling_intersection (wt_effective_ceiling wt) current)) (contract_waiter rid))) ?Q P"
  proof (cases "waiter_ok rid wt")
    case False
    then show ?thesis using ok by (auto simp: ahoare_def)
  qed (auto split: sum.split intro!: ahoare_raise rest)
qed (use P(2) in auto)

section \<open>Previews keep the invariant\<close>

lemma fst_delete: "fst ` set (AList.delete k d) = fst ` set d - {k}"
  by (auto simp: AList.delete_eq image_iff)

lemma queued_cancel: "fst ` set (w_queued (snd (cancel q rid))) = fst ` set (w_queued q) - {rid}"
  by (cases "map_of (w_queued q) rid") (auto simp: cancel_def fst_delete map_of_eq_None_iff)

lemma length_delete_le: "length (AList.delete k d) \<le> length d"
  by (simp add: AList.delete_eq)

lemma inv_drop:
  assumes "adm_inv p {} s"
  shows "adm_inv p {} (s\<lparr>ad_waiters := AList.delete rid (ad_waiters s), ad_queue := snd (cancel (ad_queue s) rid), ad_answers := as\<rparr>)"
proof -
  have "wdrr_wf (snd (cancel (ad_queue s) rid))"
    using assms wdrr_wf_cancel [of "ad_queue s" rid] by (metis adm_inv_def prod.collapse)
  moreover have "int (length (AList.delete rid (ad_waiters s))) \<le> ad_max_waiters_global s"
    using assms length_delete_le [of rid "ad_waiters s"] by (simp add: adm_inv_def waiters_ok_def)
  moreover have "\<forall>(r, wt) \<in> set (AList.delete rid (ad_waiters s)). waiter_ok r wt"
    using assms by (auto simp: adm_inv_def waiters_ok_def AList.delete_eq)
  moreover have "dict_wf (AList.delete rid (ad_waiters s))"
    using assms by (simp add: adm_inv_def waiters_ok_def distinct_delete)
  ultimately show ?thesis using assms
    by (simp add: adm_inv_def waiters_ok_def permits_ok_def queue_agrees_def queued_cancel fst_delete)
qed

lemma derived_delete: "derived W s \<Longrightarrow> derived W (s\<lparr>ad_waiters := AList.delete rid (ad_waiters s), ad_queue := q, ad_answers := as\<rparr>)"
  by (auto simp: derived_def map_of_delete_upd split: if_splits)

lemma turn_drop:
  "turn p L W n s \<Longrightarrow>
     turn p L W n (s\<lparr>ad_waiters := AList.delete rid (ad_waiters s), ad_queue := snd (cancel (ad_queue s) rid), ad_answers := as\<rparr>)"
  by (simp add: turn_def inv_drop derived_delete)

lemma fail_spec: "ahoare (turn p L W n) (fail_waiter rid e) (\<lambda>_. turn p L W n) (turn p L W n)"
  unfolding fail_waiter_def by (rule bind_get, rule ahoare_mod) (erule conjE, erule turn_drop)

lemma contract_keys:
  assumes "contract q rid t w ls = Inr (e, q')"
  shows "fst ` set (w_queued q') = fst ` set (w_queued q)"
proof (rule contract_Inr [OF assms])
  fix queued tier weight
  assume k: "map_of (w_queued q) rid = Some queued"
    and q': "q' = q\<lparr>w_queued := AList.update rid \<lparr>q_entry = e, q_sequence = q_sequence queued\<rparr> (w_queued q),
            w_fairness := contract_fairness (w_fairness q) (q_entry queued) tier weight, w_version := w_version q + 1\<rparr>"
  then show ?thesis using arg_cong [OF keys_update_known [OF k], of set] by simp
qed

lemma inv_contract:
  "adm_inv p G s \<Longrightarrow> contract (ad_queue s) rid t w ls = Inr (e, q) \<Longrightarrow> adm_inv p G (s\<lparr>ad_queue := q\<rparr>)"
  using wdrr_wf_contract [of "ad_queue s" rid t w ls e q]
  by (simp add: adm_inv_def waiters_ok_def permits_ok_def queue_agrees_def contract_keys)

lemma contract_spec: "ahoare (turn p L W n) (contract_queued rid a) (\<lambda>_. turn p L W n) (turn p L W n)"
proof (rule ahoareI)
  fix s x s' assume t: "turn p L W n s" and run: "contract_queued rid a s = (Inr x, s')"
  show "turn p L W n s'"
  proof (cases "s' = s")
    case False
    then obtain e q t' w ls where q: "contract (ad_queue s) rid t' w ls = Inr (e, q)" "s' = s\<lparr>ad_queue := q\<rparr>"
      using run by (auto simp: contract_queued_def split: sum.splits if_splits prod.splits)
    then show ?thesis using t inv_contract by (fastforce simp: turn_def derived_def)
  qed (use t in simp)
next
  fix s e s' assume "turn p L W n s" "contract_queued rid a s = (Inl e, s')"
  then show "turn p L W n s'" by (auto simp: contract_queued_def split: sum.splits if_splits prod.splits)
qed

lemmas turn_calm = steady_calm [OF steady_turn]

lemma bind_keeps:
  "ahoare P m (\<lambda>_. P) R \<Longrightarrow> (\<And>x. ahoare P (f x) Q R) \<Longrightarrow> ahoare P (abind m f) Q R"
  by (rule ahoare_bind)

lemma sync_spec: "steady P \<Longrightarrow> ahoare P (sync_budget rid v) (\<lambda>_. P) P"
  unfolding sync_budget_def by (erule ahoare_refresh) (rule refreshes)

lemma preview_authorized_spec:
  "ahoare (turn None L W n) (preview_authorized E rid a) (\<lambda>_. turn None L W n) (turn None L W n)"
proof -
  let ?T = "turn None L W n"
  have rest: "ahoare ?T (abind (runtime_view E) (\<lambda>view. abind (sync_budget rid view) (\<lambda>_.
      abind (get_waiter rid) (\<lambda>wt. preview_candidates E wt a view)))) (\<lambda>_. ?T) ?T"
    by (rule bind_quiet [OF quiet_view turn_calm], rule bind_keeps [OF sync_spec [OF steady_turn]],
        rule bind_get [OF ahoare_pre [OF ahoare_quiet [OF quiet_candidates turn_calm]]]) auto
  show ?thesis
    unfolding preview_authorized_def
  proof (rule bind_keeps [OF contract_spec], rule bind_quiet [OF quiet_now turn_calm], rule bind_get)
    fix now wt
    show "ahoare (\<lambda>s. ?T s \<and> map_of (ad_waiters s) rid = Some wt)
      (if now \<ge> wt_effective_deadline_at_ms wt
       then abind (fail_waiter rid (AdmissionUnavailable ''queued request deadline elapsed'')) (\<lambda>_. apure [])
       else abind (active_count_of (cl_key_id (ar_client (wt_request wt)))) (\<lambda>active.
         if active \<ge> rc_max_concurrency a then apure []
         else abind (runtime_view E) (\<lambda>view. abind (sync_budget rid view) (\<lambda>_.
           abind (get_waiter rid) (\<lambda>wt. preview_candidates E wt a view))))) (\<lambda>_. ?T) ?T"
      by (rule ahoare_pre [where P' = ?T])
        (auto intro!: bind_keeps [OF fail_spec] bind_quiet [OF quiet_same turn_calm] ahoare_pure rest simp: active_count_of_def)
  qed auto
qed

lemma preview_spec: "ahoare (turn None L W n) (preview E rid) (\<lambda>_. turn None L W n) (turn None L W n)"
proof -
  have "ahoare (turn None L W n) (current_authorization E rid)
      (\<lambda>a s. turn None L W n s \<and> about rid (\<lambda>r. authorized E n r a) s) (turn None L W n)"
    by (rule authorization_spec) (auto intro: steady_turn turn_waiter simp: turn_def)
  then have "ahoare (turn None L W n) (current_authorization E rid) (\<lambda>_. turn None L W n) (turn None L W n)"
    by (rule ahoare_post) simp
  then show ?thesis unfolding preview_def
    by (rule ahoare_try) (auto intro!: bind_keeps [OF fail_spec] ahoare_pure ahoare_raise preview_authorized_spec)
qed

lemma preview_entries_spec:
  "ahoare (turn None L W n) (preview_entries E entries found) (\<lambda>_. turn None L W n) (turn None L W n)"
proof (induction entries arbitrary: found)
  case Nil
  then show ?case by (auto intro: ahoare_pure)
next
  case (Cons e es)
  have step: "ahoare (turn None L W n) (abind (preview E (qe_request_id e)) (\<lambda>cs.
      preview_entries E es (if cs = [] then found else AList.update (qe_request_id e) cs found)))
      (\<lambda>_. turn None L W n) (turn None L W n)"
    by (rule bind_keeps [OF preview_spec Cons.IH])
  show ?case using step Cons.IH [of found] unfolding ahoare_def preview_entries.simps by simp
qed

lemma previews_spec: "ahoare (turn None L W n) (previews_of E) (\<lambda>_. turn None L W n) (turn None L W n)"
  using preview_entries_spec unfolding ahoare_def previews_of_def by simp

end
