(* ===== verification/Admission_Pump.thy ===== *)
theory Admission_Pump
  imports Admission_Invariant
begin

text \<open>
  One turn of the pump: whatever it does, the invariant holds afterwards, and a lease it adds is \<open>sound\<close>.
\<close>

section \<open>What a granted lease has behind it\<close>

definition in_time :: "environment \<Rightarrow> nat \<Rightarrow> AdmissionRequest \<Rightarrow> bool" where
  "in_time E n r \<longleftrightarrow> (\<exists>m \<ge> n. wd_now_ms (ev_world E m) < ar_deadline_at_ms r)"

definition leg_ok :: "RequestAuthorizationCeiling \<Rightarrow> Candidate \<Rightarrow> AdmissionRequest \<Rightarrow> bool" where
  "leg_ok a c r \<longleftrightarrow> cd_authorized_leg c \<in> set (rc_authorized_legs a) \<and>
     CAUSE_TRIGGER (cd_cause c) \<in> set (al_allowed_triggers (cd_authorized_leg c)) \<and>
     capabilities_allow (cd_authorized_leg c) (ar_profile r) \<and> \<not> cap_shadow (al_capabilities (cd_authorized_leg c))"

definition dispatched :: "registry \<Rightarrow> account_id \<Rightarrow> attempt_id \<Rightarrow> bool" where
  "dispatched g acc aid \<longleftrightarrow> (\<exists>rt at. map_of (sy_runtimes g) acc = Some rt \<and> map_of (rt_attempts rt) aid = Some at \<and>
     at_dispatch_receipt at \<noteq> None)"

definition cleared :: "environment \<Rightarrow> nat \<Rightarrow> RequestAuthorizationCeiling \<Rightarrow> Candidate \<Rightarrow> AdmissionRequest \<Rightarrow> bool" where
  "cleared E n a c r \<longleftrightarrow> authorized E n r a \<and> in_time E n r \<and> leg_ok a c r"

definition sound :: "environment \<Rightarrow> (request_id, waiter) dict \<Rightarrow> nat \<Rightarrow> admission \<Rightarrow> DispatchLease \<Rightarrow> bool" where
  "sound E W n s l \<longleftrightarrow> (\<exists>wt a. map_of W (dl_request_id l) = Some wt \<and>
     dl_permit l = Some (cl_key_id (ar_client (wt_request wt))) \<and> \<not> dl_released l \<and>
     cleared E n a (dl_candidate l) (wt_request wt) \<and>
     live (ad_leases s) (cl_key_id (ar_client (wt_request wt))) \<le> rc_max_concurrency a \<and>
     length (bu_attempts (dl_attempt_budget l)) \<le> 3 \<and>
     dispatched (ad_registry s) (dl_account_id l) (dl_attempt_id l) \<and>
     dl_account_id l = cd_account_id (dl_candidate l))"

definition turn_done :: "environment \<Rightarrow> DispatchLease list \<Rightarrow> (request_id, waiter) dict \<Rightarrow> nat \<Rightarrow> admission \<Rightarrow> bool" where
  "turn_done E L W n s \<longleftrightarrow> adm_inv None {} s \<and> derived W s \<and> n \<le> ad_calls s \<and>
     (ad_leases s = L \<or> (\<exists>l. ad_leases s = L @ [l] \<and> sound E W n s l))"

lemma turn_turn_done: "turn None L W n s \<Longrightarrow> turn_done E L W n s"
  by (simp add: turn_def turn_done_def)

lemma request_fact_cleared: "request_fact (cleared E n a c)"
  by (simp add: request_fact_def cleared_def authorized_def in_time_def leg_ok_def same_requestD)

lemma live_snoc: "live (L @ [l]) k = live L k + (if held k l then 1 else 0)"
  by (simp add: live_def)

lemma permits_live: "permits_ok p s \<Longrightarrow> live (ad_leases s) k + (if p = Some k then 1 else 0) \<le> dict_get (ad_active_by_key s) k 0"
  by (simp only: permits_ok_def)

lemma permits_weaken:
  assumes "permits_ok p s"
  shows "permits_ok None s"
proof -
  have "live (ad_leases s) k \<le> dict_get (ad_active_by_key s) k 0" for k
    using permits_live [OF assms, of k] by (simp split: if_split_asm)
  then show ?thesis by (simp add: permits_ok_def)
qed

lemma turn_weaken: "turn (Some k) L W n s \<Longrightarrow> turn None L W n s"
  unfolding turn_def adm_inv_def using permits_weaken by blast

section \<open>Permits\<close>

lemma dict_get_delete: "dict_get (AList.delete k d) k' v = (if k' = k then v else dict_get d k' v)"
  by (simp add: dict_get_def map_of_delete_upd)

lemma permits_acquire:
  "permits_ok None s \<Longrightarrow>
     permits_ok (Some k) (s\<lparr>ad_active_by_key := AList.update k (dict_get (ad_active_by_key s) k 0 + 1) (ad_active_by_key s)\<rparr>)"
  by (simp add: permits_ok_def dict_get_update)

lemma permits_release:
  assumes "permits_ok (Some k) s" and c: "c = dict_get (ad_active_by_key s) k 0"
  shows "permits_ok None (s\<lparr>ad_active_by_key :=
     (if c \<le> 1 then AList.delete k (ad_active_by_key s) else AList.update k (c - 1) (ad_active_by_key s))\<rparr>)"
proof -
  have le: "live (ad_leases s) k + 1 \<le> c" using permits_live [OF assms(1), of k] c by simp
  have others: "live (ad_leases s) k' \<le> dict_get (ad_active_by_key s) k' 0" for k'
    using permits_live [OF permits_weaken [OF assms(1)], of k'] by simp
  show ?thesis using le others by (auto simp: permits_ok_def dict_get_delete dict_get_update)
qed

text \<open>A predicate that says nothing about the active permits.\<close>

lemma turn_active:
  "turn p L W n (s\<lparr>ad_active_by_key := d\<rparr>) \<longleftrightarrow>
     wdrr_wf (ad_queue s) \<and> waiters_ok {} s \<and> permits_ok p (s\<lparr>ad_active_by_key := d\<rparr>) \<and> ad_leases s = L \<and> derived W s \<and> n \<le> ad_calls s"
  by (simp add: turn_def adm_inv_def waiters_ok_def queue_agrees_def derived_def)

lemma turn_acquire:
  "turn None L W n s \<Longrightarrow>
     turn (Some k) L W n (s\<lparr>ad_active_by_key := AList.update k (dict_get (ad_active_by_key s) k 0 + 1) (ad_active_by_key s)\<rparr>)"
  by (simp only: turn_active permits_acquire simp_thms) (simp add: turn_def adm_inv_def permits_acquire)

lemma release_spec: "ahoare (turn (Some k) L W n) (release_active k) (\<lambda>_. turn None L W n) R"
  unfolding release_active_def Let_def
  by (rule ahoare_mod, simp only: turn_active) (simp add: turn_def adm_inv_def permits_release)

section \<open>Reserving, marking, granting\<close>

definition working :: "key_id option \<Rightarrow> DispatchLease list \<Rightarrow> (request_id, waiter) dict \<Rightarrow> nat \<Rightarrow> wdrr \<Rightarrow> int
    \<Rightarrow> request_id \<Rightarrow> (AdmissionRequest \<Rightarrow> bool) \<Rightarrow> admission \<Rightarrow> bool" where
  "working p L W n Q most rid F s \<longleftrightarrow> turn p L W n s \<and> ad_queue s = Q \<and>
     (case p of None \<Rightarrow> True | Some k \<Rightarrow> dict_get (ad_active_by_key s) k 0 \<le> most) \<and> about rid F s"

lemma steady_working: "request_fact F \<Longrightarrow> steady (working p L W n Q most rid F)"
  unfolding working_def
  by (intro steady_conj steady_turn steady_queue steady_about) (cases p; simp add: steady_def calm_def)

lemma working_turn: "working (Some k) L W n Q most rid F s \<Longrightarrow> turn None L W n s"
  unfolding working_def using turn_weaken by blast

lemma mark_dispatched_receipt:
  assumes "mark_dispatched je clk aid rt = (Inr r, rt')"
  shows "\<exists>at. map_of (rt_attempts rt') aid = Some at \<and> at_dispatch_receipt at \<noteq> None"
  using assms
  by (auto simp: mark_dispatched_def Let_def map_of_update split: option.splits if_splits sum.splits)

lemma mark_spec:
  assumes "calm P"
  shows "ahoare P (on_account E acc (\<lambda>w rt. case mark_dispatched (wd_journal w) (wd_runtime_clock w) aid rt of
        (x, rt') \<Rightarrow> (if wd_cancelled w then Inl CancelledError else x, rt')))
     (\<lambda>_ s. P s \<and> dispatched (ad_registry s) acc aid) P"
proof (rule ahoareI)
  let ?op = "on_account E acc (\<lambda>w rt. case mark_dispatched (wd_journal w) (wd_runtime_clock w) aid rt of
        (x, rt') \<Rightarrow> (if wd_cancelled w then Inl CancelledError else x, rt'))"
  note quiet = ahoare_quiet [OF quiet_on_account assms]
  fix s x s' assume P: "P s" and run: "?op s = (Inr x, s')"
  have "dispatched (ad_registry s') acc aid"
    using run mark_dispatched_receipt
    by (fastforce simp: on_account_def abind_def ask_def account_runtime_def dispatched_def map_of_update
        split: option.splits prod.splits if_splits)
  then show "P s' \<and> dispatched (ad_registry s') acc aid" using ahoare_okD [OF quiet P run] by simp
next
  fix s e s'
  assume P: "P s" and run: "on_account E acc (\<lambda>w rt. case mark_dispatched (wd_journal w) (wd_runtime_clock w) aid rt of
        (x, rt') \<Rightarrow> (if wd_cancelled w then Inl CancelledError else x, rt')) s = (Inl e, s')"
  show "P s'" by (rule ahoare_errD [OF ahoare_quiet [OF quiet_on_account assms] P run])
qed

lemma record_send_budget:
  "record_send c aid b = (Inr x, b') \<Longrightarrow> length (bu_attempts b') \<le> 3"
  by (auto simp: record_send_def can_send_def send_closed_def Let_def split: if_splits)

definition committed_turn :: "key_id \<Rightarrow> DispatchLease list \<Rightarrow> (request_id, waiter) dict \<Rightarrow> nat \<Rightarrow> int \<Rightarrow> request_id
    \<Rightarrow> (AdmissionRequest \<Rightarrow> bool) \<Rightarrow> account_id \<Rightarrow> attempt_id \<Rightarrow> admission \<Rightarrow> bool" where
  "committed_turn k L W n most rid F acc aid s \<longleftrightarrow> adm_inv (Some k) {rid} s \<and> ad_leases s = L \<and> derived W s \<and>
     n \<le> ad_calls s \<and> dict_get (ad_active_by_key s) k 0 \<le> most \<and> dispatched (ad_registry s) acc aid \<and>
     (\<exists>wt. map_of (ad_waiters s) rid = Some wt \<and> F (wt_request wt) \<and>
        length (bu_attempts (ar_attempt_budget (wt_request wt))) \<le> 3)"

lemma commit_keys:
  assumes "commit q sel = Inr q'"
  shows "fst ` set (w_queued q') = fst ` set (w_queued q) - {qe_request_id (sel_entry sel)}"
  by (rule commit_Inr [OF assms]) (simp add: fst_delete)

lemma send_mark_spec:
  assumes F: "request_fact F" and proposed: "propose Q el ex = Inr (Some sel)" and rid: "rid = qe_request_id (sel_entry sel)"
  shows "ahoare (working (Some k) L W n Q most rid F) (send_mark E rid sel c aid)
    (\<lambda>_. committed_turn k L W n most rid F (cd_account_id c) aid) (working (Some k) L W n Q most rid F)"
  unfolding send_mark_def
proof (rule ahoare_bind [OF mark_spec], rule steady_calm, rule steady_working [OF F], rule ahoare_bind)
  let ?W = "working (Some k) L W n Q most rid F" and ?D = "\<lambda>s. dispatched (ad_registry s) (cd_account_id c) aid"
  let ?small = "\<lambda>s. \<exists>wt. map_of (ad_waiters s) rid = Some wt \<and> length (bu_attempts (ar_attempt_budget (wt_request wt))) \<le> 3"
  have step: "?W (s\<lparr>ad_waiters := AList.update rid (wt\<lparr>wt_request := (wt_request wt)\<lparr>ar_attempt_budget := b\<rparr>\<rparr>) (ad_waiters s)\<rparr>)"
    if "?W s" "map_of (ad_waiters s) rid = Some wt" for s wt b
    using steady_refresh [OF steady_working [OF F] that refresh_budget] .
  show "ahoare (\<lambda>s. ?W s \<and> ?D s) (\<lambda>s. case map_of (ad_waiters s) rid of
        None \<Rightarrow> (Inl KeyError, s)
      | Some wt \<Rightarrow> (case record_send c aid (ar_attempt_budget (wt_request wt)) of (x, b) \<Rightarrow>
          (x, s\<lparr>ad_waiters := AList.update rid
             (wt\<lparr>wt_request := (wt_request wt)\<lparr>ar_attempt_budget := b\<rparr>\<rparr>) (ad_waiters s)\<rparr>)))
      (\<lambda>_ s. ?W s \<and> ?D s \<and> ?small s) ?W"
  proof (rule ahoareI)
    fix s x s' assume w: "?W s \<and> ?D s" and run: "(case map_of (ad_waiters s) rid of
        None \<Rightarrow> (Inl KeyError, s)
      | Some wt \<Rightarrow> (case record_send c aid (ar_attempt_budget (wt_request wt)) of (x, b) \<Rightarrow>
          (x, s\<lparr>ad_waiters := AList.update rid
             (wt\<lparr>wt_request := (wt_request wt)\<lparr>ar_attempt_budget := b\<rparr>\<rparr>) (ad_waiters s)\<rparr>))) = (Inr x, s')"
    then obtain wt b where "map_of (ad_waiters s) rid = Some wt" "length (bu_attempts b) \<le> 3"
      "s' = s\<lparr>ad_waiters := AList.update rid (wt\<lparr>wt_request := (wt_request wt)\<lparr>ar_attempt_budget := b\<rparr>\<rparr>) (ad_waiters s)\<rparr>"
      by (auto split: option.splits prod.splits dest!: record_send_budget)
    then show "?W s' \<and> ?D s' \<and> ?small s'" using w step by (simp add: map_of_update)
  next
    fix s e s' assume w: "?W s \<and> ?D s" and run: "(case map_of (ad_waiters s) rid of
        None \<Rightarrow> (Inl KeyError, s)
      | Some wt \<Rightarrow> (case record_send c aid (ar_attempt_budget (wt_request wt)) of (x, b) \<Rightarrow>
          (x, s\<lparr>ad_waiters := AList.update rid
             (wt\<lparr>wt_request := (wt_request wt)\<lparr>ar_attempt_budget := b\<rparr>\<rparr>) (ad_waiters s)\<rparr>))) = (Inl e, s')"
    then show "?W s'" using step by (auto split: option.splits prod.splits)
  qed
  show "ahoare (\<lambda>s. ?W s \<and> ?D s \<and> ?small s)
      (\<lambda>s. case commit (ad_queue s) sel of Inl e \<Rightarrow> (Inl e, s) | Inr q \<Rightarrow> (Inr (), s\<lparr>ad_queue := q\<rparr>))
      (\<lambda>_. committed_turn k L W n most rid F (cd_account_id c) aid) ?W"
  proof (rule ahoareI)
    fix s x s' assume w: "?W s \<and> ?D s \<and> ?small s"
      and run: "(case commit (ad_queue s) sel of Inl e \<Rightarrow> (Inl e, s) | Inr q \<Rightarrow> (Inr (), s\<lparr>ad_queue := q\<rparr>)) = (Inr x, s')"
    then obtain q where q: "commit Q sel = Inr q" "s' = s\<lparr>ad_queue := q\<rparr>" and Q: "ad_queue s = Q"
      by (auto simp: working_def split: sum.splits)
    have "wdrr_wf q" using w by (intro wdrr_wf_grant [OF _ proposed q(1)]) (auto simp: working_def turn_def adm_inv_def)
    moreover have "fst ` set (w_queued q) = fst ` set (w_queued (ad_queue s)) - {rid}" using commit_keys [OF q(1)] rid Q by simp
    moreover have "adm_inv (Some k) {} s" using w by (auto simp: working_def turn_def)
    ultimately have "adm_inv (Some k) {rid} s'"
      unfolding q(2) by (simp add: adm_inv_def waiters_ok_def queue_agrees_def permits_ok_def)
    then show "committed_turn k L W n most rid F (cd_account_id c) aid s'"
      using w unfolding committed_turn_def q(2)
      by (auto simp: working_def turn_def derived_def about_def)
  qed (auto split: sum.splits)
qed

lemma grant_spec:
  assumes F: "request_fact (cleared E n a c)" and k: "\<And>r. F r \<Longrightarrow> cl_key_id (ar_client r) = k \<and> cleared E n a c r"
  shows "ahoare (committed_turn k L W n (rc_max_concurrency a) rid F (cd_account_id c) aid) (grant E rid k c aid)
    (\<lambda>_. turn_done E L W n) R"
proof (rule ahoareI)
  fix s x s' assume c: "committed_turn k L W n (rc_max_concurrency a) rid F (cd_account_id c) aid s"
    and run: "grant E rid k c aid s = (Inr x, s')"
  then obtain wt where wt: "map_of (ad_waiters s) rid = Some wt" "F (wt_request wt)"
      "length (bu_attempts (ar_attempt_budget (wt_request wt))) \<le> 3"
    and inv: "adm_inv (Some k) {rid} s" and L: "ad_leases s = L" and W: "derived W s"
    by (auto simp: committed_turn_def)
  have ok: "waiter_ok rid wt" using inv wt(1) unfolding adm_inv_def waiters_ok_def by (blast dest: map_of_SomeD)
  obtain wt0 where wt0: "map_of W rid = Some wt0" "refresh wt0 wt" using W wt(1) unfolding derived_def by blast
  let ?l = "\<lparr>dl_request_id = rid, dl_account_id = cd_account_id c, dl_attempt_id = aid, dl_candidate = c,
     dl_attempt_budget = ar_attempt_budget (wt_request wt), dl_permit = Some k, dl_released = False\<rparr>"
  have s': "s' = s\<lparr>ad_waiters := AList.delete rid (ad_waiters s), ad_leases := L @ [?l],
      ad_answers := ad_answers s @ [(rid, LeaseAnswer (length L))]\<rparr>"
    using run wt(1) ok L by (simp add: grant_def abind_def get_waiter_def Let_def waiter_ok_def)
  have perm: "live (L @ [?l]) k' \<le> dict_get (ad_active_by_key s) k' 0" for k'
    using permits_live [of "Some k" s k'] inv L by (simp add: adm_inv_def live_snoc held_def)
  have "int (length (AList.delete rid (ad_waiters s))) \<le> ad_max_waiters_global s"
    using inv length_delete_le [of rid "ad_waiters s"] by (simp add: adm_inv_def waiters_ok_def)
  moreover have "dict_wf (AList.delete rid (ad_waiters s))" using inv by (simp add: adm_inv_def waiters_ok_def distinct_delete)
  moreover have "\<forall>(r, wt) \<in> set (AList.delete rid (ad_waiters s)). waiter_ok r wt"
    using inv by (auto simp: adm_inv_def waiters_ok_def AList.delete_eq)
  ultimately have "adm_inv None {} s'"
    using inv perm unfolding s' by (simp add: adm_inv_def waiters_ok_def queue_agrees_def fst_delete permits_ok_def)
  moreover have "sound E W n s' ?l"
  proof -
    have same: "same_request (wt_request wt0) (wt_request wt)" using wt0(2) by (simp add: refresh_def)
    have "cleared E n a c (wt_request wt0)" using same F k [OF wt(2)] by (simp add: request_fact_def)
    moreover have "cl_key_id (ar_client (wt_request wt0)) = k" using same k [OF wt(2)] by (simp add: same_requestD)
    moreover have "live (L @ [?l]) k \<le> rc_max_concurrency a" using perm [of k] c by (simp add: committed_turn_def)
    ultimately show ?thesis using c wt(3) wt0(1) unfolding sound_def s' by (auto simp: committed_turn_def intro!: exI [of _ wt0] exI [of _ a])
  qed
  moreover have "derived W s'" using W unfolding s' by (auto simp: derived_def map_of_delete_upd split: if_splits)
  ultimately show "turn_done E L W n s'" using c unfolding turn_done_def s' by (auto simp: committed_turn_def)
next
  fix s e s' assume c: "committed_turn k L W n (rc_max_concurrency a) rid F (cd_account_id c) aid s"
    and run: "grant E rid k c aid s = (Inl e, s')"
  then obtain wt where wt: "map_of (ad_waiters s) rid = Some wt" and inv: "adm_inv (Some k) {rid} s"
    by (auto simp: committed_turn_def)
  have "waiter_ok rid wt" using inv wt unfolding adm_inv_def waiters_ok_def by (blast dest: map_of_SomeD)
  then show "R s'" using run wt by (simp add: grant_def abind_def get_waiter_def Let_def waiter_ok_def)
qed

section \<open>The turn\<close>

lemma ahoare_weaken_err: "ahoare P m Q R' \<Longrightarrow> (\<And>s. R' s \<Longrightarrow> R s) \<Longrightarrow> ahoare P m Q R"
  by (erule ahoare_conseq)

lemma acquire_spec:
  assumes "\<And>s. P s \<Longrightarrow> working None L W n Q m rid F s"
  shows "ahoare P (acquire_active k most)
    (\<lambda>ok s. if ok then working (Some k) L W n Q most rid F s else turn None L W n s) R"
proof (rule ahoareI)
  fix s x s' assume P: "P s" and run: "acquire_active k most s = (Inr x, s')"
  note w = assms [OF P]
  show "if x then working (Some k) L W n Q most rid F s' else turn None L W n s'"
  proof (cases x)
    case True
    then have s': "s' = s\<lparr>ad_active_by_key := AList.update k (dict_get (ad_active_by_key s) k 0 + 1) (ad_active_by_key s)\<rparr>"
      and le: "dict_get (ad_active_by_key s) k 0 + 1 \<le> most"
      using run by (auto simp: acquire_active_def Let_def split: if_splits)
    have "turn (Some k) L W n s'" unfolding s' by (rule turn_acquire) (use w in \<open>simp add: working_def\<close>)
    then show ?thesis using w le True unfolding s' by (simp add: working_def dict_get_update about_def)
  qed (use run w in \<open>auto simp: acquire_active_def Let_def working_def split: if_splits\<close>)
qed (auto simp: acquire_active_def Let_def split: if_splits)

lemma roll_back_spec:
  assumes "calm (turn (Some k) L W n)"
  shows "ahoare (turn (Some k) L W n) (roll_back E k c aid e) Q (turn None L W n)"
  unfolding roll_back_def
  by (rule bind_quiet [OF quiet_finish turn_calm], rule bind_quiet [OF quiet_abandon turn_calm],
      rule ahoare_bind [OF release_spec]) (auto intro: ahoare_raise turn_weaken)

lemma give_up_spec:
  "ahoare (turn (Some k) L W n) (abind (abandon E c) (\<lambda>_. abind (release_active k) (\<lambda>_. araise e))) Q (turn None L W n)"
  by (rule bind_quiet [OF quiet_abandon turn_calm], rule ahoare_bind [OF release_spec])
    (auto intro: ahoare_raise turn_weaken)

lemma denied_spec:
  "ahoare (turn (Some k) L W n) (after_denial excluded rid k d) (\<lambda>_. turn_done E L W n) (turn None L W n)"
  unfolding after_denial_def
proof (rule ahoare_bind [OF release_spec])
  have "ahoare (turn None L W n) (abind (set_waiter rid (\<lambda>wt. wt\<lparr>wt_fallback_once := Some c\<rparr>)) (\<lambda>_. apure x))
      (\<lambda>_. turn_done E L W n) (turn None L W n)" for c and x :: pump_turn
    by (rule bind_refresh [OF steady_turn]) (auto intro: refreshes ahoare_pure turn_turn_done)
  then show "ahoare (turn None L W n) (case denial_cause d of
       Some c \<Rightarrow> abind (set_waiter rid (\<lambda>wt. wt\<lparr>wt_fallback_once := Some c\<rparr>)) (\<lambda>_. apure (PumpRetry excluded))
     | None \<Rightarrow> apure (PumpAgain (rid # excluded))) (\<lambda>_. turn_done E L W n) (turn None L W n)" for u :: unit
    by (auto split: option.split intro: ahoare_pure turn_turn_done)
qed

lemma granted_spec:
  assumes "propose Q el ex = Inr (Some sel)" "rid = qe_request_id (sel_entry sel)" "request_fact F"
    and F: "\<And>r. F r \<Longrightarrow> cl_key_id (ar_client r) = k \<and> cleared E n a c r"
  shows "ahoare (working (Some k) L W n Q (rc_max_concurrency a) rid F) (after_grant E sel k c aid)
    (\<lambda>_. turn_done E L W n) (turn None L W n)"
  unfolding after_grant_def Let_def assms(2) [symmetric]
proof (rule ahoare_try [OF send_mark_spec [OF assms(3,1,2)]])
  show "ahoare (working (Some k) L W n Q (rc_max_concurrency a) rid F) (roll_back E k c aid e)
      (\<lambda>_. turn_done E L W n) (turn None L W n)" for e
    by (rule ahoare_pre [OF roll_back_spec [OF turn_calm]]) (simp add: working_def)
  show "ahoare (committed_turn k L W n (rc_max_concurrency a) rid F (cd_account_id c) aid) (grant E rid k c aid)
      (\<lambda>_. turn_done E L W n) (turn None L W n)" for u :: unit
    by (rule grant_spec [OF request_fact_cleared F])
qed

lemma attempt_spec:
  assumes "propose Q el ex = Inr (Some sel)" "rid = qe_request_id (sel_entry sel)" "request_fact F"
    and F: "\<And>r. F r \<Longrightarrow> cl_key_id (ar_client r) = k \<and> cleared E n a c r"
  shows "ahoare (working (Some k) L W n Q (rc_max_concurrency a) rid F) (pump_attempt E excluded sel k c r)
    (\<lambda>_. turn_done E L W n) (turn None L W n)"
proof -
  have held: "\<And>s. working (Some k) L W n Q (rc_max_concurrency a) rid F s \<Longrightarrow> turn (Some k) L W n s" by (simp add: working_def)
  show ?thesis unfolding pump_attempt_def
    by (rule ahoare_try [OF ahoare_quiet [OF quiet_reserve steady_calm [OF steady_working [OF assms(3)]]]])
      (auto split: reservation.split intro: granted_spec [OF assms] ahoare_pre [OF give_up_spec held] ahoare_pre [OF denied_spec held])
qed

lemma reserve_spec:
  assumes proposed: "propose Q el ex = Inr (Some sel)" "rid = qe_request_id (sel_entry sel)"
  shows "ahoare (working None L W n Q m rid (cleared E n a c)) (pump_reserve E excluded sel a c)
    (\<lambda>_. turn_done E L W n) (turn None L W n)"
  unfolding pump_reserve_def Let_def proposed(2) [symmetric]
proof (rule bind_get, rule ahoare_bind)
  fix wt :: waiter
  let ?k = "cl_key_id (ar_client (wt_request wt))"
  let ?F = "\<lambda>r. cl_key_id (ar_client r) = ?k \<and> cleared E n a c r"
  let ?P = "working (Some ?k) L W n Q (rc_max_concurrency a) rid ?F"
  show "ahoare (\<lambda>s. working None L W n Q m rid (cleared E n a c) s \<and> map_of (ad_waiters s) rid = Some wt)
      (acquire_active ?k (rc_max_concurrency a)) (\<lambda>ok s. if ok then ?P s else turn None L W n s) (turn None L W n)"
    by (rule acquire_spec [where m = m]) (auto simp: working_def about_def)
  have F: "request_fact ?F" using request_fact_cleared by (simp add: request_fact_def same_requestD)
  have attempt: "ahoare ?P (pump_attempt E excluded sel ?k c r) (\<lambda>_. turn_done E L W n) (turn None L W n)" for r
    by (rule attempt_spec [OF proposed F]) simp
  fix ok
  show "ahoare (\<lambda>s. if ok then ?P s else turn None L W n s) (if \<not> ok then apure (PumpAgain (rid # excluded))
     else abind (ask E) (\<lambda>w.
       abind (alift (quota_units (wd_engine w) (cd_account_id c))) (\<lambda>quota.
       abind (alift (reservation_request (wt_request wt) c rid (wd_attempt_id w)
         (wt_effective_deadline_at_ms wt) quota)) (pump_attempt E excluded sel ?k c)))) (\<lambda>_. turn_done E L W n) (turn None L W n)"
    by (cases ok) (auto intro!: bind_quiet [OF quiet_ask steady_calm [OF steady_working [OF F]]] bind_lift attempt
        ahoare_pure turn_turn_done intro: working_turn)
qed (auto simp: working_def)

section \<open>Selection, gate and round\<close>

lemma select_spec:
  assumes proposed: "propose Q el ex = Inr (Some sel)" "rid = qe_request_id (sel_entry sel)"
  shows "ahoare (working None L W n Q m rid (\<lambda>r. authorized E n r a \<and> in_time E n r)) (pump_select E excluded previewed denied sel a)
    (\<lambda>_. turn_done E L W n) (turn None L W n)"
proof -
  let ?F = "\<lambda>r. authorized E n r a \<and> in_time E n r"
  let ?P = "working None L W n Q m rid ?F"
  have F: "request_fact ?F" by (simp add: request_fact_def authorized_def in_time_def same_requestD)
  note steady = steady_working [OF F]
  have err: "\<And>s. ?P s \<Longrightarrow> turn None L W n s" by (simp add: working_def)
  have chosen: "ahoare (\<lambda>s. ?P s \<and> map_of (ad_waiters s) rid = Some wt)
      (case select_candidate (wd_gate w) (wd_engine w) a (ar_profile (wt_request wt)) cause view cx denied of
         None \<Rightarrow> apure (PumpAgain (rid # excluded))
       | Some c \<Rightarrow>
         if list_all (\<lambda>p. cd_authorized_leg c \<noteq> cd_authorized_leg p) previewed
            \<or> \<not> can_send c (ar_attempt_budget (wt_request wt))
         then apure (PumpAgain (rid # excluded))
         else pump_reserve E excluded sel a c) (\<lambda>_. turn_done E L W n) (turn None L W n)" for wt w cause view cx
  proof (cases "select_candidate (wd_gate w) (wd_engine w) a (ar_profile (wt_request wt)) cause view cx denied")
    case (Some c)
    note sel = select_candidateD [OF Some] eligibleD [OF select_candidateD(3) [OF Some]]
    have "cd_cause c = cause" using sel(4) by (metis (no_types, lifting) Candidate.select_convs(2) candidate_def case_prod_unfold)
    then have leg: "leg_ok a c r" if "ar_profile r = ar_profile (wt_request wt)" for r
      using sel that by (auto simp: leg_ok_def)
    have "ahoare (\<lambda>s. ?P s \<and> map_of (ad_waiters s) rid = Some wt) (pump_reserve E excluded sel a c)
        (\<lambda>_. turn_done E L W n) (turn None L W n)"
      by (rule ahoare_pre [OF reserve_spec [OF proposed, where m = m]]) (use leg in \<open>auto simp: working_def about_def cleared_def\<close>)
    then show ?thesis using Some err by (auto intro!: ahoare_pure turn_turn_done)
  qed (use err in \<open>auto intro!: ahoare_pure turn_turn_done\<close>)
  show ?thesis
    unfolding pump_select_def Let_def proposed(2) [symmetric]
    apply (rule bind_refresh [OF steady])
      apply (simp add: refreshes)
     apply (rule bind_quiet [OF quiet_view steady_calm [OF steady]])
      apply (rule ahoare_bind [OF ahoare_weaken_err [OF sync_spec [OF steady] err]], assumption)
       apply (rule bind_get)
        apply (rule bind_quiet [OF quiet_context calm_waiter [OF steady_calm [OF steady]]])
         apply (rule bind_quiet [OF quiet_ask calm_waiter [OF steady_calm [OF steady]]])
          apply (rule chosen)
         apply (auto dest: err)
    done
qed

lemma gated_spec:
  assumes proposed: "propose Q el ex = Inr (Some sel)"
  shows "ahoare (\<lambda>s. turn None L W n s \<and> ad_queue s = Q) (pump_gated E excluded previewed denied sel)
    (\<lambda>_. turn_done E L W n) (turn None L W n)"
proof -
  let ?P = "\<lambda>s. turn None L W n s \<and> ad_queue s = Q" and ?rid = "qe_request_id (sel_entry sel)"
  let ?D = "\<lambda>_. turn_done E L W n" and ?R = "turn None L W n"
  have steady: "steady ?P" by (intro steady_conj steady_turn steady_queue)
  have auth: "ahoare ?P (current_authorization E ?rid) (\<lambda>a s. ?P s \<and> about ?rid (\<lambda>r. authorized E n r a) s) ?P"
    by (rule authorization_spec [OF steady]) (auto simp: turn_def intro: turn_waiter [unfolded turn_def])
  have failed: "ahoare ?R (abind (fail_waiter ?rid e) (\<lambda>_. apure x)) ?D ?R" for e x
    by (rule bind_keeps [OF fail_spec]) (auto intro: ahoare_pure turn_turn_done)
  have rest: "ahoare (\<lambda>s. ?P s \<and> about ?rid (\<lambda>r. authorized E n r a) s)
      (abind (clock_now_ms E) (\<lambda>now. abind (get_waiter ?rid) (\<lambda>wt.
        if now \<ge> wt_effective_deadline_at_ms wt
        then abind (fail_waiter ?rid (AdmissionUnavailable ''queued request deadline elapsed''))
          (\<lambda>_. apure (PumpAgain excluded))
        else pump_select E excluded previewed denied sel a))) ?D ?R" for a
  proof -
    let ?A = "\<lambda>s. ?P s \<and> about ?rid (\<lambda>r. authorized E n r a) s"
    have calm: "calm ?A" by (intro steady_calm steady_conj steady steady_about request_fact_authorized)
    have "ahoare ?A (clock_now_ms E) (\<lambda>now s. ?A s \<and> (\<exists>m \<ge> n. now = wd_now_ms (ev_world E m))) ?R"
      unfolding clock_now_ms_def by (rule bind_ask [OF calm, where n = n]) (auto simp: turn_def intro!: ahoare_pure)
    then show ?thesis
    proof (rule ahoare_bind)
      fix now
      have go: "ahoare (\<lambda>s. ?A s \<and> map_of (ad_waiters s) ?rid = Some wt) (pump_select E excluded previewed denied sel a) ?D ?R"
        if m: "n \<le> m" "wd_now_ms (ev_world E m) < wt_effective_deadline_at_ms wt" for wt m
      proof (rule ahoare_pre [OF select_spec [OF proposed refl, where m = 0]])
        fix s assume s: "?A s \<and> map_of (ad_waiters s) ?rid = Some wt"
        then have "waiter_ok ?rid wt" using turn_waiter by blast
        then have "in_time E n (wt_request wt)" using m by (auto simp: waiter_ok_def in_time_def intro!: exI [of _ m])
        then show "working None L W n Q 0 ?rid (\<lambda>r. authorized E n r a \<and> in_time E n r) s"
          using s by (auto simp: working_def about_def)
      qed
      show "ahoare (\<lambda>s. ?A s \<and> (\<exists>m \<ge> n. now = wd_now_ms (ev_world E m))) (abind (get_waiter ?rid) (\<lambda>wt.
        if now \<ge> wt_effective_deadline_at_ms wt
        then abind (fail_waiter ?rid (AdmissionUnavailable ''queued request deadline elapsed'')) (\<lambda>_. apure (PumpAgain excluded))
        else pump_select E excluded previewed denied sel a)) ?D ?R"
        by (rule ahoare_fact, rule bind_get) (auto intro!: ahoare_pre [OF failed] go [simplified])
    qed
  qed
  show ?thesis
    unfolding pump_gated_def Let_def
  proof (rule bind_quiet [OF quiet_ask steady_calm [OF steady]])
    fix w
    have "ahoare ?P (atry (current_authorization E ?rid)
        (\<lambda>e. if is_unavailable e then abind (fail_waiter ?rid e) (\<lambda>_. apure (PumpAgain excluded)) else araise e)
        (\<lambda>a. abind (clock_now_ms E) (\<lambda>now. abind (get_waiter ?rid) (\<lambda>wt.
          if now \<ge> wt_effective_deadline_at_ms wt
          then abind (fail_waiter ?rid (AdmissionUnavailable ''queued request deadline elapsed''))
            (\<lambda>_. apure (PumpAgain excluded))
          else pump_select E excluded previewed denied sel a)))) ?D ?R"
      by (rule ahoare_try [OF auth _ rest]) (auto intro!: ahoare_pre [OF failed] ahoare_raise)
    then show "ahoare ?P (if wd_cancelled w then araise CancelledError else atry (current_authorization E ?rid)
        (\<lambda>e. if is_unavailable e then abind (fail_waiter ?rid e) (\<lambda>_. apure (PumpAgain excluded)) else araise e)
        (\<lambda>a. abind (clock_now_ms E) (\<lambda>now. abind (get_waiter ?rid) (\<lambda>wt.
          if now \<ge> wt_effective_deadline_at_ms wt
          then abind (fail_waiter ?rid (AdmissionUnavailable ''queued request deadline elapsed''))
            (\<lambda>_. apure (PumpAgain excluded))
          else pump_select E excluded previewed denied sel a)))) ?D ?R"
      by (auto intro: ahoare_raise)
  qed simp
qed

lemma selected_spec:
  assumes proposed: "propose Q el ex = Inr (Some sel)"
  shows "ahoare (\<lambda>s. turn None L W n s \<and> ad_queue s = Q) (pump_selected E excluded ps sel)
    (\<lambda>_. turn_done E L W n) (turn None L W n)"
  using gated_spec [OF proposed, of L W n E excluded] unfolding ahoare_def pump_selected_def Let_def
  by (auto split: option.split intro: turn_turn_done)

lemma round_spec:
  "ahoare (turn None L W n) (pump_round E excluded) (\<lambda>_. turn_done E L W n) (turn None L W n)"
  unfolding pump_round_def
proof (rule bind_keeps [OF previews_spec], rule bind_read)
  fix ps x
  show "ahoare (\<lambda>s. turn None L W n s \<and> propose (ad_queue s) (\<lambda>e. dict_has ps (qe_request_id e)) excluded = Inr x)
      (case x of None \<Rightarrow> apure PumpReturn | Some sel \<Rightarrow> pump_selected E excluded ps sel) (\<lambda>_. turn_done E L W n) (turn None L W n)"
  proof (cases x)
    case (Some sel)
    show ?thesis
    proof (rule ahoareI)
      fix s y s'
      assume s: "turn None L W n s \<and> propose (ad_queue s) (\<lambda>e. dict_has ps (qe_request_id e)) excluded = Inr x"
        and run: "(case x of None \<Rightarrow> apure PumpReturn | Some sel \<Rightarrow> pump_selected E excluded ps sel) s = (Inr y, s')"
      have "propose (ad_queue s) (\<lambda>e. dict_has ps (qe_request_id e)) excluded = Inr (Some sel)" using s Some by simp
      from ahoare_okD [OF selected_spec [OF this]] show "turn_done E L W n s'" using s run Some by auto
    next
      fix s e s'
      assume s: "turn None L W n s \<and> propose (ad_queue s) (\<lambda>e. dict_has ps (qe_request_id e)) excluded = Inr x"
        and run: "(case x of None \<Rightarrow> apure PumpReturn | Some sel \<Rightarrow> pump_selected E excluded ps sel) s = (Inl e, s')"
      have "propose (ad_queue s) (\<lambda>e. dict_has ps (qe_request_id e)) excluded = Inr (Some sel)" using s Some by simp
      from ahoare_errD [OF selected_spec [OF this]] show "turn None L W n s'" using s run Some by auto
    qed
  qed (auto intro!: ahoare_pure turn_turn_done)
qed

theorem round_keeps:
  assumes "adm_inv None {} s" "pump_round E excluded s = (r, s')"
  shows "turn_done E (ad_leases s) (ad_waiters s) (ad_calls s) s'"
proof -
  have "turn None (ad_leases s) (ad_waiters s) (ad_calls s) s" using assms(1) by (simp add: turn_def derived_def)
  from ahoare_okD [OF round_spec this] ahoare_errD [OF round_spec this] show ?thesis
    using assms(2) by (cases r) (auto intro: turn_turn_done)
qed

end
