(* ===== verification/Admission_Promises.thy ===== *)
theory Admission_Promises
  imports Admission_Pump
begin

text \<open>
  What the admission controller promises: the operations as a step relation with its invariant, what a
  granted lease has behind it, when the pump returns, and runs in which it does not or in which a
  failed dispatch leaves something behind.
\<close>

section \<open>The other operations keep the invariant\<close>

abbreviation keeps :: "(admission \<Rightarrow> bool) \<Rightarrow> 'a aop \<Rightarrow> bool" where
  "keeps P m \<equiv> ahoare P m (\<lambda>_. P) P"

lemma keeps_any: "keeps P m \<Longrightarrow> P s \<Longrightarrow> m s = (r, s') \<Longrightarrow> P s'"
  by (cases r) (auto dest: ahoare_okD ahoare_errD)

lemmas inv_calm = steady_calm [OF steady_inv]

lemma inv_keys:
  assumes "adm_inv p {} s"
  shows "fst ` set (w_queued (ad_queue s)) = fst ` set (ad_waiters s)"
  using assms by (simp add: adm_inv_def waiters_ok_def queue_agrees_def)

lemma inv_forget: "adm_inv p G s \<Longrightarrow> adm_inv p G (forget_fallbacks s)"
proof -
  assume inv: "adm_inv p G s"
  let ?f = "\<lambda>(rid, wt). (rid, wt\<lparr>wt_fallback_once := None\<rparr>)"
  have "map fst (map ?f (ad_waiters s)) = map fst (ad_waiters s)" by (simp add: case_prod_beta comp_def)
  moreover have "fst ` set (map ?f (ad_waiters s)) = fst ` set (ad_waiters s)" by (force simp: image_iff)
  moreover have "\<forall>(rid, wt) \<in> set (map ?f (ad_waiters s)). waiter_ok rid wt"
    using inv by (auto simp: adm_inv_def waiters_ok_def waiter_ok_def)
  ultimately show ?thesis using inv
    by (simp add: adm_inv_def waiters_ok_def queue_agrees_def permits_ok_def forget_fallbacks_def del: map_map)
qed

lemma live_released:
  assumes "i < length ls" "dl_permit (ls ! i) = Some k" "\<not> dl_released (ls ! i)"
  shows "live (ls[i := (ls ! i)\<lparr>dl_released := True\<rparr>]) k' = live ls k' - (if k' = k then 1 else 0)"
proof -
  have split: "ls = take i ls @ ls ! i # drop (Suc i) ls" using assms(1) by (rule id_take_nth_drop)
  have "ls[i := x] = take i ls @ x # drop (Suc i) ls" for x using assms(1) by (rule upd_conv_take_nth_drop)
  then show ?thesis using assms(2,3) by (subst (3) split) (simp add: live_def held_def)
qed

lemma live_same: "i < length ls \<Longrightarrow> held k' l = held k' (ls ! i) \<Longrightarrow> live (ls[i := l]) k' = live ls k'"
proof -
  assume i: "i < length ls" and h: "held k' l = held k' (ls ! i)"
  have split: "ls = take i ls @ ls ! i # drop (Suc i) ls" using i by (rule id_take_nth_drop)
  show "live (ls[i := l]) k' = live ls k'"
    unfolding upd_conv_take_nth_drop [OF i] by (subst (3) split) (simp add: live_def h)
qed

lemma inv_leases:
  assumes inv: "adm_inv p G s"
    and le: "\<And>k. live ls k + (if q = Some k then 1 else 0) \<le> live (ad_leases s) k + (if p = Some k then 1 else 0)"
  shows "adm_inv q G (s\<lparr>ad_leases := ls\<rparr>)"
proof -
  have "live ls k + (if q = Some k then 1 else 0) \<le> dict_get (ad_active_by_key s) k 0" for k
    using order_trans [OF le permits_live [of p s k]] inv by (simp only: adm_inv_def)
  then show ?thesis using inv by (simp add: adm_inv_def waiters_ok_def queue_agrees_def permits_ok_def)
qed

lemma release_inv: "ahoare (adm_inv (Some k) G) (release_active k) (\<lambda>_. adm_inv None G) R"
  unfolding release_active_def Let_def
  by (rule ahoare_mod) (simp add: adm_inv_def waiters_ok_def queue_agrees_def permits_release)

lemma lease_release_keeps: "keeps (adm_inv None G) (lease_release i)"
proof (rule ahoareI)
  fix s x s' assume inv: "adm_inv None G s" and run: "lease_release i s = (Inr x, s')"
  then have i: "i < length (ad_leases s)" by (auto simp: lease_release_def abind_def get_lease_def split: if_splits)
  let ?l = "ad_leases s ! i" and ?s1 = "s\<lparr>ad_leases := (ad_leases s)[i := (ad_leases s ! i)\<lparr>dl_released := True\<rparr>]\<rparr>"
  show "adm_inv None G s'"
  proof (cases "dl_released ?l")
    case True
    then show ?thesis using inv run i by (simp add: lease_release_def abind_def get_lease_def apure_def)
  next
    case False
    show ?thesis
    proof (cases "dl_permit ?l")
      case None
      then have "s' = ?s1" using run i False by (simp add: lease_release_def abind_def get_lease_def apure_def amod_def)
      moreover have "held k (?l\<lparr>dl_released := True\<rparr>) = held k ?l" for k using None by (simp add: held_def)
      ultimately show ?thesis using inv_leases [OF inv, of _ None] live_same [OF i] by simp
    next
      case (Some k)
      have "adm_inv (Some k) G ?s1"
        by (rule inv_leases [OF inv]) (simp add: live_released [OF i Some False])
      moreover have "release_active k ?s1 = (Inr x, s')"
        using run i False Some by (simp add: lease_release_def abind_def get_lease_def amod_def)
      ultimately show ?thesis using ahoare_okD [OF release_inv] by blast
    qed
  qed
next
  fix s e s' assume "adm_inv None G s" "lease_release i s = (Inl e, s')"
  then show "adm_inv None G s'"
    by (auto simp: lease_release_def abind_def get_lease_def apure_def amod_def release_active_def split: if_splits option.splits)
qed

lemma quiet_lease [quiet_intros]: "quiet (get_lease i)"
  by (rule quiet_same) (simp add: get_lease_def)

lemma lease_finish_keeps: "keeps (adm_inv None G) (lease_finish E i r)"
  unfolding lease_finish_def
  by (rule bind_quiet [OF quiet_lease inv_calm], rule bind_quiet [OF quiet_finish inv_calm],
      rule bind_keeps [OF lease_release_keeps]) (auto intro: ahoare_pure)

lemma finish_before_send_keeps: "keeps (adm_inv None G) (finish_before_send E out i)"
  unfolding finish_before_send_def
  by (rule bind_quiet [OF quiet_lease inv_calm], rule bind_quiet [OF quiet_abandon inv_calm], rule lease_finish_keeps) auto

lemma response_started_keeps: "keeps (adm_inv None G) (lease_response_started i)"
proof (rule ahoareI)
  fix s x s' assume inv: "adm_inv None G s" and run: "lease_response_started i s = (Inr x, s')"
  then have i: "i < length (ad_leases s)" by (auto simp: lease_response_started_def abind_def get_lease_def split: if_splits)
  let ?l = "(ad_leases s ! i)\<lparr>dl_attempt_budget := mark_response_started (dl_attempt_budget (ad_leases s ! i))\<rparr>"
  have "s' = s\<lparr>ad_leases := (ad_leases s)[i := ?l]\<rparr>"
    using run i by (simp add: lease_response_started_def abind_def get_lease_def amod_def)
  moreover have "live ((ad_leases s)[i := ?l]) k = live (ad_leases s) k" for k by (rule live_same [OF i]) (simp add: held_def)
  ultimately show "adm_inv None G s'" using inv_leases [OF inv, of "(ad_leases s)[i := ?l]" None] by simp
next
  fix s e s' assume "adm_inv None G s" "lease_response_started i s = (Inl e, s')"
  then show "adm_inv None G s'" by (auto simp: lease_response_started_def abind_def get_lease_def amod_def split: if_splits)
qed

lemma cancel_acquire_keeps:
  assumes inv: "adm_inv None {} s" and run: "cancel_acquire E rid s = (r, s')"
  shows "adm_inv None {} s'"
proof (cases "dict_has (ad_waiters s) rid")
  case True
  then show ?thesis using run inv_drop [OF inv, where rid = rid and as = "ad_answers s"] by (auto simp: cancel_acquire_def)
next
  case False
  have "keeps (adm_inv None {}) (abind (cancel_before_send E i) (\<lambda>_. araise CancelledError))" for i
    unfolding cancel_before_send_def by (rule bind_keeps [OF finish_before_send_keeps]) (auto intro: ahoare_raise)
  from keeps_any [OF this inv] show ?thesis using run inv False
    by (auto simp: cancel_acquire_def abind_def [of "get_lease _"] get_lease_def split: option.splits answer.splits if_splits)
qed

lemma shadow_keeps: "keeps (adm_inv None G) (try_acquire_shadow E rid r)"
proof -
  have send: "keeps (adm_inv None G) (shadow_send E r rid c aid)" for c aid
    unfolding shadow_send_def
  proof (rule ahoare_try [OF ahoare_quiet [OF quiet_on_account inv_calm]])
    show "keeps (adm_inv None G) (abind (account_finish E (cd_account_id c) aid (unsent UPSTREAM_FAILED)) (\<lambda>_. araise e))" for e :: py_error
      by (rule bind_quiet [OF quiet_finish inv_calm]) (auto intro: ahoare_raise)
    show "keeps (adm_inv None G) (\<lambda>s. (Inr (Some (length (ad_leases s))),
         s\<lparr>ad_leases := ad_leases s @ [\<lparr>dl_request_id = rid, dl_account_id = cd_account_id c,
             dl_attempt_id = aid, dl_candidate = c, dl_attempt_budget = b, dl_permit = None,
             dl_released = False\<rparr>]\<rparr>))" for b
      by (rule ahoareI) (auto intro!: inv_leases [where p = None] simp: live_snoc held_def)
  qed
  have auth: "quiet (shadow_authorization E r)"
    unfolding shadow_authorization_def by (auto intro!: quiet_intros split: sum.split)
  show ?thesis unfolding try_acquire_shadow_def
    by (rule bind_quiet [OF auth inv_calm])
      (auto intro!: bind_quiet [OF quiet_now inv_calm] bind_quiet [OF quiet_view inv_calm] bind_quiet [OF quiet_ask inv_calm]
         bind_quiet [OF quiet_lift inv_calm] bind_quiet [OF quiet_reserve inv_calm] ahoare_pure send
       split: option.split reservation.split)
qed

section \<open>Admission of a request\<close>

text \<open>A request as the application makes it: its ceiling comes from \<open>authorize\<close> and grants at least one leg.\<close>

definition entry_of :: "AdmissionRequest \<Rightarrow> QueueEntry res" where
  "entry_of r = (let c = ar_authorization_ceiling r in
     QueueEntry_new (ar_request_id r) (cl_key_id (ar_client r)) (rc_queue_tier c) (rc_queue_weight c) (rc_authorized_legs c))"

definition admissible :: "AdmissionRequest \<Rightarrow> bool" where
  "admissible r \<longleftrightarrow> AdmissionRequest_validate r = Inr r \<and> ceiling_valid (ar_authorization_ceiling r) \<and> is_ok (entry_of r)"

definition room :: "AdmissionRequest \<Rightarrow> admission \<Rightarrow> bool" where
  "room r s \<longleftrightarrow> adm_inv None {} s \<and> \<not> dict_has (ad_waiters s) (ar_request_id r) \<and>
     int (length (ad_waiters s)) < ad_max_waiters_global s"

lemma calm_room: "calm (room r)"
  using inv_calm unfolding calm_def room_def by simp

lemma admission_checks_spec: "ahoare (adm_inv None {}) (admission_checks E r now) (\<lambda>_. room r) (adm_inv None {})"
proof (rule ahoareI)
  note quiet = quiet_bind [OF quiet_ask, of "\<lambda>w. case wd_auth_view w of
         Inl _ \<Rightarrow> araise (AdmissionUnavailable ''client authorization state unavailable'')
       | Inr view \<Rightarrow> if queued_identity_is_authorized (ar_client r) view then apure ()
           else araise (AdmissionUnavailable ''client authorization expired before queue admission'')" E]
  have q: "quiet (abind (ask E) (\<lambda>w. case wd_auth_view w of
         Inl _ \<Rightarrow> araise (AdmissionUnavailable ''client authorization state unavailable'')
       | Inr view \<Rightarrow> if queued_identity_is_authorized (ar_client r) view then apure ()
           else araise (AdmissionUnavailable ''client authorization expired before queue admission'')))"
    by (rule quiet) (auto split: sum.split intro: quiet_intros)
  fix s x s' assume inv: "adm_inv None {} s" and run: "admission_checks E r now s = (Inr x, s')"
  then have "room r s" by (auto simp: admission_checks_def room_def split: if_splits)
  then show "room r s'"
    using run ahoare_okD [OF ahoare_quiet [OF q calm_room]] by (auto simp: admission_checks_def split: if_splits)
next
  have q: "quiet (abind (ask E) (\<lambda>w. case wd_auth_view w of
         Inl _ \<Rightarrow> araise (AdmissionUnavailable ''client authorization state unavailable'')
       | Inr view \<Rightarrow> if queued_identity_is_authorized (ar_client r) view then apure ()
           else araise (AdmissionUnavailable ''client authorization expired before queue admission'')))"
    by (rule quiet_bind [OF quiet_ask]) (auto split: sum.split intro: quiet_intros)
  fix s e s' assume inv: "adm_inv None {} s" and run: "admission_checks E r now s = (Inl e, s')"
  then show "adm_inv None {} s'"
    using ahoare_errD [OF ahoare_quiet [OF q inv_calm] inv] by (auto simp: admission_checks_def split: if_splits)
qed

lemma enqueue_keys: "enqueue q e = Inr q' \<Longrightarrow> fst ` set (w_queued q') = insert (qe_request_id e) (fst ` set (w_queued q))"
  by (simp add: enqueue_def update_new split: if_split_asm) auto

lemma enqueue_spec:
  assumes r: "is_ok (entry_of r)" and ok: "waiter_ok (ar_request_id r) wt" and s: "room r s"
    and run: "enqueue_request r (s\<lparr>ad_waiters := AList.update (ar_request_id r) wt (ad_waiters s)\<rparr>) = (x, s')"
  shows "adm_inv None {} s'"
proof -
  let ?rid = "ar_request_id r" and ?ws = "AList.update (ar_request_id r) wt (ad_waiters s)"
  obtain e where e: "entry_of r = Inr e" using r by (auto simp: is_ok_iff)
  note entry = QueueEntry_new_ok [OF e [unfolded entry_of_def Let_def]]
  have inv: "adm_inv None {} s" and new: "\<not> dict_has (ad_waiters s) ?rid" and len: "int (length (ad_waiters s)) < ad_max_waiters_global s"
    using s by (simp_all add: room_def)
  have "\<not> dict_has (w_queued (ad_queue s)) (qe_request_id e)" using new inv_keys [OF inv] entry by auto
  then obtain q where q: "enqueue (ad_queue s) e = Inr q" by (auto simp: enqueue_def)
  have s': "s' = s\<lparr>ad_waiters := ?ws, ad_queue := q\<rparr>"
    using run q e by (simp add: enqueue_request_def entry_of_def Let_def)
  have ws: "?ws = ad_waiters s @ [(?rid, wt)]" using new by (simp add: update_new)
  have "wdrr_wf q" using inv entry q by (auto simp: adm_inv_def intro: wdrr_wf_enqueue)
  moreover have "fst ` set (w_queued q) = insert ?rid (fst ` set (ad_waiters s))"
    using enqueue_keys [OF q] entry inv_keys [OF inv] by simp
  moreover have "?rid \<notin> fst ` set (ad_waiters s)" using new by simp
  ultimately show ?thesis using inv ok len unfolding s' ws
    by (simp add: adm_inv_def waiters_ok_def queue_agrees_def permits_ok_def)
qed

lemma admit_keeps:
  assumes r: "admissible r" and inv: "adm_inv None {} s" and run: "admit E r s = (x, s')"
  shows "adm_inv None {} s'"
proof -
  have "keeps (adm_inv None {}) (admit E r)"
    unfolding admit_def Let_def
  proof (rule bind_quiet [OF quiet_now inv_calm], rule bind_quiet [OF quiet_view inv_calm], rule ahoare_bind [OF admission_checks_spec])
    fix now view and u :: unit
    let ?r = "r\<lparr>ar_attempt_budget := sync_runtime view (ar_attempt_budget r)\<rparr>"
    let ?wt = "\<lparr>wt_request = ?r, wt_future = FUT_PENDING, wt_effective_ceiling = ar_authorization_ceiling ?r,
       wt_admitted_at_ms = now, wt_effective_deadline_at_ms =
         min (ar_deadline_at_ms ?r) (now + rc_deadline_ms (ar_authorization_ceiling ?r)), wt_fallback_once = None\<rparr>"
    have ok: "waiter_ok (ar_request_id ?r) ?wt" "is_ok (entry_of ?r)"
      using r by (simp_all add: waiter_ok_def admissible_def ceil.within_refl entry_of_def)
    show "ahoare (room ?r) (abind (amod (\<lambda>s. s\<lparr>ad_waiters := AList.update (ar_request_id ?r) ?wt (ad_waiters s)\<rparr>))
        (\<lambda>_. enqueue_request ?r)) (\<lambda>_. adm_inv None {}) (adm_inv None {})"
      using enqueue_spec [OF ok(2,1)] by (intro ahoareI) (auto simp: abind_def amod_def)
  qed auto
  then show ?thesis using keeps_any inv run by blast
qed

section \<open>The step relation\<close>

text \<open>Every operation of the controller and of its leases, one turn of the pump at a time; what the rest of the process
does to the runtime registry may happen between any two.\<close>

inductive adm_step :: "environment \<Rightarrow> admission \<Rightarrow> admission \<Rightarrow> bool" for E :: environment where
  step_admit: "admissible r \<Longrightarrow> admit E r s = (x, s') \<Longrightarrow> adm_step E s s'"
| step_forget: "adm_step E s (forget_fallbacks s)"
| step_round: "pump_round E excluded s = (t, s') \<Longrightarrow> adm_step E s s'"
| step_cancelled: "cancel_acquire E rid s = (c, s') \<Longrightarrow> adm_step E s s'"
| step_finish: "lease_finish E i resolution s = (f, s') \<Longrightarrow> adm_step E s s'"
| step_unsent: "finish_before_send E out i s = (f, s') \<Longrightarrow> adm_step E s s'"
| step_response: "lease_response_started i s = (u, s') \<Longrightarrow> adm_step E s s'"
| step_shadow: "try_acquire_shadow E rid r s = (l, s') \<Longrightarrow> adm_step E s s'"
| step_registry: "adm_step E s (s\<lparr>ad_registry := g\<rparr>)"

definition adm_init :: "admission \<Rightarrow> bool" where
  "adm_init s \<longleftrightarrow> (\<exists>g m. AdmissionController_new g m = Inr s)"

lemma adm_inv_init: "adm_init s \<Longrightarrow> adm_inv None {} s"
  by (auto simp: adm_init_def AdmissionController_new_def res_bind_Inr res_map_Inr checks_Inr adm_inv_def waiters_ok_def
      queue_agrees_def permits_ok_def live_def dict_get_def WDRRQueue_new_def intro: wdrr_wf_init [unfolded wdrr_init_def WDRRQueue_new_def])

lemma adm_inv_step: "adm_inv None {} s \<Longrightarrow> adm_step E s s' \<Longrightarrow> adm_inv None {} s'"
proof (erule adm_step.cases, goal_cases)
  case 3 then show ?case using round_keeps unfolding turn_done_def by blast
next
  case (9 s g) then show ?case using calmD [OF inv_calm, of None "{}" s "ad_calls s" g] by simp
qed (auto intro: admit_keeps inv_forget cancel_acquire_keeps keeps_any [OF lease_finish_keeps]
    keeps_any [OF finish_before_send_keeps] keeps_any [OF response_started_keeps] keeps_any [OF shadow_keeps])

interpretation admitted: inductive_invariant adm_init "adm_step E" "adm_inv None {}" for E
  by unfold_locales (auto intro: adm_inv_init adm_inv_step)

lemma pump_loop_steps: "pump_loop E n excluded s = Some (r, s') \<Longrightarrow> (adm_step E)\<^sup>*\<^sup>* s s'"
proof (induction n arbitrary: excluded s)
  case (Suc n)
  obtain t s1 where round: "pump_round E excluded s = (t, s1)" by (cases "pump_round E excluded s")
  note first = step_round [OF round]
  show ?case
    using Suc.prems round Suc.IH first
    by (auto split: if_splits sum.splits pump_turn.splits intro: converse_rtranclp_into_rtranclp)
qed (auto split: if_splits)

lemma pump_steps: "pump E n s = Some (r, s') \<Longrightarrow> (adm_step E)\<^sup>*\<^sup>* s s'"
  unfolding pump_def by (blast intro: converse_rtranclp_into_rtranclp step_forget pump_loop_steps)

text \<open>\<open>acquire\<close> and \<open>wake\<close> are runs of these steps.\<close>

theorem acquire_steps:
  assumes "admissible r" "acquire E n r s = Some (x, s')"
  shows "(adm_step E)\<^sup>*\<^sup>* s s'"
proof -
  obtain y s1 where admit: "admit E r s = (y, s1)" by (cases "admit E r s")
  note first = step_admit [OF assms(1) admit]
  show ?thesis
  proof (cases y)
    case (Inl e)
    then show ?thesis using assms(2) admit first by (auto simp: acquire_def)
  next
    case (Inr u)
    then obtain z s2 where pumped: "pump E n s1 = Some (z, s2)" using assms(2) admit
      by (cases "pump E n s1") (auto simp: acquire_def)
    then have run: "(adm_step E)\<^sup>*\<^sup>* s s2" using first pump_steps by (meson converse_rtranclp_into_rtranclp)
    show ?thesis
    proof (cases "z = Inl CancelledError")
      case True
      then have "cancel_acquire E (ar_request_id r) s2 = (x, s')" using assms(2) admit pumped Inr by (simp add: acquire_def)
      then show ?thesis using run step_cancelled by (meson rtranclp.rtrancl_into_rtrancl)
    next
      case False
      then have "s' = s2" using assms(2) admit pumped Inr
        by (auto simp: acquire_def split: sum.splits py_error.splits)
      then show ?thesis using run by simp
    qed
  qed
qed

section \<open>Leases and bounds\<close>

text \<open>C3: A lease is only ever granted with everything it needs behind it. If a turn of the admission pump adds a lease,
it adds exactly one, for a request that was waiting: during that same turn the client's credential was found
authorized in the current authentication view, the route engine authorized the request again, the leg of the
lease lies within both that authorization and the ceiling the request was admitted with, the leg allows the
trigger and has the capabilities, the clock stood before the request's deadline, the key's unreleased leases including this one
are within its concurrency limit, the request has at most three sends, and the attempt is durably dispatched.\<close>

theorem granted_lease_is_sound:
  assumes "reachable adm_init (adm_step E) s" "pump_round E excluded s = (r, s')" "ad_leases s' \<noteq> ad_leases s"
  shows "\<exists>l. ad_leases s' = ad_leases s @ [l] \<and> sound E (ad_waiters s) (ad_calls s) s' l"
  using round_keeps [OF admitted.invar_reachable [OF assms(1)] assms(2)] assms(3) unfolding turn_done_def by blast

text \<open>C19: In every reachable state of the admission controller the queue holds exactly the waiting requests, their number
is within the global bound, every waiter's ceiling is within the ceiling its request was admitted with, and no key
has more unreleased leases than active permits counted for it.\<close>

theorem admission_state_agrees:
  assumes "reachable adm_init (adm_step E) s"
  shows "set (map fst (w_queued (ad_queue s))) = set (map fst (ad_waiters s)) \<and>
    int (length (ad_waiters s)) \<le> ad_max_waiters_global s \<and>
    (\<forall>(rid, wt) \<in> set (ad_waiters s). ar_request_id (wt_request wt) = rid \<and>
       ceiling_within (wt_effective_ceiling wt) (ar_authorization_ceiling (wt_request wt))) \<and>
    (\<forall>k. live (ad_leases s) k \<le> dict_get (ad_active_by_key s) k 0)"
proof -
  note inv = admitted.invar_reachable [OF assms]
  have "live (ad_leases s) k \<le> dict_get (ad_active_by_key s) k 0" for k
    using permits_live [of None s k] inv by (simp add: adm_inv_def)
  then show ?thesis using inv inv_keys [OF inv] by (auto simp: adm_inv_def waiters_ok_def waiter_ok_def)
qed

section \<open>When the pump returns\<close>

text \<open>What the last turn did: no answer but a new exclusion, or the selected request has left.\<close>

definition moved :: "request_id list \<Rightarrow> request_id \<Rightarrow> pump_turn \<Rightarrow> admission \<Rightarrow> bool" where
  "moved excluded rid t s = (case t of
     PumpReturn \<Rightarrow> False
   | PumpAgain x \<Rightarrow> x = rid # excluded \<or> \<not> dict_has (ad_waiters s) rid
   | PumpRetry x \<Rightarrow> x = excluded)"

abbreviation anyhow :: "'a aop \<Rightarrow> ('a \<Rightarrow> admission \<Rightarrow> bool) \<Rightarrow> bool" where
  "anyhow m Q \<equiv> ahoare (\<lambda>_. True) m Q (\<lambda>_. True)"

lemma anyhow_bind: "(\<And>x. anyhow (f x) Q) \<Longrightarrow> anyhow (abind m f) Q"
  by (rule ahoare_bind [where M = "\<lambda>_ _. True"]) (auto simp: ahoare_def split: prod.split sum.split)

lemma anyhow_try: "(\<And>e. anyhow (h e) Q) \<Longrightarrow> (\<And>x. anyhow (f x) Q) \<Longrightarrow> anyhow (atry m h f) Q"
  by (rule ahoare_try [where M = "\<lambda>_ _. True" and H = "\<lambda>_. True"]) (auto simp: ahoare_def split: prod.split sum.split)

lemma anyhow_pure: "(\<And>s. Q x s) \<Longrightarrow> anyhow (apure x) Q"
  by (rule ahoare_pure)

lemma anyhow_raise: "anyhow (araise e) Q"
  by (rule ahoare_raise) simp

lemma keeps_waiters_quiet: "quiet m \<Longrightarrow> keeps (\<lambda>s. ad_waiters s = w) m"
  by (rule ahoare_quiet) (simp_all add: calm_def)

lemma lease_release_waiters: "keeps (\<lambda>s. ad_waiters s = w) (lease_release i)"
  by (rule ahoareI) (auto simp: lease_release_def abind_def get_lease_def apure_def amod_def release_active_def Let_def
      split: if_splits option.splits)

lemma cancel_before_send_waiters: "keeps (\<lambda>s. ad_waiters s = w) (cancel_before_send E i)"
  unfolding cancel_before_send_def finish_before_send_def lease_finish_def
  by (intro bind_keeps keeps_waiters_quiet quiet_intros lease_release_waiters)

lemma fail_moved: "anyhow (abind (fail_waiter rid e) (\<lambda>_. apure (PumpAgain x))) (moved excluded rid)"
  unfolding fail_waiter_def
  by (rule ahoareI) (auto simp: abind_def get_waiter_def amod_def apure_def moved_def fst_delete split: option.splits)

lemma grant_moved: "anyhow (grant E rid k c aid) (moved excluded rid)"
  unfolding grant_def
proof (rule bind_get)
  fix wt :: waiter
  let ?s1 = "\<lambda>s. s\<lparr>ad_waiters := AList.delete rid (ad_waiters s), ad_leases := ad_leases s @ [\<lparr>dl_request_id = rid,
     dl_account_id = cd_account_id c, dl_attempt_id = aid, dl_candidate = c,
     dl_attempt_budget = ar_attempt_budget (wt_request wt), dl_permit = Some k, dl_released = False\<rparr>]\<rparr>"
  have "ahoare (\<lambda>s. ad_waiters s = AList.delete rid w) (abind (cancel_before_send E i) (\<lambda>_. apure (PumpAgain [])))
      (moved excluded rid) (\<lambda>_. True)" for i w
    by (rule ahoare_bind [OF ahoare_weaken_err [OF cancel_before_send_waiters]]) (auto intro!: ahoare_pure simp: moved_def fst_delete)
  then have gone: "(case abind (cancel_before_send E i) (\<lambda>_. apure (PumpAgain [])) (?s1 s) of
      (Inl e, s') \<Rightarrow> True | (Inr x, s') \<Rightarrow> moved excluded rid x s')" for i s
    unfolding ahoare_def by simp
  show "ahoare (\<lambda>s. True \<and> map_of (ad_waiters s) rid = Some wt) (\<lambda>s.
    let i = length (ad_leases s); s1 = ?s1 s in
    case wt_future wt of
      FUT_CANCELLED \<Rightarrow> abind (cancel_before_send E i) (\<lambda>_. apure (PumpAgain [])) s1
    | FUT_DONE \<Rightarrow> (Inr (PumpAgain []), s1)
    | FUT_PENDING \<Rightarrow> (Inr (PumpAgain []), s1\<lparr>ad_answers := ad_answers s1 @ [(rid, LeaseAnswer i)]\<rparr>))
    (moved excluded rid) (\<lambda>_. True)"
    unfolding ahoare_def Let_def using gone by (auto simp: moved_def fst_delete split: py_future.split)
qed simp

lemma gated_moved: "anyhow (pump_gated E excluded ps d sel) (moved excluded (qe_request_id (sel_entry sel)))"
  unfolding pump_gated_def pump_select_def pump_reserve_def pump_attempt_def after_denial_def after_grant_def roll_back_def Let_def
  by (auto intro!: anyhow_bind anyhow_try anyhow_pure anyhow_raise grant_moved fail_moved simp: moved_def
      split: option.split reservation.split)

definition waiting :: "admission \<Rightarrow> request_id set" where
  "waiting s = fst ` set (ad_waiters s)"

lemma derived_waiting: "derived (ad_waiters s) s' \<Longrightarrow> waiting s' \<subseteq> waiting s"
proof
  fix rid assume d: "derived (ad_waiters s) s'" and "rid \<in> waiting s'"
  then obtain wt where "map_of (ad_waiters s') rid = Some wt" unfolding waiting_def by (metis map_of_eq_None_iff option.exhaust)
  then have "map_of (ad_waiters s) rid \<noteq> None" using d unfolding derived_def by blast
  then show "rid \<in> waiting s" by (simp add: waiting_def map_of_eq_None_iff)
qed

lemma proposed_request:
  assumes "wdrr_wf q" "propose q el ex = Inr (Some sel)"
  shows "qe_request_id (sel_entry sel) \<in> fst ` set (w_queued q)" "qe_request_id (sel_entry sel) \<notin> set ex"
proof -
  obtain tier top sc key keys following item where
    pr: "proposal q (available_items q el ex) tier top sc key keys following item sel" by (rule propose_Some [OF assms(2)])
  note item = proposal_selected(1,5) [OF pr]
  then show "qe_request_id (sel_entry sel) \<notin> set ex" by (simp add: available_items_def)
  have "(qe_request_id (q_entry item), item) \<in> set (w_queued q)"
    using item(1) assms(1) by (force simp: available_items_def wdrr_wf_def)
  then show "qe_request_id (sel_entry sel) \<in> fst ` set (w_queued q)" using item(2) by force
qed

lemma selected_moved:
  assumes "pump_selected E excluded ps sel s = (Inr t, s')"
  shows "moved excluded (qe_request_id (sel_entry sel)) t s'"
proof -
  have "moved excluded (qe_request_id (sel_entry sel)) (PumpAgain (qe_request_id (sel_entry sel) # excluded)) s'"
    by (simp add: moved_def)
  then show ?thesis using assms ahoare_okD [OF gated_moved TrueI, of E excluded]
    unfolding pump_selected_def Let_def by (auto split: option.split_asm if_split_asm)
qed

lemma round_progress:
  assumes inv: "adm_inv None {} s" and run: "pump_round E excluded s = (Inr t, s')" and t: "t \<noteq> PumpReturn"
  shows "waiting s' \<subseteq> waiting s" "\<exists>rid \<in> waiting s. rid \<notin> set excluded \<and> moved excluded rid t s'"
proof -
  show "waiting s' \<subseteq> waiting s" using round_keeps [OF inv run] by (simp add: turn_done_def derived_waiting)
  obtain ps s1 sel where previews: "previews_of E s = (Inr ps, s1)"
    and sel: "propose (ad_queue s1) (\<lambda>e. dict_has ps (qe_request_id e)) excluded = Inr (Some sel)"
    and rest: "pump_selected E excluded ps sel s1 = (Inr t, s')"
    using run t by (auto simp: pump_round_def abind_def apure_def split: prod.splits sum.splits option.splits)
  have "turn None (ad_leases s) (ad_waiters s) (ad_calls s) s" using inv by (simp add: turn_def derived_def)
  then have t1: "turn None (ad_leases s) (ad_waiters s) (ad_calls s) s1" using ahoare_okD [OF previews_spec] previews by blast
  then have inv1: "adm_inv None {} s1" and sub: "waiting s1 \<subseteq> waiting s" by (simp_all add: turn_def derived_waiting)
  have wf: "wdrr_wf (ad_queue s1)" using inv1 by (simp add: adm_inv_def)
  have "qe_request_id (sel_entry sel) \<in> waiting s"
    using proposed_request(1) [OF wf sel] sub unfolding inv_keys [OF inv1] waiting_def by (rule subsetD [rotated])
  then show "\<exists>rid \<in> waiting s. rid \<notin> set excluded \<and> moved excluded rid t s'"
    using proposed_request(2) [OF wf sel] selected_moved [OF rest] by (intro bexI conjI)
qed

text \<open>The turns of a pump that end in a retry after a denied reservation.\<close>

fun pump_retries :: "environment \<Rightarrow> nat \<Rightarrow> request_id list \<Rightarrow> admission \<Rightarrow> nat" where
  "pump_retries E 0 excluded s = 0"
| "pump_retries E (Suc n) excluded s =
    (if ad_waiters s = [] then 0
     else case pump_round E excluded s of
       (Inr (PumpAgain excluded'), s') \<Rightarrow> pump_retries E n excluded' s'
     | (Inr (PumpRetry excluded'), s') \<Rightarrow> Suc (pump_retries E n excluded' s')
     | _ \<Rightarrow> 0)"

definition patience :: "nat \<Rightarrow> request_id list \<Rightarrow> admission \<Rightarrow> nat" where
  "patience N excluded s = card (waiting s) * (N + 1) + card (waiting s - set excluded)"

lemma finite_waiting [simp]: "finite (waiting s)"
  by (simp add: waiting_def)

lemma patience_lost:
  assumes "waiting s' \<subset> waiting s" "card (waiting s) \<le> N"
  shows "patience N x s' < patience N y s"
proof -
  have less: "card (waiting s') < card (waiting s)" using assms(1) by (simp add: psubset_card_mono)
  have "card (waiting s' - set x) \<le> card (waiting s')" by (simp add: card_mono)
  then have "patience N x s' < (card (waiting s') + 1) * (N + 1)" using less assms(2) by (simp add: patience_def)
  also have "\<dots> \<le> card (waiting s) * (N + 1)" using less by (intro mult_le_mono1) simp
  finally show ?thesis by (simp add: patience_def)
qed

lemma patience_excluded:
  assumes "waiting s' \<subseteq> waiting s" "card (waiting s) \<le> N" "rid \<in> waiting s" "rid \<notin> set excluded"
  shows "patience N (rid # excluded) s' < patience N excluded s"
proof (cases "waiting s' = waiting s")
  case True
  have "waiting s - set (rid # excluded) \<subset> waiting s - set excluded" using assms(3,4) by auto
  then have "card (waiting s - set (rid # excluded)) < card (waiting s - set excluded)" by (rule psubset_card_mono [rotated]) simp
  then show ?thesis using True by (simp add: patience_def)
qed (use assms patience_lost in blast)

lemma patience_mono:
  assumes "waiting s' \<subseteq> waiting s"
  shows "patience N excluded s' \<le> patience N excluded s"
  unfolding patience_def using assms by (intro add_mono mult_le_mono1 card_mono) auto

lemma pump_loop_returns:
  "adm_inv None {} s \<Longrightarrow> card (waiting s) \<le> N \<Longrightarrow> patience N excluded s + pump_retries E n excluded s \<le> n \<Longrightarrow>
     pump_loop E n excluded s \<noteq> None"
proof (induction n arbitrary: excluded s)
  case 0
  then show ?case by (auto simp: patience_def waiting_def)
next
  case (Suc n)
  obtain r s' where round: "pump_round E excluded s = (r, s')" by (cases "pump_round E excluded s")
  show ?case
  proof (cases "ad_waiters s = [] \<or> is_ok r = False \<or> r = Inr PumpReturn")
    case True
    then show ?thesis using round by (cases r) auto
  next
    case False
    then obtain t where t: "r = Inr t" "t \<noteq> PumpReturn" and ne: "ad_waiters s \<noteq> []" by (cases r) auto
    note progress = round_progress [OF Suc.prems(1) round [unfolded t(1)] t(2)]
    have inv: "adm_inv None {} s'" using round_keeps [OF Suc.prems(1) round] by (simp add: turn_done_def)
    have card: "card (waiting s') \<le> N" using card_mono [OF _ progress(1)] Suc.prems(2) by simp
    obtain rid where rid: "rid \<in> waiting s" "rid \<notin> set excluded" "moved excluded rid t s'" using progress(2) by blast
    show ?thesis
    proof (cases t)
      case (PumpAgain x)
      have "patience N x s' < patience N excluded s"
      proof (cases "rid \<in> waiting s'")
        case True
        then have "x = rid # excluded" using rid(3) PumpAgain by (simp add: moved_def waiting_def)
        then show ?thesis using patience_excluded [OF progress(1) Suc.prems(2) rid(1,2)] by simp
      next
        case False
        then show ?thesis using patience_lost Suc.prems(2) progress(1) rid(1) by blast
      qed
      then have "patience N x s' + pump_retries E n x s' \<le> n" using Suc.prems(3) round t(1) ne PumpAgain by simp
      then show ?thesis using Suc.IH [OF inv card] round t(1) ne PumpAgain by simp
    next
      case (PumpRetry x)
      then have x: "x = excluded" using rid(3) by (simp add: moved_def)
      have "patience N excluded s' + pump_retries E n excluded s' \<le> n"
        using Suc.prems(3) round t(1) ne PumpRetry x patience_mono [OF progress(1), of N excluded] by simp
      then show ?thesis using Suc.IH [OF inv card] round t(1) ne PumpRetry x by simp
    qed (use t in simp)
  qed
qed

lemma waiting_forget [simp]: "waiting (forget_fallbacks s) = waiting s"
  by (force simp: waiting_def forget_fallbacks_def)

text \<open>C20: The pump of the admission controller returns: with \<open>w\<close> requests waiting, a pump that has not returned after \<open>n\<close> turns
spent more than \<open>n - (w + 1)\<^sup>2\<close> of them on reservations that were denied with a fallback cause. Every other turn answers
or excludes a request.\<close>

theorem pump_returns:
  assumes "reachable adm_init (adm_step E) s"
    and "(length (ad_waiters s) + 1) ^ 2 + pump_retries E n [] (forget_fallbacks s) \<le> n"
  shows "\<exists>r s'. pump E n s = Some (r, s')"
proof -
  let ?w = "length (ad_waiters s)"
  note inv = admitted.invar_reachable [OF assms(1)]
  have card: "card (waiting s) \<le> ?w" unfolding waiting_def by (metis card_length length_map set_map)
  have "patience ?w [] (forget_fallbacks s) \<le> ?w * (?w + 1) + ?w"
    unfolding patience_def using card by (intro add_mono mult_le_mono1) auto
  then have "patience ?w [] (forget_fallbacks s) + pump_retries E n [] (forget_fallbacks s) \<le> n"
    using assms(2) by (simp add: power2_eq_square)
  then have "pump_loop E n [] (forget_fallbacks s) \<noteq> None"
    by (intro pump_loop_returns [OF inv_forget [OF inv], of ?w]) (simp_all add: card)
  then show ?thesis by (auto simp: pump_def)
qed

end
