(* ===== verification/Admission_Runs.thy ===== *)
theory Admission_Runs
  imports Admission_Promises
begin

text \<open>
  Concrete runs of the admission controller: witnesses of its promises, and three runs in which it does
  not do what it means to (a pump that never returns, a lease granted to a caller that has already been told
  it failed, and a permit that is never given back).
\<close>

section \<open>A gateway with one account and one leg\<close>

definition spill_leg :: AuthorizedLeg where
  "spill_leg = sample_leg\<lparr>al_allowed_triggers := [PRIMARY, CAPACITY_SPILL]\<rparr>"

definition spill_group :: RouteGroupRevision where
  "spill_group = sample_group\<lparr>rg_legs := [sample_route_leg\<lparr>rl_triggers := [PRIMARY, CAPACITY_SPILL]\<rparr>]\<rparr>"

definition spill_policy :: KeyPolicyRevision where
  "spill_policy = sample_policy\<lparr>kp_authorized_legs := [spill_leg]\<rparr>"

definition serving_account :: "int \<Rightarrow> ProviderAccount" where
  "serving_account rpm = sample_account\<lparr>pa_state := Some AS_ACTIVE, pa_rpm_limit := \<lparr>qd_status = KNOWN, qd_value = Some rpm\<rparr>\<rparr>"

definition spill_bundle :: PolicyBundleV1 where
  "spill_bundle = sample_bundle\<lparr>pb_route_groups := [spill_group], pb_policies := [spill_policy], pb_accounts := [serving_account 1]\<rparr>"

definition spill_engine :: RouteEngine where
  "spill_engine = \<lparr>en_bundle = spill_bundle, en_bundle_hash = ''h'', en_keys = [(replicate 32 CHR ''0'', sample_key)],
     en_policies = [(''pol_1'', spill_policy)], en_groups = [(''rg_1'', spill_group)],
     en_accounts = [(''acc_1'', serving_account 1)], en_groups_by_name = [(''model'', spill_group)]\<rparr>"

definition spill_ceiling :: RequestAuthorizationCeiling where
  "spill_ceiling = \<lparr>rc_key_id = replicate 32 CHR ''0'', rc_credential_generation = 1, rc_policy_id = ''pol_1'',
     rc_bundle_generation = 1, rc_bundle_hash = ''h'', rc_route_group_id = ''rg_1'', rc_authorized_legs = [spill_leg],
     rc_queue_tier = 0, rc_queue_weight = 4, rc_max_concurrency = 2, rc_max_waiters = 3, rc_deadline_ms = 1000\<rparr>"

lemma spill_engine_active: "activate (\<lambda>_. ''h'') spill_bundle = Inr spill_engine"
  by code_simp

lemma spill_ceiling_authorized: "authorize spill_engine sample_client route_profile = Inr spill_ceiling"
  by code_simp

definition demo_world :: "attempt_id \<Rightarrow> JournalReceipt res \<Rightarrow> world" where
  "demo_world aid outcome = \<lparr>wd_now_ms = 10, wd_runtime_clock = 10, wd_auth_view = Inr sample_view, wd_engine = spill_engine,
     wd_gate = open_gate, wd_health = \<lparr>jh_status = JS_HEALTHY, jh_last_sequence = 1\<rparr>,
     wd_journal = \<lparr>je_status = JS_HEALTHY, je_append = outcome, je_checkpoint = Inr ()\<rparr>, wd_attempt_id = aid,
     wd_cancelled = False\<rparr>"

definition written :: "JournalReceipt res" where
  "written = Inr \<lparr>jr_durable_lsn = 1, jr_record_digest = ''d''\<rparr>"

definition refused :: "JournalReceipt res" where
  "refused = Inl (JournalUnavailable ''write failed'')"

definition demo_env :: "(nat \<Rightarrow> world) \<Rightarrow> environment" where
  "demo_env ws = \<lparr>ev_profile_digest = (\<lambda>_. ''p''), ev_resolution_digest = (\<lambda>_. ''r''), ev_sha = sample_sha, ev_world = ws\<rparr>"

definition demo_request :: "request_id \<Rightarrow> AdmissionRequest" where
  "demo_request rid = \<lparr>ar_request_id = rid, ar_client = sample_client, ar_profile = route_profile,
     ar_authorization_ceiling = spill_ceiling,
     ar_runtime_identity = \<lparr>ri_installation_id = ''inst_1'', ri_dispatcher_fence = 1, ri_boot_id = ''boot_1'',
       ri_bundle_generation = 1, ri_bundle_hash = ''h''\<rparr>,
     ar_deadline_at_ms = 900, ar_cause = DC_PRIMARY, ar_attempt_budget = AttemptBudget_new rid, ar_emergency = None\<rparr>"

definition calm_env :: environment where
  "calm_env = demo_env (\<lambda>_. demo_world ''att_1'' written)"

definition demo_registry :: registry where
  "demo_registry = fresh_registry 10 100 1000 [serving_account 5]"

definition demo_start :: admission where
  "demo_start = projr (AdmissionController_new demo_registry 64)"

text \<open>One request waits, with the questions asked so far.\<close>

definition one_queued :: "request_id \<Rightarrow> wdrr" where
  "one_queued rid = \<lparr>w_max_consecutive_higher_grants = 64, w_queued = [(rid, \<lparr>q_entry = \<lparr>qe_request_id = rid,
       qe_key_id = replicate 32 CHR ''0'', qe_tier = 0, qe_weight = 4, qe_authorized_legs = [spill_leg],
       qe_scarcity = SCARCE\<rparr>, q_sequence = 0\<rparr>)],
     w_next_sequence = 1, w_version = 1, w_fairness = FairnessState_empty\<rparr>"

definition one_waits :: "request_id \<Rightarrow> registry \<Rightarrow> DispatchCause option \<Rightarrow> (key_id, int) dict \<Rightarrow> nat \<Rightarrow> admission" where
  "one_waits rid g cause active n = \<lparr>ad_max_waiters_global = 64, ad_queue = one_queued rid,
     ad_waiters = [(rid, \<lparr>wt_request = demo_request rid, wt_future = FUT_PENDING, wt_effective_ceiling = spill_ceiling,
       wt_admitted_at_ms = 10, wt_effective_deadline_at_ms = 900, wt_fallback_once = cause\<rparr>)],
     ad_active_by_key = active, ad_registry = g, ad_leases = [], ad_answers = [], ad_calls = n\<rparr>"

definition demo_waiting :: admission where
  "demo_waiting = one_waits ''req_1'' demo_registry None [] 3"

lemma demo_admitted: "admit calm_env (demo_request ''req_1'') demo_start = (Inr (), demo_waiting)"
  by code_simp

lemma demo_admissible: "admissible (demo_request rid)"
proof -
  have "AdmissionRequest_validate (demo_request rid) = Inr (demo_request rid)"
    by (simp add: AdmissionRequest_validate_def checks_Inr demo_request_def AttemptBudget_new_def route_profile_def spill_ceiling_def
        sample_client_def authenticated_def sample_key_def)
  moreover have "ceiling_valid spill_ceiling" using authorize_Inr [OF spill_ceiling_authorized] by blast
  moreover have "is_ok (entry_of (demo_request rid))"
    by (simp add: entry_of_def QueueEntry_new_def QueueEntry_checks_def demo_request_def spill_ceiling_def is_ok_iff checks_Inr
        sample_client_def authenticated_def sample_key_def)
  ultimately show ?thesis by (simp add: admissible_def demo_request_def)
qed

lemma demo_start_init: "adm_init demo_start"
proof -
  have "is_ok (AdmissionController_new demo_registry 64)" by code_simp
  then have "AdmissionController_new demo_registry 64 = Inr demo_start" by (auto simp: is_ok_iff demo_start_def)
  then show ?thesis unfolding adm_init_def by blast
qed

lemma demo_waiting_reachable: "reachable adm_init (adm_step calm_env) demo_waiting"
  by (rule reachable.step, rule reachable.start, rule demo_start_init, rule step_admit, rule demo_admissible, rule demo_admitted)

section \<open>Witnesses\<close>

theorem granted_lease_is_sound_witness:
  "\<exists>l. ad_leases (snd (pump_round calm_env [] demo_waiting)) = ad_leases demo_waiting @ [l] \<and>
     sound calm_env (ad_waiters demo_waiting) (ad_calls demo_waiting) (snd (pump_round calm_env [] demo_waiting)) l"
proof (rule granted_lease_is_sound [OF demo_waiting_reachable])
  show "pump_round calm_env [] demo_waiting = (fst (pump_round calm_env [] demo_waiting), snd (pump_round calm_env [] demo_waiting))"
    by simp
  have "length (ad_leases (snd (pump_round calm_env [] demo_waiting))) \<noteq> length (ad_leases demo_waiting)" by code_simp
  then show "ad_leases (snd (pump_round calm_env [] demo_waiting)) \<noteq> ad_leases demo_waiting" by auto
qed

theorem admission_state_agrees_witness:
  "set (map fst (w_queued (ad_queue demo_waiting))) = {''req_1''} \<and> int (length (ad_waiters demo_waiting)) \<le> 64"
proof -
  have "map fst (ad_waiters demo_waiting) = [''req_1'']" "ad_max_waiters_global demo_waiting = 64" by code_simp+
  then show ?thesis using admission_state_agrees [OF demo_waiting_reachable] by (simp only: list.set simp_thms)
qed

theorem pump_returns_witness: "\<exists>r s'. pump calm_env 4 demo_waiting = Some (r, s')"
proof (rule pump_returns [OF demo_waiting_reachable])
  show "(length (ad_waiters demo_waiting) + 1) ^ 2 + pump_retries calm_env 4 [] (forget_fallbacks demo_waiting) \<le> 4" by code_simp
qed

section \<open>A pump that never returns\<close>

text \<open>The account has used its one start of the minute; nothing else limits it.\<close>

definition limited_runtime :: runtime where
  "limited_runtime = (AccountRuntime_new (serving_account 1) 10 100 1000)\<lparr>rt_starts := [(''att_1'',
     \<lparr>st_attempt_id = ''att_1'', st_started_at_ms = 10, st_tokens = 150, st_counted_start = True\<rparr>)]\<rparr>"

definition limited_registry :: registry where
  "limited_registry = (fresh_registry 10 100 1000 [])\<lparr>sy_runtimes := [(''acc_1'', limited_runtime)]\<rparr>"

definition spin :: "DispatchCause option \<Rightarrow> nat \<Rightarrow> admission" where
  "spin cause n = one_waits ''req_2'' limited_registry cause [] n"

definition spin_env :: environment where
  "spin_env = demo_env (\<lambda>_. demo_world ''att_2'' written)"

lemma spin_turn: "\<exists>m. pump_round spin_env [] (spin (Some DC_CAPACITY) n) = (Inr (PumpRetry []), spin (Some DC_CAPACITY) m)"
proof
  show "pump_round spin_env [] (spin (Some DC_CAPACITY) n) = (Inr (PumpRetry []), spin (Some DC_CAPACITY) (15 + n))" by code_simp
qed

lemma first_turn: "\<exists>m. pump_round spin_env [] (spin None 0) = (Inr (PumpRetry []), spin (Some DC_CAPACITY) m)"
proof
  show "pump_round spin_env [] (spin None 0) = (Inr (PumpRetry []), spin (Some DC_CAPACITY) 15)" by code_simp
qed

lemma spin_loop: "pump_loop spin_env k [] (spin (Some DC_CAPACITY) n) = None"
proof (induction k arbitrary: n)
  case (Suc k)
  obtain m where "pump_round spin_env [] (spin (Some DC_CAPACITY) n) = (Inr (PumpRetry []), spin (Some DC_CAPACITY) m)"
    using spin_turn by blast
  then show ?case using Suc.IH [of m] by (simp add: spin_def one_waits_def)
qed (simp add: spin_def one_waits_def)


section \<open>A failed dispatch\<close>

text \<open>The journal refuses the one record that would mark the attempt dispatched; everything else succeeds.\<close>

definition strand_env :: environment where
  "strand_env = demo_env (\<lambda>n. demo_world (if n < 20 then ''att_1'' else ''att_2'') (if n = 18 then refused else written))"

definition returned_runtime :: runtime where
  "returned_runtime = (AccountRuntime_new (serving_account 5) 10 100 1000)\<lparr>
     rt_starts := [(''att_1'', \<lparr>st_attempt_id = ''att_1'', st_started_at_ms = 10, st_tokens = 0, st_counted_start = False\<rparr>)],
     rt_resolutions := [(''att_1'', \<lparr>ra_resolution_digest = ''r'', ra_receipt = \<lparr>jr_durable_lsn = 1, jr_record_digest = ''d''\<rparr>,
       ra_resolved_at_ms = 10, ra_dispatch = None\<rparr>)]\<rparr>"

definition returned_registry :: registry where
  "returned_registry = (fresh_registry 10 100 1000 [])\<lparr>sy_runtimes := [(''acc_1'', returned_runtime)]\<rparr>"

definition stranded :: admission where
  "stranded = one_waits ''req_1'' returned_registry None [] 22"

lemma strand_admitted: "admit strand_env (demo_request ''req_1'') demo_start = (Inr (), demo_waiting)"
  by code_simp

lemma strand_round: "pump_round strand_env [] demo_waiting = (Inl (JournalUnavailable ''write failed''), stranded)"
  by code_simp

lemma strand_failed:
  "acquire strand_env 3 (demo_request ''req_1'') demo_start = Some (Inl (JournalUnavailable ''write failed''), stranded)"
proof -
  have forget: "forget_fallbacks demo_waiting = demo_waiting" by (simp add: forget_fallbacks_def demo_waiting_def one_waits_def)
  have ne: "ad_waiters demo_waiting \<noteq> []" by (simp add: demo_waiting_def one_waits_def)
  have "pump strand_env 3 demo_waiting = Some (Inl (JournalUnavailable ''write failed''), stranded)"
    by (simp add: pump_def forget numeral_3_eq_3 ne strand_round)
  then show ?thesis by (simp add: acquire_def strand_admitted)
qed

definition lease_report :: "admission \<Rightarrow> request_id list \<times> (request_id \<times> answer) list \<times> (key_id, int) dict" where
  "lease_report s = (map fst (ad_waiters s), ad_answers s, ad_active_by_key s)"

lemma strand_woken:
  "map_option (\<lambda>(r, s). (r, lease_report s)) (wake strand_env 1 stranded) =
     Some (Inr (), [], [(''req_1'', LeaseAnswer 0)], [(replicate 32 CHR ''0'', 1)])"
  by code_simp


text \<open>The journal fails for good after the reservation: the roll-back fails too.\<close>

definition outage_env :: environment where
  "outage_env = demo_env (\<lambda>n. demo_world ''att_1'' (if n < 18 then written else refused))"

lemma outage_report:
  "(case pump_round outage_env [] demo_waiting of (r, s) \<Rightarrow> (r, ad_leases s, ad_active_by_key s)) =
     (Inl (JournalUnavailable ''write failed''), [], [(replicate 32 CHR ''0'', 1)])"
  by code_simp

text \<open>When the roll-back of a failed dispatch fails as well, its last step is skipped: the key's permit stays counted although no
lease exists that could give it back.\<close>

theorem failed_roll_back_keeps_permit:
  "\<exists>s. pump_round outage_env [] demo_waiting = (Inl (JournalUnavailable ''write failed''), s) \<and>
     ad_leases s = [] \<and> ad_active_by_key s = [(replicate 32 CHR ''0'', 1)]"
  using outage_report by (auto split: prod.splits)

end
