(* ===== verification/Control_Keys.thy ===== *)
theory Control_Keys
  imports Key_Lifecycle Auth
begin

text \<open>
  The key commands of the control plane (\<open>control/keys.py\<close>): issuance, activation, suspension,
  resumption, expiry, revocation, rotation, policy reassignment, and the hand-off that reveals a key
  once. Every command returns a new record or raises. The random bytes that \<open>secrets.token_bytes\<close>
  returns, the clock and HMAC-SHA256 (\<open>mac\<close>) are arguments. The theorems say that a command only ever
  makes a change that \<open>Key_Lifecycle\<close> accepts, which commands cannot fail, and, against \<open>Auth\<close>, what the
  revealed text of a key is worth after it was issued, rotated or revoked.
\<close>

section \<open>The hand-off\<close>

definition RESPONSE_HEADERS :: "(string, string) dict" where
  "RESPONSE_HEADERS = [(''Cache-Control'', ''no-store''), (''Referrer-Policy'', ''no-referrer'')]"

record RevealedClientKey =
  rv_value :: string
  rv_response_headers :: "(string, string) dict"

record IssuedOnce =
  io_record :: ClientKeyRecord
  io_value :: "string option"

definition issued_once :: "ClientKeyRecord \<Rightarrow> string \<Rightarrow> IssuedOnce" where
  "issued_once r value = \<lparr>io_record = r, io_value = Some value\<rparr>"

definition reveal_once :: "IssuedOnce \<Rightarrow> RevealedClientKey res \<times> IssuedOnce" where
  "reveal_once self =
    (case io_value self of
       None \<Rightarrow> (Inl (RuntimeError ''client key was already revealed''), self)
     | Some value \<Rightarrow> (Inr \<lparr>rv_value = value, rv_response_headers = RESPONSE_HEADERS\<rparr>, self\<lparr>io_value := None\<rparr>))"

section \<open>Issuance\<close>

definition DEFAULT_KEY_LIFETIME_S :: int where
  "DEFAULT_KEY_LIFETIME_S = 90 * 86400"

definition MAX_KEY_LIFETIME_S :: int where
  "MAX_KEY_LIFETIME_S = 365 * 86400"

definition DEFAULT_ROTATION_OVERLAP_S :: int where
  "DEFAULT_ROTATION_OVERLAP_S = 86400"

datatype policy_ref = PolicyOf KeyPolicyRevision | PolicyNamed policy_id

fun policy_id_of :: "policy_ref \<Rightarrow> policy_id" where
  "policy_id_of (PolicyOf p) = kp_policy_id p"
| "policy_id_of (PolicyNamed p) = p"

definition validate_pepper :: "string \<Rightarrow> string \<Rightarrow> unit res" where
  "validate_pepper pepper pepper_version = checks
    [(length pepper < 32, ''client-key pepper must contain at least 256 bits''),
     (pepper_version = [], ''client-key pepper version is required'')] ()"

text \<open>The settings of the control plane a command uses, and what \<open>secrets.token_bytes\<close> returns to it.\<close>

record key_source =
  ks_mac :: mac
  ks_pepper :: string
  ks_pepper_version :: string
  ks_key_id_bytes :: string
  ks_secret :: string

definition new_material ::
    "key_source \<Rightarrow> string \<Rightarrow> int \<Rightarrow> int \<Rightarrow> int \<Rightarrow> (ClientVerifier \<times> string) res" where
  "new_material k key_id_bytes generation now_s expires_at_s =
    res_bind (compute_client_key_verifier (ks_mac k) (ks_pepper k) key_id_bytes (ks_secret k)) (\<lambda>verifier.
    res_bind (ClientVerifier_validate ClientCredential
      \<lparr>cv_kind = ClientCredential, cv_generation = generation, cv_digest_hex = hex_of verifier,
       cv_pepper_version = ks_pepper_version k, cv_not_before_s = now_s, cv_not_after_s = expires_at_s,
       cv_status = CV_ACTIVE\<rparr>) (\<lambda>v.
    res_map (\<lambda>text. (v, text)) (format_client_key key_id_bytes (ks_secret k))))"

definition issue_key ::
    "key_source \<Rightarrow> policy_ref \<Rightarrow> int option \<Rightarrow> int \<Rightarrow> KeyLifecycleState \<Rightarrow> IssuedOnce res" where
  "issue_key k policy expiry now_s initial_state =
    res_bind (validate_pepper (ks_pepper k) (ks_pepper_version k)) (\<lambda>_.
    let expires_at_s = (case expiry of None \<Rightarrow> now_s + DEFAULT_KEY_LIFETIME_S | Some e \<Rightarrow> e) in
    res_bind (checks
      [(expires_at_s \<le> now_s, ''client key expiry must be in the future''),
       (expires_at_s - now_s > MAX_KEY_LIFETIME_S, ''client key expiry cannot exceed 365 days'')] ()) (\<lambda>_.
    res_bind (new_material k (ks_key_id_bytes k) 1 now_s expires_at_s) (\<lambda>(verifier, value).
    res_map (\<lambda>r. issued_once r value) (ClientKeyRecord_validate
      \<lparr>ck_key_id = hex_of (ks_key_id_bytes k), ck_policy_id = policy_id_of policy, ck_state = initial_state,
       ck_issued_at_s = now_s, ck_expires_at_s = expires_at_s, ck_time_high_water_s = now_s,
       ck_generation_high_water = 1, ck_credential_verifiers = [verifier], ck_legacy_verifiers = []\<rparr>))))"

section \<open>Lifecycle commands\<close>

definition require_live_time :: "ClientKeyRecord \<Rightarrow> int \<Rightarrow> unit res" where
  "require_live_time r now_s = checks
    [(now_s < ck_time_high_water_s r, ''trusted clock high-water cannot move backward''),
     (now_s \<ge> ck_expires_at_s r, ''client key is expired and terminal'')] ()"

text \<open>Validation of a changed record, then of the change (the end of \<open>_transition\<close>, \<open>expire_key\<close> and
  \<open>rotate_key\<close>).\<close>

definition accept_candidate ::
    "ClientKeyRecord \<Rightarrow> ClientKeyRecord \<Rightarrow> PolicyReassignment option \<Rightarrow> ClientKeyRecord res" where
  "accept_candidate r candidate reassignment =
    res_bind (ClientKeyRecord_validate candidate) (\<lambda>c.
    res_map (\<lambda>_. c) (validate_key_record_delta r c reassignment))"

definition transition ::
    "ClientKeyRecord \<Rightarrow> int \<Rightarrow> KeyLifecycleState \<Rightarrow> ClientVerifier list option \<Rightarrow> ClientVerifier list option \<Rightarrow>
     policy_id option \<Rightarrow> PolicyReassignment option \<Rightarrow> ClientKeyRecord res" where
  "transition r now_s state credential_verifiers legacy_verifiers policy_id reassignment =
    accept_candidate r (r\<lparr>ck_state := state, ck_time_high_water_s := now_s,
      ck_credential_verifiers := (case credential_verifiers of None \<Rightarrow> ck_credential_verifiers r | Some vs \<Rightarrow> vs),
      ck_legacy_verifiers := (case legacy_verifiers of None \<Rightarrow> ck_legacy_verifiers r | Some vs \<Rightarrow> vs),
      ck_policy_id := (case policy_id of None \<Rightarrow> ck_policy_id r
        | Some p \<Rightarrow> if p = [] then ck_policy_id r else p)\<rparr>) reassignment"

definition not_revoked :: "ClientKeyRecord \<Rightarrow> unit res" where
  "not_revoked r = checks [(ck_state r = KS_REVOKED, ''revoked client key is terminal'')] ()"

text \<open>\<open>activate_key\<close>, \<open>suspend_key\<close> and \<open>resume_key\<close> differ in the event they look up.\<close>

definition event_key :: "string \<Rightarrow> ClientKeyRecord \<Rightarrow> int \<Rightarrow> ClientKeyRecord res" where
  "event_key event r now_s =
    res_bind (not_revoked r) (\<lambda>_.
    res_bind (require_live_time r now_s) (\<lambda>_.
    res_bind (key_transition (ck_state r) event) (\<lambda>state.
      transition r now_s state None None None None)))"

definition activate_key :: "ClientKeyRecord \<Rightarrow> int \<Rightarrow> ClientKeyRecord res" where
  "activate_key = event_key ''activate''"

definition suspend_key :: "ClientKeyRecord \<Rightarrow> int \<Rightarrow> ClientKeyRecord res" where
  "suspend_key = event_key ''suspend''"

definition resume_key :: "ClientKeyRecord \<Rightarrow> int \<Rightarrow> ClientKeyRecord res" where
  "resume_key = event_key ''resume''"

definition expire_verifiers :: "ClientVerifier list \<Rightarrow> int \<Rightarrow> ClientVerifier list" where
  "expire_verifiers verifiers expires_at_s = map (\<lambda>v.
     if cv_status v = CV_ACTIVE \<or> cv_status v = CV_RETIRING
     then v\<lparr>cv_status := CV_EXPIRED, cv_not_after_s := min (cv_not_after_s v) expires_at_s\<rparr> else v) verifiers"

definition retire_verifiers :: "ClientVerifier list \<Rightarrow> int \<Rightarrow> ClientVerifier list" where
  "retire_verifiers verifiers now_s = map (\<lambda>v.
     v\<lparr>cv_status := CV_RETIRED, cv_not_after_s := min (cv_not_after_s v) now_s\<rparr>) verifiers"

definition expire_key :: "ClientKeyRecord \<Rightarrow> int \<Rightarrow> ClientKeyRecord res" where
  "expire_key r now_s =
    res_bind (checks
      [(now_s < ck_time_high_water_s r, ''trusted clock high-water cannot move backward''),
       (now_s < ck_expires_at_s r, ''client key has not reached absolute expiry'')] ()) (\<lambda>_.
    if ck_time_high_water_s r \<ge> ck_expires_at_s r then Inr r
    else accept_candidate r (r\<lparr>ck_time_high_water_s := now_s,
      ck_credential_verifiers := expire_verifiers (ck_credential_verifiers r) (ck_expires_at_s r),
      ck_legacy_verifiers := expire_verifiers (ck_legacy_verifiers r) (ck_expires_at_s r)\<rparr>) None)"

definition revoke_key :: "ClientKeyRecord \<Rightarrow> int \<Rightarrow> ClientKeyRecord res" where
  "revoke_key r now_s =
    (if ck_state r = KS_REVOKED then Inr r
     else res_bind (require_live_time r now_s) (\<lambda>_.
          res_bind (key_transition (ck_state r) ''revoke'') (\<lambda>state.
            transition r now_s state (Some (retire_verifiers (ck_credential_verifiers r) now_s))
              (Some (retire_verifiers (ck_legacy_verifiers r) now_s)) None None)))"

definition rotate_key :: "key_source \<Rightarrow> ClientKeyRecord \<Rightarrow> int \<Rightarrow> int \<Rightarrow> IssuedOnce res" where
  "rotate_key k r now_s overlap_s =
    res_bind (validate_pepper (ks_pepper k) (ks_pepper_version k)) (\<lambda>_.
    res_bind (require_live_time r now_s) (\<lambda>_.
    res_bind (checks
      [(ck_state r = KS_REVOKED, ''revoked client key is terminal''),
       (\<not> (0 \<le> overlap_s \<and> overlap_s \<le> MAX_ROTATION_OVERLAP_S),
         ''credential overlap must be between zero and seven days'')] ()) (\<lambda>_.
    case find (\<lambda>v. cv_status v = CV_ACTIVE) (rev (key_verifiers r)) of
      None \<Rightarrow> Inl StopIteration
    | Some current \<Rightarrow>
        let retiring = current\<lparr>cv_status := (if overlap_s \<noteq> 0 then CV_RETIRING else CV_RETIRED),
              cv_not_after_s := min (ck_expires_at_s r) (now_s + overlap_s)\<rparr>;
            generation = ck_generation_high_water r + 1 in
        case fromhex (ck_key_id r) of
          None \<Rightarrow> Inl (ValueError ''non-hexadecimal number found in fromhex() arg'')
        | Some key_id_bytes \<Rightarrow>
            res_bind (new_material k key_id_bytes generation now_s (ck_expires_at_s r)) (\<lambda>(verifier, value).
            res_map (\<lambda>c. issued_once c value) (accept_candidate r (r\<lparr>ck_time_high_water_s := now_s,
              ck_generation_high_water := generation,
              ck_credential_verifiers := (if cv_kind retiring = ClientCredential then [retiring, verifier] else [verifier]),
              ck_legacy_verifiers := (if cv_kind retiring = LegacyClientCredential then [retiring] else [])\<rparr>) None)))))"

definition reassign_key_policy :: "ClientKeyRecord \<Rightarrow> PolicyReassignment \<Rightarrow> int \<Rightarrow> ClientKeyRecord res" where
  "reassign_key_policy r reassignment now_s =
    res_bind (require_live_time r now_s) (\<lambda>_.
    if expected_policy_id reassignment \<noteq> ck_policy_id r
    then Inl (ValueError ''policy reassignment expected policy does not match'')
    else transition r now_s (ck_state r) None None (Some (target_policy_id reassignment)) (Some reassignment))"

section \<open>Commands\<close>

datatype key_command =
    Activate | Suspend | Resume | Expire | Revoke | Rotate key_source int | Reassign PolicyReassignment

fun run_command :: "key_command \<Rightarrow> int \<Rightarrow> ClientKeyRecord \<Rightarrow> ClientKeyRecord res" where
  "run_command Activate now_s r = activate_key r now_s"
| "run_command Suspend now_s r = suspend_key r now_s"
| "run_command Resume now_s r = resume_key r now_s"
| "run_command Expire now_s r = expire_key r now_s"
| "run_command Revoke now_s r = revoke_key r now_s"
| "run_command (Rotate k overlap_s) now_s r = res_map io_record (rotate_key k r now_s overlap_s)"
| "run_command (Reassign p) now_s r = reassign_key_policy r p now_s"

text \<open>A history of commands: each either changes the record or raises and leaves it as it was.\<close>

fun run_commands :: "(key_command \<times> int) list \<Rightarrow> ClientKeyRecord \<Rightarrow> ClientKeyRecord" where
  "run_commands [] r = r"
| "run_commands ((c, now_s) # cs) r =
    run_commands cs (case run_command c now_s r of Inl _ \<Rightarrow> r | Inr r' \<Rightarrow> r')"

lemmas command_defs = activate_key_def suspend_key_def resume_key_def event_key_def expire_key_def
  revoke_key_def rotate_key_def reassign_key_policy_def transition_def

lemma accept_candidate_step: "accept_candidate r c p = Inr r' \<Longrightarrow> r' = c \<and> key_step r r'"
  by (auto simp: accept_candidate_def key_step_def checked dest: ClientKeyRecord_validate_same)

lemma command_step: "run_command c now_s r = Inr r' \<Longrightarrow> r' = r \<or> key_step r r'"
  by (cases c) (auto simp: command_defs checked issued_once_def Let_def
      split: if_split_asm option.split_asm dest!: accept_candidate_step)

lemma commands_history: "key_step\<^sup>*\<^sup>* r (run_commands cs r)"
proof (induction cs arbitrary: r)
  case (Cons c cs)
  obtain k now_s where c: "c = (k, now_s)" by (cases c)
  let ?r = "case run_command k now_s r of Inl _ \<Rightarrow> r | Inr r' \<Rightarrow> r'"
  have "key_step\<^sup>*\<^sup>* r ?r" using command_step [of k now_s r] by (auto split: sum.split)
  with Cons.IH [of ?r] c show ?case by (auto intro: rtranclp_trans)
qed simp

section \<open>When a change is accepted\<close>

definition verifier_ok :: "VerifierKind \<Rightarrow> ClientKeyRecord \<Rightarrow> ClientVerifier \<Rightarrow> bool" where
  "verifier_ok kind r v \<longleftrightarrow> is_ok (ClientVerifier_validate kind v) \<and>
     ck_issued_at_s r \<le> cv_not_before_s v \<and> cv_not_after_s v \<le> ck_expires_at_s r"

definition lifetime_ok :: "ClientKeyRecord \<Rightarrow> bool" where
  "lifetime_ok r \<longleftrightarrow> is_hex 32 (ck_key_id r) \<and> 0 < ck_issued_at_s r \<and> ck_issued_at_s r < ck_expires_at_s r \<and>
     ck_expires_at_s r - ck_issued_at_s r \<le> 365 * 86400 \<and> ck_issued_at_s r \<le> ck_time_high_water_s r"

definition generations_ok :: "ClientKeyRecord \<Rightarrow> bool" where
  "generations_ok r \<longleftrightarrow> 1 \<le> ck_generation_high_water r \<and> key_verifiers r \<noteq> [] \<and> length (key_verifiers r) \<le> 2 \<and>
     distinct (map cv_generation (key_verifiers r)) \<and>
     sorted (map cv_generation (ck_credential_verifiers r)) \<and> sorted (map cv_generation (ck_legacy_verifiers r)) \<and>
     Max (set (map cv_generation (key_verifiers r))) = ck_generation_high_water r"

definition statuses_ok :: "ClientKeyRecord \<Rightarrow> bool" where
  "statuses_ok r \<longleftrightarrow>
     (if key_terminal r then \<forall>v \<in> set (key_verifiers r). \<not> accepted_status (cv_status v)
      else map cv_generation (filter (\<lambda>v. cv_status v = CV_ACTIVE) (key_verifiers r)) = [ck_generation_high_water r])"

lemma sort_same_iff: "xs = sort xs \<longleftrightarrow> sorted (xs :: int list)"
  by (metis sorted_sort sorted_sort_id)

lemma one_active: "length xs = 1 \<and> map f (take 1 xs) = [n] \<longleftrightarrow> map f xs = [n]"
  by (cases xs rule: remdups_adj.cases) auto

lemma key_valid_iff:
  "key_valid r \<longleftrightarrow> lifetime_ok r \<and> generations_ok r \<and> statuses_ok r \<and>
     list_all (verifier_ok ClientCredential r) (ck_credential_verifiers r) \<and>
     list_all (verifier_ok LegacyClientCredential r) (ck_legacy_verifiers r)"
proof -
  have windows: "\<not> list_ex (\<lambda>v. cv_not_before_s v < ck_issued_at_s r \<or> cv_not_after_s v > ck_expires_at_s r) (key_verifiers r) \<and>
      list_all (\<lambda>v. is_ok (ClientVerifier_validate ClientCredential v)) (ck_credential_verifiers r) \<and>
      list_all (\<lambda>v. is_ok (ClientVerifier_validate LegacyClientCredential v)) (ck_legacy_verifiers r) \<longleftrightarrow>
      list_all (verifier_ok ClientCredential r) (ck_credential_verifiers r) \<and>
      list_all (verifier_ok LegacyClientCredential r) (ck_legacy_verifiers r)"
    by (auto simp: verifier_ok_def list_all_iff list_ex_iff key_verifiers_def not_less)
  have few: "length (filter (\<lambda>v. accepted_status (cv_status v)) (key_verifiers r)) \<le> 2" if "length (key_verifiers r) \<le> 2"
    using that length_filter_le [of "\<lambda>v. accepted_status (cv_status v)" "key_verifiers r"] by linarith
  have short: "length (ck_credential_verifiers r) \<le> 2 \<and> length (ck_legacy_verifiers r) \<le> 2" if "length (key_verifiers r) \<le> 2"
    using that by (simp add: key_verifiers_def)
  note active = one_active [of "filter (\<lambda>v. cv_status v = CV_ACTIVE) (key_verifiers r)" cv_generation
      "ck_generation_high_water r", symmetric]
  show ?thesis
    unfolding key_valid_def ClientKeyRecord_validate_def Let_def checks_Inr lifetime_ok_def generations_ok_def statuses_ok_def active
    using windows few short
    by (auto simp: sort_same_iff [symmetric] has_dup_iff filter_empty_conv)
qed

lemma existing_checks_same:
  assumes "key_valid r" "key_valid c" "key_verifiers c = map f (key_verifiers r)"
    and "\<And>v. v \<in> set (key_verifiers r) \<Longrightarrow> cv_generation (f v) = cv_generation v \<and> none_bad (validate_existing_verifier v (f v))"
  shows "none_bad (existing_verifier_checks r c)" "none_bad (new_verifier_checks r c)"
    "\<not> list_ex (\<lambda>g. \<not> dict_has (verifiers_by_generation r) g) (map fst (verifiers_by_generation c))"
proof -
  have found: "map_of (verifiers_by_generation r) (cv_generation (f v)) = Some v" if "v \<in> set (key_verifiers r)" for v
    using that assms(4) by (simp add: map_of_verifiers [OF assms(1)])
  then have has: "dict_has (verifiers_by_generation r) (cv_generation (f v))" if "v \<in> set (key_verifiers r)" for v
    using that by (metis dict_has_map_of option.distinct(1))
  have gens: "verifiers_by_generation c = map (\<lambda>v. (cv_generation (f v), f v)) (key_verifiers r)"
    by (simp add: verifiers_by_generation_eq [OF assms(2)] assms(3))
  show "none_bad (existing_verifier_checks r c)"
    using assms(4) found by (auto simp: existing_verifier_checks_def gens)
  show "none_bad (new_verifier_checks r c)"
    using has by (auto simp: new_verifier_checks_def gens)
  show "\<not> list_ex (\<lambda>g. \<not> dict_has (verifiers_by_generation r) g) (map fst (verifiers_by_generation c))"
    using has by (auto simp: gens list_ex_iff)
qed

text \<open>A candidate with the same credential generations, each kept or contracted, is accepted.\<close>

lemma candidate_accepted:
  assumes "key_valid r" "key_valid c" "\<not> key_terminal r"
    and "ck_key_id c = ck_key_id r" "ck_issued_at_s c = ck_issued_at_s r" "ck_expires_at_s c = ck_expires_at_s r"
    and "ck_generation_high_water c = ck_generation_high_water r" "ck_time_high_water_s r \<le> ck_time_high_water_s c"
    and "key_verifiers c = map f (key_verifiers r)"
    and "\<And>v. v \<in> set (key_verifiers r) \<Longrightarrow> cv_generation (f v) = cv_generation v \<and> none_bad (validate_existing_verifier v (f v))"
    and "none_bad (reassignment_checks r c p)" "none_bad (overlap_checks c)"
  shows "accept_candidate r c p = Inr c"
proof -
  have "none_bad (high_water_checks r c)"
    using existing_checks_same(3) [OF assms(1,2,9,10)] by (simp add: high_water_checks_def Let_def assms(7))
  then have "none_bad (live_delta_checks r c p)"
    using existing_checks_same(1,2) [OF assms(1,2,9,10)] assms(6-8,11,12) by (simp add: live_delta_checks_def)
  then show ?thesis
    using assms(1-5) by (simp add: accept_candidate_def validate_key_record_delta_def key_valid_def checked)
qed

section \<open>Records the control plane has made\<close>

text \<open>What issuance establishes and every command keeps: a credential starts no later than the trusted
  clock, the active one runs to the expiry of the key, none is expired before the key is terminal, and a
  retiring one ends within seven days of the start of its successor.\<close>

definition minted :: "ClientKeyRecord \<Rightarrow> bool" where
  "minted r \<longleftrightarrow> key_valid r \<and> (\<forall>v \<in> set (key_verifiers r). cv_not_before_s v \<le> ck_time_high_water_s r) \<and>
     (\<not> key_terminal r \<longrightarrow> (\<forall>v \<in> set (key_verifiers r).
        cv_status v \<noteq> CV_EXPIRED \<and> (cv_status v = CV_ACTIVE \<longrightarrow> cv_not_after_s v = ck_expires_at_s r))) \<and>
     none_bad (overlap_checks r)"

definition live_at :: "ClientKeyRecord \<Rightarrow> int \<Rightarrow> bool" where
  "live_at r now_s \<longleftrightarrow> ck_state r \<noteq> KS_REVOKED \<and> ck_time_high_water_s r \<le> now_s \<and> now_s < ck_expires_at_s r"

lemma live_not_terminal: "live_at r now_s \<Longrightarrow> \<not> key_terminal r"
  by (auto simp: live_at_def key_terminal_def)

lemma checks_ok: "none_bad cs \<Longrightarrow> checks cs v = Inr v"
  by (simp add: checks_Inr)

lemma live_time: "live_at r now_s \<Longrightarrow> require_live_time r now_s = Inr ()"
  by (simp add: require_live_time_def live_at_def checks_Inr)

lemma existing_same: "none_bad (validate_existing_verifier v v)"
  by (simp add: validate_existing_verifier_def allowed_credential_refl)

text \<open>The state, the clock and the policy of a live key may change without touching its credentials.\<close>

lemma restated_minted:
  assumes "minted r" "live_at r now_s" "state \<noteq> KS_REVOKED"
  shows "minted (r\<lparr>ck_state := state, ck_time_high_water_s := now_s, ck_policy_id := p\<rparr>)"
proof -
  let ?c = "r\<lparr>ck_state := state, ck_time_high_water_s := now_s, ck_policy_id := p\<rparr>"
  have vs: "key_verifiers ?c = key_verifiers r" by (simp add: key_verifiers_def)
  have time: "ck_time_high_water_s r \<le> now_s" "now_s < ck_expires_at_s r" using assms(2) by (auto simp: live_at_def)
  have live: "\<not> key_terminal ?c" "\<not> key_terminal r"
    using assms(3) time live_not_terminal [OF assms(2)] by (auto simp: key_terminal_def)
  have "verifier_ok k ?c = verifier_ok k r" for k by (simp add: fun_eq_iff verifier_ok_def)
  then have "key_valid ?c"
    using assms(1) time live
    by (auto simp: minted_def key_valid_iff lifetime_ok_def generations_ok_def statuses_ok_def vs)
  moreover have "overlap_checks ?c = overlap_checks r" unfolding overlap_checks_def vs ..
  ultimately show ?thesis using assms(1) time live by (fastforce simp: minted_def vs)
qed

lemma restated_accepted:
  assumes "minted r" "live_at r now_s" "state \<noteq> KS_REVOKED"
    and "none_bad (reassignment_checks r (r\<lparr>ck_state := state, ck_time_high_water_s := now_s, ck_policy_id := p\<rparr>) q)"
  shows "accept_candidate r (r\<lparr>ck_state := state, ck_time_high_water_s := now_s, ck_policy_id := p\<rparr>) q =
    Inr (r\<lparr>ck_state := state, ck_time_high_water_s := now_s, ck_policy_id := p\<rparr>)"
proof (rule candidate_accepted [where f = id])
  note new = restated_minted [OF assms(1-3), of p]
  show "key_valid r" "\<not> key_terminal r" using assms(1) live_not_terminal [OF assms(2)] by (auto simp: minted_def)
  show "key_valid (r\<lparr>ck_state := state, ck_time_high_water_s := now_s, ck_policy_id := p\<rparr>)"
    "none_bad (overlap_checks (r\<lparr>ck_state := state, ck_time_high_water_s := now_s, ck_policy_id := p\<rparr>))"
    using new by (auto simp: minted_def)
qed (use assms in \<open>auto simp: live_at_def key_verifiers_def existing_same\<close>)

lemma event_key_live:
  assumes "minted r" "live_at r now_s" "key_transition (ck_state r) event = Inr state" "state \<noteq> KS_REVOKED"
  shows "event_key event r now_s = Inr (r\<lparr>ck_state := state, ck_time_high_water_s := now_s\<rparr>)"
proof -
  have "ck_state r \<noteq> KS_REVOKED" using assms(2) by (simp add: live_at_def)
  then show ?thesis
    using restated_accepted [OF assms(1,2,4), of "ck_policy_id r" None] assms(3)
    by (simp add: event_key_def not_revoked_def transition_def live_time [OF assms(2)] reassignment_checks_def checks_ok)
qed

lemma reassign_live:
  assumes "minted r" "live_at r now_s" "expected_policy_id q = ck_policy_id r" "target_policy_id q \<noteq> []"
  shows "reassign_key_policy r q now_s =
    Inr (r\<lparr>ck_time_high_water_s := now_s, ck_policy_id := target_policy_id q\<rparr>)"
  using restated_accepted [OF assms(1,2), of "ck_state r" "target_policy_id q" "Some q"] assms(2-4)
  by (simp add: reassign_key_policy_def transition_def live_time [OF assms(2)] reassignment_checks_def live_at_def)

text \<open>A live key may end: every credential contracts to one that is no longer accepted.\<close>

definition ends :: "(ClientVerifier \<Rightarrow> ClientVerifier) \<Rightarrow> ClientVerifier \<Rightarrow> bool" where
  "ends f v \<longleftrightarrow> verifier_contracts v (f v) \<and> cv_not_before_s v \<le> cv_not_after_s (f v) \<and> \<not> accepted_status (cv_status (f v))"

lemma ends_ok: "verifier_ok k r v \<Longrightarrow> ends f v \<Longrightarrow> verifier_ok k r (f v)"
  by (auto simp: verifier_ok_def ends_def verifier_contracts_def ClientVerifier_validate_def is_ok_iff checked)

lemma ends_existing: "ends f v \<Longrightarrow> cv_generation (f v) = cv_generation v \<and> none_bad (validate_existing_verifier v (f v))"
  by (auto simp: ends_def verifier_contracts_def validate_existing_verifier_def)

lemma generations_same:
  assumes "map cv_generation (ck_credential_verifiers c) = map cv_generation (ck_credential_verifiers r)"
    "map cv_generation (ck_legacy_verifiers c) = map cv_generation (ck_legacy_verifiers r)"
    "ck_generation_high_water c = ck_generation_high_water r"
  shows "generations_ok c \<longleftrightarrow> generations_ok r"
proof -
  have same: "map cv_generation (key_verifiers c) = map cv_generation (key_verifiers r)"
    by (simp add: key_verifiers_def assms(1,2))
  moreover have "length (key_verifiers c) = length (key_verifiers r)" by (rule map_eq_imp_length_eq [OF same])
  moreover have "key_verifiers c = [] \<longleftrightarrow> key_verifiers r = []" using calculation(2) by auto
  ultimately show ?thesis by (simp only: generations_ok_def assms)
qed

lemma ended_minted:
  assumes "minted r" "\<forall>v \<in> set (key_verifiers r). ends f v"
    and "c = r\<lparr>ck_state := state, ck_time_high_water_s := now_s,
      ck_credential_verifiers := map f (ck_credential_verifiers r), ck_legacy_verifiers := map f (ck_legacy_verifiers r)\<rparr>"
    and "ck_time_high_water_s r \<le> now_s" "key_terminal c"
  shows "minted c"
proof -
  have c: "key_verifiers c = map f (key_verifiers r)" by (simp add: assms(3) key_verifiers_def)
  have gen: "cv_generation (f v) = cv_generation v" "cv_not_before_s (f v) = cv_not_before_s v"
    "\<not> accepted_status (cv_status (f v))" if "v \<in> set (key_verifiers r)" for v
    using assms(2) that by (auto simp: ends_def verifier_contracts_def)
  then have gens: "map cv_generation (map f (ck_credential_verifiers r)) = map cv_generation (ck_credential_verifiers r)"
    "map cv_generation (map f (ck_legacy_verifiers r)) = map cv_generation (ck_legacy_verifiers r)"
    by (auto simp: key_verifiers_def)
  have valid: "key_valid r" using assms(1) by (simp add: minted_def)
  have same: "verifier_ok k c = verifier_ok k r" for k by (simp add: fun_eq_iff verifier_ok_def assms(3))
  have "list_all (\<lambda>v. verifier_ok k r (f v)) vs" if "list_all (verifier_ok k r) vs" "set vs \<subseteq> set (key_verifiers r)" for k vs
    using that assms(2) ends_ok [of k r _ f] unfolding list_all_iff by blast
  then have "list_all (verifier_ok ClientCredential c) (ck_credential_verifiers c)"
    "list_all (verifier_ok LegacyClientCredential c) (ck_legacy_verifiers c)"
    unfolding same using valid by (simp_all add: assms(3) key_valid_iff list.pred_map comp_def key_verifiers_def)
  moreover have "generations_ok c"
    using valid generations_same [of c r] gens by (simp add: key_valid_iff assms(3) del: map_map)
  moreover have "lifetime_ok c" using valid assms(4) by (simp add: key_valid_iff lifetime_ok_def assms(3))
  moreover have "statuses_ok c" using gen(3) assms(5) by (simp add: statuses_ok_def c)
  ultimately have "key_valid c" by (simp add: key_valid_iff)
  moreover have "find (\<lambda>v. cv_status v = CV_ACTIVE) (key_verifiers c) = None"
    using gen(3) by (auto simp: find_None_iff c accepted_status_def)
  moreover have "ck_time_high_water_s c = now_s" by (simp add: assms(3))
  moreover have "\<forall>v \<in> set (key_verifiers r). cv_not_before_s (f v) \<le> now_s"
    using assms(1,4) gen(2) by (fastforce simp: minted_def)
  ultimately show ?thesis using assms(5) by (simp add: minted_def c overlap_checks_def)
qed

lemma ended_accepted:
  assumes "minted r" "\<not> key_terminal r" "\<forall>v \<in> set (key_verifiers r). ends f v"
    and "c = r\<lparr>ck_state := state, ck_time_high_water_s := now_s,
      ck_credential_verifiers := map f (ck_credential_verifiers r), ck_legacy_verifiers := map f (ck_legacy_verifiers r)\<rparr>"
    and "ck_time_high_water_s r \<le> now_s" "key_terminal c"
  shows "accept_candidate r c None = Inr c"
proof (rule candidate_accepted [where f = f])
  have "minted c" by (rule ended_minted [OF assms(1,3,4,5,6)])
  then show "key_valid c" "none_bad (overlap_checks c)" by (auto simp: minted_def)
  show "key_valid r" using assms(1) by (simp add: minted_def)
  show "cv_generation (f v) = cv_generation v \<and> none_bad (validate_existing_verifier v (f v))"
    if "v \<in> set (key_verifiers r)" for v using assms(3) that ends_existing by blast
qed (use assms(2,4,5) in \<open>auto simp: key_verifiers_def reassignment_checks_def\<close>)

lemma minted_window: "minted r \<Longrightarrow> v \<in> set (key_verifiers r) \<Longrightarrow>
    cv_not_before_s v \<le> cv_not_after_s v \<and> cv_not_before_s v \<le> ck_time_high_water_s r \<and> cv_not_after_s v \<le> ck_expires_at_s r"
  by (auto simp: minted_def key_valid_iff verifier_ok_def list_all_iff key_verifiers_def ClientVerifier_validate_def
      is_ok_iff checked)

lemma live_status: "minted r \<Longrightarrow> \<not> key_terminal r \<Longrightarrow> v \<in> set (key_verifiers r) \<Longrightarrow> cv_status v \<noteq> CV_EXPIRED"
  by (simp add: minted_def)

lemma revoke_live:
  assumes "minted r" "live_at r now_s"
  shows "revoke_key r now_s = Inr (r\<lparr>ck_state := KS_REVOKED, ck_time_high_water_s := now_s,
      ck_credential_verifiers := retire_verifiers (ck_credential_verifiers r) now_s,
      ck_legacy_verifiers := retire_verifiers (ck_legacy_verifiers r) now_s\<rparr>)" (is "_ = Inr ?c")
    and "minted (r\<lparr>ck_state := KS_REVOKED, ck_time_high_water_s := now_s,
      ck_credential_verifiers := retire_verifiers (ck_credential_verifiers r) now_s,
      ck_legacy_verifiers := retire_verifiers (ck_legacy_verifiers r) now_s\<rparr>)"
proof -
  let ?f = "\<lambda>v. v\<lparr>cv_status := CV_RETIRED, cv_not_after_s := min (cv_not_after_s v) now_s\<rparr>"
  have time: "ck_time_high_water_s r \<le> now_s" using assms(2) by (simp add: live_at_def)
  have "ends ?f v" if "v \<in> set (key_verifiers r)" for v
    using minted_window [OF assms(1) that] live_status [OF assms(1) live_not_terminal [OF assms(2)] that] time
    by (cases "cv_status v") (auto simp: ends_def verifier_contracts_def accepted_status_def)
  then have all: "\<forall>v \<in> set (key_verifiers r). ends ?f v" by blast
  have last: "key_terminal ?c" by (simp add: key_terminal_def)
  have "accept_candidate r ?c None = Inr ?c"
    by (rule ended_accepted [OF assms(1) live_not_terminal [OF assms(2)] all _ time last])
      (simp add: retire_verifiers_def)
  then show "revoke_key r now_s = Inr ?c"
    using assms(2) by (simp add: revoke_key_def live_time [OF assms(2)] key_transition_revoke transition_def live_at_def)
  show "minted ?c"
    by (rule ended_minted [OF assms(1) all _ time last]) (simp add: retire_verifiers_def)
qed

lemma expire_due:
  assumes "minted r" "\<not> key_terminal r" "ck_expires_at_s r \<le> now_s"
  shows "expire_key r now_s = Inr (r\<lparr>ck_time_high_water_s := now_s,
      ck_credential_verifiers := expire_verifiers (ck_credential_verifiers r) (ck_expires_at_s r),
      ck_legacy_verifiers := expire_verifiers (ck_legacy_verifiers r) (ck_expires_at_s r)\<rparr>)" (is "_ = Inr ?c")
    and "minted (r\<lparr>ck_time_high_water_s := now_s,
      ck_credential_verifiers := expire_verifiers (ck_credential_verifiers r) (ck_expires_at_s r),
      ck_legacy_verifiers := expire_verifiers (ck_legacy_verifiers r) (ck_expires_at_s r)\<rparr>)"
proof -
  let ?f = "\<lambda>v. if cv_status v = CV_ACTIVE \<or> cv_status v = CV_RETIRING
     then v\<lparr>cv_status := CV_EXPIRED, cv_not_after_s := min (cv_not_after_s v) (ck_expires_at_s r)\<rparr> else v"
  have time: "ck_time_high_water_s r < ck_expires_at_s r" "ck_time_high_water_s r \<le> now_s"
    using assms(2,3) by (auto simp: key_terminal_def)
  have "ends ?f v" if "v \<in> set (key_verifiers r)" for v
    using minted_window [OF assms(1) that] live_status [OF assms(1,2) that]
    by (cases "cv_status v") (auto simp: ends_def verifier_contracts_def accepted_status_def)
  then have all: "\<forall>v \<in> set (key_verifiers r). ends ?f v" by blast
  have last: "key_terminal ?c" using assms(3) by (simp add: key_terminal_def)
  have "accept_candidate r ?c None = Inr ?c"
    by (rule ended_accepted [OF assms(1,2) all, where state = "ck_state r", OF _ time(2) last])
      (simp add: expire_verifiers_def)
  then show "expire_key r now_s = Inr ?c"
    using time assms(3) by (simp add: expire_key_def checks_ok)
  show "minted ?c"
    by (rule ended_minted [OF assms(1) all, where state = "ck_state r", OF _ time(2) last]) (simp add: expire_verifiers_def)
qed

section \<open>Rotation\<close>

text \<open>HMAC-SHA256 returns 32 bytes.\<close>

definition mac32 :: "mac \<Rightarrow> bool" where
  "mac32 mac \<longleftrightarrow> (\<forall>key message. length (mac key message) = 32)"

definition source_ok :: "key_source \<Rightarrow> bool" where
  "source_ok k \<longleftrightarrow> mac32 (ks_mac k) \<and> length (ks_pepper k) \<ge> 32 \<and> is_pepper_version (ks_pepper_version k) \<and>
     length (ks_key_id_bytes k) = 16 \<and> length (ks_secret k) = 32"

definition material :: "key_source \<Rightarrow> string \<Rightarrow> int \<Rightarrow> int \<Rightarrow> int \<Rightarrow> ClientVerifier" where
  "material k key_id_bytes generation now_s expires_at_s =
    \<lparr>cv_kind = ClientCredential, cv_generation = generation,
     cv_digest_hex = hex_of (ks_mac k (ks_pepper k) (CLIENT_KEY_DOMAIN @ key_id_bytes @ ks_secret k)),
     cv_pepper_version = ks_pepper_version k, cv_not_before_s = now_s, cv_not_after_s = expires_at_s,
     cv_status = CV_ACTIVE\<rparr>"

definition key_text :: "string \<Rightarrow> string \<Rightarrow> string" where
  "key_text key_id_bytes secret = ''lmxk1.'' @ encode_b64 key_id_bytes @ ''.'' @ encode_b64 secret"

lemma length_hex_of: "length (hex_of bs) = 2 * length bs"
  by (induction bs) (simp_all add: hex_of_def)

lemma hex_of_chars: "list_all is_hex_char (hex_of bs)"
proof -
  have digit: "is_hex_char (hex_digit n)" if "n < 16" for n
  proof -
    have "HEX_DIGITS ! n \<in> set HEX_DIGITS" using that by (intro nth_mem) (simp add: HEX_DIGITS_def)
    then show ?thesis by (simp add: hex_digit_def is_hex_char_def HEX_DIGITS_def)
  qed
  have "(of_char b :: nat) div 16 < 16" for b :: char
    using nat_of_char_less_256 [of b] by (simp add: less_mult_imp_div_less)
  then show ?thesis by (induction bs) (simp_all add: hex_of_def digit)
qed

lemma is_hex_hex_of: "length bs = n \<Longrightarrow> is_hex (2 * n) (hex_of bs)"
  by (simp add: is_hex_def length_hex_of hex_of_chars)

lemma new_material_ok:
  assumes "source_ok k" "length key_id_bytes = 16" "1 \<le> generation" "0 < now_s" "now_s \<le> expires_at_s"
  shows "new_material k key_id_bytes generation now_s expires_at_s =
    Inr (material k key_id_bytes generation now_s expires_at_s, key_text key_id_bytes (ks_secret k))"
proof -
  have "is_hex 64 (cv_digest_hex (material k key_id_bytes generation now_s expires_at_s))"
    using is_hex_hex_of [of _ 32] assms(1) by (simp add: material_def source_ok_def mac32_def)
  then have "ClientVerifier_validate ClientCredential (material k key_id_bytes generation now_s expires_at_s) =
      Inr (material k key_id_bytes generation now_s expires_at_s)"
    using assms by (simp add: ClientVerifier_validate_def checks_Inr) (simp add: material_def source_ok_def)
  then show ?thesis
    using assms(1,2) by (simp add: new_material_def compute_client_key_verifier_def format_client_key_def material_def
        key_text_def source_ok_def)
qed

text \<open>The active credential of a live key, and the record that a rotation of it makes.\<close>

definition rotated :: "key_source \<Rightarrow> ClientKeyRecord \<Rightarrow> ClientVerifier \<Rightarrow> string \<Rightarrow> int \<Rightarrow> int \<Rightarrow> ClientKeyRecord" where
  "rotated k r current key_id_bytes now_s overlap_s =
    (let retiring = current\<lparr>cv_status := (if overlap_s \<noteq> 0 then CV_RETIRING else CV_RETIRED),
           cv_not_after_s := min (ck_expires_at_s r) (now_s + overlap_s)\<rparr>;
         verifier = material k key_id_bytes (ck_generation_high_water r + 1) now_s (ck_expires_at_s r) in
     r\<lparr>ck_time_high_water_s := now_s, ck_generation_high_water := ck_generation_high_water r + 1,
       ck_credential_verifiers := (if cv_kind current = ClientCredential then [retiring, verifier] else [verifier]),
       ck_legacy_verifiers := (if cv_kind current = LegacyClientCredential then [retiring] else [])\<rparr>)"

lemma live_active:
  assumes "key_valid r" "\<not> key_terminal r"
  obtains v where "find (\<lambda>v. cv_status v = CV_ACTIVE) (rev (key_verifiers r)) = Some v" "v \<in> set (key_verifiers r)"
    "cv_status v = CV_ACTIVE" "cv_generation v = ck_generation_high_water r"
    "\<And>w. w \<in> set (key_verifiers r) \<Longrightarrow> cv_status w = CV_ACTIVE \<Longrightarrow> w = v"
proof -
  have "map cv_generation (filter (\<lambda>v. cv_status v = CV_ACTIVE) (key_verifiers r)) = [ck_generation_high_water r]"
    using assms by (simp add: key_valid_iff statuses_ok_def)
  then obtain v where v: "filter (\<lambda>v. cv_status v = CV_ACTIVE) (key_verifiers r) = [v]" "cv_generation v = ck_generation_high_water r"
    by auto
  have mem: "w \<in> set (key_verifiers r) \<and> cv_status w = CV_ACTIVE \<longleftrightarrow> w = v" for w
    using arg_cong [OF v(1), of set] by auto
  obtain w where w: "find (\<lambda>v. cv_status v = CV_ACTIVE) (rev (key_verifiers r)) = Some w"
    using mem by (cases "find (\<lambda>v. cv_status v = CV_ACTIVE) (rev (key_verifiers r))") (auto simp: find_None_iff)
  then obtain i where i: "i < length (rev (key_verifiers r))" "cv_status (rev (key_verifiers r) ! i) = CV_ACTIVE" "w = rev (key_verifiers r) ! i"
    by (auto simp only: find_Some_iff)
  then have "w \<in> set (key_verifiers r) \<and> cv_status w = CV_ACTIVE" using nth_mem [OF i(1)] by simp
  with mem have "w = v" by simp
  with that [OF w] mem v(2) show ?thesis by blast
qed

lemma kind_of_verifier:
  "key_valid r \<Longrightarrow> v \<in> set (key_verifiers r) \<Longrightarrow> verifier_ok (cv_kind v) r v"
proof -
  have kind: "verifier_ok kind r v \<Longrightarrow> cv_kind v = kind" for kind
    by (simp add: verifier_ok_def ClientVerifier_validate_def is_ok_iff checked)
  assume "key_valid r" "v \<in> set (key_verifiers r)"
  then have "verifier_ok ClientCredential r v \<or> verifier_ok LegacyClientCredential r v"
    by (auto simp: key_valid_iff list_all_iff key_verifiers_def)
  with kind show "verifier_ok (cv_kind v) r v" by metis
qed

lemma rotated_verifiers:
  assumes "cv_kind current \<in> {ClientCredential, LegacyClientCredential}"
    and "ret = current\<lparr>cv_status := (if overlap_s \<noteq> 0 then CV_RETIRING else CV_RETIRED),
       cv_not_after_s := min (ck_expires_at_s r) (now_s + overlap_s)\<rparr>"
    and "new = material k kb (ck_generation_high_water r + 1) now_s (ck_expires_at_s r)"
  shows "key_verifiers (rotated k r current kb now_s overlap_s) = [ret, new] \<or>
    key_verifiers (rotated k r current kb now_s overlap_s) = [new, ret]"
  using assms by (cases "cv_kind current") (auto simp: rotated_def key_verifiers_def Let_def)

lemma rotated_fields:
  "ck_key_id (rotated k r current kb now_s overlap_s) = ck_key_id r"
  "ck_policy_id (rotated k r current kb now_s overlap_s) = ck_policy_id r"
  "ck_state (rotated k r current kb now_s overlap_s) = ck_state r"
  "ck_issued_at_s (rotated k r current kb now_s overlap_s) = ck_issued_at_s r"
  "ck_expires_at_s (rotated k r current kb now_s overlap_s) = ck_expires_at_s r"
  "ck_time_high_water_s (rotated k r current kb now_s overlap_s) = now_s"
  "ck_generation_high_water (rotated k r current kb now_s overlap_s) = ck_generation_high_water r + 1"
  by (simp_all add: rotated_def Let_def)

lemma material_fields:
  "cv_kind (material k kb g now_s e) = ClientCredential" "cv_generation (material k kb g now_s e) = g"
  "cv_not_before_s (material k kb g now_s e) = now_s" "cv_not_after_s (material k kb g now_s e) = e"
  "cv_status (material k kb g now_s e) = CV_ACTIVE" "cv_pepper_version (material k kb g now_s e) = ks_pepper_version k"
  by (simp_all add: material_def)

lemma material_ok:
  assumes "source_ok k" "0 < now_s" "1 \<le> g" "ck_issued_at_s r \<le> now_s" "now_s \<le> e" "e \<le> ck_expires_at_s r"
  shows "verifier_ok ClientCredential r (material k kb g now_s e)"
proof -
  have "is_hex 64 (cv_digest_hex (material k kb g now_s e))"
    using is_hex_hex_of [of _ 32] assms(1) by (simp add: material_def source_ok_def mac32_def)
  then show ?thesis
    using assms by (simp add: verifier_ok_def ClientVerifier_validate_def is_ok_iff checks_Inr material_fields source_ok_def)
qed

lemma rotated_minted:
  assumes "minted r" "live_at r now_s" "source_ok k" "0 \<le> overlap_s" "overlap_s \<le> MAX_ROTATION_OVERLAP_S"
    and "current \<in> set (key_verifiers r)" "cv_status current = CV_ACTIVE" "cv_generation current = ck_generation_high_water r"
  shows "minted (rotated k r current kb now_s overlap_s)"
proof -
  let ?c = "rotated k r current kb now_s overlap_s"
  define ret where "ret = current\<lparr>cv_status := (if overlap_s \<noteq> 0 then CV_RETIRING else CV_RETIRED),
      cv_not_after_s := min (ck_expires_at_s r) (now_s + overlap_s)\<rparr>"
  define new where "new = material k kb (ck_generation_high_water r + 1) now_s (ck_expires_at_s r)"
  have vs: "key_verifiers ?c = [ret, new] \<or> key_verifiers ?c = [new, ret]"
    using rotated_verifiers [OF _ ret_def new_def]
    by (cases "cv_kind current") auto
  have valid: "key_valid r" using assms(1) by (simp add: minted_def)
  have time: "ck_time_high_water_s r \<le> now_s" "now_s < ck_expires_at_s r" using assms(2) by (auto simp: live_at_def)
  have life: "lifetime_ok ?c" "0 < now_s" "ck_issued_at_s r \<le> now_s" "1 \<le> ck_generation_high_water r"
    using valid time by (auto simp: key_valid_iff lifetime_ok_def generations_ok_def rotated_fields)
  have ret: "cv_generation ret = ck_generation_high_water r" "cv_not_before_s ret \<le> now_s" "cv_status ret \<noteq> CV_ACTIVE"
    "cv_status ret \<noteq> CV_EXPIRED" "cv_not_after_s ret - now_s \<le> MAX_ROTATION_OVERLAP_S"
    using minted_window [OF assms(1,6)] time assms(5,8) by (auto simp: ret_def)
  have new: "cv_generation new = ck_generation_high_water r + 1" "cv_status new = CV_ACTIVE" "cv_not_before_s new = now_s"
    "cv_not_after_s new = ck_expires_at_s r"
    by (simp_all add: new_def material_fields)
  have live: "\<not> key_terminal ?c" using assms(2) by (auto simp: key_terminal_def rotated_fields live_at_def)
  have "verifier_ok (cv_kind current) ?c ret"
    using kind_of_verifier [OF valid assms(6)] minted_window [OF assms(1,6)] time assms(4)
    by (auto simp: verifier_ok_def ret_def ClientVerifier_validate_def is_ok_iff checks_Inr rotated_fields)
  moreover have "verifier_ok ClientCredential ?c new"
    unfolding new_def using assms(3) life time by (intro material_ok) (simp_all add: rotated_fields)
  ultimately have oks: "list_all (verifier_ok ClientCredential ?c) (ck_credential_verifiers ?c)"
      "list_all (verifier_ok LegacyClientCredential ?c) (ck_legacy_verifiers ?c)"
    by (auto simp: rotated_def Let_def ret_def new_def)
  have "generations_ok ?c"
    using vs ret(1) new(1) life(4)
    by (auto simp: generations_ok_def rotated_fields) (auto simp: rotated_def Let_def ret_def new_def)
  moreover have "statuses_ok ?c" using vs live ret new by (auto simp: statuses_ok_def rotated_fields)
  ultimately have "key_valid ?c" using life(1) oks by (simp add: key_valid_iff)
  moreover have "none_bad (overlap_checks ?c)" using vs ret new by (auto simp: overlap_checks_def)
  ultimately show ?thesis using vs live ret new by (auto simp: minted_def rotated_fields)
qed

lemma rotated_accepted:
  assumes "minted r" "live_at r now_s" "source_ok k" "0 \<le> overlap_s" "overlap_s \<le> MAX_ROTATION_OVERLAP_S"
    and "current \<in> set (key_verifiers r)" "cv_status current = CV_ACTIVE" "cv_generation current = ck_generation_high_water r"
  shows "accept_candidate r (rotated k r current kb now_s overlap_s) None = Inr (rotated k r current kb now_s overlap_s)"
proof -
  let ?c = "rotated k r current kb now_s overlap_s"
  define ret where "ret = current\<lparr>cv_status := (if overlap_s \<noteq> 0 then CV_RETIRING else CV_RETIRED),
      cv_not_after_s := min (ck_expires_at_s r) (now_s + overlap_s)\<rparr>"
  define new where "new = material k kb (ck_generation_high_water r + 1) now_s (ck_expires_at_s r)"
  have vs: "key_verifiers ?c = [ret, new] \<or> key_verifiers ?c = [new, ret]"
    using rotated_verifiers [OF _ ret_def new_def] by (cases "cv_kind current") auto
  have valid: "key_valid r" using assms(1) by (simp add: minted_def)
  have new: "key_valid ?c" "none_bad (overlap_checks ?c)" using rotated_minted [OF assms] by (auto simp: minted_def)
  have time: "ck_time_high_water_s r \<le> now_s" "\<not> key_terminal r"
    using assms(2) live_not_terminal by (auto simp: live_at_def)
  have gens: "cv_generation ret = ck_generation_high_water r" "cv_generation new = ck_generation_high_water r + 1"
    "cv_not_before_s new = now_s"
    using assms(8) by (simp_all add: ret_def new_def material_fields)
  have old: "map_of (verifiers_by_generation r) (ck_generation_high_water r) = Some current"
    using assms(6,8) by (simp add: map_of_verifiers [OF valid])
  then have known: "ck_generation_high_water r \<in> fst ` set (verifiers_by_generation r)" by (force dest: map_of_SomeD)
  have fresh: "map_of (verifiers_by_generation r) (ck_generation_high_water r + 1) = None"
    using generation_le_high_water [OF valid] by (force simp: map_of_eq_None_iff verifiers_by_generation_eq [OF valid])
  have "cv_not_after_s current = ck_expires_at_s r"
    using assms(1,6,7) time(2) by (auto simp: minted_def)
  then have "none_bad (validate_existing_verifier current ret)"
    using assms(7) by (simp add: validate_existing_verifier_def ret_def)
  then have "none_bad (existing_verifier_checks r ?c)"
    using vs gens(1,2) old fresh
    by (elim disjE) (simp_all add: existing_verifier_checks_def verifiers_by_generation_eq [OF new(1)])
  moreover have "none_bad (new_verifier_checks r ?c)" "none_bad (high_water_checks r ?c)"
    using vs gens known fresh time(1) unfolding map_of_eq_None_iff
    by (elim disjE; simp add: new_verifier_checks_def high_water_checks_def rotated_fields verifiers_by_generation_eq [OF new(1)])+
  ultimately have "none_bad (live_delta_checks r ?c None)"
    using new(2) time(1) by (simp add: live_delta_checks_def reassignment_checks_def rotated_fields)
  then show ?thesis
    using valid new(1) time(2)
    by (simp add: accept_candidate_def validate_key_record_delta_def key_valid_def checked rotated_fields)
qed

lemma key_id_bytes:
  assumes "key_valid r"
  obtains kb where "fromhex (ck_key_id r) = Some kb" "length kb = 16"
proof -
  have len: "length s = 2 * length bs" if "fromhex s = Some bs" for s bs
    using that by (induction s arbitrary: bs rule: fromhex.induct) (auto split: option.split_asm)
  have hex: "is_hex 32 (ck_key_id r)" using assms by (simp add: key_valid_iff lifetime_ok_def)
  then obtain kb where "fromhex (ck_key_id r) = Some kb" using fromhex_total [of "ck_key_id r"] by (auto simp: is_hex_def)
  with len [OF this] hex that show ?thesis by (auto simp: is_hex_def)
qed

lemma pepper_ok: "source_ok k \<Longrightarrow> validate_pepper (ks_pepper k) (ks_pepper_version k) = Inr ()"
  by (auto simp: source_ok_def validate_pepper_def is_pepper_version_def checks_Inr split: list.split_asm)

lemma rotate_live:
  assumes "minted r" "live_at r now_s" "source_ok k" "0 \<le> overlap_s" "overlap_s \<le> MAX_ROTATION_OVERLAP_S"
  obtains current kb where "current \<in> set (key_verifiers r)" "cv_status current = CV_ACTIVE"
    "cv_generation current = ck_generation_high_water r" "fromhex (ck_key_id r) = Some kb" "length kb = 16"
    "rotate_key k r now_s overlap_s = Inr (issued_once (rotated k r current kb now_s overlap_s) (key_text kb (ks_secret k)))"
    "minted (rotated k r current kb now_s overlap_s)"
proof -
  have valid: "key_valid r" using assms(1) by (simp add: minted_def)
  obtain current where cur: "find (\<lambda>v. cv_status v = CV_ACTIVE) (rev (key_verifiers r)) = Some current"
    "current \<in> set (key_verifiers r)" "cv_status current = CV_ACTIVE" "cv_generation current = ck_generation_high_water r"
    using live_active [OF valid live_not_terminal [OF assms(2)]] by metis
  obtain kb where kb: "fromhex (ck_key_id r) = Some kb" "length kb = 16" using key_id_bytes [OF valid] by blast
  have life: "0 < now_s" "now_s \<le> ck_expires_at_s r" "1 \<le> ck_generation_high_water r + 1" "ck_state r \<noteq> KS_REVOKED"
    using valid assms(2) by (auto simp: key_valid_iff lifetime_ok_def generations_ok_def live_at_def)
  note acc = rotated_accepted [OF assms cur(2-4), of kb]
  have "rotate_key k r now_s overlap_s = Inr (issued_once (rotated k r current kb now_s overlap_s) (key_text kb (ks_secret k)))"
    using acc [unfolded rotated_def Let_def] life(4) assms(4,5)
    by (simp add: rotate_key_def pepper_ok [OF assms(3)] live_time [OF assms(2)] checks_ok cur(1) kb(1) Let_def
        new_material_ok [OF assms(3) kb(2) life(3,1,2)] rotated_def)
  with that cur kb rotated_minted [OF assms cur(2-4)] show ?thesis by blast
qed

section \<open>Histories of commands\<close>

definition issued_record :: "key_source \<Rightarrow> policy_ref \<Rightarrow> int \<Rightarrow> int \<Rightarrow> KeyLifecycleState \<Rightarrow> ClientKeyRecord" where
  "issued_record k policy now_s expires_at_s state =
    \<lparr>ck_key_id = hex_of (ks_key_id_bytes k), ck_policy_id = policy_id_of policy, ck_state = state,
     ck_issued_at_s = now_s, ck_expires_at_s = expires_at_s, ck_time_high_water_s = now_s, ck_generation_high_water = 1,
     ck_credential_verifiers = [material k (ks_key_id_bytes k) 1 now_s expires_at_s], ck_legacy_verifiers = []\<rparr>"

lemma issue_key_minted:
  assumes "issue_key k policy expiry now_s state = Inr issued" "source_ok k"
  obtains e where "expiry = Some e \<or> e = now_s + DEFAULT_KEY_LIFETIME_S" "now_s < e"
    "issued = issued_once (issued_record k policy now_s e state) (key_text (ks_key_id_bytes k) (ks_secret k))"
    "minted (issued_record k policy now_s e state)"
proof -
  define e where "e = (case expiry of None \<Rightarrow> now_s + DEFAULT_KEY_LIFETIME_S | Some e \<Rightarrow> e)"
  obtain v shown r where parts: "new_material k (ks_key_id_bytes k) 1 now_s e = Inr (v, shown)"
    "ClientKeyRecord_validate \<lparr>ck_key_id = hex_of (ks_key_id_bytes k), ck_policy_id = policy_id_of policy, ck_state = state,
       ck_issued_at_s = now_s, ck_expires_at_s = e, ck_time_high_water_s = now_s, ck_generation_high_water = 1,
       ck_credential_verifiers = [v], ck_legacy_verifiers = []\<rparr> = Inr r" "issued = issued_once r shown" "now_s < e"
    using assms(1) by (auto simp: issue_key_def checked Let_def e_def)
  have "0 < now_s"
    using parts(2) ClientKeyRecord_validate_Inr [of _ r] by (auto simp: key_valid_iff lifetime_ok_def)
  then have "new_material k (ks_key_id_bytes k) 1 now_s e =
      Inr (material k (ks_key_id_bytes k) 1 now_s e, key_text (ks_key_id_bytes k) (ks_secret k))"
    using assms(2) parts(4) by (intro new_material_ok) (auto simp: source_ok_def)
  with parts have issued: "issued = issued_once (issued_record k policy now_s e state) (key_text (ks_key_id_bytes k) (ks_secret k))"
    and valid: "key_valid (issued_record k policy now_s e state)"
    by (auto simp: issued_record_def ClientKeyRecord_validate_Inr)
  have vs: "key_verifiers (issued_record k policy now_s e state) = [material k (ks_key_id_bytes k) 1 now_s e]"
    by (simp add: issued_record_def key_verifiers_def)
  have "minted (issued_record k policy now_s e state)"
    unfolding minted_def vs using valid
    by (simp add: material_fields overlap_checks_def vs) (simp add: issued_record_def)
  with that [of e] issued parts(4) show ?thesis by (auto simp: e_def split: option.split)
qed

lemma issue_live:
  assumes "source_ok k" "0 < now_s" "now_s < e" "e - now_s \<le> MAX_KEY_LIFETIME_S" "state \<noteq> KS_REVOKED"
  shows "issue_key k policy (Some e) now_s state =
    Inr (issued_once (issued_record k policy now_s e state) (key_text (ks_key_id_bytes k) (ks_secret k)))"
proof -
  let ?r = "issued_record k policy now_s e state" and ?v = "material k (ks_key_id_bytes k) 1 now_s e"
  have id: "is_hex 32 (hex_of (ks_key_id_bytes k))" using is_hex_hex_of [of _ 16] assms(1) by (simp add: source_ok_def)
  have vs: "key_verifiers ?r = [?v]" by (simp add: issued_record_def key_verifiers_def)
  have "verifier_ok ClientCredential ?r ?v" using assms by (intro material_ok) (simp_all add: issued_record_def)
  then have "key_valid ?r"
    using assms id
    by (simp add: key_valid_iff lifetime_ok_def generations_ok_def statuses_ok_def key_terminal_def vs material_fields)
      (simp add: issued_record_def material_fields MAX_KEY_LIFETIME_S_def)
  then show ?thesis
    using assms new_material_ok [of k "ks_key_id_bytes k" 1 now_s e]
    by (simp add: issue_key_def pepper_ok checks_ok key_valid_def issued_record_def source_ok_def)
qed

fun command_ok :: "key_command \<Rightarrow> bool" where
  "command_ok (Rotate k overlap_s) = source_ok k"
| "command_ok _ = True"

lemma require_live_Inr: "require_live_time r now_s = Inr u \<Longrightarrow> ck_state r \<noteq> KS_REVOKED \<Longrightarrow> live_at r now_s"
  by (auto simp: require_live_time_def live_at_def checked)

lemma event_minted:
  assumes "minted r" "\<not> key_terminal r" "event \<in> {''activate'', ''suspend'', ''resume''}" "event_key event r now_s = Inr r'"
  shows "minted r'"
proof -
  obtain s where s: "live_at r now_s" "key_transition (ck_state r) event = Inr s"
    using assms(4) require_live_Inr [of r now_s] by (auto simp: event_key_def not_revoked_def checked)
  then have "s \<noteq> KS_REVOKED"
    using assms(3) by (auto simp: key_transition_def KEY_TRANSITIONS_def split: option.split_asm if_split_asm)
  with event_key_live [OF assms(1) s] restated_minted [OF assms(1) s(1), of s "ck_policy_id r"] assms(4)
  show ?thesis by simp
qed

lemma command_minted:
  assumes "minted r" "command_ok c" "run_command c now_s r = Inr r'"
  shows "minted r'"
proof (cases "key_terminal r")
  case True
  with command_step [OF assms(3)] key_step_terminal assms(1) show ?thesis by auto
next
  case False
  then have state: "ck_state r \<noteq> KS_REVOKED" by (auto simp: key_terminal_def)
  show ?thesis
  proof (cases c)
    case (Rotate k overlap_s)
    then obtain i where i: "rotate_key k r now_s overlap_s = Inr i" "r' = io_record i"
      using assms(3) by (auto simp: checked)
    then have live: "live_at r now_s" "0 \<le> overlap_s" "overlap_s \<le> MAX_ROTATION_OVERLAP_S" "source_ok k"
      using require_live_Inr [OF _ state, of now_s] assms(2) Rotate by (auto simp: rotate_key_def checked)
    obtain cur kb where "rotate_key k r now_s overlap_s = Inr (issued_once (rotated k r cur kb now_s overlap_s) (key_text kb (ks_secret k)))"
      "minted (rotated k r cur kb now_s overlap_s)"
      using rotate_live [OF assms(1) live(1,4,2,3)] by metis
    with i show ?thesis by (auto simp: issued_once_def)
  next
    case Revoke
    then have "live_at r now_s" using assms(3) state require_live_Inr by (auto simp: revoke_key_def checked)
    from revoke_live [OF assms(1) this] assms(3) Revoke show ?thesis by simp
  next
    case Expire
    then have "ck_expires_at_s r \<le> now_s" using assms(3) by (auto simp: expire_key_def checked)
    from expire_due [OF assms(1) False this] assms(3) Expire show ?thesis by simp
  next
    case (Reassign q)
    then have live: "live_at r now_s" using assms(3) state require_live_Inr by (auto simp: reassign_key_policy_def checked)
    have "r' = r\<lparr>ck_state := ck_state r, ck_time_high_water_s := now_s,
        ck_policy_id := (if target_policy_id q = [] then ck_policy_id r else target_policy_id q)\<rparr>"
      using assms(3) Reassign
      by (auto simp: reassign_key_policy_def transition_def checked split: if_split_asm dest!: accept_candidate_step)
    with restated_minted [OF assms(1) live state] show ?thesis by simp
  qed (use event_minted [OF assms(1) False] assms(3) in \<open>auto simp: activate_key_def suspend_key_def resume_key_def\<close>)
qed

lemma commands_minted: "minted r \<Longrightarrow> list_all (\<lambda>(c, _). command_ok c) cs \<Longrightarrow> minted (run_commands cs r)"
proof (induction cs arbitrary: r)
  case (Cons c cs)
  obtain k now_s where c: "c = (k, now_s)" by (cases c)
  have "minted (case run_command k now_s r of Inl _ \<Rightarrow> r | Inr r' \<Rightarrow> r')"
    using Cons.prems c command_minted by (auto split: sum.split)
  with Cons c show ?case by simp
qed simp

section \<open>What the commands promise\<close>

text \<open>C28: A key the control plane has issued stays manageable. Whatever commands have run on it since, at
  whatever times, its record is valid; while it is not revoked and its clock has not reached the expiry,
  it can be revoked, which leaves no credential acceptable, it can be rotated with any overlap of up to
  seven days, and every other lifecycle event the table allows succeeds; once the clock reaches the expiry
  of a key that is not terminal yet, expiry succeeds and leaves no credential acceptable.\<close>

theorem issued_keys_stay_manageable:
  assumes "issue_key k policy expiry t state = Inr issued" "source_ok k"
    and "list_all (\<lambda>(c, _). command_ok c) cs" "r = run_commands cs (io_record issued)" "ck_time_high_water_s r \<le> now_s"
  shows "key_valid r \<and>
    (ck_state r \<noteq> KS_REVOKED \<and> now_s < ck_expires_at_s r \<longrightarrow>
       (\<exists>r'. revoke_key r now_s = Inr r' \<and> (\<forall>v \<in> set (key_verifiers r'). \<not> accepted_status (cv_status v))) \<and>
       (\<forall>k' overlap_s. source_ok k' \<and> 0 \<le> overlap_s \<and> overlap_s \<le> MAX_ROTATION_OVERLAP_S \<longrightarrow>
          is_ok (rotate_key k' r now_s overlap_s)) \<and>
       (\<forall>event s. key_transition (ck_state r) event = Inr s \<and> s \<noteq> KS_REVOKED \<longrightarrow> is_ok (event_key event r now_s))) \<and>
    (\<not> key_terminal r \<and> ck_expires_at_s r \<le> now_s \<longrightarrow>
       (\<exists>r'. expire_key r now_s = Inr r' \<and> (\<forall>v \<in> set (key_verifiers r'). \<not> accepted_status (cv_status v))))"
proof (intro conjI impI allI; (elim conjE)?)
  obtain e where "issued = issued_once (issued_record k policy t e state) (key_text (ks_key_id_bytes k) (ks_secret k))"
    "minted (issued_record k policy t e state)"
    using issue_key_minted [OF assms(1,2)] by metis
  then have minted: "minted r" using commands_minted [OF _ assms(3)] assms(4) by (simp add: issued_once_def)
  then show "key_valid r" by (simp add: minted_def)
  have ended: "\<forall>v \<in> set (key_verifiers c). \<not> accepted_status (cv_status v)" if "minted c" "key_terminal c" for c
    using that by (simp add: minted_def key_valid_iff statuses_ok_def)
  {
    assume "ck_state r \<noteq> KS_REVOKED" "now_s < ck_expires_at_s r"
    then have live: "live_at r now_s" using assms(5) by (simp add: live_at_def)
    show "\<exists>r'. revoke_key r now_s = Inr r' \<and> (\<forall>v \<in> set (key_verifiers r'). \<not> accepted_status (cv_status v))"
      using revoke_live [OF minted live] ended [OF revoke_live(2) [OF minted live]] by (simp add: key_terminal_def)
    show "is_ok (rotate_key k' r now_s overlap_s)"
      if "source_ok k'" "0 \<le> overlap_s" "overlap_s \<le> MAX_ROTATION_OVERLAP_S" for k' overlap_s
      using rotate_live [OF minted live that] by (metis is_ok.simps(2))
    show "is_ok (event_key event r now_s)" if "key_transition (ck_state r) event = Inr s" "s \<noteq> KS_REVOKED" for event s
      using event_key_live [OF minted live that] by simp
  }
  assume "\<not> key_terminal r" "ck_expires_at_s r \<le> now_s"
  from expire_due [OF minted this] ended [OF expire_due(2) [OF minted this]] this(2)
  show "\<exists>r'. expire_key r now_s = Inr r' \<and> (\<forall>v \<in> set (key_verifiers r'). \<not> accepted_status (cv_status v))"
    by (simp add: key_terminal_def)
qed


section \<open>The text of a key against the authentication view\<close>

lemma hex_of_fromhex: "fromhex s = Some bs \<Longrightarrow> hex_of bs = s"
proof (induction s arbitrary: bs rule: fromhex.induct)
  case (3 c d cs)
  obtain h l rest where parts: "hex_value c = Some h" "hex_value d = Some l" "fromhex cs = Some rest"
    "bs = char_of (16 * h + l) # rest"
    using 3(2) by (auto split: option.split_asm)
  have digit: "n < 16 \<and> hex_digit n = x" if "hex_value x = Some n" for n x
    using index_of_Some [OF that [unfolded hex_value_def]] by (simp add: hex_digit_def) (simp add: HEX_DIGITS_def)
  have "(of_char (char_of (16 * h + l) :: char) :: nat) = 16 * h + l"
    using digit [OF parts(1)] digit [OF parts(2)] by (simp add: of_char_of)
  moreover have "hex_of rest = cs" using 3(1) parts by simp
  ultimately show ?case
    using digit [OF parts(1)] digit [OF parts(2)] unfolding parts(4) by (simp add: hex_of_def)
qed (simp_all add: hex_of_def)

lemma material_works:
  assumes "source_ok k" "length kb = 16" "key_valid r" "material k kb g nb e \<in> set (ck_credential_verifiers r)"
    and "map_of (av_key_index view) (hex_of kb) = Some r" "key_is_live r view" "pepper_set_is_valid view"
    and "map_of (av_accepted_peppers view) (ks_pepper_version k) = Some (ks_pepper k)"
    and "nb \<le> av_trusted_now_s view" "av_trusted_now_s view < e"
  shows "\<exists>g. res_bind (parse_client_key (Header (key_text kb (ks_secret k))) []) (\<lambda>p. verify_client_key (ks_mac k) p view) =
    Inr (authenticated r g view)"
proof (rule issued_key_authenticates [where v = "material k kb g nb e"])
  let ?p = "\<lparr>pk_key_id = hex_of kb, pk_key_id_bytes = kb, pk_secret = ks_secret k\<rparr>"
  show "format_client_key kb (ks_secret k) = Inr (key_text kb (ks_secret k))"
    using assms(1,2) by (simp add: format_client_key_def source_ok_def key_text_def)
  show "proves (ks_mac k) ?p view r (material k kb g nb e)"
    using assms(6,8-10)
    by (auto simp: proves_def credential_is_accepted_def material_fields accepted_status_def key_is_live_def fst_image_map_of)
      (simp add: material_def fromhex_hex_of)
  show "is_ok (ClientKeyRecord_validate r)" using assms(3) by (simp add: key_valid_def)
qed (use assms in simp_all)

text \<open>C26: The text of a key that was just issued is revealed once, and works. The first reveal returns it,
  every later one raises; presented as the only credential of a request it authenticates as the issued
  record in every view that holds the record, accepts the pepper it was made with and does not deny the
  key, from the moment of issuance until the expiry.\<close>

theorem issued_key_works_until_expiry:
  assumes "issue_key k policy expiry now_s KS_ENABLED = Inr issued" "source_ok k"
    and "map_of (av_key_index view) (hex_of (ks_key_id_bytes k)) = Some (io_record issued)"
    and "pepper_set_is_valid view" "map_of (av_accepted_peppers view) (ks_pepper_version k) = Some (ks_pepper k)"
    and "ck_key_id (io_record issued) \<notin> set (av_denied_key_ids view)"
    and "now_s \<le> av_trusted_now_s view" "av_trusted_now_s view < ck_expires_at_s (io_record issued)"
  shows "\<exists>rv issued' g. reveal_once issued = (Inr rv, issued') \<and>
    fst (reveal_once issued') = Inl (RuntimeError ''client key was already revealed'') \<and>
    res_bind (parse_client_key (Header (rv_value rv)) []) (\<lambda>p. verify_client_key (ks_mac k) p view) =
      Inr (authenticated (io_record issued) g view)"
proof -
  obtain e where e: "issued = issued_once (issued_record k policy now_s e KS_ENABLED) (key_text (ks_key_id_bytes k) (ks_secret k))"
    "minted (issued_record k policy now_s e KS_ENABLED)"
    using issue_key_minted [OF assms(1,2)] by metis
  let ?r = "issued_record k policy now_s e KS_ENABLED"
  have r: "io_record issued = ?r" by (simp add: e issued_once_def)
  have "ck_expires_at_s ?r = e" "material k (ks_key_id_bytes k) 1 now_s e \<in> set (ck_credential_verifiers ?r)"
    by (simp_all add: issued_record_def)
  moreover have "key_is_live ?r view" using assms(6,8) r by (simp add: key_is_live_def issued_record_def)
  ultimately obtain g where "res_bind (parse_client_key (Header (key_text (ks_key_id_bytes k) (ks_secret k))) [])
      (\<lambda>p. verify_client_key (ks_mac k) p view) = Inr (authenticated ?r g view)"
    using material_works [of k "ks_key_id_bytes k" ?r 1 now_s e view] assms e(2) r by (auto simp: minted_def source_ok_def)
  then show ?thesis by (auto simp: reveal_once_def e(1) issued_once_def)
qed

lemma active_unique:
  assumes "key_valid r" "\<not> key_terminal r" "v \<in> set (key_verifiers r)" "cv_status v = CV_ACTIVE"
    "w \<in> set (key_verifiers r)" "cv_status w = CV_ACTIVE"
  shows "v = w"
  using live_active [OF assms(1,2)] assms(3-6) by metis

text \<open>The retiring credential of a rotation, and the key texts that prove it.\<close>

definition retired_credential :: "ClientKeyRecord \<Rightarrow> ClientVerifier \<Rightarrow> int \<Rightarrow> int \<Rightarrow> ClientVerifier" where
  "retired_credential r current now_s overlap_s = current\<lparr>cv_status := (if overlap_s \<noteq> 0 then CV_RETIRING else CV_RETIRED),
     cv_not_after_s := min (ck_expires_at_s r) (now_s + overlap_s)\<rparr>"

lemma rotated_member:
  "v \<in> set (key_verifiers (rotated k r current kb now_s overlap_s)) \<longleftrightarrow>
     v = retired_credential r current now_s overlap_s \<or> v = material k kb (ck_generation_high_water r + 1) now_s (ck_expires_at_s r)"
  by (cases "cv_kind current") (auto simp: rotated_def key_verifiers_def Let_def retired_credential_def)

lemma retired_works:
  assumes "key_valid (rotated k r current kb now_s overlap_s)" "cv_kind current = ClientCredential"
    and "proves mac parsed view r current" "pk_key_id parsed = ck_key_id r"
    and "length (pk_key_id_bytes parsed) = 16" "length (pk_secret parsed) = 32"
    and "now_s \<le> av_trusted_now_s view" "av_trusted_now_s view < now_s + overlap_s"
    and "map_of (av_key_index view) (ck_key_id r) = Some (rotated k r current kb now_s overlap_s)"
    and "key_is_live (rotated k r current kb now_s overlap_s) view" "pepper_set_is_valid view"
  shows "\<exists>g. verify_client_key mac (ParsedCanonical parsed) view = Inr (authenticated (rotated k r current kb now_s overlap_s) g view)"
proof -
  let ?c = "rotated k r current kb now_s overlap_s" and ?v = "retired_credential r current now_s overlap_s"
  have "av_trusted_now_s view < ck_expires_at_s r" using assms(10) by (simp add: key_is_live_def rotated_fields)
  then have "proves mac parsed view ?c ?v"
    using assms(3,7,8)
    by (auto simp: proves_def credential_is_accepted_def accepted_status_def retired_credential_def rotated_fields Let_def)
  moreover have "?v \<in> set (ck_credential_verifiers ?c)"
    using assms(2) by (simp add: rotated_def Let_def retired_credential_def)
  moreover have "is_ok (ClientKeyRecord_validate ?c)" using assms(1) by (simp add: key_valid_def)
  ultimately show ?thesis
    using canonical_key_accepted [of view parsed ?c ?v mac] assms(4-6,9-11) by (simp add: verify_client_key_def)
qed

text \<open>C27: A rotation hands over from the old credential to the new one. In a view that holds the rotated
  record, the newly revealed text authenticates at once; a key text that the active credential accepted
  before keeps authenticating while the overlap lasts; and whoever authenticates as this key does so with
  the new generation, or with the one before it and strictly before the overlap and the lifetime end.\<close>

theorem rotation_hands_over:
  assumes "minted r" "live_at r now_s" "source_ok k"
    and "rotate_key k r now_s overlap_s = Inr issued" "r' = io_record issued"
    and "map_of (av_key_index view) (ck_key_id r) = Some r'" "index_keyed (av_key_index view)" "key_is_live r' view"
    and "pepper_set_is_valid view" "map_of (av_accepted_peppers view) (ks_pepper_version k) = Some (ks_pepper k)"
    and "now_s \<le> av_trusted_now_s view"
  shows "(\<exists>rv g. fst (reveal_once issued) = Inr rv \<and>
      res_bind (parse_client_key (Header (rv_value rv)) []) (\<lambda>p. verify_client_key (ks_mac k) p view) =
        Inr (authenticated r' g view)) \<and>
    (\<forall>parsed v. v \<in> set (ck_credential_verifiers r) \<and> cv_status v = CV_ACTIVE \<and> proves mac parsed view r v \<and>
      pk_key_id parsed = ck_key_id r \<and> length (pk_key_id_bytes parsed) = 16 \<and> length (pk_secret parsed) = 32 \<and>
      av_trusted_now_s view < now_s + overlap_s \<longrightarrow>
        (\<exists>g. verify_client_key mac (ParsedCanonical parsed) view = Inr (authenticated r' g view))) \<and>
    (\<forall>parsed client. verify_client_key mac parsed view = Inr client \<and> cl_key_id client = ck_key_id r \<longrightarrow>
      cl_accepted_credential_generation client = ck_generation_high_water r + 1 \<or>
      cl_accepted_credential_generation client = ck_generation_high_water r \<and>
      av_trusted_now_s view < min (ck_expires_at_s r) (now_s + overlap_s))"
proof -
  have valid: "key_valid r" "\<not> key_terminal r" using assms(1) live_not_terminal [OF assms(2)] by (auto simp: minted_def)
  have "0 \<le> overlap_s" "overlap_s \<le> MAX_ROTATION_OVERLAP_S" using assms(4) by (auto simp: rotate_key_def checked)
  then obtain cur kb where cur: "cur \<in> set (key_verifiers r)" "cv_status cur = CV_ACTIVE" "cv_generation cur = ck_generation_high_water r"
    and kb: "fromhex (ck_key_id r) = Some kb" "length kb = 16"
    and rot: "rotate_key k r now_s overlap_s = Inr (issued_once (rotated k r cur kb now_s overlap_s) (key_text kb (ks_secret k)))"
    and new: "minted (rotated k r cur kb now_s overlap_s)"
    using rotate_live [OF assms(1-3)] by metis
  have r': "r' = rotated k r cur kb now_s overlap_s" "issued = issued_once r' (key_text kb (ks_secret k))"
    using rot assms(4,5) by (auto simp: issued_once_def)
  have valid': "key_valid r'" and t: "av_trusted_now_s view < ck_expires_at_s r"
    using new r'(1) assms(8) by (auto simp: minted_def key_is_live_def rotated_fields)
  let ?m = "material k kb (ck_generation_high_water r + 1) now_s (ck_expires_at_s r)"
  have "?m \<in> set (ck_credential_verifiers r')" by (simp add: r'(1) rotated_def Let_def)
  then obtain g where "res_bind (parse_client_key (Header (key_text kb (ks_secret k))) [])
      (\<lambda>p. verify_client_key (ks_mac k) p view) = Inr (authenticated r' g view)"
    using material_works [OF assms(3) kb(2) valid' _ _ assms(8-11) t] assms(6) hex_of_fromhex [OF kb(1)] by auto
  then have shown: "\<exists>rv g. fst (reveal_once issued) = Inr rv \<and>
      res_bind (parse_client_key (Header (rv_value rv)) []) (\<lambda>p. verify_client_key (ks_mac k) p view) =
        Inr (authenticated r' g view)"
    by (auto simp: reveal_once_def r'(2) issued_once_def)
  have kept: "\<exists>g. verify_client_key mac (ParsedCanonical parsed) view = Inr (authenticated r' g view)"
    if "v \<in> set (ck_credential_verifiers r)" "cv_status v = CV_ACTIVE" "proves mac parsed view r v" "pk_key_id parsed = ck_key_id r"
      "length (pk_key_id_bytes parsed) = 16" "length (pk_secret parsed) = 32" "av_trusted_now_s view < now_s + overlap_s" for parsed v
  proof -
    have "v = cur" using active_unique [OF valid _ that(2) cur(1,2)] that(1) by (simp add: key_verifiers_def)
    moreover have "cv_kind v = ClientCredential"
      using valid(1) that(1) by (auto simp: key_valid_iff list_all_iff verifier_ok_def ClientVerifier_validate_def is_ok_iff checked)
    ultimately show ?thesis
      using retired_works [of k r cur kb now_s overlap_s mac parsed view] that valid' assms(6,8,9,11) r'(1) by simp
  qed
  have gens: "cl_accepted_credential_generation client = ck_generation_high_water r + 1 \<or>
      cl_accepted_credential_generation client = ck_generation_high_water r \<and>
      av_trusted_now_s view < min (ck_expires_at_s r) (now_s + overlap_s)"
    if got: "verify_client_key mac parsed view = Inr client" "cl_key_id client = ck_key_id r" for parsed client
  proof -
    obtain i s v where s: "map_of (av_key_index view) i = Some s" "client = authenticated s (cv_generation v) view"
      "v \<in> set (key_verifiers s)" "credential_is_accepted v s view"
      using verify_client_key_Inr [OF got(1)] by blast
    have "ck_key_id s = i" by (rule index_keyedD [OF assms(7) s(1)])
    with s(1,2) got(2) assms(6) have "s = r'" by (simp add: authenticated_def)
    with s r'(1) cur(3) show ?thesis
      by (auto simp: rotated_member authenticated_def material_fields retired_credential_def credential_is_accepted_def Let_def)
  qed
  show ?thesis using shown kept gens by blast
qed

text \<open>C29: Revocation is final. Once a revocation of a key has succeeded, no later command changes its
  record, and in no view that holds the record does any presented credential authenticate as the key, nor
  does work of the key that was admitted before pass its recheck.\<close>

theorem revocation_is_final:
  assumes "minted r" "revoke_key r now_s = Inr r'"
    and "map_of (av_key_index view) (ck_key_id r) = Some (run_commands cs r')" "index_keyed (av_key_index view)"
  shows "run_commands cs r' = r' \<and>
    (\<forall>parsed client. cl_key_id client = ck_key_id r \<longrightarrow>
       verify_client_key mac parsed view \<noteq> Inr client \<and> \<not> queued_identity_is_authorized client view)"
proof -
  have revoked: "ck_state r' = KS_REVOKED"
  proof (cases "ck_state r = KS_REVOKED")
    case False
    then have "live_at r now_s" using assms(2) require_live_Inr [of r now_s] by (auto simp: revoke_key_def checked)
    from revoke_live(1) [OF assms(1) this] assms(2) show ?thesis by auto
  qed (use assms(2) in \<open>simp add: revoke_key_def\<close>)
  then have "key_terminal r'" by (simp add: key_terminal_def)
  have "x = r'" if "key_step\<^sup>*\<^sup>* r' x" for x
    using that by (induction rule: rtranclp_induct) (auto dest: key_step_terminal [OF _ \<open>key_terminal r'\<close>])
  then have frozen: "run_commands cs r' = r'" using commands_history by blast
  have "verify_client_key mac parsed view \<noteq> Inr client" if id: "cl_key_id client = ck_key_id r" for parsed client
  proof
    assume "verify_client_key mac parsed view = Inr client"
    from verify_client_key_Inr [OF this] obtain i s v where s: "map_of (av_key_index view) i = Some s" "key_is_live s view"
      "client = authenticated s (cv_generation v) view" "v \<in> set (key_verifiers s)" by blast
    have "ck_key_id s = i" by (rule index_keyedD [OF assms(4) s(1)])
    with s id assms(3) have "s = r'" by (simp add: authenticated_def frozen)
    with s(2) revoked show False by (simp add: key_is_live_def)
  qed
  moreover have "\<not> queued_identity_is_authorized client view" if "cl_key_id client = ck_key_id r" for client
    using assms(3) that revoked by (simp add: queued_identity_is_authorized_def frozen key_is_live_def)
  ultimately show ?thesis using frozen by blast
qed

section \<open>Witnesses\<close>

definition sample_source :: key_source where
  "sample_source = \<lparr>ks_mac = sample_mac, ks_pepper = replicate 32 CHR ''p'', ks_pepper_version = ''p1'',
     ks_key_id_bytes = replicate 16 (CHR 0x00), ks_secret = replicate 32 CHR ''s''\<rparr>"

definition sample_record :: ClientKeyRecord where
  "sample_record = issued_record sample_source (PolicyNamed ''pol_1'') 100 100000 KS_ENABLED"

definition sample_issued :: IssuedOnce where
  "sample_issued = issued_once sample_record (key_text (ks_key_id_bytes sample_source) (ks_secret sample_source))"

lemma sample_source_ok: "source_ok sample_source"
proof -
  have "is_pepper_version ''p1''" by code_simp
  then show ?thesis by (simp add: source_ok_def sample_source_def mac32_def sample_mac_def)
qed

lemma sample_issue: "issue_key sample_source (PolicyNamed ''pol_1'') (Some 100000) 100 KS_ENABLED = Inr sample_issued"
  unfolding sample_issued_def sample_record_def
  by (rule issue_live [OF sample_source_ok]) (simp_all add: MAX_KEY_LIFETIME_S_def)

lemma sample_fields:
  "io_record sample_issued = sample_record" "ck_key_id sample_record = hex_of (ks_key_id_bytes sample_source)"
  "ck_state sample_record = KS_ENABLED" "ck_expires_at_s sample_record = 100000" "ck_time_high_water_s sample_record = 100"
  by (simp_all add: sample_issued_def sample_record_def issued_once_def issued_record_def)

lemma sample_minted: "minted sample_record"
  using issue_key_minted [OF sample_issue sample_source_ok]
  by (metis IssuedOnce.ext_inject issued_once_def sample_issued_def)

lemma sample_live: "live_at sample_record 300"
  by (simp add: live_at_def sample_fields)

definition sample_history :: "(key_command \<times> int) list" where
  "sample_history = [(Suspend, 200), (Resume, 300), (Activate, 400)]"

lemma sample_suspended: "run_command Suspend 200 sample_record =
    Inr (sample_record\<lparr>ck_state := KS_SUSPENDED, ck_time_high_water_s := 200\<rparr>)"
  using event_key_live [OF sample_minted, of 200 "''suspend''" KS_SUSPENDED]
  by (simp add: suspend_key_def live_at_def sample_fields key_transition_def KEY_TRANSITIONS_def)

theorem issued_keys_stay_manageable_witness:
  "\<exists>r'. revoke_key (run_commands [(Suspend, 200)] sample_record) 500 = Inr r' \<and>
     (\<forall>v \<in> set (key_verifiers r'). \<not> accepted_status (cv_status v))"
  using issued_keys_stay_manageable [OF sample_issue sample_source_ok _ refl, of "[(Suspend, 200)]" 500]
  by (simp add: sample_fields sample_suspended del: run_command.simps)

definition issued_view :: "ClientKeyRecord \<Rightarrow> int \<Rightarrow> AuthRuntimeView" where
  "issued_view r now_s = sample_view\<lparr>av_key_index := [(ck_key_id r, r)], av_trusted_now_s := now_s\<rparr>"

lemma issued_view_facts:
  "pepper_set_is_valid (issued_view r now_s)" "index_keyed (av_key_index (issued_view r now_s))"
  "map_of (av_accepted_peppers (issued_view r now_s)) (ks_pepper_version sample_source) = Some (ks_pepper sample_source)"
  "map_of (av_key_index (issued_view r now_s)) (ck_key_id r) = Some r" "av_trusted_now_s (issued_view r now_s) = now_s"
  "av_denied_key_ids (issued_view r now_s) = []"
  by (simp_all add: issued_view_def sample_view_def pepper_set_is_valid_def index_keyed_def sample_source_def)

theorem issued_key_works_until_expiry_witness:
  "\<exists>rv issued' g. reveal_once sample_issued = (Inr rv, issued') \<and>
    fst (reveal_once issued') = Inl (RuntimeError ''client key was already revealed'') \<and>
    res_bind (parse_client_key (Header (rv_value rv)) [])
      (\<lambda>p. verify_client_key (ks_mac sample_source) p (issued_view sample_record 99999)) =
      Inr (authenticated sample_record g (issued_view sample_record 99999))"
  using issued_key_works_until_expiry [OF sample_issue sample_source_ok, of "issued_view sample_record 99999"]
    issued_view_facts [of sample_record 99999]
  by (simp add: sample_fields)

definition sample_rotated :: IssuedOnce where
  "sample_rotated = projr (rotate_key sample_source sample_record 300 50)"

lemma sample_rotation:
  "rotate_key sample_source sample_record 300 50 = Inr sample_rotated"
  "ck_key_id (io_record sample_rotated) = ck_key_id sample_record" "ck_state (io_record sample_rotated) = KS_ENABLED"
  "ck_expires_at_s (io_record sample_rotated) = 100000"
proof -
  have "(0 :: int) \<le> 50" "50 \<le> MAX_ROTATION_OVERLAP_S" by (simp_all add: MAX_ROTATION_OVERLAP_S_def)
  from rotate_live [OF sample_minted sample_live sample_source_ok this] obtain cur kb where
    rot: "rotate_key sample_source sample_record 300 50 =
      Inr (issued_once (rotated sample_source sample_record cur kb 300 50) (key_text kb (ks_secret sample_source)))" by metis
  then show "rotate_key sample_source sample_record 300 50 = Inr sample_rotated" by (simp add: sample_rotated_def)
  have "io_record sample_rotated = rotated sample_source sample_record cur kb 300 50"
    by (simp add: sample_rotated_def rot issued_once_def)
  then show "ck_key_id (io_record sample_rotated) = ck_key_id sample_record" "ck_state (io_record sample_rotated) = KS_ENABLED"
    "ck_expires_at_s (io_record sample_rotated) = 100000" by (simp_all add: rotated_fields sample_fields)
qed

theorem rotation_hands_over_witness:
  "\<exists>rv g. fst (reveal_once sample_rotated) = Inr rv \<and>
      res_bind (parse_client_key (Header (rv_value rv)) [])
        (\<lambda>p. verify_client_key (ks_mac sample_source) p (issued_view (io_record sample_rotated) 320)) =
        Inr (authenticated (io_record sample_rotated) g (issued_view (io_record sample_rotated) 320))"
proof -
  let ?view = "issued_view (io_record sample_rotated) 320"
  note view = issued_view_facts [of "io_record sample_rotated" 320]
  have "key_is_live (io_record sample_rotated) ?view" by (simp add: key_is_live_def sample_rotation view)
  with view show ?thesis
    using rotation_hands_over [OF sample_minted sample_live sample_source_ok sample_rotation(1) refl, of ?view]
    by (simp add: sample_rotation)
qed

definition sample_dead :: ClientKeyRecord where
  "sample_dead = projr (revoke_key sample_record 300)"

theorem revocation_is_final_witness: "run_commands sample_history sample_dead = sample_dead"
proof -
  have revoked: "revoke_key sample_record 300 = Inr sample_dead" "ck_key_id sample_dead = ck_key_id sample_record"
    using revoke_live(1) [OF sample_minted sample_live] by (simp_all add: sample_dead_def)
  let ?x = "run_commands sample_history sample_dead"
  have "ck_key_id ?x = ck_key_id sample_record"
    using key_history_monotone [OF commands_history, of sample_dead sample_history] revoked(2) by simp
  then show ?thesis
    using revocation_is_final [OF sample_minted revoked(1), of "issued_view ?x 400" sample_history sample_mac]
      issued_view_facts [of ?x 400] by simp
qed

end
