(* ===== verification/Canonical.thy ===== *)
theory Canonical
  imports Bundle Journal_Values "HOL-Library.Multiset"
begin

text \<open>
  Canonical JSON and content hashes (\<open>core/canonical.py\<close>): \<open>_serialize\<close> (RFC 8785), \<open>_sort_collections\<close>,
  \<open>canonical_bundle_bytes\<close>, \<open>content_hash\<close> and \<open>bundle_hash\<close>. Strings have code points below 256, so
  sorting keys by their UTF-16 code units is sorting by code point; a \<open>JFloat\<close> carries its text. SHA-256 in
  hexadecimal is the argument \<open>sha\<close>; the dump of a bundle to JSON, which Pydantic does, is the argument
  \<open>dump\<close>. The text of an object
  does not depend on the order of its keys (\<open>serialize_key_order\<close>).
\<close>

section \<open>Serialization\<close>

definition MAX_SAFE_INTEGER :: int where
  "MAX_SAFE_INTEGER = 2 ^ 53 - 1"

definition utf8_char :: "char \<Rightarrow> string" where
  "utf8_char c = (let n = (of_char c :: nat) in
     if n < 128 then [c] else [char_of (192 + n div 64), char_of (128 + n mod 64)])"

text \<open>\<open>json.dumps(value, ensure_ascii=False).encode()\<close>: only quotes, backslashes and control characters are
  escaped.\<close>

definition escape_raw :: "char \<Rightarrow> string" where
  "escape_raw c = (if c = CHR 0x22 \<or> c = CHR 0x5C \<or> (of_char c :: nat) < 32 then escape_char c else utf8_char c)"

definition raw_string :: "string \<Rightarrow> string" where
  "raw_string s = [CHR 0x22] @ concat (map escape_raw s) @ [CHR 0x22]"

primrec res_all :: "'a res list \<Rightarrow> 'a list res" where
  "res_all [] = Inr []"
| "res_all (r # rs) = res_bind r (\<lambda>x. res_map ((#) x) (res_all rs))"

primrec serialize :: "JsonValue \<Rightarrow> string res" where
  "serialize JNull = Inr ''null''"
| "serialize (JBool b) = Inr (if b then ''true'' else ''false'')"
| "serialize (JStr s) = Inr (raw_string s)"
| "serialize (JInt i) =
    (if \<not> (- MAX_SAFE_INTEGER \<le> i \<and> i \<le> MAX_SAFE_INTEGER)
     then Inl (ValueError ''integer exceeds the ECMAScript safe integer range'') else Inr (json_int i))"
| "serialize (JFloat s) = Inr s"
| "serialize (JList xs) = res_map (\<lambda>ts. ''['' @ comma_join ts @ '']'') (res_all (map serialize xs))"
| "serialize (JObj kvs) = res_map (\<lambda>ts. ''{'' @ comma_join ts @ ''}'')
     (res_all (map (\<lambda>(k, r). res_map (\<lambda>t. raw_string k @ '':'' @ t) r)
        (sort_key fst (map (map_prod id serialize) kvs))))"

definition canonical_json_bytes :: "JsonValue \<Rightarrow> string res" where
  "canonical_json_bytes = serialize"

section \<open>Bundles\<close>

definition leg_order :: "JsonValue \<Rightarrow> (int \<times> string) res" where
  "leg_order leg =
    (case leg of
       JObj kvs \<Rightarrow>
         (case (map_of kvs ''order'', map_of kvs ''leg_id'') of
            (Some (JInt i), Some (JStr s)) \<Rightarrow> Inr (i, s)
          | (Some _, Some _) \<Rightarrow> Inl (TypeError ''unorderable leg'')
          | _ \<Rightarrow> Inl KeyError)
     | _ \<Rightarrow> Inl (TypeError ''leg is not an object''))"

text \<open>\<open>sorted(items, key=...)\<close> with a key that may raise.\<close>

definition sort_by :: "('a \<Rightarrow> ('k :: linorder) res) \<Rightarrow> 'a list \<Rightarrow> 'a list res" where
  "sort_by key xs = res_map (\<lambda>ks. map snd (sort_key fst (zip ks xs))) (res_all (map key xs))"

primrec sort_collections :: "JsonValue \<Rightarrow> string option \<Rightarrow> JsonValue res" where
  "sort_collections JNull = (\<lambda>field_name. Inr JNull)"
| "sort_collections (JBool b) = (\<lambda>field_name. Inr (JBool b))"
| "sort_collections (JInt i) = (\<lambda>field_name. Inr (JInt i))"
| "sort_collections (JFloat s) = (\<lambda>field_name. Inr (JFloat s))"
| "sort_collections (JStr s) = (\<lambda>field_name. Inr (JStr s))"
| "sort_collections (JObj kvs) = (\<lambda>field_name.
     res_map JObj (res_all (map (\<lambda>(k, f). res_map (Pair k) (f (Some k))) (map (map_prod id sort_collections) kvs))))"
| "sort_collections (JList xs) = (\<lambda>field_name.
     res_bind (res_all (map (\<lambda>f. f None) (map sort_collections xs))) (\<lambda>normalized.
       if field_name = Some ''legs'' then res_map JList (sort_by leg_order normalized)
       else res_map JList (sort_by serialize normalized)))"

definition canonical_bundle_bytes :: "(PolicyBundleV1 \<Rightarrow> JsonValue) \<Rightarrow> PolicyBundleV1 \<Rightarrow> string res" where
  "canonical_bundle_bytes dump bundle =
    res_bind (PolicyBundleV1_validate bundle) (\<lambda>validated.
    res_bind (sort_collections (dump validated) None) canonical_json_bytes)"

definition BUNDLE_DOMAIN :: string where
  "BUNDLE_DOMAIN = ''llmmaxxing.bundle.v1'' @ [CHR 0x00]"

definition content_hash :: "(string \<Rightarrow> string) \<Rightarrow> string \<Rightarrow> string \<Rightarrow> string res" where
  "content_hash sha payload domain =
    (if domain = [] \<or> last domain \<noteq> CHR 0x00
     then Inl (ValueError ''hash domain must be NUL-terminated for unambiguous framing'')
     else Inr (sha (domain @ payload)))"

text \<open>\<open>BundleHash.from_digest(content_hash(payload))\<close>; a SHA-256 digest always has the form the id asks for.\<close>

definition bundle_hash :: "(string \<Rightarrow> string) \<Rightarrow> string \<Rightarrow> string" where
  "bundle_hash sha payload = ''bh_'' @ sha (BUNDLE_DOMAIN @ payload)"

lemma bundle_hash_content: "content_hash sha payload BUNDLE_DOMAIN = Inr (drop 3 (bundle_hash sha payload))"
  by (simp add: content_hash_def bundle_hash_def BUNDLE_DOMAIN_def)

section \<open>Order does not matter\<close>

lemma sort_key_perm_distinct:
  assumes "mset xs = mset ys" "distinct (map f xs)"
  shows "sort_key f xs = sort_key f ys"
proof (rule map_sorted_distinct_set_unique [of f])
  show "inj_on f (set (sort_key f xs) \<union> set (sort_key f ys))"
    using assms by (simp add: distinct_map mset_eq_setD [OF assms(1)])
  show "distinct (map f (sort_key f xs))" "distinct (map f (sort_key f ys))"
    using assms by (simp_all add: distinct_map mset_eq_setD [OF assms(1)] mset_eq_imp_distinct_iff [OF assms(1)])
  show "set (sort_key f xs) = set (sort_key f ys)" using mset_eq_setD [OF assms(1)] by simp
qed simp_all

lemma serialize_key_order:
  assumes "mset kvs = mset kvs'" "distinct (map fst kvs)"
  shows "serialize (JObj kvs) = serialize (JObj kvs')"
proof -
  have "sort_key fst (map (map_prod id serialize) kvs) = sort_key fst (map (map_prod id serialize) kvs')"
    using assms by (intro sort_key_perm_distinct) (simp_all add: comp_def)
  then show ?thesis by simp
qed

end
