(* ===== verification/Wire.thy ===== *)
theory Wire
  imports Canonical Key_Material
begin

text \<open>
  The authenticated contract between control plane and gateway (\<open>core/wire.py\<close>, with the typed identifiers
  of \<open>core/ids.py\<close>): references, signed activations, commands, acknowledgements, fence receipts, their
  canonical bytes, their seals and every check of \<open>authenticate_gateway_command\<close>, \<open>verify_gateway_ack\<close> and
  \<open>verify_fence_receipt\<close>.

  Ed25519, SHA-256 and the reading of a JSON document into a model, which are not code of this
  repository, are fields of the record \<open>codec\<close>. A command carries its payload as the model that
  \<open>model_validate\<close> reads from it, or as \<open>OtherPayload\<close> when none fits.
\<close>

section \<open>Typed identifiers\<close>

text \<open>\<open>_UUID4_PATTERN\<close>: positions of the dashes, the version digit and the variant digit.\<close>

definition uuid4_char :: "nat \<Rightarrow> char \<Rightarrow> bool" where
  "uuid4_char i c = (if i \<in> {8, 13, 18, 23} then c = CHR ''-'' else if i = 14 then c = CHR ''4''
     else if i = 19 then c \<in> set ''89ab'' else is_hex_char c)"

definition is_uuid4 :: "string \<Rightarrow> bool" where
  "is_uuid4 s \<longleftrightarrow> length s = 36 \<and> list_all (\<lambda>(i, c). uuid4_char i c) (zip [0..<36] s)"

definition uuid_id :: "string \<Rightarrow> string \<Rightarrow> bool" where
  "uuid_id prefix s \<longleftrightarrow> take (length prefix) s = prefix \<and> is_uuid4 (drop (length prefix) s)"

definition digest_id :: "string \<Rightarrow> string \<Rightarrow> bool" where
  "digest_id prefix s \<longleftrightarrow> take (length prefix) s = prefix \<and> is_hex 64 (drop (length prefix) s)"

section \<open>References and signed activations\<close>

type_synonym command_id = string
type_synonym installation_id = string
type_synonym boot_id = string
type_synonym ack_id = string
type_synonym lease_id = string
type_synonym public_key = string
type_synonym private_key = string

text \<open>\<open>BaseReference\<close> and \<open>BundleReference\<close> have the same two fields and the same text.\<close>

record BundleReference =
  br_generation :: int
  br_bundle_hash :: string

type_synonym BaseReference = BundleReference

definition BundleReference_validate :: "BundleReference \<Rightarrow> BundleReference res" where
  "BundleReference_validate ref = checks
    [(\<not> br_generation ref \<ge> 1, ''generation: ge''),
     (\<not> digest_id ''bh_'' (br_bundle_hash ref), ''bundle_hash: pattern'')] ref"

definition reference_json :: "BundleReference \<Rightarrow> JsonValue" where
  "reference_json ref = JObj [(''generation'', JInt (br_generation ref)), (''bundle_hash'', JStr (br_bundle_hash ref))]"

definition opt_json :: "('a \<Rightarrow> JsonValue) \<Rightarrow> 'a option \<Rightarrow> JsonValue" where
  "opt_json f x = (case x of None \<Rightarrow> JNull | Some y \<Rightarrow> f y)"

definition GENESIS_BASE_GENERATION :: int where
  "GENESIS_BASE_GENERATION = 0"

definition GENESIS_BASE_BUNDLE_HASH :: string where
  "GENESIS_BASE_BUNDLE_HASH = ''bh_'' @ ZERO_DIGEST"

record ActivationEnvelope =
  ae_trust_epoch :: int
  ae_signer_key_id :: string
  ae_base_generation :: int
  ae_base_bundle_hash :: string
  ae_target_generation :: int
  ae_target_content_hash :: string
  ae_source_fingerprint :: string
  ae_security_fence :: string
  ae_key_set_fence :: string
  ae_impact_hash :: string

definition ActivationEnvelope_validate :: "ActivationEnvelope \<Rightarrow> ActivationEnvelope res" where
  "ActivationEnvelope_validate e = checks
    [(\<not> ae_trust_epoch e \<ge> 1, ''trust_epoch: ge''),
     (\<not> is_pepper_version (ae_signer_key_id e), ''signer_key_id: pattern''),
     (\<not> ae_base_generation e \<ge> 0, ''base_generation: ge''),
     (\<not> digest_id ''bh_'' (ae_base_bundle_hash e), ''base_bundle_hash: pattern''),
     (\<not> ae_target_generation e \<ge> 1, ''target_generation: ge''),
     (\<not> digest_id ''bh_'' (ae_target_content_hash e), ''target_content_hash: pattern''),
     (\<not> is_hex 64 (ae_source_fingerprint e), ''source_fingerprint: pattern''),
     (\<not> is_hex 64 (ae_security_fence e), ''security_fence: pattern''),
     (\<not> is_hex 64 (ae_key_set_fence e), ''key_set_fence: pattern''),
     (\<not> is_hex 64 (ae_impact_hash e), ''impact_hash: pattern''),
     ((ae_base_generation e = GENESIS_BASE_GENERATION) \<noteq> (ae_base_bundle_hash e = GENESIS_BASE_BUNDLE_HASH),
       ''genesis requires the exact absent-base sentinel pair'')] e"

definition envelope_base :: "ActivationEnvelope \<Rightarrow> BaseReference option" where
  "envelope_base e =
    (if ae_base_generation e = GENESIS_BASE_GENERATION then None
     else Some \<lparr>br_generation = ae_base_generation e, br_bundle_hash = ae_base_bundle_hash e\<rparr>)"

definition envelope_target :: "ActivationEnvelope \<Rightarrow> BundleReference" where
  "envelope_target e = \<lparr>br_generation = ae_target_generation e, br_bundle_hash = ae_target_content_hash e\<rparr>"

definition envelope_json :: "ActivationEnvelope \<Rightarrow> JsonValue" where
  "envelope_json e = JObj
    [(''schema_version'', JInt 1), (''trust_epoch'', JInt (ae_trust_epoch e)), (''signer_key_id'', JStr (ae_signer_key_id e)),
     (''base_generation'', JInt (ae_base_generation e)), (''base_bundle_hash'', JStr (ae_base_bundle_hash e)),
     (''target_generation'', JInt (ae_target_generation e)), (''target_content_hash'', JStr (ae_target_content_hash e)),
     (''source_fingerprint'', JStr (ae_source_fingerprint e)), (''security_fence'', JStr (ae_security_fence e)),
     (''key_set_fence'', JStr (ae_key_set_fence e)), (''impact_hash'', JStr (ae_impact_hash e))]"

record SignedActivationV1 =
  sa_payload_b64 :: string
  sa_signature :: string
  sa_trust_epoch :: int
  sa_signer_key_id :: string

text \<open>\<open>base64.b64decode(value, validate=True)\<close>: the standard alphabet, in groups of four, padded.\<close>

definition b64_strip :: "string \<Rightarrow> string" where
  "b64_strip s = (if length s \<ge> 2 \<and> drop (length s - 2) s = ''=='' then take (length s - 2) s
     else if length s \<ge> 1 \<and> last s = CHR ''='' then take (length s - 1) s else s)"

definition b64decode_std :: "string \<Rightarrow> string option" where
  "b64decode_std s =
    (let body = b64_strip s in
     if length s mod 4 = 0 \<and> list_all (\<lambda>c. c \<notin> set ''-_'' \<and> b64_value c \<noteq> None) body
     then map_option (map char_of) (decode_sextets (map (\<lambda>c. the (b64_value c)) body)) else None)"

definition payload_bytes :: "SignedActivationV1 \<Rightarrow> string res" where
  "payload_bytes p = (case b64decode_std (sa_payload_b64 p) of
     None \<Rightarrow> Inl (SignatureVerificationError ''invalid policy payload encoding'') | Some bs \<Rightarrow> Inr bs)"

record codec =
  cd_sha :: "string \<Rightarrow> string"
  cd_verify :: "public_key \<Rightarrow> string \<Rightarrow> string \<Rightarrow> bool"
  cd_sign :: "private_key \<Rightarrow> string \<Rightarrow> string"
  cd_envelope :: "string \<Rightarrow> ActivationEnvelope option"
  cd_bundle :: "string \<Rightarrow> PolicyBundleV1 option"
  cd_bundle_json :: "PolicyBundleV1 \<Rightarrow> JsonValue"

definition parse_activation :: "codec \<Rightarrow> SignedActivationV1 \<Rightarrow> ActivationEnvelope res" where
  "parse_activation C policy =
    res_bind (payload_bytes policy) (\<lambda>payload.
    case cd_envelope C payload of
      None \<Rightarrow> Inl (SignatureVerificationError ''invalid activation payload'')
    | Some decoded \<Rightarrow>
      (case ActivationEnvelope_validate decoded of
         Inl _ \<Rightarrow> Inl (SignatureVerificationError ''invalid activation payload'')
       | Inr envelope \<Rightarrow>
         res_bind (canonical_json_bytes (envelope_json envelope)) (\<lambda>bytes.
         if bytes \<noteq> payload then Inl (SignatureVerificationError ''activation payload is not canonical JSON'')
         else if sa_trust_epoch policy \<noteq> ae_trust_epoch envelope then Inl UnknownTrustEpoch
         else if sa_signer_key_id policy \<noteq> ae_signer_key_id envelope then Inl UnknownSigningKey
         else Inr envelope)))"

type_synonym policy_keys = "(int, (string, public_key) dict) dict"

definition verify_signed_activation :: "codec \<Rightarrow> SignedActivationV1 \<Rightarrow> policy_keys \<Rightarrow> ActivationEnvelope res" where
  "verify_signed_activation C policy keys =
    res_bind (parse_activation C policy) (\<lambda>envelope.
    case map_of keys (ae_trust_epoch envelope) of
      None \<Rightarrow> Inl UnknownTrustEpoch
    | Some epoch \<Rightarrow>
      (case map_of epoch (ae_signer_key_id envelope) of
         None \<Rightarrow> Inl UnknownSigningKey
       | Some key \<Rightarrow>
         res_bind (payload_bytes policy) (\<lambda>payload.
         case fromhex (sa_signature policy) of
           None \<Rightarrow> Inl (SignatureVerificationError ''invalid activation signature'')
         | Some signature \<Rightarrow>
             if cd_verify C key signature payload then Inr envelope
             else Inl (SignatureVerificationError ''invalid activation signature''))))"

section \<open>Commands\<close>

record ChannelSealV1 =
  cs_seal_id :: string
  cs_trust_epoch :: int
  cs_signature :: string

datatype WireCommandKind = WC_PREPARE | WC_COMMIT | WC_DENY | WC_CLEAR_DENY | WC_STATUS

datatype DenySubjectType = DS_ROUTE_GROUP | DS_ACCOUNT | DS_LEG

datatype DenyReason = DR_EMERGENCY | DR_MAINTENANCE | DR_COMPROMISE | DR_ROLLBACK_HOLD

fun subject_value :: "DenySubjectType \<Rightarrow> string" where
  "subject_value DS_ROUTE_GROUP = ''route_group''"
| "subject_value DS_ACCOUNT = ''account''"
| "subject_value DS_LEG = ''leg''"

fun reason_value :: "DenyReason \<Rightarrow> string" where
  "reason_value DR_EMERGENCY = ''emergency''"
| "reason_value DR_MAINTENANCE = ''maintenance''"
| "reason_value DR_COMPROMISE = ''compromise''"
| "reason_value DR_ROLLBACK_HOLD = ''rollback_hold''"

fun kind_value :: "WireCommandKind \<Rightarrow> string" where
  "kind_value WC_PREPARE = ''prepare''"
| "kind_value WC_COMMIT = ''commit''"
| "kind_value WC_DENY = ''deny''"
| "kind_value WC_CLEAR_DENY = ''clear_deny''"
| "kind_value WC_STATUS = ''status''"

record PrepareCommandPayload =
  pp_base :: "BaseReference option"
  pp_target :: BundleReference
  pp_bundle_b64 :: string

definition MAX_B64_BUNDLE :: nat where
  "MAX_B64_BUNDLE = ((16 * 1024 * 1024 + 2) div 3) * 4"

definition PrepareCommandPayload_validate :: "PrepareCommandPayload \<Rightarrow> PrepareCommandPayload res" where
  "PrepareCommandPayload_validate p = checks
    [(case pp_base p of None \<Rightarrow> False | Some b \<Rightarrow> \<not> is_ok (BundleReference_validate b), ''base''),
     (\<not> is_ok (BundleReference_validate (pp_target p)), ''target''),
     (pp_bundle_b64 p = [] \<or> length (pp_bundle_b64 p) > MAX_B64_BUNDLE, ''bundle_b64: length'')] p"

definition bundle_bytes :: "PrepareCommandPayload \<Rightarrow> string res" where
  "bundle_bytes p = (case b64decode_std (pp_bundle_b64 p) of
     None \<Rightarrow> Inl (ValueError ''bundle is not canonical base64'') | Some bs \<Rightarrow> Inr bs)"

record DenyCommandPayload =
  dp_subject_type :: DenySubjectType
  dp_subject_id :: string
  dp_deny_epoch :: int
  dp_reason :: DenyReason
  dp_deny_floor_generation :: "int option"

fun subject_id_ok :: "DenySubjectType \<Rightarrow> string \<Rightarrow> bool" where
  "subject_id_ok DS_ROUTE_GROUP s = uuid_id ''rg_'' s"
| "subject_id_ok DS_ACCOUNT s = uuid_id ''acc_'' s"
| "subject_id_ok DS_LEG s = uuid_id ''leg_'' s"

definition DenyCommandPayload_validate :: "DenyCommandPayload \<Rightarrow> DenyCommandPayload res" where
  "DenyCommandPayload_validate p = checks
    [(dp_subject_id p = [] \<or> length (dp_subject_id p) > 180, ''subject_id: length''),
     (\<not> dp_deny_epoch p \<ge> 1, ''deny_epoch: ge''),
     (case dp_deny_floor_generation p of None \<Rightarrow> False | Some g \<Rightarrow> \<not> g \<ge> 1, ''deny_floor_generation: ge''),
     (\<not> subject_id_ok (dp_subject_type p) (dp_subject_id p), ''subject_id is not a valid id'')] p"

record ClearDenyCommandPayload =
  cp_subject_type :: DenySubjectType
  cp_subject_id :: string
  cp_deny_epoch :: int

definition ClearDenyCommandPayload_validate :: "ClearDenyCommandPayload \<Rightarrow> ClearDenyCommandPayload res" where
  "ClearDenyCommandPayload_validate p = res_map (\<lambda>_. p) (DenyCommandPayload_validate
     \<lparr>dp_subject_type = cp_subject_type p, dp_subject_id = cp_subject_id p, dp_deny_epoch = cp_deny_epoch p,
      dp_reason = DR_MAINTENANCE, dp_deny_floor_generation = None\<rparr>)"

datatype command_payload =
    PreparePayload PrepareCommandPayload | CommitPayload BundleReference | DenyPayload DenyCommandPayload
  | ClearPayload ClearDenyCommandPayload | StatusPayload bool | OtherPayload json_object

definition deny_json :: "DenyCommandPayload \<Rightarrow> JsonValue" where
  "deny_json p = JObj
    [(''subject_type'', JStr (subject_value (dp_subject_type p))), (''subject_id'', JStr (dp_subject_id p)),
     (''deny_epoch'', JInt (dp_deny_epoch p)), (''reason'', JStr (reason_value (dp_reason p))),
     (''deny_floor_generation'', opt_json JInt (dp_deny_floor_generation p))]"

definition clear_json :: "ClearDenyCommandPayload \<Rightarrow> JsonValue" where
  "clear_json p = JObj
    [(''subject_type'', JStr (subject_value (cp_subject_type p))), (''subject_id'', JStr (cp_subject_id p)),
     (''deny_epoch'', JInt (cp_deny_epoch p))]"

fun payload_json :: "command_payload \<Rightarrow> JsonValue" where
  "payload_json (PreparePayload p) = JObj
    [(''base'', opt_json reference_json (pp_base p)), (''target'', reference_json (pp_target p)),
     (''bundle_b64'', JStr (pp_bundle_b64 p))]"
| "payload_json (CommitPayload ref) = reference_json ref"
| "payload_json (DenyPayload p) = deny_json p"
| "payload_json (ClearPayload p) = clear_json p"
| "payload_json (StatusPayload b) = JObj [(''issue_auth_lease'', JBool b)]"
| "payload_json (OtherPayload kvs) = JObj kvs"

record GatewayCommandV1 =
  gc_command_id :: command_id
  gc_installation_id :: installation_id
  gc_channel_epoch :: int
  gc_security_epoch :: int
  gc_dispatcher_fence :: int
  gc_boot_id :: boot_id
  gc_sequence :: int
  gc_previous_digest :: string
  gc_kind :: WireCommandKind
  gc_issued_at_ms :: int
  gc_payload :: command_payload
  gc_policy :: "SignedActivationV1 option"
  gc_channel_seal :: ChannelSealV1

definition seal_ok :: "ChannelSealV1 \<Rightarrow> bool" where
  "seal_ok seal \<longleftrightarrow> is_pepper_version (cs_seal_id seal) \<and> cs_trust_epoch seal \<ge> 1 \<and> is_hex 128 (cs_signature seal)"

definition GatewayCommandV1_validate :: "GatewayCommandV1 \<Rightarrow> GatewayCommandV1 res" where
  "GatewayCommandV1_validate c = checks
    [(\<not> uuid_id ''cmd_'' (gc_command_id c), ''command_id''), (\<not> uuid_id ''inst_'' (gc_installation_id c), ''installation_id''),
     (\<not> gc_channel_epoch c \<ge> 1, ''channel_epoch: ge''), (\<not> gc_security_epoch c \<ge> 1, ''security_epoch: ge''),
     (\<not> gc_dispatcher_fence c \<ge> 1, ''dispatcher_fence: ge''), (\<not> uuid_id ''boot_'' (gc_boot_id c), ''boot_id''),
     (\<not> gc_sequence c \<ge> 1, ''sequence: ge''), (\<not> is_hex 64 (gc_previous_digest c), ''previous_digest: pattern''),
     (\<not> gc_issued_at_ms c \<ge> 1, ''issued_at_ms: ge''), (\<not> seal_ok (gc_channel_seal c), ''channel_seal''),
     ((gc_kind c \<noteq> WC_STATUS) \<noteq> (gc_policy c \<noteq> None), ''command kind has invalid policy signature presence'')] c"

definition seal_json :: "ChannelSealV1 \<Rightarrow> JsonValue" where
  "seal_json s = JObj [(''seal_id'', JStr (cs_seal_id s)), (''trust_epoch'', JInt (cs_trust_epoch s)),
     (''signature'', JStr (cs_signature s))]"

definition policy_json :: "SignedActivationV1 \<Rightarrow> JsonValue" where
  "policy_json p = JObj [(''payload_b64'', JStr (sa_payload_b64 p)), (''signature'', JStr (sa_signature p)),
     (''trust_epoch'', JInt (sa_trust_epoch p)), (''signer_key_id'', JStr (sa_signer_key_id p))]"

definition command_json :: "GatewayCommandV1 \<Rightarrow> JsonValue" where
  "command_json c = JObj
    [(''schema_version'', JInt 1), (''command_id'', JStr (gc_command_id c)),
     (''installation_id'', JStr (gc_installation_id c)), (''channel_epoch'', JInt (gc_channel_epoch c)),
     (''security_epoch'', JInt (gc_security_epoch c)), (''dispatcher_fence'', JInt (gc_dispatcher_fence c)),
     (''boot_id'', JStr (gc_boot_id c)), (''sequence'', JInt (gc_sequence c)),
     (''previous_digest'', JStr (gc_previous_digest c)), (''kind'', JStr (kind_value (gc_kind c))),
     (''issued_at_ms'', JInt (gc_issued_at_ms c)), (''payload'', payload_json (gc_payload c)),
     (''policy'', opt_json policy_json (gc_policy c)), (''channel_seal'', seal_json (gc_channel_seal c))]"

definition COMMAND_DOMAIN :: string where
  "COMMAND_DOMAIN = ''llmmaxxing.gateway-command.v1'' @ [CHR 0x00]"

definition ACK_DOMAIN :: string where
  "ACK_DOMAIN = ''llmmaxxing.gateway-ack.v1'' @ [CHR 0x00]"

definition FENCE_DOMAIN :: string where
  "FENCE_DOMAIN = ''llmmaxxing.fence-receipt.v1'' @ [CHR 0x00]"

definition BLANK_SIGNATURE :: string where
  "BLANK_SIGNATURE = replicate 128 (CHR ''0'')"

definition blanked_seal :: "ChannelSealV1 \<Rightarrow> ChannelSealV1" where
  "blanked_seal s = s\<lparr>cs_signature := BLANK_SIGNATURE\<rparr>"

definition gateway_command_signing_bytes :: "GatewayCommandV1 \<Rightarrow> string res" where
  "gateway_command_signing_bytes c = res_map ((@) COMMAND_DOMAIN)
    (canonical_json_bytes (command_json (c\<lparr>gc_channel_seal := blanked_seal (gc_channel_seal c)\<rparr>)))"

definition seal_gateway_command :: "codec \<Rightarrow> GatewayCommandV1 \<Rightarrow> private_key \<Rightarrow> GatewayCommandV1 res" where
  "seal_gateway_command C c key =
    res_bind (gateway_command_signing_bytes c) (\<lambda>bytes.
    GatewayCommandV1_validate
      (c\<lparr>gc_channel_seal := (gc_channel_seal c)\<lparr>cs_signature := hex_of (cd_sign C key bytes)\<rparr>\<rparr>))"

definition gateway_command_digest :: "codec \<Rightarrow> GatewayCommandV1 \<Rightarrow> string res" where
  "gateway_command_digest C c =
    res_map (\<lambda>bytes. cd_sha C (COMMAND_DOMAIN @ bytes)) (canonical_json_bytes (command_json c))"

section \<open>Authentication\<close>

record ChannelSigner =
  sg_seal_id :: string
  sg_trust_epoch :: int
  sg_private_key :: private_key

record ChannelTrustSet =
  ct_installation_id :: installation_id
  ct_security_epoch :: int
  ct_channel_epochs :: "(int, (int, (string, public_key) dict) dict) dict"

definition ChannelSigner_validate :: "ChannelSigner \<Rightarrow> ChannelSigner res" where
  "ChannelSigner_validate s = checks
    [(sg_seal_id s = [] \<or> sg_trust_epoch s < 1, ''channel signer requires an explicit key and trust epoch'')] s"

definition ChannelTrustSet_validate :: "ChannelTrustSet \<Rightarrow> ChannelTrustSet res" where
  "ChannelTrustSet_validate t = checks
    ((ct_security_epoch t < 1 \<or> ct_channel_epochs t = [], ''channel trust must be explicitly injected'') #
     concat (map (\<lambda>(channel_epoch, trust_epochs).
       (channel_epoch < 1 \<or> trust_epochs = [], ''channel trust contains an empty epoch'') #
       map (\<lambda>(trust_epoch, keys). (trust_epoch < 1 \<or> keys = [], ''channel trust contains an empty trust epoch'')) trust_epochs)
      (ct_channel_epochs t))) t"

definition channel_key :: "ChannelSealV1 \<Rightarrow> int \<Rightarrow> ChannelTrustSet \<Rightarrow> public_key res" where
  "channel_key seal channel_epoch trust =
    (case map_of (ct_channel_epochs trust) channel_epoch of
       None \<Rightarrow> Inl UnknownChannelEpoch
     | Some channel \<Rightarrow>
       (case map_of channel (cs_trust_epoch seal) of
          None \<Rightarrow> Inl UnknownTrustEpoch
        | Some epoch \<Rightarrow>
          (case map_of epoch (cs_seal_id seal) of None \<Rightarrow> Inl UnknownChannelKey | Some key \<Rightarrow> Inr key)))"

text \<open>\<open>key.verify(bytes.fromhex(signature), message)\<close> inside its \<open>try\<close>: a message that cannot be made or a
  signature that does not fit raises \<open>SignatureVerificationError\<close>.\<close>

definition check_signature :: "codec \<Rightarrow> public_key \<Rightarrow> string \<Rightarrow> string res \<Rightarrow> string \<Rightarrow> unit res" where
  "check_signature C key signature message what =
    (case (fromhex signature, message) of
       (Some sig, Inr bytes) \<Rightarrow>
         if cd_verify C key sig bytes then Inr () else Inl (SignatureVerificationError what)
     | _ \<Rightarrow> Inl (SignatureVerificationError what))"

record VerifiedGatewayCommand =
  vc_command :: GatewayCommandV1
  vc_command_digest :: string
  vc_policy :: "ActivationEnvelope option"

definition authenticate_gateway_command ::
    "codec \<Rightarrow> GatewayCommandV1 \<Rightarrow> policy_keys \<Rightarrow> ChannelTrustSet \<Rightarrow> VerifiedGatewayCommand res" where
  "authenticate_gateway_command C c keys trust =
    (if gc_installation_id c \<noteq> ct_installation_id trust then Inl CommandInstallationMismatch
     else
      res_bind (channel_key (gc_channel_seal c) (gc_channel_epoch c) trust) (\<lambda>key.
      res_bind (check_signature C key (cs_signature (gc_channel_seal c)) (gateway_command_signing_bytes c)
        ''invalid channel signature'') (\<lambda>_.
      res_bind (case gc_policy c of None \<Rightarrow> Inr None
        | Some p \<Rightarrow> res_map Some (verify_signed_activation C p keys)) (\<lambda>policy.
      res_map (\<lambda>digest. \<lparr>vc_command = c, vc_command_digest = digest, vc_policy = policy\<rparr>)
        (gateway_command_digest C c)))))"

definition verify_gateway_command ::
    "codec \<Rightarrow> GatewayCommandV1 \<Rightarrow> policy_keys \<Rightarrow> ChannelTrustSet \<Rightarrow> boot_id \<Rightarrow> int \<Rightarrow> VerifiedGatewayCommand res" where
  "verify_gateway_command C c keys trust expected_boot_id expected_fence_epoch =
    res_bind (authenticate_gateway_command C c keys trust) (\<lambda>verified.
    if gc_boot_id c \<noteq> expected_boot_id then Inl CommandBootMismatch
    else if gc_security_epoch c \<noteq> ct_security_epoch trust then Inl StaleSecurityEpoch
    else if gc_dispatcher_fence c \<noteq> expected_fence_epoch then Inl StaleFenceEpoch
    else Inr verified)"

section \<open>Acknowledgements and fence receipts\<close>

datatype GatewayAckStatus = GA_PREPARED | GA_APPLIED | GA_DENIED | GA_DENY_CLEARED | GA_STATUS

fun ack_status_value :: "GatewayAckStatus \<Rightarrow> string" where
  "ack_status_value GA_PREPARED = ''prepared''"
| "ack_status_value GA_APPLIED = ''applied''"
| "ack_status_value GA_DENIED = ''denied''"
| "ack_status_value GA_DENY_CLEARED = ''deny_cleared''"
| "ack_status_value GA_STATUS = ''status''"

record GatewayAckV1 =
  ga_ack_id :: ack_id
  ga_command_id :: command_id
  ga_command_digest :: string
  ga_installation_id :: installation_id
  ga_channel_epoch :: int
  ga_security_epoch :: int
  ga_dispatcher_fence :: int
  ga_boot_id :: boot_id
  ga_sequence :: int
  ga_status :: GatewayAckStatus
  ga_acknowledged_at_ms :: int
  ga_result :: json_object
  ga_channel_seal :: ChannelSealV1

definition ack_json :: "GatewayAckV1 \<Rightarrow> JsonValue" where
  "ack_json a = JObj
    [(''schema_version'', JInt 1), (''ack_id'', JStr (ga_ack_id a)), (''command_id'', JStr (ga_command_id a)),
     (''command_digest'', JStr (ga_command_digest a)), (''installation_id'', JStr (ga_installation_id a)),
     (''channel_epoch'', JInt (ga_channel_epoch a)), (''security_epoch'', JInt (ga_security_epoch a)),
     (''dispatcher_fence'', JInt (ga_dispatcher_fence a)), (''boot_id'', JStr (ga_boot_id a)),
     (''sequence'', JInt (ga_sequence a)), (''status'', JStr (ack_status_value (ga_status a))),
     (''acknowledged_at_ms'', JInt (ga_acknowledged_at_ms a)), (''result'', JObj (ga_result a)),
     (''channel_seal'', seal_json (ga_channel_seal a))]"

record FenceReceiptPayloadV1 =
  fp_old_installation_id :: installation_id
  fp_target_installation_id :: installation_id
  fp_channel_epoch :: int
  fp_security_epoch :: int
  fp_old_boot_id :: boot_id
  fp_credential_digest :: string
  fp_network_digest :: string
  fp_fence_epoch :: int
  fp_fenced_at_ms :: int

definition FenceReceiptPayloadV1_validate :: "FenceReceiptPayloadV1 \<Rightarrow> FenceReceiptPayloadV1 res" where
  "FenceReceiptPayloadV1_validate p = checks
    [(\<not> uuid_id ''inst_'' (fp_old_installation_id p), ''old_installation_id''),
     (\<not> uuid_id ''inst_'' (fp_target_installation_id p), ''target_installation_id''),
     (\<not> fp_channel_epoch p \<ge> 1, ''channel_epoch: ge''), (\<not> fp_security_epoch p \<ge> 1, ''security_epoch: ge''),
     (\<not> uuid_id ''boot_'' (fp_old_boot_id p), ''old_boot_id''),
     (\<not> is_hex 64 (fp_credential_digest p), ''credential_digest: pattern''),
     (\<not> is_hex 64 (fp_network_digest p), ''network_digest: pattern''),
     (\<not> fp_fence_epoch p \<ge> 1, ''fence_epoch: ge''), (\<not> fp_fenced_at_ms p \<ge> 1, ''fenced_at_ms: ge'')] p"

record FenceReceiptV1 =
  fr_payload :: FenceReceiptPayloadV1
  fr_channel_seal :: ChannelSealV1

definition receipt_json :: "FenceReceiptV1 \<Rightarrow> JsonValue" where
  "receipt_json r = (let p = fr_payload r in JObj
    [(''payload'', JObj
       [(''schema_version'', JInt 1), (''old_installation_id'', JStr (fp_old_installation_id p)),
        (''target_installation_id'', JStr (fp_target_installation_id p)), (''channel_epoch'', JInt (fp_channel_epoch p)),
        (''security_epoch'', JInt (fp_security_epoch p)), (''old_boot_id'', JStr (fp_old_boot_id p)),
        (''credential_digest'', JStr (fp_credential_digest p)), (''network_digest'', JStr (fp_network_digest p)),
        (''fence_epoch'', JInt (fp_fence_epoch p)), (''fenced_at_ms'', JInt (fp_fenced_at_ms p))]),
     (''channel_seal'', seal_json (fr_channel_seal r))])"

definition blank_seal :: "ChannelSigner \<Rightarrow> ChannelSealV1" where
  "blank_seal s = \<lparr>cs_seal_id = sg_seal_id s, cs_trust_epoch = sg_trust_epoch s, cs_signature = BLANK_SIGNATURE\<rparr>"

definition ack_signing_bytes :: "GatewayAckV1 \<Rightarrow> string res" where
  "ack_signing_bytes a = res_map ((@) ACK_DOMAIN)
    (canonical_json_bytes (ack_json (a\<lparr>ga_channel_seal := blanked_seal (ga_channel_seal a)\<rparr>)))"

definition receipt_signing_bytes :: "FenceReceiptV1 \<Rightarrow> string res" where
  "receipt_signing_bytes r = res_map ((@) FENCE_DOMAIN)
    (canonical_json_bytes (receipt_json (r\<lparr>fr_channel_seal := blanked_seal (fr_channel_seal r)\<rparr>)))"

text \<open>\<open>_seal_model\<close> at the two models it is used with.\<close>

definition seal_gateway_ack :: "codec \<Rightarrow> GatewayAckV1 \<Rightarrow> ChannelSigner \<Rightarrow> GatewayAckV1 res" where
  "seal_gateway_ack C a signer =
    (let unsigned = a\<lparr>ga_channel_seal := blank_seal signer\<rparr> in
     res_bind (ack_signing_bytes unsigned) (\<lambda>bytes.
     Inr (a\<lparr>ga_channel_seal := (blank_seal signer)\<lparr>cs_signature := hex_of (cd_sign C (sg_private_key signer) bytes)\<rparr>\<rparr>)))"

definition seal_fence_receipt :: "codec \<Rightarrow> FenceReceiptV1 \<Rightarrow> ChannelSigner \<Rightarrow> FenceReceiptV1 res" where
  "seal_fence_receipt C r signer =
    (let unsigned = r\<lparr>fr_channel_seal := blank_seal signer\<rparr> in
     res_bind (receipt_signing_bytes unsigned) (\<lambda>bytes.
     Inr (r\<lparr>fr_channel_seal := (blank_seal signer)\<lparr>cs_signature := hex_of (cd_sign C (sg_private_key signer) bytes)\<rparr>\<rparr>)))"

definition verify_gateway_ack :: "codec \<Rightarrow> GatewayAckV1 \<Rightarrow> ChannelTrustSet \<Rightarrow> GatewayCommandV1 \<Rightarrow> GatewayAckV1 res" where
  "verify_gateway_ack C a trust c =
    (if ga_installation_id a \<noteq> ct_installation_id trust then Inl CommandInstallationMismatch
     else if ga_security_epoch a \<noteq> ct_security_epoch trust then Inl StaleSecurityEpoch
     else if ga_command_id a \<noteq> gc_command_id c
     then Inl (SignatureVerificationError ''acknowledgement does not bind the exact command'')
     else
      res_bind (gateway_command_digest C c) (\<lambda>digest.
      if ga_command_digest a \<noteq> digest \<or> ga_channel_epoch a \<noteq> gc_channel_epoch c \<or> ga_boot_id a \<noteq> gc_boot_id c
         \<or> ga_sequence a \<noteq> gc_sequence c
      then Inl (SignatureVerificationError ''acknowledgement does not bind the exact command'')
      else
        res_bind (channel_key (ga_channel_seal a) (ga_channel_epoch a) trust) (\<lambda>key.
        res_map (\<lambda>_. a) (check_signature C key (cs_signature (ga_channel_seal a)) (ack_signing_bytes a)
          ''invalid acknowledgement signature''))))"

definition verify_fence_receipt ::
    "codec \<Rightarrow> FenceReceiptV1 \<Rightarrow> ChannelTrustSet \<Rightarrow> installation_id \<Rightarrow> int \<Rightarrow> FenceReceiptPayloadV1 res" where
  "verify_fence_receipt C r trust target_installation_id minimum_fence_epoch =
    (let p = fr_payload r in
     if fp_target_installation_id p \<noteq> target_installation_id then Inl CommandInstallationMismatch
     else if fp_fence_epoch p \<le> minimum_fence_epoch then Inl StaleFenceEpoch
     else if fp_security_epoch p \<noteq> ct_security_epoch trust then Inl StaleSecurityEpoch
     else
      res_bind (channel_key (fr_channel_seal r) (fp_channel_epoch p) trust) (\<lambda>key.
      res_map (\<lambda>_. p) (check_signature C key (cs_signature (fr_channel_seal r)) (receipt_signing_bytes r)
        ''invalid fence receipt signature'')))"

end
