(* ===== verification/Activation.thy ===== *)
theory Activation
  imports Wire Auth Routing
begin

text \<open>
  Activation (\<open>gateway/activation.py\<close>): the durable local state of a gateway, the executor of signed commands
  and the take-over of an installation.

  \<^item> \<open>gateway_disk\<close> is what survives the process: the tables of the SQLite file, the content-addressed bundle
    files, the pointer file and the quarantine directory. A row keeps its value and its checksum.
  \<^item> \<open>gateway\<close> is \<open>GatewayLocalState\<close>: configuration, disk, and the fields held in memory.
  \<^item> Every question put to the outside (the clock, a fresh identifier, whether a crash point fires, whether
    a commit of the database fails, whether the caller was cancelled, what a callback does) is answered by
    the next \<open>moment\<close>.
  \<^item> A transaction is a function whose database changes are undone when it raises. A crash point that fires
    raises \<open>InjectedCrash\<close>; the points lie between all durable effects, so a process that dies anywhere is one
    that stopped at a point and is opened again.
  \<^item> A command waits for the dispatcher gate once; what other tasks do meanwhile is an argument.

  Columns that hold JSON text hold the value of the text; a column that was tampered with shows in the
  checksum. The database connection is open in every operation but \<open>gateway_open\<close>.
\<close>

section \<open>Durable state\<close>

record BundleLimits =
  bl_max_bundle_bytes :: nat
  bl_max_keys :: nat
  bl_max_policies :: nat
  bl_max_accounts :: nat
  bl_max_route_groups :: nat
  bl_max_legs :: nat
  bl_max_authorized_legs :: nat
  bl_max_command_records :: nat
  bl_max_auth_leases :: nat

definition default_limits :: BundleLimits where
  "default_limits = \<lparr>bl_max_bundle_bytes = 16 * 1024 * 1024, bl_max_keys = 100000, bl_max_policies = 100000,
     bl_max_accounts = 4096, bl_max_route_groups = 100000, bl_max_legs = 100000, bl_max_authorized_legs = 1000000,
     bl_max_command_records = 100000, bl_max_auth_leases = 128\<rparr>"

datatype TakeoverState = TS_NONE | TS_FENCED_OLD | TS_RELEASED

fun takeover_value :: "TakeoverState \<Rightarrow> string" where
  "takeover_value TS_NONE = ''none''"
| "takeover_value TS_FENCED_OLD = ''fenced_old''"
| "takeover_value TS_RELEASED = ''released''"

datatype GatewayLifecycle = GL_NONE | GL_PREPARED | GL_STAGED | GL_APPLIED | GL_RECOVERY_REQUIRED | GL_FENCED_OLD

fun lifecycle_value :: "GatewayLifecycle \<Rightarrow> string" where
  "lifecycle_value GL_NONE = ''none''"
| "lifecycle_value GL_PREPARED = ''prepared''"
| "lifecycle_value GL_STAGED = ''staged''"
| "lifecycle_value GL_APPLIED = ''applied''"
| "lifecycle_value GL_RECOVERY_REQUIRED = ''recovery_required''"
| "lifecycle_value GL_FENCED_OLD = ''fenced_old''"

type_synonym deny_key = "DenySubjectType \<times> string"

record DenyOverlayV1 =
  do_subject_type :: DenySubjectType
  do_subject_id :: string
  do_deny_epoch :: int
  do_reason :: DenyReason
  do_deny_floor_generation :: "int option"
  do_heartbeat_at_ms :: int

definition overlay_key :: "DenyOverlayV1 \<Rightarrow> deny_key" where
  "overlay_key d = (do_subject_type d, do_subject_id d)"

record AuthLeaseV1 =
  le_lease_id :: lease_id
  le_installation_id :: installation_id
  le_security_epoch :: int
  le_boot_id :: boot_id
  le_bundle :: BundleReference
  le_issued_at_ms :: int
  le_expires_at_ms :: int

definition AuthLeaseV1_validate :: "AuthLeaseV1 \<Rightarrow> AuthLeaseV1 res" where
  "AuthLeaseV1_validate l = checks
    [(\<not> le_security_epoch l \<ge> 1, ''security_epoch: ge''),
     (\<not> le_issued_at_ms l \<ge> 1, ''issued_at_ms: ge''), (\<not> le_expires_at_ms l \<ge> 1, ''expires_at_ms: ge''),
     (le_expires_at_ms l - le_issued_at_ms l < 1 \<or> le_expires_at_ms l - le_issued_at_ms l > 15 * 60 * 1000,
       ''authorization lease exceeds 15 minutes'')] l"

record command_values =
  cm_digest :: string
  cm_channel_epoch :: int
  cm_sequence :: int
  cm_ack_id :: ack_id
  cm_status :: GatewayAckStatus
  cm_result :: json_object
  cm_ack :: "GatewayAckV1 option"

datatype meta_value = MText string | MInt int

fun meta_text :: "meta_value \<Rightarrow> string" where
  "meta_text (MText s) = s"
| "meta_text (MInt i) = json_int i"

record 'a sealed_row =
  rw_value :: 'a
  rw_checksum :: string

record gateway_db =
  db_meta :: "(string, meta_value sealed_row) dict"
  db_bundles :: "(string, (int \<times> nat) sealed_row) dict"
  db_pointers :: "(string, BundleReference sealed_row) dict"
  db_commands :: "(command_id, command_values sealed_row) dict"
  db_channel_state :: "(int, (int \<times> string) sealed_row) dict"
  db_denies :: "(deny_key, DenyOverlayV1 sealed_row) dict"
  db_auth_leases :: "(lease_id, AuthLeaseV1 sealed_row) dict"
  db_fence_receipts :: "(string, FenceReceiptV1 sealed_row) dict"
  db_deny_highwater :: "(deny_key, (int \<times> int option) sealed_row) dict"

definition empty_db :: gateway_db where
  "empty_db = \<lparr>db_meta = [], db_bundles = [], db_pointers = [], db_commands = [], db_channel_state = [], db_denies = [],
     db_auth_leases = [], db_fence_receipts = [], db_deny_highwater = []\<rparr>"

record gateway_disk =
  gd_db :: gateway_db
  gd_bundle_files :: "(string, string) dict"
  gd_pointer_file :: "string option"
  gd_quarantine :: "(string \<times> string) list"

record gateway_config =
  gf_installation_id :: installation_id
  gf_boot_id :: boot_id
  gf_channel_epoch :: int
  gf_security_epoch :: int
  gf_accepted_peppers :: "(string, string) dict"
  gf_limits :: BundleLimits

record gateway =
  gw_config :: gateway_config
  gw_disk :: gateway_disk
  gw_active :: "BundleReference option"
  gw_staged :: "BundleReference option"
  gw_previous :: "BundleReference option"
  gw_base :: "BaseReference option"
  gw_active_bundle :: "PolicyBundleV1 option"
  gw_recovery_reason :: string
  gw_denies :: "(deny_key, DenyOverlayV1) dict"
  gw_deny_highwater :: "(deny_key, int \<times> int option) dict"
  gw_deny_heartbeat_ms :: int
  gw_recovery_required :: bool
  gw_takeover_state :: TakeoverState
  gw_fence_epoch :: int
  gw_applied :: "PolicyBundleV1 list"
  gw_calls :: nat

record moment =
  mo_now_ms :: int
  mo_fresh_id :: string
  mo_crash :: bool
  mo_commit_fails :: bool
  mo_disk_intact :: bool
  mo_cancelled :: bool
  mo_callback :: "py_error option"
  mo_readiness :: "bool \<times> bool \<times> bool"

record gateway_env =
  ge_codec :: codec
  ge_moment :: "nat \<Rightarrow> moment"
  ge_policy_keys :: policy_keys
  ge_channel_trust :: ChannelTrustSet
  ge_ack_signer :: ChannelSigner
  ge_generation_gate :: generation_gate
  ge_backend_manifest_hash :: string
  ge_limits :: BundleLimits

section \<open>Operations that may raise\<close>

type_synonym 'a gop = "gateway \<Rightarrow> 'a res \<times> gateway"

definition gpure :: "'a \<Rightarrow> 'a gop" where
  "gpure x s = (Inr x, s)"

definition graise :: "py_error \<Rightarrow> 'a gop" where
  "graise e s = (Inl e, s)"

definition glift :: "'a res \<Rightarrow> 'a gop" where
  "glift r s = (r, s)"

definition gmod :: "(gateway \<Rightarrow> gateway) \<Rightarrow> unit gop" where
  "gmod f s = (Inr (), f s)"

definition gbind :: "'a gop \<Rightarrow> ('a \<Rightarrow> 'b gop) \<Rightarrow> 'b gop" where
  "gbind m f s = (case m s of (Inl e, s') \<Rightarrow> (Inl e, s') | (Inr x, s') \<Rightarrow> f x s')"

definition gtry :: "'a gop \<Rightarrow> (py_error \<Rightarrow> bool) \<Rightarrow> (py_error \<Rightarrow> 'a gop) \<Rightarrow> 'a gop" where
  "gtry m caught h s = (case m s of (Inl e, s') \<Rightarrow> if caught e then h e s' else (Inl e, s') | (Inr x, s') \<Rightarrow> (Inr x, s'))"

primrec gmapM :: "('a \<Rightarrow> 'b gop) \<Rightarrow> 'a list \<Rightarrow> 'b list gop" where
  "gmapM f [] = gpure []"
| "gmapM f (x # xs) = gbind (f x) (\<lambda>y. gbind (gmapM f xs) (\<lambda>ys. gpure (y # ys)))"

definition ask_moment :: "gateway_env \<Rightarrow> moment gop" where
  "ask_moment E s = (Inr (ge_moment E (gw_calls s)), s\<lparr>gw_calls := Suc (gw_calls s)\<rparr>)"

definition now_ms :: "gateway_env \<Rightarrow> int gop" where
  "now_ms E = gbind (ask_moment E) (\<lambda>w. gpure (mo_now_ms w))"

definition fresh_id :: "gateway_env \<Rightarrow> string gop" where
  "fresh_id E = gbind (ask_moment E) (\<lambda>w. gpure (mo_fresh_id w))"

definition crash :: "gateway_env \<Rightarrow> string \<Rightarrow> unit gop" where
  "crash E point = gbind (ask_moment E) (\<lambda>w. if mo_crash w then graise (InjectedCrash point) else gpure ())"

definition upd_db :: "(gateway_db \<Rightarrow> gateway_db) \<Rightarrow> gateway \<Rightarrow> gateway" where
  "upd_db f s = s\<lparr>gw_disk := (gw_disk s)\<lparr>gd_db := f (gd_db (gw_disk s))\<rparr>\<rparr>"

abbreviation gw_db :: "gateway \<Rightarrow> gateway_db" where
  "gw_db s \<equiv> gd_db (gw_disk s)"

definition transaction :: "gateway_env \<Rightarrow> 'a gop \<Rightarrow> 'a gop" where
  "transaction E body s =
    (case gbind body (\<lambda>x. gbind (ask_moment E) (\<lambda>w. if mo_commit_fails w then graise DatabaseError else gpure x)) s of
       (Inl e, s') \<Rightarrow> (Inl e, upd_db (\<lambda>_. gw_db s) s')
     | (Inr x, s') \<Rightarrow> (Inr x, s'))"

text \<open>\<open>ValueError\<close> with its subclasses.\<close>

fun is_value_error :: "py_error \<Rightarrow> bool" where
  "is_value_error (ValueError _) = True"
| "is_value_error InvalidClientKeyMaterial = True"
| "is_value_error (SignatureVerificationError _) = True"
| "is_value_error UnknownTrustEpoch = True"
| "is_value_error UnknownSigningKey = True"
| "is_value_error UnknownChannelEpoch = True"
| "is_value_error UnknownChannelKey = True"
| "is_value_error CommandChainGap = True"
| "is_value_error (DuplicateCommand _) = True"
| "is_value_error CommandInstallationMismatch = True"
| "is_value_error CommandBootMismatch = True"
| "is_value_error StaleSecurityEpoch = True"
| "is_value_error StaleFenceEpoch = True"
| "is_value_error _ = False"

section \<open>Checksums of rows\<close>

definition checksum :: "codec \<Rightarrow> string \<Rightarrow> JsonValue \<Rightarrow> string res" where
  "checksum C table value = res_map (\<lambda>bytes.
     cd_sha C (''llmmaxxing.gateway-state.v1'' @ [CHR 0x00] @ table @ [CHR 0x00] @ bytes)) (canonical_json_bytes value)"

definition sealed :: "codec \<Rightarrow> string \<Rightarrow> JsonValue \<Rightarrow> 'a \<Rightarrow> 'a sealed_row res" where
  "sealed C table json value = res_map (\<lambda>c. \<lparr>rw_value = value, rw_checksum = c\<rparr>) (checksum C table json)"

definition unseal :: "codec \<Rightarrow> string \<Rightarrow> JsonValue \<Rightarrow> string \<Rightarrow> 'a sealed_row \<Rightarrow> 'a res" where
  "unseal C table json corrupt row = res_bind (checksum C table json) (\<lambda>c.
     if rw_checksum row \<noteq> c then Inl (ValueError corrupt) else Inr (rw_value row))"

definition meta_json :: "string \<Rightarrow> meta_value \<Rightarrow> JsonValue" where
  "meta_json key v = JObj [(''key'', JStr key), (''value'', JStr (meta_text v))]"

definition pointer_json :: "string \<Rightarrow> BundleReference \<Rightarrow> JsonValue" where
  "pointer_json name ref = JObj [(''name'', JStr name), (''generation'', JInt (br_generation ref)),
     (''bundle_hash'', JStr (br_bundle_hash ref))]"

definition bundle_row_json :: "string \<Rightarrow> int \<times> nat \<Rightarrow> JsonValue" where
  "bundle_row_json h v = JObj [(''bundle_hash'', JStr h), (''generation'', JInt (fst v)), (''size'', JInt (int (snd v)))]"

definition command_row_json :: "command_id \<Rightarrow> command_values \<Rightarrow> JsonValue" where
  "command_row_json command_id v = JObj
    [(''command_id'', JStr command_id), (''digest'', JStr (cm_digest v)), (''channel_epoch'', JInt (cm_channel_epoch v)),
     (''sequence'', JInt (cm_sequence v)), (''ack_id'', JStr (cm_ack_id v)),
     (''status'', JStr (ack_status_value (cm_status v))), (''result_json'', JObj (cm_result v)),
     (''ack_json'', opt_json ack_json (cm_ack v))]"

definition channel_json :: "int \<Rightarrow> int \<times> string \<Rightarrow> JsonValue" where
  "channel_json epoch v = JObj [(''channel_epoch'', JInt epoch), (''sequence'', JInt (fst v)), (''digest'', JStr (snd v))]"

definition overlay_json :: "DenyOverlayV1 \<Rightarrow> JsonValue" where
  "overlay_json d = JObj
    [(''subject_type'', JStr (subject_value (do_subject_type d))), (''subject_id'', JStr (do_subject_id d)),
     (''deny_epoch'', JInt (do_deny_epoch d)), (''reason'', JStr (reason_value (do_reason d))),
     (''floor_generation'', opt_json JInt (do_deny_floor_generation d)), (''heartbeat_at_ms'', JInt (do_heartbeat_at_ms d))]"

definition overlay_dump :: "DenyOverlayV1 \<Rightarrow> JsonValue" where
  "overlay_dump d = JObj
    [(''subject_type'', JStr (subject_value (do_subject_type d))), (''subject_id'', JStr (do_subject_id d)),
     (''deny_epoch'', JInt (do_deny_epoch d)), (''reason'', JStr (reason_value (do_reason d))),
     (''deny_floor_generation'', opt_json JInt (do_deny_floor_generation d)), (''heartbeat_at_ms'', JInt (do_heartbeat_at_ms d))]"

definition highwater_json :: "deny_key \<Rightarrow> int \<times> int option \<Rightarrow> JsonValue" where
  "highwater_json k v = JObj
    [(''subject_type'', JStr (subject_value (fst k))), (''subject_id'', JStr (snd k)), (''deny_epoch'', JInt (fst v)),
     (''floor_generation'', opt_json JInt (snd v))]"

definition lease_json :: "AuthLeaseV1 \<Rightarrow> JsonValue" where
  "lease_json l = JObj
    [(''schema_version'', JInt 1), (''lease_id'', JStr (le_lease_id l)), (''installation_id'', JStr (le_installation_id l)),
     (''security_epoch'', JInt (le_security_epoch l)), (''boot_id'', JStr (le_boot_id l)),
     (''bundle'', reference_json (le_bundle l)), (''issued_at_ms'', JInt (le_issued_at_ms l)),
     (''expires_at_ms'', JInt (le_expires_at_ms l))]"

section \<open>Opening\<close>

definition meta :: "gateway_env \<Rightarrow> string \<Rightarrow> meta_value option gop" where
  "meta E key s =
    (case map_of (db_meta (gw_db s)) key of
       None \<Rightarrow> (Inr None, s)
     | Some row \<Rightarrow> (res_map Some (unseal (ge_codec E) ''meta'' (meta_json key (rw_value row)) ''corrupt Gateway meta'' row), s))"

definition set_meta :: "gateway_env \<Rightarrow> string \<Rightarrow> meta_value \<Rightarrow> unit gop" where
  "set_meta E key value = gbind (glift (sealed (ge_codec E) ''meta'' (meta_json key value) value)) (\<lambda>row.
     gmod (upd_db (\<lambda>db. db\<lparr>db_meta := AList.update key row (db_meta db)\<rparr>)))"

primrec gseq :: "unit gop list \<Rightarrow> unit gop" where
  "gseq [] = gpure ()"
| "gseq (m # ms) = gbind m (\<lambda>_. gseq ms)"

text \<open>\<open>int(value or default)\<close> and \<open>TakeoverState(value or "none")\<close>; \<open>"0"\<close> is a true string.\<close>

fun meta_int :: "int \<Rightarrow> meta_value option \<Rightarrow> int res" where
  "meta_int d None = Inr d"
| "meta_int d (Some (MInt i)) = Inr i"
| "meta_int d (Some (MText t)) = (if t = [] then Inr d else Inl (ValueError ''invalid literal for int()''))"

fun meta_takeover :: "meta_value option \<Rightarrow> TakeoverState res" where
  "meta_takeover None = Inr TS_NONE"
| "meta_takeover (Some v) =
    (case find (\<lambda>t. takeover_value t = meta_text v) [TS_NONE, TS_FENCED_OLD, TS_RELEASED] of
       Some t \<Rightarrow> Inr t
     | None \<Rightarrow> if meta_text v = [] then Inr TS_NONE else Inl (ValueError ''not a valid TakeoverState''))"

fun meta_or_empty :: "meta_value option \<Rightarrow> string" where
  "meta_or_empty None = []"
| "meta_or_empty (Some v) = meta_text v"

definition load_identity :: "gateway_env \<Rightarrow> unit gop" where
  "load_identity E = transaction E (\<lambda>s.
    let c = gw_config s in
    gbind (gbind (meta E ''schema_version'') (\<lambda>schema.
      case schema of
        None \<Rightarrow> gseq [set_meta E ''schema_version'' (MInt 1), set_meta E ''installation_id'' (MText (gf_installation_id c)),
          set_meta E ''channel_epoch'' (MInt (gf_channel_epoch c)), set_meta E ''security_epoch'' (MInt (gf_security_epoch c)),
          set_meta E ''fence_epoch'' (MInt 1), set_meta E ''takeover_state'' (MText (takeover_value TS_NONE)),
          set_meta E ''deny_heartbeat_ms'' (MInt 0), set_meta E ''recovery_reason'' (MText [])]
      | Some v \<Rightarrow> gbind (glift (meta_int 0 (Some v))) (\<lambda>n.
          if n \<noteq> 1 then graise (RuntimeError ''unsupported Gateway state schema'')
          else gseq (map (\<lambda>(key, value). gbind (meta E key) (\<lambda>v.
            if v \<noteq> Some value then graise (RuntimeError ''Gateway state identity/epoch mismatch'') else gpure ()))
            [(''installation_id'', MText (gf_installation_id c)), (''channel_epoch'', MInt (gf_channel_epoch c)),
             (''security_epoch'', MInt (gf_security_epoch c))]))))
    (\<lambda>_. gbind (meta E ''fence_epoch'') (\<lambda>f. gbind (glift (meta_int 1 f)) (\<lambda>fence.
      gbind (meta E ''takeover_state'') (\<lambda>t. gbind (glift (meta_takeover t)) (\<lambda>takeover.
      gbind (meta E ''deny_heartbeat_ms'') (\<lambda>h. gbind (glift (meta_int 0 h)) (\<lambda>heartbeat.
      gbind (meta E ''recovery_reason'') (\<lambda>r.
      gmod (\<lambda>s. s\<lparr>gw_fence_epoch := fence, gw_takeover_state := takeover, gw_deny_heartbeat_ms := heartbeat,
        gw_recovery_reason := meta_or_empty r, gw_recovery_required := meta_or_empty r \<noteq> []\<rparr>))))))))) s)"

definition put_pointer :: "gateway_env \<Rightarrow> string \<Rightarrow> BundleReference option \<Rightarrow> unit gop" where
  "put_pointer E name ref =
    (case ref of
       None \<Rightarrow> gmod (upd_db (\<lambda>db. db\<lparr>db_pointers := AList.delete name (db_pointers db)\<rparr>))
     | Some r \<Rightarrow> gbind (glift (sealed (ge_codec E) ''pointers'' (pointer_json name r) r)) (\<lambda>row.
         gmod (upd_db (\<lambda>db. db\<lparr>db_pointers := AList.update name row (db_pointers db)\<rparr>))))"

definition read_pointer :: "gateway_env \<Rightarrow> string \<Rightarrow> BundleReference option gop" where
  "read_pointer E name s =
    (case map_of (db_pointers (gw_db s)) name of
       None \<Rightarrow> (Inr None, s)
     | Some row \<Rightarrow> (res_map Some (res_bind
         (unseal (ge_codec E) ''pointers'' (pointer_json name (rw_value row)) ''corrupt bundle pointer'' row)
         BundleReference_validate), s))"

definition bounded_read :: "string \<Rightarrow> nat \<Rightarrow> string res" where
  "bounded_read content limit =
    (if length content > limit then Inl (ValueError ''stored file exceeds its bounded read limit'') else Inr content)"

definition load_bundle :: "gateway_env \<Rightarrow> string \<Rightarrow> PolicyBundleV1 gop" where
  "load_bundle E expected s =
    ((case map_of (gd_bundle_files (gw_disk s)) expected of
        None \<Rightarrow> Inl OSError
      | Some content \<Rightarrow>
        res_bind (bounded_read content (bl_max_bundle_bytes (gf_limits (gw_config s)))) (\<lambda>payload.
        if bundle_hash (cd_sha (ge_codec E)) payload \<noteq> expected then Inl (ValueError ''stored bundle is corrupt'')
        else case cd_bundle (ge_codec E) payload of
          None \<Rightarrow> Inl (ValueError ''stored bundle is invalid'')
        | Some decoded \<Rightarrow>
          (case PolicyBundleV1_validate decoded of
             Inl _ \<Rightarrow> Inl (ValueError ''stored bundle is invalid'')
           | Inr bundle \<Rightarrow>
             res_bind (canonical_bundle_bytes (cd_bundle_json (ge_codec E)) bundle) (\<lambda>bytes.
             if bytes \<noteq> payload then Inl (ValueError ''stored bundle is not canonical'') else Inr bundle)))), s)"

definition quarantine_bundle :: "gateway_env \<Rightarrow> string \<Rightarrow> unit gop" where
  "quarantine_bundle E h s =
    (case map_of (gd_bundle_files (gw_disk s)) h of
       None \<Rightarrow> (Inr (), s)
     | Some content \<Rightarrow> (Inr (), s\<lparr>gw_disk := (gw_disk s)\<lparr>gd_bundle_files := AList.delete h (gd_bundle_files (gw_disk s)),
         gd_quarantine := gd_quarantine (gw_disk s) @ [(h, content)]\<rparr>\<rparr>))"

definition load_denies :: "gateway_env \<Rightarrow> unit gop" where
  "load_denies E s =
    (case res_mapM (\<lambda>(k, row). unseal (ge_codec E) ''denies'' (overlay_json (rw_value row)) ''corrupt deny overlay'' row)
       (db_denies (gw_db s)) of
       Inl e \<Rightarrow> (Inl e, s)
     | Inr ds \<Rightarrow> (Inr (), s\<lparr>gw_denies := dict_of (map (\<lambda>d. (overlay_key d, d)) ds)\<rparr>))"

definition overlay_highwater :: "DenyOverlayV1 \<Rightarrow> int \<times> int option" where
  "overlay_highwater d = (do_deny_epoch d, do_deny_floor_generation d)"

text \<open>\<open>INSERT OR IGNORE\<close>.\<close>

definition backfill_deny_highwater :: "gateway_env \<Rightarrow> unit gop" where
  "backfill_deny_highwater E s = gseq (map (\<lambda>(k, d).
     gbind (glift (sealed (ge_codec E) ''deny_highwater'' (highwater_json k (overlay_highwater d)) (overlay_highwater d))) (\<lambda>row.
     gmod (upd_db (\<lambda>db. if dict_has (db_deny_highwater db) k then db
       else db\<lparr>db_deny_highwater := db_deny_highwater db @ [(k, row)]\<rparr>)))) (gw_denies s)) s"

definition load_deny_highwater :: "gateway_env \<Rightarrow> unit gop" where
  "load_deny_highwater E s =
    (case res_mapM (\<lambda>(k, row). res_map (Pair k)
         (unseal (ge_codec E) ''deny_highwater'' (highwater_json k (rw_value row)) ''corrupt deny high-water'' row))
       (db_deny_highwater (gw_db s)) of
       Inl e \<Rightarrow> (Inl e, s)
     | Inr hs \<Rightarrow> (Inr (), s\<lparr>gw_deny_highwater := dict_of hs\<rparr>))"

definition decode_command :: "gateway_env \<Rightarrow> command_id \<Rightarrow> command_values sealed_row \<Rightarrow> command_values res" where
  "decode_command E command_id row =
    unseal (ge_codec E) ''commands'' (command_row_json command_id (rw_value row)) ''corrupt command row'' row"

definition quarantine_corrupt_commands :: "gateway_env \<Rightarrow> unit gop" where
  "quarantine_corrupt_commands E s =
    (let corrupt = filter (\<lambda>(i, row). \<not> is_ok (decode_command E i row)) (db_commands (gw_db s)) in
     if corrupt = [] then (Inr (), s)
     else transaction E (gmod (upd_db (\<lambda>db. db\<lparr>db_commands :=
       filter (\<lambda>(i, row). i \<notin> set (map fst corrupt)) (db_commands db)\<rparr>))) s)"

definition write_active_pointer :: "gateway_env \<Rightarrow> string \<Rightarrow> bool \<Rightarrow> unit gop" where
  "write_active_pointer E payload inject =
    gbind (if inject then gseq [crash E ''active_pointer_after_write'', crash E ''active_pointer_after_fsync''] else gpure ()) (\<lambda>_.
    gbind (gmod (\<lambda>s. s\<lparr>gw_disk := (gw_disk s)\<lparr>gd_pointer_file := Some payload\<rparr>\<rparr>)) (\<lambda>_.
    if inject then gseq [crash E ''active_pointer_after_rename'', crash E ''active_pointer_after_dir_fsync''] else gpure ()))"

definition reconcile_pointer :: "gateway_env \<Rightarrow> unit gop" where
  "reconcile_pointer E s =
    (case gw_active s of
       None \<Rightarrow> (Inr (), s\<lparr>gw_disk := (gw_disk s)\<lparr>gd_pointer_file := None\<rparr>\<rparr>)
     | Some ref \<Rightarrow>
       gbind (glift (canonical_json_bytes (reference_json ref))) (\<lambda>expected.
       gbind (glift (case gd_pointer_file (gw_disk s) of None \<Rightarrow> Inr [] | Some content \<Rightarrow> bounded_read content 4096)) (\<lambda>actual.
       if actual \<noteq> expected then write_active_pointer E expected False else gpure ())) s)"

definition recover_staged :: "gateway_env \<Rightarrow> BundleReference \<Rightarrow> unit gop" where
  "recover_staged E ref =
    gtry (gbind (load_bundle E (br_bundle_hash ref)) (\<lambda>staged.
        if pb_generation staged \<noteq> br_generation ref then graise (ValueError ''staged generation mismatch'') else gpure ()))
      (\<lambda>e. e = OSError \<or> is_value_error e)
      (\<lambda>_. gbind (quarantine_bundle E (br_bundle_hash ref)) (\<lambda>_.
        gbind (transaction E (gbind (put_pointer E ''staged'' None) (\<lambda>_. put_pointer E ''base'' None))) (\<lambda>_.
        gmod (\<lambda>s. s\<lparr>gw_staged := None, gw_base := None\<rparr>))))"

definition recover_contents :: "gateway_env \<Rightarrow> unit gop" where
  "recover_contents E =
    gbind (ask_moment E) (\<lambda>w.
    if \<not> mo_disk_intact w then graise (ValueError ''SQLite integrity failure'')
    else
    gbind (read_pointer E ''previous'') (\<lambda>previous. gbind (gmod (\<lambda>s. s\<lparr>gw_previous := previous\<rparr>)) (\<lambda>_.
    gbind (read_pointer E ''active'') (\<lambda>active. gbind (gmod (\<lambda>s. s\<lparr>gw_active := active\<rparr>)) (\<lambda>_.
    gbind (read_pointer E ''staged'') (\<lambda>staged. gbind (gmod (\<lambda>s. s\<lparr>gw_staged := staged\<rparr>)) (\<lambda>_.
    gbind (read_pointer E ''base'') (\<lambda>base. gbind (gmod (\<lambda>s. s\<lparr>gw_base := base\<rparr>)) (\<lambda>_.
    gbind (case previous of None \<Rightarrow> gpure ()
      | Some ref \<Rightarrow> gbind (load_bundle E (br_bundle_hash ref)) (\<lambda>_. gpure ())) (\<lambda>_.
    gbind (case active of None \<Rightarrow> gpure ()
      | Some ref \<Rightarrow> gbind (load_bundle E (br_bundle_hash ref)) (\<lambda>bundle.
          gbind (gmod (\<lambda>s. s\<lparr>gw_active_bundle := Some bundle\<rparr>)) (\<lambda>_.
          if pb_generation bundle \<noteq> br_generation ref then graise (ValueError ''active generation mismatch'') else gpure ()))) (\<lambda>_.
    gbind (case staged of None \<Rightarrow> gpure () | Some ref \<Rightarrow> recover_staged E ref) (\<lambda>_.
    gbind (load_denies E) (\<lambda>_.
    gbind (transaction E (backfill_deny_highwater E)) (\<lambda>_.
    gbind (load_deny_highwater E) (\<lambda>_.
    gbind (quarantine_corrupt_commands E) (\<lambda>_.
    reconcile_pointer E))))))))))))))))"

definition recover_state :: "gateway_env \<Rightarrow> unit gop" where
  "recover_state E = gtry (recover_contents E) (\<lambda>e. e = OSError \<or> e = DatabaseError \<or> is_value_error e)
    (\<lambda>_. gmod (\<lambda>s. s\<lparr>gw_active := None, gw_active_bundle := None, gw_recovery_required := True\<rparr>))"

definition gateway_init :: "gateway_config \<Rightarrow> gateway_disk \<Rightarrow> nat \<Rightarrow> gateway res" where
  "gateway_init c d calls = checks
    [(gf_channel_epoch c < 1 \<or> gf_security_epoch c < 1, ''channel and security epochs must be positive''),
     (gf_accepted_peppers c = [], ''client-key pepper trust must be injected'')]
    \<lparr>gw_config = c, gw_disk = d, gw_active = None, gw_staged = None, gw_previous = None, gw_base = None,
     gw_active_bundle = None, gw_recovery_reason = [], gw_denies = [], gw_deny_highwater = [], gw_deny_heartbeat_ms = 0,
     gw_recovery_required = False, gw_takeover_state = TS_NONE, gw_fence_epoch = 1, gw_applied = [], gw_calls = calls\<rparr>"

definition open_body :: "gateway_env \<Rightarrow> unit gop" where
  "open_body E = gbind (load_identity E) (\<lambda>_. gbind (recover_state E) (\<lambda>_. gmod (\<lambda>s. s\<lparr>gw_deny_heartbeat_ms := 0\<rparr>)))"

definition gateway_open :: "gateway_env \<Rightarrow> gateway_config \<Rightarrow> gateway_disk \<Rightarrow> nat \<Rightarrow> gateway res" where
  "gateway_open E c d calls = res_bind (gateway_init c d calls) (\<lambda>s.
     case open_body E s of (Inl e, _) \<Rightarrow> Inl e | (Inr _, s') \<Rightarrow> Inr s')"

section \<open>Properties of the state\<close>

definition lifecycle :: "gateway \<Rightarrow> GatewayLifecycle" where
  "lifecycle s =
    (if gw_recovery_required s then GL_RECOVERY_REQUIRED
     else if gw_takeover_state s = TS_FENCED_OLD then GL_FENCED_OLD
     else if gw_staged s \<noteq> None then GL_STAGED
     else if gw_active s \<noteq> None then GL_APPLIED
     else GL_NONE)"

definition enter_gateway_recovery :: "gateway_env \<Rightarrow> string \<Rightarrow> unit gop" where
  "enter_gateway_recovery E reason =
    (if reason = [] then graise (ValueError ''recovery reason is required'')
     else gbind (gmod (\<lambda>s. s\<lparr>gw_recovery_reason := reason, gw_recovery_required := True\<rparr>)) (\<lambda>_.
       transaction E (set_meta E ''recovery_reason'' (MText reason))))"

definition confirm_live_bundle :: "gateway_env \<Rightarrow> BundleReference \<Rightarrow> unit gop" where
  "confirm_live_bundle E ref s =
    (if gw_recovery_reason s \<noteq> ''live_swap_failed'' \<or> gw_active s \<noteq> Some ref \<or> gw_active_bundle s = None
     then (Inl (ValueError ''live bundle cannot clear recovery state''), s)
     else gbind (transaction E (set_meta E ''recovery_reason'' (MText []))) (\<lambda>_.
       gmod (\<lambda>s. s\<lparr>gw_recovery_reason := [], gw_recovery_required := False\<rparr>)) s)"

definition deny_floor_generation :: "gateway \<Rightarrow> int option" where
  "deny_floor_generation s =
    (let floors = List.map_filter (\<lambda>(_, _, floor). floor) (gw_deny_highwater s) in
     if floors = [] then None else Some (Max (set floors)))"

section \<open>Bundles and commands\<close>

definition store_bundle :: "gateway_env \<Rightarrow> string \<Rightarrow> string \<Rightarrow> unit gop" where
  "store_bundle E payload expected s =
    (let limit = bl_max_bundle_bytes (gf_limits (gw_config s)) in
     if length payload > limit then (Inl (ValueError ''bundle size exceeds the configured limit''), s)
     else if bundle_hash (cd_sha (ge_codec E)) payload \<noteq> expected
     then (Inl (ValueError ''bundle content hash differs from target''), s)
     else case map_of (gd_bundle_files (gw_disk s)) expected of
       Some content \<Rightarrow>
         (res_bind (bounded_read content limit) (\<lambda>actual.
            if actual \<noteq> payload then Inl (ValueError ''content-addressed path contains different bytes'') else Inr ()), s)
     | None \<Rightarrow>
         gbind (gseq [crash E ''bundle_after_write'', crash E ''bundle_after_fsync'']) (\<lambda>_.
         gbind (gmod (\<lambda>s. s\<lparr>gw_disk := (gw_disk s)\<lparr>gd_bundle_files :=
           AList.update expected payload (gd_bundle_files (gw_disk s))\<rparr>\<rparr>)) (\<lambda>_.
         gseq [crash E ''bundle_after_rename'', crash E ''bundle_after_dir_fsync''])) s)"

record CommandRecord =
  cr_command_id :: command_id
  cr_digest :: string
  cr_ack_id :: ack_id
  cr_status :: GatewayAckStatus
  cr_result :: json_object
  cr_ack :: "GatewayAckV1 option"

definition command_record :: "command_id \<Rightarrow> command_values \<Rightarrow> CommandRecord" where
  "command_record i v = \<lparr>cr_command_id = i, cr_digest = cm_digest v, cr_ack_id = cm_ack_id v, cr_status = cm_status v,
     cr_result = cm_result v, cr_ack = cm_ack v\<rparr>"

definition validate_new_command :: "gateway_env \<Rightarrow> VerifiedGatewayCommand \<Rightarrow> CommandRecord option gop" where
  "validate_new_command E verified s =
    (let c = vc_command verified; db = gw_db s in
     (case map_of (db_commands db) (gc_command_id c) of
        Some row \<Rightarrow>
          res_bind (decode_command E (gc_command_id c) row) (\<lambda>v.
          if cm_digest v \<noteq> vc_command_digest verified then Inl (DuplicateCommand ''command ID reused with different bytes'')
          else Inr (Some (command_record (gc_command_id c) v)))
      | None \<Rightarrow>
          res_bind (case map_of (db_channel_state db) (gc_channel_epoch c) of
              None \<Rightarrow> Inr (1, ZERO_DIGEST)
            | Some row \<Rightarrow> res_map (\<lambda>(sequence, digest). (sequence + 1, digest))
                (unseal (ge_codec E) ''channel_state'' (channel_json (gc_channel_epoch c) (rw_value row))
                  ''corrupt command chain'' row)) (\<lambda>(sequence, digest).
          if gc_sequence c \<noteq> sequence \<or> gc_previous_digest c \<noteq> digest then Inl CommandChainGap else Inr None), s))"

definition ack_for :: "gateway_env \<Rightarrow> command_id \<Rightarrow> GatewayAckV1 option gop" where
  "ack_for E i s =
    (case map_of (db_commands (gw_db s)) i of
       None \<Rightarrow> (Inr None, s)
     | Some row \<Rightarrow> (res_map cm_ack (decode_command E i row), s))"

text \<open>The oldest acknowledged commands make room for a new record.\<close>

definition oldest_acknowledged :: "nat \<Rightarrow> gateway_db \<Rightarrow> command_id list" where
  "oldest_acknowledged n db = map fst (take n (sort_key (\<lambda>(_, row). (cm_channel_epoch (rw_value row), cm_sequence (rw_value row)))
     (filter (\<lambda>(_, row). cm_ack (rw_value row) \<noteq> None) (db_commands db))))"

definition reserve_command_record :: "gateway_env \<Rightarrow> unit gop" where
  "reserve_command_record E s =
    (let limit = bl_max_command_records (gf_limits (gw_config s)); db = gw_db s; count = length (db_commands db) in
     if count + 1 \<le> limit then (Inr (), s)
     else let gone = oldest_acknowledged (count + 1 - limit) db;
              kept = filter (\<lambda>(i, _). i \<notin> set gone) (db_commands db);
              s' = upd_db (\<lambda>db. db\<lparr>db_commands := kept\<rparr>) s in
          if length kept \<ge> limit then (Inl (RuntimeError ''command dedupe retention is full''), s') else (Inr (), s'))"

text \<open>The two inserts of \<open>_record_pending\<close>; the table has a unique index on channel epoch and sequence.\<close>

definition insert_command :: "gateway_env \<Rightarrow> command_id \<Rightarrow> command_values \<Rightarrow> unit gop" where
  "insert_command E i v = gbind (glift (sealed (ge_codec E) ''commands'' (command_row_json i v) v)) (\<lambda>row s.
     if dict_has (db_commands (gw_db s)) i \<or> list_ex (\<lambda>(_, r). cm_channel_epoch (rw_value r) = cm_channel_epoch v
          \<and> cm_sequence (rw_value r) = cm_sequence v) (db_commands (gw_db s))
     then (Inl DatabaseError, s)
     else (Inr (), upd_db (\<lambda>db. db\<lparr>db_commands := db_commands db @ [(i, row)]\<rparr>) s))"

definition record_pending ::
    "gateway_env \<Rightarrow> VerifiedGatewayCommand \<Rightarrow> ack_id \<Rightarrow> GatewayAckStatus \<Rightarrow> json_object \<Rightarrow> unit gop" where
  "record_pending E verified ack_id status result =
    (let c = vc_command verified in
     gbind (validate_new_command E verified) (\<lambda>existing.
     if existing \<noteq> None then graise (DuplicateCommand ''command already recorded'')
     else
      gbind (reserve_command_record E) (\<lambda>_.
      gbind (insert_command E (gc_command_id c)
        \<lparr>cm_digest = vc_command_digest verified, cm_channel_epoch = gc_channel_epoch c, cm_sequence = gc_sequence c,
         cm_ack_id = ack_id, cm_status = status, cm_result = result, cm_ack = None\<rparr>) (\<lambda>_.
      gbind (glift (sealed (ge_codec E) ''channel_state'' (channel_json (gc_channel_epoch c) (gc_sequence c, vc_command_digest verified))
        (gc_sequence c, vc_command_digest verified))) (\<lambda>row.
      gmod (upd_db (\<lambda>db. db\<lparr>db_channel_state := AList.update (gc_channel_epoch c) row (db_channel_state db)\<rparr>)))))))"

definition record_command ::
    "gateway_env \<Rightarrow> VerifiedGatewayCommand \<Rightarrow> ack_id \<Rightarrow> GatewayAckStatus \<Rightarrow> json_object \<Rightarrow> unit gop" where
  "record_command E verified ack_id status result = transaction E (record_pending E verified ack_id status result)"

definition push_ack :: "gateway_env \<Rightarrow> GatewayAckV1 \<Rightarrow> unit gop" where
  "push_ack E ack =
    gbind (transaction E (\<lambda>s.
      case map_of (db_commands (gw_db s)) (ga_command_id ack) of
        None \<Rightarrow> (Inl (ValueError ''unknown command acknowledgement''), s)
      | Some row \<Rightarrow>
        gbind (glift (decode_command E (ga_command_id ack) row)) (\<lambda>v.
        if cm_digest v \<noteq> ga_command_digest ack \<or> cm_ack_id v \<noteq> ga_ack_id ack
        then graise (ValueError ''ack differs from pending command'')
        else case cm_ack v of
          Some old \<Rightarrow> if old \<noteq> ack then graise (ValueError ''different ACK already exists'') else gpure ()
        | None \<Rightarrow>
            gbind (glift (sealed (ge_codec E) ''commands'' (command_row_json (ga_command_id ack) (v\<lparr>cm_ack := Some ack\<rparr>))
              (v\<lparr>cm_ack := Some ack\<rparr>))) (\<lambda>row'.
            gmod (upd_db (\<lambda>db. db\<lparr>db_commands := AList.update (ga_command_id ack) row' (db_commands db)\<rparr>)))) s))
    (\<lambda>_. crash E ''ack_after_commit'')"

section \<open>Preparation and commit\<close>

definition validate_prepare_reference :: "BaseReference option \<Rightarrow> BundleReference \<Rightarrow> unit gop" where
  "validate_prepare_reference base ref s =
    (checks
      [(gw_active s \<noteq> base, ''activation base differs from active bundle''),
       (gw_staged s \<noteq> None, ''another activation is staged''),
       (case deny_floor_generation s of None \<Rightarrow> False | Some floor \<Rightarrow> br_generation ref \<le> floor,
         ''target generation does not exceed deny floor''),
       (case base of None \<Rightarrow> False | Some b \<Rightarrow> br_generation ref \<le> br_generation b,
         ''target generation must increase'')] (), s)"

definition validate_commit_reference :: "BundleReference \<Rightarrow> unit gop" where
  "validate_commit_reference target s =
    (checks
      [(gw_staged s \<noteq> Some target, ''commit target differs from staged bundle''),
       (case deny_floor_generation s of None \<Rightarrow> False | Some floor \<Rightarrow> br_generation target \<le> floor,
         ''commit target does not exceed deny floor''),
       (gw_base s \<noteq> gw_active s, ''staged base differs from current active bundle'')] (), s)"

definition stage_prepare ::
    "gateway_env \<Rightarrow> VerifiedGatewayCommand \<Rightarrow> PolicyBundleV1 \<Rightarrow> BundleReference \<Rightarrow> BaseReference option \<Rightarrow> ack_id \<Rightarrow>
     json_object \<Rightarrow> unit gop" where
  "stage_prepare E verified bundle ref base ack_id result =
    gbind (validate_prepare_reference base ref) (\<lambda>_.
    gbind (crash E ''staged_before_commit'') (\<lambda>_.
    gbind (transaction E (
      gbind (glift (canonical_bundle_bytes (cd_bundle_json (ge_codec E)) bundle)) (\<lambda>bytes.
      gbind (glift (sealed (ge_codec E) ''bundles'' (bundle_row_json (br_bundle_hash ref) (br_generation ref, length bytes))
        (br_generation ref, length bytes))) (\<lambda>row.
      gbind (gmod (upd_db (\<lambda>db. if dict_has (db_bundles db) (br_bundle_hash ref) then db
        else db\<lparr>db_bundles := db_bundles db @ [(br_bundle_hash ref, row)]\<rparr>))) (\<lambda>_.
      gbind (put_pointer E ''staged'' (Some ref)) (\<lambda>_.
      gbind (put_pointer E ''base'' base) (\<lambda>_.
      record_pending E verified ack_id GA_PREPARED result)))))))
    (\<lambda>_.
    gbind (gmod (\<lambda>s. s\<lparr>gw_staged := Some ref, gw_base := base\<rparr>)) (\<lambda>_.
    crash E ''staged_after_commit''))))"

definition commit_staged ::
    "gateway_env \<Rightarrow> VerifiedGatewayCommand \<Rightarrow> BundleReference \<Rightarrow> ack_id \<Rightarrow> json_object \<Rightarrow> PolicyBundleV1 gop" where
  "commit_staged E verified target ack_id result =
    gbind (validate_commit_reference target) (\<lambda>_.
    gbind (load_bundle E (br_bundle_hash target)) (\<lambda>bundle.
    gbind (glift (canonical_json_bytes (reference_json target))) (\<lambda>payload.
    gbind (write_active_pointer E payload True) (\<lambda>_ s.
    gbind (transaction E (
      gbind (put_pointer E ''previous'' (gw_active s)) (\<lambda>_.
      gbind (put_pointer E ''active'' (Some target)) (\<lambda>_.
      gbind (put_pointer E ''staged'' None) (\<lambda>_.
      gbind (put_pointer E ''base'' None) (\<lambda>_.
      record_pending E verified ack_id GA_APPLIED result))))))
    (\<lambda>_.
    gbind (gmod (\<lambda>s. s\<lparr>gw_previous := gw_active s, gw_active := Some target, gw_active_bundle := Some bundle,
      gw_staged := None, gw_base := None\<rparr>)) (\<lambda>_.
    gbind (crash E ''active_after_commit'') (\<lambda>_. gpure bundle))) s))))"

definition apply_genesis ::
    "gateway_env \<Rightarrow> VerifiedGatewayCommand \<Rightarrow> BundleReference \<Rightarrow> ack_id \<Rightarrow> json_object \<Rightarrow> PolicyBundleV1 gop" where
  "apply_genesis E verified target ack_id result s =
    (if gw_active s \<noteq> None \<or> gw_base s \<noteq> None
     then (Inl (ValueError ''genesis requires no active record and an absent base''), s)
     else commit_staged E verified target ack_id result s)"

section \<open>The deny overlay\<close>

definition verify_deny_store :: "gateway_env \<Rightarrow> unit gop" where
  "verify_deny_store E = gtry (gbind (load_denies E) (\<lambda>_. load_deny_highwater E)) (\<lambda>e. e = DatabaseError \<or> is_value_error e)
     (\<lambda>e. gbind (gmod (\<lambda>s. s\<lparr>gw_recovery_required := True\<rparr>)) (\<lambda>_. graise e))"

definition put_highwater :: "gateway_env \<Rightarrow> deny_key \<Rightarrow> int \<times> int option \<Rightarrow> unit gop" where
  "put_highwater E k v = gbind (glift (sealed (ge_codec E) ''deny_highwater'' (highwater_json k v) v)) (\<lambda>row.
     gmod (upd_db (\<lambda>db. db\<lparr>db_deny_highwater := AList.update k row (db_deny_highwater db)\<rparr>)))"

definition put_deny :: "gateway_env \<Rightarrow> DenyOverlayV1 \<Rightarrow> unit gop" where
  "put_deny E d = gbind (glift (sealed (ge_codec E) ''denies'' (overlay_json d) d)) (\<lambda>row.
     gmod (upd_db (\<lambda>db. db\<lparr>db_denies := AList.update (overlay_key d) row (db_denies db)\<rparr>)))"

definition deny_checks :: "DenyCommandPayload \<Rightarrow> (int \<times> int option) option \<Rightarrow> (bool \<times> string) list" where
  "deny_checks p highwater =
    (case highwater of
       None \<Rightarrow> []
     | Some (epoch, floor) \<Rightarrow>
       [(dp_deny_epoch p \<le> epoch, ''deny epoch must strictly increase''),
        (case floor of None \<Rightarrow> False | Some f \<Rightarrow>
           (case dp_deny_floor_generation p of None \<Rightarrow> True | Some g \<Rightarrow> g < f), ''deny floor cannot contract'')])"

definition overlay_of :: "DenyCommandPayload \<Rightarrow> int \<Rightarrow> DenyOverlayV1" where
  "overlay_of p now = \<lparr>do_subject_type = dp_subject_type p, do_subject_id = dp_subject_id p, do_deny_epoch = dp_deny_epoch p,
     do_reason = dp_reason p, do_deny_floor_generation = dp_deny_floor_generation p, do_heartbeat_at_ms = now\<rparr>"

definition issue_deny ::
    "gateway_env \<Rightarrow> VerifiedGatewayCommand \<Rightarrow> DenyCommandPayload \<Rightarrow> ack_id \<Rightarrow> json_object \<Rightarrow> unit gop" where
  "issue_deny E verified p ack_id result =
    (let key = (dp_subject_type p, dp_subject_id p) in
     gbind (verify_deny_store E) (\<lambda>_ s.
     gbind (glift (checks (deny_checks p (map_of (gw_deny_highwater s) key)) ())) (\<lambda>_.
     gbind (now_ms E) (\<lambda>now.
     if now < 1 then graise (ValueError ''heartbeat_at_ms: ge'') else
     gbind (crash E ''deny_before_commit'') (\<lambda>_.
     gbind (transaction E (
       gbind (put_deny E (overlay_of p now)) (\<lambda>_.
       gbind (put_highwater E key (dp_deny_epoch p, dp_deny_floor_generation p)) (\<lambda>_.
       gbind (set_meta E ''deny_heartbeat_ms'' (MInt now)) (\<lambda>_.
       record_pending E verified ack_id GA_DENIED result)))))
     (\<lambda>_.
     gbind (gmod (\<lambda>s. s\<lparr>gw_denies := AList.update key (overlay_of p now) (gw_denies s), gw_deny_heartbeat_ms := now,
       gw_deny_highwater := AList.update key (dp_deny_epoch p, dp_deny_floor_generation p) (gw_deny_highwater s)\<rparr>)) (\<lambda>_.
     crash E ''deny_after_commit''))))) s))"

definition clear_deny ::
    "gateway_env \<Rightarrow> VerifiedGatewayCommand \<Rightarrow> ClearDenyCommandPayload \<Rightarrow> ack_id \<Rightarrow> json_object \<Rightarrow> unit gop" where
  "clear_deny E verified p ack_id result =
    (let key = (cp_subject_type p, cp_subject_id p) in
     gbind (verify_deny_store E) (\<lambda>_ s.
     gbind (glift (checks
       [(case map_of (gw_denies s) key of None \<Rightarrow> True | Some d \<Rightarrow> do_deny_epoch d \<noteq> cp_deny_epoch p,
          ''clear-deny requires exact current epoch'')] ())) (\<lambda>_.
     gbind (now_ms E) (\<lambda>now.
     gbind (transaction E (
       gbind (gmod (upd_db (\<lambda>db. db\<lparr>db_denies := AList.delete key (db_denies db)\<rparr>))) (\<lambda>_.
       gbind (set_meta E ''deny_heartbeat_ms'' (MInt now)) (\<lambda>_.
       record_pending E verified ack_id GA_DENY_CLEARED result))))
     (\<lambda>_.
     gmod (\<lambda>s. s\<lparr>gw_denies := AList.delete key (gw_denies s), gw_deny_heartbeat_ms := now\<rparr>)))) s))"

text \<open>Every loaded overlay is written back with the new heartbeat; its row is there, since it was just read.\<close>

definition renew_deny_rows :: "gateway_env \<Rightarrow> int \<Rightarrow> (deny_key, DenyOverlayV1) dict gop" where
  "renew_deny_rows E now =
    gbind (load_denies E) (\<lambda>_.
    gbind (load_deny_highwater E) (\<lambda>_ s.
    let updated = map (\<lambda>(k, d). (k, d\<lparr>do_heartbeat_at_ms := now\<rparr>)) (gw_denies s) in
    gbind (gseq (map (\<lambda>(k, d). put_deny E d) updated)) (\<lambda>_.
    gbind (set_meta E ''deny_heartbeat_ms'' (MInt now)) (\<lambda>_. gpure updated)) s))"

definition renew_deny_heartbeats :: "gateway_env \<Rightarrow> int option \<Rightarrow> unit gop" where
  "renew_deny_heartbeats E at =
    gbind (case at of None \<Rightarrow> now_ms E | Some t \<Rightarrow> gpure t) (\<lambda>now.
    if now < 1 then graise (ValueError ''heartbeat time must be positive'') else
    gbind (gtry (transaction E (renew_deny_rows E now)) (\<lambda>e. e = DatabaseError \<or> is_value_error e)
      (\<lambda>e. gbind (gmod (\<lambda>s. s\<lparr>gw_recovery_required := True\<rparr>)) (\<lambda>_. graise e))) (\<lambda>updated.
    gmod (\<lambda>s. s\<lparr>gw_denies := updated, gw_deny_heartbeat_ms := now\<rparr>)))"

definition DENY_FRESH_MS :: int where
  "DENY_FRESH_MS = 10000"

definition heartbeat_fresh :: "gateway \<Rightarrow> int \<Rightarrow> bool" where
  "heartbeat_fresh s now \<longleftrightarrow> 0 \<le> now - gw_deny_heartbeat_ms s \<and> now - gw_deny_heartbeat_ms s \<le> DENY_FRESH_MS"

definition deny_all :: "gateway_env \<Rightarrow> bool gop" where
  "deny_all E s =
    (if gw_recovery_required s \<or> gw_takeover_state s = TS_FENCED_OLD then (Inr True, s)
     else gbind (now_ms E) (\<lambda>now. gpure (\<not> heartbeat_fresh s now)) s)"

definition group_of_leg :: "gateway \<Rightarrow> AuthorizedLeg \<Rightarrow> route_group_id option" where
  "group_of_leg s leg =
    (case gw_active_bundle s of
       None \<Rightarrow> None
     | Some b \<Rightarrow> map_option rg_route_group_id
         (find (\<lambda>g. list_ex (\<lambda>candidate. rl_leg_id candidate = al_leg_id leg) (rg_legs g)) (pb_route_groups b)))"

definition permits :: "gateway_env \<Rightarrow> AuthorizedLeg \<Rightarrow> route_group_id option \<Rightarrow> bool gop" where
  "permits E leg route_group_id s =
    (case (case route_group_id of None \<Rightarrow> group_of_leg s leg | Some g \<Rightarrow> Some g) of
       None \<Rightarrow> (Inr False, s)
     | Some g \<Rightarrow>
       gbind (deny_all E) (\<lambda>all. gpure (\<not> all \<and>
         \<not> list_ex (dict_has (gw_denies s)) [(DS_ACCOUNT, al_account_id leg), (DS_LEG, al_leg_id leg), (DS_ROUTE_GROUP, g)])) s)"

section \<open>Leases and status\<close>

definition AUTH_LEASE_MS :: int where
  "AUTH_LEASE_MS = 15 * 60 * 1000"

definition prune_auth_leases :: "gateway_env \<Rightarrow> int \<Rightarrow> unit gop" where
  "prune_auth_leases E now = gmod (\<lambda>s.
    let live = filter (\<lambda>(_, row). \<not> (le_expires_at_ms (rw_value row) \<le> now
                 \<or> le_boot_id (rw_value row) \<noteq> gf_boot_id (gw_config s))) (db_auth_leases (gw_db s));
        limit = bl_max_auth_leases (gf_limits (gw_config s)) in
    upd_db (\<lambda>db. db\<lparr>db_auth_leases := drop (length live + 1 - limit) live\<rparr>) s)"

definition issue_auth_lease :: "gateway_env \<Rightarrow> int \<Rightarrow> AuthLeaseV1 gop" where
  "issue_auth_lease E now s =
    (case gw_active s of
       None \<Rightarrow> (Inl (RuntimeError ''healthy active state is required for auth lease''), s)
     | Some ref \<Rightarrow>
       gbind (deny_all E) (\<lambda>all.
       if all then graise (RuntimeError ''healthy active state is required for auth lease'') else
       gbind (fresh_id E) (\<lambda>i.
       gbind (glift (AuthLeaseV1_validate \<lparr>le_lease_id = i, le_installation_id = gf_installation_id (gw_config s),
         le_security_epoch = gf_security_epoch (gw_config s), le_boot_id = gf_boot_id (gw_config s), le_bundle = ref,
         le_issued_at_ms = now, le_expires_at_ms = now + AUTH_LEASE_MS\<rparr>)) (\<lambda>lease.
       gbind (glift (sealed (ge_codec E) ''auth_leases'' (lease_json lease) lease)) (\<lambda>row s.
       if dict_has (db_auth_leases (gw_db s)) (le_lease_id lease) then (Inl DatabaseError, s)
       else (Inr lease, upd_db (\<lambda>db. db\<lparr>db_auth_leases := db_auth_leases db @ [(le_lease_id lease, row)]\<rparr>) s))))) s)"

definition current_lease :: "gateway_env \<Rightarrow> int \<Rightarrow> gateway \<Rightarrow> AuthLeaseV1 option" where
  "current_lease E now s =
    (case gw_active s of
       None \<Rightarrow> None
     | Some ref \<Rightarrow> map_option (\<lambda>(_, row). rw_value row) (find (\<lambda>(_, row). let l = rw_value row in
         is_ok (unseal (ge_codec E) ''auth_leases'' (lease_json l) ''corrupt lease'' row) \<and> le_bundle l = ref \<and>
         le_security_epoch l = gf_security_epoch (gw_config s) \<and> le_issued_at_ms l \<le> now \<and> now < le_expires_at_ms l \<and>
         le_boot_id l = gf_boot_id (gw_config s)) (rev (db_auth_leases (gw_db s)))))"

datatype GatewayReadiness = READY | UNREADY

datatype ReadinessReason =
    RR_SINGLETON | RR_NO_ACTIVE | RR_RECOVERY | RR_FENCED | RR_DENY_STALE | RR_AUTH_LEASE | RR_BACKEND | RR_CAPACITIES

fun readiness_value :: "ReadinessReason \<Rightarrow> string" where
  "readiness_value RR_SINGLETON = ''singleton_unavailable''"
| "readiness_value RR_NO_ACTIVE = ''no_active_bundle''"
| "readiness_value RR_RECOVERY = ''recovery_required''"
| "readiness_value RR_FENCED = ''fenced_old''"
| "readiness_value RR_DENY_STALE = ''deny_feed_stale''"
| "readiness_value RR_AUTH_LEASE = ''auth_lease_invalid''"
| "readiness_value RR_BACKEND = ''backend_unready''"
| "readiness_value RR_CAPACITIES = ''gateway_capacities_unready''"

record GatewayStatusV1 =
  st_config :: gateway_config
  st_singleton_held :: bool
  st_lifecycle :: GatewayLifecycle
  st_active :: "BundleReference option"
  st_staged :: "BundleReference option"
  st_previous :: "BundleReference option"
  st_base :: "BaseReference option"
  st_deny_overlay :: "DenyOverlayV1 list"
  st_deny_floor_generation :: "int option"
  st_deny_heartbeat_fresh :: bool
  st_auth_lease :: "AuthLeaseV1 option"
  st_dispatcher_fence :: int
  st_takeover_state :: TakeoverState
  st_readiness :: GatewayReadiness
  st_unready_reasons :: "ReadinessReason list"

definition gateway_status :: "gateway_env \<Rightarrow> bool \<times> bool \<times> bool \<Rightarrow> int \<Rightarrow> gateway \<Rightarrow> GatewayStatusV1" where
  "gateway_status E ready now s =
    (let (singleton_held, backend_ready, capacities_ready) = ready;
         fresh = (heartbeat_fresh s now \<and> \<not> gw_recovery_required s);
         lease = current_lease E now s;
         reasons = (if \<not> singleton_held then [RR_SINGLETON] else [])
           @ (if gw_recovery_required s then [RR_RECOVERY]
              else if gw_takeover_state s = TS_FENCED_OLD then [RR_FENCED]
              else if gw_active s = None then [RR_NO_ACTIVE] else [])
           @ (if \<not> fresh then [RR_DENY_STALE] else [])
           @ (if lease = None then [RR_AUTH_LEASE] else [])
           @ (if \<not> backend_ready then [RR_BACKEND] else [])
           @ (if \<not> capacities_ready then [RR_CAPACITIES] else [])
     in \<lparr>st_config = gw_config s, st_singleton_held = singleton_held, st_lifecycle = lifecycle s, st_active = gw_active s,
         st_staged = gw_staged s, st_previous = gw_previous s, st_base = gw_base s,
         st_deny_overlay = sort_key (\<lambda>d. (subject_value (do_subject_type d), do_subject_id d)) (map snd (gw_denies s)),
         st_deny_floor_generation = deny_floor_generation s, st_deny_heartbeat_fresh = fresh, st_auth_lease = lease,
         st_dispatcher_fence = gw_fence_epoch s, st_takeover_state = gw_takeover_state s,
         st_readiness = (if reasons = [] then READY else UNREADY), st_unready_reasons = reasons\<rparr>)"

definition status_json :: "GatewayStatusV1 \<Rightarrow> JsonValue" where
  "status_json st = JObj
    [(''schema_version'', JInt 1), (''installation_id'', JStr (gf_installation_id (st_config st))),
     (''channel_epoch'', JInt (gf_channel_epoch (st_config st))), (''security_epoch'', JInt (gf_security_epoch (st_config st))),
     (''boot_id'', JStr (gf_boot_id (st_config st))), (''singleton_held'', JBool (st_singleton_held st)),
     (''lifecycle'', JStr (lifecycle_value (st_lifecycle st))), (''active'', opt_json reference_json (st_active st)),
     (''staged'', opt_json reference_json (st_staged st)), (''previous'', opt_json reference_json (st_previous st)),
     (''base'', opt_json reference_json (st_base st)), (''deny_overlay'', JList (map overlay_dump (st_deny_overlay st))),
     (''deny_floor_generation'', opt_json JInt (st_deny_floor_generation st)),
     (''deny_heartbeat_fresh'', JBool (st_deny_heartbeat_fresh st)), (''auth_lease'', opt_json lease_json (st_auth_lease st)),
     (''dispatcher_fence'', JInt (st_dispatcher_fence st)), (''takeover_state'', JStr (takeover_value (st_takeover_state st))),
     (''readiness'', JStr (case st_readiness st of READY \<Rightarrow> ''ready'' | UNREADY \<Rightarrow> ''unready'')),
     (''unready_reasons'', JList (map (\<lambda>r. JStr (readiness_value r)) (st_unready_reasons st)))]"

definition record_status ::
    "gateway_env \<Rightarrow> VerifiedGatewayCommand \<Rightarrow> ack_id \<Rightarrow> bool \<Rightarrow> bool \<times> bool \<times> bool \<Rightarrow> unit gop" where
  "record_status E verified ack_id issue_lease ready =
    gbind (now_ms E) (\<lambda>now s0.
    case transaction E (
      gbind (renew_deny_rows E now) (\<lambda>updated.
      gbind (gmod (\<lambda>s. s\<lparr>gw_denies := updated, gw_deny_heartbeat_ms := now\<rparr>)) (\<lambda>_.
      gbind (prune_auth_leases E now) (\<lambda>_.
      gbind (if issue_lease then gbind (issue_auth_lease E now) (\<lambda>_. gpure ()) else gpure ()) (\<lambda>_.
      gbind (crash E ''status_after_heartbeat'') (\<lambda>_.
      gbind (now_ms E) (\<lambda>at s.
      record_pending E verified ack_id GA_STATUS [(''status'', status_json (gateway_status E ready at s))] s))))))) s0 of
      (Inl e, s) \<Rightarrow> (Inl e, s\<lparr>gw_denies := gw_denies s0, gw_deny_heartbeat_ms := gw_deny_heartbeat_ms s0\<rparr>)
    | (Inr _, s) \<Rightarrow> (Inr (), s))"

definition current_auth_view :: "gateway_env \<Rightarrow> AuthRuntimeView gop" where
  "current_auth_view E s =
    (case (gw_active_bundle s, gw_active s) of
       (Some bundle, Some ref) \<Rightarrow>
         gbind (deny_all E) (\<lambda>all.
         gbind (glift (build_legacy_key_index (pb_keys bundle))) (\<lambda>legacy.
         gbind (now_ms E) (\<lambda>now.
         let keys = dict_of (map (\<lambda>r. (ck_key_id r, r)) (pb_keys bundle)) in
         gpure \<lparr>av_key_index = keys, av_applied_bundle_generation = br_generation ref,
           av_applied_bundle_hash = br_bundle_hash ref, av_denied_key_ids = (if all then map fst keys else []),
           av_accepted_peppers = gf_accepted_peppers (gw_config s), av_legacy_key_index = legacy,
           av_trusted_now_s = now div 1000\<rparr>))) s
     | _ \<Rightarrow> (Inl (RuntimeError ''no verified active auth state''), s))"

section \<open>Fencing\<close>

definition receipt_digest :: "codec \<Rightarrow> FenceReceiptV1 \<Rightarrow> string res" where
  "receipt_digest C r = res_map (cd_sha C) (canonical_json_bytes (receipt_json r))"

definition store_receipt :: "gateway_env \<Rightarrow> FenceReceiptV1 \<Rightarrow> unit gop" where
  "store_receipt E r =
    gbind (glift (receipt_digest (ge_codec E) r)) (\<lambda>digest.
    gbind (glift (sealed (ge_codec E) ''fence_receipts'' (receipt_json r) r)) (\<lambda>row.
    gmod (upd_db (\<lambda>db. if dict_has (db_fence_receipts db) digest then db
      else db\<lparr>db_fence_receipts := db_fence_receipts db @ [(digest, row)]\<rparr>))))"

definition record_old_fence :: "gateway_env \<Rightarrow> FenceReceiptV1 \<Rightarrow> unit gop" where
  "record_old_fence E r s =
    (let p = fr_payload r in
     if fp_old_installation_id p \<noteq> gf_installation_id (gw_config s)
     then (Inl (ValueError ''fence receipt does not name this old installation''), s)
     else if fp_fence_epoch p \<le> gw_fence_epoch s then (Inl (ValueError ''fence epoch must strictly advance''), s)
     else
      gbind (transaction E (
        gbind (store_receipt E r) (\<lambda>_.
        gbind (set_meta E ''fence_epoch'' (MInt (fp_fence_epoch p))) (\<lambda>_.
        set_meta E ''takeover_state'' (MText (takeover_value TS_FENCED_OLD)))))) (\<lambda>_.
      gbind (gmod (\<lambda>s. s\<lparr>gw_fence_epoch := fp_fence_epoch p, gw_takeover_state := TS_FENCED_OLD\<rparr>)) (\<lambda>_.
      crash E ''old_fence_after_commit'')) s)"

definition record_fence_receipt :: "gateway_env \<Rightarrow> FenceReceiptV1 \<Rightarrow> unit gop" where
  "record_fence_receipt E r = transaction E (store_receipt E r)"

definition accept_takeover :: "gateway_env \<Rightarrow> FenceReceiptV1 \<Rightarrow> unit gop" where
  "accept_takeover E r s =
    (let p = fr_payload r in
     if fp_target_installation_id p \<noteq> gf_installation_id (gw_config s)
     then (Inl (ValueError ''fence receipt targets another installation''), s)
     else if fp_fence_epoch p \<le> gw_fence_epoch s
     then (Inl (ValueError ''fence receipt does not advance dispatcher fence''), s)
     else
      gbind (transaction E (gbind (store_receipt E r) (\<lambda>_.
        set_meta E ''takeover_state'' (MText (takeover_value TS_FENCED_OLD))))) (\<lambda>_.
      gbind (gmod (\<lambda>s. s\<lparr>gw_takeover_state := TS_FENCED_OLD\<rparr>)) (\<lambda>_.
      gbind (crash E ''takeover_after_receipt'') (\<lambda>_.
      gbind (transaction E (gbind (set_meta E ''fence_epoch'' (MInt (fp_fence_epoch p))) (\<lambda>_.
        set_meta E ''takeover_state'' (MText (takeover_value TS_RELEASED))))) (\<lambda>_.
      gbind (gmod (\<lambda>s. s\<lparr>gw_fence_epoch := fp_fence_epoch p, gw_takeover_state := TS_RELEASED\<rparr>)) (\<lambda>_.
      crash E ''takeover_after_advance''))))) s)"

definition fence_receipts :: "gateway_env \<Rightarrow> FenceReceiptV1 list gop" where
  "fence_receipts E s = (res_mapM (\<lambda>(_, row).
     unseal (ge_codec E) ''fence_receipts'' (receipt_json (rw_value row)) ''corrupt fence receipt'' row)
     (sort_key fst (db_fence_receipts (gw_db s))), s)"

section \<open>Maintenance\<close>

definition export_state :: "gateway \<Rightarrow> JsonValue" where
  "export_state s = JObj
    [(''schema_version'', JInt 1), (''installation_id'', JStr (gf_installation_id (gw_config s))),
     (''channel_epoch'', JInt (gf_channel_epoch (gw_config s))), (''security_epoch'', JInt (gf_security_epoch (gw_config s))),
     (''dispatcher_fence'', JInt (gw_fence_epoch s)), (''takeover_state'', JStr (takeover_value (gw_takeover_state s))),
     (''active'', opt_json reference_json (gw_active s)), (''staged'', opt_json reference_json (gw_staged s)),
     (''previous'', opt_json reference_json (gw_previous s)), (''base'', opt_json reference_json (gw_base s)),
     (''denies'', JList (map (\<lambda>(_, d). overlay_dump d) (gw_denies s))), (''deny_heartbeat_ms'', JInt (gw_deny_heartbeat_ms s)),
     (''command_count'', JInt (int (length (db_commands (gw_db s))))), (''recovery_required'', JBool (gw_recovery_required s))]"

definition retained_bundles :: "gateway \<Rightarrow> string list" where
  "retained_bundles s =
    map br_bundle_hash (List.map_filter id [gw_active s, gw_staged s, gw_previous s]) @
    (case deny_floor_generation s of
       None \<Rightarrow> []
     | Some floor \<Rightarrow> map fst (filter (\<lambda>(_, row). fst (rw_value row) = floor) (db_bundles (gw_db s))))"

definition gc_bundles :: "unit gop" where
  "gc_bundles = gmod (\<lambda>s. s\<lparr>gw_disk := (gw_disk s)\<lparr>gd_bundle_files :=
     filter (\<lambda>(h, _). \<not> digest_id ''bh_'' h \<or> h \<in> set (retained_bundles s)) (gd_bundle_files (gw_disk s))\<rparr>\<rparr>)"

end
