(* ===== verification/Activation_Service.thy ===== *)
theory Activation_Service
  imports Activation
begin

text \<open>
  The executor of gateway commands and the take-over coordinator (\<open>ActivationService\<close>,
  \<open>ActivationGenerationGate\<close> and \<open>TakeoverCoordinator\<close> of \<open>gateway/activation.py\<close>). The command lock makes
  \<open>execute\<close> one operation; the dispatcher gate, which it shares with dispatch and take-over, may be held by
  others when a command asks for it, and \<open>meanwhile\<close> is what they do to the state before it is granted.
\<close>

section \<open>Checks\<close>

definition verify_command :: "gateway_env \<Rightarrow> GatewayCommandV1 \<Rightarrow> VerifiedGatewayCommand res" where
  "verify_command E c = authenticate_gateway_command (ge_codec E) c (ge_policy_keys E) (ge_channel_trust E)"

definition assert_current_fence :: "VerifiedGatewayCommand \<Rightarrow> unit gop" where
  "assert_current_fence verified s =
    (if gc_dispatcher_fence (vc_command verified) \<noteq> gw_fence_epoch s then (Inl StaleFenceEpoch, s) else (Inr (), s))"

definition assert_unseen_binding :: "gateway_env \<Rightarrow> VerifiedGatewayCommand \<Rightarrow> unit gop" where
  "assert_unseen_binding E verified s =
    (let c = vc_command verified in
     if gc_boot_id c \<noteq> gf_boot_id (gw_config s) then (Inl CommandBootMismatch, s)
     else if gc_security_epoch c \<noteq> ct_security_epoch (ge_channel_trust E) then (Inl StaleSecurityEpoch, s)
     else assert_current_fence verified s)"

definition policy_matches :: "ActivationEnvelope option \<Rightarrow> BaseReference option \<Rightarrow> BundleReference \<Rightarrow> unit res" where
  "policy_matches policy base target =
    (case policy of
       Some p \<Rightarrow> if envelope_base p \<noteq> base \<or> envelope_target p \<noteq> target
                 then Inl (ValueError ''signed policy does not bind exact base/target'') else Inr ()
     | None \<Rightarrow> Inl (ValueError ''signed policy does not bind exact base/target''))"

definition count_checks :: "BundleLimits \<Rightarrow> PolicyBundleV1 \<Rightarrow> bool" where
  "count_checks l b \<longleftrightarrow>
     length (pb_keys b) \<le> bl_max_keys l \<and> length (pb_policies b) \<le> bl_max_policies l \<and>
     length (pb_accounts b) \<le> bl_max_accounts l \<and> length (pb_route_groups b) \<le> bl_max_route_groups l \<and>
     sum_list (map (\<lambda>g. length (rg_legs g)) (pb_route_groups b)) \<le> bl_max_legs l \<and>
     sum_list (map (\<lambda>p. length (kp_authorized_legs p)) (pb_policies b)) \<le> bl_max_authorized_legs l"

text \<open>\<open>any(not gate.permits(...))\<close>: stops at the first leg that is not permitted or whose check raises.\<close>

fun all_permitted :: "generation_gate \<Rightarrow> string \<Rightarrow> AuthorizedLeg list \<Rightarrow> bool res" where
  "all_permitted gate manifest [] = Inr True"
| "all_permitted gate manifest (l # ls) =
    res_bind (gate l manifest) (\<lambda>ok. if ok then all_permitted gate manifest ls else Inr False)"

definition validate_bundle :: "gateway_env \<Rightarrow> string \<Rightarrow> BundleReference \<Rightarrow> PolicyBundleV1 gop" where
  "validate_bundle E raw target s =
    (let l = ge_limits E in
     gbind (glift (
       if length raw > bl_max_bundle_bytes l then Inl (ValueError ''bundle size exceeds the configured limit'')
       else if bundle_hash (cd_sha (ge_codec E)) raw \<noteq> br_bundle_hash target
       then Inl (ValueError ''bundle hash differs from target'')
       else case cd_bundle (ge_codec E) raw of
         None \<Rightarrow> Inl (ValueError ''bundle schema is invalid'')
       | Some decoded \<Rightarrow>
         (case PolicyBundleV1_validate decoded of
            Inl _ \<Rightarrow> Inl (ValueError ''bundle schema is invalid'')
          | Inr bundle \<Rightarrow>
            res_bind (canonical_bundle_bytes (cd_bundle_json (ge_codec E)) bundle) (\<lambda>bytes.
            if bytes \<noteq> raw then Inl (ValueError ''bundle is not canonical JSON'')
            else if pb_generation bundle \<noteq> br_generation target then Inl (ValueError ''bundle generation differs'')
            else if pb_backend_manifest_hash bundle \<noteq> ge_backend_manifest_hash E
            then Inl (ValueError ''backend manifest differs'')
            else if \<not> count_checks l bundle then Inl (ValueError ''bundle object count exceeds limit'')
            else res_bind (all_permitted (ge_generation_gate E) (pb_backend_manifest_hash bundle)
                (concat (map kp_authorized_legs (pb_policies bundle)))) (\<lambda>ok.
              if \<not> ok then Inl (ValueError ''bundle deployment generation is not operational'') else Inr bundle)))))
     (\<lambda>bundle. gbind (ask_moment E) (\<lambda>w. case mo_callback w of None \<Rightarrow> gpure bundle | Some e \<Rightarrow> graise e)) s)"

section \<open>Acknowledgements\<close>

definition acknowledge :: "gateway_env \<Rightarrow> VerifiedGatewayCommand \<Rightarrow> CommandRecord \<Rightarrow> GatewayAckV1 gop" where
  "acknowledge E verified rec s =
    (case cr_ack rec of
       Some ack \<Rightarrow> (Inr ack, s)
     | None \<Rightarrow>
       if cr_status rec = GA_APPLIED \<and> lifecycle s = GL_RECOVERY_REQUIRED
       then (Inl (RuntimeError ''live bundle recovery is required before APPLIED ACK''), s)
       else
        let c = vc_command verified in
        gbind (now_ms E) (\<lambda>now.
        gbind (glift (seal_gateway_ack (ge_codec E)
          \<lparr>ga_ack_id = cr_ack_id rec, ga_command_id = gc_command_id c, ga_command_digest = vc_command_digest verified,
           ga_installation_id = gf_installation_id (gw_config s), ga_channel_epoch = gc_channel_epoch c,
           ga_security_epoch = gc_security_epoch c, ga_dispatcher_fence = gc_dispatcher_fence c, ga_boot_id = gc_boot_id c,
           ga_sequence = gc_sequence c, ga_status = cr_status rec, ga_acknowledged_at_ms = now, ga_result = cr_result rec,
           ga_channel_seal = blank_seal (ge_ack_signer E)\<rparr> (ge_ack_signer E))) (\<lambda>ack.
        gbind (push_ack E ack) (\<lambda>_. gpure ack))) s)"

definition status_readonly :: "gateway_env \<Rightarrow> GatewayCommandV1 \<Rightarrow> GatewayStatusV1 gop" where
  "status_readonly E c =
    gbind (glift (verify_command E c)) (\<lambda>verified.
    gbind (assert_unseen_binding E verified) (\<lambda>_.
    if gc_kind c \<noteq> WC_STATUS then graise (ValueError ''read-only status requires STATUS'')
    else case gc_payload c of
      StatusPayload issue \<Rightarrow>
        if issue then graise (ValueError ''read-only status cannot issue an auth lease'')
        else gbind (ask_moment E) (\<lambda>w. gbind (now_ms E) (\<lambda>now s.
          (Inr (gateway_status E (mo_readiness w) now s), s)))
    | _ \<Rightarrow> graise (ValueError ''invalid status payload'')))"

text \<open>\<open>async with hold_activation()\<close>: the gate is granted after what its holders do.\<close>

definition hold_activation :: "unit gop \<Rightarrow> unit gop" where
  "hold_activation meanwhile s = (Inr (), snd (meanwhile s))"

text \<open>\<open>_await_durable(asyncio.to_thread(...))\<close>: the worker always runs to its end; a cancellation that arrived
  meanwhile is reported.\<close>

definition await_durable :: "gateway_env \<Rightarrow> 'a gop \<Rightarrow> ('a \<times> bool) gop" where
  "await_durable E m = gbind m (\<lambda>x. gbind (ask_moment E) (\<lambda>w. gpure (x, mo_cancelled w)))"

definition raise_if :: "bool \<Rightarrow> unit gop" where
  "raise_if cancelled = (if cancelled then graise CancelledError else gpure ())"

text \<open>The end of every handler: read the recorded command back and acknowledge it.\<close>

definition acknowledge_recorded :: "gateway_env \<Rightarrow> VerifiedGatewayCommand \<Rightarrow> GatewayAckV1 gop" where
  "acknowledge_recorded E verified =
    gbind (validate_new_command E verified) (\<lambda>recorded.
    case recorded of None \<Rightarrow> graise AssertionError | Some rec \<Rightarrow> acknowledge E verified rec)"

section \<open>Handlers\<close>

definition prepare :: "gateway_env \<Rightarrow> unit gop \<Rightarrow> VerifiedGatewayCommand \<Rightarrow> unit gop" where
  "prepare E meanwhile verified =
    (case gc_payload (vc_command verified) of
       PreparePayload p \<Rightarrow>
         gbind (glift (PrepareCommandPayload_validate p)) (\<lambda>_.
         gbind (glift (bundle_bytes p)) (\<lambda>raw.
         gbind (validate_bundle E raw (pp_target p)) (\<lambda>bundle.
         gbind (glift (policy_matches (vc_policy verified) (pp_base p) (pp_target p))) (\<lambda>_.
         gbind (validate_prepare_reference (pp_base p) (pp_target p)) (\<lambda>_.
         gbind (await_durable E (store_bundle E raw (br_bundle_hash (pp_target p)))) (\<lambda>(_, cancelled).
         gbind (raise_if cancelled) (\<lambda>_.
         gbind (hold_activation meanwhile) (\<lambda>_.
         gbind (assert_current_fence verified) (\<lambda>_.
         gbind (validate_prepare_reference (pp_base p) (pp_target p)) (\<lambda>_.
         gbind (fresh_id E) (\<lambda>ack_id.
         gbind (await_durable E (stage_prepare E verified bundle (pp_target p) (pp_base p) ack_id
           [(''target'', reference_json (pp_target p))])) (\<lambda>(_, cancelled).
         raise_if cancelled))))))))))))
     | _ \<Rightarrow> graise (ValueError ''invalid prepare payload''))"

definition apply_live :: "gateway_env \<Rightarrow> PolicyBundleV1 \<Rightarrow> unit gop" where
  "apply_live E bundle =
    gbind (ask_moment E) (\<lambda>w.
    case mo_callback w of
      None \<Rightarrow> gmod (\<lambda>s. s\<lparr>gw_applied := gw_applied s @ [bundle]\<rparr>)
    | Some e \<Rightarrow> gbind (enter_gateway_recovery E ''live_swap_failed'') (\<lambda>_. graise e))"

definition commit_handler :: "gateway_env \<Rightarrow> unit gop \<Rightarrow> VerifiedGatewayCommand \<Rightarrow> GatewayAckV1 gop" where
  "commit_handler E meanwhile verified =
    (case gc_payload (vc_command verified) of
       CommitPayload target \<Rightarrow>
         gbind (glift (BundleReference_validate target)) (\<lambda>_ s.
         gbind (glift (policy_matches (vc_policy verified) (gw_base s) target)) (\<lambda>_.
         gbind (hold_activation meanwhile) (\<lambda>_.
         gbind (assert_current_fence verified) (\<lambda>_.
         gbind (validate_commit_reference target) (\<lambda>_.
         gbind (fresh_id E) (\<lambda>ack_id.
         gbind (await_durable E (commit_staged E verified target ack_id [(''active'', reference_json target)])) (\<lambda>(bundle, cancelled).
         gbind (apply_live E bundle) (\<lambda>_.
         gbind (crash E ''memory_after_swap'') (\<lambda>_.
         gbind (acknowledge_recorded E verified) (\<lambda>ack.
         gbind (raise_if cancelled) (\<lambda>_. gpure ack)))))))))) s)
     | _ \<Rightarrow> graise (ValueError ''invalid commit payload''))"

definition active_policy :: "ActivationEnvelope option \<Rightarrow> unit gop" where
  "active_policy policy s =
    (case (gw_active s, policy) of
       (Some ref, Some p) \<Rightarrow>
         if envelope_target p \<noteq> ref then (Inl (ValueError ''signed policy does not bind active bundle''), s) else (Inr (), s)
     | _ \<Rightarrow> (Inl (ValueError ''signed policy does not bind active bundle''), s))"

text \<open>The common shape of the handlers of \<open>DENY\<close>, \<open>CLEAR_DENY\<close> and \<open>STATUS\<close> from the gate on.\<close>

definition under_gate ::
    "gateway_env \<Rightarrow> unit gop \<Rightarrow> VerifiedGatewayCommand \<Rightarrow> (ack_id \<Rightarrow> unit gop) \<Rightarrow> GatewayAckV1 gop" where
  "under_gate E meanwhile verified work =
    gbind (hold_activation meanwhile) (\<lambda>_.
    gbind (assert_current_fence verified) (\<lambda>_.
    gbind (fresh_id E) (\<lambda>ack_id.
    gbind (await_durable E (work ack_id)) (\<lambda>(_, cancelled).
    gbind (acknowledge_recorded E verified) (\<lambda>ack.
    gbind (raise_if cancelled) (\<lambda>_. gpure ack))))))"

definition deny_handler :: "gateway_env \<Rightarrow> unit gop \<Rightarrow> VerifiedGatewayCommand \<Rightarrow> GatewayAckV1 gop" where
  "deny_handler E meanwhile verified =
    (case gc_payload (vc_command verified) of
       DenyPayload p \<Rightarrow>
         gbind (glift (DenyCommandPayload_validate p)) (\<lambda>_.
         gbind (active_policy (vc_policy verified)) (\<lambda>_.
         under_gate E meanwhile verified (\<lambda>ack_id. issue_deny E verified p ack_id [(''deny'', deny_json p)])))
     | _ \<Rightarrow> graise (ValueError ''invalid deny payload''))"

definition clear_handler :: "gateway_env \<Rightarrow> unit gop \<Rightarrow> VerifiedGatewayCommand \<Rightarrow> GatewayAckV1 gop" where
  "clear_handler E meanwhile verified =
    (case gc_payload (vc_command verified) of
       ClearPayload p \<Rightarrow>
         gbind (glift (ClearDenyCommandPayload_validate p)) (\<lambda>_.
         gbind (active_policy (vc_policy verified)) (\<lambda>_.
         under_gate E meanwhile verified (\<lambda>ack_id. clear_deny E verified p ack_id [(''cleared'', clear_json p)])))
     | _ \<Rightarrow> graise (ValueError ''invalid clear-deny payload''))"

definition status_handler :: "gateway_env \<Rightarrow> unit gop \<Rightarrow> VerifiedGatewayCommand \<Rightarrow> GatewayAckV1 gop" where
  "status_handler E meanwhile verified =
    (case gc_payload (vc_command verified) of
       StatusPayload issue \<Rightarrow>
         gbind (ask_moment E) (\<lambda>w.
         under_gate E meanwhile verified (\<lambda>ack_id. record_status E verified ack_id issue (mo_readiness w)))
     | _ \<Rightarrow> graise (ValueError ''invalid status payload''))"

definition execute :: "gateway_env \<Rightarrow> unit gop \<Rightarrow> GatewayCommandV1 \<Rightarrow> GatewayAckV1 gop" where
  "execute E meanwhile c =
    gbind (glift (verify_command E c)) (\<lambda>verified.
    gbind (validate_new_command E verified) (\<lambda>existing.
    case existing of
      Some rec \<Rightarrow> acknowledge E verified rec
    | None \<Rightarrow>
      gbind (assert_unseen_binding E verified) (\<lambda>_.
      case gc_kind c of
        WC_PREPARE \<Rightarrow> gbind (prepare E meanwhile verified) (\<lambda>_. acknowledge_recorded E verified)
      | WC_COMMIT \<Rightarrow> commit_handler E meanwhile verified
      | WC_DENY \<Rightarrow> deny_handler E meanwhile verified
      | WC_CLEAR_DENY \<Rightarrow> clear_handler E meanwhile verified
      | WC_STATUS \<Rightarrow> status_handler E meanwhile verified)))"

section \<open>Generation gate and take-over\<close>

definition activation_permits :: "gateway_env \<Rightarrow> AuthorizedLeg \<Rightarrow> string \<Rightarrow> bool gop" where
  "activation_permits E leg manifest =
    gbind (permits E leg None) (\<lambda>ok. if ok then glift (ge_generation_gate E leg manifest) else gpure False)"

record takeover_env =
  te_env :: gateway_env
  te_signer :: ChannelSigner
  te_old_channel_trust :: ChannelTrustSet

definition fence_payload :: "gateway \<Rightarrow> installation_id \<Rightarrow> string \<Rightarrow> string \<Rightarrow> int \<Rightarrow> FenceReceiptPayloadV1" where
  "fence_payload s target credential_digest network_digest fenced_at_ms =
    \<lparr>fp_old_installation_id = gf_installation_id (gw_config s), fp_target_installation_id = target,
     fp_channel_epoch = gf_channel_epoch (gw_config s), fp_security_epoch = gf_security_epoch (gw_config s),
     fp_old_boot_id = gf_boot_id (gw_config s), fp_credential_digest = credential_digest,
     fp_network_digest = network_digest, fp_fence_epoch = gw_fence_epoch s + 1, fp_fenced_at_ms = fenced_at_ms\<rparr>"

definition fence_old ::
    "takeover_env \<Rightarrow> installation_id \<Rightarrow> string \<Rightarrow> string \<Rightarrow> int \<Rightarrow> FenceReceiptV1 gop" where
  "fence_old T target credential_digest network_digest fenced_at_ms s =
    (let E = te_env T in
     gbind (glift (FenceReceiptPayloadV1_validate (fence_payload s target credential_digest network_digest fenced_at_ms))) (\<lambda>payload.
     gbind (glift (seal_fence_receipt (ge_codec E)
       \<lparr>fr_payload = payload, fr_channel_seal = blank_seal (te_signer T)\<rparr> (te_signer T))) (\<lambda>receipt.
     gbind (glift (verify_fence_receipt (ge_codec E) receipt (te_old_channel_trust T) target (gw_fence_epoch s))) (\<lambda>_.
     gbind (await_durable E (record_old_fence E receipt)) (\<lambda>(_, cancelled).
     gbind (raise_if cancelled) (\<lambda>_. gpure receipt))))) s)"

definition accept_receipt :: "takeover_env \<Rightarrow> FenceReceiptV1 \<Rightarrow> unit gop" where
  "accept_receipt T receipt s =
    (let E = te_env T in
     if fp_old_installation_id (fr_payload receipt) \<noteq> ct_installation_id (te_old_channel_trust T)
     then (Inl (ValueError ''fence receipt is not from the trusted old installation''), s)
     else
      gbind (glift (verify_fence_receipt (ge_codec E) receipt (te_old_channel_trust T)
        (gf_installation_id (gw_config s)) (gw_fence_epoch s))) (\<lambda>_.
      gbind (await_durable E (accept_takeover E receipt)) (\<lambda>(_, cancelled). raise_if cancelled)) s)"

end
