(* ===== verification/Activation_Steps.thy ===== *)
theory Activation_Steps
  imports Activation_Service
begin

text \<open>
  What each operation on the local state does, as one fact per operation: a durable operation that raises
  before its transaction commits changes nothing but the count of questions, and one that got past the
  commit has its whole effect in the tables and in memory, whatever happens next.
\<close>

section \<open>Inverting a run\<close>

abbreviation asked :: "gateway \<Rightarrow> gateway" where
  "asked s \<equiv> s\<lparr>gw_calls := Suc (gw_calls s)\<rparr>"

lemma gbindE:
  assumes "gbind m f s = (r, t)"
  obtains e where "m s = (Inl e, t)" "r = Inl e"
    | x u where "m s = (Inr x, u)" "f x u = (r, t)"
  using assms by (cases "m s"; cases "fst (m s)") (auto simp: gbind_def)

lemma gbind_okE:
  assumes "gbind m f s = (Inr y, t)"
  obtains x u where "m s = (Inr x, u)" "f x u = (Inr y, t)"
  using assms by (elim gbindE) auto

lemma gtryE:
  assumes "gtry m caught h s = (r, t)"
  obtains "m s = (r, t)"
    | e u where "m s = (Inl e, u)" "caught e" "h e u = (r, t)"
  using assms by (cases "m s"; cases "fst (m s)") (auto simp: gtry_def split: if_splits)

lemma simple_ops [simp]:
  "gpure x s = (Inr x, s)" "graise e s = (Inl e, s)" "glift z s = (z, s)" "gmod f s = (Inr (), f s)"
  by (simp_all add: gpure_def graise_def glift_def gmod_def)

lemma ask_moment_eq [simp]: "ask_moment E s = (Inr (ge_moment E (gw_calls s)), asked s)"
  by (simp add: ask_moment_def)

lemma gbind_first:
  "gbind (gmod f) g s = g () (f s)" "gbind (gpure x) h s = h x s" "gbind (ask_moment E) k s = k (ge_moment E (gw_calls s)) (asked s)"
  by (simp_all add: gbind_def)

lemma now_ms_eq [simp]: "now_ms E s = (Inr (mo_now_ms (ge_moment E (gw_calls s))), asked s)"
  by (simp add: now_ms_def gbind_def)

lemma gbind_now: "gbind (now_ms E) f s = f (mo_now_ms (ge_moment E (gw_calls s))) (asked s)"
  by (simp add: gbind_def)

lemma fresh_id_eq [simp]: "fresh_id E s = (Inr (mo_fresh_id (ge_moment E (gw_calls s))), asked s)"
  by (simp add: fresh_id_def gbind_def)

lemma crash_eq [simp]: "snd (crash E point s) = asked s"
  by (simp add: crash_def gbind_def)

lemma crashE:
  assumes "crash E point s = (r, t)"
  obtains "t = asked s"
  using assms by (metis crash_eq snd_conv)

definition ticks :: "'a gop \<Rightarrow> bool" where
  "ticks m \<longleftrightarrow> (\<forall>s. \<exists>n. snd (m s) = s\<lparr>gw_calls := n\<rparr>)"

lemma ticksE:
  assumes "m s = (r, t)" "ticks m"
  obtains n where "t = s\<lparr>gw_calls := n\<rparr>"
  using assms by (metis ticks_def snd_conv)

lemma ticks_crash [simp]: "ticks (crash E point)"
  by (auto simp: ticks_def)

lemma ticks_bind: "ticks m \<Longrightarrow> (\<And>x. ticks (f x)) \<Longrightarrow> ticks (gbind m f)"
  unfolding ticks_def gbind_def
  by (auto split: prod.splits sum.splits) (metis (no_types, lifting) snd_conv gateway.surjective gateway.update_convs(16))+

lemma calls_same [simp]: "\<exists>n. (s :: gateway) = s\<lparr>gw_calls := n\<rparr>"
  by (rule exI [of _ "gw_calls s"]) simp

lemma ticks_pure [simp]: "ticks (gpure x)" "ticks (graise e)" "ticks (glift z)"
  by (simp_all add: ticks_def)

lemma ticks_seq: "(\<And>m. m \<in> set ms \<Longrightarrow> ticks m) \<Longrightarrow> ticks (gseq ms)"
  by (induction ms) (auto intro!: ticks_bind)

lemma ticks_then:
  assumes "gbind m f s = (r, t)" "ticks m"
  obtains e n where "r = Inl e" "t = s\<lparr>gw_calls := n\<rparr>"
    | x n where "m s = (Inr x, s\<lparr>gw_calls := n\<rparr>)" "f x (s\<lparr>gw_calls := n\<rparr>) = (r, t)"
  using assms(1)
proof (rule gbindE)
  fix e assume "m s = (Inl e, t)" "r = Inl e"
  then show thesis using assms(2) that(1) by (metis ticksE)
next
  fix x u assume 1: "m s = (Inr x, u)" "f x u = (r, t)"
  then obtain n where "u = s\<lparr>gw_calls := n\<rparr>" using assms(2) by (metis ticksE)
  then show thesis using 1 that(2) by blast
qed

section \<open>Transactions\<close>

definition db_body :: "'a gop \<Rightarrow> bool" where
  "db_body m \<longleftrightarrow> (\<forall>s. \<exists>db n. snd (m s) = (upd_db (\<lambda>_. db) s)\<lparr>gw_calls := n\<rparr>)"

lemma upd_db_simps [simp]:
  "gw_disk (upd_db f s) = (gw_disk s)\<lparr>gd_db := f (gw_db s)\<rparr>"
  "gw_config (upd_db f s) = gw_config s" "gw_active (upd_db f s) = gw_active s"
  "gw_staged (upd_db f s) = gw_staged s" "gw_previous (upd_db f s) = gw_previous s"
  "gw_base (upd_db f s) = gw_base s" "gw_active_bundle (upd_db f s) = gw_active_bundle s"
  "gw_recovery_reason (upd_db f s) = gw_recovery_reason s" "gw_denies (upd_db f s) = gw_denies s"
  "gw_deny_highwater (upd_db f s) = gw_deny_highwater s" "gw_deny_heartbeat_ms (upd_db f s) = gw_deny_heartbeat_ms s"
  "gw_recovery_required (upd_db f s) = gw_recovery_required s" "gw_takeover_state (upd_db f s) = gw_takeover_state s"
  "gw_fence_epoch (upd_db f s) = gw_fence_epoch s" "gw_applied (upd_db f s) = gw_applied s"
  "gw_calls (upd_db f s) = gw_calls s"
  by (simp_all add: upd_db_def)

lemma upd_db_upd_db [simp]: "upd_db f (upd_db g s) = upd_db (\<lambda>db. f (g db)) s"
  by (simp add: upd_db_def)

lemma upd_db_const: "upd_db f s = upd_db (\<lambda>_. f (gw_db s)) s"
  by (simp add: upd_db_def)

lemma upd_db_same [simp]: "upd_db (\<lambda>_. gw_db s) s = s" "upd_db (\<lambda>db. db) s = s"
  by (simp_all add: upd_db_def)

lemma upd_db_calls [simp]: "upd_db f (s\<lparr>gw_calls := n\<rparr>) = (upd_db f s)\<lparr>gw_calls := n\<rparr>"
  by (simp add: upd_db_def)

lemma db_bodyI: "(\<And>s. \<exists>f n. snd (m s) = (upd_db f s)\<lparr>gw_calls := n\<rparr>) \<Longrightarrow> db_body m"
  unfolding db_body_def by (metis upd_db_const)

lemma db_body_ticks: "ticks m \<Longrightarrow> db_body m"
  unfolding ticks_def by (intro db_bodyI exI [of _ "\<lambda>db. db"]) simp

lemma db_body_simple [simp]:
  "db_body (gpure x)" "db_body (graise e)" "db_body (glift z)" "db_body (gmod (upd_db f))"
  by (simp_all add: db_body_ticks) (rule db_bodyI, rule exI [of _ f], simp)

lemma db_body_bind:
  assumes "db_body m" "\<And>x. db_body (f x)"
  shows "db_body (gbind m f)"
proof (rule db_bodyI)
  fix s
  obtain r u where run: "m s = (r, u)" by fastforce
  obtain db n where u: "u = (upd_db (\<lambda>_. db) s)\<lparr>gw_calls := n\<rparr>"
    using assms(1) run by (metis db_body_def snd_conv)
  show "\<exists>g k. snd (gbind m f s) = (upd_db g s)\<lparr>gw_calls := k\<rparr>"
  proof (cases r)
    case (Inl e)
    then show ?thesis using run u by (auto simp: gbind_def)
  next
    case (Inr x)
    obtain db' k where "snd (f x u) = (upd_db (\<lambda>_. db') u)\<lparr>gw_calls := k\<rparr>"
      using assms(2) [of x] by (metis db_body_def)
    then show ?thesis using run u Inr by (auto simp: gbind_def)
  qed
qed

lemma transactionE:
  assumes "transaction E body s = (r, t)" "db_body body"
  obtains e n where "r = Inl e" "t = s\<lparr>gw_calls := n\<rparr>"
    | x u where "r = Inr x" "body s = (Inr x, u)" "t = asked u"
proof -
  obtain q u where run: "body s = (q, u)" by fastforce
  obtain db n where u: "u = (upd_db (\<lambda>_. db) s)\<lparr>gw_calls := n\<rparr>"
    using assms(2) run by (metis db_body_def snd_conv)
  show thesis
  proof (cases q)
    case (Inl e)
    then show thesis using assms(1) run u that(1) by (auto simp: transaction_def gbind_def)
  next
    case (Inr x)
    then show thesis using assms(1) run u that
      by (cases "mo_commit_fails (ge_moment E n)") (auto simp: transaction_def gbind_def)
  qed
qed


lemma transaction_then:
  assumes run: "gbind (transaction E body) (\<lambda>x. gbind (gmod f) (\<lambda>_. after x)) s = (r, t)"
    and db: "db_body body" and after: "\<And>x. ticks (after x)"
    and f: "\<And>s n. f (s\<lparr>gw_calls := n\<rparr>) = (f s)\<lparr>gw_calls := n\<rparr>"
  obtains e n where "r = Inl e" "t = s\<lparr>gw_calls := n\<rparr>"
    | x u n where "body s = (Inr x, u)" "t = (f u)\<lparr>gw_calls := n\<rparr>"
  using run
proof (rule gbindE)
  fix e assume "transaction E body s = (Inl e, t)" "r = Inl e"
  then show thesis using db that(1) by (elim transactionE) auto
next
  fix x u assume 1: "transaction E body s = (Inr x, u)" "gbind (gmod f) (\<lambda>_. after x) u = (r, t)"
  obtain u' where u': "body s = (Inr x, u')" "u = asked u'" using 1(1) db by (elim transactionE) auto
  have "after x (f u) = (r, t)" using 1(2) by (simp add: gbind_def)
  then obtain n where "t = (f u)\<lparr>gw_calls := n\<rparr>" using after by (elim ticksE) auto
  then show thesis using u' that(2) by (simp add: f)
qed

section \<open>Rows\<close>

definition meta_is :: "gateway_env \<Rightarrow> gateway_db \<Rightarrow> string \<Rightarrow> meta_value \<Rightarrow> bool" where
  "meta_is E db k v \<longleftrightarrow>
    (\<exists>row. map_of (db_meta db) k = Some row \<and> sealed (ge_codec E) ''meta'' (meta_json k v) v = Inr row)"

definition pointer_is :: "gateway_env \<Rightarrow> gateway_db \<Rightarrow> string \<Rightarrow> BundleReference option \<Rightarrow> bool" where
  "pointer_is E db name ref \<longleftrightarrow>
    (case ref of
       None \<Rightarrow> map_of (db_pointers db) name = None
     | Some r \<Rightarrow> \<exists>row. map_of (db_pointers db) name = Some row \<and>
         sealed (ge_codec E) ''pointers'' (pointer_json name r) r = Inr row)"

lemma sealed_Inr: "sealed C table j v = Inr row \<longleftrightarrow>
    (\<exists>c. checksum C table j = Inr c \<and> row = \<lparr>rw_value = v, rw_checksum = c\<rparr>)"
  by (auto simp: sealed_def res_map_Inr)

lemma unseal_sealed: "sealed C table j v = Inr row \<Longrightarrow> unseal C table j corrupt row = Inr v"
  by (auto simp: sealed_Inr unseal_def)

lemma sealed_value: "sealed C table j v = Inr row \<Longrightarrow> rw_value row = v"
  by (auto simp: sealed_Inr)

lemma meta_read: "meta_is E (gw_db s) k v \<Longrightarrow> meta E k s = (Inr (Some v), s)"
  by (auto simp: meta_is_def meta_def sealed_value unseal_sealed)

lemma set_meta_ok:
  assumes "set_meta E k v s = (Inr x, t)"
  obtains row where "sealed (ge_codec E) ''meta'' (meta_json k v) v = Inr row"
    "t = upd_db (\<lambda>db. db\<lparr>db_meta := AList.update k row (db_meta db)\<rparr>) s"
  using assms unfolding set_meta_def by (elim gbind_okE) auto

lemma meta_is_update [simp]:
  "sealed (ge_codec E) ''meta'' (meta_json k v) v = Inr row \<Longrightarrow> db_meta db' = AList.update k row (db_meta db) \<Longrightarrow>
    meta_is E db' j w \<longleftrightarrow> (if j = k then w = v else meta_is E db j w)"
  by (auto simp: meta_is_def map_of_update sealed_Inr)

lemma pointer_is_cong: "db_pointers db = db_pointers db' \<Longrightarrow> pointer_is E db = pointer_is E db'"
  by (intro ext) (simp add: pointer_is_def split: option.split)

text \<open>\<open>db'\<close> has the pointers of \<open>f\<close> set and the others of \<open>db\<close>.\<close>

definition repointed :: "gateway_env \<Rightarrow> (string \<rightharpoonup> BundleReference option) \<Rightarrow> gateway_db \<Rightarrow> gateway_db \<Rightarrow> bool" where
  "repointed E f db db' \<longleftrightarrow>
    (\<forall>name q. pointer_is E db' name q \<longleftrightarrow> (case f name of None \<Rightarrow> pointer_is E db name q | Some ref \<Rightarrow> q = ref))"

definition moves :: "gateway_env \<Rightarrow> (string \<rightharpoonup> BundleReference option) \<Rightarrow> gateway \<Rightarrow> gateway \<Rightarrow> bool" where
  "moves E f s t \<longleftrightarrow> (\<exists>ps. t = upd_db (\<lambda>db. db\<lparr>db_pointers := ps\<rparr>) s) \<and> repointed E f (gw_db s) (gw_db t)"

lemma moves_none: "moves E Map.empty s s"
  by (auto simp: moves_def repointed_def upd_db_def intro: exI [of _ "db_pointers (gw_db s)"])

lemma put_pointer_moves:
  assumes "put_pointer E name ref u = (Inr x, t)" "moves E f s u"
  shows "moves E (f(name \<mapsto> ref)) s t"
proof -
  obtain ps where t: "t = upd_db (\<lambda>db. db\<lparr>db_pointers := ps\<rparr>) u"
    and p: "\<And>n q. pointer_is E (gw_db t) n q \<longleftrightarrow> (if n = name then q = ref else pointer_is E (gw_db u) n q)"
  proof (cases ref)
    case None
    with assms(1) have t: "t = upd_db (\<lambda>db. db\<lparr>db_pointers := AList.delete name (db_pointers db)\<rparr>) u"
      by (simp add: put_pointer_def)
    show thesis
      by (rule that [of "AList.delete name (db_pointers (gw_db u))"])
        (auto simp: t None pointer_is_def map_of_delete_upd upd_db_def split: option.splits)
  next
    case (Some r)
    then obtain row where row: "sealed (ge_codec E) ''pointers'' (pointer_json name r) r = Inr row"
        "t = upd_db (\<lambda>db. db\<lparr>db_pointers := AList.update name row (db_pointers db)\<rparr>) u"
      using assms(1) unfolding put_pointer_def by (auto elim: gbind_okE)
    show thesis
      by (rule that [of "AList.update name row (db_pointers (gw_db u))"])
        (use row(1) in \<open>auto simp: row(2) Some pointer_is_def map_of_update upd_db_def sealed_Inr split: option.splits\<close>)
  qed
  have "\<exists>ps. t = upd_db (\<lambda>db. db\<lparr>db_pointers := ps\<rparr>) s"
    using assms(2) by (auto simp: moves_def t)
  then show ?thesis using assms(2) by (simp add: moves_def repointed_def p)
qed

section \<open>The command log\<close>

definition next_in_chain :: "gateway_db \<Rightarrow> GatewayCommandV1 \<Rightarrow> bool" where
  "next_in_chain db c \<longleftrightarrow>
    (case map_of (db_channel_state db) (gc_channel_epoch c) of
       None \<Rightarrow> gc_sequence c = 1 \<and> gc_previous_digest c = ZERO_DIGEST
     | Some row \<Rightarrow> gc_sequence c = fst (rw_value row) + 1 \<and> gc_previous_digest c = snd (rw_value row))"

definition log_values :: "VerifiedGatewayCommand \<Rightarrow> ack_id \<Rightarrow> GatewayAckStatus \<Rightarrow> json_object \<Rightarrow> command_values" where
  "log_values v a st res = (let c = vc_command v in
    \<lparr>cm_digest = vc_command_digest v, cm_channel_epoch = gc_channel_epoch c, cm_sequence = gc_sequence c,
     cm_ack_id = a, cm_status = st, cm_result = res, cm_ack = None\<rparr>)"

text \<open>\<open>v\<close> was the next command of its chain in \<open>db\<close>, and \<open>db'\<close> has its record and the moved chain.\<close>

definition logged :: "gateway_env \<Rightarrow> VerifiedGatewayCommand \<Rightarrow> GatewayAckStatus \<Rightarrow> gateway_db \<Rightarrow> gateway_db \<Rightarrow> bool" where
  "logged E v st db db' \<longleftrightarrow>
    (let c = vc_command v in
     next_in_chain db c \<and> map_of (db_commands db) (gc_command_id c) = None \<and>
     (\<exists>row. db_channel_state db' = AList.update (gc_channel_epoch c) row (db_channel_state db) \<and>
        rw_value row = (gc_sequence c, vc_command_digest v)) \<and>
     (\<exists>row a res. map_of (db_commands db') (gc_command_id c) = Some row \<and>
        sealed (ge_codec E) ''commands'' (command_row_json (gc_command_id c) (log_values v a st res)) (log_values v a st res) = Inr row))"

lemma validate_new_same: "snd (validate_new_command E v s) = s"
  by (simp add: validate_new_command_def Let_def)

lemma ticks_validate [simp]: "ticks (validate_new_command E v)"
  by (simp add: ticks_def validate_new_same)

lemma validate_new_None:
  assumes "validate_new_command E v s = (Inr None, t)"
  shows "t = s" "map_of (db_commands (gw_db s)) (gc_command_id (vc_command v)) = None" "next_in_chain (gw_db s) (vc_command v)"
  using assms
  by (auto simp: validate_new_command_def next_in_chain_def Let_def res_bind_Inr res_map_Inr unseal_def
      split: option.splits if_splits prod.splits)

lemma db_body_if: "db_body (\<lambda>s. if P s then (a, s) else (b, upd_db f s))"
proof (rule db_bodyI)
  fix s
  show "\<exists>g n. snd (if P s then (a, s) else (b, upd_db f s)) = (upd_db g s)\<lparr>gw_calls := n\<rparr>"
    by (rule exI [of _ "\<lambda>db. if P s then db else f db"], rule exI [of _ "gw_calls s"]) simp
qed

lemma db_body_ops [simp]:
  "db_body (set_meta E k v)" "db_body (put_pointer E name ref)" "db_body (put_highwater E dk hw)" "db_body (put_deny E d)"
  "db_body (insert_command E i cv)" "db_body (reserve_command_record E)"
proof -
  show "db_body (set_meta E k v)" unfolding set_meta_def by (intro db_body_bind) simp_all
  show "db_body (put_pointer E name ref)" unfolding put_pointer_def by (cases ref) (auto intro!: db_body_bind)
  show "db_body (put_highwater E dk hw)" unfolding put_highwater_def by (intro db_body_bind) simp_all
  show "db_body (put_deny E d)" unfolding put_deny_def by (intro db_body_bind) simp_all
  show "db_body (insert_command E i cv)" unfolding insert_command_def by (intro db_body_bind db_body_if) simp
  show "db_body (reserve_command_record E)"
  proof (rule db_bodyI)
    fix s
    show "\<exists>f n. snd (reserve_command_record E s) = (upd_db f s)\<lparr>gw_calls := n\<rparr>"
      by (rule exI [of _ "\<lambda>_. gw_db (snd (reserve_command_record E s))"], rule exI [of _ "gw_calls s"])
        (simp add: reserve_command_record_def Let_def upd_db_def)
  qed
qed


lemma db_body_pending [simp]: "db_body (record_pending E v a st res)"
  unfolding record_pending_def Let_def by (auto intro!: db_body_bind db_body_ticks [OF ticks_validate])

lemma reserve_ok:
  assumes "reserve_command_record E s = (Inr x, t)"
  obtains cmds where "t = upd_db (\<lambda>db. db\<lparr>db_commands := cmds\<rparr>) s"
    "set cmds \<subseteq> set (db_commands (gw_db s))"
proof (rule that)
  show "t = upd_db (\<lambda>db. db\<lparr>db_commands := db_commands (gw_db t)\<rparr>) s" "set (db_commands (gw_db t)) \<subseteq> set (db_commands (gw_db s))"
    using assms by (auto simp: reserve_command_record_def Let_def upd_db_def split: if_splits)
qed

lemma insert_ok:
  assumes "insert_command E i cv s = (Inr x, t)"
  obtains row where "sealed (ge_codec E) ''commands'' (command_row_json i cv) cv = Inr row"
    "map_of (db_commands (gw_db s)) i = None" "t = upd_db (\<lambda>db. db\<lparr>db_commands := db_commands db @ [(i, row)]\<rparr>) s"
  using assms unfolding insert_command_def
  by (elim gbind_okE) (auto simp: map_of_eq_None_iff split: if_splits)

lemma record_pending_ok:
  assumes "record_pending E v a st res s = (Inr x, t)"
  obtains cmds chain where "t = upd_db (\<lambda>db. db\<lparr>db_commands := cmds, db_channel_state := chain\<rparr>) s" "logged E v st (gw_db s) (gw_db t)"
proof -
  let ?c = "vc_command v" and ?v = "log_values v a st res"
  obtain s1 s2 row where new: "validate_new_command E v s = (Inr None, s)" and s1: "reserve_command_record E s = (Inr (), s1)"
    and s2: "insert_command E (gc_command_id ?c) ?v s1 = (Inr (), s2)"
    and row: "sealed (ge_codec E) ''channel_state'' (channel_json (gc_channel_epoch ?c) (gc_sequence ?c, vc_command_digest v))
        (gc_sequence ?c, vc_command_digest v) = Inr row"
    and t: "t = upd_db (\<lambda>db. db\<lparr>db_channel_state := AList.update (gc_channel_epoch ?c) row (db_channel_state db)\<rparr>) s2"
    using assms unfolding record_pending_def Let_def log_values_def [symmetric, unfolded Let_def]
    by (elim gbind_okE) (use validate_new_same [of E v s] in \<open>auto split: if_splits elim!: gbind_okE\<close>)
  obtain cmds where cmds: "s1 = upd_db (\<lambda>db. db\<lparr>db_commands := cmds\<rparr>) s" using s1 by (elim reserve_ok)
  obtain crow where crow: "sealed (ge_codec E) ''commands'' (command_row_json (gc_command_id ?c) ?v) ?v = Inr crow"
      "map_of cmds (gc_command_id ?c) = None" "s2 = upd_db (\<lambda>db. db\<lparr>db_commands := db_commands db @ [(gc_command_id ?c, crow)]\<rparr>) s1"
    using s2 by (elim insert_ok) (simp add: cmds)
  show thesis
  proof (rule that)
    show "t = upd_db (\<lambda>db. db\<lparr>db_commands := cmds @ [(gc_command_id ?c, crow)],
        db_channel_state := AList.update (gc_channel_epoch ?c) row (db_channel_state (gw_db s))\<rparr>) s"
      by (simp add: t crow(3) cmds upd_db_def)
    show "logged E v st (gw_db s) (gw_db t)"
      using crow(1,2) validate_new_None [OF new] sealed_value [OF row]
      by (auto simp: logged_def Let_def t crow(3) cmds map_add_def)
  qed
qed


section \<open>Preparation and commit\<close>

definition same_tables :: "gateway_db \<Rightarrow> gateway_db \<Rightarrow> bool" where
  "same_tables db db' \<longleftrightarrow> db_meta db' = db_meta db \<and> db_denies db' = db_denies db \<and>
     db_deny_highwater db' = db_deny_highwater db \<and> db_auth_leases db' = db_auth_leases db \<and>
     db_fence_receipts db' = db_fence_receipts db"

definition above_floor :: "gateway \<Rightarrow> BundleReference \<Rightarrow> bool" where
  "above_floor s ref \<longleftrightarrow> (\<forall>floor. deny_floor_generation s = Some floor \<longrightarrow> floor < br_generation ref)"

definition prepared :: "gateway_env \<Rightarrow> VerifiedGatewayCommand \<Rightarrow> BundleReference \<Rightarrow> BaseReference option \<Rightarrow> gateway \<Rightarrow> gateway \<Rightarrow> bool" where
  "prepared E v ref base s t \<longleftrightarrow>
    (\<exists>db n. t = (upd_db (\<lambda>_. db) s)\<lparr>gw_staged := Some ref, gw_base := base, gw_calls := n\<rparr> \<and>
       logged E v GA_PREPARED (gw_db s) db \<and> same_tables (gw_db s) db \<and>
       repointed E [''staged'' \<mapsto> Some ref, ''base'' \<mapsto> base] (gw_db s) db) \<and>
    gw_active s = base \<and> gw_staged s = None \<and> above_floor s ref \<and>
    (\<forall>b. base = Some b \<longrightarrow> br_generation b < br_generation ref)"

definition committed :: "gateway_env \<Rightarrow> VerifiedGatewayCommand \<Rightarrow> BundleReference \<Rightarrow> gateway \<Rightarrow> gateway \<Rightarrow> bool" where
  "committed E v ref s t \<longleftrightarrow>
    (\<exists>db bundle n payload. t = s\<lparr>gw_disk := (gw_disk s)\<lparr>gd_db := db, gd_pointer_file := Some payload\<rparr>, gw_previous := gw_active s,
         gw_active := Some ref, gw_active_bundle := Some bundle, gw_staged := None, gw_base := None, gw_calls := n\<rparr> \<and>
       fst (load_bundle E (br_bundle_hash ref) s) = Inr bundle \<and>
       logged E v GA_APPLIED (gw_db s) db \<and> same_tables (gw_db s) db \<and>
       repointed E [''previous'' \<mapsto> gw_active s, ''active'' \<mapsto> Some ref, ''staged'' \<mapsto> None, ''base'' \<mapsto> None] (gw_db s) db) \<and>
    gw_staged s = Some ref \<and> gw_base s = gw_active s \<and> above_floor s ref"

lemma prepare_reference_ok:
  assumes "validate_prepare_reference base ref s = (Inr x, t)"
  shows "t = s" "gw_active s = base" "gw_staged s = None" "above_floor s ref"
    "\<And>b. base = Some b \<Longrightarrow> br_generation b < br_generation ref"
  using assms by (auto simp: validate_prepare_reference_def checks_Inr above_floor_def not_le split: option.splits)

lemma commit_reference_ok:
  assumes "validate_commit_reference ref s = (Inr x, t)"
  shows "t = s" "gw_staged s = Some ref" "above_floor s ref" "gw_base s = gw_active s"
  using assms by (auto simp: validate_commit_reference_def checks_Inr above_floor_def not_le split: option.splits)

lemma reference_run:
  "validate_prepare_reference base ref s = (x, t) \<longleftrightarrow> fst (validate_prepare_reference base ref s) = x \<and> t = s"
  "validate_commit_reference ref s = (x, t) \<longleftrightarrow> fst (validate_commit_reference ref s) = x \<and> t = s"
  by (auto simp: validate_prepare_reference_def validate_commit_reference_def)

lemma ticks_reference [simp]: "ticks (validate_prepare_reference base ref)" "ticks (validate_commit_reference ref)"
  by (simp_all add: ticks_def validate_prepare_reference_def validate_commit_reference_def)

lemma above_floor_calls [simp]: "above_floor (s\<lparr>gw_calls := n\<rparr>) ref = above_floor s ref"
  by (simp add: above_floor_def deny_floor_generation_def)

lemma moves_logged:
  assumes m: "moves E f s u" and l: "record_pending E v a st res u = (Inr x, t)"
  shows "\<exists>db. t = upd_db (\<lambda>_. db) s \<and> logged E v st (gw_db s) db \<and> same_tables (gw_db s) db \<and> repointed E f (gw_db s) db"
proof -
  obtain ps where u: "u = upd_db (\<lambda>db. db\<lparr>db_pointers := ps\<rparr>) s" using m by (auto simp: moves_def)
  obtain cmds chain where t: "t = upd_db (\<lambda>db. db\<lparr>db_commands := cmds, db_channel_state := chain\<rparr>) u"
      "logged E v st (gw_db u) (gw_db t)"
    using l by (rule record_pending_ok)
  show ?thesis
  proof (intro exI conjI)
    show "t = upd_db (\<lambda>_. gw_db t) s" unfolding t u by (simp add: upd_db_def)
    show "logged E v st (gw_db s) (gw_db t)" using t(2) by (simp add: u logged_def next_in_chain_def)
    show "same_tables (gw_db s) (gw_db t)" by (simp add: t u same_tables_def)
    have "pointer_is E (gw_db t) = pointer_is E (gw_db u)" by (rule pointer_is_cong) (simp add: t)
    then show "repointed E f (gw_db s) (gw_db t)"
      using m by (simp add: moves_def repointed_def)
  qed
qed

definition insert_bundle :: "string \<Rightarrow> (int \<times> nat) sealed_row \<Rightarrow> gateway_db \<Rightarrow> gateway_db" where
  "insert_bundle h row db = (if dict_has (db_bundles db) h then db else db\<lparr>db_bundles := db_bundles db @ [(h, row)]\<rparr>)"

lemma insert_bundle_same [simp]:
  "db_meta (insert_bundle h row db) = db_meta db" "db_pointers (insert_bundle h row db) = db_pointers db"
  "db_commands (insert_bundle h row db) = db_commands db" "db_channel_state (insert_bundle h row db) = db_channel_state db"
  "db_denies (insert_bundle h row db) = db_denies db" "db_auth_leases (insert_bundle h row db) = db_auth_leases db"
  "db_fence_receipts (insert_bundle h row db) = db_fence_receipts db"
  "db_deny_highwater (insert_bundle h row db) = db_deny_highwater db"
  by (simp_all add: insert_bundle_def)

lemma logged_cong:
  "db_commands db = db_commands db' \<Longrightarrow> db_channel_state db = db_channel_state db' \<Longrightarrow> logged E v st db = logged E v st db'"
  by (intro ext) (simp add: logged_def next_in_chain_def)

lemma logged_insert: "logged E v st (insert_bundle h row db) = logged E v st db"
  by (rule logged_cong) simp_all

lemma same_insert: "same_tables (insert_bundle h row db) = same_tables db"
  by (intro ext) (simp add: same_tables_def)

lemma repointed_cong:
  assumes "db_pointers db = db_pointers db'"
  shows "repointed E f db = repointed E f db'"
  by (intro ext, unfold repointed_def pointer_is_cong [OF assms], rule refl)

lemma pointer_insert: "repointed E f (insert_bundle h row db) = repointed E f db"
  by (rule repointed_cong) simp

lemma moves_calls: "moves E f s u \<Longrightarrow> gw_calls u = gw_calls s"
  by (auto simp: moves_def)

lemma stage_prepare_cases:
  assumes run: "stage_prepare E v bundle ref base a res s = (r, t)"
  obtains e n where "r = Inl e" "t = s\<lparr>gw_calls := n\<rparr>" | "prepared E v ref base s t"
proof -
  let ?body = "gbind (glift (canonical_bundle_bytes (cd_bundle_json (ge_codec E)) bundle)) (\<lambda>bytes.
      gbind (glift (sealed (ge_codec E) ''bundles'' (bundle_row_json (br_bundle_hash ref) (br_generation ref, length bytes))
        (br_generation ref, length bytes))) (\<lambda>row.
      gbind (gmod (upd_db (insert_bundle (br_bundle_hash ref) row))) (\<lambda>_.
      gbind (put_pointer E ''staged'' (Some ref)) (\<lambda>_.
      gbind (put_pointer E ''base'' base) (\<lambda>_.
      record_pending E v a GA_PREPARED res)))))"
  have db: "db_body ?body" by (auto intro!: db_body_bind)
  have op: "stage_prepare E v bundle ref base a res =
      gbind (validate_prepare_reference base ref) (\<lambda>_. gbind (crash E ''staged_before_commit'') (\<lambda>_.
      gbind (transaction E ?body) (\<lambda>_. gbind (gmod (\<lambda>s. s\<lparr>gw_staged := Some ref, gw_base := base\<rparr>)) (\<lambda>_.
      crash E ''staged_after_commit''))))"
    unfolding stage_prepare_def insert_bundle_def by (simp add: fun_eq_iff)
  consider e n where "r = Inl e" "t = s\<lparr>gw_calls := n\<rparr>"
    | x u n k where "validate_prepare_reference base ref s = (Inr (), s)" "?body (s\<lparr>gw_calls := k\<rparr>) = (Inr x, u)"
        "t = u\<lparr>gw_staged := Some ref, gw_base := base, gw_calls := n\<rparr>"
    using run unfolding op
  proof (rule ticks_then)
    fix x n assume check: "validate_prepare_reference base ref s = (Inr x, s\<lparr>gw_calls := n\<rparr>)"
      and "gbind (crash E ''staged_before_commit'') (\<lambda>_. gbind (transaction E ?body)
        (\<lambda>_. gbind (gmod (\<lambda>s. s\<lparr>gw_staged := Some ref, gw_base := base\<rparr>)) (\<lambda>_. crash E ''staged_after_commit'')))
        (s\<lparr>gw_calls := n\<rparr>) = (r, t)"
    from this(2) show thesis
    proof (rule ticks_then)
      fix y k assume "gbind (transaction E ?body) (\<lambda>_. gbind (gmod (\<lambda>s. s\<lparr>gw_staged := Some ref, gw_base := base\<rparr>))
          (\<lambda>_. crash E ''staged_after_commit'')) (s\<lparr>gw_calls := n, gw_calls := k\<rparr>) = (r, t)"
      then show thesis
      proof (rule transaction_then [OF _ db])
        fix x u m assume "?body (s\<lparr>gw_calls := n, gw_calls := k\<rparr>) = (Inr x, u)"
          "t = u\<lparr>gw_staged := Some ref, gw_base := base\<rparr>\<lparr>gw_calls := m\<rparr>"
        then show thesis using check by (intro that(2)) (simp_all add: reference_run)
      qed (auto intro: that(1))
    qed (auto intro: that(1))
  qed (auto intro: that(1))
  then show thesis
  proof cases
    case 2
    obtain row s2 s3 where b: "put_pointer E ''staged'' (Some ref) (upd_db (insert_bundle (br_bundle_hash ref) row) (s\<lparr>gw_calls := k\<rparr>)) = (Inr (), s2)"
        "put_pointer E ''base'' base s2 = (Inr (), s3)" "record_pending E v a GA_PREPARED res s3 = (Inr x, u)"
      using 2(2) by (auto elim!: gbind_okE)
    have "moves E [''staged'' \<mapsto> Some ref, ''base'' \<mapsto> base] (upd_db (insert_bundle (br_bundle_hash ref) row) (s\<lparr>gw_calls := k\<rparr>)) s3"
      by (rule put_pointer_moves [OF b(2) put_pointer_moves [OF b(1) moves_none]])
    from moves_logged [OF this b(3)] obtain db where db: "u = (upd_db (\<lambda>_. db) s)\<lparr>gw_calls := k\<rparr>"
        "logged E v GA_PREPARED (gw_db s) db" "same_tables (gw_db s) db"
        "repointed E [''staged'' \<mapsto> Some ref, ''base'' \<mapsto> base] (gw_db s) db"
      by (auto simp: logged_insert same_insert pointer_insert)
    show thesis
    proof (rule that(2), unfold prepared_def, intro conjI exI)
      show "t = (upd_db (\<lambda>_. db) s)\<lparr>gw_staged := Some ref, gw_base := base, gw_calls := n\<rparr>"
        by (simp add: 2(3) db(1))
    qed (use db(2,3,4) prepare_reference_ok [OF 2(1)] in auto)
  qed (rule that(1))
qed


abbreviation upd_pointer_file :: "string option \<Rightarrow> gateway \<Rightarrow> gateway" where
  "upd_pointer_file p s \<equiv> s\<lparr>gw_disk := (gw_disk s)\<lparr>gd_pointer_file := p\<rparr>\<rparr>"

lemma write_pointer_run:
  assumes "write_active_pointer E payload inject s = (r, t)"
  obtains p n where "t = (upd_pointer_file p s)\<lparr>gw_calls := n\<rparr>" "r = Inr () \<Longrightarrow> p = Some payload"
proof -
  have pre: "ticks (if inject then gseq [crash E ''active_pointer_after_write'', crash E ''active_pointer_after_fsync''] else gpure ())"
    and post: "ticks (if inject then gseq [crash E ''active_pointer_after_rename'', crash E ''active_pointer_after_dir_fsync''] else gpure ())"
    by (auto intro!: ticks_bind)
  show thesis
    using assms unfolding write_active_pointer_def
  proof (rule ticks_then [OF _ pre])
    fix e n assume "r = Inl e" "t = s\<lparr>gw_calls := n\<rparr>"
    then show thesis using that [where p = "gd_pointer_file (gw_disk s)" and n = n] by simp
  next
    fix x n assume "gbind (gmod (\<lambda>s. s\<lparr>gw_disk := (gw_disk s)\<lparr>gd_pointer_file := Some payload\<rparr>\<rparr>)) (\<lambda>_.
      if inject then gseq [crash E ''active_pointer_after_rename'', crash E ''active_pointer_after_dir_fsync''] else gpure ())
      (s\<lparr>gw_calls := n\<rparr>) = (r, t)"
    then have "(if inject then gseq [crash E ''active_pointer_after_rename'', crash E ''active_pointer_after_dir_fsync''] else gpure ())
        (upd_pointer_file (Some payload) (s\<lparr>gw_calls := n\<rparr>)) = (r, t)"
      unfolding gbind_first .
    from ticksE [OF this post] obtain k where "t = (upd_pointer_file (Some payload) (s\<lparr>gw_calls := n\<rparr>))\<lparr>gw_calls := k\<rparr>" by blast
    then show thesis using that [where p = "Some payload" and n = k] by simp
  qed
qed

lemma load_bundle_same: "snd (load_bundle E h s) = s"
  by (simp add: load_bundle_def)

lemma ticks_load_bundle [simp]: "ticks (load_bundle E h)"
  by (simp add: ticks_def load_bundle_same)

lemma load_bundle_cong:
  "map_of (gd_bundle_files (gw_disk s)) h = map_of (gd_bundle_files (gw_disk t)) h \<Longrightarrow> gw_config s = gw_config t \<Longrightarrow>
    fst (load_bundle E h s) = fst (load_bundle E h t)"
  by (simp add: load_bundle_def split: option.split)

lemma commit_body:
  assumes "gbind (put_pointer E ''previous'' prev) (\<lambda>_. gbind (put_pointer E ''active'' (Some ref)) (\<lambda>_.
      gbind (put_pointer E ''staged'' None) (\<lambda>_. gbind (put_pointer E ''base'' None) (\<lambda>_.
      record_pending E v a GA_APPLIED res)))) s = (Inr x, u)"
  obtains db where "u = upd_db (\<lambda>_. db) s" "logged E v GA_APPLIED (gw_db s) db" "same_tables (gw_db s) db"
    "repointed E [''previous'' \<mapsto> prev, ''active'' \<mapsto> Some ref, ''staged'' \<mapsto> None, ''base'' \<mapsto> None] (gw_db s) db"
proof -
  obtain s1 s2 s3 s4 where b: "put_pointer E ''previous'' prev s = (Inr (), s1)" "put_pointer E ''active'' (Some ref) s1 = (Inr (), s2)"
      "put_pointer E ''staged'' None s2 = (Inr (), s3)" "put_pointer E ''base'' None s3 = (Inr (), s4)"
    and l: "record_pending E v a GA_APPLIED res s4 = (Inr x, u)"
    using assms by (auto elim!: gbind_okE)
  have "moves E [''previous'' \<mapsto> prev, ''active'' \<mapsto> Some ref, ''staged'' \<mapsto> None, ''base'' \<mapsto> None] s s4"
    by (rule put_pointer_moves [OF b(4) put_pointer_moves [OF b(3) put_pointer_moves [OF b(2) put_pointer_moves [OF b(1) moves_none]]]])
  from moves_logged [OF this l] show thesis
    by (elim exE conjE) (rule that)
qed


lemma commit_transaction_cases:
  assumes run: "gbind (transaction E (gbind (put_pointer E ''previous'' (gw_active s)) (\<lambda>_. gbind (put_pointer E ''active'' (Some ref)) (\<lambda>_.
      gbind (put_pointer E ''staged'' None) (\<lambda>_. gbind (put_pointer E ''base'' None) (\<lambda>_.
      record_pending E v a GA_APPLIED res)))))) (\<lambda>_.
    gbind (gmod (\<lambda>s. s\<lparr>gw_previous := gw_active s, gw_active := Some ref, gw_active_bundle := Some bundle,
      gw_staged := None, gw_base := None\<rparr>)) (\<lambda>_.
    gbind (crash E ''active_after_commit'') (\<lambda>_. gpure bundle))) s = (r, t)"
  obtains e n where "r = Inl e" "t = s\<lparr>gw_calls := n\<rparr>"
    | db n where "t = (upd_db (\<lambda>_. db) s)\<lparr>gw_previous := gw_active s, gw_active := Some ref, gw_active_bundle := Some bundle,
        gw_staged := None, gw_base := None, gw_calls := n\<rparr>"
      "logged E v GA_APPLIED (gw_db s) db" "same_tables (gw_db s) db"
      "repointed E [''previous'' \<mapsto> gw_active s, ''active'' \<mapsto> Some ref, ''staged'' \<mapsto> None, ''base'' \<mapsto> None] (gw_db s) db"
  using run
proof (rule transaction_then)
  fix x u n assume u: "gbind (put_pointer E ''previous'' (gw_active s)) (\<lambda>_. gbind (put_pointer E ''active'' (Some ref)) (\<lambda>_.
      gbind (put_pointer E ''staged'' None) (\<lambda>_. gbind (put_pointer E ''base'' None) (\<lambda>_.
      record_pending E v a GA_APPLIED res)))) s = (Inr x, u)"
    and t: "t = u\<lparr>gw_previous := gw_active u, gw_active := Some ref, gw_active_bundle := Some bundle,
      gw_staged := None, gw_base := None\<rparr>\<lparr>gw_calls := n\<rparr>"
  obtain db where "u = upd_db (\<lambda>_. db) s" "logged E v GA_APPLIED (gw_db s) db" "same_tables (gw_db s) db"
      "repointed E [''previous'' \<mapsto> gw_active s, ''active'' \<mapsto> Some ref, ''staged'' \<mapsto> None, ''base'' \<mapsto> None] (gw_db s) db"
    using u by (rule commit_body)
  then show thesis by (intro that(2)) (simp_all add: t)
qed (auto intro!: db_body_bind ticks_bind intro: that(1))

lemma deny_floor_cong: "gw_deny_highwater s = gw_deny_highwater t \<Longrightarrow> deny_floor_generation s = deny_floor_generation t"
  by (simp add: deny_floor_generation_def)

lemma commit_write:
  assumes run: "gbind (write_active_pointer E payload True) (after b) (s\<lparr>gw_calls := n, gw_calls := k, gw_calls := m\<rparr>) = (r, t)"
    and check: "validate_commit_reference ref s = (Inr x, s\<lparr>gw_calls := n\<rparr>)"
    and b: "fst (load_bundle E (br_bundle_hash ref) (s\<lparr>gw_calls := n\<rparr>)) = fst (Inr b, s\<lparr>gw_calls := n, gw_calls := k\<rparr>)"
    and after_def: "after = (\<lambda>b (_ :: unit) s. gbind (transaction E (gbind (put_pointer E ''previous'' (gw_active s)) (\<lambda>_.
      gbind (put_pointer E ''active'' (Some ref)) (\<lambda>_. gbind (put_pointer E ''staged'' None) (\<lambda>_. gbind (put_pointer E ''base'' None) (\<lambda>_.
      record_pending E v a GA_APPLIED res)))))) (\<lambda>_.
    gbind (gmod (\<lambda>s. s\<lparr>gw_previous := gw_active s, gw_active := Some ref, gw_active_bundle := Some b,
      gw_staged := None, gw_base := None\<rparr>)) (\<lambda>_.
    gbind (crash E ''active_after_commit'') (\<lambda>_. gpure b))) s)"
  obtains e p n where "r = Inl e" "t = (upd_pointer_file p s)\<lparr>gw_calls := n\<rparr>" | "committed E v ref s t"
  using run
proof (rule gbindE)
  fix e assume "write_active_pointer E payload True (s\<lparr>gw_calls := n, gw_calls := k, gw_calls := m\<rparr>) = (Inl e, t)" "r = Inl e"
  then show thesis by (elim write_pointer_run) (rule that(1), auto)
next
  fix y u assume "write_active_pointer E payload True (s\<lparr>gw_calls := n, gw_calls := k, gw_calls := m\<rparr>) = (Inr y, u)"
    and tr: "after b y u = (r, t)"
  from this(1) obtain i where u: "u = (upd_pointer_file (Some payload) s)\<lparr>gw_calls := i\<rparr>" by (elim write_pointer_run) auto
  note ok = commit_reference_ok [OF check]
  have load: "fst (load_bundle E (br_bundle_hash ref) s) = Inr b"
    using b load_bundle_cong [of s _ "s\<lparr>gw_calls := n\<rparr>" E] by simp
  show thesis
    using tr unfolding after_def
  proof (rule commit_transaction_cases)
    fix db i assume "t = (upd_db (\<lambda>_. db) u)\<lparr>gw_previous := gw_active u, gw_active := Some ref, gw_active_bundle := Some b,
        gw_staged := None, gw_base := None, gw_calls := i\<rparr>"
      "logged E v GA_APPLIED (gw_db u) db" "same_tables (gw_db u) db"
      "repointed E [''previous'' \<mapsto> gw_active u, ''active'' \<mapsto> Some ref, ''staged'' \<mapsto> None, ''base'' \<mapsto> None] (gw_db u) db"
    then show thesis
      by (intro that(2), unfold committed_def, intro conjI exI [of _ db] exI [of _ b] exI [of _ i] exI [of _ payload])
        (simp_all add: u upd_db_def load ok)
  qed (auto simp: u intro!: that(1))
qed

lemma commit_staged_cases:
  assumes run: "commit_staged E v ref a res s = (r, t)"
  obtains e p n where "r = Inl e" "t = (upd_pointer_file p s)\<lparr>gw_calls := n\<rparr>" | "committed E v ref s t"
proof -
  have quiet: thesis if "r = Inl e" "t = s\<lparr>gw_calls := n\<rparr>" for e n
    using that(1,2) \<open>\<And>n p e. r = Inl e \<Longrightarrow> t = (upd_pointer_file p s)\<lparr>gw_calls := n\<rparr> \<Longrightarrow> thesis\<close>
      [of e n "gd_pointer_file (gw_disk s)"] by simp
  define after where "after = (\<lambda>b (_ :: unit) s. gbind (transaction E (gbind (put_pointer E ''previous'' (gw_active s)) (\<lambda>_.
      gbind (put_pointer E ''active'' (Some ref)) (\<lambda>_. gbind (put_pointer E ''staged'' None) (\<lambda>_. gbind (put_pointer E ''base'' None) (\<lambda>_.
      record_pending E v a GA_APPLIED res)))))) (\<lambda>_.
    gbind (gmod (\<lambda>s. s\<lparr>gw_previous := gw_active s, gw_active := Some ref, gw_active_bundle := Some b,
      gw_staged := None, gw_base := None\<rparr>)) (\<lambda>_.
    gbind (crash E ''active_after_commit'') (\<lambda>_. gpure b))) s)"
  have op: "commit_staged E v ref a res = gbind (validate_commit_reference ref) (\<lambda>_. gbind (load_bundle E (br_bundle_hash ref)) (\<lambda>b.
      gbind (glift (canonical_json_bytes (reference_json ref))) (\<lambda>payload. gbind (write_active_pointer E payload True) (after b))))"
    by (simp add: commit_staged_def after_def)
  show thesis
    using run unfolding op
  proof (rule ticks_then)
    fix x n assume check: "validate_commit_reference ref s = (Inr x, s\<lparr>gw_calls := n\<rparr>)"
      and "gbind (load_bundle E (br_bundle_hash ref)) (\<lambda>b. gbind (glift (canonical_json_bytes (reference_json ref)))
        (\<lambda>payload. gbind (write_active_pointer E payload True) (after b))) (s\<lparr>gw_calls := n\<rparr>) = (r, t)"
    from this(2) show thesis
    proof (rule ticks_then)
      fix b k assume b: "load_bundle E (br_bundle_hash ref) (s\<lparr>gw_calls := n\<rparr>) = (Inr b, s\<lparr>gw_calls := n, gw_calls := k\<rparr>)"
        and "gbind (glift (canonical_json_bytes (reference_json ref)))
          (\<lambda>payload. gbind (write_active_pointer E payload True) (after b)) (s\<lparr>gw_calls := n, gw_calls := k\<rparr>) = (r, t)"
      from this(2) show thesis
      proof (rule ticks_then)
        fix payload m assume "gbind (write_active_pointer E payload True) (after b) (s\<lparr>gw_calls := n, gw_calls := k, gw_calls := m\<rparr>) = (r, t)"
        then show thesis
          by (rule commit_write [OF _ check b [THEN arg_cong [of _ _ fst]] after_def that])
      qed (auto intro: quiet)
    qed (auto intro: quiet)
  qed (auto intro: quiet)
qed

end
