(* ===== verification/Activation_Overlay.thy ===== *)
theory Activation_Overlay
  imports Activation_Steps
begin

text \<open>
  What the operations on the deny overlay do: under the agreement of tables and memory (\<open>overlay_ok\<close>) each
  of them either leaves the overlay as it was or commits its whole change, and keeps the agreement.
\<close>

section \<open>The deny overlay\<close>

definition deny_rows :: "gateway_env \<Rightarrow> gateway_db \<Rightarrow> (deny_key, DenyOverlayV1) dict \<Rightarrow> bool" where
  "deny_rows E db ds \<longleftrightarrow> dict_wf (db_denies db) \<and>
    (\<forall>k. map_of ds k = map_option rw_value (map_of (db_denies db) k)) \<and>
    (\<forall>(k, row) \<in> set (db_denies db). overlay_key (rw_value row) = k \<and>
       sealed (ge_codec E) ''denies'' (overlay_json (rw_value row)) (rw_value row) = Inr row)"

definition water_rows :: "gateway_env \<Rightarrow> gateway_db \<Rightarrow> (deny_key, int \<times> int option) dict \<Rightarrow> bool" where
  "water_rows E db hs \<longleftrightarrow> dict_wf (db_deny_highwater db) \<and>
    (\<forall>k. map_of hs k = map_option rw_value (map_of (db_deny_highwater db) k)) \<and>
    (\<forall>(k, row) \<in> set (db_deny_highwater db).
       sealed (ge_codec E) ''deny_highwater'' (highwater_json k (rw_value row)) (rw_value row) = Inr row)"

lemma map_of_values: "map_of (map (\<lambda>(k, row). (k, rw_value row)) rows) k = map_option rw_value (map_of rows k)"
  by (induction rows) auto

lemma res_mapM_all: "(\<And>x. x \<in> set xs \<Longrightarrow> f x = Inr (g x)) \<Longrightarrow> res_mapM f xs = Inr (map g xs)"
  by (induction xs) auto

lemma load_denies_ok:
  assumes "deny_rows E (gw_db s) ds"
  obtains ds' where "load_denies E s = (Inr (), s\<lparr>gw_denies := ds'\<rparr>)" "map_of ds' = map_of ds"
proof -
  let ?rows = "db_denies (gw_db s)"
  have "res_mapM (\<lambda>(k, row). unseal (ge_codec E) ''denies'' (overlay_json (rw_value row)) ''corrupt deny overlay'' row) ?rows =
      Inr (map (\<lambda>(k, row). rw_value row) ?rows)"
    using assms by (intro res_mapM_all) (auto simp: deny_rows_def intro!: unseal_sealed)
  moreover have "map (\<lambda>d. (overlay_key d, d)) (map (\<lambda>(k, row). rw_value row) ?rows) = map (\<lambda>(k, row). (k, rw_value row)) ?rows"
    using assms by (auto simp: deny_rows_def)
  moreover have "distinct (map fst (map (\<lambda>(k, row). (k, rw_value row)) ?rows))"
    using assms by (simp add: deny_rows_def comp_def case_prod_unfold)
  ultimately have "load_denies E s = (Inr (), s\<lparr>gw_denies := map (\<lambda>(k, row). (k, rw_value row)) ?rows\<rparr>)"
    by (simp add: load_denies_def dict_of_distinct del: map_map)
  from that [OF this] show thesis using assms by (simp add: deny_rows_def map_of_values fun_eq_iff)
qed

lemma load_water_ok:
  assumes "water_rows E (gw_db s) hs"
  obtains hs' where "load_deny_highwater E s = (Inr (), s\<lparr>gw_deny_highwater := hs'\<rparr>)" "map_of hs' = map_of hs"
proof -
  let ?rows = "db_deny_highwater (gw_db s)"
  have "res_mapM (\<lambda>(k, row). res_map (Pair k) (unseal (ge_codec E) ''deny_highwater'' (highwater_json k (rw_value row))
      ''corrupt deny high-water'' row)) ?rows = Inr (map (\<lambda>(k, row). (k, rw_value row)) ?rows)"
  proof (rule res_mapM_all)
    fix x assume "x \<in> set ?rows"
    then have "sealed (ge_codec E) ''deny_highwater'' (highwater_json (fst x) (rw_value (snd x))) (rw_value (snd x)) = Inr (snd x)"
      using assms by (auto simp: water_rows_def)
    then show "(\<lambda>(k, row). res_map (Pair k) (unseal (ge_codec E) ''deny_highwater'' (highwater_json k (rw_value row))
        ''corrupt deny high-water'' row)) x = Inr ((\<lambda>(k, row). (k, rw_value row)) x)"
      by (simp add: case_prod_unfold unseal_sealed)
  qed
  moreover have "distinct (map fst (map (\<lambda>(k, row). (k, rw_value row)) ?rows))"
    using assms by (simp add: water_rows_def comp_def case_prod_unfold)
  ultimately have "load_deny_highwater E s = (Inr (), s\<lparr>gw_deny_highwater := map (\<lambda>(k, row). (k, rw_value row)) ?rows\<rparr>)"
    by (simp add: load_deny_highwater_def dict_of_distinct del: map_map)
  from that [OF this] show thesis using assms by (simp add: water_rows_def map_of_values fun_eq_iff)
qed

definition overlay_ok :: "gateway_env \<Rightarrow> gateway \<Rightarrow> bool" where
  "overlay_ok E s \<longleftrightarrow> deny_rows E (gw_db s) (gw_denies s) \<and> water_rows E (gw_db s) (gw_deny_highwater s)"

text \<open>\<open>s\<close> with the overlay read again from the tables.\<close>

definition reread :: "gateway \<Rightarrow> gateway \<Rightarrow> bool" where
  "reread s t \<longleftrightarrow> (\<exists>ds hs n. t = s\<lparr>gw_denies := ds, gw_deny_highwater := hs, gw_calls := n\<rparr> \<and>
     map_of ds = map_of (gw_denies s) \<and> map_of hs = map_of (gw_deny_highwater s))"

lemma reread_calls: "reread s (s\<lparr>gw_calls := n\<rparr>)"
  unfolding reread_def by (intro exI [of _ "gw_denies s"] exI [of _ "gw_deny_highwater s"] exI [of _ n]) simp

lemma reread_trans: "reread s t \<Longrightarrow> reread t u \<Longrightarrow> reread s u"
proof -
  assume "reread s t" "reread t u"
  then obtain ds hs n ds' hs' n' where "t = s\<lparr>gw_denies := ds, gw_deny_highwater := hs, gw_calls := n\<rparr>"
      "map_of ds = map_of (gw_denies s)" "map_of hs = map_of (gw_deny_highwater s)"
      "u = t\<lparr>gw_denies := ds', gw_deny_highwater := hs', gw_calls := n'\<rparr>"
      "map_of ds' = map_of (gw_denies t)" "map_of hs' = map_of (gw_deny_highwater t)"
    unfolding reread_def by blast
  then show "reread s u"
    unfolding reread_def by (intro exI [of _ ds'] exI [of _ hs'] exI [of _ n']) simp
qed

lemma loads_ok:
  assumes "overlay_ok E s"
  obtains ds hs where "gbind (load_denies E) (\<lambda>_. load_deny_highwater E) s = (Inr (), s\<lparr>gw_denies := ds, gw_deny_highwater := hs\<rparr>)"
    "map_of ds = map_of (gw_denies s)" "map_of hs = map_of (gw_deny_highwater s)"
proof -
  obtain ds where ds: "load_denies E s = (Inr (), s\<lparr>gw_denies := ds\<rparr>)" "map_of ds = map_of (gw_denies s)"
    using assms load_denies_ok unfolding overlay_ok_def by metis
  have "water_rows E (gw_db (s\<lparr>gw_denies := ds\<rparr>)) (gw_deny_highwater s)" using assms by (simp add: overlay_ok_def)
  then obtain hs where "load_deny_highwater E (s\<lparr>gw_denies := ds\<rparr>) = (Inr (), s\<lparr>gw_denies := ds\<rparr>\<lparr>gw_deny_highwater := hs\<rparr>)"
      "map_of hs = map_of (gw_deny_highwater s)"
    by (rule load_water_ok)
  then show thesis using ds by (intro that [where ds = ds and hs = hs]) (simp_all add: gbind_def)
qed


lemma put_deny_ok:
  assumes "put_deny E d s = (Inr x, t)"
  obtains row where "sealed (ge_codec E) ''denies'' (overlay_json d) d = Inr row"
    "t = upd_db (\<lambda>db. db\<lparr>db_denies := AList.update (overlay_key d) row (db_denies db)\<rparr>) s"
  using assms unfolding put_deny_def by (elim gbind_okE) auto

lemma put_highwater_ok:
  assumes "put_highwater E k v s = (Inr x, t)"
  obtains row where "sealed (ge_codec E) ''deny_highwater'' (highwater_json k v) v = Inr row"
    "t = upd_db (\<lambda>db. db\<lparr>db_deny_highwater := AList.update k row (db_deny_highwater db)\<rparr>) s"
  using assms unfolding put_highwater_def by (elim gbind_okE) auto

lemma deny_rows_cong:
  "db_denies db' = db_denies db \<Longrightarrow> map_of ds' = map_of ds \<Longrightarrow> deny_rows E db ds \<Longrightarrow> deny_rows E db' ds'"
  by (simp add: deny_rows_def)

lemma water_rows_cong:
  "db_deny_highwater db' = db_deny_highwater db \<Longrightarrow> map_of hs' = map_of hs \<Longrightarrow> water_rows E db hs \<Longrightarrow> water_rows E db' hs'"
  by (simp add: water_rows_def)

lemma deny_rows_update:
  assumes "deny_rows E db ds" "sealed (ge_codec E) ''denies'' (overlay_json d) d = Inr row"
    "db_denies db' = AList.update (overlay_key d) row (db_denies db)" "map_of ds' = (map_of ds)(overlay_key d \<mapsto> d)"
  shows "deny_rows E db' ds'"
  using assms sealed_value [OF assms(2)]
  by (auto simp: deny_rows_def map_of_update set_update_wf dict_wf_update)

lemma deny_rows_delete:
  assumes "deny_rows E db ds" "db_denies db' = AList.delete k (db_denies db)" "map_of ds' = (map_of ds)(k := None)"
  shows "deny_rows E db' ds'"
  using assms by (auto simp: deny_rows_def map_of_delete_upd set_delete dict_wf_delete)

lemma water_rows_update:
  assumes "water_rows E db hs" "sealed (ge_codec E) ''deny_highwater'' (highwater_json k v) v = Inr row"
    "db_deny_highwater db' = AList.update k row (db_deny_highwater db)" "map_of hs' = (map_of hs)(k \<mapsto> v)"
  shows "water_rows E db' hs'"
  using assms sealed_value [OF assms(2)]
  by (auto simp: water_rows_def map_of_update set_update_wf dict_wf_update)

definition overlaid ::
    "gateway_env \<Rightarrow> (gateway_db \<Rightarrow> gateway_db \<Rightarrow> bool) \<Rightarrow> (deny_key, DenyOverlayV1) dict \<Rightarrow> (deny_key, int \<times> int option) dict \<Rightarrow> int \<Rightarrow>
     gateway \<Rightarrow> gateway \<Rightarrow> bool" where
  "overlaid E L ds hs beat s t \<longleftrightarrow>
    (\<exists>db n. t = (upd_db (\<lambda>_. db) s)\<lparr>gw_denies := ds, gw_deny_highwater := hs, gw_deny_heartbeat_ms := beat, gw_calls := n\<rparr> \<and>
       deny_rows E db ds \<and> water_rows E db hs \<and> L (gw_db s) db \<and> db_pointers db = db_pointers (gw_db s) \<and>
       db_fence_receipts db = db_fence_receipts (gw_db s) \<and>
       (\<exists>row. sealed (ge_codec E) ''meta'' (meta_json ''deny_heartbeat_ms'' (MInt beat)) (MInt beat) = Inr row \<and>
          db_meta db = AList.update ''deny_heartbeat_ms'' row (db_meta (gw_db s))))"

lemma deny_body:
  assumes run: "gbind (put_deny E d) (\<lambda>_. gbind (put_highwater E key v) (\<lambda>_.
       gbind (set_meta E ''deny_heartbeat_ms'' (MInt now)) (\<lambda>_. record_pending E vc a GA_DENIED res))) s = (Inr x, u)"
    and ok: "deny_rows E (gw_db s) ds" "water_rows E (gw_db s) hs"
  shows "\<exists>db. u = upd_db (\<lambda>_. db) s \<and> deny_rows E db (AList.update (overlay_key d) d ds) \<and>
    water_rows E db (AList.update key v hs) \<and> logged E vc GA_DENIED (gw_db s) db \<and>
    db_pointers db = db_pointers (gw_db s) \<and> db_fence_receipts db = db_fence_receipts (gw_db s) \<and>
       (\<exists>row. sealed (ge_codec E) ''meta'' (meta_json ''deny_heartbeat_ms'' (MInt now)) (MInt now) = Inr row \<and>
          db_meta db = AList.update ''deny_heartbeat_ms'' row (db_meta (gw_db s)))"
proof -
  obtain s1 s2 s3 where b: "put_deny E d s = (Inr (), s1)" "put_highwater E key v s1 = (Inr (), s2)"
      "set_meta E ''deny_heartbeat_ms'' (MInt now) s2 = (Inr (), s3)" "record_pending E vc a GA_DENIED res s3 = (Inr x, u)"
    using run by (auto elim!: gbind_okE)
  obtain r1 where r1: "sealed (ge_codec E) ''denies'' (overlay_json d) d = Inr r1"
      "s1 = upd_db (\<lambda>db. db\<lparr>db_denies := AList.update (overlay_key d) r1 (db_denies db)\<rparr>) s"
    using b(1) by (rule put_deny_ok)
  obtain r2 where r2: "sealed (ge_codec E) ''deny_highwater'' (highwater_json key v) v = Inr r2"
      "s2 = upd_db (\<lambda>db. db\<lparr>db_deny_highwater := AList.update key r2 (db_deny_highwater db)\<rparr>) s1"
    using b(2) by (rule put_highwater_ok)
  obtain r3 where r3: "sealed (ge_codec E) ''meta'' (meta_json ''deny_heartbeat_ms'' (MInt now)) (MInt now) = Inr r3"
      "s3 = upd_db (\<lambda>db. db\<lparr>db_meta := AList.update ''deny_heartbeat_ms'' r3 (db_meta db)\<rparr>) s2"
    using b(3) by (rule set_meta_ok)
  obtain cmds chain where u: "u = upd_db (\<lambda>db. db\<lparr>db_commands := cmds, db_channel_state := chain\<rparr>) s3" "logged E vc GA_DENIED (gw_db s3) (gw_db u)"
    using b(4) by (rule record_pending_ok)
  note st = u(1) r1(2) r2(2) r3(2)
  show ?thesis
  proof (intro exI [of _ "gw_db u"] conjI)
    show "u = upd_db (\<lambda>_. gw_db u) s" by (simp add: st upd_db_def)
    show "deny_rows E (gw_db u) (AList.update (overlay_key d) d ds)"
      by (rule deny_rows_update [OF ok(1) r1(1)]) (simp_all add: st map_of_update)
    show "water_rows E (gw_db u) (AList.update key v hs)"
      by (rule water_rows_update [OF ok(2) r2(1)]) (simp_all add: st map_of_update)
    show "logged E vc GA_DENIED (gw_db s) (gw_db u)"
      using u(2) logged_cong [of "gw_db s3" "gw_db s"] by (simp add: st)
    show "\<exists>row. sealed (ge_codec E) ''meta'' (meta_json ''deny_heartbeat_ms'' (MInt now)) (MInt now) = Inr row \<and>
        db_meta (gw_db u) = AList.update ''deny_heartbeat_ms'' row (db_meta (gw_db s))"
      using r3(1) by (simp add: st)
  qed (simp_all add: st)
qed


lemma verify_store_ok:
  assumes "overlay_ok E s"
  obtains ds hs where "verify_deny_store E s = (Inr (), s\<lparr>gw_denies := ds, gw_deny_highwater := hs\<rparr>)"
    "map_of ds = map_of (gw_denies s)" "map_of hs = map_of (gw_deny_highwater s)"
    "deny_rows E (gw_db s) ds" "water_rows E (gw_db s) hs"
proof -
  obtain ds hs where l: "gbind (load_denies E) (\<lambda>_. load_deny_highwater E) s = (Inr (), s\<lparr>gw_denies := ds, gw_deny_highwater := hs\<rparr>)"
      "map_of ds = map_of (gw_denies s)" "map_of hs = map_of (gw_deny_highwater s)"
    using assms by (rule loads_ok)
  show thesis
  proof (rule that)
    show "verify_deny_store E s = (Inr (), s\<lparr>gw_denies := ds, gw_deny_highwater := hs\<rparr>)"
      by (simp add: verify_deny_store_def gtry_def l(1))
    show "deny_rows E (gw_db s) ds" "water_rows E (gw_db s) hs"
      using assms l(2,3) by (simp_all add: overlay_ok_def deny_rows_def water_rows_def)
  qed (rule l)+
qed

lemma ticks_now [simp]: "ticks (now_ms E)" "ticks (ask_moment E)" "ticks (fresh_id E)"
  by (auto simp: ticks_def)

lemma reread_loaded:
  "map_of ds = map_of (gw_denies s) \<Longrightarrow> map_of hs = map_of (gw_deny_highwater s) \<Longrightarrow>
    reread s (s\<lparr>gw_denies := ds, gw_deny_highwater := hs, gw_calls := n\<rparr>)"
  unfolding reread_def by blast

lemma overlaid_from:
  "overlaid E L ds hs beat (s\<lparr>gw_denies := ds0, gw_deny_highwater := hs0, gw_calls := n, gw_calls := k\<rparr>) t \<Longrightarrow> overlaid E L ds hs beat s t"
  unfolding overlaid_def by (elim exE conjE) (intro exI conjI, auto simp: upd_db_def)

lemma deny_transaction_cases:
  fixes p now
  defines "key \<equiv> (dp_subject_type p, dp_subject_id p)" and "hw \<equiv> (dp_deny_epoch p, dp_deny_floor_generation p)"
  assumes run: "gbind (transaction E (gbind (put_deny E (overlay_of p now)) (\<lambda>_. gbind (put_highwater E key hw) (\<lambda>_.
       gbind (set_meta E ''deny_heartbeat_ms'' (MInt now)) (\<lambda>_. record_pending E v a GA_DENIED res)))))
     (\<lambda>_. gbind (gmod (\<lambda>s. s\<lparr>gw_denies := AList.update key (overlay_of p now) (gw_denies s), gw_deny_heartbeat_ms := now,
       gw_deny_highwater := AList.update key hw (gw_deny_highwater s)\<rparr>)) (\<lambda>_. crash E ''deny_after_commit'')) s = (r, t)"
    and ok: "deny_rows E (gw_db s) (gw_denies s)" "water_rows E (gw_db s) (gw_deny_highwater s)"
  obtains e n where "r = Inl e" "t = s\<lparr>gw_calls := n\<rparr>"
    | "overlaid E (logged E v GA_DENIED) (AList.update key (overlay_of p now) (gw_denies s))
         (AList.update key hw (gw_deny_highwater s)) now s t"
  using run
proof (rule transaction_then)
  fix x u n
  assume b: "gbind (put_deny E (overlay_of p now)) (\<lambda>_. gbind (put_highwater E key hw) (\<lambda>_.
       gbind (set_meta E ''deny_heartbeat_ms'' (MInt now)) (\<lambda>_. record_pending E v a GA_DENIED res))) s = (Inr x, u)"
    and t: "t = u\<lparr>gw_denies := AList.update key (overlay_of p now) (gw_denies u), gw_deny_heartbeat_ms := now,
       gw_deny_highwater := AList.update key hw (gw_deny_highwater u)\<rparr>\<lparr>gw_calls := n\<rparr>"
  have k: "overlay_key (overlay_of p now) = key" by (simp add: overlay_key_def overlay_of_def key_def)
  from deny_body [OF b ok] obtain db where db: "u = upd_db (\<lambda>_. db) s"
      "deny_rows E db (AList.update key (overlay_of p now) (gw_denies s))" "water_rows E db (AList.update key hw (gw_deny_highwater s))"
      "logged E v GA_DENIED (gw_db s) db" "db_pointers db = db_pointers (gw_db s)" "db_fence_receipts db = db_fence_receipts (gw_db s)"
      "\<exists>row. sealed (ge_codec E) ''meta'' (meta_json ''deny_heartbeat_ms'' (MInt now)) (MInt now) = Inr row \<and>
          db_meta db = AList.update ''deny_heartbeat_ms'' row (db_meta (gw_db s))"
    unfolding k by blast
  show thesis
    by (rule that(2), unfold overlaid_def, intro exI [of _ db] exI [of _ n] conjI) (simp_all add: t db)
qed (intro db_body_bind db_body_ops db_body_pending, simp, simp, erule (1) that(1))

lemma issue_deny_cases:
  assumes run: "issue_deny E v p a res s = (r, t)" and ok: "overlay_ok E s"
  obtains e where "r = Inl e" "reread s t"
    | ds hs now where "overlaid E (logged E v GA_DENIED) ds hs now s t"
        "map_of ds = (map_of (gw_denies s))((dp_subject_type p, dp_subject_id p) \<mapsto> overlay_of p now)"
        "map_of hs = (map_of (gw_deny_highwater s))((dp_subject_type p, dp_subject_id p) \<mapsto> (dp_deny_epoch p, dp_deny_floor_generation p))"
        "none_bad (deny_checks p (map_of (gw_deny_highwater s) (dp_subject_type p, dp_subject_id p)))"
proof -
  let ?key = "(dp_subject_type p, dp_subject_id p)"
  obtain ds hs where l: "verify_deny_store E s = (Inr (), s\<lparr>gw_denies := ds, gw_deny_highwater := hs\<rparr>)"
    and m: "map_of ds = map_of (gw_denies s)" "map_of hs = map_of (gw_deny_highwater s)"
    and rows: "deny_rows E (gw_db s) ds" "water_rows E (gw_db s) hs"
    using ok by (rule verify_store_ok)
  let ?s = "s\<lparr>gw_denies := ds, gw_deny_highwater := hs\<rparr>"
  have quiet: thesis if "r = Inl e" "t = ?s\<lparr>gw_calls := n\<rparr>" for e n
    using that(1,2) reread_loaded [OF m] \<open>\<And>e. r = Inl e \<Longrightarrow> reread s t \<Longrightarrow> thesis\<close> by simp
  define after where "after = (\<lambda>now. gbind (crash E ''deny_before_commit'') (\<lambda>_.
     gbind (transaction E (gbind (put_deny E (overlay_of p now)) (\<lambda>_. gbind (put_highwater E ?key (dp_deny_epoch p, dp_deny_floor_generation p)) (\<lambda>_.
       gbind (set_meta E ''deny_heartbeat_ms'' (MInt now)) (\<lambda>_. record_pending E v a GA_DENIED res)))))
     (\<lambda>_. gbind (gmod (\<lambda>s. s\<lparr>gw_denies := AList.update ?key (overlay_of p now) (gw_denies s), gw_deny_heartbeat_ms := now,
       gw_deny_highwater := AList.update ?key (dp_deny_epoch p, dp_deny_floor_generation p) (gw_deny_highwater s)\<rparr>)) (\<lambda>_. crash E ''deny_after_commit''))))"
  have "gbind (glift (checks (deny_checks p (map_of hs ?key)) ())) (\<lambda>_. gbind (now_ms E) (\<lambda>now.
      if now < 1 then graise (ValueError ''heartbeat_at_ms: ge'') else after now)) ?s = (r, t)"
    using run unfolding after_def by (simp add: issue_deny_def Let_def gbind_def [of "verify_deny_store E"] l)
  then show thesis
  proof (rule ticks_then)
    fix x n assume c: "glift (checks (deny_checks p (map_of hs ?key)) ()) ?s = (Inr x, ?s\<lparr>gw_calls := n\<rparr>)"
      and "gbind (now_ms E) (\<lambda>now. if now < 1 then graise (ValueError ''heartbeat_at_ms: ge'') else after now) (?s\<lparr>gw_calls := n\<rparr>) = (r, t)"
    then obtain now k where "(if now < 1 then graise (ValueError ''heartbeat_at_ms: ge'') else after now) (?s\<lparr>gw_calls := n, gw_calls := k\<rparr>) = (r, t)"
      unfolding gbind_now by blast
    then consider "r = Inl (ValueError ''heartbeat_at_ms: ge'')" "t = ?s\<lparr>gw_calls := k\<rparr>" | "after now (?s\<lparr>gw_calls := k\<rparr>) = (r, t)"
      by (auto split: if_splits)
    then show thesis
    proof cases
      case 2
      then show thesis unfolding after_def
      proof (rule ticks_then)
        fix y j assume "gbind (transaction E (gbind (put_deny E (overlay_of p now)) (\<lambda>_. gbind (put_highwater E ?key (dp_deny_epoch p, dp_deny_floor_generation p)) (\<lambda>_.
          gbind (set_meta E ''deny_heartbeat_ms'' (MInt now)) (\<lambda>_. record_pending E v a GA_DENIED res)))))
          (\<lambda>_. gbind (gmod (\<lambda>s. s\<lparr>gw_denies := AList.update ?key (overlay_of p now) (gw_denies s), gw_deny_heartbeat_ms := now,
          gw_deny_highwater := AList.update ?key (dp_deny_epoch p, dp_deny_floor_generation p) (gw_deny_highwater s)\<rparr>)) (\<lambda>_. crash E ''deny_after_commit''))
          (?s\<lparr>gw_calls := k, gw_calls := j\<rparr>) = (r, t)"
        then show thesis
        proof (rule deny_transaction_cases)
          assume "overlaid E (logged E v GA_DENIED) (AList.update ?key (overlay_of p now) (gw_denies (?s\<lparr>gw_calls := k, gw_calls := j\<rparr>)))
            (AList.update ?key (dp_deny_epoch p, dp_deny_floor_generation p) (gw_deny_highwater (?s\<lparr>gw_calls := k, gw_calls := j\<rparr>))) now
            (?s\<lparr>gw_calls := k, gw_calls := j\<rparr>) t"
          then have o: "overlaid E (logged E v GA_DENIED) (AList.update ?key (overlay_of p now) ds)
              (AList.update ?key (dp_deny_epoch p, dp_deny_floor_generation p) hs) now s t"
            by - (drule overlaid_from, simp)
          have "none_bad (deny_checks p (map_of hs ?key))" using c by (simp add: checks_Inr)
          with o show thesis by (intro that(2) [OF o]) (simp_all add: map_of_update m)
        qed (use rows in \<open>auto intro: quiet\<close>)
      qed (auto intro: quiet)
    qed (rule quiet)
  qed (auto intro: quiet)
qed


lemma gmod_last: "gmod f = gbind (gmod f) (\<lambda>_. gpure ())"
  by (simp add: fun_eq_iff gbind_def)

lemma clear_body:
  assumes run: "gbind (gmod (upd_db (\<lambda>db. db\<lparr>db_denies := AList.delete key (db_denies db)\<rparr>))) (\<lambda>_.
       gbind (set_meta E ''deny_heartbeat_ms'' (MInt now)) (\<lambda>_. record_pending E vc a st res)) s = (Inr x, u)"
    and ok: "deny_rows E (gw_db s) ds" "water_rows E (gw_db s) hs"
  shows "\<exists>db. u = upd_db (\<lambda>_. db) s \<and> deny_rows E db (AList.delete key ds) \<and> water_rows E db hs \<and> logged E vc st (gw_db s) db \<and>
    db_pointers db = db_pointers (gw_db s) \<and> db_fence_receipts db = db_fence_receipts (gw_db s) \<and>
       (\<exists>row. sealed (ge_codec E) ''meta'' (meta_json ''deny_heartbeat_ms'' (MInt now)) (MInt now) = Inr row \<and>
          db_meta db = AList.update ''deny_heartbeat_ms'' row (db_meta (gw_db s)))"
proof -
  let ?s1 = "upd_db (\<lambda>db. db\<lparr>db_denies := AList.delete key (db_denies db)\<rparr>) s"
  obtain s3 where b: "set_meta E ''deny_heartbeat_ms'' (MInt now) ?s1 = (Inr (), s3)" "record_pending E vc a st res s3 = (Inr x, u)"
    using run by (auto elim!: gbind_okE)
  obtain r3 where r3: "sealed (ge_codec E) ''meta'' (meta_json ''deny_heartbeat_ms'' (MInt now)) (MInt now) = Inr r3"
      "s3 = upd_db (\<lambda>db. db\<lparr>db_meta := AList.update ''deny_heartbeat_ms'' r3 (db_meta db)\<rparr>) ?s1"
    using b(1) by (rule set_meta_ok)
  obtain cmds chain where u: "u = upd_db (\<lambda>db. db\<lparr>db_commands := cmds, db_channel_state := chain\<rparr>) s3" "logged E vc st (gw_db s3) (gw_db u)"
    using b(2) by (rule record_pending_ok)
  note st = u(1) r3(2)
  show ?thesis
  proof (intro exI [of _ "gw_db u"] conjI)
    show "u = upd_db (\<lambda>_. gw_db u) s" by (simp add: st upd_db_def)
    show "deny_rows E (gw_db u) (AList.delete key ds)"
      by (rule deny_rows_delete [OF ok(1)]) (simp_all add: st map_of_delete_upd)
    show "water_rows E (gw_db u) hs" by (rule water_rows_cong [OF _ _ ok(2)]) (simp_all add: st)
    show "logged E vc st (gw_db s) (gw_db u)"
      using u(2) logged_cong [of "gw_db s3" "gw_db s"] by (simp add: st)
    show "\<exists>row. sealed (ge_codec E) ''meta'' (meta_json ''deny_heartbeat_ms'' (MInt now)) (MInt now) = Inr row \<and>
        db_meta (gw_db u) = AList.update ''deny_heartbeat_ms'' row (db_meta (gw_db s))"
      using r3(1) by (simp add: st)
  qed (simp_all add: st)
qed

lemma clear_deny_cases:
  assumes run: "clear_deny E v p a res s = (r, t)" and ok: "overlay_ok E s"
  obtains e where "r = Inl e" "reread s t"
    | ds hs now where "overlaid E (logged E v GA_DENY_CLEARED) ds hs now s t"
        "map_of ds = (map_of (gw_denies s))((cp_subject_type p, cp_subject_id p) := None)"
        "map_of hs = map_of (gw_deny_highwater s)"
        "map_option do_deny_epoch (map_of (gw_denies s) (cp_subject_type p, cp_subject_id p)) = Some (cp_deny_epoch p)"
proof -
  let ?key = "(cp_subject_type p, cp_subject_id p)"
  obtain ds hs where l: "verify_deny_store E s = (Inr (), s\<lparr>gw_denies := ds, gw_deny_highwater := hs\<rparr>)"
    and m: "map_of ds = map_of (gw_denies s)" "map_of hs = map_of (gw_deny_highwater s)"
    and rows: "deny_rows E (gw_db s) ds" "water_rows E (gw_db s) hs"
    using ok by (rule verify_store_ok)
  let ?s = "s\<lparr>gw_denies := ds, gw_deny_highwater := hs\<rparr>"
  have quiet: thesis if "r = Inl e" "t = ?s\<lparr>gw_calls := n\<rparr>" for e n
    using that(1,2) reread_loaded [OF m] \<open>\<And>e. r = Inl e \<Longrightarrow> reread s t \<Longrightarrow> thesis\<close> by simp
  let ?body = "\<lambda>now. gbind (gmod (upd_db (\<lambda>db. db\<lparr>db_denies := AList.delete ?key (db_denies db)\<rparr>))) (\<lambda>_.
       gbind (set_meta E ''deny_heartbeat_ms'' (MInt now)) (\<lambda>_. record_pending E v a GA_DENY_CLEARED res))"
  define after where "after = (\<lambda>now. gbind (transaction E (?body now))
     (\<lambda>_. gbind (gmod (\<lambda>s. s\<lparr>gw_denies := AList.delete ?key (gw_denies s), gw_deny_heartbeat_ms := now\<rparr>)) (\<lambda>_. gpure ())))"
  let ?c = "[(case map_of ds ?key of None \<Rightarrow> True | Some d \<Rightarrow> do_deny_epoch d \<noteq> cp_deny_epoch p, ''clear-deny requires exact current epoch'')]"
  have "gbind (glift (checks ?c ())) (\<lambda>_. gbind (now_ms E) after) ?s = (r, t)"
    using run unfolding after_def gmod_last [symmetric] by (simp add: clear_deny_def Let_def gbind_def [of "verify_deny_store E"] l)
  then show thesis
  proof (rule ticks_then)
    fix x n assume c: "glift (checks ?c ()) ?s = (Inr x, ?s\<lparr>gw_calls := n\<rparr>)"
      and "gbind (now_ms E) after (?s\<lparr>gw_calls := n\<rparr>) = (r, t)"
    then obtain now k where "after now (?s\<lparr>gw_calls := n, gw_calls := k\<rparr>) = (r, t)" unfolding gbind_now by blast
    then show thesis unfolding after_def
    proof (rule transaction_then)
      fix y u i assume u: "?body now (?s\<lparr>gw_calls := n, gw_calls := k\<rparr>) = (Inr y, u)"
        and t: "t = u\<lparr>gw_denies := AList.delete ?key (gw_denies u), gw_deny_heartbeat_ms := now\<rparr>\<lparr>gw_calls := i\<rparr>"
      have "deny_rows E (gw_db (?s\<lparr>gw_calls := n, gw_calls := k\<rparr>)) ds" "water_rows E (gw_db (?s\<lparr>gw_calls := n, gw_calls := k\<rparr>)) hs"
        using rows by simp_all
      from clear_body [OF u this] obtain db where db: "u = upd_db (\<lambda>_. db) (?s\<lparr>gw_calls := n, gw_calls := k\<rparr>)"
          "deny_rows E db (AList.delete ?key ds)" "water_rows E db hs" "logged E v GA_DENY_CLEARED (gw_db s) db"
          "db_pointers db = db_pointers (gw_db s)" "db_fence_receipts db = db_fence_receipts (gw_db s)"
          "\<exists>row. sealed (ge_codec E) ''meta'' (meta_json ''deny_heartbeat_ms'' (MInt now)) (MInt now) = Inr row \<and>
              db_meta db = AList.update ''deny_heartbeat_ms'' row (db_meta (gw_db s))"
        by auto
      have o: "overlaid E (logged E v GA_DENY_CLEARED) (AList.delete ?key ds) hs now s t"
        unfolding overlaid_def by (intro exI [of _ db] exI [of _ i] conjI) (simp_all add: t db upd_db_def)
      have "map_option do_deny_epoch (map_of ds ?key) = Some (cp_deny_epoch p)"
        using c by (auto simp: checks_Inr split: option.splits)
      then show thesis by (intro that(2) [OF o]) (simp_all add: map_of_delete_upd m)
    qed (auto intro!: db_body_bind intro: quiet)
  qed (auto intro: quiet)
qed

end
