(* ===== verification/Activation_Effects.thy ===== *)
theory Activation_Effects
  imports Activation_Overlay
begin

text \<open>
  What the remaining operations do: renewals of the deny feed, status commands with their leases, fencing and
  take-over, acknowledgements, the store of bundle files.
\<close>

section \<open>Renewing the deny feed\<close>

lemma body_Pair [simp]: "db_body (Pair r)" "ticks (Pair r)"
  by (simp_all add: db_body_ticks ticks_def)

lemma db_bodyE:
  assumes "m s = (r, u)" "db_body m"
  obtains db n where "u = (upd_db (\<lambda>_. db) s)\<lparr>gw_calls := n\<rparr>"
  using assms by (metis db_body_def snd_conv)

lemma puts_ok:
  assumes "gseq (map (\<lambda>(k, d). put_deny E d) ups) s = (Inr x, u)" "deny_rows E (gw_db s) ds"
    "dict_wf ups" "\<And>k d. (k, d) \<in> set ups \<Longrightarrow> overlay_key d = k"
  shows "\<exists>rows ds'. u = upd_db (\<lambda>db. db\<lparr>db_denies := rows\<rparr>) s \<and> deny_rows E (gw_db u) ds' \<and> map_of ds' = map_of ds ++ map_of ups"
  using assms
proof (induction ups arbitrary: s ds)
  case Nil
  then show ?case by (intro exI [of _ "db_denies (gw_db s)"] exI [of _ ds]) (auto simp: upd_db_def)
next
  case (Cons p ups)
  obtain k d where p: "p = (k, d)" by fastforce
  have k: "overlay_key d = k" "k \<notin> fst ` set ups" using Cons.prems p by auto
  obtain s1 where s1: "put_deny E d s = (Inr (), s1)" "gseq (map (\<lambda>(k, d). put_deny E d) ups) s1 = (Inr x, u)"
    using Cons.prems(1) p by (auto elim: gbind_okE)
  obtain row where row: "sealed (ge_codec E) ''denies'' (overlay_json d) d = Inr row"
      "s1 = upd_db (\<lambda>db. db\<lparr>db_denies := AList.update (overlay_key d) row (db_denies db)\<rparr>) s"
    using s1(1) by (rule put_deny_ok)
  have "deny_rows E (gw_db s1) (AList.update k d ds)"
    by (rule deny_rows_update [OF Cons.prems(2) row(1)]) (simp_all add: row(2) k map_of_update)
  from Cons.IH [OF s1(2) this] obtain rows ds' where u:
      "u = upd_db (\<lambda>db. db\<lparr>db_denies := rows\<rparr>) s1" "deny_rows E (gw_db u) ds'" "map_of ds' = map_of (AList.update k d ds) ++ map_of ups"
    using Cons.prems(3,4) p by auto
  have "map_of ds' = map_of ds ++ map_of (p # ups)"
    using k(2) by (simp add: u(3) p map_of_update map_add_upd_left dom_map_of_conv_image_fst)
  moreover have "u = upd_db (\<lambda>db. db\<lparr>db_denies := rows\<rparr>) s" by (simp add: u(1) row(2) upd_db_def)
  ultimately show ?case using u(2) by blast
qed

definition beaten :: "int \<Rightarrow> (deny_key \<rightharpoonup> DenyOverlayV1) \<Rightarrow> deny_key \<rightharpoonup> DenyOverlayV1" where
  "beaten now m k = map_option (\<lambda>d. d\<lparr>do_heartbeat_at_ms := now\<rparr>) (m k)"

lemma map_of_beaten: "map_of (map (\<lambda>(k, d). (k, d\<lparr>do_heartbeat_at_ms := now\<rparr>)) ds) = beaten now (map_of ds)"
  by (induction ds) (auto simp: beaten_def fun_eq_iff)

lemma loads_wf:
  assumes "overlay_ok E s"
  obtains ds hs where "load_denies E s = (Inr (), s\<lparr>gw_denies := ds\<rparr>)"
    "load_deny_highwater E (s\<lparr>gw_denies := ds\<rparr>) = (Inr (), s\<lparr>gw_denies := ds, gw_deny_highwater := hs\<rparr>)"
    "map_of ds = map_of (gw_denies s)" "map_of hs = map_of (gw_deny_highwater s)"
    "dict_wf ds" "\<And>k d. (k, d) \<in> set ds \<Longrightarrow> overlay_key d = k"
proof -
  obtain ds where ds: "load_denies E s = (Inr (), s\<lparr>gw_denies := ds\<rparr>)" "map_of ds = map_of (gw_denies s)"
    using assms load_denies_ok unfolding overlay_ok_def by metis
  have "water_rows E (gw_db (s\<lparr>gw_denies := ds\<rparr>)) (gw_deny_highwater s)" using assms by (simp add: overlay_ok_def)
  then obtain hs where hs: "load_deny_highwater E (s\<lparr>gw_denies := ds\<rparr>) = (Inr (), s\<lparr>gw_denies := ds\<rparr>\<lparr>gw_deny_highwater := hs\<rparr>)"
      "map_of hs = map_of (gw_deny_highwater s)"
    by (rule load_water_ok)
  have "fst (load_denies E s) = Inr ()" "gw_denies (snd (load_denies E s)) = ds" by (simp_all add: ds(1))
  then have wf: "dict_wf ds" by (auto simp: load_denies_def split: sum.splits)
  have "overlay_key d = k" if "(k, d) \<in> set ds" for k d
  proof -
    have "map_of (gw_denies s) k = Some d" using that wf ds(2) by (metis map_of_in_wf)
    then have "map_option rw_value (map_of (db_denies (gw_db s)) k) = Some d"
      using assms by (metis overlay_ok_def deny_rows_def)
    then obtain row where "map_of (db_denies (gw_db s)) k = Some row" "rw_value row = d" by auto
    then show ?thesis using assms by (auto simp: overlay_ok_def deny_rows_def dest: map_of_SomeD)
  qed
  then show thesis using ds hs wf by (intro that [where ds = ds and hs = hs]) auto
qed


lemma renew_rows_run:
  assumes run: "renew_deny_rows E now s = (r, u)" and ok: "overlay_ok E s"
  obtains db ds hs n where "u = (upd_db (\<lambda>_. db) s)\<lparr>gw_denies := ds, gw_deny_highwater := hs, gw_calls := n\<rparr>"
    "map_of ds = map_of (gw_denies s)" "map_of hs = map_of (gw_deny_highwater s)"
    "\<And>ups. r = Inr ups \<Longrightarrow> map_of ups = beaten now (map_of (gw_denies s)) \<and> deny_rows E db ups \<and> water_rows E db hs \<and>
      (\<exists>rows row. sealed (ge_codec E) ''meta'' (meta_json ''deny_heartbeat_ms'' (MInt now)) (MInt now) = Inr row \<and>
         db = (gw_db s)\<lparr>db_denies := rows, db_meta := AList.update ''deny_heartbeat_ms'' row (db_meta (gw_db s))\<rparr>)"
proof -
  obtain ds hs where l: "load_denies E s = (Inr (), s\<lparr>gw_denies := ds\<rparr>)"
      "load_deny_highwater E (s\<lparr>gw_denies := ds\<rparr>) = (Inr (), s\<lparr>gw_denies := ds, gw_deny_highwater := hs\<rparr>)"
    and m: "map_of ds = map_of (gw_denies s)" "map_of hs = map_of (gw_deny_highwater s)"
    and wf: "dict_wf ds" "\<And>k d. (k, d) \<in> set ds \<Longrightarrow> overlay_key d = k"
    using ok by (rule loads_wf) blast
  let ?s = "s\<lparr>gw_denies := ds, gw_deny_highwater := hs\<rparr>"
  let ?ups = "map (\<lambda>(k, d). (k, d\<lparr>do_heartbeat_at_ms := now\<rparr>)) ds"
  let ?work = "gbind (gseq (map (\<lambda>(k, d). put_deny E d) ?ups)) (\<lambda>_. gbind (set_meta E ''deny_heartbeat_ms'' (MInt now)) (\<lambda>_. gpure ?ups))"
  have w: "?work ?s = (r, u)"
    using run by (simp add: renew_deny_rows_def gbind_def [of "load_denies E"] gbind_def [of "load_deny_highwater E"] l)
  have puts: "db_body (gseq (map (\<lambda>(k, d). put_deny E d) xs))" for xs
    by (induction xs) (auto intro!: db_body_bind)
  have "db_body ?work" by (intro db_body_bind puts) simp_all
  with w obtain db n where u: "u = (upd_db (\<lambda>_. db) ?s)\<lparr>gw_calls := n\<rparr>" by (rule db_bodyE)
  show thesis
  proof (rule that [where db = db and ds = ds and hs = hs and n = n])
    show "u = (upd_db (\<lambda>_. db) s)\<lparr>gw_denies := ds, gw_deny_highwater := hs, gw_calls := n\<rparr>" by (simp add: u upd_db_def)
    fix ups assume "r = Inr ups"
    then obtain s1 s2 where s1: "gseq (map (\<lambda>(k, d). put_deny E d) ?ups) ?s = (Inr (), s1)"
        "set_meta E ''deny_heartbeat_ms'' (MInt now) s1 = (Inr (), s2)" and s2: "u = s2" "ups = ?ups"
      using w by (auto elim!: gbind_okE)
    obtain row where row: "sealed (ge_codec E) ''meta'' (meta_json ''deny_heartbeat_ms'' (MInt now)) (MInt now) = Inr row"
        "s2 = upd_db (\<lambda>db. db\<lparr>db_meta := AList.update ''deny_heartbeat_ms'' row (db_meta db)\<rparr>) s1"
      using s1(2) by (rule set_meta_ok)
    have "deny_rows E (gw_db ?s) ds" using ok m by (simp add: overlay_ok_def deny_rows_def)
    moreover have "dict_wf ?ups" using wf(1) by (simp add: comp_def case_prod_unfold)
    moreover have "overlay_key d = k" if "(k, d) \<in> set ?ups" for k d using that wf(2) by (auto simp: overlay_key_def)
    ultimately obtain rows ds' where p: "s1 = upd_db (\<lambda>db. db\<lparr>db_denies := rows\<rparr>) ?s" "deny_rows E (gw_db s1) ds'"
        "map_of ds' = map_of ds ++ map_of ?ups"
      using puts_ok [OF s1(1)] by blast
    have b: "map_of ?ups = beaten now (map_of (gw_denies s))" by (simp add: map_of_beaten m)
    have "map_of ds' = map_of ?ups"
      by (auto simp: p(3) map_of_beaten beaten_def fun_eq_iff map_add_def split: option.split)
    moreover have db: "db = (gw_db s)\<lparr>db_denies := rows, db_meta := AList.update ''deny_heartbeat_ms'' row (db_meta (gw_db s))\<rparr>"
      using u s2(1) row(2) p(1) by (auto dest: arg_cong [of _ _ gw_db])
    ultimately have "deny_rows E db ups"
      using p(2) by (intro deny_rows_cong [of db "gw_db s1" ups ds']) (simp_all add: p(1) s2(2))
    moreover have "water_rows E db hs"
      using ok m(2) by (simp add: overlay_ok_def water_rows_def db)
    ultimately show "map_of ups = beaten now (map_of (gw_denies s)) \<and> deny_rows E db ups \<and> water_rows E db hs \<and>
      (\<exists>rows row. sealed (ge_codec E) ''meta'' (meta_json ''deny_heartbeat_ms'' (MInt now)) (MInt now) = Inr row \<and>
         db = (gw_db s)\<lparr>db_denies := rows, db_meta := AList.update ''deny_heartbeat_ms'' row (db_meta (gw_db s))\<rparr>)"
      using b row(1) db s2(2) by blast
  qed (rule m)+
qed


lemma transaction_anyE:
  assumes "transaction E body s = (r, t)"
  obtains e q u n where "r = Inl e" "body s = (q, u)" "t = (upd_db (\<lambda>_. gw_db s) u)\<lparr>gw_calls := n\<rparr>"
    | x u where "r = Inr x" "body s = (Inr x, u)" "t = asked u"
proof -
  obtain q u where run: "body s = (q, u)" by fastforce
  show thesis
  proof (cases q)
    case (Inl e)
    have "upd_db (\<lambda>_. gw_db s) u = (upd_db (\<lambda>_. gw_db s) u)\<lparr>gw_calls := gw_calls u\<rparr>" by (simp add: upd_db_def)
    moreover have "r = Inl e" "t = upd_db (\<lambda>_. gw_db s) u" using assms run Inl by (simp_all add: transaction_def gbind_def)
    ultimately show thesis using run by (metis that(1))
  next
    case (Inr x)
    show thesis
    proof (cases "mo_commit_fails (ge_moment E (gw_calls u))")
      case True
      then have "r = Inl DatabaseError" "t = (upd_db (\<lambda>_. gw_db s) u)\<lparr>gw_calls := Suc (gw_calls u)\<rparr>"
        using assms run Inr by (simp_all add: transaction_def gbind_def)
      then show thesis using run by (metis that(1))
    next
      case False
      then have "r = Inr x" "t = asked u" using assms run Inr by (simp_all add: transaction_def gbind_def)
      then show thesis using run Inr by (metis that(2))
    qed
  qed
qed

definition stalled :: "gateway \<Rightarrow> gateway \<Rightarrow> bool" where
  "stalled s t \<longleftrightarrow> (\<exists>u. reread s u \<and> (t = u \<or> t = u\<lparr>gw_recovery_required := True\<rparr>))"

definition unlogged :: "gateway_db \<Rightarrow> gateway_db \<Rightarrow> bool" where
  "unlogged db db' \<longleftrightarrow> db_commands db' = db_commands db \<and> db_channel_state db' = db_channel_state db"

definition renewed :: "gateway_env \<Rightarrow> (gateway_db \<Rightarrow> gateway_db \<Rightarrow> bool) \<Rightarrow> gateway \<Rightarrow> gateway \<Rightarrow> bool" where
  "renewed E L s t \<longleftrightarrow> (\<exists>ds hs now. overlaid E L ds hs now s t \<and>
     map_of ds = beaten now (map_of (gw_denies s)) \<and> map_of hs = map_of (gw_deny_highwater s))"

lemma reread_undone:
  assumes "map_of ds = map_of (gw_denies s)" "map_of hs = map_of (gw_deny_highwater s)"
  shows "reread s ((upd_db (\<lambda>_. gw_db s) ((upd_db (\<lambda>_. db) s)\<lparr>gw_denies := ds, gw_deny_highwater := hs\<rparr>))\<lparr>gw_calls := k\<rparr>)"
  unfolding reread_def by (intro exI [of _ ds] exI [of _ hs] exI [of _ k]) (simp add: upd_db_def assms)

lemma overlay_ok_calls [simp]: "overlay_ok E (s\<lparr>gw_calls := n\<rparr>) = overlay_ok E s"
  by (simp add: overlay_ok_def)

lemma renew_transaction_cases:
  assumes "transaction E (renew_deny_rows E now) s = (r, t)" "overlay_ok E s"
  obtains e where "r = Inl e" "reread s t"
    | ups where "r = Inr ups" "renewed E unlogged s (t\<lparr>gw_denies := ups, gw_deny_heartbeat_ms := now\<rparr>)"
  using assms(1)
proof (rule transaction_anyE)
  fix e q u n assume "r = Inl e" "renew_deny_rows E now s = (q, u)" "t = (upd_db (\<lambda>_. gw_db s) u)\<lparr>gw_calls := n\<rparr>"
  then show thesis using assms(2) by (elim renew_rows_run) (assumption, rule that(1), assumption, simp add: reread_undone)
next
  fix ups u assume "r = Inr ups" "renew_deny_rows E now s = (Inr ups, u)" "t = asked u"
  then obtain db ds hs n where u: "t = (upd_db (\<lambda>_. db) s)\<lparr>gw_denies := ds, gw_deny_highwater := hs, gw_calls := Suc n\<rparr>"
      "map_of hs = map_of (gw_deny_highwater s)" "map_of ups = beaten now (map_of (gw_denies s))" "deny_rows E db ups" "water_rows E db hs"
      "\<exists>rows row. sealed (ge_codec E) ''meta'' (meta_json ''deny_heartbeat_ms'' (MInt now)) (MInt now) = Inr row \<and>
         db = (gw_db s)\<lparr>db_denies := rows, db_meta := AList.update ''deny_heartbeat_ms'' row (db_meta (gw_db s))\<rparr>"
    using assms(2) by (elim renew_rows_run) auto
  have "overlaid E unlogged ups hs now s (t\<lparr>gw_denies := ups, gw_deny_heartbeat_ms := now\<rparr>)"
    unfolding overlaid_def using u by (intro exI [of _ db] exI [of _ "Suc n"]) (auto simp: unlogged_def)
  then show thesis using u \<open>r = Inr ups\<close> by (intro that(2)) (auto simp: renewed_def)
qed

lemma renewed_from: "renewed E L (s\<lparr>gw_calls := n\<rparr>) t = renewed E L s t"
  by (simp add: renewed_def overlaid_def)

lemma renew_heartbeats_cases:
  assumes run: "renew_deny_heartbeats E clock s = (r, t)" and ok: "overlay_ok E s"
  shows "stalled s t \<or> renewed E unlogged s t"
proof -
  have quiet: "stalled s (s\<lparr>gw_calls := n\<rparr>)" for n unfolding stalled_def using reread_calls by blast
  define work where "work = (\<lambda>now. if now < 1 then graise (ValueError ''heartbeat time must be positive'') else
      gbind (gtry (transaction E (renew_deny_rows E now)) (\<lambda>e. e = DatabaseError \<or> is_value_error e)
        (\<lambda>e. gbind (gmod (\<lambda>s. s\<lparr>gw_recovery_required := True\<rparr>)) (\<lambda>_. graise e)))
      (\<lambda>updated. gmod (\<lambda>s. s\<lparr>gw_denies := updated, gw_deny_heartbeat_ms := now\<rparr>)))"
  have "gbind (case clock of None \<Rightarrow> now_ms E | Some t \<Rightarrow> gpure t) work s = (r, t)"
    using run by (simp add: renew_deny_heartbeats_def work_def)
  note start = this
  obtain now k where w: "work now (s\<lparr>gw_calls := k\<rparr>) = (r, t)"
  proof (cases clock)
    case None
    then show thesis using start unfolding None option.case gbind_now by (rule_tac that)
  next
    case (Some now)
    have "work now (s\<lparr>gw_calls := gw_calls s\<rparr>) = (r, t)" using start unfolding Some option.case gbind_first by simp
    then show thesis by (rule that)
  qed
  show ?thesis
  proof (cases "now < 1")
    case True
    then show ?thesis using w quiet by (auto simp: work_def)
  next
    case False
    have ok': "overlay_ok E (s\<lparr>gw_calls := k\<rparr>)" using ok by simp
    obtain q u where tr: "transaction E (renew_deny_rows E now) (s\<lparr>gw_calls := k\<rparr>) = (q, u)" by fastforce
    then show ?thesis using ok'
    proof (rule renew_transaction_cases)
      fix e assume "q = Inl e" "reread (s\<lparr>gw_calls := k\<rparr>) u"
      moreover from this have "reread s u" using reread_trans reread_calls by blast
      ultimately show ?thesis using w tr False
        by (auto simp: work_def gbind_def gtry_def stalled_def split: if_splits)
    next
      fix ups assume "q = Inr ups" "renewed E unlogged (s\<lparr>gw_calls := k\<rparr>) (u\<lparr>gw_denies := ups, gw_deny_heartbeat_ms := now\<rparr>)"
      then show ?thesis using w tr False by (auto simp: work_def gbind_def gtry_def renewed_from)
    qed
  qed
qed


section \<open>Status commands\<close>

definition lease_op :: "'a gop \<Rightarrow> bool" where
  "lease_op m \<longleftrightarrow> (\<forall>s. \<exists>ls n. snd (m s) = (upd_db (\<lambda>db. db\<lparr>db_auth_leases := ls\<rparr>) s)\<lparr>gw_calls := n\<rparr>)"

lemma lease_opE:
  assumes "m s = (r, t)" "lease_op m"
  obtains ls n where "t = (upd_db (\<lambda>db. db\<lparr>db_auth_leases := ls\<rparr>) s)\<lparr>gw_calls := n\<rparr>"
  using assms by (metis lease_op_def snd_conv)

lemma upd_leases_same: "s\<lparr>gw_calls := n\<rparr> = (upd_db (\<lambda>db. db\<lparr>db_auth_leases := db_auth_leases (gw_db s)\<rparr>) s)\<lparr>gw_calls := n\<rparr>"
  by (simp add: upd_db_def)

lemma lease_op_ticks: "ticks m \<Longrightarrow> lease_op m"
  unfolding lease_op_def ticks_def using upd_leases_same by metis

lemma lease_op_bind:
  assumes "lease_op m" "\<And>x. lease_op (f x)"
  shows "lease_op (gbind m f)"
  unfolding lease_op_def
proof
  fix s
  obtain r u where run: "m s = (r, u)" by fastforce
  obtain ls n where u: "u = (upd_db (\<lambda>db. db\<lparr>db_auth_leases := ls\<rparr>) s)\<lparr>gw_calls := n\<rparr>"
    using run assms(1) by (rule lease_opE)
  show "\<exists>ls n. snd (gbind m f s) = (upd_db (\<lambda>db. db\<lparr>db_auth_leases := ls\<rparr>) s)\<lparr>gw_calls := n\<rparr>"
  proof (cases r)
    case (Inl e)
    then show ?thesis using run u by (auto simp: gbind_def)
  next
    case (Inr x)
    obtain ls' n' where "snd (f x u) = (upd_db (\<lambda>db. db\<lparr>db_auth_leases := ls'\<rparr>) u)\<lparr>gw_calls := n'\<rparr>"
      using assms(2) [of x] by (metis lease_op_def)
    then show ?thesis using run u Inr by (auto simp: gbind_def upd_db_def)
  qed
qed

lemma ticks_deny_all [simp]: "ticks (deny_all E)"
  unfolding ticks_def
proof
  fix s show "\<exists>n. snd (deny_all E s) = s\<lparr>gw_calls := n\<rparr>"
    by (cases "gw_recovery_required s \<or> gw_takeover_state s = TS_FENCED_OLD") (auto simp: deny_all_def gbind_now)
qed

lemma lease_op_if: "lease_op (\<lambda>s. if P s then (a, s) else (b, upd_db (\<lambda>db. db\<lparr>db_auth_leases := f (db_auth_leases db)\<rparr>) s))"
  unfolding lease_op_def
proof
  fix s
  show "\<exists>ls n. snd (if P s then (a, s) else (b, upd_db (\<lambda>db. db\<lparr>db_auth_leases := f (db_auth_leases db)\<rparr>) s)) =
      (upd_db (\<lambda>db. db\<lparr>db_auth_leases := ls\<rparr>) s)\<lparr>gw_calls := n\<rparr>"
    by (rule exI [of _ "if P s then db_auth_leases (gw_db s) else f (db_auth_leases (gw_db s))"], rule exI [of _ "gw_calls s"])
      (simp add: upd_db_def)
qed

lemma lease_op_mod: "lease_op (gmod (\<lambda>s. upd_db (\<lambda>db. db\<lparr>db_auth_leases := f s\<rparr>) s))"
  unfolding lease_op_def
proof
  fix s
  show "\<exists>ls n. snd (gmod (\<lambda>s. upd_db (\<lambda>db. db\<lparr>db_auth_leases := f s\<rparr>) s) s) = (upd_db (\<lambda>db. db\<lparr>db_auth_leases := ls\<rparr>) s)\<lparr>gw_calls := n\<rparr>"
    by (rule exI [of _ "f s"], rule exI [of _ "gw_calls s"]) simp
qed

lemma lease_op_simple [simp]: "lease_op (prune_auth_leases E now)" "lease_op (gpure x)" "lease_op (graise e)" "lease_op (glift z)"
  "lease_op (deny_all E)" "lease_op (fresh_id E)" "lease_op (crash E p)"
proof -
  show "lease_op (prune_auth_leases E now)" unfolding prune_auth_leases_def Let_def by (rule lease_op_mod)
qed (rule lease_op_ticks, simp)+

lemma lease_op_guard: "lease_op m \<Longrightarrow> lease_op (if b then graise e else m)"
  by simp

lemma lease_op_issue [simp]: "lease_op (issue_auth_lease E now)"
  unfolding lease_op_def
proof
  fix s
  show "\<exists>ls n. snd (issue_auth_lease E now s) = (upd_db (\<lambda>db. db\<lparr>db_auth_leases := ls\<rparr>) s)\<lparr>gw_calls := n\<rparr>"
  proof (cases "gw_active s")
    case None
    then show ?thesis
      by (intro exI [of _ "db_auth_leases (gw_db s)"] exI [of _ "gw_calls s"]) (simp add: issue_auth_lease_def upd_db_def)
  next
    case (Some ref)
    let ?m = "gbind (deny_all E) (\<lambda>all.
       if all then graise (RuntimeError ''healthy active state is required for auth lease'') else
       gbind (fresh_id E) (\<lambda>i.
       gbind (glift (AuthLeaseV1_validate \<lparr>le_lease_id = i, le_installation_id = gf_installation_id (gw_config s),
         le_security_epoch = gf_security_epoch (gw_config s), le_boot_id = gf_boot_id (gw_config s), le_bundle = ref,
         le_issued_at_ms = now, le_expires_at_ms = now + AUTH_LEASE_MS\<rparr>)) (\<lambda>lease.
       gbind (glift (sealed (ge_codec E) ''auth_leases'' (lease_json lease) lease)) (\<lambda>row s.
       if dict_has (db_auth_leases (gw_db s)) (le_lease_id lease) then (Inl DatabaseError, s)
       else (Inr lease, upd_db (\<lambda>db. db\<lparr>db_auth_leases := db_auth_leases db @ [(le_lease_id lease, row)]\<rparr>) s)))))"
    have "lease_op ?m" by (intro lease_op_bind lease_op_guard lease_op_if lease_op_simple)
    then show ?thesis unfolding lease_op_def by (simp add: issue_auth_lease_def Some)
  qed
qed


lemma lease_db: "lease_op m \<Longrightarrow> db_body m"
  unfolding lease_op_def by (rule db_bodyI) blast

definition status_work :: "gateway_env \<Rightarrow> VerifiedGatewayCommand \<Rightarrow> ack_id \<Rightarrow> bool \<Rightarrow> bool \<times> bool \<times> bool \<Rightarrow> int \<Rightarrow> unit gop" where
  "status_work E v a issue ready now =
      gbind (prune_auth_leases E now) (\<lambda>_.
      gbind (if issue then gbind (issue_auth_lease E now) (\<lambda>_. gpure ()) else gpure ()) (\<lambda>_.
      gbind (crash E ''status_after_heartbeat'') (\<lambda>_.
      gbind (now_ms E) (\<lambda>at s.
      record_pending E v a GA_STATUS [(''status'', status_json (gateway_status E ready at s))] s))))"

lemma lease_op_status_parts: "lease_op (if issue then gbind (issue_auth_lease E now) (\<lambda>_. gpure ()) else gpure ())"
  "lease_op (now_ms E)"
  by (simp_all add: lease_op_bind lease_op_ticks)

lemma db_body_status: "db_body (status_work E v a issue ready now)"
  unfolding status_work_def
proof (intro db_body_bind)
  fix at
  show "db_body (\<lambda>s. record_pending E v a GA_STATUS [(''status'', status_json (gateway_status E ready at s))] s)"
  proof (rule db_bodyI)
    fix s
    obtain db n where "snd (record_pending E v a GA_STATUS [(''status'', status_json (gateway_status E ready at s))] s) =
        (upd_db (\<lambda>_. db) s)\<lparr>gw_calls := n\<rparr>"
      using db_body_pending by (metis db_body_def)
    then show "\<exists>f n. snd (record_pending E v a GA_STATUS [(''status'', status_json (gateway_status E ready at s))] s) = (upd_db f s)\<lparr>gw_calls := n\<rparr>"
      by blast
  qed
qed (rule lease_db, rule lease_op_simple lease_op_status_parts)+

lemma status_work_ok:
  assumes "status_work E v a issue ready now s = (Inr x, u)"
  obtains ls cmds chain n where
    "u = (upd_db (\<lambda>db. db\<lparr>db_auth_leases := ls, db_commands := cmds, db_channel_state := chain\<rparr>) s)\<lparr>gw_calls := n\<rparr>"
    "logged E v GA_STATUS (gw_db s) (gw_db u)"
proof -
  obtain s1 s2 s3 res where s1: "prune_auth_leases E now s = (Inr (), s1)"
      "(if issue then gbind (issue_auth_lease E now) (\<lambda>_. gpure ()) else gpure ()) s1 = (Inr (), s2)"
      "crash E ''status_after_heartbeat'' s2 = (Inr (), s3)"
    and l: "record_pending E v a GA_STATUS res (asked s3) = (Inr x, u)"
    using assms unfolding status_work_def by (elim gbind_okE) auto
  obtain l1 n1 where "s1 = (upd_db (\<lambda>db. db\<lparr>db_auth_leases := l1\<rparr>) s)\<lparr>gw_calls := n1\<rparr>"
    using s1(1) lease_op_simple(1) by (rule lease_opE)
  moreover obtain l2 n2 where "s2 = (upd_db (\<lambda>db. db\<lparr>db_auth_leases := l2\<rparr>) s1)\<lparr>gw_calls := n2\<rparr>"
    using s1(2) lease_op_status_parts(1) by (rule lease_opE)
  moreover have "s3 = asked s2" using s1(3) by (rule crashE)
  ultimately have s3: "asked s3 = (upd_db (\<lambda>db. db\<lparr>db_auth_leases := l2\<rparr>) s)\<lparr>gw_calls := Suc (Suc n2)\<rparr>"
    by (simp add: upd_db_def)
  obtain cmds chain where u: "u = upd_db (\<lambda>db. db\<lparr>db_commands := cmds, db_channel_state := chain\<rparr>) (asked s3)"
      "logged E v GA_STATUS (gw_db (asked s3)) (gw_db u)"
    using l by (rule record_pending_ok)
  show thesis
  proof (rule that)
    show "u = (upd_db (\<lambda>db. db\<lparr>db_auth_leases := l2, db_commands := cmds, db_channel_state := chain\<rparr>) s)\<lparr>gw_calls := Suc (Suc n2)\<rparr>"
      unfolding u(1) s3 by (simp add: upd_db_def)
    show "logged E v GA_STATUS (gw_db s) (gw_db u)"
      using u(2) logged_cong [of "gw_db (asked s3)" "gw_db s"] unfolding s3 by simp
  qed
qed


definition status_body :: "gateway_env \<Rightarrow> VerifiedGatewayCommand \<Rightarrow> ack_id \<Rightarrow> bool \<Rightarrow> bool \<times> bool \<times> bool \<Rightarrow> int \<Rightarrow> unit gop" where
  "status_body E v a issue ready now = gbind (renew_deny_rows E now) (\<lambda>updated.
      gbind (gmod (\<lambda>s. s\<lparr>gw_denies := updated, gw_deny_heartbeat_ms := now\<rparr>)) (\<lambda>_. status_work E v a issue ready now))"

lemma status_body_shape:
  assumes "status_body E v a issue ready now s = (q, u)" "overlay_ok E s"
  obtains db ds hs beat n where "u = (upd_db (\<lambda>_. db) s)\<lparr>gw_denies := ds, gw_deny_highwater := hs, gw_deny_heartbeat_ms := beat, gw_calls := n\<rparr>"
    "map_of hs = map_of (gw_deny_highwater s)"
  using assms(1) unfolding status_body_def
proof (rule gbindE)
  fix e assume "renew_deny_rows E now s = (Inl e, u)"
  then obtain db ds hs n where "u = (upd_db (\<lambda>_. db) s)\<lparr>gw_denies := ds, gw_deny_highwater := hs, gw_calls := n\<rparr>"
      "map_of hs = map_of (gw_deny_highwater s)"
    using assms(2) by (rule renew_rows_run)
  then show thesis by (intro that [where db = db and ds = ds and hs = hs and n = n and beat = "gw_deny_heartbeat_ms s"]) simp_all
next
  fix ups w assume r: "renew_deny_rows E now s = (Inr ups, w)"
    and "gbind (gmod (\<lambda>s. s\<lparr>gw_denies := ups, gw_deny_heartbeat_ms := now\<rparr>)) (\<lambda>_. status_work E v a issue ready now) w = (q, u)"
  then have "status_work E v a issue ready now (w\<lparr>gw_denies := ups, gw_deny_heartbeat_ms := now\<rparr>) = (q, u)" unfolding gbind_first by simp
  then obtain db' n' where "u = (upd_db (\<lambda>_. db') (w\<lparr>gw_denies := ups, gw_deny_heartbeat_ms := now\<rparr>))\<lparr>gw_calls := n'\<rparr>"
    using db_body_status by (rule db_bodyE)
  moreover obtain db ds hs n where "w = (upd_db (\<lambda>_. db) s)\<lparr>gw_denies := ds, gw_deny_highwater := hs, gw_calls := n\<rparr>"
      "map_of hs = map_of (gw_deny_highwater s)"
    using r assms(2) by (rule renew_rows_run)
  ultimately show thesis
    by (intro that [where db = db' and ds = ups and hs = hs and n = n' and beat = now]) (simp_all add: upd_db_def)
qed

lemma status_body_ok:
  assumes "status_body E v a issue ready now s = (Inr x, u)" "overlay_ok E s"
  shows "renewed E (logged E v GA_STATUS) s (asked u)"
proof -
  obtain ups w where r: "renew_deny_rows E now s = (Inr ups, w)"
    and w: "status_work E v a issue ready now (w\<lparr>gw_denies := ups, gw_deny_heartbeat_ms := now\<rparr>) = (Inr x, u)"
    using assms(1) unfolding status_body_def by (elim gbind_okE) auto
  obtain db ds hs n where s1: "w = (upd_db (\<lambda>_. db) s)\<lparr>gw_denies := ds, gw_deny_highwater := hs, gw_calls := n\<rparr>"
      "map_of hs = map_of (gw_deny_highwater s)" "map_of ups = beaten now (map_of (gw_denies s))"
      "deny_rows E db ups" "water_rows E db hs"
    and db: "\<exists>rows row. sealed (ge_codec E) ''meta'' (meta_json ''deny_heartbeat_ms'' (MInt now)) (MInt now) = Inr row \<and>
         db = (gw_db s)\<lparr>db_denies := rows, db_meta := AList.update ''deny_heartbeat_ms'' row (db_meta (gw_db s))\<rparr>"
    using r assms(2) by (rule renew_rows_run) auto
  obtain ls cmds chain k where u: "u = (upd_db (\<lambda>db. db\<lparr>db_auth_leases := ls, db_commands := cmds, db_channel_state := chain\<rparr>)
        (w\<lparr>gw_denies := ups, gw_deny_heartbeat_ms := now\<rparr>))\<lparr>gw_calls := k\<rparr>"
    and l: "logged E v GA_STATUS (gw_db (w\<lparr>gw_denies := ups, gw_deny_heartbeat_ms := now\<rparr>)) (gw_db u)"
    using w by (rule status_work_ok)
  let ?db = "db\<lparr>db_auth_leases := ls, db_commands := cmds, db_channel_state := chain\<rparr>"
  have "overlaid E (logged E v GA_STATUS) ups hs now s (asked u)"
    unfolding overlaid_def
  proof (intro exI [of _ ?db] exI [of _ "Suc k"] conjI)
    show "asked u = (upd_db (\<lambda>_. ?db) s)\<lparr>gw_denies := ups, gw_deny_highwater := hs, gw_deny_heartbeat_ms := now, gw_calls := Suc k\<rparr>"
      by (simp add: u s1(1) upd_db_def)
    show "deny_rows E ?db ups" by (rule deny_rows_cong [OF _ _ s1(4)]) simp_all
    show "water_rows E ?db hs" by (rule water_rows_cong [OF _ _ s1(5)]) simp_all
    have "logged E v GA_STATUS (gw_db s) = logged E v GA_STATUS db" using db by (intro logged_cong) auto
    then show "logged E v GA_STATUS (gw_db s) ?db" using l by (simp add: u s1(1))
  qed (use db in auto)
  then show ?thesis unfolding renewed_def using s1(2,3) by blast
qed

lemma record_status_eq:
  "record_status E v a issue ready s = (case transaction E (status_body E v a issue ready (mo_now_ms (ge_moment E (gw_calls s)))) (asked s) of
      (Inl e, u) \<Rightarrow> (Inl e, u\<lparr>gw_denies := gw_denies (asked s), gw_deny_heartbeat_ms := gw_deny_heartbeat_ms (asked s)\<rparr>)
    | (Inr _, u) \<Rightarrow> (Inr (), u))"
  unfolding record_status_def status_body_def status_work_def gbind_now by (rule refl)

lemma record_status_cases:
  assumes run: "record_status E v a issue ready s = (r, t)" and ok: "overlay_ok E s"
  obtains e where "r = Inl e" "reread s t" | "renewed E (logged E v GA_STATUS) s t"
proof -
  define now where "now = mo_now_ms (ge_moment E (gw_calls s))"
  have ok': "overlay_ok E (asked s)" using ok by simp
  obtain q u where tr: "transaction E (status_body E v a issue ready now) (asked s) = (q, u)" by fastforce
  note out = run [unfolded record_status_eq, folded now_def, unfolded tr]
  show thesis using tr
  proof (rule transaction_anyE)
    fix e q' w n
    assume q: "q = Inl e" and body: "status_body E v a issue ready now (asked s) = (q', w)"
      and "u = (upd_db (\<lambda>_. gw_db (asked s)) w)\<lparr>gw_calls := n\<rparr>"
    moreover obtain db ds hs beat m where "w = (upd_db (\<lambda>_. db) (asked s))\<lparr>gw_denies := ds, gw_deny_highwater := hs, gw_deny_heartbeat_ms := beat, gw_calls := m\<rparr>"
        "map_of hs = map_of (gw_deny_highwater (asked s))"
      using body ok' by (rule status_body_shape)
    ultimately have "r = Inl e" "t = s\<lparr>gw_denies := gw_denies s, gw_deny_highwater := hs, gw_calls := n\<rparr>"
        "map_of hs = map_of (gw_deny_highwater s)"
      using out by (auto simp: upd_db_def)
    then show thesis
      using reread_loaded [where ds = "gw_denies s" and s = s and hs = hs and n = n] by (intro that(1)) simp_all
  next
    fix x w assume "q = Inr x" "u = asked w" and body: "status_body E v a issue ready now (asked s) = (Inr x, w)"
    then have "t = asked w" using out by simp
    with status_body_ok [OF body ok'] show thesis by (intro that(2)) (simp add: renewed_from)
  qed
qed


section \<open>Metadata: fencing and recovery\<close>

definition remetaed :: "gateway_env \<Rightarrow> (string \<rightharpoonup> meta_value) \<Rightarrow> gateway_db \<Rightarrow> gateway_db \<Rightarrow> bool" where
  "remetaed E f db db' \<longleftrightarrow>
    (\<forall>k v. meta_is E db' k v \<longleftrightarrow> (case f k of None \<Rightarrow> meta_is E db k v | Some w \<Rightarrow> v = w)) \<and>
    db_pointers db' = db_pointers db \<and> db_commands db' = db_commands db \<and> db_channel_state db' = db_channel_state db \<and>
    db_denies db' = db_denies db \<and> db_deny_highwater db' = db_deny_highwater db"

lemma meta_is_cong: "db_meta db = db_meta db' \<Longrightarrow> meta_is E db k v = meta_is E db' k v"
  by (simp add: meta_is_def)

lemma remetaed_none: "remetaed E Map.empty db db"
  by (simp add: remetaed_def)

lemma set_meta_remeta:
  assumes "set_meta E k v u = (Inr x, t)" "remetaed E f db (gw_db u)"
  obtains db' where "t = upd_db (\<lambda>_. db') u" "remetaed E (f(k \<mapsto> v)) db db'"
proof -
  obtain row where "sealed (ge_codec E) ''meta'' (meta_json k v) v = Inr row"
      "t = upd_db (\<lambda>db. db\<lparr>db_meta := AList.update k row (db_meta db)\<rparr>) u"
    using assms(1) by (rule set_meta_ok)
  then show thesis using assms(2)
    by (intro that [of "(gw_db u)\<lparr>db_meta := AList.update k row (db_meta (gw_db u))\<rparr>"])
      (auto simp: remetaed_def upd_db_def)
qed

lemma store_receipt_ok:
  assumes "store_receipt E r s = (Inr x, t)"
  obtains db where "t = upd_db (\<lambda>_. db) s" "remetaed E Map.empty (gw_db s) db"
proof -
  obtain f where t: "t = upd_db f s" "\<And>db. remetaed E Map.empty db (f db)"
    using assms unfolding store_receipt_def
    by (elim gbind_okE) (auto simp: remetaed_def meta_is_def)
  show thesis by (rule that [of "f (gw_db s)"]) (simp_all add: t upd_db_def)
qed

lemma db_body_receipt [simp]: "db_body (store_receipt E r)"
  unfolding store_receipt_def by (auto intro!: db_body_bind)

definition fencing :: "gateway_env \<Rightarrow> (string \<rightharpoonup> meta_value) \<Rightarrow> int \<Rightarrow> TakeoverState \<Rightarrow> gateway \<Rightarrow> gateway \<Rightarrow> bool" where
  "fencing E f fence ts s t \<longleftrightarrow>
    (\<exists>db n. t = (upd_db (\<lambda>_. db) s)\<lparr>gw_fence_epoch := fence, gw_takeover_state := ts, gw_calls := n\<rparr> \<and> remetaed E f (gw_db s) db)"

lemma record_old_fence_cases:
  assumes run: "record_old_fence E rc s = (r, t)"
  obtains e n where "r = Inl e" "t = s\<lparr>gw_calls := n\<rparr>"
    | "fencing E [''fence_epoch'' \<mapsto> MInt (fp_fence_epoch (fr_payload rc)), ''takeover_state'' \<mapsto> MText (takeover_value TS_FENCED_OLD)]
         (fp_fence_epoch (fr_payload rc)) TS_FENCED_OLD s t" "gw_fence_epoch s < fp_fence_epoch (fr_payload rc)"
proof -
  let ?e = "fp_fence_epoch (fr_payload rc)"
  let ?body = "gbind (store_receipt E rc) (\<lambda>_. gbind (set_meta E ''fence_epoch'' (MInt ?e)) (\<lambda>_.
        set_meta E ''takeover_state'' (MText (takeover_value TS_FENCED_OLD))))"
  consider e where "r = Inl e" "t = s"
    | "gbind (transaction E ?body) (\<lambda>_. gbind (gmod (\<lambda>s. s\<lparr>gw_fence_epoch := ?e, gw_takeover_state := TS_FENCED_OLD\<rparr>)) (\<lambda>_.
        crash E ''old_fence_after_commit'')) s = (r, t)" "gw_fence_epoch s < ?e"
    using run by (auto simp: record_old_fence_def Let_def split: if_splits)
  then show thesis
  proof cases
    case 2
    show thesis using 2(1)
    proof (rule transaction_then)
      fix x u n assume b: "?body s = (Inr x, u)" and t: "t = u\<lparr>gw_fence_epoch := ?e, gw_takeover_state := TS_FENCED_OLD\<rparr>\<lparr>gw_calls := n\<rparr>"
      obtain s1 s2 where s1: "store_receipt E rc s = (Inr (), s1)" "set_meta E ''fence_epoch'' (MInt ?e) s1 = (Inr (), s2)"
          "set_meta E ''takeover_state'' (MText (takeover_value TS_FENCED_OLD)) s2 = (Inr (), u)"
        using b by (auto elim!: gbind_okE)
      obtain d1 where d1: "s1 = upd_db (\<lambda>_. d1) s" "remetaed E Map.empty (gw_db s) d1" using s1(1) by (rule store_receipt_ok)
      have "remetaed E Map.empty (gw_db s) (gw_db s1)" using d1 by simp
      then obtain d2 where d2: "s2 = upd_db (\<lambda>_. d2) s1" "remetaed E [''fence_epoch'' \<mapsto> MInt ?e] (gw_db s) d2"
        using s1(2) set_meta_remeta by blast
      have "remetaed E [''fence_epoch'' \<mapsto> MInt ?e] (gw_db s) (gw_db s2)" using d2 by simp
      then obtain d3 where "u = upd_db (\<lambda>_. d3) s2"
          "remetaed E [''fence_epoch'' \<mapsto> MInt ?e, ''takeover_state'' \<mapsto> MText (takeover_value TS_FENCED_OLD)] (gw_db s) d3"
        using s1(3) set_meta_remeta by blast
      then show thesis using 2(2) d1(1) d2(1)
        by (intro that(2)) (auto simp: fencing_def t intro!: exI [of _ d3] exI [of _ n])
    qed (auto intro!: db_body_bind intro: that(1))
  qed (use that(1) calls_same in metis)
qed


lemma accept_takeover_cases:
  assumes run: "accept_takeover E rc s = (r, t)"
  obtains e n where "r = Inl e" "t = s\<lparr>gw_calls := n\<rparr>"
    | e where "r = Inl e" "fencing E [''takeover_state'' \<mapsto> MText (takeover_value TS_FENCED_OLD)] (gw_fence_epoch s) TS_FENCED_OLD s t"
    | "fencing E [''takeover_state'' \<mapsto> MText (takeover_value TS_RELEASED), ''fence_epoch'' \<mapsto> MInt (fp_fence_epoch (fr_payload rc))]
         (fp_fence_epoch (fr_payload rc)) TS_RELEASED s t" "gw_fence_epoch s < fp_fence_epoch (fr_payload rc)"
proof -
  let ?e = "fp_fence_epoch (fr_payload rc)"
  let ?b1 = "gbind (store_receipt E rc) (\<lambda>_. set_meta E ''takeover_state'' (MText (takeover_value TS_FENCED_OLD)))"
  let ?b2 = "gbind (set_meta E ''fence_epoch'' (MInt ?e)) (\<lambda>_. set_meta E ''takeover_state'' (MText (takeover_value TS_RELEASED)))"
  let ?f1 = "\<lambda>s. s\<lparr>gw_takeover_state := TS_FENCED_OLD\<rparr>"
  let ?f2 = "\<lambda>s. s\<lparr>gw_fence_epoch := ?e, gw_takeover_state := TS_RELEASED\<rparr>"
  let ?second = "gbind (transaction E ?b2) (\<lambda>_. gbind (gmod ?f2) (\<lambda>_. crash E ''takeover_after_advance''))"
  have b1: "db_body ?b1" and b2: "db_body ?b2" by (auto intro!: db_body_bind)
  consider e where "r = Inl e" "t = s"
    | "gbind (transaction E ?b1) (\<lambda>_. gbind (gmod ?f1) (\<lambda>_. gbind (crash E ''takeover_after_receipt'') (\<lambda>_. ?second))) s = (r, t)"
      "gw_fence_epoch s < ?e"
    using run by (auto simp: accept_takeover_def Let_def split: if_splits)
  then show thesis
  proof cases
    case 2
    show thesis using 2(1)
    proof (rule gbindE)
      fix e assume "transaction E ?b1 s = (Inl e, t)" "r = Inl e"
      then show thesis using b1 by (elim transactionE) (auto intro: that(1))
    next
      fix x u assume u: "transaction E ?b1 s = (Inr x, u)"
        and "gbind (gmod ?f1) (\<lambda>_. gbind (crash E ''takeover_after_receipt'') (\<lambda>_. ?second)) u = (r, t)"
      then have rest: "gbind (crash E ''takeover_after_receipt'') (\<lambda>_. ?second) (?f1 u) = (r, t)" unfolding gbind_first by simp
      obtain u' where u': "?b1 s = (Inr x, u')" "u = asked u'" using u b1 by (elim transactionE) auto
      obtain s1 where s1: "store_receipt E rc s = (Inr (), s1)"
          "set_meta E ''takeover_state'' (MText (takeover_value TS_FENCED_OLD)) s1 = (Inr x, u')"
        using u'(1) by (auto elim!: gbind_okE)
      obtain d1 where d1: "s1 = upd_db (\<lambda>_. d1) s" "remetaed E Map.empty (gw_db s) d1" using s1(1) by (rule store_receipt_ok)
      have "remetaed E Map.empty (gw_db s) (gw_db s1)" using d1 by simp
      then obtain d2 where d2: "u' = upd_db (\<lambda>_. d2) s1" "remetaed E [''takeover_state'' \<mapsto> MText (takeover_value TS_FENCED_OLD)] (gw_db s) d2"
        using s1(2) set_meta_remeta by blast
      have half: "fencing E [''takeover_state'' \<mapsto> MText (takeover_value TS_FENCED_OLD)] (gw_fence_epoch s) TS_FENCED_OLD s ((?f1 u)\<lparr>gw_calls := n\<rparr>)" for n
        unfolding fencing_def using d2(2) by (intro exI [of _ d2] exI [of _ n]) (simp add: u'(2) d2(1) d1(1))
      note second = that(2)
      have stop: thesis if "r = Inl e" "t = (?f1 u)\<lparr>gw_calls := n\<rparr>" for e n using second half that by blast
      show thesis using rest
      proof (rule ticks_then)
        fix y k assume "?second ((?f1 u)\<lparr>gw_calls := k\<rparr>) = (r, t)"
        then show thesis
        proof (rule transaction_then)
          fix z w m assume w: "?b2 ((?f1 u)\<lparr>gw_calls := k\<rparr>) = (Inr z, w)" and t: "t = (?f2 w)\<lparr>gw_calls := m\<rparr>"
          obtain s2 where s2: "set_meta E ''fence_epoch'' (MInt ?e) ((?f1 u)\<lparr>gw_calls := k\<rparr>) = (Inr (), s2)"
              "set_meta E ''takeover_state'' (MText (takeover_value TS_RELEASED)) s2 = (Inr z, w)"
            using w by (auto elim!: gbind_okE)
          have "remetaed E [''takeover_state'' \<mapsto> MText (takeover_value TS_FENCED_OLD)] (gw_db s) (gw_db ((?f1 u)\<lparr>gw_calls := k\<rparr>))"
            using d2 by (simp add: u'(2))
          then obtain d3 where d3: "s2 = upd_db (\<lambda>_. d3) ((?f1 u)\<lparr>gw_calls := k\<rparr>)"
              "remetaed E [''takeover_state'' \<mapsto> MText (takeover_value TS_FENCED_OLD), ''fence_epoch'' \<mapsto> MInt ?e] (gw_db s) d3"
            using s2(1) set_meta_remeta by blast
          have "remetaed E [''takeover_state'' \<mapsto> MText (takeover_value TS_FENCED_OLD), ''fence_epoch'' \<mapsto> MInt ?e] (gw_db s) (gw_db s2)"
            using d3 by simp
          then obtain d4 where d4: "w = upd_db (\<lambda>_. d4) s2"
              "remetaed E ([''takeover_state'' \<mapsto> MText (takeover_value TS_FENCED_OLD), ''fence_epoch'' \<mapsto> MInt ?e]
                (''takeover_state'' \<mapsto> MText (takeover_value TS_RELEASED))) (gw_db s) d4"
            using s2(2) set_meta_remeta by blast
          have "[''takeover_state'' \<mapsto> MText (takeover_value TS_FENCED_OLD), ''fence_epoch'' \<mapsto> MInt ?e]
                (''takeover_state'' \<mapsto> MText (takeover_value TS_RELEASED)) =
              [''takeover_state'' \<mapsto> MText (takeover_value TS_RELEASED), ''fence_epoch'' \<mapsto> MInt ?e]"
            by (auto simp: fun_eq_iff)
          with d4(2) have "remetaed E [''takeover_state'' \<mapsto> MText (takeover_value TS_RELEASED), ''fence_epoch'' \<mapsto> MInt ?e] (gw_db s) d4" by simp
          then have "fencing E [''takeover_state'' \<mapsto> MText (takeover_value TS_RELEASED), ''fence_epoch'' \<mapsto> MInt ?e] ?e TS_RELEASED s t"
            unfolding fencing_def by (intro exI [of _ d4] exI [of _ m]) (simp add: t d4(1) d3(1) u'(2) d2(1) d1(1))
          then show thesis using 2(2) by (rule that(3))
        qed (use b2 in \<open>auto intro: stop\<close>)
      qed (auto intro: stop)
    qed
  qed (use that(1) calls_same in metis)
qed


lemma record_receipt_cases:
  assumes "record_fence_receipt E rc s = (r, t)"
  shows "\<exists>db n. t = (upd_db (\<lambda>_. db) s)\<lparr>gw_calls := n\<rparr> \<and> remetaed E Map.empty (gw_db s) db"
  using assms unfolding record_fence_receipt_def
proof (rule transactionE)
  fix e n assume "t = s\<lparr>gw_calls := n\<rparr>"
  then show ?thesis by (intro exI [of _ "gw_db s"] exI [of _ n]) (simp add: remetaed_none)
next
  fix x u assume "store_receipt E rc s = (Inr x, u)" "t = asked u"
  then show ?thesis by (elim store_receipt_ok) auto
qed simp

text \<open>Entering and leaving the state that needs recovery.\<close>

definition recovering :: "gateway_env \<Rightarrow> string \<Rightarrow> bool \<Rightarrow> gateway \<Rightarrow> gateway \<Rightarrow> bool" where
  "recovering E reason required s t \<longleftrightarrow>
    (\<exists>db n f. t = (upd_db (\<lambda>_. db) s)\<lparr>gw_recovery_reason := reason, gw_recovery_required := required, gw_calls := n\<rparr> \<and>
       remetaed E f (gw_db s) db \<and> (f = Map.empty \<and> required \<or> f = [''recovery_reason'' \<mapsto> MText reason]))"

lemma recovery_meta:
  assumes "transaction E (set_meta E ''recovery_reason'' (MText reason)) s = (r, t)"
  obtains e n where "r = Inl e" "t = s\<lparr>gw_calls := n\<rparr>"
    | db n where "t = (upd_db (\<lambda>_. db) s)\<lparr>gw_calls := n\<rparr>" "remetaed E [''recovery_reason'' \<mapsto> MText reason] (gw_db s) db" "r = Inr ()"
  using assms
proof (rule transactionE)
  fix x u assume "r = Inr x" "set_meta E ''recovery_reason'' (MText reason) s = (Inr x, u)" "t = asked u"
  moreover from this(2) remetaed_none obtain db where "u = upd_db (\<lambda>_. db) s" "remetaed E [''recovery_reason'' \<mapsto> MText reason] (gw_db s) db"
    by (rule set_meta_remeta)
  ultimately show thesis by (intro that(2)) simp_all
qed (simp, erule (1) that(1))

lemma enter_recovery_cases:
  assumes run: "enter_gateway_recovery E reason s = (r, t)"
  shows "t = s \<or> reason \<noteq> [] \<and> recovering E reason True s t"
proof (cases "reason = []")
  case False
  let ?s = "s\<lparr>gw_recovery_reason := reason, gw_recovery_required := True\<rparr>"
  have "transaction E (set_meta E ''recovery_reason'' (MText reason)) ?s = (r, t)"
    using run False unfolding enter_gateway_recovery_def by (simp add: gbind_first)
  then have "recovering E reason True s t"
  proof (rule recovery_meta)
    fix e n assume "t = ?s\<lparr>gw_calls := n\<rparr>"
    then show ?thesis unfolding recovering_def by (intro exI [of _ "gw_db s"] exI [of _ n] exI [of _ Map.empty]) (simp add: remetaed_none)
  next
    fix db n assume "t = (upd_db (\<lambda>_. db) ?s)\<lparr>gw_calls := n\<rparr>" "remetaed E [''recovery_reason'' \<mapsto> MText reason] (gw_db ?s) db"
    then show ?thesis unfolding recovering_def
      by (intro exI [of _ db] exI [of _ n] exI [of _ "[''recovery_reason'' \<mapsto> MText reason]"]) (simp add: upd_db_def)
  qed
  then show ?thesis using False by simp
qed (use run in \<open>auto simp: enter_gateway_recovery_def\<close>)

lemma confirm_live_cases:
  assumes run: "confirm_live_bundle E ref s = (r, t)"
  obtains n where "t = s\<lparr>gw_calls := n\<rparr>" | "recovering E [] False s t" "gw_active s = Some ref" "gw_active_bundle s \<noteq> None"
proof (cases "gw_recovery_reason s \<noteq> ''live_swap_failed'' \<or> gw_active s \<noteq> Some ref \<or> gw_active_bundle s = None")
  case True
  then have "t = s" using run by (auto simp: confirm_live_bundle_def)
  then show thesis using that(1) [of "gw_calls s"] by simp
next
  case False
  let ?f = "\<lambda>s. s\<lparr>gw_recovery_reason := [], gw_recovery_required := False\<rparr>"
  have "gbind (transaction E (set_meta E ''recovery_reason'' (MText []))) (\<lambda>_. gbind (gmod ?f) (\<lambda>_. gpure ())) s = (r, t)"
    using run False unfolding gmod_last [symmetric] by (auto simp: confirm_live_bundle_def)
  then show thesis
  proof (rule transaction_then)
    fix x u n assume "set_meta E ''recovery_reason'' (MText []) s = (Inr x, u)" "t = (?f u)\<lparr>gw_calls := n\<rparr>"
    moreover from this(1) remetaed_none obtain db where "u = upd_db (\<lambda>_. db) s" "remetaed E [''recovery_reason'' \<mapsto> MText []] (gw_db s) db"
      by (rule set_meta_remeta)
    ultimately have "recovering E [] False s t"
      unfolding recovering_def by (intro exI [of _ db] exI [of _ n] exI [of _ "[''recovery_reason'' \<mapsto> MText []]"]) simp
    then show thesis using False by (intro that(2)) auto
  qed (auto intro: that(1))
qed


section \<open>Acknowledgements and bundle files\<close>

lemma unseal_Inr: "unseal C table j corrupt row = Inr v \<longleftrightarrow> v = rw_value row \<and> sealed C table j (rw_value row) = Inr row"
  by (cases row) (auto simp: unseal_def sealed_Inr res_bind_Inr)

text \<open>The log has \<open>ack\<close> as the answer to its command.\<close>

definition answered_in :: "gateway_env \<Rightarrow> GatewayAckV1 \<Rightarrow> (command_id, command_values sealed_row) dict \<Rightarrow> bool" where
  "answered_in E ack cmds \<longleftrightarrow> (\<exists>row. map_of cmds (ga_command_id ack) = Some row \<and>
     sealed (ge_codec E) ''commands'' (command_row_json (ga_command_id ack) (rw_value row)) (rw_value row) = Inr row \<and>
     cm_ack (rw_value row) = Some ack \<and> cm_digest (rw_value row) = ga_command_digest ack)"

definition ack_body :: "gateway_env \<Rightarrow> GatewayAckV1 \<Rightarrow> unit gop" where
  "ack_body E ack s =
     (case map_of (db_commands (gw_db s)) (ga_command_id ack) of
        None \<Rightarrow> (Inl (ValueError ''unknown command acknowledgement''), s)
      | Some row \<Rightarrow>
        gbind (glift (decode_command E (ga_command_id ack) row)) (\<lambda>v.
        if cm_digest v \<noteq> ga_command_digest ack \<or> cm_ack_id v \<noteq> ga_ack_id ack
        then graise (ValueError ''ack differs from pending command'')
        else case cm_ack v of
          Some old \<Rightarrow> if old \<noteq> ack then graise (ValueError ''different ACK already exists'') else gpure ()
        | None \<Rightarrow>
            gbind (glift (sealed (ge_codec E) ''commands'' (command_row_json (ga_command_id ack) (v\<lparr>cm_ack := Some ack\<rparr>))
              (v\<lparr>cm_ack := Some ack\<rparr>))) (\<lambda>row'.
            gmod (upd_db (\<lambda>db. db\<lparr>db_commands := AList.update (ga_command_id ack) row' (db_commands db)\<rparr>)))) s)"

lemma push_ack_eq: "push_ack E ack = gbind (transaction E (ack_body E ack)) (\<lambda>_. crash E ''ack_after_commit'')"
  by (simp add: push_ack_def ack_body_def [abs_def])

lemma ack_body_run:
  assumes run: "ack_body E ack s = (r, u)"
  obtains cmds where "u = upd_db (\<lambda>db. db\<lparr>db_commands := cmds\<rparr>) s" "r = Inr () \<Longrightarrow> answered_in E ack cmds"
    "\<And>i. i \<noteq> ga_command_id ack \<Longrightarrow> map_of cmds i = map_of (db_commands (gw_db s)) i"
proof -
  let ?i = "ga_command_id ack"
  have keep: "s = upd_db (\<lambda>db. db\<lparr>db_commands := db_commands (gw_db s)\<rparr>) s" by (simp add: upd_db_def)
  show thesis
  proof (cases "map_of (db_commands (gw_db s)) ?i")
    case None
    then have "r \<noteq> Inr ()" "u = s" using run by (auto simp: ack_body_def)
    then show thesis using keep by (intro that [of "db_commands (gw_db s)"]) auto
  next
    case (Some row)
    show thesis
    proof (cases "decode_command E ?i row")
      case (Inl e)
      then have "r \<noteq> Inr ()" "u = s" using run Some by (auto simp: ack_body_def gbind_def)
      then show thesis using keep by (intro that [of "db_commands (gw_db s)"]) auto
    next
      case (Inr v)
      then have v: "v = rw_value row" "sealed (ge_codec E) ''commands'' (command_row_json ?i v) v = Inr row"
        by (auto simp: decode_command_def unseal_Inr)
      consider "r \<noteq> Inr ()" "u = s" | "u = s" "cm_ack v = Some ack" "cm_digest v = ga_command_digest ack"
        | row' where "sealed (ge_codec E) ''commands'' (command_row_json ?i (v\<lparr>cm_ack := Some ack\<rparr>)) (v\<lparr>cm_ack := Some ack\<rparr>) = Inr row'"
            "u = upd_db (\<lambda>db. db\<lparr>db_commands := AList.update ?i row' (db_commands db)\<rparr>) s" "cm_digest v = ga_command_digest ack"
        using run Some Inr by (auto simp: ack_body_def gbind_def split: if_splits option.splits sum.splits)
      then show thesis
      proof cases
        case 1
        then show thesis using keep by (intro that [of "db_commands (gw_db s)"]) auto
      next
        case 2
        then show thesis using keep v Some by (intro that [of "db_commands (gw_db s)"]) (auto simp: answered_in_def)
      next
        case (3 row')
        show thesis
          by (rule that [of "AList.update ?i row' (db_commands (gw_db s))"])
            (use 3 sealed_value [OF 3(1)] in \<open>auto simp: answered_in_def map_of_update upd_db_def\<close>)
      qed
    qed
  qed
qed

lemma push_ack_cases:
  assumes run: "push_ack E ack s = (r, t)"
  obtains cmds n where "t = (upd_db (\<lambda>db. db\<lparr>db_commands := cmds\<rparr>) s)\<lparr>gw_calls := n\<rparr>" "r = Inr () \<Longrightarrow> answered_in E ack cmds"
    "\<And>i. i \<noteq> ga_command_id ack \<Longrightarrow> map_of cmds i = map_of (db_commands (gw_db s)) i"
proof -
  have db: "db_body (ack_body E ack)"
  proof (rule db_bodyI)
    fix s
    obtain r u where "ack_body E ack s = (r, u)" by fastforce
    moreover from this obtain cmds where "u = upd_db (\<lambda>db. db\<lparr>db_commands := cmds\<rparr>) s" by (rule ack_body_run)
    ultimately show "\<exists>f n. snd (ack_body E ack s) = (upd_db f s)\<lparr>gw_calls := n\<rparr>"
      by (intro exI [of _ "\<lambda>db. db\<lparr>db_commands := cmds\<rparr>"] exI [of _ "gw_calls s"]) simp
  qed
  have keep: "s\<lparr>gw_calls := n\<rparr> = (upd_db (\<lambda>db. db\<lparr>db_commands := db_commands (gw_db s)\<rparr>) s)\<lparr>gw_calls := n\<rparr>" for n
    by (simp add: upd_db_def)
  show thesis
    using run unfolding push_ack_eq
  proof (rule gbindE)
    fix e assume "transaction E (ack_body E ack) s = (Inl e, t)" "r = Inl e"
    moreover from this(1) db obtain n where "t = s\<lparr>gw_calls := n\<rparr>" by (rule transactionE) auto
    ultimately show thesis using keep by (intro that) auto
  next
    fix x u assume u: "transaction E (ack_body E ack) s = (Inr x, u)" and c: "crash E ''ack_after_commit'' u = (r, t)"
    obtain w where w: "ack_body E ack s = (Inr x, w)" "u = asked w" using u db by (rule transactionE) auto
    obtain cmds where cmds: "w = upd_db (\<lambda>db. db\<lparr>db_commands := cmds\<rparr>) s" "answered_in E ack cmds"
        "\<And>i. i \<noteq> ga_command_id ack \<Longrightarrow> map_of cmds i = map_of (db_commands (gw_db s)) i"
      using w(1) by (rule ack_body_run) auto
    have "t = (upd_db (\<lambda>db. db\<lparr>db_commands := cmds\<rparr>) s)\<lparr>gw_calls := Suc (Suc (gw_calls s))\<rparr>"
      using c by (elim crashE) (simp add: w(2) cmds(1))
    then show thesis using cmds(2,3) by (rule that)
  qed
qed

lemma acknowledge_cases:
  assumes run: "acknowledge E v rc s = (r, t)"
  obtains n where "t = s\<lparr>gw_calls := n\<rparr>" "\<And>ack. r = Inr ack \<Longrightarrow> cr_ack rc = Some ack"
    | cmds n where "t = (upd_db (\<lambda>db. db\<lparr>db_commands := cmds\<rparr>) s)\<lparr>gw_calls := n\<rparr>"
        "\<And>i. i \<noteq> gc_command_id (vc_command v) \<Longrightarrow> map_of cmds i = map_of (db_commands (gw_db s)) i"
        "\<And>ack. r = Inr ack \<Longrightarrow> answered_in E ack cmds \<and> ga_command_id ack = gc_command_id (vc_command v) \<and>
           ga_command_digest ack = vc_command_digest v"
proof (cases "cr_ack rc \<noteq> None \<or> cr_status rc = GA_APPLIED \<and> lifecycle s = GL_RECOVERY_REQUIRED")
  case True
  then have "t = s" "\<And>ack. r = Inr ack \<Longrightarrow> cr_ack rc = Some ack"
    using run by (auto simp: acknowledge_def Let_def split: option.splits if_splits)
  then show thesis by (intro that(1) [of "gw_calls s"]) auto
next
  case False
  let ?c = "vc_command v"
  define draft where "draft now = \<lparr>ga_ack_id = cr_ack_id rc, ga_command_id = gc_command_id ?c, ga_command_digest = vc_command_digest v,
           ga_installation_id = gf_installation_id (gw_config s), ga_channel_epoch = gc_channel_epoch ?c,
           ga_security_epoch = gc_security_epoch ?c, ga_dispatcher_fence = gc_dispatcher_fence ?c, ga_boot_id = gc_boot_id ?c,
           ga_sequence = gc_sequence ?c, ga_status = cr_status rc, ga_acknowledged_at_ms = now, ga_result = cr_result rc,
           ga_channel_seal = blank_seal (ge_ack_signer E)\<rparr>" for now
  obtain now where rest: "gbind (glift (seal_gateway_ack (ge_codec E) (draft now) (ge_ack_signer E))) (\<lambda>ack.
        gbind (push_ack E ack) (\<lambda>_. gpure ack)) (asked s) = (r, t)"
    using run False unfolding draft_def
    by (simp add: acknowledge_def Let_def gbind_now split: option.splits if_splits)
  show thesis using rest
  proof (rule gbindE)
    fix e assume "glift (seal_gateway_ack (ge_codec E) (draft now) (ge_ack_signer E)) (asked s) = (Inl e, t)" "r = Inl e"
    then show thesis by (intro that(1) [of "Suc (gw_calls s)"]) auto
  next
    fix ack u assume u: "glift (seal_gateway_ack (ge_codec E) (draft now) (ge_ack_signer E)) (asked s) = (Inr ack, u)"
      and p: "gbind (push_ack E ack) (\<lambda>_. gpure ack) u = (r, t)"
    have ack: "ga_command_id ack = gc_command_id ?c" "ga_command_digest ack = vc_command_digest v" "u = asked s"
      using u by (auto simp: seal_gateway_ack_def Let_def res_bind_Inr draft_def)
    obtain q w where w: "push_ack E ack u = (q, w)" by fastforce
    then have out: "t = w" "\<And>a. r = Inr a \<Longrightarrow> a = ack \<and> q = Inr ()" using p by (auto simp: gbind_def split: sum.splits)
    obtain cmds n where "w = (upd_db (\<lambda>db. db\<lparr>db_commands := cmds\<rparr>) u)\<lparr>gw_calls := n\<rparr>" "q = Inr () \<Longrightarrow> answered_in E ack cmds"
        "\<And>i. i \<noteq> ga_command_id ack \<Longrightarrow> map_of cmds i = map_of (db_commands (gw_db u)) i"
      using w by (rule push_ack_cases) blast
    then show thesis using ack out by (intro that(2) [where cmds = cmds and n = n]) (auto simp: upd_db_def)
  qed
qed

lemma store_bundle_cases:
  assumes run: "store_bundle E payload h s = (r, t)"
  obtains files n where "t = s\<lparr>gw_disk := (gw_disk s)\<lparr>gd_bundle_files := files\<rparr>, gw_calls := n\<rparr>"
    "\<And>g. map_of (gd_bundle_files (gw_disk s)) g \<noteq> None \<Longrightarrow> map_of files g = map_of (gd_bundle_files (gw_disk s)) g"
    "\<And>x. r = Inr x \<Longrightarrow> map_of files h = Some payload \<and> length payload \<le> bl_max_bundle_bytes (gf_limits (gw_config s))"
proof -
  let ?files = "gd_bundle_files (gw_disk s)"
  note go = that
  have keep: thesis if "t = s\<lparr>gw_calls := n\<rparr>" "\<And>x. r = Inr x \<Longrightarrow> map_of ?files h = Some payload \<and> length payload \<le> bl_max_bundle_bytes (gf_limits (gw_config s))" for n
    using that by (intro go [where files = ?files and n = n]) auto
  let ?pre = "gseq [crash E ''bundle_after_write'', crash E ''bundle_after_fsync'']"
  let ?post = "gseq [crash E ''bundle_after_rename'', crash E ''bundle_after_dir_fsync'']"
  let ?put = "\<lambda>s. s\<lparr>gw_disk := (gw_disk s)\<lparr>gd_bundle_files := AList.update h payload (gd_bundle_files (gw_disk s))\<rparr>\<rparr>"
  have ticks: "ticks ?pre" "ticks ?post" by (auto intro!: ticks_bind)
  consider "t = s" "\<And>x. r = Inr x \<Longrightarrow> map_of ?files h = Some payload \<and> length payload \<le> bl_max_bundle_bytes (gf_limits (gw_config s))"
    | "gbind ?pre (\<lambda>_. gbind (gmod ?put) (\<lambda>_. ?post)) s = (r, t)" "map_of ?files h = None"
        "length payload \<le> bl_max_bundle_bytes (gf_limits (gw_config s))"
    using run by (auto simp: store_bundle_def Let_def res_bind_Inr bounded_read_def split: if_splits option.splits)
  then show thesis
  proof cases
    case 1
    then show thesis by (intro keep [of "gw_calls s"]) auto
  next
    case 2
    show thesis using 2(1) ticks(1)
    proof (rule ticks_then)
      fix x n assume "gbind (gmod ?put) (\<lambda>_. ?post) (s\<lparr>gw_calls := n\<rparr>) = (r, t)"
      then have "?post (?put (s\<lparr>gw_calls := n\<rparr>)) = (r, t)" unfolding gbind_first .
      then obtain k where "t = (?put (s\<lparr>gw_calls := n\<rparr>))\<lparr>gw_calls := k\<rparr>" using ticks(2) by (rule ticksE)
      then show thesis using 2(2,3)
        by (intro go [where files = "AList.update h payload ?files" and n = k]) (auto simp: map_of_update)
    qed (auto intro: keep)
  qed
qed

end
