(* ===== verification/Activation_Invariant.thy ===== *)
theory Activation_Invariant
  imports Activation_Effects
begin

text \<open>
  The steps of a gateway and the agreement between its memory and its disk. \<open>durable\<close> says that every field held
  in memory can be read back from the tables and that the bundles the pointers name can be loaded; every
  operation keeps it, wherever it raises.
\<close>

section \<open>Memory and disk agree\<close>

definition stored_bundle :: "gateway_env \<Rightarrow> gateway \<Rightarrow> BundleReference \<Rightarrow> PolicyBundleV1 \<Rightarrow> bool" where
  "stored_bundle E s ref b \<longleftrightarrow> is_ok (BundleReference_validate ref) \<and>
     fst (load_bundle E (br_bundle_hash ref) s) = Inr b \<and> pb_generation b = br_generation ref"

definition meta_ok :: "gateway_env \<Rightarrow> gateway \<Rightarrow> bool" where
  "meta_ok E s \<longleftrightarrow>
     meta_is E (gw_db s) ''schema_version'' (MInt 1) \<and>
     meta_is E (gw_db s) ''installation_id'' (MText (gf_installation_id (gw_config s))) \<and>
     meta_is E (gw_db s) ''channel_epoch'' (MInt (gf_channel_epoch (gw_config s))) \<and>
     meta_is E (gw_db s) ''security_epoch'' (MInt (gf_security_epoch (gw_config s))) \<and>
     meta_is E (gw_db s) ''fence_epoch'' (MInt (gw_fence_epoch s)) \<and>
     meta_is E (gw_db s) ''takeover_state'' (MText (takeover_value (gw_takeover_state s))) \<and>
     (\<exists>h. meta_is E (gw_db s) ''deny_heartbeat_ms'' (MInt h)) \<and>
     (\<exists>r. meta_is E (gw_db s) ''recovery_reason'' (MText r) \<and> (r \<noteq> [] \<longrightarrow> gw_recovery_required s))"

definition pointers_ok :: "gateway_env \<Rightarrow> gateway \<Rightarrow> bool" where
  "pointers_ok E s \<longleftrightarrow> pointer_is E (gw_db s) ''active'' (gw_active s) \<and> pointer_is E (gw_db s) ''staged'' (gw_staged s) \<and>
     pointer_is E (gw_db s) ''previous'' (gw_previous s) \<and> pointer_is E (gw_db s) ''base'' (gw_base s)"

definition bundles_ok :: "gateway_env \<Rightarrow> gateway \<Rightarrow> bool" where
  "bundles_ok E s \<longleftrightarrow>
     (case gw_active s of None \<Rightarrow> gw_active_bundle s = None
      | Some ref \<Rightarrow> \<exists>b. gw_active_bundle s = Some b \<and> stored_bundle E s ref b) \<and>
     (\<forall>ref. gw_staged s = Some ref \<longrightarrow> (\<exists>b. stored_bundle E s ref b)) \<and>
     (\<forall>ref. gw_previous s = Some ref \<longrightarrow> (\<exists>b. stored_bundle E s ref b)) \<and>
     (\<forall>ref. gw_base s = Some ref \<longrightarrow> is_ok (BundleReference_validate ref))"

definition covered :: "gateway \<Rightarrow> bool" where
  "covered s \<longleftrightarrow> (\<forall>k. map_of (gw_denies s) k \<noteq> None \<longrightarrow> map_of (gw_deny_highwater s) k \<noteq> None)"

definition durable :: "gateway_env \<Rightarrow> gateway \<Rightarrow> bool" where
  "durable E s \<longleftrightarrow> meta_ok E s \<and> pointers_ok E s \<and> bundles_ok E s \<and> overlay_ok E s \<and> covered s"

lemma meta_ok_cong:
  assumes "meta_ok E s" "db_meta (gw_db t) = db_meta (gw_db s)" "gw_config t = gw_config s" "gw_fence_epoch t = gw_fence_epoch s"
    "gw_takeover_state t = gw_takeover_state s" "gw_recovery_required s \<Longrightarrow> gw_recovery_required t"
  shows "meta_ok E t"
  using assms meta_is_cong [OF assms(2), of E] by (auto simp: meta_ok_def)

lemma pointers_ok_cong:
  assumes "pointers_ok E s" "db_pointers (gw_db t) = db_pointers (gw_db s)" "gw_active t = gw_active s" "gw_staged t = gw_staged s"
    "gw_previous t = gw_previous s" "gw_base t = gw_base s"
  shows "pointers_ok E t"
  using assms pointer_is_cong [OF assms(2), of E] by (simp add: pointers_ok_def)

definition files_kept :: "gateway \<Rightarrow> gateway \<Rightarrow> bool" where
  "files_kept s t \<longleftrightarrow> gw_config t = gw_config s \<and>
     (\<forall>h. map_of (gd_bundle_files (gw_disk s)) h \<noteq> None \<longrightarrow>
       map_of (gd_bundle_files (gw_disk t)) h = map_of (gd_bundle_files (gw_disk s)) h)"

lemma stored_kept: "stored_bundle E s ref b \<Longrightarrow> files_kept s t \<Longrightarrow> stored_bundle E t ref b"
proof -
  assume s: "stored_bundle E s ref b" and k: "files_kept s t"
  have "map_of (gd_bundle_files (gw_disk s)) (br_bundle_hash ref) \<noteq> None"
    using s by (auto simp: stored_bundle_def load_bundle_def split: option.splits)
  then show ?thesis using s k load_bundle_cong [of t "br_bundle_hash ref" s E] by (simp add: stored_bundle_def files_kept_def)
qed

lemma bundles_ok_cong:
  assumes "bundles_ok E s" "files_kept s t" "gw_active t = gw_active s" "gw_staged t = gw_staged s"
    "gw_previous t = gw_previous s" "gw_base t = gw_base s" "gw_active_bundle t = gw_active_bundle s"
  shows "bundles_ok E t"
  using assms stored_kept [OF _ assms(2)] unfolding bundles_ok_def by (auto split: option.splits; blast)

lemma overlay_ok_cong:
  assumes "overlay_ok E s" "db_denies (gw_db t) = db_denies (gw_db s)" "db_deny_highwater (gw_db t) = db_deny_highwater (gw_db s)"
    "map_of (gw_denies t) = map_of (gw_denies s)" "map_of (gw_deny_highwater t) = map_of (gw_deny_highwater s)"
  shows "overlay_ok E t"
  using assms by (simp add: overlay_ok_def deny_rows_def water_rows_def)

lemma covered_cong: "covered s \<Longrightarrow> map_of (gw_denies t) = map_of (gw_denies s) \<Longrightarrow>
    map_of (gw_deny_highwater t) = map_of (gw_deny_highwater s) \<Longrightarrow> covered t"
  by (simp add: covered_def)

lemmas durable_congs = meta_ok_cong pointers_ok_cong bundles_ok_cong overlay_ok_cong covered_cong


section \<open>Small changes\<close>

text \<open>The changes around the effect of a command: questions asked, files written, the answer to the command
  logged, recovery entered, the overlay read again.\<close>

inductive chore :: "gateway_env \<Rightarrow> command_id \<Rightarrow> gateway \<Rightarrow> gateway \<Rightarrow> bool" for E i where
  chore_tick: "chore E i s (s\<lparr>gw_calls := n\<rparr>)"
| chore_pointer: "chore E i s (upd_pointer_file p s)"
| chore_store: "(\<And>h. map_of (gd_bundle_files (gw_disk s)) h \<noteq> None \<Longrightarrow> map_of files h = map_of (gd_bundle_files (gw_disk s)) h) \<Longrightarrow>
    chore E i s (s\<lparr>gw_disk := (gw_disk s)\<lparr>gd_bundle_files := files\<rparr>\<rparr>)"
| chore_ack: "(\<And>j. j \<noteq> i \<Longrightarrow> map_of cmds j = map_of (db_commands (gw_db s)) j) \<Longrightarrow>
    chore E i s (upd_db (\<lambda>db. db\<lparr>db_commands := cmds\<rparr>) s)"
| chore_apply: "chore E i s (s\<lparr>gw_applied := bs\<rparr>)"
| chore_recover: "recovering E reason True s t \<Longrightarrow> chore E i s t"
| chore_reread: "reread s t \<Longrightarrow> chore E i s t"
| chore_flag: "chore E i s (s\<lparr>gw_recovery_required := True\<rparr>)"

lemma files_kept_same: "gw_config t = gw_config s \<Longrightarrow> gd_bundle_files (gw_disk t) = gd_bundle_files (gw_disk s) \<Longrightarrow> files_kept s t"
  by (simp add: files_kept_def)

lemma durable_same:
  assumes "durable E s" "db_meta (gw_db t) = db_meta (gw_db s)" "gw_config t = gw_config s" "gw_fence_epoch t = gw_fence_epoch s"
    "gw_takeover_state t = gw_takeover_state s" "gw_recovery_required s \<Longrightarrow> gw_recovery_required t"
    "db_pointers (gw_db t) = db_pointers (gw_db s)" "gw_active t = gw_active s" "gw_staged t = gw_staged s"
    "gw_previous t = gw_previous s" "gw_base t = gw_base s" "files_kept s t" "gw_active_bundle t = gw_active_bundle s"
    "db_denies (gw_db t) = db_denies (gw_db s)" "db_deny_highwater (gw_db t) = db_deny_highwater (gw_db s)"
    "map_of (gw_denies t) = map_of (gw_denies s)" "map_of (gw_deny_highwater t) = map_of (gw_deny_highwater s)"
  shows "durable E t"
proof -
  have d: "meta_ok E s" "pointers_ok E s" "bundles_ok E s" "overlay_ok E s" "covered s"
    using assms(1) by (simp_all add: durable_def)
  show ?thesis unfolding durable_def
    using meta_ok_cong [OF d(1) assms(2-6)] pointers_ok_cong [OF d(2) assms(7-11)]
      bundles_ok_cong [OF d(3) assms(12,8-11,13)] overlay_ok_cong [OF d(4) assms(14-17)] covered_cong [OF d(5) assms(16,17)]
    by blast
qed

text \<open>What a small change leaves alone.\<close>

definition core_kept :: "gateway \<Rightarrow> gateway \<Rightarrow> bool" where
  "core_kept s t \<longleftrightarrow> gw_active t = gw_active s \<and> gw_staged t = gw_staged s \<and> gw_previous t = gw_previous s \<and>
     gw_base t = gw_base s \<and> gw_active_bundle t = gw_active_bundle s \<and> gw_fence_epoch t = gw_fence_epoch s \<and>
     gw_takeover_state t = gw_takeover_state s \<and> map_of (gw_denies t) = map_of (gw_denies s) \<and>
     map_of (gw_deny_highwater t) = map_of (gw_deny_highwater s) \<and>
     db_channel_state (gw_db t) = db_channel_state (gw_db s) \<and> (gw_recovery_required s \<longrightarrow> gw_recovery_required t)"

lemma core_kept_trans: "core_kept s t \<Longrightarrow> core_kept t u \<Longrightarrow> core_kept s u"
  by (simp add: core_kept_def)

lemma files_kept_trans: "files_kept s t \<Longrightarrow> files_kept t u \<Longrightarrow> files_kept s u"
  by (simp add: files_kept_def)

lemma chore_kept:
  assumes "chore E i s t"
  shows "core_kept s t" "files_kept s t"
  using assms by (cases; auto simp: core_kept_def files_kept_def recovering_def reread_def remetaed_def)+

lemma durable_chore:
  assumes "chore E i s t" "durable E s"
  shows "durable E t"
  using assms(1)
proof cases
  case (chore_recover reason)
  then obtain db n f where t: "t = (upd_db (\<lambda>_. db) s)\<lparr>gw_recovery_reason := reason, gw_recovery_required := True, gw_calls := n\<rparr>"
      "remetaed E f (gw_db s) db" "f = Map.empty \<or> f = [''recovery_reason'' \<mapsto> MText reason]"
    by (auto simp: recovering_def)
  have "meta_ok E t" using assms(2) t by (auto simp: durable_def meta_ok_def remetaed_def)
  moreover have "pointers_ok E t" "bundles_ok E t" "overlay_ok E t" "covered t"
    using assms(2) t(2) unfolding durable_def t(1)
    by (auto simp: remetaed_def elim!: durable_congs(2-5) intro!: files_kept_same)
  ultimately show ?thesis by (simp add: durable_def)
next
  case chore_reread
  then show ?thesis using assms(2) by (auto simp: reread_def elim!: durable_same intro!: files_kept_same)
next
  case (chore_store files)
  then show ?thesis using assms(2) by (auto simp: files_kept_def elim!: durable_same)
qed (use assms(2) in \<open>auto elim!: durable_same intro!: files_kept_same\<close>)


section \<open>Steps beside the commands\<close>

text \<open>What other tasks may do, also while a command waits for the dispatcher gate: both ends of a take-over,
  renewals of the deny feed, the recovery flag, and questions that only read.\<close>

inductive side_step :: "gateway_env \<Rightarrow> gateway \<Rightarrow> gateway \<Rightarrow> bool" for E where
  side_accept: "accept_receipt T rc s = (r, t) \<Longrightarrow> te_env T = E \<Longrightarrow> side_step E s t"
| side_fence: "fence_old T target cred net at s = (r, t) \<Longrightarrow> te_env T = E \<Longrightarrow> side_step E s t"
| side_receipt: "record_fence_receipt E rc s = (r, t) \<Longrightarrow> side_step E s t"
| side_renew: "renew_deny_heartbeats E clock s = (r, t) \<Longrightarrow> side_step E s t"
| side_enter: "enter_gateway_recovery E reason s = (r, t) \<Longrightarrow> side_step E s t"
| side_confirm: "confirm_live_bundle E ref s = (r, t) \<Longrightarrow> side_step E s t"
| side_ask: "side_step E s (s\<lparr>gw_calls := n\<rparr>)"

lemma await_durableE:
  assumes "await_durable E m s = (r, t)"
  obtains e where "m s = (Inl e, t)" "r = Inl e" | x u c where "m s = (Inr x, u)" "t = asked u" "r = Inr (x, c)"
  using assms unfolding await_durable_def by (elim gbindE) auto

lemma await_raise:
  assumes "gbind (await_durable E m) (\<lambda>(_, c). raise_if c) s = (r, t)"
  obtains q u n where "m s = (q, u)" "t = u\<lparr>gw_calls := n\<rparr>"
proof -
  have "ticks (raise_if c)" for c by (simp add: raise_if_def)
  show thesis using assms
  proof (rule gbindE)
    fix e assume "await_durable E m s = (Inl e, t)"
    then have "m s = (Inl e, t)" by (elim await_durableE) auto
    then show thesis by (rule that [of _ _ "gw_calls t"]) simp
  next
    fix x u assume "await_durable E m s = (Inr x, u)" "(case x of (_, c) \<Rightarrow> raise_if c) u = (r, t)"
    then show thesis by (elim await_durableE) (auto simp: raise_if_def intro: that split: if_splits)
  qed
qed

lemma accept_receipt_cases:
  assumes "accept_receipt T rc s = (r, t)" "te_env T = E"
  obtains n where "t = s\<lparr>gw_calls := n\<rparr>" | q u n where "accept_takeover E rc s = (q, u)" "t = u\<lparr>gw_calls := n\<rparr>"
proof (cases "fp_old_installation_id (fr_payload rc) \<noteq> ct_installation_id (te_old_channel_trust T)")
  case True
  then have "t = s" using assms by (simp add: accept_receipt_def Let_def)
  then show thesis using that(1) [of "gw_calls s"] by simp
next
  case False
  let ?v = "verify_fence_receipt (ge_codec E) rc (te_old_channel_trust T) (gf_installation_id (gw_config s)) (gw_fence_epoch s)"
  have run: "gbind (glift ?v) (\<lambda>_. gbind (await_durable E (accept_takeover E rc)) (\<lambda>(_, c). raise_if c)) s = (r, t)"
    using assms False by (simp add: accept_receipt_def Let_def)
  show thesis
  proof (cases ?v)
    case (Inl e)
    then have "t = s" using run by (simp add: gbind_def)
    then show thesis using that(1) [of "gw_calls s"] by simp
  next
    case (Inr x)
    then have "gbind (await_durable E (accept_takeover E rc)) (\<lambda>(_, c). raise_if c) s = (r, t)"
      using run by (simp add: gbind_def [of "glift _"])
    then show thesis by (rule await_raise) (rule that(2))
  qed
qed

lemma fence_old_cases:
  assumes "fence_old T target cred net at s = (r, t)" "te_env T = E"
  obtains n where "t = s\<lparr>gw_calls := n\<rparr>" | rc q u n where "record_old_fence E rc s = (q, u)" "t = u\<lparr>gw_calls := n\<rparr>"
proof -
  define work where "work rc = gbind (await_durable E (record_old_fence E rc)) (\<lambda>(_, cancelled). gbind (raise_if cancelled) (\<lambda>_. gpure rc))" for rc
  have run: "gbind (glift (FenceReceiptPayloadV1_validate (fence_payload s target cred net at))) (\<lambda>payload.
     gbind (glift (seal_fence_receipt (ge_codec E) \<lparr>fr_payload = payload, fr_channel_seal = blank_seal (te_signer T)\<rparr> (te_signer T))) (\<lambda>receipt.
     gbind (glift (verify_fence_receipt (ge_codec E) receipt (te_old_channel_trust T) target (gw_fence_epoch s))) (\<lambda>_. work receipt))) s = (r, t)"
    using assms unfolding work_def by (simp add: fence_old_def Let_def)
  then consider "t = s" | rc where "work rc s = (r, t)"
    by (elim gbindE) auto
  then show thesis
  proof cases
    case 1
    then show thesis using that(1) [of "gw_calls s"] by simp
  next
    case (2 rc)
    from 2 show thesis unfolding work_def
    proof (rule gbindE)
      fix e assume "await_durable E (record_old_fence E rc) s = (Inl e, t)"
      then have "record_old_fence E rc s = (Inl e, t)" by (elim await_durableE) auto
      then show thesis by (rule that(2) [of _ _ _ "gw_calls t"]) simp
    next
      fix x u assume "await_durable E (record_old_fence E rc) s = (Inr x, u)"
        "(case x of (_, cancelled) \<Rightarrow> gbind (raise_if cancelled) (\<lambda>_. gpure rc)) u = (r, t)"
      then show thesis by (elim await_durableE) (auto simp: raise_if_def gbind_def intro: that(2) split: if_splits)
    qed
  qed
qed


lemma remeta_ok:
  assumes "meta_ok E s" "remetaed E f (gw_db s) (gw_db t)" "gw_config t = gw_config s"
    "\<And>k. f k \<noteq> None \<Longrightarrow> k = ''fence_epoch'' \<or> k = ''takeover_state'' \<or> k = ''recovery_reason''"
    "f ''fence_epoch'' = None \<and> gw_fence_epoch t = gw_fence_epoch s \<or> f ''fence_epoch'' = Some (MInt (gw_fence_epoch t))"
    "f ''takeover_state'' = None \<and> gw_takeover_state t = gw_takeover_state s \<or>
      f ''takeover_state'' = Some (MText (takeover_value (gw_takeover_state t)))"
    "f ''recovery_reason'' = None \<and> (gw_recovery_required s \<longrightarrow> gw_recovery_required t) \<or>
      (\<exists>x. f ''recovery_reason'' = Some (MText x) \<and> (x \<noteq> [] \<longrightarrow> gw_recovery_required t))"
  shows "meta_ok E t"
proof -
  have other: "meta_is E (gw_db t) k v \<longleftrightarrow> meta_is E (gw_db s) k v"
    if "k \<noteq> ''fence_epoch''" "k \<noteq> ''takeover_state''" "k \<noteq> ''recovery_reason''" for k v
    using assms(2) assms(4) [of k] that by (cases "f k") (auto simp: remetaed_def)
  have set: "meta_is E (gw_db t) k v \<longleftrightarrow> (case f k of None \<Rightarrow> meta_is E (gw_db s) k v | Some w \<Rightarrow> v = w)" for k v
    using assms(2) by (simp add: remetaed_def)
  show ?thesis unfolding meta_ok_def
  proof (intro conjI)
    show "meta_is E (gw_db t) ''fence_epoch'' (MInt (gw_fence_epoch t))"
      using assms(1,5) by (auto simp: set meta_ok_def)
    show "meta_is E (gw_db t) ''takeover_state'' (MText (takeover_value (gw_takeover_state t)))"
      using assms(1,6) by (auto simp: set meta_ok_def)
    show "\<exists>r. meta_is E (gw_db t) ''recovery_reason'' (MText r) \<and> (r \<noteq> [] \<longrightarrow> gw_recovery_required t)"
      using assms(1,7) by (auto simp: set meta_ok_def)
  qed (use assms(1,3) in \<open>auto simp: other meta_ok_def\<close>)
qed

lemma durable_remeta:
  assumes "durable E s" "remetaed E f (gw_db s) (gw_db t)" "meta_ok E t" "gw_config t = gw_config s"
    "gd_bundle_files (gw_disk t) = gd_bundle_files (gw_disk s)" "gw_active t = gw_active s" "gw_staged t = gw_staged s"
    "gw_previous t = gw_previous s" "gw_base t = gw_base s" "gw_active_bundle t = gw_active_bundle s"
    "gw_denies t = gw_denies s" "gw_deny_highwater t = gw_deny_highwater s"
  shows "durable E t"
proof -
  have d: "pointers_ok E s" "bundles_ok E s" "overlay_ok E s" "covered s" using assms(1) by (simp_all add: durable_def)
  have r: "db_pointers (gw_db t) = db_pointers (gw_db s)" "db_denies (gw_db t) = db_denies (gw_db s)"
      "db_deny_highwater (gw_db t) = db_deny_highwater (gw_db s)"
    using assms(2) by (simp_all add: remetaed_def)
  show ?thesis unfolding durable_def
    using pointers_ok_cong [OF d(1) r(1) assms(6-9)] bundles_ok_cong [OF d(2) files_kept_same [OF assms(4,5)] assms(6-10)]
      overlay_ok_cong [OF d(3) r(2,3)] covered_cong [OF d(4)] assms(3,11,12) by simp
qed

lemma durable_fencing:
  assumes "durable E s" "fencing E f fence ts s t"
    "\<And>k. f k \<noteq> None \<Longrightarrow> k = ''fence_epoch'' \<or> k = ''takeover_state''"
    "f ''fence_epoch'' = None \<and> fence = gw_fence_epoch s \<or> f ''fence_epoch'' = Some (MInt fence)"
    "f ''takeover_state'' = Some (MText (takeover_value ts))"
  shows "durable E t"
proof -
  obtain db n where t: "t = (upd_db (\<lambda>_. db) s)\<lparr>gw_fence_epoch := fence, gw_takeover_state := ts, gw_calls := n\<rparr>" "remetaed E f (gw_db s) db"
    using assms(2) by (auto simp: fencing_def)
  have m: "meta_ok E s" using assms(1) by (simp add: durable_def)
  have r: "remetaed E f (gw_db s) (gw_db t)" using t by simp
  have "f ''recovery_reason'' = None" using assms(3) [of "''recovery_reason''"] by (cases "f ''recovery_reason''") auto
  moreover have "k = ''fence_epoch'' \<or> k = ''takeover_state'' \<or> k = ''recovery_reason''" if "f k \<noteq> None" for k using assms(3) that by blast
  ultimately have "meta_ok E t"
    by (intro remeta_ok [OF m r]) (simp_all add: t(1) assms(4,5))
  then show ?thesis by (rule durable_remeta [OF assms(1) r]) (simp_all add: t(1))
qed

lemma durable_overlaid:
  assumes "durable E s" "overlaid E L ds hs beat s t" "\<And>k. map_of ds k \<noteq> None \<Longrightarrow> map_of hs k \<noteq> None"
  shows "durable E t"
proof -
  obtain db n row where t: "t = (upd_db (\<lambda>_. db) s)\<lparr>gw_denies := ds, gw_deny_highwater := hs, gw_deny_heartbeat_ms := beat, gw_calls := n\<rparr>"
      "deny_rows E db ds" "water_rows E db hs" "db_pointers db = db_pointers (gw_db s)"
    and row: "sealed (ge_codec E) ''meta'' (meta_json ''deny_heartbeat_ms'' (MInt beat)) (MInt beat) = Inr row"
      "db_meta db = AList.update ''deny_heartbeat_ms'' row (db_meta (gw_db s))"
    using assms(2) by (auto simp: overlaid_def)
  have d: "meta_ok E s" "pointers_ok E s" "bundles_ok E s" using assms(1) by (simp_all add: durable_def)
  show ?thesis unfolding durable_def
  proof (intro conjI)
    show "meta_ok E t" using d(1) by (auto simp: meta_ok_def t(1) meta_is_update [OF row])
    show "pointers_ok E t" by (rule pointers_ok_cong [OF d(2)]) (simp_all add: t)
    show "bundles_ok E t" by (rule bundles_ok_cong [OF d(3)]) (simp_all add: t files_kept_same)
    show "overlay_ok E t" using t(2,3) by (simp add: overlay_ok_def t(1))
    show "covered t" using assms(3) by (simp add: covered_def t(1))
  qed
qed

lemma durable_renewed:
  assumes "durable E s" "renewed E L s t"
  shows "durable E t"
proof -
  obtain ds hs now where r: "overlaid E L ds hs now s t" "map_of ds = beaten now (map_of (gw_denies s))" "map_of hs = map_of (gw_deny_highwater s)"
    using assms(2) by (auto simp: renewed_def)
  have c: "covered s" using assms(1) by (simp add: durable_def)
  show ?thesis
  proof (rule durable_overlaid [OF assms(1) r(1)])
    fix k assume "map_of ds k \<noteq> None"
    then have "map_of (gw_denies s) k \<noteq> None" by (simp add: r(2) beaten_def)
    then show "map_of hs k \<noteq> None" using c r(3) unfolding covered_def by metis
  qed
qed

lemma durable_calls [simp]: "durable E (s\<lparr>gw_calls := n\<rparr>) \<longleftrightarrow> durable E s"
  using durable_chore [OF chore_tick [of E "[]" "s\<lparr>gw_calls := n\<rparr>" "gw_calls s"]] durable_chore [OF chore_tick [of E "[]" s n]] by auto

lemma durable_stalled:
  assumes "durable E s" "stalled s t"
  shows "durable E t"
proof -
  obtain u where u: "reread s u" "t = u \<or> t = u\<lparr>gw_recovery_required := True\<rparr>" using assms(2) by (auto simp: stalled_def)
  have "durable E u" using chore_reread [OF u(1)] assms(1) by (rule durable_chore)
  then show ?thesis using u(2) durable_chore [OF chore_flag [of E "[]" u]] by auto
qed

lemma durable_recovering:
  assumes "durable E s" "recovering E reason required s t" "required \<or> reason = []"
  shows "durable E t"
proof -
  obtain db n f where t: "t = (upd_db (\<lambda>_. db) s)\<lparr>gw_recovery_reason := reason, gw_recovery_required := required, gw_calls := n\<rparr>"
      "remetaed E f (gw_db s) db" "f = Map.empty \<and> required \<or> f = [''recovery_reason'' \<mapsto> MText reason]"
    using assms(2) by (auto simp: recovering_def)
  have m: "meta_ok E s" using assms(1) by (simp add: durable_def)
  have r: "remetaed E f (gw_db s) (gw_db t)" using t by simp
  have "meta_ok E t" by (rule remeta_ok [OF m r]) (use t(1,3) assms(3) in auto)
  then show ?thesis by (rule durable_remeta [OF assms(1) r]) (simp_all add: t(1))
qed

lemma durable_old_fence: "record_old_fence E rc s = (r, t) \<Longrightarrow> durable E s \<Longrightarrow> durable E t"
  by (erule record_old_fence_cases) (auto elim!: durable_fencing split: if_splits)

lemma durable_accept: "accept_takeover E rc s = (r, t) \<Longrightarrow> durable E s \<Longrightarrow> durable E t"
  by (erule accept_takeover_cases) (auto elim!: durable_fencing split: if_splits)

lemma durable_side:
  assumes "side_step E s t" "durable E s"
  shows "durable E t"
  using assms(1)
proof cases
  case side_accept
  then show ?thesis by (rule accept_receipt_cases) (use assms(2) in \<open>auto dest: durable_accept\<close>)
next
  case side_fence
  then show ?thesis by (rule fence_old_cases) (use assms(2) in \<open>auto dest: durable_old_fence\<close>)
next
  case side_receipt
  then obtain db n where t: "t = (upd_db (\<lambda>_. db) s)\<lparr>gw_calls := n\<rparr>" "remetaed E Map.empty (gw_db s) db" using record_receipt_cases by blast
  have r: "remetaed E Map.empty (gw_db s) (gw_db t)" using t by simp
  have m: "meta_ok E s" using assms(2) by (simp add: durable_def)
  have "meta_ok E t" by (rule remeta_ok [OF m r]) (simp_all add: t(1))
  then show ?thesis by (rule durable_remeta [OF assms(2) r]) (simp_all add: t(1))
next
  case side_renew
  then have "stalled s t \<or> renewed E unlogged s t" using renew_heartbeats_cases assms(2) unfolding durable_def by blast
  then show ?thesis using assms(2) durable_stalled durable_renewed by blast
next
  case side_enter
  then show ?thesis using assms(2) enter_recovery_cases durable_recovering by blast
next
  case side_confirm
  then show ?thesis using assms(2) by (elim confirm_live_cases) (auto dest: durable_recovering)
next
  case side_ask
  then show ?thesis using assms(2) by simp
qed

end
