(* ===== verification/Activation_Commands.thy ===== *)
theory Activation_Commands
  imports Activation_Invariant
begin

text \<open>
  The effect of a command: \<open>execute\<close> makes small changes, at most one of the five effects of \<open>main_effect\<close>, and
  small changes again; nothing of the state goes backwards.
\<close>

section \<open>Effects\<close>

inductive main_effect :: "gateway_env \<Rightarrow> VerifiedGatewayCommand \<Rightarrow> gateway \<Rightarrow> gateway \<Rightarrow> bool" for E v where
  effect_prepare: "gc_payload (vc_command v) = PreparePayload p \<Longrightarrow> policy_matches (vc_policy v) (pp_base p) (pp_target p) = Inr () \<Longrightarrow>
    stored_bundle E s (pp_target p) b \<Longrightarrow> prepared E v (pp_target p) (pp_base p) s t \<Longrightarrow> main_effect E v s t"
| effect_commit: "gc_payload (vc_command v) = CommitPayload ref \<Longrightarrow> policy_matches (vc_policy v) (gw_base s) ref = Inr () \<Longrightarrow>
    committed E v ref s t \<Longrightarrow> main_effect E v s t"
| effect_deny: "gc_payload (vc_command v) = DenyPayload p \<Longrightarrow> overlaid E (logged E v GA_DENIED) ds hs now s t \<Longrightarrow>
    map_of ds = (map_of (gw_denies s))((dp_subject_type p, dp_subject_id p) \<mapsto> overlay_of p now) \<Longrightarrow>
    map_of hs = (map_of (gw_deny_highwater s))((dp_subject_type p, dp_subject_id p) \<mapsto> (dp_deny_epoch p, dp_deny_floor_generation p)) \<Longrightarrow>
    none_bad (deny_checks p (map_of (gw_deny_highwater s) (dp_subject_type p, dp_subject_id p))) \<Longrightarrow> main_effect E v s t"
| effect_clear: "gc_payload (vc_command v) = ClearPayload p \<Longrightarrow> overlaid E (logged E v GA_DENY_CLEARED) ds hs now s t \<Longrightarrow>
    map_of ds = (map_of (gw_denies s))((cp_subject_type p, cp_subject_id p) := None) \<Longrightarrow>
    map_of hs = map_of (gw_deny_highwater s) \<Longrightarrow>
    map_option do_deny_epoch (map_of (gw_denies s) (cp_subject_type p, cp_subject_id p)) = Some (cp_deny_epoch p) \<Longrightarrow> main_effect E v s t"
| effect_status: "renewed E (logged E v GA_STATUS) s t \<Longrightarrow> main_effect E v s t"

lemma main_logged:
  assumes "main_effect E v s t"
  obtains st where "logged E v st (gw_db s) (gw_db t)"
  using assms
  by cases (auto simp: prepared_def committed_def overlaid_def renewed_def intro: that)

lemma durable_prepared:
  assumes d: "durable E s" and p: "prepared E v ref base s t" and b: "stored_bundle E s ref b"
  shows "durable E t"
proof -
  obtain db n where t: "t = (upd_db (\<lambda>_. db) s)\<lparr>gw_staged := Some ref, gw_base := base, gw_calls := n\<rparr>"
      "same_tables (gw_db s) db" "repointed E [''staged'' \<mapsto> Some ref, ''base'' \<mapsto> base] (gw_db s) db" "gw_active s = base"
    using p by (auto simp: prepared_def)
  have s: "meta_ok E s" "pointers_ok E s" "bundles_ok E s" "overlay_ok E s" "covered s" using d by (simp_all add: durable_def)
  have kept: "stored_bundle E s q c \<Longrightarrow> stored_bundle E t q c" for q c by (erule stored_kept) (simp add: t(1) files_kept_same)
  show ?thesis unfolding durable_def
  proof (intro conjI)
    show "meta_ok E t" by (rule meta_ok_cong [OF s(1)]) (use t(1,2) in \<open>auto simp: same_tables_def\<close>)
    show "pointers_ok E t" using s(2) t(3) by (simp add: pointers_ok_def t(1) repointed_def)
    have "is_ok (BundleReference_validate q)" if "base = Some q" for q
      using s(3) t(4) that by (auto simp: bundles_ok_def stored_bundle_def)
    then show "bundles_ok E t" using s(3) kept [OF b] kept by (auto simp: bundles_ok_def t(1) split: option.splits; blast)
    show "overlay_ok E t" by (rule overlay_ok_cong [OF s(4)]) (use t(1,2) in \<open>auto simp: same_tables_def\<close>)
    show "covered t" by (rule covered_cong [OF s(5)]) (simp_all add: t(1))
  qed
qed

lemma durable_committed:
  assumes d: "durable E s" and c: "committed E v ref s t"
  shows "durable E t"
proof -
  obtain db b n payload where t: "t = s\<lparr>gw_disk := (gw_disk s)\<lparr>gd_db := db, gd_pointer_file := Some payload\<rparr>, gw_previous := gw_active s,
         gw_active := Some ref, gw_active_bundle := Some b, gw_staged := None, gw_base := None, gw_calls := n\<rparr>"
      "fst (load_bundle E (br_bundle_hash ref) s) = Inr b" "same_tables (gw_db s) db"
      "repointed E [''previous'' \<mapsto> gw_active s, ''active'' \<mapsto> Some ref, ''staged'' \<mapsto> None, ''base'' \<mapsto> None] (gw_db s) db"
      "gw_staged s = Some ref"
    using c by (auto simp: committed_def)
  have s: "meta_ok E s" "pointers_ok E s" "bundles_ok E s" "overlay_ok E s" "covered s" using d by (simp_all add: durable_def)
  have kept: "stored_bundle E s q c \<Longrightarrow> stored_bundle E t q c" for q c by (erule stored_kept) (simp add: t(1) files_kept_same)
  have "stored_bundle E s ref b" using s(3) t(2,5) by (auto simp: bundles_ok_def stored_bundle_def)
  note new = kept [OF this]
  show ?thesis unfolding durable_def
  proof (intro conjI)
    show "meta_ok E t" by (rule meta_ok_cong [OF s(1)]) (use t(1,3) in \<open>auto simp: same_tables_def\<close>)
    show "pointers_ok E t" using t(4) by (simp add: pointers_ok_def t(1) repointed_def)
    have "\<exists>c. stored_bundle E t q c" if "gw_active s = Some q" for q using s(3) that kept by (auto simp: bundles_ok_def)
    then show "bundles_ok E t" using new by (auto simp: bundles_ok_def t(1))
    show "overlay_ok E t" by (rule overlay_ok_cong [OF s(4)]) (use t(1,3) in \<open>auto simp: same_tables_def\<close>)
    show "covered t" by (rule covered_cong [OF s(5)]) (simp_all add: t(1))
  qed
qed

lemma durable_main:
  assumes "main_effect E v s t" "durable E s"
  shows "durable E t"
  using assms(1)
proof cases
  case effect_prepare
  then show ?thesis using assms(2) durable_prepared by blast
next
  case effect_commit
  then show ?thesis using assms(2) durable_committed by blast
next
  case (effect_deny p ds hs now)
  have "covered s" using assms(2) by (simp add: durable_def)
  then show ?thesis using effect_deny by (intro durable_overlaid [OF assms(2) effect_deny(2)]) (auto simp: covered_def split: if_splits)
next
  case (effect_clear p ds hs now)
  have "covered s" using assms(2) by (simp add: durable_def)
  then show ?thesis using effect_clear by (intro durable_overlaid [OF assms(2) effect_clear(2)]) (auto simp: covered_def split: if_splits)
next
  case effect_status
  then show ?thesis using assms(2) durable_renewed by blast
qed


section \<open>Nothing goes backwards\<close>

definition floor_le :: "int option \<Rightarrow> int option \<Rightarrow> bool" where
  "floor_le f g \<longleftrightarrow> (case f of None \<Rightarrow> True | Some a \<Rightarrow> (case g of None \<Rightarrow> False | Some b \<Rightarrow> a \<le> b))"

definition water_le :: "(deny_key \<rightharpoonup> int \<times> int option) \<Rightarrow> (deny_key \<rightharpoonup> int \<times> int option) \<Rightarrow> bool" where
  "water_le h h' \<longleftrightarrow> (\<forall>k e f. h k = Some (e, f) \<longrightarrow> (\<exists>e' f'. h' k = Some (e', f') \<and> e \<le> e' \<and> floor_le f f'))"

definition chain_le :: "gateway_db \<Rightarrow> gateway_db \<Rightarrow> bool" where
  "chain_le db db' \<longleftrightarrow> (\<forall>ep row. map_of (db_channel_state db) ep = Some row \<longrightarrow>
     (\<exists>row'. map_of (db_channel_state db') ep = Some row' \<and> fst (rw_value row) \<le> fst (rw_value row')))"

definition progress :: "gateway \<Rightarrow> gateway \<Rightarrow> bool" where
  "progress s t \<longleftrightarrow> gw_fence_epoch s \<le> gw_fence_epoch t \<and>
     chain_le (gw_db s) (gw_db t) \<and> water_le (map_of (gw_deny_highwater s)) (map_of (gw_deny_highwater t))"

lemma floor_le_refl [simp]: "floor_le f f" and floor_le_trans: "floor_le f g \<Longrightarrow> floor_le g h \<Longrightarrow> floor_le f h"
  by (auto simp: floor_le_def split: option.splits)

lemma water_le_refl [simp]: "water_le h h"
  by (auto simp: water_le_def)

lemma water_le_trans: "water_le f g \<Longrightarrow> water_le g h \<Longrightarrow> water_le f h"
  unfolding water_le_def by (meson floor_le_trans order_trans)

lemma chain_le_refl [simp]: "chain_le db db"
  by (auto simp: chain_le_def)

lemma chain_le_trans: "chain_le a b \<Longrightarrow> chain_le b c \<Longrightarrow> chain_le a c"
  unfolding chain_le_def by (meson order_trans)

lemma chain_le_same: "db_channel_state db' = db_channel_state db \<Longrightarrow> chain_le db db'"
  by (simp add: chain_le_def)

lemma progress_refl [simp]: "progress s s"
  by (simp add: progress_def)

lemma progress_trans: "progress s t \<Longrightarrow> progress t u \<Longrightarrow> progress s u"
  unfolding progress_def using chain_le_trans water_le_trans order_trans by blast

lemma progress_kept: "core_kept s t \<Longrightarrow> progress s t"
  by (simp add: core_kept_def progress_def chain_le_same)

lemma progress_calls: "progress s t \<Longrightarrow> progress s (t\<lparr>gw_calls := n\<rparr>)"
  by (simp add: progress_def)

lemma logged_chain:
  assumes "logged E v st db db'"
  shows "chain_le db db'"
    "\<exists>row. map_of (db_channel_state db') (gc_channel_epoch (vc_command v)) = Some row \<and> fst (rw_value row) = gc_sequence (vc_command v)"
  using assms by (auto simp: logged_def next_in_chain_def chain_le_def map_of_update Let_def split: option.splits)

lemma progress_fencing:
  assumes "fencing E f fence ts s t" "gw_fence_epoch s \<le> fence"
  shows "progress s t"
  using assms by (auto simp: fencing_def progress_def remetaed_def intro!: chain_le_same)

lemma progress_recovering: "recovering E reason required s t \<Longrightarrow> progress s t"
  by (auto simp: recovering_def progress_def remetaed_def intro!: chain_le_same)

lemma progress_side:
  assumes "side_step E s t" "durable E s"
  shows "progress s t"
  using assms(1)
proof cases
  case side_accept
  then show ?thesis
    by (rule accept_receipt_cases) (auto elim!: accept_takeover_cases intro!: progress_calls intro: progress_fencing less_imp_le)
next
  case side_fence
  then show ?thesis
    by (rule fence_old_cases) (auto elim!: record_old_fence_cases intro!: progress_calls intro: progress_fencing less_imp_le)
next
  case side_receipt
  then obtain db n where "t = (upd_db (\<lambda>_. db) s)\<lparr>gw_calls := n\<rparr>" "remetaed E Map.empty (gw_db s) db" using record_receipt_cases by blast
  then show ?thesis by (simp add: progress_def remetaed_def chain_le_same)
next
  case side_renew
  then have "stalled s t \<or> renewed E unlogged s t" using renew_heartbeats_cases assms(2) unfolding durable_def by blast
  then show ?thesis
    by (auto simp: stalled_def reread_def renewed_def overlaid_def unlogged_def progress_def chain_le_same)
next
  case side_enter
  then show ?thesis using enter_recovery_cases progress_recovering progress_refl by blast
next
  case side_confirm
  then show ?thesis by (elim confirm_live_cases) (auto intro!: progress_calls intro: progress_recovering)
next
  case side_ask
  then show ?thesis by (simp add: progress_calls)
qed

lemma deny_checks_water:
  assumes "none_bad (deny_checks p (m k))"
  shows "water_le m (m(k \<mapsto> (dp_deny_epoch p, dp_deny_floor_generation p)))"
  using assms by (auto simp: water_le_def deny_checks_def floor_le_def split: option.splits)

lemma progress_main:
  assumes "main_effect E v s t"
  shows "progress s t"
proof -
  obtain st where l: "logged E v st (gw_db s) (gw_db t)" using assms by (rule main_logged)
  have "gw_fence_epoch t = gw_fence_epoch s" "water_le (map_of (gw_deny_highwater s)) (map_of (gw_deny_highwater t))"
    using assms by (cases; auto simp: prepared_def committed_def overlaid_def renewed_def intro!: deny_checks_water)+
  then show ?thesis using logged_chain(1) [OF l] by (simp add: progress_def)
qed


section \<open>Beside the effect\<close>

definition pointers_kept :: "gateway \<Rightarrow> gateway \<Rightarrow> bool" where
  "pointers_kept s t \<longleftrightarrow> gw_active t = gw_active s \<and> gw_staged t = gw_staged s \<and> gw_previous t = gw_previous s \<and>
     gw_base t = gw_base s \<and> gw_active_bundle t = gw_active_bundle s"

lemma pointers_kept_simps [simp]: "pointers_kept s s" "pointers_kept s (t\<lparr>gw_calls := n\<rparr>) = pointers_kept s t"
  by (simp_all add: pointers_kept_def)

lemma pointers_kept_trans: "pointers_kept s t \<Longrightarrow> pointers_kept t u \<Longrightarrow> pointers_kept s u"
  by (simp add: pointers_kept_def)

lemma fencing_kept: "fencing E f fence ts s t \<Longrightarrow> files_kept s t \<and> pointers_kept s t"
  by (auto simp: fencing_def pointers_kept_def intro: files_kept_same)

lemma recovering_kept: "recovering E reason required s t \<Longrightarrow> files_kept s t \<and> pointers_kept s t"
  by (auto simp: recovering_def pointers_kept_def intro: files_kept_same)

lemma files_kept_calls [simp]: "files_kept s (t\<lparr>gw_calls := n\<rparr>) = files_kept s t" "files_kept s s"
  by (simp_all add: files_kept_def)

lemma side_kept:
  assumes "side_step E s t" "durable E s"
  shows "files_kept s t \<and> pointers_kept s t"
  using assms(1)
proof cases
  case side_accept
  then show ?thesis by (rule accept_receipt_cases) (auto elim!: accept_takeover_cases dest: fencing_kept)
next
  case side_fence
  then show ?thesis by (rule fence_old_cases) (auto elim!: record_old_fence_cases dest: fencing_kept)
next
  case side_receipt
  then show ?thesis using record_receipt_cases by (fastforce simp: pointers_kept_def intro: files_kept_same)
next
  case side_renew
  then have "stalled s t \<or> renewed E unlogged s t" using renew_heartbeats_cases assms(2) unfolding durable_def by blast
  then show ?thesis
    by (auto simp: stalled_def reread_def renewed_def overlaid_def pointers_kept_def intro!: files_kept_same)
next
  case side_enter
  then show ?thesis using enter_recovery_cases recovering_kept by fastforce
next
  case side_confirm
  then show ?thesis by (elim confirm_live_cases) (auto dest: recovering_kept)
qed simp_all

lemma sides_kept:
  assumes "(side_step E)\<^sup>*\<^sup>* s t" "durable E s"
  shows "durable E t \<and> files_kept s t \<and> pointers_kept s t \<and> progress s t"
  using assms
proof (induction rule: rtranclp_induct)
  case (step t u)
  then show ?case
    using durable_side [of E t u] side_kept [of E t u] progress_side [of E t u] files_kept_trans pointers_kept_trans progress_trans by blast
qed simp

definition around :: "gateway_env \<Rightarrow> command_id \<Rightarrow> gateway \<Rightarrow> gateway \<Rightarrow> bool" where
  "around E i = (\<lambda>s t. chore E i s t \<or> side_step E s t)\<^sup>*\<^sup>*"

lemma around_refl [simp]: "around E i s s" and around_trans: "around E i s t \<Longrightarrow> around E i t u \<Longrightarrow> around E i s u"
  by (auto simp: around_def)

lemma around_chore: "chore E i s t \<Longrightarrow> around E i s t" and around_side: "(side_step E)\<^sup>*\<^sup>* s t \<Longrightarrow> around E i s t"
  unfolding around_def by (auto elim: rtranclp_mono [THEN predicate2D, rotated])

lemma around_calls [simp]: "around E i s (s\<lparr>gw_calls := n\<rparr>)"
  by (rule around_chore) (rule chore_tick)

lemma around_ticks: "m s = (r, t) \<Longrightarrow> ticks m \<Longrightarrow> around E i s t"
  by (erule (1) ticksE) simp

lemma chore_pointers: "chore E i s t \<Longrightarrow> pointers_kept s t"
  by (drule chore_kept(1)) (simp add: core_kept_def pointers_kept_def)

lemma around_kept:
  assumes "around E i s t" "durable E s"
  shows "durable E t \<and> files_kept s t \<and> pointers_kept s t \<and> progress s t"
  using assms unfolding around_def
proof (induction rule: rtranclp_induct)
  case (step t u)
  have "durable E u \<and> files_kept t u \<and> pointers_kept t u \<and> progress t u"
    using step(2,3,4) durable_chore chore_kept chore_pointers progress_kept durable_side side_kept progress_side by metis
  then show ?case using step files_kept_trans pointers_kept_trans progress_trans by blast
qed simp


section \<open>At most one effect\<close>

text \<open>From a state with \<open>P\<close>, \<open>m\<close> makes small changes, or small changes, one effect \<open>M\<close> and small changes.\<close>

definition via :: "gateway_env \<Rightarrow> command_id \<Rightarrow> (gateway \<Rightarrow> gateway \<Rightarrow> bool) \<Rightarrow> (gateway \<Rightarrow> bool) \<Rightarrow> 'a gop \<Rightarrow> bool" where
  "via E i M P m \<longleftrightarrow> (\<forall>s r t. P s \<longrightarrow> m s = (r, t) \<longrightarrow>
     around E i s t \<or> (\<exists>u w. around E i s u \<and> M u w \<and> around E i w t))"

lemma via_bind:
  assumes m: "\<And>s r t. P s \<Longrightarrow> m s = (r, t) \<Longrightarrow> around E i s t \<and> (\<forall>x. r = Inr x \<longrightarrow> Q x t)" and f: "\<And>x. via E i M (Q x) (f x)"
  shows "via E i M P (gbind m f)"
  unfolding via_def
proof (intro allI impI)
  fix s r t assume P: "P s" and "gbind m f s = (r, t)"
  from this(2) show "around E i s t \<or> (\<exists>u w. around E i s u \<and> M u w \<and> around E i w t)"
  proof (rule gbindE)
    fix x u assume u: "m s = (Inr x, u)" "f x u = (r, t)"
    then have "around E i s u" "Q x u" using m [OF P] by blast+
    then show ?thesis using f [of x] u(2) around_trans unfolding via_def by blast
  qed (use m [OF P] in blast)
qed

lemma via_after:
  assumes m: "via E i M P m" and f: "\<And>x s r t. f x s = (r, t) \<Longrightarrow> around E i s t"
  shows "via E i M P (gbind m f)"
  unfolding via_def
proof (intro allI impI)
  fix s r t assume P: "P s" and "gbind m f s = (r, t)"
  from this(2) show "around E i s t \<or> (\<exists>u w. around E i s u \<and> M u w \<and> around E i w t)"
  proof (rule gbindE)
    fix x u assume u: "m s = (Inr x, u)" "f x u = (r, t)"
    then have "around E i u t" using f by blast
    moreover have "around E i s u \<or> (\<exists>v w. around E i s v \<and> M v w \<and> around E i w u)" using m P u(1) unfolding via_def by blast
    ultimately show ?thesis using around_trans [of E i _ u t] by blast
  qed (use m P in \<open>unfold via_def, blast\<close>)
qed

lemma via_lift: "(\<And>x. z = Inr x \<Longrightarrow> via E i M P (f x)) \<Longrightarrow> via E i M P (gbind (glift z) f)"
  by (cases z) (auto simp: via_def gbind_def)

lemma via_ticks:
  assumes "ticks m" "\<And>s n. P s \<Longrightarrow> P (s\<lparr>gw_calls := n\<rparr>)" "\<And>x. via E i M P (f x)"
  shows "via E i M P (gbind m f)"
proof (rule via_bind [where Q = "\<lambda>_. P"])
  fix s r t assume "P s" "m s = (r, t)"
  then show "around E i s t \<and> (\<forall>x. r = Inr x \<longrightarrow> P t)" using assms(1,2) by (metis ticksE around_calls)
qed (rule assms(3))

lemma via_safe: "(\<And>s r t. m s = (r, t) \<Longrightarrow> around E i s t) \<Longrightarrow> via E i M P m"
  by (simp add: via_def)

lemma via_pre: "via E i M P m \<Longrightarrow> (\<And>s. Q s \<Longrightarrow> P s) \<Longrightarrow> via E i M Q m"
  by (simp add: via_def)

lemma via_await: "via E i M P m \<Longrightarrow> via E i M P (await_durable E m)"
  unfolding await_durable_def by (erule via_after) (auto elim!: gbindE)

lemma ticks_raise [simp]: "ticks (raise_if c)"
  by (simp add: raise_if_def)

lemma around_ack:
  assumes "acknowledge E v rc s = (r, t)"
  shows "around E (gc_command_id (vc_command v)) s t"
  using assms
proof (rule acknowledge_cases)
  fix cmds n
  assume t: "t = (upd_db (\<lambda>db. db\<lparr>db_commands := cmds\<rparr>) s)\<lparr>gw_calls := n\<rparr>"
    and c: "\<And>i. i \<noteq> gc_command_id (vc_command v) \<Longrightarrow> map_of cmds i = map_of (db_commands (gw_db s)) i"
  have "chore E (gc_command_id (vc_command v)) s (upd_db (\<lambda>db. db\<lparr>db_commands := cmds\<rparr>) s)"
    using c by (rule chore_ack)
  from around_trans [OF around_chore [OF this] around_calls] show ?thesis unfolding t .
qed simp

lemma around_recorded:
  assumes "acknowledge_recorded E v s = (r, t)"
  shows "around E (gc_command_id (vc_command v)) s t"
proof -
  have u: "snd (validate_new_command E v s) = s" by (rule validate_new_same)
  show ?thesis using assms unfolding acknowledge_recorded_def
    by (elim gbindE) (use u around_ack in \<open>auto split: option.splits\<close>)
qed

lemma around_reraise:
  assumes "gbind (acknowledge_recorded E v) (\<lambda>ack. gbind (raise_if c) (\<lambda>_. gpure ack)) s = (r, t)"
  shows "around E (gc_command_id (vc_command v)) s t"
  using assms
proof (rule gbindE)
  fix x u assume "acknowledge_recorded E v s = (Inr x, u)" "gbind (raise_if c) (\<lambda>_. gpure x) u = (r, t)"
  moreover have "ticks (gbind (raise_if c) (\<lambda>_. gpure x))" by (rule ticks_bind) simp_all
  ultimately show ?thesis using around_recorded around_ticks around_trans by metis
qed (rule around_recorded)


section \<open>Handlers\<close>

definition effect_at :: "gateway_env \<Rightarrow> VerifiedGatewayCommand \<Rightarrow> gateway \<Rightarrow> gateway \<Rightarrow> bool" where
  "effect_at E v s t \<longleftrightarrow> main_effect E v s t \<and> gc_dispatcher_fence (vc_command v) = gw_fence_epoch s"

definition at_gate :: "gateway_env \<Rightarrow> VerifiedGatewayCommand \<Rightarrow> gateway \<Rightarrow> bool" where
  "at_gate E v s \<longleftrightarrow> durable E s \<and> gc_dispatcher_fence (vc_command v) = gw_fence_epoch s"

lemma at_gate_calls [simp]: "at_gate E v (s\<lparr>gw_calls := n\<rparr>) = at_gate E v s"
  by (simp add: at_gate_def)

abbreviation others_only :: "gateway_env \<Rightarrow> unit gop \<Rightarrow> bool" where
  "others_only E meanwhile \<equiv> \<forall>s. (side_step E)\<^sup>*\<^sup>* s (snd (meanwhile s))"

lemma via_hold:
  assumes others: "others_only E mw" and Q: "\<And>s t. P s \<Longrightarrow> (side_step E)\<^sup>*\<^sup>* s t \<Longrightarrow> gc_dispatcher_fence (vc_command v) = gw_fence_epoch t \<Longrightarrow> Q t"
    and f: "via E i M Q f"
  shows "via E i M P (gbind (hold_activation mw) (\<lambda>_. gbind (assert_current_fence v) (\<lambda>_. f)))"
proof (rule via_bind [where Q = "\<lambda>_ t. \<exists>s. P s \<and> (side_step E)\<^sup>*\<^sup>* s t"])
  fix s r t assume "P s" "hold_activation mw s = (r, t)"
  then show "around E i s t \<and> (\<forall>x. r = Inr x \<longrightarrow> (\<exists>s. P s \<and> (side_step E)\<^sup>*\<^sup>* s t))"
    using others by (auto simp: hold_activation_def intro: around_side)
next
  show "via E i M (\<lambda>t. \<exists>s. P s \<and> (side_step E)\<^sup>*\<^sup>* s t) (gbind (assert_current_fence v) (\<lambda>_. f))"
  proof (rule via_bind [where Q = "\<lambda>_. Q"])
    fix s r t assume "\<exists>s'. P s' \<and> (side_step E)\<^sup>*\<^sup>* s' s" "assert_current_fence v s = (r, t)"
    then show "around E i s t \<and> (\<forall>x. r = Inr x \<longrightarrow> Q t)"
      using Q by (auto simp: assert_current_fence_def split: if_splits)
  qed (rule f)
qed

lemma via_gate:
  assumes "others_only E mw" "\<And>a. via E (gc_command_id (vc_command v)) (effect_at E v) (at_gate E v) (work a)"
  shows "via E (gc_command_id (vc_command v)) (effect_at E v) (durable E) (under_gate E mw v work)"
  unfolding under_gate_def
proof (rule via_hold [OF assms(1), where Q = "at_gate E v"])
  show "at_gate E v t" if "durable E s" "(side_step E)\<^sup>*\<^sup>* s t" "gc_dispatcher_fence (vc_command v) = gw_fence_epoch t" for s t
    using that sides_kept by (auto simp: at_gate_def)
  show "via E (gc_command_id (vc_command v)) (effect_at E v) (at_gate E v) (gbind (fresh_id E) (\<lambda>ack_id.
      gbind (await_durable E (work ack_id)) (\<lambda>(_, cancelled). gbind (acknowledge_recorded E v) (\<lambda>ack.
      gbind (raise_if cancelled) (\<lambda>_. gpure ack)))))"
    by (rule via_ticks) (auto intro!: via_after via_await assms(2) around_reraise split: prod.splits)
qed

lemma ticks_policy [simp]: "ticks (active_policy policy)"
  by (auto simp: ticks_def active_policy_def split: option.splits)

lemma via_deny:
  assumes "others_only E mw"
  shows "via E (gc_command_id (vc_command v)) (effect_at E v) (durable E) (deny_handler E mw v)"
proof (cases "gc_payload (vc_command v)")
  case (DenyPayload p)
  have "via E (gc_command_id (vc_command v)) (effect_at E v) (at_gate E v) (issue_deny E v p a res)" for a res
    unfolding via_def
  proof (intro allI impI)
    fix s r t assume s: "at_gate E v s" and run: "issue_deny E v p a res s = (r, t)"
    have ok: "overlay_ok E s" using s by (simp add: at_gate_def durable_def)
    from run ok show "around E (gc_command_id (vc_command v)) s t \<or> (\<exists>u w. around E (gc_command_id (vc_command v)) s u \<and>
        effect_at E v u w \<and> around E (gc_command_id (vc_command v)) w t)"
    proof (rule issue_deny_cases)
      fix ds hs now assume "overlaid E (logged E v GA_DENIED) ds hs now s t"
        "map_of ds = (map_of (gw_denies s))((dp_subject_type p, dp_subject_id p) \<mapsto> overlay_of p now)"
        "map_of hs = (map_of (gw_deny_highwater s))((dp_subject_type p, dp_subject_id p) \<mapsto> (dp_deny_epoch p, dp_deny_floor_generation p))"
        "none_bad (deny_checks p (map_of (gw_deny_highwater s) (dp_subject_type p, dp_subject_id p)))"
      then have "effect_at E v s t" using s effect_deny [OF DenyPayload] by (simp add: effect_at_def at_gate_def)
      then show ?thesis using around_refl by blast
    qed (use around_chore chore_reread in blast)
  qed
  then show ?thesis unfolding deny_handler_def DenyPayload command_payload.case
    by (intro via_lift via_ticks [OF ticks_policy] via_gate assms) simp_all
qed (auto simp: deny_handler_def via_def)


lemma via_effect:
  assumes "\<And>s r t. at_gate E v s \<Longrightarrow> m s = (r, t) \<Longrightarrow> reread s t \<or> main_effect E v s t"
  shows "via E (gc_command_id (vc_command v)) (effect_at E v) (at_gate E v) m"
  unfolding via_def
proof (intro allI impI)
  fix s r t assume s: "at_gate E v s" "m s = (r, t)"
  then show "around E (gc_command_id (vc_command v)) s t \<or> (\<exists>u w. around E (gc_command_id (vc_command v)) s u \<and>
        effect_at E v u w \<and> around E (gc_command_id (vc_command v)) w t)"
    using assms [OF s] around_chore chore_reread around_refl unfolding effect_at_def at_gate_def by blast
qed

lemma gate_overlay: "at_gate E v s \<Longrightarrow> overlay_ok E s"
  by (simp add: at_gate_def durable_def)

lemma via_clear:
  assumes "others_only E mw"
  shows "via E (gc_command_id (vc_command v)) (effect_at E v) (durable E) (clear_handler E mw v)"
proof (cases "gc_payload (vc_command v)")
  case (ClearPayload p)
  have "via E (gc_command_id (vc_command v)) (effect_at E v) (at_gate E v) (clear_deny E v p a res)" for a res
  proof (rule via_effect)
    fix s r t assume "at_gate E v s" and run: "clear_deny E v p a res s = (r, t)"
    then have ok: "overlay_ok E s" by (rule_tac gate_overlay)
    from run ok show "reread s t \<or> main_effect E v s t" by (rule clear_deny_cases) (auto intro: effect_clear [OF ClearPayload])
  qed
  then show ?thesis unfolding clear_handler_def ClearPayload command_payload.case
    by (intro via_lift via_ticks [OF ticks_policy] via_gate assms) simp_all
qed (auto simp: clear_handler_def via_def)

lemma via_status:
  assumes "others_only E mw"
  shows "via E (gc_command_id (vc_command v)) (effect_at E v) (durable E) (status_handler E mw v)"
proof (cases "gc_payload (vc_command v)")
  case (StatusPayload issue)
  have "via E (gc_command_id (vc_command v)) (effect_at E v) (at_gate E v) (record_status E v a issue ready)" for a ready
  proof (rule via_effect)
    fix s r t assume "at_gate E v s" and run: "record_status E v a issue ready s = (r, t)"
    then have ok: "overlay_ok E s" by (rule_tac gate_overlay)
    from run ok show "reread s t \<or> main_effect E v s t" by (rule record_status_cases) (auto intro: effect_status)
  qed
  then show ?thesis unfolding status_handler_def StatusPayload command_payload.case
    by (intro via_ticks [OF ticks_now(2)] via_gate assms) simp_all
qed (auto simp: status_handler_def via_def)

lemma around_apply:
  assumes "apply_live E b s = (r, t)"
  shows "around E i s t"
proof (cases "mo_callback (ge_moment E (gw_calls s))")
  case None
  then have "t = (asked s)\<lparr>gw_applied := gw_applied s @ [b]\<rparr>" using assms by (simp add: apply_live_def gbind_first)
  then show ?thesis using around_trans [OF around_calls around_chore [OF chore_apply]] by simp
next
  case (Some e)
  then obtain q where "enter_gateway_recovery E ''live_swap_failed'' (asked s) = (q, t)"
    using assms by (auto simp: apply_live_def gbind_first elim!: gbindE)
  then have "t = asked s \<or> recovering E ''live_swap_failed'' True (asked s) t" using enter_recovery_cases by blast
  then show ?thesis using around_trans [OF around_calls around_chore [OF chore_recover]] around_calls by blast
qed

lemma via_commit:
  assumes others: "others_only E mw"
  shows "via E (gc_command_id (vc_command v)) (effect_at E v) (durable E) (commit_handler E mw v)"
proof (cases "gc_payload (vc_command v)")
  case (CommitPayload ref)
  let ?i = "gc_command_id (vc_command v)"
  define bound where "bound base s \<longleftrightarrow> durable E s \<and> gw_base s = base" for base s
  define ready where "ready base s \<longleftrightarrow> at_gate E v s \<and> gw_base s = base" for base s
  have commit: "via E ?i (effect_at E v) (ready base) (commit_staged E v ref a res)"
    if pm: "policy_matches (vc_policy v) base ref = Inr ()" for base a res
    unfolding via_def
  proof (intro allI impI)
    fix s r t assume s: "ready base s" and run: "commit_staged E v ref a res s = (r, t)"
    from run show "around E ?i s t \<or> (\<exists>u w. around E ?i s u \<and> effect_at E v u w \<and> around E ?i w t)"
    proof (rule commit_staged_cases)
      fix e p n assume "t = (upd_pointer_file p s)\<lparr>gw_calls := n\<rparr>"
      then show ?thesis using around_trans [OF around_chore [OF chore_pointer] around_calls] by simp
    next
      assume "committed E v ref s t"
      then have "effect_at E v s t"
        using s pm effect_commit [OF CommitPayload] by (simp add: effect_at_def ready_def at_gate_def)
      then show ?thesis using around_refl by blast
    qed
  qed
  define rest where "rest = gbind (validate_commit_reference ref) (\<lambda>_. gbind (fresh_id E) (\<lambda>ack_id.
         gbind (await_durable E (commit_staged E v ref ack_id [(''active'', reference_json ref)])) (\<lambda>(bundle, cancelled).
         gbind (apply_live E bundle) (\<lambda>_. gbind (crash E ''memory_after_swap'') (\<lambda>_.
         gbind (acknowledge_recorded E v) (\<lambda>ack. gbind (raise_if cancelled) (\<lambda>_. gpure ack)))))))"
  have after: "around E ?i s t"
    if "gbind (apply_live E b) (\<lambda>_. gbind (crash E ''memory_after_swap'') (\<lambda>_. gbind (acknowledge_recorded E v) (\<lambda>ack.
        gbind (raise_if c) (\<lambda>_. gpure ack)))) s = (r, t)" for b c s r t
    using that
  proof (rule gbindE)
    fix x u assume u: "apply_live E b s = (Inr x, u)" and "gbind (crash E ''memory_after_swap'') (\<lambda>_. gbind (acknowledge_recorded E v) (\<lambda>ack.
        gbind (raise_if c) (\<lambda>_. gpure ack))) u = (r, t)"
    from this(2) have "around E ?i u t"
      by (rule gbindE) (auto elim!: crashE dest!: around_reraise intro: around_trans [OF around_calls])
    then show ?thesis using around_apply [OF u] around_trans by blast
  qed (rule around_apply)
  have rest: "via E ?i (effect_at E v) (ready base) rest" if "policy_matches (vc_policy v) base ref = Inr ()" for base
    unfolding rest_def
    by (intro via_ticks [OF ticks_reference(2)] via_ticks [OF ticks_now(3)])
      (auto simp: ready_def intro!: via_after via_await commit [OF that] after split: prod.splits)
  show ?thesis unfolding via_def
  proof (intro allI impI)
    fix s r t assume s: "durable E s" and run: "commit_handler E mw v s = (r, t)"
    have "gbind (glift (BundleReference_validate ref)) (\<lambda>_. gbind (glift (policy_matches (vc_policy v) (gw_base s) ref)) (\<lambda>_.
        gbind (hold_activation mw) (\<lambda>_. gbind (assert_current_fence v) (\<lambda>_. rest)))) s = (r, t)"
      using run unfolding commit_handler_def CommitPayload command_payload.case rest_def
      by (cases "BundleReference_validate ref") (auto simp: gbind_def [of "glift _"])
    moreover have "via E ?i (effect_at E v) (bound (gw_base s)) (gbind (glift (BundleReference_validate ref)) (\<lambda>_.
        gbind (glift (policy_matches (vc_policy v) (gw_base s) ref)) (\<lambda>_. gbind (hold_activation mw) (\<lambda>_. gbind (assert_current_fence v) (\<lambda>_. rest)))))"
    proof (intro via_lift)
      fix x y assume "policy_matches (vc_policy v) (gw_base s) ref = Inr y"
      then have pm: "policy_matches (vc_policy v) (gw_base s) ref = Inr ()" by simp
      show "via E ?i (effect_at E v) (bound (gw_base s)) (gbind (hold_activation mw) (\<lambda>_. gbind (assert_current_fence v) (\<lambda>_. rest)))"
        by (rule via_hold [OF others _ rest [OF pm]])
          (use sides_kept in \<open>auto simp: bound_def ready_def at_gate_def pointers_kept_def\<close>)
    qed
    ultimately show "around E ?i s t \<or> (\<exists>u w. around E ?i s u \<and> effect_at E v u w \<and> around E ?i w t)"
      using s by (auto simp: via_def bound_def)
  qed
qed (auto simp: commit_handler_def via_def)

end
