(* ===== verification/Activation_Execute.thy ===== *)
theory Activation_Execute
  imports Activation_Commands
begin

text \<open>
  The whole executor: \<open>PREPARE\<close> with the checks of its bundle, and \<open>execute\<close> as small changes around at most
  one effect of the command it was given.
\<close>

section \<open>The checks of a bundle\<close>

definition checked_bundle :: "gateway_env \<Rightarrow> string \<Rightarrow> BundleReference \<Rightarrow> PolicyBundleV1 \<Rightarrow> bool" where
  "checked_bundle E raw ref b \<longleftrightarrow> bundle_hash (cd_sha (ge_codec E)) raw = br_bundle_hash ref \<and>
     (\<exists>d. cd_bundle (ge_codec E) raw = Some d \<and> PolicyBundleV1_validate d = Inr b) \<and>
     canonical_bundle_bytes (cd_bundle_json (ge_codec E)) b = Inr raw \<and> pb_generation b = br_generation ref \<and>
     pb_backend_manifest_hash b = ge_backend_manifest_hash E \<and> count_checks (ge_limits E) b \<and>
     all_permitted (ge_generation_gate E) (ge_backend_manifest_hash E) (concat (map kp_authorized_legs (pb_policies b))) = Inr True"

lemma validate_bundle_run:
  assumes "validate_bundle E raw ref s = (r, t)"
  obtains n where "t = s\<lparr>gw_calls := n\<rparr>" "\<And>b. r = Inr b \<Longrightarrow> checked_bundle E raw ref b"
proof -
  obtain z where z: "gbind (glift z) (\<lambda>b. gbind (ask_moment E) (\<lambda>w. case mo_callback w of None \<Rightarrow> gpure b | Some e \<Rightarrow> graise e)) s = (r, t)"
      "\<And>b. z = Inr b \<Longrightarrow> checked_bundle E raw ref b"
    using assms unfolding validate_bundle_def Let_def
    by (rule_tac that) (assumption, auto simp: checked_bundle_def res_bind_Inr split: if_splits option.splits sum.splits)
  show thesis
  proof (cases z)
    case (Inl e)
    then have "r = Inl e" "t = s" using z(1) by (simp_all add: gbind_def)
    then show thesis by (intro that [of "gw_calls s"]) simp_all
  next
    case (Inr b)
    then have t: "t = asked s" "\<And>c. r = Inr c \<Longrightarrow> c = b"
      using z(1) by (auto simp: gbind_def [of "glift _"] gbind_first split: option.splits)
    show thesis by (rule that [of "Suc (gw_calls s)"]) (use t z(2) Inr in auto)
  qed
qed

lemma checked_load:
  assumes "checked_bundle E raw ref b" "map_of (gd_bundle_files (gw_disk s)) (br_bundle_hash ref) = Some raw"
    "length raw \<le> bl_max_bundle_bytes (gf_limits (gw_config s))"
  shows "fst (load_bundle E (br_bundle_hash ref) s) = Inr b"
  using assms by (auto simp: checked_bundle_def load_bundle_def bounded_read_def)

lemma stored_calls [simp]: "stored_bundle E (s\<lparr>gw_calls := n\<rparr>) ref b = stored_bundle E s ref b"
  using load_bundle_cong [of "s\<lparr>gw_calls := n\<rparr>" "br_bundle_hash ref" s E] by (simp add: stored_bundle_def)

lemma await_store:
  assumes "await_durable E (store_bundle E raw (br_bundle_hash ref)) s = (r, t)" "checked_bundle E raw ref b"
    "is_ok (BundleReference_validate ref)" "durable E s"
  shows "around E i s t \<and> (\<forall>x. r = Inr x \<longrightarrow> durable E t \<and> stored_bundle E t ref b)"
proof -
  obtain q u n where q: "store_bundle E raw (br_bundle_hash ref) s = (q, u)" "t = u\<lparr>gw_calls := n\<rparr>" "\<And>x. r = Inr x \<Longrightarrow> \<exists>y. q = Inr y"
    using assms(1)
  proof (rule await_durableE)
    fix e assume "store_bundle E raw (br_bundle_hash ref) s = (Inl e, t)" "r = Inl e"
    then show thesis by (intro that [of "Inl e" t "gw_calls t"]) simp_all
  next
    fix x u c assume "store_bundle E raw (br_bundle_hash ref) s = (Inr x, u)" "t = asked u" "r = Inr (x, c)"
    then show thesis by (intro that [of "Inr x" u]) simp_all
  qed
  from q(1) obtain files k where u: "u = s\<lparr>gw_disk := (gw_disk s)\<lparr>gd_bundle_files := files\<rparr>, gw_calls := k\<rparr>"
      "\<And>g. map_of (gd_bundle_files (gw_disk s)) g \<noteq> None \<Longrightarrow> map_of files g = map_of (gd_bundle_files (gw_disk s)) g"
      "\<And>x. q = Inr x \<Longrightarrow> map_of files (br_bundle_hash ref) = Some raw \<and> length raw \<le> bl_max_bundle_bytes (gf_limits (gw_config s))"
    by (rule store_bundle_cases) (rule that)
  have around: "around E i s t"
    unfolding q(2) u(1) using around_trans [OF around_chore [OF chore_store [OF u(2)]] around_calls] by simp
  have "stored_bundle E t ref b" if "r = Inr x" for x
    using q(3) [OF that] u(3) assms(2,3) checked_load [of E raw ref b t]
    by (auto simp: stored_bundle_def q(2) u(1) checked_bundle_def)
  then show ?thesis using around around_kept [OF around assms(4)] by blast
qed

lemma prepare_target:
  assumes "PrepareCommandPayload_validate p = Inr x"
  shows "is_ok (BundleReference_validate (pp_target p))"
  using assms by (auto simp: PrepareCommandPayload_validate_def checks_Inr)

section \<open>Preparation\<close>

lemma via_checked:
  assumes "\<And>b. via E i M (\<lambda>s. durable E s \<and> checked_bundle E raw ref b) (f b)"
  shows "via E i M (durable E) (gbind (validate_bundle E raw ref) f)"
proof (rule via_bind [where Q = "\<lambda>b s. durable E s \<and> checked_bundle E raw ref b"])
  fix s r t assume "durable E s" "validate_bundle E raw ref s = (r, t)"
  then show "around E i s t \<and> (\<forall>b. r = Inr b \<longrightarrow> durable E t \<and> checked_bundle E raw ref b)"
    by (elim validate_bundle_run) auto
qed (rule assms)

lemma via_stored:
  assumes "is_ok (BundleReference_validate ref)" "\<And>x. via E i M (\<lambda>s. durable E s \<and> stored_bundle E s ref b) (f x)"
  shows "via E i M (\<lambda>s. durable E s \<and> checked_bundle E raw ref b)
    (gbind (await_durable E (store_bundle E raw (br_bundle_hash ref))) f)"
proof (rule via_bind [where Q = "\<lambda>_ s. durable E s \<and> stored_bundle E s ref b"])
  fix s r t assume "durable E s \<and> checked_bundle E raw ref b" "await_durable E (store_bundle E raw (br_bundle_hash ref)) s = (r, t)"
  then show "around E i s t \<and> (\<forall>x. r = Inr x \<longrightarrow> durable E t \<and> stored_bundle E t ref b)"
    using await_store assms(1) by blast
qed (rule assms(2))

lemma via_stage:
  assumes "gc_payload (vc_command v) = PreparePayload p" "policy_matches (vc_policy v) (pp_base p) (pp_target p) = Inr ()"
  shows "via E (gc_command_id (vc_command v)) (effect_at E v) (\<lambda>s. at_gate E v s \<and> stored_bundle E s (pp_target p) b)
    (stage_prepare E v b (pp_target p) (pp_base p) a res)"
  unfolding via_def
proof (intro allI impI)
  fix s r t assume s: "at_gate E v s \<and> stored_bundle E s (pp_target p) b" and run: "stage_prepare E v b (pp_target p) (pp_base p) a res s = (r, t)"
  let ?i = "gc_command_id (vc_command v)"
  from run show "around E ?i s t \<or> (\<exists>u w. around E ?i s u \<and> effect_at E v u w \<and> around E ?i w t)"
  proof (rule stage_prepare_cases)
    assume "prepared E v (pp_target p) (pp_base p) s t"
    then have "effect_at E v s t"
      using s effect_prepare [OF assms] by (auto simp: effect_at_def at_gate_def)
    then show ?thesis using around_refl by blast
  qed simp
qed

lemma via_gate_stored:
  assumes "others_only E mw" "via E i M (\<lambda>s. at_gate E v s \<and> stored_bundle E s ref b) f"
  shows "via E i M (\<lambda>s. durable E s \<and> stored_bundle E s ref b)
    (gbind (hold_activation mw) (\<lambda>_. gbind (assert_current_fence v) (\<lambda>_. f)))"
  by (rule via_hold [OF assms(1) _ assms(2)]) (use sides_kept stored_kept in \<open>auto simp: at_gate_def\<close>)

lemma via_cancel: "(\<And>x c. via E i M P (f c)) \<Longrightarrow> via E i M P (case z of (_, c) \<Rightarrow> f c)"
  by (cases z) simp

lemma via_prepare:
  assumes others: "others_only E mw"
  shows "via E (gc_command_id (vc_command v)) (effect_at E v) (durable E) (prepare E mw v)"
proof (cases "gc_payload (vc_command v)")
  case (PreparePayload p)
  show ?thesis unfolding prepare_def PreparePayload command_payload.case
    by (intro via_lift via_checked via_ticks [OF ticks_reference(1)] via_stored via_cancel via_ticks [OF ticks_raise]
        via_gate_stored [OF others] via_ticks [OF ticks_now(3)] via_after via_await via_stage [OF PreparePayload])
      (auto dest: prepare_target intro: around_ticks split: prod.splits)
qed (auto simp: prepare_def via_def)

section \<open>Execution\<close>

lemma verify_same: "verify_command E c = Inr v \<Longrightarrow> vc_command v = c"
  by (auto simp: verify_command_def authenticate_gateway_command_def res_bind_Inr res_map_Inr split: if_splits)

lemma ticks_binding [simp]: "ticks (assert_unseen_binding E v)"
  by (auto simp: ticks_def assert_unseen_binding_def assert_current_fence_def Let_def)

lemma via_dispatch:
  assumes "others_only E mw"
  shows "via E (gc_command_id (vc_command v)) (effect_at E v) (durable E)
    (gbind (assert_unseen_binding E v) (\<lambda>_. case gc_kind c of
        WC_PREPARE \<Rightarrow> gbind (prepare E mw v) (\<lambda>_. acknowledge_recorded E v)
      | WC_COMMIT \<Rightarrow> commit_handler E mw v
      | WC_DENY \<Rightarrow> deny_handler E mw v
      | WC_CLEAR_DENY \<Rightarrow> clear_handler E mw v
      | WC_STATUS \<Rightarrow> status_handler E mw v))"
  by (rule via_ticks) (auto intro!: via_after via_prepare [OF assms] via_commit [OF assms] via_deny [OF assms] via_clear [OF assms]
      via_status [OF assms] around_recorded split: WireCommandKind.splits)

text \<open>Where the unseen command \<open>c\<close> took its effect: the command was verified, is the next of its chain and was not in
  the log, and carries the boot, security epoch and fence of the gateway it changed.\<close>

definition took_effect :: "gateway_env \<Rightarrow> GatewayCommandV1 \<Rightarrow> gateway \<Rightarrow> gateway \<Rightarrow> bool" where
  "took_effect E c s t \<longleftrightarrow> (\<exists>v u w. verify_command E c = Inr v \<and> gc_boot_id c = gf_boot_id (gw_config s) \<and>
     gc_security_epoch c = ct_security_epoch (ge_channel_trust E) \<and> gc_dispatcher_fence c = gw_fence_epoch s \<and>
     around E (gc_command_id c) s u \<and> effect_at E v u w \<and> around E (gc_command_id c) w t)"

lemma execute_effect:
  assumes others: "others_only E mw" and s: "durable E s" and run: "execute E mw c s = (r, t)"
  shows "around E (gc_command_id c) s t \<or> took_effect E c s t"
proof (cases "verify_command E c")
  case (Inl e)
  then show ?thesis using run by (simp add: execute_def gbind_def)
next
  case (Inr v)
  have c: "vc_command v = c" using Inr by (rule verify_same)
  have "gbind (validate_new_command E v) (\<lambda>existing. case existing of Some rec \<Rightarrow> acknowledge E v rec
      | None \<Rightarrow> gbind (assert_unseen_binding E v) (\<lambda>_. case gc_kind c of
        WC_PREPARE \<Rightarrow> gbind (prepare E mw v) (\<lambda>_. acknowledge_recorded E v)
      | WC_COMMIT \<Rightarrow> commit_handler E mw v
      | WC_DENY \<Rightarrow> deny_handler E mw v
      | WC_CLEAR_DENY \<Rightarrow> clear_handler E mw v
      | WC_STATUS \<Rightarrow> status_handler E mw v)) s = (r, t)"
    using run Inr by (simp add: execute_def gbind_def [of "glift _"])
  then show ?thesis
  proof (rule gbindE)
    fix e assume "validate_new_command E v s = (Inl e, t)"
    then show ?thesis using validate_new_same [of E v s] by simp
  next
    fix x u assume v: "validate_new_command E v s = (Inr x, u)"
      and u: "(case x of Some rec \<Rightarrow> acknowledge E v rec | None \<Rightarrow> gbind (assert_unseen_binding E v) (\<lambda>_. case gc_kind c of
        WC_PREPARE \<Rightarrow> gbind (prepare E mw v) (\<lambda>_. acknowledge_recorded E v)
      | WC_COMMIT \<Rightarrow> commit_handler E mw v
      | WC_DENY \<Rightarrow> deny_handler E mw v
      | WC_CLEAR_DENY \<Rightarrow> clear_handler E mw v
      | WC_STATUS \<Rightarrow> status_handler E mw v)) u = (r, t)"
    have "u = s" using v validate_new_same [of E v s] by simp
    show ?thesis
    proof (cases x)
      case (Some rc)
      then show ?thesis using u around_ack [of E v rc s r t] c \<open>u = s\<close> by simp
    next
      case None
      note body = u [unfolded None option.case \<open>u = s\<close>]
      show ?thesis
      proof (cases "gc_boot_id c = gf_boot_id (gw_config s) \<and> gc_security_epoch c = ct_security_epoch (ge_channel_trust E) \<and>
          gc_dispatcher_fence c = gw_fence_epoch s")
        case False
        then have "t = s" using body c
          by (auto simp: assert_unseen_binding_def assert_current_fence_def gbind_def Let_def split: if_splits)
        then show ?thesis by simp
      next
        case True
        then show ?thesis using via_dispatch [OF others, of v c] body s Inr c unfolding via_def took_effect_def by blast
      qed
    qed
  qed
qed

end
