(* ===== verification/Activation_Restart.thy ===== *)
theory Activation_Restart
  imports Activation_Execute
begin

text \<open>
  Opening a gateway. From the disk of a state whose memory and disk agree, \<open>gateway_open\<close> rebuilds the memory
  of that state; from an empty disk it builds a state whose memory and disk agree.
\<close>

section \<open>Texts that can be written\<close>

lemma res_all_ok: "is_ok (res_all rs) \<longleftrightarrow> (\<forall>r \<in> set rs. is_ok r)"
  by (induction rs) (auto simp: is_ok_iff res_bind_Inr res_map_Inr)

lemma is_ok_map [simp]: "is_ok (res_map f r) = is_ok r"
  by (cases r) auto

lemma serialize_ok: "is_ok (serialize (JObj kvs)) \<longleftrightarrow> (\<forall>(k, v) \<in> set kvs. is_ok (serialize v))"
  by (auto simp: res_all_ok)

lemma checksum_ok: "is_ok (checksum C table j) \<longleftrightarrow> is_ok (serialize j)"
  by (simp add: checksum_def canonical_json_bytes_def)

lemma sealed_ok: "is_ok (sealed C table j v) \<longleftrightarrow> is_ok (serialize j)"
  by (simp add: sealed_def checksum_ok)

lemma sealed_serialize: "sealed C table j v = Inr row \<Longrightarrow> is_ok (serialize j)"
  using sealed_ok [of C table j v] by simp

lemma reference_text:
  assumes "pointer_is E db name (Some ref)"
  obtains bytes where "canonical_json_bytes (reference_json ref) = Inr bytes"
proof -
  have "is_ok (serialize (pointer_json name ref))" using assms by (auto simp: pointer_is_def dest: sealed_serialize)
  then have "is_ok (serialize (reference_json ref))" unfolding pointer_json_def reference_json_def serialize_ok by simp
  then show thesis using that by (auto simp: canonical_json_bytes_def is_ok_iff)
qed

section \<open>What opening reads\<close>

lemma gbind_run: "m s = (Inr x, u) \<Longrightarrow> gbind m f s = f x u"
  by (simp add: gbind_def)

lemma gbind_step: "m s = (Inr x, u) \<Longrightarrow> f x u = r \<Longrightarrow> gbind m f s = r"
  by (simp add: gbind_def)

lemma gmod_run: "gmod f s = (Inr (), f s)"
  by (simp add: gmod_def)

lemma else_step: "\<not> c \<Longrightarrow> m s = r \<Longrightarrow> (if c then a else m) s = r"
  by simp

lemma validate_reference: "is_ok (BundleReference_validate ref) \<Longrightarrow> BundleReference_validate ref = Inr ref"
  by (auto simp: BundleReference_validate_def is_ok_iff checks_Inr)

lemma pointer_read:
  assumes "pointer_is E (gw_db s) name q" "\<And>ref. q = Some ref \<Longrightarrow> is_ok (BundleReference_validate ref)"
  shows "read_pointer E name s = (Inr q, s)"
proof (cases q)
  case None
  then show ?thesis using assms(1) by (simp add: pointer_is_def read_pointer_def)
next
  case (Some ref)
  then obtain row where "map_of (db_pointers (gw_db s)) name = Some row" "sealed (ge_codec E) ''pointers'' (pointer_json name ref) ref = Inr row"
    using assms(1) by (auto simp: pointer_is_def)
  then show ?thesis
    using Some validate_reference [OF assms(2) [OF Some]] by (simp add: read_pointer_def sealed_value unseal_sealed)
qed

lemma stored_read:
  assumes "stored_bundle E g ref b" "gw_disk s = gw_disk g" "gf_limits (gw_config s) = gf_limits (gw_config g)"
  shows "load_bundle E (br_bundle_hash ref) s = (Inr b, s)"
proof -
  have "fst (load_bundle E (br_bundle_hash ref) s) = fst (load_bundle E (br_bundle_hash ref) g)"
    using assms(2,3) by (simp add: load_bundle_def split: option.split)
  then show ?thesis using assms(1) load_bundle_same [of E "br_bundle_hash ref" s] by (simp add: stored_bundle_def prod_eq_iff)
qed

lemma takeover_read [simp]: "meta_takeover (Some (MText (takeover_value ts))) = Inr ts"
  by (cases ts) simp_all

lemma transaction_run:
  assumes "body s = (Inr x, u)" "\<not> mo_commit_fails (ge_moment E (gw_calls u))"
  shows "transaction E body s = (Inr x, asked u)"
  using assms by (simp add: transaction_def gbind_def)

lemma highwater_sealed:
  assumes "deny_rows E db ds" "map_of ds k = Some d"
  shows "is_ok (serialize (highwater_json k (overlay_highwater d)))"
proof -
  have "map_option rw_value (map_of (db_denies db) k) = Some d" using assms unfolding deny_rows_def by metis
  then obtain row where row: "(k, row) \<in> set (db_denies db)" "rw_value row = d" by (auto dest: map_of_SomeD)
  then have "overlay_key d = k" "is_ok (serialize (overlay_json d))"
    using assms(1) by (auto simp: deny_rows_def dest: sealed_serialize)
  then show ?thesis unfolding overlay_json_def highwater_json_def overlay_highwater_def serialize_ok by simp
qed

lemma backfill_none:
  assumes "\<And>k d. (k, d) \<in> set (gw_denies s) \<Longrightarrow> dict_has (db_deny_highwater (gw_db s)) k \<and> is_ok (serialize (highwater_json k (overlay_highwater d)))"
  shows "backfill_deny_highwater E s = (Inr (), s)"
proof -
  have "gseq (map (\<lambda>(k, d). gbind (glift (sealed (ge_codec E) ''deny_highwater'' (highwater_json k (overlay_highwater d)) (overlay_highwater d)))
      (\<lambda>row. gmod (upd_db (\<lambda>db. if dict_has (db_deny_highwater db) k then db
        else db\<lparr>db_deny_highwater := db_deny_highwater db @ [(k, row)]\<rparr>)))) ds) s = (Inr (), s)"
    if "set ds \<subseteq> set (gw_denies s)" for ds
    using that
  proof (induction ds)
    case (Cons x ds)
    obtain k d where x: "x = (k, d)" by fastforce
    then have h: "dict_has (db_deny_highwater (gw_db s)) k" "is_ok (serialize (highwater_json k (overlay_highwater d)))"
      using assms [of k d] Cons.prems by simp_all
    obtain row where "sealed (ge_codec E) ''deny_highwater'' (highwater_json k (overlay_highwater d)) (overlay_highwater d) = Inr row"
      using h(2) sealed_ok [of "ge_codec E" "''deny_highwater''"] by (metis is_ok_iff)
    moreover have "upd_db (\<lambda>db. if dict_has (db_deny_highwater db) k then db
        else db\<lparr>db_deny_highwater := db_deny_highwater db @ [(k, row)]\<rparr>) s = s" using h(1) by (simp add: upd_db_def)
    ultimately show ?case using Cons x by (simp add: gbind_def)
  qed simp
  then show ?thesis by (simp add: backfill_deny_highwater_def)
qed

lemma quarantine_run:
  assumes "\<not> mo_commit_fails (ge_moment E (gw_calls s))"
  obtains cmds n where "quarantine_corrupt_commands E s = (Inr (), (upd_db (\<lambda>db. db\<lparr>db_commands := cmds\<rparr>) s)\<lparr>gw_calls := n\<rparr>)"
proof (cases "filter (\<lambda>(i, row). \<not> is_ok (decode_command E i row)) (db_commands (gw_db s)) = []")
  case True
  then show thesis
    by (intro that [where cmds = "db_commands (gw_db s)" and n = "gw_calls s"]) (simp add: quarantine_corrupt_commands_def upd_db_def)
next
  case False
  let ?cmds = "filter (\<lambda>(i, row). i \<notin> set (map fst (filter (\<lambda>(i, row). \<not> is_ok (decode_command E i row)) (db_commands (gw_db s)))))
    (db_commands (gw_db s))"
  show thesis
    using assms False
    by (intro that [where cmds = ?cmds and n = "Suc (gw_calls s)"])
      (simp add: quarantine_corrupt_commands_def Let_def transaction_def gbind_def upd_db_def)
qed

lemma reconcile_run:
  assumes "\<And>ref. gw_active s = Some ref \<Longrightarrow> is_ok (canonical_json_bytes (reference_json ref))"
    "\<And>content. gd_pointer_file (gw_disk s) = Some content \<Longrightarrow> length content \<le> 4096"
  obtains p where "reconcile_pointer E s = (Inr (), upd_pointer_file p s)"
proof (cases "gw_active s")
  case None
  then show thesis by (intro that [of None]) (simp add: reconcile_pointer_def)
next
  case (Some ref)
  then obtain expected where e: "canonical_json_bytes (reference_json ref) = Inr expected" using assms(1) by (auto simp: is_ok_iff)
  let ?actual = "case gd_pointer_file (gw_disk s) of None \<Rightarrow> [] | Some content \<Rightarrow> content"
  have a: "(case gd_pointer_file (gw_disk s) of None \<Rightarrow> Inr [] | Some content \<Rightarrow> bounded_read content 4096) = Inr ?actual"
    using assms(2) by (auto simp: bounded_read_def not_less split: option.split)
  show thesis
  proof (cases "?actual = expected")
    case True
    then show thesis
      by (intro that [of "gd_pointer_file (gw_disk s)"]) (simp add: reconcile_pointer_def Some e a gbind_def)
  next
    case False
    then show thesis
      by (intro that [of "Some expected"]) (simp add: reconcile_pointer_def Some e a gbind_def write_active_pointer_def)
  qed
qed

section \<open>Recovery\<close>

text \<open>The questions of an opening that starts at moment \<open>n\<close>: its four commits succeed and the file passes
  the integrity check.\<close>

definition calm_opening :: "gateway_env \<Rightarrow> nat \<Rightarrow> bool" where
  "calm_opening E n \<longleftrightarrow> mo_disk_intact (ge_moment E (n + 1)) \<and> \<not> mo_commit_fails (ge_moment E n) \<and>
     \<not> mo_commit_fails (ge_moment E (n + 2)) \<and> \<not> mo_commit_fails (ge_moment E (n + 3))"

text \<open>Memory of \<open>t\<close> is what recovery reads from the disk of \<open>g\<close>.\<close>

definition recovered_from :: "gateway \<Rightarrow> gateway \<Rightarrow> gateway \<Rightarrow> bool" where
  "recovered_from g s t \<longleftrightarrow> (\<exists>cmds p ds hs n.
     t = s\<lparr>gw_disk := (gw_disk g)\<lparr>gd_db := (gw_db g)\<lparr>db_commands := cmds\<rparr>, gd_pointer_file := p\<rparr>,
       gw_previous := gw_previous g, gw_active := gw_active g, gw_staged := gw_staged g, gw_base := gw_base g,
       gw_active_bundle := gw_active_bundle g, gw_denies := ds, gw_deny_highwater := hs, gw_calls := n\<rparr> \<and>
     map_of ds = map_of (gw_denies g) \<and> map_of hs = map_of (gw_deny_highwater g))"

definition bounded_pointer_file :: "gateway \<Rightarrow> bool" where
  "bounded_pointer_file s \<longleftrightarrow> (case gd_pointer_file (gw_disk s) of None \<Rightarrow> True | Some content \<Rightarrow> length content \<le> 4096)"

lemma overlay_recovered:
  assumes g: "durable E g" and s: "gw_disk s = gw_disk g" "bounded_pointer_file g"
    "gw_active s = gw_active g" "\<not> mo_commit_fails (ge_moment E (gw_calls s))" "\<not> mo_commit_fails (ge_moment E (Suc (gw_calls s)))"
  obtains cmds p ds hs n where
    "gbind (load_denies E) (\<lambda>_. gbind (transaction E (backfill_deny_highwater E)) (\<lambda>_. gbind (load_deny_highwater E) (\<lambda>_.
       gbind (quarantine_corrupt_commands E) (\<lambda>_. reconcile_pointer E)))) s =
     (Inr (), s\<lparr>gw_disk := (gw_disk g)\<lparr>gd_db := (gw_db g)\<lparr>db_commands := cmds\<rparr>, gd_pointer_file := p\<rparr>,
       gw_denies := ds, gw_deny_highwater := hs, gw_calls := n\<rparr>)"
    "map_of ds = map_of (gw_denies g)" "map_of hs = map_of (gw_deny_highwater g)"
proof -
  have ok: "deny_rows E (gw_db s) (gw_denies g)" "water_rows E (gw_db s) (gw_deny_highwater g)" "covered g" "pointers_ok E g"
    using g s(1) by (simp_all add: durable_def overlay_ok_def)
  obtain ds where ds: "load_denies E s = (Inr (), s\<lparr>gw_denies := ds\<rparr>)" "map_of ds = map_of (gw_denies g)"
    using load_denies_ok [OF ok(1)] by metis
  have "fst (load_denies E s) = Inr ()" "gw_denies (snd (load_denies E s)) = ds" by (simp_all add: ds(1))
  then have wf: "dict_wf ds" by (auto simp: load_denies_def split: sum.splits)
  define s1 where "s1 = s\<lparr>gw_denies := ds\<rparr>"
  have "backfill_deny_highwater E s1 = (Inr (), s1)"
  proof (rule backfill_none)
    fix k d assume "(k, d) \<in> set (gw_denies s1)"
    then have k: "map_of (gw_denies g) k = Some d" using ds(2) wf by (metis map_of_in_wf s1_def gateway.select_convs(9) gateway.surjective gateway.update_convs(9))
    then have "map_of (gw_deny_highwater g) k \<noteq> None" using ok(3) unfolding covered_def by (metis option.distinct(1))
    then have "map_of (db_deny_highwater (gw_db s)) k \<noteq> None" using ok(2) unfolding water_rows_def by (metis option.map_disc_iff)
    then show "dict_has (db_deny_highwater (gw_db s1)) k \<and> is_ok (serialize (highwater_json k (overlay_highwater d)))"
      using highwater_sealed [OF ok(1) k] unfolding dict_has_map_of s1_def by simp
  qed
  from transaction_run [of "backfill_deny_highwater E", OF this]
  have filled: "transaction E (backfill_deny_highwater E) s1 = (Inr (), asked s1)" using s(4) by (simp add: s1_def)
  have "water_rows E (gw_db (asked s1)) (gw_deny_highwater g)" using ok(2) by (simp add: s1_def)
  then obtain hs where hs: "load_deny_highwater E (asked s1) = (Inr (), (asked s1)\<lparr>gw_deny_highwater := hs\<rparr>)"
      "map_of hs = map_of (gw_deny_highwater g)"
    by (rule load_water_ok)
  define s2 where "s2 = (asked s1)\<lparr>gw_deny_highwater := hs\<rparr>"
  have "\<not> mo_commit_fails (ge_moment E (gw_calls s2))" using s(5) by (simp add: s2_def s1_def)
  then obtain cmds n where q: "quarantine_corrupt_commands E s2 = (Inr (), (upd_db (\<lambda>db. db\<lparr>db_commands := cmds\<rparr>) s2)\<lparr>gw_calls := n\<rparr>)"
    by (rule quarantine_run)
  define s3 where "s3 = (upd_db (\<lambda>db. db\<lparr>db_commands := cmds\<rparr>) s2)\<lparr>gw_calls := n\<rparr>"
  have kept: "gw_active s3 = gw_active g" "gd_pointer_file (gw_disk s3) = gd_pointer_file (gw_disk g)"
    using s(1,3) by (simp_all add: s3_def s2_def s1_def upd_db_def)
  have "is_ok (canonical_json_bytes (reference_json ref))" if "gw_active s3 = Some ref" for ref
    using ok(4) that kept(1) reference_text [of E "gw_db g" "''active''" ref] by (auto simp: pointers_ok_def is_ok_iff)
  moreover have "length content \<le> 4096" if "gd_pointer_file (gw_disk s3) = Some content" for content
    using s(2) that kept(2) by (simp add: bounded_pointer_file_def)
  ultimately obtain p where p: "reconcile_pointer E s3 = (Inr (), upd_pointer_file p s3)" by (rule reconcile_run)
  show thesis
  proof (rule that [where ds = ds and hs = hs and cmds = cmds and p = p and n = n])
    show "gbind (load_denies E) (\<lambda>_. gbind (transaction E (backfill_deny_highwater E)) (\<lambda>_. gbind (load_deny_highwater E) (\<lambda>_.
       gbind (quarantine_corrupt_commands E) (\<lambda>_. reconcile_pointer E)))) s =
     (Inr (), s\<lparr>gw_disk := (gw_disk g)\<lparr>gd_db := (gw_db g)\<lparr>db_commands := cmds\<rparr>, gd_pointer_file := p\<rparr>,
       gw_denies := ds, gw_deny_highwater := hs, gw_calls := n\<rparr>)"
      unfolding gbind_run [of "load_denies E", OF ds(1) [folded s1_def]] gbind_run [of "transaction E (backfill_deny_highwater E)", OF filled]
        gbind_run [of "load_deny_highwater E", OF hs(1) [folded s2_def]] gbind_run [of "quarantine_corrupt_commands E", OF q [folded s3_def]] p
      by (simp add: s3_def s2_def s1_def upd_db_def s(1))
  qed (fact ds(2) hs(2))+
qed

lemma contents_recovered:
  assumes g: "durable E g" and s: "gw_disk s = gw_disk g" "bounded_pointer_file g" "gf_limits (gw_config s) = gf_limits (gw_config g)"
    "gw_active_bundle s = None" "mo_disk_intact (ge_moment E (gw_calls s))" "\<not> mo_commit_fails (ge_moment E (gw_calls s + 1))"
    "\<not> mo_commit_fails (ge_moment E (gw_calls s + 2))"
  obtains t where "recover_contents E s = (Inr (), t)" "recovered_from g s t"
proof -
  have ok: "pointers_ok E g" "bundles_ok E g" using g by (simp_all add: durable_def)
  let ?load = "\<lambda>q. case q of None \<Rightarrow> gpure () | Some ref \<Rightarrow> gbind (load_bundle E (br_bundle_hash ref)) (\<lambda>_. gpure ())"
  have valid: "is_ok (BundleReference_validate ref)"
    if "gw_previous g = Some ref \<or> gw_active g = Some ref \<or> gw_staged g = Some ref \<or> gw_base g = Some ref" for ref
    using ok(2) that by (auto simp: bundles_ok_def stored_bundle_def)
  have read: "read_pointer E ''previous'' u = (Inr (gw_previous g), u)" "read_pointer E ''active'' u = (Inr (gw_active g), u)"
      "read_pointer E ''staged'' u = (Inr (gw_staged g), u)" "read_pointer E ''base'' u = (Inr (gw_base g), u)"
    if "gw_disk u = gw_disk g" for u
    using ok(1) valid that by (auto simp: pointers_ok_def intro!: pointer_read)
  have load: "load_bundle E (br_bundle_hash ref) u = (Inr b, u)"
    if "stored_bundle E g ref b" "gw_disk u = gw_disk g" "gf_limits (gw_config u) = gf_limits (gw_config g)" for ref b u
    using that by (rule stored_read)
  define s1 where "s1 = (asked s)\<lparr>gw_previous := gw_previous g\<rparr>\<lparr>gw_active := gw_active g\<rparr>\<lparr>gw_staged := gw_staged g\<rparr>\<lparr>gw_base := gw_base g\<rparr>"
  have d: "gw_disk s1 = gw_disk g" "gf_limits (gw_config s1) = gf_limits (gw_config g)" using s by (simp_all add: s1_def)
  have previous: "?load (gw_previous g) s1 = (Inr (), s1)"
    using ok(2) load [OF _ d] by (auto simp: bundles_ok_def gbind_def split: option.split)
  define s2 where "s2 = s1\<lparr>gw_active_bundle := gw_active_bundle g\<rparr>"
  have active: "(case gw_active g of None \<Rightarrow> gpure ()
      | Some ref \<Rightarrow> gbind (load_bundle E (br_bundle_hash ref)) (\<lambda>bundle.
          gbind (gmod (\<lambda>s. s\<lparr>gw_active_bundle := Some bundle\<rparr>)) (\<lambda>_.
          if pb_generation bundle \<noteq> br_generation ref then graise (ValueError ''active generation mismatch'') else gpure ()))) s1 = (Inr (), s2)"
  proof (cases "gw_active g")
    case None
    then show ?thesis using ok(2) s(4) by (simp add: bundles_ok_def s2_def s1_def)
  next
    case (Some ref)
    then obtain b where b: "gw_active_bundle g = Some b" "stored_bundle E g ref b" using ok(2) by (auto simp: bundles_ok_def)
    then show ?thesis using load [OF b(2) d] Some by (simp add: gbind_def s2_def stored_bundle_def)
  qed
  have d2: "gw_disk s2 = gw_disk g" "gf_limits (gw_config s2) = gf_limits (gw_config g)" using d by (simp_all add: s2_def)
  have staged: "(case gw_staged g of None \<Rightarrow> gpure () | Some ref \<Rightarrow> recover_staged E ref) s2 = (Inr (), s2)"
  proof (cases "gw_staged g")
    case (Some ref)
    then obtain b where b: "stored_bundle E g ref b" using ok(2) by (auto simp: bundles_ok_def)
    then show ?thesis using load [OF b d2] Some by (simp add: recover_staged_def gtry_def gbind_def stored_bundle_def)
  qed simp
  have c: "gw_active s2 = gw_active g" "\<not> mo_commit_fails (ge_moment E (gw_calls s2))" "\<not> mo_commit_fails (ge_moment E (Suc (gw_calls s2)))"
    using s(6,7) by (simp_all add: s2_def s1_def)
  obtain cmds p ds hs n where o: "gbind (load_denies E) (\<lambda>_. gbind (transaction E (backfill_deny_highwater E)) (\<lambda>_. gbind (load_deny_highwater E) (\<lambda>_.
       gbind (quarantine_corrupt_commands E) (\<lambda>_. reconcile_pointer E)))) s2 =
     (Inr (), s2\<lparr>gw_disk := (gw_disk g)\<lparr>gd_db := (gw_db g)\<lparr>db_commands := cmds\<rparr>, gd_pointer_file := p\<rparr>,
       gw_denies := ds, gw_deny_highwater := hs, gw_calls := n\<rparr>)"
     "map_of ds = map_of (gw_denies g)" "map_of hs = map_of (gw_deny_highwater g)"
    using overlay_recovered [OF g d2(1) s(2) c] by metis
  show thesis
  proof (rule that)
    show "recover_contents E s = (Inr (), s2\<lparr>gw_disk := (gw_disk g)\<lparr>gd_db := (gw_db g)\<lparr>db_commands := cmds\<rparr>, gd_pointer_file := p\<rparr>,
       gw_denies := ds, gw_deny_highwater := hs, gw_calls := n\<rparr>)"
      unfolding recover_contents_def
      apply (rule gbind_step [OF ask_moment_eq], rule else_step, simp add: s(5))
      apply (rule gbind_step [OF read(1)], simp add: s(1), rule gbind_step [OF gmod_run])
      apply (rule gbind_step [OF read(2)], simp add: s(1), rule gbind_step [OF gmod_run])
      apply (rule gbind_step [OF read(3)], simp add: s(1), rule gbind_step [OF gmod_run])
      apply (rule gbind_step [OF read(4)], simp add: s(1), rule gbind_step [OF gmod_run])
      apply (rule gbind_step, rule previous [unfolded s1_def])
      apply (rule gbind_step, rule active [unfolded s1_def])
      apply (rule gbind_step, rule staged)
      apply (rule o(1))
      done
    show "recovered_from g s (s2\<lparr>gw_disk := (gw_disk g)\<lparr>gd_db := (gw_db g)\<lparr>db_commands := cmds\<rparr>, gd_pointer_file := p\<rparr>,
       gw_denies := ds, gw_deny_highwater := hs, gw_calls := n\<rparr>)"
      unfolding recovered_from_def using o(2,3)
      by (intro exI [of _ cmds] exI [of _ p] exI [of _ ds] exI [of _ hs] exI [of _ n]) (simp add: s2_def s1_def)
  qed
qed

section \<open>Opening\<close>

definition same_identity :: "gateway_config \<Rightarrow> gateway_config \<Rightarrow> bool" where
  "same_identity c d \<longleftrightarrow> gf_installation_id c = gf_installation_id d \<and> gf_channel_epoch c = gf_channel_epoch d \<and>
     gf_security_epoch c = gf_security_epoch d \<and> gf_limits c = gf_limits d"

definition identified :: "gateway \<Rightarrow> int \<Rightarrow> TakeoverState \<Rightarrow> int \<Rightarrow> string \<Rightarrow> gateway" where
  "identified s fence ts h r = s\<lparr>gw_fence_epoch := fence, gw_takeover_state := ts, gw_deny_heartbeat_ms := h,
     gw_recovery_reason := r, gw_recovery_required := r \<noteq> [], gw_calls := Suc (gw_calls s)\<rparr>"

lemma identity_read:
  assumes g: "meta_ok E g" "gw_disk s = gw_disk g" "same_identity (gw_config s) (gw_config g)"
    "\<not> mo_commit_fails (ge_moment E (gw_calls s))"
  obtains h r where "load_identity E s = (Inr (), identified s (gw_fence_epoch g) (gw_takeover_state g) h r)"
    "meta_is E (gw_db g) ''recovery_reason'' (MText r)" "r \<noteq> [] \<Longrightarrow> gw_recovery_required g"
proof -
  obtain h r where m: "meta_is E (gw_db s) ''deny_heartbeat_ms'' (MInt h)" "meta_is E (gw_db s) ''recovery_reason'' (MText r)"
      "r \<noteq> [] \<Longrightarrow> gw_recovery_required g"
    using g(1,2) by (auto simp: meta_ok_def)
  let ?c = "gw_config s"
  have "meta_is E (gw_db s) ''schema_version'' (MInt 1)" "meta_is E (gw_db s) ''installation_id'' (MText (gf_installation_id ?c))"
    "meta_is E (gw_db s) ''channel_epoch'' (MInt (gf_channel_epoch ?c))" "meta_is E (gw_db s) ''security_epoch'' (MInt (gf_security_epoch ?c))"
    "meta_is E (gw_db s) ''fence_epoch'' (MInt (gw_fence_epoch g))"
    "meta_is E (gw_db s) ''takeover_state'' (MText (takeover_value (gw_takeover_state g)))"
    using g(1-3) by (simp_all add: meta_ok_def same_identity_def)
  note reads = this [THEN meta_read] m(1,2) [THEN meta_read]
  let ?t = "identified s (gw_fence_epoch g) (gw_takeover_state g) h r"
  have "load_identity E s = (Inr (), ?t)"
    unfolding load_identity_def using g(4) takeover_read [of "gw_takeover_state g"]
    by (simp add: transaction_def gbind_def reads identified_def del: meta_takeover.simps)
  then show thesis using m(2,3) g(2) by (intro that) simp_all
qed

definition opened_as :: "gateway \<Rightarrow> gateway_config \<Rightarrow> gateway \<Rightarrow> bool" where
  "opened_as g c t \<longleftrightarrow> gw_config t = c \<and> pointers_kept g t \<and> gw_fence_epoch t = gw_fence_epoch g \<and>
     gw_takeover_state t = gw_takeover_state g \<and> map_of (gw_denies t) = map_of (gw_denies g) \<and>
     map_of (gw_deny_highwater t) = map_of (gw_deny_highwater g) \<and> gw_deny_heartbeat_ms t = 0 \<and>
     (gw_recovery_required t \<longrightarrow> gw_recovery_required g) \<and> gw_applied t = [] \<and>
     db_channel_state (gw_db t) = db_channel_state (gw_db g) \<and>
     gd_bundle_files (gw_disk t) = gd_bundle_files (gw_disk g)"

lemma stored_same:
  assumes "stored_bundle E g ref b" "gd_bundle_files (gw_disk t) = gd_bundle_files (gw_disk g)"
    "gf_limits (gw_config t) = gf_limits (gw_config g)"
  shows "stored_bundle E t ref b"
  using assms by (simp add: stored_bundle_def load_bundle_def split: option.splits)

lemma recovered_durable:
  assumes g: "durable E g" and t: "recovered_from g s t" "same_identity (gw_config s) (gw_config g)"
    "gw_fence_epoch s = gw_fence_epoch g" "gw_takeover_state s = gw_takeover_state g"
    "meta_is E (gw_db g) ''recovery_reason'' (MText r)" "gw_recovery_required s \<longleftrightarrow> r \<noteq> []"
  shows "durable E t"
proof -
  obtain cmds p ds hs n where eq: "t = s\<lparr>gw_disk := (gw_disk g)\<lparr>gd_db := (gw_db g)\<lparr>db_commands := cmds\<rparr>, gd_pointer_file := p\<rparr>,
       gw_previous := gw_previous g, gw_active := gw_active g, gw_staged := gw_staged g, gw_base := gw_base g,
       gw_active_bundle := gw_active_bundle g, gw_denies := ds, gw_deny_highwater := hs, gw_calls := n\<rparr>"
     "map_of ds = map_of (gw_denies g)" "map_of hs = map_of (gw_deny_highwater g)"
    using t(1) unfolding recovered_from_def by blast
  have ok: "meta_ok E g" "pointers_ok E g" "bundles_ok E g" "overlay_ok E g" "covered g" using g by (simp_all add: durable_def)
  have meta: "meta_is E (gw_db t) k v = meta_is E (gw_db g) k v" for k v by (rule meta_is_cong) (simp add: eq(1))
  have stored: "stored_bundle E g ref b \<Longrightarrow> stored_bundle E t ref b" for ref b
    using t(2) by (elim stored_same) (simp_all add: eq(1) same_identity_def)
  show ?thesis unfolding durable_def
  proof (intro conjI)
    show "meta_ok E t" using ok(1) t(2-6) unfolding meta_ok_def meta by (auto simp: eq(1) same_identity_def)
    show "pointers_ok E t" by (rule pointers_ok_cong [OF ok(2)]) (simp_all add: eq(1))
    have same: "gw_active t = gw_active g" "gw_staged t = gw_staged g" "gw_previous t = gw_previous g" "gw_base t = gw_base g"
      "gw_active_bundle t = gw_active_bundle g" by (simp_all add: eq(1))
    show "bundles_ok E t" using ok(3) stored unfolding bundles_ok_def same by (auto split: option.splits; blast)
    show "overlay_ok E t" by (rule overlay_ok_cong [OF ok(4)]) (simp_all add: eq)
    show "covered t" by (rule covered_cong [OF ok(5)]) (simp_all add: eq)
  qed
qed

lemma open_contents:
  assumes "load_identity E s = (Inr (), u)" "recover_contents E u = (Inr (), t)"
  shows "open_body E s = (Inr (), t\<lparr>gw_deny_heartbeat_ms := 0\<rparr>)"
  using assms by (simp add: open_body_def recover_state_def gtry_def gbind_def)

lemma durable_heartbeat: "durable E t \<Longrightarrow> durable E (t\<lparr>gw_deny_heartbeat_ms := h\<rparr>)"
  by (erule durable_same) (simp_all add: files_kept_same)

lemma gateway_restart:
  assumes g: "durable E g" and c: "same_identity c (gw_config g)" "gf_channel_epoch c \<ge> 1" "gf_security_epoch c \<ge> 1" "gf_accepted_peppers c \<noteq> []"
    and calm: "bounded_pointer_file g" "calm_opening E n"
  obtains t where "gateway_open E c (gw_disk g) n = Inr t" "opened_as g c t" "durable E t"
proof -
  obtain s where s: "gateway_init c (gw_disk g) n = Inr s" using c by (auto simp: gateway_init_def checks_Inr intro: that)
  then have s_eq: "gw_config s = c" "gw_disk s = gw_disk g" "gw_calls s = n" "gw_active_bundle s = None" "gw_applied s = []"
    by (auto simp: gateway_init_def checks_Inr)
  have "meta_ok E g" using g by (simp add: durable_def)
  then obtain h r where u: "load_identity E s = (Inr (), identified s (gw_fence_epoch g) (gw_takeover_state g) h r)"
    "meta_is E (gw_db g) ''recovery_reason'' (MText r)" "r \<noteq> [] \<Longrightarrow> gw_recovery_required g"
    using identity_read [OF _ s_eq(2)] c(1) calm(2) s_eq(1,3) by (metis calm_opening_def)
  define u0 where "u0 = identified s (gw_fence_epoch g) (gw_takeover_state g) h r"
  have u0: "gw_disk u0 = gw_disk g" "gw_config u0 = c" "gw_active_bundle u0 = None" "gw_calls u0 = Suc n"
    "gw_fence_epoch u0 = gw_fence_epoch g" "gw_takeover_state u0 = gw_takeover_state g" "gw_recovery_required u0 \<longleftrightarrow> r \<noteq> []" "gw_applied u0 = []"
    by (simp_all add: u0_def identified_def s_eq)
  obtain t where t: "recover_contents E u0 = (Inr (), t)" "recovered_from g u0 t"
    by (rule contents_recovered [OF g u0(1) calm(1)])
      (use c(1) calm(2) in \<open>auto simp: u0 same_identity_def calm_opening_def numeral_3_eq_3\<close>)
  have "durable E t" by (rule recovered_durable [OF g t(2)]) (use c(1) u(2) in \<open>auto simp: u0\<close>)
  then have d: "durable E (t\<lparr>gw_deny_heartbeat_ms := 0\<rparr>)" by (rule durable_heartbeat)
  show thesis
  proof (rule that [OF _ _ d])
    show "gateway_open E c (gw_disk g) n = Inr (t\<lparr>gw_deny_heartbeat_ms := 0\<rparr>)"
      using s open_contents [OF u(1) [folded u0_def] t(1)] by (simp add: gateway_open_def)
    show "opened_as g c (t\<lparr>gw_deny_heartbeat_ms := 0\<rparr>)"
      using t(2) u(3) u0(2,5-8) by (auto simp: recovered_from_def opened_as_def pointers_kept_def)
  qed
qed

section \<open>The first opening\<close>

lemma set_meta_run:
  assumes "remetaed E f db (gw_db u)"
  obtains db' where "set_meta E k v u = (Inr (), upd_db (\<lambda>_. db') u)" "remetaed E (f(k \<mapsto> v)) db db'"
proof -
  have "is_ok (serialize (meta_json k v))" unfolding meta_json_def serialize_ok by simp
  then have "\<exists>x. fst (set_meta E k v u) = Inr x" using sealed_ok [of "ge_codec E" "''meta''" "meta_json k v" v]
    by (auto simp: set_meta_def gbind_def is_ok_iff)
  then obtain t where t: "set_meta E k v u = (Inr (), t)" by (metis old.unit.exhaust prod.collapse)
  with assms obtain db' where "t = upd_db (\<lambda>_. db') u" "remetaed E (f(k \<mapsto> v)) db db'" using set_meta_remeta by metis
  then show thesis using t that by blast
qed

lemma set_metas_run:
  assumes "remetaed E f db (gw_db u)"
  obtains db' where "gseq (map (\<lambda>(k, v). set_meta E k v) kvs) u = (Inr (), upd_db (\<lambda>_. db') u)" "remetaed E (f ++ map_of (rev kvs)) db db'"
  using assms
proof (induction kvs arbitrary: f u thesis)
  case Nil
  then show ?case using Nil.prems(1) [of "gw_db u"] by simp
next
  case (Cons x kvs)
  obtain k v where x: "x = (k, v)" by fastforce
  obtain db1 where one: "set_meta E k v u = (Inr (), upd_db (\<lambda>_. db1) u)" "remetaed E (f(k \<mapsto> v)) db db1"
    using Cons.prems(2) by (rule set_meta_run)
  then have "remetaed E (f(k \<mapsto> v)) db (gw_db (upd_db (\<lambda>_. db1) u))" by simp
  then obtain db2 where "gseq (map (\<lambda>(k, v). set_meta E k v) kvs) (upd_db (\<lambda>_. db1) u) = (Inr (), upd_db (\<lambda>_. db2) (upd_db (\<lambda>_. db1) u))"
      "remetaed E (f(k \<mapsto> v) ++ map_of (rev kvs)) db db2"
    by (rule Cons.IH [rotated])
  moreover have "f ++ map_of (rev (x # kvs)) = f(k \<mapsto> v) ++ map_of (rev kvs)"
    by (simp add: x fun_eq_iff map_add_def split: option.splits)
  ultimately show ?case using Cons.prems(1) [of db2] one(1) by (simp add: x gbind_def)
qed

definition empty_disk :: gateway_disk where
  "empty_disk = \<lparr>gd_db = empty_db, gd_bundle_files = [], gd_pointer_file = None, gd_quarantine = []\<rparr>"

definition identity_rows :: "gateway_config \<Rightarrow> (string \<times> meta_value) list" where
  "identity_rows c = [(''schema_version'', MInt 1), (''installation_id'', MText (gf_installation_id c)),
     (''channel_epoch'', MInt (gf_channel_epoch c)), (''security_epoch'', MInt (gf_security_epoch c)),
     (''fence_epoch'', MInt 1), (''takeover_state'', MText (takeover_value TS_NONE)),
     (''deny_heartbeat_ms'', MInt 0), (''recovery_reason'', MText [])]"

lemma identity_written:
  assumes "db_meta (gw_db s) = []" "\<not> mo_commit_fails (ge_moment E (gw_calls s))"
  obtains db where "load_identity E s = (Inr (), identified (upd_db (\<lambda>_. db) s) 1 TS_NONE 0 [])"
    "remetaed E (map_of (rev (identity_rows (gw_config s)))) (gw_db s) db"
proof -
  let ?rows = "identity_rows (gw_config s)"
  obtain db where w: "gseq (map (\<lambda>(k, v). set_meta E k v) ?rows) s = (Inr (), upd_db (\<lambda>_. db) s)"
      "remetaed E (Map.empty ++ map_of (rev ?rows)) (gw_db s) db"
    by (rule set_metas_run [OF remetaed_none])
  have m: "remetaed E (map_of (rev ?rows)) (gw_db s) db" using w(2) by simp
  then have "meta_is E db ''fence_epoch'' (MInt 1)" "meta_is E db ''takeover_state'' (MText (takeover_value TS_NONE))"
    "meta_is E db ''deny_heartbeat_ms'' (MInt 0)" "meta_is E db ''recovery_reason'' (MText [])"
    by (simp_all add: remetaed_def identity_rows_def)
  then have reads: "meta E ''fence_epoch'' (upd_db (\<lambda>_. db) s) = (Inr (Some (MInt 1)), upd_db (\<lambda>_. db) s)"
    "meta E ''takeover_state'' (upd_db (\<lambda>_. db) s) = (Inr (Some (MText (takeover_value TS_NONE))), upd_db (\<lambda>_. db) s)"
    "meta E ''deny_heartbeat_ms'' (upd_db (\<lambda>_. db) s) = (Inr (Some (MInt 0)), upd_db (\<lambda>_. db) s)"
    "meta E ''recovery_reason'' (upd_db (\<lambda>_. db) s) = (Inr (Some (MText [])), upd_db (\<lambda>_. db) s)"
    by (simp_all add: meta_read)
  note rows = w(1) [unfolded identity_rows_def list.map prod.case takeover_value.simps]
  have "load_identity E s = (Inr (), identified (upd_db (\<lambda>_. db) s) 1 TS_NONE 0 [])"
    unfolding load_identity_def using assms
    by (simp add: transaction_def gbind_def meta_def [of E "''schema_version''"] rows reads identified_def Let_def del: gseq.simps)
  then show thesis using m by (rule that)
qed

lemma durable_first:
  assumes "gw_disk s = empty_disk" "remetaed E (map_of (rev (identity_rows (gw_config s)))) (gw_db s) db"
    "gw_active s = None" "gw_staged s = None" "gw_previous s = None" "gw_base s = None" "gw_active_bundle s = None"
    "gw_denies s = []" "gw_deny_highwater s = []"
  shows "durable E (identified (upd_db (\<lambda>_. db) s) 1 TS_NONE 0 [])"
proof -
  let ?t = "identified (upd_db (\<lambda>_. db) s) 1 TS_NONE 0 []"
  have t: "gw_db ?t = db" "gw_config ?t = gw_config s" by (simp_all add: identified_def)
  have rows: "db_pointers db = []" "db_denies db = []" "db_deny_highwater db = []"
    using assms(1,2) by (simp_all add: remetaed_def empty_disk_def empty_db_def)
  have meta: "meta_is E db k v \<longleftrightarrow> map_of (rev (identity_rows (gw_config s))) k = Some v" for k v
    using assms(1,2) by (auto simp: remetaed_def empty_disk_def empty_db_def meta_is_def split: option.splits)
  have "meta_ok E ?t" unfolding meta_ok_def t meta by (simp add: identified_def identity_rows_def)
  moreover have "pointers_ok E ?t" using assms rows by (simp add: pointers_ok_def t pointer_is_def) (simp add: identified_def)
  moreover have "bundles_ok E ?t" using assms by (simp add: bundles_ok_def identified_def)
  moreover have "overlay_ok E ?t" using assms rows unfolding overlay_ok_def t by (simp add: deny_rows_def water_rows_def) (simp add: identified_def)
  moreover have "covered ?t" using assms by (simp add: covered_def identified_def)
  ultimately show ?thesis by (simp add: durable_def)
qed

lemma gateway_first_open:
  assumes c: "gf_channel_epoch c \<ge> 1" "gf_security_epoch c \<ge> 1" "gf_accepted_peppers c \<noteq> []" and calm: "calm_opening E n"
  obtains t where "gateway_open E c empty_disk n = Inr t" "durable E t" "gw_active t = None" "gw_staged t = None"
proof -
  obtain s where s: "gateway_init c empty_disk n = Inr s" using c by (auto simp: gateway_init_def checks_Inr intro: that)
  then have s_eq: "gw_config s = c" "gw_disk s = empty_disk" "gw_calls s = n" "gw_active s = None" "gw_staged s = None" "gw_previous s = None"
      "gw_base s = None" "gw_active_bundle s = None" "gw_denies s = []" "gw_deny_highwater s = []"
    by (auto simp: gateway_init_def checks_Inr)
  have "db_meta (gw_db s) = []" "\<not> mo_commit_fails (ge_moment E (gw_calls s))"
    using calm s_eq by (simp_all add: calm_opening_def empty_disk_def empty_db_def)
  then obtain db where w: "load_identity E s = (Inr (), identified (upd_db (\<lambda>_. db) s) 1 TS_NONE 0 [])"
      "remetaed E (map_of (rev (identity_rows (gw_config s)))) (gw_db s) db"
    by (rule identity_written)
  define g where "g = identified (upd_db (\<lambda>_. db) s) 1 TS_NONE 0 []"
  have d: "durable E g" unfolding g_def using s_eq by (intro durable_first w(2)) simp_all
  have g: "bounded_pointer_file g" "gw_active_bundle g = None" "gw_calls g = Suc n" "gw_active g = None" "gw_staged g = None"
      "\<not> gw_recovery_required g"
    using s_eq by (simp_all add: g_def identified_def bounded_pointer_file_def upd_db_def empty_disk_def)
  obtain t where t: "recover_contents E g = (Inr (), t)" "recovered_from g g t"
    by (rule contents_recovered [OF d refl g(1) refl g(2)])
      (use calm in \<open>auto simp: g(3) calm_opening_def numeral_3_eq_3\<close>)
  have "durable E t"
    by (rule recovered_durable [OF d t(2), where r = "[]"])
      (use w(2) in \<open>auto simp: same_identity_def g(6) g_def identified_def remetaed_def identity_rows_def\<close>)
  show thesis
  proof (rule that [OF _ durable_heartbeat [OF \<open>durable E t\<close>]])
    show "gateway_open E c empty_disk n = Inr (t\<lparr>gw_deny_heartbeat_ms := 0\<rparr>)"
      using s open_contents [OF w(1) [folded g_def] t(1)] by (simp add: gateway_open_def)
  qed (use t(2) g(4,5) in \<open>auto simp: recovered_from_def\<close>)
qed

end
