(* ===== verification/Activation_Sample.thy ===== *)
theory Activation_Sample
  imports Activation_Restart
begin

text \<open>
  One concrete gateway, evaluated by rewriting: it opens an empty disk, prepares the bundle of the component
  \<open>Bundle\<close> with a signed policy and commits it. The outside world is a codec whose digest is constant and
  that accepts every signature, and a clock that stands still.
\<close>

definition sample_digest :: string where
  "sample_digest = replicate 64 CHR ''a''"

definition sample_ref :: BundleReference where
  "sample_ref = \<lparr>br_generation = 1, br_bundle_hash = ''bh_'' @ sample_digest\<rparr>"

definition sample_envelope :: ActivationEnvelope where
  "sample_envelope = \<lparr>ae_trust_epoch = 1, ae_signer_key_id = ''p1ab'', ae_base_generation = 0,
     ae_base_bundle_hash = GENESIS_BASE_BUNDLE_HASH, ae_target_generation = 1,
     ae_target_content_hash = br_bundle_hash sample_ref, ae_source_fingerprint = ZERO_DIGEST,
     ae_security_fence = ZERO_DIGEST, ae_key_set_fence = ZERO_DIGEST, ae_impact_hash = ZERO_DIGEST\<rparr>"

definition sample_policy_text :: string where
  \<open>sample_policy_text = ''{"base_bundle_hash":"bh_'' @ ZERO_DIGEST @ ''","base_generation":0,"impact_hash":"'' @ ZERO_DIGEST @
     ''","key_set_fence":"'' @ ZERO_DIGEST @ ''","schema_version":1,"security_fence":"'' @ ZERO_DIGEST @ ''","signer_key_id":"p1ab",'' @
     ''"source_fingerprint":"'' @ ZERO_DIGEST @ ''","target_content_hash":"bh_'' @ sample_digest @ ''","target_generation":1,"trust_epoch":1}''\<close>

definition sample_signed :: SignedActivationV1 where
  "sample_signed = \<lparr>sa_payload_b64 = encode_b64 sample_policy_text, sa_signature = replicate 128 (CHR ''0''), sa_trust_epoch = 1,
     sa_signer_key_id = ''p1ab''\<rparr>"

definition sample_codec :: codec where
  "sample_codec = \<lparr>cd_sha = (\<lambda>_. sample_digest), cd_verify = (\<lambda>_ _ _. True), cd_sign = (\<lambda>_ _. replicate 64 (CHR 0x00)),
     cd_envelope = (\<lambda>_. Some sample_envelope), cd_bundle = (\<lambda>raw. if raw = ''123'' then Some sample_bundle else None),
     cd_bundle_json = (\<lambda>_. JInt 123)\<rparr>"

definition sample_moment :: moment where
  "sample_moment = \<lparr>mo_now_ms = 50000, mo_fresh_id = ''ack'', mo_crash = False, mo_commit_fails = False, mo_disk_intact = True,
     mo_cancelled = False, mo_callback = None, mo_readiness = (True, True, True)\<rparr>"

definition sample_limits :: BundleLimits where
  "sample_limits = \<lparr>bl_max_bundle_bytes = 9, bl_max_keys = 9, bl_max_policies = 9, bl_max_accounts = 9, bl_max_route_groups = 9,
     bl_max_legs = 9, bl_max_authorized_legs = 9, bl_max_command_records = 9, bl_max_auth_leases = 9\<rparr>"

definition sample_installation :: string where
  "sample_installation = ''inst_00000000-0000-4000-8000-000000000000''"

definition sample_boot :: string where
  "sample_boot = ''boot_00000000-0000-4000-8000-000000000000''"

definition sample_trust :: ChannelTrustSet where
  "sample_trust = \<lparr>ct_installation_id = sample_installation, ct_security_epoch = 1, ct_channel_epochs = [(1, [(1, [(''k1'', ''pk'')])])]\<rparr>"

definition sample_signer :: ChannelSigner where
  "sample_signer = \<lparr>sg_seal_id = ''k1'', sg_trust_epoch = 1, sg_private_key = ''sk''\<rparr>"

definition sample_env :: gateway_env where
  "sample_env = \<lparr>ge_codec = sample_codec, ge_moment = (\<lambda>_. sample_moment), ge_policy_keys = [(1, [(''p1ab'', ''pk'')])],
     ge_channel_trust = sample_trust, ge_ack_signer = sample_signer, ge_generation_gate = (\<lambda>_ _. Inr True),
     ge_backend_manifest_hash = pb_backend_manifest_hash sample_bundle, ge_limits = sample_limits\<rparr>"

definition sample_config :: gateway_config where
  "sample_config = \<lparr>gf_installation_id = sample_installation, gf_boot_id = sample_boot, gf_channel_epoch = 1, gf_security_epoch = 1,
     gf_accepted_peppers = [(''p1'', ''pepper'')], gf_limits = sample_limits\<rparr>"

definition sample_command :: "int \<Rightarrow> string \<Rightarrow> WireCommandKind \<Rightarrow> command_payload \<Rightarrow> GatewayCommandV1" where
  "sample_command i previous kind payload = \<lparr>gc_command_id = ''c'' @ json_int i, gc_installation_id = sample_installation, gc_channel_epoch = 1,
     gc_security_epoch = 1, gc_dispatcher_fence = 1, gc_boot_id = sample_boot, gc_sequence = i, gc_previous_digest = previous,
     gc_kind = kind, gc_issued_at_ms = 1, gc_payload = payload, gc_policy = Some sample_signed,
     gc_channel_seal = \<lparr>cs_seal_id = ''k1'', cs_trust_epoch = 1, cs_signature = replicate 128 (CHR ''0'')\<rparr>\<rparr>"

definition sample_prepare :: GatewayCommandV1 where
  "sample_prepare = sample_command 1 ZERO_DIGEST WC_PREPARE
     (PreparePayload \<lparr>pp_base = None, pp_target = sample_ref, pp_bundle_b64 = ''MTIz''\<rparr>)"

definition sample_commit :: GatewayCommandV1 where
  "sample_commit = sample_command 2 sample_digest WC_COMMIT (CommitPayload sample_ref)"

definition sample_verified :: "GatewayCommandV1 \<Rightarrow> VerifiedGatewayCommand" where
  "sample_verified c = \<lparr>vc_command = c, vc_command_digest = sample_digest, vc_policy = Some sample_envelope\<rparr>"

section \<open>The signed policy\<close>

lemma b64decode_std_encode:
  assumes "length bs mod 3 = 0" "list_all (\<lambda>n. n < 62) (encode_sextets (map of_char bs))"
  shows "b64decode_std (encode_b64 bs) = Some bs"
proof -
  let ?t = "encode_b64 bs"
  have plain: "list_all (\<lambda>c. c \<notin> set ''-_='') (map (\<lambda>n. B64_ALPHABET ! n) [0..<62])" by code_simp
  have digit: "b64_digit n \<notin> set ''-_=''" if "n < 62" for n
    using plain that unfolding list_all_iff set_map b64_digit_def by fastforce
  then have chars: "c \<notin> set ''-_=''" if "c \<in> set ?t" for c
    using assms(2) that by (auto simp: encode_b64_def list_all_iff simp del: set_simps)
  obtain k where "length bs = 3 * k" using assms(1) by auto
  then have "length ?t = (3 * (4 * k) + 2) div 3" by (simp add: length_encode_b64)
  also have "\<dots> = 4 * k" by presburger
  finally have len: "length ?t mod 4 = 0" by simp
  have strip: "b64_strip ?t = ?t"
  proof -
    have "CHR ''='' \<notin> set ?t" using chars [of "CHR ''=''"] by auto
    moreover have "last ?t \<in> set ?t" if "?t \<noteq> []" using that by simp
    moreover have "CHR ''='' \<in> set ?t" if "drop (length ?t - 2) ?t = ''==''" using that in_set_dropD [of "CHR ''=''" "length ?t - 2" ?t] by simp
    ultimately show ?thesis unfolding b64_strip_def by (cases ?t) auto
  qed
  have "list_all (\<lambda>c. b64_value c \<noteq> None) ?t" "map_option (map char_of) (decode_sextets (map (\<lambda>c. the (b64_value c)) ?t)) = Some bs"
    using b64decode_encode [of bs] by (simp_all add: b64decode_def split: if_splits)
  then show ?thesis using len strip chars by (auto simp: b64decode_std_def Let_def list_all_iff)
qed

lemma raw_zero: "concat (map escape_raw ZERO_DIGEST) = ZERO_DIGEST" "concat (map escape_raw sample_digest) = sample_digest"
  by (simp_all add: ZERO_DIGEST_def sample_digest_def escape_raw_def utf8_char_def Let_def map_replicate_const concat_replicate_trivial)

lemma sample_text: "canonical_json_bytes (envelope_json sample_envelope) = Inr sample_policy_text"
  by (simp add: canonical_json_bytes_def envelope_json_def sample_envelope_def sample_ref_def GENESIS_BASE_BUNDLE_HASH_def
      MAX_SAFE_INTEGER_def less_char_def less_eq_char_def raw_string_def raw_zero escape_raw_def utf8_char_def Let_def
      sample_policy_text_def json_int_def decimal.simps hex_char_def)

lemma digest_literals: "ZERO_DIGEST = ''0000000000000000000000000000000000000000000000000000000000000000''"
  "sample_digest = ''aaaaaaaaaaaaaaaaaaaaaaaaaaaaaaaaaaaaaaaaaaaaaaaaaaaaaaaaaaaaaaaa''"
  by (simp_all add: ZERO_DIGEST_def sample_digest_def eval_nat_numeral)

lemma sample_text_encodes: "b64decode_std (encode_b64 sample_policy_text) = Some sample_policy_text"
  by (rule b64decode_std_encode) (simp_all add: sample_policy_text_def digest_literals)

lemma sample_policy_verified: "verify_signed_activation sample_codec sample_signed [(1, [(''p1ab'', ''pk'')])] = Inr sample_envelope"
proof -
  have "is_ok (ActivationEnvelope_validate sample_envelope)" by code_simp
  then have valid: "ActivationEnvelope_validate sample_envelope = Inr sample_envelope"
    by (auto simp: ActivationEnvelope_validate_def is_ok_iff checks_Inr)
  have "fromhex (replicate 128 (CHR ''0'')) \<noteq> None" by code_simp
  then obtain sig where "fromhex (replicate 128 (CHR ''0'')) = Some sig" by blast
  then show ?thesis
    by (simp add: verify_signed_activation_def parse_activation_def payload_bytes_def sample_signed_def sample_text_encodes
        sample_codec_def valid sample_text) (simp add: sample_envelope_def)
qed

section \<open>The run\<close>

lemma sample_sealed: "is_ok (serialize j) \<Longrightarrow> sealed sample_codec t j v = Inr \<lparr>rw_value = v, rw_checksum = sample_digest\<rparr>"
  by (auto simp: sealed_def checksum_def canonical_json_bytes_def is_ok_iff sample_codec_def)

lemma sample_unseal: "is_ok (serialize j) \<Longrightarrow>
    unseal sample_codec t j e row = (if rw_checksum row \<noteq> sample_digest then Inl (ValueError e) else Inr (rw_value row))"
  by (auto simp: unseal_def checksum_def canonical_json_bytes_def is_ok_iff sample_codec_def)

lemma gbind_weak: "s = s' \<Longrightarrow> gbind m f s = gbind m f s'"
  by simp

lemma sample_env_simps:
  "ge_codec sample_env = sample_codec" "ge_moment sample_env n = sample_moment" "ge_policy_keys sample_env = [(1, [(''p1ab'', ''pk'')])]"
  "ge_channel_trust sample_env = sample_trust" "ge_ack_signer sample_env = sample_signer" "ge_generation_gate sample_env = (\<lambda>_ _. Inr True)"
  "ge_backend_manifest_hash sample_env = pb_backend_manifest_hash sample_bundle" "ge_limits sample_env = sample_limits"
  "mo_now_ms sample_moment = 50000" "mo_fresh_id sample_moment = ''ack''" "\<not> mo_crash sample_moment"
  "\<not> mo_commit_fails sample_moment" "mo_disk_intact sample_moment" "\<not> mo_cancelled sample_moment" "mo_callback sample_moment = None"
  by (simp_all add: sample_env_def sample_moment_def)

lemma ok_values:
  "is_ok (serialize (JStr x))" "is_ok (serialize JNull)" "is_ok (serialize (JInt i)) \<longleftrightarrow> - MAX_SAFE_INTEGER \<le> i \<and> i \<le> MAX_SAFE_INTEGER"
  "is_ok (serialize (JBool b))"
  by simp_all

lemmas json_rows = meta_json_def pointer_json_def bundle_row_json_def command_row_json_def channel_json_def reference_json_def
  opt_json_def serialize_ok ok_values MAX_SAFE_INTEGER_def

lemma sample_verify:
  assumes "is_ok (serialize (payload_json payload))" "i \<in> {1, 2}"
  shows "verify_command sample_env (sample_command i previous kind payload) = Inr (sample_verified (sample_command i previous kind payload))"
proof -
  let ?c = "sample_command i previous kind payload"
  have "is_ok (serialize (command_json ?c))" "is_ok (serialize (command_json (?c\<lparr>gc_channel_seal := blanked_seal (gc_channel_seal ?c)\<rparr>)))"
    using assms unfolding command_json_def serialize_ok
    by (auto simp: sample_command_def policy_json_def seal_json_def json_rows sample_signed_def blanked_seal_def simp del: serialize.simps)
  then obtain x y where xy: "canonical_json_bytes (command_json ?c) = Inr x"
      "canonical_json_bytes (command_json (?c\<lparr>gc_channel_seal := blanked_seal (gc_channel_seal ?c)\<rparr>)) = Inr y"
    by (auto simp: canonical_json_bytes_def is_ok_iff simp del: serialize.simps)
  have "fromhex (replicate 128 (CHR ''0'')) \<noteq> None" by code_simp
  then obtain sig where sig: "fromhex (replicate 128 (CHR ''0'')) = Some sig" by blast
  have c: "gc_installation_id ?c = sample_installation" "gc_channel_epoch ?c = 1" "gc_policy ?c = Some sample_signed"
      "cs_signature (gc_channel_seal ?c) = replicate 128 (CHR ''0'')" "cs_seal_id (gc_channel_seal ?c) = ''k1''" "cs_trust_epoch (gc_channel_seal ?c) = 1"
    by (simp_all add: sample_command_def)
  have "cd_verify sample_codec k m b" "cd_sha sample_codec z = sample_digest" for k m b z by (simp_all add: sample_codec_def)
  then show ?thesis
    by (simp add: verify_command_def authenticate_gateway_command_def sample_env_simps sample_trust_def channel_key_def check_signature_def
        gateway_command_signing_bytes_def gateway_command_digest_def xy sig c sample_policy_verified sample_verified_def)
qed

definition sample_meta :: "(string, meta_value sealed_row) dict" where
  "sample_meta = map (\<lambda>(k, v). (k, \<lparr>rw_value = v, rw_checksum = sample_digest\<rparr>)) (identity_rows sample_config)"

definition sample_opened :: gateway where
  "sample_opened = \<lparr>gw_config = sample_config,
     gw_disk = \<lparr>gd_db = empty_db\<lparr>db_meta := sample_meta\<rparr>, gd_bundle_files = [], gd_pointer_file = None, gd_quarantine = []\<rparr>,
     gw_active = None, gw_staged = None, gw_previous = None, gw_base = None, gw_active_bundle = None, gw_recovery_reason = [],
     gw_denies = [], gw_deny_highwater = [], gw_deny_heartbeat_ms = 0, gw_recovery_required = False, gw_takeover_state = TS_NONE,
     gw_fence_epoch = 1, gw_applied = [], gw_calls = 3\<rparr>"

lemma sample_opens: "gateway_open sample_env sample_config empty_disk 0 = Inr sample_opened"
proof -
  obtain s where s: "gateway_init sample_config empty_disk 0 = Inr s"
      "s = sample_opened\<lparr>gw_disk := empty_disk, gw_calls := 0\<rparr>"
    by (auto simp: gateway_init_def sample_config_def checks_Inr sample_opened_def)
  have id: "load_identity sample_env s = (Inr (), sample_opened\<lparr>gw_calls := 1\<rparr>)"
    unfolding s(2)
    by (simp add: load_identity_def transaction_def gbind_def sample_env_simps meta_def set_meta_def sample_sealed sample_unseal json_rows
        empty_disk_def empty_db_def upd_db_def Let_def sample_opened_def sample_config_def sample_meta_def identity_rows_def
        cong: gbind_weak del: serialize.simps)
  have "recover_contents sample_env (sample_opened\<lparr>gw_calls := 1\<rparr>) = (Inr (), sample_opened)"
    by (simp add: recover_contents_def transaction_def gbind_def sample_env_simps empty_db_def upd_db_def read_pointer_def load_denies_def
        backfill_deny_highwater_def load_deny_highwater_def quarantine_corrupt_commands_def reconcile_pointer_def Let_def dict_of_def
        sample_opened_def cong: gbind_weak del: serialize.simps)
  from open_contents [OF id this] show ?thesis using s(1) by (simp add: gateway_open_def sample_opened_def)
qed

definition sample_valid :: PolicyBundleV1 where
  "sample_valid = projr (PolicyBundleV1_validate sample_bundle)"

lemma sample_bundle_checked: "PolicyBundleV1_validate sample_bundle = Inr sample_valid" "PolicyBundleV1_validate sample_valid = Inr sample_valid"
proof -
  show v: "PolicyBundleV1_validate sample_bundle = Inr sample_valid"
    using sample_bundle_valid by (auto simp: sample_valid_def is_ok_iff)
  show "PolicyBundleV1_validate sample_valid = Inr sample_valid" using PolicyBundleV1_validate_idem [OF v] by (simp add: bundle_ok_def)
qed

lemma sample_valid_simps: "pb_generation sample_valid = 1" "pb_backend_manifest_hash sample_valid = pb_backend_manifest_hash sample_bundle"
  "count_checks sample_limits sample_valid"
  by code_simp+

lemma sample_ref_valid: "BundleReference_validate sample_ref = Inr sample_ref"
proof -
  have "is_ok (BundleReference_validate sample_ref)" by code_simp
  then show ?thesis by (rule validate_reference)
qed

lemma all_permitted_true: "all_permitted (\<lambda>_ _. Inr True) manifest ls = Inr True"
  by (induction ls) simp_all

lemma sample_hash: "bundle_hash (cd_sha sample_codec) raw = br_bundle_hash sample_ref"
  by (simp add: bundle_hash_def sample_codec_def sample_ref_def)

lemma sample_bundle_text: "canonical_bundle_bytes (cd_bundle_json sample_codec) sample_valid = Inr ''123''"
  by (simp add: canonical_bundle_bytes_def sample_bundle_checked sample_codec_def canonical_json_bytes_def MAX_SAFE_INTEGER_def
      json_int_def decimal.simps hex_char_def)

lemma sample_seal:
  assumes "is_ok (serialize (ack_json (a\<lparr>ga_channel_seal := blank_seal sample_signer\<rparr>)))"
  shows "seal_gateway_ack sample_codec a sample_signer =
    Inr (a\<lparr>ga_channel_seal := (blank_seal sample_signer)\<lparr>cs_signature := hex_of (replicate 64 (CHR 0x00))\<rparr>\<rparr>)"
proof -
  have "blanked_seal (blank_seal sample_signer) = blank_seal sample_signer" by (simp add: blanked_seal_def blank_seal_def)
  then show ?thesis using assms
    by (auto simp: seal_gateway_ack_def ack_signing_bytes_def Let_def canonical_json_bytes_def is_ok_iff sample_codec_def)
qed

lemma execute_verified:
  "verify_command E c = Inr v \<Longrightarrow> execute E mw c s = gbind (validate_new_command E v) (\<lambda>existing.
    case existing of
      Some rec \<Rightarrow> acknowledge E v rec
    | None \<Rightarrow>
      gbind (assert_unseen_binding E v) (\<lambda>_.
      case gc_kind c of
        WC_PREPARE \<Rightarrow> gbind (prepare E mw v) (\<lambda>_. acknowledge_recorded E v)
      | WC_COMMIT \<Rightarrow> commit_handler E mw v
      | WC_DENY \<Rightarrow> deny_handler E mw v
      | WC_CLEAR_DENY \<Rightarrow> clear_handler E mw v
      | WC_STATUS \<Rightarrow> status_handler E mw v)) s"
  by (simp add: execute_def gbind_def [of "glift _"])

lemma sample_validated: "validate_bundle sample_env ''123'' sample_ref s = (Inr sample_valid, asked s)"
proof -
  have "cd_bundle sample_codec ''123'' = Some sample_bundle" "bl_max_bundle_bytes sample_limits = 9" "br_generation sample_ref = 1"
    by (simp_all add: sample_codec_def sample_limits_def sample_ref_def)
  then show ?thesis
    by (simp add: validate_bundle_def Let_def sample_env_simps sample_hash sample_bundle_checked sample_bundle_text sample_valid_simps
        all_permitted_true gbind_def)
qed

lemma sample_policy_matches: "policy_matches (Some sample_envelope) None sample_ref = Inr ()"
  by (simp add: policy_matches_def envelope_base_def envelope_target_def sample_envelope_def sample_ref_def GENESIS_BASE_GENERATION_def)

lemma sample_bundle_bytes: "b64decode_std ''MTIz'' = Some ''123''"
  by (simp add: b64decode_std_def b64_strip_def b64_value_def B64_ALPHABET_def Let_def char_of_def) code_simp

lemma sample_prepare_verified: "verify_command sample_env sample_prepare = Inr (sample_verified sample_prepare)"
  unfolding sample_prepare_def by (rule sample_verify) (simp_all add: json_rows sample_ref_def del: serialize.simps)

lemma sample_commit_verified: "verify_command sample_env sample_commit = Inr (sample_verified sample_commit)"
  unfolding sample_commit_def by (rule sample_verify) (simp_all add: json_rows sample_ref_def del: serialize.simps)

definition sample_ack :: GatewayAckV1 where
  "sample_ack = \<lparr>ga_ack_id = ''ack'', ga_command_id = ''c1'', ga_command_digest = sample_digest, ga_installation_id = sample_installation,
     ga_channel_epoch = 1, ga_security_epoch = 1, ga_dispatcher_fence = 1, ga_boot_id = sample_boot, ga_sequence = 1,
     ga_status = GA_PREPARED, ga_acknowledged_at_ms = 50000, ga_result = [(''target'', reference_json sample_ref)],
     ga_channel_seal = (blank_seal sample_signer)\<lparr>cs_signature := hex_of (replicate 64 (CHR 0x00))\<rparr>\<rparr>"

definition sample_logged :: "command_values sealed_row" where
  "sample_logged = \<lparr>rw_value = \<lparr>cm_digest = sample_digest, cm_channel_epoch = 1, cm_sequence = 1, cm_ack_id = ''ack'', cm_status = GA_PREPARED,
     cm_result = [(''target'', reference_json sample_ref)], cm_ack = Some sample_ack\<rparr>, rw_checksum = sample_digest\<rparr>"

definition sample_staged_db :: gateway_db where
  "sample_staged_db = empty_db\<lparr>db_meta := sample_meta,
     db_bundles := [(br_bundle_hash sample_ref, \<lparr>rw_value = (1, 3), rw_checksum = sample_digest\<rparr>)],
     db_pointers := [(''staged'', \<lparr>rw_value = sample_ref, rw_checksum = sample_digest\<rparr>)],
     db_commands := [(''c1'', sample_logged)], db_channel_state := [(1, \<lparr>rw_value = (1, sample_digest), rw_checksum = sample_digest\<rparr>)]\<rparr>"

definition sample_staged :: gateway where
  "sample_staged = sample_opened\<lparr>gw_disk := \<lparr>gd_db = sample_staged_db, gd_bundle_files = [(br_bundle_hash sample_ref, ''123'')],
       gd_pointer_file = None, gd_quarantine = []\<rparr>, gw_staged := Some sample_ref, gw_calls := 17\<rparr>"

lemma sample_facts: "br_generation sample_ref = 1" "cs_trust_epoch (blank_seal sample_signer) = 1" "json_int 1 = ''1''" "json_int 2 = ''2''"
  by (simp_all add: sample_ref_def blank_seal_def sample_signer_def json_int_def decimal.simps hex_char_def)

lemmas sample_run = gbind_def Let_def sample_env_simps sample_facts sample_verified_def sample_command_def sample_trust_def sample_sealed sample_unseal
  sample_seal sample_config_def sample_limits_def sample_opened_def json_rows ack_json_def seal_json_def
  checks.simps(2) await_durable_def raise_if_def hold_activation_def crash_def transaction_def put_pointer_def upd_db_def empty_db_def
  validate_new_command_def assert_unseen_binding_def assert_current_fence_def record_pending_def reserve_command_record_def insert_command_def
  acknowledge_recorded_def acknowledge_def push_ack_def decode_command_def command_record_def lifecycle_def deny_floor_generation_def map_filter_def

lemma sample_prepares: "execute sample_env (gpure ()) sample_prepare sample_opened = (Inr sample_ack, sample_staged)"
  unfolding execute_verified [OF sample_prepare_verified]
  by (simp add: sample_run prepare_def sample_prepare_def PrepareCommandPayload_validate_def sample_ref_valid MAX_B64_BUNDLE_def bundle_bytes_def
      sample_bundle_bytes sample_validated sample_policy_matches validate_prepare_reference_def store_bundle_def stage_prepare_def sample_hash
      sample_bundle_text sample_ack_def sample_logged_def sample_staged_db_def sample_staged_def cong: gbind_weak del: serialize.simps)

lemma sample_loads: "load_bundle sample_env (br_bundle_hash sample_ref) sample_staged = (Inr sample_valid, sample_staged)"
proof -
  have "map_of (gd_bundle_files (gw_disk sample_staged)) (br_bundle_hash sample_ref) = Some ''123''" "gf_limits (gw_config sample_staged) = sample_limits"
    "cd_bundle sample_codec ''123'' = Some sample_bundle" "bl_max_bundle_bytes sample_limits = 9"
    by (simp_all add: sample_staged_def sample_opened_def sample_config_def sample_codec_def sample_limits_def)
  then show ?thesis
    by (simp add: load_bundle_def bounded_read_def sample_env_simps sample_hash sample_bundle_checked sample_bundle_text)
qed

lemma sample_commits: "gw_active (snd (execute sample_env (gpure ()) sample_commit sample_staged)) = Some sample_ref"
  and sample_commit_heartbeat: "gw_deny_heartbeat_ms (snd (execute sample_env (gpure ()) sample_commit sample_staged)) = 0"
proof -
  obtain payload where payload: "canonical_json_bytes (reference_json sample_ref) = Inr payload"
  proof -
    have "is_ok (serialize (reference_json sample_ref))" by (simp add: json_rows sample_facts del: serialize.simps)
    then show thesis using that by (auto simp: canonical_json_bytes_def is_ok_iff)
  qed
  have load: "load_bundle sample_env (br_bundle_hash sample_ref) s = (Inr sample_valid, s)"
    if "gd_bundle_files (gw_disk s) = [(br_bundle_hash sample_ref, ''123'')]" "gw_config s = sample_config" for s
  proof -
    have "fst (load_bundle sample_env (br_bundle_hash sample_ref) s) = fst (load_bundle sample_env (br_bundle_hash sample_ref) sample_staged)"
      by (rule load_bundle_cong) (use that in \<open>simp_all add: sample_staged_def sample_opened_def\<close>)
    then show ?thesis using load_bundle_same [of sample_env "br_bundle_hash sample_ref" s] by (simp add: sample_loads prod_eq_iff)
  qed
  note bytes = payload [unfolded reference_json_def sample_facts(1)]
  show "gw_active (snd (execute sample_env (gpure ()) sample_commit sample_staged)) = Some sample_ref"
    "gw_deny_heartbeat_ms (snd (execute sample_env (gpure ()) sample_commit sample_staged)) = 0"
    unfolding execute_verified [OF sample_commit_verified]
    by (simp_all add: sample_run commit_handler_def sample_commit_def sample_ref_valid sample_policy_matches validate_commit_reference_def commit_staged_def
        load bytes write_active_pointer_def apply_live_def sample_ack_def sample_logged_def sample_staged_db_def sample_staged_def
        cong: gbind_weak del: serialize.simps)
qed

section \<open>A take-over\<close>

definition sample_takeover :: takeover_env where
  "sample_takeover = \<lparr>te_env = sample_env, te_signer = sample_signer, te_old_channel_trust = sample_trust\<rparr>"

definition sample_target :: string where
  "sample_target = ''inst_00000000-0000-4000-8000-000000000001''"

definition sample_successor :: gateway where
  "sample_successor = sample_opened\<lparr>gw_config := sample_config\<lparr>gf_installation_id := sample_target\<rparr>\<rparr>"

definition sample_receipt :: FenceReceiptV1 where
  "sample_receipt = \<lparr>fr_payload = fence_payload sample_opened sample_target ZERO_DIGEST ZERO_DIGEST 1,
     fr_channel_seal = (blank_seal sample_signer)\<lparr>cs_signature := hex_of (replicate 64 (CHR 0x00))\<rparr>\<rparr>"

lemma sample_payload: "fence_payload sample_opened sample_target ZERO_DIGEST ZERO_DIGEST 1 =
    \<lparr>fp_old_installation_id = sample_installation, fp_target_installation_id = sample_target, fp_channel_epoch = 1, fp_security_epoch = 1,
     fp_old_boot_id = sample_boot, fp_credential_digest = ZERO_DIGEST, fp_network_digest = ZERO_DIGEST, fp_fence_epoch = 2, fp_fenced_at_ms = 1\<rparr>"
  by (simp add: fence_payload_def sample_opened_def sample_config_def)

lemma sample_payload_valid: "FenceReceiptPayloadV1_validate (fence_payload sample_opened sample_target ZERO_DIGEST ZERO_DIGEST 1) =
    Inr (fence_payload sample_opened sample_target ZERO_DIGEST ZERO_DIGEST 1)"
proof -
  have "is_ok (FenceReceiptPayloadV1_validate (fence_payload sample_opened sample_target ZERO_DIGEST ZERO_DIGEST 1))"
    unfolding sample_payload by code_simp
  then show ?thesis by (auto simp: FenceReceiptPayloadV1_validate_def is_ok_iff checks_Inr)
qed

lemma sample_receipt_text: "is_ok (serialize (receipt_json (sample_receipt\<lparr>fr_channel_seal := blank_seal sample_signer\<rparr>)))"
  "is_ok (serialize (receipt_json sample_receipt))"
  by (simp_all add: receipt_json_def sample_receipt_def sample_payload seal_json_def json_rows sample_facts del: serialize.simps)

lemma sample_receipt_sealed: "seal_fence_receipt sample_codec \<lparr>fr_payload = fence_payload sample_opened sample_target ZERO_DIGEST ZERO_DIGEST 1,
    fr_channel_seal = blank_seal sample_signer\<rparr> sample_signer = Inr sample_receipt"
proof -
  have "blanked_seal (blank_seal sample_signer) = blank_seal sample_signer" by (simp add: blanked_seal_def blank_seal_def)
  then show ?thesis using sample_receipt_text(1)
    by (auto simp: seal_fence_receipt_def receipt_signing_bytes_def sample_receipt_def Let_def canonical_json_bytes_def is_ok_iff sample_codec_def)
qed

lemma sample_receipt_verified: "verify_fence_receipt sample_codec sample_receipt sample_trust sample_target 1 = Inr (fr_payload sample_receipt)"
proof -
  have "blanked_seal (fr_channel_seal sample_receipt) = blank_seal sample_signer"
    by (simp add: sample_receipt_def blanked_seal_def blank_seal_def)
  then obtain bytes where "receipt_signing_bytes sample_receipt = Inr bytes"
    using sample_receipt_text(1) by (auto simp: receipt_signing_bytes_def canonical_json_bytes_def is_ok_iff)
  moreover have "fromhex (hex_of (replicate 64 (CHR 0x00))) \<noteq> None" by code_simp
  ultimately show ?thesis
    by (auto simp: verify_fence_receipt_def Let_def sample_receipt_def sample_payload sample_trust_def channel_key_def blank_seal_def
        sample_signer_def check_signature_def sample_codec_def)
qed

lemmas sample_fence_run = gbind_def Let_def sample_env_simps transaction_def await_durable_def raise_if_def crash_def
  store_receipt_def receipt_digest_def set_meta_def sample_sealed json_rows

lemma sample_receipt_fields: "fp_old_installation_id (fr_payload sample_receipt) = sample_installation"
  "fp_target_installation_id (fr_payload sample_receipt) = sample_target" "fp_fence_epoch (fr_payload sample_receipt) = 2"
  by (simp_all add: sample_receipt_def sample_payload)

lemma sample_receipt_bytes: "\<exists>bytes. canonical_json_bytes (receipt_json sample_receipt) = Inr bytes"
  using sample_receipt_text(2) by (auto simp: canonical_json_bytes_def is_ok_iff)

lemma sample_old_recorded:
  assumes "gf_installation_id (gw_config s) = sample_installation" "gw_fence_epoch s = 1"
  shows "fst (record_old_fence sample_env sample_receipt s) = Inr ()"
  using assms sample_receipt_text(2) sample_receipt_bytes
  by (auto simp: record_old_fence_def sample_receipt_fields sample_fence_run cong: gbind_weak simp del: serialize.simps)

lemma sample_new_accepted:
  assumes "gf_installation_id (gw_config s) = sample_target" "gw_fence_epoch s = 1"
  shows "fst (accept_takeover sample_env sample_receipt s) = Inr ()"
  using assms sample_receipt_text(2) sample_receipt_bytes
  by (auto simp: accept_takeover_def sample_receipt_fields sample_fence_run cong: gbind_weak simp del: serialize.simps)

lemma await_run:
  assumes "fst (m s) = Inr x"
  shows "fst (await_durable sample_env m s) = Inr (x, False)"
  using assms by (cases "m s") (simp add: await_durable_def gbind_def sample_env_simps)

lemma sample_fences: "fst (fence_old sample_takeover sample_target ZERO_DIGEST ZERO_DIGEST 1 sample_opened) = Inr sample_receipt"
proof -
  have s: "gf_installation_id (gw_config sample_opened) = sample_installation" "gw_fence_epoch sample_opened = 1"
    by (simp_all add: sample_opened_def sample_config_def)
  obtain t where t: "await_durable sample_env (record_old_fence sample_env sample_receipt) sample_opened = (Inr ((), False), t)"
    using await_run [of "record_old_fence sample_env sample_receipt", OF sample_old_recorded [OF s]] by (metis prod.collapse)
  show ?thesis
    by (simp add: fence_old_def Let_def sample_takeover_def sample_payload_valid sample_env_simps sample_receipt_sealed s sample_receipt_verified
        gbind_def t raise_if_def)
qed

lemma sample_accepts: "fst (accept_receipt sample_takeover sample_receipt sample_successor) = Inr ()"
proof -
  have s: "gf_installation_id (gw_config sample_successor) = sample_target" "gw_fence_epoch sample_successor = 1"
    by (simp_all add: sample_successor_def sample_opened_def)
  obtain t where t: "await_durable sample_env (accept_takeover sample_env sample_receipt) sample_successor = (Inr ((), False), t)"
    using await_run [of "accept_takeover sample_env sample_receipt", OF sample_new_accepted [OF s]] by (metis prod.collapse)
  have "ct_installation_id sample_trust = sample_installation" by (simp add: sample_trust_def)
  then show ?thesis
    by (simp add: accept_receipt_def Let_def sample_takeover_def sample_env_simps sample_receipt_fields s sample_receipt_verified
        gbind_def t raise_if_def)
qed

end
