(* ===== verification/Activation_Promises.thy ===== *)
theory Activation_Promises
  imports Activation_Sample
begin

text \<open>
  What a gateway promises over any run: commands from any sender with other tasks at the gate, take-overs, deny
  feed renewals, garbage collection of bundles and restarts from its own disk.
\<close>

section \<open>Runs\<close>

inductive gateway_step :: "gateway_env \<Rightarrow> gateway \<Rightarrow> gateway \<Rightarrow> bool" for E where
  step_side: "side_step E s t \<Longrightarrow> gateway_step E s t"
| step_execute: "others_only E mw \<Longrightarrow> execute E mw c s = (r, t) \<Longrightarrow> gateway_step E s t"
| step_collect: "gc_bundles s = (r, t) \<Longrightarrow> gateway_step E s t"
| step_restart: "same_identity c (gw_config s) \<Longrightarrow> bounded_pointer_file s \<Longrightarrow> calm_opening E n \<Longrightarrow>
    gateway_open E c (gw_disk s) n = Inr t \<Longrightarrow> gateway_step E s t"

definition first_opening :: "gateway_env \<Rightarrow> gateway \<Rightarrow> bool" where
  "first_opening E s \<longleftrightarrow> (\<exists>c n. calm_opening E n \<and> gateway_open E c empty_disk n = Inr s)"

definition rising :: "gateway \<Rightarrow> bool" where
  "rising s \<longleftrightarrow> (\<forall>ref b. gw_staged s = Some ref \<longrightarrow> gw_base s = Some b \<longrightarrow> br_generation b < br_generation ref)"

definition sound :: "gateway_env \<Rightarrow> gateway \<Rightarrow> bool" where
  "sound E s \<longleftrightarrow> durable E s \<and> rising s"

definition active_le :: "gateway \<Rightarrow> gateway \<Rightarrow> bool" where
  "active_le s t \<longleftrightarrow> (\<forall>a. gw_active s = Some a \<longrightarrow> (\<exists>b. gw_active t = Some b \<and> br_generation a \<le> br_generation b))"

lemma active_le_refl [simp]: "active_le s s" and active_le_trans: "active_le s t \<Longrightarrow> active_le t u \<Longrightarrow> active_le s u"
  by (fastforce simp: active_le_def)+

lemma active_le_kept: "pointers_kept s t \<Longrightarrow> active_le s t"
  by (simp add: active_le_def pointers_kept_def)

lemma rising_kept: "pointers_kept s t \<Longrightarrow> rising s \<Longrightarrow> rising t"
  by (simp add: rising_def pointers_kept_def)

definition forward :: "gateway_env \<Rightarrow> gateway \<Rightarrow> gateway \<Rightarrow> bool" where
  "forward E s t \<longleftrightarrow> sound E t \<and> progress s t \<and> active_le s t"

lemma forward_trans: "forward E s t \<Longrightarrow> forward E t u \<Longrightarrow> forward E s u"
  unfolding forward_def using progress_trans active_le_trans by blast

lemma forward_kept: "durable E t \<Longrightarrow> pointers_kept s t \<Longrightarrow> progress s t \<Longrightarrow> sound E s \<Longrightarrow> forward E s t"
  by (simp add: forward_def sound_def active_le_kept rising_kept)

lemma forward_around: "around E i s t \<Longrightarrow> sound E s \<Longrightarrow> forward E s t"
  using around_kept forward_kept unfolding sound_def by blast

lemma forward_effect:
  assumes "main_effect E v s t" "sound E s"
  shows "forward E s t"
proof -
  have d: "durable E t" using assms durable_main by (auto simp: sound_def)
  have "rising t \<and> active_le s t" using assms(1)
  proof cases
    case effect_prepare
    then show ?thesis by (auto simp: prepared_def rising_def active_le_def)
  next
    case effect_commit
    then show ?thesis using assms(2) by (auto simp: committed_def sound_def rising_def active_le_def)
  next
    case effect_deny
    then have "pointers_kept s t" by (auto simp: overlaid_def pointers_kept_def)
    then show ?thesis using assms(2) rising_kept active_le_kept by (simp add: sound_def)
  next
    case effect_clear
    then have "pointers_kept s t" by (auto simp: overlaid_def pointers_kept_def)
    then show ?thesis using assms(2) rising_kept active_le_kept by (simp add: sound_def)
  next
    case effect_status
    then have "pointers_kept s t" by (auto simp: renewed_def overlaid_def pointers_kept_def)
    then show ?thesis using assms(2) rising_kept active_le_kept by (simp add: sound_def)
  qed
  then show ?thesis using d progress_main [OF assms(1)] by (simp add: forward_def sound_def)
qed

lemma forward_execute:
  assumes "others_only E mw" "sound E s" "execute E mw c s = (r, t)"
  shows "forward E s t"
proof -
  have "durable E s" using assms(2) by (simp add: sound_def)
  from execute_effect [OF assms(1) this assms(3)] show ?thesis
  proof
    assume "took_effect E c s t"
    then obtain v u w where e: "around E (gc_command_id c) s u" "main_effect E v u w" "around E (gc_command_id c) w t"
      by (auto simp: took_effect_def effect_at_def)
    have u: "forward E s u" by (rule forward_around [OF e(1) assms(2)])
    then have w: "forward E u w" using e(2) forward_effect by (simp add: forward_def)
    then have "forward E w t" using e(3) forward_around by (simp add: forward_def)
    then show ?thesis using u w forward_trans by blast
  qed (rule forward_around [OF _ assms(2)])
qed

lemma map_of_filter_key: "map_of (filter (\<lambda>(h, _). P h) xs) k = (if P k then map_of xs k else None)"
  by (induction xs) auto

lemma forward_collect:
  assumes "gc_bundles s = (r, t)" "sound E s"
  shows "forward E s t"
proof -
  let ?files = "filter (\<lambda>(h, _). \<not> digest_id ''bh_'' h \<or> h \<in> set (retained_bundles s)) (gd_bundle_files (gw_disk s))"
  have t: "t = s\<lparr>gw_disk := (gw_disk s)\<lparr>gd_bundle_files := ?files\<rparr>\<rparr>" using assms(1) by (simp add: gc_bundles_def)
  have kept: "stored_bundle E t ref b" if "stored_bundle E s ref b" "gw_active s = Some ref \<or> gw_staged s = Some ref \<or> gw_previous s = Some ref" for ref b
  proof -
    have "br_bundle_hash ref \<in> set (retained_bundles s)" using that(2) by (auto simp: retained_bundles_def map_filter_def)
    then have "map_of (gd_bundle_files (gw_disk t)) (br_bundle_hash ref) = map_of (gd_bundle_files (gw_disk s)) (br_bundle_hash ref)"
      by (simp add: t map_of_filter_key)
    then show ?thesis using that(1) load_bundle_cong [of t "br_bundle_hash ref" s E] by (simp add: stored_bundle_def t)
  qed
  have d: "durable E s" "bundles_ok E s" using assms(2) by (simp_all add: sound_def durable_def)
  have "meta_ok E t" by (rule meta_ok_cong [of E s]) (use d in \<open>auto simp: t durable_def\<close>)
  moreover have "pointers_ok E t" by (rule pointers_ok_cong [of E s]) (use d in \<open>auto simp: t durable_def\<close>)
  moreover have "overlay_ok E t" by (rule overlay_ok_cong [of E s]) (use d in \<open>auto simp: t durable_def\<close>)
  moreover have "covered t" by (rule covered_cong [of s]) (use d in \<open>auto simp: t durable_def\<close>)
  moreover have "bundles_ok E t"
  proof -
    have same: "gw_active t = gw_active s" "gw_staged t = gw_staged s" "gw_previous t = gw_previous s" "gw_base t = gw_base s"
      "gw_active_bundle t = gw_active_bundle s" by (simp_all add: t)
    show ?thesis using d(2) kept unfolding bundles_ok_def same by (auto split: option.splits; blast)
  qed
  ultimately have "durable E t" by (simp add: durable_def)
  then show ?thesis by (rule forward_kept) (use assms(2) in \<open>simp_all add: t pointers_kept_def progress_def\<close>)
qed

lemma open_config:
  assumes "gateway_open E c d n = Inr t"
  shows "gf_channel_epoch c \<ge> 1" "gf_security_epoch c \<ge> 1" "gf_accepted_peppers c \<noteq> []"
  using assms by (auto simp: gateway_open_def gateway_init_def res_bind_Inr checks_Inr)

lemma forward_restart:
  assumes "same_identity c (gw_config s)" "bounded_pointer_file s" "calm_opening E n" "gateway_open E c (gw_disk s) n = Inr t" "sound E s"
  shows "forward E s t"
proof -
  have "durable E s" using assms(5) by (simp add: sound_def)
  then obtain u where u: "gateway_open E c (gw_disk s) n = Inr u" "opened_as s c u" "durable E u"
    using gateway_restart [OF _ assms(1) open_config [OF assms(4)] assms(2,3)] by blast
  then have "u = t" using assms(4) by simp
  with u(2,3) show ?thesis using assms(5) by (intro forward_kept) (simp_all add: opened_as_def progress_def chain_le_same)
qed

lemma forward_step: "gateway_step E s t \<Longrightarrow> sound E s \<Longrightarrow> forward E s t"
proof (induction rule: gateway_step.cases)
  case (step_side s t)
  then have "durable E s" by (simp add: sound_def)
  then show ?case using step_side durable_side side_kept progress_side by (intro forward_kept) blast+
qed (simp_all add: forward_execute forward_collect forward_restart)

interpretation gateway_runs: inductive_invariant "first_opening E" "gateway_step E" "sound E" for E
proof unfold_locales
  fix s assume "first_opening E s"
  then obtain c n where "calm_opening E n" "gateway_open E c empty_disk n = Inr s" by (auto simp: first_opening_def)
  then show "sound E s" using gateway_first_open [OF open_config] by (metis sound_def rising_def option.distinct(1) sum.inject(2))
next
  fix s t assume "sound E s" "gateway_step E s t"
  then show "sound E t" using forward_step by (simp add: forward_def)
qed

section \<open>Failing closed\<close>

lemma deny_all_closed:
  assumes "gw_recovery_required s \<or> gw_takeover_state s = TS_FENCED_OLD \<or> \<not> heartbeat_fresh s (mo_now_ms (ge_moment E (gw_calls s)))"
  obtains n where "deny_all E s = (Inr True, s\<lparr>gw_calls := n\<rparr>)"
proof (cases "gw_recovery_required s \<or> gw_takeover_state s = TS_FENCED_OLD")
  case True
  then show thesis by (intro that [of "gw_calls s"]) (simp add: deny_all_def)
next
  case False
  then show thesis using assms by (intro that [of "Suc (gw_calls s)"]) (auto simp: deny_all_def gbind_now)
qed

lemma permits_closed:
  assumes "gw_recovery_required s \<or> gw_takeover_state s = TS_FENCED_OLD \<or> \<not> heartbeat_fresh s (mo_now_ms (ge_moment E (gw_calls s)))"
  shows "fst (permits E leg g s) = Inr False"
proof -
  obtain n where "deny_all E s = (Inr True, s\<lparr>gw_calls := n\<rparr>)" using assms by (rule deny_all_closed)
  then show ?thesis by (simp add: permits_def gbind_def split: option.split)
qed

lemma dict_of_keyed: "map_of (dict_of (map (\<lambda>r. (f r, r)) rs)) k = Some r \<Longrightarrow> f r = k"
proof (induction rs arbitrary: k rule: rev_induct)
  case (snoc x rs)
  then show ?case by (auto simp: dict_of_snoc map_of_update split: if_splits)
qed (simp add: dict_of_def)

lemma view_closed:
  assumes "gw_recovery_required s \<or> gw_takeover_state s = TS_FENCED_OLD \<or> \<not> heartbeat_fresh s (mo_now_ms (ge_moment E (gw_calls s)))"
    "fst (current_auth_view E s) = Inr view" "map_of (av_key_index view) k = Some r"
  shows "\<not> key_is_live r view"
proof -
  obtain n where d: "deny_all E s = (Inr True, s\<lparr>gw_calls := n\<rparr>)" using assms(1) by (rule deny_all_closed)
  have "\<exists>rs. av_key_index view = dict_of (map (\<lambda>r. (ck_key_id r, r)) rs) \<and> av_denied_key_ids view = map fst (av_key_index view)"
    using assms(2) by (auto simp: current_auth_view_def gbind_def d Let_def split: option.splits sum.splits)
  then obtain rs where "av_key_index view = dict_of (map (\<lambda>r. (ck_key_id r, r)) rs)" "av_denied_key_ids view = map fst (av_key_index view)"
    by blast
  then show ?thesis using assms(3) dict_of_keyed [of ck_key_id rs k r] dict_has_map_of [of k "av_key_index view"]
    by (auto simp: key_is_live_def)
qed

text \<open>C10: the gateway fails closed. While recovery is required, while it is fenced, or when the deny feed was
  not renewed within the last ten seconds (or is dated in the future), no leg of any route group is permitted, also
  not by the generation gate of dispatch; if an authentication view is served at all, no presented key
  authenticates under it and no request queued under an earlier view passes its recheck; and no authorization
  lease is issued.\<close>

theorem gateway_fails_closed:
  assumes "gw_recovery_required s \<or> gw_takeover_state s = TS_FENCED_OLD \<or> \<not> heartbeat_fresh s (mo_now_ms (ge_moment E (gw_calls s)))"
  shows "fst (permits E leg g s) = Inr False \<and> fst (activation_permits E leg manifest s) = Inr False \<and>
    (\<forall>view. fst (current_auth_view E s) = Inr view \<longrightarrow>
       verify_client_key mac parsed view \<noteq> Inr client \<and> \<not> queued_identity_is_authorized client view) \<and>
    (\<forall>lease. fst (issue_auth_lease E now s) \<noteq> Inr lease)"
proof (intro conjI allI impI)
  show p: "fst (permits E leg g s) = Inr False" for g by (rule permits_closed [OF assms])
  show "fst (activation_permits E leg manifest s) = Inr False"
    using p [of None] by (cases "permits E leg None s") (simp add: activation_permits_def gbind_def)
  fix view assume v: "fst (current_auth_view E s) = Inr view"
  note dead = view_closed [OF assms v]
  show "verify_client_key mac parsed view \<noteq> Inr client" using verify_client_key_Inr [of mac parsed view client] dead by blast
  show "\<not> queued_identity_is_authorized client view"
    using dead by (auto simp: queued_identity_is_authorized_def split: option.splits if_splits)
next
  fix lease
  obtain n where "deny_all E s = (Inr True, s\<lparr>gw_calls := n\<rparr>)" using assms by (rule deny_all_closed)
  then show "fst (issue_auth_lease E now s) \<noteq> Inr lease" by (simp add: issue_auth_lease_def gbind_def split: option.split)
qed

section \<open>Restart\<close>

text \<open>C8: a restart loses nothing and permits nothing. Let a gateway that started on an empty disk have gone through
  any run. Opening its disk with the same identity succeeds and restores the active, staged, previous
  and base pointers, the active bundle, the fence, the take-over state, every deny and its high-water
  mark and the command chains; recovery is not required unless it was before; and until the deny feed is
  renewed no leg is permitted.\<close>

theorem restart_restores_activation:
  assumes "reachable (first_opening E) (gateway_step E) s" "same_identity c (gw_config s)"
    "gf_channel_epoch c \<ge> 1" "gf_security_epoch c \<ge> 1" "gf_accepted_peppers c \<noteq> []" "bounded_pointer_file s" "calm_opening E n"
  shows "\<exists>t. gateway_open E c (gw_disk s) n = Inr t \<and>
    gw_active t = gw_active s \<and> gw_staged t = gw_staged s \<and> gw_previous t = gw_previous s \<and> gw_base t = gw_base s \<and>
    gw_active_bundle t = gw_active_bundle s \<and> gw_fence_epoch t = gw_fence_epoch s \<and> gw_takeover_state t = gw_takeover_state s \<and>
    map_of (gw_denies t) = map_of (gw_denies s) \<and> map_of (gw_deny_highwater t) = map_of (gw_deny_highwater s) \<and>
    db_channel_state (gw_db t) = db_channel_state (gw_db s) \<and> (gw_recovery_required t \<longrightarrow> gw_recovery_required s) \<and>
    (\<forall>leg g. mo_now_ms (ge_moment E (gw_calls t)) > DENY_FRESH_MS \<longrightarrow> fst (permits E leg g t) = Inr False)"
proof -
  have "durable E s" using gateway_runs.invar_reachable [OF assms(1)] by (simp add: sound_def)
  from gateway_restart [OF this assms(2-7)] obtain t where t: "gateway_open E c (gw_disk s) n = Inr t" "opened_as s c t" "durable E t" .
  have "fst (permits E leg g t) = Inr False" if "mo_now_ms (ge_moment E (gw_calls t)) > DENY_FRESH_MS" for leg g
    using that t(2) by (intro permits_closed) (simp add: heartbeat_fresh_def opened_as_def)
  then show ?thesis using t(1,2) unfolding opened_as_def pointers_kept_def by (intro exI [of _ t]) simp
qed

section \<open>Nothing is undone\<close>

lemma forward_run: "(gateway_step E)\<^sup>*\<^sup>* s t \<Longrightarrow> sound E s \<Longrightarrow> forward E s t"
proof (induction rule: rtranclp_induct)
  case (step t u)
  have "forward E s t" using step by blast
  moreover from this have "forward E t u" using step(2) forward_step by (simp add: forward_def)
  ultimately show ?case by (rule forward_trans)
qed (simp add: forward_def)


section \<open>Activation\<close>

lemma active_changed:
  assumes "main_effect E v s t" "gw_active t \<noteq> gw_active s"
  obtains ref p where "gc_payload (vc_command v) = CommitPayload ref" "vc_policy v = Some p" "envelope_base p = gw_base s"
    "envelope_target p = ref" "committed E v ref s t"
  using assms(1)
proof cases
  case (effect_commit ref)
  then show thesis using that by (auto simp: policy_matches_def split: option.splits if_splits)
qed (use assms(2) in \<open>auto simp: prepared_def overlaid_def renewed_def\<close>)

text \<open>C6: the active bundle changes only by a signed commit. When executing a command changes the
  active pointer, the channel signature of the command was verified, it is a commit whose signed
  policy names exactly the bundle that was active as its base and exactly the new bundle as its target,
  it carries the boot, the security epoch and the fence of this gateway, the new bundle had been staged before,
  the old one is kept as the previous bundle, and the bundle in memory is the one stored under the
  new hash with the new generation.\<close>

theorem activation_only_by_signed_commit:
  assumes "reachable (first_opening E) (gateway_step E) s" "others_only E meanwhile" "execute E meanwhile c s = (r, t)"
    "gw_active t \<noteq> gw_active s"
  shows "\<exists>v p ref b. verify_command E c = Inr v \<and> gc_payload c = CommitPayload ref \<and> vc_policy v = Some p \<and>
    envelope_base p = gw_active s \<and> envelope_target p = ref \<and> gc_boot_id c = gf_boot_id (gw_config s) \<and>
    gc_security_epoch c = ct_security_epoch (ge_channel_trust E) \<and> gc_dispatcher_fence c = gw_fence_epoch s \<and>
    gw_staged s = Some ref \<and> gw_active t = Some ref \<and> gw_previous t = gw_active s \<and> gw_staged t = None \<and>
    gw_active_bundle t = Some b \<and> stored_bundle E t ref b"
proof -
  have s: "durable E s" "sound E s" using gateway_runs.invar_reachable [OF assms(1)] by (simp_all add: sound_def)
  have "\<not> around E (gc_command_id c) s t" using around_kept [OF _ s(1)] assms(4) unfolding pointers_kept_def by blast
  then have "took_effect E c s t" using execute_effect [OF assms(2) s(1) assms(3)] by blast
  then obtain v u w where e: "verify_command E c = Inr v" "gc_boot_id c = gf_boot_id (gw_config s)"
      "gc_security_epoch c = ct_security_epoch (ge_channel_trust E)" "gc_dispatcher_fence c = gw_fence_epoch s"
      "around E (gc_command_id c) s u" "main_effect E v u w" "around E (gc_command_id c) w t"
    by (auto simp: took_effect_def effect_at_def)
  have u: "durable E u" "pointers_kept s u" using around_kept [OF e(5) s(1)] by simp_all
  have w: "durable E w" using durable_main [OF e(6) u(1)] .
  have t: "durable E t" "pointers_kept w t" using around_kept [OF e(7) w] by simp_all
  have "gw_active w \<noteq> gw_active u" using assms(4) u(2) t(2) by (simp add: pointers_kept_def)
  with e(6) obtain ref p where c: "gc_payload (vc_command v) = CommitPayload ref" "vc_policy v = Some p" "envelope_base p = gw_base u"
      "envelope_target p = ref" "committed E v ref u w"
    by (rule active_changed)
  then have k: "gw_active t = Some ref" "gw_previous t = gw_active s" "gw_staged t = None" "gw_staged s = Some ref" "gw_base u = gw_active s"
    using u(2) t(2) by (auto simp: committed_def pointers_kept_def)
  then obtain b where "gw_active_bundle t = Some b" "stored_bundle E t ref b" using t(1) by (auto simp: durable_def bundles_ok_def)
  then show ?thesis using e(1-4) c(1-4) k verify_same [OF e(1)]
    by (intro exI [of _ v] exI [of _ p] exI [of _ ref] exI [of _ b]) simp
qed

section \<open>Once\<close>

definition chain_has :: "gateway \<Rightarrow> GatewayCommandV1 \<Rightarrow> bool" where
  "chain_has s c \<longleftrightarrow> (case map_of (db_channel_state (gw_db s)) (gc_channel_epoch c) of None \<Rightarrow> False
     | Some row \<Rightarrow> gc_sequence c \<le> fst (rw_value row))"

lemma chain_has_le: "chain_has s c \<Longrightarrow> chain_le (gw_db s) (gw_db t) \<Longrightarrow> chain_has t c"
  by (fastforce simp: chain_has_def chain_le_def split: option.splits)

lemma effect_chain:
  assumes "took_effect E c s t" "sound E s"
  shows "chain_has t c" "forward E s t"
proof -
  obtain v u w where e: "verify_command E c = Inr v" "around E (gc_command_id c) s u" "main_effect E v u w" "around E (gc_command_id c) w t"
    using assms(1) by (auto simp: took_effect_def effect_at_def)
  have u: "forward E s u" by (rule forward_around [OF e(2) assms(2)])
  have w: "forward E u w" using e(3) u forward_effect by (simp add: forward_def)
  have t: "forward E w t" using e(4) w forward_around by (simp add: forward_def)
  obtain st where "logged E v st (gw_db u) (gw_db w)" using e(3) by (rule main_logged)
  then have "chain_has w c" using logged_chain(2) verify_same [OF e(1)] by (fastforce simp: chain_has_def)
  then show "chain_has t c" using t chain_has_le by (simp add: forward_def progress_def)
  show "forward E s t" using u w t forward_trans by blast
qed

lemma execute_seen:
  assumes "chain_has s c" "execute E mw c s = (r, t)"
  shows "core_kept s t" "gw_applied t = gw_applied s"
proof -
  have "core_kept s t \<and> gw_applied t = gw_applied s"
  proof (cases "verify_command E c")
    case (Inl e)
    then show ?thesis using assms(2) by (simp add: execute_def gbind_def core_kept_def)
  next
    case (Inr v)
    have c: "vc_command v = c" using Inr by (rule verify_same)
    obtain x where x: "validate_new_command E v s = (x, s)" using validate_new_same [of E v s] by (metis prod.collapse)
    have "x \<noteq> Inr None" using x validate_new_None(3) [of E v s s] assms(1) by (auto simp: chain_has_def next_in_chain_def c split: option.splits)
    then consider e where "x = Inl e" | rc where "x = Inr (Some rc)" by (cases x) auto
    then show ?thesis
    proof cases
      case 1
      then show ?thesis using assms(2) Inr x by (simp add: execute_def gbind_def core_kept_def)
    next
      case (2 rc)
      then have "acknowledge E v rc s = (r, t)" using assms(2) Inr x by (simp add: execute_def gbind_def)
      then show ?thesis by (rule acknowledge_cases) (auto simp: core_kept_def)
    qed
  qed
  then show "core_kept s t" "gw_applied t = gw_applied s" by simp_all
qed

text \<open>C7: a command takes effect at most once. Let a command have taken effect, whether or not its
  sender got an answer. However the run goes on, with restarts, pruning of the log and any other
  commands, executing it again changes no pointer, no bundle in memory, no fence, no deny, no high-water mark,
  no command chain and applies no bundle again.\<close>

theorem command_takes_effect_once:
  assumes "reachable (first_opening E) (gateway_step E) s" "took_effect E c s t" "(gateway_step E)\<^sup>*\<^sup>* t u" "execute E meanwhile c u = (r, w)"
  shows "gw_active w = gw_active u \<and> gw_staged w = gw_staged u \<and> gw_previous w = gw_previous u \<and> gw_base w = gw_base u \<and>
    gw_active_bundle w = gw_active_bundle u \<and> gw_fence_epoch w = gw_fence_epoch u \<and> gw_takeover_state w = gw_takeover_state u \<and>
    map_of (gw_denies w) = map_of (gw_denies u) \<and> map_of (gw_deny_highwater w) = map_of (gw_deny_highwater u) \<and>
    db_channel_state (gw_db w) = db_channel_state (gw_db u) \<and> gw_applied w = gw_applied u"
proof -
  have s: "sound E s" using gateway_runs.invar_reachable [OF assms(1)] .
  have t: "chain_has t c" "sound E t" using effect_chain [OF assms(2) s] by (simp_all add: forward_def)
  have "chain_has u c" using forward_run [OF assms(3) t(2)] chain_has_le [OF t(1)] by (simp add: forward_def progress_def)
  from execute_seen [OF this assms(4)] show ?thesis by (simp add: core_kept_def)
qed

section \<open>Take-over\<close>

lemma sealed_payload: "seal_fence_receipt C r signer = Inr rc \<Longrightarrow> fr_payload rc = fr_payload r"
  by (auto simp: seal_fence_receipt_def Let_def res_bind_Inr)

lemma validated_payload: "FenceReceiptPayloadV1_validate p = Inr q \<Longrightarrow> q = p"
  by (simp add: FenceReceiptPayloadV1_validate_def checks_Inr)

lemma await_ok:
  assumes "gbind (await_durable E m) (\<lambda>(_, cancelled). gbind (raise_if cancelled) (\<lambda>_. gpure y)) s = (Inr z, t)"
  obtains q u where "m s = (Inr q, u)" "t = asked u" "z = y"
  using assms by (auto elim!: gbind_okE await_durableE simp: raise_if_def split: if_splits)

lemma fence_old_ok:
  assumes "fence_old T target cred net at s = (Inr rc, t)"
  shows "fr_payload rc = fence_payload s target cred net at" "gw_takeover_state t = TS_FENCED_OLD" "gw_fence_epoch t = gw_fence_epoch s + 1"
proof -
  let ?p = "fence_payload s target cred net at" and ?E = "te_env T"
  define work where "work receipt = gbind (await_durable ?E (record_old_fence ?E receipt)) (\<lambda>(_, cancelled).
      gbind (raise_if cancelled) (\<lambda>_. gpure receipt))" for receipt
  have "gbind (glift (FenceReceiptPayloadV1_validate ?p)) (\<lambda>payload.
     gbind (glift (seal_fence_receipt (ge_codec ?E) \<lparr>fr_payload = payload, fr_channel_seal = blank_seal (te_signer T)\<rparr> (te_signer T))) (\<lambda>receipt.
     gbind (glift (verify_fence_receipt (ge_codec ?E) receipt (te_old_channel_trust T) target (gw_fence_epoch s))) (\<lambda>_. work receipt))) s = (Inr rc, t)"
    using assms unfolding work_def by (simp add: fence_old_def Let_def)
  then obtain payload receipt where "FenceReceiptPayloadV1_validate ?p = Inr payload"
      "seal_fence_receipt (ge_codec ?E) \<lparr>fr_payload = payload, fr_channel_seal = blank_seal (te_signer T)\<rparr> (te_signer T) = Inr receipt"
      and run: "work receipt s = (Inr rc, t)"
    by (elim gbind_okE) auto
  then have payload: "fr_payload receipt = ?p" using sealed_payload validated_payload by fastforce
  from run [unfolded work_def] obtain q u where "record_old_fence ?E receipt s = (Inr q, u)" "t = asked u" "rc = receipt" by (rule await_ok)
  then have p: "fr_payload rc = ?p" "record_old_fence ?E rc s = (Inr q, u)" "t = asked u" using payload by simp_all
  show "fr_payload rc = ?p" by (rule p(1))
  from p(2) have "gw_takeover_state u = TS_FENCED_OLD \<and> gw_fence_epoch u = fp_fence_epoch (fr_payload rc)"
    by (rule record_old_fence_cases) (auto simp: fencing_def)
  then show "gw_takeover_state t = TS_FENCED_OLD" "gw_fence_epoch t = gw_fence_epoch s + 1" by (simp_all add: p fence_payload_def)
qed

lemma accept_receipt_ok:
  assumes "accept_receipt T rc s = (Inr x, t)"
  shows "gw_takeover_state t = TS_RELEASED" "gw_fence_epoch t = fp_fence_epoch (fr_payload rc)" "gw_fence_epoch s < gw_fence_epoch t"
    "fp_target_installation_id (fr_payload rc) = gf_installation_id (gw_config s)"
proof -
  obtain q u where p: "accept_takeover (te_env T) rc s = (Inr q, u)" "t = asked u"
    "fp_target_installation_id (fr_payload rc) = gf_installation_id (gw_config s)"
    using assms unfolding accept_receipt_def Let_def
    by (auto elim!: gbind_okE await_durableE simp: verify_fence_receipt_def Let_def raise_if_def split: if_splits)
  then show "fp_target_installation_id (fr_payload rc) = gf_installation_id (gw_config s)" by simp
  from p(1) have "gw_takeover_state u = TS_RELEASED \<and> gw_fence_epoch u = fp_fence_epoch (fr_payload rc) \<and> gw_fence_epoch s < gw_fence_epoch u"
    by (rule accept_takeover_cases) (auto simp: fencing_def)
  then show "gw_takeover_state t = TS_RELEASED" "gw_fence_epoch t = fp_fence_epoch (fr_payload rc)" "gw_fence_epoch s < gw_fence_epoch t"
    by (simp_all add: p)
qed

text \<open>C25: a take-over hands the fence from one gateway to the other. When the old gateway has returned a receipt and
  the new one has accepted it, the old one is fenced and permits no leg, the new one is the target the
  receipt names and is released under the same fence, and that fence is above the fence either of them
  had: a command that was bound to an earlier fence of either gateway is not current on the new one.\<close>

theorem takeover_hands_over_the_fence:
  assumes "fence_old T target credential network at s = (Inr receipt, t)" "accept_receipt T' receipt s' = (Inr x, t')"
  shows "gw_takeover_state t = TS_FENCED_OLD \<and> fst (permits E leg g t) = Inr False \<and> target = gf_installation_id (gw_config s') \<and>
    gw_takeover_state t' = TS_RELEASED \<and> gw_fence_epoch t' = gw_fence_epoch t \<and>
    gw_fence_epoch s < gw_fence_epoch t' \<and> gw_fence_epoch s' < gw_fence_epoch t' \<and>
    (gc_dispatcher_fence (vc_command v) \<le> max (gw_fence_epoch s) (gw_fence_epoch s') \<longrightarrow>
       assert_current_fence v t' = (Inl StaleFenceEpoch, t'))"
  using fence_old_ok [OF assms(1)] accept_receipt_ok [OF assms(2)] permits_closed [of t E leg g]
  by (auto simp: fence_payload_def assert_current_fence_def)

section \<open>Witnesses\<close>

definition sample_active :: gateway where
  "sample_active = snd (execute sample_env (gpure ()) sample_commit sample_staged)"

lemma sample_others: "others_only sample_env (gpure ())"
  by simp

lemma sample_calm: "calm_opening sample_env n"
  by (simp add: calm_opening_def sample_env_simps)

lemma sample_reachable: "reachable (first_opening sample_env) (gateway_step sample_env) sample_opened"
  "reachable (first_opening sample_env) (gateway_step sample_env) sample_staged"
proof -
  have "first_opening sample_env sample_opened" using sample_opens sample_calm by (auto simp: first_opening_def)
  then show o: "reachable (first_opening sample_env) (gateway_step sample_env) sample_opened" by (rule reachable.start)
  have "gateway_step sample_env sample_opened sample_staged" by (rule step_execute [OF sample_others sample_prepares])
  with o show "reachable (first_opening sample_env) (gateway_step sample_env) sample_staged" by (rule reachable.step)
qed

lemma sample_commit_run: "execute sample_env (gpure ()) sample_commit sample_staged = (fst (execute sample_env (gpure ()) sample_commit sample_staged), sample_active)"
  by (simp add: sample_active_def)

lemma sample_commit_step: "gateway_step sample_env sample_staged sample_active"
  by (rule step_execute [OF sample_others sample_commit_run])

lemma sample_changed: "gw_active sample_active \<noteq> gw_active sample_staged"
  using sample_commits by (simp add: sample_active_def sample_staged_def sample_opened_def)

lemma sample_heartbeat: "gw_deny_heartbeat_ms sample_active = 0"
  using sample_commit_heartbeat by (simp add: sample_active_def)

lemma sample_took_effect: "took_effect sample_env sample_commit sample_staged sample_active"
proof -
  have "durable sample_env sample_staged" using gateway_runs.invar_reachable [OF sample_reachable(2)] by (simp add: sound_def)
  then have "\<not> around sample_env (gc_command_id sample_commit) sample_staged sample_active"
    using around_kept sample_changed unfolding pointers_kept_def by blast
  then show ?thesis using execute_effect [OF sample_others \<open>durable sample_env sample_staged\<close> sample_commit_run] by blast
qed

theorem gateway_fails_closed_witness:
  "\<not> heartbeat_fresh sample_active 50000 \<and> (\<forall>leg g manifest now lease. fst (permits sample_env leg g sample_active) = Inr False \<and>
     fst (activation_permits sample_env leg manifest sample_active) = Inr False \<and> fst (issue_auth_lease sample_env now sample_active) \<noteq> Inr lease)"
proof -
  have "\<not> heartbeat_fresh sample_active 50000"
    using sample_heartbeat by (simp add: heartbeat_fresh_def DENY_FRESH_MS_def)
  then have "gw_recovery_required sample_active \<or> gw_takeover_state sample_active = TS_FENCED_OLD \<or>
      \<not> heartbeat_fresh sample_active (mo_now_ms (ge_moment sample_env (gw_calls sample_active)))"
    by (simp add: sample_env_simps)
  from gateway_fails_closed [OF this] \<open>\<not> heartbeat_fresh sample_active 50000\<close> show ?thesis by blast
qed

theorem restart_restores_activation_witness:
  "\<exists>t. gateway_open sample_env sample_config (gw_disk sample_staged) 0 = Inr t \<and> gw_staged t = Some sample_ref \<and> gw_fence_epoch t = 1 \<and>
     db_channel_state (gw_db t) = db_channel_state (gw_db sample_staged) \<and> (\<forall>leg g. fst (permits sample_env leg g t) = Inr False)"
proof -
  have s: "same_identity sample_config (gw_config sample_staged)" "bounded_pointer_file sample_staged" "gw_staged sample_staged = Some sample_ref"
    "gw_fence_epoch sample_staged = 1" "gf_channel_epoch sample_config \<ge> 1" "gf_security_epoch sample_config \<ge> 1" "gf_accepted_peppers sample_config \<noteq> []"
    by (simp_all add: sample_staged_def sample_opened_def same_identity_def bounded_pointer_file_def sample_config_def)
  have now: "DENY_FRESH_MS < mo_now_ms (ge_moment sample_env n)" for n by (simp add: sample_env_simps DENY_FRESH_MS_def)
  show ?thesis
    using restart_restores_activation [OF sample_reachable(2) s(1,5,6,7,2) sample_calm [of 0]] s(3,4) now by metis
qed


theorem activation_only_by_signed_commit_witness:
  "\<exists>v p b. verify_command sample_env sample_commit = Inr v \<and> vc_policy v = Some p \<and> envelope_target p = sample_ref \<and>
     gw_active sample_active = Some sample_ref \<and> gw_active_bundle sample_active = Some b \<and> stored_bundle sample_env sample_active sample_ref b"
proof -
  have a: "gw_active sample_active = Some sample_ref" using sample_commits by (simp add: sample_active_def)
  from activation_only_by_signed_commit [OF sample_reachable(2) sample_others sample_commit_run sample_changed] obtain v p ref b where
    "verify_command sample_env sample_commit = Inr v" "vc_policy v = Some p" "envelope_target p = ref" "gw_active sample_active = Some ref"
    "gw_active_bundle sample_active = Some b" "stored_bundle sample_env sample_active ref b" by blast
  then show ?thesis using a by auto
qed

theorem command_takes_effect_once_witness:
  "gw_active (snd (execute sample_env (gpure ()) sample_commit sample_active)) = gw_active sample_active \<and>
   gw_applied (snd (execute sample_env (gpure ()) sample_commit sample_active)) = gw_applied sample_active"
  using command_takes_effect_once [OF sample_reachable(2) sample_took_effect rtranclp.rtrancl_refl surjective_pairing] by blast

theorem takeover_hands_over_the_fence_witness:
  "gw_takeover_state (snd (fence_old sample_takeover sample_target ZERO_DIGEST ZERO_DIGEST 1 sample_opened)) = TS_FENCED_OLD \<and>
   gw_takeover_state (snd (accept_receipt sample_takeover sample_receipt sample_successor)) = TS_RELEASED \<and>
   gw_fence_epoch sample_successor < gw_fence_epoch (snd (accept_receipt sample_takeover sample_receipt sample_successor))"
proof -
  let ?old = "fence_old sample_takeover sample_target ZERO_DIGEST ZERO_DIGEST 1 sample_opened"
  let ?new = "accept_receipt sample_takeover sample_receipt sample_successor"
  have "?old = (Inr sample_receipt, snd ?old)" "?new = (Inr (), snd ?new)"
    using sample_fences sample_accepts by (metis prod.collapse)+
  from takeover_hands_over_the_fence [OF this] show ?thesis by blast
qed

end
