(* ===== verification/Spec2Isabelle.thy ===== *)
theory Spec2Isabelle
  imports Key_Lifecycle Scheduler_Promises Registry_Promises Routing_Promises Circuit_Control Journal_Promises
    Journal_Payloads Admission_Runs Control_Keys Activation_Promises
begin

text \<open>
  A verification of the LLMMaxxing gateway (\<open>src/src/llmmaxxing\<close>): the control data a gateway accepts,
  the clients it authenticates, the accounts whose capacity it hands out, the queue and the routing that
  decide who gets it, the journal that makes those decisions durable, and the activation of new bundles.

  \<^bold>\<open>The program.\<close> The control plane signs a bundle: provider accounts, route groups with their legs,
  policies and client keys (\<open>core/models.py\<close>), whose successors must respect the lifecycles of
  \<open>core/state_machines.py\<close> and \<open>core/key_lifecycle.py\<close>. A request arrives with a client key
  (\<open>core/key_material.py\<close>, \<open>gateway/auth.py\<close>), is admitted with a ceiling of legs it may use, waits in a
  weighted queue (\<open>gateway/scheduler.py\<close>), and is matched to a leg by the route engine
  (\<open>gateway/routing.py\<close>). Each provider account has one runtime that counts its active attempts, sliding
  windows and monthly usage (\<open>gateway/runtime_state.py\<close>); a reservation is granted only after the attempt
  journal (\<open>gateway/journal.py\<close>) has synced it. After a restart the registry of runtimes is rebuilt from a
  checkpoint and the records after it. Circuit breakers per account and deployment are stored in the
  runtimes and moved by the controller of \<open>gateway/routing.py\<close>. New bundles, denials and take-overs reach
  the gateway as signed commands (\<open>core/wire.py\<close>), which \<open>gateway/activation.py\<close> executes exactly once
  against its durable local state; the authentication view and the generation gate read that state.

  \<^bold>\<open>Theories.\<close>

  \<^item> \<open>Prelude\<close>: Python exceptions as values, dictionaries as association lists, and the interfaces
    \<open>inductive_invariant\<close> and \<open>contraction\<close>.
  \<^item> \<open>Reasons\<close>: the enumerations of \<open>core/reasons.py\<close>, the state machines of \<open>core/state_machines.py\<close>.
  \<^item> \<open>Authorization\<close>, \<open>Bundle\<close>: the value objects of \<open>core/models.py\<close> with every validator; the
    intersections of capabilities, legs and ceilings interpret \<open>contraction\<close> (\<open>cap\<close>, \<open>leg\<close>, \<open>ceil\<close>), so no
    chain of re-authorizations expands the first ceiling; a validated bundle is exact.
  \<^item> \<open>Key_Lifecycle\<close>: \<open>validate_key_record_delta\<close> and its set version; histories of accepted deltas
    never resurrect a credential.
  \<^item> \<open>Key_Material\<close>, \<open>Auth\<close>: the key grammar with its base64 and hex codecs, both verification paths,
    the legacy index and the recheck of queued work.
  \<^item> \<open>Scheduler\<close>, \<open>Scheduler_Fairness\<close>, \<open>Scheduler_Promises\<close>: class \<open>WDRRQueue\<close> with every operation as
    a function on the record \<open>WDRRQueue\<close>, its invariant (interpretation \<open>wdrr\<close>), the aging bound, the two
    to one share, FIFO within a key, snapshots; and a run in which a key starves.
  \<^item> \<open>Runtime_State\<close>, \<open>Runtime_Invariant\<close>, \<open>Runtime_Promises\<close>: class \<open>AccountRuntime\<close> as the record
    \<open>runtime\<close>; its step relation and invariant (interpretation \<open>account\<close>); limits are respected at every
    grant, no sliding window ever holds more than its limit, slots are freed only by releases.
  \<^item> \<open>Runtime_Registry\<close>, \<open>Registry_Promises\<close>, \<open>Operational_View\<close>: class \<open>RuntimeState\<close>: publication,
    snapshots, replay, recovery, the operational view; replay reproduces the live operations, bindings
    have one owner (interpretation \<open>bindings\<close>); and a run in which replay forgets a monthly charge.
  \<^item> \<open>Routing\<close>, \<open>Routing_Promises\<close>: failure classification, the send budget (interpretation \<open>budget\<close>)
    and the route engine: a selected candidate is authorized, sends are bounded.
  \<^item> \<open>Circuit_Control\<close>: class \<open>CircuitController\<close> refines an abstract breaker.
  \<^item> \<open>Journal_Values\<close>, \<open>Journal_Payloads\<close>: JSON values, canonical text, the closed vocabulary of the
    journal; the payload of each record method and its reading by the replay, with the round trip.
  \<^item> \<open>Journal\<close>: class \<open>AttemptJournal\<close>: files, recovery, writer thread, batches, segment rotation,
    checkpoints, compaction, lifecycle.
  \<^item> \<open>Journal_Recovery\<close>, \<open>Journal_Writer\<close>, \<open>Journal_Durability\<close>, \<open>Journal_Promises\<close>: recovery reads back
    what the writer wrote; triples for calls that may fail carry the history through every step of the
    writer; runs with failures, crashes, restarts, damaged checkpoints and power loss keep every
    acknowledged record (interpretation \<open>attempt_log\<close>); every command is answered; and three runs in
    which the code falls short.

  \<^item> \<open>Admission\<close>: class \<open>AdmissionController\<close> of \<open>gateway/scheduler.py\<close>: \<open>acquire\<close>, the previews, the
    pump and the lease operations as functions on the record \<open>admission\<close> (queue, waiters, active permits
    per key, the registry of runtimes, the leases and the answers of the futures). Every question it puts
    to the rest of the process is answered by the next of a sequence of worlds.
  \<^item> \<open>Admission_Invariant\<close>, \<open>Admission_Pump\<close>, \<open>Admission_Promises\<close>: triples for operations that may raise,
    the invariant (interpretation \<open>admitted\<close>: every lease has its permit, the waiters agree with
    the queue), what one turn of the pump does, and that the pump returns.
  \<^item> \<open>Admission_Runs\<close>: runs of the controller, among them three in which the code falls short: the pump
    spins on a rate limit, a failed \<open>acquire\<close> strands a lease, a failed roll back keeps a permit.

  \<^item> \<open>Control_Keys\<close>: the commands of \<open>control/keys.py\<close>: issuance with the one-time reveal, activation,
    suspension, rotation, expiry, revocation, policy reassignment, proved against \<open>Auth\<close>: an issued key
    authenticates until it expires, a rotation hands over, a revocation is final.
  \<^item> \<open>Canonical\<close>, \<open>Wire\<close>: canonical JSON and content hashes (\<open>core/canonical.py\<close>); the signed contract between
    control plane and gateway (\<open>core/wire.py\<close>, \<open>core/ids.py\<close>): commands, signed activations, acknowledgements,
    fence receipts, their validation, sealing and verification.
  \<^item> \<open>Activation\<close>, \<open>Activation_Service\<close>: class \<open>GatewayLocalState\<close> of \<open>gateway/activation.py\<close> as operations on the
    record \<open>gateway\<close> (tables, files and memory) that may raise at any crash point, and the services on
    it: the command executor with its five handlers, the generation gate, the take-over.
  \<^item> \<open>Activation_Steps\<close>, \<open>Activation_Overlay\<close>, \<open>Activation_Effects\<close>: inversion rules: wherever an operation
    raises, it either left the durable state as it was or made its whole change.
  \<^item> \<open>Activation_Invariant\<close>, \<open>Activation_Commands\<close>, \<open>Activation_Execute\<close>: memory and disk agree (\<open>durable\<close>); \<open>execute\<close>
    is small changes around at most one effect of the command it was given (\<open>execute_effect\<close>), with anything
    other tasks may do while it waits for the gate.
  \<^item> \<open>Activation_Restart\<close>: opening a disk rebuilds the memory of the state that left it, from an empty disk a
    state whose memory and disk agree.
  \<^item> \<open>Activation_Sample\<close>, \<open>Activation_Promises\<close>: a concrete gateway that activates a bundle; runs of commands,
    take-overs, renewals, garbage collection and restarts (interpretation \<open>gateway_runs\<close>): restart loses nothing,
    nothing goes back, the active bundle changes only by a signed commit, a command takes effect once, the
    gateway fails closed, and a take-over hands over the fence.

  \<^bold>\<open>Parameters.\<close> What the source takes from elsewhere is an argument. Clocks are integers passed in.
  HMAC, SHA-256 and the digests of canonical documents are functions; where a fact needs more it is a
  named hypothesis (\<open>hexdigest\<close>: a digest is 64 hexadecimal digits). The runtime theories take the outcome
  of each journal call from the record \<open>journal_env\<close> (one outcome per operation); the journal theories
  model the journal itself. The generation gate of the route engine is a function. Random identifiers
  are arguments. Failures of the file system are the field \<open>j_fault\<close>. Control-plane keys take their random bytes from
  \<open>key_source\<close>. The wire theory takes Ed25519, SHA-256 and the parsing of JSON into models from the record
  \<open>codec\<close>; the activation theories take every answer of the outside (clock, identifiers, crash points,
  failing commits, callbacks) from a sequence of \<open>moment\<close>s, and what other tasks do before the dispatcher
  gate is granted from the argument \<open>meanwhile\<close>.

  \<^bold>\<open>Bounds.\<close> All functions are total; loops over lists are structural and the scheduler's rounds carry
  their own measures. Only the admission pump has fuel, the number of its turns: the code's loop may
  spin, and \<open>pump_returns\<close> shows that fuel quadratic in the number of waiters, plus the turns spent on
  denied reservations with a fallback cause, is enough. Integers are Python's unbounded ones; the ranges that validators
  enforce are stated where they matter.

  \<^bold>\<open>Not modelled.\<close> asyncio and thread interleaving inside one operation: each operation is one step, as
  its lock makes it; the journal theories show one place where a lock is missing. In the admission
  theories the pump lock makes operations atomic, the worker of a cancelled \<open>mark_dispatched\<close> ends before
  the attempt is finished, and the operations other tasks make on their leases come between operations. HTTP handling, streaming
  and ingress (\<open>gateway/app.py\<close>, \<open>streaming.py\<close>, \<open>ingress.py\<close>), telemetry and metrics, SQL storage and
  migrations, the command line: input and output around the modelled core. Pydantic's dumps and
  schemas, the text of floating point numbers, and file and database calls below the level of one durable
  effect. Latency samples
  and the storage doctor of the journal. The emergency overlay (\<open>gateway/emergency.py\<close>), the
  profiler, and compilation, planning and signing of configurations (\<open>config/\<close>).
\<close>

end
